(* ===== verification/C_Prelude.thy ===== *)
theory C_Prelude
  imports Main "HOL-Library.Word" "HOL-Library.Multiset"
begin

text \<open>
  Shared vocabulary of the development: the fixed-width integers of the C code, the
  outcome of running a C function, byte-addressed memory regions with the library calls
  \<open>memcpy\<close> and \<open>memmove\<close>, little-endian encodings, the \<open>ALIGN_TO\<close> arithmetic, and the
  generic list and word lemmas that the component theories share.
\<close>

unbundle bit_operations_syntax

section \<open>Proof collections\<close>

named_theorems c_defs \<open>definitions of the C-level primitives\<close>
named_theorems mem_simps \<open>reading and writing memory regions\<close>
named_theorems tag_consts \<open>values of the camera metadata tag constants\<close>

lemma ex_offset_iff: "(\<exists>i<l. u = a + i) \<longleftrightarrow> a \<le> u \<and> u < l + (a::nat)"
  by (auto intro: exI [of _ "u - a"])

text \<open>Being pairwise related by a symmetric relation does not depend on the order.\<close>

lemma sorted_wrt_perm:
  assumes sym: "\<And>x y. R x y = R y x" and "mset xs = mset ys" "sorted_wrt R xs"
  shows "sorted_wrt R ys"
  using assms(2,3)
proof (induction xs arbitrary: ys)
  case (Cons x xs)
  then have "x \<in> set ys" by (metis list.set_intros(1) set_mset_mset)
  then obtain a b where ys: "ys = a @ x # b" by (meson split_list)
  then have m: "mset xs = mset (a @ b)" using Cons.prems(1) by simp
  with Cons have "sorted_wrt R (a @ b)" by simp
  moreover have "\<forall>y \<in> set (a @ b). R x y"
    using Cons.prems(2) m by (metis set_mset_mset sorted_wrt.simps(2))
  ultimately show ?case
    using sym by (auto simp: ys sorted_wrt_append)
qed simp

section \<open>Fixed-width integers\<close>

text \<open>The target is x86-64: \<open>size_t\<close> and pointers have 64 bits.\<close>

type_synonym u8 = "8 word"
type_synonym u16 = "16 word"
type_synonym u32 = "32 word"
type_synonym u64 = "64 word"

section \<open>Outcome of a call\<close>

text \<open>
  \<open>Ret v\<close>: the function returned \<open>v\<close>.  \<open>AssertFail\<close>: an \<open>assert\<close> failed and the
  process aborted (the build does not define \<open>NDEBUG\<close>).  \<open>Fault\<close>: the function read or
  wrote outside the memory it was given, which C leaves undefined.
\<close>

datatype 'a exec = Ret 'a | AssertFail | Fault

primrec bindE :: "'a exec \<Rightarrow> ('a \<Rightarrow> 'b exec) \<Rightarrow> 'b exec" where
  "bindE (Ret x) k = k x"
| "bindE AssertFail k = AssertFail"
| "bindE Fault k = Fault"

definition assertE :: "bool exec \<Rightarrow> 'a exec \<Rightarrow> 'a exec" where
  "assertE c k = bindE c (\<lambda>b. if b then k else AssertFail)"

definition deref :: "'a option \<Rightarrow> 'a exec" where
  "deref p = (case p of None \<Rightarrow> Fault | Some v \<Rightarrow> Ret v)"

lemma bindE_Ret_iff: "bindE x k = Ret r \<longleftrightarrow> (\<exists>y. x = Ret y \<and> k y = Ret r)"
  by (cases x) auto

lemma bindE_assoc: "bindE (bindE x f) g = bindE x (\<lambda>y. bindE (f y) g)"
  by (cases x) auto

lemma assertE_Ret_True [simp]: "assertE (Ret True) k = k"
  by (simp add: assertE_def)

lemma assertE_Ret_False [simp]: "assertE (Ret False) k = AssertFail"
  by (simp add: assertE_def)

lemma deref_simps [simp]: "deref None = Fault" "deref (Some v) = Ret v"
  by (simp_all add: deref_def)

text \<open>Status codes of \<open>utils/Errors.h\<close>.\<close>

abbreviation NO_MEMORY :: int where
  "NO_MEMORY \<equiv> - 12"

abbreviation INVALID_OPERATION :: int where
  "INVALID_OPERATION \<equiv> - 38"

abbreviation BAD_VALUE :: int where
  "BAD_VALUE \<equiv> - 22"

abbreviation NAME_NOT_FOUND :: int where
  "NAME_NOT_FOUND \<equiv> - 2"

text \<open>Results of signed arithmetic: an overflow is undefined in C.\<close>

definition int32E :: "int \<Rightarrow> int exec" where
  "int32E x = (if - (2 ^ 31) \<le> x \<and> x < 2 ^ 31 then Ret x else Fault)"

definition int64E :: "int \<Rightarrow> int exec" where
  "int64E x = (if - (2 ^ 63) \<le> x \<and> x < 2 ^ 63 then Ret x else Fault)"

text \<open>Reading an array element; an index outside the array is a fault.\<close>

definition array_read :: "'a list \<Rightarrow> nat \<Rightarrow> 'a exec" where
  "array_read xs i = (if i < length xs then Ret (xs ! i) else Fault)"

section \<open>Memory regions\<close>

text \<open>
  A region is the list of bytes an object occupies.  Reads and writes outside it have no
  value (\<open>None\<close>), which the callers turn into \<open>Fault\<close>.
\<close>

definition mem_read :: "nat \<Rightarrow> nat \<Rightarrow> 'a list \<Rightarrow> 'a list option" where
  "mem_read off n mem = (if off + n \<le> length mem then Some (take n (drop off mem)) else None)"

definition mem_write :: "nat \<Rightarrow> 'a list \<Rightarrow> 'a list \<Rightarrow> 'a list option" where
  "mem_write off bs mem =
     (if off + length bs \<le> length mem
      then Some (take off mem @ bs @ drop (off + length bs) mem) else None)"

text \<open>\<open>memcpy (dst + off, src, n)\<close> between two regions.\<close>

definition memcpy :: "nat \<Rightarrow> 'a list \<Rightarrow> nat \<Rightarrow> 'a list \<Rightarrow> 'a list option" where
  "memcpy off src n mem =
     (case mem_read 0 n src of None \<Rightarrow> None | Some bs \<Rightarrow> mem_write off bs mem)"

text \<open>\<open>memmove (mem + dst, mem + src, n)\<close> inside one region.\<close>

definition memmove :: "nat \<Rightarrow> nat \<Rightarrow> nat \<Rightarrow> 'a list \<Rightarrow> 'a list option" where
  "memmove dst src n mem =
     (case mem_read src n mem of None \<Rightarrow> None | Some bs \<Rightarrow> mem_write dst bs mem)"

lemma mem_read_Some [mem_simps]:
  "off + n \<le> length mem \<Longrightarrow> mem_read off n mem = Some (take n (drop off mem))"
  by (simp add: mem_read_def)

lemma mem_read_Some_iff:
  "mem_read off n mem = Some bs \<longleftrightarrow> off + n \<le> length mem \<and> bs = take n (drop off mem)"
  by (auto simp: mem_read_def)

lemma mem_write_Some [mem_simps]:
  "off + length bs \<le> length mem \<Longrightarrow>
   mem_write off bs mem = Some (take off mem @ bs @ drop (off + length bs) mem)"
  by (simp add: mem_write_def)

lemma mem_write_None [mem_simps]: "length mem < off + length bs \<Longrightarrow> mem_write off bs mem = None"
  by (simp add: mem_write_def)

lemma mem_write_length: "mem_write off bs mem = Some mem' \<Longrightarrow> length mem' = length mem"
  by (auto simp: mem_write_def split: if_splits)

text \<open>A read that does not meet the written range is not affected by the write.\<close>

lemma mem_write_read_disjoint:
  assumes w: "mem_write off bs mem = Some mem'" and d: "o' + n \<le> off \<or> off + length bs \<le> o'"
  shows "take n (drop o' mem') = take n (drop o' mem)"
proof -
  from w have len: "off + length bs \<le> length mem"
    and mem': "mem' = take off mem @ bs @ drop (off + length bs) mem"
    by (auto simp: mem_write_def split: if_splits)
  from d show ?thesis
  proof
    assume l: "o' + n \<le> off"
    then show ?thesis
      using len mem' by (intro nth_equalityI) (auto simp: nth_append)
  next
    assume r: "off + length bs \<le> o'"
    then have "drop o' mem' = drop o' mem"
      using len mem' by simp
    then show ?thesis by simp
  qed
qed

lemma mem_write_read_same:
  assumes w: "mem_write off bs mem = Some mem'"
  shows "take (length bs) (drop off mem') = bs"
  using w by (auto simp: mem_write_def split: if_splits)

text \<open>Reading a part of what was written.\<close>

lemma mem_write_read_inside:
  assumes w: "mem_write off bs mem = Some mem'" and i: "off \<le> o'" "o' + n \<le> off + length bs"
  shows "take n (drop o' mem') = take n (drop (o' - off) bs)"
proof -
  from w have len: "off + length bs \<le> length mem"
    and mem': "mem' = take off mem @ bs @ drop (off + length bs) mem"
    by (auto simp: mem_write_def split: if_splits)
  have "drop o' mem' = drop (o' - off) bs @ drop (off + length bs) mem"
    using i len mem' by simp
  then show ?thesis using i by simp
qed

lemma memmove_length: "memmove d s n mem = Some mem' \<Longrightarrow> length mem' = length mem"
  by (auto simp: memmove_def dest: mem_write_length split: option.splits)

lemma memcpy_length: "memcpy off src n mem = Some mem' \<Longrightarrow> length mem' = length mem"
  by (auto simp: memcpy_def dest: mem_write_length split: option.splits)

lemma memmove_Some:
  assumes "src + n \<le> length mem" "dst \<le> src"
  obtains mem' where "memmove dst src n mem = Some mem'"
proof -
  have "length (take n (drop src mem)) = n" using assms by simp
  with assms that show ?thesis
    by (simp add: memmove_def mem_read_def mem_write_def)
qed

text \<open>
  Closing a gap: moving the bytes behind a hole of \<open>k\<close> bytes at \<open>off\<close> down over it keeps
  what lies before the hole and shifts what lies behind it.
\<close>

lemma memmove_gap_before:
  assumes m: "memmove off (off + k) n mem = Some mem'" and "o' + l \<le> off"
  shows "take l (drop o' mem') = take l (drop o' mem)"
proof -
  from m obtain bs where "mem_write off bs mem = Some mem'"
    by (auto simp: memmove_def split: option.splits)
  then show ?thesis using assms(2) by (auto intro: mem_write_read_disjoint)
qed

lemma memmove_gap_behind:
  assumes m: "memmove off (off + k) n mem = Some mem'"
    and "off + k \<le> o'" "o' + l \<le> off + k + n"
  shows "take l (drop (o' - k) mem') = take l (drop o' mem)"
proof -
  from m have len: "off + k + n \<le> length mem"
    and w: "mem_write off (take n (drop (off + k) mem)) mem = Some mem'"
    by (auto simp: memmove_def mem_read_def split: option.splits if_splits)
  have n: "length (take n (drop (off + k) mem)) = n"
    using len by simp
  have "take l (drop (o' - k) mem') = take l (drop (o' - k - off) (take n (drop (off + k) mem)))"
    by (rule mem_write_read_inside [OF w]) (use assms n in auto)
  also have "\<dots> = take l (drop o' mem)"
    using assms by (simp add: drop_take min_def ac_simps)
  finally show ?thesis .
qed

section \<open>Little-endian encodings\<close>

definition le_bytes32 :: "u32 \<Rightarrow> u8 list" where
  "le_bytes32 w = [ucast w, ucast (drop_bit 8 w), ucast (drop_bit 16 w), ucast (drop_bit 24 w)]"

fun le_word32 :: "u8 list \<Rightarrow> u32" where
  "le_word32 [] = 0"
| "le_word32 (b # bs) = ucast b OR push_bit 8 (le_word32 bs)"

lemma length_le_bytes32 [simp]: "length (le_bytes32 w) = 4"
  by (simp add: le_bytes32_def)

lemma le_word32_bytes [simp]: "le_word32 (le_bytes32 w) = w"
proof (rule bit_word_eqI)
  fix n assume "n < LENGTH(32)"
  then consider "n < 8" | "8 \<le> n" "n < 16" | "16 \<le> n" "n < 24" | "24 \<le> n" "n < 32"
    by fastforce
  then show "bit (le_word32 (le_bytes32 w)) n = bit w n"
    by cases (auto simp: le_bytes32_def bit_simps)
qed

lemma le_bytes32_word: "length bs = 4 \<Longrightarrow> le_bytes32 (le_word32 bs) = bs"
proof -
  assume "length bs = 4"
  then obtain a b c d where "bs = [a, b, c, d]"
    by (auto simp: numeral_eq_Suc length_Suc_conv)
  then show ?thesis
    by (auto simp: le_bytes32_def intro!: bit_word_eqI) (auto simp: bit_simps dest: bit_imp_le_length)
qed

section \<open>Alignment\<close>

text \<open>\<open>#define ALIGN_TO(val, alignment)\<close>, with every operand converted to 64 bits.\<close>

definition ALIGN_TO :: "u64 \<Rightarrow> u64 \<Rightarrow> u64" where
  "ALIGN_TO val alignment = (val + (alignment - 1)) AND NOT (alignment - 1)"


lemma and_not_mask_eq: "x AND NOT (mask k) = push_bit k (drop_bit k (x :: 'a::len word))"
  by (rule bit_word_eqI) (auto simp: bit_simps)

lemma unat_and_not_mask: "unat (x AND NOT (mask k)) = unat (x :: 'a::len word) div 2 ^ k * 2 ^ k"
proof -
  have "unat x div 2 ^ k * 2 ^ k \<le> unat x" by simp
  also have "unat x < 2 ^ LENGTH('a)" by simp
  finally show ?thesis
    unfolding and_not_mask_eq unsigned_push_bit_eq unat_drop_bit_eq
    by (simp add: push_bit_eq_mult drop_bit_eq_div take_bit_eq_mod)
qed

text \<open>\<open>ALIGN_TO\<close> with an alignment of \<open>2 ^ k\<close> rounds up, as long as the sum does not wrap.\<close>

lemma unat_mask64: "k < 64 \<Longrightarrow> unat (mask k :: u64) = 2 ^ k - 1"
proof -
  assume "k < 64"
  have "unat (of_nat (mask k) :: u64) = take_bit 64 (mask k)"
    by (subst unsigned_of_nat) simp
  also have "\<dots> = mask k"
    using \<open>k < 64\<close> by (simp add: take_bit_of_mask min_def)
  finally show ?thesis by (simp add: mask_eq_exp_minus_1)
qed

lemma unat_ALIGN_TO:
  assumes al: "al = 2 ^ k" "k < 64" and nowrap: "unat v + (2 ^ k - 1) < 2 ^ 64"
  shows "unat (ALIGN_TO v al) = (unat v + (2 ^ k - 1)) div 2 ^ k * 2 ^ k"
proof -
  have m: "al - 1 = mask k" by (simp add: al mask_eq_exp_minus_1)
  have "unat (v + mask k) = unat v + (2 ^ k - 1)"
    using nowrap al(2) by (simp add: unat_word_ariths unat_mask64)
  then show ?thesis
    by (simp add: ALIGN_TO_def m unat_and_not_mask)
qed

text \<open>A value is its own rounding exactly when it is a multiple of the alignment.\<close>

lemma ALIGN_TO_fixed_iff:
  assumes al: "al = 2 ^ k" "k < 64"
  shows "v = ALIGN_TO v al \<longleftrightarrow> 2 ^ k dvd unat v"
proof
  assume "v = ALIGN_TO v al"
  then have "unat v = unat ((v + mask k) AND NOT (mask k))"
    by (simp add: ALIGN_TO_def al mask_eq_exp_minus_1)
  then show "2 ^ k dvd unat v"
    by (simp add: unat_and_not_mask)
next
  assume d: "2 ^ k dvd unat v"
  then obtain q where q: "unat v = 2 ^ k * q" by blast
  have "(2::nat) ^ k dvd 2 ^ 64" using al(2) by (intro le_imp_power_dvd) simp
  then obtain r where r: "(2::nat) ^ 64 = 2 ^ k * r" by blast
  have "unat v < 2 ^ 64" using unsigned_less [of v] by simp
  then have "2 ^ k * q < 2 ^ k * r" using q r by simp
  then have "q < r" by simp
  then have "2 ^ k * (q + 1) \<le> 2 ^ k * r" by (intro mult_le_mono2) simp
  moreover have "(0::nat) < 2 ^ k" by simp
  ultimately have "unat v + (2 ^ k - 1) < 2 ^ 64"
    unfolding q r by (simp only: distrib_left mult_1_right)
  moreover have "(2 ^ k * q + (2 ^ k - 1)) div 2 ^ k = q"
  proof -
    obtain p where "(2::nat) ^ k = Suc p"
      using \<open>(0::nat) < 2 ^ k\<close> gr0_implies_Suc by blast
    then show ?thesis by (simp only: diff_Suc_1) (rule div_nat_eqI, simp_all)
  qed
  ultimately have "unat (ALIGN_TO v al) = unat v"
    using unat_ALIGN_TO [OF al] q by (simp add: mult.commute)
  then show "v = ALIGN_TO v al" by (simp add: word_unat_eq_iff)
qed

lemma dvd_unat_add:
  fixes a b :: "'a::len word"
  assumes "2 ^ k dvd unat a" and "k \<le> LENGTH('a)"
  shows "2 ^ k dvd unat (a + b) \<longleftrightarrow> 2 ^ k dvd unat b"
proof -
  have "(2::nat) ^ k dvd 2 ^ LENGTH('a)" using assms(2) by (rule le_imp_power_dvd)
  then have "2 ^ k dvd unat (a + b) \<longleftrightarrow> 2 ^ k dvd unat a + unat b"
    by (simp add: unat_word_ariths dvd_mod_iff)
  with assms(1) show ?thesis by (simp add: dvd_add_right_iff)
qed

end
