(* ===== verification/Tag_Constants.thy ===== *)
theory Tag_Constants
  imports C_Prelude
begin

text \<open>
  The enumerations of \<open>androidheaders/system/camera_metadata_tags.h\<close> that number the metadata
  sections and tags, one constant per enumerator in the header's order, and the entry types
  of \<open>camera_metadata.h\<close>.  A tag is its section number shifted left by 16 plus its position
  in the section; each section ends with an \<open>_END\<close> enumerator.
\<close>

section \<open>Entry types\<close>

definition TYPE_BYTE :: u8 where
  "TYPE_BYTE = 0"

definition TYPE_INT32 :: u8 where
  "TYPE_INT32 = 1"

definition TYPE_FLOAT :: u8 where
  "TYPE_FLOAT = 2"

definition TYPE_INT64 :: u8 where
  "TYPE_INT64 = 3"

definition TYPE_DOUBLE :: u8 where
  "TYPE_DOUBLE = 4"

definition TYPE_RATIONAL :: u8 where
  "TYPE_RATIONAL = 5"

definition NUM_TYPES :: u8 where
  "NUM_TYPES = 6"

lemmas entry_type_consts =
  TYPE_BYTE_def TYPE_INT32_def TYPE_FLOAT_def TYPE_INT64_def TYPE_DOUBLE_def TYPE_RATIONAL_def NUM_TYPES_def

section \<open>Sections\<close>

definition ANDROID_COLOR_CORRECTION :: u32 where
  "ANDROID_COLOR_CORRECTION = 0"

definition ANDROID_CONTROL :: u32 where
  "ANDROID_CONTROL = 1"

definition ANDROID_DEMOSAIC :: u32 where
  "ANDROID_DEMOSAIC = 2"

definition ANDROID_EDGE :: u32 where
  "ANDROID_EDGE = 3"

definition ANDROID_FLASH :: u32 where
  "ANDROID_FLASH = 4"

definition ANDROID_FLASH_INFO :: u32 where
  "ANDROID_FLASH_INFO = 5"

definition ANDROID_HOT_PIXEL :: u32 where
  "ANDROID_HOT_PIXEL = 6"

definition ANDROID_JPEG :: u32 where
  "ANDROID_JPEG = 7"

definition ANDROID_LENS :: u32 where
  "ANDROID_LENS = 8"

definition ANDROID_LENS_INFO :: u32 where
  "ANDROID_LENS_INFO = 9"

definition ANDROID_NOISE_REDUCTION :: u32 where
  "ANDROID_NOISE_REDUCTION = 10"

definition ANDROID_QUIRKS :: u32 where
  "ANDROID_QUIRKS = 11"

definition ANDROID_REQUEST :: u32 where
  "ANDROID_REQUEST = 12"

definition ANDROID_SCALER :: u32 where
  "ANDROID_SCALER = 13"

definition ANDROID_SENSOR :: u32 where
  "ANDROID_SENSOR = 14"

definition ANDROID_SENSOR_INFO :: u32 where
  "ANDROID_SENSOR_INFO = 15"

definition ANDROID_SHADING :: u32 where
  "ANDROID_SHADING = 16"

definition ANDROID_STATISTICS :: u32 where
  "ANDROID_STATISTICS = 17"

definition ANDROID_STATISTICS_INFO :: u32 where
  "ANDROID_STATISTICS_INFO = 18"

definition ANDROID_TONEMAP :: u32 where
  "ANDROID_TONEMAP = 19"

definition ANDROID_LED :: u32 where
  "ANDROID_LED = 20"

definition ANDROID_INFO :: u32 where
  "ANDROID_INFO = 21"

definition ANDROID_BLACK_LEVEL :: u32 where
  "ANDROID_BLACK_LEVEL = 22"

definition ANDROID_SYNC :: u32 where
  "ANDROID_SYNC = 23"

definition ANDROID_REPROCESS :: u32 where
  "ANDROID_REPROCESS = 24"

definition ANDROID_DEPTH :: u32 where
  "ANDROID_DEPTH = 25"

definition ANDROID_SECTION_COUNT :: u32 where
  "ANDROID_SECTION_COUNT = 26"

definition VENDOR_SECTION :: u32 where
  "VENDOR_SECTION = 32768"

definition ANDROID_COLOR_CORRECTION_START :: u32 where
  "ANDROID_COLOR_CORRECTION_START = push_bit 16 ANDROID_COLOR_CORRECTION"

definition ANDROID_CONTROL_START :: u32 where
  "ANDROID_CONTROL_START = push_bit 16 ANDROID_CONTROL"

definition ANDROID_DEMOSAIC_START :: u32 where
  "ANDROID_DEMOSAIC_START = push_bit 16 ANDROID_DEMOSAIC"

definition ANDROID_EDGE_START :: u32 where
  "ANDROID_EDGE_START = push_bit 16 ANDROID_EDGE"

definition ANDROID_FLASH_START :: u32 where
  "ANDROID_FLASH_START = push_bit 16 ANDROID_FLASH"

definition ANDROID_FLASH_INFO_START :: u32 where
  "ANDROID_FLASH_INFO_START = push_bit 16 ANDROID_FLASH_INFO"

definition ANDROID_HOT_PIXEL_START :: u32 where
  "ANDROID_HOT_PIXEL_START = push_bit 16 ANDROID_HOT_PIXEL"

definition ANDROID_JPEG_START :: u32 where
  "ANDROID_JPEG_START = push_bit 16 ANDROID_JPEG"

definition ANDROID_LENS_START :: u32 where
  "ANDROID_LENS_START = push_bit 16 ANDROID_LENS"

definition ANDROID_LENS_INFO_START :: u32 where
  "ANDROID_LENS_INFO_START = push_bit 16 ANDROID_LENS_INFO"

definition ANDROID_NOISE_REDUCTION_START :: u32 where
  "ANDROID_NOISE_REDUCTION_START = push_bit 16 ANDROID_NOISE_REDUCTION"

definition ANDROID_QUIRKS_START :: u32 where
  "ANDROID_QUIRKS_START = push_bit 16 ANDROID_QUIRKS"

definition ANDROID_REQUEST_START :: u32 where
  "ANDROID_REQUEST_START = push_bit 16 ANDROID_REQUEST"

definition ANDROID_SCALER_START :: u32 where
  "ANDROID_SCALER_START = push_bit 16 ANDROID_SCALER"

definition ANDROID_SENSOR_START :: u32 where
  "ANDROID_SENSOR_START = push_bit 16 ANDROID_SENSOR"

definition ANDROID_SENSOR_INFO_START :: u32 where
  "ANDROID_SENSOR_INFO_START = push_bit 16 ANDROID_SENSOR_INFO"

definition ANDROID_SHADING_START :: u32 where
  "ANDROID_SHADING_START = push_bit 16 ANDROID_SHADING"

definition ANDROID_STATISTICS_START :: u32 where
  "ANDROID_STATISTICS_START = push_bit 16 ANDROID_STATISTICS"

definition ANDROID_STATISTICS_INFO_START :: u32 where
  "ANDROID_STATISTICS_INFO_START = push_bit 16 ANDROID_STATISTICS_INFO"

definition ANDROID_TONEMAP_START :: u32 where
  "ANDROID_TONEMAP_START = push_bit 16 ANDROID_TONEMAP"

definition ANDROID_LED_START :: u32 where
  "ANDROID_LED_START = push_bit 16 ANDROID_LED"

definition ANDROID_INFO_START :: u32 where
  "ANDROID_INFO_START = push_bit 16 ANDROID_INFO"

definition ANDROID_BLACK_LEVEL_START :: u32 where
  "ANDROID_BLACK_LEVEL_START = push_bit 16 ANDROID_BLACK_LEVEL"

definition ANDROID_SYNC_START :: u32 where
  "ANDROID_SYNC_START = push_bit 16 ANDROID_SYNC"

definition ANDROID_REPROCESS_START :: u32 where
  "ANDROID_REPROCESS_START = push_bit 16 ANDROID_REPROCESS"

definition ANDROID_DEPTH_START :: u32 where
  "ANDROID_DEPTH_START = push_bit 16 ANDROID_DEPTH"

definition VENDOR_SECTION_START :: u32 where
  "VENDOR_SECTION_START = push_bit 16 VENDOR_SECTION"

section \<open>Tags\<close>

definition ANDROID_COLOR_CORRECTION_MODE :: u32 where
  "ANDROID_COLOR_CORRECTION_MODE = ANDROID_COLOR_CORRECTION_START"

definition ANDROID_COLOR_CORRECTION_TRANSFORM :: u32 where
  "ANDROID_COLOR_CORRECTION_TRANSFORM = ANDROID_COLOR_CORRECTION_START + 1"

definition ANDROID_COLOR_CORRECTION_GAINS :: u32 where
  "ANDROID_COLOR_CORRECTION_GAINS = ANDROID_COLOR_CORRECTION_START + 2"

definition ANDROID_COLOR_CORRECTION_ABERRATION_MODE :: u32 where
  "ANDROID_COLOR_CORRECTION_ABERRATION_MODE = ANDROID_COLOR_CORRECTION_START + 3"

definition ANDROID_COLOR_CORRECTION_AVAILABLE_ABERRATION_MODES :: u32 where
  "ANDROID_COLOR_CORRECTION_AVAILABLE_ABERRATION_MODES = ANDROID_COLOR_CORRECTION_START + 4"

definition ANDROID_COLOR_CORRECTION_END :: u32 where
  "ANDROID_COLOR_CORRECTION_END = ANDROID_COLOR_CORRECTION_START + 5"

definition ANDROID_CONTROL_AE_ANTIBANDING_MODE :: u32 where
  "ANDROID_CONTROL_AE_ANTIBANDING_MODE = ANDROID_CONTROL_START"

definition ANDROID_CONTROL_AE_EXPOSURE_COMPENSATION :: u32 where
  "ANDROID_CONTROL_AE_EXPOSURE_COMPENSATION = ANDROID_CONTROL_START + 1"

definition ANDROID_CONTROL_AE_LOCK :: u32 where
  "ANDROID_CONTROL_AE_LOCK = ANDROID_CONTROL_START + 2"

definition ANDROID_CONTROL_AE_MODE :: u32 where
  "ANDROID_CONTROL_AE_MODE = ANDROID_CONTROL_START + 3"

definition ANDROID_CONTROL_AE_REGIONS :: u32 where
  "ANDROID_CONTROL_AE_REGIONS = ANDROID_CONTROL_START + 4"

definition ANDROID_CONTROL_AE_TARGET_FPS_RANGE :: u32 where
  "ANDROID_CONTROL_AE_TARGET_FPS_RANGE = ANDROID_CONTROL_START + 5"

definition ANDROID_CONTROL_AE_PRECAPTURE_TRIGGER :: u32 where
  "ANDROID_CONTROL_AE_PRECAPTURE_TRIGGER = ANDROID_CONTROL_START + 6"

definition ANDROID_CONTROL_AF_MODE :: u32 where
  "ANDROID_CONTROL_AF_MODE = ANDROID_CONTROL_START + 7"

definition ANDROID_CONTROL_AF_REGIONS :: u32 where
  "ANDROID_CONTROL_AF_REGIONS = ANDROID_CONTROL_START + 8"

definition ANDROID_CONTROL_AF_TRIGGER :: u32 where
  "ANDROID_CONTROL_AF_TRIGGER = ANDROID_CONTROL_START + 9"

definition ANDROID_CONTROL_AWB_LOCK :: u32 where
  "ANDROID_CONTROL_AWB_LOCK = ANDROID_CONTROL_START + 10"

definition ANDROID_CONTROL_AWB_MODE :: u32 where
  "ANDROID_CONTROL_AWB_MODE = ANDROID_CONTROL_START + 11"

definition ANDROID_CONTROL_AWB_REGIONS :: u32 where
  "ANDROID_CONTROL_AWB_REGIONS = ANDROID_CONTROL_START + 12"

definition ANDROID_CONTROL_CAPTURE_INTENT :: u32 where
  "ANDROID_CONTROL_CAPTURE_INTENT = ANDROID_CONTROL_START + 13"

definition ANDROID_CONTROL_EFFECT_MODE :: u32 where
  "ANDROID_CONTROL_EFFECT_MODE = ANDROID_CONTROL_START + 14"

definition ANDROID_CONTROL_MODE :: u32 where
  "ANDROID_CONTROL_MODE = ANDROID_CONTROL_START + 15"

definition ANDROID_CONTROL_SCENE_MODE :: u32 where
  "ANDROID_CONTROL_SCENE_MODE = ANDROID_CONTROL_START + 16"

definition ANDROID_CONTROL_VIDEO_STABILIZATION_MODE :: u32 where
  "ANDROID_CONTROL_VIDEO_STABILIZATION_MODE = ANDROID_CONTROL_START + 17"

definition ANDROID_CONTROL_AE_AVAILABLE_ANTIBANDING_MODES :: u32 where
  "ANDROID_CONTROL_AE_AVAILABLE_ANTIBANDING_MODES = ANDROID_CONTROL_START + 18"

definition ANDROID_CONTROL_AE_AVAILABLE_MODES :: u32 where
  "ANDROID_CONTROL_AE_AVAILABLE_MODES = ANDROID_CONTROL_START + 19"

definition ANDROID_CONTROL_AE_AVAILABLE_TARGET_FPS_RANGES :: u32 where
  "ANDROID_CONTROL_AE_AVAILABLE_TARGET_FPS_RANGES = ANDROID_CONTROL_START + 20"

definition ANDROID_CONTROL_AE_COMPENSATION_RANGE :: u32 where
  "ANDROID_CONTROL_AE_COMPENSATION_RANGE = ANDROID_CONTROL_START + 21"

definition ANDROID_CONTROL_AE_COMPENSATION_STEP :: u32 where
  "ANDROID_CONTROL_AE_COMPENSATION_STEP = ANDROID_CONTROL_START + 22"

definition ANDROID_CONTROL_AF_AVAILABLE_MODES :: u32 where
  "ANDROID_CONTROL_AF_AVAILABLE_MODES = ANDROID_CONTROL_START + 23"

definition ANDROID_CONTROL_AVAILABLE_EFFECTS :: u32 where
  "ANDROID_CONTROL_AVAILABLE_EFFECTS = ANDROID_CONTROL_START + 24"

definition ANDROID_CONTROL_AVAILABLE_SCENE_MODES :: u32 where
  "ANDROID_CONTROL_AVAILABLE_SCENE_MODES = ANDROID_CONTROL_START + 25"

definition ANDROID_CONTROL_AVAILABLE_VIDEO_STABILIZATION_MODES :: u32 where
  "ANDROID_CONTROL_AVAILABLE_VIDEO_STABILIZATION_MODES = ANDROID_CONTROL_START + 26"

definition ANDROID_CONTROL_AWB_AVAILABLE_MODES :: u32 where
  "ANDROID_CONTROL_AWB_AVAILABLE_MODES = ANDROID_CONTROL_START + 27"

definition ANDROID_CONTROL_MAX_REGIONS :: u32 where
  "ANDROID_CONTROL_MAX_REGIONS = ANDROID_CONTROL_START + 28"

definition ANDROID_CONTROL_SCENE_MODE_OVERRIDES :: u32 where
  "ANDROID_CONTROL_SCENE_MODE_OVERRIDES = ANDROID_CONTROL_START + 29"

definition ANDROID_CONTROL_AE_PRECAPTURE_ID :: u32 where
  "ANDROID_CONTROL_AE_PRECAPTURE_ID = ANDROID_CONTROL_START + 30"

definition ANDROID_CONTROL_AE_STATE :: u32 where
  "ANDROID_CONTROL_AE_STATE = ANDROID_CONTROL_START + 31"

definition ANDROID_CONTROL_AF_STATE :: u32 where
  "ANDROID_CONTROL_AF_STATE = ANDROID_CONTROL_START + 32"

definition ANDROID_CONTROL_AF_TRIGGER_ID :: u32 where
  "ANDROID_CONTROL_AF_TRIGGER_ID = ANDROID_CONTROL_START + 33"

definition ANDROID_CONTROL_AWB_STATE :: u32 where
  "ANDROID_CONTROL_AWB_STATE = ANDROID_CONTROL_START + 34"

definition ANDROID_CONTROL_AVAILABLE_HIGH_SPEED_VIDEO_CONFIGURATIONS :: u32 where
  "ANDROID_CONTROL_AVAILABLE_HIGH_SPEED_VIDEO_CONFIGURATIONS = ANDROID_CONTROL_START + 35"

definition ANDROID_CONTROL_AE_LOCK_AVAILABLE :: u32 where
  "ANDROID_CONTROL_AE_LOCK_AVAILABLE = ANDROID_CONTROL_START + 36"

definition ANDROID_CONTROL_AWB_LOCK_AVAILABLE :: u32 where
  "ANDROID_CONTROL_AWB_LOCK_AVAILABLE = ANDROID_CONTROL_START + 37"

definition ANDROID_CONTROL_AVAILABLE_MODES :: u32 where
  "ANDROID_CONTROL_AVAILABLE_MODES = ANDROID_CONTROL_START + 38"

definition ANDROID_CONTROL_END :: u32 where
  "ANDROID_CONTROL_END = ANDROID_CONTROL_START + 39"

definition ANDROID_DEMOSAIC_MODE :: u32 where
  "ANDROID_DEMOSAIC_MODE = ANDROID_DEMOSAIC_START"

definition ANDROID_DEMOSAIC_END :: u32 where
  "ANDROID_DEMOSAIC_END = ANDROID_DEMOSAIC_START + 1"

definition ANDROID_EDGE_MODE :: u32 where
  "ANDROID_EDGE_MODE = ANDROID_EDGE_START"

definition ANDROID_EDGE_STRENGTH :: u32 where
  "ANDROID_EDGE_STRENGTH = ANDROID_EDGE_START + 1"

definition ANDROID_EDGE_AVAILABLE_EDGE_MODES :: u32 where
  "ANDROID_EDGE_AVAILABLE_EDGE_MODES = ANDROID_EDGE_START + 2"

definition ANDROID_EDGE_END :: u32 where
  "ANDROID_EDGE_END = ANDROID_EDGE_START + 3"

definition ANDROID_FLASH_FIRING_POWER :: u32 where
  "ANDROID_FLASH_FIRING_POWER = ANDROID_FLASH_START"

definition ANDROID_FLASH_FIRING_TIME :: u32 where
  "ANDROID_FLASH_FIRING_TIME = ANDROID_FLASH_START + 1"

definition ANDROID_FLASH_MODE :: u32 where
  "ANDROID_FLASH_MODE = ANDROID_FLASH_START + 2"

definition ANDROID_FLASH_COLOR_TEMPERATURE :: u32 where
  "ANDROID_FLASH_COLOR_TEMPERATURE = ANDROID_FLASH_START + 3"

definition ANDROID_FLASH_MAX_ENERGY :: u32 where
  "ANDROID_FLASH_MAX_ENERGY = ANDROID_FLASH_START + 4"

definition ANDROID_FLASH_STATE :: u32 where
  "ANDROID_FLASH_STATE = ANDROID_FLASH_START + 5"

definition ANDROID_FLASH_END :: u32 where
  "ANDROID_FLASH_END = ANDROID_FLASH_START + 6"

definition ANDROID_FLASH_INFO_AVAILABLE :: u32 where
  "ANDROID_FLASH_INFO_AVAILABLE = ANDROID_FLASH_INFO_START"

definition ANDROID_FLASH_INFO_CHARGE_DURATION :: u32 where
  "ANDROID_FLASH_INFO_CHARGE_DURATION = ANDROID_FLASH_INFO_START + 1"

definition ANDROID_FLASH_INFO_END :: u32 where
  "ANDROID_FLASH_INFO_END = ANDROID_FLASH_INFO_START + 2"

definition ANDROID_HOT_PIXEL_MODE :: u32 where
  "ANDROID_HOT_PIXEL_MODE = ANDROID_HOT_PIXEL_START"

definition ANDROID_HOT_PIXEL_AVAILABLE_HOT_PIXEL_MODES :: u32 where
  "ANDROID_HOT_PIXEL_AVAILABLE_HOT_PIXEL_MODES = ANDROID_HOT_PIXEL_START + 1"

definition ANDROID_HOT_PIXEL_END :: u32 where
  "ANDROID_HOT_PIXEL_END = ANDROID_HOT_PIXEL_START + 2"

definition ANDROID_JPEG_GPS_COORDINATES :: u32 where
  "ANDROID_JPEG_GPS_COORDINATES = ANDROID_JPEG_START"

definition ANDROID_JPEG_GPS_PROCESSING_METHOD :: u32 where
  "ANDROID_JPEG_GPS_PROCESSING_METHOD = ANDROID_JPEG_START + 1"

definition ANDROID_JPEG_GPS_TIMESTAMP :: u32 where
  "ANDROID_JPEG_GPS_TIMESTAMP = ANDROID_JPEG_START + 2"

definition ANDROID_JPEG_ORIENTATION :: u32 where
  "ANDROID_JPEG_ORIENTATION = ANDROID_JPEG_START + 3"

definition ANDROID_JPEG_QUALITY :: u32 where
  "ANDROID_JPEG_QUALITY = ANDROID_JPEG_START + 4"

definition ANDROID_JPEG_THUMBNAIL_QUALITY :: u32 where
  "ANDROID_JPEG_THUMBNAIL_QUALITY = ANDROID_JPEG_START + 5"

definition ANDROID_JPEG_THUMBNAIL_SIZE :: u32 where
  "ANDROID_JPEG_THUMBNAIL_SIZE = ANDROID_JPEG_START + 6"

definition ANDROID_JPEG_AVAILABLE_THUMBNAIL_SIZES :: u32 where
  "ANDROID_JPEG_AVAILABLE_THUMBNAIL_SIZES = ANDROID_JPEG_START + 7"

definition ANDROID_JPEG_MAX_SIZE :: u32 where
  "ANDROID_JPEG_MAX_SIZE = ANDROID_JPEG_START + 8"

definition ANDROID_JPEG_SIZE :: u32 where
  "ANDROID_JPEG_SIZE = ANDROID_JPEG_START + 9"

definition ANDROID_JPEG_END :: u32 where
  "ANDROID_JPEG_END = ANDROID_JPEG_START + 10"

definition ANDROID_LENS_APERTURE :: u32 where
  "ANDROID_LENS_APERTURE = ANDROID_LENS_START"

definition ANDROID_LENS_FILTER_DENSITY :: u32 where
  "ANDROID_LENS_FILTER_DENSITY = ANDROID_LENS_START + 1"

definition ANDROID_LENS_FOCAL_LENGTH :: u32 where
  "ANDROID_LENS_FOCAL_LENGTH = ANDROID_LENS_START + 2"

definition ANDROID_LENS_FOCUS_DISTANCE :: u32 where
  "ANDROID_LENS_FOCUS_DISTANCE = ANDROID_LENS_START + 3"

definition ANDROID_LENS_OPTICAL_STABILIZATION_MODE :: u32 where
  "ANDROID_LENS_OPTICAL_STABILIZATION_MODE = ANDROID_LENS_START + 4"

definition ANDROID_LENS_FACING :: u32 where
  "ANDROID_LENS_FACING = ANDROID_LENS_START + 5"

definition ANDROID_LENS_POSE_ROTATION :: u32 where
  "ANDROID_LENS_POSE_ROTATION = ANDROID_LENS_START + 6"

definition ANDROID_LENS_POSE_TRANSLATION :: u32 where
  "ANDROID_LENS_POSE_TRANSLATION = ANDROID_LENS_START + 7"

definition ANDROID_LENS_FOCUS_RANGE :: u32 where
  "ANDROID_LENS_FOCUS_RANGE = ANDROID_LENS_START + 8"

definition ANDROID_LENS_STATE :: u32 where
  "ANDROID_LENS_STATE = ANDROID_LENS_START + 9"

definition ANDROID_LENS_INTRINSIC_CALIBRATION :: u32 where
  "ANDROID_LENS_INTRINSIC_CALIBRATION = ANDROID_LENS_START + 10"

definition ANDROID_LENS_RADIAL_DISTORTION :: u32 where
  "ANDROID_LENS_RADIAL_DISTORTION = ANDROID_LENS_START + 11"

definition ANDROID_LENS_END :: u32 where
  "ANDROID_LENS_END = ANDROID_LENS_START + 12"

definition ANDROID_LENS_INFO_AVAILABLE_APERTURES :: u32 where
  "ANDROID_LENS_INFO_AVAILABLE_APERTURES = ANDROID_LENS_INFO_START"

definition ANDROID_LENS_INFO_AVAILABLE_FILTER_DENSITIES :: u32 where
  "ANDROID_LENS_INFO_AVAILABLE_FILTER_DENSITIES = ANDROID_LENS_INFO_START + 1"

definition ANDROID_LENS_INFO_AVAILABLE_FOCAL_LENGTHS :: u32 where
  "ANDROID_LENS_INFO_AVAILABLE_FOCAL_LENGTHS = ANDROID_LENS_INFO_START + 2"

definition ANDROID_LENS_INFO_AVAILABLE_OPTICAL_STABILIZATION :: u32 where
  "ANDROID_LENS_INFO_AVAILABLE_OPTICAL_STABILIZATION = ANDROID_LENS_INFO_START + 3"

definition ANDROID_LENS_INFO_HYPERFOCAL_DISTANCE :: u32 where
  "ANDROID_LENS_INFO_HYPERFOCAL_DISTANCE = ANDROID_LENS_INFO_START + 4"

definition ANDROID_LENS_INFO_MINIMUM_FOCUS_DISTANCE :: u32 where
  "ANDROID_LENS_INFO_MINIMUM_FOCUS_DISTANCE = ANDROID_LENS_INFO_START + 5"

definition ANDROID_LENS_INFO_SHADING_MAP_SIZE :: u32 where
  "ANDROID_LENS_INFO_SHADING_MAP_SIZE = ANDROID_LENS_INFO_START + 6"

definition ANDROID_LENS_INFO_FOCUS_DISTANCE_CALIBRATION :: u32 where
  "ANDROID_LENS_INFO_FOCUS_DISTANCE_CALIBRATION = ANDROID_LENS_INFO_START + 7"

definition ANDROID_LENS_INFO_END :: u32 where
  "ANDROID_LENS_INFO_END = ANDROID_LENS_INFO_START + 8"

definition ANDROID_NOISE_REDUCTION_MODE :: u32 where
  "ANDROID_NOISE_REDUCTION_MODE = ANDROID_NOISE_REDUCTION_START"

definition ANDROID_NOISE_REDUCTION_STRENGTH :: u32 where
  "ANDROID_NOISE_REDUCTION_STRENGTH = ANDROID_NOISE_REDUCTION_START + 1"

definition ANDROID_NOISE_REDUCTION_AVAILABLE_NOISE_REDUCTION_MODES :: u32 where
  "ANDROID_NOISE_REDUCTION_AVAILABLE_NOISE_REDUCTION_MODES = ANDROID_NOISE_REDUCTION_START + 2"

definition ANDROID_NOISE_REDUCTION_END :: u32 where
  "ANDROID_NOISE_REDUCTION_END = ANDROID_NOISE_REDUCTION_START + 3"

definition ANDROID_QUIRKS_METERING_CROP_REGION :: u32 where
  "ANDROID_QUIRKS_METERING_CROP_REGION = ANDROID_QUIRKS_START"

definition ANDROID_QUIRKS_TRIGGER_AF_WITH_AUTO :: u32 where
  "ANDROID_QUIRKS_TRIGGER_AF_WITH_AUTO = ANDROID_QUIRKS_START + 1"

definition ANDROID_QUIRKS_USE_ZSL_FORMAT :: u32 where
  "ANDROID_QUIRKS_USE_ZSL_FORMAT = ANDROID_QUIRKS_START + 2"

definition ANDROID_QUIRKS_USE_PARTIAL_RESULT :: u32 where
  "ANDROID_QUIRKS_USE_PARTIAL_RESULT = ANDROID_QUIRKS_START + 3"

definition ANDROID_QUIRKS_PARTIAL_RESULT :: u32 where
  "ANDROID_QUIRKS_PARTIAL_RESULT = ANDROID_QUIRKS_START + 4"

definition ANDROID_QUIRKS_END :: u32 where
  "ANDROID_QUIRKS_END = ANDROID_QUIRKS_START + 5"

definition ANDROID_REQUEST_FRAME_COUNT :: u32 where
  "ANDROID_REQUEST_FRAME_COUNT = ANDROID_REQUEST_START"

definition ANDROID_REQUEST_ID :: u32 where
  "ANDROID_REQUEST_ID = ANDROID_REQUEST_START + 1"

definition ANDROID_REQUEST_INPUT_STREAMS :: u32 where
  "ANDROID_REQUEST_INPUT_STREAMS = ANDROID_REQUEST_START + 2"

definition ANDROID_REQUEST_METADATA_MODE :: u32 where
  "ANDROID_REQUEST_METADATA_MODE = ANDROID_REQUEST_START + 3"

definition ANDROID_REQUEST_OUTPUT_STREAMS :: u32 where
  "ANDROID_REQUEST_OUTPUT_STREAMS = ANDROID_REQUEST_START + 4"

definition ANDROID_REQUEST_TYPE :: u32 where
  "ANDROID_REQUEST_TYPE = ANDROID_REQUEST_START + 5"

definition ANDROID_REQUEST_MAX_NUM_OUTPUT_STREAMS :: u32 where
  "ANDROID_REQUEST_MAX_NUM_OUTPUT_STREAMS = ANDROID_REQUEST_START + 6"

definition ANDROID_REQUEST_MAX_NUM_REPROCESS_STREAMS :: u32 where
  "ANDROID_REQUEST_MAX_NUM_REPROCESS_STREAMS = ANDROID_REQUEST_START + 7"

definition ANDROID_REQUEST_MAX_NUM_INPUT_STREAMS :: u32 where
  "ANDROID_REQUEST_MAX_NUM_INPUT_STREAMS = ANDROID_REQUEST_START + 8"

definition ANDROID_REQUEST_PIPELINE_DEPTH :: u32 where
  "ANDROID_REQUEST_PIPELINE_DEPTH = ANDROID_REQUEST_START + 9"

definition ANDROID_REQUEST_PIPELINE_MAX_DEPTH :: u32 where
  "ANDROID_REQUEST_PIPELINE_MAX_DEPTH = ANDROID_REQUEST_START + 10"

definition ANDROID_REQUEST_PARTIAL_RESULT_COUNT :: u32 where
  "ANDROID_REQUEST_PARTIAL_RESULT_COUNT = ANDROID_REQUEST_START + 11"

definition ANDROID_REQUEST_AVAILABLE_CAPABILITIES :: u32 where
  "ANDROID_REQUEST_AVAILABLE_CAPABILITIES = ANDROID_REQUEST_START + 12"

definition ANDROID_REQUEST_AVAILABLE_REQUEST_KEYS :: u32 where
  "ANDROID_REQUEST_AVAILABLE_REQUEST_KEYS = ANDROID_REQUEST_START + 13"

definition ANDROID_REQUEST_AVAILABLE_RESULT_KEYS :: u32 where
  "ANDROID_REQUEST_AVAILABLE_RESULT_KEYS = ANDROID_REQUEST_START + 14"

definition ANDROID_REQUEST_AVAILABLE_CHARACTERISTICS_KEYS :: u32 where
  "ANDROID_REQUEST_AVAILABLE_CHARACTERISTICS_KEYS = ANDROID_REQUEST_START + 15"

definition ANDROID_REQUEST_END :: u32 where
  "ANDROID_REQUEST_END = ANDROID_REQUEST_START + 16"

definition ANDROID_SCALER_CROP_REGION :: u32 where
  "ANDROID_SCALER_CROP_REGION = ANDROID_SCALER_START"

definition ANDROID_SCALER_AVAILABLE_FORMATS :: u32 where
  "ANDROID_SCALER_AVAILABLE_FORMATS = ANDROID_SCALER_START + 1"

definition ANDROID_SCALER_AVAILABLE_JPEG_MIN_DURATIONS :: u32 where
  "ANDROID_SCALER_AVAILABLE_JPEG_MIN_DURATIONS = ANDROID_SCALER_START + 2"

definition ANDROID_SCALER_AVAILABLE_JPEG_SIZES :: u32 where
  "ANDROID_SCALER_AVAILABLE_JPEG_SIZES = ANDROID_SCALER_START + 3"

definition ANDROID_SCALER_AVAILABLE_MAX_DIGITAL_ZOOM :: u32 where
  "ANDROID_SCALER_AVAILABLE_MAX_DIGITAL_ZOOM = ANDROID_SCALER_START + 4"

definition ANDROID_SCALER_AVAILABLE_PROCESSED_MIN_DURATIONS :: u32 where
  "ANDROID_SCALER_AVAILABLE_PROCESSED_MIN_DURATIONS = ANDROID_SCALER_START + 5"

definition ANDROID_SCALER_AVAILABLE_PROCESSED_SIZES :: u32 where
  "ANDROID_SCALER_AVAILABLE_PROCESSED_SIZES = ANDROID_SCALER_START + 6"

definition ANDROID_SCALER_AVAILABLE_RAW_MIN_DURATIONS :: u32 where
  "ANDROID_SCALER_AVAILABLE_RAW_MIN_DURATIONS = ANDROID_SCALER_START + 7"

definition ANDROID_SCALER_AVAILABLE_RAW_SIZES :: u32 where
  "ANDROID_SCALER_AVAILABLE_RAW_SIZES = ANDROID_SCALER_START + 8"

definition ANDROID_SCALER_AVAILABLE_INPUT_OUTPUT_FORMATS_MAP :: u32 where
  "ANDROID_SCALER_AVAILABLE_INPUT_OUTPUT_FORMATS_MAP = ANDROID_SCALER_START + 9"

definition ANDROID_SCALER_AVAILABLE_STREAM_CONFIGURATIONS :: u32 where
  "ANDROID_SCALER_AVAILABLE_STREAM_CONFIGURATIONS = ANDROID_SCALER_START + 10"

definition ANDROID_SCALER_AVAILABLE_MIN_FRAME_DURATIONS :: u32 where
  "ANDROID_SCALER_AVAILABLE_MIN_FRAME_DURATIONS = ANDROID_SCALER_START + 11"

definition ANDROID_SCALER_AVAILABLE_STALL_DURATIONS :: u32 where
  "ANDROID_SCALER_AVAILABLE_STALL_DURATIONS = ANDROID_SCALER_START + 12"

definition ANDROID_SCALER_CROPPING_TYPE :: u32 where
  "ANDROID_SCALER_CROPPING_TYPE = ANDROID_SCALER_START + 13"

definition ANDROID_SCALER_END :: u32 where
  "ANDROID_SCALER_END = ANDROID_SCALER_START + 14"

definition ANDROID_SENSOR_EXPOSURE_TIME :: u32 where
  "ANDROID_SENSOR_EXPOSURE_TIME = ANDROID_SENSOR_START"

definition ANDROID_SENSOR_FRAME_DURATION :: u32 where
  "ANDROID_SENSOR_FRAME_DURATION = ANDROID_SENSOR_START + 1"

definition ANDROID_SENSOR_SENSITIVITY :: u32 where
  "ANDROID_SENSOR_SENSITIVITY = ANDROID_SENSOR_START + 2"

definition ANDROID_SENSOR_REFERENCE_ILLUMINANT1 :: u32 where
  "ANDROID_SENSOR_REFERENCE_ILLUMINANT1 = ANDROID_SENSOR_START + 3"

definition ANDROID_SENSOR_REFERENCE_ILLUMINANT2 :: u32 where
  "ANDROID_SENSOR_REFERENCE_ILLUMINANT2 = ANDROID_SENSOR_START + 4"

definition ANDROID_SENSOR_CALIBRATION_TRANSFORM1 :: u32 where
  "ANDROID_SENSOR_CALIBRATION_TRANSFORM1 = ANDROID_SENSOR_START + 5"

definition ANDROID_SENSOR_CALIBRATION_TRANSFORM2 :: u32 where
  "ANDROID_SENSOR_CALIBRATION_TRANSFORM2 = ANDROID_SENSOR_START + 6"

definition ANDROID_SENSOR_COLOR_TRANSFORM1 :: u32 where
  "ANDROID_SENSOR_COLOR_TRANSFORM1 = ANDROID_SENSOR_START + 7"

definition ANDROID_SENSOR_COLOR_TRANSFORM2 :: u32 where
  "ANDROID_SENSOR_COLOR_TRANSFORM2 = ANDROID_SENSOR_START + 8"

definition ANDROID_SENSOR_FORWARD_MATRIX1 :: u32 where
  "ANDROID_SENSOR_FORWARD_MATRIX1 = ANDROID_SENSOR_START + 9"

definition ANDROID_SENSOR_FORWARD_MATRIX2 :: u32 where
  "ANDROID_SENSOR_FORWARD_MATRIX2 = ANDROID_SENSOR_START + 10"

definition ANDROID_SENSOR_BASE_GAIN_FACTOR :: u32 where
  "ANDROID_SENSOR_BASE_GAIN_FACTOR = ANDROID_SENSOR_START + 11"

definition ANDROID_SENSOR_BLACK_LEVEL_PATTERN :: u32 where
  "ANDROID_SENSOR_BLACK_LEVEL_PATTERN = ANDROID_SENSOR_START + 12"

definition ANDROID_SENSOR_MAX_ANALOG_SENSITIVITY :: u32 where
  "ANDROID_SENSOR_MAX_ANALOG_SENSITIVITY = ANDROID_SENSOR_START + 13"

definition ANDROID_SENSOR_ORIENTATION :: u32 where
  "ANDROID_SENSOR_ORIENTATION = ANDROID_SENSOR_START + 14"

definition ANDROID_SENSOR_PROFILE_HUE_SAT_MAP_DIMENSIONS :: u32 where
  "ANDROID_SENSOR_PROFILE_HUE_SAT_MAP_DIMENSIONS = ANDROID_SENSOR_START + 15"

definition ANDROID_SENSOR_TIMESTAMP :: u32 where
  "ANDROID_SENSOR_TIMESTAMP = ANDROID_SENSOR_START + 16"

definition ANDROID_SENSOR_TEMPERATURE :: u32 where
  "ANDROID_SENSOR_TEMPERATURE = ANDROID_SENSOR_START + 17"

definition ANDROID_SENSOR_NEUTRAL_COLOR_POINT :: u32 where
  "ANDROID_SENSOR_NEUTRAL_COLOR_POINT = ANDROID_SENSOR_START + 18"

definition ANDROID_SENSOR_NOISE_PROFILE :: u32 where
  "ANDROID_SENSOR_NOISE_PROFILE = ANDROID_SENSOR_START + 19"

definition ANDROID_SENSOR_PROFILE_HUE_SAT_MAP :: u32 where
  "ANDROID_SENSOR_PROFILE_HUE_SAT_MAP = ANDROID_SENSOR_START + 20"

definition ANDROID_SENSOR_PROFILE_TONE_CURVE :: u32 where
  "ANDROID_SENSOR_PROFILE_TONE_CURVE = ANDROID_SENSOR_START + 21"

definition ANDROID_SENSOR_GREEN_SPLIT :: u32 where
  "ANDROID_SENSOR_GREEN_SPLIT = ANDROID_SENSOR_START + 22"

definition ANDROID_SENSOR_TEST_PATTERN_DATA :: u32 where
  "ANDROID_SENSOR_TEST_PATTERN_DATA = ANDROID_SENSOR_START + 23"

definition ANDROID_SENSOR_TEST_PATTERN_MODE :: u32 where
  "ANDROID_SENSOR_TEST_PATTERN_MODE = ANDROID_SENSOR_START + 24"

definition ANDROID_SENSOR_AVAILABLE_TEST_PATTERN_MODES :: u32 where
  "ANDROID_SENSOR_AVAILABLE_TEST_PATTERN_MODES = ANDROID_SENSOR_START + 25"

definition ANDROID_SENSOR_ROLLING_SHUTTER_SKEW :: u32 where
  "ANDROID_SENSOR_ROLLING_SHUTTER_SKEW = ANDROID_SENSOR_START + 26"

definition ANDROID_SENSOR_END :: u32 where
  "ANDROID_SENSOR_END = ANDROID_SENSOR_START + 27"

definition ANDROID_SENSOR_INFO_ACTIVE_ARRAY_SIZE :: u32 where
  "ANDROID_SENSOR_INFO_ACTIVE_ARRAY_SIZE = ANDROID_SENSOR_INFO_START"

definition ANDROID_SENSOR_INFO_SENSITIVITY_RANGE :: u32 where
  "ANDROID_SENSOR_INFO_SENSITIVITY_RANGE = ANDROID_SENSOR_INFO_START + 1"

definition ANDROID_SENSOR_INFO_COLOR_FILTER_ARRANGEMENT :: u32 where
  "ANDROID_SENSOR_INFO_COLOR_FILTER_ARRANGEMENT = ANDROID_SENSOR_INFO_START + 2"

definition ANDROID_SENSOR_INFO_EXPOSURE_TIME_RANGE :: u32 where
  "ANDROID_SENSOR_INFO_EXPOSURE_TIME_RANGE = ANDROID_SENSOR_INFO_START + 3"

definition ANDROID_SENSOR_INFO_MAX_FRAME_DURATION :: u32 where
  "ANDROID_SENSOR_INFO_MAX_FRAME_DURATION = ANDROID_SENSOR_INFO_START + 4"

definition ANDROID_SENSOR_INFO_PHYSICAL_SIZE :: u32 where
  "ANDROID_SENSOR_INFO_PHYSICAL_SIZE = ANDROID_SENSOR_INFO_START + 5"

definition ANDROID_SENSOR_INFO_PIXEL_ARRAY_SIZE :: u32 where
  "ANDROID_SENSOR_INFO_PIXEL_ARRAY_SIZE = ANDROID_SENSOR_INFO_START + 6"

definition ANDROID_SENSOR_INFO_WHITE_LEVEL :: u32 where
  "ANDROID_SENSOR_INFO_WHITE_LEVEL = ANDROID_SENSOR_INFO_START + 7"

definition ANDROID_SENSOR_INFO_TIMESTAMP_SOURCE :: u32 where
  "ANDROID_SENSOR_INFO_TIMESTAMP_SOURCE = ANDROID_SENSOR_INFO_START + 8"

definition ANDROID_SENSOR_INFO_LENS_SHADING_APPLIED :: u32 where
  "ANDROID_SENSOR_INFO_LENS_SHADING_APPLIED = ANDROID_SENSOR_INFO_START + 9"

definition ANDROID_SENSOR_INFO_PRE_CORRECTION_ACTIVE_ARRAY_SIZE :: u32 where
  "ANDROID_SENSOR_INFO_PRE_CORRECTION_ACTIVE_ARRAY_SIZE = ANDROID_SENSOR_INFO_START + 10"

definition ANDROID_SENSOR_INFO_END :: u32 where
  "ANDROID_SENSOR_INFO_END = ANDROID_SENSOR_INFO_START + 11"

definition ANDROID_SHADING_MODE :: u32 where
  "ANDROID_SHADING_MODE = ANDROID_SHADING_START"

definition ANDROID_SHADING_STRENGTH :: u32 where
  "ANDROID_SHADING_STRENGTH = ANDROID_SHADING_START + 1"

definition ANDROID_SHADING_AVAILABLE_MODES :: u32 where
  "ANDROID_SHADING_AVAILABLE_MODES = ANDROID_SHADING_START + 2"

definition ANDROID_SHADING_END :: u32 where
  "ANDROID_SHADING_END = ANDROID_SHADING_START + 3"

definition ANDROID_STATISTICS_FACE_DETECT_MODE :: u32 where
  "ANDROID_STATISTICS_FACE_DETECT_MODE = ANDROID_STATISTICS_START"

definition ANDROID_STATISTICS_HISTOGRAM_MODE :: u32 where
  "ANDROID_STATISTICS_HISTOGRAM_MODE = ANDROID_STATISTICS_START + 1"

definition ANDROID_STATISTICS_SHARPNESS_MAP_MODE :: u32 where
  "ANDROID_STATISTICS_SHARPNESS_MAP_MODE = ANDROID_STATISTICS_START + 2"

definition ANDROID_STATISTICS_HOT_PIXEL_MAP_MODE :: u32 where
  "ANDROID_STATISTICS_HOT_PIXEL_MAP_MODE = ANDROID_STATISTICS_START + 3"

definition ANDROID_STATISTICS_FACE_IDS :: u32 where
  "ANDROID_STATISTICS_FACE_IDS = ANDROID_STATISTICS_START + 4"

definition ANDROID_STATISTICS_FACE_LANDMARKS :: u32 where
  "ANDROID_STATISTICS_FACE_LANDMARKS = ANDROID_STATISTICS_START + 5"

definition ANDROID_STATISTICS_FACE_RECTANGLES :: u32 where
  "ANDROID_STATISTICS_FACE_RECTANGLES = ANDROID_STATISTICS_START + 6"

definition ANDROID_STATISTICS_FACE_SCORES :: u32 where
  "ANDROID_STATISTICS_FACE_SCORES = ANDROID_STATISTICS_START + 7"

definition ANDROID_STATISTICS_HISTOGRAM :: u32 where
  "ANDROID_STATISTICS_HISTOGRAM = ANDROID_STATISTICS_START + 8"

definition ANDROID_STATISTICS_SHARPNESS_MAP :: u32 where
  "ANDROID_STATISTICS_SHARPNESS_MAP = ANDROID_STATISTICS_START + 9"

definition ANDROID_STATISTICS_LENS_SHADING_CORRECTION_MAP :: u32 where
  "ANDROID_STATISTICS_LENS_SHADING_CORRECTION_MAP = ANDROID_STATISTICS_START + 10"

definition ANDROID_STATISTICS_LENS_SHADING_MAP :: u32 where
  "ANDROID_STATISTICS_LENS_SHADING_MAP = ANDROID_STATISTICS_START + 11"

definition ANDROID_STATISTICS_PREDICTED_COLOR_GAINS :: u32 where
  "ANDROID_STATISTICS_PREDICTED_COLOR_GAINS = ANDROID_STATISTICS_START + 12"

definition ANDROID_STATISTICS_PREDICTED_COLOR_TRANSFORM :: u32 where
  "ANDROID_STATISTICS_PREDICTED_COLOR_TRANSFORM = ANDROID_STATISTICS_START + 13"

definition ANDROID_STATISTICS_SCENE_FLICKER :: u32 where
  "ANDROID_STATISTICS_SCENE_FLICKER = ANDROID_STATISTICS_START + 14"

definition ANDROID_STATISTICS_HOT_PIXEL_MAP :: u32 where
  "ANDROID_STATISTICS_HOT_PIXEL_MAP = ANDROID_STATISTICS_START + 15"

definition ANDROID_STATISTICS_LENS_SHADING_MAP_MODE :: u32 where
  "ANDROID_STATISTICS_LENS_SHADING_MAP_MODE = ANDROID_STATISTICS_START + 16"

definition ANDROID_STATISTICS_END :: u32 where
  "ANDROID_STATISTICS_END = ANDROID_STATISTICS_START + 17"

definition ANDROID_STATISTICS_INFO_AVAILABLE_FACE_DETECT_MODES :: u32 where
  "ANDROID_STATISTICS_INFO_AVAILABLE_FACE_DETECT_MODES = ANDROID_STATISTICS_INFO_START"

definition ANDROID_STATISTICS_INFO_HISTOGRAM_BUCKET_COUNT :: u32 where
  "ANDROID_STATISTICS_INFO_HISTOGRAM_BUCKET_COUNT = ANDROID_STATISTICS_INFO_START + 1"

definition ANDROID_STATISTICS_INFO_MAX_FACE_COUNT :: u32 where
  "ANDROID_STATISTICS_INFO_MAX_FACE_COUNT = ANDROID_STATISTICS_INFO_START + 2"

definition ANDROID_STATISTICS_INFO_MAX_HISTOGRAM_COUNT :: u32 where
  "ANDROID_STATISTICS_INFO_MAX_HISTOGRAM_COUNT = ANDROID_STATISTICS_INFO_START + 3"

definition ANDROID_STATISTICS_INFO_MAX_SHARPNESS_MAP_VALUE :: u32 where
  "ANDROID_STATISTICS_INFO_MAX_SHARPNESS_MAP_VALUE = ANDROID_STATISTICS_INFO_START + 4"

definition ANDROID_STATISTICS_INFO_SHARPNESS_MAP_SIZE :: u32 where
  "ANDROID_STATISTICS_INFO_SHARPNESS_MAP_SIZE = ANDROID_STATISTICS_INFO_START + 5"

definition ANDROID_STATISTICS_INFO_AVAILABLE_HOT_PIXEL_MAP_MODES :: u32 where
  "ANDROID_STATISTICS_INFO_AVAILABLE_HOT_PIXEL_MAP_MODES = ANDROID_STATISTICS_INFO_START + 6"

definition ANDROID_STATISTICS_INFO_AVAILABLE_LENS_SHADING_MAP_MODES :: u32 where
  "ANDROID_STATISTICS_INFO_AVAILABLE_LENS_SHADING_MAP_MODES = ANDROID_STATISTICS_INFO_START + 7"

definition ANDROID_STATISTICS_INFO_END :: u32 where
  "ANDROID_STATISTICS_INFO_END = ANDROID_STATISTICS_INFO_START + 8"

definition ANDROID_TONEMAP_CURVE_BLUE :: u32 where
  "ANDROID_TONEMAP_CURVE_BLUE = ANDROID_TONEMAP_START"

definition ANDROID_TONEMAP_CURVE_GREEN :: u32 where
  "ANDROID_TONEMAP_CURVE_GREEN = ANDROID_TONEMAP_START + 1"

definition ANDROID_TONEMAP_CURVE_RED :: u32 where
  "ANDROID_TONEMAP_CURVE_RED = ANDROID_TONEMAP_START + 2"

definition ANDROID_TONEMAP_MODE :: u32 where
  "ANDROID_TONEMAP_MODE = ANDROID_TONEMAP_START + 3"

definition ANDROID_TONEMAP_MAX_CURVE_POINTS :: u32 where
  "ANDROID_TONEMAP_MAX_CURVE_POINTS = ANDROID_TONEMAP_START + 4"

definition ANDROID_TONEMAP_AVAILABLE_TONE_MAP_MODES :: u32 where
  "ANDROID_TONEMAP_AVAILABLE_TONE_MAP_MODES = ANDROID_TONEMAP_START + 5"

definition ANDROID_TONEMAP_GAMMA :: u32 where
  "ANDROID_TONEMAP_GAMMA = ANDROID_TONEMAP_START + 6"

definition ANDROID_TONEMAP_PRESET_CURVE :: u32 where
  "ANDROID_TONEMAP_PRESET_CURVE = ANDROID_TONEMAP_START + 7"

definition ANDROID_TONEMAP_END :: u32 where
  "ANDROID_TONEMAP_END = ANDROID_TONEMAP_START + 8"

definition ANDROID_LED_TRANSMIT :: u32 where
  "ANDROID_LED_TRANSMIT = ANDROID_LED_START"

definition ANDROID_LED_AVAILABLE_LEDS :: u32 where
  "ANDROID_LED_AVAILABLE_LEDS = ANDROID_LED_START + 1"

definition ANDROID_LED_END :: u32 where
  "ANDROID_LED_END = ANDROID_LED_START + 2"

definition ANDROID_INFO_SUPPORTED_HARDWARE_LEVEL :: u32 where
  "ANDROID_INFO_SUPPORTED_HARDWARE_LEVEL = ANDROID_INFO_START"

definition ANDROID_INFO_END :: u32 where
  "ANDROID_INFO_END = ANDROID_INFO_START + 1"

definition ANDROID_BLACK_LEVEL_LOCK :: u32 where
  "ANDROID_BLACK_LEVEL_LOCK = ANDROID_BLACK_LEVEL_START"

definition ANDROID_BLACK_LEVEL_END :: u32 where
  "ANDROID_BLACK_LEVEL_END = ANDROID_BLACK_LEVEL_START + 1"

definition ANDROID_SYNC_FRAME_NUMBER :: u32 where
  "ANDROID_SYNC_FRAME_NUMBER = ANDROID_SYNC_START"

definition ANDROID_SYNC_MAX_LATENCY :: u32 where
  "ANDROID_SYNC_MAX_LATENCY = ANDROID_SYNC_START + 1"

definition ANDROID_SYNC_END :: u32 where
  "ANDROID_SYNC_END = ANDROID_SYNC_START + 2"

definition ANDROID_REPROCESS_EFFECTIVE_EXPOSURE_FACTOR :: u32 where
  "ANDROID_REPROCESS_EFFECTIVE_EXPOSURE_FACTOR = ANDROID_REPROCESS_START"

definition ANDROID_REPROCESS_MAX_CAPTURE_STALL :: u32 where
  "ANDROID_REPROCESS_MAX_CAPTURE_STALL = ANDROID_REPROCESS_START + 1"

definition ANDROID_REPROCESS_END :: u32 where
  "ANDROID_REPROCESS_END = ANDROID_REPROCESS_START + 2"

definition ANDROID_DEPTH_MAX_DEPTH_SAMPLES :: u32 where
  "ANDROID_DEPTH_MAX_DEPTH_SAMPLES = ANDROID_DEPTH_START"

definition ANDROID_DEPTH_AVAILABLE_DEPTH_STREAM_CONFIGURATIONS :: u32 where
  "ANDROID_DEPTH_AVAILABLE_DEPTH_STREAM_CONFIGURATIONS = ANDROID_DEPTH_START + 1"

definition ANDROID_DEPTH_AVAILABLE_DEPTH_MIN_FRAME_DURATIONS :: u32 where
  "ANDROID_DEPTH_AVAILABLE_DEPTH_MIN_FRAME_DURATIONS = ANDROID_DEPTH_START + 2"

definition ANDROID_DEPTH_AVAILABLE_DEPTH_STALL_DURATIONS :: u32 where
  "ANDROID_DEPTH_AVAILABLE_DEPTH_STALL_DURATIONS = ANDROID_DEPTH_START + 3"

definition ANDROID_DEPTH_DEPTH_IS_EXCLUSIVE :: u32 where
  "ANDROID_DEPTH_DEPTH_IS_EXCLUSIVE = ANDROID_DEPTH_START + 4"

definition ANDROID_DEPTH_END :: u32 where
  "ANDROID_DEPTH_END = ANDROID_DEPTH_START + 5"

lemmas tag_constant_defs [tag_consts] =
  ANDROID_COLOR_CORRECTION_def ANDROID_CONTROL_def ANDROID_DEMOSAIC_def ANDROID_EDGE_def
  ANDROID_FLASH_def ANDROID_FLASH_INFO_def ANDROID_HOT_PIXEL_def ANDROID_JPEG_def ANDROID_LENS_def
  ANDROID_LENS_INFO_def ANDROID_NOISE_REDUCTION_def ANDROID_QUIRKS_def ANDROID_REQUEST_def
  ANDROID_SCALER_def ANDROID_SENSOR_def ANDROID_SENSOR_INFO_def ANDROID_SHADING_def
  ANDROID_STATISTICS_def ANDROID_STATISTICS_INFO_def ANDROID_TONEMAP_def ANDROID_LED_def
  ANDROID_INFO_def ANDROID_BLACK_LEVEL_def ANDROID_SYNC_def ANDROID_REPROCESS_def
  ANDROID_DEPTH_def ANDROID_SECTION_COUNT_def VENDOR_SECTION_def
  ANDROID_COLOR_CORRECTION_START_def ANDROID_CONTROL_START_def ANDROID_DEMOSAIC_START_def
  ANDROID_EDGE_START_def ANDROID_FLASH_START_def ANDROID_FLASH_INFO_START_def
  ANDROID_HOT_PIXEL_START_def ANDROID_JPEG_START_def ANDROID_LENS_START_def
  ANDROID_LENS_INFO_START_def ANDROID_NOISE_REDUCTION_START_def ANDROID_QUIRKS_START_def
  ANDROID_REQUEST_START_def ANDROID_SCALER_START_def ANDROID_SENSOR_START_def
  ANDROID_SENSOR_INFO_START_def ANDROID_SHADING_START_def ANDROID_STATISTICS_START_def
  ANDROID_STATISTICS_INFO_START_def ANDROID_TONEMAP_START_def ANDROID_LED_START_def
  ANDROID_INFO_START_def ANDROID_BLACK_LEVEL_START_def ANDROID_SYNC_START_def
  ANDROID_REPROCESS_START_def ANDROID_DEPTH_START_def VENDOR_SECTION_START_def
  ANDROID_COLOR_CORRECTION_MODE_def ANDROID_COLOR_CORRECTION_TRANSFORM_def
  ANDROID_COLOR_CORRECTION_GAINS_def ANDROID_COLOR_CORRECTION_ABERRATION_MODE_def
  ANDROID_COLOR_CORRECTION_AVAILABLE_ABERRATION_MODES_def ANDROID_COLOR_CORRECTION_END_def
  ANDROID_CONTROL_AE_ANTIBANDING_MODE_def ANDROID_CONTROL_AE_EXPOSURE_COMPENSATION_def
  ANDROID_CONTROL_AE_LOCK_def ANDROID_CONTROL_AE_MODE_def ANDROID_CONTROL_AE_REGIONS_def
  ANDROID_CONTROL_AE_TARGET_FPS_RANGE_def ANDROID_CONTROL_AE_PRECAPTURE_TRIGGER_def
  ANDROID_CONTROL_AF_MODE_def ANDROID_CONTROL_AF_REGIONS_def ANDROID_CONTROL_AF_TRIGGER_def
  ANDROID_CONTROL_AWB_LOCK_def ANDROID_CONTROL_AWB_MODE_def ANDROID_CONTROL_AWB_REGIONS_def
  ANDROID_CONTROL_CAPTURE_INTENT_def ANDROID_CONTROL_EFFECT_MODE_def ANDROID_CONTROL_MODE_def
  ANDROID_CONTROL_SCENE_MODE_def ANDROID_CONTROL_VIDEO_STABILIZATION_MODE_def
  ANDROID_CONTROL_AE_AVAILABLE_ANTIBANDING_MODES_def ANDROID_CONTROL_AE_AVAILABLE_MODES_def
  ANDROID_CONTROL_AE_AVAILABLE_TARGET_FPS_RANGES_def ANDROID_CONTROL_AE_COMPENSATION_RANGE_def
  ANDROID_CONTROL_AE_COMPENSATION_STEP_def ANDROID_CONTROL_AF_AVAILABLE_MODES_def
  ANDROID_CONTROL_AVAILABLE_EFFECTS_def ANDROID_CONTROL_AVAILABLE_SCENE_MODES_def
  ANDROID_CONTROL_AVAILABLE_VIDEO_STABILIZATION_MODES_def ANDROID_CONTROL_AWB_AVAILABLE_MODES_def
  ANDROID_CONTROL_MAX_REGIONS_def ANDROID_CONTROL_SCENE_MODE_OVERRIDES_def
  ANDROID_CONTROL_AE_PRECAPTURE_ID_def ANDROID_CONTROL_AE_STATE_def ANDROID_CONTROL_AF_STATE_def
  ANDROID_CONTROL_AF_TRIGGER_ID_def ANDROID_CONTROL_AWB_STATE_def
  ANDROID_CONTROL_AVAILABLE_HIGH_SPEED_VIDEO_CONFIGURATIONS_def
  ANDROID_CONTROL_AE_LOCK_AVAILABLE_def ANDROID_CONTROL_AWB_LOCK_AVAILABLE_def
  ANDROID_CONTROL_AVAILABLE_MODES_def ANDROID_CONTROL_END_def ANDROID_DEMOSAIC_MODE_def
  ANDROID_DEMOSAIC_END_def ANDROID_EDGE_MODE_def ANDROID_EDGE_STRENGTH_def
  ANDROID_EDGE_AVAILABLE_EDGE_MODES_def ANDROID_EDGE_END_def ANDROID_FLASH_FIRING_POWER_def
  ANDROID_FLASH_FIRING_TIME_def ANDROID_FLASH_MODE_def ANDROID_FLASH_COLOR_TEMPERATURE_def
  ANDROID_FLASH_MAX_ENERGY_def ANDROID_FLASH_STATE_def ANDROID_FLASH_END_def
  ANDROID_FLASH_INFO_AVAILABLE_def ANDROID_FLASH_INFO_CHARGE_DURATION_def
  ANDROID_FLASH_INFO_END_def ANDROID_HOT_PIXEL_MODE_def
  ANDROID_HOT_PIXEL_AVAILABLE_HOT_PIXEL_MODES_def ANDROID_HOT_PIXEL_END_def
  ANDROID_JPEG_GPS_COORDINATES_def ANDROID_JPEG_GPS_PROCESSING_METHOD_def
  ANDROID_JPEG_GPS_TIMESTAMP_def ANDROID_JPEG_ORIENTATION_def ANDROID_JPEG_QUALITY_def
  ANDROID_JPEG_THUMBNAIL_QUALITY_def ANDROID_JPEG_THUMBNAIL_SIZE_def
  ANDROID_JPEG_AVAILABLE_THUMBNAIL_SIZES_def ANDROID_JPEG_MAX_SIZE_def ANDROID_JPEG_SIZE_def
  ANDROID_JPEG_END_def ANDROID_LENS_APERTURE_def ANDROID_LENS_FILTER_DENSITY_def
  ANDROID_LENS_FOCAL_LENGTH_def ANDROID_LENS_FOCUS_DISTANCE_def
  ANDROID_LENS_OPTICAL_STABILIZATION_MODE_def ANDROID_LENS_FACING_def
  ANDROID_LENS_POSE_ROTATION_def ANDROID_LENS_POSE_TRANSLATION_def ANDROID_LENS_FOCUS_RANGE_def
  ANDROID_LENS_STATE_def ANDROID_LENS_INTRINSIC_CALIBRATION_def ANDROID_LENS_RADIAL_DISTORTION_def
  ANDROID_LENS_END_def ANDROID_LENS_INFO_AVAILABLE_APERTURES_def
  ANDROID_LENS_INFO_AVAILABLE_FILTER_DENSITIES_def ANDROID_LENS_INFO_AVAILABLE_FOCAL_LENGTHS_def
  ANDROID_LENS_INFO_AVAILABLE_OPTICAL_STABILIZATION_def ANDROID_LENS_INFO_HYPERFOCAL_DISTANCE_def
  ANDROID_LENS_INFO_MINIMUM_FOCUS_DISTANCE_def ANDROID_LENS_INFO_SHADING_MAP_SIZE_def
  ANDROID_LENS_INFO_FOCUS_DISTANCE_CALIBRATION_def ANDROID_LENS_INFO_END_def
  ANDROID_NOISE_REDUCTION_MODE_def ANDROID_NOISE_REDUCTION_STRENGTH_def
  ANDROID_NOISE_REDUCTION_AVAILABLE_NOISE_REDUCTION_MODES_def ANDROID_NOISE_REDUCTION_END_def
  ANDROID_QUIRKS_METERING_CROP_REGION_def ANDROID_QUIRKS_TRIGGER_AF_WITH_AUTO_def
  ANDROID_QUIRKS_USE_ZSL_FORMAT_def ANDROID_QUIRKS_USE_PARTIAL_RESULT_def
  ANDROID_QUIRKS_PARTIAL_RESULT_def ANDROID_QUIRKS_END_def ANDROID_REQUEST_FRAME_COUNT_def
  ANDROID_REQUEST_ID_def ANDROID_REQUEST_INPUT_STREAMS_def ANDROID_REQUEST_METADATA_MODE_def
  ANDROID_REQUEST_OUTPUT_STREAMS_def ANDROID_REQUEST_TYPE_def
  ANDROID_REQUEST_MAX_NUM_OUTPUT_STREAMS_def ANDROID_REQUEST_MAX_NUM_REPROCESS_STREAMS_def
  ANDROID_REQUEST_MAX_NUM_INPUT_STREAMS_def ANDROID_REQUEST_PIPELINE_DEPTH_def
  ANDROID_REQUEST_PIPELINE_MAX_DEPTH_def ANDROID_REQUEST_PARTIAL_RESULT_COUNT_def
  ANDROID_REQUEST_AVAILABLE_CAPABILITIES_def ANDROID_REQUEST_AVAILABLE_REQUEST_KEYS_def
  ANDROID_REQUEST_AVAILABLE_RESULT_KEYS_def ANDROID_REQUEST_AVAILABLE_CHARACTERISTICS_KEYS_def
  ANDROID_REQUEST_END_def ANDROID_SCALER_CROP_REGION_def ANDROID_SCALER_AVAILABLE_FORMATS_def
  ANDROID_SCALER_AVAILABLE_JPEG_MIN_DURATIONS_def ANDROID_SCALER_AVAILABLE_JPEG_SIZES_def
  ANDROID_SCALER_AVAILABLE_MAX_DIGITAL_ZOOM_def
  ANDROID_SCALER_AVAILABLE_PROCESSED_MIN_DURATIONS_def
  ANDROID_SCALER_AVAILABLE_PROCESSED_SIZES_def ANDROID_SCALER_AVAILABLE_RAW_MIN_DURATIONS_def
  ANDROID_SCALER_AVAILABLE_RAW_SIZES_def ANDROID_SCALER_AVAILABLE_INPUT_OUTPUT_FORMATS_MAP_def
  ANDROID_SCALER_AVAILABLE_STREAM_CONFIGURATIONS_def
  ANDROID_SCALER_AVAILABLE_MIN_FRAME_DURATIONS_def ANDROID_SCALER_AVAILABLE_STALL_DURATIONS_def
  ANDROID_SCALER_CROPPING_TYPE_def ANDROID_SCALER_END_def ANDROID_SENSOR_EXPOSURE_TIME_def
  ANDROID_SENSOR_FRAME_DURATION_def ANDROID_SENSOR_SENSITIVITY_def
  ANDROID_SENSOR_REFERENCE_ILLUMINANT1_def ANDROID_SENSOR_REFERENCE_ILLUMINANT2_def
  ANDROID_SENSOR_CALIBRATION_TRANSFORM1_def ANDROID_SENSOR_CALIBRATION_TRANSFORM2_def
  ANDROID_SENSOR_COLOR_TRANSFORM1_def ANDROID_SENSOR_COLOR_TRANSFORM2_def
  ANDROID_SENSOR_FORWARD_MATRIX1_def ANDROID_SENSOR_FORWARD_MATRIX2_def
  ANDROID_SENSOR_BASE_GAIN_FACTOR_def ANDROID_SENSOR_BLACK_LEVEL_PATTERN_def
  ANDROID_SENSOR_MAX_ANALOG_SENSITIVITY_def ANDROID_SENSOR_ORIENTATION_def
  ANDROID_SENSOR_PROFILE_HUE_SAT_MAP_DIMENSIONS_def ANDROID_SENSOR_TIMESTAMP_def
  ANDROID_SENSOR_TEMPERATURE_def ANDROID_SENSOR_NEUTRAL_COLOR_POINT_def
  ANDROID_SENSOR_NOISE_PROFILE_def ANDROID_SENSOR_PROFILE_HUE_SAT_MAP_def
  ANDROID_SENSOR_PROFILE_TONE_CURVE_def ANDROID_SENSOR_GREEN_SPLIT_def
  ANDROID_SENSOR_TEST_PATTERN_DATA_def ANDROID_SENSOR_TEST_PATTERN_MODE_def
  ANDROID_SENSOR_AVAILABLE_TEST_PATTERN_MODES_def ANDROID_SENSOR_ROLLING_SHUTTER_SKEW_def
  ANDROID_SENSOR_END_def ANDROID_SENSOR_INFO_ACTIVE_ARRAY_SIZE_def
  ANDROID_SENSOR_INFO_SENSITIVITY_RANGE_def ANDROID_SENSOR_INFO_COLOR_FILTER_ARRANGEMENT_def
  ANDROID_SENSOR_INFO_EXPOSURE_TIME_RANGE_def ANDROID_SENSOR_INFO_MAX_FRAME_DURATION_def
  ANDROID_SENSOR_INFO_PHYSICAL_SIZE_def ANDROID_SENSOR_INFO_PIXEL_ARRAY_SIZE_def
  ANDROID_SENSOR_INFO_WHITE_LEVEL_def ANDROID_SENSOR_INFO_TIMESTAMP_SOURCE_def
  ANDROID_SENSOR_INFO_LENS_SHADING_APPLIED_def
  ANDROID_SENSOR_INFO_PRE_CORRECTION_ACTIVE_ARRAY_SIZE_def ANDROID_SENSOR_INFO_END_def
  ANDROID_SHADING_MODE_def ANDROID_SHADING_STRENGTH_def ANDROID_SHADING_AVAILABLE_MODES_def
  ANDROID_SHADING_END_def ANDROID_STATISTICS_FACE_DETECT_MODE_def
  ANDROID_STATISTICS_HISTOGRAM_MODE_def ANDROID_STATISTICS_SHARPNESS_MAP_MODE_def
  ANDROID_STATISTICS_HOT_PIXEL_MAP_MODE_def ANDROID_STATISTICS_FACE_IDS_def
  ANDROID_STATISTICS_FACE_LANDMARKS_def ANDROID_STATISTICS_FACE_RECTANGLES_def
  ANDROID_STATISTICS_FACE_SCORES_def ANDROID_STATISTICS_HISTOGRAM_def
  ANDROID_STATISTICS_SHARPNESS_MAP_def ANDROID_STATISTICS_LENS_SHADING_CORRECTION_MAP_def
  ANDROID_STATISTICS_LENS_SHADING_MAP_def ANDROID_STATISTICS_PREDICTED_COLOR_GAINS_def
  ANDROID_STATISTICS_PREDICTED_COLOR_TRANSFORM_def ANDROID_STATISTICS_SCENE_FLICKER_def
  ANDROID_STATISTICS_HOT_PIXEL_MAP_def ANDROID_STATISTICS_LENS_SHADING_MAP_MODE_def
  ANDROID_STATISTICS_END_def ANDROID_STATISTICS_INFO_AVAILABLE_FACE_DETECT_MODES_def
  ANDROID_STATISTICS_INFO_HISTOGRAM_BUCKET_COUNT_def ANDROID_STATISTICS_INFO_MAX_FACE_COUNT_def
  ANDROID_STATISTICS_INFO_MAX_HISTOGRAM_COUNT_def
  ANDROID_STATISTICS_INFO_MAX_SHARPNESS_MAP_VALUE_def
  ANDROID_STATISTICS_INFO_SHARPNESS_MAP_SIZE_def
  ANDROID_STATISTICS_INFO_AVAILABLE_HOT_PIXEL_MAP_MODES_def
  ANDROID_STATISTICS_INFO_AVAILABLE_LENS_SHADING_MAP_MODES_def ANDROID_STATISTICS_INFO_END_def
  ANDROID_TONEMAP_CURVE_BLUE_def ANDROID_TONEMAP_CURVE_GREEN_def ANDROID_TONEMAP_CURVE_RED_def
  ANDROID_TONEMAP_MODE_def ANDROID_TONEMAP_MAX_CURVE_POINTS_def
  ANDROID_TONEMAP_AVAILABLE_TONE_MAP_MODES_def ANDROID_TONEMAP_GAMMA_def
  ANDROID_TONEMAP_PRESET_CURVE_def ANDROID_TONEMAP_END_def ANDROID_LED_TRANSMIT_def
  ANDROID_LED_AVAILABLE_LEDS_def ANDROID_LED_END_def ANDROID_INFO_SUPPORTED_HARDWARE_LEVEL_def
  ANDROID_INFO_END_def ANDROID_BLACK_LEVEL_LOCK_def ANDROID_BLACK_LEVEL_END_def
  ANDROID_SYNC_FRAME_NUMBER_def ANDROID_SYNC_MAX_LATENCY_def ANDROID_SYNC_END_def
  ANDROID_REPROCESS_EFFECTIVE_EXPOSURE_FACTOR_def ANDROID_REPROCESS_MAX_CAPTURE_STALL_def
  ANDROID_REPROCESS_END_def ANDROID_DEPTH_MAX_DEPTH_SAMPLES_def
  ANDROID_DEPTH_AVAILABLE_DEPTH_STREAM_CONFIGURATIONS_def
  ANDROID_DEPTH_AVAILABLE_DEPTH_MIN_FRAME_DURATIONS_def
  ANDROID_DEPTH_AVAILABLE_DEPTH_STALL_DURATIONS_def ANDROID_DEPTH_DEPTH_IS_EXCLUSIVE_def
  ANDROID_DEPTH_END_def

end
