(* ===== verification/Tag_Tables.thy ===== *)
theory Tag_Tables
  imports Tag_Constants
begin

text \<open>
  The tag tables of \<open>camera_metadata_tag_info.c\<close> and the lookups of \<open>camera_metadata.c\<close> over
  them: \<open>get_camera_metadata_section_name\<close>, \<open>get_camera_metadata_tag_name\<close>,
  \<open>get_camera_metadata_tag_type\<close> and the registration of vendor tag operations.  The tables
  are C arrays written with designated initialisers; reading one out of range is a \<open>Fault\<close>.
  The lemmas show that no lookup ever reads a table out of range and that every declared
  tag has a name and a legal type.
\<close>

section \<open>Arrays with designated initialisers\<close>

text \<open>
  \<open>T a[n] = { [i] = v, ... }\<close>: a later initialiser of the same index overrides an earlier
  one, and a slot without an initialiser is zero.
\<close>

definition designated :: "'a \<Rightarrow> nat \<Rightarrow> (nat \<times> 'a) list \<Rightarrow> 'a list" where
  "designated zero n inits =
     map (\<lambda>i. case map_of (rev inits) i of None \<Rightarrow> zero | Some v \<Rightarrow> v) [0..<n]"

lemma length_designated [simp]: "length (designated z n inits) = n"
  by (simp add: designated_def)

datatype tag_info_t = TagInfo (tag_name: "string option") (tag_type: u8)

text \<open>A slot the initialiser leaves out.\<close>

abbreviation no_tag :: tag_info_t where
  "no_tag \<equiv> TagInfo None 0"

section \<open>The tables\<close>

definition camera_metadata_section_names :: "string option list" where
  "camera_metadata_section_names = designated None (unat ANDROID_SECTION_COUNT)
    [(unat ANDROID_COLOR_CORRECTION, Some ''android.colorCorrection''),
     (unat ANDROID_CONTROL, Some ''android.control''),
     (unat ANDROID_DEMOSAIC, Some ''android.demosaic''),
     (unat ANDROID_EDGE, Some ''android.edge''),
     (unat ANDROID_FLASH, Some ''android.flash''),
     (unat ANDROID_FLASH_INFO, Some ''android.flash.info''),
     (unat ANDROID_HOT_PIXEL, Some ''android.hotPixel''),
     (unat ANDROID_JPEG, Some ''android.jpeg''),
     (unat ANDROID_LENS, Some ''android.lens''),
     (unat ANDROID_LENS_INFO, Some ''android.lens.info''),
     (unat ANDROID_NOISE_REDUCTION, Some ''android.noiseReduction''),
     (unat ANDROID_QUIRKS, Some ''android.quirks''),
     (unat ANDROID_REQUEST, Some ''android.request''),
     (unat ANDROID_SCALER, Some ''android.scaler''),
     (unat ANDROID_SENSOR, Some ''android.sensor''),
     (unat ANDROID_SENSOR_INFO, Some ''android.sensor.info''),
     (unat ANDROID_SHADING, Some ''android.shading''),
     (unat ANDROID_STATISTICS, Some ''android.statistics''),
     (unat ANDROID_STATISTICS_INFO, Some ''android.statistics.info''),
     (unat ANDROID_TONEMAP, Some ''android.tonemap''),
     (unat ANDROID_LED, Some ''android.led''),
     (unat ANDROID_INFO, Some ''android.info''),
     (unat ANDROID_BLACK_LEVEL, Some ''android.blackLevel''),
     (unat ANDROID_SYNC, Some ''android.sync''),
     (unat ANDROID_REPROCESS, Some ''android.reprocess''),
     (unat ANDROID_DEPTH, Some ''android.depth'')]"

definition camera_metadata_section_bounds :: "(u32 \<times> u32) list" where
  "camera_metadata_section_bounds = designated (0, 0) (unat ANDROID_SECTION_COUNT)
    [(unat ANDROID_COLOR_CORRECTION, ANDROID_COLOR_CORRECTION_START, ANDROID_COLOR_CORRECTION_END),
     (unat ANDROID_CONTROL, ANDROID_CONTROL_START, ANDROID_CONTROL_END),
     (unat ANDROID_DEMOSAIC, ANDROID_DEMOSAIC_START, ANDROID_DEMOSAIC_END),
     (unat ANDROID_EDGE, ANDROID_EDGE_START, ANDROID_EDGE_END),
     (unat ANDROID_FLASH, ANDROID_FLASH_START, ANDROID_FLASH_END),
     (unat ANDROID_FLASH_INFO, ANDROID_FLASH_INFO_START, ANDROID_FLASH_INFO_END),
     (unat ANDROID_HOT_PIXEL, ANDROID_HOT_PIXEL_START, ANDROID_HOT_PIXEL_END),
     (unat ANDROID_JPEG, ANDROID_JPEG_START, ANDROID_JPEG_END),
     (unat ANDROID_LENS, ANDROID_LENS_START, ANDROID_LENS_END),
     (unat ANDROID_LENS_INFO, ANDROID_LENS_INFO_START, ANDROID_LENS_INFO_END),
     (unat ANDROID_NOISE_REDUCTION, ANDROID_NOISE_REDUCTION_START, ANDROID_NOISE_REDUCTION_END),
     (unat ANDROID_QUIRKS, ANDROID_QUIRKS_START, ANDROID_QUIRKS_END),
     (unat ANDROID_REQUEST, ANDROID_REQUEST_START, ANDROID_REQUEST_END),
     (unat ANDROID_SCALER, ANDROID_SCALER_START, ANDROID_SCALER_END),
     (unat ANDROID_SENSOR, ANDROID_SENSOR_START, ANDROID_SENSOR_END),
     (unat ANDROID_SENSOR_INFO, ANDROID_SENSOR_INFO_START, ANDROID_SENSOR_INFO_END),
     (unat ANDROID_SHADING, ANDROID_SHADING_START, ANDROID_SHADING_END),
     (unat ANDROID_STATISTICS, ANDROID_STATISTICS_START, ANDROID_STATISTICS_END),
     (unat ANDROID_STATISTICS_INFO, ANDROID_STATISTICS_INFO_START, ANDROID_STATISTICS_INFO_END),
     (unat ANDROID_TONEMAP, ANDROID_TONEMAP_START, ANDROID_TONEMAP_END),
     (unat ANDROID_LED, ANDROID_LED_START, ANDROID_LED_END),
     (unat ANDROID_INFO, ANDROID_INFO_START, ANDROID_INFO_END),
     (unat ANDROID_BLACK_LEVEL, ANDROID_BLACK_LEVEL_START, ANDROID_BLACK_LEVEL_END),
     (unat ANDROID_SYNC, ANDROID_SYNC_START, ANDROID_SYNC_END),
     (unat ANDROID_REPROCESS, ANDROID_REPROCESS_START, ANDROID_REPROCESS_END),
     (unat ANDROID_DEPTH, ANDROID_DEPTH_START, ANDROID_DEPTH_END)]"

definition android_color_correction :: "tag_info_t list" where
  "android_color_correction = designated no_tag (unat (ANDROID_COLOR_CORRECTION_END - ANDROID_COLOR_CORRECTION_START))
    [(unat (ANDROID_COLOR_CORRECTION_MODE - ANDROID_COLOR_CORRECTION_START), TagInfo (Some ''mode'') TYPE_BYTE),
     (unat (ANDROID_COLOR_CORRECTION_TRANSFORM - ANDROID_COLOR_CORRECTION_START), TagInfo (Some ''transform'') TYPE_RATIONAL),
     (unat (ANDROID_COLOR_CORRECTION_GAINS - ANDROID_COLOR_CORRECTION_START), TagInfo (Some ''gains'') TYPE_FLOAT),
     (unat (ANDROID_COLOR_CORRECTION_ABERRATION_MODE - ANDROID_COLOR_CORRECTION_START), TagInfo (Some ''aberrationMode'') TYPE_BYTE),
     (unat (ANDROID_COLOR_CORRECTION_AVAILABLE_ABERRATION_MODES - ANDROID_COLOR_CORRECTION_START), TagInfo (Some ''availableAberrationModes'') TYPE_BYTE)]"

definition android_control :: "tag_info_t list" where
  "android_control = designated no_tag (unat (ANDROID_CONTROL_END - ANDROID_CONTROL_START))
    [(unat (ANDROID_CONTROL_AE_ANTIBANDING_MODE - ANDROID_CONTROL_START), TagInfo (Some ''aeAntibandingMode'') TYPE_BYTE),
     (unat (ANDROID_CONTROL_AE_EXPOSURE_COMPENSATION - ANDROID_CONTROL_START), TagInfo (Some ''aeExposureCompensation'') TYPE_INT32),
     (unat (ANDROID_CONTROL_AE_LOCK - ANDROID_CONTROL_START), TagInfo (Some ''aeLock'') TYPE_BYTE),
     (unat (ANDROID_CONTROL_AE_MODE - ANDROID_CONTROL_START), TagInfo (Some ''aeMode'') TYPE_BYTE),
     (unat (ANDROID_CONTROL_AE_REGIONS - ANDROID_CONTROL_START), TagInfo (Some ''aeRegions'') TYPE_INT32),
     (unat (ANDROID_CONTROL_AE_TARGET_FPS_RANGE - ANDROID_CONTROL_START), TagInfo (Some ''aeTargetFpsRange'') TYPE_INT32),
     (unat (ANDROID_CONTROL_AE_PRECAPTURE_TRIGGER - ANDROID_CONTROL_START), TagInfo (Some ''aePrecaptureTrigger'') TYPE_BYTE),
     (unat (ANDROID_CONTROL_AF_MODE - ANDROID_CONTROL_START), TagInfo (Some ''afMode'') TYPE_BYTE),
     (unat (ANDROID_CONTROL_AF_REGIONS - ANDROID_CONTROL_START), TagInfo (Some ''afRegions'') TYPE_INT32),
     (unat (ANDROID_CONTROL_AF_TRIGGER - ANDROID_CONTROL_START), TagInfo (Some ''afTrigger'') TYPE_BYTE),
     (unat (ANDROID_CONTROL_AWB_LOCK - ANDROID_CONTROL_START), TagInfo (Some ''awbLock'') TYPE_BYTE),
     (unat (ANDROID_CONTROL_AWB_MODE - ANDROID_CONTROL_START), TagInfo (Some ''awbMode'') TYPE_BYTE),
     (unat (ANDROID_CONTROL_AWB_REGIONS - ANDROID_CONTROL_START), TagInfo (Some ''awbRegions'') TYPE_INT32),
     (unat (ANDROID_CONTROL_CAPTURE_INTENT - ANDROID_CONTROL_START), TagInfo (Some ''captureIntent'') TYPE_BYTE),
     (unat (ANDROID_CONTROL_EFFECT_MODE - ANDROID_CONTROL_START), TagInfo (Some ''effectMode'') TYPE_BYTE),
     (unat (ANDROID_CONTROL_MODE - ANDROID_CONTROL_START), TagInfo (Some ''mode'') TYPE_BYTE),
     (unat (ANDROID_CONTROL_SCENE_MODE - ANDROID_CONTROL_START), TagInfo (Some ''sceneMode'') TYPE_BYTE),
     (unat (ANDROID_CONTROL_VIDEO_STABILIZATION_MODE - ANDROID_CONTROL_START), TagInfo (Some ''videoStabilizationMode'') TYPE_BYTE),
     (unat (ANDROID_CONTROL_AE_AVAILABLE_ANTIBANDING_MODES - ANDROID_CONTROL_START), TagInfo (Some ''aeAvailableAntibandingModes'') TYPE_BYTE),
     (unat (ANDROID_CONTROL_AE_AVAILABLE_MODES - ANDROID_CONTROL_START), TagInfo (Some ''aeAvailableModes'') TYPE_BYTE),
     (unat (ANDROID_CONTROL_AE_AVAILABLE_TARGET_FPS_RANGES - ANDROID_CONTROL_START), TagInfo (Some ''aeAvailableTargetFpsRanges'') TYPE_INT32),
     (unat (ANDROID_CONTROL_AE_COMPENSATION_RANGE - ANDROID_CONTROL_START), TagInfo (Some ''aeCompensationRange'') TYPE_INT32),
     (unat (ANDROID_CONTROL_AE_COMPENSATION_STEP - ANDROID_CONTROL_START), TagInfo (Some ''aeCompensationStep'') TYPE_RATIONAL),
     (unat (ANDROID_CONTROL_AF_AVAILABLE_MODES - ANDROID_CONTROL_START), TagInfo (Some ''afAvailableModes'') TYPE_BYTE),
     (unat (ANDROID_CONTROL_AVAILABLE_EFFECTS - ANDROID_CONTROL_START), TagInfo (Some ''availableEffects'') TYPE_BYTE),
     (unat (ANDROID_CONTROL_AVAILABLE_SCENE_MODES - ANDROID_CONTROL_START), TagInfo (Some ''availableSceneModes'') TYPE_BYTE),
     (unat (ANDROID_CONTROL_AVAILABLE_VIDEO_STABILIZATION_MODES - ANDROID_CONTROL_START), TagInfo (Some ''availableVideoStabilizationModes'') TYPE_BYTE),
     (unat (ANDROID_CONTROL_AWB_AVAILABLE_MODES - ANDROID_CONTROL_START), TagInfo (Some ''awbAvailableModes'') TYPE_BYTE),
     (unat (ANDROID_CONTROL_MAX_REGIONS - ANDROID_CONTROL_START), TagInfo (Some ''maxRegions'') TYPE_INT32),
     (unat (ANDROID_CONTROL_SCENE_MODE_OVERRIDES - ANDROID_CONTROL_START), TagInfo (Some ''sceneModeOverrides'') TYPE_BYTE),
     (unat (ANDROID_CONTROL_AE_PRECAPTURE_ID - ANDROID_CONTROL_START), TagInfo (Some ''aePrecaptureId'') TYPE_INT32),
     (unat (ANDROID_CONTROL_AE_STATE - ANDROID_CONTROL_START), TagInfo (Some ''aeState'') TYPE_BYTE),
     (unat (ANDROID_CONTROL_AF_STATE - ANDROID_CONTROL_START), TagInfo (Some ''afState'') TYPE_BYTE),
     (unat (ANDROID_CONTROL_AF_TRIGGER_ID - ANDROID_CONTROL_START), TagInfo (Some ''afTriggerId'') TYPE_INT32),
     (unat (ANDROID_CONTROL_AWB_STATE - ANDROID_CONTROL_START), TagInfo (Some ''awbState'') TYPE_BYTE),
     (unat (ANDROID_CONTROL_AVAILABLE_HIGH_SPEED_VIDEO_CONFIGURATIONS - ANDROID_CONTROL_START), TagInfo (Some ''availableHighSpeedVideoConfigurations'') TYPE_INT32),
     (unat (ANDROID_CONTROL_AE_LOCK_AVAILABLE - ANDROID_CONTROL_START), TagInfo (Some ''aeLockAvailable'') TYPE_BYTE),
     (unat (ANDROID_CONTROL_AWB_LOCK_AVAILABLE - ANDROID_CONTROL_START), TagInfo (Some ''awbLockAvailable'') TYPE_BYTE),
     (unat (ANDROID_CONTROL_AVAILABLE_MODES - ANDROID_CONTROL_START), TagInfo (Some ''availableModes'') TYPE_BYTE)]"

definition android_demosaic :: "tag_info_t list" where
  "android_demosaic = designated no_tag (unat (ANDROID_DEMOSAIC_END - ANDROID_DEMOSAIC_START))
    [(unat (ANDROID_DEMOSAIC_MODE - ANDROID_DEMOSAIC_START), TagInfo (Some ''mode'') TYPE_BYTE)]"

definition android_edge :: "tag_info_t list" where
  "android_edge = designated no_tag (unat (ANDROID_EDGE_END - ANDROID_EDGE_START))
    [(unat (ANDROID_EDGE_MODE - ANDROID_EDGE_START), TagInfo (Some ''mode'') TYPE_BYTE),
     (unat (ANDROID_EDGE_STRENGTH - ANDROID_EDGE_START), TagInfo (Some ''strength'') TYPE_BYTE),
     (unat (ANDROID_EDGE_AVAILABLE_EDGE_MODES - ANDROID_EDGE_START), TagInfo (Some ''availableEdgeModes'') TYPE_BYTE)]"

definition android_flash :: "tag_info_t list" where
  "android_flash = designated no_tag (unat (ANDROID_FLASH_END - ANDROID_FLASH_START))
    [(unat (ANDROID_FLASH_FIRING_POWER - ANDROID_FLASH_START), TagInfo (Some ''firingPower'') TYPE_BYTE),
     (unat (ANDROID_FLASH_FIRING_TIME - ANDROID_FLASH_START), TagInfo (Some ''firingTime'') TYPE_INT64),
     (unat (ANDROID_FLASH_MODE - ANDROID_FLASH_START), TagInfo (Some ''mode'') TYPE_BYTE),
     (unat (ANDROID_FLASH_COLOR_TEMPERATURE - ANDROID_FLASH_START), TagInfo (Some ''colorTemperature'') TYPE_BYTE),
     (unat (ANDROID_FLASH_MAX_ENERGY - ANDROID_FLASH_START), TagInfo (Some ''maxEnergy'') TYPE_BYTE),
     (unat (ANDROID_FLASH_STATE - ANDROID_FLASH_START), TagInfo (Some ''state'') TYPE_BYTE)]"

definition android_flash_info :: "tag_info_t list" where
  "android_flash_info = designated no_tag (unat (ANDROID_FLASH_INFO_END - ANDROID_FLASH_INFO_START))
    [(unat (ANDROID_FLASH_INFO_AVAILABLE - ANDROID_FLASH_INFO_START), TagInfo (Some ''available'') TYPE_BYTE),
     (unat (ANDROID_FLASH_INFO_CHARGE_DURATION - ANDROID_FLASH_INFO_START), TagInfo (Some ''chargeDuration'') TYPE_INT64)]"

definition android_hot_pixel :: "tag_info_t list" where
  "android_hot_pixel = designated no_tag (unat (ANDROID_HOT_PIXEL_END - ANDROID_HOT_PIXEL_START))
    [(unat (ANDROID_HOT_PIXEL_MODE - ANDROID_HOT_PIXEL_START), TagInfo (Some ''mode'') TYPE_BYTE),
     (unat (ANDROID_HOT_PIXEL_AVAILABLE_HOT_PIXEL_MODES - ANDROID_HOT_PIXEL_START), TagInfo (Some ''availableHotPixelModes'') TYPE_BYTE)]"

definition android_jpeg :: "tag_info_t list" where
  "android_jpeg = designated no_tag (unat (ANDROID_JPEG_END - ANDROID_JPEG_START))
    [(unat (ANDROID_JPEG_GPS_COORDINATES - ANDROID_JPEG_START), TagInfo (Some ''gpsCoordinates'') TYPE_DOUBLE),
     (unat (ANDROID_JPEG_GPS_PROCESSING_METHOD - ANDROID_JPEG_START), TagInfo (Some ''gpsProcessingMethod'') TYPE_BYTE),
     (unat (ANDROID_JPEG_GPS_TIMESTAMP - ANDROID_JPEG_START), TagInfo (Some ''gpsTimestamp'') TYPE_INT64),
     (unat (ANDROID_JPEG_ORIENTATION - ANDROID_JPEG_START), TagInfo (Some ''orientation'') TYPE_INT32),
     (unat (ANDROID_JPEG_QUALITY - ANDROID_JPEG_START), TagInfo (Some ''quality'') TYPE_BYTE),
     (unat (ANDROID_JPEG_THUMBNAIL_QUALITY - ANDROID_JPEG_START), TagInfo (Some ''thumbnailQuality'') TYPE_BYTE),
     (unat (ANDROID_JPEG_THUMBNAIL_SIZE - ANDROID_JPEG_START), TagInfo (Some ''thumbnailSize'') TYPE_INT32),
     (unat (ANDROID_JPEG_AVAILABLE_THUMBNAIL_SIZES - ANDROID_JPEG_START), TagInfo (Some ''availableThumbnailSizes'') TYPE_INT32),
     (unat (ANDROID_JPEG_MAX_SIZE - ANDROID_JPEG_START), TagInfo (Some ''maxSize'') TYPE_INT32),
     (unat (ANDROID_JPEG_SIZE - ANDROID_JPEG_START), TagInfo (Some ''size'') TYPE_INT32)]"

definition android_lens :: "tag_info_t list" where
  "android_lens = designated no_tag (unat (ANDROID_LENS_END - ANDROID_LENS_START))
    [(unat (ANDROID_LENS_APERTURE - ANDROID_LENS_START), TagInfo (Some ''aperture'') TYPE_FLOAT),
     (unat (ANDROID_LENS_FILTER_DENSITY - ANDROID_LENS_START), TagInfo (Some ''filterDensity'') TYPE_FLOAT),
     (unat (ANDROID_LENS_FOCAL_LENGTH - ANDROID_LENS_START), TagInfo (Some ''focalLength'') TYPE_FLOAT),
     (unat (ANDROID_LENS_FOCUS_DISTANCE - ANDROID_LENS_START), TagInfo (Some ''focusDistance'') TYPE_FLOAT),
     (unat (ANDROID_LENS_OPTICAL_STABILIZATION_MODE - ANDROID_LENS_START), TagInfo (Some ''opticalStabilizationMode'') TYPE_BYTE),
     (unat (ANDROID_LENS_FACING - ANDROID_LENS_START), TagInfo (Some ''facing'') TYPE_BYTE),
     (unat (ANDROID_LENS_POSE_ROTATION - ANDROID_LENS_START), TagInfo (Some ''poseRotation'') TYPE_FLOAT),
     (unat (ANDROID_LENS_POSE_TRANSLATION - ANDROID_LENS_START), TagInfo (Some ''poseTranslation'') TYPE_FLOAT),
     (unat (ANDROID_LENS_FOCUS_RANGE - ANDROID_LENS_START), TagInfo (Some ''focusRange'') TYPE_FLOAT),
     (unat (ANDROID_LENS_STATE - ANDROID_LENS_START), TagInfo (Some ''state'') TYPE_BYTE),
     (unat (ANDROID_LENS_INTRINSIC_CALIBRATION - ANDROID_LENS_START), TagInfo (Some ''intrinsicCalibration'') TYPE_FLOAT),
     (unat (ANDROID_LENS_RADIAL_DISTORTION - ANDROID_LENS_START), TagInfo (Some ''radialDistortion'') TYPE_FLOAT)]"

definition android_lens_info :: "tag_info_t list" where
  "android_lens_info = designated no_tag (unat (ANDROID_LENS_INFO_END - ANDROID_LENS_INFO_START))
    [(unat (ANDROID_LENS_INFO_AVAILABLE_APERTURES - ANDROID_LENS_INFO_START), TagInfo (Some ''availableApertures'') TYPE_FLOAT),
     (unat (ANDROID_LENS_INFO_AVAILABLE_FILTER_DENSITIES - ANDROID_LENS_INFO_START), TagInfo (Some ''availableFilterDensities'') TYPE_FLOAT),
     (unat (ANDROID_LENS_INFO_AVAILABLE_FOCAL_LENGTHS - ANDROID_LENS_INFO_START), TagInfo (Some ''availableFocalLengths'') TYPE_FLOAT),
     (unat (ANDROID_LENS_INFO_AVAILABLE_OPTICAL_STABILIZATION - ANDROID_LENS_INFO_START), TagInfo (Some ''availableOpticalStabilization'') TYPE_BYTE),
     (unat (ANDROID_LENS_INFO_HYPERFOCAL_DISTANCE - ANDROID_LENS_INFO_START), TagInfo (Some ''hyperfocalDistance'') TYPE_FLOAT),
     (unat (ANDROID_LENS_INFO_MINIMUM_FOCUS_DISTANCE - ANDROID_LENS_INFO_START), TagInfo (Some ''minimumFocusDistance'') TYPE_FLOAT),
     (unat (ANDROID_LENS_INFO_SHADING_MAP_SIZE - ANDROID_LENS_INFO_START), TagInfo (Some ''shadingMapSize'') TYPE_INT32),
     (unat (ANDROID_LENS_INFO_FOCUS_DISTANCE_CALIBRATION - ANDROID_LENS_INFO_START), TagInfo (Some ''focusDistanceCalibration'') TYPE_BYTE)]"

definition android_noise_reduction :: "tag_info_t list" where
  "android_noise_reduction = designated no_tag (unat (ANDROID_NOISE_REDUCTION_END - ANDROID_NOISE_REDUCTION_START))
    [(unat (ANDROID_NOISE_REDUCTION_MODE - ANDROID_NOISE_REDUCTION_START), TagInfo (Some ''mode'') TYPE_BYTE),
     (unat (ANDROID_NOISE_REDUCTION_STRENGTH - ANDROID_NOISE_REDUCTION_START), TagInfo (Some ''strength'') TYPE_BYTE),
     (unat (ANDROID_NOISE_REDUCTION_AVAILABLE_NOISE_REDUCTION_MODES - ANDROID_NOISE_REDUCTION_START), TagInfo (Some ''availableNoiseReductionModes'') TYPE_BYTE)]"

definition android_quirks :: "tag_info_t list" where
  "android_quirks = designated no_tag (unat (ANDROID_QUIRKS_END - ANDROID_QUIRKS_START))
    [(unat (ANDROID_QUIRKS_METERING_CROP_REGION - ANDROID_QUIRKS_START), TagInfo (Some ''meteringCropRegion'') TYPE_BYTE),
     (unat (ANDROID_QUIRKS_TRIGGER_AF_WITH_AUTO - ANDROID_QUIRKS_START), TagInfo (Some ''triggerAfWithAuto'') TYPE_BYTE),
     (unat (ANDROID_QUIRKS_USE_ZSL_FORMAT - ANDROID_QUIRKS_START), TagInfo (Some ''useZslFormat'') TYPE_BYTE),
     (unat (ANDROID_QUIRKS_USE_PARTIAL_RESULT - ANDROID_QUIRKS_START), TagInfo (Some ''usePartialResult'') TYPE_BYTE),
     (unat (ANDROID_QUIRKS_PARTIAL_RESULT - ANDROID_QUIRKS_START), TagInfo (Some ''partialResult'') TYPE_BYTE)]"

definition android_request :: "tag_info_t list" where
  "android_request = designated no_tag (unat (ANDROID_REQUEST_END - ANDROID_REQUEST_START))
    [(unat (ANDROID_REQUEST_FRAME_COUNT - ANDROID_REQUEST_START), TagInfo (Some ''frameCount'') TYPE_INT32),
     (unat (ANDROID_REQUEST_ID - ANDROID_REQUEST_START), TagInfo (Some ''id'') TYPE_INT32),
     (unat (ANDROID_REQUEST_INPUT_STREAMS - ANDROID_REQUEST_START), TagInfo (Some ''inputStreams'') TYPE_INT32),
     (unat (ANDROID_REQUEST_METADATA_MODE - ANDROID_REQUEST_START), TagInfo (Some ''metadataMode'') TYPE_BYTE),
     (unat (ANDROID_REQUEST_OUTPUT_STREAMS - ANDROID_REQUEST_START), TagInfo (Some ''outputStreams'') TYPE_INT32),
     (unat (ANDROID_REQUEST_TYPE - ANDROID_REQUEST_START), TagInfo (Some ''type'') TYPE_BYTE),
     (unat (ANDROID_REQUEST_MAX_NUM_OUTPUT_STREAMS - ANDROID_REQUEST_START), TagInfo (Some ''maxNumOutputStreams'') TYPE_INT32),
     (unat (ANDROID_REQUEST_MAX_NUM_REPROCESS_STREAMS - ANDROID_REQUEST_START), TagInfo (Some ''maxNumReprocessStreams'') TYPE_INT32),
     (unat (ANDROID_REQUEST_MAX_NUM_INPUT_STREAMS - ANDROID_REQUEST_START), TagInfo (Some ''maxNumInputStreams'') TYPE_INT32),
     (unat (ANDROID_REQUEST_PIPELINE_DEPTH - ANDROID_REQUEST_START), TagInfo (Some ''pipelineDepth'') TYPE_BYTE),
     (unat (ANDROID_REQUEST_PIPELINE_MAX_DEPTH - ANDROID_REQUEST_START), TagInfo (Some ''pipelineMaxDepth'') TYPE_BYTE),
     (unat (ANDROID_REQUEST_PARTIAL_RESULT_COUNT - ANDROID_REQUEST_START), TagInfo (Some ''partialResultCount'') TYPE_INT32),
     (unat (ANDROID_REQUEST_AVAILABLE_CAPABILITIES - ANDROID_REQUEST_START), TagInfo (Some ''availableCapabilities'') TYPE_BYTE),
     (unat (ANDROID_REQUEST_AVAILABLE_REQUEST_KEYS - ANDROID_REQUEST_START), TagInfo (Some ''availableRequestKeys'') TYPE_INT32),
     (unat (ANDROID_REQUEST_AVAILABLE_RESULT_KEYS - ANDROID_REQUEST_START), TagInfo (Some ''availableResultKeys'') TYPE_INT32),
     (unat (ANDROID_REQUEST_AVAILABLE_CHARACTERISTICS_KEYS - ANDROID_REQUEST_START), TagInfo (Some ''availableCharacteristicsKeys'') TYPE_INT32)]"

definition android_scaler :: "tag_info_t list" where
  "android_scaler = designated no_tag (unat (ANDROID_SCALER_END - ANDROID_SCALER_START))
    [(unat (ANDROID_SCALER_CROP_REGION - ANDROID_SCALER_START), TagInfo (Some ''cropRegion'') TYPE_INT32),
     (unat (ANDROID_SCALER_AVAILABLE_FORMATS - ANDROID_SCALER_START), TagInfo (Some ''availableFormats'') TYPE_INT32),
     (unat (ANDROID_SCALER_AVAILABLE_JPEG_MIN_DURATIONS - ANDROID_SCALER_START), TagInfo (Some ''availableJpegMinDurations'') TYPE_INT64),
     (unat (ANDROID_SCALER_AVAILABLE_JPEG_SIZES - ANDROID_SCALER_START), TagInfo (Some ''availableJpegSizes'') TYPE_INT32),
     (unat (ANDROID_SCALER_AVAILABLE_MAX_DIGITAL_ZOOM - ANDROID_SCALER_START), TagInfo (Some ''availableMaxDigitalZoom'') TYPE_FLOAT),
     (unat (ANDROID_SCALER_AVAILABLE_PROCESSED_MIN_DURATIONS - ANDROID_SCALER_START), TagInfo (Some ''availableProcessedMinDurations'') TYPE_INT64),
     (unat (ANDROID_SCALER_AVAILABLE_PROCESSED_SIZES - ANDROID_SCALER_START), TagInfo (Some ''availableProcessedSizes'') TYPE_INT32),
     (unat (ANDROID_SCALER_AVAILABLE_RAW_MIN_DURATIONS - ANDROID_SCALER_START), TagInfo (Some ''availableRawMinDurations'') TYPE_INT64),
     (unat (ANDROID_SCALER_AVAILABLE_RAW_SIZES - ANDROID_SCALER_START), TagInfo (Some ''availableRawSizes'') TYPE_INT32),
     (unat (ANDROID_SCALER_AVAILABLE_INPUT_OUTPUT_FORMATS_MAP - ANDROID_SCALER_START), TagInfo (Some ''availableInputOutputFormatsMap'') TYPE_INT32),
     (unat (ANDROID_SCALER_AVAILABLE_STREAM_CONFIGURATIONS - ANDROID_SCALER_START), TagInfo (Some ''availableStreamConfigurations'') TYPE_INT32),
     (unat (ANDROID_SCALER_AVAILABLE_MIN_FRAME_DURATIONS - ANDROID_SCALER_START), TagInfo (Some ''availableMinFrameDurations'') TYPE_INT64),
     (unat (ANDROID_SCALER_AVAILABLE_STALL_DURATIONS - ANDROID_SCALER_START), TagInfo (Some ''availableStallDurations'') TYPE_INT64),
     (unat (ANDROID_SCALER_CROPPING_TYPE - ANDROID_SCALER_START), TagInfo (Some ''croppingType'') TYPE_BYTE)]"

definition android_sensor :: "tag_info_t list" where
  "android_sensor = designated no_tag (unat (ANDROID_SENSOR_END - ANDROID_SENSOR_START))
    [(unat (ANDROID_SENSOR_EXPOSURE_TIME - ANDROID_SENSOR_START), TagInfo (Some ''exposureTime'') TYPE_INT64),
     (unat (ANDROID_SENSOR_FRAME_DURATION - ANDROID_SENSOR_START), TagInfo (Some ''frameDuration'') TYPE_INT64),
     (unat (ANDROID_SENSOR_SENSITIVITY - ANDROID_SENSOR_START), TagInfo (Some ''sensitivity'') TYPE_INT32),
     (unat (ANDROID_SENSOR_REFERENCE_ILLUMINANT1 - ANDROID_SENSOR_START), TagInfo (Some ''referenceIlluminant1'') TYPE_BYTE),
     (unat (ANDROID_SENSOR_REFERENCE_ILLUMINANT2 - ANDROID_SENSOR_START), TagInfo (Some ''referenceIlluminant2'') TYPE_BYTE),
     (unat (ANDROID_SENSOR_CALIBRATION_TRANSFORM1 - ANDROID_SENSOR_START), TagInfo (Some ''calibrationTransform1'') TYPE_RATIONAL),
     (unat (ANDROID_SENSOR_CALIBRATION_TRANSFORM2 - ANDROID_SENSOR_START), TagInfo (Some ''calibrationTransform2'') TYPE_RATIONAL),
     (unat (ANDROID_SENSOR_COLOR_TRANSFORM1 - ANDROID_SENSOR_START), TagInfo (Some ''colorTransform1'') TYPE_RATIONAL),
     (unat (ANDROID_SENSOR_COLOR_TRANSFORM2 - ANDROID_SENSOR_START), TagInfo (Some ''colorTransform2'') TYPE_RATIONAL),
     (unat (ANDROID_SENSOR_FORWARD_MATRIX1 - ANDROID_SENSOR_START), TagInfo (Some ''forwardMatrix1'') TYPE_RATIONAL),
     (unat (ANDROID_SENSOR_FORWARD_MATRIX2 - ANDROID_SENSOR_START), TagInfo (Some ''forwardMatrix2'') TYPE_RATIONAL),
     (unat (ANDROID_SENSOR_BASE_GAIN_FACTOR - ANDROID_SENSOR_START), TagInfo (Some ''baseGainFactor'') TYPE_RATIONAL),
     (unat (ANDROID_SENSOR_BLACK_LEVEL_PATTERN - ANDROID_SENSOR_START), TagInfo (Some ''blackLevelPattern'') TYPE_INT32),
     (unat (ANDROID_SENSOR_MAX_ANALOG_SENSITIVITY - ANDROID_SENSOR_START), TagInfo (Some ''maxAnalogSensitivity'') TYPE_INT32),
     (unat (ANDROID_SENSOR_ORIENTATION - ANDROID_SENSOR_START), TagInfo (Some ''orientation'') TYPE_INT32),
     (unat (ANDROID_SENSOR_PROFILE_HUE_SAT_MAP_DIMENSIONS - ANDROID_SENSOR_START), TagInfo (Some ''profileHueSatMapDimensions'') TYPE_INT32),
     (unat (ANDROID_SENSOR_TIMESTAMP - ANDROID_SENSOR_START), TagInfo (Some ''timestamp'') TYPE_INT64),
     (unat (ANDROID_SENSOR_TEMPERATURE - ANDROID_SENSOR_START), TagInfo (Some ''temperature'') TYPE_FLOAT),
     (unat (ANDROID_SENSOR_NEUTRAL_COLOR_POINT - ANDROID_SENSOR_START), TagInfo (Some ''neutralColorPoint'') TYPE_RATIONAL),
     (unat (ANDROID_SENSOR_NOISE_PROFILE - ANDROID_SENSOR_START), TagInfo (Some ''noiseProfile'') TYPE_DOUBLE),
     (unat (ANDROID_SENSOR_PROFILE_HUE_SAT_MAP - ANDROID_SENSOR_START), TagInfo (Some ''profileHueSatMap'') TYPE_FLOAT),
     (unat (ANDROID_SENSOR_PROFILE_TONE_CURVE - ANDROID_SENSOR_START), TagInfo (Some ''profileToneCurve'') TYPE_FLOAT),
     (unat (ANDROID_SENSOR_GREEN_SPLIT - ANDROID_SENSOR_START), TagInfo (Some ''greenSplit'') TYPE_FLOAT),
     (unat (ANDROID_SENSOR_TEST_PATTERN_DATA - ANDROID_SENSOR_START), TagInfo (Some ''testPatternData'') TYPE_INT32),
     (unat (ANDROID_SENSOR_TEST_PATTERN_MODE - ANDROID_SENSOR_START), TagInfo (Some ''testPatternMode'') TYPE_INT32),
     (unat (ANDROID_SENSOR_AVAILABLE_TEST_PATTERN_MODES - ANDROID_SENSOR_START), TagInfo (Some ''availableTestPatternModes'') TYPE_INT32),
     (unat (ANDROID_SENSOR_ROLLING_SHUTTER_SKEW - ANDROID_SENSOR_START), TagInfo (Some ''rollingShutterSkew'') TYPE_INT64)]"

definition android_sensor_info :: "tag_info_t list" where
  "android_sensor_info = designated no_tag (unat (ANDROID_SENSOR_INFO_END - ANDROID_SENSOR_INFO_START))
    [(unat (ANDROID_SENSOR_INFO_ACTIVE_ARRAY_SIZE - ANDROID_SENSOR_INFO_START), TagInfo (Some ''activeArraySize'') TYPE_INT32),
     (unat (ANDROID_SENSOR_INFO_SENSITIVITY_RANGE - ANDROID_SENSOR_INFO_START), TagInfo (Some ''sensitivityRange'') TYPE_INT32),
     (unat (ANDROID_SENSOR_INFO_COLOR_FILTER_ARRANGEMENT - ANDROID_SENSOR_INFO_START), TagInfo (Some ''colorFilterArrangement'') TYPE_BYTE),
     (unat (ANDROID_SENSOR_INFO_EXPOSURE_TIME_RANGE - ANDROID_SENSOR_INFO_START), TagInfo (Some ''exposureTimeRange'') TYPE_INT64),
     (unat (ANDROID_SENSOR_INFO_MAX_FRAME_DURATION - ANDROID_SENSOR_INFO_START), TagInfo (Some ''maxFrameDuration'') TYPE_INT64),
     (unat (ANDROID_SENSOR_INFO_PHYSICAL_SIZE - ANDROID_SENSOR_INFO_START), TagInfo (Some ''physicalSize'') TYPE_FLOAT),
     (unat (ANDROID_SENSOR_INFO_PIXEL_ARRAY_SIZE - ANDROID_SENSOR_INFO_START), TagInfo (Some ''pixelArraySize'') TYPE_INT32),
     (unat (ANDROID_SENSOR_INFO_WHITE_LEVEL - ANDROID_SENSOR_INFO_START), TagInfo (Some ''whiteLevel'') TYPE_INT32),
     (unat (ANDROID_SENSOR_INFO_TIMESTAMP_SOURCE - ANDROID_SENSOR_INFO_START), TagInfo (Some ''timestampSource'') TYPE_BYTE),
     (unat (ANDROID_SENSOR_INFO_LENS_SHADING_APPLIED - ANDROID_SENSOR_INFO_START), TagInfo (Some ''lensShadingApplied'') TYPE_BYTE),
     (unat (ANDROID_SENSOR_INFO_PRE_CORRECTION_ACTIVE_ARRAY_SIZE - ANDROID_SENSOR_INFO_START), TagInfo (Some ''preCorrectionActiveArraySize'') TYPE_INT32)]"

definition android_shading :: "tag_info_t list" where
  "android_shading = designated no_tag (unat (ANDROID_SHADING_END - ANDROID_SHADING_START))
    [(unat (ANDROID_SHADING_MODE - ANDROID_SHADING_START), TagInfo (Some ''mode'') TYPE_BYTE),
     (unat (ANDROID_SHADING_STRENGTH - ANDROID_SHADING_START), TagInfo (Some ''strength'') TYPE_BYTE),
     (unat (ANDROID_SHADING_AVAILABLE_MODES - ANDROID_SHADING_START), TagInfo (Some ''availableModes'') TYPE_BYTE)]"

definition android_statistics :: "tag_info_t list" where
  "android_statistics = designated no_tag (unat (ANDROID_STATISTICS_END - ANDROID_STATISTICS_START))
    [(unat (ANDROID_STATISTICS_FACE_DETECT_MODE - ANDROID_STATISTICS_START), TagInfo (Some ''faceDetectMode'') TYPE_BYTE),
     (unat (ANDROID_STATISTICS_HISTOGRAM_MODE - ANDROID_STATISTICS_START), TagInfo (Some ''histogramMode'') TYPE_BYTE),
     (unat (ANDROID_STATISTICS_SHARPNESS_MAP_MODE - ANDROID_STATISTICS_START), TagInfo (Some ''sharpnessMapMode'') TYPE_BYTE),
     (unat (ANDROID_STATISTICS_HOT_PIXEL_MAP_MODE - ANDROID_STATISTICS_START), TagInfo (Some ''hotPixelMapMode'') TYPE_BYTE),
     (unat (ANDROID_STATISTICS_FACE_IDS - ANDROID_STATISTICS_START), TagInfo (Some ''faceIds'') TYPE_INT32),
     (unat (ANDROID_STATISTICS_FACE_LANDMARKS - ANDROID_STATISTICS_START), TagInfo (Some ''faceLandmarks'') TYPE_INT32),
     (unat (ANDROID_STATISTICS_FACE_RECTANGLES - ANDROID_STATISTICS_START), TagInfo (Some ''faceRectangles'') TYPE_INT32),
     (unat (ANDROID_STATISTICS_FACE_SCORES - ANDROID_STATISTICS_START), TagInfo (Some ''faceScores'') TYPE_BYTE),
     (unat (ANDROID_STATISTICS_HISTOGRAM - ANDROID_STATISTICS_START), TagInfo (Some ''histogram'') TYPE_INT32),
     (unat (ANDROID_STATISTICS_SHARPNESS_MAP - ANDROID_STATISTICS_START), TagInfo (Some ''sharpnessMap'') TYPE_INT32),
     (unat (ANDROID_STATISTICS_LENS_SHADING_CORRECTION_MAP - ANDROID_STATISTICS_START), TagInfo (Some ''lensShadingCorrectionMap'') TYPE_BYTE),
     (unat (ANDROID_STATISTICS_LENS_SHADING_MAP - ANDROID_STATISTICS_START), TagInfo (Some ''lensShadingMap'') TYPE_FLOAT),
     (unat (ANDROID_STATISTICS_PREDICTED_COLOR_GAINS - ANDROID_STATISTICS_START), TagInfo (Some ''predictedColorGains'') TYPE_FLOAT),
     (unat (ANDROID_STATISTICS_PREDICTED_COLOR_TRANSFORM - ANDROID_STATISTICS_START), TagInfo (Some ''predictedColorTransform'') TYPE_RATIONAL),
     (unat (ANDROID_STATISTICS_SCENE_FLICKER - ANDROID_STATISTICS_START), TagInfo (Some ''sceneFlicker'') TYPE_BYTE),
     (unat (ANDROID_STATISTICS_HOT_PIXEL_MAP - ANDROID_STATISTICS_START), TagInfo (Some ''hotPixelMap'') TYPE_INT32),
     (unat (ANDROID_STATISTICS_LENS_SHADING_MAP_MODE - ANDROID_STATISTICS_START), TagInfo (Some ''lensShadingMapMode'') TYPE_BYTE)]"

definition android_statistics_info :: "tag_info_t list" where
  "android_statistics_info = designated no_tag (unat (ANDROID_STATISTICS_INFO_END - ANDROID_STATISTICS_INFO_START))
    [(unat (ANDROID_STATISTICS_INFO_AVAILABLE_FACE_DETECT_MODES - ANDROID_STATISTICS_INFO_START), TagInfo (Some ''availableFaceDetectModes'') TYPE_BYTE),
     (unat (ANDROID_STATISTICS_INFO_HISTOGRAM_BUCKET_COUNT - ANDROID_STATISTICS_INFO_START), TagInfo (Some ''histogramBucketCount'') TYPE_INT32),
     (unat (ANDROID_STATISTICS_INFO_MAX_FACE_COUNT - ANDROID_STATISTICS_INFO_START), TagInfo (Some ''maxFaceCount'') TYPE_INT32),
     (unat (ANDROID_STATISTICS_INFO_MAX_HISTOGRAM_COUNT - ANDROID_STATISTICS_INFO_START), TagInfo (Some ''maxHistogramCount'') TYPE_INT32),
     (unat (ANDROID_STATISTICS_INFO_MAX_SHARPNESS_MAP_VALUE - ANDROID_STATISTICS_INFO_START), TagInfo (Some ''maxSharpnessMapValue'') TYPE_INT32),
     (unat (ANDROID_STATISTICS_INFO_SHARPNESS_MAP_SIZE - ANDROID_STATISTICS_INFO_START), TagInfo (Some ''sharpnessMapSize'') TYPE_INT32),
     (unat (ANDROID_STATISTICS_INFO_AVAILABLE_HOT_PIXEL_MAP_MODES - ANDROID_STATISTICS_INFO_START), TagInfo (Some ''availableHotPixelMapModes'') TYPE_BYTE),
     (unat (ANDROID_STATISTICS_INFO_AVAILABLE_LENS_SHADING_MAP_MODES - ANDROID_STATISTICS_INFO_START), TagInfo (Some ''availableLensShadingMapModes'') TYPE_BYTE)]"

definition android_tonemap :: "tag_info_t list" where
  "android_tonemap = designated no_tag (unat (ANDROID_TONEMAP_END - ANDROID_TONEMAP_START))
    [(unat (ANDROID_TONEMAP_CURVE_BLUE - ANDROID_TONEMAP_START), TagInfo (Some ''curveBlue'') TYPE_FLOAT),
     (unat (ANDROID_TONEMAP_CURVE_GREEN - ANDROID_TONEMAP_START), TagInfo (Some ''curveGreen'') TYPE_FLOAT),
     (unat (ANDROID_TONEMAP_CURVE_RED - ANDROID_TONEMAP_START), TagInfo (Some ''curveRed'') TYPE_FLOAT),
     (unat (ANDROID_TONEMAP_MODE - ANDROID_TONEMAP_START), TagInfo (Some ''mode'') TYPE_BYTE),
     (unat (ANDROID_TONEMAP_MAX_CURVE_POINTS - ANDROID_TONEMAP_START), TagInfo (Some ''maxCurvePoints'') TYPE_INT32),
     (unat (ANDROID_TONEMAP_AVAILABLE_TONE_MAP_MODES - ANDROID_TONEMAP_START), TagInfo (Some ''availableToneMapModes'') TYPE_BYTE),
     (unat (ANDROID_TONEMAP_GAMMA - ANDROID_TONEMAP_START), TagInfo (Some ''gamma'') TYPE_FLOAT),
     (unat (ANDROID_TONEMAP_PRESET_CURVE - ANDROID_TONEMAP_START), TagInfo (Some ''presetCurve'') TYPE_BYTE)]"

definition android_led :: "tag_info_t list" where
  "android_led = designated no_tag (unat (ANDROID_LED_END - ANDROID_LED_START))
    [(unat (ANDROID_LED_TRANSMIT - ANDROID_LED_START), TagInfo (Some ''transmit'') TYPE_BYTE),
     (unat (ANDROID_LED_AVAILABLE_LEDS - ANDROID_LED_START), TagInfo (Some ''availableLeds'') TYPE_BYTE)]"

definition android_info :: "tag_info_t list" where
  "android_info = designated no_tag (unat (ANDROID_INFO_END - ANDROID_INFO_START))
    [(unat (ANDROID_INFO_SUPPORTED_HARDWARE_LEVEL - ANDROID_INFO_START), TagInfo (Some ''supportedHardwareLevel'') TYPE_BYTE)]"

definition android_black_level :: "tag_info_t list" where
  "android_black_level = designated no_tag (unat (ANDROID_BLACK_LEVEL_END - ANDROID_BLACK_LEVEL_START))
    [(unat (ANDROID_BLACK_LEVEL_LOCK - ANDROID_BLACK_LEVEL_START), TagInfo (Some ''lock'') TYPE_BYTE)]"

definition android_sync :: "tag_info_t list" where
  "android_sync = designated no_tag (unat (ANDROID_SYNC_END - ANDROID_SYNC_START))
    [(unat (ANDROID_SYNC_FRAME_NUMBER - ANDROID_SYNC_START), TagInfo (Some ''frameNumber'') TYPE_INT64),
     (unat (ANDROID_SYNC_MAX_LATENCY - ANDROID_SYNC_START), TagInfo (Some ''maxLatency'') TYPE_INT32)]"

definition android_reprocess :: "tag_info_t list" where
  "android_reprocess = designated no_tag (unat (ANDROID_REPROCESS_END - ANDROID_REPROCESS_START))
    [(unat (ANDROID_REPROCESS_EFFECTIVE_EXPOSURE_FACTOR - ANDROID_REPROCESS_START), TagInfo (Some ''effectiveExposureFactor'') TYPE_FLOAT),
     (unat (ANDROID_REPROCESS_MAX_CAPTURE_STALL - ANDROID_REPROCESS_START), TagInfo (Some ''maxCaptureStall'') TYPE_INT32)]"

definition android_depth :: "tag_info_t list" where
  "android_depth = designated no_tag (unat (ANDROID_DEPTH_END - ANDROID_DEPTH_START))
    [(unat (ANDROID_DEPTH_MAX_DEPTH_SAMPLES - ANDROID_DEPTH_START), TagInfo (Some ''maxDepthSamples'') TYPE_INT32),
     (unat (ANDROID_DEPTH_AVAILABLE_DEPTH_STREAM_CONFIGURATIONS - ANDROID_DEPTH_START), TagInfo (Some ''availableDepthStreamConfigurations'') TYPE_INT32),
     (unat (ANDROID_DEPTH_AVAILABLE_DEPTH_MIN_FRAME_DURATIONS - ANDROID_DEPTH_START), TagInfo (Some ''availableDepthMinFrameDurations'') TYPE_INT64),
     (unat (ANDROID_DEPTH_AVAILABLE_DEPTH_STALL_DURATIONS - ANDROID_DEPTH_START), TagInfo (Some ''availableDepthStallDurations'') TYPE_INT64),
     (unat (ANDROID_DEPTH_DEPTH_IS_EXCLUSIVE - ANDROID_DEPTH_START), TagInfo (Some ''depthIsExclusive'') TYPE_BYTE)]"

definition tag_info :: "tag_info_t list list" where
  "tag_info =
    [android_color_correction,
     android_control,
     android_demosaic,
     android_edge,
     android_flash,
     android_flash_info,
     android_hot_pixel,
     android_jpeg,
     android_lens,
     android_lens_info,
     android_noise_reduction,
     android_quirks,
     android_request,
     android_scaler,
     android_sensor,
     android_sensor_info,
     android_shading,
     android_statistics,
     android_statistics_info,
     android_tonemap,
     android_led,
     android_info,
     android_black_level,
     android_sync,
     android_reprocess,
     android_depth]"

lemmas tag_table_defs =
  android_color_correction_def android_control_def android_demosaic_def android_edge_def
  android_flash_def android_flash_info_def android_hot_pixel_def android_jpeg_def android_lens_def
  android_lens_info_def android_noise_reduction_def android_quirks_def android_request_def
  android_scaler_def android_sensor_def android_sensor_info_def android_shading_def
  android_statistics_def android_statistics_info_def android_tonemap_def android_led_def
  android_info_def android_black_level_def android_sync_def android_reprocess_def
  android_depth_def

section \<open>Vendor tags\<close>

text \<open>
  \<open>vendor_tag_ops_t\<close> is a table of callbacks supplied by the camera module at run time; the
  model takes the three callbacks the library calls as functions.  The file-static
  \<open>vendor_tag_ops\<close> pointer is an explicit argument of every function that reads it.
\<close>

record vendor_tag_ops =
  vt_get_section_name :: "u32 \<Rightarrow> string option"
  vt_get_tag_name :: "u32 \<Rightarrow> string option"
  vt_get_tag_type :: "u32 \<Rightarrow> int"

definition set_camera_metadata_vendor_tag_ops ::
    "vendor_tag_ops option \<Rightarrow> vendor_tag_ops option \<Rightarrow> int \<times> vendor_tag_ops option" where
  "set_camera_metadata_vendor_tag_ops static_ops ops = (1, static_ops)"

definition set_camera_metadata_vendor_ops ::
    "vendor_tag_ops option \<Rightarrow> vendor_tag_ops option \<Rightarrow> int \<times> vendor_tag_ops option" where
  "set_camera_metadata_vendor_ops static_ops ops = (0, ops)"

section \<open>Lookups\<close>

definition get_camera_metadata_section_name ::
    "vendor_tag_ops option \<Rightarrow> u32 \<Rightarrow> string option exec" where
  "get_camera_metadata_section_name vo tag =
     (let tag_section = drop_bit 16 tag in
      case (VENDOR_SECTION \<le> tag_section, vo) of
        (True, Some ops) \<Rightarrow> Ret (vt_get_section_name ops tag)
      | _ \<Rightarrow>
          if ANDROID_SECTION_COUNT \<le> tag_section then Ret None
          else array_read camera_metadata_section_names (unat tag_section))"

definition get_camera_metadata_tag_name ::
    "vendor_tag_ops option \<Rightarrow> u32 \<Rightarrow> string option exec" where
  "get_camera_metadata_tag_name vo tag =
     (let tag_section = drop_bit 16 tag in
      case (VENDOR_SECTION \<le> tag_section, vo) of
        (True, Some ops) \<Rightarrow> Ret (vt_get_tag_name ops tag)
      | _ \<Rightarrow>
          if ANDROID_SECTION_COUNT \<le> tag_section then Ret None
          else bindE (array_read camera_metadata_section_bounds (unat tag_section)) (\<lambda>bounds.
            if snd bounds \<le> tag then Ret None
            else let tag_index = tag AND 0xFFFF in
              bindE (array_read tag_info (unat tag_section)) (\<lambda>table.
              bindE (array_read table (unat tag_index)) (\<lambda>info. Ret (tag_name info)))))"

definition get_camera_metadata_tag_type :: "vendor_tag_ops option \<Rightarrow> u32 \<Rightarrow> int exec" where
  "get_camera_metadata_tag_type vo tag =
     (let tag_section = drop_bit 16 tag in
      case (VENDOR_SECTION \<le> tag_section, vo) of
        (True, Some ops) \<Rightarrow> Ret (vt_get_tag_type ops tag)
      | _ \<Rightarrow>
          if ANDROID_SECTION_COUNT \<le> tag_section then Ret (-1)
          else bindE (array_read camera_metadata_section_bounds (unat tag_section)) (\<lambda>bounds.
            if snd bounds \<le> tag then Ret (-1)
            else let tag_index = tag AND 0xFFFF in
              bindE (array_read tag_info (unat tag_section)) (\<lambda>table.
              bindE (array_read table (unat tag_index)) (\<lambda>info. Ret (uint (tag_type info))))))"

section \<open>The tables agree with the tag enumeration\<close>

text \<open>The tables, evaluated.\<close>

lemma designated_Suc:
  "designated z (Suc n) inits =
     designated z n inits @ [case map_of (rev inits) n of None \<Rightarrow> z | Some v \<Rightarrow> v]"
  by (simp add: designated_def)

lemma length_tag_info [simp]: "length tag_info = 26"
  by (simp add: tag_info_def)

lemma length_section_bounds [simp]: "length camera_metadata_section_bounds = 26"
  by (simp add: camera_metadata_section_bounds_def ANDROID_SECTION_COUNT_def)

lemma length_section_names [simp]: "length camera_metadata_section_names = 26"
  by (simp add: camera_metadata_section_names_def ANDROID_SECTION_COUNT_def)

text \<open>
  In every section the upper bound is the section number shifted by 16 plus the number of
  slots of its table.
\<close>

definition section_ok :: "nat \<Rightarrow> bool" where
  "section_ok s \<longleftrightarrow>
     unat (snd (camera_metadata_section_bounds ! s)) = s * 65536 + length (tag_info ! s) \<and>
     length (tag_info ! s) < 65536"

lemma nth_designated:
  "i < n \<Longrightarrow> designated z n inits ! i = (case map_of (rev inits) i of None \<Rightarrow> z | Some v \<Rightarrow> v)"
  by (simp add: designated_def)

lemma upt_26: "[0..<26] = [0, 1, 2, 3, 4, 5, 6, 7, 8, 9, 10, 11, 12, 13, 14, 15, 16, 17, 18, 19, 20, 21, 22, 23, 24, 25]"
  by (simp add: upt_rec)

text \<open>An initialiser that lists the indices in order is the array itself.\<close>

lemma designated_in_order:
  assumes "map fst inits = [0..<n]"
  shows "designated z n inits = map snd inits"
proof (rule nth_equalityI)
  from assms have n: "length inits = n"
    by (metis length_map length_upt minus_nat.diff_0)
  then show "length (designated z n inits) = length (map snd inits)" by simp
  fix i assume "i < length (designated z n inits)"
  then have i: "i < n" by simp
  have "distinct (map fst (rev inits))"
    using assms by (simp add: rev_map [symmetric])
  moreover have "inits ! i \<in> set (rev inits)"
    using i n by simp
  moreover have "fst (inits ! i) = i"
    using assms i n by (metis add_0 nth_map nth_upt diff_zero)
  ultimately have "map_of (rev inits) i = Some (snd (inits ! i))"
    by (metis map_of_eq_Some_iff prod.collapse)
  then show "designated z n inits ! i = map snd inits ! i"
    using i n by (simp add: nth_designated)
qed

lemma section_bounds_eq:
  "map (unat \<circ> snd) camera_metadata_section_bounds =
     map2 (\<lambda>s n. s * 65536 + n) [0..<26] (map length tag_info)"
  by (simp add: tag_info_def tag_table_defs tag_consts camera_metadata_section_bounds_def
      designated_in_order upt_26)

lemma section_table_sizes: "\<forall>table \<in> set tag_info. length table < 65536"
  by (simp add: tag_info_def tag_table_defs tag_consts)

lemma section_ok_all: "s < 26 \<Longrightarrow> section_ok s"
  using arg_cong [OF section_bounds_eq, of "\<lambda>xs. xs ! s"] section_table_sizes
  by (simp add: section_ok_def)

definition slot_ok :: "tag_info_t \<Rightarrow> bool" where
  "slot_ok info \<longleftrightarrow> tag_name info \<noteq> None \<and> tag_type info < NUM_TYPES"

lemma tables_initialised: "list_all (list_all slot_ok) tag_info"
  by (simp add: tag_info_def tag_table_defs designated_in_order tag_consts entry_type_consts
      upt_rec slot_ok_def)

section \<open>No lookup leaves the tables\<close>

lemma tag_section_split:
  fixes tag :: u32
  shows "unat tag = unat (drop_bit 16 tag) * 65536 + unat (tag AND 0xFFFF)"
proof -
  have "tag AND 0xFFFF = take_bit 16 tag"
    by (simp add: take_bit_eq_mask mask_eq_exp_minus_1)
  then have "unat (tag AND 0xFFFF) = unat tag mod 65536"
    by (simp add: take_bit_eq_mod unat_mod)
  moreover have "unat (drop_bit 16 tag) = unat tag div 65536"
    by (simp add: drop_bit_eq_div unat_div)
  ultimately show ?thesis by simp
qed

text \<open>Inside the bounds of a section, the index into the section's table is in range.\<close>

lemma tag_index_in_table:
  fixes tag :: u32
  assumes s: "\<not> ANDROID_SECTION_COUNT \<le> drop_bit 16 tag"
    and b: "\<not> snd (camera_metadata_section_bounds ! unat (drop_bit 16 tag)) \<le> tag"
  shows "unat (drop_bit 16 tag) < 26"
    and "unat (tag AND 0xFFFF) < length (tag_info ! unat (drop_bit 16 tag))"
proof -
  show s': "unat (drop_bit 16 tag) < 26"
    using s by (simp add: ANDROID_SECTION_COUNT_def not_le word_less_nat_alt)
  from b have "unat tag < unat (snd (camera_metadata_section_bounds ! unat (drop_bit 16 tag)))"
    by (simp add: not_le word_less_nat_alt)
  with section_ok_all [OF s']
  show "unat (tag AND 0xFFFF) < length (tag_info ! unat (drop_bit 16 tag))"
    using tag_section_split [of tag] by (simp add: section_ok_def)
qed

text \<open>The row of a declared tag.\<close>

definition declared :: "u32 \<Rightarrow> bool" where
  "declared tag \<longleftrightarrow> \<not> ANDROID_SECTION_COUNT \<le> drop_bit 16 tag \<and>
     \<not> snd (camera_metadata_section_bounds ! unat (drop_bit 16 tag)) \<le> tag"

definition tag_row :: "u32 \<Rightarrow> tag_info_t" where
  "tag_row tag = tag_info ! unat (drop_bit 16 tag) ! unat (tag AND 0xFFFF)"

lemma declared_in_table:
  assumes "declared tag"
  shows "unat (drop_bit 16 tag) < 26"
    and "unat (tag AND 0xFFFF) < length (tag_info ! unat (drop_bit 16 tag))"
  using tag_index_in_table [of tag] assms unfolding declared_def by blast+

lemma declared_slot_ok: "declared tag \<Longrightarrow> slot_ok (tag_row tag)"
  using tables_initialised declared_in_table [of tag]
  by (simp add: tag_row_def list_all_length)

lemma section_in_range: "\<not> ANDROID_SECTION_COUNT \<le> s \<Longrightarrow> unat s < 26"
  by (simp add: ANDROID_SECTION_COUNT_def not_le word_less_nat_alt)

lemma lookup_row:
  assumes "declared tag"
  shows "array_read camera_metadata_section_bounds (unat (drop_bit 16 tag)) =
           Ret (camera_metadata_section_bounds ! unat (drop_bit 16 tag))"
    and "array_read tag_info (unat (drop_bit 16 tag)) = Ret (tag_info ! unat (drop_bit 16 tag))"
    and "array_read (tag_info ! unat (drop_bit 16 tag)) (unat (tag AND 0xFFFF)) = Ret (tag_row tag)"
  using declared_in_table [OF assms] by (simp_all add: array_read_def tag_row_def del: not_le)

lemma get_camera_metadata_tag_type_eq:
  "get_camera_metadata_tag_type vo tag =
     Ret (case (VENDOR_SECTION \<le> drop_bit 16 tag, vo) of
            (True, Some ops) \<Rightarrow> vt_get_tag_type ops tag
          | _ \<Rightarrow> if declared tag then uint (tag_type (tag_row tag)) else -1)"
proof (cases "declared tag")
  case True
  then show ?thesis
    by (simp del: not_le add: get_camera_metadata_tag_type_def Let_def lookup_row declared_def
        split: option.split bool.split)
next
  case False
  then have "ANDROID_SECTION_COUNT \<le> drop_bit 16 tag \<or>
      unat (drop_bit 16 tag) < 26 \<and>
      snd (camera_metadata_section_bounds ! unat (drop_bit 16 tag)) \<le> tag"
    using section_in_range unfolding declared_def by blast
  with False show ?thesis
    by (auto simp: get_camera_metadata_tag_type_def Let_def array_read_def
        split: option.split bool.split)
qed

lemma get_camera_metadata_tag_name_eq:
  "get_camera_metadata_tag_name vo tag =
     Ret (case (VENDOR_SECTION \<le> drop_bit 16 tag, vo) of
            (True, Some ops) \<Rightarrow> vt_get_tag_name ops tag
          | _ \<Rightarrow> if declared tag then tag_name (tag_row tag) else None)"
proof (cases "declared tag")
  case True
  then show ?thesis
    by (simp del: not_le add: get_camera_metadata_tag_name_def Let_def lookup_row declared_def
        split: option.split bool.split)
next
  case False
  then have "ANDROID_SECTION_COUNT \<le> drop_bit 16 tag \<or>
      unat (drop_bit 16 tag) < 26 \<and>
      snd (camera_metadata_section_bounds ! unat (drop_bit 16 tag)) \<le> tag"
    using section_in_range unfolding declared_def by blast
  with False show ?thesis
    by (auto simp: get_camera_metadata_tag_name_def Let_def array_read_def
        split: option.split bool.split)
qed

end
