(* ===== verification/Enum_Names.thy ===== *)
theory Enum_Names
  imports Tag_Tables
begin

text \<open>
  The enumerators of the enum-valued tags (\<open>camera_metadata_tags.h\<close>) and
  \<open>camera_metadata_enum_snprint\<close> of \<open>camera_metadata_tag_info.c\<close>, which prints the name of
  an enumerator.  The function is one \<open>switch\<close> on the tag whose cases either do nothing or
  hold a \<open>switch\<close> on the value; the cases are given as tables, in the order and grouping of
  the source.
\<close>

section \<open>Enumerators\<close>

definition ANDROID_COLOR_CORRECTION_MODE_TRANSFORM_MATRIX :: u32 where
  "ANDROID_COLOR_CORRECTION_MODE_TRANSFORM_MATRIX = 0"

definition ANDROID_COLOR_CORRECTION_MODE_FAST :: u32 where
  "ANDROID_COLOR_CORRECTION_MODE_FAST = 1"

definition ANDROID_COLOR_CORRECTION_MODE_HIGH_QUALITY :: u32 where
  "ANDROID_COLOR_CORRECTION_MODE_HIGH_QUALITY = 2"

definition ANDROID_COLOR_CORRECTION_ABERRATION_MODE_OFF :: u32 where
  "ANDROID_COLOR_CORRECTION_ABERRATION_MODE_OFF = 0"

definition ANDROID_COLOR_CORRECTION_ABERRATION_MODE_FAST :: u32 where
  "ANDROID_COLOR_CORRECTION_ABERRATION_MODE_FAST = 1"

definition ANDROID_COLOR_CORRECTION_ABERRATION_MODE_HIGH_QUALITY :: u32 where
  "ANDROID_COLOR_CORRECTION_ABERRATION_MODE_HIGH_QUALITY = 2"

definition ANDROID_CONTROL_AE_ANTIBANDING_MODE_OFF :: u32 where
  "ANDROID_CONTROL_AE_ANTIBANDING_MODE_OFF = 0"

definition ANDROID_CONTROL_AE_ANTIBANDING_MODE_50HZ :: u32 where
  "ANDROID_CONTROL_AE_ANTIBANDING_MODE_50HZ = 1"

definition ANDROID_CONTROL_AE_ANTIBANDING_MODE_60HZ :: u32 where
  "ANDROID_CONTROL_AE_ANTIBANDING_MODE_60HZ = 2"

definition ANDROID_CONTROL_AE_ANTIBANDING_MODE_AUTO :: u32 where
  "ANDROID_CONTROL_AE_ANTIBANDING_MODE_AUTO = 3"

definition ANDROID_CONTROL_AE_LOCK_OFF :: u32 where
  "ANDROID_CONTROL_AE_LOCK_OFF = 0"

definition ANDROID_CONTROL_AE_LOCK_ON :: u32 where
  "ANDROID_CONTROL_AE_LOCK_ON = 1"

definition ANDROID_CONTROL_AE_MODE_OFF :: u32 where
  "ANDROID_CONTROL_AE_MODE_OFF = 0"

definition ANDROID_CONTROL_AE_MODE_ON :: u32 where
  "ANDROID_CONTROL_AE_MODE_ON = 1"

definition ANDROID_CONTROL_AE_MODE_ON_AUTO_FLASH :: u32 where
  "ANDROID_CONTROL_AE_MODE_ON_AUTO_FLASH = 2"

definition ANDROID_CONTROL_AE_MODE_ON_ALWAYS_FLASH :: u32 where
  "ANDROID_CONTROL_AE_MODE_ON_ALWAYS_FLASH = 3"

definition ANDROID_CONTROL_AE_MODE_ON_AUTO_FLASH_REDEYE :: u32 where
  "ANDROID_CONTROL_AE_MODE_ON_AUTO_FLASH_REDEYE = 4"

definition ANDROID_CONTROL_AE_PRECAPTURE_TRIGGER_IDLE :: u32 where
  "ANDROID_CONTROL_AE_PRECAPTURE_TRIGGER_IDLE = 0"

definition ANDROID_CONTROL_AE_PRECAPTURE_TRIGGER_START :: u32 where
  "ANDROID_CONTROL_AE_PRECAPTURE_TRIGGER_START = 1"

definition ANDROID_CONTROL_AE_PRECAPTURE_TRIGGER_CANCEL :: u32 where
  "ANDROID_CONTROL_AE_PRECAPTURE_TRIGGER_CANCEL = 2"

definition ANDROID_CONTROL_AF_MODE_OFF :: u32 where
  "ANDROID_CONTROL_AF_MODE_OFF = 0"

definition ANDROID_CONTROL_AF_MODE_AUTO :: u32 where
  "ANDROID_CONTROL_AF_MODE_AUTO = 1"

definition ANDROID_CONTROL_AF_MODE_MACRO :: u32 where
  "ANDROID_CONTROL_AF_MODE_MACRO = 2"

definition ANDROID_CONTROL_AF_MODE_CONTINUOUS_VIDEO :: u32 where
  "ANDROID_CONTROL_AF_MODE_CONTINUOUS_VIDEO = 3"

definition ANDROID_CONTROL_AF_MODE_CONTINUOUS_PICTURE :: u32 where
  "ANDROID_CONTROL_AF_MODE_CONTINUOUS_PICTURE = 4"

definition ANDROID_CONTROL_AF_MODE_EDOF :: u32 where
  "ANDROID_CONTROL_AF_MODE_EDOF = 5"

definition ANDROID_CONTROL_AF_TRIGGER_IDLE :: u32 where
  "ANDROID_CONTROL_AF_TRIGGER_IDLE = 0"

definition ANDROID_CONTROL_AF_TRIGGER_START :: u32 where
  "ANDROID_CONTROL_AF_TRIGGER_START = 1"

definition ANDROID_CONTROL_AF_TRIGGER_CANCEL :: u32 where
  "ANDROID_CONTROL_AF_TRIGGER_CANCEL = 2"

definition ANDROID_CONTROL_AWB_LOCK_OFF :: u32 where
  "ANDROID_CONTROL_AWB_LOCK_OFF = 0"

definition ANDROID_CONTROL_AWB_LOCK_ON :: u32 where
  "ANDROID_CONTROL_AWB_LOCK_ON = 1"

definition ANDROID_CONTROL_AWB_MODE_OFF :: u32 where
  "ANDROID_CONTROL_AWB_MODE_OFF = 0"

definition ANDROID_CONTROL_AWB_MODE_AUTO :: u32 where
  "ANDROID_CONTROL_AWB_MODE_AUTO = 1"

definition ANDROID_CONTROL_AWB_MODE_INCANDESCENT :: u32 where
  "ANDROID_CONTROL_AWB_MODE_INCANDESCENT = 2"

definition ANDROID_CONTROL_AWB_MODE_FLUORESCENT :: u32 where
  "ANDROID_CONTROL_AWB_MODE_FLUORESCENT = 3"

definition ANDROID_CONTROL_AWB_MODE_WARM_FLUORESCENT :: u32 where
  "ANDROID_CONTROL_AWB_MODE_WARM_FLUORESCENT = 4"

definition ANDROID_CONTROL_AWB_MODE_DAYLIGHT :: u32 where
  "ANDROID_CONTROL_AWB_MODE_DAYLIGHT = 5"

definition ANDROID_CONTROL_AWB_MODE_CLOUDY_DAYLIGHT :: u32 where
  "ANDROID_CONTROL_AWB_MODE_CLOUDY_DAYLIGHT = 6"

definition ANDROID_CONTROL_AWB_MODE_TWILIGHT :: u32 where
  "ANDROID_CONTROL_AWB_MODE_TWILIGHT = 7"

definition ANDROID_CONTROL_AWB_MODE_SHADE :: u32 where
  "ANDROID_CONTROL_AWB_MODE_SHADE = 8"

definition ANDROID_CONTROL_CAPTURE_INTENT_CUSTOM :: u32 where
  "ANDROID_CONTROL_CAPTURE_INTENT_CUSTOM = 0"

definition ANDROID_CONTROL_CAPTURE_INTENT_PREVIEW :: u32 where
  "ANDROID_CONTROL_CAPTURE_INTENT_PREVIEW = 1"

definition ANDROID_CONTROL_CAPTURE_INTENT_STILL_CAPTURE :: u32 where
  "ANDROID_CONTROL_CAPTURE_INTENT_STILL_CAPTURE = 2"

definition ANDROID_CONTROL_CAPTURE_INTENT_VIDEO_RECORD :: u32 where
  "ANDROID_CONTROL_CAPTURE_INTENT_VIDEO_RECORD = 3"

definition ANDROID_CONTROL_CAPTURE_INTENT_VIDEO_SNAPSHOT :: u32 where
  "ANDROID_CONTROL_CAPTURE_INTENT_VIDEO_SNAPSHOT = 4"

definition ANDROID_CONTROL_CAPTURE_INTENT_ZERO_SHUTTER_LAG :: u32 where
  "ANDROID_CONTROL_CAPTURE_INTENT_ZERO_SHUTTER_LAG = 5"

definition ANDROID_CONTROL_CAPTURE_INTENT_MANUAL :: u32 where
  "ANDROID_CONTROL_CAPTURE_INTENT_MANUAL = 6"

definition ANDROID_CONTROL_EFFECT_MODE_OFF :: u32 where
  "ANDROID_CONTROL_EFFECT_MODE_OFF = 0"

definition ANDROID_CONTROL_EFFECT_MODE_MONO :: u32 where
  "ANDROID_CONTROL_EFFECT_MODE_MONO = 1"

definition ANDROID_CONTROL_EFFECT_MODE_NEGATIVE :: u32 where
  "ANDROID_CONTROL_EFFECT_MODE_NEGATIVE = 2"

definition ANDROID_CONTROL_EFFECT_MODE_SOLARIZE :: u32 where
  "ANDROID_CONTROL_EFFECT_MODE_SOLARIZE = 3"

definition ANDROID_CONTROL_EFFECT_MODE_SEPIA :: u32 where
  "ANDROID_CONTROL_EFFECT_MODE_SEPIA = 4"

definition ANDROID_CONTROL_EFFECT_MODE_POSTERIZE :: u32 where
  "ANDROID_CONTROL_EFFECT_MODE_POSTERIZE = 5"

definition ANDROID_CONTROL_EFFECT_MODE_WHITEBOARD :: u32 where
  "ANDROID_CONTROL_EFFECT_MODE_WHITEBOARD = 6"

definition ANDROID_CONTROL_EFFECT_MODE_BLACKBOARD :: u32 where
  "ANDROID_CONTROL_EFFECT_MODE_BLACKBOARD = 7"

definition ANDROID_CONTROL_EFFECT_MODE_AQUA :: u32 where
  "ANDROID_CONTROL_EFFECT_MODE_AQUA = 8"

definition ANDROID_CONTROL_MODE_OFF :: u32 where
  "ANDROID_CONTROL_MODE_OFF = 0"

definition ANDROID_CONTROL_MODE_AUTO :: u32 where
  "ANDROID_CONTROL_MODE_AUTO = 1"

definition ANDROID_CONTROL_MODE_USE_SCENE_MODE :: u32 where
  "ANDROID_CONTROL_MODE_USE_SCENE_MODE = 2"

definition ANDROID_CONTROL_MODE_OFF_KEEP_STATE :: u32 where
  "ANDROID_CONTROL_MODE_OFF_KEEP_STATE = 3"

definition ANDROID_CONTROL_SCENE_MODE_DISABLED :: u32 where
  "ANDROID_CONTROL_SCENE_MODE_DISABLED = 0"

definition ANDROID_CONTROL_SCENE_MODE_FACE_PRIORITY :: u32 where
  "ANDROID_CONTROL_SCENE_MODE_FACE_PRIORITY = 1"

definition ANDROID_CONTROL_SCENE_MODE_ACTION :: u32 where
  "ANDROID_CONTROL_SCENE_MODE_ACTION = 2"

definition ANDROID_CONTROL_SCENE_MODE_PORTRAIT :: u32 where
  "ANDROID_CONTROL_SCENE_MODE_PORTRAIT = 3"

definition ANDROID_CONTROL_SCENE_MODE_LANDSCAPE :: u32 where
  "ANDROID_CONTROL_SCENE_MODE_LANDSCAPE = 4"

definition ANDROID_CONTROL_SCENE_MODE_NIGHT :: u32 where
  "ANDROID_CONTROL_SCENE_MODE_NIGHT = 5"

definition ANDROID_CONTROL_SCENE_MODE_NIGHT_PORTRAIT :: u32 where
  "ANDROID_CONTROL_SCENE_MODE_NIGHT_PORTRAIT = 6"

definition ANDROID_CONTROL_SCENE_MODE_THEATRE :: u32 where
  "ANDROID_CONTROL_SCENE_MODE_THEATRE = 7"

definition ANDROID_CONTROL_SCENE_MODE_BEACH :: u32 where
  "ANDROID_CONTROL_SCENE_MODE_BEACH = 8"

definition ANDROID_CONTROL_SCENE_MODE_SNOW :: u32 where
  "ANDROID_CONTROL_SCENE_MODE_SNOW = 9"

definition ANDROID_CONTROL_SCENE_MODE_SUNSET :: u32 where
  "ANDROID_CONTROL_SCENE_MODE_SUNSET = 10"

definition ANDROID_CONTROL_SCENE_MODE_STEADYPHOTO :: u32 where
  "ANDROID_CONTROL_SCENE_MODE_STEADYPHOTO = 11"

definition ANDROID_CONTROL_SCENE_MODE_FIREWORKS :: u32 where
  "ANDROID_CONTROL_SCENE_MODE_FIREWORKS = 12"

definition ANDROID_CONTROL_SCENE_MODE_SPORTS :: u32 where
  "ANDROID_CONTROL_SCENE_MODE_SPORTS = 13"

definition ANDROID_CONTROL_SCENE_MODE_PARTY :: u32 where
  "ANDROID_CONTROL_SCENE_MODE_PARTY = 14"

definition ANDROID_CONTROL_SCENE_MODE_CANDLELIGHT :: u32 where
  "ANDROID_CONTROL_SCENE_MODE_CANDLELIGHT = 15"

definition ANDROID_CONTROL_SCENE_MODE_BARCODE :: u32 where
  "ANDROID_CONTROL_SCENE_MODE_BARCODE = 16"

definition ANDROID_CONTROL_SCENE_MODE_HIGH_SPEED_VIDEO :: u32 where
  "ANDROID_CONTROL_SCENE_MODE_HIGH_SPEED_VIDEO = 17"

definition ANDROID_CONTROL_SCENE_MODE_HDR :: u32 where
  "ANDROID_CONTROL_SCENE_MODE_HDR = 18"

definition ANDROID_CONTROL_SCENE_MODE_FACE_PRIORITY_LOW_LIGHT :: u32 where
  "ANDROID_CONTROL_SCENE_MODE_FACE_PRIORITY_LOW_LIGHT = 19"

definition ANDROID_CONTROL_VIDEO_STABILIZATION_MODE_OFF :: u32 where
  "ANDROID_CONTROL_VIDEO_STABILIZATION_MODE_OFF = 0"

definition ANDROID_CONTROL_VIDEO_STABILIZATION_MODE_ON :: u32 where
  "ANDROID_CONTROL_VIDEO_STABILIZATION_MODE_ON = 1"

definition ANDROID_CONTROL_AE_STATE_INACTIVE :: u32 where
  "ANDROID_CONTROL_AE_STATE_INACTIVE = 0"

definition ANDROID_CONTROL_AE_STATE_SEARCHING :: u32 where
  "ANDROID_CONTROL_AE_STATE_SEARCHING = 1"

definition ANDROID_CONTROL_AE_STATE_CONVERGED :: u32 where
  "ANDROID_CONTROL_AE_STATE_CONVERGED = 2"

definition ANDROID_CONTROL_AE_STATE_LOCKED :: u32 where
  "ANDROID_CONTROL_AE_STATE_LOCKED = 3"

definition ANDROID_CONTROL_AE_STATE_FLASH_REQUIRED :: u32 where
  "ANDROID_CONTROL_AE_STATE_FLASH_REQUIRED = 4"

definition ANDROID_CONTROL_AE_STATE_PRECAPTURE :: u32 where
  "ANDROID_CONTROL_AE_STATE_PRECAPTURE = 5"

definition ANDROID_CONTROL_AF_STATE_INACTIVE :: u32 where
  "ANDROID_CONTROL_AF_STATE_INACTIVE = 0"

definition ANDROID_CONTROL_AF_STATE_PASSIVE_SCAN :: u32 where
  "ANDROID_CONTROL_AF_STATE_PASSIVE_SCAN = 1"

definition ANDROID_CONTROL_AF_STATE_PASSIVE_FOCUSED :: u32 where
  "ANDROID_CONTROL_AF_STATE_PASSIVE_FOCUSED = 2"

definition ANDROID_CONTROL_AF_STATE_ACTIVE_SCAN :: u32 where
  "ANDROID_CONTROL_AF_STATE_ACTIVE_SCAN = 3"

definition ANDROID_CONTROL_AF_STATE_FOCUSED_LOCKED :: u32 where
  "ANDROID_CONTROL_AF_STATE_FOCUSED_LOCKED = 4"

definition ANDROID_CONTROL_AF_STATE_NOT_FOCUSED_LOCKED :: u32 where
  "ANDROID_CONTROL_AF_STATE_NOT_FOCUSED_LOCKED = 5"

definition ANDROID_CONTROL_AF_STATE_PASSIVE_UNFOCUSED :: u32 where
  "ANDROID_CONTROL_AF_STATE_PASSIVE_UNFOCUSED = 6"

definition ANDROID_CONTROL_AWB_STATE_INACTIVE :: u32 where
  "ANDROID_CONTROL_AWB_STATE_INACTIVE = 0"

definition ANDROID_CONTROL_AWB_STATE_SEARCHING :: u32 where
  "ANDROID_CONTROL_AWB_STATE_SEARCHING = 1"

definition ANDROID_CONTROL_AWB_STATE_CONVERGED :: u32 where
  "ANDROID_CONTROL_AWB_STATE_CONVERGED = 2"

definition ANDROID_CONTROL_AWB_STATE_LOCKED :: u32 where
  "ANDROID_CONTROL_AWB_STATE_LOCKED = 3"

definition ANDROID_CONTROL_AE_LOCK_AVAILABLE_FALSE :: u32 where
  "ANDROID_CONTROL_AE_LOCK_AVAILABLE_FALSE = 0"

definition ANDROID_CONTROL_AE_LOCK_AVAILABLE_TRUE :: u32 where
  "ANDROID_CONTROL_AE_LOCK_AVAILABLE_TRUE = 1"

definition ANDROID_CONTROL_AWB_LOCK_AVAILABLE_FALSE :: u32 where
  "ANDROID_CONTROL_AWB_LOCK_AVAILABLE_FALSE = 0"

definition ANDROID_CONTROL_AWB_LOCK_AVAILABLE_TRUE :: u32 where
  "ANDROID_CONTROL_AWB_LOCK_AVAILABLE_TRUE = 1"

definition ANDROID_DEMOSAIC_MODE_FAST :: u32 where
  "ANDROID_DEMOSAIC_MODE_FAST = 0"

definition ANDROID_DEMOSAIC_MODE_HIGH_QUALITY :: u32 where
  "ANDROID_DEMOSAIC_MODE_HIGH_QUALITY = 1"

definition ANDROID_EDGE_MODE_OFF :: u32 where
  "ANDROID_EDGE_MODE_OFF = 0"

definition ANDROID_EDGE_MODE_FAST :: u32 where
  "ANDROID_EDGE_MODE_FAST = 1"

definition ANDROID_EDGE_MODE_HIGH_QUALITY :: u32 where
  "ANDROID_EDGE_MODE_HIGH_QUALITY = 2"

definition ANDROID_EDGE_MODE_ZERO_SHUTTER_LAG :: u32 where
  "ANDROID_EDGE_MODE_ZERO_SHUTTER_LAG = 3"

definition ANDROID_FLASH_MODE_OFF :: u32 where
  "ANDROID_FLASH_MODE_OFF = 0"

definition ANDROID_FLASH_MODE_SINGLE :: u32 where
  "ANDROID_FLASH_MODE_SINGLE = 1"

definition ANDROID_FLASH_MODE_TORCH :: u32 where
  "ANDROID_FLASH_MODE_TORCH = 2"

definition ANDROID_FLASH_STATE_UNAVAILABLE :: u32 where
  "ANDROID_FLASH_STATE_UNAVAILABLE = 0"

definition ANDROID_FLASH_STATE_CHARGING :: u32 where
  "ANDROID_FLASH_STATE_CHARGING = 1"

definition ANDROID_FLASH_STATE_READY :: u32 where
  "ANDROID_FLASH_STATE_READY = 2"

definition ANDROID_FLASH_STATE_FIRED :: u32 where
  "ANDROID_FLASH_STATE_FIRED = 3"

definition ANDROID_FLASH_STATE_PARTIAL :: u32 where
  "ANDROID_FLASH_STATE_PARTIAL = 4"

definition ANDROID_FLASH_INFO_AVAILABLE_FALSE :: u32 where
  "ANDROID_FLASH_INFO_AVAILABLE_FALSE = 0"

definition ANDROID_FLASH_INFO_AVAILABLE_TRUE :: u32 where
  "ANDROID_FLASH_INFO_AVAILABLE_TRUE = 1"

definition ANDROID_HOT_PIXEL_MODE_OFF :: u32 where
  "ANDROID_HOT_PIXEL_MODE_OFF = 0"

definition ANDROID_HOT_PIXEL_MODE_FAST :: u32 where
  "ANDROID_HOT_PIXEL_MODE_FAST = 1"

definition ANDROID_HOT_PIXEL_MODE_HIGH_QUALITY :: u32 where
  "ANDROID_HOT_PIXEL_MODE_HIGH_QUALITY = 2"

definition ANDROID_LENS_OPTICAL_STABILIZATION_MODE_OFF :: u32 where
  "ANDROID_LENS_OPTICAL_STABILIZATION_MODE_OFF = 0"

definition ANDROID_LENS_OPTICAL_STABILIZATION_MODE_ON :: u32 where
  "ANDROID_LENS_OPTICAL_STABILIZATION_MODE_ON = 1"

definition ANDROID_LENS_FACING_FRONT :: u32 where
  "ANDROID_LENS_FACING_FRONT = 0"

definition ANDROID_LENS_FACING_BACK :: u32 where
  "ANDROID_LENS_FACING_BACK = 1"

definition ANDROID_LENS_FACING_EXTERNAL :: u32 where
  "ANDROID_LENS_FACING_EXTERNAL = 2"

definition ANDROID_LENS_STATE_STATIONARY :: u32 where
  "ANDROID_LENS_STATE_STATIONARY = 0"

definition ANDROID_LENS_STATE_MOVING :: u32 where
  "ANDROID_LENS_STATE_MOVING = 1"

definition ANDROID_LENS_INFO_FOCUS_DISTANCE_CALIBRATION_UNCALIBRATED :: u32 where
  "ANDROID_LENS_INFO_FOCUS_DISTANCE_CALIBRATION_UNCALIBRATED = 0"

definition ANDROID_LENS_INFO_FOCUS_DISTANCE_CALIBRATION_APPROXIMATE :: u32 where
  "ANDROID_LENS_INFO_FOCUS_DISTANCE_CALIBRATION_APPROXIMATE = 1"

definition ANDROID_LENS_INFO_FOCUS_DISTANCE_CALIBRATION_CALIBRATED :: u32 where
  "ANDROID_LENS_INFO_FOCUS_DISTANCE_CALIBRATION_CALIBRATED = 2"

definition ANDROID_NOISE_REDUCTION_MODE_OFF :: u32 where
  "ANDROID_NOISE_REDUCTION_MODE_OFF = 0"

definition ANDROID_NOISE_REDUCTION_MODE_FAST :: u32 where
  "ANDROID_NOISE_REDUCTION_MODE_FAST = 1"

definition ANDROID_NOISE_REDUCTION_MODE_HIGH_QUALITY :: u32 where
  "ANDROID_NOISE_REDUCTION_MODE_HIGH_QUALITY = 2"

definition ANDROID_NOISE_REDUCTION_MODE_MINIMAL :: u32 where
  "ANDROID_NOISE_REDUCTION_MODE_MINIMAL = 3"

definition ANDROID_NOISE_REDUCTION_MODE_ZERO_SHUTTER_LAG :: u32 where
  "ANDROID_NOISE_REDUCTION_MODE_ZERO_SHUTTER_LAG = 4"

definition ANDROID_QUIRKS_PARTIAL_RESULT_FINAL :: u32 where
  "ANDROID_QUIRKS_PARTIAL_RESULT_FINAL = 0"

definition ANDROID_QUIRKS_PARTIAL_RESULT_PARTIAL :: u32 where
  "ANDROID_QUIRKS_PARTIAL_RESULT_PARTIAL = 1"

definition ANDROID_REQUEST_METADATA_MODE_NONE :: u32 where
  "ANDROID_REQUEST_METADATA_MODE_NONE = 0"

definition ANDROID_REQUEST_METADATA_MODE_FULL :: u32 where
  "ANDROID_REQUEST_METADATA_MODE_FULL = 1"

definition ANDROID_REQUEST_TYPE_CAPTURE :: u32 where
  "ANDROID_REQUEST_TYPE_CAPTURE = 0"

definition ANDROID_REQUEST_TYPE_REPROCESS :: u32 where
  "ANDROID_REQUEST_TYPE_REPROCESS = 1"

definition ANDROID_REQUEST_AVAILABLE_CAPABILITIES_BACKWARD_COMPATIBLE :: u32 where
  "ANDROID_REQUEST_AVAILABLE_CAPABILITIES_BACKWARD_COMPATIBLE = 0"

definition ANDROID_REQUEST_AVAILABLE_CAPABILITIES_MANUAL_SENSOR :: u32 where
  "ANDROID_REQUEST_AVAILABLE_CAPABILITIES_MANUAL_SENSOR = 1"

definition ANDROID_REQUEST_AVAILABLE_CAPABILITIES_MANUAL_POST_PROCESSING :: u32 where
  "ANDROID_REQUEST_AVAILABLE_CAPABILITIES_MANUAL_POST_PROCESSING = 2"

definition ANDROID_REQUEST_AVAILABLE_CAPABILITIES_RAW :: u32 where
  "ANDROID_REQUEST_AVAILABLE_CAPABILITIES_RAW = 3"

definition ANDROID_REQUEST_AVAILABLE_CAPABILITIES_PRIVATE_REPROCESSING :: u32 where
  "ANDROID_REQUEST_AVAILABLE_CAPABILITIES_PRIVATE_REPROCESSING = 4"

definition ANDROID_REQUEST_AVAILABLE_CAPABILITIES_READ_SENSOR_SETTINGS :: u32 where
  "ANDROID_REQUEST_AVAILABLE_CAPABILITIES_READ_SENSOR_SETTINGS = 5"

definition ANDROID_REQUEST_AVAILABLE_CAPABILITIES_BURST_CAPTURE :: u32 where
  "ANDROID_REQUEST_AVAILABLE_CAPABILITIES_BURST_CAPTURE = 6"

definition ANDROID_REQUEST_AVAILABLE_CAPABILITIES_YUV_REPROCESSING :: u32 where
  "ANDROID_REQUEST_AVAILABLE_CAPABILITIES_YUV_REPROCESSING = 7"

definition ANDROID_REQUEST_AVAILABLE_CAPABILITIES_DEPTH_OUTPUT :: u32 where
  "ANDROID_REQUEST_AVAILABLE_CAPABILITIES_DEPTH_OUTPUT = 8"

definition ANDROID_REQUEST_AVAILABLE_CAPABILITIES_CONSTRAINED_HIGH_SPEED_VIDEO :: u32 where
  "ANDROID_REQUEST_AVAILABLE_CAPABILITIES_CONSTRAINED_HIGH_SPEED_VIDEO = 9"

definition ANDROID_SCALER_AVAILABLE_FORMATS_RAW16 :: u32 where
  "ANDROID_SCALER_AVAILABLE_FORMATS_RAW16 = 32"

definition ANDROID_SCALER_AVAILABLE_FORMATS_RAW_OPAQUE :: u32 where
  "ANDROID_SCALER_AVAILABLE_FORMATS_RAW_OPAQUE = 36"

definition ANDROID_SCALER_AVAILABLE_FORMATS_YV12 :: u32 where
  "ANDROID_SCALER_AVAILABLE_FORMATS_YV12 = 842094169"

definition ANDROID_SCALER_AVAILABLE_FORMATS_YCrCb_420_SP :: u32 where
  "ANDROID_SCALER_AVAILABLE_FORMATS_YCrCb_420_SP = 17"

definition ANDROID_SCALER_AVAILABLE_FORMATS_IMPLEMENTATION_DEFINED :: u32 where
  "ANDROID_SCALER_AVAILABLE_FORMATS_IMPLEMENTATION_DEFINED = 34"

definition ANDROID_SCALER_AVAILABLE_FORMATS_YCbCr_420_888 :: u32 where
  "ANDROID_SCALER_AVAILABLE_FORMATS_YCbCr_420_888 = 35"

definition ANDROID_SCALER_AVAILABLE_FORMATS_BLOB :: u32 where
  "ANDROID_SCALER_AVAILABLE_FORMATS_BLOB = 33"

definition ANDROID_SCALER_AVAILABLE_STREAM_CONFIGURATIONS_OUTPUT :: u32 where
  "ANDROID_SCALER_AVAILABLE_STREAM_CONFIGURATIONS_OUTPUT = 0"

definition ANDROID_SCALER_AVAILABLE_STREAM_CONFIGURATIONS_INPUT :: u32 where
  "ANDROID_SCALER_AVAILABLE_STREAM_CONFIGURATIONS_INPUT = 1"

definition ANDROID_SCALER_CROPPING_TYPE_CENTER_ONLY :: u32 where
  "ANDROID_SCALER_CROPPING_TYPE_CENTER_ONLY = 0"

definition ANDROID_SCALER_CROPPING_TYPE_FREEFORM :: u32 where
  "ANDROID_SCALER_CROPPING_TYPE_FREEFORM = 1"

definition ANDROID_SENSOR_REFERENCE_ILLUMINANT1_DAYLIGHT :: u32 where
  "ANDROID_SENSOR_REFERENCE_ILLUMINANT1_DAYLIGHT = 1"

definition ANDROID_SENSOR_REFERENCE_ILLUMINANT1_FLUORESCENT :: u32 where
  "ANDROID_SENSOR_REFERENCE_ILLUMINANT1_FLUORESCENT = 2"

definition ANDROID_SENSOR_REFERENCE_ILLUMINANT1_TUNGSTEN :: u32 where
  "ANDROID_SENSOR_REFERENCE_ILLUMINANT1_TUNGSTEN = 3"

definition ANDROID_SENSOR_REFERENCE_ILLUMINANT1_FLASH :: u32 where
  "ANDROID_SENSOR_REFERENCE_ILLUMINANT1_FLASH = 4"

definition ANDROID_SENSOR_REFERENCE_ILLUMINANT1_FINE_WEATHER :: u32 where
  "ANDROID_SENSOR_REFERENCE_ILLUMINANT1_FINE_WEATHER = 9"

definition ANDROID_SENSOR_REFERENCE_ILLUMINANT1_CLOUDY_WEATHER :: u32 where
  "ANDROID_SENSOR_REFERENCE_ILLUMINANT1_CLOUDY_WEATHER = 10"

definition ANDROID_SENSOR_REFERENCE_ILLUMINANT1_SHADE :: u32 where
  "ANDROID_SENSOR_REFERENCE_ILLUMINANT1_SHADE = 11"

definition ANDROID_SENSOR_REFERENCE_ILLUMINANT1_DAYLIGHT_FLUORESCENT :: u32 where
  "ANDROID_SENSOR_REFERENCE_ILLUMINANT1_DAYLIGHT_FLUORESCENT = 12"

definition ANDROID_SENSOR_REFERENCE_ILLUMINANT1_DAY_WHITE_FLUORESCENT :: u32 where
  "ANDROID_SENSOR_REFERENCE_ILLUMINANT1_DAY_WHITE_FLUORESCENT = 13"

definition ANDROID_SENSOR_REFERENCE_ILLUMINANT1_COOL_WHITE_FLUORESCENT :: u32 where
  "ANDROID_SENSOR_REFERENCE_ILLUMINANT1_COOL_WHITE_FLUORESCENT = 14"

definition ANDROID_SENSOR_REFERENCE_ILLUMINANT1_WHITE_FLUORESCENT :: u32 where
  "ANDROID_SENSOR_REFERENCE_ILLUMINANT1_WHITE_FLUORESCENT = 15"

definition ANDROID_SENSOR_REFERENCE_ILLUMINANT1_STANDARD_A :: u32 where
  "ANDROID_SENSOR_REFERENCE_ILLUMINANT1_STANDARD_A = 17"

definition ANDROID_SENSOR_REFERENCE_ILLUMINANT1_STANDARD_B :: u32 where
  "ANDROID_SENSOR_REFERENCE_ILLUMINANT1_STANDARD_B = 18"

definition ANDROID_SENSOR_REFERENCE_ILLUMINANT1_STANDARD_C :: u32 where
  "ANDROID_SENSOR_REFERENCE_ILLUMINANT1_STANDARD_C = 19"

definition ANDROID_SENSOR_REFERENCE_ILLUMINANT1_D55 :: u32 where
  "ANDROID_SENSOR_REFERENCE_ILLUMINANT1_D55 = 20"

definition ANDROID_SENSOR_REFERENCE_ILLUMINANT1_D65 :: u32 where
  "ANDROID_SENSOR_REFERENCE_ILLUMINANT1_D65 = 21"

definition ANDROID_SENSOR_REFERENCE_ILLUMINANT1_D75 :: u32 where
  "ANDROID_SENSOR_REFERENCE_ILLUMINANT1_D75 = 22"

definition ANDROID_SENSOR_REFERENCE_ILLUMINANT1_D50 :: u32 where
  "ANDROID_SENSOR_REFERENCE_ILLUMINANT1_D50 = 23"

definition ANDROID_SENSOR_REFERENCE_ILLUMINANT1_ISO_STUDIO_TUNGSTEN :: u32 where
  "ANDROID_SENSOR_REFERENCE_ILLUMINANT1_ISO_STUDIO_TUNGSTEN = 24"

definition ANDROID_SENSOR_TEST_PATTERN_MODE_OFF :: u32 where
  "ANDROID_SENSOR_TEST_PATTERN_MODE_OFF = 0"

definition ANDROID_SENSOR_TEST_PATTERN_MODE_SOLID_COLOR :: u32 where
  "ANDROID_SENSOR_TEST_PATTERN_MODE_SOLID_COLOR = 1"

definition ANDROID_SENSOR_TEST_PATTERN_MODE_COLOR_BARS :: u32 where
  "ANDROID_SENSOR_TEST_PATTERN_MODE_COLOR_BARS = 2"

definition ANDROID_SENSOR_TEST_PATTERN_MODE_COLOR_BARS_FADE_TO_GRAY :: u32 where
  "ANDROID_SENSOR_TEST_PATTERN_MODE_COLOR_BARS_FADE_TO_GRAY = 3"

definition ANDROID_SENSOR_TEST_PATTERN_MODE_PN9 :: u32 where
  "ANDROID_SENSOR_TEST_PATTERN_MODE_PN9 = 4"

definition ANDROID_SENSOR_TEST_PATTERN_MODE_CUSTOM1 :: u32 where
  "ANDROID_SENSOR_TEST_PATTERN_MODE_CUSTOM1 = 256"

definition ANDROID_SENSOR_INFO_COLOR_FILTER_ARRANGEMENT_RGGB :: u32 where
  "ANDROID_SENSOR_INFO_COLOR_FILTER_ARRANGEMENT_RGGB = 0"

definition ANDROID_SENSOR_INFO_COLOR_FILTER_ARRANGEMENT_GRBG :: u32 where
  "ANDROID_SENSOR_INFO_COLOR_FILTER_ARRANGEMENT_GRBG = 1"

definition ANDROID_SENSOR_INFO_COLOR_FILTER_ARRANGEMENT_GBRG :: u32 where
  "ANDROID_SENSOR_INFO_COLOR_FILTER_ARRANGEMENT_GBRG = 2"

definition ANDROID_SENSOR_INFO_COLOR_FILTER_ARRANGEMENT_BGGR :: u32 where
  "ANDROID_SENSOR_INFO_COLOR_FILTER_ARRANGEMENT_BGGR = 3"

definition ANDROID_SENSOR_INFO_COLOR_FILTER_ARRANGEMENT_RGB :: u32 where
  "ANDROID_SENSOR_INFO_COLOR_FILTER_ARRANGEMENT_RGB = 4"

definition ANDROID_SENSOR_INFO_TIMESTAMP_SOURCE_UNKNOWN :: u32 where
  "ANDROID_SENSOR_INFO_TIMESTAMP_SOURCE_UNKNOWN = 0"

definition ANDROID_SENSOR_INFO_TIMESTAMP_SOURCE_REALTIME :: u32 where
  "ANDROID_SENSOR_INFO_TIMESTAMP_SOURCE_REALTIME = 1"

definition ANDROID_SENSOR_INFO_LENS_SHADING_APPLIED_FALSE :: u32 where
  "ANDROID_SENSOR_INFO_LENS_SHADING_APPLIED_FALSE = 0"

definition ANDROID_SENSOR_INFO_LENS_SHADING_APPLIED_TRUE :: u32 where
  "ANDROID_SENSOR_INFO_LENS_SHADING_APPLIED_TRUE = 1"

definition ANDROID_SHADING_MODE_OFF :: u32 where
  "ANDROID_SHADING_MODE_OFF = 0"

definition ANDROID_SHADING_MODE_FAST :: u32 where
  "ANDROID_SHADING_MODE_FAST = 1"

definition ANDROID_SHADING_MODE_HIGH_QUALITY :: u32 where
  "ANDROID_SHADING_MODE_HIGH_QUALITY = 2"

definition ANDROID_STATISTICS_FACE_DETECT_MODE_OFF :: u32 where
  "ANDROID_STATISTICS_FACE_DETECT_MODE_OFF = 0"

definition ANDROID_STATISTICS_FACE_DETECT_MODE_SIMPLE :: u32 where
  "ANDROID_STATISTICS_FACE_DETECT_MODE_SIMPLE = 1"

definition ANDROID_STATISTICS_FACE_DETECT_MODE_FULL :: u32 where
  "ANDROID_STATISTICS_FACE_DETECT_MODE_FULL = 2"

definition ANDROID_STATISTICS_HISTOGRAM_MODE_OFF :: u32 where
  "ANDROID_STATISTICS_HISTOGRAM_MODE_OFF = 0"

definition ANDROID_STATISTICS_HISTOGRAM_MODE_ON :: u32 where
  "ANDROID_STATISTICS_HISTOGRAM_MODE_ON = 1"

definition ANDROID_STATISTICS_SHARPNESS_MAP_MODE_OFF :: u32 where
  "ANDROID_STATISTICS_SHARPNESS_MAP_MODE_OFF = 0"

definition ANDROID_STATISTICS_SHARPNESS_MAP_MODE_ON :: u32 where
  "ANDROID_STATISTICS_SHARPNESS_MAP_MODE_ON = 1"

definition ANDROID_STATISTICS_HOT_PIXEL_MAP_MODE_OFF :: u32 where
  "ANDROID_STATISTICS_HOT_PIXEL_MAP_MODE_OFF = 0"

definition ANDROID_STATISTICS_HOT_PIXEL_MAP_MODE_ON :: u32 where
  "ANDROID_STATISTICS_HOT_PIXEL_MAP_MODE_ON = 1"

definition ANDROID_STATISTICS_SCENE_FLICKER_NONE :: u32 where
  "ANDROID_STATISTICS_SCENE_FLICKER_NONE = 0"

definition ANDROID_STATISTICS_SCENE_FLICKER_50HZ :: u32 where
  "ANDROID_STATISTICS_SCENE_FLICKER_50HZ = 1"

definition ANDROID_STATISTICS_SCENE_FLICKER_60HZ :: u32 where
  "ANDROID_STATISTICS_SCENE_FLICKER_60HZ = 2"

definition ANDROID_STATISTICS_LENS_SHADING_MAP_MODE_OFF :: u32 where
  "ANDROID_STATISTICS_LENS_SHADING_MAP_MODE_OFF = 0"

definition ANDROID_STATISTICS_LENS_SHADING_MAP_MODE_ON :: u32 where
  "ANDROID_STATISTICS_LENS_SHADING_MAP_MODE_ON = 1"

definition ANDROID_TONEMAP_MODE_CONTRAST_CURVE :: u32 where
  "ANDROID_TONEMAP_MODE_CONTRAST_CURVE = 0"

definition ANDROID_TONEMAP_MODE_FAST :: u32 where
  "ANDROID_TONEMAP_MODE_FAST = 1"

definition ANDROID_TONEMAP_MODE_HIGH_QUALITY :: u32 where
  "ANDROID_TONEMAP_MODE_HIGH_QUALITY = 2"

definition ANDROID_TONEMAP_MODE_GAMMA_VALUE :: u32 where
  "ANDROID_TONEMAP_MODE_GAMMA_VALUE = 3"

definition ANDROID_TONEMAP_MODE_PRESET_CURVE :: u32 where
  "ANDROID_TONEMAP_MODE_PRESET_CURVE = 4"

definition ANDROID_TONEMAP_PRESET_CURVE_SRGB :: u32 where
  "ANDROID_TONEMAP_PRESET_CURVE_SRGB = 0"

definition ANDROID_TONEMAP_PRESET_CURVE_REC709 :: u32 where
  "ANDROID_TONEMAP_PRESET_CURVE_REC709 = 1"

definition ANDROID_LED_TRANSMIT_OFF :: u32 where
  "ANDROID_LED_TRANSMIT_OFF = 0"

definition ANDROID_LED_TRANSMIT_ON :: u32 where
  "ANDROID_LED_TRANSMIT_ON = 1"

definition ANDROID_LED_AVAILABLE_LEDS_TRANSMIT :: u32 where
  "ANDROID_LED_AVAILABLE_LEDS_TRANSMIT = 0"

definition ANDROID_INFO_SUPPORTED_HARDWARE_LEVEL_LIMITED :: u32 where
  "ANDROID_INFO_SUPPORTED_HARDWARE_LEVEL_LIMITED = 0"

definition ANDROID_INFO_SUPPORTED_HARDWARE_LEVEL_FULL :: u32 where
  "ANDROID_INFO_SUPPORTED_HARDWARE_LEVEL_FULL = 1"

definition ANDROID_INFO_SUPPORTED_HARDWARE_LEVEL_LEGACY :: u32 where
  "ANDROID_INFO_SUPPORTED_HARDWARE_LEVEL_LEGACY = 2"

definition ANDROID_BLACK_LEVEL_LOCK_OFF :: u32 where
  "ANDROID_BLACK_LEVEL_LOCK_OFF = 0"

definition ANDROID_BLACK_LEVEL_LOCK_ON :: u32 where
  "ANDROID_BLACK_LEVEL_LOCK_ON = 1"

definition ANDROID_SYNC_FRAME_NUMBER_CONVERGING :: u32 where
  "ANDROID_SYNC_FRAME_NUMBER_CONVERGING = - 1"

definition ANDROID_SYNC_FRAME_NUMBER_UNKNOWN :: u32 where
  "ANDROID_SYNC_FRAME_NUMBER_UNKNOWN = - 2"

definition ANDROID_SYNC_MAX_LATENCY_PER_FRAME_CONTROL :: u32 where
  "ANDROID_SYNC_MAX_LATENCY_PER_FRAME_CONTROL = 0"

definition ANDROID_SYNC_MAX_LATENCY_UNKNOWN :: u32 where
  "ANDROID_SYNC_MAX_LATENCY_UNKNOWN = - 1"

definition ANDROID_DEPTH_AVAILABLE_DEPTH_STREAM_CONFIGURATIONS_OUTPUT :: u32 where
  "ANDROID_DEPTH_AVAILABLE_DEPTH_STREAM_CONFIGURATIONS_OUTPUT = 0"

definition ANDROID_DEPTH_AVAILABLE_DEPTH_STREAM_CONFIGURATIONS_INPUT :: u32 where
  "ANDROID_DEPTH_AVAILABLE_DEPTH_STREAM_CONFIGURATIONS_INPUT = 1"

definition ANDROID_DEPTH_DEPTH_IS_EXCLUSIVE_FALSE :: u32 where
  "ANDROID_DEPTH_DEPTH_IS_EXCLUSIVE_FALSE = 0"

definition ANDROID_DEPTH_DEPTH_IS_EXCLUSIVE_TRUE :: u32 where
  "ANDROID_DEPTH_DEPTH_IS_EXCLUSIVE_TRUE = 1"

lemmas enumerator_defs =
  ANDROID_COLOR_CORRECTION_MODE_TRANSFORM_MATRIX_def ANDROID_COLOR_CORRECTION_MODE_FAST_def
  ANDROID_COLOR_CORRECTION_MODE_HIGH_QUALITY_def ANDROID_COLOR_CORRECTION_ABERRATION_MODE_OFF_def
  ANDROID_COLOR_CORRECTION_ABERRATION_MODE_FAST_def
  ANDROID_COLOR_CORRECTION_ABERRATION_MODE_HIGH_QUALITY_def
  ANDROID_CONTROL_AE_ANTIBANDING_MODE_OFF_def ANDROID_CONTROL_AE_ANTIBANDING_MODE_50HZ_def
  ANDROID_CONTROL_AE_ANTIBANDING_MODE_60HZ_def ANDROID_CONTROL_AE_ANTIBANDING_MODE_AUTO_def
  ANDROID_CONTROL_AE_LOCK_OFF_def ANDROID_CONTROL_AE_LOCK_ON_def ANDROID_CONTROL_AE_MODE_OFF_def
  ANDROID_CONTROL_AE_MODE_ON_def ANDROID_CONTROL_AE_MODE_ON_AUTO_FLASH_def
  ANDROID_CONTROL_AE_MODE_ON_ALWAYS_FLASH_def ANDROID_CONTROL_AE_MODE_ON_AUTO_FLASH_REDEYE_def
  ANDROID_CONTROL_AE_PRECAPTURE_TRIGGER_IDLE_def ANDROID_CONTROL_AE_PRECAPTURE_TRIGGER_START_def
  ANDROID_CONTROL_AE_PRECAPTURE_TRIGGER_CANCEL_def ANDROID_CONTROL_AF_MODE_OFF_def
  ANDROID_CONTROL_AF_MODE_AUTO_def ANDROID_CONTROL_AF_MODE_MACRO_def
  ANDROID_CONTROL_AF_MODE_CONTINUOUS_VIDEO_def ANDROID_CONTROL_AF_MODE_CONTINUOUS_PICTURE_def
  ANDROID_CONTROL_AF_MODE_EDOF_def ANDROID_CONTROL_AF_TRIGGER_IDLE_def
  ANDROID_CONTROL_AF_TRIGGER_START_def ANDROID_CONTROL_AF_TRIGGER_CANCEL_def
  ANDROID_CONTROL_AWB_LOCK_OFF_def ANDROID_CONTROL_AWB_LOCK_ON_def
  ANDROID_CONTROL_AWB_MODE_OFF_def ANDROID_CONTROL_AWB_MODE_AUTO_def
  ANDROID_CONTROL_AWB_MODE_INCANDESCENT_def ANDROID_CONTROL_AWB_MODE_FLUORESCENT_def
  ANDROID_CONTROL_AWB_MODE_WARM_FLUORESCENT_def ANDROID_CONTROL_AWB_MODE_DAYLIGHT_def
  ANDROID_CONTROL_AWB_MODE_CLOUDY_DAYLIGHT_def ANDROID_CONTROL_AWB_MODE_TWILIGHT_def
  ANDROID_CONTROL_AWB_MODE_SHADE_def ANDROID_CONTROL_CAPTURE_INTENT_CUSTOM_def
  ANDROID_CONTROL_CAPTURE_INTENT_PREVIEW_def ANDROID_CONTROL_CAPTURE_INTENT_STILL_CAPTURE_def
  ANDROID_CONTROL_CAPTURE_INTENT_VIDEO_RECORD_def
  ANDROID_CONTROL_CAPTURE_INTENT_VIDEO_SNAPSHOT_def
  ANDROID_CONTROL_CAPTURE_INTENT_ZERO_SHUTTER_LAG_def ANDROID_CONTROL_CAPTURE_INTENT_MANUAL_def
  ANDROID_CONTROL_EFFECT_MODE_OFF_def ANDROID_CONTROL_EFFECT_MODE_MONO_def
  ANDROID_CONTROL_EFFECT_MODE_NEGATIVE_def ANDROID_CONTROL_EFFECT_MODE_SOLARIZE_def
  ANDROID_CONTROL_EFFECT_MODE_SEPIA_def ANDROID_CONTROL_EFFECT_MODE_POSTERIZE_def
  ANDROID_CONTROL_EFFECT_MODE_WHITEBOARD_def ANDROID_CONTROL_EFFECT_MODE_BLACKBOARD_def
  ANDROID_CONTROL_EFFECT_MODE_AQUA_def ANDROID_CONTROL_MODE_OFF_def ANDROID_CONTROL_MODE_AUTO_def
  ANDROID_CONTROL_MODE_USE_SCENE_MODE_def ANDROID_CONTROL_MODE_OFF_KEEP_STATE_def
  ANDROID_CONTROL_SCENE_MODE_DISABLED_def ANDROID_CONTROL_SCENE_MODE_FACE_PRIORITY_def
  ANDROID_CONTROL_SCENE_MODE_ACTION_def ANDROID_CONTROL_SCENE_MODE_PORTRAIT_def
  ANDROID_CONTROL_SCENE_MODE_LANDSCAPE_def ANDROID_CONTROL_SCENE_MODE_NIGHT_def
  ANDROID_CONTROL_SCENE_MODE_NIGHT_PORTRAIT_def ANDROID_CONTROL_SCENE_MODE_THEATRE_def
  ANDROID_CONTROL_SCENE_MODE_BEACH_def ANDROID_CONTROL_SCENE_MODE_SNOW_def
  ANDROID_CONTROL_SCENE_MODE_SUNSET_def ANDROID_CONTROL_SCENE_MODE_STEADYPHOTO_def
  ANDROID_CONTROL_SCENE_MODE_FIREWORKS_def ANDROID_CONTROL_SCENE_MODE_SPORTS_def
  ANDROID_CONTROL_SCENE_MODE_PARTY_def ANDROID_CONTROL_SCENE_MODE_CANDLELIGHT_def
  ANDROID_CONTROL_SCENE_MODE_BARCODE_def ANDROID_CONTROL_SCENE_MODE_HIGH_SPEED_VIDEO_def
  ANDROID_CONTROL_SCENE_MODE_HDR_def ANDROID_CONTROL_SCENE_MODE_FACE_PRIORITY_LOW_LIGHT_def
  ANDROID_CONTROL_VIDEO_STABILIZATION_MODE_OFF_def ANDROID_CONTROL_VIDEO_STABILIZATION_MODE_ON_def
  ANDROID_CONTROL_AE_STATE_INACTIVE_def ANDROID_CONTROL_AE_STATE_SEARCHING_def
  ANDROID_CONTROL_AE_STATE_CONVERGED_def ANDROID_CONTROL_AE_STATE_LOCKED_def
  ANDROID_CONTROL_AE_STATE_FLASH_REQUIRED_def ANDROID_CONTROL_AE_STATE_PRECAPTURE_def
  ANDROID_CONTROL_AF_STATE_INACTIVE_def ANDROID_CONTROL_AF_STATE_PASSIVE_SCAN_def
  ANDROID_CONTROL_AF_STATE_PASSIVE_FOCUSED_def ANDROID_CONTROL_AF_STATE_ACTIVE_SCAN_def
  ANDROID_CONTROL_AF_STATE_FOCUSED_LOCKED_def ANDROID_CONTROL_AF_STATE_NOT_FOCUSED_LOCKED_def
  ANDROID_CONTROL_AF_STATE_PASSIVE_UNFOCUSED_def ANDROID_CONTROL_AWB_STATE_INACTIVE_def
  ANDROID_CONTROL_AWB_STATE_SEARCHING_def ANDROID_CONTROL_AWB_STATE_CONVERGED_def
  ANDROID_CONTROL_AWB_STATE_LOCKED_def ANDROID_CONTROL_AE_LOCK_AVAILABLE_FALSE_def
  ANDROID_CONTROL_AE_LOCK_AVAILABLE_TRUE_def ANDROID_CONTROL_AWB_LOCK_AVAILABLE_FALSE_def
  ANDROID_CONTROL_AWB_LOCK_AVAILABLE_TRUE_def ANDROID_DEMOSAIC_MODE_FAST_def
  ANDROID_DEMOSAIC_MODE_HIGH_QUALITY_def ANDROID_EDGE_MODE_OFF_def ANDROID_EDGE_MODE_FAST_def
  ANDROID_EDGE_MODE_HIGH_QUALITY_def ANDROID_EDGE_MODE_ZERO_SHUTTER_LAG_def
  ANDROID_FLASH_MODE_OFF_def ANDROID_FLASH_MODE_SINGLE_def ANDROID_FLASH_MODE_TORCH_def
  ANDROID_FLASH_STATE_UNAVAILABLE_def ANDROID_FLASH_STATE_CHARGING_def
  ANDROID_FLASH_STATE_READY_def ANDROID_FLASH_STATE_FIRED_def ANDROID_FLASH_STATE_PARTIAL_def
  ANDROID_FLASH_INFO_AVAILABLE_FALSE_def ANDROID_FLASH_INFO_AVAILABLE_TRUE_def
  ANDROID_HOT_PIXEL_MODE_OFF_def ANDROID_HOT_PIXEL_MODE_FAST_def
  ANDROID_HOT_PIXEL_MODE_HIGH_QUALITY_def ANDROID_LENS_OPTICAL_STABILIZATION_MODE_OFF_def
  ANDROID_LENS_OPTICAL_STABILIZATION_MODE_ON_def ANDROID_LENS_FACING_FRONT_def
  ANDROID_LENS_FACING_BACK_def ANDROID_LENS_FACING_EXTERNAL_def ANDROID_LENS_STATE_STATIONARY_def
  ANDROID_LENS_STATE_MOVING_def ANDROID_LENS_INFO_FOCUS_DISTANCE_CALIBRATION_UNCALIBRATED_def
  ANDROID_LENS_INFO_FOCUS_DISTANCE_CALIBRATION_APPROXIMATE_def
  ANDROID_LENS_INFO_FOCUS_DISTANCE_CALIBRATION_CALIBRATED_def ANDROID_NOISE_REDUCTION_MODE_OFF_def
  ANDROID_NOISE_REDUCTION_MODE_FAST_def ANDROID_NOISE_REDUCTION_MODE_HIGH_QUALITY_def
  ANDROID_NOISE_REDUCTION_MODE_MINIMAL_def ANDROID_NOISE_REDUCTION_MODE_ZERO_SHUTTER_LAG_def
  ANDROID_QUIRKS_PARTIAL_RESULT_FINAL_def ANDROID_QUIRKS_PARTIAL_RESULT_PARTIAL_def
  ANDROID_REQUEST_METADATA_MODE_NONE_def ANDROID_REQUEST_METADATA_MODE_FULL_def
  ANDROID_REQUEST_TYPE_CAPTURE_def ANDROID_REQUEST_TYPE_REPROCESS_def
  ANDROID_REQUEST_AVAILABLE_CAPABILITIES_BACKWARD_COMPATIBLE_def
  ANDROID_REQUEST_AVAILABLE_CAPABILITIES_MANUAL_SENSOR_def
  ANDROID_REQUEST_AVAILABLE_CAPABILITIES_MANUAL_POST_PROCESSING_def
  ANDROID_REQUEST_AVAILABLE_CAPABILITIES_RAW_def
  ANDROID_REQUEST_AVAILABLE_CAPABILITIES_PRIVATE_REPROCESSING_def
  ANDROID_REQUEST_AVAILABLE_CAPABILITIES_READ_SENSOR_SETTINGS_def
  ANDROID_REQUEST_AVAILABLE_CAPABILITIES_BURST_CAPTURE_def
  ANDROID_REQUEST_AVAILABLE_CAPABILITIES_YUV_REPROCESSING_def
  ANDROID_REQUEST_AVAILABLE_CAPABILITIES_DEPTH_OUTPUT_def
  ANDROID_REQUEST_AVAILABLE_CAPABILITIES_CONSTRAINED_HIGH_SPEED_VIDEO_def
  ANDROID_SCALER_AVAILABLE_FORMATS_RAW16_def ANDROID_SCALER_AVAILABLE_FORMATS_RAW_OPAQUE_def
  ANDROID_SCALER_AVAILABLE_FORMATS_YV12_def ANDROID_SCALER_AVAILABLE_FORMATS_YCrCb_420_SP_def
  ANDROID_SCALER_AVAILABLE_FORMATS_IMPLEMENTATION_DEFINED_def
  ANDROID_SCALER_AVAILABLE_FORMATS_YCbCr_420_888_def ANDROID_SCALER_AVAILABLE_FORMATS_BLOB_def
  ANDROID_SCALER_AVAILABLE_STREAM_CONFIGURATIONS_OUTPUT_def
  ANDROID_SCALER_AVAILABLE_STREAM_CONFIGURATIONS_INPUT_def
  ANDROID_SCALER_CROPPING_TYPE_CENTER_ONLY_def ANDROID_SCALER_CROPPING_TYPE_FREEFORM_def
  ANDROID_SENSOR_REFERENCE_ILLUMINANT1_DAYLIGHT_def
  ANDROID_SENSOR_REFERENCE_ILLUMINANT1_FLUORESCENT_def
  ANDROID_SENSOR_REFERENCE_ILLUMINANT1_TUNGSTEN_def ANDROID_SENSOR_REFERENCE_ILLUMINANT1_FLASH_def
  ANDROID_SENSOR_REFERENCE_ILLUMINANT1_FINE_WEATHER_def
  ANDROID_SENSOR_REFERENCE_ILLUMINANT1_CLOUDY_WEATHER_def
  ANDROID_SENSOR_REFERENCE_ILLUMINANT1_SHADE_def
  ANDROID_SENSOR_REFERENCE_ILLUMINANT1_DAYLIGHT_FLUORESCENT_def
  ANDROID_SENSOR_REFERENCE_ILLUMINANT1_DAY_WHITE_FLUORESCENT_def
  ANDROID_SENSOR_REFERENCE_ILLUMINANT1_COOL_WHITE_FLUORESCENT_def
  ANDROID_SENSOR_REFERENCE_ILLUMINANT1_WHITE_FLUORESCENT_def
  ANDROID_SENSOR_REFERENCE_ILLUMINANT1_STANDARD_A_def
  ANDROID_SENSOR_REFERENCE_ILLUMINANT1_STANDARD_B_def
  ANDROID_SENSOR_REFERENCE_ILLUMINANT1_STANDARD_C_def ANDROID_SENSOR_REFERENCE_ILLUMINANT1_D55_def
  ANDROID_SENSOR_REFERENCE_ILLUMINANT1_D65_def ANDROID_SENSOR_REFERENCE_ILLUMINANT1_D75_def
  ANDROID_SENSOR_REFERENCE_ILLUMINANT1_D50_def
  ANDROID_SENSOR_REFERENCE_ILLUMINANT1_ISO_STUDIO_TUNGSTEN_def
  ANDROID_SENSOR_TEST_PATTERN_MODE_OFF_def ANDROID_SENSOR_TEST_PATTERN_MODE_SOLID_COLOR_def
  ANDROID_SENSOR_TEST_PATTERN_MODE_COLOR_BARS_def
  ANDROID_SENSOR_TEST_PATTERN_MODE_COLOR_BARS_FADE_TO_GRAY_def
  ANDROID_SENSOR_TEST_PATTERN_MODE_PN9_def ANDROID_SENSOR_TEST_PATTERN_MODE_CUSTOM1_def
  ANDROID_SENSOR_INFO_COLOR_FILTER_ARRANGEMENT_RGGB_def
  ANDROID_SENSOR_INFO_COLOR_FILTER_ARRANGEMENT_GRBG_def
  ANDROID_SENSOR_INFO_COLOR_FILTER_ARRANGEMENT_GBRG_def
  ANDROID_SENSOR_INFO_COLOR_FILTER_ARRANGEMENT_BGGR_def
  ANDROID_SENSOR_INFO_COLOR_FILTER_ARRANGEMENT_RGB_def
  ANDROID_SENSOR_INFO_TIMESTAMP_SOURCE_UNKNOWN_def
  ANDROID_SENSOR_INFO_TIMESTAMP_SOURCE_REALTIME_def
  ANDROID_SENSOR_INFO_LENS_SHADING_APPLIED_FALSE_def
  ANDROID_SENSOR_INFO_LENS_SHADING_APPLIED_TRUE_def ANDROID_SHADING_MODE_OFF_def
  ANDROID_SHADING_MODE_FAST_def ANDROID_SHADING_MODE_HIGH_QUALITY_def
  ANDROID_STATISTICS_FACE_DETECT_MODE_OFF_def ANDROID_STATISTICS_FACE_DETECT_MODE_SIMPLE_def
  ANDROID_STATISTICS_FACE_DETECT_MODE_FULL_def ANDROID_STATISTICS_HISTOGRAM_MODE_OFF_def
  ANDROID_STATISTICS_HISTOGRAM_MODE_ON_def ANDROID_STATISTICS_SHARPNESS_MAP_MODE_OFF_def
  ANDROID_STATISTICS_SHARPNESS_MAP_MODE_ON_def ANDROID_STATISTICS_HOT_PIXEL_MAP_MODE_OFF_def
  ANDROID_STATISTICS_HOT_PIXEL_MAP_MODE_ON_def ANDROID_STATISTICS_SCENE_FLICKER_NONE_def
  ANDROID_STATISTICS_SCENE_FLICKER_50HZ_def ANDROID_STATISTICS_SCENE_FLICKER_60HZ_def
  ANDROID_STATISTICS_LENS_SHADING_MAP_MODE_OFF_def ANDROID_STATISTICS_LENS_SHADING_MAP_MODE_ON_def
  ANDROID_TONEMAP_MODE_CONTRAST_CURVE_def ANDROID_TONEMAP_MODE_FAST_def
  ANDROID_TONEMAP_MODE_HIGH_QUALITY_def ANDROID_TONEMAP_MODE_GAMMA_VALUE_def
  ANDROID_TONEMAP_MODE_PRESET_CURVE_def ANDROID_TONEMAP_PRESET_CURVE_SRGB_def
  ANDROID_TONEMAP_PRESET_CURVE_REC709_def ANDROID_LED_TRANSMIT_OFF_def ANDROID_LED_TRANSMIT_ON_def
  ANDROID_LED_AVAILABLE_LEDS_TRANSMIT_def ANDROID_INFO_SUPPORTED_HARDWARE_LEVEL_LIMITED_def
  ANDROID_INFO_SUPPORTED_HARDWARE_LEVEL_FULL_def ANDROID_INFO_SUPPORTED_HARDWARE_LEVEL_LEGACY_def
  ANDROID_BLACK_LEVEL_LOCK_OFF_def ANDROID_BLACK_LEVEL_LOCK_ON_def
  ANDROID_SYNC_FRAME_NUMBER_CONVERGING_def ANDROID_SYNC_FRAME_NUMBER_UNKNOWN_def
  ANDROID_SYNC_MAX_LATENCY_PER_FRAME_CONTROL_def ANDROID_SYNC_MAX_LATENCY_UNKNOWN_def
  ANDROID_DEPTH_AVAILABLE_DEPTH_STREAM_CONFIGURATIONS_OUTPUT_def
  ANDROID_DEPTH_AVAILABLE_DEPTH_STREAM_CONFIGURATIONS_INPUT_def
  ANDROID_DEPTH_DEPTH_IS_EXCLUSIVE_FALSE_def ANDROID_DEPTH_DEPTH_IS_EXCLUSIVE_TRUE_def

section \<open>The cases of \<open>camera_metadata_enum_snprint\<close>\<close>

text \<open>
  One row per \<open>case\<close> label on the tag: \<open>None\<close> for a case that only breaks, and \<open>Some vs\<close> for
  a case with a \<open>switch (value)\<close>, \<open>vs\<close> listing its labels and the message each one sets.
\<close>

type_synonym enum_cases = "(u32 \<times> (u32 \<times> string) list option) list"

definition enum_cases_color_correction :: "enum_cases" where
  "enum_cases_color_correction =
    [(ANDROID_COLOR_CORRECTION_MODE, Some
       [(ANDROID_COLOR_CORRECTION_MODE_TRANSFORM_MATRIX, ''TRANSFORM_MATRIX''),
        (ANDROID_COLOR_CORRECTION_MODE_FAST, ''FAST''),
        (ANDROID_COLOR_CORRECTION_MODE_HIGH_QUALITY, ''HIGH_QUALITY'')]),
     (ANDROID_COLOR_CORRECTION_TRANSFORM, None),
     (ANDROID_COLOR_CORRECTION_GAINS, None),
     (ANDROID_COLOR_CORRECTION_ABERRATION_MODE, Some
       [(ANDROID_COLOR_CORRECTION_ABERRATION_MODE_OFF, ''OFF''),
        (ANDROID_COLOR_CORRECTION_ABERRATION_MODE_FAST, ''FAST''),
        (ANDROID_COLOR_CORRECTION_ABERRATION_MODE_HIGH_QUALITY, ''HIGH_QUALITY'')]),
     (ANDROID_COLOR_CORRECTION_AVAILABLE_ABERRATION_MODES, None)]"

definition enum_cases_control_1 :: "enum_cases" where
  "enum_cases_control_1 =
    [(ANDROID_CONTROL_AE_ANTIBANDING_MODE, Some
       [(ANDROID_CONTROL_AE_ANTIBANDING_MODE_OFF, ''OFF''),
        (ANDROID_CONTROL_AE_ANTIBANDING_MODE_50HZ, ''50HZ''),
        (ANDROID_CONTROL_AE_ANTIBANDING_MODE_60HZ, ''60HZ''),
        (ANDROID_CONTROL_AE_ANTIBANDING_MODE_AUTO, ''AUTO'')]),
     (ANDROID_CONTROL_AE_EXPOSURE_COMPENSATION, None),
     (ANDROID_CONTROL_AE_LOCK, Some
       [(ANDROID_CONTROL_AE_LOCK_OFF, ''OFF''),
        (ANDROID_CONTROL_AE_LOCK_ON, ''ON'')]),
     (ANDROID_CONTROL_AE_MODE, Some
       [(ANDROID_CONTROL_AE_MODE_OFF, ''OFF''),
        (ANDROID_CONTROL_AE_MODE_ON, ''ON''),
        (ANDROID_CONTROL_AE_MODE_ON_AUTO_FLASH, ''ON_AUTO_FLASH''),
        (ANDROID_CONTROL_AE_MODE_ON_ALWAYS_FLASH, ''ON_ALWAYS_FLASH''),
        (ANDROID_CONTROL_AE_MODE_ON_AUTO_FLASH_REDEYE, ''ON_AUTO_FLASH_REDEYE'')]),
     (ANDROID_CONTROL_AE_REGIONS, None),
     (ANDROID_CONTROL_AE_TARGET_FPS_RANGE, None),
     (ANDROID_CONTROL_AE_PRECAPTURE_TRIGGER, Some
       [(ANDROID_CONTROL_AE_PRECAPTURE_TRIGGER_IDLE, ''IDLE''),
        (ANDROID_CONTROL_AE_PRECAPTURE_TRIGGER_START, ''START''),
        (ANDROID_CONTROL_AE_PRECAPTURE_TRIGGER_CANCEL, ''CANCEL'')]),
     (ANDROID_CONTROL_AF_MODE, Some
       [(ANDROID_CONTROL_AF_MODE_OFF, ''OFF''),
        (ANDROID_CONTROL_AF_MODE_AUTO, ''AUTO''),
        (ANDROID_CONTROL_AF_MODE_MACRO, ''MACRO''),
        (ANDROID_CONTROL_AF_MODE_CONTINUOUS_VIDEO, ''CONTINUOUS_VIDEO''),
        (ANDROID_CONTROL_AF_MODE_CONTINUOUS_PICTURE, ''CONTINUOUS_PICTURE''),
        (ANDROID_CONTROL_AF_MODE_EDOF, ''EDOF'')]),
     (ANDROID_CONTROL_AF_REGIONS, None),
     (ANDROID_CONTROL_AF_TRIGGER, Some
       [(ANDROID_CONTROL_AF_TRIGGER_IDLE, ''IDLE''),
        (ANDROID_CONTROL_AF_TRIGGER_START, ''START''),
        (ANDROID_CONTROL_AF_TRIGGER_CANCEL, ''CANCEL'')])]"

definition enum_cases_control_2 :: "enum_cases" where
  "enum_cases_control_2 =
    [(ANDROID_CONTROL_AWB_LOCK, Some
       [(ANDROID_CONTROL_AWB_LOCK_OFF, ''OFF''),
        (ANDROID_CONTROL_AWB_LOCK_ON, ''ON'')]),
     (ANDROID_CONTROL_AWB_MODE, Some
       [(ANDROID_CONTROL_AWB_MODE_OFF, ''OFF''),
        (ANDROID_CONTROL_AWB_MODE_AUTO, ''AUTO''),
        (ANDROID_CONTROL_AWB_MODE_INCANDESCENT, ''INCANDESCENT''),
        (ANDROID_CONTROL_AWB_MODE_FLUORESCENT, ''FLUORESCENT''),
        (ANDROID_CONTROL_AWB_MODE_WARM_FLUORESCENT, ''WARM_FLUORESCENT''),
        (ANDROID_CONTROL_AWB_MODE_DAYLIGHT, ''DAYLIGHT''),
        (ANDROID_CONTROL_AWB_MODE_CLOUDY_DAYLIGHT, ''CLOUDY_DAYLIGHT''),
        (ANDROID_CONTROL_AWB_MODE_TWILIGHT, ''TWILIGHT''),
        (ANDROID_CONTROL_AWB_MODE_SHADE, ''SHADE'')]),
     (ANDROID_CONTROL_AWB_REGIONS, None),
     (ANDROID_CONTROL_CAPTURE_INTENT, Some
       [(ANDROID_CONTROL_CAPTURE_INTENT_CUSTOM, ''CUSTOM''),
        (ANDROID_CONTROL_CAPTURE_INTENT_PREVIEW, ''PREVIEW''),
        (ANDROID_CONTROL_CAPTURE_INTENT_STILL_CAPTURE, ''STILL_CAPTURE''),
        (ANDROID_CONTROL_CAPTURE_INTENT_VIDEO_RECORD, ''VIDEO_RECORD''),
        (ANDROID_CONTROL_CAPTURE_INTENT_VIDEO_SNAPSHOT, ''VIDEO_SNAPSHOT''),
        (ANDROID_CONTROL_CAPTURE_INTENT_ZERO_SHUTTER_LAG, ''ZERO_SHUTTER_LAG''),
        (ANDROID_CONTROL_CAPTURE_INTENT_MANUAL, ''MANUAL'')]),
     (ANDROID_CONTROL_EFFECT_MODE, Some
       [(ANDROID_CONTROL_EFFECT_MODE_OFF, ''OFF''),
        (ANDROID_CONTROL_EFFECT_MODE_MONO, ''MONO''),
        (ANDROID_CONTROL_EFFECT_MODE_NEGATIVE, ''NEGATIVE''),
        (ANDROID_CONTROL_EFFECT_MODE_SOLARIZE, ''SOLARIZE''),
        (ANDROID_CONTROL_EFFECT_MODE_SEPIA, ''SEPIA''),
        (ANDROID_CONTROL_EFFECT_MODE_POSTERIZE, ''POSTERIZE''),
        (ANDROID_CONTROL_EFFECT_MODE_WHITEBOARD, ''WHITEBOARD''),
        (ANDROID_CONTROL_EFFECT_MODE_BLACKBOARD, ''BLACKBOARD''),
        (ANDROID_CONTROL_EFFECT_MODE_AQUA, ''AQUA'')])]"

definition enum_cases_control_3 :: "enum_cases" where
  "enum_cases_control_3 =
    [(ANDROID_CONTROL_MODE, Some
       [(ANDROID_CONTROL_MODE_OFF, ''OFF''),
        (ANDROID_CONTROL_MODE_AUTO, ''AUTO''),
        (ANDROID_CONTROL_MODE_USE_SCENE_MODE, ''USE_SCENE_MODE''),
        (ANDROID_CONTROL_MODE_OFF_KEEP_STATE, ''OFF_KEEP_STATE'')]),
     (ANDROID_CONTROL_SCENE_MODE, Some
       [(ANDROID_CONTROL_SCENE_MODE_DISABLED, ''DISABLED''),
        (ANDROID_CONTROL_SCENE_MODE_FACE_PRIORITY, ''FACE_PRIORITY''),
        (ANDROID_CONTROL_SCENE_MODE_ACTION, ''ACTION''),
        (ANDROID_CONTROL_SCENE_MODE_PORTRAIT, ''PORTRAIT''),
        (ANDROID_CONTROL_SCENE_MODE_LANDSCAPE, ''LANDSCAPE''),
        (ANDROID_CONTROL_SCENE_MODE_NIGHT, ''NIGHT''),
        (ANDROID_CONTROL_SCENE_MODE_NIGHT_PORTRAIT, ''NIGHT_PORTRAIT''),
        (ANDROID_CONTROL_SCENE_MODE_THEATRE, ''THEATRE''),
        (ANDROID_CONTROL_SCENE_MODE_BEACH, ''BEACH''),
        (ANDROID_CONTROL_SCENE_MODE_SNOW, ''SNOW''),
        (ANDROID_CONTROL_SCENE_MODE_SUNSET, ''SUNSET''),
        (ANDROID_CONTROL_SCENE_MODE_STEADYPHOTO, ''STEADYPHOTO''),
        (ANDROID_CONTROL_SCENE_MODE_FIREWORKS, ''FIREWORKS''),
        (ANDROID_CONTROL_SCENE_MODE_SPORTS, ''SPORTS''),
        (ANDROID_CONTROL_SCENE_MODE_PARTY, ''PARTY''),
        (ANDROID_CONTROL_SCENE_MODE_CANDLELIGHT, ''CANDLELIGHT''),
        (ANDROID_CONTROL_SCENE_MODE_BARCODE, ''BARCODE''),
        (ANDROID_CONTROL_SCENE_MODE_HIGH_SPEED_VIDEO, ''HIGH_SPEED_VIDEO''),
        (ANDROID_CONTROL_SCENE_MODE_HDR, ''HDR''),
        (ANDROID_CONTROL_SCENE_MODE_FACE_PRIORITY_LOW_LIGHT, ''FACE_PRIORITY_LOW_LIGHT'')]),
     (ANDROID_CONTROL_VIDEO_STABILIZATION_MODE, Some
       [(ANDROID_CONTROL_VIDEO_STABILIZATION_MODE_OFF, ''OFF''),
        (ANDROID_CONTROL_VIDEO_STABILIZATION_MODE_ON, ''ON'')]),
     (ANDROID_CONTROL_AE_AVAILABLE_ANTIBANDING_MODES, None),
     (ANDROID_CONTROL_AE_AVAILABLE_MODES, None),
     (ANDROID_CONTROL_AE_AVAILABLE_TARGET_FPS_RANGES, None),
     (ANDROID_CONTROL_AE_COMPENSATION_RANGE, None),
     (ANDROID_CONTROL_AE_COMPENSATION_STEP, None),
     (ANDROID_CONTROL_AF_AVAILABLE_MODES, None),
     (ANDROID_CONTROL_AVAILABLE_EFFECTS, None),
     (ANDROID_CONTROL_AVAILABLE_SCENE_MODES, None)]"

definition enum_cases_control_4 :: "enum_cases" where
  "enum_cases_control_4 =
    [(ANDROID_CONTROL_AVAILABLE_VIDEO_STABILIZATION_MODES, None),
     (ANDROID_CONTROL_AWB_AVAILABLE_MODES, None),
     (ANDROID_CONTROL_MAX_REGIONS, None),
     (ANDROID_CONTROL_SCENE_MODE_OVERRIDES, None),
     (ANDROID_CONTROL_AE_PRECAPTURE_ID, None),
     (ANDROID_CONTROL_AE_STATE, Some
       [(ANDROID_CONTROL_AE_STATE_INACTIVE, ''INACTIVE''),
        (ANDROID_CONTROL_AE_STATE_SEARCHING, ''SEARCHING''),
        (ANDROID_CONTROL_AE_STATE_CONVERGED, ''CONVERGED''),
        (ANDROID_CONTROL_AE_STATE_LOCKED, ''LOCKED''),
        (ANDROID_CONTROL_AE_STATE_FLASH_REQUIRED, ''FLASH_REQUIRED''),
        (ANDROID_CONTROL_AE_STATE_PRECAPTURE, ''PRECAPTURE'')]),
     (ANDROID_CONTROL_AF_STATE, Some
       [(ANDROID_CONTROL_AF_STATE_INACTIVE, ''INACTIVE''),
        (ANDROID_CONTROL_AF_STATE_PASSIVE_SCAN, ''PASSIVE_SCAN''),
        (ANDROID_CONTROL_AF_STATE_PASSIVE_FOCUSED, ''PASSIVE_FOCUSED''),
        (ANDROID_CONTROL_AF_STATE_ACTIVE_SCAN, ''ACTIVE_SCAN''),
        (ANDROID_CONTROL_AF_STATE_FOCUSED_LOCKED, ''FOCUSED_LOCKED''),
        (ANDROID_CONTROL_AF_STATE_NOT_FOCUSED_LOCKED, ''NOT_FOCUSED_LOCKED''),
        (ANDROID_CONTROL_AF_STATE_PASSIVE_UNFOCUSED, ''PASSIVE_UNFOCUSED'')]),
     (ANDROID_CONTROL_AF_TRIGGER_ID, None),
     (ANDROID_CONTROL_AWB_STATE, Some
       [(ANDROID_CONTROL_AWB_STATE_INACTIVE, ''INACTIVE''),
        (ANDROID_CONTROL_AWB_STATE_SEARCHING, ''SEARCHING''),
        (ANDROID_CONTROL_AWB_STATE_CONVERGED, ''CONVERGED''),
        (ANDROID_CONTROL_AWB_STATE_LOCKED, ''LOCKED'')]),
     (ANDROID_CONTROL_AVAILABLE_HIGH_SPEED_VIDEO_CONFIGURATIONS, None),
     (ANDROID_CONTROL_AE_LOCK_AVAILABLE, Some
       [(ANDROID_CONTROL_AE_LOCK_AVAILABLE_FALSE, ''FALSE''),
        (ANDROID_CONTROL_AE_LOCK_AVAILABLE_TRUE, ''TRUE'')]),
     (ANDROID_CONTROL_AWB_LOCK_AVAILABLE, Some
       [(ANDROID_CONTROL_AWB_LOCK_AVAILABLE_FALSE, ''FALSE''),
        (ANDROID_CONTROL_AWB_LOCK_AVAILABLE_TRUE, ''TRUE'')]),
     (ANDROID_CONTROL_AVAILABLE_MODES, None)]"

definition enum_cases_demosaic :: "enum_cases" where
  "enum_cases_demosaic =
    [(ANDROID_DEMOSAIC_MODE, Some
       [(ANDROID_DEMOSAIC_MODE_FAST, ''FAST''),
        (ANDROID_DEMOSAIC_MODE_HIGH_QUALITY, ''HIGH_QUALITY'')])]"

definition enum_cases_edge :: "enum_cases" where
  "enum_cases_edge =
    [(ANDROID_EDGE_MODE, Some
       [(ANDROID_EDGE_MODE_OFF, ''OFF''),
        (ANDROID_EDGE_MODE_FAST, ''FAST''),
        (ANDROID_EDGE_MODE_HIGH_QUALITY, ''HIGH_QUALITY''),
        (ANDROID_EDGE_MODE_ZERO_SHUTTER_LAG, ''ZERO_SHUTTER_LAG'')]),
     (ANDROID_EDGE_STRENGTH, None),
     (ANDROID_EDGE_AVAILABLE_EDGE_MODES, None)]"

definition enum_cases_flash :: "enum_cases" where
  "enum_cases_flash =
    [(ANDROID_FLASH_FIRING_POWER, None),
     (ANDROID_FLASH_FIRING_TIME, None),
     (ANDROID_FLASH_MODE, Some
       [(ANDROID_FLASH_MODE_OFF, ''OFF''),
        (ANDROID_FLASH_MODE_SINGLE, ''SINGLE''),
        (ANDROID_FLASH_MODE_TORCH, ''TORCH'')]),
     (ANDROID_FLASH_COLOR_TEMPERATURE, None),
     (ANDROID_FLASH_MAX_ENERGY, None),
     (ANDROID_FLASH_STATE, Some
       [(ANDROID_FLASH_STATE_UNAVAILABLE, ''UNAVAILABLE''),
        (ANDROID_FLASH_STATE_CHARGING, ''CHARGING''),
        (ANDROID_FLASH_STATE_READY, ''READY''),
        (ANDROID_FLASH_STATE_FIRED, ''FIRED''),
        (ANDROID_FLASH_STATE_PARTIAL, ''PARTIAL'')])]"

definition enum_cases_flash_info :: "enum_cases" where
  "enum_cases_flash_info =
    [(ANDROID_FLASH_INFO_AVAILABLE, Some
       [(ANDROID_FLASH_INFO_AVAILABLE_FALSE, ''FALSE''),
        (ANDROID_FLASH_INFO_AVAILABLE_TRUE, ''TRUE'')]),
     (ANDROID_FLASH_INFO_CHARGE_DURATION, None)]"

definition enum_cases_hot_pixel :: "enum_cases" where
  "enum_cases_hot_pixel =
    [(ANDROID_HOT_PIXEL_MODE, Some
       [(ANDROID_HOT_PIXEL_MODE_OFF, ''OFF''),
        (ANDROID_HOT_PIXEL_MODE_FAST, ''FAST''),
        (ANDROID_HOT_PIXEL_MODE_HIGH_QUALITY, ''HIGH_QUALITY'')]),
     (ANDROID_HOT_PIXEL_AVAILABLE_HOT_PIXEL_MODES, None)]"

definition enum_cases_jpeg :: "enum_cases" where
  "enum_cases_jpeg =
    [(ANDROID_JPEG_GPS_COORDINATES, None),
     (ANDROID_JPEG_GPS_PROCESSING_METHOD, None),
     (ANDROID_JPEG_GPS_TIMESTAMP, None),
     (ANDROID_JPEG_ORIENTATION, None),
     (ANDROID_JPEG_QUALITY, None),
     (ANDROID_JPEG_THUMBNAIL_QUALITY, None),
     (ANDROID_JPEG_THUMBNAIL_SIZE, None),
     (ANDROID_JPEG_AVAILABLE_THUMBNAIL_SIZES, None),
     (ANDROID_JPEG_MAX_SIZE, None),
     (ANDROID_JPEG_SIZE, None)]"

definition enum_cases_lens :: "enum_cases" where
  "enum_cases_lens =
    [(ANDROID_LENS_APERTURE, None),
     (ANDROID_LENS_FILTER_DENSITY, None),
     (ANDROID_LENS_FOCAL_LENGTH, None),
     (ANDROID_LENS_FOCUS_DISTANCE, None),
     (ANDROID_LENS_OPTICAL_STABILIZATION_MODE, Some
       [(ANDROID_LENS_OPTICAL_STABILIZATION_MODE_OFF, ''OFF''),
        (ANDROID_LENS_OPTICAL_STABILIZATION_MODE_ON, ''ON'')]),
     (ANDROID_LENS_FACING, Some
       [(ANDROID_LENS_FACING_FRONT, ''FRONT''),
        (ANDROID_LENS_FACING_BACK, ''BACK''),
        (ANDROID_LENS_FACING_EXTERNAL, ''EXTERNAL'')]),
     (ANDROID_LENS_POSE_ROTATION, None),
     (ANDROID_LENS_POSE_TRANSLATION, None),
     (ANDROID_LENS_FOCUS_RANGE, None),
     (ANDROID_LENS_STATE, Some
       [(ANDROID_LENS_STATE_STATIONARY, ''STATIONARY''),
        (ANDROID_LENS_STATE_MOVING, ''MOVING'')]),
     (ANDROID_LENS_INTRINSIC_CALIBRATION, None),
     (ANDROID_LENS_RADIAL_DISTORTION, None)]"

definition enum_cases_lens_info :: "enum_cases" where
  "enum_cases_lens_info =
    [(ANDROID_LENS_INFO_AVAILABLE_APERTURES, None),
     (ANDROID_LENS_INFO_AVAILABLE_FILTER_DENSITIES, None),
     (ANDROID_LENS_INFO_AVAILABLE_FOCAL_LENGTHS, None),
     (ANDROID_LENS_INFO_AVAILABLE_OPTICAL_STABILIZATION, None),
     (ANDROID_LENS_INFO_HYPERFOCAL_DISTANCE, None),
     (ANDROID_LENS_INFO_MINIMUM_FOCUS_DISTANCE, None),
     (ANDROID_LENS_INFO_SHADING_MAP_SIZE, None),
     (ANDROID_LENS_INFO_FOCUS_DISTANCE_CALIBRATION, Some
       [(ANDROID_LENS_INFO_FOCUS_DISTANCE_CALIBRATION_UNCALIBRATED, ''UNCALIBRATED''),
        (ANDROID_LENS_INFO_FOCUS_DISTANCE_CALIBRATION_APPROXIMATE, ''APPROXIMATE''),
        (ANDROID_LENS_INFO_FOCUS_DISTANCE_CALIBRATION_CALIBRATED, ''CALIBRATED'')])]"

definition enum_cases_noise_reduction :: "enum_cases" where
  "enum_cases_noise_reduction =
    [(ANDROID_NOISE_REDUCTION_MODE, Some
       [(ANDROID_NOISE_REDUCTION_MODE_OFF, ''OFF''),
        (ANDROID_NOISE_REDUCTION_MODE_FAST, ''FAST''),
        (ANDROID_NOISE_REDUCTION_MODE_HIGH_QUALITY, ''HIGH_QUALITY''),
        (ANDROID_NOISE_REDUCTION_MODE_MINIMAL, ''MINIMAL''),
        (ANDROID_NOISE_REDUCTION_MODE_ZERO_SHUTTER_LAG, ''ZERO_SHUTTER_LAG'')]),
     (ANDROID_NOISE_REDUCTION_STRENGTH, None),
     (ANDROID_NOISE_REDUCTION_AVAILABLE_NOISE_REDUCTION_MODES, None)]"

definition enum_cases_quirks :: "enum_cases" where
  "enum_cases_quirks =
    [(ANDROID_QUIRKS_METERING_CROP_REGION, None),
     (ANDROID_QUIRKS_TRIGGER_AF_WITH_AUTO, None),
     (ANDROID_QUIRKS_USE_ZSL_FORMAT, None),
     (ANDROID_QUIRKS_USE_PARTIAL_RESULT, None),
     (ANDROID_QUIRKS_PARTIAL_RESULT, Some
       [(ANDROID_QUIRKS_PARTIAL_RESULT_FINAL, ''FINAL''),
        (ANDROID_QUIRKS_PARTIAL_RESULT_PARTIAL, ''PARTIAL'')])]"

definition enum_cases_request :: "enum_cases" where
  "enum_cases_request =
    [(ANDROID_REQUEST_FRAME_COUNT, None),
     (ANDROID_REQUEST_ID, None),
     (ANDROID_REQUEST_INPUT_STREAMS, None),
     (ANDROID_REQUEST_METADATA_MODE, Some
       [(ANDROID_REQUEST_METADATA_MODE_NONE, ''NONE''),
        (ANDROID_REQUEST_METADATA_MODE_FULL, ''FULL'')]),
     (ANDROID_REQUEST_OUTPUT_STREAMS, None),
     (ANDROID_REQUEST_TYPE, Some
       [(ANDROID_REQUEST_TYPE_CAPTURE, ''CAPTURE''),
        (ANDROID_REQUEST_TYPE_REPROCESS, ''REPROCESS'')]),
     (ANDROID_REQUEST_MAX_NUM_OUTPUT_STREAMS, None),
     (ANDROID_REQUEST_MAX_NUM_REPROCESS_STREAMS, None),
     (ANDROID_REQUEST_MAX_NUM_INPUT_STREAMS, None),
     (ANDROID_REQUEST_PIPELINE_DEPTH, None),
     (ANDROID_REQUEST_PIPELINE_MAX_DEPTH, None),
     (ANDROID_REQUEST_PARTIAL_RESULT_COUNT, None),
     (ANDROID_REQUEST_AVAILABLE_CAPABILITIES, Some
       [(ANDROID_REQUEST_AVAILABLE_CAPABILITIES_BACKWARD_COMPATIBLE, ''BACKWARD_COMPATIBLE''),
        (ANDROID_REQUEST_AVAILABLE_CAPABILITIES_MANUAL_SENSOR, ''MANUAL_SENSOR''),
        (ANDROID_REQUEST_AVAILABLE_CAPABILITIES_MANUAL_POST_PROCESSING, ''MANUAL_POST_PROCESSING''),
        (ANDROID_REQUEST_AVAILABLE_CAPABILITIES_RAW, ''RAW''),
        (ANDROID_REQUEST_AVAILABLE_CAPABILITIES_PRIVATE_REPROCESSING, ''PRIVATE_REPROCESSING''),
        (ANDROID_REQUEST_AVAILABLE_CAPABILITIES_READ_SENSOR_SETTINGS, ''READ_SENSOR_SETTINGS''),
        (ANDROID_REQUEST_AVAILABLE_CAPABILITIES_BURST_CAPTURE, ''BURST_CAPTURE''),
        (ANDROID_REQUEST_AVAILABLE_CAPABILITIES_YUV_REPROCESSING, ''YUV_REPROCESSING''),
        (ANDROID_REQUEST_AVAILABLE_CAPABILITIES_DEPTH_OUTPUT, ''DEPTH_OUTPUT''),
        (ANDROID_REQUEST_AVAILABLE_CAPABILITIES_CONSTRAINED_HIGH_SPEED_VIDEO, ''CONSTRAINED_HIGH_SPEED_VIDEO'')]),
     (ANDROID_REQUEST_AVAILABLE_REQUEST_KEYS, None),
     (ANDROID_REQUEST_AVAILABLE_RESULT_KEYS, None),
     (ANDROID_REQUEST_AVAILABLE_CHARACTERISTICS_KEYS, None)]"

definition enum_cases_scaler :: "enum_cases" where
  "enum_cases_scaler =
    [(ANDROID_SCALER_CROP_REGION, None),
     (ANDROID_SCALER_AVAILABLE_FORMATS, Some
       [(ANDROID_SCALER_AVAILABLE_FORMATS_RAW16, ''RAW16''),
        (ANDROID_SCALER_AVAILABLE_FORMATS_RAW_OPAQUE, ''RAW_OPAQUE''),
        (ANDROID_SCALER_AVAILABLE_FORMATS_YV12, ''YV12''),
        (ANDROID_SCALER_AVAILABLE_FORMATS_YCrCb_420_SP, ''YCrCb_420_SP''),
        (ANDROID_SCALER_AVAILABLE_FORMATS_IMPLEMENTATION_DEFINED, ''IMPLEMENTATION_DEFINED''),
        (ANDROID_SCALER_AVAILABLE_FORMATS_YCbCr_420_888, ''YCbCr_420_888''),
        (ANDROID_SCALER_AVAILABLE_FORMATS_BLOB, ''BLOB'')]),
     (ANDROID_SCALER_AVAILABLE_JPEG_MIN_DURATIONS, None),
     (ANDROID_SCALER_AVAILABLE_JPEG_SIZES, None),
     (ANDROID_SCALER_AVAILABLE_MAX_DIGITAL_ZOOM, None),
     (ANDROID_SCALER_AVAILABLE_PROCESSED_MIN_DURATIONS, None),
     (ANDROID_SCALER_AVAILABLE_PROCESSED_SIZES, None),
     (ANDROID_SCALER_AVAILABLE_RAW_MIN_DURATIONS, None),
     (ANDROID_SCALER_AVAILABLE_RAW_SIZES, None),
     (ANDROID_SCALER_AVAILABLE_INPUT_OUTPUT_FORMATS_MAP, None),
     (ANDROID_SCALER_AVAILABLE_STREAM_CONFIGURATIONS, Some
       [(ANDROID_SCALER_AVAILABLE_STREAM_CONFIGURATIONS_OUTPUT, ''OUTPUT''),
        (ANDROID_SCALER_AVAILABLE_STREAM_CONFIGURATIONS_INPUT, ''INPUT'')]),
     (ANDROID_SCALER_AVAILABLE_MIN_FRAME_DURATIONS, None),
     (ANDROID_SCALER_AVAILABLE_STALL_DURATIONS, None),
     (ANDROID_SCALER_CROPPING_TYPE, Some
       [(ANDROID_SCALER_CROPPING_TYPE_CENTER_ONLY, ''CENTER_ONLY''),
        (ANDROID_SCALER_CROPPING_TYPE_FREEFORM, ''FREEFORM'')])]"

definition enum_cases_sensor_1 :: "enum_cases" where
  "enum_cases_sensor_1 =
    [(ANDROID_SENSOR_EXPOSURE_TIME, None),
     (ANDROID_SENSOR_FRAME_DURATION, None),
     (ANDROID_SENSOR_SENSITIVITY, None),
     (ANDROID_SENSOR_REFERENCE_ILLUMINANT1, Some
       [(ANDROID_SENSOR_REFERENCE_ILLUMINANT1_DAYLIGHT, ''DAYLIGHT''),
        (ANDROID_SENSOR_REFERENCE_ILLUMINANT1_FLUORESCENT, ''FLUORESCENT''),
        (ANDROID_SENSOR_REFERENCE_ILLUMINANT1_TUNGSTEN, ''TUNGSTEN''),
        (ANDROID_SENSOR_REFERENCE_ILLUMINANT1_FLASH, ''FLASH''),
        (ANDROID_SENSOR_REFERENCE_ILLUMINANT1_FINE_WEATHER, ''FINE_WEATHER''),
        (ANDROID_SENSOR_REFERENCE_ILLUMINANT1_CLOUDY_WEATHER, ''CLOUDY_WEATHER''),
        (ANDROID_SENSOR_REFERENCE_ILLUMINANT1_SHADE, ''SHADE''),
        (ANDROID_SENSOR_REFERENCE_ILLUMINANT1_DAYLIGHT_FLUORESCENT, ''DAYLIGHT_FLUORESCENT''),
        (ANDROID_SENSOR_REFERENCE_ILLUMINANT1_DAY_WHITE_FLUORESCENT, ''DAY_WHITE_FLUORESCENT''),
        (ANDROID_SENSOR_REFERENCE_ILLUMINANT1_COOL_WHITE_FLUORESCENT, ''COOL_WHITE_FLUORESCENT''),
        (ANDROID_SENSOR_REFERENCE_ILLUMINANT1_WHITE_FLUORESCENT, ''WHITE_FLUORESCENT''),
        (ANDROID_SENSOR_REFERENCE_ILLUMINANT1_STANDARD_A, ''STANDARD_A''),
        (ANDROID_SENSOR_REFERENCE_ILLUMINANT1_STANDARD_B, ''STANDARD_B''),
        (ANDROID_SENSOR_REFERENCE_ILLUMINANT1_STANDARD_C, ''STANDARD_C''),
        (ANDROID_SENSOR_REFERENCE_ILLUMINANT1_D55, ''D55''),
        (ANDROID_SENSOR_REFERENCE_ILLUMINANT1_D65, ''D65''),
        (ANDROID_SENSOR_REFERENCE_ILLUMINANT1_D75, ''D75''),
        (ANDROID_SENSOR_REFERENCE_ILLUMINANT1_D50, ''D50''),
        (ANDROID_SENSOR_REFERENCE_ILLUMINANT1_ISO_STUDIO_TUNGSTEN, ''ISO_STUDIO_TUNGSTEN'')]),
     (ANDROID_SENSOR_REFERENCE_ILLUMINANT2, None),
     (ANDROID_SENSOR_CALIBRATION_TRANSFORM1, None),
     (ANDROID_SENSOR_CALIBRATION_TRANSFORM2, None),
     (ANDROID_SENSOR_COLOR_TRANSFORM1, None),
     (ANDROID_SENSOR_COLOR_TRANSFORM2, None),
     (ANDROID_SENSOR_FORWARD_MATRIX1, None),
     (ANDROID_SENSOR_FORWARD_MATRIX2, None),
     (ANDROID_SENSOR_BASE_GAIN_FACTOR, None),
     (ANDROID_SENSOR_BLACK_LEVEL_PATTERN, None),
     (ANDROID_SENSOR_MAX_ANALOG_SENSITIVITY, None),
     (ANDROID_SENSOR_ORIENTATION, None),
     (ANDROID_SENSOR_PROFILE_HUE_SAT_MAP_DIMENSIONS, None),
     (ANDROID_SENSOR_TIMESTAMP, None),
     (ANDROID_SENSOR_TEMPERATURE, None),
     (ANDROID_SENSOR_NEUTRAL_COLOR_POINT, None),
     (ANDROID_SENSOR_NOISE_PROFILE, None),
     (ANDROID_SENSOR_PROFILE_HUE_SAT_MAP, None),
     (ANDROID_SENSOR_PROFILE_TONE_CURVE, None),
     (ANDROID_SENSOR_GREEN_SPLIT, None)]"

definition enum_cases_sensor_2 :: "enum_cases" where
  "enum_cases_sensor_2 =
    [(ANDROID_SENSOR_TEST_PATTERN_DATA, None),
     (ANDROID_SENSOR_TEST_PATTERN_MODE, Some
       [(ANDROID_SENSOR_TEST_PATTERN_MODE_OFF, ''OFF''),
        (ANDROID_SENSOR_TEST_PATTERN_MODE_SOLID_COLOR, ''SOLID_COLOR''),
        (ANDROID_SENSOR_TEST_PATTERN_MODE_COLOR_BARS, ''COLOR_BARS''),
        (ANDROID_SENSOR_TEST_PATTERN_MODE_COLOR_BARS_FADE_TO_GRAY, ''COLOR_BARS_FADE_TO_GRAY''),
        (ANDROID_SENSOR_TEST_PATTERN_MODE_PN9, ''PN9''),
        (ANDROID_SENSOR_TEST_PATTERN_MODE_CUSTOM1, ''CUSTOM1'')]),
     (ANDROID_SENSOR_AVAILABLE_TEST_PATTERN_MODES, None),
     (ANDROID_SENSOR_ROLLING_SHUTTER_SKEW, None)]"

definition enum_cases_sensor_info :: "enum_cases" where
  "enum_cases_sensor_info =
    [(ANDROID_SENSOR_INFO_ACTIVE_ARRAY_SIZE, None),
     (ANDROID_SENSOR_INFO_SENSITIVITY_RANGE, None),
     (ANDROID_SENSOR_INFO_COLOR_FILTER_ARRANGEMENT, Some
       [(ANDROID_SENSOR_INFO_COLOR_FILTER_ARRANGEMENT_RGGB, ''RGGB''),
        (ANDROID_SENSOR_INFO_COLOR_FILTER_ARRANGEMENT_GRBG, ''GRBG''),
        (ANDROID_SENSOR_INFO_COLOR_FILTER_ARRANGEMENT_GBRG, ''GBRG''),
        (ANDROID_SENSOR_INFO_COLOR_FILTER_ARRANGEMENT_BGGR, ''BGGR''),
        (ANDROID_SENSOR_INFO_COLOR_FILTER_ARRANGEMENT_RGB, ''RGB'')]),
     (ANDROID_SENSOR_INFO_EXPOSURE_TIME_RANGE, None),
     (ANDROID_SENSOR_INFO_MAX_FRAME_DURATION, None),
     (ANDROID_SENSOR_INFO_PHYSICAL_SIZE, None),
     (ANDROID_SENSOR_INFO_PIXEL_ARRAY_SIZE, None),
     (ANDROID_SENSOR_INFO_WHITE_LEVEL, None),
     (ANDROID_SENSOR_INFO_TIMESTAMP_SOURCE, Some
       [(ANDROID_SENSOR_INFO_TIMESTAMP_SOURCE_UNKNOWN, ''UNKNOWN''),
        (ANDROID_SENSOR_INFO_TIMESTAMP_SOURCE_REALTIME, ''REALTIME'')]),
     (ANDROID_SENSOR_INFO_LENS_SHADING_APPLIED, Some
       [(ANDROID_SENSOR_INFO_LENS_SHADING_APPLIED_FALSE, ''FALSE''),
        (ANDROID_SENSOR_INFO_LENS_SHADING_APPLIED_TRUE, ''TRUE'')]),
     (ANDROID_SENSOR_INFO_PRE_CORRECTION_ACTIVE_ARRAY_SIZE, None)]"

definition enum_cases_shading :: "enum_cases" where
  "enum_cases_shading =
    [(ANDROID_SHADING_MODE, Some
       [(ANDROID_SHADING_MODE_OFF, ''OFF''),
        (ANDROID_SHADING_MODE_FAST, ''FAST''),
        (ANDROID_SHADING_MODE_HIGH_QUALITY, ''HIGH_QUALITY'')]),
     (ANDROID_SHADING_STRENGTH, None),
     (ANDROID_SHADING_AVAILABLE_MODES, None)]"

definition enum_cases_statistics :: "enum_cases" where
  "enum_cases_statistics =
    [(ANDROID_STATISTICS_FACE_DETECT_MODE, Some
       [(ANDROID_STATISTICS_FACE_DETECT_MODE_OFF, ''OFF''),
        (ANDROID_STATISTICS_FACE_DETECT_MODE_SIMPLE, ''SIMPLE''),
        (ANDROID_STATISTICS_FACE_DETECT_MODE_FULL, ''FULL'')]),
     (ANDROID_STATISTICS_HISTOGRAM_MODE, Some
       [(ANDROID_STATISTICS_HISTOGRAM_MODE_OFF, ''OFF''),
        (ANDROID_STATISTICS_HISTOGRAM_MODE_ON, ''ON'')]),
     (ANDROID_STATISTICS_SHARPNESS_MAP_MODE, Some
       [(ANDROID_STATISTICS_SHARPNESS_MAP_MODE_OFF, ''OFF''),
        (ANDROID_STATISTICS_SHARPNESS_MAP_MODE_ON, ''ON'')]),
     (ANDROID_STATISTICS_HOT_PIXEL_MAP_MODE, Some
       [(ANDROID_STATISTICS_HOT_PIXEL_MAP_MODE_OFF, ''OFF''),
        (ANDROID_STATISTICS_HOT_PIXEL_MAP_MODE_ON, ''ON'')]),
     (ANDROID_STATISTICS_FACE_IDS, None),
     (ANDROID_STATISTICS_FACE_LANDMARKS, None),
     (ANDROID_STATISTICS_FACE_RECTANGLES, None),
     (ANDROID_STATISTICS_FACE_SCORES, None),
     (ANDROID_STATISTICS_HISTOGRAM, None),
     (ANDROID_STATISTICS_SHARPNESS_MAP, None),
     (ANDROID_STATISTICS_LENS_SHADING_CORRECTION_MAP, None),
     (ANDROID_STATISTICS_LENS_SHADING_MAP, None),
     (ANDROID_STATISTICS_PREDICTED_COLOR_GAINS, None),
     (ANDROID_STATISTICS_PREDICTED_COLOR_TRANSFORM, None),
     (ANDROID_STATISTICS_SCENE_FLICKER, Some
       [(ANDROID_STATISTICS_SCENE_FLICKER_NONE, ''NONE''),
        (ANDROID_STATISTICS_SCENE_FLICKER_50HZ, ''50HZ''),
        (ANDROID_STATISTICS_SCENE_FLICKER_60HZ, ''60HZ'')]),
     (ANDROID_STATISTICS_HOT_PIXEL_MAP, None),
     (ANDROID_STATISTICS_LENS_SHADING_MAP_MODE, Some
       [(ANDROID_STATISTICS_LENS_SHADING_MAP_MODE_OFF, ''OFF''),
        (ANDROID_STATISTICS_LENS_SHADING_MAP_MODE_ON, ''ON'')])]"

definition enum_cases_statistics_info :: "enum_cases" where
  "enum_cases_statistics_info =
    [(ANDROID_STATISTICS_INFO_AVAILABLE_FACE_DETECT_MODES, None),
     (ANDROID_STATISTICS_INFO_HISTOGRAM_BUCKET_COUNT, None),
     (ANDROID_STATISTICS_INFO_MAX_FACE_COUNT, None),
     (ANDROID_STATISTICS_INFO_MAX_HISTOGRAM_COUNT, None),
     (ANDROID_STATISTICS_INFO_MAX_SHARPNESS_MAP_VALUE, None),
     (ANDROID_STATISTICS_INFO_SHARPNESS_MAP_SIZE, None),
     (ANDROID_STATISTICS_INFO_AVAILABLE_HOT_PIXEL_MAP_MODES, None),
     (ANDROID_STATISTICS_INFO_AVAILABLE_LENS_SHADING_MAP_MODES, None)]"

definition enum_cases_tonemap :: "enum_cases" where
  "enum_cases_tonemap =
    [(ANDROID_TONEMAP_CURVE_BLUE, None),
     (ANDROID_TONEMAP_CURVE_GREEN, None),
     (ANDROID_TONEMAP_CURVE_RED, None),
     (ANDROID_TONEMAP_MODE, Some
       [(ANDROID_TONEMAP_MODE_CONTRAST_CURVE, ''CONTRAST_CURVE''),
        (ANDROID_TONEMAP_MODE_FAST, ''FAST''),
        (ANDROID_TONEMAP_MODE_HIGH_QUALITY, ''HIGH_QUALITY''),
        (ANDROID_TONEMAP_MODE_GAMMA_VALUE, ''GAMMA_VALUE''),
        (ANDROID_TONEMAP_MODE_PRESET_CURVE, ''PRESET_CURVE'')]),
     (ANDROID_TONEMAP_MAX_CURVE_POINTS, None),
     (ANDROID_TONEMAP_AVAILABLE_TONE_MAP_MODES, None),
     (ANDROID_TONEMAP_GAMMA, None),
     (ANDROID_TONEMAP_PRESET_CURVE, Some
       [(ANDROID_TONEMAP_PRESET_CURVE_SRGB, ''SRGB''),
        (ANDROID_TONEMAP_PRESET_CURVE_REC709, ''REC709'')])]"

definition enum_cases_led :: "enum_cases" where
  "enum_cases_led =
    [(ANDROID_LED_TRANSMIT, Some
       [(ANDROID_LED_TRANSMIT_OFF, ''OFF''),
        (ANDROID_LED_TRANSMIT_ON, ''ON'')]),
     (ANDROID_LED_AVAILABLE_LEDS, Some
       [(ANDROID_LED_AVAILABLE_LEDS_TRANSMIT, ''TRANSMIT'')])]"

definition enum_cases_info :: "enum_cases" where
  "enum_cases_info =
    [(ANDROID_INFO_SUPPORTED_HARDWARE_LEVEL, Some
       [(ANDROID_INFO_SUPPORTED_HARDWARE_LEVEL_LIMITED, ''LIMITED''),
        (ANDROID_INFO_SUPPORTED_HARDWARE_LEVEL_FULL, ''FULL''),
        (ANDROID_INFO_SUPPORTED_HARDWARE_LEVEL_LEGACY, ''LEGACY'')])]"

definition enum_cases_black_level :: "enum_cases" where
  "enum_cases_black_level =
    [(ANDROID_BLACK_LEVEL_LOCK, Some
       [(ANDROID_BLACK_LEVEL_LOCK_OFF, ''OFF''),
        (ANDROID_BLACK_LEVEL_LOCK_ON, ''ON'')])]"

definition enum_cases_sync :: "enum_cases" where
  "enum_cases_sync =
    [(ANDROID_SYNC_FRAME_NUMBER, Some
       [(ANDROID_SYNC_FRAME_NUMBER_CONVERGING, ''CONVERGING''),
        (ANDROID_SYNC_FRAME_NUMBER_UNKNOWN, ''UNKNOWN'')]),
     (ANDROID_SYNC_MAX_LATENCY, Some
       [(ANDROID_SYNC_MAX_LATENCY_PER_FRAME_CONTROL, ''PER_FRAME_CONTROL''),
        (ANDROID_SYNC_MAX_LATENCY_UNKNOWN, ''UNKNOWN'')])]"

definition enum_cases_reprocess :: "enum_cases" where
  "enum_cases_reprocess =
    [(ANDROID_REPROCESS_EFFECTIVE_EXPOSURE_FACTOR, None),
     (ANDROID_REPROCESS_MAX_CAPTURE_STALL, None)]"

definition enum_cases_depth :: "enum_cases" where
  "enum_cases_depth =
    [(ANDROID_DEPTH_MAX_DEPTH_SAMPLES, None),
     (ANDROID_DEPTH_AVAILABLE_DEPTH_STREAM_CONFIGURATIONS, Some
       [(ANDROID_DEPTH_AVAILABLE_DEPTH_STREAM_CONFIGURATIONS_OUTPUT, ''OUTPUT''),
        (ANDROID_DEPTH_AVAILABLE_DEPTH_STREAM_CONFIGURATIONS_INPUT, ''INPUT'')]),
     (ANDROID_DEPTH_AVAILABLE_DEPTH_MIN_FRAME_DURATIONS, None),
     (ANDROID_DEPTH_AVAILABLE_DEPTH_STALL_DURATIONS, None),
     (ANDROID_DEPTH_DEPTH_IS_EXCLUSIVE, Some
       [(ANDROID_DEPTH_DEPTH_IS_EXCLUSIVE_FALSE, ''FALSE''),
        (ANDROID_DEPTH_DEPTH_IS_EXCLUSIVE_TRUE, ''TRUE'')])]"

definition enum_cases_all :: "enum_cases" where
  "enum_cases_all =
    enum_cases_color_correction @
    enum_cases_control_1 @
    enum_cases_control_2 @
    enum_cases_control_3 @
    enum_cases_control_4 @
    enum_cases_demosaic @
    enum_cases_edge @
    enum_cases_flash @
    enum_cases_flash_info @
    enum_cases_hot_pixel @
    enum_cases_jpeg @
    enum_cases_lens @
    enum_cases_lens_info @
    enum_cases_noise_reduction @
    enum_cases_quirks @
    enum_cases_request @
    enum_cases_scaler @
    enum_cases_sensor_1 @
    enum_cases_sensor_2 @
    enum_cases_sensor_info @
    enum_cases_shading @
    enum_cases_statistics @
    enum_cases_statistics_info @
    enum_cases_tonemap @
    enum_cases_led @
    enum_cases_info @
    enum_cases_black_level @
    enum_cases_sync @
    enum_cases_reprocess @
    enum_cases_depth"

lemmas enum_cases_defs =
  enum_cases_color_correction_def enum_cases_control_1_def enum_cases_control_2_def
  enum_cases_control_3_def enum_cases_control_4_def enum_cases_demosaic_def enum_cases_edge_def
  enum_cases_flash_def enum_cases_flash_info_def enum_cases_hot_pixel_def enum_cases_jpeg_def
  enum_cases_lens_def enum_cases_lens_info_def enum_cases_noise_reduction_def
  enum_cases_quirks_def enum_cases_request_def enum_cases_scaler_def enum_cases_sensor_1_def
  enum_cases_sensor_2_def enum_cases_sensor_info_def enum_cases_shading_def
  enum_cases_statistics_def enum_cases_statistics_info_def enum_cases_tonemap_def
  enum_cases_led_def enum_cases_info_def enum_cases_black_level_def enum_cases_sync_def
  enum_cases_reprocess_def enum_cases_depth_def

section \<open>\<open>camera_metadata_enum_snprint\<close>\<close>

abbreviation NUL :: char where
  "NUL \<equiv> CHR 0x00"

text \<open>\<open>strncpy (dst, src, n)\<close>: at most \<open>n\<close> characters, padded with NUL up to \<open>n\<close>.\<close>

definition strncpy :: "string \<Rightarrow> string \<Rightarrow> nat \<Rightarrow> string option" where
  "strncpy dst src n = mem_write 0 (take n src @ replicate (n - length src) NUL) dst"

text \<open>The message and the return value the two switches select.\<close>

definition enum_message :: "u32 \<Rightarrow> u32 \<Rightarrow> string \<times> int" where
  "enum_message tag value =
     (case map_of enum_cases_all tag of
        None \<Rightarrow> (''error: not an enum'', -1)
      | Some None \<Rightarrow> (''error: not an enum'', -1)
      | Some (Some vs) \<Rightarrow>
          (case map_of vs value of
             None \<Rightarrow> (''error: enum value out of range'', -1)
           | Some msg \<Rightarrow> (msg, 0)))"

definition camera_metadata_enum_snprint ::
    "u32 \<Rightarrow> u32 \<Rightarrow> string \<Rightarrow> u64 \<Rightarrow> (int \<times> string) exec" where
  "camera_metadata_enum_snprint tag value dst sz =
     (case enum_message tag value of (msg, ret) \<Rightarrow>
        bindE (deref (strncpy dst msg (unat (sz - 1)))) (\<lambda>dst.
        bindE (deref (mem_write (unat (sz - 1)) [NUL] dst)) (\<lambda>dst.
        Ret (ret, dst))))"

definition CAMERA_METADATA_ENUM_STRING_MAX_SIZE :: u64 where
  "CAMERA_METADATA_ENUM_STRING_MAX_SIZE = 29"

section \<open>The tables of cases\<close>

text \<open>The labels of the outer switch are the declared tags, in order.\<close>

lemma section_table_lengths:
  "map length tag_info = [5, 39, 1, 3, 6, 2, 2, 10, 12, 8, 3, 5, 16, 14, 27, 11, 3, 17, 8, 8, 2, 1, 1, 2, 2, 5]"
  by (simp add: tag_info_def tag_table_defs tag_consts)

lemma enum_case_labels:
  "map (unat \<circ> fst) enum_cases_all =
     concat (map2 (\<lambda>s n. map (\<lambda>i. s * 65536 + i) [0..<n]) [0..<26] (map length tag_info))"
proof -
  have "concat (map2 (\<lambda>s n. map (\<lambda>i. s * 65536 + i) [0..<n]) [0..<26] (map length tag_info)) =
      map (unat \<circ> fst) enum_cases_all"
    unfolding section_table_lengths upt_26
    by (simp del: upt_Suc, simp add: upt_rec,
        simp add: enum_cases_all_def enum_cases_defs tag_consts)
  then show ?thesis ..
qed

text \<open>
  A row is well formed when its labels and its names are distinct (so the names determine
  the values) and every name fits the buffer that \<open>print_data\<close> declares for it.
\<close>

definition enum_row_ok :: "u32 \<times> (u32 \<times> string) list option \<Rightarrow> bool" where
  "enum_row_ok row = (case snd row of None \<Rightarrow> True
     | Some vs \<Rightarrow> distinct (map fst vs) \<and> distinct (map snd vs) \<and>
         list_all (\<lambda>v. length (snd v) \<le> 28 \<and> \<not> List.member (snd v) NUL) vs)"

lemma enum_rows_ok: "list_all enum_row_ok enum_cases_all"
  by (simp add: enum_cases_all_def enum_cases_defs enum_row_ok_def enumerator_defs)

lemma enum_case_row_ok: "map_of enum_cases_all tag = Some (Some vs) \<Longrightarrow> enum_row_ok (tag, Some vs)"
  using enum_rows_ok by (auto simp: list_all_iff dest: map_of_SomeD)

lemma enum_message_0_iff:
  "enum_message tag value = (msg, 0) \<longleftrightarrow>
     (\<exists>vs. map_of enum_cases_all tag = Some (Some vs) \<and> map_of vs value = Some msg)"
  by (auto simp: enum_message_def split: option.splits)

lemma enum_message_fits:
  assumes "enum_message tag value = (msg, 0)"
  shows "length msg \<le> 28" and "NUL \<notin> set msg"
proof -
  from assms obtain vs where vs: "map_of enum_cases_all tag = Some (Some vs)"
    and msg: "(value, msg) \<in> set vs"
    by (auto simp: enum_message_0_iff dest: map_of_SomeD)
  from enum_case_row_ok [OF vs] msg show "length msg \<le> 28" and "NUL \<notin> set msg"
    by (auto simp: enum_row_ok_def list_all_iff)
qed

lemma enum_message_inj:
  assumes "enum_message tag v = (msg, 0)" and "enum_message tag v' = (msg, 0)"
  shows "v = v'"
proof -
  from assms obtain vs where vs: "map_of enum_cases_all tag = Some (Some vs)"
    and "map_of vs v = Some msg" and "map_of vs v' = Some msg"
    by (auto simp: enum_message_0_iff)
  then have "(v, msg) \<in> set vs" and "(v', msg) \<in> set vs"
    by (auto dest: map_of_SomeD)
  moreover from enum_case_row_ok [OF vs] have "inj_on snd (set vs)"
    by (simp add: enum_row_ok_def distinct_map)
  ultimately show ?thesis by (metis inj_onD fst_conv snd_conv)
qed

lemma enum_snprint_eq:
  assumes "sz \<noteq> 0" and "unat sz \<le> length dst" and "enum_message tag value = (msg, ret)"
  shows "camera_metadata_enum_snprint tag value dst sz =
    Ret (ret, take (unat sz - 1) msg @ replicate (unat sz - min (unat sz - 1) (length msg)) NUL @
              drop (unat sz) dst)"
proof -
  define n where "n = unat sz - 1"
  from assms(1) have sz: "unat sz = Suc n"
    by (simp add: n_def unat_gt_0)
  have pred: "unat (sz - 1) = n"
    using assms(1) by (simp add: unat_minus_one n_def)
  let ?body = "take n msg @ replicate (n - length msg) NUL"
  have len: "length ?body = n" by (simp add: min_def)
  have w1: "strncpy dst msg n = Some (?body @ drop n dst)"
    using assms(2) sz len by (simp add: strncpy_def mem_write_def)
  have w2: "mem_write n [NUL] (?body @ drop n dst) = Some (?body @ [NUL] @ drop (Suc n) dst)"
    using assms(2) sz len by (auto simp: mem_write_def)
  have "?body @ [NUL] @ drop (Suc n) dst =
      take n msg @ replicate (Suc n - min n (length msg)) NUL @ drop (Suc n) dst"
    by (cases "length msg \<le> n") (simp_all add: min_def Suc_diff_le replicate_append_same)
  with w1 w2 assms(3) show ?thesis
    by (simp add: camera_metadata_enum_snprint_def pred sz)
qed

lemma enum_snprint_prints:
  assumes "29 \<le> length dst" and "camera_metadata_enum_snprint tag v dst 29 = Ret (0, out)"
  shows "enum_message tag v = (takeWhile (\<lambda>c. c \<noteq> NUL) out, 0)"
proof -
  obtain msg ret where m: "enum_message tag v = (msg, ret)" by fastforce
  have "ret = 0" and out: "out = take 28 msg @ replicate (29 - min 28 (length msg)) NUL @ drop 29 dst"
    using assms(2) enum_snprint_eq [OF _ _ m, of 29 dst] assms(1) by simp_all
  with m have fits: "length msg \<le> 28" "NUL \<notin> set msg"
    using enum_message_fits by blast+
  then have "takeWhile (\<lambda>c. c \<noteq> NUL) (msg @ NUL # replicate (28 - length msg) NUL @ drop 29 dst) = msg"
    by (subst takeWhile_append2) auto
  with fits have "takeWhile (\<lambda>c. c \<noteq> NUL) out = msg"
    using replicate_Suc [of "28 - length msg" NUL] by (simp add: out Suc_diff_le [symmetric])
  with m \<open>ret = 0\<close> show ?thesis by simp
qed

section \<open>Properties\<close>

text \<open>
  Printing an enumerator into a buffer of \<open>CAMERA_METADATA_ENUM_STRING_MAX_SIZE\<close> bytes
  never truncates: whenever \<open>camera_metadata_enum_snprint\<close> returns 0, the buffer holds the
  whole name selected by the tables, terminated; and the printed string determines the value:
  two values of one tag that print the same string are equal.
\<close>

theorem enum_snprint_faithful:
  assumes "unat CAMERA_METADATA_ENUM_STRING_MAX_SIZE \<le> length dst"
    and "camera_metadata_enum_snprint tag v dst CAMERA_METADATA_ENUM_STRING_MAX_SIZE = Ret (0, out)"
    and "camera_metadata_enum_snprint tag v' dst CAMERA_METADATA_ENUM_STRING_MAX_SIZE = Ret (0, out')"
  shows "takeWhile (\<lambda>c. c \<noteq> NUL) out = fst (enum_message tag v) \<and>
    (takeWhile (\<lambda>c. c \<noteq> NUL) out = takeWhile (\<lambda>c. c \<noteq> NUL) out' \<longrightarrow> v = v')"
proof -
  have v: "enum_message tag v = (takeWhile (\<lambda>c. c \<noteq> NUL) out, 0)"
    by (rule enum_snprint_prints [of dst])
      (use assms(1,2) in \<open>simp_all add: CAMERA_METADATA_ENUM_STRING_MAX_SIZE_def\<close>)
  have v': "enum_message tag v' = (takeWhile (\<lambda>c. c \<noteq> NUL) out', 0)"
    by (rule enum_snprint_prints [of dst])
      (use assms(1,3) in \<open>simp_all add: CAMERA_METADATA_ENUM_STRING_MAX_SIZE_def\<close>)
  from v v' show ?thesis by (auto intro: enum_message_inj)
qed

lemma enum_message_flash: "enum_message ANDROID_FLASH_MODE 1 = (''SINGLE'', 0)"
  by (simp add: enum_message_def enum_cases_all_def enum_cases_defs tag_consts enumerator_defs)

lemma enum_snprint_flash:
  "camera_metadata_enum_snprint ANDROID_FLASH_MODE 1 (replicate 29 NUL) 29 =
     Ret (0, ''SINGLE'' @ replicate 23 NUL)"
  by (subst enum_snprint_eq [OF _ _ enum_message_flash]) simp_all

theorem enum_snprint_faithful_witness:
  "takeWhile (\<lambda>c. c \<noteq> NUL) (''SINGLE'' @ replicate 23 NUL) = fst (enum_message ANDROID_FLASH_MODE 1)"
proof -
  have "unat CAMERA_METADATA_ENUM_STRING_MAX_SIZE \<le> length (replicate 29 NUL)"
    by (simp add: CAMERA_METADATA_ENUM_STRING_MAX_SIZE_def)
  from enum_snprint_faithful [OF this
      enum_snprint_flash [folded CAMERA_METADATA_ENUM_STRING_MAX_SIZE_def]
      enum_snprint_flash [folded CAMERA_METADATA_ENUM_STRING_MAX_SIZE_def]]
  show ?thesis by blast
qed

lemma declared_iff:
  "declared tag \<longleftrightarrow> (\<exists>s<26. \<exists>i<length (tag_info ! s). unat tag = s * 65536 + i)"
proof
  assume d: "declared tag"
  then show "\<exists>s<26. \<exists>i<length (tag_info ! s). unat tag = s * 65536 + i"
    using declared_in_table [OF d] tag_section_split by blast
next
  assume "\<exists>s<26. \<exists>i<length (tag_info ! s). unat tag = s * 65536 + i"
  then obtain s i where s: "s < 26" and i: "i < length (tag_info ! s)"
    and tag: "unat tag = s * 65536 + i" by blast
  from section_ok_all [OF s]
  have b: "unat (snd (camera_metadata_section_bounds ! s)) = s * 65536 + length (tag_info ! s)"
    and l: "length (tag_info ! s) < 65536"
    by (simp_all add: section_ok_def)
  have sec: "unat (drop_bit 16 tag) = s"
    using tag i l by (simp add: drop_bit_eq_div unat_div)
  show "declared tag"
    unfolding declared_def sec not_le word_less_nat_alt
    using s sec tag i b by (simp add: ANDROID_SECTION_COUNT_def)
qed

lemma enum_label_iff:
  "tag \<in> fst ` set enum_cases_all \<longleftrightarrow>
     (\<exists>s<26. \<exists>i<length (tag_info ! s). unat tag = s * 65536 + i)"
proof -
  have zip_tables: "zip [0..<26] (map length tag_info) = map (\<lambda>s. (s, length (tag_info ! s))) [0..<26]"
    by (rule nth_equalityI) auto
  have "tag \<in> fst ` set enum_cases_all \<longleftrightarrow> unat tag \<in> set (map (unat \<circ> fst) enum_cases_all)"
    unfolding set_map image_comp [symmetric] by (rule inj_image_mem_iff [symmetric]) simp
  also have "\<dots> \<longleftrightarrow> (\<exists>s<26. \<exists>i<length (tag_info ! s). unat tag = s * 65536 + i)"
    unfolding enum_case_labels zip_tables by (auto simp: ex_offset_iff Bex_def)
  finally show ?thesis .
qed

text \<open>
  The outer switch of \<open>camera_metadata_enum_snprint\<close> has a case for a tag exactly when
  the section tables of \<open>camera_metadata_tag_info.c\<close> declare the tag.
\<close>

theorem enum_snprint_covers_tags:
  "map_of enum_cases_all tag \<noteq> None \<longleftrightarrow> declared tag"
  by (simp only: map_of_eq_None_iff not_not enum_label_iff declared_iff)

end
