(* ===== verification/Metadata_Packet.thy ===== *)
theory Metadata_Packet
  imports Tag_Tables
begin

text \<open>
  The metadata packet of \<open>camera_metadata.c\<close>: its header and entry records, the size
  arithmetic, the layout of a fresh packet (\<open>place_camera_metadata\<close>), structural validation
  and the reading of raw buffers.

  A packet is one block of memory: the header, the array of entry slots at
  \<open>entries_start\<close> and the data bytes at \<open>data_start\<close>.  The record keeps the header fields at
  their C widths, the address of the block, the slots and the data bytes.  The two regions
  are separate lists, as the layout places them; an access beyond a region is a \<open>Fault\<close>.
\<close>

section \<open>Constants\<close>

abbreviation OK :: int where
  "OK \<equiv> 0"

abbreviation ERROR :: int where
  "ERROR \<equiv> 1"

abbreviation NOT_FOUND :: int where
  "NOT_FOUND \<equiv> - 2"

definition ENTRY_ALIGNMENT :: u64 where
  "ENTRY_ALIGNMENT = 4"

definition METADATA_ALIGNMENT :: u64 where
  "METADATA_ALIGNMENT = 4"

definition DATA_ALIGNMENT :: u64 where
  "DATA_ALIGNMENT = 8"

definition MAX_ALIGNMENT :: "u64 \<Rightarrow> u64 \<Rightarrow> u64" where
  "MAX_ALIGNMENT A B = (if A > B then A else B)"

definition METADATA_PACKET_ALIGNMENT :: u64 where
  "METADATA_PACKET_ALIGNMENT =
     MAX_ALIGNMENT (MAX_ALIGNMENT DATA_ALIGNMENT METADATA_ALIGNMENT) ENTRY_ALIGNMENT"

definition CURRENT_METADATA_VERSION :: u32 where
  "CURRENT_METADATA_VERSION = 1"

definition FLAG_SORTED :: u32 where
  "FLAG_SORTED = 0x00000001"

lemmas alignment_defs [c_defs] =
  ENTRY_ALIGNMENT_def METADATA_ALIGNMENT_def DATA_ALIGNMENT_def

text \<open>\<open>sizeof (camera_metadata_t)\<close> and \<open>sizeof (camera_metadata_buffer_entry_t)\<close>.\<close>

definition sizeof_camera_metadata_t :: u64 where
  "sizeof_camera_metadata_t = 36"

definition sizeof_buffer_entry :: u64 where
  "sizeof_buffer_entry = 16"

lemmas sizeof_defs [c_defs] = sizeof_camera_metadata_t_def sizeof_buffer_entry_def

section \<open>Records\<close>

text \<open>
  \<open>camera_metadata_buffer_entry_t\<close>.  The union of \<open>offset\<close> and \<open>value[4]\<close> is the 32-bit word
  \<open>be_data\<close>; \<open>value\<close> is its little-endian bytes.
\<close>

record camera_metadata_buffer_entry =
  be_tag :: u32
  be_count :: u32
  be_data :: u32
  be_type :: u8
  be_reserved :: "u8 list"

record camera_metadata =
  md_addr :: u64
  md_size :: u32
  md_version :: u32
  md_flags :: u32
  md_entry_count :: u32
  md_entry_capacity :: u32
  md_entries_start :: u32
  md_data_count :: u32
  md_data_capacity :: u32
  md_data_start :: u32
  md_entries :: "camera_metadata_buffer_entry list"
  md_data :: "u8 list"

text \<open>
  \<open>camera_metadata_entry_t\<close>, the entry handed to clients.  Its data pointer points either
  into the data bytes or into the union of the entry slot itself.
\<close>

datatype md_pointer = In_data nat | In_slot nat

record camera_metadata_entry =
  en_index :: u64
  en_tag :: u32
  en_type :: u8
  en_count :: u64
  en_data :: md_pointer

section \<open>Sizes\<close>

definition camera_metadata_type_size :: "u64 list" where
  "camera_metadata_type_size = designated 0 (unat NUM_TYPES)
     [(unat TYPE_BYTE, 1), (unat TYPE_INT32, 4), (unat TYPE_FLOAT, 4),
      (unat TYPE_INT64, 8), (unat TYPE_DOUBLE, 8), (unat TYPE_RATIONAL, 8)]"

definition camera_metadata_type_names :: "string option list" where
  "camera_metadata_type_names = designated None (unat NUM_TYPES)
     [(unat TYPE_BYTE, Some ''byte''), (unat TYPE_INT32, Some ''int32''),
      (unat TYPE_FLOAT, Some ''float''), (unat TYPE_INT64, Some ''int64''),
      (unat TYPE_DOUBLE, Some ''double''), (unat TYPE_RATIONAL, Some ''rational'')]"

definition get_camera_metadata_alignment :: u64 where
  "get_camera_metadata_alignment = METADATA_PACKET_ALIGNMENT"

definition calculate_camera_metadata_size :: "u64 \<Rightarrow> u64 \<Rightarrow> u64" where
  "calculate_camera_metadata_size entry_count data_count =
     (let memory_needed = sizeof_camera_metadata_t;
          memory_needed = ALIGN_TO memory_needed ENTRY_ALIGNMENT;
          memory_needed = memory_needed + sizeof_buffer_entry * entry_count;
          memory_needed = ALIGN_TO memory_needed DATA_ALIGNMENT;
          memory_needed = memory_needed + data_count
      in memory_needed)"

text \<open>The guard keeps the index inside \<open>camera_metadata_type_size\<close>.\<close>

definition calculate_camera_metadata_entry_data_size :: "u8 \<Rightarrow> u64 \<Rightarrow> u64" where
  "calculate_camera_metadata_entry_data_size type data_count =
     (if NUM_TYPES \<le> type then 0
      else let data_bytes = data_count * camera_metadata_type_size ! unat type
           in if data_bytes \<le> 4 then 0 else ALIGN_TO data_bytes DATA_ALIGNMENT)"

definition get_camera_metadata_size :: "camera_metadata option \<Rightarrow> u64" where
  "get_camera_metadata_size metadata =
     (case metadata of None \<Rightarrow> 1 | Some m \<Rightarrow> ucast (md_size m))"

definition get_camera_metadata_compact_size :: "camera_metadata option \<Rightarrow> u64" where
  "get_camera_metadata_compact_size metadata =
     (case metadata of None \<Rightarrow> 1
      | Some m \<Rightarrow> calculate_camera_metadata_size (ucast (md_entry_count m)) (ucast (md_data_count m)))"

definition get_camera_metadata_entry_count :: "camera_metadata option \<Rightarrow> u64 exec" where
  "get_camera_metadata_entry_count metadata = bindE (deref metadata) (\<lambda>m. Ret (ucast (md_entry_count m)))"

definition get_camera_metadata_entry_capacity :: "camera_metadata option \<Rightarrow> u64 exec" where
  "get_camera_metadata_entry_capacity metadata = bindE (deref metadata) (\<lambda>m. Ret (ucast (md_entry_capacity m)))"

definition get_camera_metadata_data_count :: "camera_metadata option \<Rightarrow> u64 exec" where
  "get_camera_metadata_data_count metadata = bindE (deref metadata) (\<lambda>m. Ret (ucast (md_data_count m)))"

definition get_camera_metadata_data_capacity :: "camera_metadata option \<Rightarrow> u64 exec" where
  "get_camera_metadata_data_capacity metadata = bindE (deref metadata) (\<lambda>m. Ret (ucast (md_data_capacity m)))"

section \<open>Addresses\<close>

text \<open>\<open>get_entries\<close> and \<open>get_data\<close> as addresses; \<open>&entries[i]\<close> is \<open>slot_addr\<close>.\<close>

definition get_entries :: "camera_metadata \<Rightarrow> u64" where
  "get_entries m = md_addr m + ucast (md_entries_start m)"

definition get_data :: "camera_metadata \<Rightarrow> u64" where
  "get_data m = md_addr m + ucast (md_data_start m)"

definition slot_addr :: "camera_metadata \<Rightarrow> nat \<Rightarrow> u64" where
  "slot_addr m i = get_entries m + sizeof_buffer_entry * of_nat i"

section \<open>Validation\<close>

definition validate_entry ::
    "vendor_tag_ops option \<Rightarrow> camera_metadata \<Rightarrow> nat \<Rightarrow> camera_metadata_buffer_entry \<Rightarrow> int exec" where
  "validate_entry vo m i entry =
     (if slot_addr m i \<noteq> ALIGN_TO (slot_addr m i) ENTRY_ALIGNMENT then Ret ERROR
      else if NUM_TYPES \<le> be_type entry then Ret ERROR
      else let tag_section = drop_bit 16 (be_tag entry) in
        bindE (get_camera_metadata_tag_type vo (be_tag entry)) (\<lambda>tag_type.
        if tag_type \<noteq> uint (be_type entry) \<and> tag_section < VENDOR_SECTION then Ret ERROR
        else let data_size =
               calculate_camera_metadata_entry_data_size (be_type entry) (ucast (be_count entry)) in
          if data_size \<noteq> 0 then
            let data = get_data m + ucast (be_data entry) in
            if data \<noteq> ALIGN_TO data DATA_ALIGNMENT then Ret ERROR
            else let data_entry_end = ucast (be_data entry) + data_size in
              if data_entry_end < ucast (be_data entry) \<or>
                 data_entry_end > ucast (md_data_capacity m) then Ret ERROR
              else Ret OK
          else if be_count entry = 0 then
            (if be_data entry \<noteq> 0 then Ret ERROR else Ret OK)
          else Ret OK))"

fun validate_entries ::
    "vendor_tag_ops option \<Rightarrow> camera_metadata \<Rightarrow> nat \<Rightarrow> nat \<Rightarrow> int exec" where
  "validate_entries vo m i 0 = Ret OK"
| "validate_entries vo m i (Suc n) =
     bindE (array_read (md_entries m) i) (\<lambda>entry.
     bindE (validate_entry vo m i entry) (\<lambda>r.
     if r \<noteq> OK then Ret r else validate_entries vo m (Suc i) n))"

definition validate_camera_metadata_structure ::
    "vendor_tag_ops option \<Rightarrow> camera_metadata option \<Rightarrow> u64 option \<Rightarrow> int exec" where
  "validate_camera_metadata_structure vo metadata expected_size =
     (case metadata of
        None \<Rightarrow> Ret ERROR
      | Some m \<Rightarrow>
          if \<exists>al \<in> set [METADATA_ALIGNMENT, ENTRY_ALIGNMENT, DATA_ALIGNMENT].
               md_addr m \<noteq> ALIGN_TO (md_addr m) al
          then Ret ERROR
          else if (case expected_size of None \<Rightarrow> False | Some n \<Rightarrow> n < ucast (md_size m))
          then Ret ERROR
          else if md_entry_count m > md_entry_capacity m then Ret ERROR
          else let entries_end = md_entries_start m + md_entry_capacity m in
            if entries_end < md_entries_start m \<or> entries_end > md_data_start m then Ret ERROR
            else let data_end = md_data_start m + md_data_capacity m in
              if data_end < md_data_start m \<or> data_end > md_size m then Ret ERROR
              else validate_entries vo m 0 (unat (md_entry_count m)))"

text \<open>\<open>assert (validate_camera_metadata_structure (m, NULL) == OK); return r;\<close>\<close>

definition assert_valid :: "vendor_tag_ops option \<Rightarrow> camera_metadata option \<Rightarrow> 'a \<Rightarrow> 'a exec" where
  "assert_valid vo m r =
     assertE (bindE (validate_camera_metadata_structure vo m None) (\<lambda>s. Ret (s = OK))) (Ret r)"

section \<open>Raw buffers\<close>

text \<open>
  A block of memory is its address and its bytes.  \<open>malloc\<close> belongs to the C library: it is an
  argument of the functions that allocate, and returns \<open>None\<close> for \<open>NULL\<close>.  What a block holds
  before it is written is whatever \<open>malloc\<close> returns.
\<close>

type_synonym block = "u64 \<times> u8 list"
type_synonym allocator = "u64 \<Rightarrow> block option"

definition entry_of_bytes :: "u8 list \<Rightarrow> camera_metadata_buffer_entry" where
  "entry_of_bytes bs =
     \<lparr>be_tag = le_word32 (take 4 bs),
      be_count = le_word32 (take 4 (drop 4 bs)),
      be_data = le_word32 (take 4 (drop 8 bs)),
      be_type = bs ! 12,
      be_reserved = take 3 (drop 13 bs)\<rparr>"

text \<open>The entry slots that lie inside a region, at most \<open>n\<close>.\<close>

fun slots_of_bytes :: "nat \<Rightarrow> u8 list \<Rightarrow> camera_metadata_buffer_entry list" where
  "slots_of_bytes 0 bs = []"
| "slots_of_bytes (Suc n) bs =
     (if length bs < 16 then [] else entry_of_bytes (take 16 bs) # slots_of_bytes n (drop 16 bs))"

definition header_word :: "nat \<Rightarrow> u8 list \<Rightarrow> u32" where
  "header_word i bs = le_word32 (take 4 (drop (4 * i) bs))"

text \<open>The cast \<open>(camera_metadata_t*) buffer\<close>, reading the header and the two regions it names.\<close>

definition metadata_of_block :: "block \<Rightarrow> camera_metadata exec" where
  "metadata_of_block b = (case b of (addr, bs) \<Rightarrow>
     if length bs < unat sizeof_camera_metadata_t then Fault
     else Ret
       \<lparr>md_addr = addr,
        md_size = header_word 0 bs,
        md_version = header_word 1 bs,
        md_flags = header_word 2 bs,
        md_entry_count = header_word 3 bs,
        md_entry_capacity = header_word 4 bs,
        md_entries_start = header_word 5 bs,
        md_data_count = header_word 6 bs,
        md_data_capacity = header_word 7 bs,
        md_data_start = header_word 8 bs,
        md_entries = slots_of_bytes (unat (header_word 4 bs)) (drop (unat (header_word 5 bs)) bs),
        md_data = take (unat (header_word 7 bs)) (drop (unat (header_word 8 bs)) bs)\<rparr>)"

section \<open>Creating packets\<close>

definition place_camera_metadata ::
    "vendor_tag_ops option \<Rightarrow> block option \<Rightarrow> u64 \<Rightarrow> u64 \<Rightarrow> u64 \<Rightarrow> camera_metadata option exec" where
  "place_camera_metadata vo dst dst_size entry_capacity data_capacity =
     (case dst of
        None \<Rightarrow> Ret None
      | Some (addr, bs) \<Rightarrow>
          let memory_needed = calculate_camera_metadata_size entry_capacity data_capacity in
          if memory_needed > dst_size then Ret None
          else if length bs < unat sizeof_camera_metadata_t then Fault
          else
            let entries_start = ucast (ALIGN_TO sizeof_camera_metadata_t ENTRY_ALIGNMENT) :: u32;
                cap = ucast entry_capacity :: u32;
                data_unaligned = ucast entries_start + sizeof_buffer_entry * ucast cap :: u64;
                data_start = ucast (ALIGN_TO data_unaligned DATA_ALIGNMENT) :: u32;
                m = \<lparr>md_addr = addr,
                     md_size = ucast memory_needed,
                     md_version = CURRENT_METADATA_VERSION,
                     md_flags = 0,
                     md_entry_count = 0,
                     md_entry_capacity = cap,
                     md_entries_start = entries_start,
                     md_data_count = 0,
                     md_data_capacity = ucast data_capacity,
                     md_data_start = data_start,
                     md_entries = slots_of_bytes (unat cap) (drop (unat entries_start) bs),
                     md_data = take (unat (ucast data_capacity :: u32)) (drop (unat data_start) bs)\<rparr>
            in assert_valid vo (Some m) (Some m))"

definition allocate_camera_metadata ::
    "vendor_tag_ops option \<Rightarrow> allocator \<Rightarrow> u64 \<Rightarrow> u64 \<Rightarrow> camera_metadata option exec" where
  "allocate_camera_metadata vo malloc entry_capacity data_capacity =
     (let memory_needed = calculate_camera_metadata_size entry_capacity data_capacity in
      place_camera_metadata vo (malloc memory_needed) memory_needed entry_capacity data_capacity)"

definition allocate_copy_camera_metadata_checked ::
    "vendor_tag_ops option \<Rightarrow> allocator \<Rightarrow> block option \<Rightarrow> u64 \<Rightarrow> camera_metadata option exec" where
  "allocate_copy_camera_metadata_checked vo malloc src src_size =
     (case src of
        None \<Rightarrow> Ret None
      | Some (_, bytes) \<Rightarrow>
          bindE (deref (malloc src_size)) (\<lambda>(addr, buffer).
          bindE (deref (memcpy 0 bytes (unat src_size) buffer)) (\<lambda>buffer.
          bindE (metadata_of_block (addr, buffer)) (\<lambda>metadata.
          bindE (validate_camera_metadata_structure vo (Some metadata) (Some src_size)) (\<lambda>r.
          Ret (if r \<noteq> OK then None else Some metadata))))))"

definition copy_camera_metadata ::
    "vendor_tag_ops option \<Rightarrow> block option \<Rightarrow> u64 \<Rightarrow> camera_metadata option \<Rightarrow>
     camera_metadata option exec" where
  "copy_camera_metadata vo dst dst_size src =
     (let memory_needed = get_camera_metadata_compact_size src in
      if dst = None then Ret None
      else if dst_size < memory_needed then Ret None
      else
        bindE (deref src) (\<lambda>s.
        bindE (place_camera_metadata vo dst dst_size (ucast (md_entry_count s)) (ucast (md_data_count s)))
          (\<lambda>placed.
        bindE (deref placed) (\<lambda>m.
        let m = m\<lparr>md_flags := md_flags s,
                  md_entry_count := md_entry_count s,
                  md_data_count := md_data_count s\<rparr> in
        bindE (deref (memcpy 0 (md_entries s) (unat (md_entry_count m)) (md_entries m))) (\<lambda>es.
        bindE (deref (memcpy 0 (md_data s) (unat (md_data_count m)) (md_data m))) (\<lambda>bs.
        let m = m\<lparr>md_entries := es, md_data := bs\<rparr> in
        assert_valid vo (Some m) (Some m)))))))"

end
