(* ===== verification/Metadata_Ops.thy ===== *)
theory Metadata_Ops
  imports Metadata_Packet
begin

text \<open>
  The operations of \<open>camera_metadata.c\<close> on a packet: appending and cloning, adding, sorting,
  reading, finding, deleting and updating entries.  Every operation that writes takes the
  packet and returns the C status with the packet afterwards; the closing \<open>assert\<close> of each
  operation is part of its definition.  Logging is left out.
\<close>

section \<open>Append and clone\<close>

text \<open>The pointer adjustment loop of \<open>append_camera_metadata\<close>, on one entry.\<close>

definition shift_offset_up :: "u32 \<Rightarrow> camera_metadata_buffer_entry \<Rightarrow> camera_metadata_buffer_entry" where
  "shift_offset_up n entry =
     (if calculate_camera_metadata_entry_data_size (be_type entry) (ucast (be_count entry)) > 0
      then entry\<lparr>be_data := be_data entry + n\<rparr> else entry)"

definition append_camera_metadata ::
    "vendor_tag_ops option \<Rightarrow> camera_metadata option \<Rightarrow> camera_metadata option \<Rightarrow>
     (int \<times> camera_metadata option) exec" where
  "append_camera_metadata vo dst src =
     (case (dst, src) of
        (Some d, Some s) \<Rightarrow>
          if md_entry_capacity d < md_entry_count s + md_entry_count d then Ret (ERROR, dst)
          else if md_data_capacity d < md_data_count s + md_data_count d then Ret (ERROR, dst)
          else
            bindE (deref (memcpy (unat (md_entry_count d)) (md_entries s) (unat (md_entry_count s))
              (md_entries d))) (\<lambda>es.
            bindE (deref (memcpy (unat (md_data_count d)) (md_data s) (unat (md_data_count s))
              (md_data d))) (\<lambda>bs.
            let k = unat (md_entry_count d); n = unat (md_entry_count s);
                es = (if md_data_count d \<noteq> 0
                      then take k es @ map (shift_offset_up (md_data_count d)) (take n (drop k es)) @
                           drop (k + n) es
                      else es);
                flags = (if md_entry_count d = 0 then md_flags d OR (md_flags s AND FLAG_SORTED)
                         else if md_entry_count s \<noteq> 0 then md_flags d AND NOT FLAG_SORTED
                         else md_flags d);
                d = d\<lparr>md_entries := es, md_data := bs, md_flags := flags,
                      md_entry_count := md_entry_count d + md_entry_count s,
                      md_data_count := md_data_count d + md_data_count s\<rparr>
            in assert_valid vo (Some d) (OK, Some d)))
      | _ \<Rightarrow> Ret (ERROR, dst))"

definition clone_camera_metadata ::
    "vendor_tag_ops option \<Rightarrow> allocator \<Rightarrow> camera_metadata option \<Rightarrow> camera_metadata option exec" where
  "clone_camera_metadata vo malloc src =
     (if src = None then Ret None
      else
        bindE (get_camera_metadata_entry_count src) (\<lambda>entries.
        bindE (get_camera_metadata_data_count src) (\<lambda>data.
        bindE (allocate_camera_metadata vo malloc entries data) (\<lambda>clone.
        bindE (if clone \<noteq> None
               then bindE (append_camera_metadata vo clone src) (\<lambda>(res, clone).
                    Ret (if res \<noteq> OK then None else clone))
               else Ret clone) (\<lambda>clone.
        assert_valid vo clone clone)))))"

section \<open>Adding entries\<close>

text \<open>
  \<open>data\<close> is the caller's array: the bytes readable at the pointer, \<open>None\<close> for \<open>NULL\<close>.  The
  union written by \<open>memcpy (entry->data.value, ...)\<close> is overwritten from its first byte.
\<close>

definition write_value :: "u8 list \<Rightarrow> nat \<Rightarrow> u32 \<Rightarrow> u32 option" where
  "write_value data n w = map_option le_word32 (memcpy 0 data n (le_bytes32 w))"

definition add_camera_metadata_entry_raw ::
    "vendor_tag_ops option \<Rightarrow> camera_metadata option \<Rightarrow> u32 \<Rightarrow> u8 \<Rightarrow> u8 list option \<Rightarrow> u64 \<Rightarrow>
     (int \<times> camera_metadata option) exec" where
  "add_camera_metadata_entry_raw vo dst tag type data data_count =
     (case (dst, data) of
        (None, _) \<Rightarrow> Ret (ERROR, dst)
      | (Some d, _) \<Rightarrow>
          if md_entry_count d = md_entry_capacity d then Ret (ERROR, dst)
          else case data of None \<Rightarrow> Ret (ERROR, dst)
          | Some bytes \<Rightarrow>
            let data_bytes = calculate_camera_metadata_entry_data_size type data_count in
            if data_bytes + ucast (md_data_count d) > ucast (md_data_capacity d) then Ret (ERROR, dst)
            else
              bindE (array_read camera_metadata_type_size (unat type)) (\<lambda>type_size.
              let data_payload_bytes = unat (data_count * type_size);
                  i = unat (md_entry_count d) in
              bindE (array_read (md_entries d) i) (\<lambda>_.
              let entry = \<lparr>be_tag = tag, be_count = ucast data_count, be_data = 0, be_type = type,
                           be_reserved = [0, 0, 0]\<rparr> in
              bindE (if data_bytes = 0
                     then bindE (deref (write_value bytes data_payload_bytes (be_data entry))) (\<lambda>w.
                       Ret (d\<lparr>md_entries := (md_entries d)[i := entry\<lparr>be_data := w\<rparr>]\<rparr>))
                     else let entry = entry\<lparr>be_data := md_data_count d\<rparr> in
                       bindE (deref (memcpy (unat (be_data entry)) bytes data_payload_bytes (md_data d)))
                         (\<lambda>bs.
                       Ret (d\<lparr>md_entries := (md_entries d)[i := entry], md_data := bs,
                              md_data_count := ucast (ucast (md_data_count d) + data_bytes)\<rparr>)))
                (\<lambda>d.
              let d = d\<lparr>md_entry_count := md_entry_count d + 1,
                        md_flags := md_flags d AND NOT FLAG_SORTED\<rparr>
              in assert_valid vo (Some d) (OK, Some d)))))"

definition add_camera_metadata_entry ::
    "vendor_tag_ops option \<Rightarrow> camera_metadata option \<Rightarrow> u32 \<Rightarrow> u8 list option \<Rightarrow> u64 \<Rightarrow>
     (int \<times> camera_metadata option) exec" where
  "add_camera_metadata_entry vo dst tag data data_count =
     bindE (get_camera_metadata_tag_type vo tag) (\<lambda>type.
     if type = -1 then Ret (ERROR, dst)
     else add_camera_metadata_entry_raw vo dst tag (word_of_int type) data data_count)"

section \<open>Sorting\<close>

definition compare_entry_tags ::
    "camera_metadata_buffer_entry \<Rightarrow> camera_metadata_buffer_entry \<Rightarrow> int" where
  "compare_entry_tags p1 p2 =
     (let tag1 = be_tag p1; tag2 = be_tag p2 in
      if tag1 < tag2 then -1 else if tag1 = tag2 then 0 else 1)"

text \<open>
  The C library's \<open>qsort\<close>: insertion by the comparison function.  ISO C leaves the order of
  equal elements open; the clients below rely only on what \<open>sorting_routine\<close> states of it.
\<close>

fun qsort_insert :: "('a \<Rightarrow> 'a \<Rightarrow> int) \<Rightarrow> 'a \<Rightarrow> 'a list \<Rightarrow> 'a list" where
  "qsort_insert cmp x [] = [x]"
| "qsort_insert cmp x (y # ys) = (if cmp x y \<le> 0 then x # y # ys else y # qsort_insert cmp x ys)"

fun qsort :: "('a \<Rightarrow> 'a \<Rightarrow> int) \<Rightarrow> 'a list \<Rightarrow> 'a list" where
  "qsort cmp [] = []"
| "qsort cmp (x # xs) = qsort_insert cmp x (qsort cmp xs)"

definition sort_camera_metadata ::
    "vendor_tag_ops option \<Rightarrow> camera_metadata option \<Rightarrow> (int \<times> camera_metadata option) exec" where
  "sort_camera_metadata vo dst =
     (case dst of
        None \<Rightarrow> Ret (ERROR, dst)
      | Some d \<Rightarrow>
          if md_flags d AND FLAG_SORTED \<noteq> 0 then Ret (OK, dst)
          else
            let n = unat (md_entry_count d) in
            if length (md_entries d) < n then Fault
            else
              let d = d\<lparr>md_entries := qsort compare_entry_tags (take n (md_entries d)) @ drop n (md_entries d),
                        md_flags := md_flags d OR FLAG_SORTED\<rparr>
              in assert_valid vo (Some d) (OK, Some d))"

section \<open>Reading and finding entries\<close>

text \<open>The \<open>entry\<close> out-parameter: \<open>want\<close> is false when the caller passes \<open>NULL\<close>.\<close>

definition get_camera_metadata_entry ::
    "camera_metadata option \<Rightarrow> u64 \<Rightarrow> bool \<Rightarrow> (int \<times> camera_metadata_entry option) exec" where
  "get_camera_metadata_entry src index want =
     (case src of
        None \<Rightarrow> Ret (ERROR, None)
      | Some s \<Rightarrow>
          if \<not> want then Ret (ERROR, None)
          else if index \<ge> ucast (md_entry_count s) then Ret (ERROR, None)
          else
            bindE (array_read (md_entries s) (unat index)) (\<lambda>buffer_entry.
            bindE (array_read camera_metadata_type_size (unat (be_type buffer_entry))) (\<lambda>type_size.
            Ret (OK, Some
              \<lparr>en_index = index,
               en_tag = be_tag buffer_entry,
               en_type = be_type buffer_entry,
               en_count = ucast (be_count buffer_entry),
               en_data = (if ucast (be_count buffer_entry) * type_size > 4
                          then In_data (unat (be_data buffer_entry)) else In_slot (unat index))\<rparr>))))"

definition get_camera_metadata_ro_entry ::
    "camera_metadata option \<Rightarrow> u64 \<Rightarrow> bool \<Rightarrow> (int \<times> camera_metadata_entry option) exec" where
  "get_camera_metadata_ro_entry src index want = get_camera_metadata_entry src index want"

text \<open>The bytes behind the data pointer of an entry.\<close>

definition entry_bytes :: "camera_metadata \<Rightarrow> camera_metadata_entry \<Rightarrow> u8 list exec" where
  "entry_bytes m e =
     bindE (array_read camera_metadata_type_size (unat (en_type e))) (\<lambda>type_size.
     let n = unat (en_count e * type_size) in
     case en_data e of
       In_data off \<Rightarrow> deref (mem_read off n (md_data m))
     | In_slot i \<Rightarrow> bindE (array_read (md_entries m) i) (\<lambda>b. deref (mem_read 0 n (le_bytes32 (be_data b)))))"

text \<open>The C library's \<open>bsearch\<close>: the bisection loop over \<open>[l, u)\<close>.\<close>

function bsearch :: "('a \<Rightarrow> int) \<Rightarrow> 'a list \<Rightarrow> nat \<Rightarrow> nat \<Rightarrow> nat option exec" where
  "bsearch cmp base l u =
     (if l < u then
        let idx = (l + u) div 2 in
        if idx < length base then
          let comparison = cmp (base ! idx) in
          if comparison < 0 then bsearch cmp base l idx
          else if comparison > 0 then bsearch cmp base (Suc idx) u
          else Ret (Some idx)
        else Fault
      else Ret None)"
  by pat_completeness auto
termination
  by (relation "measure (\<lambda>(cmp, base, l, u). u - l)") auto

text \<open>The linear search loop, over the \<open>n\<close> entries from \<open>index\<close> on.\<close>

fun linear_search :: "u32 \<Rightarrow> camera_metadata_buffer_entry list \<Rightarrow> nat \<Rightarrow> nat \<Rightarrow> nat option exec" where
  "linear_search tag es index 0 = Ret None"
| "linear_search tag es index (Suc n) =
     bindE (array_read es index) (\<lambda>e.
     if be_tag e = tag then Ret (Some index) else linear_search tag es (Suc index) n)"

definition find_camera_metadata_entry ::
    "camera_metadata option \<Rightarrow> u32 \<Rightarrow> bool \<Rightarrow> (int \<times> camera_metadata_entry option) exec" where
  "find_camera_metadata_entry src tag want =
     (case src of
        None \<Rightarrow> Ret (ERROR, None)
      | Some s \<Rightarrow>
          bindE (if md_flags s AND FLAG_SORTED \<noteq> 0
                 then bsearch (\<lambda>e. compare_entry_tags (e\<lparr>be_tag := tag\<rparr>) e) (md_entries s) 0
                        (unat (md_entry_count s))
                 else linear_search tag (md_entries s) 0 (unat (md_entry_count s))) (\<lambda>found.
          case found of
            None \<Rightarrow> Ret (NOT_FOUND, None)
          | Some index \<Rightarrow> get_camera_metadata_entry src (of_nat index) want))"

definition find_camera_metadata_ro_entry ::
    "camera_metadata option \<Rightarrow> u32 \<Rightarrow> bool \<Rightarrow> (int \<times> camera_metadata_entry option) exec" where
  "find_camera_metadata_ro_entry src tag want = find_camera_metadata_entry src tag want"

section \<open>Deleting and updating entries\<close>

text \<open>The adjustment loop shared by deletion and update: entries behind \<open>off\<close> move down.\<close>

definition shift_offset_down ::
    "u32 \<Rightarrow> u64 \<Rightarrow> camera_metadata_buffer_entry \<Rightarrow> camera_metadata_buffer_entry" where
  "shift_offset_down off n e =
     (if calculate_camera_metadata_entry_data_size (be_type e) (ucast (be_count e)) > 0 \<and> be_data e > off
      then e\<lparr>be_data := ucast (ucast (be_data e) - n)\<rparr> else e)"

text \<open>
  Removing the data of an entry (\<open>off\<close>, \<open>n\<close> bytes): close the gap in the data bytes and
  adjust the offsets of the first \<open>entry_count\<close> slots.
\<close>

definition remove_data :: "camera_metadata \<Rightarrow> u32 \<Rightarrow> u64 \<Rightarrow> camera_metadata exec" where
  "remove_data d off n =
     (let start = unat off; end = unat off + unat n;
          len = unat (ucast (md_data_count d - off) - n);
          k = unat (md_entry_count d) in
      bindE (deref (memmove start end len (md_data d))) (\<lambda>bs.
      if length (md_entries d) < k then Fault
      else Ret (d\<lparr>md_data := bs,
                  md_entries := map (shift_offset_down off n) (take k (md_entries d)) @ drop k (md_entries d),
                  md_data_count := ucast (ucast (md_data_count d) - n)\<rparr>)))"

definition delete_camera_metadata_entry ::
    "vendor_tag_ops option \<Rightarrow> camera_metadata option \<Rightarrow> u64 \<Rightarrow> (int \<times> camera_metadata option) exec" where
  "delete_camera_metadata_entry vo dst index =
     (case dst of
        None \<Rightarrow> Ret (ERROR, dst)
      | Some d \<Rightarrow>
          if index \<ge> ucast (md_entry_count d) then Ret (ERROR, dst)
          else
            bindE (array_read (md_entries d) (unat index)) (\<lambda>entry.
            let data_bytes = calculate_camera_metadata_entry_data_size (be_type entry) (ucast (be_count entry)) in
            bindE (if data_bytes > 0 then remove_data d (be_data entry) data_bytes else Ret d) (\<lambda>d.
            bindE (deref (memmove (unat index) (Suc (unat index))
              (unat (ucast (md_entry_count d) - index - 1)) (md_entries d))) (\<lambda>es.
            let d = d\<lparr>md_entries := es, md_entry_count := md_entry_count d - 1\<rparr>
            in assert_valid vo (Some d) (OK, Some d)))))"

text \<open>
  The part of \<open>update_camera_metadata_entry\<close> that moves the old value out of the data bytes
  and the new value in.
\<close>

definition update_entry_data ::
    "camera_metadata \<Rightarrow> u64 \<Rightarrow> u8 list \<Rightarrow> nat \<Rightarrow> u64 \<Rightarrow> u64 \<Rightarrow> camera_metadata exec" where
  "update_entry_data d index bytes data_payload_bytes data_bytes old_bytes =
     (let entry = md_entries d ! unat index in
      if data_bytes \<noteq> old_bytes then
        bindE (if old_bytes \<noteq> 0 then remove_data d (be_data entry) old_bytes else Ret d) (\<lambda>d.
        if data_bytes \<noteq> 0 then
          bindE (deref (memcpy (unat (md_data_count d)) bytes data_payload_bytes (md_data d))) (\<lambda>bs.
          Ret (d\<lparr>md_entries := (md_entries d)[unat index :=
                   (md_entries d ! unat index)\<lparr>be_data := md_data_count d\<rparr>],
                 md_data := bs,
                 md_data_count := ucast (ucast (md_data_count d) + data_bytes)\<rparr>))
        else Ret d)
      else if data_bytes \<noteq> 0 then
        bindE (deref (memcpy (unat (be_data entry)) bytes data_payload_bytes (md_data d))) (\<lambda>bs.
        Ret (d\<lparr>md_data := bs\<rparr>))
      else Ret d)"

text \<open>The part that writes the slot: a small value in place, and the count.\<close>

definition update_entry_slot ::
    "camera_metadata \<Rightarrow> u64 \<Rightarrow> u8 list \<Rightarrow> nat \<Rightarrow> u64 \<Rightarrow> u64 \<Rightarrow> camera_metadata exec" where
  "update_entry_slot d index bytes data_payload_bytes data_bytes data_count =
     bindE (if data_bytes = 0 then
              bindE (deref (write_value bytes data_payload_bytes (be_data (md_entries d ! unat index)))) (\<lambda>w.
              Ret (d\<lparr>md_entries := (md_entries d)[unat index :=
                       (md_entries d ! unat index)\<lparr>be_data := w\<rparr>]\<rparr>))
            else Ret d) (\<lambda>d.
     Ret (d\<lparr>md_entries := (md_entries d)[unat index :=
              (md_entries d ! unat index)\<lparr>be_count := ucast data_count\<rparr>]\<rparr>))"

text \<open>
  \<open>update_camera_metadata_entry\<close>; the result also holds the entry written through
  \<open>updated_entry\<close> when the caller passes one (\<open>want\<close>).  The data pointer is not checked
  for \<open>NULL\<close>: copying bytes from it faults.
\<close>

definition update_camera_metadata_entry ::
    "vendor_tag_ops option \<Rightarrow> camera_metadata option \<Rightarrow> u64 \<Rightarrow> u8 list option \<Rightarrow> u64 \<Rightarrow> bool \<Rightarrow>
     (int \<times> camera_metadata option \<times> camera_metadata_entry option) exec" where
  "update_camera_metadata_entry vo dst index data data_count want =
     (case dst of
        None \<Rightarrow> Ret (ERROR, dst, None)
      | Some d \<Rightarrow>
          if index \<ge> ucast (md_entry_count d) then Ret (ERROR, dst, None)
          else
            bindE (array_read (md_entries d) (unat index)) (\<lambda>entry.
            let bytes = (case data of None \<Rightarrow> [] | Some bs \<Rightarrow> bs);
                data_bytes = calculate_camera_metadata_entry_data_size (be_type entry) data_count in
            bindE (array_read camera_metadata_type_size (unat (be_type entry))) (\<lambda>type_size.
            let data_payload_bytes = unat (data_count * type_size);
                old_bytes = calculate_camera_metadata_entry_data_size (be_type entry) (ucast (be_count entry)) in
            if data_bytes \<noteq> old_bytes \<and>
               ucast (md_data_capacity d) < ucast (md_data_count d) + data_bytes - old_bytes
            then Ret (ERROR, dst, None)
            else
              bindE (update_entry_data d index bytes data_payload_bytes data_bytes old_bytes) (\<lambda>d.
              bindE (update_entry_slot d index bytes data_payload_bytes data_bytes data_count) (\<lambda>d.
              bindE (if want then bindE (get_camera_metadata_entry (Some d) index True) (\<lambda>(_, e). Ret e)
                     else Ret None) (\<lambda>updated.
              assert_valid vo (Some d) (OK, Some d, updated)))))))"

end
