(* ===== verification/Metadata_Inv.thy ===== *)
theory Metadata_Inv
  imports Metadata_Ops
begin

text \<open>
  What a metadata packet means and what keeps it meaningful: the list of items a packet
  stores (tag, type and value bytes of every live entry), the well-formedness invariant of
  packets built by the library, and the lemmas that the operation proofs share.
\<close>

section \<open>Sizes of entries, as natural numbers\<close>

definition tsize :: "u8 \<Rightarrow> nat" where
  "tsize t = unat (camera_metadata_type_size ! unat t)"

definition round8 :: "nat \<Rightarrow> nat" where
  "round8 n = (n + 7) div 8 * 8"

lemma round8_ge: "n \<le> round8 n"
  unfolding round8_def by linarith

lemma round8_less: "round8 n < n + 8"
  unfolding round8_def by linarith

lemma round8_dvd [simp]: "8 dvd round8 n"
  by (simp add: round8_def)

lemma round8_mono: "m \<le> n \<Longrightarrow> round8 m \<le> round8 n"
  by (simp add: round8_def div_le_mono)

lemma round8_dvd_id: "8 dvd n \<Longrightarrow> round8 n = n"
  unfolding round8_def by presburger

lemma type_size_eq: "camera_metadata_type_size = [1, 4, 4, 8, 8, 8]"
  by (simp add: camera_metadata_type_size_def entry_type_consts designated_in_order upt_rec)

lemma legal_type_cases:
  assumes "t < NUM_TYPES"
  obtains "t = 0" | "t = 1" | "t = 2" | "t = 3" | "t = 4" | "t = 5"
proof -
  have "unat t < 6" using assms by (simp add: NUM_TYPES_def word_less_nat_alt)
  then consider "unat t = 0" | "unat t = 1" | "unat t = 2" | "unat t = 3" | "unat t = 4" | "unat t = 5"
    by linarith
  then show ?thesis
    by cases (use that word_nat_cases word_unat_eq_iff [of t] in \<open>simp_all\<close>)
qed

lemma tsize_pos: "t < NUM_TYPES \<Longrightarrow> 0 < tsize t"
  by (erule legal_type_cases) (simp_all add: tsize_def type_size_eq)

lemma tsize_le: "t < NUM_TYPES \<Longrightarrow> tsize t \<le> 8"
  by (erule legal_type_cases) (simp_all add: tsize_def type_size_eq)

lemma array_read_type_size:
  "t < NUM_TYPES \<Longrightarrow> array_read camera_metadata_type_size (unat t) = Ret (camera_metadata_type_size ! unat t)"
  by (simp add: array_read_def type_size_eq NUM_TYPES_def word_less_nat_alt)

lemma unat_payload:
  assumes "unat n * tsize t < 2 ^ 64"
  shows "unat (n * camera_metadata_type_size ! unat t) = unat n * tsize t"
  using assms by (simp add: tsize_def unat_word_ariths)

text \<open>
  The space an entry of \<open>n\<close> values takes in the data bytes: none when the value fits in the
  four bytes of the slot, otherwise its length rounded up to a multiple of 8.
\<close>

lemma entry_data_size_eq:
  assumes "t < NUM_TYPES" and "unat n * tsize t + 7 < 2 ^ 64"
  shows "unat (calculate_camera_metadata_entry_data_size t n) =
    (if unat n * tsize t \<le> 4 then 0 else round8 (unat n * tsize t))"
proof -
  let ?b = "n * camera_metadata_type_size ! unat t"
  have b: "unat ?b = unat n * tsize t"
    using assms(2) by (intro unat_payload) simp
  have "unat (ALIGN_TO ?b 8) = round8 (unat n * tsize t)"
    using unat_ALIGN_TO [of 8 3 ?b] assms(2) by (simp add: b round8_def)
  moreover have "?b \<le> 4 \<longleftrightarrow> unat n * tsize t \<le> 4"
    by (simp add: word_le_nat_alt b)
  moreover have "\<not> NUM_TYPES \<le> t" using assms(1) by (simp add: not_le)
  ultimately show ?thesis
    by (simp add: calculate_camera_metadata_entry_data_size_def Let_def
        DATA_ALIGNMENT_def)
qed

definition esize :: "camera_metadata_buffer_entry \<Rightarrow> nat" where
  "esize e = unat (calculate_camera_metadata_entry_data_size (be_type e) (ucast (be_count e)))"

definition eplen :: "camera_metadata_buffer_entry \<Rightarrow> nat" where
  "eplen e = unat (be_count e) * tsize (be_type e)"

definition eoff :: "camera_metadata_buffer_entry \<Rightarrow> nat" where
  "eoff e = unat (be_data e)"

lemma unat_u32_less: "unat (w :: u32) < 2 ^ 32"
  using unsigned_less [of w] by simp

lemma unat_ucast_32_64 [simp]: "unat (ucast (w :: u32) :: u64) = unat w"
  using unat_u32_less [of w] by (simp add: unsigned_ucast_eq take_bit_nat_eq_self)

lemma eplen_less: "be_type e < NUM_TYPES \<Longrightarrow> eplen e < 2 ^ 35"
proof -
  assume "be_type e < NUM_TYPES"
  then have "eplen e \<le> unat (be_count e) * 8"
    by (simp add: eplen_def tsize_le)
  also have "\<dots> < 2 ^ 35" using unat_u32_less [of "be_count e"] by simp
  finally show ?thesis .
qed

lemma esize_eq:
  "be_type e < NUM_TYPES \<Longrightarrow> esize e = (if eplen e \<le> 4 then 0 else round8 (eplen e))"
  using entry_data_size_eq [of "be_type e" "ucast (be_count e)"] eplen_less [of e]
  by (simp add: esize_def eplen_def)

lemma esize_dvd: "be_type e < NUM_TYPES \<Longrightarrow> 8 dvd esize e"
  by (simp add: esize_eq)

lemma eplen_le_esize: "be_type e < NUM_TYPES \<Longrightarrow> 0 < esize e \<Longrightarrow> eplen e \<le> esize e"
  using round8_ge [of "eplen e"] by (simp add: esize_eq split: if_splits)

lemma eplen_inline: "be_type e < NUM_TYPES \<Longrightarrow> esize e = 0 \<Longrightarrow> eplen e \<le> 4"
  using round8_ge [of "eplen e"] by (auto simp: esize_eq split: if_splits)

lemma esize_pos_iff: "be_type e < NUM_TYPES \<Longrightarrow> 0 < esize e \<longleftrightarrow> 4 < eplen e"
  using round8_ge [of "eplen e"] by (simp add: esize_eq)

lemma esize_word_pos:
  "0 < calculate_camera_metadata_entry_data_size (be_type e) (ucast (be_count e)) \<longleftrightarrow> 0 < esize e"
  by (simp add: esize_def word_less_nat_alt)

section \<open>The contents of a packet\<close>

definition live :: "camera_metadata \<Rightarrow> camera_metadata_buffer_entry list" where
  "live m = take (unat (md_entry_count m)) (md_entries m)"

definition payload :: "u8 list \<Rightarrow> camera_metadata_buffer_entry \<Rightarrow> u8 list" where
  "payload data e =
     (if 0 < esize e then take (eplen e) (drop (eoff e) data)
      else take (eplen e) (le_bytes32 (be_data e)))"

type_synonym item = "u32 \<times> u8 \<times> u8 list"

definition item_of :: "u8 list \<Rightarrow> camera_metadata_buffer_entry \<Rightarrow> item" where
  "item_of data e = (be_tag e, be_type e, payload data e)"

definition items :: "camera_metadata \<Rightarrow> item list" where
  "items m = map (item_of (md_data m)) (live m)"

text \<open>The data bytes an item takes; what does not fit the slot is padded to a multiple of 8.\<close>

definition item_size :: "item \<Rightarrow> nat" where
  "item_size it = (case it of (tag, t, v) \<Rightarrow> if length v \<le> 4 then 0 else round8 (length v))"

text \<open>
  The abstract state of a packet: its capacities, the data bytes in use, the items it holds
  and whether it is marked as sorted.
\<close>

record md_store =
  st_entry_cap :: nat
  st_data_cap :: nat
  st_used :: nat
  st_items :: "item list"
  st_sorted :: bool

definition abs_packet :: "camera_metadata \<Rightarrow> md_store" where
  "abs_packet m =
     \<lparr>st_entry_cap = unat (md_entry_capacity m),
      st_data_cap = unat (md_data_capacity m),
      st_used = unat (md_data_count m),
      st_items = items m,
      st_sorted = (md_flags m AND FLAG_SORTED \<noteq> 0)\<rparr>"

lemma flag_cleared [simp]: "(w AND NOT FLAG_SORTED) AND FLAG_SORTED = 0"
  by (rule bit_word_eqI) (auto simp: bit_simps)

lemma flag_set [simp]: "(w OR FLAG_SORTED) AND FLAG_SORTED \<noteq> 0"
proof -
  have "(w OR FLAG_SORTED) AND FLAG_SORTED = FLAG_SORTED"
    by (rule bit_word_eqI) (auto simp: bit_simps)
  then show ?thesis by (simp add: FLAG_SORTED_def)
qed

section \<open>Well-formed packets\<close>

text \<open>
  The layout that \<open>place_camera_metadata\<close> produces and no operation changes: an aligned block,
  the slots right behind the header, the data bytes at the next multiple of 8, both inside
  the block.
\<close>

definition layout_ok :: "camera_metadata \<Rightarrow> bool" where
  "layout_ok m \<longleftrightarrow>
     8 dvd unat (md_addr m) \<and>
     md_entries_start m = 36 \<and>
     unat (md_data_start m) = round8 (36 + 16 * unat (md_entry_capacity m)) \<and>
     unat (md_data_start m) + unat (md_data_capacity m) \<le> unat (md_size m) \<and>
     length (md_entries m) = unat (md_entry_capacity m) \<and>
     length (md_data m) = unat (md_data_capacity m)"

definition counts_ok :: "camera_metadata \<Rightarrow> bool" where
  "counts_ok m \<longleftrightarrow>
     unat (md_entry_count m) \<le> unat (md_entry_capacity m) \<and>
     unat (md_data_count m) \<le> unat (md_data_capacity m) \<and>
     8 dvd unat (md_data_count m)"

text \<open>The type of an entry is the one its tag is declared with, vendor tags apart.\<close>

definition type_ok :: "vendor_tag_ops option \<Rightarrow> camera_metadata_buffer_entry \<Rightarrow> bool" where
  "type_ok vo e \<longleftrightarrow> be_type e < NUM_TYPES \<and>
     (get_camera_metadata_tag_type vo (be_tag e) = Ret (uint (be_type e)) \<or>
      VENDOR_SECTION \<le> drop_bit 16 (be_tag e))"

definition place_ok :: "nat \<Rightarrow> camera_metadata_buffer_entry \<Rightarrow> bool" where
  "place_ok n e \<longleftrightarrow>
     (if 0 < esize e then 8 dvd eoff e \<and> eoff e + esize e \<le> n
      else be_count e = 0 \<longrightarrow> be_data e = 0)"

text \<open>Two entries whose values lie in the data bytes do not share bytes.\<close>

definition apart :: "camera_metadata_buffer_entry \<Rightarrow> camera_metadata_buffer_entry \<Rightarrow> bool" where
  "apart e f \<longleftrightarrow> (0 < esize e \<longrightarrow> 0 < esize f \<longrightarrow>
     eoff e + esize e \<le> eoff f \<or> eoff f + esize f \<le> eoff e)"

definition packet_ok :: "vendor_tag_ops option \<Rightarrow> camera_metadata \<Rightarrow> bool" where
  "packet_ok vo m \<longleftrightarrow> layout_ok m \<and> counts_ok m \<and>
     (\<forall>e \<in> set (live m). type_ok vo e \<and> place_ok (unat (md_data_count m)) e) \<and>
     sorted_wrt apart (live m)"

lemma apart_sym: "apart e f = apart f e"
  by (auto simp: apart_def)

lemma packet_okI:
  assumes "layout_ok m" "counts_ok m" "\<And>e. e \<in> set (live m) \<Longrightarrow> type_ok vo e"
    "\<And>e. e \<in> set (live m) \<Longrightarrow> place_ok (unat (md_data_count m)) e" "sorted_wrt apart (live m)"
  shows "packet_ok vo m"
  using assms by (auto simp: packet_ok_def)

lemma packet_okD:
  assumes "packet_ok vo m"
  shows "layout_ok m" "counts_ok m" "\<And>e. e \<in> set (live m) \<Longrightarrow> type_ok vo e"
    "\<And>e. e \<in> set (live m) \<Longrightarrow> be_type e < NUM_TYPES"
    "\<And>e. e \<in> set (live m) \<Longrightarrow> place_ok (unat (md_data_count m)) e" "sorted_wrt apart (live m)"
  using assms by (auto simp: packet_ok_def type_ok_def)

lemma length_live: "layout_ok m \<Longrightarrow> counts_ok m \<Longrightarrow> length (live m) = unat (md_entry_count m)"
  by (simp add: live_def layout_ok_def counts_ok_def)

lemma length_payload:
  assumes "be_type e < NUM_TYPES" "place_ok n e" "n \<le> length data"
  shows "length (payload data e) = eplen e"
  using assms eplen_le_esize [of e] eplen_inline [of e] by (auto simp: payload_def place_ok_def)

lemma item_size_of:
  assumes "be_type e < NUM_TYPES" "place_ok n e" "n \<le> length data"
  shows "item_size (item_of data e) = esize e"
  using length_payload [OF assms] by (simp add: item_size_def item_of_def esize_eq [OF assms(1)])

lemma item_size_live:
  "packet_ok vo m \<Longrightarrow> e \<in> set (live m) \<Longrightarrow> item_size (item_of (md_data m) e) = esize e"
proof -
  assume ok: "packet_ok vo m" and e: "e \<in> set (live m)"
  note okm = packet_okD [OF ok]
  have "unat (md_data_count m) \<le> length (md_data m)"
    using okm(1,2) by (simp add: layout_ok_def counts_ok_def)
  then show ?thesis by (rule item_size_of [OF okm(4,5) [OF e]])
qed

lemma length_items: "length (items m) = length (live m)"
  by (simp add: items_def)

text \<open>The layout bounds the capacities: with 16 bytes a slot, a packet has fewer than \<open>2 ^ 28\<close>.\<close>

lemma layout_capacity: "layout_ok m \<Longrightarrow> unat (md_entry_capacity m) < 2 ^ 28"
  using round8_ge [of "36 + 16 * unat (md_entry_capacity m)"] unat_u32_less [of "md_size m"]
  by (simp add: layout_ok_def)

section \<open>Well-formed packets pass validation\<close>

lemmas dvd4_unat_add = dvd_unat_add [where k = 2, simplified]
lemmas dvd8_unat_add = dvd_unat_add [where k = 3, simplified]
lemmas ALIGN_TO_4_iff = ALIGN_TO_fixed_iff [of 4 2, simplified]
lemmas ALIGN_TO_8_iff = ALIGN_TO_fixed_iff [of 8 3, simplified]

lemma dvd4_slot: "4 dvd unat (36 + 16 * x :: u64)"
proof -
  have "36 + 16 * x = 4 * (9 + 4 * x)" by simp
  then have "unat (36 + 16 * x) = 4 * unat (9 + 4 * x) mod 2 ^ 64"
    by (simp add: unat_word_ariths mod_simps)
  then show ?thesis by (simp add: dvd_mod_iff)
qed

lemma dvd_8_4: "8 dvd n \<Longrightarrow> 4 dvd (n :: nat)"
  by presburger

lemma slot_aligned: "layout_ok m \<Longrightarrow> slot_addr m i = ALIGN_TO (slot_addr m i) 4"
  unfolding ALIGN_TO_4_iff
  by (simp add: slot_addr_def get_entries_def layout_ok_def sizeof_buffer_entry_def
      add.assoc dvd4_unat_add dvd_8_4 dvd4_slot)

lemma data_aligned:
  "layout_ok m \<Longrightarrow> 8 dvd unat (off :: u32) \<Longrightarrow>
   get_data m + ucast off = ALIGN_TO (get_data m + ucast off) 8"
  unfolding ALIGN_TO_8_iff
  by (simp add: get_data_def layout_ok_def add.assoc dvd8_unat_add)

lemma validate_entry_ok:
  assumes m: "layout_ok m" "counts_ok m" and e: "type_ok vo e" "place_ok (unat (md_data_count m)) e"
  shows "validate_entry vo m i e = Ret OK"
proof -
  let ?sz = "calculate_camera_metadata_entry_data_size (be_type e) (ucast (be_count e))"
  obtain t where t: "get_camera_metadata_tag_type vo (be_tag e) = Ret t"
    by (simp add: get_camera_metadata_tag_type_eq)
  have type: "\<not> NUM_TYPES \<le> be_type e" "t = uint (be_type e) \<or> \<not> drop_bit 16 (be_tag e) < VENDOR_SECTION"
    using e(1) t by (auto simp: type_ok_def not_less)
  show ?thesis
  proof (cases "0 < esize e")
    case True
    then have sz: "?sz \<noteq> 0" by (auto simp: esize_def)
    have al: "8 dvd unat (be_data e)" and fits: "unat (be_data e) + unat ?sz \<le> unat (md_data_capacity m)"
      using e(2) True m(2) by (auto simp: place_ok_def eoff_def esize_def counts_ok_def)
    have "unat (ucast (be_data e) + ?sz) = unat (be_data e) + unat ?sz"
      using fits unat_u32_less [of "md_data_capacity m"] by (simp add: unat_word_ariths)
    with fits have "\<not> ucast (be_data e) + ?sz < ucast (be_data e)"
      "\<not> ucast (md_data_capacity m) < ucast (be_data e) + ?sz"
      by (simp_all add: word_less_nat_alt)
    with type sz t show ?thesis
      using slot_aligned [OF m(1), of i] data_aligned [OF m(1) al]
      by (auto simp: validate_entry_def Let_def c_defs)
  next
    case False
    then have "?sz = 0" by (simp add: esize_def unat_eq_0)
    with type t e(2) False show ?thesis
      using slot_aligned [OF m(1), of i]
      by (auto simp: validate_entry_def Let_def c_defs place_ok_def)
  qed
qed

lemma validate_entries_ok:
  assumes "\<And>j. i \<le> j \<Longrightarrow> j < i + n \<Longrightarrow> j < length (md_entries m) \<and> validate_entry vo m j (md_entries m ! j) = Ret OK"
  shows "validate_entries vo m i n = Ret OK"
  using assms
proof (induction n arbitrary: i)
  case (Suc n)
  from Suc.prems [of i] have "i < length (md_entries m)" "validate_entry vo m i (md_entries m ! i) = Ret OK"
    by auto
  moreover have "validate_entries vo m (Suc i) n = Ret OK"
    by (rule Suc.IH) (use Suc.prems in auto)
  ultimately show ?case by (simp add: array_read_def)
qed simp

lemma in_live_nth: "layout_ok m \<Longrightarrow> counts_ok m \<Longrightarrow> i < unat (md_entry_count m) \<Longrightarrow>
    i < length (md_entries m) \<and> md_entries m ! i \<in> set (live m) \<and> live m ! i = md_entries m ! i"
  by (auto simp: live_def layout_ok_def counts_ok_def in_set_conv_nth intro!: exI [of _ i])

theorem validate_packet_ok:
  assumes "packet_ok vo m"
  shows "validate_camera_metadata_structure vo (Some m) None = Ret OK"
proof -
  note ok = packet_okD [OF assms]
  have es: "validate_entries vo m 0 (unat (md_entry_count m)) = Ret OK"
    by (rule validate_entries_ok) (use in_live_nth [OF ok(1,2)] validate_entry_ok [OF ok(1,2)] ok in auto)
  have addr: "md_addr m = ALIGN_TO (md_addr m) 4" "md_addr m = ALIGN_TO (md_addr m) 8"
    unfolding ALIGN_TO_4_iff ALIGN_TO_8_iff using ok(1) by (auto simp: layout_ok_def dvd_8_4)
  have "unat (md_entries_start m + md_entry_capacity m) = 36 + unat (md_entry_capacity m)"
    using ok(1) layout_capacity [OF ok(1)] by (simp add: layout_ok_def unat_word_ariths)
  moreover have "36 + unat (md_entry_capacity m) \<le> unat (md_data_start m)"
    using ok(1) round8_ge [of "36 + 16 * unat (md_entry_capacity m)"] by (simp add: layout_ok_def)
  moreover have "unat (md_data_start m + md_data_capacity m) = unat (md_data_start m) + unat (md_data_capacity m)"
    using ok(1) unat_u32_less [of "md_size m"] by (simp add: layout_ok_def unat_word_ariths)
  ultimately show ?thesis
    using ok(1,2) es addr
    by (auto simp: validate_camera_metadata_structure_def Let_def c_defs word_less_nat_alt
        layout_ok_def counts_ok_def)
qed

lemma assert_valid_ok: "packet_ok vo m \<Longrightarrow> assert_valid vo (Some m) r = Ret r"
  by (simp add: assert_valid_def validate_packet_ok)

end
