(* ===== verification/Metadata_Correct.thy ===== *)
theory Metadata_Correct
  imports Metadata_Inv
begin

text \<open>
  Correctness of the packet operations against the list of items a packet stores: every
  operation keeps \<open>packet_ok\<close> (so its closing \<open>assert\<close> never fires and it never leaves its
  memory) and acts on \<open>items\<close> as its documentation says.
\<close>

section \<open>Shared steps\<close>

lemma place_ok_mono: "place_ok n e \<Longrightarrow> n \<le> n' \<Longrightarrow> place_ok n' e"
  by (auto simp: place_ok_def)

text \<open>The value of an entry does not change when bytes outside it change.\<close>

lemma payload_write:
  assumes "mem_write off bs data = Some data'" and "be_type e < NUM_TYPES"
    and "0 < esize e \<Longrightarrow> eoff e + esize e \<le> off \<or> off + length bs \<le> eoff e"
  shows "payload data' e = payload data e"
proof (cases "0 < esize e")
  case True
  with assms(2) have "eplen e \<le> esize e" by (rule eplen_le_esize)
  with assms(3) [OF True] True show ?thesis
    using mem_write_read_disjoint [OF assms(1), of "eoff e" "eplen e"] by (auto simp: payload_def)
qed (simp add: payload_def)

lemma live_push:
  assumes "layout_ok m" "counts_ok m" "unat (md_entry_count m) < unat (md_entry_capacity m)"
  shows "take (unat (md_entry_count m + 1)) ((md_entries m)[unat (md_entry_count m) := e]) = live m @ [e]"
proof -
  have "unat (md_entry_count m + 1) = Suc (unat (md_entry_count m))"
    using assms(3) unat_u32_less [of "md_entry_capacity m"] by (simp add: unat_word_ariths)
  with assms show ?thesis
    by (simp add: live_def layout_ok_def take_Suc_conv_app_nth)
qed

lemma packet_ok_push:
  assumes ok: "packet_ok vo m" and room: "unat (md_entry_count m) < unat (md_entry_capacity m)"
    and bs: "length bs = length (md_data m)"
    and dc: "unat (md_data_count m) \<le> unat dc" "unat dc \<le> unat (md_data_capacity m)" "8 dvd unat dc"
    and e: "type_ok vo e" "place_ok (unat dc) e" "\<And>f. f \<in> set (live m) \<Longrightarrow> apart f e"
    and same: "\<And>f. f \<in> set (live m) \<Longrightarrow> payload bs f = payload (md_data m) f"
    and m': "m' = m\<lparr>md_entries := (md_entries m)[unat (md_entry_count m) := e], md_data := bs,
      md_data_count := dc, md_entry_count := md_entry_count m + 1, md_flags := fl\<rparr>"
  shows "packet_ok vo m' \<and> items m' = items m @ [item_of bs e]"
proof -
  note okm = packet_okD [OF ok]
  have live: "live m' = live m @ [e]"
    using live_push [OF okm(1,2) room] by (simp add: live_def m')
  have cnt: "unat (md_entry_count m + 1) = Suc (unat (md_entry_count m))"
    using room unat_u32_less [of "md_entry_capacity m"] by (simp add: unat_word_ariths)
  have dc': "md_data_count m' = dc" by (simp add: m')
  have "packet_ok vo m'"
  proof (rule packet_okI)
    show "layout_ok m'" using okm(1) bs by (simp add: layout_ok_def m')
    show "counts_ok m'" using okm(2) dc room cnt by (simp add: counts_ok_def m')
    show "type_ok vo f" if "f \<in> set (live m')" for f
      using that okm(3) e(1) by (auto simp: live)
    show "place_ok (unat (md_data_count m')) f" if "f \<in> set (live m')" for f
      using that okm(5) e(2) dc(1) by (auto simp: live dc' intro: place_ok_mono)
    show "sorted_wrt apart (live m')"
      using okm(6) e(3) by (simp add: live sorted_wrt_append)
  qed
  moreover have "items m' = items m @ [item_of bs e]"
    using same by (simp add: items_def live) (simp add: item_of_def m')
  ultimately show ?thesis ..
qed

lemma write_value_Some:
  assumes "n \<le> 4" "n \<le> length bs"
  obtains w' where "write_value bs n w = Some w'" "take n (le_bytes32 w') = take n bs" "n = 0 \<longrightarrow> w' = w"
proof
  let ?bs = "take n bs @ drop n (le_bytes32 w)"
  show "write_value bs n w = Some (le_word32 ?bs)"
    using assms by (simp add: write_value_def memcpy_def mem_read_def mem_write_def min_def)
  have "le_bytes32 (le_word32 ?bs) = ?bs"
    using assms by (intro le_bytes32_word) (simp add: min_def)
  then show "take n (le_bytes32 (le_word32 ?bs)) = take n bs"
    using assms by simp
  show "n = 0 \<longrightarrow> le_word32 ?bs = w" by simp
qed

section \<open>Adding\<close>

text \<open>
  The value array of the caller: \<open>n\<close> elements of type \<open>t\<close> are readable, and the array lies
  inside the address space.
\<close>

definition readable :: "u8 \<Rightarrow> u64 \<Rightarrow> u8 list \<Rightarrow> bool" where
  "readable t n bytes \<longleftrightarrow> unat n * tsize t \<le> length bytes \<and> length bytes < 2 ^ 63"

definition value_of :: "u8 \<Rightarrow> u64 \<Rightarrow> u8 list \<Rightarrow> u8 list" where
  "value_of t n bytes = take (unat n * tsize t) bytes"

definition new_size :: "u8 \<Rightarrow> u64 \<Rightarrow> nat" where
  "new_size t n = unat (calculate_camera_metadata_entry_data_size t n)"

lemma readable_sizes:
  assumes "readable t n bytes" "t < NUM_TYPES"
  shows "unat (n * camera_metadata_type_size ! unat t) = unat n * tsize t"
    and "new_size t n = (if unat n * tsize t \<le> 4 then 0 else round8 (unat n * tsize t))"
    and "unat n * tsize t \<le> length bytes"
  using assms entry_data_size_eq [of t n] unat_payload [of n t]
  by (simp_all add: readable_def new_size_def)

text \<open>An entry whose count fits in 32 bits has the size of its value array.\<close>

lemma entry_sizes:
  assumes "readable t n bytes" "t < NUM_TYPES" "new_size t n < 2 ^ 32"
    "be_type e = t" "be_count e = ucast n"
  shows "eplen e = unat n * tsize t" and "esize e = new_size t n" and "be_count e = 0 \<longleftrightarrow> n = 0"
proof -
  have "unat n \<le> unat n * tsize t" using tsize_pos [OF assms(2)] by simp
  also have "unat n * tsize t < 2 ^ 32"
    using readable_sizes(2) [OF assms(1,2)] assms(3) round8_ge [of "unat n * tsize t"]
    by (auto split: if_splits)
  finally have "unat (ucast n :: u32) = unat n"
    by (simp add: unsigned_ucast_eq take_bit_nat_eq_self)
  then show len: "eplen e = unat n * tsize t" and "be_count e = 0 \<longleftrightarrow> n = 0"
    using assms(4,5) by (simp_all add: eplen_def flip: unat_eq_0)
  show "esize e = new_size t n"
    using assms(2,4) readable_sizes(2) [OF assms(1,2)] by (simp add: esize_eq len)
qed

lemma add_raw_full:
  assumes "md_entry_count m = md_entry_capacity m \<or>
    unat (md_data_capacity m) < new_size t n + unat (md_data_count m)"
    and "readable t n bytes" "t < NUM_TYPES"
  shows "add_camera_metadata_entry_raw vo (Some m) tag t (Some bytes) n = Ret (ERROR, Some m)"
proof -
  have "new_size t n < 2 ^ 63 + 8"
    using readable_sizes(2,3) [OF assms(2,3)] assms(2) round8_less [of "unat n * tsize t"]
    by (auto simp: readable_def split: if_splits)
  then have "unat (calculate_camera_metadata_entry_data_size t n + ucast (md_data_count m)) =
      new_size t n + unat (md_data_count m)"
    using unat_u32_less [of "md_data_count m"] by (simp add: unat_word_ariths new_size_def)
  with assms(1) show ?thesis
    by (auto simp: add_camera_metadata_entry_raw_def Let_def word_less_nat_alt)
qed

text \<open>The packet after the new entry is in place.\<close>

definition pushed ::
    "camera_metadata \<Rightarrow> camera_metadata_buffer_entry \<Rightarrow> u8 list \<Rightarrow> u32 \<Rightarrow> camera_metadata" where
  "pushed m e bs dc = m\<lparr>md_entries := (md_entries m)[unat (md_entry_count m) := e], md_data := bs,
     md_data_count := dc, md_entry_count := md_entry_count m + 1,
     md_flags := md_flags m AND NOT FLAG_SORTED\<rparr>"

definition new_entry :: "u32 \<Rightarrow> u8 \<Rightarrow> u64 \<Rightarrow> u32 \<Rightarrow> camera_metadata_buffer_entry" where
  "new_entry tag t n w =
     \<lparr>be_tag = tag, be_count = ucast n, be_data = w, be_type = t, be_reserved = [0, 0, 0]\<rparr>"

lemma new_entry_sel [simp]:
  "be_tag (new_entry tag t n w) = tag" "be_count (new_entry tag t n w) = ucast n"
  "be_data (new_entry tag t n w) = w" "be_type (new_entry tag t n w) = t"
  by (simp_all add: new_entry_def)

lemma entry_count_room:
  assumes "packet_ok vo m" "md_entry_count m \<noteq> md_entry_capacity m"
  shows "unat (md_entry_count m) < unat (md_entry_capacity m)"
    and "unat (md_entry_count m) < length (md_entries m)"
  using packet_okD(1,2) [OF assms(1)] assms(2)
  by (simp_all add: counts_ok_def layout_ok_def word_unat_eq_iff)

text \<open>Past its guards, the function writes the value and finishes with \<open>pushed\<close>.\<close>

lemma add_raw_eq:
  assumes ok: "packet_ok vo m" and room: "md_entry_count m \<noteq> md_entry_capacity m"
    and fits: "new_size t n + unat (md_data_count m) \<le> unat (md_data_capacity m)"
    and arr: "readable t n bytes" "t < NUM_TYPES"
  shows "add_camera_metadata_entry_raw vo (Some m) tag t (Some bytes) n =
    bindE (if new_size t n = 0
           then bindE (deref (write_value bytes (unat n * tsize t) 0)) (\<lambda>w.
             Ret (pushed m (new_entry tag t n w) (md_data m) (md_data_count m)))
           else bindE (deref (memcpy (unat (md_data_count m)) bytes (unat n * tsize t) (md_data m))) (\<lambda>bs.
             Ret (pushed m (new_entry tag t n (md_data_count m)) bs
               (ucast (ucast (md_data_count m) + calculate_camera_metadata_entry_data_size t n)))))
      (\<lambda>m'. assert_valid vo (Some m') (OK, Some m'))"
proof -
  let ?sz = "calculate_camera_metadata_entry_data_size t n"
  have "unat (?sz + ucast (md_data_count m)) = new_size t n + unat (md_data_count m)"
    using fits unat_u32_less [of "md_data_capacity m"] by (simp add: unat_word_ariths new_size_def)
  then have guard: "\<not> ucast (md_data_capacity m) < ?sz + ucast (md_data_count m)"
    using fits by (simp add: word_less_nat_alt)
  then have guard0: "?sz = 0 \<Longrightarrow> \<not> ucast (md_data_capacity m) < (ucast (md_data_count m) :: u64)"
    by simp
  have zero: "new_size t n = 0 \<longleftrightarrow> ?sz = 0" by (simp add: new_size_def unat_eq_0)
  show ?thesis
    using guard guard0 entry_count_room(2) [OF ok room] room
    by (simp add: add_camera_metadata_entry_raw_def Let_def array_read_type_size [OF arr(2)]
        array_read_def [of "md_entries m"] readable_sizes(1) [OF arr] zero bindE_assoc
        pushed_def new_entry_def)
qed

lemma packet_ok_pushed:
  assumes "packet_ok vo m" "md_entry_count m \<noteq> md_entry_capacity m"
    and "length bs = length (md_data m)"
    and "unat (md_data_count m) \<le> unat dc" "unat dc \<le> unat (md_data_capacity m)" "8 dvd unat dc"
    and "type_ok vo e" "place_ok (unat dc) e" "\<And>f. f \<in> set (live m) \<Longrightarrow> apart f e"
    and "\<And>f. f \<in> set (live m) \<Longrightarrow> payload bs f = payload (md_data m) f"
  shows "packet_ok vo (pushed m e bs dc) \<and> abs_packet (pushed m e bs dc) =
    (abs_packet m)\<lparr>st_used := unat dc, st_items := items m @ [item_of bs e], st_sorted := False\<rparr>"
  using packet_ok_push [OF assms(1) entry_count_room(1) [OF assms(1,2)] assms(3-10) pushed_def]
  by (simp add: abs_packet_def) (simp add: pushed_def)

text \<open>A value of at most four bytes goes into the slot.\<close>

lemma add_raw_inline:
  assumes ok: "packet_ok vo m" and room: "md_entry_count m \<noteq> md_entry_capacity m"
    and fits: "new_size t n + unat (md_data_count m) \<le> unat (md_data_capacity m)"
    and arr: "readable t n bytes" "t < NUM_TYPES"
    and type: "\<And>w. type_ok vo (new_entry tag t n w)" and small: "new_size t n = 0"
  shows "\<exists>m'. add_camera_metadata_entry_raw vo (Some m) tag t (Some bytes) n = Ret (OK, Some m') \<and>
    packet_ok vo m' \<and> abs_packet m' = (abs_packet m)\<lparr>st_used := st_used (abs_packet m) + new_size t n,
      st_items := items m @ [(tag, t, value_of t n bytes)], st_sorted := False\<rparr>"
proof -
  note okm = packet_okD [OF ok] and sizes = readable_sizes [OF arr]
  let ?p = "unat n * tsize t"
  have "?p \<le> 4" using sizes(2) round8_ge [of ?p] small by (auto split: if_splits)
  then obtain w where w: "write_value bytes ?p 0 = Some w" "take ?p (le_bytes32 w) = take ?p bytes"
    "?p = 0 \<longrightarrow> w = 0"
    using write_value_Some [of ?p bytes 0] sizes(3) by blast
  let ?e = "new_entry tag t n w"
  have e: "esize ?e = 0" "eplen ?e = ?p" "be_count ?e = 0 \<longleftrightarrow> n = 0"
    using entry_sizes [OF arr, of ?e] small by simp_all
  have "place_ok (unat (md_data_count m)) ?e" using e w(3) by (simp add: place_ok_def)
  note pushed = packet_ok_pushed [OF ok room refl order_refl _ _ type this]
  have "item_of (md_data m) ?e = (tag, t, value_of t n bytes)"
    using e w(2) by (simp add: item_of_def payload_def value_of_def)
  then show ?thesis
    using pushed okm(2) e(1) w(1) small
    by (simp add: add_raw_eq [OF ok room fits arr] counts_ok_def apart_def assert_valid_ok)
      (simp add: abs_packet_def)
qed

text \<open>A longer value is appended to the data bytes.\<close>

lemma add_raw_stored:
  assumes ok: "packet_ok vo m" and room: "md_entry_count m \<noteq> md_entry_capacity m"
    and fits: "new_size t n + unat (md_data_count m) \<le> unat (md_data_capacity m)"
    and arr: "readable t n bytes" "t < NUM_TYPES"
    and type: "\<And>w. type_ok vo (new_entry tag t n w)" and big: "0 < new_size t n"
  shows "\<exists>m'. add_camera_metadata_entry_raw vo (Some m) tag t (Some bytes) n = Ret (OK, Some m') \<and>
    packet_ok vo m' \<and> abs_packet m' = (abs_packet m)\<lparr>st_used := st_used (abs_packet m) + new_size t n,
      st_items := items m @ [(tag, t, value_of t n bytes)], st_sorted := False\<rparr>"
proof -
  note okm = packet_okD [OF ok] and sizes = readable_sizes [OF arr]
  let ?sz = "calculate_camera_metadata_entry_data_size t n" and ?p = "unat n * tsize t"
  let ?e = "new_entry tag t n (md_data_count m)"
  let ?dc = "ucast (ucast (md_data_count m) + ?sz) :: u32"
  have p: "?p \<le> new_size t n" "8 dvd new_size t n"
    using sizes(2) round8_ge [of ?p] big by (auto split: if_splits)
  have less: "new_size t n + unat (md_data_count m) < 2 ^ 32"
    using fits unat_u32_less [of "md_data_capacity m"] by linarith
  obtain bs where bs: "memcpy (unat (md_data_count m)) bytes ?p (md_data m) = Some bs"
    and w: "mem_write (unat (md_data_count m)) (take ?p bytes) (md_data m) = Some bs"
    using fits sizes(3) p(1) okm(1) by (simp add: memcpy_def mem_read_def mem_write_def layout_ok_def)
  have dc: "unat ?dc = unat (md_data_count m) + new_size t n"
    using less by (simp add: unsigned_ucast_eq unat_word_ariths new_size_def take_bit_nat_eq_self)
  have e: "esize ?e = new_size t n" "eplen ?e = ?p" "eoff ?e = unat (md_data_count m)"
    using entry_sizes [OF arr, of ?e] less by (simp_all add: eoff_def)
  have old: "apart f ?e \<and> payload bs f = payload (md_data m) f" if f: "f \<in> set (live m)" for f
    using okm(5) [OF f] okm(4) [OF f] e payload_write [OF w, of f]
    by (auto simp: place_ok_def apart_def)
  have "place_ok (unat ?dc) ?e" "8 dvd unat ?dc"
    using okm(2) p e big by (simp_all add: dc counts_ok_def place_ok_def)
  note pushed = packet_ok_pushed [OF ok room memcpy_length [OF bs] _ _ this(2) type this(1)]
  have "item_of bs ?e = (tag, t, value_of t n bytes)"
    using e big mem_write_read_same [OF w] sizes(3)
    by (simp add: item_of_def payload_def value_of_def min_absorb2)
  then show ?thesis
    using pushed old fits bs big by (simp add: add_raw_eq [OF ok room fits arr] dc assert_valid_ok)
      (simp add: abs_packet_def)
qed

lemma type_ok_declared:
  "get_camera_metadata_tag_type vo tag = Ret (uint t) \<Longrightarrow> t < NUM_TYPES \<Longrightarrow>
   be_tag e = tag \<Longrightarrow> be_type e = t \<Longrightarrow> type_ok vo e"
  by (simp add: type_ok_def)

lemma add_entry_spec:
  assumes ok: "packet_ok vo m" and type: "get_camera_metadata_tag_type vo tag = Ret (uint t)" "t < NUM_TYPES"
    and arr: "readable t n bytes"
  shows "if md_entry_count m = md_entry_capacity m \<or>
            unat (md_data_capacity m) < new_size t n + unat (md_data_count m)
    then add_camera_metadata_entry vo (Some m) tag (Some bytes) n = Ret (ERROR, Some m)
    else \<exists>m'. add_camera_metadata_entry vo (Some m) tag (Some bytes) n = Ret (OK, Some m') \<and>
           packet_ok vo m' \<and> abs_packet m' = (abs_packet m)\<lparr>st_used := st_used (abs_packet m) + new_size t n,
      st_items := items m @ [(tag, t, value_of t n bytes)], st_sorted := False\<rparr>"
proof -
  have "uint t \<noteq> -1" using uint_ge_0 [of t] by linarith
  then have "add_camera_metadata_entry vo (Some m) tag (Some bytes) n =
      add_camera_metadata_entry_raw vo (Some m) tag t (Some bytes) n"
    using type(1) by (simp add: add_camera_metadata_entry_def)
  moreover have "type_ok vo (new_entry tag t n w)" for w
    using type by (rule type_ok_declared) simp_all
  ultimately show ?thesis
    using add_raw_full [OF _ arr type(2)] add_raw_inline [OF ok _ _ arr type(2)]
      add_raw_stored [OF ok _ _ arr type(2)]
    by (cases "new_size t n = 0") (auto simp: not_less)
qed

section \<open>Closing the gap of a removed value\<close>

definition entries_ok :: "vendor_tag_ops option \<Rightarrow> nat \<Rightarrow> camera_metadata_buffer_entry list \<Rightarrow> bool" where
  "entries_ok vo n es \<longleftrightarrow> (\<forall>e \<in> set es. type_ok vo e \<and> place_ok n e) \<and> sorted_wrt apart es"

lemma packet_ok_iff:
  "packet_ok vo m \<longleftrightarrow> layout_ok m \<and> counts_ok m \<and> entries_ok vo (unat (md_data_count m)) (live m)"
  by (simp add: packet_ok_def entries_ok_def)

text \<open>An entry whose value does not meet the \<open>k\<close> bytes at \<open>off\<close>.\<close>

definition misses :: "nat \<Rightarrow> nat \<Rightarrow> camera_metadata_buffer_entry \<Rightarrow> bool" where
  "misses off k f \<longleftrightarrow> (0 < esize f \<longrightarrow> eoff f + esize f \<le> off \<or> off + k \<le> eoff f)"

lemma shift_down_same [simp]:
  "be_tag (shift_offset_down off k f) = be_tag f" "be_type (shift_offset_down off k f) = be_type f"
  "be_count (shift_offset_down off k f) = be_count f" "esize (shift_offset_down off k f) = esize f"
  "eplen (shift_offset_down off k f) = eplen f" "type_ok vo (shift_offset_down off k f) = type_ok vo f"
  by (simp_all add: shift_offset_down_def esize_def eplen_def type_ok_def)

lemma shift_down_inline: "esize f = 0 \<Longrightarrow> shift_offset_down off k f = f"
  by (simp add: shift_offset_down_def esize_word_pos)

lemma unat_ucast_diff:
  "unat k \<le> unat (d :: u32) \<Longrightarrow> unat (ucast (ucast d - k :: u64) :: u32) = unat d - unat k"
  using unat_u32_less [of d] by (simp add: unsigned_ucast_eq unat_sub_if' take_bit_nat_eq_self)

lemma shift_down_eoff:
  assumes "misses (unat off) (unat k) f" "0 < esize f" "0 < unat k"
  shows "eoff (shift_offset_down off k f) =
    (if eoff f + esize f \<le> unat off then eoff f else eoff f - unat k)"
proof (cases "eoff f + esize f \<le> unat off")
  case True
  then have "\<not> off < be_data f" using assms(2) by (simp add: eoff_def word_less_nat_alt)
  with True show ?thesis by (simp add: shift_offset_down_def)
next
  case False
  with assms have b: "unat off + unat k \<le> eoff f" by (simp add: misses_def)
  then have "off < be_data f" using assms(3) by (simp add: eoff_def word_less_nat_alt)
  with False b assms(2) show ?thesis
    by (simp add: shift_offset_down_def esize_word_pos eoff_def unat_ucast_diff)
qed

lemma gap_entry:
  assumes m: "memmove (unat off) (unat off + unat k) len data = Some data'"
    and len: "unat off + unat k + len = n" and k: "0 < unat k" "8 dvd unat k"
    and f: "type_ok vo f" "place_ok n f" "misses (unat off) (unat k) f"
  shows "place_ok (n - unat k) (shift_offset_down off k f)"
    and "payload data' (shift_offset_down off k f) = payload data f"
proof -
  have nt: "be_type f < NUM_TYPES" using f(1) by (simp add: type_ok_def)
  show "place_ok (n - unat k) (shift_offset_down off k f)"
    using f(2,3) len k shift_down_eoff [OF f(3) _ k(1)] shift_down_inline [of f off k]
    by (auto simp: place_ok_def misses_def dvd_diff_nat)
  show "payload data' (shift_offset_down off k f) = payload data f"
  proof (cases "0 < esize f")
    case True
    have "eplen f \<le> esize f" using nt True by (rule eplen_le_esize)
    with True f(2,3) len shift_down_eoff [OF f(3) True k(1)]
      memmove_gap_before [OF m, of "eoff f" "eplen f"] memmove_gap_behind [OF m, of "eoff f" "eplen f"]
    show ?thesis by (auto simp: payload_def place_ok_def misses_def)
  qed (simp add: payload_def shift_down_inline)
qed

lemma gap_apart:
  assumes "apart f g" "misses (unat off) (unat k) f" "misses (unat off) (unat k) g" "0 < unat k"
  shows "apart (shift_offset_down off k f) (shift_offset_down off k g)"
  using assms shift_down_eoff [OF assms(2) _ assms(4)] shift_down_eoff [OF assms(3) _ assms(4)]
  by (auto simp: apart_def misses_def)

lemma gap_entries:
  assumes m: "memmove (unat off) (unat off + unat k) len data = Some data'"
    and len: "unat off + unat k + len = n" and k: "0 < unat k" "8 dvd unat k"
    and es: "entries_ok vo n es" "\<forall>f \<in> set es. misses (unat off) (unat k) f"
  shows "entries_ok vo (n - unat k) (map (shift_offset_down off k) es)"
    and "map (item_of data') (map (shift_offset_down off k) es) = map (item_of data) es"
proof -
  have "sorted_wrt (\<lambda>f g. apart (shift_offset_down off k f) (shift_offset_down off k g)) es"
    using es k(1) by (auto simp: entries_ok_def intro!: gap_apart intro: sorted_wrt_mono_rel [rotated])
  with gap_entry(1) [OF m len k] es
  show "entries_ok vo (n - unat k) (map (shift_offset_down off k) es)"
    by (auto simp: entries_ok_def sorted_wrt_map)
  show "map (item_of data') (map (shift_offset_down off k) es) = map (item_of data) es"
    using gap_entry(2) [OF m len k] es by (auto simp: item_of_def entries_ok_def)
qed

text \<open>The other entries of a well-formed packet miss the bytes of a stored value.\<close>

lemma entries_ok_without:
  assumes "entries_ok vo n (xs @ e # ys)"
  shows "entries_ok vo n (xs @ ys)"
    and "0 < esize e \<Longrightarrow> \<forall>f \<in> set (xs @ ys). misses (eoff e) (esize e) f"
  using assms by (auto simp: entries_ok_def sorted_wrt_append misses_def apart_def)

text \<open>
  \<open>remove_data\<close> on a stored value: every other entry keeps its value, under new offsets.
\<close>

lemma remove_data_correct:
  assumes ok: "packet_ok vo m" and live: "live m = xs @ e # ys" and big: "0 < esize e"
  defines "k \<equiv> calculate_camera_metadata_entry_data_size (be_type e) (ucast (be_count e))"
  defines "sh \<equiv> shift_offset_down (be_data e) k"
  shows "\<exists>m' data'. remove_data m (be_data e) k = Ret m' \<and>
    m' = m\<lparr>md_data := data',
            md_entries := map sh xs @ e # map sh ys @ drop (unat (md_entry_count m)) (md_entries m),
            md_data_count := ucast (ucast (md_data_count m) - k)\<rparr> \<and>
    length data' = length (md_data m) \<and>
    unat (md_data_count m') = unat (md_data_count m) - esize e \<and>
    entries_ok vo (unat (md_data_count m')) (map sh (xs @ ys)) \<and>
    map (item_of data') (map sh (xs @ ys)) = map (item_of (md_data m)) (xs @ ys)"
proof -
  note okm = packet_okD [OF ok]
  have e: "e \<in> set (live m)" using live by simp
  have k: "unat k = esize e" by (simp add: k_def esize_def)
  have nt: "be_type e < NUM_TYPES" using okm(4) [OF e] .
  have off: "eoff e + esize e \<le> unat (md_data_count m)"
    using okm(5) [OF e] big by (simp add: place_ok_def)
  define len where "len = unat (md_data_count m) - (eoff e + esize e)"
  have "unat (md_data_count m - be_data e) = unat (md_data_count m) - eoff e"
    using off by (simp add: unat_sub_if' eoff_def)
  then have len': "unat (ucast (md_data_count m - be_data e) - k) = len"
    using off by (simp add: unat_sub_if' k len_def)
  obtain data' where data': "memmove (unat (be_data e)) (unat (be_data e) + unat k) len (md_data m) = Some data'"
    by (rule memmove_Some [of "unat (be_data e) + unat k" len "md_data m" "unat (be_data e)"])
      (use off okm(1,2) in \<open>auto simp: k eoff_def len_def layout_ok_def counts_ok_def\<close>)
  have cnt: "\<not> length (md_entries m) < unat (md_entry_count m)"
    using okm(1,2) by (simp add: layout_ok_def counts_ok_def)
  have "sh e = e" by (simp add: sh_def shift_offset_down_def)
  then have es: "map sh (take (unat (md_entry_count m)) (md_entries m)) = map sh xs @ e # map sh ys"
    using live by (simp add: live_def)
  have dc: "unat (ucast (ucast (md_data_count m) - k) :: u32) = unat (md_data_count m) - esize e"
    using off by (simp add: unat_ucast_diff k)
  have eo: "entries_ok vo (unat (md_data_count m)) (xs @ e # ys)"
    using ok live by (simp add: packet_ok_iff)
  have len_eq: "unat (be_data e) + unat k + len = unat (md_data_count m)"
    using off by (simp add: k eoff_def len_def)
  have k8: "0 < unat k" "8 dvd unat k" using big esize_dvd [OF nt] by (simp_all add: k)
  have miss: "\<forall>f \<in> set (xs @ ys). misses (unat (be_data e)) (unat k) f"
    using entries_ok_without(2) [OF eo big] by (simp add: k eoff_def)
  note gap = gap_entries [OF data' len_eq k8 entries_ok_without(1) [OF eo] miss]
  have rd: "remove_data m (be_data e) k =
      Ret (m\<lparr>md_data := data',
              md_entries := map sh xs @ e # map sh ys @ drop (unat (md_entry_count m)) (md_entries m),
              md_data_count := ucast (ucast (md_data_count m) - k)\<rparr>)"
    unfolding remove_data_def Let_def len' data' sh_def [symmetric] es using cnt by simp
  show ?thesis
    by (rule exI, rule exI [of _ data'], intro conjI, rule rd)
      (use gap memmove_length [OF data'] dc in \<open>simp_all add: sh_def k\<close>)
qed

end
