(* ===== verification/Metadata_Edit.thy ===== *)
theory Metadata_Edit
  imports Metadata_Correct
begin

text \<open>
  Reading, deleting and updating entries: what a client reads through the pointer of an entry
  is the stored value, deletion removes one item, an update replaces one item.
\<close>

section \<open>Reading\<close>

definition view_entry :: "camera_metadata \<Rightarrow> nat \<Rightarrow> camera_metadata_entry" where
  "view_entry m i = (let e = md_entries m ! i in
     \<lparr>en_index = of_nat i, en_tag = be_tag e, en_type = be_type e, en_count = ucast (be_count e),
      en_data = (if 0 < esize e then In_data (eoff e) else In_slot i)\<rparr>)"

lemma payload_word:
  assumes "be_type e < NUM_TYPES"
  shows "unat (ucast (be_count e) * camera_metadata_type_size ! unat (be_type e)) = eplen e"
  using unat_payload [of "ucast (be_count e)" "be_type e"] eplen_less [OF assms]
  by (simp add: eplen_def)

lemma get_entry_eq:
  assumes ok: "packet_ok vo m" and i: "unat index < length (live m)"
  shows "get_camera_metadata_entry (Some m) index True = Ret (OK, Some (view_entry m (unat index)))"
proof -
  note okm = packet_okD [OF ok]
  have i': "unat index < unat (md_entry_count m)" using i length_live [OF okm(1,2)] by simp
  note nth = in_live_nth [OF okm(1,2) i']
  let ?e = "md_entries m ! unat index"
  have t: "be_type ?e < NUM_TYPES" using okm(4) nth by blast
  have "4 < ucast (be_count ?e) * camera_metadata_type_size ! unat (be_type ?e) \<longleftrightarrow> 0 < esize ?e"
    using esize_pos_iff [OF t] by (simp add: word_less_nat_alt payload_word [OF t])
  moreover have "\<not> ucast (md_entry_count m) \<le> index" using i' by (simp add: word_le_nat_alt)
  ultimately show ?thesis
    using nth t by (simp add: get_camera_metadata_entry_def array_read_def [of "md_entries m"]
        array_read_type_size view_entry_def Let_def eoff_def)
qed

lemma entry_bytes_eq:
  assumes ok: "packet_ok vo m" and i: "i < length (live m)"
  shows "entry_bytes m (view_entry m i) = Ret (payload (md_data m) (live m ! i))"
proof -
  note okm = packet_okD [OF ok]
  have i': "i < unat (md_entry_count m)" using i length_live [OF okm(1,2)] by simp
  note nth = in_live_nth [OF okm(1,2) i']
  let ?e = "md_entries m ! i"
  have t: "be_type ?e < NUM_TYPES" and p: "place_ok (unat (md_data_count m)) ?e"
    using okm(4,5) nth by blast+
  have "0 < esize ?e \<Longrightarrow> eoff ?e + eplen ?e \<le> length (md_data m)"
    using p eplen_le_esize [OF t] okm(1,2) by (simp add: place_ok_def layout_ok_def counts_ok_def)
  then show ?thesis
    using nth t eplen_inline [OF t] payload_word [OF t]
    by (auto simp: entry_bytes_def view_entry_def Let_def array_read_type_size payload_def
        mem_read_def array_read_def [of "md_entries m"])
qed

lemma items_nth:
  assumes "packet_ok vo m" "i < length (items m)"
  shows "items m ! i = (be_tag (live m ! i), be_type (live m ! i), payload (md_data m) (live m ! i))"
  using assms by (simp add: items_def item_of_def)

section \<open>Deleting\<close>

lemma memmove_delete:
  assumes "i < c" "c \<le> length es"
  obtains es' where "memmove i (Suc i) (c - Suc i) es = Some es'" "length es' = length es"
    "take (c - 1) es' = take i es @ drop (Suc i) (take c es)"
proof -
  let ?mv = "take (c - Suc i) (drop (Suc i) es)"
  have len: "length ?mv = c - Suc i" using assms by simp
  have "memmove i (Suc i) (c - Suc i) es = Some (take i es @ ?mv @ drop (i + (c - Suc i)) es)"
    using assms len by (simp add: memmove_def mem_read_def mem_write_def)
  moreover have "c - 1 = length (take i es @ ?mv)" using assms len by simp
  then have "take (c - 1) (take i es @ ?mv @ drop (i + (c - Suc i)) es) = take i es @ ?mv"
    by (metis append_assoc append_eq_conv_conj)
  moreover have "?mv = drop (Suc i) (take c es)" by (simp add: drop_take)
  ultimately show ?thesis using that assms len by simp
qed

lemma live_split: "i < length (live m) \<Longrightarrow> live m = take i (live m) @ live m ! i # drop (Suc i) (live m)"
  by (rule id_take_nth_drop)

text \<open>
  After \<open>remove_data\<close> the packet still has its layout, the other entries are in order, and
  only the slot of the removed value is stale.
\<close>

lemma remove_data_packet:
  assumes ok: "packet_ok vo m" and live: "live m = xs @ e # ys" and big: "0 < esize e"
  obtains m1 xs' ys' data' where
    "remove_data m (be_data e)
       (calculate_camera_metadata_entry_data_size (be_type e) (ucast (be_count e))) = Ret m1"
    "layout_ok m1" "counts_ok m1" "live m1 = xs' @ e # ys'"
    "md_entries m1 = xs' @ e # ys' @ drop (unat (md_entry_count m)) (md_entries m)"
    "length xs' = length xs" "length ys' = length ys"
    "entries_ok vo (unat (md_data_count m1)) (xs' @ ys')"
    "map (item_of (md_data m1)) xs' = map (item_of (md_data m)) xs"
    "map (item_of (md_data m1)) ys' = map (item_of (md_data m)) ys"
    "md_entry_count m1 = md_entry_count m" "md_data_capacity m1 = md_data_capacity m"
    "unat (md_data_count m1) = unat (md_data_count m) - esize e"
    "md_flags m1 = md_flags m" "md_entry_capacity m1 = md_entry_capacity m"
proof -
  note okm = packet_okD [OF ok]
  let ?k = "calculate_camera_metadata_entry_data_size (be_type e) (ucast (be_count e))"
  let ?sh = "shift_offset_down (be_data e) ?k"
  let ?rest = "drop (unat (md_entry_count m)) (md_entries m)"
  obtain m1 data' where rm: "remove_data m (be_data e) ?k = Ret m1"
    and m1: "m1 = m\<lparr>md_data := data', md_entries := map ?sh xs @ e # map ?sh ys @ ?rest,
          md_data_count := ucast (ucast (md_data_count m) - ?k)\<rparr>"
    and len: "length data' = length (md_data m)"
    and dc: "unat (md_data_count m1) = unat (md_data_count m) - esize e"
    and eo: "entries_ok vo (unat (md_data_count m1)) (map ?sh (xs @ ys))"
    and it: "map (item_of data') (map ?sh (xs @ ys)) = map (item_of (md_data m)) (xs @ ys)"
    using remove_data_correct [OF ok live big] by blast
  have c: "unat (md_entry_count m) = length xs + 1 + length ys"
    using length_live [OF okm(1,2)] live by simp
  have lay: "layout_ok m1"
    using okm(1,2) len c by (simp add: m1 layout_ok_def counts_ok_def)
  have "8 dvd unat (md_data_count m) - esize e"
    using okm(2) okm(4) [of e] live by (auto simp: counts_ok_def esize_dvd intro: dvd_diff_nat)
  then have cnt: "counts_ok m1"
    using okm(2) dc by (auto simp: counts_ok_def m1 intro: le_trans [OF diff_le_self])
  have "live m1 = map ?sh xs @ e # map ?sh ys"
    using c by (simp add: live_def m1)
  then show ?thesis
    using that [of m1 "map ?sh xs" "map ?sh ys"] rm lay cnt eo it dc by (simp add: m1)
qed

text \<open>Removing the slot of an entry whose value is already gone from the data bytes.\<close>

lemma delete_slot:
  fixes index :: u64
  assumes lay: "layout_ok d" and cnt: "counts_ok d" and live: "live d = xs @ e # ys"
    and ok: "entries_ok vo (unat (md_data_count d)) (xs @ ys)" and i: "unat index = length xs"
  shows "\<exists>m'. bindE (deref (memmove (unat index) (Suc (unat index))
      (unat (ucast (md_entry_count d) - index - 1)) (md_entries d))) (\<lambda>es.
      let d = d\<lparr>md_entries := es, md_entry_count := md_entry_count d - 1\<rparr>
      in assert_valid vo (Some d) (OK, Some d)) = Ret (OK, Some m') \<and>
    packet_ok vo m' \<and> abs_packet m' = (abs_packet d)\<lparr>st_items := map (item_of (md_data d)) (xs @ ys)\<rparr>"
proof -
  let ?c = "unat (md_entry_count d)"
  have c: "?c = length xs + 1 + length ys"
    using length_live [OF lay cnt] live by simp
  have "unat (ucast (md_entry_count d) - index - 1) = ?c - Suc (length xs)"
    using c i by (simp add: unat_sub_if')
  moreover have "?c \<le> length (md_entries d)" using lay cnt by (simp add: layout_ok_def counts_ok_def)
  then obtain es' where mv: "memmove (length xs) (Suc (length xs)) (?c - Suc (length xs)) (md_entries d) = Some es'"
    and len: "length es' = length (md_entries d)"
    and es': "take (?c - 1) es' = take (length xs) (md_entries d) @ drop (Suc (length xs)) (take ?c (md_entries d))"
    using memmove_delete [of "length xs" ?c "md_entries d"] c by auto
  define m' where "m' = d\<lparr>md_entries := es', md_entry_count := md_entry_count d - 1\<rparr>"
  have cnt': "unat (md_entry_count d - 1) = ?c - 1" using c by (simp add: unat_sub_if')
  have "take (length xs) (md_entries d) = take (length xs) (live d)"
    using c by (simp add: live_def min_def)
  then have "take (length xs) (md_entries d) = xs" by (simp add: live)
  then have live': "live m' = xs @ ys"
    using es' live cnt' by (simp add: m'_def live_def)
  have ok': "packet_ok vo m'"
    unfolding packet_ok_iff live'
    using lay cnt len cnt' ok
    by (auto simp: m'_def layout_ok_def counts_ok_def intro: le_trans [OF diff_le_self])
  moreover have "items m' = map (item_of (md_data d)) (xs @ ys)"
    unfolding items_def live' by (simp add: m'_def)
  then have "abs_packet m' = (abs_packet d)\<lparr>st_items := map (item_of (md_data d)) (xs @ ys)\<rparr>"
    by (simp add: abs_packet_def) (simp add: m'_def)
  ultimately show ?thesis
    using mv i assert_valid_ok [OF ok', of "(OK, Some m')"] by (auto simp: m'_def [symmetric])
qed

text \<open>A valid index, and the entry behind it.\<close>

lemma index_split:
  assumes ok: "packet_ok vo m" and i: "unat index < length (items m)"
  obtains xs e ys where "live m = xs @ e # ys" "unat index = length xs"
    "\<not> ucast (md_entry_count m) \<le> (index :: u64)" "array_read (md_entries m) (unat index) = Ret e"
    "items m ! unat index = item_of (md_data m) e"
    "map (item_of (md_data m)) xs = take (unat index) (items m)"
    "map (item_of (md_data m)) ys = drop (Suc (unat index)) (items m)"
    "item_size (items m ! unat index) = esize e"
proof -
  note okm = packet_okD [OF ok]
  let ?i = "unat index"
  have i': "?i < length (live m)" using i by (simp add: length_items)
  then have "?i < unat (md_entry_count m)" using length_live [OF okm(1,2)] by simp
  note nth = in_live_nth [OF okm(1,2) this]
  have "array_read (md_entries m) ?i = Ret (live m ! ?i)"
    using nth by (simp add: array_read_def)
  moreover have "items m ! ?i = item_of (md_data m) (live m ! ?i)"
    using i' by (simp add: items_def)
  moreover have "item_size (item_of (md_data m) (live m ! ?i)) = esize (live m ! ?i)"
    using item_size_live [OF ok nth_mem [OF i']] .
  ultimately show ?thesis
    using that [OF live_split [OF i']] i' length_live [OF okm(1,2)]
    by (simp add: word_le_nat_alt items_def take_map drop_map)
qed

lemma delete_correct:
  assumes ok: "packet_ok vo m" and i: "unat index < length (items m)"
  shows "\<exists>m'. delete_camera_metadata_entry vo (Some m) index = Ret (OK, Some m') \<and> packet_ok vo m' \<and>
    abs_packet m' = (abs_packet m)\<lparr>st_used := st_used (abs_packet m) - item_size (items m ! unat index),
      st_items := take (unat index) (items m) @ drop (Suc (unat index)) (items m)\<rparr>"
proof -
  note okm = packet_okD [OF ok]
  obtain xs e ys where live: "live m = xs @ e # ys" and xs: "unat index = length xs"
    and guard: "\<not> ucast (md_entry_count m) \<le> index" and rd: "array_read (md_entries m) (unat index) = Ret e"
    and maps: "map (item_of (md_data m)) xs = take (unat index) (items m)"
      "map (item_of (md_data m)) ys = drop (Suc (unat index)) (items m)"
    and sz: "item_size (items m ! unat index) = esize e"
    using index_split [OF ok i] by metis
  show ?thesis
  proof (cases "0 < esize e")
    case True
    then have z: "0 < calculate_camera_metadata_entry_data_size (be_type e) (ucast (be_count e))"
      by (simp add: esize_word_pos)
    obtain m1 xs' ys' where m1: "remove_data m (be_data e)
         (calculate_camera_metadata_entry_data_size (be_type e) (ucast (be_count e))) = Ret m1"
      "layout_ok m1" "counts_ok m1" "live m1 = xs' @ e # ys'" "length xs' = length xs"
      "entries_ok vo (unat (md_data_count m1)) (xs' @ ys')"
      "map (item_of (md_data m1)) (xs' @ ys') = map (item_of (md_data m)) (xs @ ys)"
      "abs_packet m1 = (abs_packet m)\<lparr>st_used := st_used (abs_packet m) - esize e, st_items := items m1\<rparr>"
      by (rule remove_data_packet [OF ok live True]) (simp add: abs_packet_def)
    have "unat index = length xs'" using xs m1(5) by simp
    from delete_slot [OF m1(2,3,4,6) this] show ?thesis
      using guard rd z maps sz m1(1,7,8) by (simp add: delete_camera_metadata_entry_def Let_def)
  next
    case False
    then have z: "\<not> 0 < calculate_camera_metadata_entry_data_size (be_type e) (ucast (be_count e))"
      by (simp add: esize_word_pos)
    have "entries_ok vo (unat (md_data_count m)) (xs @ e # ys)"
      using ok live by (simp add: packet_ok_iff)
    then have "entries_ok vo (unat (md_data_count m)) (xs @ ys)"
      by (rule entries_ok_without(1))
    from delete_slot [OF okm(1,2) live this xs] show ?thesis
      using guard rd z maps sz False
      by (simp add: delete_camera_metadata_entry_def Let_def)
  qed
qed

section \<open>Updating\<close>

text \<open>A packet that is well formed but for the slot of \<open>e\<close>, which may be stale.\<close>

definition stale ::
    "vendor_tag_ops option \<Rightarrow> camera_metadata \<Rightarrow> camera_metadata_buffer_entry list \<Rightarrow>
     camera_metadata_buffer_entry \<Rightarrow> camera_metadata_buffer_entry list \<Rightarrow> bool" where
  "stale vo d xs e ys \<longleftrightarrow> layout_ok d \<and> counts_ok d \<and> live d = xs @ e # ys \<and>
     entries_ok vo (unat (md_data_count d)) (xs @ ys)"

lemma packet_ok_stale: "packet_ok vo m \<Longrightarrow> live m = xs @ e # ys \<Longrightarrow> stale vo m xs e ys"
  unfolding stale_def packet_ok_iff using entries_ok_without(1) by metis

lemma stale_slot:
  assumes "stale vo d xs e ys"
  shows "length xs < length (md_entries d)" and "md_entries d ! length xs = e"
    and "length xs < unat (md_entry_count d)"
proof -
  have lay: "layout_ok d" "counts_ok d" and live: "live d = xs @ e # ys"
    using assms by (simp_all add: stale_def)
  show c: "length xs < unat (md_entry_count d)" using length_live [OF lay] live by simp
  from in_live_nth [OF lay c] live show "length xs < length (md_entries d)" "md_entries d ! length xs = e"
    by simp_all
qed

lemma entries_ok_insert:
  assumes "entries_ok vo n (xs @ ys)" "n \<le> n'" "type_ok vo e" "place_ok n' e"
    "\<And>f. f \<in> set (xs @ ys) \<Longrightarrow> apart f e"
  shows "entries_ok vo n' (xs @ e # ys)"
proof -
  have old: "type_ok vo f \<and> place_ok n' f" if "f \<in> set (xs @ ys)" for f
    using assms(1,2) that by (auto simp: entries_ok_def intro: place_ok_mono)
  have "sorted_wrt apart (xs @ e # ys)"
    using assms(1,5) apart_sym [of _ e] by (auto simp: entries_ok_def sorted_wrt_append)
  with old assms(3,4) show ?thesis by (auto simp: entries_ok_def)
qed

text \<open>Writing the slot anew makes the packet well formed again.\<close>

lemma put_entry:
  assumes st: "stale vo d xs e0 ys" and bs: "length bs = length (md_data d)"
    and dc: "unat (md_data_count d) \<le> unat dc" "unat dc \<le> unat (md_data_capacity d)" "8 dvd unat dc"
    and e: "type_ok vo e" "place_ok (unat dc) e"
    and old: "\<And>f. f \<in> set (xs @ ys) \<Longrightarrow> apart f e \<and> payload bs f = payload (md_data d) f"
    and m': "m' = d\<lparr>md_entries := (md_entries d)[length xs := e], md_data := bs, md_data_count := dc\<rparr>"
  shows "packet_ok vo m' \<and> live m' = xs @ e # ys \<and>
    items m' = map (item_of (md_data d)) xs @ item_of bs e # map (item_of (md_data d)) ys"
proof -
  have lay: "layout_ok d" "counts_ok d" and live: "live d = xs @ e0 # ys"
    and eo: "entries_ok vo (unat (md_data_count d)) (xs @ ys)"
    using st by (simp_all add: stale_def)
  have live': "live m' = xs @ e # ys"
    using live stale_slot(3) [OF st] by (simp add: live_def m' take_update_swap)
  have "entries_ok vo (unat dc) (xs @ e # ys)"
    using entries_ok_insert [OF eo dc(1) e] old by blast
  then have "packet_ok vo m'"
    unfolding packet_ok_iff live' using lay bs dc by (simp add: m' layout_ok_def counts_ok_def)
  moreover have "items m' = map (item_of (md_data d)) xs @ item_of bs e # map (item_of (md_data d)) ys"
    unfolding items_def live' using old by (simp add: m' item_of_def)
  ultimately show ?thesis using live' by simp
qed

text \<open>
  What the data step of an update leaves behind: the other entries as they were, and, if the
  new value does not fit the slot, its bytes stored where the slot points.
\<close>

definition moved ::
    "vendor_tag_ops option \<Rightarrow> camera_metadata \<Rightarrow> camera_metadata \<Rightarrow> camera_metadata_buffer_entry list \<Rightarrow>
     camera_metadata_buffer_entry \<Rightarrow> camera_metadata_buffer_entry list \<Rightarrow> u8 list \<Rightarrow> nat \<Rightarrow> bool" where
  "moved vo m d xs e ys val new \<longleftrightarrow>
     (\<exists>xs' e' ys'. stale vo d xs' e' ys' \<and> length xs' = length xs \<and>
        be_tag e' = be_tag e \<and> be_type e' = be_type e \<and>
        map (item_of (md_data d)) xs' = map (item_of (md_data m)) xs \<and>
        map (item_of (md_data d)) ys' = map (item_of (md_data m)) ys \<and>
        md_flags d = md_flags m \<and> md_entry_capacity d = md_entry_capacity m \<and>
        md_data_capacity d = md_data_capacity m \<and> (new = 0 \<longrightarrow> be_data e' = be_data e) \<and>
        (0 < new \<longrightarrow> 8 dvd eoff e' \<and> eoff e' + new \<le> unat (md_data_count d) \<and>
           take (length val) (drop (eoff e') (md_data d)) = val \<and>
           (\<forall>f \<in> set (xs' @ ys'). misses (eoff e') new f)))"

text \<open>Appending a value to the data bytes of a packet with one stale slot.\<close>

lemma append_value:
  fixes sz :: u64
  assumes st: "stale vo d xs e ys" and new: "8 dvd unat sz" "length val \<le> unat sz" "0 < unat sz"
    and fits: "unat (md_data_count d) + unat sz \<le> unat (md_data_capacity d)"
    and w: "mem_write (unat (md_data_count d)) val (md_data d) = Some bs"
    and d': "d' = d\<lparr>md_entries := (md_entries d)[length xs := e\<lparr>be_data := md_data_count d\<rparr>], md_data := bs,
      md_data_count := ucast (ucast (md_data_count d) + sz)\<rparr>"
  shows "moved vo d d' xs e ys val (unat sz) \<and> unat (md_data_count d') = unat (md_data_count d) + unat sz"
proof -
  have lay: "layout_ok d" "counts_ok d" and live: "live d = xs @ e # ys"
    and eo: "entries_ok vo (unat (md_data_count d)) (xs @ ys)"
    using st by (simp_all add: stale_def)
  let ?e = "e\<lparr>be_data := md_data_count d\<rparr>"
  have dc: "unat (md_data_count d') = unat (md_data_count d) + unat sz"
    using fits unat_u32_less [of "md_data_capacity d"]
    by (simp add: d' unsigned_ucast_eq unat_word_ariths take_bit_nat_eq_self)
  have "live d' = xs @ ?e # ys"
    using live stale_slot(3) [OF st] by (simp add: live_def d' take_update_swap)
  moreover have "layout_ok d'" "counts_ok d'"
    using lay mem_write_length [OF w] dc fits new(1) by (simp_all add: d' layout_ok_def counts_ok_def)
  moreover have "entries_ok vo (unat (md_data_count d')) (xs @ ys)"
    using eo dc by (auto simp: entries_ok_def intro: place_ok_mono)
  moreover have "payload bs f = payload (md_data d) f" if "f \<in> set (xs @ ys)" for f
    using eo that by (intro payload_write [OF w]) (auto simp: entries_ok_def place_ok_def type_ok_def)
  then have "map (item_of bs) xs = map (item_of (md_data d)) xs" "map (item_of bs) ys = map (item_of (md_data d)) ys"
    by (auto simp: item_of_def)
  moreover have "eoff ?e = unat (md_data_count d)" by (simp add: eoff_def)
  moreover have "misses (unat (md_data_count d)) (unat sz) f" if "f \<in> set (xs @ ys)" for f
    using eo that by (auto simp: entries_ok_def misses_def place_ok_def)
  ultimately show ?thesis
    using dc lay(2) mem_write_read_same [OF w] new(3) unfolding moved_def stale_def
    by (intro conjI exI [of _ xs] exI [of _ ?e] exI [of _ ys]) (simp_all add: d' counts_ok_def)
qed

lemma moved_nothing: "stale vo d xs e ys \<Longrightarrow> moved vo d d xs e ys val 0"
  unfolding moved_def by (intro exI [of _ xs] exI [of _ e] exI [of _ ys]) simp

lemma moved_after:
  assumes "moved vo m1 d xs' e ys' val new" "length xs' = length xs"
    "map (item_of (md_data m1)) xs' = map (item_of (md_data m)) xs"
    "map (item_of (md_data m1)) ys' = map (item_of (md_data m)) ys"
    "md_flags m1 = md_flags m" "md_entry_capacity m1 = md_entry_capacity m"
    "md_data_capacity m1 = md_data_capacity m"
  shows "moved vo m d xs e ys val new"
  using assms unfolding moved_def by metis

text \<open>Overwriting a stored value by one of the same padded size.\<close>

lemma overwrite_value:
  assumes ok: "packet_ok vo m" and live: "live m = xs @ e # ys" and big: "0 < esize e"
    and val: "length val \<le> esize e" and w: "mem_write (eoff e) val (md_data m) = Some bs"
  shows "moved vo m (m\<lparr>md_data := bs\<rparr>) xs e ys val (esize e)"
proof -
  have st: "stale vo m xs e ys" using ok live by (rule packet_ok_stale)
  have eo: "entries_ok vo (unat (md_data_count m)) (xs @ e # ys)"
    using ok live by (simp add: packet_ok_iff)
  have miss: "\<forall>f \<in> set (xs @ ys). misses (eoff e) (esize e) f"
    using entries_ok_without(2) [OF eo big] .
  have "payload bs f = payload (md_data m) f" if f: "f \<in> set (xs @ ys)" for f
  proof (rule payload_write [OF w])
    show "be_type f < NUM_TYPES" using eo f by (auto simp: entries_ok_def type_ok_def)
    show "eoff f + esize f \<le> eoff e \<or> eoff e + length val \<le> eoff f" if "0 < esize f"
      using miss f that val unfolding misses_def by (meson le_trans add_le_mono order_refl)
  qed
  then have "map (item_of bs) xs = map (item_of (md_data m)) xs" "map (item_of bs) ys = map (item_of (md_data m)) ys"
    by (auto simp: item_of_def)
  moreover have "stale vo (m\<lparr>md_data := bs\<rparr>) xs e ys"
    using st mem_write_length [OF w] by (simp add: stale_def layout_ok_def counts_ok_def live_def)
  moreover have "place_ok (unat (md_data_count m)) e" using eo by (simp add: entries_ok_def)
  ultimately show ?thesis
    using big miss mem_write_read_same [OF w] unfolding moved_def
    by (intro exI [of _ xs] exI [of _ e] exI [of _ ys]) (simp add: place_ok_def)
qed

text \<open>The second half of the data step: append the new value if it needs data bytes.\<close>

lemma store_value:
  fixes sz index :: u64
  assumes st: "stale vo d xs e ys" and i: "unat index = length xs"
    and fits: "unat (md_data_count d) + unat sz \<le> unat (md_data_capacity d)"
    and new: "8 dvd unat sz" "0 < unat sz \<Longrightarrow> p \<le> unat sz" "p \<le> length bytes"
  shows "\<exists>d'. (if sz \<noteq> 0 then
      bindE (deref (memcpy (unat (md_data_count d)) bytes p (md_data d))) (\<lambda>bs.
      Ret (d\<lparr>md_entries := (md_entries d)[unat index := (md_entries d ! unat index)\<lparr>be_data := md_data_count d\<rparr>],
             md_data := bs, md_data_count := ucast (ucast (md_data_count d) + sz)\<rparr>))
      else Ret d) = Ret d' \<and> moved vo d d' xs e ys (take p bytes) (unat sz) \<and>
    unat (md_data_count d') = unat (md_data_count d) + unat sz"
proof (cases "sz = 0")
  case True
  then show ?thesis using moved_nothing [OF st] by simp
next
  case False
  then have pos: "0 < unat sz" by (simp add: word_neq_0_conv word_less_nat_alt)
  have lay: "layout_ok d" using st by (simp add: stale_def)
  have p: "p \<le> unat sz" using new(2) pos .
  obtain bs where bs: "memcpy (unat (md_data_count d)) bytes p (md_data d) = Some bs"
    and w: "mem_write (unat (md_data_count d)) (take p bytes) (md_data d) = Some bs"
    using fits new(3) p lay by (simp add: memcpy_def mem_read_def mem_write_def layout_ok_def)
  show ?thesis
    using False bs i stale_slot(2) [OF st] append_value [OF st new(1) _ pos fits w refl] p by simp
qed

text \<open>
  The data step of an update, by cases on the padded sizes of the old and the new value.
\<close>

definition data_updated ::
    "vendor_tag_ops option \<Rightarrow> camera_metadata \<Rightarrow> u64 \<Rightarrow> camera_metadata_buffer_entry list \<Rightarrow>
     camera_metadata_buffer_entry \<Rightarrow> camera_metadata_buffer_entry list \<Rightarrow> u8 list \<Rightarrow> u64 \<Rightarrow> bool" where
  "data_updated vo m index xs e ys bytes n \<longleftrightarrow>
     (\<exists>d. update_entry_data m index bytes (unat n * tsize (be_type e))
           (calculate_camera_metadata_entry_data_size (be_type e) n)
           (calculate_camera_metadata_entry_data_size (be_type e) (ucast (be_count e))) = Ret d \<and>
        moved vo m d xs e ys (value_of (be_type e) n bytes) (new_size (be_type e) n) \<and>
        unat (md_data_count d) = unat (md_data_count m) - esize e + new_size (be_type e) n)"

lemma new_size_self [simp]: "new_size (be_type e) (ucast (be_count e)) = esize e"
  by (simp add: new_size_def esize_def)

lemma data_word_eq:
  "unat (calculate_camera_metadata_entry_data_size t n) = new_size t n"
  "calculate_camera_metadata_entry_data_size t n = 0 \<longleftrightarrow> new_size t n = 0"
  by (simp_all add: new_size_def unat_eq_0)

lemma data_word_neq:
  "calculate_camera_metadata_entry_data_size t n = calculate_camera_metadata_entry_data_size t n' \<longleftrightarrow>
   new_size t n = new_size t n'"
  by (simp add: new_size_def word_unat_eq_iff)

lemma new_size_bounds:
  assumes "readable t n bytes" "t < NUM_TYPES"
  shows "0 < new_size t n \<Longrightarrow> unat n * tsize t \<le> new_size t n" "8 dvd new_size t n"
  using readable_sizes(2) [OF assms] round8_ge [of "unat n * tsize t"] by (auto split: if_splits)

lemma update_data_same:
  assumes ok: "packet_ok vo m" and live: "live m = xs @ e # ys" and i: "unat index = length xs"
    and arr: "readable (be_type e) n bytes" and same: "new_size (be_type e) n = esize e"
  shows "data_updated vo m index xs e ys bytes n"
proof -
  let ?p = "unat n * tsize (be_type e)"
  note okm = packet_okD [OF ok]
  have st: "stale vo m xs e ys" using ok live by (rule packet_ok_stale)
  have e: "be_type e < NUM_TYPES" "place_ok (unat (md_data_count m)) e" using okm(4,5) live by auto
  have at: "md_entries m ! unat index = e" using stale_slot(2) [OF st] i by simp
  show ?thesis
  proof (cases "esize e = 0")
    case True
    then show ?thesis
      using same moved_nothing [OF st]
      by (simp add: data_updated_def update_entry_data_def Let_def data_word_eq data_word_neq)
  next
    case False
    then have off: "eoff e + esize e \<le> unat (md_data_count m)" "?p \<le> esize e"
      using e(2) new_size_bounds(1) [OF arr e(1)] same by (simp_all add: place_ok_def)
    then have "eoff e + esize e \<le> length (md_data m)"
      using okm(1,2) by (simp add: layout_ok_def counts_ok_def)
    then obtain bs where bs: "memcpy (unat (be_data e)) bytes ?p (md_data m) = Some bs"
      and w: "mem_write (eoff e) (take ?p bytes) (md_data m) = Some bs"
      using readable_sizes(3) [OF arr e(1)] off(2)
      by (simp add: memcpy_def mem_read_def mem_write_def eoff_def)
    have "0 < esize e" using False by simp
    from overwrite_value [OF ok live this _ w] off False same at bs show ?thesis
      by (simp add: data_updated_def update_entry_data_def Let_def value_of_def data_word_eq data_word_neq)
  qed
qed

lemma update_data_inline:
  assumes ok: "packet_ok vo m" and live: "live m = xs @ e # ys" and i: "unat index = length xs"
    and arr: "readable (be_type e) n bytes" and diff: "new_size (be_type e) n \<noteq> esize e" "esize e = 0"
    and fits: "unat (md_data_count m) + new_size (be_type e) n \<le> unat (md_data_capacity m)"
  shows "data_updated vo m index xs e ys bytes n"
proof -
  have st: "stale vo m xs e ys" using ok live by (rule packet_ok_stale)
  have e: "be_type e < NUM_TYPES" using packet_okD(4) [OF ok] live by auto
  from store_value [OF st i, where sz = "calculate_camera_metadata_entry_data_size (be_type e) n"
      and p = "unat n * tsize (be_type e)" and bytes = bytes]
  show ?thesis
    using fits diff new_size_bounds [OF arr e] readable_sizes(3) [OF arr e]
    by (simp add: data_updated_def update_entry_data_def Let_def value_of_def data_word_eq data_word_neq)
qed

lemma update_data_stored:
  assumes ok: "packet_ok vo m" and live: "live m = xs @ e # ys" and i: "unat index = length xs"
    and arr: "readable (be_type e) n bytes" and diff: "new_size (be_type e) n \<noteq> esize e" "0 < esize e"
    and fits: "unat (md_data_count m) - esize e + new_size (be_type e) n \<le> unat (md_data_capacity m)"
  shows "data_updated vo m index xs e ys bytes n"
proof -
  let ?old = "calculate_camera_metadata_entry_data_size (be_type e) (ucast (be_count e))"
  let ?new = "calculate_camera_metadata_entry_data_size (be_type e) n"
  let ?p = "unat n * tsize (be_type e)"
  have e: "be_type e < NUM_TYPES" using packet_okD(4) [OF ok] live by auto
  have at: "md_entries m ! unat index = e"
    using stale_slot(2) [OF packet_ok_stale [OF ok live]] i by simp
  obtain m1 xs' ys' where rm: "remove_data m (be_data e) ?old = Ret m1"
    and st1: "stale vo m1 xs' e ys'" and len: "length xs' = length xs"
    and maps: "map (item_of (md_data m1)) xs' = map (item_of (md_data m)) xs"
      "map (item_of (md_data m1)) ys' = map (item_of (md_data m)) ys"
    and same: "md_flags m1 = md_flags m" "md_entry_capacity m1 = md_entry_capacity m"
      "md_data_capacity m1 = md_data_capacity m"
    and dc: "unat (md_data_count m1) = unat (md_data_count m) - esize e"
    by (rule remove_data_packet [OF ok live diff(2)]) (simp add: stale_def)
  have "unat index = length xs'" using i len by simp
  from store_value [OF st1 this, where sz = ?new and p = ?p and bytes = bytes]
  obtain d' where "(if ?new \<noteq> 0 then
      bindE (deref (memcpy (unat (md_data_count m1)) bytes ?p (md_data m1))) (\<lambda>bs.
      Ret (m1\<lparr>md_entries := (md_entries m1)[unat index := (md_entries m1 ! unat index)\<lparr>be_data := md_data_count m1\<rparr>],
           md_data := bs, md_data_count := ucast (ucast (md_data_count m1) + ?new)\<rparr>))
      else Ret m1) = Ret d'" and mv: "moved vo m1 d' xs' e ys' (take ?p bytes) (unat ?new)"
    and "unat (md_data_count d') = unat (md_data_count m1) + unat ?new"
    using fits dc same(3) new_size_bounds [OF arr e] readable_sizes(3) [OF arr e]
    by (auto simp: data_word_eq)
  with diff rm at dc moved_after [OF mv len maps same] show ?thesis
    by (simp add: data_updated_def update_entry_data_def Let_def value_of_def data_word_eq data_word_neq)
qed

lemma update_data_correct:
  assumes "packet_ok vo m" "live m = xs @ e # ys" "unat index = length xs" "readable (be_type e) n bytes"
    and "new_size (be_type e) n \<noteq> esize e \<Longrightarrow>
      unat (md_data_count m) - esize e + new_size (be_type e) n \<le> unat (md_data_capacity m)"
  shows "data_updated vo m index xs e ys bytes n"
  using update_data_same [OF assms(1-4)] update_data_inline [OF assms(1-4)]
    update_data_stored [OF assms(1-4)] assms(5)
  by (cases "esize e = 0") auto

lemma slot_entry:
  assumes new: "new_size t n = new" "new < 2 ^ 32" and arr: "readable t n bytes" "t < NUM_TYPES"
    and e: "be_type e = t" "be_count e = ucast n"
    and inline: "new = 0 \<Longrightarrow> take (unat n * tsize t) (le_bytes32 (be_data e)) = value_of t n bytes \<and>
      (n = 0 \<longrightarrow> be_data e = 0)"
    and stored: "0 < new \<Longrightarrow> 8 dvd eoff e \<and> eoff e + new \<le> dc \<and>
      take (length (value_of t n bytes)) (drop (eoff e) data) = value_of t n bytes \<and>
      (\<forall>f \<in> S. misses (eoff e) new f)"
  shows "place_ok dc e \<and> payload data e = value_of t n bytes \<and> (\<forall>f \<in> S. apart f e)"
proof -
  note sz = entry_sizes [OF arr, of e]
  have "esize e = new" "eplen e = unat n * tsize t" "be_count e = 0 \<longleftrightarrow> n = 0"
    using sz new e by simp_all
  moreover have "length (value_of t n bytes) = unat n * tsize t"
    using readable_sizes(3) [OF arr] by (simp add: value_of_def)
  ultimately show ?thesis
    using inline stored by (auto simp: place_ok_def payload_def apart_def misses_def)
qed

lemma update_slot_correct:
  assumes mv: "moved vo m d xs e ys (value_of (be_type e) n bytes) (new_size (be_type e) n)"
    and arr: "readable (be_type e) n bytes" and e: "type_ok vo e" and new: "new_size (be_type e) n < 2 ^ 32"
    and i: "unat index = length xs" and zero: "n = 0 \<Longrightarrow> be_data e = 0"
  shows "\<exists>d'. update_entry_slot d index bytes (unat n * tsize (be_type e))
      (calculate_camera_metadata_entry_data_size (be_type e) n) n = Ret d' \<and> packet_ok vo d' \<and>
    items d' = map (item_of (md_data m)) xs @ (be_tag e, be_type e, value_of (be_type e) n bytes) #
      map (item_of (md_data m)) ys \<and>
    abs_packet d' = (abs_packet m)\<lparr>st_used := unat (md_data_count d), st_items := items d'\<rparr>"
proof -
  let ?t = "be_type e" and ?p = "unat n * tsize (be_type e)"
  have t: "?t < NUM_TYPES" using e by (simp add: type_ok_def)
  obtain xs' e' ys' where st: "stale vo d xs' e' ys'" and len: "length xs' = length xs"
    and e': "be_tag e' = be_tag e" "be_type e' = ?t"
    and maps: "map (item_of (md_data d)) xs' = map (item_of (md_data m)) xs"
      "map (item_of (md_data d)) ys' = map (item_of (md_data m)) ys"
    and same: "md_flags d = md_flags m" "md_entry_capacity d = md_entry_capacity m"
      "md_data_capacity d = md_data_capacity m"
    and w0: "new_size ?t n = 0 \<longrightarrow> be_data e' = be_data e"
    and stored: "0 < new_size ?t n \<longrightarrow> 8 dvd eoff e' \<and> eoff e' + new_size ?t n \<le> unat (md_data_count d) \<and>
      take (length (value_of ?t n bytes)) (drop (eoff e') (md_data d)) = value_of ?t n bytes \<and>
      (\<forall>f \<in> set (xs' @ ys'). misses (eoff e') (new_size ?t n) f)"
    using mv unfolding moved_def by (elim exE conjE) (rule that)
  have at: "md_entries d ! unat index = e'" "unat index < length (md_entries d)"
    using stale_slot(1,2) [OF st] i len by simp_all
  have "new_size ?t n = 0 \<Longrightarrow> ?p \<le> 4"
    using readable_sizes(2) [OF arr t] round8_ge [of ?p] by (auto split: if_splits)
  then obtain w where w: "new_size ?t n = 0 \<Longrightarrow> write_value bytes ?p (be_data e') = Some w \<and>
      take ?p (le_bytes32 w) = take ?p bytes \<and> (n = 0 \<longrightarrow> w = 0)"
    using write_value_Some [of ?p bytes "be_data e'"] readable_sizes(3) [OF arr t] w0 zero
    by (metis mult_0 unat_0)
  define e'' where "e'' = (if new_size ?t n = 0 then e'\<lparr>be_data := w\<rparr> else e')\<lparr>be_count := ucast n\<rparr>"
  define d' where "d' = d\<lparr>md_entries := (md_entries d)[length xs' := e''], md_data := md_data d,
    md_data_count := md_data_count d\<rparr>"
  have run: "update_entry_slot d index bytes ?p (calculate_camera_metadata_entry_data_size ?t n) n = Ret d'"
    using w at i len by (simp add: update_entry_slot_def data_word_eq d'_def e''_def)
  have sl: "place_ok (unat (md_data_count d)) e'' \<and> payload (md_data d) e'' = value_of ?t n bytes \<and>
      (\<forall>f \<in> set (xs' @ ys'). apart f e'')"
    by (rule slot_entry [OF refl new arr t])
      (use w stored e' in \<open>auto simp: e''_def eoff_def value_of_def\<close>)
  have ty: "type_ok vo e''" using e e' by (simp add: e''_def type_ok_def)
  have cnt: "unat (md_data_count d) \<le> unat (md_data_capacity d)" "8 dvd unat (md_data_count d)"
    using st by (simp_all add: stale_def counts_ok_def)
  have "packet_ok vo d' \<and> live d' = xs' @ e'' # ys' \<and>
      items d' = map (item_of (md_data d)) xs' @ item_of (md_data d) e'' # map (item_of (md_data d)) ys'"
    by (rule put_entry [OF st refl order_refl cnt ty _ _ d'_def]) (use sl in auto)
  with run sl maps e' same show ?thesis
    by (auto simp: item_of_def abs_packet_def) (simp_all add: d'_def e''_def)
qed

text \<open>
  The guard of an update compares the data bytes after the update with the capacity.
\<close>

lemma update_guard:
  assumes ok: "packet_ok vo m" and live: "live m = xs @ e # ys" and arr: "readable (be_type e) n bytes"
  shows "calculate_camera_metadata_entry_data_size (be_type e) n \<noteq>
      calculate_camera_metadata_entry_data_size (be_type e) (ucast (be_count e)) \<and>
    ucast (md_data_capacity m) < ucast (md_data_count m) + calculate_camera_metadata_entry_data_size (be_type e) n -
      calculate_camera_metadata_entry_data_size (be_type e) (ucast (be_count e)) \<longleftrightarrow>
    unat (md_data_capacity m) < unat (md_data_count m) - esize e + new_size (be_type e) n"
proof -
  let ?new = "calculate_camera_metadata_entry_data_size (be_type e) n"
  let ?old = "calculate_camera_metadata_entry_data_size (be_type e) (ucast (be_count e))"
  note okm = packet_okD [OF ok]
  have e: "e \<in> set (live m)" by (simp add: live)
  have sz: "unat ?old = esize e" "unat ?new = new_size (be_type e) n" by (simp_all add: data_word_eq)
  have old: "esize e \<le> unat (md_data_count m)" using okm(5) [OF e] by (cases "0 < esize e") (simp_all add: place_ok_def)
  have "new_size (be_type e) n < 2 ^ 63 + 8"
    using readable_sizes(2,3) [OF arr okm(4) [OF e]] arr round8_less [of "unat n * tsize (be_type e)"]
    by (auto simp: readable_def split: if_splits)
  then have sum: "unat (ucast (md_data_count m) + ?new) = unat (md_data_count m) + new_size (be_type e) n"
    using unat_u32_less [of "md_data_count m"] by (simp add: unat_word_ariths sz)
  then have "unat (ucast (md_data_count m) + ?new - ?old) = unat (md_data_count m) - esize e + new_size (be_type e) n"
    using old sz by (simp add: unat_sub_if')
  moreover have "new_size (be_type e) n = esize e \<Longrightarrow> unat (md_data_count m) - esize e + new_size (be_type e) n \<le> unat (md_data_capacity m)"
    using old okm(2) by (simp add: counts_ok_def)
  ultimately show ?thesis
    using sz by (auto simp: word_less_nat_alt data_word_neq)
qed

lemma update_correct:
  assumes ok: "packet_ok vo m" and i: "unat index < length (items m)"
    and it: "items m ! unat index = (tag, t, old)" and arr: "readable t n bytes"
    and zero: "n = 0 \<Longrightarrow> be_data (md_entries m ! unat index) = 0"
  shows "if st_data_cap (abs_packet m) < st_used (abs_packet m) - item_size (tag, t, old) + new_size t n
    then update_camera_metadata_entry vo (Some m) index (Some bytes) n want = Ret (ERROR, Some m, None)
    else \<exists>m'. update_camera_metadata_entry vo (Some m) index (Some bytes) n want =
             Ret (OK, Some m', if want then Some (view_entry m' (unat index)) else None) \<and>
           packet_ok vo m' \<and>
           abs_packet m' = (abs_packet m)\<lparr>
             st_used := st_used (abs_packet m) - item_size (tag, t, old) + new_size t n,
             st_items := (items m)[unat index := (tag, t, value_of t n bytes)]\<rparr>"
proof -
  note okm = packet_okD [OF ok]
  obtain xs e ys where live: "live m = xs @ e # ys" and xs: "unat index = length xs"
    and guard: "\<not> ucast (md_entry_count m) \<le> index" and rd: "array_read (md_entries m) (unat index) = Ret e"
    and nth: "items m ! unat index = item_of (md_data m) e"
    and maps: "map (item_of (md_data m)) xs = take (unat index) (items m)"
      "map (item_of (md_data m)) ys = drop (Suc (unat index)) (items m)"
    and sz: "item_size (items m ! unat index) = esize e"
    using index_split [OF ok i] by metis
  have e: "be_tag e = tag" "be_type e = t" using nth it by (simp_all add: item_of_def)
  have el: "e \<in> set (live m)" by (simp add: live)
  have t: "t < NUM_TYPES" using okm(4) [OF el] e by simp
  have arr': "readable (be_type e) n bytes" using arr e by simp
  note full = update_guard [OF ok live arr']
  note unfolded = update_camera_metadata_entry_def guard rd array_read_type_size [OF t] readable_sizes(1) [OF arr t]
  show ?thesis
  proof (cases "unat (md_data_capacity m) < unat (md_data_count m) - esize e + new_size t n")
    case True
    then show ?thesis using full sz it e by (simp add: unfolded abs_packet_def Let_def)
  next
    case False
    then have fits: "new_size t n \<noteq> esize e \<Longrightarrow>
        unat (md_data_count m) - esize e + new_size t n \<le> unat (md_data_capacity m)" by simp
    obtain d where d: "update_entry_data m index bytes (unat n * tsize t)
          (calculate_camera_metadata_entry_data_size t n)
          (calculate_camera_metadata_entry_data_size t (ucast (be_count e))) = Ret d"
      and mv: "moved vo m d xs e ys (value_of t n bytes) (new_size t n)"
      and dc: "unat (md_data_count d) = unat (md_data_count m) - esize e + new_size t n"
      using update_data_correct [OF ok live xs arr'] fits e by (auto simp: data_updated_def)
    have lt: "new_size t n < 2 ^ 32" using False unat_u32_less [of "md_data_capacity m"] by simp
    have z: "n = 0 \<Longrightarrow> be_data e = 0" using zero rd by (auto simp: array_read_def split: if_splits)
    obtain d' where d': "update_entry_slot d index bytes (unat n * tsize t)
          (calculate_camera_metadata_entry_data_size t n) n = Ret d'" "packet_ok vo d'"
      "items d' = (items m)[unat index := (tag, t, value_of t n bytes)]"
      "abs_packet d' = (abs_packet m)\<lparr>st_used := unat (md_data_count d), st_items := items d'\<rparr>"
      using update_slot_correct [of vo m d xs e ys n bytes index] mv arr okm(3) [OF el] lt xs z e maps i
      by (auto simp: upd_conv_take_nth_drop)
    have "get_camera_metadata_entry (Some d') index True = Ret (OK, Some (view_entry d' (unat index)))"
      using get_entry_eq [OF d'(2), of index] d'(3) i by (simp flip: length_items)
    then have "update_camera_metadata_entry vo (Some m) index (Some bytes) n want =
        Ret (OK, Some d', if want then Some (view_entry d' (unat index)) else None)"
      using False full e d d'(1) by (simp add: unfolded Let_def assert_valid_ok [OF d'(2)])
    moreover have "st_data_cap (abs_packet m) = unat (md_data_capacity m)"
      "st_used (abs_packet m) = unat (md_data_count m)" by (simp_all add: abs_packet_def)
    ultimately show ?thesis
      using False sz it d'(2-4) dc by simp
  qed
qed

end
