(* ===== verification/Metadata_Build.thy ===== *)
theory Metadata_Build
  imports Metadata_Edit
begin

text \<open>
  Creating packets and combining them: placing an empty packet in a buffer, copying a packet
  compactly, appending one packet to another and cloning.
\<close>

section \<open>Placing an empty packet\<close>

text \<open>The bytes a packet of \<open>n\<close> slots and \<open>d\<close> data bytes takes.\<close>

definition packet_bytes :: "nat \<Rightarrow> nat \<Rightarrow> nat" where
  "packet_bytes n d = round8 (36 + 16 * n) + d"

lemma ALIGN_TO_36: "ALIGN_TO 36 4 = 36"
  using ALIGN_TO_4_iff [of 36] by simp

lemma unat_slots_end:
  fixes n :: u64
  assumes "packet_bytes (unat n) 0 < 2 ^ 64"
  shows "unat (36 + 16 * n) = 36 + 16 * unat n"
    and "unat (ALIGN_TO (36 + 16 * n) 8) = round8 (36 + 16 * unat n)"
proof -
  have r: "36 + 16 * unat n \<le> round8 (36 + 16 * unat n)" by (rule round8_ge)
  with assms have lt: "36 + 16 * unat n < 2 ^ 64" by (simp add: packet_bytes_def)
  then show s: "unat (36 + 16 * n) = 36 + 16 * unat n"
    by (simp add: unat_word_ariths)
  have "unat (36 + 16 * n) + 7 < 2 ^ 64"
  proof -
    have "8 dvd (2::nat) ^ 64" by simp
    moreover have "8 dvd round8 (36 + 16 * unat n)" by simp
    ultimately show ?thesis
      using assms lt unfolding s packet_bytes_def by (simp add: round8_def)
  qed
  then show "unat (ALIGN_TO (36 + 16 * n) 8) = round8 (36 + 16 * unat n)"
    using unat_ALIGN_TO [of 8 3 "36 + 16 * n"] s by (simp add: round8_def)
qed

lemma calculate_size_eq:
  assumes "packet_bytes (unat n) (unat d) < 2 ^ 64"
  shows "unat (calculate_camera_metadata_size n d) = packet_bytes (unat n) (unat d)"
proof -
  have "packet_bytes (unat n) 0 < 2 ^ 64" using assms by (simp add: packet_bytes_def)
  from unat_slots_end(2) [OF this] assms show ?thesis
    by (simp add: calculate_camera_metadata_size_def Let_def c_defs ALIGN_TO_36 unat_word_ariths
        packet_bytes_def)
qed

lemma length_slots_of_bytes: "16 * n \<le> length bs \<Longrightarrow> length (slots_of_bytes n bs) = n"
  by (induction n bs rule: slots_of_bytes.induct) auto

definition empty_store :: "nat \<Rightarrow> nat \<Rightarrow> md_store" where
  "empty_store n d = \<lparr>st_entry_cap = n, st_data_cap = d, st_used = 0, st_items = [], st_sorted = False\<rparr>"

text \<open>A block that holds what a caller says it holds: aligned, and of the given size.\<close>

definition block_ok :: "u64 \<Rightarrow> block \<Rightarrow> bool" where
  "block_ok sz0 b \<longleftrightarrow> 8 dvd unat (fst b) \<and> length (snd b) = unat sz0"

lemma place_correct:
  assumes b: "block_ok sz0 b" and fits: "packet_bytes (unat n) (unat d) \<le> unat sz0"
    and small: "packet_bytes (unat n) (unat d) < 2 ^ 32"
  shows "\<exists>m. place_camera_metadata vo (Some b) sz0 n d = Ret (Some m) \<and> packet_ok vo m \<and>
    abs_packet m = empty_store (unat n) (unat d)"
proof -
  obtain addr bs where b': "b = (addr, bs)" by (cases b)
  have len: "packet_bytes (unat n) (unat d) \<le> length bs" and al: "8 dvd unat addr"
    using b fits by (simp_all add: block_ok_def b')
  have r: "36 + 16 * unat n \<le> round8 (36 + 16 * unat n)" by (rule round8_ge)
  have lt: "round8 (36 + 16 * unat n) < 2 ^ 32" "unat n < 2 ^ 32" "unat d < 2 ^ 32"
    using small r by (simp_all add: packet_bytes_def)
  have sz: "unat (calculate_camera_metadata_size n d) = packet_bytes (unat n) (unat d)"
    by (rule calculate_size_eq) (use small in simp)
  have n32: "unat (ucast n :: u32) = unat n" "unat (ucast d :: u32) = unat d"
    using lt by (simp_all add: unsigned_ucast_eq take_bit_nat_eq_self)
  then have n64: "ucast (ucast n :: u32) = n"
    unfolding word_unat_eq_iff unat_ucast_32_64 by simp
  have ds: "unat (ucast (ALIGN_TO (36 + 16 * n) 8) :: u32) = round8 (36 + 16 * unat n)"
    using lt unat_slots_end(2) [of n] by (simp add: unsigned_ucast_eq take_bit_nat_eq_self packet_bytes_def)
  have "unat (ucast (calculate_camera_metadata_size n d) :: u32) = packet_bytes (unat n) (unat d)"
    using small sz by (simp add: unsigned_ucast_eq take_bit_nat_eq_self)
  define m where "m = \<lparr>md_addr = addr, md_size = ucast (calculate_camera_metadata_size n d),
     md_version = CURRENT_METADATA_VERSION, md_flags = 0, md_entry_count = 0, md_entry_capacity = ucast n,
     md_entries_start = 36, md_data_count = 0, md_data_capacity = ucast d,
     md_data_start = ucast (ALIGN_TO (36 + 16 * n) 8), md_entries = slots_of_bytes (unat n) (drop 36 bs),
     md_data = take (unat d) (drop (round8 (36 + 16 * unat n)) bs)\<rparr>"
  have ok: "packet_ok vo m"
  proof (rule packet_okI)
    show "layout_ok m"
      using al len n32 ds r \<open>unat (ucast (calculate_camera_metadata_size n d) :: u32) = _\<close>
      by (simp add: layout_ok_def m_def packet_bytes_def length_slots_of_bytes)
  qed (simp_all add: counts_ok_def live_def m_def)
  have "\<not> sz0 < calculate_camera_metadata_size n d" "\<not> length bs < 36"
    using fits len r sz by (simp_all add: word_less_nat_alt packet_bytes_def)
  then have "place_camera_metadata vo (Some b) sz0 n d = Ret (Some m)"
    using assert_valid_ok [OF ok, of "Some m"] n32 n64 ds
    by (simp add: place_camera_metadata_def b' Let_def c_defs ALIGN_TO_36 m_def)
  moreover have "abs_packet m = empty_store (unat n) (unat d)"
    using n32 by (simp add: abs_packet_def empty_store_def items_def live_def m_def)
  ultimately show ?thesis using ok by blast
qed

lemma allocate_correct:
  assumes m: "malloc (calculate_camera_metadata_size n d) = Some b"
      "block_ok (calculate_camera_metadata_size n d) b"
    and small: "packet_bytes (unat n) (unat d) < 2 ^ 32"
  shows "\<exists>m. allocate_camera_metadata vo malloc n d = Ret (Some m) \<and> packet_ok vo m \<and>
    abs_packet m = empty_store (unat n) (unat d)"
  using place_correct [OF m(2) _ small] small m(1) calculate_size_eq [of n d]
  by (simp add: allocate_camera_metadata_def)

section \<open>Appending\<close>

text \<open>Only the data bytes in use matter to the items.\<close>

lemma item_of_prefix:
  assumes "be_type e < NUM_TYPES" "place_ok n e" "take n data' = take n data"
  shows "item_of data' e = item_of data e"
proof (cases "0 < esize e")
  case True
  then have l: "eplen e \<le> n - eoff e"
    using assms(2) eplen_le_esize [OF assms(1) True] by (auto simp: place_ok_def)
  have "take (eplen e) (drop (eoff e) (take n data')) = take (eplen e) (drop (eoff e) (take n data))"
    using assms(3) by simp
  with True l show ?thesis by (simp add: item_of_def payload_def drop_take min_absorb1)
qed (simp add: item_of_def payload_def)

lemma shift_up_same [simp]:
  "be_tag (shift_offset_up k f) = be_tag f" "be_type (shift_offset_up k f) = be_type f"
  "be_count (shift_offset_up k f) = be_count f" "esize (shift_offset_up k f) = esize f"
  "eplen (shift_offset_up k f) = eplen f" "type_ok vo (shift_offset_up k f) = type_ok vo f"
  by (simp_all add: shift_offset_up_def esize_def eplen_def type_ok_def)

lemma shift_up_inline: "esize f = 0 \<Longrightarrow> shift_offset_up k f = f"
  by (simp add: shift_offset_up_def esize_word_pos)

lemma shift_up_0: "shift_offset_up 0 f = f"
  by (simp add: shift_offset_up_def)

lemma shift_up_eoff:
  "0 < esize f \<Longrightarrow> eoff f + unat k < 2 ^ 32 \<Longrightarrow> eoff (shift_offset_up k f) = eoff f + unat k"
  by (simp add: shift_offset_up_def esize_word_pos eoff_def unat_word_ariths)

text \<open>An entry of the source, moved behind the data bytes of the destination.\<close>

lemma shift_up_entry:
  assumes f: "place_ok n f" "be_type f < NUM_TYPES" and lt: "unat k + n < 2 ^ 32" "8 dvd unat k"
    and data: "take n (drop (unat k) data') = take n data" and len: "n \<le> length data"
  shows "place_ok (unat k + n) (shift_offset_up k f)"
    and "item_of data' (shift_offset_up k f) = item_of data f"
    and "0 < esize f \<Longrightarrow> unat k \<le> eoff (shift_offset_up k f)"
proof -
  have off: "0 < esize f \<Longrightarrow> eoff (shift_offset_up k f) = eoff f + unat k"
    using f(1) lt(1) by (intro shift_up_eoff) (auto simp: place_ok_def)
  show "place_ok (unat k + n) (shift_offset_up k f)"
    using f(1) lt(2) off shift_up_inline [of f k] by (auto simp: place_ok_def)
  show "0 < esize f \<Longrightarrow> unat k \<le> eoff (shift_offset_up k f)" using off by simp
  show "item_of data' (shift_offset_up k f) = item_of data f"
  proof (cases "0 < esize f")
    case True
    then have l: "eoff f + eplen f \<le> n" using f eplen_le_esize [OF f(2) True] by (simp add: place_ok_def)
    have "take (eplen f) (drop (eoff f) (take n (drop (unat k) data'))) =
        take (eplen f) (drop (eoff f) (take n data))" using data by simp
    then have "take (eplen f) (drop (eoff f + unat k) data') = take (eplen f) (drop (eoff f) data)"
      using l min_absorb1 [of "eplen f" "n - eoff f"] by (simp add: drop_take ac_simps)
    with True off show ?thesis by (simp add: item_of_def payload_def)
  qed (simp add: item_of_def payload_def shift_up_inline)
qed

lemma shift_up_apart:
  assumes "apart f g" "place_ok n f" "place_ok n g" "unat k + n < 2 ^ 32"
  shows "apart (shift_offset_up k f) (shift_offset_up k g)"
proof -
  have "0 < esize f \<Longrightarrow> eoff (shift_offset_up k f) = eoff f + unat k"
    "0 < esize g \<Longrightarrow> eoff (shift_offset_up k g) = eoff g + unat k"
    using assms(2-4) by (auto intro!: shift_up_eoff simp: place_ok_def)
  with assms(1) show ?thesis by (auto simp: apart_def)
qed

lemma append_entries:
  assumes d: "entries_ok vo (unat k) es" and s: "entries_ok vo n fs"
    and lt: "unat k + n < 2 ^ 32" "8 dvd unat k"
    and data: "take n (drop (unat k) data') = take n data" and len: "n \<le> length data"
  shows "entries_ok vo (unat k + n) (es @ map (shift_offset_up k) fs)"
    and "map (item_of data') (map (shift_offset_up k) fs) = map (item_of data) fs"
proof -
  have f: "place_ok n f" "be_type f < NUM_TYPES" "type_ok vo f" if "f \<in> set fs" for f
    using s that by (auto simp: entries_ok_def type_ok_def)
  note up = shift_up_entry [OF f(1,2) lt data len]
  have "apart e (shift_offset_up k f)" if "e \<in> set es" "f \<in> set fs" for e f
    using up(3) [OF that(2) that(2)] d that(1) by (auto simp: apart_def entries_ok_def place_ok_def)
  moreover have "sorted_wrt (\<lambda>f g. apart (shift_offset_up k f) (shift_offset_up k g)) fs"
    by (rule sorted_wrt_mono_rel [of fs apart])
      (use s lt(1) in \<open>auto simp: entries_ok_def intro: shift_up_apart\<close>)
  ultimately have "sorted_wrt apart (es @ map (shift_offset_up k) fs)"
    using d by (auto simp: entries_ok_def sorted_wrt_append sorted_wrt_map)
  moreover have "type_ok vo e \<and> place_ok (unat k + n) e" if "e \<in> set es" for e
    using d that by (auto simp: entries_ok_def intro: place_ok_mono)
  ultimately show "entries_ok vo (unat k + n) (es @ map (shift_offset_up k) fs)"
    using up(1) f(3) by (auto simp: entries_ok_def)
  show "map (item_of data') (map (shift_offset_up k) fs) = map (item_of data) fs"
    using up(2) by simp
qed

definition append_sorted :: "md_store \<Rightarrow> md_store \<Rightarrow> bool" where
  "append_sorted d s =
     (if st_items d = [] then st_sorted d \<or> st_sorted s
      else if st_items s \<noteq> [] then False else st_sorted d)"

lemma memcpy_Some:
  assumes "n \<le> length src" "off + n \<le> length mem"
  shows "memcpy off src n mem = Some (take off mem @ take n src @ drop (off + n) mem)"
  using assms by (simp add: memcpy_def mem_read_def mem_write_def)

lemma flag_bit: "w AND FLAG_SORTED \<noteq> 0 \<longleftrightarrow> bit w 0"
  by (simp add: FLAG_SORTED_def and_one_eq bit_0 odd_iff_mod_2_eq_one)

lemma flag_or_sorted:
  "(w OR (v AND FLAG_SORTED)) AND FLAG_SORTED \<noteq> 0 \<longleftrightarrow> w AND FLAG_SORTED \<noteq> 0 \<or> v AND FLAG_SORTED \<noteq> 0"
  unfolding flag_bit by (auto simp: bit_or_iff bit_and_iff FLAG_SORTED_def)

text \<open>What \<open>append_camera_metadata\<close> makes of the destination once it fits.\<close>

definition appended :: "camera_metadata \<Rightarrow> camera_metadata \<Rightarrow> camera_metadata" where
  "appended d s = d\<lparr>
     md_entries := live d @ map (shift_offset_up (md_data_count d)) (live s) @
       drop (unat (md_entry_count d) + unat (md_entry_count s)) (md_entries d),
     md_data := take (unat (md_data_count d)) (md_data d) @ take (unat (md_data_count s)) (md_data s) @
       drop (unat (md_data_count d) + unat (md_data_count s)) (md_data d),
     md_flags := (if md_entry_count d = 0 then md_flags d OR (md_flags s AND FLAG_SORTED)
                  else if md_entry_count s \<noteq> 0 then md_flags d AND NOT FLAG_SORTED else md_flags d),
     md_entry_count := md_entry_count d + md_entry_count s,
     md_data_count := md_data_count d + md_data_count s\<rparr>"

lemma append_run:
  assumes d: "layout_ok d" "counts_ok d" and s: "layout_ok s" "counts_ok s"
    and entries: "unat (md_entry_count d) + unat (md_entry_count s) \<le> unat (md_entry_capacity d)"
    and data: "unat (md_data_count d) + unat (md_data_count s) \<le> unat (md_data_capacity d)"
  shows "append_camera_metadata vo (Some d) (Some s) =
    assert_valid vo (Some (appended d s)) (OK, Some (appended d s))"
proof -
  let ?k = "unat (md_entry_count d)" and ?n = "unat (md_entry_count s)"
  have "unat (md_entry_count s + md_entry_count d) = ?n + ?k"
    "unat (md_data_count s + md_data_count d) = unat (md_data_count s) + unat (md_data_count d)"
    using entries data unat_u32_less [of "md_entry_capacity d"] unat_u32_less [of "md_data_capacity d"]
    by (simp_all add: unat_word_ariths)
  with entries data have g: "\<not> md_entry_capacity d < md_entry_count s + md_entry_count d"
    "\<not> md_data_capacity d < md_data_count s + md_data_count d"
    by (simp_all add: word_less_nat_alt)
  have es: "memcpy ?k (md_entries s) ?n (md_entries d) = Some (live d @ live s @ drop (?k + ?n) (md_entries d))"
    using entries d s by (simp add: memcpy_Some live_def layout_ok_def counts_ok_def)
  have bs: "memcpy (unat (md_data_count d)) (md_data s) (unat (md_data_count s)) (md_data d) =
      Some (md_data (appended d s))"
    using data d s by (simp add: memcpy_Some layout_ok_def counts_ok_def appended_def)
  have up: "map (shift_offset_up 0) xs = xs" for xs
    by (simp add: shift_up_0 cong: map_cong)
  let ?es = "live d @ live s @ drop (?k + ?n) (md_entries d)"
  have es': "(if md_data_count d \<noteq> 0
      then take ?k ?es @ map (shift_offset_up (md_data_count d)) (take ?n (drop ?k ?es)) @ drop (?k + ?n) ?es
      else ?es) = md_entries (appended d s)"
    using length_live [OF d] length_live [OF s] by (simp add: appended_def up)
  show ?thesis
    unfolding append_camera_metadata_def Let_def prod.case option.case es bs deref_simps bindE.simps es'
    using g by (simp add: appended_def)
qed

lemma append_correct:
  assumes d: "packet_ok vo d" and s: "packet_ok vo s"
    and entries: "unat (md_entry_count d) + unat (md_entry_count s) \<le> unat (md_entry_capacity d)"
    and data: "unat (md_data_count d) + unat (md_data_count s) \<le> unat (md_data_capacity d)"
  shows "\<exists>m'. append_camera_metadata vo (Some d) (Some s) = Ret (OK, Some m') \<and> packet_ok vo m' \<and>
    abs_packet m' = (abs_packet d)\<lparr>st_used := st_used (abs_packet d) + st_used (abs_packet s),
      st_items := items d @ items s, st_sorted := append_sorted (abs_packet d) (abs_packet s)\<rparr>"
proof -
  note okd = packet_okD [OF d] and oks = packet_okD [OF s]
  let ?m = "appended d s" and ?c = "unat (md_data_count s)"
  have cnt: "unat (md_entry_count ?m) = unat (md_entry_count d) + unat (md_entry_count s)"
    and dcnt: "unat (md_data_count ?m) = unat (md_data_count d) + ?c"
    using entries data unat_u32_less [of "md_entry_capacity d"] unat_u32_less [of "md_data_capacity d"]
    by (simp_all add: appended_def unat_word_ariths)
  have live: "live ?m = live d @ map (shift_offset_up (md_data_count d)) (live s)"
    using cnt length_live [OF okd(1,2)] length_live [OF oks(1,2)]
    by (simp add: live_def [of ?m]) (simp add: appended_def)
  have lens: "unat (md_data_count d) \<le> length (md_data d)" "?c \<le> length (md_data s)"
    using okd(1,2) oks(1,2) by (simp_all add: layout_ok_def counts_ok_def)
  have w: "take ?c (drop (unat (md_data_count d)) (md_data ?m)) = take ?c (md_data s)"
    using lens by (simp add: appended_def)
  have small: "unat (md_data_count d) + ?c < 2 ^ 32" "8 dvd unat (md_data_count d)"
    using data unat_u32_less [of "md_data_capacity d"] okd(2) by (simp_all add: counts_ok_def)
  have eo: "entries_ok vo (unat (md_data_count d)) (live d)" "entries_ok vo ?c (live s)"
    using d s by (simp_all add: packet_ok_iff)
  note app = append_entries [OF eo small w lens(2)]
  have "layout_ok ?m" "counts_ok ?m"
    using okd(1,2) oks(1,2) entries data cnt dcnt length_live [OF okd(1,2)] length_live [OF oks(1,2)]
    by (simp_all add: layout_ok_def counts_ok_def) (simp_all add: appended_def)
  then have ok: "packet_ok vo ?m"
    using app(1) dcnt live by (simp add: packet_ok_iff)
  have "item_of (md_data ?m) e = item_of (md_data d) e" if "e \<in> set (live d)" for e
    using lens by (intro item_of_prefix [OF okd(4,5) [OF that]]) (simp add: appended_def)
  then have "items ?m = items d @ items s"
    using app(2) by (simp add: items_def live)
  moreover have "items d = [] \<longleftrightarrow> md_entry_count d = 0" "items s = [] \<longleftrightarrow> md_entry_count s = 0"
    using length_live [OF okd(1,2)] length_live [OF oks(1,2)]
    by (auto simp: items_def simp flip: unat_eq_0 length_0_conv)
  ultimately have "abs_packet ?m = (abs_packet d)\<lparr>st_used := st_used (abs_packet d) + st_used (abs_packet s),
      st_items := items d @ items s, st_sorted := append_sorted (abs_packet d) (abs_packet s)\<rparr>"
    using dcnt flag_or_sorted [of "md_flags d" "md_flags s"]
    by (simp add: abs_packet_def append_sorted_def) (auto simp: appended_def)
  with ok show ?thesis
    by (simp add: append_run [OF okd(1,2) oks(1,2) entries data] assert_valid_ok [OF ok])
qed

lemma append_full:
  assumes d: "packet_ok vo d" and s: "packet_ok vo s"
    and nowrap: "unat (md_data_count d) + unat (md_data_count s) < 2 ^ 32"
    and full: "unat (md_entry_capacity d) < unat (md_entry_count d) + unat (md_entry_count s) \<or>
      unat (md_data_capacity d) < unat (md_data_count d) + unat (md_data_count s)"
  shows "append_camera_metadata vo (Some d) (Some s) = Ret (ERROR, Some d)"
proof -
  note okd = packet_okD [OF d] and oks = packet_okD [OF s]
  have "unat (md_entry_count d) < 2 ^ 28" "unat (md_entry_count s) < 2 ^ 28"
    using okd(2) oks(2) layout_capacity [OF okd(1)] layout_capacity [OF oks(1)] by (simp_all add: counts_ok_def)
  then have "unat (md_entry_count s + md_entry_count d) = unat (md_entry_count d) + unat (md_entry_count s)"
    by (simp add: unat_word_ariths)
  moreover have "unat (md_data_count s + md_data_count d) = unat (md_data_count d) + unat (md_data_count s)"
    using nowrap by (simp add: unat_word_ariths)
  ultimately show ?thesis
    using full by (auto simp: append_camera_metadata_def word_less_nat_alt)
qed

text \<open>The items of a packet fill exactly the entries and data bytes it counts.\<close>

lemma abs_counts:
  assumes "packet_ok vo m"
  shows "st_used (abs_packet m) = unat (md_data_count m)" "length (items m) = unat (md_entry_count m)"
    "st_items (abs_packet m) = items m"
    "st_entry_cap (abs_packet m) = unat (md_entry_capacity m)" "st_data_cap (abs_packet m) = unat (md_data_capacity m)"
    "length (items m) \<le> unat (md_entry_capacity m)" "unat (md_data_count m) \<le> unat (md_data_capacity m)"
  using packet_okD(1,2) [OF assms] length_live [OF packet_okD(1,2) [OF assms]]
  by (simp_all add: abs_packet_def length_items counts_ok_def)

lemma compact_bytes:
  assumes "packet_ok vo m"
  shows "packet_bytes (unat (md_entry_count m)) (unat (md_data_count m)) < 2 ^ 32"
proof -
  note okm = packet_okD [OF assms]
  have "round8 (36 + 16 * unat (md_entry_count m)) \<le> round8 (36 + 16 * unat (md_entry_capacity m))"
    using okm(2) by (intro round8_mono) (simp add: counts_ok_def)
  also have "\<dots> + unat (md_data_count m) \<le> unat (md_size m)"
    using okm(1,2) by (simp add: layout_ok_def counts_ok_def)
  finally show ?thesis
    using unat_u32_less [of "md_size m"] by (simp add: packet_bytes_def)
qed

section \<open>Cloning and copying\<close>

lemma clone_correct:
  assumes s: "packet_ok vo s"
    and m: "\<exists>b. malloc (calculate_camera_metadata_size (ucast (md_entry_count s)) (ucast (md_data_count s))) = Some b \<and>
      block_ok (calculate_camera_metadata_size (ucast (md_entry_count s)) (ucast (md_data_count s))) b"
  shows "\<exists>m'. clone_camera_metadata vo malloc (Some s) = Ret (Some m') \<and> packet_ok vo m' \<and>
    abs_packet m' = (abs_packet s)\<lparr>st_entry_cap := length (items s), st_data_cap := st_used (abs_packet s)\<rparr>"
proof -
  let ?n = "ucast (md_entry_count s) :: u64" and ?d = "ucast (md_data_count s) :: u64"
  obtain b where b: "malloc (calculate_camera_metadata_size ?n ?d) = Some b"
    "block_ok (calculate_camera_metadata_size ?n ?d) b" using m by blast
  have "packet_bytes (unat ?n) (unat ?d) < 2 ^ 32" using compact_bytes [OF s] by simp
  from allocate_correct [where malloc = malloc and n = ?n and d = ?d, OF b this, of vo] obtain c where
    c: "allocate_camera_metadata vo malloc ?n ?d = Ret (Some c)" "packet_ok vo c"
    and ec: "abs_packet c = empty_store (unat (md_entry_count s)) (unat (md_data_count s))" by auto
  note cs = abs_counts [OF s] and cc = abs_counts [OF c(2)]
  have "items c = []" "unat (md_data_count c) = 0" "unat (md_entry_capacity c) = unat (md_entry_count s)"
    "unat (md_data_capacity c) = unat (md_data_count s)"
    using ec cc(1,3-5) by (simp_all add: empty_store_def)
  moreover from this(1) have "unat (md_entry_count c) = 0" using cc(2) by simp
  ultimately obtain m' where m': "append_camera_metadata vo (Some c) (Some s) = Ret (OK, Some m')" "packet_ok vo m'"
    and em: "abs_packet m' = (abs_packet c)\<lparr>st_used := st_used (abs_packet c) + st_used (abs_packet s),
      st_items := items c @ items s, st_sorted := append_sorted (abs_packet c) (abs_packet s)\<rparr>"
    using append_correct [OF c(2) s] by auto
  have "clone_camera_metadata vo malloc (Some s) = Ret (Some m')"
    using c(1) m' assert_valid_ok [OF m'(2)]
    by (simp add: clone_camera_metadata_def get_camera_metadata_entry_count_def get_camera_metadata_data_count_def)
  moreover have "abs_packet m' = (abs_packet s)\<lparr>st_entry_cap := length (items s), st_data_cap := st_used (abs_packet s)\<rparr>"
    using em ec cs \<open>items c = []\<close> by (simp add: empty_store_def append_sorted_def)
  ultimately show ?thesis using m'(2) by blast
qed

text \<open>
  When \<open>malloc\<close> fails, \<open>clone_camera_metadata\<close> does not return \<open>NULL\<close>: the closing assertion
  validates the missing clone.
\<close>

lemma clone_without_memory:
  assumes "malloc (calculate_camera_metadata_size (ucast (md_entry_count s)) (ucast (md_data_count s))) = None"
  shows "clone_camera_metadata vo malloc (Some s) = AssertFail"
  using assms
  by (simp add: clone_camera_metadata_def get_camera_metadata_entry_count_def get_camera_metadata_data_count_def
      allocate_camera_metadata_def place_camera_metadata_def Let_def assert_valid_def
      validate_camera_metadata_structure_def)

lemma copy_correct:
  assumes s: "packet_ok vo s" and b: "block_ok dst_size b"
    and fits: "packet_bytes (length (items s)) (st_used (abs_packet s)) \<le> unat dst_size"
  shows "\<exists>m'. copy_camera_metadata vo (Some b) dst_size (Some s) = Ret (Some m') \<and> packet_ok vo m' \<and>
    abs_packet m' = (abs_packet s)\<lparr>st_entry_cap := length (items s), st_data_cap := st_used (abs_packet s)\<rparr>"
proof -
  let ?n = "ucast (md_entry_count s) :: u64" and ?d = "ucast (md_data_count s) :: u64"
  note oks = packet_okD [OF s] and cs = abs_counts [OF s]
  have small: "packet_bytes (unat ?n) (unat ?d) < 2 ^ 32" using compact_bytes [OF s] by simp
  have fits': "packet_bytes (unat ?n) (unat ?d) \<le> unat dst_size" using fits cs by simp
  from place_correct [OF b fits' small] obtain c where
    c: "place_camera_metadata vo (Some b) dst_size ?n ?d = Ret (Some c)" "packet_ok vo c"
    and ec: "abs_packet c = empty_store (unat (md_entry_count s)) (unat (md_data_count s))" by auto
  note okc = packet_okD [OF c(2)] and cc = abs_counts [OF c(2)]
  have cap: "unat (md_entry_capacity c) = unat (md_entry_count s)" "unat (md_data_capacity c) = unat (md_data_count s)"
    using ec cc(4,5) by (simp_all add: empty_store_def)
  have guard: "\<not> dst_size < get_camera_metadata_compact_size (Some s)"
    using fits' calculate_size_eq [of ?n ?d] small
    by (simp add: get_camera_metadata_compact_size_def word_less_nat_alt)
  have lens: "unat (md_data_count s) \<le> length (md_data s)" "length (live s) = unat (md_entry_count s)"
    "unat (md_entry_count s) \<le> length (md_entries s)"
    using oks(1,2) length_live [OF oks(1,2)] by (simp_all add: layout_ok_def counts_ok_def)
  have cp: "memcpy 0 (md_entries s) (unat (md_entry_count s)) (md_entries c) = Some (live s)"
    "memcpy 0 (md_data s) (unat (md_data_count s)) (md_data c) = Some (take (unat (md_data_count s)) (md_data s))"
    using lens okc(1) cap by (simp_all add: memcpy_Some layout_ok_def live_def)
  define m' where "m' = c\<lparr>md_flags := md_flags s, md_entry_count := md_entry_count s,
    md_data_count := md_data_count s, md_entries := live s, md_data := take (unat (md_data_count s)) (md_data s)\<rparr>"
  have live: "live m' = live s" using lens by (simp add: live_def [of m']) (simp add: m'_def)
  have "layout_ok m'" "counts_ok m'"
    using okc(1) cap lens oks(2) by (simp_all add: m'_def layout_ok_def counts_ok_def)
  then have ok: "packet_ok vo m'"
    using s live by (simp add: packet_ok_iff) (simp add: m'_def)
  have "item_of (md_data m') e = item_of (md_data s) e" if "e \<in> set (live s)" for e
    by (rule item_of_prefix [OF oks(4,5) [OF that]]) (simp add: m'_def)
  then have "items m' = items s" by (simp add: items_def live)
  then have "abs_packet m' = (abs_packet s)\<lparr>st_entry_cap := length (items s), st_data_cap := st_used (abs_packet s)\<rparr>"
    using cap cs(2) by (simp add: abs_packet_def) (simp add: m'_def)
  moreover have "copy_camera_metadata vo (Some b) dst_size (Some s) = Ret (Some m')"
    using guard c(1) cp assert_valid_ok [OF ok] by (simp add: copy_camera_metadata_def Let_def m'_def)
  ultimately show ?thesis using ok by blast
qed

end
