(* ===== verification/Metadata_Find.thy ===== *)
theory Metadata_Find
  imports Metadata_Build
begin

text \<open>
  Sorting and finding.  \<open>qsort\<close> and \<open>bsearch\<close> are used through what the C standard promises
  of them: \<open>qsort\<close> permutes its array into an order in which the comparison function is never
  positive.  The permutation keeps the packet well formed, because being apart is symmetric.
\<close>

section \<open>What a client may rely on after sorting\<close>

definition comparison :: "('a \<Rightarrow> 'a \<Rightarrow> int) \<Rightarrow> bool" where
  "comparison cmp \<longleftrightarrow> (\<forall>x y. cmp x y \<le> 0 \<or> cmp y x \<le> 0) \<and>
     (\<forall>x y z. cmp x y \<le> 0 \<longrightarrow> cmp y z \<le> 0 \<longrightarrow> cmp x z \<le> 0)"

locale sorting_routine =
  fixes sort_by :: "('a \<Rightarrow> 'a \<Rightarrow> int) \<Rightarrow> 'a list \<Rightarrow> 'a list"
  assumes sort_perm: "mset (sort_by cmp xs) = mset xs"
    and sort_order: "comparison cmp \<Longrightarrow> sorted_wrt (\<lambda>x y. cmp x y \<le> 0) (sort_by cmp xs)"
begin

lemma sort_length: "length (sort_by cmp xs) = length xs"
  by (metis sort_perm size_mset)

lemma sort_set: "set (sort_by cmp xs) = set xs"
  by (metis sort_perm set_mset_mset)

lemma sort_map: "mset (map f (sort_by cmp xs)) = mset (map f xs)"
  by (simp add: sort_perm)

lemma sort_symmetric:
  "(\<And>x y. R x y = R y x) \<Longrightarrow> sorted_wrt R xs \<Longrightarrow> sorted_wrt R (sort_by cmp xs)"
  by (rule sorted_wrt_perm [of R xs]) (simp_all add: sort_perm)

text \<open>Sorting by a comparison that orders a key leaves the keys in order.\<close>

lemma sort_keys:
  fixes key :: "'a \<Rightarrow> 'k :: linorder"
  assumes "comparison cmp" "\<And>x y. cmp x y \<le> 0 \<longleftrightarrow> key x \<le> key y"
  shows "sorted (map key (sort_by cmp xs))"
  using sort_order [OF assms(1), of xs] by (simp add: assms(2) sorted_wrt_map)

end

section \<open>The routine of the model\<close>

lemma mset_qsort_insert: "mset (qsort_insert cmp x xs) = add_mset x (mset xs)"
  by (induction xs) auto

lemma sorted_qsort_insert:
  assumes c: "comparison cmp" and s: "sorted_wrt (\<lambda>x y. cmp x y \<le> 0) xs"
  shows "sorted_wrt (\<lambda>x y. cmp x y \<le> 0) (qsort_insert cmp x xs)"
  using s
proof (induction xs)
  case (Cons y ys)
  have tot: "cmp y x \<le> 0" if "\<not> cmp x y \<le> 0" using c that by (auto simp: comparison_def)
  have trans: "cmp x z \<le> 0" if "cmp x y \<le> 0" "cmp y z \<le> 0" for z
    using c that unfolding comparison_def by blast
  have "set (qsort_insert cmp x ys) = insert x (set ys)"
    by (metis mset_qsort_insert set_mset_add_mset_insert set_mset_mset)
  with Cons tot trans show ?case by auto
qed simp

interpretation qs: sorting_routine qsort
proof
  show perm: "mset (qsort cmp xs) = mset xs" for cmp :: "'a \<Rightarrow> 'a \<Rightarrow> int" and xs
    by (induction xs) (simp_all add: mset_qsort_insert)
  show "sorted_wrt (\<lambda>x y. cmp x y \<le> 0) (qsort cmp xs)" if "comparison cmp" for cmp :: "'a \<Rightarrow> 'a \<Rightarrow> int" and xs
    by (induction xs) (simp_all add: sorted_qsort_insert [OF that])
qed

lemma compare_tags_le: "compare_entry_tags x y \<le> 0 \<longleftrightarrow> be_tag x \<le> be_tag y"
  by (auto simp: compare_entry_tags_def Let_def)

lemma compare_tags_comparison: "comparison compare_entry_tags"
  by (auto simp: comparison_def compare_tags_le)

section \<open>Sorting a packet\<close>

abbreviation tags_of :: "item list \<Rightarrow> u32 list" where
  "tags_of its \<equiv> map fst its"

lemma tags_of_items: "tags_of (items m) = map be_tag (live m)"
  by (simp add: items_def item_of_def)

lemma sort_run:
  assumes ok: "packet_ok vo m" and unsorted: "\<not> st_sorted (abs_packet m)"
  shows "\<exists>m'. sort_camera_metadata vo (Some m) = Ret (OK, Some m') \<and> packet_ok vo m' \<and>
    abs_packet m' = (abs_packet m)\<lparr>st_items := items m', st_sorted := True\<rparr> \<and>
    mset (items m') = mset (items m) \<and> sorted (tags_of (items m'))"
proof -
  note okm = packet_okD [OF ok]
  define m' where "m' = m\<lparr>md_entries := qsort compare_entry_tags (live m) @ drop (unat (md_entry_count m)) (md_entries m),
    md_flags := md_flags m OR FLAG_SORTED\<rparr>"
  have len: "length (live m) = unat (md_entry_count m)" "\<not> length (md_entries m) < unat (md_entry_count m)"
    using okm(1,2) by (simp_all add: length_live layout_ok_def counts_ok_def)
  have live: "live m' = qsort compare_entry_tags (live m)"
    using len(1) by (simp add: live_def [of m']) (simp add: m'_def qs.sort_length)
  have "layout_ok m'" "counts_ok m'"
    using okm(1,2) len by (simp_all add: m'_def layout_ok_def counts_ok_def qs.sort_length)
  moreover have "entries_ok vo (unat (md_data_count m')) (live m')"
    using okm(3,5,6) qs.sort_symmetric [of apart "live m" compare_entry_tags]
    by (auto simp: entries_ok_def live qs.sort_set apart_sym) (simp_all add: m'_def)
  ultimately have ok': "packet_ok vo m'" by (simp add: packet_ok_iff)
  have "sort_camera_metadata vo (Some m) = Ret (OK, Some m')"
    using unsorted len(2) assert_valid_ok [OF ok', of "(OK, Some m')"]
    by (simp add: sort_camera_metadata_def abs_packet_def Let_def m'_def live_def)
  moreover have "mset (items m') = mset (items m)"
    unfolding items_def live qs.sort_map by (simp add: m'_def)
  moreover have "sorted (tags_of (items m'))"
    unfolding tags_of_items live by (rule qs.sort_keys [OF compare_tags_comparison compare_tags_le])
  moreover have "abs_packet m' = (abs_packet m)\<lparr>st_items := items m', st_sorted := True\<rparr>"
    using flag_set [of "md_flags m"] by (simp add: abs_packet_def) (simp add: m'_def)
  ultimately show ?thesis using ok' by blast
qed

lemma sort_noop: "st_sorted (abs_packet m) \<Longrightarrow> sort_camera_metadata vo (Some m) = Ret (OK, Some m)"
  by (simp add: sort_camera_metadata_def abs_packet_def)

section \<open>Finding\<close>

declare bsearch.simps [simp del]

text \<open>What a search of the slots \<open>l \<le> i < u\<close> for a tag may return.\<close>

definition search_result ::
    "camera_metadata_buffer_entry list \<Rightarrow> u32 \<Rightarrow> nat \<Rightarrow> nat \<Rightarrow> nat option exec \<Rightarrow> bool" where
  "search_result es tag l u r \<longleftrightarrow>
     (\<exists>i. r = Ret (Some i) \<and> l \<le> i \<and> i < u \<and> be_tag (es ! i) = tag) \<or>
     r = Ret None \<and> (\<forall>i. l \<le> i \<longrightarrow> i < u \<longrightarrow> be_tag (es ! i) \<noteq> tag)"

lemma search_result_widen:
  assumes "search_result es tag l' u' r" "l \<le> l'" "u' \<le> u"
    and "\<And>i. l \<le> i \<Longrightarrow> i < u \<Longrightarrow> i < l' \<or> u' \<le> i \<Longrightarrow> be_tag (es ! i) \<noteq> tag"
  shows "search_result es tag l u r"
  using assms(1) unfolding search_result_def
proof (elim disjE exE conjE)
  fix i assume "r = Ret (Some i)" "l' \<le> i" "i < u'" "be_tag (es ! i) = tag"
  with assms(2,3) show "(\<exists>i. r = Ret (Some i) \<and> l \<le> i \<and> i < u \<and> be_tag (es ! i) = tag) \<or>
     r = Ret None \<and> (\<forall>i. l \<le> i \<longrightarrow> i < u \<longrightarrow> be_tag (es ! i) \<noteq> tag)" by auto
next
  assume "r = Ret None" "\<forall>i. l' \<le> i \<longrightarrow> i < u' \<longrightarrow> be_tag (es ! i) \<noteq> tag"
  with assms(4) show "(\<exists>i. r = Ret (Some i) \<and> l \<le> i \<and> i < u \<and> be_tag (es ! i) = tag) \<or>
     r = Ret None \<and> (\<forall>i. l \<le> i \<longrightarrow> i < u \<longrightarrow> be_tag (es ! i) \<noteq> tag)" by (metis not_le)
qed

abbreviation tag_cmp :: "u32 \<Rightarrow> camera_metadata_buffer_entry \<Rightarrow> int" where
  "tag_cmp tag e \<equiv> compare_entry_tags (e\<lparr>be_tag := tag\<rparr>) e"

lemma bsearch_correct:
  assumes "u \<le> length es" "\<And>i j. i \<le> j \<Longrightarrow> j < u \<Longrightarrow> be_tag (es ! i) \<le> be_tag (es ! j)"
  shows "search_result es tag l u (bsearch (tag_cmp tag) es l u)"
  using assms
proof (induction "u - l" arbitrary: l u rule: less_induct)
  case less
  define k where "k = (l + u) div 2"
  show ?case
  proof (cases "l < u")
    case True
    then have k: "l \<le> k" "k < u" "k < length es" using less.prems(1) by (auto simp: k_def)
    have run: "bsearch (tag_cmp tag) es l u =
        (if tag < be_tag (es ! k) then bsearch (tag_cmp tag) es l k
         else if tag = be_tag (es ! k) then Ret (Some k) else bsearch (tag_cmp tag) es (Suc k) u)"
      using True k by (subst bsearch.simps) (simp add: Let_def k_def [symmetric] compare_entry_tags_def)
    consider (lt) "tag < be_tag (es ! k)" | (eq) "tag = be_tag (es ! k)" | (gt) "be_tag (es ! k) < tag"
      by (rule linorder_cases)
    then show ?thesis
    proof cases
      case lt
      have "search_result es tag l k (bsearch (tag_cmp tag) es l k)"
        by (rule less.hyps) (use k less.prems in auto)
      then have "search_result es tag l u (bsearch (tag_cmp tag) es l k)"
        by (rule search_result_widen) (use k lt less.prems(2) [of k] in fastforce)+
      with lt show ?thesis by (simp add: run)
    next
      case eq
      then have "bsearch (tag_cmp tag) es l u = Ret (Some k)" unfolding run by simp
      with eq k show ?thesis by (simp add: search_result_def)
    next
      case gt
      have "search_result es tag (Suc k) u (bsearch (tag_cmp tag) es (Suc k) u)"
        by (rule less.hyps) (use k less.prems in auto)
      then have "search_result es tag l u (bsearch (tag_cmp tag) es (Suc k) u)"
      proof (rule search_result_widen)
        show "be_tag (es ! i) \<noteq> tag" if "i < u" "i < Suc k \<or> u \<le> i" for i
          using less.prems(2) [of i k] that k gt by (auto simp: less_Suc_eq_le)
      qed (use k in auto)
      moreover have "\<not> tag < be_tag (es ! k)" "tag \<noteq> be_tag (es ! k)" using gt by auto
      ultimately show ?thesis by (simp add: run)
    qed
  next
    case False
    then have "bsearch (tag_cmp tag) es l u = Ret None" by (subst bsearch.simps) simp
    with False show ?thesis by (simp add: search_result_def)
  qed
qed

lemma linear_search_correct:
  assumes "i + n \<le> length es"
  shows "search_result es tag i (i + n) (linear_search tag es i n)"
  using assms
proof (induction tag es i n rule: linear_search.induct)
  case (2 tag es i n)
  then have rd: "array_read es i = Ret (es ! i)" by (simp add: array_read_def)
  show ?case
  proof (cases "be_tag (es ! i) = tag")
    case False
    have "search_result es tag (Suc i) (Suc i + n) (linear_search tag es (Suc i) n)"
      by (rule "2.IH" [OF False]) (use "2.prems" in simp)
    then have "search_result es tag i (i + Suc n) (linear_search tag es (Suc i) n)"
      by (rule search_result_widen) (use False le_less_Suc_eq in auto)
    with False show ?thesis by (simp add: rd)
  qed (simp add: rd search_result_def)
qed (simp add: search_result_def)

text \<open>Without the sorted flag, the first entry with the tag is found.\<close>

lemma linear_search_first:
  "linear_search tag es i n = Ret (Some j) \<Longrightarrow> i \<le> k \<Longrightarrow> k < j \<Longrightarrow> be_tag (es ! k) \<noteq> tag"
proof (induction tag es i n rule: linear_search.induct)
  case (2 tag es i n)
  from "2.prems"(1) have rd: "array_read es i = Ret (es ! i)"
    by (auto simp: array_read_def bindE_Ret_iff split: if_splits)
  show ?case
  proof (cases "be_tag (es ! i) = tag")
    case False
    with "2.IH" [OF False] "2.prems" rd show ?thesis
      by (cases "k = i") auto
  qed (use "2.prems" rd in simp)
qed simp

text \<open>
  Finding a tag in a well-formed packet whose sorted flag, if set, is true: the entry found has
  the tag, and \<open>NOT_FOUND\<close> means that no item has it.
\<close>

lemma find_correct:
  assumes ok: "packet_ok vo m" and honest: "st_sorted (abs_packet m) \<Longrightarrow> sorted (tags_of (items m))"
  shows "if tag \<in> set (tags_of (items m))
    then \<exists>i < length (items m). tags_of (items m) ! i = tag \<and>
           (\<not> st_sorted (abs_packet m) \<longrightarrow> (\<forall>k < i. tags_of (items m) ! k \<noteq> tag)) \<and>
           find_camera_metadata_entry (Some m) tag want =
             Ret (if want then (OK, Some (view_entry m i)) else (ERROR, None))
    else find_camera_metadata_entry (Some m) tag want = Ret (NOT_FOUND, None)"
proof -
  note okm = packet_okD [OF ok]
  let ?n = "unat (md_entry_count m)"
  define r where "r = (if st_sorted (abs_packet m) then bsearch (tag_cmp tag) (md_entries m) 0 ?n
    else linear_search tag (md_entries m) 0 ?n)"
  have n: "?n \<le> length (md_entries m)" "length (live m) = ?n"
    using okm(1,2) by (simp_all add: length_live layout_ok_def counts_ok_def)
  have tag: "tags_of (items m) ! i = be_tag (md_entries m ! i)" if "i < ?n" for i
    using that n in_live_nth [OF okm(1,2) that] by (simp add: tags_of_items)
  have "search_result (md_entries m) tag 0 ?n r"
  proof (cases "st_sorted (abs_packet m)")
    case True
    have "be_tag (md_entries m ! i) \<le> be_tag (md_entries m ! j)" if "i \<le> j" "j < ?n" for i j
      using sorted_nth_mono [OF honest [OF True] that(1)] that tag n by (simp add: length_items)
    with True n show ?thesis by (auto simp: r_def intro: bsearch_correct)
  qed (use n linear_search_correct [of 0 ?n] in \<open>simp add: r_def\<close>)
  moreover have run: "find_camera_metadata_entry (Some m) tag want =
      bindE r (\<lambda>found. case found of None \<Rightarrow> Ret (NOT_FOUND, None)
        | Some index \<Rightarrow> get_camera_metadata_entry (Some m) (of_nat index) want)"
    by (simp add: find_camera_metadata_entry_def r_def abs_packet_def)
  ultimately consider (hit) i where "r = Ret (Some i)" "i < ?n" "be_tag (md_entries m ! i) = tag"
    | (miss) "r = Ret None" "\<And>i. i < ?n \<Longrightarrow> be_tag (md_entries m ! i) \<noteq> tag"
    unfolding search_result_def by blast
  then show ?thesis
  proof cases
    case hit
    have "unat (of_nat i :: u64) = i"
      using hit(2) unat_u32_less [of "md_entry_count m"] by (simp add: unat_of_nat)
    then have "get_camera_metadata_entry (Some m) (of_nat i) want =
        Ret (if want then (OK, Some (view_entry m i)) else (ERROR, None))"
      using get_entry_eq [OF ok, of "of_nat i"] hit(2) n
      by (cases want) (simp_all add: get_camera_metadata_entry_def)
    moreover have "tags_of (items m) ! k \<noteq> tag" if "\<not> st_sorted (abs_packet m)" "k < i" for k
      using linear_search_first [of tag "md_entries m" 0 ?n i k] that hit(1,2) tag [of k] by (simp add: r_def)
    moreover have "tag \<in> set (tags_of (items m))"
      using tag [OF hit(2)] hit(2,3) n by (metis length_items length_map nth_mem)
    ultimately show ?thesis
      using hit tag [OF hit(2)] n by (auto simp: run length_items intro!: exI [of _ i])
  next
    case miss
    have "tag \<notin> set (tags_of (items m))"
      using miss(2) tag n by (metis in_set_conv_nth length_items length_map)
    then show ?thesis using miss(1) by (simp add: run)
  qed
qed

end
