(* ===== verification/Metadata_Store.thy ===== *)
theory Metadata_Store
  imports Metadata_Find
begin

text \<open>
  The abstract specification of a metadata packet and the refinement of each operation of
  \<open>camera_metadata.c\<close> to it.  The abstract state is \<open>md_store\<close>: capacities, bytes in use, the
  list of items, the sorted mark.  \<open>good_packet\<close> is the invariant of every packet that
  the library builds.
\<close>

section \<open>The specification\<close>

definition spec_add :: "item \<Rightarrow> md_store \<Rightarrow> int \<times> md_store" where
  "spec_add it s =
     (if length (st_items s) = st_entry_cap s \<or> st_data_cap s < st_used s + item_size it then (ERROR, s)
      else (OK, s\<lparr>st_used := st_used s + item_size it, st_items := st_items s @ [it], st_sorted := False\<rparr>))"

definition spec_delete :: "nat \<Rightarrow> md_store \<Rightarrow> int \<times> md_store" where
  "spec_delete i s =
     (if i < length (st_items s)
      then (OK, s\<lparr>st_used := st_used s - item_size (st_items s ! i),
                  st_items := take i (st_items s) @ drop (Suc i) (st_items s)\<rparr>)
      else (ERROR, s))"

text \<open>An update keeps the tag and the type of the item and replaces its value.\<close>

definition spec_update :: "nat \<Rightarrow> u8 list \<Rightarrow> md_store \<Rightarrow> int \<times> md_store" where
  "spec_update i v s =
     (if i < length (st_items s) then
        let it = st_items s ! i; new = (fst it, fst (snd it), v);
            used = st_used s - item_size it + item_size new in
        if st_data_cap s < used then (ERROR, s)
        else (OK, s\<lparr>st_used := used, st_items := (st_items s)[i := new]\<rparr>)
      else (ERROR, s))"

definition spec_append :: "md_store \<Rightarrow> md_store \<Rightarrow> int \<times> md_store" where
  "spec_append src s =
     (if st_entry_cap s < length (st_items s) + length (st_items src) \<or>
         st_data_cap s < st_used s + st_used src then (ERROR, s)
      else (OK, s\<lparr>st_used := st_used s + st_used src, st_items := st_items s @ st_items src,
                  st_sorted := append_sorted s src\<rparr>))"

text \<open>The counts are exact, within the capacities, and the sorted mark is true.\<close>

definition consistent :: "md_store \<Rightarrow> bool" where
  "consistent s \<longleftrightarrow>
     length (st_items s) \<le> st_entry_cap s \<and> st_used s \<le> st_data_cap s \<and>
     st_used s = (\<Sum>it\<leftarrow>st_items s. item_size it) \<and>
     (st_sorted s \<longrightarrow> sorted (tags_of (st_items s)))"

lemma sum_list_split: "i < length xs \<Longrightarrow>
    (\<Sum>x\<leftarrow>xs. f x :: nat) = (\<Sum>x\<leftarrow>take i xs. f x) + f (xs ! i) + (\<Sum>x\<leftarrow>drop (Suc i) xs. f x)"
  by (subst id_take_nth_drop [of i xs]) simp_all

lemma sorted_remove: "sorted xs \<Longrightarrow> sorted (take i xs @ drop (Suc i) (xs :: 'a::linorder list))"
  by (cases "i < length xs")
    (auto simp: sorted_wrt_append dest: sorted_wrt_take sorted_wrt_drop
      intro: sorted_nth_mono simp: in_set_conv_nth sorted_iff_nth_mono)

lemma tags_update: "i < length its \<Longrightarrow> tags_of (its[i := (fst (its ! i), x)]) = tags_of its"
  by (rule nth_equalityI) (simp_all add: nth_list_update)

lemma consistent_add: "consistent s \<Longrightarrow> consistent (snd (spec_add it s))"
  by (auto simp: consistent_def spec_add_def)

lemma consistent_delete: "consistent s \<Longrightarrow> consistent (snd (spec_delete i s))"
  using sum_list_split [of i "st_items s" item_size] sorted_remove [of "tags_of (st_items s)" i]
  by (auto simp: consistent_def spec_delete_def take_map drop_map)

lemma consistent_update: "consistent s \<Longrightarrow> consistent (snd (spec_update i v s))"
proof -
  assume c: "consistent s"
  show ?thesis
  proof (cases "i < length (st_items s)")
    case True
    have "(\<Sum>it\<leftarrow>(st_items s)[i := it']. item_size it) = st_used s - item_size (st_items s ! i) + item_size it'" for it'
      using c True sum_list_split [OF True, of item_size]
      by (simp add: consistent_def upd_conv_take_nth_drop)
    with c True tags_update [OF True] show ?thesis
      by (auto simp: consistent_def spec_update_def Let_def)
  qed (use c in \<open>simp add: spec_update_def\<close>)
qed

text \<open>
  Appending keeps the sorted mark true except in one case: an empty destination that is
  marked sorted takes over the items of an unsorted source and stays marked.
\<close>

definition sorted_mark_lost :: "md_store \<Rightarrow> md_store \<Rightarrow> bool" where
  "sorted_mark_lost src s \<longleftrightarrow> st_items s = [] \<and> st_sorted s \<and> \<not> st_sorted src"

lemma consistent_append:
  "consistent s \<Longrightarrow> consistent src \<Longrightarrow> \<not> sorted_mark_lost src s \<Longrightarrow> consistent (snd (spec_append src s))"
  by (auto simp: consistent_def spec_append_def append_sorted_def sorted_mark_lost_def)

section \<open>Refinement\<close>

definition good_packet :: "vendor_tag_ops option \<Rightarrow> camera_metadata \<Rightarrow> bool" where
  "good_packet vo m \<longleftrightarrow> packet_ok vo m \<and> consistent (abs_packet m)"

lemma good_packet_ok [dest]: "good_packet vo m \<Longrightarrow> packet_ok vo m"
  by (simp add: good_packet_def)

lemma item_size_new:
  "readable t n bytes \<Longrightarrow> t < NUM_TYPES \<Longrightarrow> item_size (tag, t, value_of t n bytes) = new_size t n"
  using readable_sizes [of t n bytes] by (simp add: item_size_def value_of_def)

text \<open>An operation refines its specification on good packets.\<close>

definition refines ::
    "vendor_tag_ops option \<Rightarrow> camera_metadata \<Rightarrow> (int \<times> camera_metadata option) exec \<Rightarrow>
     int \<times> md_store \<Rightarrow> bool" where
  "refines vo m run spec \<longleftrightarrow>
     (\<exists>r m'. run = Ret (r, Some m') \<and> good_packet vo m' \<and> (r, abs_packet m') = spec \<and>
        (r \<noteq> OK \<longrightarrow> m' = m))"

lemma refinesI:
  assumes "run = Ret (fst spec, Some m')" "packet_ok vo m'" "abs_packet m' = snd spec"
    "consistent (snd spec)" "fst spec \<noteq> OK \<Longrightarrow> m' = m"
  shows "refines vo m run spec"
  unfolding refines_def good_packet_def
  using assms by (intro exI [of _ "fst spec"] exI [of _ m']) simp

lemma add_refines:
  assumes good: "good_packet vo m" and type: "get_camera_metadata_tag_type vo tag = Ret (uint t)" "t < NUM_TYPES"
    and arr: "readable t n bytes"
  shows "refines vo m (add_camera_metadata_entry vo (Some m) tag (Some bytes) n)
    (spec_add (tag, t, value_of t n bytes) (abs_packet m))"
proof -
  have ok: "packet_ok vo m" and c: "consistent (abs_packet m)" using good by (simp_all add: good_packet_def)
  let ?it = "(tag, t, value_of t n bytes)"
  have full: "md_entry_count m = md_entry_capacity m \<or>
      unat (md_data_capacity m) < new_size t n + unat (md_data_count m) \<longleftrightarrow> fst (spec_add ?it (abs_packet m)) = ERROR"
    using abs_counts [OF ok] item_size_new [OF arr type(2), of tag]
    by (auto simp: spec_add_def add.commute word_unat_eq_iff)
  note spec = add_entry_spec [OF ok type arr]
  show ?thesis
  proof (cases "fst (spec_add ?it (abs_packet m)) = ERROR")
    case True
    then have "snd (spec_add ?it (abs_packet m)) = abs_packet m" by (auto simp: spec_add_def split: if_splits)
    with True spec full ok c show ?thesis by (intro refinesI [of _ _ m]) simp_all
  next
    case False
    then have s: "spec_add ?it (abs_packet m) = (OK, (abs_packet m)\<lparr>st_used := st_used (abs_packet m) + new_size t n,
      st_items := items m @ [?it], st_sorted := False\<rparr>)"
      using item_size_new [OF arr type(2), of tag] abs_counts(3) [OF ok]
      by (auto simp: spec_add_def split: if_splits)
    from False spec full obtain m' where "add_camera_metadata_entry vo (Some m) tag (Some bytes) n = Ret (OK, Some m')"
      "packet_ok vo m'" "abs_packet m' = snd (spec_add ?it (abs_packet m))" by (auto simp: s)
    then show ?thesis using consistent_add [OF c, of ?it] by (intro refinesI [of _ _ m']) (simp_all add: s)
  qed
qed

lemma delete_refines:
  assumes good: "good_packet vo m"
  shows "refines vo m (delete_camera_metadata_entry vo (Some m) index) (spec_delete (unat index) (abs_packet m))"
proof -
  have ok: "packet_ok vo m" and c: "consistent (abs_packet m)" using good by (simp_all add: good_packet_def)
  note counts = abs_counts [OF ok]
  show ?thesis
  proof (cases "unat index < length (items m)")
    case True
    from delete_correct [OF ok this] obtain m' where
      "delete_camera_metadata_entry vo (Some m) index = Ret (OK, Some m')" "packet_ok vo m'"
      "abs_packet m' = snd (spec_delete (unat index) (abs_packet m))"
      using True by (auto simp: spec_delete_def counts(3))
    then show ?thesis
      using True consistent_delete [OF c, of "unat index"]
      by (intro refinesI [of _ _ m']) (simp_all add: spec_delete_def counts(3))
  next
    case False
    then have "ucast (md_entry_count m) \<le> index" using counts(2) by (simp add: word_le_nat_alt)
    with False ok c show ?thesis
      by (intro refinesI [of _ _ m]) (simp_all add: delete_camera_metadata_entry_def spec_delete_def counts(3))
  qed
qed

text \<open>The packet part of an update's result; the returned entry describes the updated slot.\<close>

lemma update_refines:
  assumes good: "good_packet vo m" and it: "unat index < length (items m)" "items m ! unat index = (tag, t, old)"
    and arr: "readable t n bytes" "n \<noteq> 0"
  shows "\<exists>r m'. update_camera_metadata_entry vo (Some m) index (Some bytes) n want =
      Ret (r, Some m', if r = OK \<and> want then Some (view_entry m' (unat index)) else None) \<and>
    refines vo m (Ret (r, Some m')) (spec_update (unat index) (value_of t n bytes) (abs_packet m))"
proof -
  have ok: "packet_ok vo m" and c: "consistent (abs_packet m)" using good by (simp_all add: good_packet_def)
  note counts = abs_counts [OF ok]
  let ?spec = "spec_update (unat index) (value_of t n bytes) (abs_packet m)"
  have "live m ! unat index \<in> set (live m)" using it(1) by (simp add: length_items)
  then have t: "t < NUM_TYPES" using items_nth [OF ok it(1)] it(2) packet_okD(4) [OF ok] by auto
  note size = item_size_new [OF arr(1) t, of tag]
  have spec: "?spec = (if st_data_cap (abs_packet m) < st_used (abs_packet m) - item_size (tag, t, old) + new_size t n
      then (ERROR, abs_packet m)
      else (OK, (abs_packet m)\<lparr>st_used := st_used (abs_packet m) - item_size (tag, t, old) + new_size t n,
             st_items := (items m)[unat index := (tag, t, value_of t n bytes)]\<rparr>))"
    using it size by (simp add: spec_update_def counts(3) Let_def)
  have c': "consistent (snd ?spec)" using c by (rule consistent_update)
  note run = update_correct [OF ok it arr(1), of want]
  show ?thesis
  proof (cases "st_data_cap (abs_packet m) < st_used (abs_packet m) - item_size (tag, t, old) + new_size t n")
    case True
    with run arr(2) have "update_camera_metadata_entry vo (Some m) index (Some bytes) n want = Ret (ERROR, Some m, None)"
      by simp
    moreover have "refines vo m (Ret (ERROR, Some m)) ?spec"
      using True ok c by (intro refinesI [of _ _ m]) (simp_all add: spec)
    ultimately show ?thesis by (intro exI [of _ ERROR] exI [of _ m]) simp
  next
    case False
    with run arr(2) obtain m' where "update_camera_metadata_entry vo (Some m) index (Some bytes) n want =
        Ret (OK, Some m', if want then Some (view_entry m' (unat index)) else None)"
      and m': "packet_ok vo m'" "abs_packet m' = snd ?spec" by (auto simp: spec)
    moreover have "refines vo m (Ret (OK, Some m')) ?spec"
      using False m' c' by (intro refinesI [of _ _ m']) (simp_all add: spec)
    ultimately show ?thesis by (intro exI [of _ OK] exI [of _ m']) simp
  qed
qed

lemma append_refines:
  assumes good: "good_packet vo m" "good_packet vo src"
    and nowrap: "st_used (abs_packet m) + st_used (abs_packet src) < 2 ^ 32"
    and mark: "\<not> sorted_mark_lost (abs_packet src) (abs_packet m)"
  shows "refines vo m (append_camera_metadata vo (Some m) (Some src)) (spec_append (abs_packet src) (abs_packet m))"
proof -
  have ok: "packet_ok vo m" "packet_ok vo src" and c: "consistent (abs_packet m)" "consistent (abs_packet src)"
    using good by (simp_all add: good_packet_def)
  note counts = abs_counts [OF ok(1)] abs_counts [OF ok(2)]
  let ?spec = "spec_append (abs_packet src) (abs_packet m)"
  have c': "consistent (snd ?spec)" using c mark by (rule consistent_append)
  show ?thesis
  proof (cases "st_entry_cap (abs_packet m) < length (items m) + length (items src) \<or>
      st_data_cap (abs_packet m) < st_used (abs_packet m) + st_used (abs_packet src)")
    case True
    then have "append_camera_metadata vo (Some m) (Some src) = Ret (ERROR, Some m)"
      using nowrap by (intro append_full [OF ok]) (simp_all add: counts)
    with True ok c show ?thesis
      by (intro refinesI [of _ _ m]) (simp_all add: spec_append_def counts)
  next
    case False
    then obtain m' where "append_camera_metadata vo (Some m) (Some src) = Ret (OK, Some m')" "packet_ok vo m'"
      "abs_packet m' = snd ?spec"
      using append_correct [OF ok] by (auto simp: spec_append_def counts not_less)
    with False c' show ?thesis
      by (intro refinesI [of _ _ m']) (simp_all add: spec_append_def counts)
  qed
qed

lemma sort_refines:
  assumes good: "good_packet vo m"
  shows "\<exists>m'. sort_camera_metadata vo (Some m) = Ret (OK, Some m') \<and> good_packet vo m' \<and>
    abs_packet m' = (abs_packet m)\<lparr>st_items := items m', st_sorted := True\<rparr> \<and>
    mset (items m') = mset (items m) \<and> sorted (tags_of (items m'))"
proof -
  have ok: "packet_ok vo m" and c: "consistent (abs_packet m)" using good by (simp_all add: good_packet_def)
  note counts = abs_counts [OF ok]
  show ?thesis
  proof (cases "st_sorted (abs_packet m)")
    case True
    with c good sort_noop [OF True, of vo] show ?thesis by (auto simp: consistent_def counts(3) simp flip: counts(3))
  next
    case False
    from sort_run [OF ok False] obtain m' where m': "sort_camera_metadata vo (Some m) = Ret (OK, Some m')"
      "packet_ok vo m'" "abs_packet m' = (abs_packet m)\<lparr>st_items := items m', st_sorted := True\<rparr>"
      "mset (items m') = mset (items m)" "sorted (tags_of (items m'))" by blast
    have "length (items m') = length (items m)" using m'(4) by (metis size_mset)
    moreover have "(\<Sum>it\<leftarrow>items m'. item_size it) = (\<Sum>it\<leftarrow>items m. item_size it)"
      using m'(4) by (metis mset_map sum_mset_sum_list)
    ultimately have "consistent (abs_packet m')"
      using c m'(5) unfolding m'(3) by (simp add: consistent_def counts(3))
    with m' show ?thesis by (auto simp: good_packet_def)
  qed
qed

lemma empty_consistent: "consistent (empty_store n d)"
  by (simp add: consistent_def empty_store_def)

lemma compact_consistent:
  "consistent s \<Longrightarrow> consistent (s\<lparr>st_entry_cap := length (st_items s), st_data_cap := st_used s\<rparr>)"
  by (simp add: consistent_def)

end
