(* ===== verification/Metadata_Props.thy ===== *)
theory Metadata_Props
  imports Metadata_Store
begin

text \<open>
  What the metadata library guarantees its clients: every operation, on every packet a client
  can build, returns and does what the abstract specification says; a packet accepted from
  raw bytes can be read without leaving the buffer; and the places where the code does
  not keep its promise.
\<close>

section \<open>Packets built by clients\<close>



text \<open>The caller passes an array that holds the values it announces.\<close>

definition caller_ok :: "vendor_tag_ops option \<Rightarrow> u32 \<Rightarrow> u64 \<Rightarrow> u8 list \<Rightarrow> bool" where
  "caller_ok vo tag n bytes \<longleftrightarrow>
     (\<forall>t. get_camera_metadata_tag_type vo tag = Ret (uint t) \<longrightarrow> readable t n bytes)"

text \<open>The packets that clients build from an empty one by the calls of the library.\<close>

inductive built :: "vendor_tag_ops option \<Rightarrow> camera_metadata \<Rightarrow> bool" for vo where
  placed: "block_ok sz b \<Longrightarrow> packet_bytes (unat n) (unat d) < 2 ^ 32 \<Longrightarrow>
     packet_bytes (unat n) (unat d) \<le> unat sz \<Longrightarrow>
     place_camera_metadata vo (Some b) sz n d = Ret (Some m) \<Longrightarrow> built vo m"
| added: "built vo m \<Longrightarrow> caller_ok vo tag n bytes \<Longrightarrow>
     add_camera_metadata_entry vo (Some m) tag (Some bytes) n = Ret (r, Some m') \<Longrightarrow> built vo m'"
| deleted: "built vo m \<Longrightarrow> delete_camera_metadata_entry vo (Some m) i = Ret (r, Some m') \<Longrightarrow> built vo m'"
| updated: "built vo m \<Longrightarrow> unat i < length (items m) \<Longrightarrow> readable (fst (snd (items m ! unat i))) n bytes \<Longrightarrow>
     n \<noteq> 0 \<Longrightarrow> update_camera_metadata_entry vo (Some m) i (Some bytes) n want = Ret (r, Some m', e) \<Longrightarrow>
     built vo m'"
| sorted: "built vo m \<Longrightarrow> sort_camera_metadata vo (Some m) = Ret (r, Some m') \<Longrightarrow> built vo m'"
| appended: "built vo m \<Longrightarrow> built vo src \<Longrightarrow>
     st_used (abs_packet m) + st_used (abs_packet src) < 2 ^ 32 \<Longrightarrow>
     \<not> sorted_mark_lost (abs_packet src) (abs_packet m) \<Longrightarrow>
     append_camera_metadata vo (Some m) (Some src) = Ret (r, Some m') \<Longrightarrow> built vo m'"
| copied: "built vo src \<Longrightarrow> block_ok sz b \<Longrightarrow>
     packet_bytes (length (items src)) (st_used (abs_packet src)) \<le> unat sz \<Longrightarrow>
     copy_camera_metadata vo (Some b) sz (Some src) = Ret (Some m) \<Longrightarrow> built vo m"

inductive_cases builtE: "built vo m"






section \<open>A packet for the examples\<close>

definition demo_packet :: camera_metadata where
  "demo_packet = \<lparr>md_addr = 0x1000, md_size = 128, md_version = 1, md_flags = 0, md_entry_count = 2,
     md_entry_capacity = 4, md_entries_start = 36, md_data_count = 8, md_data_capacity = 24, md_data_start = 104,
     md_entries = [\<lparr>be_tag = 1, be_count = 1, be_data = 0, be_type = 5, be_reserved = [0, 0, 0]\<rparr>,
                   \<lparr>be_tag = 0, be_count = 1, be_data = 1, be_type = 0, be_reserved = [0, 0, 0]\<rparr>,
                   \<lparr>be_tag = 0, be_count = 0, be_data = 0, be_type = 0, be_reserved = [0, 0, 0]\<rparr>,
                   \<lparr>be_tag = 0, be_count = 0, be_data = 0, be_type = 0, be_reserved = [0, 0, 0]\<rparr>],
     md_data = [1, 2, 3, 4, 5, 6, 7, 8] @ replicate 16 0\<rparr>"

lemma demo_tag_types:
  "get_camera_metadata_tag_type None 1 = Ret 5" "get_camera_metadata_tag_type None 0 = Ret 0"
proof -
  have "snd (camera_metadata_section_bounds ! 0) = 5"
    "tag_type (tag_info ! 0 ! 0) = 0" "tag_type (tag_info ! 0 ! 1) = 5"
    by (simp_all add: camera_metadata_section_bounds_def designated_in_order upt_26 tag_info_def tag_consts
        android_color_correction_def entry_type_consts upt_rec)
  then show "get_camera_metadata_tag_type None 1 = Ret 5" "get_camera_metadata_tag_type None 0 = Ret 0"
    by (simp_all add: get_camera_metadata_tag_type_eq declared_def tag_row_def ANDROID_SECTION_COUNT_def
        VENDOR_SECTION_def word_le_nat_alt)
qed

lemma demo_live: "live demo_packet = take 2 (md_entries demo_packet)"
  by (simp add: demo_packet_def live_def)

lemma demo_esize: "esize \<lparr>be_tag = tag, be_count = 1, be_data = w, be_type = 5, be_reserved = r\<rparr> = 8"
  "esize \<lparr>be_tag = tag, be_count = 1, be_data = w, be_type = 0, be_reserved = r\<rparr> = 0"
  by (simp_all add: esize_eq eplen_def tsize_def type_size_eq NUM_TYPES_def round8_def)

lemma demo_items: "items demo_packet = [(1, 5, [1, 2, 3, 4, 5, 6, 7, 8]), (0, 0, [1])]"
  unfolding items_def demo_live
  by (simp add: item_of_def payload_def demo_esize demo_packet_def eplen_def tsize_def
      type_size_eq eoff_def le_bytes32_def)

lemma demo_good: "good_packet None demo_packet"
proof -
  have "packet_ok None demo_packet"
    unfolding packet_ok_def demo_live
    by (simp add: demo_packet_def layout_ok_def counts_ok_def round8_def type_ok_def demo_tag_types
       place_ok_def demo_esize eoff_def apart_def NUM_TYPES_def)
  moreover have "consistent (abs_packet demo_packet)"
    unfolding consistent_def by (simp add: abs_packet_def demo_items) (simp add: demo_packet_def item_size_def round8_def)
  ultimately show ?thesis by (simp add: good_packet_def)
qed
lemma demo_readable: "readable 5 2 (replicate 16 7)"
  by (simp add: readable_def tsize_def type_size_eq)

lemma demo_ok: "packet_ok None demo_packet"
  using demo_good by (simp add: good_packet_def)

lemma demo_block: "block_ok 128 (0x1000, replicate 128 0)"
  by (simp add: block_ok_def)


section \<open>Claims\<close>



text \<open>
  C6.  \<open>add_camera_metadata_entry\<close> appends the item (its tag, the tag's type and the caller's
  values) when a slot and enough data bytes are free, and otherwise fails and changes nothing.
\<close>

theorem add_camera_metadata_entry_correct:
  assumes "good_packet vo m" "get_camera_metadata_tag_type vo tag = Ret (uint t)" "t < NUM_TYPES"
    and "readable t n bytes"
  shows "refines vo m (add_camera_metadata_entry vo (Some m) tag (Some bytes) n)
    (spec_add (tag, t, value_of t n bytes) (abs_packet m))"
  by (rule add_refines [OF assms])

theorem add_camera_metadata_entry_correct_witness:
  "refines None demo_packet (add_camera_metadata_entry None (Some demo_packet) 1 (Some (replicate 16 7)) 2)
     (spec_add (1, 5, value_of 5 2 (replicate 16 7)) (abs_packet demo_packet))"
  by (rule add_camera_metadata_entry_correct [OF demo_good _ _ demo_readable])
    (simp_all add: demo_tag_types NUM_TYPES_def)

text \<open>
  C4.  \<open>delete_camera_metadata_entry\<close> removes exactly the item at a valid index, gives back the
  data bytes it used and keeps every other item with its value, in order; an invalid index is
  an error that changes nothing.
\<close>

theorem delete_camera_metadata_entry_correct:
  assumes "good_packet vo m"
  shows "refines vo m (delete_camera_metadata_entry vo (Some m) index)
    (spec_delete (unat index) (abs_packet m))"
  by (rule delete_refines [OF assms])

theorem delete_camera_metadata_entry_correct_witness:
  "refines None demo_packet (delete_camera_metadata_entry None (Some demo_packet) 0)
     (spec_delete (unat (0 :: u64)) (abs_packet demo_packet))"
  by (rule delete_camera_metadata_entry_correct [OF demo_good])




lemma demo_abs:
  "abs_packet demo_packet = \<lparr>st_entry_cap = 4, st_data_cap = 24, st_used = 8,
     st_items = [(1, 5, [1, 2, 3, 4, 5, 6, 7, 8]), (0, 0, [1])], st_sorted = False\<rparr>"
  unfolding abs_packet_def demo_items by (simp add: demo_packet_def)


text \<open>
  C19.  \<open>sort_camera_metadata\<close> permutes the items into the order of their tags, marks the packet
  as sorted and changes nothing else.
\<close>

theorem sort_camera_metadata_correct:
  assumes "good_packet vo m"
  shows "\<exists>m'. sort_camera_metadata vo (Some m) = Ret (OK, Some m') \<and> good_packet vo m' \<and>
    abs_packet m' = (abs_packet m)\<lparr>st_items := items m', st_sorted := True\<rparr> \<and>
    mset (items m') = mset (items m) \<and> sorted (tags_of (items m'))"
  by (rule sort_refines [OF assms])

theorem sort_camera_metadata_correct_witness:
  "\<exists>m'. sort_camera_metadata None (Some demo_packet) = Ret (OK, Some m') \<and> good_packet None m' \<and>
    abs_packet m' = (abs_packet demo_packet)\<lparr>st_items := items m', st_sorted := True\<rparr> \<and>
    mset (items m') = mset (items demo_packet) \<and> sorted (tags_of (items m'))"
  by (rule sort_camera_metadata_correct [OF demo_good])

lemma found_entry:
  assumes ok: "packet_ok vo m" and i: "i < length (items m)"
  shows "items m ! i = (en_tag (view_entry m i), en_type (view_entry m i), payload (md_data m) (live m ! i)) \<and>
    entry_bytes m (view_entry m i) = Ret (payload (md_data m) (live m ! i))"
proof -
  note okm = packet_okD [OF ok]
  have "live m ! i = md_entries m ! i"
    using in_live_nth [OF okm(1,2)] i by (simp add: length_items length_live [OF okm(1,2)])
  then show ?thesis
    using items_nth [OF ok i] entry_bytes_eq [OF ok, of i] i
    by (simp add: view_entry_def Let_def length_items)
qed

text \<open>
  C7.  \<open>find_camera_metadata_entry\<close> finds a tag exactly when some item has it; the entry it
  returns has the tag, and reading its data pointer gives the stored value.  In a packet that
  is not marked sorted it is the first such item.
\<close>

theorem find_camera_metadata_entry_correct:
  assumes good: "good_packet vo m"
  shows "if tag \<in> set (tags_of (items m))
    then \<exists>i e v. find_camera_metadata_entry (Some m) tag True = Ret (OK, Some e) \<and>
           i < length (items m) \<and> items m ! i = (tag, en_type e, v) \<and> entry_bytes m e = Ret v \<and>
           (\<not> st_sorted (abs_packet m) \<longrightarrow> (\<forall>k < i. tags_of (items m) ! k \<noteq> tag))
    else find_camera_metadata_entry (Some m) tag True = Ret (NOT_FOUND, None)"
proof -
  have ok: "packet_ok vo m" and c: "consistent (abs_packet m)" using good by (simp_all add: good_packet_def)
  have honest: "st_sorted (abs_packet m) \<Longrightarrow> sorted (tags_of (items m))"
    using c abs_counts(3) [OF ok] by (simp add: consistent_def)
  note run = find_correct [OF ok honest, of tag True]
  show ?thesis
  proof (cases "tag \<in> set (tags_of (items m))")
    case True
    with run obtain i where i: "i < length (items m)" "tags_of (items m) ! i = tag"
      "\<not> st_sorted (abs_packet m) \<longrightarrow> (\<forall>k < i. tags_of (items m) ! k \<noteq> tag)"
      "find_camera_metadata_entry (Some m) tag True = Ret (OK, Some (view_entry m i))"
      unfolding if_P [OF True] if_P [OF TrueI] by blast
    moreover have "en_tag (view_entry m i) = tag"
      using found_entry [OF ok i(1)] i(1,2) by simp
    ultimately show ?thesis using True found_entry [OF ok i(1)] by auto
  qed (use run in simp)
qed

theorem find_camera_metadata_entry_correct_witness:
  "\<exists>i e v. find_camera_metadata_entry (Some demo_packet) 0 True = Ret (OK, Some e) \<and>
     i < length (items demo_packet) \<and> items demo_packet ! i = (0, en_type e, v) \<and> entry_bytes demo_packet e = Ret v \<and>
     (\<not> st_sorted (abs_packet demo_packet) \<longrightarrow> (\<forall>k < i. tags_of (items demo_packet) ! k \<noteq> 0))"
proof -
  have "0 \<in> set (tags_of (items demo_packet))" by (simp add: demo_items)
  with find_camera_metadata_entry_correct [OF demo_good, of 0] show ?thesis by (simp only: if_True)
qed

text \<open>
  Writing and reading back: after a value is added under a tag the packet did not hold,
  looking the tag up returns an entry of the tag's type whose bytes are the caller's values.
\<close>

theorem add_then_find:
  assumes good: "good_packet vo m" and type: "get_camera_metadata_tag_type vo tag = Ret (uint t)" "t < NUM_TYPES"
    and arr: "readable t n bytes" and fresh: "tag \<notin> set (tags_of (items m))"
    and run: "add_camera_metadata_entry vo (Some m) tag (Some bytes) n = Ret (OK, Some m')"
  shows "\<exists>e. find_camera_metadata_entry (Some m') tag True = Ret (OK, Some e) \<and> en_tag e = tag \<and> en_type e = t \<and>
    entry_bytes m' e = Ret (value_of t n bytes)"
proof -
  from add_refines [OF good type arr] run have good': "good_packet vo m'"
    and spec: "(OK, abs_packet m') = spec_add (tag, t, value_of t n bytes) (abs_packet m)"
    by (auto simp: refines_def)
  have ok: "packet_ok vo m" "packet_ok vo m'" using good good' by (simp_all add: good_packet_def)
  have items: "items m' = items m @ [(tag, t, value_of t n bytes)]" and "\<not> st_sorted (abs_packet m')"
    using spec abs_counts(3) [OF ok(1)] abs_counts(3) [OF ok(2)] by (auto simp: spec_add_def split: if_splits)
  then obtain i where i: "i < length (items m')" "tags_of (items m') ! i = tag"
    "find_camera_metadata_entry (Some m') tag True = Ret (OK, Some (view_entry m' i))"
    using find_correct [OF ok(2), of tag True] by auto
  have "i = length (items m)"
    using i(1,2) fresh items
    by (cases "i < length (items m)") (auto simp: nth_append dest: nth_mem [THEN imageI [where f = fst]])
  then have "items m' ! i = (tag, t, value_of t n bytes)" by (simp add: items)
  with found_entry [OF ok(2) i(1)] i(3) show ?thesis by auto
qed

theorem add_then_find_witness:
  "\<exists>m0 m'. place_camera_metadata None (Some (0x1000, replicate 128 0)) 128 2 24 = Ret (Some m0) \<and>
     add_camera_metadata_entry None (Some m0) 1 (Some (replicate 16 7)) 2 = Ret (OK, Some m') \<and>
     (\<exists>e. find_camera_metadata_entry (Some m') 1 True = Ret (OK, Some e) \<and> en_tag e = 1 \<and> en_type e = 5 \<and>
        entry_bytes m' e = Ret (value_of 5 2 (replicate 16 7)))"
proof -
  obtain m0 where m0: "place_camera_metadata None (Some (0x1000, replicate 128 0)) 128 2 24 = Ret (Some m0)"
    "packet_ok None m0" "abs_packet m0 = empty_store 2 24"
    using place_correct [OF demo_block, of 2 24 None] by (auto simp: packet_bytes_def round8_def)
  have good: "good_packet None m0" using m0(2,3) empty_consistent by (simp add: good_packet_def)
  have type: "get_camera_metadata_tag_type None 1 = Ret (uint (5 :: u8))" "(5 :: u8) < NUM_TYPES"
    by (simp_all add: demo_tag_types NUM_TYPES_def)
  have "item_size (1, 5, value_of 5 2 (replicate 16 7)) = 16"
    by (simp add: item_size_def value_of_def tsize_def type_size_eq round8_def)
  with add_refines [OF good type demo_readable] obtain m' where
    m': "add_camera_metadata_entry None (Some m0) 1 (Some (replicate 16 7)) 2 = Ret (OK, Some m')"
    by (auto simp: refines_def m0(3) spec_add_def empty_store_def)
  have "1 \<notin> set (tags_of (items m0))" using m0(3) abs_counts(3) [OF m0(2)] by (simp add: empty_store_def)
  from add_then_find [OF good type demo_readable this m'] m0(1) m' show ?thesis by blast
qed

text \<open>
  \<open>allocate_camera_metadata\<close> returns an empty packet with the requested capacities when
  \<open>malloc\<close> provides the memory, for every request whose packet is smaller than 4 GB.
\<close>

theorem allocate_camera_metadata_correct:
  assumes "malloc (calculate_camera_metadata_size n d) = Some b"
    and "block_ok (calculate_camera_metadata_size n d) b"
    and "packet_bytes (unat n) (unat d) < 2 ^ 32"
  shows "unat (calculate_camera_metadata_size n d) = packet_bytes (unat n) (unat d) \<and>
    (\<exists>m. allocate_camera_metadata vo malloc n d = Ret (Some m) \<and> good_packet vo m \<and>
       abs_packet m = empty_store (unat n) (unat d))"
  using allocate_correct [where malloc = malloc, OF assms, of vo] empty_consistent [of "unat n" "unat d"]
    calculate_size_eq [of n d] assms(3)
  by (auto simp: good_packet_def)

lemma demo_size: "calculate_camera_metadata_size 2 24 = 96"
  using calculate_size_eq [of 2 24] by (simp add: packet_bytes_def round8_def word_unat_eq_iff)

theorem allocate_camera_metadata_correct_witness:
  "\<exists>m. allocate_camera_metadata None (\<lambda>size. Some (0x1000, replicate (unat size) 0)) 2 24 = Ret (Some m) \<and>
     good_packet None m \<and> abs_packet m = empty_store (unat (2 :: u64)) (unat (24 :: u64))"
  using allocate_camera_metadata_correct [of "\<lambda>size. Some (0x1000, replicate (unat size) 0)" 2 24
      "(0x1000, replicate 96 0)" None]
  by (simp add: demo_size block_ok_def packet_bytes_def round8_def)

text \<open>
  C20.  Cloning and copying produce a packet with the same items and the same sorted mark that
  has no spare slots or data bytes.
\<close>

theorem clone_and_copy_correct:
  assumes good: "good_packet vo s" and malloc: "\<And>size. \<exists>b. malloc size = Some b \<and> block_ok size b"
    and dst: "block_ok dst_size b" "packet_bytes (length (items s)) (st_used (abs_packet s)) \<le> unat dst_size"
  defines "compact \<equiv> (abs_packet s)\<lparr>st_entry_cap := length (items s), st_data_cap := st_used (abs_packet s)\<rparr>"
  shows "(\<exists>m'. clone_camera_metadata vo malloc (Some s) = Ret (Some m') \<and> good_packet vo m' \<and>
       abs_packet m' = compact) \<and>
    (\<exists>m'. copy_camera_metadata vo (Some b) dst_size (Some s) = Ret (Some m') \<and> good_packet vo m' \<and>
       abs_packet m' = compact)"
proof -
  have ok: "packet_ok vo s" and c: "consistent (abs_packet s)" using good by (simp_all add: good_packet_def)
  have "consistent compact" using compact_consistent [OF c] abs_counts(3) [OF ok] by (simp add: compact_def)
  with clone_correct [where malloc = malloc, OF ok malloc] copy_correct [OF ok dst] show ?thesis
    unfolding compact_def good_packet_def by metis
qed

theorem clone_and_copy_correct_witness:
  "\<exists>m'. clone_camera_metadata None (\<lambda>size. Some (0x1000, replicate (unat size) 0)) (Some demo_packet) = Ret (Some m') \<and>
     good_packet None m' \<and> items m' = items demo_packet"
proof -
  have "packet_bytes (length (items demo_packet)) (st_used (abs_packet demo_packet)) \<le> unat (128 :: u64)"
    by (simp add: demo_items demo_abs packet_bytes_def round8_def)
  from clone_and_copy_correct [OF demo_good _ demo_block this,
      of "\<lambda>size. Some (0x1000, replicate (unat size) 0)"]
  obtain m' where "clone_camera_metadata None (\<lambda>size. Some (0x1000, replicate (unat size) 0)) (Some demo_packet) = Ret (Some m')"
    "good_packet None m'" "st_items (abs_packet m') = st_items (abs_packet demo_packet)"
    by (auto simp: block_ok_def)
  then show ?thesis by (auto simp: abs_packet_def)
qed

section \<open>Packets from raw bytes\<close>

lemma validate_entries_OKD:
  "validate_entries vo m i n = Ret OK \<Longrightarrow> i \<le> j \<Longrightarrow> j < i + n \<Longrightarrow>
   j < length (md_entries m) \<and> validate_entry vo m j (md_entries m ! j) = Ret OK"
proof (induction n arbitrary: i)
  case (Suc n)
  from Suc.prems(1) have i: "i < length (md_entries m)" "validate_entry vo m i (md_entries m ! i) = Ret OK"
    "validate_entries vo m (Suc i) n = Ret OK"
    by (auto simp: array_read_def bindE_Ret_iff split: if_splits)
  then show ?case
    using Suc.IH [OF i(3)] Suc.prems by (cases "j = i") auto
qed simp












section \<open>Where the code does not keep its promise\<close>




lemma validate_returns:
  assumes "unat (md_entry_count m) \<le> length (md_entries m)"
  shows "\<exists>r. validate_camera_metadata_structure vo (Some m) n = Ret r"
proof -
  have entry: "\<exists>r. validate_entry vo m i e = Ret r" for i e
    by (simp add: validate_entry_def get_camera_metadata_tag_type_eq Let_def)
  have "i + k \<le> length (md_entries m) \<Longrightarrow> \<exists>r. validate_entries vo m i k = Ret r" for i k
  proof (induction k arbitrary: i)
    case (Suc k)
    then have "\<exists>r. validate_entries vo m (Suc i) k = Ret r" by simp
    moreover obtain r where "validate_entry vo m i (md_entries m ! i) = Ret r" using entry by blast
    ultimately show ?case using Suc.prems by (simp add: array_read_def)
  qed simp
  from this [of 0] assms obtain r where "validate_entries vo m 0 (unat (md_entry_count m)) = Ret r" by auto
  then show ?thesis by (simp add: validate_camera_metadata_structure_def Let_def)
qed

text \<open>An entry without values must have a zero data word.\<close>

lemma validate_empty_entry:
  "be_count e = 0 \<Longrightarrow> be_data e \<noteq> 0 \<Longrightarrow> validate_entry vo m i e \<noteq> Ret OK"
  by (auto simp: validate_entry_def Let_def get_camera_metadata_tag_type_eq
      calculate_camera_metadata_entry_data_size_def)

lemma assert_valid_fails:
  assumes "i < unat (md_entry_count m)" "unat (md_entry_count m) \<le> length (md_entries m)"
    and "validate_entry vo m i (md_entries m ! i) \<noteq> Ret OK"
  shows "assert_valid vo (Some m) r = AssertFail"
proof -
  obtain s where s: "validate_camera_metadata_structure vo (Some m) None = Ret s"
    using validate_returns [OF assms(2)] by blast
  have "validate_entries vo m 0 (unat (md_entry_count m)) \<noteq> Ret OK"
    using validate_entries_OKD [of vo m 0 _ i] assms(1,3) by auto
  with s have "s \<noteq> OK"
    by (auto simp: validate_camera_metadata_structure_def Let_def split: if_splits)
  with s show ?thesis by (simp add: assert_valid_def)
qed

lemma moved_slot:
  assumes "moved vo m d xs e ys val 0"
  shows "length xs < unat (md_entry_count d)" "unat (md_entry_count d) \<le> length (md_entries d)"
    "be_data (md_entries d ! length xs) = be_data e"
proof -
  from assms obtain xs' e' ys' where st: "stale vo d xs' e' ys'" "length xs' = length xs" "be_data e' = be_data e"
    unfolding moved_def by blast
  with stale_slot [OF st(1)] show "length xs < unat (md_entry_count d)"
    "be_data (md_entries d ! length xs) = be_data e" by simp_all
  show "unat (md_entry_count d) \<le> length (md_entries d)"
    using st(1) by (simp add: stale_def layout_ok_def counts_ok_def)
qed

text \<open>
  Updating an entry to no values at all does not empty it: unless the data word of its slot
  happens to be zero, the stale word makes the closing validation fail and the process
  aborts, although \<open>add_camera_metadata_entry\<close> accepts entries without values.
\<close>

theorem update_to_no_values_aborts:
  assumes ok: "packet_ok vo m" and i: "unat index < length (items m)"
    and data: "be_data (md_entries m ! unat index) \<noteq> 0"
  shows "update_camera_metadata_entry vo (Some m) index (Some bytes) 0 False = AssertFail"
proof -
  obtain xs e ys where live: "live m = xs @ e # ys" and xs: "unat index = length xs"
    and guard: "\<not> ucast (md_entry_count m) \<le> index" and rd: "array_read (md_entries m) (unat index) = Ret e"
    using index_split [OF ok i] by metis
  have e: "be_type e < NUM_TYPES" "be_data e \<noteq> 0"
    using packet_okD(4) [OF ok, of e] live data rd by (auto simp: array_read_def split: if_splits)
  have arr: "readable (be_type e) 0 []" by (simp add: readable_def)
  have new: "new_size (be_type e) 0 = 0" using readable_sizes(2) [OF arr e(1)] by simp
  then have zero: "calculate_camera_metadata_entry_data_size (be_type e) 0 = 0" by (simp add: data_word_eq)
  have fits: "\<not> unat (md_data_capacity m) < unat (md_data_count m) - esize e + new_size (be_type e) 0"
    using packet_okD(2) [OF ok] new by (auto simp: counts_ok_def)
  obtain d where d: "update_entry_data m index [] 0 (calculate_camera_metadata_entry_data_size (be_type e) 0)
        (calculate_camera_metadata_entry_data_size (be_type e) (ucast (be_count e))) = Ret d"
    and mv: "moved vo m d xs e ys [] 0"
    using update_data_correct [OF ok live xs arr] fits new by (auto simp: data_updated_def value_of_def)
  have d': "update_entry_data m index bytes 0 (calculate_camera_metadata_entry_data_size (be_type e) 0)
        (calculate_camera_metadata_entry_data_size (be_type e) (ucast (be_count e))) = Ret d"
    using d unfolding update_entry_data_def Let_def zero by (simp cong: if_cong)
  note slot = moved_slot [OF mv]
  define m' where "m' = d\<lparr>md_entries := (md_entries d)[length xs := (md_entries d ! length xs)\<lparr>be_data := be_data e, be_count := 0\<rparr>]\<rparr>"
  have "update_entry_slot d index bytes 0 (calculate_camera_metadata_entry_data_size (be_type e) 0) 0 = Ret m'"
    using new slot xs
    by (simp add: update_entry_slot_def data_word_eq write_value_def memcpy_def mem_read_def mem_write_def m'_def)
  moreover have "assert_valid vo (Some m') r = AssertFail" for r :: "int \<times> camera_metadata option \<times> camera_metadata_entry option"
    using slot e(2) by (intro assert_valid_fails [of "length xs"] validate_empty_entry) (simp_all add: m'_def)
  moreover note update_guard [OF ok live arr]
  ultimately show ?thesis
    using d' guard rd fits
    by (simp add: update_camera_metadata_entry_def Let_def array_read_type_size [OF e(1)])
qed

theorem update_to_no_values_aborts_witness:
  "update_camera_metadata_entry None (Some demo_packet) 1 (Some []) 0 False = AssertFail"
  by (rule update_to_no_values_aborts [OF demo_ok]) (simp_all add: demo_items, simp add: demo_packet_def)

text \<open>
  \<open>clone_camera_metadata\<close> never reports a failed allocation: when \<open>malloc\<close> returns no memory
  the function aborts in its closing assertion, which validates the missing clone.
\<close>

theorem clone_without_memory_aborts:
  assumes "malloc (calculate_camera_metadata_size (ucast (md_entry_count s)) (ucast (md_data_count s))) = None"
  shows "clone_camera_metadata vo malloc (Some s) = AssertFail"
  using assms by (rule clone_without_memory)

theorem clone_without_memory_aborts_witness:
  "clone_camera_metadata None (\<lambda>size. None) (Some demo_packet) = AssertFail"
  by (rule clone_without_memory_aborts) simp

text \<open>
  The guard of \<open>append_camera_metadata\<close> adds the two byte counts in 32 bits: when the sum reaches
  \<open>2 ^ 32\<close> the guard passes and the copy runs past the destination.
\<close>

lemma append_wrapped_count_faults:
  assumes d: "packet_ok vo d" and s: "packet_ok vo s"
    and entries: "unat (md_entry_count d) + unat (md_entry_count s) \<le> unat (md_entry_capacity d)"
    and wrap: "2 ^ 32 \<le> unat (md_data_count d) + unat (md_data_count s)"
  shows "append_camera_metadata vo (Some d) (Some s) = Fault"
proof -
  note okd = packet_okD [OF d] and oks = packet_okD [OF s]
  have "unat (md_data_count s + md_data_count d) = unat (md_data_count d) + unat (md_data_count s) - 2 ^ 32"
    using wrap unat_u32_less [of "md_data_count d"] unat_u32_less [of "md_data_count s"]
    by (auto simp: unat_word_ariths mod_if)
  also have "\<dots> \<le> unat (md_data_capacity d)"
    using okd(2) unat_u32_less [of "md_data_count s"] by (auto simp: counts_ok_def)
  finally have g: "\<not> md_data_capacity d < md_data_count s + md_data_count d" by (simp add: word_less_nat_alt)
  have "unat (md_entry_count s + md_entry_count d) = unat (md_entry_count d) + unat (md_entry_count s)"
    using entries unat_u32_less [of "md_entry_capacity d"] by (simp add: unat_word_ariths)
  then have g': "\<not> md_entry_capacity d < md_entry_count s + md_entry_count d"
    using entries by (simp add: word_less_nat_alt)
  have "length (md_data d) < unat (md_data_count d) + unat (md_data_count s)"
    using wrap okd(1) unat_u32_less [of "md_data_capacity d"] by (simp add: layout_ok_def)
  then have "memcpy (unat (md_data_count d)) (md_data s) (unat (md_data_count s)) (md_data d) = None"
    by (auto simp: memcpy_def mem_read_def mem_write_def min_def)
  moreover have "\<exists>es. memcpy (unat (md_entry_count d)) (md_entries s) (unat (md_entry_count s)) (md_entries d) = Some es"
    using entries okd(1) oks(1,2) by (simp add: memcpy_Some layout_ok_def counts_ok_def)
  ultimately show ?thesis using g g' by (auto simp: append_camera_metadata_def)
qed

end
