(* ===== verification/Hashmap.thy ===== *)
theory Hashmap
  imports C_Prelude
begin

text \<open>
  The chained hash table of \<open>cutils/hashmap.c\<close>.  A key is a pointer of type \<open>'k\<close>, a value a
  pointer of type \<open>'v option\<close> with \<open>None\<close> for \<open>NULL\<close>; the user's \<open>hash\<close> and \<open>equals\<close> are fields of
  the map, as in the code.  A bucket is the list of the entries chained from it.  Whether
  \<open>malloc\<close> and \<open>calloc\<close> provide memory is an argument of the operations that allocate.  The
  \<open>int\<close> arithmetic of the hash functions wraps, as on the target.  The mutex is left out.
\<close>

section \<open>The table\<close>

record ('k, 'v) Entry =
  entry_key :: 'k
  entry_hash :: u32
  entry_value :: "'v option"

record ('k, 'v) Hashmap =
  buckets :: "('k, 'v) Entry list list"
  bucketCount :: u64
  map_hash :: "'k \<Rightarrow> u32"
  map_equals :: "'k \<Rightarrow> 'k \<Rightarrow> bool"
  map_size :: u64

text \<open>The loop that doubles the bucket count until it exceeds the minimum.\<close>

partial_function (option) grow_bucketCount :: "u64 \<Rightarrow> u64 \<Rightarrow> u64 option" where
  "grow_bucketCount minimum bcount =
     (if bcount \<le> minimum then grow_bucketCount minimum (push_bit 1 bcount) else Some bcount)"

declare grow_bucketCount.simps [code]

text \<open>
  \<open>hashmapCreate\<close>; the inner result is \<open>None\<close> when memory runs out, the outer one when the loop
  does not end.
\<close>

definition hashmapCreate ::
    "bool \<Rightarrow> (u64 \<Rightarrow> bool) \<Rightarrow> u64 \<Rightarrow> ('k \<Rightarrow> u32) \<Rightarrow> ('k \<Rightarrow> 'k \<Rightarrow> bool) \<Rightarrow> ('k, 'v) Hashmap option option" where
  "hashmapCreate malloc_ok calloc_ok initialCapacity hash equals =
     (if \<not> malloc_ok then Some None
      else
        let minimumBucketCount = initialCapacity * 4 div 3 in
        case grow_bucketCount minimumBucketCount 1 of
          None \<Rightarrow> None
        | Some bcount \<Rightarrow>
            Some (if \<not> calloc_ok bcount then None
                  else Some \<lparr>buckets = replicate (unat bcount) [], bucketCount = bcount, map_hash = hash,
                             map_equals = equals, map_size = 0\<rparr>))"

definition hashKey :: "('k, 'v) Hashmap \<Rightarrow> 'k \<Rightarrow> u32" where
  "hashKey hm key =
     (let h = map_hash hm key;
          h = h + NOT (push_bit 9 h);
          h = h XOR drop_bit 14 h;
          h = h + push_bit 4 h;
          h = h XOR drop_bit 10 h
      in h)"

definition hashmapSize :: "('k, 'v) Hashmap \<Rightarrow> u64" where
  "hashmapSize hm = map_size hm"

text \<open>The conversion \<open>(size_t) hash\<close> of an \<open>int\<close> extends its sign.\<close>

definition calculateIndex :: "u64 \<Rightarrow> u32 \<Rightarrow> u64" where
  "calculateIndex bcount hash = signed_take_bit 31 (ucast hash) AND (bcount - 1)"

text \<open>Moving one entry to the front of its new bucket.\<close>

definition move_entry ::
    "u64 \<Rightarrow> ('k, 'v) Entry \<Rightarrow> ('k, 'v) Entry list list \<Rightarrow> ('k, 'v) Entry list list" where
  "move_entry newBucketCount entry newBuckets =
     (let index = unat (calculateIndex newBucketCount (entry_hash entry))
      in newBuckets[index := entry # newBuckets ! index])"

definition expandIfNecessary :: "(u64 \<Rightarrow> bool) \<Rightarrow> ('k, 'v) Hashmap \<Rightarrow> ('k, 'v) Hashmap" where
  "expandIfNecessary calloc_ok hm =
     (if map_size hm > bucketCount hm * 3 div 4 then
        let newBucketCount = push_bit 1 (bucketCount hm) in
        if \<not> calloc_ok newBucketCount then hm
        else
          let newBuckets = fold (fold (move_entry newBucketCount)) (buckets hm)
                (replicate (unat newBucketCount) [])
          in hm\<lparr>buckets := newBuckets, bucketCount := newBucketCount\<rparr>
      else hm)"

text \<open>
  A \<open>calloc\<close> that fails sets \<open>errno\<close> to \<open>ENOMEM\<close>, also the one of an expansion that is given up;
  the callers of the table that inspect \<open>errno\<close> see it.
\<close>

definition expansion_fails :: "(u64 \<Rightarrow> bool) \<Rightarrow> ('k, 'v) Hashmap \<Rightarrow> bool" where
  "expansion_fails calloc_ok hm \<longleftrightarrow>
     map_size hm > bucketCount hm * 3 div 4 \<and> \<not> calloc_ok (push_bit 1 (bucketCount hm))"

text \<open>\<open>hashmapHash\<close> over the bytes of a key; a \<open>char\<close> is signed.\<close>

definition hashmapHash :: "u8 list \<Rightarrow> u32" where
  "hashmapHash key = fold (\<lambda>c h. h * 31 + scast c) key (of_nat (length key))"

definition createEntry :: "bool \<Rightarrow> 'k \<Rightarrow> u32 \<Rightarrow> 'v option \<Rightarrow> ('k, 'v) Entry option" where
  "createEntry malloc_ok key hash v =
     (if malloc_ok then Some \<lparr>entry_key = key, entry_hash = hash, entry_value = v\<rparr> else None)"

definition equalKeys :: "'k \<Rightarrow> u32 \<Rightarrow> 'k \<Rightarrow> u32 \<Rightarrow> ('k \<Rightarrow> 'k \<Rightarrow> bool) \<Rightarrow> bool" where
  "equalKeys keyA hashA keyB hashB equals =
     (if keyA = keyB then True else if hashA \<noteq> hashB then False else equals keyA keyB)"

section \<open>Walking a chain\<close>

text \<open>
  The entries before the first one whose key equals the given key, and the chain from there.
  The walk of every operation below: \<open>p\<close> points to the link where it stops.
\<close>

fun walk :: "('k \<Rightarrow> 'k \<Rightarrow> bool) \<Rightarrow> 'k \<Rightarrow> u32 \<Rightarrow> ('k, 'v) Entry list \<Rightarrow>
    ('k, 'v) Entry list \<times> ('k, 'v) Entry list" where
  "walk equals key hash [] = ([], [])"
| "walk equals key hash (current # rest) =
     (if equalKeys (entry_key current) (entry_hash current) key hash equals then ([], current # rest)
      else let (before, found) = walk equals key hash rest in (current # before, found))"

definition chain_of :: "('k, 'v) Hashmap \<Rightarrow> u64 \<Rightarrow> ('k, 'v) Entry list" where
  "chain_of hm index = buckets hm ! unat index"

definition set_chain :: "('k, 'v) Hashmap \<Rightarrow> u64 \<Rightarrow> ('k, 'v) Entry list \<Rightarrow> ('k, 'v) Hashmap" where
  "set_chain hm index chain = hm\<lparr>buckets := (buckets hm)[unat index := chain]\<rparr>"

text \<open>The returned pointer, whether \<open>errno\<close> is set to \<open>ENOMEM\<close>, and the map afterwards.\<close>

definition hashmapPut ::
    "bool \<Rightarrow> (u64 \<Rightarrow> bool) \<Rightarrow> ('k, 'v) Hashmap \<Rightarrow> 'k \<Rightarrow> 'v option \<Rightarrow>
     'v option \<times> bool \<times> ('k, 'v) Hashmap" where
  "hashmapPut malloc_ok calloc_ok hm key v =
     (let hash = hashKey hm key;
          index = calculateIndex (bucketCount hm) hash in
      case walk (map_equals hm) key hash (chain_of hm index) of
        (before, []) \<Rightarrow>
          (case createEntry malloc_ok key hash v of
             None \<Rightarrow> (None, True, hm)
           | Some e \<Rightarrow>
               let hm = (set_chain hm index (before @ [e]))\<lparr>map_size := map_size hm + 1\<rparr>
               in (None, expansion_fails calloc_ok hm, expandIfNecessary calloc_ok hm))
      | (before, current # rest) \<Rightarrow>
          (entry_value current, False, set_chain hm index (before @ current\<lparr>entry_value := v\<rparr> # rest)))"

definition hashmapGet :: "('k, 'v) Hashmap \<Rightarrow> 'k \<Rightarrow> 'v option" where
  "hashmapGet hm key =
     (let hash = hashKey hm key;
          index = calculateIndex (bucketCount hm) hash in
      case snd (walk (map_equals hm) key hash (chain_of hm index)) of
        [] \<Rightarrow> None
      | entry # _ \<Rightarrow> entry_value entry)"

definition hashmapContainsKey :: "('k, 'v) Hashmap \<Rightarrow> 'k \<Rightarrow> bool" where
  "hashmapContainsKey hm key =
     (let hash = hashKey hm key;
          index = calculateIndex (bucketCount hm) hash in
      case snd (walk (map_equals hm) key hash (chain_of hm index)) of
        [] \<Rightarrow> False
      | entry # _ \<Rightarrow> True)"

definition hashmapMemoize ::
    "bool \<Rightarrow> (u64 \<Rightarrow> bool) \<Rightarrow> ('k, 'v) Hashmap \<Rightarrow> 'k \<Rightarrow> ('k \<Rightarrow> 'c \<Rightarrow> 'v option) \<Rightarrow> 'c \<Rightarrow>
     'v option \<times> bool \<times> ('k, 'v) Hashmap" where
  "hashmapMemoize malloc_ok calloc_ok hm key initialValue context =
     (let hash = hashKey hm key;
          index = calculateIndex (bucketCount hm) hash in
      case walk (map_equals hm) key hash (chain_of hm index) of
        (before, []) \<Rightarrow>
          (case createEntry malloc_ok key hash None of
             None \<Rightarrow> (None, True, hm)
           | Some e \<Rightarrow>
               let v = initialValue key context;
                   hm = (set_chain hm index (before @ [e\<lparr>entry_value := v\<rparr>]))\<lparr>map_size := map_size hm + 1\<rparr>
               in (v, expansion_fails calloc_ok hm, expandIfNecessary calloc_ok hm))
      | (before, current # rest) \<Rightarrow> (entry_value current, False, hm))"

definition hashmapRemove :: "('k, 'v) Hashmap \<Rightarrow> 'k \<Rightarrow> 'v option \<times> ('k, 'v) Hashmap" where
  "hashmapRemove hm key =
     (let hash = hashKey hm key;
          index = calculateIndex (bucketCount hm) hash in
      case walk (map_equals hm) key hash (chain_of hm index) of
        (before, []) \<Rightarrow> (None, hm)
      | (before, current # rest) \<Rightarrow>
          (entry_value current, (set_chain hm index (before @ rest))\<lparr>map_size := map_size hm - 1\<rparr>))"

section \<open>Iteration and statistics\<close>

text \<open>
  The callback takes the key, the value and the context and returns whether to go on; what it
  does to the context is threaded through the calls.
\<close>

fun forEach_chain ::
    "('k \<Rightarrow> 'v option \<Rightarrow> 'c \<Rightarrow> bool \<times> 'c) \<Rightarrow> ('k, 'v) Entry list \<Rightarrow> 'c \<Rightarrow> bool \<times> 'c" where
  "forEach_chain callback [] context = (True, context)"
| "forEach_chain callback (entry # rest) context =
     (case callback (entry_key entry) (entry_value entry) context of
        (go_on, context) \<Rightarrow> if \<not> go_on then (False, context) else forEach_chain callback rest context)"

fun forEach_buckets ::
    "('k \<Rightarrow> 'v option \<Rightarrow> 'c \<Rightarrow> bool \<times> 'c) \<Rightarrow> ('k, 'v) Entry list list \<Rightarrow> 'c \<Rightarrow> 'c" where
  "forEach_buckets callback [] context = context"
| "forEach_buckets callback (chain # rest) context =
     (case forEach_chain callback chain context of
        (go_on, context) \<Rightarrow> if \<not> go_on then context else forEach_buckets callback rest context)"

definition hashmapForEach ::
    "('k, 'v) Hashmap \<Rightarrow> ('k \<Rightarrow> 'v option \<Rightarrow> 'c \<Rightarrow> bool \<times> 'c) \<Rightarrow> 'c \<Rightarrow> 'c" where
  "hashmapForEach hm callback context = forEach_buckets callback (buckets hm) context"

definition hashmapCurrentCapacity :: "('k, 'v) Hashmap \<Rightarrow> u64" where
  "hashmapCurrentCapacity hm = bucketCount hm * 3 div 4"

fun chain_collisions :: "('k, 'v) Entry list \<Rightarrow> u64 \<Rightarrow> u64" where
  "chain_collisions [] collisions = collisions"
| "chain_collisions (entry # rest) collisions =
     chain_collisions rest (if rest \<noteq> [] then collisions + 1 else collisions)"

definition hashmapCountCollisions :: "('k, 'v) Hashmap \<Rightarrow> u64" where
  "hashmapCountCollisions hm = fold chain_collisions (buckets hm) 0"

definition hashmapIntHash :: "u32 \<Rightarrow> u32" where
  "hashmapIntHash key = key"

definition hashmapIntEquals :: "u32 \<Rightarrow> u32 \<Rightarrow> bool" where
  "hashmapIntEquals keyA keyB = (let a = keyA; b = keyB in a = b)"

end
