(* ===== verification/Hashmap_Correct.thy ===== *)
theory Hashmap_Correct
  imports Hashmap
begin

text \<open>
  The hash table implements a finite map: under the contract of the key functions, every
  operation keeps the invariant of the table and acts on its contents as the operation of a
  map, whatever the hashes and however often the table grows.
\<close>

section \<open>Contract of the key functions\<close>

text \<open>
  What the header asks of the user's \<open>hash\<close> and \<open>equals\<close>: \<open>equals\<close> is an equivalence, and equal
  keys have equal hashes.
\<close>

locale hash_keys =
  fixes hash :: "'k \<Rightarrow> u32" and equals :: "'k \<Rightarrow> 'k \<Rightarrow> bool"
  assumes equals_refl [simp]: "equals k k"
    and equals_sym: "equals k l \<Longrightarrow> equals l k"
    and equals_trans: "equals k l \<Longrightarrow> equals l j \<Longrightarrow> equals k j"
    and equals_hash: "equals k l \<Longrightarrow> hash k = hash l"

section \<open>Contents and invariant\<close>

text \<open>All entries, bucket by bucket, and the value stored under a key, if any.\<close>

definition hm_entries :: "('k, 'v) Hashmap \<Rightarrow> ('k, 'v) Entry list" where
  "hm_entries hm = concat (buckets hm)"

definition lookup_in :: "('k \<Rightarrow> 'k \<Rightarrow> bool) \<Rightarrow> ('k, 'v) Entry list \<Rightarrow> 'k \<Rightarrow> 'v option option" where
  "lookup_in equals es k = map_option entry_value (find (\<lambda>e. equals (entry_key e) k) es)"

definition contents :: "('k, 'v) Hashmap \<Rightarrow> 'k \<Rightarrow> 'v option option" where
  "contents hm k = lookup_in (map_equals hm) (hm_entries hm) k"

definition uniq :: "('k \<Rightarrow> 'k \<Rightarrow> bool) \<Rightarrow> ('k, 'v) Entry list \<Rightarrow> bool" where
  "uniq equals es \<longleftrightarrow> sorted_wrt (\<lambda>e f. \<not> equals (entry_key e) (entry_key f)) es"

text \<open>
  The bucket count is a power of two; every entry carries the hash of its key and sits in the
  bucket of that hash; no two entries have equal keys; the size counts the entries.
\<close>

definition hashmap_ok :: "('k, 'v) Hashmap \<Rightarrow> bool" where
  "hashmap_ok hm \<longleftrightarrow>
     (\<exists>b < 61. unat (bucketCount hm) = 2 ^ b) \<and>
     length (buckets hm) = unat (bucketCount hm) \<and>
     (\<forall>i < length (buckets hm). \<forall>e \<in> set (buckets hm ! i).
        entry_hash e = hashKey hm (entry_key e) \<and>
        unat (calculateIndex (bucketCount hm) (entry_hash e)) = i) \<and>
     uniq (map_equals hm) (hm_entries hm) \<and>
     map_size hm = of_nat (length (hm_entries hm))"

definition uses :: "('k \<Rightarrow> u32) \<Rightarrow> ('k \<Rightarrow> 'k \<Rightarrow> bool) \<Rightarrow> ('k, 'v) Hashmap \<Rightarrow> bool" where
  "uses hash equals hm \<longleftrightarrow> map_hash hm = hash \<and> map_equals hm = equals"

lemma hashKey_cong: "map_hash hm = map_hash hm' \<Longrightarrow> hashKey hm k = hashKey hm' k"
  by (simp add: hashKey_def)

lemma calculateIndex_less: "0 < unat n \<Longrightarrow> unat (calculateIndex n h) < unat n"
proof -
  assume n: "0 < unat n"
  have "calculateIndex n h \<le> n - 1"
    unfolding calculateIndex_def by (rule word_and_le1)
  then have "unat (calculateIndex n h) \<le> unat (n - 1)" by (simp add: word_le_nat_alt)
  also have "\<dots> < unat n" using n by (simp add: unat_sub_if')
  finally show ?thesis .
qed

lemma hashmap_okD:
  assumes "hashmap_ok hm"
  shows "0 < unat (bucketCount hm)" "unat (bucketCount hm) < 2 ^ 61"
    "length (buckets hm) = unat (bucketCount hm)"
    "unat (calculateIndex (bucketCount hm) h) < length (buckets hm)"
    "uniq (map_equals hm) (hm_entries hm)"
    "map_size hm = of_nat (length (hm_entries hm))"
proof -
  obtain b where b: "b < 61" "unat (bucketCount hm) = 2 ^ b" using assms by (auto simp: hashmap_ok_def)
  have "(2::nat) ^ b < 2 ^ 61" using b(1) by (intro power_strict_increasing) simp_all
  with b show "0 < unat (bucketCount hm)" "unat (bucketCount hm) < 2 ^ 61" by simp_all
  with assms calculateIndex_less [of "bucketCount hm" h]
  show "length (buckets hm) = unat (bucketCount hm)"
    "unat (calculateIndex (bucketCount hm) h) < length (buckets hm)"
    "uniq (map_equals hm) (hm_entries hm)" "map_size hm = of_nat (length (hm_entries hm))"
    by (simp_all add: hashmap_ok_def)
qed

lemma hashmap_ok_entry:
  "hashmap_ok hm \<Longrightarrow> i < length (buckets hm) \<Longrightarrow> e \<in> set (buckets hm ! i) \<Longrightarrow>
   entry_hash e = hashKey hm (entry_key e) \<and> unat (calculateIndex (bucketCount hm) (hashKey hm (entry_key e))) = i"
  unfolding hashmap_ok_def by metis

lemma mset_concat_update:
  "i < length bs \<Longrightarrow> mset (concat (bs[i := c])) + mset (bs ! i) = mset (concat bs) + mset c"
proof (induction bs arbitrary: i)
  case (Cons b bs)
  then show ?case by (cases i) (simp_all add: ac_simps)
qed simp

context hash_keys
begin

lemma uniq_perm: "uniq equals xs \<Longrightarrow> mset xs = mset ys \<Longrightarrow> uniq equals ys"
  unfolding uniq_def by (erule (1) sorted_wrt_perm [rotated]) (use equals_sym in blast)

lemma lookup_in_iff:
  "uniq equals xs \<Longrightarrow>
   lookup_in equals xs k = Some v \<longleftrightarrow> (\<exists>e \<in> set xs. equals (entry_key e) k \<and> entry_value e = v)"
proof (induction xs)
  case (Cons x xs)
  then have u: "uniq equals xs" "\<And>e. e \<in> set xs \<Longrightarrow> \<not> equals (entry_key x) (entry_key e)"
    by (auto simp: uniq_def)
  show ?case
  proof (cases "equals (entry_key x) k")
    case True
    then have "\<not> equals (entry_key e) k" if "e \<in> set xs" for e
      using u(2) [OF that] equals_sym equals_trans by blast
    with True show ?thesis by (auto simp: lookup_in_def)
  next
    case False
    with Cons.IH [OF u(1)] show ?thesis by (auto simp: lookup_in_def)
  qed
qed (simp add: lookup_in_def)

lemma lookup_in_perm:
  assumes "uniq equals xs" "mset xs = mset ys"
  shows "lookup_in equals xs = lookup_in equals ys"
proof
  fix k
  have "lookup_in equals xs k = Some v \<longleftrightarrow> lookup_in equals ys k = Some v" for v
    using lookup_in_iff [OF assms(1)] lookup_in_iff [OF uniq_perm [OF assms]] mset_eq_setD [OF assms(2)] by simp
  then show "lookup_in equals xs k = lookup_in equals ys k"
    by (metis option.exhaust)
qed

lemma lookup_in_Cons:
  "lookup_in equals (e # xs) k = (if equals (entry_key e) k then Some (entry_value e) else lookup_in equals xs k)"
  by (simp add: lookup_in_def)

text \<open>Taking out an entry of a table without equal keys leaves its key unbound.\<close>

lemma lookup_in_without:
  assumes "uniq equals (e # xs)" "equals (entry_key e) key"
  shows "lookup_in equals xs k = (if equals key k then None else lookup_in equals (e # xs) k)"
proof (cases "equals key k")
  case True
  then have e: "equals (entry_key e) k" using assms(2) equals_trans by blast
  have "\<not> equals (entry_key f) k" if f: "f \<in> set xs" for f
  proof
    assume "equals (entry_key f) k"
    then have "equals (entry_key e) (entry_key f)" by (rule equals_trans [OF e equals_sym])
    with assms(1) f show False by (simp add: uniq_def)
  qed
  then have "find (\<lambda>f. equals (entry_key f) k) xs = None" by (auto simp: find_None_iff)
  with True show ?thesis by (simp add: lookup_in_def)
next
  case False
  then have "\<not> equals (entry_key e) k" using assms(2) equals_sym equals_trans by blast
  with False show ?thesis by (simp add: lookup_in_Cons)
qed

lemma hashKey_equals: "uses hash equals hm \<Longrightarrow> equals k l \<Longrightarrow> hashKey hm k = hashKey hm l"
  using equals_hash [of k l] by (simp add: hashKey_def uses_def)

text \<open>The comparison of the code decides \<open>equals\<close>, given hashes that belong to the keys.\<close>

lemma equalKeys_iff:
  "uses hash equals hm \<Longrightarrow> equalKeys k (hashKey hm k) l (hashKey hm l) equals \<longleftrightarrow> equals k l"
  using hashKey_equals [of hm k l] by (auto simp: equalKeys_def)

end

section \<open>Chains\<close>

text \<open>The entries of some buckets are where the hash function puts them.\<close>

definition placed_in :: "('k, 'v) Hashmap \<Rightarrow> u64 \<Rightarrow> ('k, 'v) Entry list list \<Rightarrow> bool" where
  "placed_in hm n bs \<longleftrightarrow> (\<forall>i < length bs. \<forall>e \<in> set (bs ! i).
     entry_hash e = hashKey hm (entry_key e) \<and> unat (calculateIndex n (entry_hash e)) = i)"

lemma hashmap_ok_iff:
  "hashmap_ok hm \<longleftrightarrow> (\<exists>b < 61. unat (bucketCount hm) = 2 ^ b) \<and>
     length (buckets hm) = unat (bucketCount hm) \<and> placed_in hm (bucketCount hm) (buckets hm) \<and>
     uniq (map_equals hm) (hm_entries hm) \<and> map_size hm = of_nat (length (hm_entries hm))"
  by (simp add: hashmap_ok_def placed_in_def)

lemma placed_in_cong: "map_hash hm = map_hash hm' \<Longrightarrow> placed_in hm n bs = placed_in hm' n bs"
  using hashKey_cong [of hm hm'] by (simp add: placed_in_def)

lemma placed_in_update:
  "placed_in hm n bs \<Longrightarrow> (\<And>e. e \<in> set c \<Longrightarrow> entry_hash e = hashKey hm (entry_key e) \<and>
     unat (calculateIndex n (entry_hash e)) = i) \<Longrightarrow> placed_in hm n (bs[i := c])"
  unfolding placed_in_def by (metis length_list_update nth_list_update_eq nth_list_update_neq)

abbreviation bucket_of :: "('k, 'v) Hashmap \<Rightarrow> 'k \<Rightarrow> u64" where
  "bucket_of hm key \<equiv> calculateIndex (bucketCount hm) (hashKey hm key)"

text \<open>Replacing a chain, seen on the entries of the whole table.\<close>

lemma set_chain_entries:
  assumes "hashmap_ok hm" "mset (chain_of hm (bucket_of hm key)) + A = mset c + B"
  shows "mset (hm_entries (set_chain hm (bucket_of hm key) c)) + B = mset (hm_entries hm) + A"
proof -
  let ?i = "unat (bucket_of hm key)"
  have "mset (concat ((buckets hm)[?i := c])) + mset (buckets hm ! ?i) = mset (concat (buckets hm)) + mset c"
    using hashmap_okD(4) [OF assms(1)] by (intro mset_concat_update) simp
  then have "mset (concat ((buckets hm)[?i := c])) + B + (mset (buckets hm ! ?i) + A) =
      mset (concat (buckets hm)) + A + (mset c + B)" by (simp add: ac_simps)
  with assms(2) show ?thesis
    by (simp add: set_chain_def hm_entries_def chain_of_def)
qed

lemma set_chain_ok:
  assumes ok: "hashmap_ok hm"
    and c: "\<And>e. e \<in> set c \<Longrightarrow> entry_hash e = hashKey hm (entry_key e) \<and>
      bucket_of hm (entry_key e) = bucket_of hm key"
    and u: "uniq (map_equals hm) (hm_entries (set_chain hm (bucket_of hm key) c))"
    and sz: "sz = of_nat (length (hm_entries (set_chain hm (bucket_of hm key) c)))"
  shows "hashmap_ok ((set_chain hm (bucket_of hm key) c)\<lparr>map_size := sz\<rparr>)"
proof -
  have "placed_in hm (bucketCount hm) ((buckets hm)[unat (bucket_of hm key) := c])"
    by (rule placed_in_update) (use ok c in \<open>auto simp: hashmap_ok_iff\<close>)
  then have "placed_in ((set_chain hm (bucket_of hm key) c)\<lparr>map_size := sz\<rparr>) (bucketCount hm)
      ((buckets hm)[unat (bucket_of hm key) := c])"
    by (subst placed_in_cong [of _ hm]) (simp_all add: set_chain_def)
  with ok u sz show ?thesis
    unfolding hashmap_ok_iff by (simp add: set_chain_def hm_entries_def)
qed

lemma hm_entries_size [simp]: "hm_entries (hm\<lparr>map_size := n\<rparr>) = hm_entries hm"
  by (simp add: hm_entries_def)

lemma chain_in_entries:
  "hashmap_ok hm \<Longrightarrow> e \<in> set (chain_of hm (bucket_of hm key)) \<Longrightarrow> e \<in> set (hm_entries hm)"
  using nth_mem [OF hashmap_okD(4)] by (auto simp: hm_entries_def chain_of_def)

lemma chain_entry:
  assumes "hashmap_ok hm" "e \<in> set (chain_of hm (bucket_of hm key))"
  shows "entry_hash e = hashKey hm (entry_key e) \<and> bucket_of hm (entry_key e) = bucket_of hm key"
  using hashmap_ok_entry [OF assms(1) hashmap_okD(4) [OF assms(1)], of e] assms(2)
  by (simp add: chain_of_def word_unat_eq_iff)

context hash_keys
begin

lemma walk_split:
  assumes u: "uses hash equals hm" and c: "\<forall>e \<in> set chain. entry_hash e = hashKey hm (entry_key e)"
    and w: "walk equals key (hashKey hm key) chain = (before, found)"
  shows "chain = before @ found \<and> (\<forall>e \<in> set before. \<not> equals (entry_key e) key) \<and>
    (found \<noteq> [] \<longrightarrow> equals (entry_key (hd found)) key)"
  using c w
proof (induction chain arbitrary: before)
  case (Cons e es)
  then show ?case
    using equalKeys_iff [OF u, of "entry_key e" key] by (auto split: if_splits prod.splits)
qed simp

text \<open>An entry whose key equals \<open>key\<close> is in the chain of \<open>key\<close>.\<close>

lemma match_in_chain:
  assumes "hashmap_ok hm" "uses hash equals hm" "e \<in> set (hm_entries hm)" "equals (entry_key e) key"
  shows "e \<in> set (chain_of hm (bucket_of hm key))"
proof -
  obtain i where i: "i < length (buckets hm)" "e \<in> set (buckets hm ! i)"
    using assms(3) unfolding hm_entries_def by (metis in_set_conv_nth set_concat UN_iff)
  with hashmap_ok_entry [OF assms(1) i] hashKey_equals [OF assms(2,4)] show ?thesis
    by (auto simp: chain_of_def)
qed

lemma walk_cases:
  assumes ok: "hashmap_ok hm" and u: "uses hash equals hm"
  obtains (absent) before where "chain_of hm (bucket_of hm key) = before"
      "walk (map_equals hm) key (hashKey hm key) (chain_of hm (bucket_of hm key)) = (before, [])"
      "\<And>e. e \<in> set (hm_entries hm) \<Longrightarrow> \<not> equals (entry_key e) key" "contents hm key = None"
  | (present) before e rest where "chain_of hm (bucket_of hm key) = before @ e # rest"
      "walk (map_equals hm) key (hashKey hm key) (chain_of hm (bucket_of hm key)) = (before, e # rest)"
      "equals (entry_key e) key" "contents hm key = Some (entry_value e)"
proof -
  let ?chain = "chain_of hm (bucket_of hm key)"
  obtain before found where w: "walk equals key (hashKey hm key) ?chain = (before, found)" by fastforce
  have eq: "map_equals hm = equals" using u by (simp add: uses_def)
  have "\<forall>e \<in> set ?chain. entry_hash e = hashKey hm (entry_key e)" using chain_entry [OF ok] by blast
  note ws = walk_split [OF u this w]
  have uq: "uniq equals (hm_entries hm)" using hashmap_okD(5) [OF ok] eq by simp
  show ?thesis
  proof (cases found)
    case Nil
    then have none: "\<not> equals (entry_key e) key" if "e \<in> set (hm_entries hm)" for e
      using match_in_chain [OF ok u that] ws by auto
    then have "contents hm key = None"
      by (auto simp: contents_def lookup_in_def eq find_None_iff)
    with none Nil ws w eq show ?thesis by (intro absent [of before]) auto
  next
    case (Cons e rest)
    have "e \<in> set (hm_entries hm)" using chain_in_entries [OF ok, of e key] ws Cons by simp
    then have "contents hm key = Some (entry_value e)"
      using ws Cons lookup_in_iff [OF uq] by (auto simp: contents_def eq)
    with Cons ws w eq show ?thesis by (intro present [of before e rest]) auto
  qed
qed

end

section \<open>Growing\<close>

text \<open>
  \<open>calloc\<close> gives no memory for more than \<open>2 ^ 61\<close> pointers of 8 bytes: they do not fit the
  address space.
\<close>

definition calloc_sane :: "(u64 \<Rightarrow> bool) \<Rightarrow> bool" where
  "calloc_sane calloc_ok \<longleftrightarrow> (\<forall>n. calloc_ok n \<longrightarrow> unat n < 2 ^ 61)"

lemma fold_fold_concat: "fold (fold f) xss = fold f (concat xss)"
  by (induction xss) simp_all

lemma move_entry_step:
  assumes "unat (calculateIndex n (entry_hash e)) < length bs"
  shows "mset (concat (move_entry n e bs)) = add_mset e (mset (concat bs))"
    and "length (move_entry n e bs) = length bs"
    and "placed_in hm n bs \<Longrightarrow> entry_hash e = hashKey hm (entry_key e) \<Longrightarrow> placed_in hm n (move_entry n e bs)"
proof -
  let ?i = "unat (calculateIndex n (entry_hash e))"
  show "mset (concat (move_entry n e bs)) = add_mset e (mset (concat bs))"
    using mset_concat_update [OF assms, of "e # bs ! ?i"] by (simp add: move_entry_def Let_def)
  show "length (move_entry n e bs) = length bs" by (simp add: move_entry_def Let_def)
  assume p: "placed_in hm n bs" and e: "entry_hash e = hashKey hm (entry_key e)"
  show "placed_in hm n (move_entry n e bs)"
    unfolding move_entry_def Let_def
  proof (rule placed_in_update [OF p])
    fix f assume "f \<in> set (e # bs ! ?i)"
    then consider "f = e" | "f \<in> set (bs ! ?i)" by auto
    then show "entry_hash f = hashKey hm (entry_key f) \<and> unat (calculateIndex n (entry_hash f)) = ?i"
      by cases (simp add: e, use p assms in \<open>unfold placed_in_def, blast\<close>)
  qed
qed

lemma move_entries:
  assumes "\<And>e. e \<in> set es \<Longrightarrow> entry_hash e = hashKey hm (entry_key e)" "length bs = unat n" "0 < unat n"
    "placed_in hm n bs"
  shows "mset (concat (fold (move_entry n) es bs)) = mset es + mset (concat bs) \<and>
    length (fold (move_entry n) es bs) = unat n \<and> placed_in hm n (fold (move_entry n) es bs)"
  using assms
proof (induction es arbitrary: bs)
  case (Cons e es)
  have i: "unat (calculateIndex n (entry_hash e)) < length bs"
    using calculateIndex_less [OF Cons.prems(3)] Cons.prems(2) by simp
  have "placed_in hm n (move_entry n e bs)"
    by (rule move_entry_step(3) [OF i Cons.prems(4)]) (use Cons.prems(1) in simp)
  with Cons.IH [of "move_entry n e bs"] Cons.prems move_entry_step(1,2) [OF i] show ?case by simp
qed simp

lemma entry_in_bucket:
  assumes "e \<in> set (hm_entries hm)"
  obtains i where "i < length (buckets hm)" "e \<in> set (buckets hm ! i)"
proof -
  obtain chain where "chain \<in> set (buckets hm)" "e \<in> set chain" using assms by (auto simp: hm_entries_def)
  then show ?thesis using that by (metis in_set_conv_nth)
qed

lemma entry_hashes: "hashmap_ok hm \<Longrightarrow> e \<in> set (hm_entries hm) \<Longrightarrow> entry_hash e = hashKey hm (entry_key e)"
  by (meson entry_in_bucket hashmap_ok_entry)

lemma push_bit_double: "2 * unat n < 2 ^ 64 \<Longrightarrow> unat (push_bit 1 n :: u64) = 2 * unat n"
  by (simp add: unat_word_ariths)

lemma pow2_less_iff: "(2::nat) ^ a < 2 ^ b \<longleftrightarrow> a < b"
  by simp

context hash_keys
begin

lemma expand_ok:
  assumes ok: "hashmap_ok hm" and u: "uses hash equals hm" and c: "calloc_sane calloc_ok"
  shows "hashmap_ok (expandIfNecessary calloc_ok hm) \<and> uses hash equals (expandIfNecessary calloc_ok hm) \<and>
    contents (expandIfNecessary calloc_ok hm) = contents hm \<and>
    map_size (expandIfNecessary calloc_ok hm) = map_size hm"
proof (cases "map_size hm > bucketCount hm * 3 div 4 \<and> calloc_ok (push_bit 1 (bucketCount hm))")
  case True
  obtain b where b: "b < 61" "unat (bucketCount hm) = 2 ^ b" using ok by (auto simp: hashmap_ok_def)
  let ?n = "push_bit 1 (bucketCount hm)"
  have n: "unat ?n = 2 ^ Suc b" using push_bit_double [of "bucketCount hm"] hashmap_okD(2) [OF ok] b by simp
  have "unat ?n < 2 ^ 61" using c True by (simp add: calloc_sane_def)
  then have "Suc b < 61" unfolding n pow2_less_iff .
  let ?bs = "fold (move_entry ?n) (hm_entries hm) (replicate (unat ?n) [])"
  have "mset (concat ?bs) = mset (hm_entries hm) + mset (concat (replicate (unat ?n) [])) \<and>
      length ?bs = unat ?n \<and> placed_in hm ?n ?bs"
    by (rule move_entries) (use entry_hashes [OF ok] n in \<open>auto simp: placed_in_def\<close>)
  moreover have "concat (replicate k []) = []" for k by (induction k) simp_all
  ultimately have bs: "mset (concat ?bs) = mset (hm_entries hm)" "length ?bs = unat ?n" "placed_in hm ?n ?bs"
    by simp_all
  define hm' where "hm' = hm\<lparr>buckets := ?bs, bucketCount := ?n\<rparr>"
  have run: "expandIfNecessary calloc_ok hm = hm'"
    using True by (simp add: expandIfNecessary_def Let_def fold_fold_concat hm'_def hm_entries_def)
  have e: "hm_entries hm' = concat ?bs" "map_equals hm = equals" "map_equals hm' = equals"
    using u by (simp_all add: hm'_def hm_entries_def uses_def)
  have uq: "uniq equals (hm_entries hm)" using hashmap_okD(5) [OF ok] e by simp
  have "placed_in hm' ?n ?bs" using bs(3) by (subst placed_in_cong [of _ hm]) (simp_all add: hm'_def)
  moreover have "uniq equals (hm_entries hm')" using uniq_perm [OF uq] bs(1) e by simp
  moreover have "length (hm_entries hm') = length (hm_entries hm)" using bs(1) e by (metis size_mset)
  ultimately have "hashmap_ok hm'"
    using \<open>Suc b < 61\<close> n hashmap_okD(6) [OF ok] bs(2) e
    unfolding hashmap_ok_iff by (auto simp: hm'_def simp del: power_Suc)
  moreover have "contents hm' = contents hm"
    unfolding contents_def e(2,3) by (subst lookup_in_perm [OF uq bs(1) [symmetric]]) (simp only: e(1))
  ultimately show ?thesis using u by (simp add: run) (simp add: hm'_def uses_def)
next
  case False
  with ok u show ?thesis by (auto simp: expandIfNecessary_def Let_def)
qed

end

section \<open>Creating\<close>

lemma grow_bucketCount_ends:
  assumes "unat minimum < 2 ^ 63" "b \<le> 63" "unat bcount = 2 ^ b"
  shows "\<exists>b' bcount'. grow_bucketCount minimum bcount = Some bcount' \<and> unat bcount' = 2 ^ b' \<and> minimum < bcount'"
  using assms(2,3)
proof (induction "63 - b" arbitrary: b bcount)
  case 0
  then have "unat bcount = 2 ^ 63" by simp
  then have "\<not> bcount \<le> minimum" using assms(1) by (simp add: word_le_nat_alt)
  then have "grow_bucketCount minimum bcount = Some bcount" by (subst grow_bucketCount.simps) simp
  with 0 \<open>\<not> bcount \<le> minimum\<close> show ?case by (intro exI [of _ 63] exI [of _ bcount]) (simp add: not_le)
next
  case (Suc d)
  show ?case
  proof (cases "bcount \<le> minimum")
    case True
    have "(2::nat) ^ Suc b < 2 ^ 64" using Suc.hyps(2) by (intro power_strict_increasing) simp_all
    then have "unat (push_bit 1 bcount) = 2 ^ Suc b"
      using Suc.prems(2) push_bit_double [of bcount] by simp
    with Suc.hyps(1) [of "Suc b" "push_bit 1 bcount"] Suc.hyps(2) True show ?thesis
      by (subst grow_bucketCount.simps) simp
  next
    case False
    with Suc.prems show ?thesis by (subst grow_bucketCount.simps) (auto simp: not_le)
  qed
qed

lemma minimum_bound: "unat (initialCapacity * 4 div 3 :: u64) < 2 ^ 63"
proof -
  have "unat (initialCapacity * 4) < 2 ^ 64" using unsigned_less [of "initialCapacity * 4"] by simp
  then have "unat (initialCapacity * 4) div 3 < 2 ^ 63" by simp
  then show ?thesis by (simp add: unat_div)
qed

lemma create_correct:
  assumes "calloc_sane calloc_ok"
  shows "\<exists>r. hashmapCreate malloc_ok calloc_ok initialCapacity hash equals = Some r \<and>
    (\<forall>hm. r = Some hm \<longrightarrow> hashmap_ok hm \<and> uses hash equals hm \<and> contents hm = (\<lambda>k. None) \<and> map_size hm = 0)"
proof -
  obtain b bcount where g: "grow_bucketCount (initialCapacity * 4 div 3) 1 = Some bcount" "unat bcount = 2 ^ b"
    using grow_bucketCount_ends [OF minimum_bound [of initialCapacity], of 0 1] by auto
  have nil: "concat (replicate k []) = []" for k by (induction k) simp_all
  have "b < 61" if "calloc_ok bcount"
    using assms that g(2) unfolding calloc_sane_def by (metis pow2_less_iff)
  with g show ?thesis
    by (auto simp: hashmapCreate_def Let_def hashmap_ok_iff hm_entries_def uniq_def placed_in_def contents_def
        lookup_in_def uses_def nil)
qed

section \<open>The operations on the contents\<close>

context hash_keys
begin

lemma contains_contents:
  "hashmap_ok hm \<Longrightarrow> uses hash equals hm \<Longrightarrow> hashmapContainsKey hm key \<longleftrightarrow> contents hm key \<noteq> None"
  by (erule (1) walk_cases [of hm key]) (simp_all add: hashmapContainsKey_def Let_def)

lemma get_contents:
  "hashmap_ok hm \<Longrightarrow> uses hash equals hm \<Longrightarrow>
   hashmapGet hm key = (case contents hm key of None \<Rightarrow> None | Some v \<Rightarrow> v)"
  by (erule (1) walk_cases [of hm key]) (simp_all add: hashmapGet_def Let_def)

text \<open>Replacing the chain of a key when the entries change from \<open>e # es\<close> to \<open>f # es\<close>, and so on.\<close>

lemma insert_entry:
  assumes ok: "hashmap_ok hm" and u: "uses hash equals hm"
    and none: "\<And>f. f \<in> set (hm_entries hm) \<Longrightarrow> \<not> equals (entry_key f) key"
    and e: "entry_key e = key" "entry_hash e = hashKey hm key"
  defines "hm' \<equiv> (set_chain hm (bucket_of hm key) (chain_of hm (bucket_of hm key) @ [e]))\<lparr>map_size := map_size hm + 1\<rparr>"
  shows "hashmap_ok hm' \<and> uses hash equals hm' \<and>
    contents hm' = (\<lambda>k. if equals key k then Some (entry_value e) else contents hm k)"
proof -
  let ?c = "chain_of hm (bucket_of hm key) @ [e]"
  have eq: "map_equals hm = equals" "map_equals hm' = equals" "hm_entries hm' = hm_entries (set_chain hm (bucket_of hm key) ?c)"
    using u by (simp_all add: uses_def hm'_def set_chain_def hm_entries_def)
  have m: "mset (hm_entries hm') = mset (e # hm_entries hm)"
    using set_chain_entries [OF ok, of key "{#e#}" ?c "{#}"] by (simp add: eq)
  have "uniq equals (hm_entries hm)" using hashmap_okD(5) [OF ok] by (simp add: eq)
  then have "uniq equals (e # hm_entries hm)"
    using none e(1) equals_sym by (auto simp: uniq_def)
  then have uq: "uniq equals (hm_entries hm')" by (rule uniq_perm) (simp add: m)
  have "length (hm_entries (set_chain hm (bucket_of hm key) ?c)) = Suc (length (hm_entries hm))"
    using arg_cong [OF m, of size] by (simp add: eq)
  then have "hashmap_ok hm'"
    unfolding hm'_def using chain_entry [OF ok] e uq hashmap_okD(6) [OF ok]
    by (intro set_chain_ok [OF ok]) (auto simp: eq)
  moreover have "contents hm' k = (if equals key k then Some (entry_value e) else contents hm k)" for k
    using fun_cong [OF lookup_in_perm [OF uq m], of k] e(1) by (simp add: contents_def eq lookup_in_Cons)
  moreover have "uses hash equals hm'" using u by (simp add: hm'_def uses_def set_chain_def)
  ultimately show ?thesis by auto
qed

lemma replace_entry:
  fixes v :: "'v option"
  assumes ok: "hashmap_ok hm" and u: "uses hash equals hm"
    and c: "chain_of hm (bucket_of hm key) = before @ e # rest" "equals (entry_key e) key"
  defines "hm' \<equiv> set_chain hm (bucket_of hm key) (before @ e\<lparr>entry_value := v\<rparr> # rest)"
  shows "hashmap_ok hm' \<and> uses hash equals hm' \<and>
    contents hm' = (\<lambda>k. if equals key k then Some v else contents hm k)"
proof -
  let ?e = "e\<lparr>entry_value := v\<rparr>"
  have eq: "map_equals hm = equals" "map_equals hm' = equals"
    using u by (simp_all add: uses_def hm'_def set_chain_def)
  obtain es where es: "mset (hm_entries hm) = mset (e # es)"
  proof -
    have "e \<in># mset (hm_entries hm)" using chain_in_entries [OF ok, of e key] c(1) by simp
    then show ?thesis using that by (metis mset_add mset.simps(2) ex_mset)
  qed
  have "mset (hm_entries hm') + {#e#} = mset (hm_entries hm) + {#?e#}"
    unfolding hm'_def by (rule set_chain_entries [OF ok]) (simp add: c(1))
  then have m: "mset (hm_entries hm') = mset (?e # es)" using es by simp
  have uq: "uniq equals (e # es)" using uniq_perm [OF _ es] hashmap_okD(5) [OF ok] by (simp add: eq)
  then have "uniq equals (?e # es)" by (simp add: uniq_def)
  then have uq': "uniq equals (hm_entries hm')" by (rule uniq_perm) (simp add: m)
  have len: "length (hm_entries hm') = length (hm_entries hm)" using arg_cong [OF m, of size] arg_cong [OF es, of size] by simp
  have "hashmap_ok (hm'\<lparr>map_size := map_size hm\<rparr>)"
    unfolding hm'_def
  proof (rule set_chain_ok [OF ok])
    show "entry_hash f = hashKey hm (entry_key f) \<and> bucket_of hm (entry_key f) = bucket_of hm key"
      if "f \<in> set (before @ ?e # rest)" for f
      using chain_entry [OF ok, of f key] chain_entry [OF ok, of e key] that c(1) by auto
  qed (use uq' len hashmap_okD(6) [OF ok] in \<open>simp_all add: eq hm'_def\<close>)
  moreover have "hm'\<lparr>map_size := map_size hm\<rparr> = hm'" by (simp add: hm'_def set_chain_def)
  moreover have "contents hm' k = (if equals key k then Some v else contents hm k)" for k
  proof -
    have "equals (entry_key e) k \<longleftrightarrow> equals key k" using c(2) equals_sym equals_trans by blast
    then show ?thesis
      using fun_cong [OF lookup_in_perm [OF uq' m], of k] fun_cong [OF lookup_in_perm [OF _ es], of k] hashmap_okD(5) [OF ok]
      by (simp add: contents_def eq lookup_in_Cons)
  qed
  moreover have "uses hash equals hm'" using u by (simp add: hm'_def uses_def set_chain_def)
  ultimately show ?thesis by auto
qed

end

context hash_keys
begin

lemma delete_entry:
  assumes ok: "hashmap_ok hm" and u: "uses hash equals hm"
    and c: "chain_of hm (bucket_of hm key) = before @ e # rest" "equals (entry_key e) key"
  defines "hm' \<equiv> (set_chain hm (bucket_of hm key) (before @ rest))\<lparr>map_size := map_size hm - 1\<rparr>"
  shows "hashmap_ok hm' \<and> uses hash equals hm' \<and>
    contents hm' = (\<lambda>k. if equals key k then None else contents hm k)"
proof -
  have eq: "map_equals hm = equals" "map_equals hm' = equals" "hm_entries hm' = hm_entries (set_chain hm (bucket_of hm key) (before @ rest))"
    using u by (simp_all add: uses_def hm'_def set_chain_def hm_entries_def)
  have "mset (hm_entries hm') + {#e#} = mset (hm_entries hm) + {#}"
    unfolding eq(3) by (rule set_chain_entries [OF ok]) (simp add: c(1))
  then have m: "mset (hm_entries hm) = mset (e # hm_entries hm')" by simp
  have old: "uniq equals (hm_entries hm)" using hashmap_okD(5) [OF ok] by (simp add: eq)
  then have uq: "uniq equals (e # hm_entries hm')" using uniq_perm m by blast
  then have uq': "uniq equals (hm_entries hm')" by (simp add: uniq_def)
  have len: "length (hm_entries hm) = Suc (length (hm_entries hm'))" using arg_cong [OF m, of size] by simp
  have "hashmap_ok hm'"
    unfolding hm'_def
  proof (rule set_chain_ok [OF ok])
    show "entry_hash f = hashKey hm (entry_key f) \<and> bucket_of hm (entry_key f) = bucket_of hm key"
      if "f \<in> set (before @ rest)" for f
      using chain_entry [OF ok, of f key] that c(1) by auto
  qed (use uq' len hashmap_okD(6) [OF ok] in \<open>simp_all add: eq\<close>)
  moreover have "contents hm' k = (if equals key k then None else contents hm k)" for k
    using lookup_in_without [OF uq c(2), of k] fun_cong [OF lookup_in_perm [OF old m], of k]
    by (simp add: contents_def eq)
  moreover have "uses hash equals hm'" using u by (simp add: hm'_def uses_def set_chain_def)
  ultimately show ?thesis by auto
qed

text \<open>The expansion that may fail is one to fewer than four buckets per entry.\<close>

lemma expansion_fails_bound:
  assumes ok: "hashmap_ok hm" and "expansion_fails calloc_ok hm"
  shows "\<exists>n. unat n \<le> 4 * unat (map_size hm) \<and> \<not> calloc_ok n"
proof -
  obtain b where b: "b < 61" "unat (bucketCount hm) = 2 ^ b" using ok by (auto simp: hashmap_ok_def)
  have c: "unat (bucketCount hm) \<le> 2 ^ 60"
    unfolding b(2) using b(1) by (intro power_increasing) simp_all
  have "unat (bucketCount hm * 3) = unat (bucketCount hm) * 3"
    using c by (simp add: unat_word_ariths)
  then have "unat (bucketCount hm) * 3 div 4 < unat (map_size hm)"
    using assms(2) by (simp add: expansion_fails_def word_less_nat_alt unat_div)
  moreover have "unat (push_bit 1 (bucketCount hm)) = 2 * unat (bucketCount hm)"
    by (rule push_bit_double) (use c in simp)
  ultimately have "unat (push_bit 1 (bucketCount hm)) \<le> 4 * unat (map_size hm)" by linarith
  then show ?thesis using assms(2) by (auto simp: expansion_fails_def)
qed

lemma put_correct:
  assumes ok: "hashmap_ok hm" and u: "uses hash equals hm" and c: "calloc_sane calloc_ok"
    and mem: "malloc_ok \<or> contents hm key \<noteq> None"
  shows "\<exists>errno hm'. hashmapPut malloc_ok calloc_ok hm key v = (hashmapGet hm key, errno, hm') \<and>
    (errno \<longrightarrow> contents hm key = None \<and> (\<exists>n. unat n \<le> 4 * unat (map_size hm + 1) \<and> \<not> calloc_ok n)) \<and>
    hashmap_ok hm' \<and> uses hash equals hm' \<and>
    contents hm' = (\<lambda>k. if equals key k then Some v else contents hm k) \<and>
    map_size hm' = map_size hm + (if contents hm key = None then 1 else 0)"
proof (cases rule: walk_cases [OF ok u, of key, case_names absent present])
  case (absent before)
  let ?e = "\<lparr>entry_key = key, entry_hash = hashKey hm key, entry_value = v\<rparr>"
  let ?hm = "(set_chain hm (bucket_of hm key) (chain_of hm (bucket_of hm key) @ [?e]))\<lparr>map_size := map_size hm + 1\<rparr>"
  have i: "hashmap_ok ?hm \<and> uses hash equals ?hm \<and>
      contents ?hm = (\<lambda>k. if equals key k then Some v else contents hm k)"
    using insert_entry [OF ok u absent(3), of ?e] by (simp cong: if_cong)
  have "hashmapPut malloc_ok calloc_ok hm key v =
      (None, expansion_fails calloc_ok ?hm, expandIfNecessary calloc_ok ?hm)"
    using absent mem by (simp add: hashmapPut_def Let_def createEntry_def)
  moreover have "hashmapGet hm key = None" using get_contents [OF ok u, of key] absent(4) by simp
  ultimately show ?thesis
    using expand_ok [of ?hm calloc_ok] expansion_fails_bound [of ?hm calloc_ok] i c absent(4)
    by (simp add: set_chain_def)
next
  case (present before e rest)
  have "hashmapPut malloc_ok calloc_ok hm key v =
      (entry_value e, False, set_chain hm (bucket_of hm key) (before @ e\<lparr>entry_value := v\<rparr> # rest))"
    using present(2) by (simp add: hashmapPut_def Let_def)
  moreover have "hashmapGet hm key = entry_value e" using get_contents [OF ok u, of key] present(4) by simp
  ultimately show ?thesis
    using replace_entry [OF ok u present(1,3), of v] present(4) by (auto simp: set_chain_def)
qed

text \<open>When exactly a put of a new key reports \<open>ENOMEM\<close> although it stores the entry.\<close>

lemma put_new_errno:
  assumes ok: "hashmap_ok hm" and u: "uses hash equals hm" and new: "contents hm key = None"
  shows "fst (snd (hashmapPut True calloc_ok hm key v)) \<longleftrightarrow>
    map_size hm + 1 > bucketCount hm * 3 div 4 \<and> \<not> calloc_ok (push_bit 1 (bucketCount hm))"
  by (cases rule: walk_cases [OF ok u, of key])
    (use new in \<open>simp_all add: hashmapPut_def Let_def createEntry_def expansion_fails_def set_chain_def\<close>)

lemma put_without_memory:
  assumes "hashmap_ok hm" "uses hash equals hm" "contents hm key = None"
  shows "hashmapPut False calloc_ok hm key v = (None, True, hm)"
  by (cases rule: walk_cases [OF assms(1,2), of key])
    (use assms(3) in \<open>simp_all add: hashmapPut_def Let_def createEntry_def\<close>)

lemma remove_correct:
  assumes ok: "hashmap_ok hm" and u: "uses hash equals hm"
  shows "\<exists>hm'. hashmapRemove hm key = (hashmapGet hm key, hm') \<and> hashmap_ok hm' \<and> uses hash equals hm' \<and>
    contents hm' = (\<lambda>k. if equals key k then None else contents hm k) \<and>
    map_size hm' = map_size hm - (if contents hm key = None then 0 else 1)"
proof (cases rule: walk_cases [OF ok u, of key, case_names absent present])
  case (absent before)
  have "contents hm k = None" if "equals key k" for k
  proof -
    have "\<not> equals (entry_key e) k" if "e \<in> set (hm_entries hm)" for e
      using absent(3) [OF that] \<open>equals key k\<close> equals_sym equals_trans by blast
    then show ?thesis using u by (auto simp: contents_def lookup_in_def find_None_iff uses_def)
  qed
  then have "contents hm = (\<lambda>k. if equals key k then None else contents hm k)" by auto
  moreover have "hashmapGet hm key = None" using get_contents [OF ok u, of key] absent(4) by simp
  moreover have "hashmapRemove hm key = (None, hm)" using absent(2) by (simp add: hashmapRemove_def Let_def)
  ultimately show ?thesis using ok u absent(4) by auto
next
  case (present before e rest)
  have "hashmapRemove hm key =
      (entry_value e, (set_chain hm (bucket_of hm key) (before @ rest))\<lparr>map_size := map_size hm - 1\<rparr>)"
    using present(2) by (simp add: hashmapRemove_def Let_def)
  moreover have "hashmapGet hm key = entry_value e" using get_contents [OF ok u, of key] present(4) by simp
  ultimately show ?thesis
    using delete_entry [OF ok u present(1,3)] present(4) by (simp add: set_chain_def)
qed

text \<open>\<open>hashmapMemoize\<close> is a lookup followed, for an absent key, by a put of the computed value.\<close>

lemma memoize_eq:
  assumes ok: "hashmap_ok hm" and u: "uses hash equals hm"
  shows "hashmapMemoize malloc_ok calloc_ok hm key initialValue context =
    (if contents hm key \<noteq> None then (hashmapGet hm key, False, hm)
     else if malloc_ok then
       (initialValue key context, snd (hashmapPut True calloc_ok hm key (initialValue key context)))
     else (None, True, hm))"
proof (cases rule: walk_cases [OF ok u, of key, case_names absent present])
  case (absent before)
  then show ?thesis by (simp add: hashmapMemoize_def hashmapPut_def Let_def createEntry_def)
next
  case (present before e rest)
  then show ?thesis using get_contents [OF ok u, of key] by (simp add: hashmapMemoize_def Let_def)
qed

end

section \<open>Iteration\<close>

text \<open>A callback that always goes on sees every entry exactly once, bucket by bucket.\<close>

lemma forEach_chain_all:
  assumes "\<And>k v c. fst (callback k v c)"
  shows "forEach_chain callback es c = (True, fold (\<lambda>e c. snd (callback (entry_key e) (entry_value e) c)) es c)"
proof (induction es arbitrary: c)
  case (Cons e es)
  with assms [of "entry_key e" "entry_value e" c] show ?case
    by (cases "callback (entry_key e) (entry_value e) c") simp
qed simp

lemma forEach_all:
  assumes "\<And>k v c. fst (callback k v c)"
  shows "hashmapForEach hm callback c =
    fold (\<lambda>e c. snd (callback (entry_key e) (entry_value e) c)) (hm_entries hm) c"
proof -
  have "forEach_buckets callback bs c = fold (\<lambda>e c. snd (callback (entry_key e) (entry_value e) c)) (concat bs) c" for bs
    by (induction bs arbitrary: c) (simp_all add: forEach_chain_all [OF assms])
  then show ?thesis by (simp add: hashmapForEach_def hm_entries_def)
qed

section \<open>The table as a map\<close>

text \<open>
  The interface that clients of the table use: values are found under every key that is the
  same as the one they were stored under, and under no other.
\<close>

locale map_store =
  fixes invar :: "'m \<Rightarrow> bool"
    and lookup :: "'m \<Rightarrow> 'k \<Rightarrow> 'w option"
    and put :: "'k \<Rightarrow> 'w \<Rightarrow> 'm \<Rightarrow> 'm"
    and remove :: "'k \<Rightarrow> 'm \<Rightarrow> 'm"
    and same :: "'k \<Rightarrow> 'k \<Rightarrow> bool"
  assumes lookup_put: "invar m \<Longrightarrow> lookup (put k v m) l = (if same k l then Some v else lookup m l)"
    and lookup_remove: "invar m \<Longrightarrow> lookup (remove k m) l = (if same k l then None else lookup m l)"
    and invar_put: "invar m \<Longrightarrow> invar (put k v m)"
    and invar_remove: "invar m \<Longrightarrow> invar (remove k m)"
begin

text \<open>Storing a list of bindings: the last binding of a key wins.\<close>

lemma invar_puts: "invar m \<Longrightarrow> invar (fold (\<lambda>(k, v). put k v) kvs m)"
  by (induction kvs arbitrary: m) (auto simp: invar_put)

lemma lookup_puts:
  "invar m \<Longrightarrow> lookup (fold (\<lambda>(k, v). put k v) kvs m) l =
     (case find (\<lambda>(k, v). same k l) (rev kvs) of None \<Rightarrow> lookup m l | Some (k, v) \<Rightarrow> Some v)"
proof (induction kvs rule: rev_induct)
  case (snoc kv kvs)
  then show ?case
    using invar_puts [OF snoc.prems, of kvs] by (cases kv) (simp add: lookup_put)
qed simp

lemma invar_removes: "invar m \<Longrightarrow> invar (fold remove ks m)"
  by (induction ks arbitrary: m) (auto simp: invar_remove)

lemma lookup_removes:
  "invar m \<Longrightarrow> lookup (fold remove ks m) l = (if \<exists>k \<in> set ks. same k l then None else lookup m l)"
  by (induction ks arbitrary: m) (auto simp: lookup_remove invar_remove)

end

text \<open>Memory for every table that fits the address space.\<close>

definition calloc_all :: "u64 \<Rightarrow> bool" where
  "calloc_all n \<longleftrightarrow> unat n < 2 ^ 61"

lemma calloc_all_sane: "calloc_sane calloc_all"
  by (simp add: calloc_sane_def calloc_all_def)

definition table_put :: "'k \<Rightarrow> 'v option \<Rightarrow> ('k, 'v) Hashmap \<Rightarrow> ('k, 'v) Hashmap" where
  "table_put key v hm = snd (snd (hashmapPut True calloc_all hm key v))"

definition table_remove :: "'k \<Rightarrow> ('k, 'v) Hashmap \<Rightarrow> ('k, 'v) Hashmap" where
  "table_remove key hm = snd (hashmapRemove hm key)"

definition table_ok :: "('k \<Rightarrow> u32) \<Rightarrow> ('k \<Rightarrow> 'k \<Rightarrow> bool) \<Rightarrow> ('k, 'v) Hashmap \<Rightarrow> bool" where
  "table_ok hash equals hm \<longleftrightarrow> hashmap_ok hm \<and> uses hash equals hm"

text \<open>The contract of the key functions gives the contract of the map.\<close>

sublocale hash_keys \<subseteq> table: map_store "table_ok hash equals" contents table_put table_remove equals
proof
  fix m :: "('k, 'v) Hashmap" and k l :: 'k and v :: "'v option"
  assume "table_ok hash equals m"
  then have ok: "hashmap_ok m" "uses hash equals m" by (simp_all add: table_ok_def)
  have p: "hashmap_ok (table_put k v m) \<and> uses hash equals (table_put k v m) \<and>
      contents (table_put k v m) = (\<lambda>l. if equals k l then Some v else contents m l)"
    using put_correct [OF ok calloc_all_sane, of True k v] by (auto simp: table_put_def)
  have r: "hashmap_ok (table_remove k m) \<and> uses hash equals (table_remove k m) \<and>
      contents (table_remove k m) = (\<lambda>l. if equals k l then None else contents m l)"
    using remove_correct [OF ok, of k] by (auto simp: table_remove_def)
  show "contents (table_put k v m) l = (if equals k l then Some v else contents m l)"
    "table_ok hash equals (table_put k v m)" using p by (simp_all add: table_ok_def)
  show "contents (table_remove k m) l = (if equals k l then None else contents m l)"
    "table_ok hash equals (table_remove k m)" using r by (simp_all add: table_ok_def)
qed

section \<open>Integer keys\<close>

interpretation int_keys: hash_keys hashmapIntHash hashmapIntEquals
  by unfold_locales (simp_all add: hashmapIntEquals_def hashmapIntHash_def)

end
