(* ===== verification/Hashmap_Props.thy ===== *)
theory Hashmap_Props
  imports Hashmap_Correct
begin

text \<open>
  What the hash table guarantees its users, for every pair of key functions that keeps the
  contract of the header.
\<close>

text \<open>An empty table with integer keys, for the examples.\<close>

definition int_table :: "(u32, nat) Hashmap" where
  "int_table = \<lparr>buckets = replicate 8 [], bucketCount = 8, map_hash = hashmapIntHash,
     map_equals = hashmapIntEquals, map_size = 0\<rparr>"

lemma int_table_ok: "table_ok hashmapIntHash hashmapIntEquals int_table"
proof -
  have "\<exists>b < 61. unat (8 :: u64) = 2 ^ b" by (intro exI [of _ 3]) simp
  moreover have "concat (replicate n []) = []" for n by (induction n) simp_all
  ultimately show ?thesis
    by (simp add: table_ok_def hashmap_ok_iff uses_def int_table_def hm_entries_def uniq_def placed_in_def)
qed

lemma int_table_empty: "contents int_table = (\<lambda>k. None)"
proof -
  have "concat (replicate n []) = []" for n by (induction n) simp_all
  then show ?thesis by (auto simp: contents_def lookup_in_def hm_entries_def int_table_def)
qed

text \<open>
  \<open>hashmapCreate\<close> terminates for every requested capacity: the doubling of the bucket count
  ends before it overflows.  The table it returns, if memory suffices, is empty and well formed.
\<close>

theorem hashmapCreate_returns:
  assumes "calloc_sane calloc_ok"
  shows "\<exists>r. hashmapCreate malloc_ok calloc_ok initialCapacity hash equals = Some r \<and>
    (\<forall>hm. r = Some hm \<longrightarrow> table_ok hash equals hm \<and> contents hm = (\<lambda>k. None) \<and> hashmapSize hm = 0)"
  using create_correct [OF assms, of malloc_ok initialCapacity hash equals]
  by (auto simp: table_ok_def hashmapSize_def)

theorem hashmapCreate_returns_witness:
  "\<exists>r. hashmapCreate True calloc_all 5 hashmapIntHash hashmapIntEquals = Some r \<and>
    (\<forall>hm. r = Some hm \<longrightarrow> table_ok hashmapIntHash hashmapIntEquals hm \<and> contents hm = (\<lambda>k. None :: nat option option) \<and>
       hashmapSize hm = 0)"
  by (rule hashmapCreate_returns [OF calloc_all_sane])

text \<open>
  C22.  \<open>hashmapPut\<close> binds the key: the table stays well formed, every key that equals it maps to
  the new value, every other key keeps its value, the old value is returned and the size grows
  by one for a new key, whatever the hashes are and whether or not the table expands.  \<open>errno\<close>
  becomes \<open>ENOMEM\<close> only for a new key whose insertion could not allocate larger buckets.
\<close>

theorem hashmapPut_correct:
  assumes "hash_keys hash equals" "table_ok hash equals hm" "calloc_sane calloc_ok"
    and "malloc_ok \<or> contents hm key \<noteq> None"
  shows "\<exists>errno hm'. hashmapPut malloc_ok calloc_ok hm key v = (hashmapGet hm key, errno, hm') \<and>
    (errno \<longrightarrow> contents hm key = None \<and> (\<exists>n. unat n \<le> 4 * unat (hashmapSize hm + 1) \<and> \<not> calloc_ok n)) \<and>
    table_ok hash equals hm' \<and>
    contents hm' = (\<lambda>k. if equals key k then Some v else contents hm k) \<and>
    hashmapSize hm' = hashmapSize hm + (if contents hm key = None then 1 else 0)"
proof -
  have "hashmap_ok hm" "uses hash equals hm" using assms(2) by (simp_all add: table_ok_def)
  from hash_keys.put_correct [OF assms(1) this assms(3,4)] show ?thesis
    unfolding table_ok_def hashmapSize_def by blast
qed

theorem hashmapPut_correct_witness:
  "\<exists>errno hm'. hashmapPut True calloc_all int_table 3 (Some 7) = (hashmapGet int_table 3, errno, hm') \<and>
    (errno \<longrightarrow> contents int_table 3 = None \<and> (\<exists>n. unat n \<le> 4 * unat (hashmapSize int_table + 1) \<and> \<not> calloc_all n)) \<and>
    table_ok hashmapIntHash hashmapIntEquals hm' \<and>
    contents hm' = (\<lambda>k. if hashmapIntEquals 3 k then Some (Some 7) else contents int_table k) \<and>
    hashmapSize hm' = hashmapSize int_table + (if contents int_table 3 = None then 1 else 0)"
  by (rule hashmapPut_correct [OF int_keys.hash_keys_axioms int_table_ok calloc_all_sane]) simp

text \<open>
  \<open>hashmapRemove\<close> unbinds the key and every key equal to it, returns the value it had and
  keeps all other bindings.
\<close>

theorem hashmapRemove_correct:
  assumes "hash_keys hash equals" "table_ok hash equals hm"
  shows "\<exists>hm'. hashmapRemove hm key = (hashmapGet hm key, hm') \<and> table_ok hash equals hm' \<and>
    contents hm' = (\<lambda>k. if equals key k then None else contents hm k) \<and>
    hashmapSize hm' = hashmapSize hm - (if contents hm key = None then 0 else 1)"
proof -
  have "hashmap_ok hm" "uses hash equals hm" using assms(2) by (simp_all add: table_ok_def)
  from hash_keys.remove_correct [OF assms(1) this] show ?thesis
    unfolding table_ok_def hashmapSize_def by blast
qed

theorem hashmapRemove_correct_witness:
  "\<exists>hm'. hashmapRemove int_table 3 = (hashmapGet int_table 3, hm') \<and> table_ok hashmapIntHash hashmapIntEquals hm' \<and>
    contents hm' = (\<lambda>k. if hashmapIntEquals 3 k then None else contents int_table k) \<and>
    hashmapSize hm' = hashmapSize int_table - (if contents int_table 3 = None then 0 else 1)"
  by (rule hashmapRemove_correct [OF int_keys.hash_keys_axioms int_table_ok])

text \<open>
  Reading: \<open>hashmapContainsKey\<close> and \<open>hashmapGet\<close> report exactly what is bound, and
  \<open>hashmapMemoize\<close> is a read of a bound key and otherwise a put of the computed value; without
  memory for an entry it and \<open>hashmapPut\<close> leave the table unchanged and report \<open>ENOMEM\<close>.
\<close>

theorem hashmap_reads_correct:
  assumes "hash_keys hash equals" "table_ok hash equals hm"
  shows "(hashmapContainsKey hm key \<longleftrightarrow> contents hm key \<noteq> None) \<and>
    hashmapGet hm key = (case contents hm key of None \<Rightarrow> None | Some v \<Rightarrow> v) \<and>
    hashmapMemoize malloc_ok calloc_ok hm key initialValue context =
      (if hashmapContainsKey hm key then (hashmapGet hm key, False, hm)
       else if malloc_ok then
         (initialValue key context, snd (hashmapPut True calloc_ok hm key (initialValue key context)))
       else (None, True, hm)) \<and>
    (\<not> hashmapContainsKey hm key \<longrightarrow> hashmapPut False calloc_ok hm key v = (None, True, hm))"
proof -
  have ok: "hashmap_ok hm" "uses hash equals hm" using assms(2) by (simp_all add: table_ok_def)
  note keys = hash_keys.contains_contents [OF assms(1) ok] hash_keys.get_contents [OF assms(1) ok]
  show ?thesis
    unfolding hash_keys.memoize_eq [OF assms(1) ok]
    using hash_keys.put_without_memory [OF assms(1) ok, of key calloc_ok v] by (simp add: keys)
qed

theorem hashmap_reads_correct_witness:
  "\<not> hashmapContainsKey int_table 3 \<and> hashmapPut False calloc_all int_table 3 (Some 7) = (None, True, int_table)"
  using hashmap_reads_correct [OF int_keys.hash_keys_axioms int_table_ok, of 3 True calloc_all "\<lambda>k c. None" "()" "Some 7"]
  by (simp add: int_table_empty)

end
