(* ===== verification/C_Strings.thy ===== *)
theory C_Strings
  imports C_Prelude
begin

text \<open>
  Character strings of the C code: a string is the list of its characters before the
  terminating \<open>NUL\<close>, and the region that holds it is that list followed by \<open>NUL\<close>.  The theory has
  the library calls the sources use (\<open>strchr\<close>, \<open>strtok_r\<close>, \<open>strtol\<close>, printing with \<open>%d\<close>) and the
  \<open>strlcpy\<close> of \<open>cutils/strlcpy.c\<close>.
\<close>

abbreviation NUL :: char where
  "NUL \<equiv> CHR 0x00"

text \<open>A string has no \<open>NUL\<close> of its own.\<close>

definition c_string :: "string \<Rightarrow> bool" where
  "c_string s \<longleftrightarrow> NUL \<notin> set s"

text \<open>The position of the first \<open>c\<close>.\<close>

definition strchr :: "string \<Rightarrow> char \<Rightarrow> nat option" where
  "strchr s c = (if c \<in> set s then Some (length (takeWhile (\<lambda>x. x \<noteq> c) s)) else None)"

text \<open>
  \<open>strtok_r\<close> with one delimiter on the rest of a string: the next token and the rest behind the
  delimiter that ends it.
\<close>

definition strtok_r :: "char \<Rightarrow> string \<Rightarrow> (string \<times> string) option" where
  "strtok_r delim s =
     (let t = dropWhile (\<lambda>c. c = delim) s in
      if t = [] then None
      else Some (takeWhile (\<lambda>c. c \<noteq> delim) t, drop 1 (dropWhile (\<lambda>c. c \<noteq> delim) t)))"

lemma strtok_r_shorter:
  assumes "strtok_r delim s = Some (token, rest)"
  shows "length rest < length s"
proof -
  let ?t = "dropWhile (\<lambda>c. c = delim) s"
  have t: "?t \<noteq> []" "rest = drop 1 (dropWhile (\<lambda>c. c \<noteq> delim) ?t)"
    using assms by (auto simp: strtok_r_def Let_def split: if_splits)
  have "length (dropWhile (\<lambda>c. c \<noteq> delim) ?t) \<le> length ?t" "length ?t \<le> length s"
    by (rule length_dropWhile_le)+
  moreover have "0 < length ?t" using t(1) by simp
  ultimately show ?thesis unfolding t(2) length_drop by linarith
qed

text \<open>Conversions between \<open>int\<close> and \<open>size_t\<close>.\<close>

lemma unat_scast_pos:
  assumes "0 < sint (len :: u32)"
  shows "unat (scast len :: u64) = nat (sint len)" "(scast len :: u64) \<noteq> 0"
proof -
  have "sint len < 2 ^ 64" using sint_lt [of len] by simp
  then show u: "unat (scast len :: u64) = nat (sint len)"
    unfolding scast_eq [where w = len] unsigned_of_int using assms by (simp add: take_bit_int_eq_self)
  show "(scast len :: u64) \<noteq> 0"
  proof
    assume "(scast len :: u64) = 0"
    then have "nat (sint len) = 0" using u by simp
    then show False using assms by simp
  qed
qed

lemma int_of_length_word:
  assumes "n < 2 ^ 31"
  shows "sint (ucast (of_nat n :: u64) :: u32) = int n"
proof -
  have "(ucast (of_nat n :: u64) :: u32) = of_nat n"
    using assms by (simp add: word_unat_eq_iff unsigned_ucast_eq unsigned_of_nat take_bit_nat_eq_self)
  then show ?thesis using assms by (simp add: signed_of_nat signed_take_bit_int_eq_self)
qed

section \<open>Numbers as text\<close>

text \<open>The digits of a number, printed by \<open>%d\<close> and \<open>%u\<close>.\<close>

definition digit_char :: "nat \<Rightarrow> char" where
  "digit_char d = char_of (48 + d)"

fun decimal :: "nat \<Rightarrow> string" where
  "decimal n = (if n < 10 then [digit_char n] else decimal (n div 10) @ [digit_char (n mod 10)])"

declare decimal.simps [simp del]

definition print_d :: "int \<Rightarrow> string" where
  "print_d i = (if i < 0 then CHR ''-'' # decimal (nat (- i)) else decimal (nat i))"

text \<open>The value of a digit in bases up to 36.\<close>

definition digit_value :: "char \<Rightarrow> nat option" where
  "digit_value c =
     (let n = of_char c in
      if 48 \<le> n \<and> n \<le> 57 then Some (n - 48)
      else if 97 \<le> n \<and> n \<le> 122 then Some (n - 87)
      else if 65 \<le> n \<and> n \<le> 90 then Some (n - 55)
      else None)"

definition is_digit :: "nat \<Rightarrow> char \<Rightarrow> bool" where
  "is_digit base c = (case digit_value c of None \<Rightarrow> False | Some d \<Rightarrow> d < base)"

definition digits_value :: "nat \<Rightarrow> string \<Rightarrow> nat" where
  "digits_value base ds = fold (\<lambda>c n. n * base + the (digit_value c)) ds 0"

definition isspace :: "char \<Rightarrow> bool" where
  "isspace c \<longleftrightarrow> of_char c \<in> {9, 10, 11, 12, 13, 32 :: nat}"

text \<open>
  \<open>strtol (s, &end, base)\<close> for a base of 0, 8, 10 or 16: blanks, a sign, the prefix that chooses the
  base, digits; the value saturates at the limits of \<open>long\<close>.  The second result is the string at
  \<open>end\<close>, all of \<open>s\<close> when there is no number.
\<close>

definition strtol :: "nat \<Rightarrow> string \<Rightarrow> int \<times> string" where
  "strtol base s =
     (let t = dropWhile isspace s;
          neg = (t \<noteq> [] \<and> hd t = CHR ''-'');
          t = (if t \<noteq> [] \<and> (hd t = CHR ''-'' \<or> hd t = CHR ''+'') then tl t else t);
          hex = (base \<in> {0, 16} \<and> length t \<ge> 3 \<and> hd t = CHR ''0'' \<and>
                 (t ! 1 = CHR ''x'' \<or> t ! 1 = CHR ''X'') \<and> is_digit 16 (t ! 2));
          base = (if hex then 16 else if base \<noteq> 0 then base
                  else if t \<noteq> [] \<and> hd t = CHR ''0'' then 8 else 10);
          t = (if hex then drop 2 t else t);
          ds = takeWhile (is_digit base) t;
          v = int (digits_value base ds)
      in if ds = [] then (0, s)
         else (if neg then max (- (2 ^ 63)) (- v) else min (2 ^ 63 - 1) v, drop (length ds) t))"

lemma digit_value_char: "d < 10 \<Longrightarrow> digit_value (digit_char d) = Some d"
  by (simp add: digit_value_def digit_char_def Let_def)

lemma is_digit_char [simp]: "d < 10 \<Longrightarrow> is_digit 10 (digit_char d)"
  by (simp add: is_digit_def digit_value_char)

lemma decimal_not_Nil [simp]: "decimal n \<noteq> []"
  by (subst decimal.simps) simp

lemma decimal_digits: "c \<in> set (decimal n) \<Longrightarrow> is_digit 10 c"
  by (induction n rule: decimal.induct) (subst (asm) (2) decimal.simps, auto split: if_splits)

lemma decimal_value [simp]: "digits_value 10 (decimal n) = n"
proof (induction n rule: decimal.induct)
  case (1 n)
  then show ?case
    by (subst decimal.simps) (auto simp: digits_value_def digit_value_char)
qed

lemma decimal_hd_zero: "hd (decimal n) = CHR ''0'' \<Longrightarrow> n = 0"
proof (induction n rule: decimal.induct)
  case (1 n)
  show ?case
  proof (cases "n < 10")
    case True
    then have "digit_value (hd (decimal n)) = Some n" by (subst decimal.simps) (simp add: digit_value_char)
    then show ?thesis unfolding 1 by (simp add: digit_value_def)
  next
    case False
    then have "decimal n = decimal (n div 10) @ [digit_char (n mod 10)]" by (subst decimal.simps) simp
    then have "n div 10 = 0" using 1 False by simp
    then show ?thesis using False by simp
  qed
qed

lemma length_decimal: "n < 10 ^ k \<Longrightarrow> 0 < k \<Longrightarrow> length (decimal n) \<le> k"
proof (induction k arbitrary: n)
  case (Suc k)
  show ?case
  proof (cases "n < 10")
    case True then show ?thesis by (subst decimal.simps) simp
  next
    case False
    then have "k > 0" using Suc.prems by (cases k) auto
    moreover have "n div 10 < 10 ^ k" using Suc.prems by auto
    ultimately show ?thesis using Suc.IH [of "n div 10"] False by (subst decimal.simps) simp
  qed
qed simp

lemma length_print_d:
  assumes "- (2 ^ 31) \<le> i" "i < 2 ^ 31"
  shows "length (print_d i) \<le> 11"
proof -
  have "nat (- i) < 10 ^ 10" "nat i < 10 ^ 10" using assms by simp_all
  then have "length (decimal (nat (- i))) \<le> 10" "length (decimal (nat i)) \<le> 10"
    by (simp_all only: length_decimal zero_less_numeral)
  then show ?thesis by (simp add: print_d_def)
qed

lemma is_digit_not_special:
  "is_digit 10 c \<Longrightarrow> \<not> isspace c \<and> c \<noteq> CHR ''-'' \<and> c \<noteq> CHR ''+'' \<and> c \<noteq> NUL \<and> c \<noteq> CHR ''x'' \<and> c \<noteq> CHR ''X'' \<and> c \<noteq> CHR '';''"
  by (auto simp: is_digit_def digit_value_def isspace_def Let_def split: if_splits)

text \<open>Reading what \<open>%d\<close> printed gives the number, in automatic base.\<close>

lemma strtol_decimal:
  assumes "sg = [] \<or> sg = ''-''"
  shows "strtol 0 (sg @ decimal n) =
    (if sg = [] then min (2 ^ 63 - 1) (int n) else max (- (2 ^ 63)) (- int n), [])"
proof -
  let ?d = "decimal n"
  obtain c cs where d: "?d = c # cs" by (cases ?d) auto
  have c: "is_digit 10 c" using decimal_digits [of c n] d by simp
  have all: "takeWhile (is_digit 10) ?d = ?d"
    using decimal_digits by (simp add: takeWhile_eq_all_conv)
  have z: "?d = ''0''" if "c = CHR ''0''"
    using decimal_hd_zero [of n] that d by (simp add: decimal.simps digit_char_def)
  have "\<not> isspace (CHR ''-'')" by (simp add: isspace_def)
  then show ?thesis
  proof (cases "c = CHR ''0''")
    case True
    then have "?d = ''0''" "n = 0" using z decimal_hd_zero [of n] d by auto
    moreover have "strtol 0 ''0'' = (0, [])" "strtol 0 ''-0'' = (0, [])" by code_simp+
    ultimately show ?thesis using assms by auto
  next
    case False
    have v: "takeWhile (is_digit 10) cs = cs" "digits_value 10 (c # cs) = n"
      using all decimal_value [of n] c unfolding d by simp_all
    note sp = is_digit_not_special [OF c]
    show ?thesis
      using assms unfolding d
    proof
      assume "sg = []"
      then show "strtol 0 (sg @ c # cs) =
          (if sg = [] then min (2 ^ 63 - 1) (int n) else max (- (2 ^ 63)) (- int n), [])"
        by (simp only: strtol_def Let_def append_Nil) (simp add: False sp c v)
    next
      assume "sg = ''-''"
      then show "strtol 0 (sg @ c # cs) =
          (if sg = [] then min (2 ^ 63 - 1) (int n) else max (- (2 ^ 63)) (- int n), [])"
        by (simp only: strtol_def Let_def append_Cons append_Nil)
          (simp add: False sp c v \<open>\<not> isspace (CHR ''-'')\<close>)
    qed
  qed
qed

lemma strtol_print_d:
  assumes "- (2 ^ 63) \<le> i" "i < 2 ^ 63"
  shows "strtol 0 (print_d i) = (i, [])"
proof (cases "i < 0")
  case True
  then show ?thesis using strtol_decimal [of "''-''" "nat (- i)"] assms by (simp add: print_d_def)
next
  case False
  then show ?thesis using strtol_decimal [of "[]" "nat i"] assms by (simp add: print_d_def)
qed

section \<open>strlcpy\<close>

text \<open>
  \<open>cutils/strlcpy.c\<close> on the destination region \<open>dst\<close> and the region \<open>src\<close> that starts at the source
  string.  The copying loop returns its variables \<open>n\<close>, \<open>s\<close> and \<open>d\<close> with the destination; a pointer into
  the source is the region from there on, a pointer into the destination an index.
\<close>

fun strlcpy_copy :: "u64 \<Rightarrow> char list \<Rightarrow> nat \<Rightarrow> char list \<Rightarrow> (u64 \<times> char list \<times> nat \<times> char list) exec" where
  "strlcpy_copy n [] d dst = (if n - 1 \<noteq> 0 then Fault else Ret (n - 1, [], d, dst))"
| "strlcpy_copy n (c # s) d dst =
     (if n - 1 \<noteq> 0 then
        if d < length dst then
          if c = NUL then Ret (n - 1, s, Suc d, dst[d := c])
          else strlcpy_copy (n - 1) s (Suc d) (dst[d := c])
        else Fault
      else Ret (n - 1, c # s, d, dst))"

fun skip_string :: "char list \<Rightarrow> char list exec" where
  "skip_string [] = Fault"
| "skip_string (c # s) = (if c \<noteq> NUL then skip_string s else Ret s)"

definition strlcpy :: "char list \<Rightarrow> char list \<Rightarrow> u64 \<Rightarrow> (u64 \<times> char list) exec" where
  "strlcpy dst src siz =
     bindE (if siz \<noteq> 0 then strlcpy_copy siz src 0 dst else Ret (siz, src, 0, dst)) (\<lambda>(n, s, d, dst).
     bindE (if n = 0 then
              bindE (if siz \<noteq> 0 then (if d < length dst then Ret (dst[d := NUL]) else Fault) else Ret dst) (\<lambda>dst.
              bindE (skip_string s) (\<lambda>s. Ret (s, dst)))
            else Ret (s, dst)) (\<lambda>(s, dst).
     Ret (of_nat (length src - length s) - 1, dst)))"

lemma skip_string_ends: "c_string s \<Longrightarrow> skip_string (s @ NUL # j) = Ret j"
  by (induction s) (auto simp: c_string_def)

lemma unat_minus_one_word: "n \<noteq> 0 \<Longrightarrow> unat (n - 1 :: u64) = unat n - 1"
  by (simp add: unat_minus_one)

lemma overwrite_step:
  "d < length dst \<Longrightarrow> take (Suc d) (dst[d := c]) @ xs @ drop k (drop (Suc d) (dst[d := c])) =
     take d dst @ (c # xs) @ drop (Suc k) (drop d dst)"
  by (simp add: take_Suc_conv_app_nth upd_conv_take_nth_drop)

text \<open>The loop stops with \<open>n\<close> zero, or behind the terminator it has copied.\<close>

lemma strlcpy_copy_result:
  assumes "c_string s" "n \<noteq> 0" "d + min (Suc (length s)) (unat n) \<le> length dst"
  shows "strlcpy_copy n (s @ NUL # j) d dst =
    (if unat n \<le> Suc (length s)
     then Ret (0, drop (unat n - 1) s @ NUL # j, d + (unat n - 1),
       take d dst @ take (unat n - 1) s @ drop (unat n - 1) (drop d dst))
     else Ret (n - of_nat (Suc (length s)), j, d + Suc (length s),
       take d dst @ (s @ [NUL]) @ drop (Suc (length s)) (drop d dst)))"
  using assms
proof (induction s arbitrary: n d dst)
  case Nil
  have "unat n = 1 \<longleftrightarrow> n - 1 = 0" by (auto simp: word_unat_eq_iff [of n 1])
  moreover have "0 < unat n" using Nil(2) by (simp add: unat_gt_0)
  ultimately show ?case
    using Nil overwrite_step [of d dst NUL "[]" 0]
    by (auto simp: upd_conv_take_nth_drop not_le dest!: order.antisym)
next
  case (Cons c s)
  have c: "c \<noteq> NUL" "c_string s" using Cons.prems(1) by (auto simp: c_string_def)
  show ?case
  proof (cases "n - 1 = 0")
    case True
    then show ?thesis by simp
  next
    case False
    have u: "unat (n - 1) = unat n - 1" "0 < unat n"
      using Cons.prems(2) by (simp_all add: unat_minus_one unat_gt_0)
    have "0 < unat (n - 1)" using False by (simp only: unat_gt_0) simp
    then have u: "unat (n - 1) = unat n - 1" "0 < unat n" "0 < unat (n - 1)" using u by simp_all
    have d: "d < length dst" using Cons.prems(3) u(2) by (simp add: min_def split: if_splits)
    have "strlcpy_copy n ((c # s) @ NUL # j) d dst = strlcpy_copy (n - 1) (s @ NUL # j) (Suc d) (dst[d := c])"
      using False d c by simp
    also have "\<dots> = (if unat (n - 1) \<le> Suc (length s)
       then Ret (0, drop (unat (n - 1) - 1) s @ NUL # j, Suc d + (unat (n - 1) - 1),
         take (Suc d) (dst[d := c]) @ take (unat (n - 1) - 1) s @ drop (unat (n - 1) - 1) (drop (Suc d) (dst[d := c])))
       else Ret (n - 1 - of_nat (Suc (length s)), j, Suc d + Suc (length s),
         take (Suc d) (dst[d := c]) @ (s @ [NUL]) @ drop (Suc (length s)) (drop (Suc d) (dst[d := c]))))"
      by (rule Cons.IH) (use c False Cons.prems(3) u in auto)
    also have "\<dots> = (if unat n \<le> Suc (length (c # s))
       then Ret (0, drop (unat n - 1) (c # s) @ NUL # j, d + (unat n - 1),
         take d dst @ take (unat n - 1) (c # s) @ drop (unat n - 1) (drop d dst))
       else Ret (n - of_nat (Suc (length (c # s))), j, d + Suc (length (c # s)),
         take d dst @ ((c # s) @ [NUL]) @ drop (Suc (length (c # s))) (drop d dst)))"
    proof -
      obtain k where k: "unat n = Suc (Suc k)" using u by (cases "unat n"; cases "unat n - 1") auto
      show ?thesis unfolding overwrite_step [OF d] by (simp add: u k algebra_simps)
    qed
    finally show ?thesis .
  qed
qed

lemma strlcpy_result:
  assumes "c_string s" "min (Suc (length s)) (unat siz) \<le> length dst"
  shows "strlcpy dst (s @ NUL # j) siz = Ret (of_nat (length s),
    if siz = 0 then dst
    else take (unat siz - 1) s @ [NUL] @ drop (Suc (min (length s) (unat siz - 1))) dst)"
proof (cases "siz = 0")
  case True
  then show ?thesis by (simp add: strlcpy_def skip_string_ends assms)
next
  case False
  then have pos: "0 < unat siz" by (simp add: unat_gt_0)
  note run = strlcpy_copy_result [OF assms(1) False, of 0 dst j]
  show ?thesis
  proof (cases "unat siz \<le> Suc (length s)")
    case True
    let ?k = "unat siz - 1"
    have k: "?k < length dst" "min (length s) ?k = ?k" "length (take ?k s) = ?k"
      using True pos assms(2) by auto
    have "(take ?k s @ drop ?k dst)[?k := NUL] = take ?k s @ [NUL] @ drop (Suc ?k) dst"
      using k by (simp add: list_update_append1 list_update_append Cons_nth_drop_Suc [symmetric])
    moreover have "c_string (drop ?k s)" using assms(1) by (auto simp: c_string_def dest: in_set_dropD)
    ultimately show ?thesis
      using run True assms(2) False k by (simp add: strlcpy_def skip_string_ends)
  next
    case long: False
    have "siz - of_nat (Suc (length s)) \<noteq> 0"
    proof
      assume "siz - of_nat (Suc (length s)) = 0"
      then have "siz = of_nat (Suc (length s))" by simp
      moreover have "unat siz < 2 ^ 64" using unsigned_less [of siz] by simp
      then have "Suc (length s) < 2 ^ 64" using long by linarith
      ultimately have "unat siz = Suc (length s)" by (simp add: unat_of_nat del: of_nat_Suc)
      then show False using long by simp
    qed
    then show ?thesis
      using run long assms(2) False by (simp add: strlcpy_def)
  qed
qed

end
