(* ===== verification/Str_Parms.thy ===== *)
theory Str_Parms
  imports C_Strings Hashmap_Correct
begin

text \<open>
  The parameter strings of \<open>cutils/str_parms.c\<close>: \<open>key=value\<close> pairs separated by semicolons, kept in
  a hash table whose keys and values are strings.  A duplicated string is modelled by its
  contents; which allocations succeed is the record \<open>memory\<close>.  The copies of the two halves
  of a token, which \<open>str_parms_create_str\<close> does not check, always succeed in the model.
\<close>

section \<open>The operations\<close>

record str_parms =
  parms_map :: "(string, string) Hashmap"

record memory =
  struct_ok :: bool
  map_ok :: bool
  buckets_ok :: "u64 \<Rightarrow> bool"
  strdup_ok :: bool
  value_dup_ok :: bool
  entry_ok :: "nat \<Rightarrow> bool"

definition ENOENT :: int where "ENOENT = 2"
definition ENOMEM :: int where "ENOMEM = 12"
definition EINVAL :: int where "EINVAL = 22"

definition str_eq :: "string \<Rightarrow> string \<Rightarrow> bool" where
  "str_eq key_a key_b \<longleftrightarrow> key_a = key_b"

text \<open>The \<open>djb\<close> hash; a \<open>char\<close> is signed.\<close>

definition str_hash_fn :: "string \<Rightarrow> u32" where
  "str_hash_fn str = fold (\<lambda>p hash. (push_bit 5 hash + hash) + scast (of_char p :: u8)) str 5381"

text \<open>As for \<open>hashmapCreate\<close>, the outer \<open>None\<close> would be a loop that does not end.\<close>

definition str_parms_create :: "memory \<Rightarrow> str_parms option option" where
  "str_parms_create mem =
     (if \<not> struct_ok mem then Some None
      else case hashmapCreate (map_ok mem) (buckets_ok mem) 5 str_hash_fn str_eq of
             None \<Rightarrow> None
           | Some None \<Rightarrow> Some None
           | Some (Some hm) \<Rightarrow> Some (Some \<lparr>parms_map = hm\<rparr>))"

text \<open>
  The callback of \<open>str_parms_del\<close>: the context is the key to remove (\<open>None\<close> for \<open>NULL\<close>, which removes
  everything) and the table.  It takes out the entry it is called for, whose successor
  \<open>hashmapForEach\<close> has read before, so the iteration over the chains goes on as if they had not
  changed.
\<close>

definition remove_pair ::
    "string option \<Rightarrow> string \<Rightarrow> string option \<Rightarrow> str_parms \<Rightarrow> bool \<times> str_parms" where
  "remove_pair ctxt_key key v p =
     (case ctxt_key of
        None \<Rightarrow> (True, p\<lparr>parms_map := snd (hashmapRemove (parms_map p) key)\<rparr>)
      | Some k \<Rightarrow>
          if k = key then (False, p\<lparr>parms_map := snd (hashmapRemove (parms_map p) key)\<rparr>)
          else (True, p))"

definition str_parms_del :: "str_parms \<Rightarrow> string option \<Rightarrow> str_parms" where
  "str_parms_del p key = hashmapForEach (parms_map p) (remove_pair key) p"

text \<open>The parameters that \<open>str_parms_destroy\<close> leaves to be released with the empty table.\<close>

definition str_parms_destroy :: "str_parms \<Rightarrow> str_parms" where
  "str_parms_destroy p = hashmapForEach (parms_map p) (remove_pair None) p"

text \<open>One token: skipped when it starts with \<open>=\<close>, otherwise a key and a value.\<close>

definition split_pair :: "string \<Rightarrow> (string \<times> string) option" where
  "split_pair kvpair =
     (case strchr kvpair (CHR ''='') of
        Some eq \<Rightarrow>
          if eq = 0 then None
          else Some (take eq kvpair, let v = drop (Suc eq) kvpair in if v \<noteq> [] then v else '''')
      | None \<Rightarrow> Some (kvpair, ''''))"

function parse_pairs :: "memory \<Rightarrow> string \<Rightarrow> nat \<Rightarrow> (string, string) Hashmap \<Rightarrow> (string, string) Hashmap" where
  "parse_pairs mem rest items hm =
     (case strtok_r (CHR '';'') rest of
        None \<Rightarrow> hm
      | Some (kvpair, rest) \<Rightarrow>
          if kvpair = [] then hm
          else
            case split_pair kvpair of
              None \<Rightarrow> parse_pairs mem rest items hm
            | Some (key, v) \<Rightarrow>
                parse_pairs mem rest (Suc items)
                  (snd (snd (hashmapPut (entry_ok mem items) (buckets_ok mem) hm key (Some v)))))"
  by pat_completeness auto
termination
  by (relation "measure (\<lambda>(mem, rest, items, hm). length rest)") (auto dest: strtok_r_shorter)

declare parse_pairs.simps [simp del]

definition str_parms_create_str :: "memory \<Rightarrow> string \<Rightarrow> str_parms option option" where
  "str_parms_create_str mem str =
     (case str_parms_create mem of
        None \<Rightarrow> None
      | Some None \<Rightarrow> Some None
      | Some (Some p) \<Rightarrow>
          Some (if strdup_ok mem then Some (p\<lparr>parms_map := parse_pairs mem str 0 (parms_map p)\<rparr>) else None))"

text \<open>
  The result of \<open>str_parms_add_str\<close>, whether it has freed the key and the value that the table
  holds, and the parameters afterwards.  \<open>errno\<close> is \<open>ENOMEM\<close> after a failed \<open>strdup\<close> or after
  \<open>hashmapPut\<close> has set it; the code takes the latter to mean that nothing was stored.
\<close>

definition str_parms_add_str :: "memory \<Rightarrow> str_parms \<Rightarrow> string \<Rightarrow> string \<Rightarrow> int \<times> bool \<times> str_parms" where
  "str_parms_add_str mem p key v =
     (if \<not> strdup_ok mem then (- ENOMEM, False, p)
      else if \<not> value_dup_ok mem then (- ENOMEM, False, p)
      else
        case hashmapPut (entry_ok mem 0) (buckets_ok mem) (parms_map p) key (Some v) of
          (old_val, errno, hm) \<Rightarrow>
            (case old_val of
               None \<Rightarrow>
                 if errno then (- ENOMEM, hashmapContainsKey hm key, p\<lparr>parms_map := hm\<rparr>)
                 else (0, False, p\<lparr>parms_map := hm\<rparr>)
             | Some old \<Rightarrow> (if errno then - ENOMEM else 0, False, p\<lparr>parms_map := hm\<rparr>)))"

text \<open>\<open>snprintf\<close> into a buffer of \<open>n\<close> bytes keeps \<open>n - 1\<close> characters.\<close>

definition str_parms_add_int :: "memory \<Rightarrow> str_parms \<Rightarrow> string \<Rightarrow> u32 \<Rightarrow> int \<times> bool \<times> str_parms" where
  "str_parms_add_int mem p key v =
     (let val_str = take (12 - 1) (print_d (sint v)) in str_parms_add_str mem p key val_str)"

text \<open>\<open>format\<close> is the text that \<open>%.10f\<close> prints for the number.\<close>

definition str_parms_add_float ::
    "('f \<Rightarrow> string) \<Rightarrow> memory \<Rightarrow> str_parms \<Rightarrow> string \<Rightarrow> 'f \<Rightarrow> int \<times> bool \<times> str_parms" where
  "str_parms_add_float format mem p key v =
     (let val_str = take (23 - 1) (format v) in str_parms_add_str mem p key val_str)"

definition str_parms_has_key :: "str_parms \<Rightarrow> string \<Rightarrow> bool" where
  "str_parms_has_key p key \<longleftrightarrow> hashmapGet (parms_map p) key \<noteq> None"

text \<open>The \<open>int\<close> length is converted to \<open>size_t\<close> and the count back to \<open>int\<close>.\<close>

definition str_parms_get_str :: "str_parms \<Rightarrow> string \<Rightarrow> char list \<Rightarrow> u32 \<Rightarrow> (int \<times> char list) exec" where
  "str_parms_get_str p key val len =
     (case hashmapGet (parms_map p) key of
        None \<Rightarrow> Ret (- ENOENT, val)
      | Some v \<Rightarrow>
          bindE (strlcpy val (v @ [NUL]) (scast len)) (\<lambda>(n, val). Ret (sint (ucast n :: u32), val)))"

definition str_parms_get_int :: "str_parms \<Rightarrow> string \<Rightarrow> u32 \<Rightarrow> int \<times> u32" where
  "str_parms_get_int p key val =
     (case hashmapGet (parms_map p) key of
        None \<Rightarrow> (- ENOENT, val)
      | Some v \<Rightarrow>
          let (n, ends) = strtol 0 v;
              val = word_of_int n
          in if v \<noteq> [] \<and> ends = [] then (0, val) else (- EINVAL, val))"

text \<open>\<open>strtof\<close> gives the number and the string at \<open>end\<close>.\<close>

definition str_parms_get_float ::
    "(string \<Rightarrow> 'f \<times> string) \<Rightarrow> str_parms \<Rightarrow> string \<Rightarrow> 'f \<Rightarrow> int \<times> 'f" where
  "str_parms_get_float strtof p key val =
     (case hashmapGet (parms_map p) key of
        None \<Rightarrow> (- ENOENT, val)
      | Some v \<Rightarrow>
          let (out, ends) = strtof v
          in if v = [] \<or> ends \<noteq> [] then (- EINVAL, val) else (0, out))"

text \<open>
  \<open>asprintf_ok\<close> says whether \<open>asprintf\<close> can allocate a string; a \<open>NULL\<close> value prints as \<open>(null)\<close>.
\<close>

definition combine_strings ::
    "(string \<Rightarrow> bool) \<Rightarrow> string \<Rightarrow> string option \<Rightarrow> string option \<Rightarrow> bool \<times> string option" where
  "combine_strings asprintf_ok key v old_str =
     (let new_str = (case old_str of None \<Rightarrow> '''' | Some s \<Rightarrow> s) @
            (case old_str of None \<Rightarrow> '''' | Some s \<Rightarrow> '';'') @
            key @ ''='' @ (case v of None \<Rightarrow> ''(null)'' | Some v \<Rightarrow> v)
      in if asprintf_ok new_str then (True, Some new_str) else (False, None))"

definition str_parms_to_str :: "(string \<Rightarrow> bool) \<Rightarrow> bool \<Rightarrow> str_parms \<Rightarrow> string option" where
  "str_parms_to_str asprintf_ok dup_ok p =
     (if hashmapSize (parms_map p) > 0 then
        hashmapForEach (parms_map p) (combine_strings asprintf_ok) None
      else if dup_ok then Some '''' else None)"

end
