(* ===== verification/Str_Parms_Correct.thy ===== *)
theory Str_Parms_Correct
  imports Str_Parms
begin

text \<open>
  Parameter strings denote partial functions from keys to values.  Parsing yields the function
  of the pairs in the string, the later ones winning; printing and parsing again changes
  nothing; additions, lookups and removals act on the function.
\<close>

interpretation str_keys: hash_keys str_hash_fn str_eq
  by unfold_locales (simp_all add: str_eq_def)

section \<open>The function that a table of parameters denotes\<close>

definition parms_ok :: "str_parms \<Rightarrow> bool" where
  "parms_ok p \<longleftrightarrow> table_ok str_hash_fn str_eq (parms_map p) \<and> (\<forall>k. contents (parms_map p) k \<noteq> Some None)"

definition params :: "str_parms \<Rightarrow> string \<Rightarrow> string option" where
  "params p k = (case contents (parms_map p) k of None \<Rightarrow> None | Some v \<Rightarrow> v)"

lemma parms_okD:
  assumes "parms_ok p"
  shows "hashmap_ok (parms_map p)" "uses str_hash_fn str_eq (parms_map p)"
  using assms by (simp_all add: parms_ok_def table_ok_def)

lemma get_params: "parms_ok p \<Longrightarrow> hashmapGet (parms_map p) k = params p k"
  using str_keys.get_contents [OF parms_okD] by (simp add: params_def)

lemma params_None: "parms_ok p \<Longrightarrow> params p k = None \<longleftrightarrow> contents (parms_map p) k = None"
  unfolding params_def parms_ok_def by (cases "contents (parms_map p) k") (auto, metis not_None_eq)

text \<open>The entries of the table as pairs.\<close>

definition pairs :: "str_parms \<Rightarrow> (string \<times> string) list" where
  "pairs p = map (\<lambda>e. (entry_key e, the (entry_value e))) (hm_entries (parms_map p))"

lemma pairs_params:
  assumes ok: "parms_ok p"
  shows "map_of (pairs p) = params p" "distinct (map fst (pairs p))"
    and "e \<in> set (hm_entries (parms_map p)) \<Longrightarrow> entry_value e \<noteq> None"
proof -
  let ?es = "hm_entries (parms_map p)"
  let ?kv = "\<lambda>e. (entry_key e, entry_value e)"
  have eq: "map_equals (parms_map p) = str_eq"
    using parms_okD(2) [OF ok] by (simp add: uses_def)
  have u: "uniq str_eq ?es" using hashmap_okD(5) [OF parms_okD(1) [OF ok]] by (simp add: eq)
  have "uniq str_eq es \<Longrightarrow> distinct (map entry_key es)" for es :: "(string, string) Entry list"
    by (induction es) (auto simp: uniq_def str_eq_def)
  then have d: "distinct (map entry_key ?es)" using u .
  then show "distinct (map fst (pairs p))" by (simp add: pairs_def comp_def)
  have "lookup_in str_eq es k = map_of (map ?kv es) k" for es :: "(string, string) Entry list" and k
    by (induction es) (simp_all add: lookup_in_def str_eq_def)
  then have c: "contents (parms_map p) k = map_of (map ?kv ?es) k" for k by (simp add: contents_def eq)
  show v: "entry_value e \<noteq> None" if "e \<in> set ?es" for e
  proof -
    have "map_of (map ?kv ?es) (entry_key e) = Some (entry_value e)"
      using d that by (intro map_of_is_SomeI) (auto simp: comp_def)
    then show ?thesis using ok c [of "entry_key e"] unfolding parms_ok_def by metis
  qed
  have "(\<forall>e \<in> set es. entry_value e \<noteq> None) \<Longrightarrow>
      map_of (map (\<lambda>e. (entry_key e, the (entry_value e))) es) k =
      (case map_of (map ?kv es) k of None \<Rightarrow> None | Some v \<Rightarrow> v)" for es :: "(string, string) Entry list" and k
    by (induction es) auto
  then show "map_of (pairs p) = params p" using v by (auto simp: pairs_def params_def c)
qed

section \<open>Adding, looking up and removing\<close>

lemma params_of_contents:
  assumes "table_ok str_hash_fn str_eq hm" "contents hm = (\<lambda>k. if str_eq key k then x else contents (parms_map p) k)"
    and "parms_ok p" "x \<noteq> Some None"
  shows "parms_ok (p\<lparr>parms_map := hm\<rparr>) \<and>
    params (p\<lparr>parms_map := hm\<rparr>) = (params p)(key := case x of None \<Rightarrow> None | Some v \<Rightarrow> v)"
  using assms by (auto simp: parms_ok_def params_def str_eq_def fun_eq_iff split: option.splits)

lemma put_params:
  assumes ok: "parms_ok p" and c: "calloc_sane calloc_ok" and m: "malloc_ok \<or> params p key \<noteq> None"
  shows "\<exists>errno hm. hashmapPut malloc_ok calloc_ok (parms_map p) key (Some v) = (params p key, errno, hm) \<and>
    (errno \<longrightarrow> params p key = None \<and>
       (\<exists>n. unat n \<le> 4 * unat (hashmapSize (parms_map p) + 1) \<and> \<not> calloc_ok n)) \<and>
    parms_ok (p\<lparr>parms_map := hm\<rparr>) \<and> params (p\<lparr>parms_map := hm\<rparr>) = (params p)(key \<mapsto> v)"
proof -
  have "malloc_ok \<or> contents (parms_map p) key \<noteq> None" using m params_None [OF ok] by auto
  from str_keys.put_correct [OF parms_okD [OF ok] c this, of "Some v"]
  obtain errno hm where h: "hashmapPut malloc_ok calloc_ok (parms_map p) key (Some v) = (params p key, errno, hm)"
    "errno \<longrightarrow> params p key = None \<and> (\<exists>n. unat n \<le> 4 * unat (hashmapSize (parms_map p) + 1) \<and> \<not> calloc_ok n)"
    "table_ok str_hash_fn str_eq hm"
    "contents hm = (\<lambda>k. if str_eq key k then Some (Some v) else contents (parms_map p) k)"
    unfolding get_params [OF ok] params_None [OF ok, symmetric] table_ok_def hashmapSize_def by blast
  from params_of_contents [OF h(3,4) ok] h(1,2) show ?thesis by auto
qed

lemma remove_params:
  assumes ok: "parms_ok p"
  shows "parms_ok (p\<lparr>parms_map := snd (hashmapRemove (parms_map p) key)\<rparr>) \<and>
    params (p\<lparr>parms_map := snd (hashmapRemove (parms_map p) key)\<rparr>) = (params p)(key := None)"
proof -
  from str_keys.remove_correct [OF parms_okD [OF ok], of key]
  obtain hm where h: "snd (hashmapRemove (parms_map p) key) = hm" "table_ok str_hash_fn str_eq hm"
    "contents hm = (\<lambda>k. if str_eq key k then None else contents (parms_map p) k)"
    unfolding table_ok_def by auto
  from params_of_contents [OF h(2,3) ok] h(1) show ?thesis by simp
qed

text \<open>Removing while iterating: every entry is visited with the table the removals have left.\<close>

lemma remove_all_chain:
  assumes "parms_ok p"
  shows "parms_ok (fold (\<lambda>e c. snd (remove_pair None (entry_key e) (entry_value e) c)) es p) \<and>
    params (fold (\<lambda>e c. snd (remove_pair None (entry_key e) (entry_value e) c)) es p) =
      params p |` (- set (map entry_key es))"
  using assms
proof (induction es arbitrary: p)
  case Nil
  then show ?case by (simp add: restrict_map_def)
next
  case (Cons e es)
  let ?p = "p\<lparr>parms_map := snd (hashmapRemove (parms_map p) (entry_key e))\<rparr>"
  have "parms_ok ?p" "params ?p = (params p)(entry_key e := None)" using remove_params [OF Cons.prems] by auto
  then show ?case
    using Cons.IH [of ?p] by (auto simp: remove_pair_def restrict_map_def fun_eq_iff)
qed

lemma pair_keys: "parms_ok p \<Longrightarrow> set (map entry_key (hm_entries (parms_map p))) = dom (params p)"
  using pairs_params(1) [of p] by (simp add: dom_map_of_conv_image_fst [symmetric] flip: pairs_params(1))
    (simp add: dom_map_of_conv_image_fst pairs_def image_image)

lemma del_all:
  assumes "parms_ok p"
  shows "parms_ok (str_parms_del p None) \<and> params (str_parms_del p None) = Map.empty"
proof -
  have "str_parms_del p None =
      fold (\<lambda>e c. snd (remove_pair None (entry_key e) (entry_value e) c)) (hm_entries (parms_map p)) p"
    unfolding str_parms_del_def by (rule forEach_all) (simp add: remove_pair_def)
  then show ?thesis
    using remove_all_chain [OF assms, of "hm_entries (parms_map p)"] pair_keys [OF assms]
    by (auto simp: restrict_map_def fun_eq_iff dom_def)
qed

text \<open>Removing one key stops the iteration; without the key it runs to the end.\<close>

lemma forEach_del_chain:
  "forEach_chain (remove_pair (Some key)) es p =
     (if key \<in> set (map entry_key es)
      then (False, p\<lparr>parms_map := snd (hashmapRemove (parms_map p) key)\<rparr>) else (True, p))"
  by (induction es) (auto simp: remove_pair_def)

lemma del_key:
  assumes "parms_ok p"
  shows "parms_ok (str_parms_del p (Some key)) \<and> params (str_parms_del p (Some key)) = (params p)(key := None)"
proof -
  have "forEach_buckets (remove_pair (Some key)) bs p =
      (if key \<in> set (map entry_key (concat bs))
       then p\<lparr>parms_map := snd (hashmapRemove (parms_map p) key)\<rparr> else p)" for bs
    by (induction bs) (auto simp: forEach_del_chain)
  then have "str_parms_del p (Some key) =
      (if key \<in> dom (params p) then p\<lparr>parms_map := snd (hashmapRemove (parms_map p) key)\<rparr> else p)"
    by (simp add: str_parms_del_def hashmapForEach_def hm_entries_def flip: pair_keys [OF assms])
  then show ?thesis using remove_params [OF assms, of key] assms by (auto simp: fun_eq_iff dom_def)
qed

section \<open>Fields of a string\<close>

fun string_fields :: "char \<Rightarrow> string \<Rightarrow> string list" where
  "string_fields d [] = [[]]"
| "string_fields d (c # s) =
     (if c = d then [] # string_fields d s else (case string_fields d s of [] \<Rightarrow> [[c]] | f # fs \<Rightarrow> (c # f) # fs))"

definition tokens :: "char \<Rightarrow> string \<Rightarrow> string list" where
  "tokens d s = filter (\<lambda>f. f \<noteq> []) (string_fields d s)"

lemma fields_not_Nil [simp]: "string_fields d s \<noteq> []"
  by (induction s) (auto split: list.splits)

lemma fields_one: "d \<notin> set f \<Longrightarrow> string_fields d f = [f]"
  by (induction f) auto

lemma fields_append: "d \<notin> set f \<Longrightarrow> string_fields d (f @ d # s) = f # string_fields d s"
  by (induction f) auto

lemma fields_delim_free: "f \<in> set (string_fields d s) \<Longrightarrow> d \<notin> set f"
  by (induction s arbitrary: f) (auto split: if_splits list.splits)

lemma tokens_drop: "tokens d (dropWhile (\<lambda>c. c = d) s) = tokens d s"
  by (induction s) (auto simp: tokens_def)

lemma tokens_append: "d \<notin> set f \<Longrightarrow> f \<noteq> [] \<Longrightarrow> tokens d (f @ d # s) = f # tokens d s"
  by (simp add: tokens_def fields_append)

lemma tokens_step:
  assumes "t \<noteq> []" "hd t \<noteq> d"
  shows "tokens d t = takeWhile (\<lambda>c. c \<noteq> d) t # tokens d (drop 1 (dropWhile (\<lambda>c. c \<noteq> d) t))"
    and "takeWhile (\<lambda>c. c \<noteq> d) t \<noteq> []"
proof -
  show "takeWhile (\<lambda>c. c \<noteq> d) t \<noteq> []" using assms by (cases t) auto
  show "tokens d t = takeWhile (\<lambda>c. c \<noteq> d) t # tokens d (drop 1 (dropWhile (\<lambda>c. c \<noteq> d) t))"
  proof (cases "d \<in> set t")
    case True
    then obtain f r where t: "t = f @ d # r" "d \<notin> set f" by (meson split_list_first)
    moreover have "f \<noteq> []" using assms t by auto
    moreover have "takeWhile (\<lambda>c. c \<noteq> d) t = f" "dropWhile (\<lambda>c. c \<noteq> d) t = d # r"
      using t by (auto simp: takeWhile_append dropWhile_append)
    ultimately show ?thesis by (simp add: tokens_append)
  next
    case False
    then have w: "takeWhile (\<lambda>c. c \<noteq> d) t = t" "dropWhile (\<lambda>c. c \<noteq> d) t = []"
      by (auto simp: takeWhile_eq_all_conv dropWhile_eq_Nil_conv)
    show ?thesis unfolding w using False assms(1) by (simp add: tokens_def fields_one)
  qed
qed

text \<open>\<open>strtok_r\<close> delivers the tokens one by one.\<close>

lemma strtok_r_tokens:
  "strtok_r d s = None \<longleftrightarrow> tokens d s = []"
  "strtok_r d s = Some (t, rest) \<Longrightarrow> tokens d s = t # tokens d rest \<and> t \<noteq> []"
proof -
  let ?t = "dropWhile (\<lambda>c. c = d) s"
  have "hd ?t \<noteq> d" if "?t \<noteq> []" using hd_dropWhile [OF that] .
  note step = tokens_step [OF _ this, unfolded tokens_drop]
  have none: "tokens d s = []" if "?t = []"
    using tokens_drop [of d s] that by (simp add: tokens_def)
  show "strtok_r d s = None \<longleftrightarrow> tokens d s = []"
    using step(1) none by (cases "?t = []") (auto simp: strtok_r_def Let_def)
  show "tokens d s = t # tokens d rest \<and> t \<noteq> []" if "strtok_r d s = Some (t, rest)"
    using that step by (auto simp: strtok_r_def Let_def split: if_splits)
qed

section \<open>Parsing\<close>

text \<open>The pairs that a string lists: a field without a key binds nothing.\<close>

definition pair_of :: "string \<Rightarrow> string \<times> string" where
  "pair_of f = (takeWhile (\<lambda>c. c \<noteq> CHR ''='') f, drop 1 (dropWhile (\<lambda>c. c \<noteq> CHR ''='') f))"

definition pairs_of :: "string \<Rightarrow> (string \<times> string) list" where
  "pairs_of s = filter (\<lambda>(k, v). k \<noteq> []) (map pair_of (string_fields (CHR '';'') s))"

lemma pairs_of_tokens: "pairs_of s = filter (\<lambda>(k, v). k \<noteq> []) (map pair_of (tokens (CHR '';'') s))"
proof -
  have "filter (\<lambda>(k, v). k \<noteq> []) (map pair_of fs) = filter (\<lambda>(k, v). k \<noteq> []) (map pair_of (filter (\<lambda>f. f \<noteq> []) fs))" for fs
    by (induction fs) (auto simp: pair_of_def)
  then show ?thesis by (simp add: pairs_of_def tokens_def)
qed

lemma split_pair_eq:
  assumes "f \<noteq> []"
  shows "split_pair f = (if fst (pair_of f) = [] then None else Some (pair_of f))"
proof (cases "CHR ''='' \<in> set f")
  case True
  have "take (length (takeWhile P f)) f = takeWhile P f" "drop (length (takeWhile P f)) f = dropWhile P f" for P
    by (metis append_eq_conv_conj takeWhile_dropWhile_id)+
  moreover have "drop (Suc n) f = drop 1 (drop n f)" for n by simp
  ultimately show ?thesis
    using True by (simp add: split_pair_def strchr_def pair_of_def Let_def del: drop_drop drop_Suc)
next
  case False
  then have w: "takeWhile (\<lambda>c. c \<noteq> CHR ''='') f = f" "dropWhile (\<lambda>c. c \<noteq> CHR ''='') f = []"
    by (auto simp: takeWhile_eq_all_conv dropWhile_eq_Nil_conv)
  show ?thesis unfolding split_pair_def strchr_def pair_of_def w using False assms by simp
qed

text \<open>Every pair of a string has a key without separators and a value without semicolon.\<close>

definition plain_pair :: "string \<times> string \<Rightarrow> bool" where
  "plain_pair kv \<longleftrightarrow> fst kv \<noteq> [] \<and> CHR ''='' \<notin> set (fst kv) \<and> CHR '';'' \<notin> set (fst kv) \<and> CHR '';'' \<notin> set (snd kv)"

lemma pairs_of_plain: "kv \<in> set (pairs_of s) \<Longrightarrow> plain_pair kv"
proof -
  assume "kv \<in> set (pairs_of s)"
  then obtain f where f: "f \<in> set (string_fields (CHR '';'') s)" "kv = pair_of f" "fst kv \<noteq> []"
    unfolding pairs_of_def by (auto split: prod.splits) (metis fst_conv)
  then show ?thesis
    using fields_delim_free [OF f(1)]
    by (auto simp: plain_pair_def pair_of_def dest: set_takeWhileD in_set_dropD set_dropWhileD)
qed

lemma parse_pairs_correct:
  assumes "parms_ok p" "calloc_sane (buckets_ok mem)" "\<And>i. entry_ok mem i"
  shows "parms_ok (p\<lparr>parms_map := parse_pairs mem s items (parms_map p)\<rparr>) \<and>
    params (p\<lparr>parms_map := parse_pairs mem s items (parms_map p)\<rparr>) = params p ++ map_of (rev (pairs_of s))"
  using assms
proof (induction mem s items "parms_map p" arbitrary: p rule: parse_pairs.induct)
  case (1 mem s items p)
  show ?case
  proof (cases "strtok_r (CHR '';'') s")
    case None
    then have "pairs_of s = []" "parse_pairs mem s items (parms_map p) = parms_map p"
      using strtok_r_tokens(1) [of "CHR '';''" s] by (simp_all add: pairs_of_tokens parse_pairs.simps)
    then show ?thesis using 1(3) by simp
  next
    case (Some tr)
    obtain t r where tr: "tr = (t, r)" by fastforce
    have t: "tokens (CHR '';'') s = t # tokens (CHR '';'') r" "t \<noteq> []"
      using strtok_r_tokens(2) Some tr by auto
    show ?thesis
    proof (cases "fst (pair_of t) = []")
      case True
      then have "parse_pairs mem s items (parms_map p) = parse_pairs mem r items (parms_map p)"
        by (subst parse_pairs.simps) (simp add: Some tr t(2) split_pair_eq)
      moreover have "pairs_of s = pairs_of r" using True by (auto simp: pairs_of_tokens t(1))
      ultimately show ?thesis
        using 1(1) [OF Some tr [symmetric] t(2) _ refl 1(3-5)] True t(2) by (simp add: split_pair_eq)
    next
      case False
      obtain k v where kv: "pair_of t = (k, v)" by fastforce
      let ?hm = "snd (snd (hashmapPut (entry_ok mem items) (buckets_ok mem) (parms_map p) k (Some v)))"
      have p: "parms_ok (p\<lparr>parms_map := ?hm\<rparr>)" "params (p\<lparr>parms_map := ?hm\<rparr>) = (params p)(k \<mapsto> v)"
        using put_params [OF 1(3,4), of "entry_ok mem items" k v] 1(5) by auto
      have "parse_pairs mem s items (parms_map p) = parse_pairs mem r (Suc items) ?hm"
        by (subst parse_pairs.simps) (use False kv in \<open>simp add: Some tr t(2) split_pair_eq\<close>)
      moreover have "pairs_of s = (k, v) # pairs_of r" using False kv by (auto simp: pairs_of_tokens t(1))
      moreover have "split_pair t = Some (k, v)" using False kv t(2) by (simp add: split_pair_eq)
      ultimately show ?thesis
        using 1(2) [OF Some tr [symmetric] t(2), of "(k, v)" k v "p\<lparr>parms_map := ?hm\<rparr>"] 1(4,5) p
        by (simp add: map_add_upd_left)
    qed
  qed
qed

section \<open>Creating\<close>

text \<open>Enough memory for a table of the initial size and for everything stored in it.\<close>

definition memory_ok :: "memory \<Rightarrow> bool" where
  "memory_ok mem \<longleftrightarrow> struct_ok mem \<and> map_ok mem \<and> strdup_ok mem \<and> value_dup_ok mem \<and>
     (\<forall>i. entry_ok mem i) \<and> calloc_sane (buckets_ok mem) \<and> buckets_ok mem 8"

lemma grow_to_8: "grow_bucketCount 6 1 = Some 8"
  by code_simp

lemma create_parms:
  assumes "memory_ok mem"
  shows "\<exists>p. str_parms_create mem = Some (Some p) \<and> parms_ok p \<and> params p = Map.empty"
proof -
  obtain hm :: "(string, string) Hashmap"
    where hm: "hashmapCreate (map_ok mem) (buckets_ok mem) 5 str_hash_fn str_eq = Some (Some hm)"
    using assms grow_to_8 by (simp add: hashmapCreate_def memory_ok_def Let_def)
  have "hashmap_ok hm \<and> uses str_hash_fn str_eq hm \<and> contents hm = (\<lambda>k. None)"
  proof -
    obtain r :: "(string, string) Hashmap option"
      where r: "hashmapCreate (map_ok mem) (buckets_ok mem) 5 str_hash_fn str_eq = Some r"
        "\<forall>hm. r = Some hm \<longrightarrow> hashmap_ok hm \<and> uses str_hash_fn str_eq hm \<and> contents hm = (\<lambda>k. None)"
      using create_correct [of "buckets_ok mem" "map_ok mem" 5 str_hash_fn str_eq] assms
      unfolding memory_ok_def by blast
    from r(1) hm have "r = Some hm" by simp
    with r(2) show ?thesis by blast
  qed
  then have "parms_ok \<lparr>parms_map = hm\<rparr> \<and> params \<lparr>parms_map = hm\<rparr> = Map.empty"
    by (simp add: parms_ok_def table_ok_def params_def fun_eq_iff)
  then show ?thesis using hm assms by (simp add: str_parms_create_def memory_ok_def)
qed

lemma create_str_parms:
  assumes "memory_ok mem"
  shows "\<exists>p. str_parms_create_str mem s = Some (Some p) \<and> parms_ok p \<and> params p = map_of (rev (pairs_of s))"
proof -
  obtain p where p: "str_parms_create mem = Some (Some p)" "parms_ok p" "params p = Map.empty"
    using create_parms [OF assms] by blast
  moreover have "strdup_ok mem" "calloc_sane (buckets_ok mem)" "\<And>i. entry_ok mem i"
    using assms by (simp_all add: memory_ok_def)
  ultimately show ?thesis
    using parse_pairs_correct [OF p(2), of mem s 0] by (simp add: str_parms_create_str_def)
qed

section \<open>Printing\<close>

definition print_pair :: "string \<times> string \<Rightarrow> string" where
  "print_pair kv = fst kv @ ''='' @ snd kv"

fun print_pairs :: "(string \<times> string) list \<Rightarrow> string" where
  "print_pairs [] = []"
| "print_pairs (kv # kvs) = print_pair kv @ concat (map (\<lambda>f. CHR '';'' # f) (map print_pair kvs))"

lemma combine_all:
  assumes "\<And>e. e \<in> set es \<Longrightarrow> entry_value e \<noteq> None"
  shows "fold (\<lambda>e c. snd (combine_strings (\<lambda>_. True) (entry_key e) (entry_value e) c)) es (Some s) =
    Some (s @ concat (map (\<lambda>f. CHR '';'' # f) (map (\<lambda>e. print_pair (entry_key e, the (entry_value e))) es)))"
  using assms
proof (induction es arbitrary: s)
  case (Cons e es)
  then obtain v where "entry_value e = Some v" by fastforce
  with Cons show ?case by (simp add: combine_strings_def print_pair_def)
qed simp

lemma to_str_pairs:
  assumes ok: "parms_ok p" and small: "length (pairs p) < 2 ^ 64"
  shows "str_parms_to_str (\<lambda>_. True) True p = Some (print_pairs (pairs p))"
proof -
  let ?es = "hm_entries (parms_map p)"
  let ?c = "\<lambda>e c. snd (combine_strings (\<lambda>_. True) (entry_key e) (entry_value e) c)"
  have val: "entry_value e \<noteq> None" if "e \<in> set ?es" for e using pairs_params(3) [OF ok that] .
  have "hashmapSize (parms_map p) = of_nat (length ?es)"
    using hashmap_okD(6) [OF parms_okD(1) [OF ok]] by (simp add: hashmapSize_def)
  moreover have "(of_nat (length ?es) :: u64) = 0 \<longleftrightarrow> length ?es = 0"
    using small by (auto simp: pairs_def word_of_nat_eq_0_iff dest: dvd_imp_le)
  ultimately have size: "hashmapSize (parms_map p) > 0 \<longleftrightarrow> ?es \<noteq> []"
    by (simp add: word_gt_0)
  have "hashmapForEach (parms_map p) (combine_strings (\<lambda>_. True)) None = fold ?c ?es None"
    by (rule forEach_all) (simp add: combine_strings_def Let_def)
  moreover have "fold ?c ?es None = Some (print_pairs (pairs p))" if "?es \<noteq> []"
  proof -
    obtain e es where e: "?es = e # es" using \<open>?es \<noteq> []\<close> by (cases ?es) auto
    then have "?c e None = Some (print_pair (entry_key e, the (entry_value e)))"
      using val [of e] by (auto simp: combine_strings_def print_pair_def)
    then show ?thesis using combine_all [of es] val e by (simp add: pairs_def comp_def)
  qed
  ultimately show ?thesis using size by (auto simp: str_parms_to_str_def pairs_def)
qed

lemma fields_join:
  "(\<And>g. g \<in> set (f # gs) \<Longrightarrow> d \<notin> set g) \<Longrightarrow> string_fields d (f @ concat (map (\<lambda>g. d # g) gs)) = f # gs"
  by (induction gs arbitrary: f) (simp_all add: fields_one fields_append)

lemma pair_of_print: "plain_pair kv \<Longrightarrow> pair_of (print_pair kv) = kv"
  by (cases kv) (auto simp: pair_of_def print_pair_def plain_pair_def takeWhile_append dropWhile_append)

text \<open>Reading the printed pairs gives the pairs.\<close>

lemma pairs_of_print:
  assumes "\<And>kv. kv \<in> set kvs \<Longrightarrow> plain_pair kv"
  shows "pairs_of (print_pairs kvs) = kvs"
proof (cases kvs)
  case Nil
  then show ?thesis by (simp add: pairs_of_def pair_of_def)
next
  case (Cons kv ks)
  have "CHR '';'' \<notin> set f" if "f \<in> set (map print_pair kvs)" for f
    using assms that by (force simp: plain_pair_def print_pair_def)
  then have "string_fields (CHR '';'') (print_pairs kvs) = map print_pair kvs"
    using fields_join [of "print_pair kv" "map print_pair ks" "CHR '';''"] unfolding Cons by simp
  moreover have "map (pair_of \<circ> print_pair) kvs = kvs"
    using assms by (intro map_idI) (simp add: pair_of_print)
  moreover have "filter (\<lambda>(k, v). k \<noteq> []) kvs = kvs"
    using assms by (intro filter_True) (force simp: plain_pair_def)
  ultimately show ?thesis by (simp add: pairs_of_def)
qed

lemma to_str_roundtrip:
  assumes ok: "parms_ok p" and small: "length (pairs p) < 2 ^ 64"
    and plain: "\<And>k v. params p k = Some v \<Longrightarrow> plain_pair (k, v)" and mem: "memory_ok mem"
  shows "\<exists>t p'. str_parms_to_str (\<lambda>_. True) True p = Some t \<and> str_parms_create_str mem t = Some (Some p') \<and>
    parms_ok p' \<and> params p' = params p"
proof -
  note pp = pairs_params [OF ok]
  have "plain_pair kv" if "kv \<in> set (pairs p)" for kv
    using plain [of "fst kv" "snd kv"] map_of_is_SomeI [OF pp(2), of "fst kv" "snd kv"] that by (simp add: pp(1))
  then have "pairs_of (print_pairs (pairs p)) = pairs p" by (rule pairs_of_print)
  moreover have "map_of (rev (pairs p)) = params p"
    using pp(2) by (subst pp(1) [symmetric], subst map_of_inject_set) (simp_all add: rev_map [symmetric])
  ultimately show ?thesis
    using to_str_pairs [OF ok small] create_str_parms [OF mem, of "print_pairs (pairs p)"] by auto
qed

text \<open>A parsed table has no more entries than the string has characters.\<close>

lemma length_fields: "length (string_fields d s) \<le> Suc (length s)"
  by (induction s) (auto split: list.splits)

lemma parsed_pairs_few:
  assumes ok: "parms_ok p" and "params p = map_of (rev (pairs_of s))"
  shows "length (pairs p) \<le> Suc (length s)"
proof -
  have "length (pairs p) = card (set (map fst (pairs p)))"
    using distinct_card [OF pairs_params(2) [OF ok]] by simp
  also have "set (map fst (pairs p)) = dom (params p)"
    using pairs_params(1) [OF ok] by (metis dom_map_of_conv_image_fst list.set_map)
  also have "\<dots> = set (map fst (pairs_of s))"
    unfolding assms(2) by (simp add: dom_map_of_conv_image_fst)
  also have "card \<dots> \<le> length (pairs_of s)" using card_length by (metis length_map)
  also have "\<dots> \<le> length (string_fields (CHR '';'') s)"
    unfolding pairs_of_def by (rule order.trans [OF length_filter_le]) simp
  also have "\<dots> \<le> Suc (length s)" by (rule length_fields)
  finally show ?thesis .
qed

end
