(* ===== verification/Str_Parms_Props.thy ===== *)
theory Str_Parms_Props
  imports Str_Parms_Correct
begin

text \<open>What the parameter strings guarantee, over the operations of \<open>cutils/str_parms.c\<close>.\<close>

text \<open>Ample memory, and the one situation of the example where larger buckets are not to be had.\<close>

definition ample :: memory where
  "ample = \<lparr>struct_ok = True, map_ok = True, buckets_ok = calloc_all, strdup_ok = True,
     value_dup_ok = True, entry_ok = (\<lambda>_. True)\<rparr>"

definition eight_buckets :: memory where
  "eight_buckets = ample\<lparr>buckets_ok := (\<lambda>n. n \<le> 8)\<rparr>"

lemma ample_ok: "memory_ok ample"
  by (simp add: memory_ok_def ample_def calloc_all_sane calloc_all_def)

lemma eight_buckets_ok: "memory_ok eight_buckets"
proof -
  have "unat n < 2 ^ 61" if "n \<le> (8 :: u64)" for n
    using that by (simp add: word_le_nat_alt)
  then show ?thesis by (simp add: memory_ok_def ample_def eight_buckets_def calloc_sane_def)
qed

lemma ample_buckets:
  "unat (n :: u64) \<le> 4 * unat s \<Longrightarrow> unat s < 2 ^ 58 \<Longrightarrow> buckets_ok ample n"
  by (simp add: ample_def calloc_all_def)

lemma add_params:
  assumes "parms_ok p" "memory_ok mem"
    and "\<And>n. unat n \<le> 4 * unat (hashmapSize (parms_map p) + 1) \<Longrightarrow> buckets_ok mem n"
  shows "\<exists>p'. str_parms_add_str mem p key v = (0, False, p') \<and> parms_ok p' \<and> params p' = (params p)(key \<mapsto> v)"
proof -
  have m: "strdup_ok mem" "value_dup_ok mem" "calloc_sane (buckets_ok mem)" "entry_ok mem 0"
    using assms(2) by (auto simp: memory_ok_def)
  obtain hm where "hashmapPut (entry_ok mem 0) (buckets_ok mem) (parms_map p) key (Some v) = (params p key, False, hm)"
    "parms_ok (p\<lparr>parms_map := hm\<rparr>)" "params (p\<lparr>parms_map := hm\<rparr>) = (params p)(key \<mapsto> v)"
    using put_params [OF assms(1) m(3), of "entry_ok mem 0" key v] m(4) assms(3) by auto
  then show ?thesis using m by (cases "params p key") (simp_all add: str_parms_add_str_def)
qed

lemma few_pairs_size:
  assumes "parms_ok p" "length (pairs p) \<le> 4"
  shows "unat (hashmapSize (parms_map p) + 1) < 2 ^ 58"
proof -
  have "hashmapSize (parms_map p) + 1 = of_nat (Suc (length (pairs p)))"
    using hashmap_okD(6) [OF parms_okD(1) [OF assms(1)]] by (simp add: hashmapSize_def pairs_def)
  also have "unat \<dots> \<le> Suc (length (pairs p))" by (simp add: unat_of_nat del: of_nat_Suc)
  finally show ?thesis using assms(2) by simp
qed

text \<open>
  Parsing: with enough memory \<open>str_parms_create_str\<close> always returns, and the table it returns
  maps each key to the value of the last field of the string that has this key.  Fields are
  separated by semicolons, keys end at the first equals sign; empty fields and fields without
  a key bind nothing.
\<close>

theorem str_parms_create_str_correct:
  assumes "memory_ok mem"
  shows "\<exists>p. str_parms_create_str mem s = Some (Some p) \<and> parms_ok p \<and>
    (\<forall>k. hashmapGet (parms_map p) k = map_of (rev (pairs_of s)) k) \<and>
    (\<forall>k. str_parms_has_key p k \<longleftrightarrow> k \<in> fst ` set (pairs_of s))"
proof -
  obtain p where p: "str_parms_create_str mem s = Some (Some p)" "parms_ok p" "params p = map_of (rev (pairs_of s))"
    using create_str_parms [OF assms] by blast
  have "map_of (rev (pairs_of s)) k = None \<longleftrightarrow> k \<notin> fst ` set (pairs_of s)" for k
    by (simp add: map_of_eq_None_iff)
  moreover have "hashmapGet (parms_map p) k = map_of (rev (pairs_of s)) k" for k
    using get_params [OF p(2)] p(3) by simp
  ultimately show ?thesis unfolding str_parms_has_key_def using p(1,2) by metis
qed

theorem str_parms_create_str_correct_witness:
  "memory_ok ample \<and> pairs_of '';=x;a=1;;b;a=2=3'' = [(''a'', ''1''), (''b'', ''''), (''a'', ''2=3'')] \<and>
   (\<exists>p. str_parms_create_str ample '';=x;a=1;;b;a=2=3'' = Some (Some p) \<and> hashmapGet (parms_map p) ''a'' = Some ''2=3'')"
proof -
  have e: "pairs_of '';=x;a=1;;b;a=2=3'' = [(''a'', ''1''), (''b'', ''''), (''a'', ''2=3'')]" by code_simp
  show ?thesis
    using str_parms_create_str_correct [OF ample_ok, of "'';=x;a=1;;b;a=2=3''"] ample_ok unfolding e by auto
qed

text \<open>
  C23.  Printing and parsing: the string that \<open>str_parms_to_str\<close> prints for a parsed table parses
  to a table with the same bindings.
\<close>

theorem str_parms_roundtrip:
  assumes "memory_ok mem" "length s < 2 ^ 63"
  shows "\<exists>p t p'. str_parms_create_str mem s = Some (Some p) \<and> str_parms_to_str (\<lambda>_. True) True p = Some t \<and>
    str_parms_create_str mem t = Some (Some p') \<and> hashmapGet (parms_map p') = hashmapGet (parms_map p)"
proof -
  obtain p where p: "str_parms_create_str mem s = Some (Some p)" "parms_ok p" "params p = map_of (rev (pairs_of s))"
    using create_str_parms [OF assms(1)] by blast
  have "plain_pair (k, v)" if "params p k = Some v" for k v
    using that map_of_SomeD [of "rev (pairs_of s)" k v] pairs_of_plain unfolding p(3) by auto
  moreover have "length (pairs p) < 2 ^ 64" using parsed_pairs_few [OF p(2,3)] assms(2) by simp
  ultimately obtain t p' where "str_parms_to_str (\<lambda>_. True) True p = Some t"
    "str_parms_create_str mem t = Some (Some p')" "parms_ok p'" "params p' = params p"
    using to_str_roundtrip [OF p(2) _ _ assms(1)] by blast
  then show ?thesis using p(1) get_params p(2) by (metis ext)
qed

theorem str_parms_roundtrip_witness:
  "\<exists>p t p'. str_parms_create_str ample ''b=2;a=1'' = Some (Some p) \<and> str_parms_to_str (\<lambda>_. True) True p = Some t \<and>
    str_parms_create_str ample t = Some (Some p') \<and> hashmapGet (parms_map p') = hashmapGet (parms_map p)"
  by (rule str_parms_roundtrip [OF ample_ok]) simp

text \<open>
  Adding: \<open>str_parms_add_str\<close> binds the key and reports success, and \<open>str_parms_get_str\<close> then
  returns the length of the value and copies as much of it as the buffer holds, always
  terminated.  Other keys keep their values.
\<close>

theorem str_parms_add_get_str:
  assumes "parms_ok p" "memory_ok mem"
    and "\<And>n. unat n \<le> 4 * unat (hashmapSize (parms_map p) + 1) \<Longrightarrow> buckets_ok mem n"
    and "c_string v" "length v < 2 ^ 31" "0 < sint len" "nat (sint len) \<le> length buf"
  shows "\<exists>p'. str_parms_add_str mem p key v = (0, False, p') \<and> parms_ok p' \<and>
    hashmapGet (parms_map p') = (hashmapGet (parms_map p))(key \<mapsto> v) \<and>
    str_parms_get_str p' key buf len = Ret (int (length v),
      take (nat (sint len) - 1) v @ [NUL] @ drop (Suc (min (length v) (nat (sint len) - 1))) buf)"
proof -
  obtain p' where p': "str_parms_add_str mem p key v = (0, False, p')" "parms_ok p'"
    "params p' = (params p)(key \<mapsto> v)"
    using add_params [OF assms(1-3)] by blast
  have g: "hashmapGet (parms_map p) = params p" "hashmapGet (parms_map p') = (params p)(key \<mapsto> v)"
    using get_params [OF assms(1)] get_params [OF p'(2)] p'(3) by auto
  have len: "unat (scast len :: u64) = nat (sint len)" "(scast len :: u64) \<noteq> 0"
    by (rule unat_scast_pos [OF assms(6)])+
  have "min (Suc (length v)) (unat (scast len :: u64)) \<le> length buf" using assms(7) len by simp
  from strlcpy_result [OF assms(4) this, of "[]"] len
  have "str_parms_get_str p' key buf len = Ret (int (length v),
      take (nat (sint len) - 1) v @ [NUL] @ drop (Suc (min (length v) (nat (sint len) - 1))) buf)"
    using assms(5) by (simp add: str_parms_get_str_def g(2) int_of_length_word)
  then show ?thesis using p' g by auto
qed

theorem str_parms_add_get_str_witness:
  "\<exists>p p'. str_parms_create_str ample ''a=1'' = Some (Some p) \<and> str_parms_add_str ample p ''k'' ''value'' = (0, False, p') \<and>
    str_parms_get_str p' ''k'' (replicate 4 (CHR ''?'')) 4 = Ret (5, ''val'' @ [NUL])"
proof -
  obtain p where p: "str_parms_create_str ample ''a=1'' = Some (Some p)" "parms_ok p" "params p = map_of (rev (pairs_of ''a=1''))"
    using create_str_parms [OF ample_ok] by blast
  have "length (pairs p) \<le> 4" using parsed_pairs_few [OF p(2,3)] by simp
  then have size: "unat (hashmapSize (parms_map p) + 1) < 2 ^ 58" by (rule few_pairs_size [OF p(2)])
  have "\<exists>p'. str_parms_add_str ample p ''k'' ''value'' = (0, False, p') \<and> parms_ok p' \<and>
    hashmapGet (parms_map p') = (hashmapGet (parms_map p))(''k'' \<mapsto> ''value'') \<and>
    str_parms_get_str p' ''k'' (replicate 4 (CHR ''?'')) 4 = Ret (int (length ''value''),
      take (nat (sint (4 :: u32)) - 1) ''value'' @ [NUL] @ drop (Suc (min (length ''value'') (nat (sint (4 :: u32)) - 1))) (replicate 4 (CHR ''?'')))"
    by (rule str_parms_add_get_str [OF p(2) ample_ok])
      (use size in \<open>auto intro: ample_buckets simp: c_string_def\<close>)
  then show ?thesis using p(1) by auto
qed

text \<open>
  Numbers: what \<open>str_parms_add_int\<close> stores, \<open>str_parms_get_int\<close> reads back, for every \<open>int\<close>; the
  buffer of twelve bytes never truncates the text.
\<close>

theorem str_parms_add_get_int:
  assumes "parms_ok p" "memory_ok mem"
    and "\<And>n. unat n \<le> 4 * unat (hashmapSize (parms_map p) + 1) \<Longrightarrow> buckets_ok mem n"
  shows "\<exists>p'. str_parms_add_int mem p key n = (0, False, p') \<and> parms_ok p' \<and>
    str_parms_get_int p' key x = (0, n) \<and>
    (\<forall>k. k \<noteq> key \<longrightarrow> hashmapGet (parms_map p') k = hashmapGet (parms_map p) k)"
proof -
  have range: "- (2 ^ 31) \<le> sint n" "sint n < 2 ^ 31" using sint_ge [of n] sint_lt [of n] by simp_all
  then have "length (print_d (sint n)) \<le> 11" by (rule length_print_d)
  then have fits: "take (12 - 1) (print_d (sint n)) = print_d (sint n)" by simp
  obtain p' where p': "str_parms_add_str mem p key (print_d (sint n)) = (0, False, p')" "parms_ok p'"
    "params p' = (params p)(key \<mapsto> print_d (sint n))"
    using add_params [OF assms] by blast
  have "strtol 0 (print_d (sint n)) = (sint n, [])" using range by (intro strtol_print_d) simp_all
  moreover have "print_d (sint n) \<noteq> []" by (simp add: print_d_def)
  ultimately have "str_parms_get_int p' key x = (0, n)"
    by (simp add: str_parms_get_int_def get_params [OF p'(2)] p'(3))
  moreover have "hashmapGet (parms_map p') k = hashmapGet (parms_map p) k" if "k \<noteq> key" for k
    using that by (simp add: get_params p'(2,3) assms(1))
  ultimately show ?thesis using p' fits by (simp add: str_parms_add_int_def)
qed

theorem str_parms_add_get_int_witness:
  "\<exists>p p'. str_parms_create_str ample '''' = Some (Some p) \<and>
    str_parms_add_int ample p ''k'' 0x80000000 = (0, False, p') \<and> str_parms_get_int p' ''k'' 0 = (0, 0x80000000)"
proof -
  obtain p where p: "str_parms_create_str ample '''' = Some (Some p)" "parms_ok p" "params p = map_of (rev (pairs_of ''''))"
    using create_str_parms [OF ample_ok] by blast
  have "length (pairs p) \<le> 4" using parsed_pairs_few [OF p(2,3)] by simp
  then have size: "unat (hashmapSize (parms_map p) + 1) < 2 ^ 58" by (rule few_pairs_size [OF p(2)])
  have "\<exists>p'. str_parms_add_int ample p ''k'' 0x80000000 = (0, False, p') \<and> parms_ok p' \<and>
    str_parms_get_int p' ''k'' 0 = (0, 0x80000000) \<and>
    (\<forall>k. k \<noteq> ''k'' \<longrightarrow> hashmapGet (parms_map p') k = hashmapGet (parms_map p) k)"
    by (rule str_parms_add_get_int [OF p(2) ample_ok]) (use size in \<open>auto intro: ample_buckets\<close>)
  then show ?thesis using p(1) by auto
qed

text \<open>
  Removing: \<open>str_parms_del\<close> unbinds the key and nothing else, and without a key everything,
  although it removes entries from the table it iterates over; \<open>str_parms_destroy\<close> leaves no
  entry behind.
\<close>

theorem str_parms_del_correct:
  assumes "parms_ok p"
  shows "parms_ok (str_parms_del p key) \<and>
    hashmapGet (parms_map (str_parms_del p key)) =
      (case key of None \<Rightarrow> Map.empty | Some k \<Rightarrow> (hashmapGet (parms_map p))(k := None)) \<and>
    hm_entries (parms_map (str_parms_destroy p)) = []"
proof -
  have g: "hashmapGet (parms_map q) = params q" if "parms_ok q" for q
    using get_params [OF that] by auto
  have "str_parms_destroy p = str_parms_del p None"
    by (simp add: str_parms_destroy_def str_parms_del_def)
  then have d: "parms_ok (str_parms_destroy p)" "params (str_parms_destroy p) = Map.empty"
    using del_all [OF assms] by simp_all
  then have "pairs (str_parms_destroy p) = []"
    using pairs_params(1) [OF d(1)] by (cases "pairs (str_parms_destroy p)") auto
  then show ?thesis
    using del_all [OF assms] del_key [OF assms] by (cases key) (simp_all add: g assms pairs_def)
qed

theorem str_parms_del_correct_witness:
  "\<exists>p. str_parms_create_str ample ''a=1;b=2'' = Some (Some p) \<and>
    hashmapGet (parms_map (str_parms_del p (Some ''a''))) = [''b'' \<mapsto> ''2'']"
proof -
  obtain p where p: "str_parms_create_str ample ''a=1;b=2'' = Some (Some p)" "parms_ok p"
      "params p = map_of (rev (pairs_of ''a=1;b=2''))"
    using create_str_parms [OF ample_ok] by blast
  have "pairs_of ''a=1;b=2'' = [(''a'', ''1''), (''b'', ''2'')]" by code_simp
  then have "hashmapGet (parms_map p) = [''b'' \<mapsto> ''2'', ''a'' \<mapsto> ''1'']" using get_params [OF p(2)] p(3) by auto
  then show ?thesis using p(1) str_parms_del_correct [OF p(2), of "Some ''a''"] by auto
qed

text \<open>
  A defect: when \<open>hashmapPut\<close> stores a new key but cannot allocate larger buckets, \<open>calloc\<close>
  leaves \<open>ENOMEM\<close> in \<open>errno\<close>; \<open>str_parms_add_str\<close> takes this for a failed insertion, frees the key
  and the value that the table now holds, and reports an error.
\<close>

theorem str_parms_add_str_frees_stored_key:
  assumes "parms_ok p" "memory_ok mem" "hashmapGet (parms_map p) key = None"
    and "hashmapSize (parms_map p) + 1 > bucketCount (parms_map p) * 3 div 4"
    and "\<not> buckets_ok mem (push_bit 1 (bucketCount (parms_map p)))"
  shows "\<exists>p'. str_parms_add_str mem p key v = (- ENOMEM, True, p') \<and> str_parms_has_key p' key"
proof -
  have m: "strdup_ok mem" "value_dup_ok mem" "calloc_sane (buckets_ok mem)" "entry_ok mem 0"
    using assms(2) by (auto simp: memory_ok_def)
  have none: "params p key = None" using assms(1,3) by (simp add: get_params)
  then have "contents (parms_map p) key = None" using params_None [OF assms(1)] by simp
  from str_keys.put_new_errno [OF parms_okD [OF assms(1)] this, of "buckets_ok mem" "Some v"] assms(4,5)
  have e: "fst (snd (hashmapPut True (buckets_ok mem) (parms_map p) key (Some v)))" by (simp add: hashmapSize_def)
  obtain hm where hm: "hashmapPut True (buckets_ok mem) (parms_map p) key (Some v) = (None, True, hm)"
    "parms_ok (p\<lparr>parms_map := hm\<rparr>)" "params (p\<lparr>parms_map := hm\<rparr>) = (params p)(key \<mapsto> v)"
    using put_params [OF assms(1) m(3), of True key v] e none by auto
  have get: "hashmapGet hm key = Some v" using get_params [OF hm(2), of key] hm(3) by simp
  have "hashmapContainsKey hm key \<longleftrightarrow> contents hm key \<noteq> None"
    using str_keys.contains_contents [OF parms_okD [OF hm(2)]] by simp
  then have "hashmapContainsKey hm key"
    using params_None [OF hm(2), of key] hm(3) by simp
  then show ?thesis using m hm(1) get by (simp add: str_parms_add_str_def str_parms_has_key_def)
qed

lemma full_table:
  "map_option (map_option (\<lambda>p. (hashmapSize (parms_map p), bucketCount (parms_map p))))
     (str_parms_create_str eight_buckets ''a=1;b=2;c=3;d=4;e=5;f=6'') = Some (Some (6, 8))"
  by code_simp

theorem str_parms_add_str_frees_stored_key_witness:
  "\<exists>p p'. str_parms_create_str eight_buckets ''a=1;b=2;c=3;d=4;e=5;f=6'' = Some (Some p) \<and>
    str_parms_add_str eight_buckets p ''g'' ''7'' = (- 12, True, p') \<and> str_parms_has_key p' ''g''"
proof -
  let ?s = "''a=1;b=2;c=3;d=4;e=5;f=6''"
  obtain p where p: "str_parms_create_str eight_buckets ?s = Some (Some p)" "parms_ok p"
      "params p = map_of (rev (pairs_of ?s))"
    using create_str_parms [OF eight_buckets_ok] by blast
  have "map_of (rev (pairs_of ?s)) ''g'' = None" by code_simp
  then have new: "hashmapGet (parms_map p) ''g'' = None" using get_params [OF p(2)] p(3) by simp
  have full: "hashmapSize (parms_map p) = 6" "bucketCount (parms_map p) = 8" using full_table p(1) by simp_all
  show ?thesis
    using str_parms_add_str_frees_stored_key [OF p(2) eight_buckets_ok new, of "''7''"] p(1)
    by (simp add: full ENOMEM_def eight_buckets_def)
qed

end
