(* ===== verification/Utf_Convert.thy ===== *)
theory Utf_Convert
  imports C_Prelude
begin

text \<open>
  The conversions between UTF-16 and Java's modified UTF-8 of \<open>cutils/strdup16to8.c\<close> and
  \<open>cutils/strdup8to16.c\<close>.  A source pointer is the region from it to the end of its object, a
  destination pointer an index into the destination region; reading or writing past an
  object is a \<open>Fault\<close>.
\<close>

section \<open>UTF-16 to UTF-8\<close>

definition SIZE_MAX :: u64 where
  "SIZE_MAX = - 1"

text \<open>The bytes one UTF-16 unit needs, as the counting loops add them.\<close>

definition add_unit_length :: "u16 \<Rightarrow> u64 \<Rightarrow> u64" where
  "add_unit_length unit utf8Len =
     (let uic = ucast unit :: u32 in
      if uic > 0x07ff then utf8Len + 3
      else if uic > 0x7f \<or> uic = 0 then utf8Len + 2
      else utf8Len + 1)"

fun strnlen16to8_fast :: "nat \<Rightarrow> u16 list \<Rightarrow> u64 \<Rightarrow> u64 exec" where
  "strnlen16to8_fast 0 utf16Str utf8Len = Ret utf8Len"
| "strnlen16to8_fast (Suc len) [] utf8Len = Fault"
| "strnlen16to8_fast (Suc len) (unit # utf16Str) utf8Len =
     strnlen16to8_fast len utf16Str (add_unit_length unit utf8Len)"

fun strnlen16to8_slow :: "nat \<Rightarrow> u16 list \<Rightarrow> u64 \<Rightarrow> u64 exec" where
  "strnlen16to8_slow 0 utf16Str utf8Len = Ret (if utf8Len = SIZE_MAX then SIZE_MAX - 1 else utf8Len)"
| "strnlen16to8_slow (Suc len) [] utf8Len = Fault"
| "strnlen16to8_slow (Suc len) (unit # utf16Str) utf8Len =
     (let utf8Cur = utf8Len;
          utf8Len = add_unit_length unit utf8Len
      in if utf8Len < utf8Cur then Ret (SIZE_MAX - 1)
         else strnlen16to8_slow len utf16Str utf8Len)"

definition strnlen16to8 :: "u16 list \<Rightarrow> u64 \<Rightarrow> u64 exec" where
  "strnlen16to8 utf16Str len =
     (if len < (SIZE_MAX - 1) div 3 then strnlen16to8_fast (unat len) utf16Str 0
      else strnlen16to8_slow (unat len) utf16Str 0)"

text \<open>\<open>*p++ = b\<close> for a list of bytes or units.\<close>

definition store :: "'a list \<Rightarrow> nat \<times> 'a list \<Rightarrow> (nat \<times> 'a list) exec" where
  "store bs p = (case p of (d, dst) \<Rightarrow> bindE (deref (mem_write d bs dst)) (\<lambda>dst. Ret (d + length bs, dst)))"

fun strncpy16to8_loop :: "nat \<Rightarrow> u16 list \<Rightarrow> nat \<times> u8 list \<Rightarrow> (nat \<times> u8 list) exec" where
  "strncpy16to8_loop 0 utf16Str utf8cur = Ret utf8cur"
| "strncpy16to8_loop (Suc len) [] utf8cur = Fault"
| "strncpy16to8_loop (Suc len) (unit # utf16Str) utf8cur =
     (let uic = ucast unit :: u32 in
      if uic > 0x07ff then
        bindE (store [ucast (drop_bit 12 uic OR 0xe0), ucast (drop_bit 6 uic AND 0x3f OR 0x80),
                      ucast (uic AND 0x3f OR 0x80)] utf8cur) (strncpy16to8_loop len utf16Str)
      else if uic > 0x7f \<or> uic = 0 then
        bindE (store [ucast (drop_bit 6 uic OR 0xc0), ucast (uic AND 0x3f OR 0x80)] utf8cur)
          (strncpy16to8_loop len utf16Str)
      else
        bindE (store [ucast uic] utf8cur) (\<lambda>utf8cur.
        if uic = 0 then Ret utf8cur else strncpy16to8_loop len utf16Str utf8cur))"

definition strncpy16to8 :: "u8 list \<Rightarrow> u16 list \<Rightarrow> u64 \<Rightarrow> u8 list exec" where
  "strncpy16to8 utf8Str utf16Str len =
     bindE (strncpy16to8_loop (unat len) utf16Str (0, utf8Str)) (\<lambda>utf8cur.
     bindE (store [0] utf8cur) (\<lambda>(d, utf8Str). Ret utf8Str))"

text \<open>
  The source is \<open>None\<close> for \<open>NULL\<close>; \<open>malloc\<close> gives the initial contents of a block of the given size,
  or \<open>None\<close>.
\<close>

definition strndup16to8 :: "(u64 \<Rightarrow> u8 list option) \<Rightarrow> u16 list option \<Rightarrow> u64 \<Rightarrow> u8 list option exec" where
  "strndup16to8 malloc s n =
     (case s of
        None \<Rightarrow> Ret None
      | Some s \<Rightarrow>
          bindE (strnlen16to8 s n) (\<lambda>len.
          if len \<ge> SIZE_MAX - 1 then Ret None
          else case malloc (len + 1) of
                 None \<Rightarrow> Ret None
               | Some ret \<Rightarrow> bindE (strncpy16to8 ret s n) (\<lambda>ret. Ret (Some ret))))"

section \<open>UTF-8 to UTF-16\<close>

definition UTF16_REPLACEMENT_CHAR :: u32 where
  "UTF16_REPLACEMENT_CHAR = 0xfffd"

definition UNICODE_UPPER_LIMIT :: u32 where
  "UNICODE_UPPER_LIMIT = 0x10fffd"

text \<open>A \<open>char\<close> is extended to \<open>int\<close> with its sign before it is shifted.\<close>

definition UTF8_SEQ_LENGTH :: "u8 \<Rightarrow> nat" where
  "UTF8_SEQ_LENGTH ch =
     unat ((drop_bit (unat (drop_bit 3 (scast ch :: u32) AND 0x1e)) 0xe5000000 AND 3 :: u32) + 1)"

definition extension_byte :: "u8 \<Rightarrow> bool" where
  "extension_byte ch \<longleftrightarrow> ch AND 0xc0 = 0x80"

text \<open>
  The loop of \<open>strlen8to16\<close>; its variable \<open>expected\<close> is an \<open>int\<close> that leaves its range only after
  more than \<open>2 ^ 31\<close> extension bytes in a row.
\<close>

fun strlen8to16_loop :: "u8 list \<Rightarrow> u64 \<Rightarrow> int \<Rightarrow> u64 exec" where
  "strlen8to16_loop [] len expected = Fault"
| "strlen8to16_loop (ic # utf8Str) len expected =
     (if ic = 0 then Ret len
      else if extension_byte ic then
        let expected = expected - 1
        in strlen8to16_loop utf8Str (if expected < 0 then len + 1 else len) expected
      else
        let len = len + 1;
            expected = int (UTF8_SEQ_LENGTH ic) - 1
        in strlen8to16_loop utf8Str (if expected = 3 then len + 1 else len) expected)"

definition strlen8to16 :: "u8 list \<Rightarrow> u64 exec" where
  "strlen8to16 utf8Str = strlen8to16_loop utf8Str 0 0"

definition leaderMask :: "u32 list" where
  "leaderMask = [0xffffffff, 0x1f, 0x0f, 0x07]"

text \<open>The remaining bytes of a sequence.\<close>

fun getUtf32_rest :: "nat \<Rightarrow> u32 \<Rightarrow> u8 list \<Rightarrow> (u32 \<times> u8 list) exec" where
  "getUtf32_rest 0 ret p = Ret (ret, p)"
| "getUtf32_rest (Suc n) ret [] = Fault"
| "getUtf32_rest (Suc n) ret (ch # p) =
     (if ch = 0 then Ret (UTF16_REPLACEMENT_CHAR, ch # p)
      else if \<not> extension_byte ch then Ret (UTF16_REPLACEMENT_CHAR, ch # p)
      else getUtf32_rest n (push_bit 6 ret OR (0x3f AND ucast ch)) p)"

fun getUtf32FromUtf8 :: "u8 list \<Rightarrow> (u32 \<times> u8 list) exec" where
  "getUtf32FromUtf8 [] = Fault"
| "getUtf32FromUtf8 (ch # p) =
     (if extension_byte ch then Ret (UTF16_REPLACEMENT_CHAR, p)
      else
        let seq_len = UTF8_SEQ_LENGTH ch;
            ret = scast ch AND leaderMask ! (seq_len - 1)
        in if ch = 0 then Ret (ret, ch # p) else getUtf32_rest (seq_len - 1) ret p)"

text \<open>The units that a code point becomes.\<close>

definition utf16_units :: "u32 \<Rightarrow> u16 list" where
  "utf16_units ret =
     (if ret \<le> 0xffff then [ucast ret]
      else if ret \<le> UNICODE_UPPER_LIMIT then
        [ucast (0xd800 OR drop_bit 10 (ret - 0x10000)), ucast (0xdc00 OR (ret - 0x10000) AND 0x3ff)]
      else [ucast UTF16_REPLACEMENT_CHAR])"

lemma utf16_units_not_Nil [simp]: "utf16_units ret \<noteq> []"
  by (simp add: utf16_units_def)

lemma store_Ret: "store bs (d, dst) = Ret (d', dst') \<Longrightarrow> d' = d + length bs \<and> length dst' = length dst \<and> d' \<le> length dst"
  by (auto simp: store_def bindE_Ret_iff deref_def mem_write_def split: option.splits if_splits)

text \<open>
  The copying loop of \<open>strcpy8to16\<close> stops at the terminator, the one of \<open>strcpylen8to16\<close> at \<open>end\<close>;
  \<open>continue\<close> is the loop condition on the rest of the source.  Every round writes at least one
  unit, so the loop ends, in a \<open>Fault\<close> if at nothing else.
\<close>

function strcpy8to16_loop :: "(u8 list \<Rightarrow> bool exec) \<Rightarrow> u8 list \<Rightarrow> nat \<times> u16 list \<Rightarrow> (nat \<times> u16 list) exec" where
  "strcpy8to16_loop continue utf8Str (d, dst) =
     (case continue utf8Str of
        AssertFail \<Rightarrow> AssertFail
      | Fault \<Rightarrow> Fault
      | Ret False \<Rightarrow> Ret (d, dst)
      | Ret True \<Rightarrow>
          (case getUtf32FromUtf8 utf8Str of
             AssertFail \<Rightarrow> AssertFail
           | Fault \<Rightarrow> Fault
           | Ret (ret, utf8Str) \<Rightarrow>
               (case store (utf16_units ret) (d, dst) of
                  AssertFail \<Rightarrow> AssertFail
                | Fault \<Rightarrow> Fault
                | Ret (d, dst) \<Rightarrow> strcpy8to16_loop continue utf8Str (d, dst))))"
  by pat_completeness auto
termination
proof (relation "measure (\<lambda>(continue, utf8Str, d, dst). length dst - d)")
  fix continue :: "u8 list \<Rightarrow> bool exec" and utf8Str rest :: "u8 list" and d d' dst dst' and b :: bool
    and r s :: "_ \<times> _" and ret
  assume "store (utf16_units ret) (d, dst) = Ret s" "(d', dst') = s"
  then have "store (utf16_units ret) (d, dst) = Ret (d', dst')" by simp
  from store_Ret [OF this] have "length dst' - d' < length dst - d"
    using length_greater_0_conv [of "utf16_units ret"] utf16_units_not_Nil [of ret] by linarith
  then show "((continue, rest, d', dst'), continue, utf8Str, d, dst)
      \<in> measure (\<lambda>(continue, utf8Str, d, dst). length dst - d)" by simp
qed simp

declare strcpy8to16_loop.simps [simp del]

text \<open>The destination and \<open>out_len\<close>.\<close>

definition strcpy8to16 :: "u16 list \<Rightarrow> u8 list \<Rightarrow> (u16 list \<times> u64) exec" where
  "strcpy8to16 utf16Str utf8Str =
     bindE (strcpy8to16_loop (\<lambda>p. case p of [] \<Rightarrow> Fault | ch # _ \<Rightarrow> Ret (ch \<noteq> 0)) utf8Str (0, utf16Str))
       (\<lambda>(dest, utf16Str). Ret (utf16Str, of_nat dest))"

definition strcpylen8to16 :: "u16 list \<Rightarrow> u8 list \<Rightarrow> u32 \<Rightarrow> (u16 list \<times> u64) exec" where
  "strcpylen8to16 utf16Str utf8Str len =
     bindE (strcpy8to16_loop (\<lambda>p. Ret (int (length utf8Str - length p) < sint len)) utf8Str (0, utf16Str))
       (\<lambda>(dest, utf16Str). Ret (utf16Str, of_nat dest))"

text \<open>A \<open>malloc\<close> that fails is not checked: the first write then goes through \<open>NULL\<close>.\<close>

definition strdup8to16 :: "(u64 \<Rightarrow> u16 list option) \<Rightarrow> u8 list option \<Rightarrow> (u16 list \<times> u64) option exec" where
  "strdup8to16 malloc s =
     (case s of
        None \<Rightarrow> Ret None
      | Some s \<Rightarrow>
          bindE (strlen8to16 s) (\<lambda>len.
          if len \<noteq> 0 \<and> SIZE_MAX div len < 2 then Ret None
          else
            case malloc (2 * len) of
              None \<Rightarrow> bindE (strcpy8to16 [] s) (\<lambda>(r, out_len). Ret None)
            | Some ret \<Rightarrow> bindE (strcpy8to16 ret s) (\<lambda>r. Ret (Some r))))"

end
