(* ===== verification/Utf_Correct.thy ===== *)
theory Utf_Correct
  imports Utf_Convert
begin

text \<open>
  The conversions of \<open>Utf_Convert\<close> fill the buffers that the length functions announce and no
  more, and converting to UTF-8 and back is the identity.
\<close>

section \<open>Writing\<close>

lemma store_append: "bindE (store a p) (store b) = store (a @ b) p"
  by (cases p) (auto simp: store_def deref_def mem_write_def ac_simps split: option.splits)

lemma store_Nil: "d \<le> length dst \<Longrightarrow> store [] (d, dst) = Ret (d, dst)"
  by (simp add: store_def mem_write_def)

lemma store_fits: "d + length bs \<le> length dst \<Longrightarrow>
    store bs (d, dst) = Ret (d + length bs, take d dst @ bs @ drop (d + length bs) dst)"
  by (simp add: store_def mem_write_def)

lemma store_overrun: "length dst < d + length bs \<Longrightarrow> store bs (d, dst) = Fault"
  by (simp add: store_def mem_write_def)

section \<open>Encoding\<close>

definition utf8_bytes :: "u16 \<Rightarrow> u8 list" where
  "utf8_bytes u =
     (if u > 0x07ff then
        [ucast (drop_bit 12 u OR 0xe0), ucast (drop_bit 6 u AND 0x3f OR 0x80), ucast (u AND 0x3f OR 0x80)]
      else if u > 0x7f \<or> u = 0 then [ucast (drop_bit 6 u OR 0xc0), ucast (u AND 0x3f OR 0x80)]
      else [ucast u])"

definition utf8_encode :: "u16 list \<Rightarrow> u8 list" where
  "utf8_encode s = concat (map utf8_bytes s)"

lemma unat_ucast_u16: "unat (ucast (u :: u16) :: u32) = unat u"
proof -
  have "unat u < 2 ^ 16" using unsigned_less [of u] by simp
  then show ?thesis by (simp add: unsigned_ucast_eq take_bit_nat_eq_self)
qed

lemma ucast_u16_cases:
  "(ucast (u :: u16) :: u32) > 0x07ff \<longleftrightarrow> u > 0x07ff" "(ucast u :: u32) > 0x7f \<longleftrightarrow> u > 0x7f"
  "(ucast u :: u32) = 0 \<longleftrightarrow> u = 0"
  by (simp_all add: word_less_nat_alt unat_ucast_u16 word_unat_eq_iff [of "ucast u :: u32"] word_unat_eq_iff [of u])

lemma bit_u16: "bit (u :: u16) m \<Longrightarrow> m < 32"
  using bit_imp_le_length [of u m] by simp

lemma ucast_bits:
  "ucast (drop_bit k (ucast (u :: u16) :: u32) OR a) = (ucast (drop_bit k u OR ucast a) :: u8)"
  "ucast (drop_bit k (ucast (u :: u16) :: u32) AND b OR a) = (ucast (drop_bit k u AND ucast b OR ucast a) :: u8)"
  "ucast ((ucast (u :: u16) :: u32) AND b OR a) = (ucast (u AND ucast b OR ucast a) :: u8)"
  "ucast (ucast (u :: u16) :: u32) = (ucast u :: u8)"
  by (auto intro!: bit_word_eqI simp: bit_simps dest: bit_u16)

lemma strncpy16to8_loop_step:
  "d \<le> length dst \<Longrightarrow> strncpy16to8_loop (Suc n) (u # s) (d, dst) =
     bindE (store (utf8_bytes u) (d, dst)) (strncpy16to8_loop n s)"
  unfolding strncpy16to8_loop.simps Let_def ucast_bits ucast_u16_cases utf8_bytes_def
  by (auto intro!: arg_cong2 [where f = bindE])

lemma strncpy16to8_loop_eq:
  "d \<le> length dst \<Longrightarrow> strncpy16to8_loop (length s) s (d, dst) = store (utf8_encode s) (d, dst)"
proof (induction s arbitrary: d dst)
  case Nil
  then show ?case by (simp add: utf8_encode_def store_Nil)
next
  case (Cons u s)
  have "bindE (store (utf8_bytes u) (d, dst)) (strncpy16to8_loop (length s) s) =
      bindE (store (utf8_bytes u) (d, dst)) (store (utf8_encode s))"
  proof (cases "store (utf8_bytes u) (d, dst)")
    case (Ret p)
    obtain d' dst' where p: "p = (d', dst')" by fastforce
    then show ?thesis using Ret store_Ret [of "utf8_bytes u" d dst d' dst'] Cons.IH [of d' dst'] by simp
  qed simp_all
  then show ?case
    unfolding list.size add_0_right add_Suc_right strncpy16to8_loop_step [OF Cons.prems] store_append
    by (simp add: utf8_encode_def)
qed

section \<open>Lengths\<close>

lemma add_unit_length_eq: "add_unit_length u n = n + of_nat (length (utf8_bytes u))"
  unfolding add_unit_length_def Let_def ucast_u16_cases utf8_bytes_def by simp

lemma length_utf8_bytes: "length (utf8_bytes u) \<le> 3" "1 \<le> length (utf8_bytes u)"
  by (simp_all add: utf8_bytes_def)

lemma length_utf8_encode: "length (utf8_encode s) \<le> 3 * length s"
  by (induction s) (use length_utf8_bytes in \<open>auto simp: utf8_encode_def intro!: add_mono\<close>)

lemma fast_length:
  "strnlen16to8_fast (length s) s n = Ret (n + of_nat (length (utf8_encode s)))"
  by (induction s arbitrary: n) (simp_all add: utf8_encode_def add_unit_length_eq)

text \<open>The careful loop computes the same number, but saturates.\<close>

lemma slow_length:
  assumes "unat n + length (utf8_encode s) = t"
  shows "strnlen16to8_slow (length s) s n = Ret (if t < 2 ^ 64 - 1 then of_nat t else SIZE_MAX - 1)"
  using assms
proof (induction s arbitrary: n)
  case Nil
  have "n = SIZE_MAX \<longleftrightarrow> unat n = 2 ^ 64 - 1"
    by (simp add: word_unat_eq_iff SIZE_MAX_def unsigned_minus_1_eq_mask mask_eq_exp_minus_1)
  moreover have "unat n < 2 ^ 64" using unsigned_less [of n] by simp
  ultimately show ?case using Nil by (auto simp: utf8_encode_def)
next
  case (Cons u s)
  let ?k = "length (utf8_bytes u)"
  have k: "?k \<le> 3" "1 \<le> ?k" by (rule length_utf8_bytes)+
  have un: "unat (n + of_nat ?k) = (unat n + ?k) mod 2 ^ 64" using k by (simp add: unat_word_ariths unat_of_nat)
  have n: "unat n < 2 ^ 64" using unsigned_less [of n] by simp
  show ?case
  proof (cases "unat n + ?k < 2 ^ 64")
    case True
    then have "unat (n + of_nat ?k) = unat n + ?k" using un by simp
    then show ?thesis
      using Cons.IH [of "n + of_nat ?k"] Cons.prems
      by (simp add: add_unit_length_eq Let_def word_less_nat_alt utf8_encode_def)
  next
    case False
    then have "unat (n + of_nat ?k) = unat n + ?k - 2 ^ 64" using un n k by (simp add: mod_nat_eqI)
    then have "n + of_nat ?k < n" using n k False by (simp add: word_less_nat_alt)
    moreover have "\<not> t < 2 ^ 64 - 1" using False Cons.prems by (simp add: utf8_encode_def)
    ultimately show ?thesis by (simp add: add_unit_length_eq Let_def)
  qed
qed

lemma strnlen_eq:
  assumes "length s < 2 ^ 64"
  shows "strnlen16to8 s (of_nat (length s)) =
    Ret (of_nat (min (length (utf8_encode s)) (2 ^ 64 - 2)))"
proof (cases "(of_nat (length s) :: u64) < (SIZE_MAX - 1) div 3")
  case True
  have u: "unat (of_nat (length s) :: u64) = length s" using assms by (simp add: unat_of_nat)
  have "unat ((SIZE_MAX - 1) div 3) = (2 ^ 64 - 2) div 3" by (simp add: SIZE_MAX_def unat_div)
  then have "length s < (2 ^ 64 - 2) div 3" using True u by (simp add: word_less_nat_alt)
  then have "length (utf8_encode s) \<le> 2 ^ 64 - 2" using length_utf8_encode [of s] by simp
  then show ?thesis using True u by (simp add: strnlen16to8_def fast_length min_def)
next
  case False
  have u: "unat (of_nat (length s) :: u64) = length s" using assms by (simp add: unat_of_nat)
  have "(of_nat (2 ^ 64 - 2) :: u64) = SIZE_MAX - 1" by (simp add: SIZE_MAX_def)
  then show ?thesis using False u by (simp add: strnlen16to8_def slow_length min_def)
qed

section \<open>Bytes\<close>

text \<open>Facts on single bytes, by going through them all.\<close>

lemma all_bytes:
  assumes "list_all (\<lambda>n. P (of_nat n :: u8)) [0..<256]"
  shows "P b"
proof -
  have "unat b < 256" using unsigned_less [of b] by simp
  moreover have "\<forall>n \<in> {0..<256}. P (of_nat n)" using assms by (simp only: list_all_iff set_upt)
  ultimately have "P (of_nat (unat b))" by (simp del: of_nat_unat)
  then show ?thesis by simp
qed

lemma UTF8_SEQ_LENGTH_cases:
  "UTF8_SEQ_LENGTH b = (if b < 0xc0 then 1 else if b < 0xe0 then 2 else if b < 0xf0 then 3 else 4)"
  by (rule all_bytes [of "\<lambda>b. UTF8_SEQ_LENGTH b = (if b < 0xc0 then 1 else if b < 0xe0 then 2 else if b < 0xf0 then 3 else 4)"])
    code_simp

lemma extension_byte_iff: "extension_byte b \<longleftrightarrow> 0x80 \<le> b \<and> b < 0xc0"
  by (rule all_bytes [of "\<lambda>b. extension_byte b \<longleftrightarrow> 0x80 \<le> b \<and> b < 0xc0"]) code_simp

text \<open>The bits of a value that the leading byte of a sequence holds.\<close>

definition leader_bits :: "nat \<Rightarrow> nat" where
  "leader_bits l = (if l = 1 then 7 else 7 - l)"

lemma leader_bound:
  "\<not> extension_byte b \<Longrightarrow>
   scast b AND leaderMask ! (UTF8_SEQ_LENGTH b - 1) < (2 ^ leader_bits (UTF8_SEQ_LENGTH b) :: u32)"
  by (rule all_bytes [of "\<lambda>b. \<not> extension_byte b \<longrightarrow>
    scast b AND leaderMask ! (UTF8_SEQ_LENGTH b - 1) < (2 ^ leader_bits (UTF8_SEQ_LENGTH b) :: u32)", THEN mp]) code_simp

lemma lead3: "n < 16 \<Longrightarrow> UTF8_SEQ_LENGTH (ucast ((of_nat n :: u16) OR 0xe0)) = 3 \<and>
    \<not> extension_byte (ucast ((of_nat n :: u16) OR 0xe0)) \<and> ucast ((of_nat n :: u16) OR 0xe0) \<noteq> (0 :: u8) \<and>
    scast (ucast ((of_nat n :: u16) OR 0xe0) :: u8) AND 0x0f = (of_nat n :: u32)"
proof -
  have "list_all (\<lambda>n. UTF8_SEQ_LENGTH (ucast ((of_nat n :: u16) OR 0xe0)) = 3 \<and>
    \<not> extension_byte (ucast ((of_nat n :: u16) OR 0xe0)) \<and> ucast ((of_nat n :: u16) OR 0xe0) \<noteq> (0 :: u8) \<and>
    scast (ucast ((of_nat n :: u16) OR 0xe0) :: u8) AND 0x0f = (of_nat n :: u32)) [0..<16]" by code_simp
  then show "n < 16 \<Longrightarrow> ?thesis" by (simp only: list_all_iff) simp
qed

lemma lead2: "n < 32 \<Longrightarrow> UTF8_SEQ_LENGTH (ucast ((of_nat n :: u16) OR 0xc0)) = 2 \<and>
    \<not> extension_byte (ucast ((of_nat n :: u16) OR 0xc0)) \<and> ucast ((of_nat n :: u16) OR 0xc0) \<noteq> (0 :: u8) \<and>
    scast (ucast ((of_nat n :: u16) OR 0xc0) :: u8) AND 0x1f = (of_nat n :: u32)"
proof -
  have "list_all (\<lambda>n. UTF8_SEQ_LENGTH (ucast ((of_nat n :: u16) OR 0xc0)) = 2 \<and>
    \<not> extension_byte (ucast ((of_nat n :: u16) OR 0xc0)) \<and> ucast ((of_nat n :: u16) OR 0xc0) \<noteq> (0 :: u8) \<and>
    scast (ucast ((of_nat n :: u16) OR 0xc0) :: u8) AND 0x1f = (of_nat n :: u32)) [0..<32]" by code_simp
  then show "n < 32 \<Longrightarrow> ?thesis" by (simp only: list_all_iff) simp
qed

lemma lead1: "n < 128 \<Longrightarrow> UTF8_SEQ_LENGTH (of_nat n) = 1 \<and> \<not> extension_byte (of_nat n) \<and>
    scast (of_nat n :: u8) AND 0xffffffff = (of_nat n :: u32)"
proof -
  have "list_all (\<lambda>n. UTF8_SEQ_LENGTH (of_nat n) = 1 \<and> \<not> extension_byte (of_nat n) \<and>
    scast (of_nat n :: u8) AND 0xffffffff = (of_nat n :: u32)) [0..<128]" by code_simp
  then show "n < 128 \<Longrightarrow> ?thesis" by (simp only: list_all_iff) simp
qed

lemma trail: "n < 64 \<Longrightarrow> extension_byte (ucast ((of_nat n :: u16) OR 0x80)) \<and> ucast ((of_nat n :: u16) OR 0x80) \<noteq> (0 :: u8) \<and>
    0x3f AND ucast (ucast ((of_nat n :: u16) OR 0x80) :: u8) = (of_nat n :: u32)"
proof -
  have "list_all (\<lambda>n. extension_byte (ucast ((of_nat n :: u16) OR 0x80)) \<and> ucast ((of_nat n :: u16) OR 0x80) \<noteq> (0 :: u8) \<and>
    0x3f AND ucast (ucast ((of_nat n :: u16) OR 0x80) :: u8) = (of_nat n :: u32)) [0..<64]" by code_simp
  then show "n < 64 \<Longrightarrow> ?thesis" by (simp only: list_all_iff) simp
qed

section \<open>Decoding what was encoded\<close>

lemma decode_bits:
  "push_bit 6 (ucast (drop_bit (k + 6) u)) OR ucast (drop_bit k u AND 0x3f) = (ucast (drop_bit k (u :: u16)) :: u32)"
proof (rule bit_word_eqI)
  have m: "(0x3f :: u16) = mask 6" by (simp add: mask_eq_exp_minus_1)
  fix n assume "n < LENGTH(32)"
  consider "n < 6" | "6 \<le> n" by linarith
  then show "bit (push_bit 6 (ucast (drop_bit (k + 6) u)) OR ucast (drop_bit k u AND 0x3f) :: u32) n =
      bit (ucast (drop_bit k u) :: u32) n"
    unfolding m using \<open>n < LENGTH(32)\<close> by cases (auto simp: bit_simps)
qed

lemmas decode_bits_0 = decode_bits [of 0, unfolded add_0_left drop_bit_0 id_apply]
lemmas decode_bits_6 = decode_bits [of 6, simplified]

lemma parts_small:
  "unat (drop_bit 12 (u :: u16)) < 16" "u \<le> 0x07ff \<Longrightarrow> unat (drop_bit 6 u) < 32"
  "unat (x AND 0x3f :: u16) < 64"
proof -
  have "unat u < 2 ^ 16" using unsigned_less [of u] by simp
  then show "unat (drop_bit 12 u) < 16" unfolding unat_drop_bit_eq by (simp add: drop_bit_eq_div)
  show "unat (drop_bit 6 u) < 32" if "u \<le> 0x07ff"
    using that unfolding unat_drop_bit_eq word_le_nat_alt by (simp add: drop_bit_eq_div)
  have m: "(0x3f :: u16) = mask 6" by (simp add: mask_eq_exp_minus_1)
  show "unat (x AND 0x3f :: u16) < 64"
    unfolding m take_bit_eq_mask [symmetric] unsigned_take_bit_eq by (simp add: take_bit_eq_mod)
qed

lemmas leads = lead3 [OF parts_small(1), unfolded of_nat_unat ucast_id]
  lead2 [OF parts_small(2), unfolded of_nat_unat ucast_id]
  trail [OF parts_small(3), unfolded of_nat_unat ucast_id]

lemma one_byte:
  assumes "u \<le> 0x7f" "u \<noteq> 0"
  shows "UTF8_SEQ_LENGTH (ucast u) = 1 \<and> \<not> extension_byte (ucast u) \<and>
    scast (ucast u :: u8) AND 0xffffffff = (ucast u :: u32) \<and> (ucast u :: u8) \<noteq> 0 \<and> utf8_bytes u = [ucast u]"
proof -
  have u: "unat u < 128" using assms(1) by (simp add: word_le_nat_alt)
  have "(ucast u :: u8) \<noteq> 0"
  proof
    assume "(ucast u :: u8) = 0"
    then have "unat (ucast u :: u8) = 0" by simp
    then have "take_bit 8 (unat u) = 0" by (simp add: unsigned_ucast_eq)
    then show False using u assms(2) by (simp add: take_bit_nat_eq_self unat_eq_zero)
  qed
  moreover have "utf8_bytes u = [ucast u]" using u assms(2) by (auto simp: utf8_bytes_def word_less_nat_alt)
  ultimately show ?thesis using lead1 [OF u] by simp
qed

lemma decode_encode: "getUtf32FromUtf8 (utf8_bytes u @ rest) = Ret (ucast u, rest)"
proof -
  consider (three) "u > 0x07ff" | (two) "u \<le> 0x07ff" "u > 0x7f \<or> u = 0" | (one) "u \<le> 0x7f" "u \<noteq> 0"
    by fastforce
  then show ?thesis
  proof cases
    case three
    then show ?thesis
      using leads(1) [of u] leads(3) [of "drop_bit 6 u"] leads(3) [of u] decode_bits_6 [of u] decode_bits_0 [of u]
      by (simp add: utf8_bytes_def leaderMask_def Let_def numeral_2_eq_2)
  next
    case two
    then show ?thesis
      using leads(2) [of u] leads(3) [of u] decode_bits_0 [of u]
      by (simp add: utf8_bytes_def leaderMask_def Let_def)
  next
    case one
    show ?thesis using one_byte [OF one] by (simp add: leaderMask_def Let_def)
  qed
qed

section \<open>Decoding a string\<close>

text \<open>The loop condition of \<open>strcpy8to16\<close>.\<close>

definition at_char :: "u8 list \<Rightarrow> bool exec" where
  "at_char p = (case p of [] \<Rightarrow> Fault | ch # _ \<Rightarrow> Ret (ch \<noteq> 0))"

lemma strcpy8to16_at_char:
  "strcpy8to16 dst s = bindE (strcpy8to16_loop at_char s (0, dst)) (\<lambda>(d, dst). Ret (dst, of_nat d))"
  by (simp add: strcpy8to16_def at_char_def [abs_def])

lemma loop_step:
  assumes "continue s = Ret True" "getUtf32FromUtf8 s = Ret (ret, rest)"
  shows "strcpy8to16_loop continue s p = bindE (store (utf16_units ret) p) (strcpy8to16_loop continue rest)"
proof -
  obtain d dst where p: "p = (d, dst)" by fastforce
  show ?thesis
    unfolding p by (subst strcpy8to16_loop.simps) (auto simp: assms split: exec.splits)
qed

lemma loop_stop: "continue s = Ret False \<Longrightarrow> strcpy8to16_loop continue s p = Ret p"
  by (cases p) (simp add: strcpy8to16_loop.simps)

lemma utf8_bytes_Cons:
  obtains b bs where "utf8_bytes u = b # bs" "b \<noteq> 0" "\<not> extension_byte b" "\<forall>c \<in> set bs. extension_byte c \<and> c \<noteq> 0"
    "length bs = UTF8_SEQ_LENGTH b - 1" "UTF8_SEQ_LENGTH b < 4"
proof -
  consider (three) "u > 0x07ff" | (two) "u \<le> 0x07ff" "u > 0x7f \<or> u = 0" | (one) "u \<le> 0x7f" "u \<noteq> 0"
    by fastforce
  then show ?thesis
  proof cases
    case three
    then show ?thesis
      using that [of "ucast (drop_bit 12 u OR 0xe0)"] leads(1) [of u] leads(3) [of "drop_bit 6 u"] leads(3) [of u]
      by (simp add: utf8_bytes_def)
  next
    case two
    then have "utf8_bytes u = [ucast (drop_bit 6 u OR 0xc0), ucast (u AND 0x3f OR 0x80)]"
      by (auto simp: utf8_bytes_def)
    then show ?thesis
      using that [of "ucast (drop_bit 6 u OR 0xc0)"] leads(2) [OF two(1)] leads(3) [of u] by simp
  next
    case one
    note o = one_byte [OF one]
    then show ?thesis using that [of "ucast u" "[]"] by simp
  qed
qed

lemma utf16_units_ucast: "utf16_units (ucast (u :: u16)) = [u]"
proof -
  have "unat u < 2 ^ 16" using unsigned_less [of u] by simp
  then have "(ucast u :: u32) \<le> 0xffff" by (simp add: word_le_nat_alt unat_ucast_u16)
  moreover have "(ucast (ucast u :: u32) :: u16) = u"
    by (rule bit_word_eqI) (auto simp: bit_simps dest: bit_u16)
  ultimately show ?thesis by (simp add: utf16_units_def)
qed

lemma copy_encoded:
  "d \<le> length dst \<Longrightarrow> strcpy8to16_loop at_char (utf8_encode s @ 0 # j) (d, dst) = store s (d, dst)"
proof (induction s arbitrary: d dst)
  case Nil
  then show ?case by (simp add: utf8_encode_def loop_stop at_char_def store_Nil)
next
  case (Cons u s)
  obtain b bs where b: "utf8_bytes u = b # bs" "b \<noteq> 0" by (rule utf8_bytes_Cons [of u])
  have "at_char (utf8_encode (u # s) @ 0 # j) = Ret True"
    using b by (simp add: at_char_def utf8_encode_def)
  moreover have "getUtf32FromUtf8 (utf8_encode (u # s) @ 0 # j) = Ret (ucast u, utf8_encode s @ 0 # j)"
    using decode_encode [of u "utf8_encode s @ 0 # j"] by (simp add: utf8_encode_def)
  ultimately have "strcpy8to16_loop at_char (utf8_encode (u # s) @ 0 # j) (d, dst) =
      bindE (store [u] (d, dst)) (strcpy8to16_loop at_char (utf8_encode s @ 0 # j))"
    using loop_step utf16_units_ucast by metis
  also have "\<dots> = bindE (store [u] (d, dst)) (store s)"
  proof (cases "store [u] (d, dst)")
    case (Ret p)
    obtain d' dst' where p: "p = (d', dst')" by fastforce
    then show ?thesis using Ret store_Ret [of "[u]" d dst d' dst'] Cons.IH [of d' dst'] by simp
  qed simp_all
  finally show ?case by (simp add: store_append)
qed

lemma strlen_extension:
  assumes "\<forall>c \<in> set bs. extension_byte c \<and> c \<noteq> 0" "int (length bs) \<le> e"
  shows "strlen8to16_loop (bs @ s) n e = strlen8to16_loop s n (e - int (length bs))"
  using assms by (induction bs arbitrary: e) (auto simp: Let_def algebra_simps)

lemma strlen_encoded: "strlen8to16_loop (utf8_encode s @ 0 # j) n e = Ret (n + of_nat (length s))"
proof (induction s arbitrary: n e)
  case Nil
  then show ?case by (simp add: utf8_encode_def)
next
  case (Cons u s)
  obtain b bs where b: "utf8_bytes u = b # bs" "b \<noteq> 0" "\<not> extension_byte b"
    "\<forall>c \<in> set bs. extension_byte c \<and> c \<noteq> 0" "length bs = UTF8_SEQ_LENGTH b - 1" "UTF8_SEQ_LENGTH b < 4"
    by (rule utf8_bytes_Cons [of u])
  have pos: "1 \<le> UTF8_SEQ_LENGTH b" by (simp add: UTF8_SEQ_LENGTH_cases)
  have "strlen8to16_loop (utf8_encode (u # s) @ 0 # j) n e =
      strlen8to16_loop (bs @ utf8_encode s @ 0 # j) (n + 1) (int (UTF8_SEQ_LENGTH b) - 1)"
    using b(1-3,6) by (simp add: utf8_encode_def Let_def)
  also have "\<dots> = strlen8to16_loop (utf8_encode s @ 0 # j) (n + 1) (int (UTF8_SEQ_LENGTH b) - 1 - int (length bs))"
    using b(4,5) pos by (intro strlen_extension) auto
  finally show ?case using Cons.IH by simp
qed

section \<open>Arbitrary bytes\<close>

text \<open>The number of units that \<open>strlen8to16\<close> counts.\<close>

fun unit_count :: "u8 list \<Rightarrow> int \<Rightarrow> nat" where
  "unit_count [] e = 0"
| "unit_count (b # s) e =
     (if extension_byte b then (if e - 1 < 0 then 1 else 0) + unit_count s (e - 1)
      else (if UTF8_SEQ_LENGTH b = 4 then 2 else 1) + unit_count s (int (UTF8_SEQ_LENGTH b) - 1))"

lemma strlen_count:
  "0 \<notin> set s \<Longrightarrow> strlen8to16_loop (s @ 0 # j) n e = Ret (n + of_nat (unit_count s e))"
  by (induction s arbitrary: n e) (auto simp: Let_def)

lemma unit_count_le: "unit_count s e \<le> 2 * length s"
  by (induction s arbitrary: e) (auto simp: le_SucI)

lemma unit_count_extension:
  assumes "\<forall>c \<in> set bs. extension_byte c" "int (length bs) \<le> e"
  shows "unit_count (bs @ s) e = unit_count s (e - int (length bs))"
  using assms by (induction bs arbitrary: e) (auto simp: algebra_simps)

lemma take_bit_self_less:
  assumes "take_bit m x = (x :: u32)"
  shows "unat x < 2 ^ m"
proof -
  have "unat x = take_bit m (unat x)" by (subst assms [symmetric]) (rule unsigned_take_bit_eq)
  then show ?thesis by (metis take_bit_nat_less_exp)
qed

lemma shift_in_less:
  assumes "unat ret < 2 ^ k"
  shows "unat (push_bit 6 ret OR (0x3f AND ucast (ch :: u8)) :: u32) < 2 ^ (k + 6)"
proof (rule take_bit_self_less)
  have "take_bit k ret = ret"
    using assms(1) by (simp add: word_unat_eq_iff unsigned_take_bit_eq take_bit_nat_eq_self)
  then have k: "m < k" if "bit ret m" for m using that by (metis bit_take_bit_iff)
  have m: "(0x3f :: u32) = mask 6" by (simp add: mask_eq_exp_minus_1)
  have "n < k + 6" if "6 \<le> n" "bit ret (n - 6)" for n using k [OF that(2)] that(1) by linarith
  then show "take_bit (k + 6) (push_bit 6 ret OR (0x3f AND ucast ch)) = push_bit 6 ret OR (0x3f AND ucast ch)"
    unfolding m by (intro bit_word_eqI) (auto simp: bit_simps)
qed

text \<open>
  What the loop over a sequence consumes: extension bytes, as many as expected or up to the
  first byte that is none; and a bound of the value.
\<close>

lemma getUtf32_rest_result:
  assumes "0 \<notin> set p" "unat ret < 2 ^ k" "k + 6 * n \<le> 32"
  shows "\<exists>ret' es q. getUtf32_rest n ret (p @ 0 # j) = Ret (ret', q @ 0 # j) \<and> p = es @ q \<and>
    (\<forall>c \<in> set es. extension_byte c) \<and> length es \<le> n \<and>
    (length es = n \<or> q = [] \<or> \<not> extension_byte (hd q)) \<and>
    (ret' = UTF16_REPLACEMENT_CHAR \<or> unat ret' < 2 ^ (k + 6 * n))"
  using assms
proof (induction n arbitrary: p ret k)
  case 0
  then show ?case by (intro exI [of _ ret] exI [of _ "[]"] exI [of _ p]) simp
next
  case (Suc n)
  show ?case
  proof (cases "p = [] \<or> \<not> extension_byte (hd p)")
    case True
    then have "getUtf32_rest (Suc n) ret (p @ 0 # j) = Ret (UTF16_REPLACEMENT_CHAR, p @ 0 # j)"
      by (cases p) auto
    then show ?thesis using True by (intro exI [of _ UTF16_REPLACEMENT_CHAR] exI [of _ "[]"] exI [of _ p]) simp
  next
    case False
    then obtain c p' where p: "p = c # p'" "extension_byte c" by (cases p) auto
    let ?r = "push_bit 6 ret OR (0x3f AND ucast c)"
    have "unat ?r < 2 ^ (k + 6)" using Suc.prems by (intro shift_in_less)
    then obtain ret' es q where
      "getUtf32_rest n ?r (p' @ 0 # j) = Ret (ret', q @ 0 # j)" "p' = es @ q" "\<forall>c \<in> set es. extension_byte c"
      "length es \<le> n" "length es = n \<or> q = [] \<or> \<not> extension_byte (hd q)"
      "ret' = UTF16_REPLACEMENT_CHAR \<or> unat ret' < 2 ^ (k + 6 + 6 * n)"
    proof -
      have "0 \<notin> set p'" "k + 6 + 6 * n \<le> 32" using Suc.prems p by auto
      from Suc.IH [OF this(1) \<open>unat ?r < 2 ^ (k + 6)\<close> this(2)] show ?thesis using that by blast
    qed
    moreover from this(1) have "getUtf32_rest (Suc n) ret (p @ 0 # j) = Ret (ret', q @ 0 # j)"
      using p Suc.prems(1) by auto
    ultimately show ?thesis
      using p by (intro exI [of _ ret'] exI [of _ "c # es"] exI [of _ q]) (auto simp: algebra_simps)
  qed
qed

lemma units_small: "ret = UTF16_REPLACEMENT_CHAR \<or> unat ret < 2 ^ 16 \<Longrightarrow> length (utf16_units ret) = 1"
  by (auto simp: utf16_units_def UTF16_REPLACEMENT_CHAR_def word_le_nat_alt)

lemma units_two: "length (utf16_units ret) \<le> 2"
  by (simp add: utf16_units_def)

text \<open>One round of the copying loop writes no more units than the count drops by.\<close>

lemma decode_round:
  assumes "0 \<notin> set (b # p)" "\<not> extension_byte b \<or> e \<le> 0"
  shows "\<exists>ret q e'. getUtf32FromUtf8 (b # p @ 0 # j) = Ret (ret, q @ 0 # j) \<and>
    set q \<subseteq> set p \<and> length q \<le> length p \<and> (q = [] \<or> \<not> extension_byte (hd q) \<or> e' \<le> 0) \<and>
    length (utf16_units ret) + unit_count q e' \<le> unit_count (b # p) e"
proof (cases "extension_byte b")
  case True
  then show ?thesis
    using assms by (intro exI [of _ UTF16_REPLACEMENT_CHAR] exI [of _ p] exI [of _ "e - 1"])
      (simp add: units_small)
next
  case False
  let ?L = "UTF8_SEQ_LENGTH b"
  let ?r = "scast b AND leaderMask ! (?L - 1) :: u32"
  have L: "1 \<le> ?L" "?L \<le> 4" by (simp_all add: UTF8_SEQ_LENGTH_cases)
  have "unat ?r < 2 ^ (leader_bits ?L)"
  proof -
    have "unat (2 ^ (leader_bits ?L) :: u32) = 2 ^ (leader_bits ?L)" 
    proof -
      consider "?L = 1" | "?L = 2" | "?L = 3" | "?L = 4" using L by linarith
      then show ?thesis by cases (simp_all add: leader_bits_def)
    qed
    then show ?thesis using leader_bound [OF False] by (simp add: word_less_nat_alt)
  qed
  moreover have "leader_bits ?L + 6 * (?L - 1) \<le> 32" using L by (auto simp: leader_bits_def)
  ultimately obtain ret es q where r: "getUtf32_rest (?L - 1) ?r (p @ 0 # j) = Ret (ret, q @ 0 # j)" "p = es @ q"
    "\<forall>c \<in> set es. extension_byte c" "length es \<le> ?L - 1" "length es = ?L - 1 \<or> q = [] \<or> \<not> extension_byte (hd q)"
    "ret = UTF16_REPLACEMENT_CHAR \<or> unat ret < 2 ^ (leader_bits ?L + 6 * (?L - 1))"
    using getUtf32_rest_result [of p ?r "leader_bits ?L" "?L - 1" j] assms(1) by (metis list.set_intros(2))
  have "length (utf16_units ret) \<le> (if ?L = 4 then 2 else 1)"
  proof (cases "?L = 4")
    case False
    then have "leader_bits ?L + 6 * (?L - 1) \<le> 16" using L by (auto simp: leader_bits_def)
    then have "(2::nat) ^ (leader_bits ?L + 6 * (?L - 1)) \<le> 2 ^ 16" by (intro power_increasing) simp_all
    then show ?thesis using r(6) units_small [of ret] False by auto
  qed (simp add: units_two)
  moreover have "unit_count p (int ?L - 1) = unit_count q (int ?L - 1 - int (length es))"
    unfolding r(2) using r(3,4) L by (intro unit_count_extension) auto
  ultimately have "length (utf16_units ret) + unit_count q (int ?L - 1 - int (length es)) \<le> unit_count (b # p) e"
    using False by simp
  then show ?thesis
    using r(1,2,5) False assms(1) L
    by (intro exI [of _ ret] exI [of _ q] exI [of _ "int ?L - 1 - int (length es)"]) (auto simp: Let_def)
qed

lemma copy_fits:
  assumes "0 \<notin> set s" "d + unit_count s e \<le> length dst" "s = [] \<or> \<not> extension_byte (hd s) \<or> e \<le> 0"
  shows "\<exists>d' dst'. strcpy8to16_loop at_char (s @ 0 # j) (d, dst) = Ret (d', dst') \<and>
    length dst' = length dst \<and> d' \<le> d + unit_count s e"
  using assms
proof (induction "length s" arbitrary: s d dst e rule: less_induct)
  case less
  show ?case
  proof (cases s)
    case Nil
    then show ?thesis by (simp add: loop_stop at_char_def)
  next
    case (Cons b p)
    obtain ret q e' where r: "getUtf32FromUtf8 (b # p @ 0 # j) = Ret (ret, q @ 0 # j)"
      "set q \<subseteq> set p" "length q \<le> length p" "q = [] \<or> \<not> extension_byte (hd q) \<or> e' \<le> 0"
      "length (utf16_units ret) + unit_count q e' \<le> unit_count s e"
      using decode_round [of b p e j] less.prems Cons by auto
    let ?d = "d + length (utf16_units ret)"
    have "?d \<le> length dst" using r(5) less.prems(2) by linarith
    then obtain dst1 where s1: "store (utf16_units ret) (d, dst) = Ret (?d, dst1)" "length dst1 = length dst"
      by (simp add: store_fits)
    have "strcpy8to16_loop at_char (s @ 0 # j) (d, dst) = strcpy8to16_loop at_char (q @ 0 # j) (?d, dst1)"
      using loop_step [of at_char "s @ 0 # j" ret "q @ 0 # j"] r(1) s1 less.prems(1) Cons by (simp add: at_char_def)
    moreover obtain d' dst' where "strcpy8to16_loop at_char (q @ 0 # j) (?d, dst1) = Ret (d', dst')"
      "length dst' = length dst1" "d' \<le> ?d + unit_count q e'"
      using less.hyps [of q ?d e' dst1] r less.prems Cons s1(2) by auto
    ultimately show ?thesis using r(5) s1(2) by auto
  qed
qed

end
