(* ===== verification/Utf_Props.thy ===== *)
theory Utf_Props
  imports Utf_Correct
begin

text \<open>What the UTF-16 and UTF-8 conversions guarantee.\<close>

text \<open>A \<open>malloc\<close> that succeeds, for blocks of bytes and of 16-bit units.\<close>

definition gives_blocks :: "(u64 \<Rightarrow> 'a list option) \<Rightarrow> nat \<Rightarrow> bool" where
  "gives_blocks malloc unit \<longleftrightarrow> (\<forall>n. \<exists>b. malloc n = Some b \<and> length b = unat n div unit)"

definition zeroed :: "nat \<Rightarrow> u64 \<Rightarrow> 'a::zero list option" where
  "zeroed unit n = Some (replicate (unat n div unit) 0)"

lemma zeroed_gives: "gives_blocks (zeroed unit) unit"
  by (simp add: gives_blocks_def zeroed_def)

lemma strncpy16to8_eq:
  assumes "length dst = Suc (length (utf8_encode s))" "length s < 2 ^ 64"
  shows "strncpy16to8 dst s (of_nat (length s)) = Ret (utf8_encode s @ [0])"
proof -
  have "unat (of_nat (length s) :: u64) = length s" using assms(2) by (simp add: unat_of_nat)
  then show ?thesis
    using assms(1) by (simp add: strncpy16to8_def strncpy16to8_loop_eq store_fits)
qed

lemma dup_encode:
  assumes "gives_blocks malloc 1" "length s < 2 ^ 62"
  shows "strndup16to8 malloc (Some s) (of_nat (length s)) = Ret (Some (utf8_encode s @ [0]))"
proof -
  let ?n = "length (utf8_encode s)"
  have n: "?n < 2 ^ 64 - 2" using length_utf8_encode [of s] assms(2) by simp
  have len: "strnlen16to8 s (of_nat (length s)) = Ret (of_nat ?n)"
    using strnlen_eq [of s] assms(2) n by (simp add: min_def)
  have u: "unat (of_nat ?n :: u64) = ?n" using n by (simp add: unat_of_nat)
  have "unat (SIZE_MAX - 1) = 2 ^ 64 - 2" by (simp add: SIZE_MAX_def)
  then have small: "\<not> SIZE_MAX - 1 \<le> (of_nat ?n :: u64)" using n u by (simp add: word_le_nat_alt)
  have "unat (of_nat (Suc ?n) :: u64) = Suc ?n" using n by (simp add: unat_of_nat del: of_nat_Suc)
  then have "unat (of_nat ?n + 1 :: u64) = Suc ?n" by (simp add: add.commute)
  then obtain b where b: "malloc (of_nat ?n + 1) = Some b" "length b = Suc ?n"
    using assms(1) by (metis gives_blocks_def div_by_1)
  then show ?thesis
    using len small strncpy16to8_eq [OF b(2)] assms(2) by (simp add: strndup16to8_def)
qed

lemma no_overflow_check:
  assumes "k < 2 ^ 63"
  shows "\<not> ((of_nat k :: u64) \<noteq> 0 \<and> SIZE_MAX div of_nat k < 2)" "unat (2 * of_nat k :: u64) = 2 * k"
proof -
  have u: "unat (of_nat k :: u64) = k" using assms by (simp add: unat_of_nat)
  have "2 * k \<le> 2 ^ 64 - 1" using assms by simp
  then have "2 \<le> (2 ^ 64 - 1) div k" if "k \<noteq> 0" using that by (simp add: less_eq_div_iff_mult_less_eq)
  moreover have "unat (SIZE_MAX div of_nat k) = (2 ^ 64 - 1) div k" by (simp add: SIZE_MAX_def unat_div u unsigned_minus_1_eq_mask mask_eq_exp_minus_1)
  ultimately show "\<not> ((of_nat k :: u64) \<noteq> 0 \<and> SIZE_MAX div of_nat k < 2)"
    by (cases "k = 0") (auto simp: word_less_nat_alt)
  show "unat (2 * of_nat k :: u64) = 2 * k" using assms u by (simp add: unat_word_ariths)
qed

text \<open>
  C24.  Round trip: every UTF-16 string, also one with embedded zeros or lone surrogates, is
  converted to UTF-8 and back to itself; both buffers have exactly the size that is needed.
\<close>

theorem utf16_roundtrip:
  assumes "gives_blocks malloc 1" "gives_blocks malloc16 2" "length s < 2 ^ 62"
  shows "\<exists>bytes. strndup16to8 malloc (Some s) (of_nat (length s)) = Ret (Some bytes) \<and>
    strdup8to16 malloc16 (Some bytes) = Ret (Some (s, of_nat (length s)))"
proof -
  have "strlen8to16 (utf8_encode s @ [0]) = Ret (of_nat (length s))"
    using strlen_encoded [of s "[]" 0 0] by (simp add: strlen8to16_def)
  moreover have k: "length s < 2 ^ 63" using assms(3) by simp
  obtain b where b: "malloc16 (2 * of_nat (length s)) = Some b" "length b = length s"
    using assms(2) no_overflow_check(2) [OF k] by (metis gives_blocks_def nonzero_mult_div_cancel_left zero_neq_numeral)
  have "strcpy8to16 b (utf8_encode s @ [0]) = Ret (s, of_nat (length s))"
    using copy_encoded [of 0 b s "[]"] b(2) by (simp add: strcpy8to16_at_char store_fits)
  ultimately have "strdup8to16 malloc16 (Some (utf8_encode s @ [0])) = Ret (Some (s, of_nat (length s)))"
    using no_overflow_check(1) [OF k] b(1) by (simp add: strdup8to16_def del: not_less)
  then show ?thesis using dup_encode [OF assms(1,3)] by blast
qed

theorem utf16_roundtrip_witness:
  "\<exists>bytes. strndup16to8 (zeroed 1) (Some [0x61, 0, 0x20ac, 0xd800]) 4 = Ret (Some bytes) \<and>
    strdup8to16 (zeroed 2) (Some bytes) = Ret (Some ([0x61, 0, 0x20ac, 0xd800], 4))"
  using utf16_roundtrip [OF zeroed_gives zeroed_gives, of "[0x61, 0, 0x20ac, 0xd800]"] by simp



text \<open>
  The fast and the careful loop of \<open>strnlen16to8\<close> agree on one specification: the number of
  bytes that \<open>strncpy16to8\<close> writes before the terminator, saturating at \<open>SIZE_MAX - 1\<close>, so that a
  caller who adds one never wraps around; and \<open>strncpy16to8\<close> fills such a buffer.
\<close>

theorem strnlen16to8_correct:
  assumes "length s < 2 ^ 64"
  shows "strnlen16to8 s (of_nat (length s)) = Ret (of_nat (min (length (utf8_encode s)) (2 ^ 64 - 2))) \<and>
    (\<forall>dst. length dst = Suc (length (utf8_encode s)) \<longrightarrow>
       strncpy16to8 dst s (of_nat (length s)) = Ret (utf8_encode s @ [0])) \<and>
    (\<forall>dst. length dst \<le> length (utf8_encode s) \<longrightarrow> strncpy16to8 dst s (of_nat (length s)) = Fault)"
proof -
  have u: "unat (of_nat (length s) :: u64) = length s" using assms by (simp add: unat_of_nat)
  have "strncpy16to8 dst s (of_nat (length s)) = Fault" if "length dst \<le> length (utf8_encode s)" for dst
  proof (cases "length dst = length (utf8_encode s)")
    case True
    then show ?thesis by (simp add: strncpy16to8_def u strncpy16to8_loop_eq store_fits store_overrun)
  next
    case False
    then show ?thesis using that by (simp add: strncpy16to8_def u strncpy16to8_loop_eq store_overrun)
  qed
  then show ?thesis using strnlen_eq [OF assms] strncpy16to8_eq [OF _ assms] by blast
qed

theorem strnlen16to8_correct_witness:
  "strnlen16to8 [0x41, 0, 0x20ac] 3 = Ret 6 \<and> strncpy16to8 (replicate 7 0) [0x41, 0, 0x20ac] 3 = Ret [0x41, 0xc0, 0x80, 0xe2, 0x82, 0xac, 0] \<and>
   strncpy16to8 (replicate 6 0) [0x41, 0, 0x20ac] 3 = Fault"
proof -
  have e: "utf8_encode [0x41, 0, 0x20ac] = [0x41, 0xc0, 0x80, 0xe2, 0x82, 0xac]" by code_simp
  show ?thesis using strnlen16to8_correct [of "[0x41, 0, 0x20ac]", unfolded e] by simp
qed

lemma strcpylen_stuck:
  "getUtf32FromUtf8 (0 # rest) = Ret (0, 0 # rest)"
  by (simp add: extension_byte_def UTF8_SEQ_LENGTH_cases leaderMask_def Let_def)

lemma loop_at_zero:
  assumes "continue (0 # rest) = Ret True" "d \<le> length dst"
  shows "strcpy8to16_loop continue (0 # rest) (d, dst) = Fault"
  using assms(2)
proof (induction "length dst - d" arbitrary: d dst)
  case 0
  then show ?case
    using loop_step [where continue = continue, OF assms(1) strcpylen_stuck, of "(d, dst)"] by (simp add: utf16_units_def store_overrun)
next
  case (Suc k)
  then have "d + 1 \<le> length dst" by simp
  then show ?case
    using loop_step [where continue = continue, OF assms(1) strcpylen_stuck, of "(d, dst)"] Suc.hyps(1) [of _ "Suc d"] Suc.hyps(2)
    by (simp add: utf16_units_def store_fits)
qed

text \<open>
  A defect: when a zero byte lies inside the given length, \<open>strcpylen8to16\<close> never leaves its
  loop, since the decoder does not advance over it; it runs past every destination buffer.
\<close>

theorem strcpylen8to16_overruns:
  assumes "0 \<notin> set s" "int (length s) < sint len"
  shows "strcpylen8to16 dst (s @ 0 # rest) len = Fault"
proof -
  let ?c = "\<lambda>p :: u8 list. Ret (int (length (s @ 0 # rest) - length p) < sint len)"
  have "strcpy8to16_loop ?c (q @ 0 # rest) (d, dst) = Fault"
    if "0 \<notin> set q" "length q \<le> length s" "d \<le> length dst" for q d dst
    using that
  proof (induction "length q" arbitrary: q d dst rule: less_induct)
    case less
    have on: "?c (q @ 0 # rest) = Ret True" using assms(2) less.prems(2) by simp
    show ?case
    proof (cases q)
      case Nil
      then show ?thesis using loop_at_zero [of ?c rest d dst] on less.prems(3) by simp
    next
      case (Cons b p)
      obtain ret r where r: "getUtf32FromUtf8 (q @ 0 # rest) = Ret (ret, r @ 0 # rest)" "0 \<notin> set r" "length r \<le> length p"
      proof -
        have "0 \<notin> set (b # p)" using less.prems(1) Cons by simp
        from decode_round [OF this, of 0 rest] show ?thesis
          using that less.prems(1) Cons by auto
      qed
      show ?thesis
      proof (cases "store (utf16_units ret) (d, dst)")
        case (Ret x)
        obtain d' dst' where x: "x = (d', dst')" by fastforce
        have "d' \<le> length dst'" using store_Ret [of "utf16_units ret" d dst d' dst'] Ret x by simp
        then show ?thesis
          using loop_step [where continue = ?c, OF on r(1), of "(d, dst)"] Ret x less.hyps [of r d' dst'] r(2,3) Cons less.prems(2) by simp
      qed (use loop_step [where continue = ?c, OF on r(1), of "(d, dst)"] in \<open>auto simp: store_def deref_def split: option.splits\<close>)
    qed
  qed
  from this [of s 0 dst] assms(1) show ?thesis by (simp add: strcpylen8to16_def)
qed

theorem strcpylen8to16_overruns_witness:
  "strcpylen8to16 (replicate 100 0) [0x41, 0, 0x42, 0] 3 = Fault"
  using strcpylen8to16_overruns [of "[0x41]" 3 "replicate 100 0" "[0x42, 0]"] by simp

end
