(* ===== verification/Record_Stream.thy ===== *)
theory Record_Stream
  imports C_Prelude
begin

text \<open>
  The record reader of \<open>cutils/record_stream.c\<close>: records with a four-byte length prefix, read
  through a buffer from a descriptor that delivers the bytes in pieces of any size.  Pointers
  into the buffer are offsets.  What \<open>read\<close> returns is an argument of the operation.
\<close>

section \<open>The reader\<close>

definition HEADER_SIZE :: nat where
  "HEADER_SIZE = 4"

record RecordStream =
  maxRecordLen :: u64
  buffer :: "u8 list"
  unconsumed :: nat
  read_end :: nat
  buffer_end :: nat

text \<open>The result of \<open>read\<close>: some bytes, the end of the stream, or an error.\<close>

datatype read_result = Read "u8 list" | Read_eof | Read_error

text \<open>
  \<open>malloc\<close> gives the initial contents of a block, or \<open>None\<close>, which the code does not check: the
  buffer then has no bytes.  A failed \<open>calloc\<close> is dereferenced.
\<close>

definition record_stream_new :: "bool \<Rightarrow> (u64 \<Rightarrow> u8 list option) \<Rightarrow> u64 \<Rightarrow> RecordStream exec" where
  "record_stream_new calloc_ok malloc maxLen =
     (if \<not> maxLen \<le> 0xffff then AssertFail
      else if \<not> calloc_ok then Fault
      else Ret \<lparr>maxRecordLen = maxLen,
                buffer = (case malloc (maxLen + of_nat HEADER_SIZE) of None \<Rightarrow> [] | Some b \<Rightarrow> b),
                unconsumed = 0, read_end = 0, buffer_end = unat maxLen + HEADER_SIZE\<rparr>)"

text \<open>\<open>ntohl\<close> on a little-endian machine swaps the bytes.\<close>

definition ntohl :: "u32 \<Rightarrow> u32" where
  "ntohl w = le_word32 (rev (le_bytes32 w))"

definition getEndOfRecord :: "u8 list \<Rightarrow> nat \<Rightarrow> nat \<Rightarrow> nat option exec" where
  "getEndOfRecord buf p_begin p_end =
     (if p_end < p_begin + HEADER_SIZE then Ret None
      else
        bindE (deref (mem_read p_begin 4 buf)) (\<lambda>bs.
        let len = unat (ntohl (le_word32 bs));
            p_ret = p_begin + HEADER_SIZE + len
        in if p_end < p_ret then Ret None else Ret (Some p_ret)))"

text \<open>The start of the record and its length, when the buffer holds a whole one.\<close>

definition getNextRecord :: "RecordStream \<Rightarrow> ((nat \<times> nat) option \<times> RecordStream) exec" where
  "getNextRecord rs =
     bindE (getEndOfRecord (buffer rs) (unconsumed rs) (read_end rs)) (\<lambda>record_end.
     case record_end of
       Some e \<Rightarrow>
         let record_start = unconsumed rs + HEADER_SIZE
         in Ret (Some (record_start, e - record_start), rs\<lparr>unconsumed := e\<rparr>)
     | None \<Rightarrow> Ret (None, rs))"

text \<open>
  What a call tells its caller: the returned number, \<open>*p_outRecord\<close> (\<open>None\<close> when it is not assigned,
  \<open>Some None\<close> for \<open>NULL\<close>), \<open>*p_outRecordLen\<close> when it is assigned, and whether \<open>errno\<close> is \<open>EAGAIN\<close>.
\<close>

record next_result =
  ret_code :: int
  outRecord :: "nat option option"
  outRecordLen :: "nat option"
  again :: bool

definition got_record :: "nat \<times> nat \<Rightarrow> next_result" where
  "got_record r = \<lparr>ret_code = 0, outRecord = Some (Some (fst r)), outRecordLen = Some (snd r), again = False\<rparr>"

text \<open>Moving the unconsumed bytes to the start of the buffer.\<close>

definition compact_buffer :: "RecordStream \<Rightarrow> RecordStream exec" where
  "compact_buffer rs =
     (if unconsumed rs \<noteq> 0 then
        let toMove = read_end rs - unconsumed rs in
        bindE (if toMove \<noteq> 0 then deref (memmove 0 (unconsumed rs) toMove (buffer rs)) else Ret (buffer rs)) (\<lambda>buf.
        Ret (rs\<lparr>buffer := buf, read_end := toMove, unconsumed := 0\<rparr>))
      else Ret rs)"

definition record_stream_get_next ::
    "(nat \<Rightarrow> read_result) \<Rightarrow> RecordStream \<Rightarrow> (next_result \<times> RecordStream) exec" where
  "record_stream_get_next read rs =
     bindE (getNextRecord rs) (\<lambda>(ret, rs).
     case ret of
       Some r \<Rightarrow> Ret (got_record r, rs)
     | None \<Rightarrow>
         if unconsumed rs = 0 \<and> read_end rs = buffer_end rs then AssertFail
         else
           bindE (compact_buffer rs) (\<lambda>rs.
           case read (buffer_end rs - read_end rs) of
             Read_eof \<Rightarrow> Ret (\<lparr>ret_code = 0, outRecord = Some None, outRecordLen = None, again = False\<rparr>, rs)
           | Read_error \<Rightarrow> Ret (\<lparr>ret_code = - 1, outRecord = Some None, outRecordLen = None, again = False\<rparr>, rs)
           | Read bs \<Rightarrow>
               bindE (deref (mem_write (read_end rs) bs (buffer rs))) (\<lambda>buf.
               bindE (getNextRecord (rs\<lparr>buffer := buf, read_end := read_end rs + length bs\<rparr>)) (\<lambda>(ret, rs).
               case ret of
                 None \<Rightarrow> Ret (\<lparr>ret_code = - 1, outRecord = None, outRecordLen = None, again = True\<rparr>, rs)
               | Some r \<Rightarrow> Ret (got_record r, rs)))))"

section \<open>Framing\<close>

text \<open>The bytes of a record on the stream, and the bytes that a reader has in its buffer.\<close>

definition frame :: "u8 list \<Rightarrow> u8 list" where
  "frame r = rev (le_bytes32 (of_nat (length r))) @ r"

definition pending :: "RecordStream \<Rightarrow> u8 list" where
  "pending rs = drop (unconsumed rs) (take (read_end rs) (buffer rs))"

definition stream_ok :: "RecordStream \<Rightarrow> bool" where
  "stream_ok rs \<longleftrightarrow> unconsumed rs \<le> read_end rs \<and> read_end rs \<le> buffer_end rs \<and>
     length (buffer rs) = buffer_end rs \<and> buffer_end rs = unat (maxRecordLen rs) + HEADER_SIZE \<and>
     maxRecordLen rs \<le> 0xffff"

text \<open>The record that a result points to.\<close>

definition record_bytes :: "next_result \<Rightarrow> RecordStream \<Rightarrow> u8 list option" where
  "record_bytes res rs =
     (case (outRecord res, outRecordLen res) of
        (Some (Some start), Some n) \<Rightarrow> mem_read start n (buffer rs)
      | _ \<Rightarrow> None)"

text \<open>A whole record at the front of the pending bytes, split off.\<close>

definition split_frame :: "u8 list \<Rightarrow> (u8 list \<times> u8 list) option" where
  "split_frame bs =
     (if length bs < 4 then None
      else let n = unat (le_word32 (rev (take 4 bs))) in
           if length bs < 4 + n then None else Some (take n (drop 4 bs), drop (4 + n) bs))"

lemma split_frame_frame:
  assumes "length r < 2 ^ 32"
  shows "split_frame (frame r @ rest) = Some (r, rest)"
proof -
  have "unat (of_nat (length r) :: u32) = length r" using assms by (simp add: unat_of_nat)
  then show ?thesis by (simp add: split_frame_def frame_def Let_def)
qed

lemma split_frame_short:
  assumes "length r < 2 ^ 32" "frame r @ rest = bs @ bs'" "length bs < length (frame r)"
  shows "split_frame bs = None"
proof (cases "length bs < 4")
  case False
  have "take 4 bs = take 4 (frame r @ rest)" using assms(2) False by simp
  then have "take 4 bs = rev (le_bytes32 (of_nat (length r)))" by (simp add: frame_def)
  moreover have "unat (of_nat (length r) :: u32) = length r" using assms(1) by (simp add: unat_of_nat)
  ultimately show ?thesis using assms(3) by (simp add: split_frame_def Let_def frame_def)
qed (simp add: split_frame_def)

lemma length_pending: "stream_ok rs \<Longrightarrow> length (pending rs) = read_end rs - unconsumed rs"
  by (simp add: pending_def stream_ok_def)

lemma ntohl_bytes: "length bs = 4 \<Longrightarrow> ntohl (le_word32 bs) = le_word32 (rev bs)"
  by (simp add: ntohl_def le_bytes32_word)

text \<open>\<open>getNextRecord\<close> takes the first record off the pending bytes.\<close>

lemma getNextRecord_split:
  assumes ok: "stream_ok rs"
  shows "(case split_frame (pending rs) of
      None \<Rightarrow> getNextRecord rs = Ret (None, rs)
    | Some (r, rest) \<Rightarrow> \<exists>start. getNextRecord rs = Ret (Some (start, length r), rs\<lparr>unconsumed := start + length r\<rparr>) \<and>
        mem_read start (length r) (buffer rs) = Some r \<and> stream_ok (rs\<lparr>unconsumed := start + length r\<rparr>) \<and>
        pending (rs\<lparr>unconsumed := start + length r\<rparr>) = rest)"
proof (cases "length (pending rs) < 4")
  case True
  then show ?thesis
    using length_pending [OF ok]
    by (auto simp: getNextRecord_def getEndOfRecord_def split_frame_def HEADER_SIZE_def)
next
  case False
  let ?u = "unconsumed rs"
  have bnd: "?u + 4 \<le> read_end rs" "read_end rs \<le> length (buffer rs)"
    using False length_pending [OF ok] ok by (auto simp: stream_ok_def)
  have hd4: "take 4 (pending rs) = take 4 (drop ?u (buffer rs))"
    using bnd by (simp add: pending_def drop_take min_def)
  let ?n = "unat (le_word32 (rev (take 4 (pending rs))))"
  have "length (take 4 (drop ?u (buffer rs))) = 4" using bnd by simp
  then have run: "getEndOfRecord (buffer rs) ?u (read_end rs) =
      Ret (if read_end rs < ?u + 4 + ?n then None else Some (?u + 4 + ?n))"
    using bnd by (simp add: getEndOfRecord_def HEADER_SIZE_def mem_read_Some ntohl_bytes hd4 Let_def)
  show ?thesis
  proof (cases "length (pending rs) < 4 + ?n")
    case True
    then have "read_end rs < ?u + 4 + ?n" using length_pending [OF ok] by linarith
    then show ?thesis using True False run by (simp add: getNextRecord_def split_frame_def Let_def)
  next
    case fits: False
    define n where "n = ?n"
    define rs' where "rs' = rs\<lparr>unconsumed := ?u + 4 + n\<rparr>"
    have e: "?u + 4 + n \<le> read_end rs" using fits length_pending [OF ok] bnd unfolding n_def by linarith
    have r: "take n (drop 4 (pending rs)) = take n (drop (?u + 4) (buffer rs))"
      using e bnd by (simp add: pending_def drop_take min_def add.commute)
    have l: "length (take n (drop (?u + 4) (buffer rs))) = n" using e bnd by simp
    have split: "split_frame (pending rs) = Some (take n (drop 4 (pending rs)), drop (4 + n) (pending rs))"
      using False fits by (simp add: split_frame_def Let_def n_def)
    have get: "getNextRecord rs = Ret (Some (?u + 4, n), rs')"
      using run e unfolding n_def [symmetric] by (simp add: getNextRecord_def HEADER_SIZE_def Let_def rs'_def)
    have rd: "mem_read (?u + 4) n (buffer rs) = Some (take n (drop (?u + 4) (buffer rs)))"
      using e bnd by (simp add: mem_read_Some)
    have ok': "stream_ok rs'" using ok e by (simp add: stream_ok_def rs'_def)
    have "pending rs' = drop (4 + n) (pending rs)" by (simp add: pending_def rs'_def ac_simps)
    with get rd ok' show ?thesis
      unfolding split r prod.case option.case l rs'_def by (intro exI [of _ "?u + 4"]) simp
  qed
qed

end
