(* ===== verification/Record_Stream_Props.thy ===== *)
theory Record_Stream_Props
  imports Record_Stream
begin

text \<open>
  The reader delivers the records of the stream, whatever the pieces in which the bytes arrive.
\<close>

section \<open>One call\<close>

text \<open>A call as seen from outside: what it reports, and the bytes that stay pending.\<close>

datatype outcome = Got "u8 list" | At_end | Failed | Again | Abort

definition spec_next :: "(nat \<Rightarrow> read_result) \<Rightarrow> nat \<Rightarrow> u8 list \<Rightarrow> outcome \<times> u8 list" where
  "spec_next read cap p =
     (case split_frame p of
        Some (r, rest) \<Rightarrow> (Got r, rest)
      | None \<Rightarrow>
          if length p = cap then (Abort, p)
          else case read (cap - length p) of
                 Read_eof \<Rightarrow> (At_end, p)
               | Read_error \<Rightarrow> (Failed, p)
               | Read bs \<Rightarrow> (case split_frame (p @ bs) of Some (r, rest) \<Rightarrow> (Got r, rest) | None \<Rightarrow> (Again, p @ bs)))"

text \<open>How a result of the code tells the outcome.\<close>

definition outcome_of :: "next_result \<Rightarrow> RecordStream \<Rightarrow> outcome" where
  "outcome_of res rs =
     (case record_bytes res rs of
        Some r \<Rightarrow> if ret_code res = 0 then Got r else Failed
      | None \<Rightarrow> if again res then Again else if ret_code res = 0 then At_end else Failed)"

definition read_fits :: "(nat \<Rightarrow> read_result) \<Rightarrow> bool" where
  "read_fits read \<longleftrightarrow> (\<forall>n bs. read n = Read bs \<longrightarrow> length bs \<le> n)"

lemma compact_pending:
  assumes ok: "stream_ok rs"
  shows "\<exists>rs'. compact_buffer rs = Ret rs' \<and> stream_ok rs' \<and> pending rs' = pending rs \<and>
    unconsumed rs' = 0 \<and> read_end rs' = length (pending rs) \<and> buffer_end rs' = buffer_end rs"
proof (cases "unconsumed rs = 0")
  case True
  then show ?thesis using ok by (simp add: compact_buffer_def length_pending)
next
  case False
  let ?u = "unconsumed rs" and ?m = "read_end rs - unconsumed rs"
  have b: "?u + ?m \<le> length (buffer rs)" using ok by (simp add: stream_ok_def)
  have p: "pending rs = take ?m (drop ?u (buffer rs))" by (simp add: pending_def drop_take)
  have "\<exists>buf. (if ?m \<noteq> 0 then deref (memmove 0 ?u ?m (buffer rs)) else Ret (buffer rs)) = Ret buf \<and>
      length buf = length (buffer rs) \<and> take ?m buf = pending rs"
    using b p by (auto simp: memmove_def mem_read_Some mem_write_Some)
  then obtain buf where b: "(if ?m \<noteq> 0 then deref (memmove 0 ?u ?m (buffer rs)) else Ret (buffer rs)) = Ret buf"
    "length buf = length (buffer rs)" "take ?m buf = pending rs" by blast
  have "compact_buffer rs = Ret (rs\<lparr>buffer := buf, read_end := ?m, unconsumed := 0\<rparr>)"
    unfolding compact_buffer_def Let_def b(1) using False by simp
  moreover have "pending (rs\<lparr>buffer := buf, read_end := ?m, unconsumed := 0\<rparr>) = pending rs"
    using b(3) by (simp add: pending_def)
  ultimately show ?thesis using ok length_pending [OF ok] b(2) by (auto simp: stream_ok_def)
qed

lemma append_pending:
  assumes "stream_ok rs" "unconsumed rs = 0" "read_end rs + length bs \<le> buffer_end rs"
  shows "\<exists>buf. mem_write (read_end rs) bs (buffer rs) = Some buf \<and>
    stream_ok (rs\<lparr>buffer := buf, read_end := read_end rs + length bs\<rparr>) \<and>
    pending (rs\<lparr>buffer := buf, read_end := read_end rs + length bs\<rparr>) = pending rs @ bs"
  using assms by (auto simp: stream_ok_def pending_def mem_write_Some)

lemma got_outcome:
  "mem_read start n (buffer rs) = Some r \<Longrightarrow> outcome_of (got_record (start, n)) rs = Got r"
  by (simp add: outcome_of_def record_bytes_def got_record_def)

lemma get_next_spec:
  assumes ok: "stream_ok rs" and rd: "read_fits read"
  shows "(case spec_next read (buffer_end rs) (pending rs) of
      (Abort, p) \<Rightarrow> record_stream_get_next read rs = AssertFail
    | (out, p) \<Rightarrow> \<exists>res rs'. record_stream_get_next read rs = Ret (res, rs') \<and> outcome_of res rs' = out \<and>
        stream_ok rs' \<and> pending rs' = p \<and> buffer_end rs' = buffer_end rs)"
proof (cases "split_frame (pending rs)")
  case (Some x)
  obtain r rest where x: "x = (r, rest)" by fastforce
  obtain start where "getNextRecord rs = Ret (Some (start, length r), rs\<lparr>unconsumed := start + length r\<rparr>)"
    "mem_read start (length r) (buffer rs) = Some r" "stream_ok (rs\<lparr>unconsumed := start + length r\<rparr>)"
    "pending (rs\<lparr>unconsumed := start + length r\<rparr>) = rest"
    using getNextRecord_split [OF ok] Some x by auto
  then show ?thesis
    using Some x by (simp add: spec_next_def record_stream_get_next_def got_outcome)
next
  case None
  then have g: "getNextRecord rs = Ret (None, rs)" using getNextRecord_split [OF ok] by simp
  have full: "unconsumed rs = 0 \<and> read_end rs = buffer_end rs \<longleftrightarrow> length (pending rs) = buffer_end rs"
    using length_pending [OF ok] ok by (auto simp: stream_ok_def HEADER_SIZE_def)
  show ?thesis
  proof (cases "length (pending rs) = buffer_end rs")
    case True
    then show ?thesis using None g full by (simp add: spec_next_def record_stream_get_next_def)
  next
    case False
    obtain rs1 where c: "compact_buffer rs = Ret rs1" "stream_ok rs1" "pending rs1 = pending rs" "unconsumed rs1 = 0"
      "read_end rs1 = length (pending rs)" "buffer_end rs1 = buffer_end rs"
      using compact_pending [OF ok] by blast
    note run = record_stream_get_next_def g None False full c
    show ?thesis
    proof (cases "read (buffer_end rs - length (pending rs))")
      case (Read bs)
      have le: "length (pending rs) \<le> buffer_end rs" using c(2,5,6) by (simp add: stream_ok_def)
      moreover have "length bs \<le> buffer_end rs - length (pending rs)" using rd Read by (simp add: read_fits_def)
      ultimately have "read_end rs1 + length bs \<le> buffer_end rs1" using c(5,6) by simp
      from append_pending [OF c(2,4) this] obtain buf where
        w: "mem_write (read_end rs1) bs (buffer rs1) = Some buf" and
        ok2: "stream_ok (rs1\<lparr>buffer := buf, read_end := read_end rs1 + length bs\<rparr>)" and
        p2: "pending (rs1\<lparr>buffer := buf, read_end := read_end rs1 + length bs\<rparr>) = pending rs @ bs"
        using c(3) by auto
      let ?rs2 = "rs1\<lparr>buffer := buf, read_end := read_end rs1 + length bs\<rparr>"
      show ?thesis
      proof (cases "split_frame (pending rs @ bs)")
        case none: None
        then have "getNextRecord ?rs2 = Ret (None, ?rs2)" using getNextRecord_split [OF ok2] p2 by simp
        then show ?thesis
          using none Read w ok2 p2 run by (simp add: spec_next_def outcome_of_def record_bytes_def)
      next
        case (Some x)
        obtain r rest where x: "x = (r, rest)" by fastforce
        obtain start where "getNextRecord ?rs2 = Ret (Some (start, length r), ?rs2\<lparr>unconsumed := start + length r\<rparr>)"
          "mem_read start (length r) (buffer ?rs2) = Some r" "stream_ok (?rs2\<lparr>unconsumed := start + length r\<rparr>)"
          "pending (?rs2\<lparr>unconsumed := start + length r\<rparr>) = rest"
          using getNextRecord_split [OF ok2] p2 Some x by auto
        then show ?thesis
          using Some x Read w run by (simp add: spec_next_def got_outcome)
      qed
    next
      case Read_eof
      then show ?thesis using run by (simp add: spec_next_def outcome_of_def record_bytes_def)
    next
      case Read_error
      then show ?thesis using run by (simp add: spec_next_def outcome_of_def record_bytes_def)
    qed
  qed
qed

section \<open>A client\<close>

text \<open>
  A client calls the reader again and again.  The descriptor holds the bytes \<open>input\<close>; a call to
  \<open>read\<close> for \<open>n\<close> bytes returns some of them, at least one and at most \<open>n\<close>, as the number \<open>k\<close> directs.
\<close>

record client =
  stream :: RecordStream
  input :: "u8 list"
  received :: "u8 list list"

definition chunk :: "nat \<Rightarrow> nat \<Rightarrow> nat" where
  "chunk k n = min n (Suc k)"

definition read_from :: "nat \<Rightarrow> u8 list \<Rightarrow> nat \<Rightarrow> read_result" where
  "read_from k bytes n = (if bytes = [] then Read_eof else Read (take (chunk k n) bytes))"

text \<open>Whether the call reads, and how much it asks for.\<close>

definition must_read :: "RecordStream \<Rightarrow> bool" where
  "must_read rs \<longleftrightarrow> split_frame (pending rs) = None"

definition request :: "RecordStream \<Rightarrow> nat" where
  "request rs = buffer_end rs - length (pending rs)"

definition client_call :: "nat \<Rightarrow> client \<Rightarrow> client exec" where
  "client_call k c =
     bindE (record_stream_get_next (read_from k (input c)) (stream c)) (\<lambda>(res, rs).
     Ret \<lparr>stream = rs,
          input = (if must_read (stream c) then drop (chunk k (request (stream c))) (input c) else input c),
          received = received c @ (case outcome_of res rs of Got r \<Rightarrow> [r] | _ \<Rightarrow> [])\<rparr>)"

fun run_client :: "nat list \<Rightarrow> client \<Rightarrow> client exec" where
  "run_client [] c = Ret c"
| "run_client (k # ks) c = bindE (client_call k c) (run_client ks)"

lemma read_from_fits: "read_fits (read_from k bytes)"
  by (auto simp: read_fits_def read_from_def chunk_def split: if_splits)

text \<open>
  The invariant: the records received, the pending bytes and the bytes not yet read are together
  the stream.
\<close>

definition client_ok :: "u8 list list \<Rightarrow> client \<Rightarrow> bool" where
  "client_ok recs c \<longleftrightarrow> stream_ok (stream c) \<and>
     (\<forall>r \<in> set recs. length r + 4 \<le> buffer_end (stream c)) \<and>
     (\<exists>todo. recs = received c @ todo \<and> pending (stream c) @ input c = concat (map frame todo))"

definition effort :: "client \<Rightarrow> nat" where
  "effort c = 2 * length (input c) + length (pending (stream c))"

lemma length_frame [simp]: "length (frame r) = length r + 4"
  by (simp add: frame_def)

lemma small_buffer: "stream_ok rs \<Longrightarrow> buffer_end rs < 2 ^ 32"
  by (simp add: stream_ok_def HEADER_SIZE_def word_le_nat_alt)

text \<open>The front of a stream of records either starts with a whole record or is too short for one.\<close>

lemma split_stream:
  assumes "p @ q = concat (map frame todo)" "\<forall>r \<in> set todo. length r < 2 ^ 32"
  shows "(case split_frame p of
      Some (r, rest) \<Rightarrow> \<exists>todo'. todo = r # todo' \<and> rest @ q = concat (map frame todo') \<and> length rest < length p
    | None \<Rightarrow> (todo = [] \<and> p = [] \<and> q = []) \<or> (\<exists>r todo'. todo = r # todo' \<and> length p < length r + 4 \<and> q \<noteq> []))"
proof (cases todo)
  case Nil
  then show ?thesis using assms(1) by (simp add: split_frame_def)
next
  case (Cons r todo')
  have r: "length r < 2 ^ 32" using assms(2) Cons by simp
  have eq: "p @ q = frame r @ concat (map frame todo')" using assms(1) Cons by simp
  show ?thesis
  proof (cases "length p < length (frame r)")
    case True
    have "split_frame p = None" by (rule split_frame_short [OF r eq [symmetric] True])
    moreover have "q \<noteq> []"
    proof
      assume "q = []"
      then have "length p = length (frame r @ concat (map frame todo'))" using eq by (metis append_Nil2)
      then show False using True by simp
    qed
    ultimately show ?thesis using Cons True by simp
  next
    case False
    then have "take (length (frame r)) p = frame r" using arg_cong [OF eq, of "take (length (frame r))"] by simp
    then have p: "p = frame r @ drop (length (frame r)) p" by (metis append_take_drop_id)
    then have "drop (length (frame r)) p @ q = concat (map frame todo')" using eq by (metis append.assoc same_append_eq)
    with p obtain rest where "p = frame r @ rest" "rest @ q = concat (map frame todo')" by blast
    then show ?thesis using Cons split_frame_frame [OF r] by simp
  qed
qed

lemma client_call_ok:
  assumes "client_ok recs c"
  shows "\<exists>c'. client_call k c = Ret c' \<and> client_ok recs c' \<and> (effort c' < effort c \<or> received c' = recs) \<and>
    effort c' \<le> effort c"
proof -
  let ?rs = "stream c" and ?p = "pending (stream c)"
  obtain todo where todo: "recs = received c @ todo" "?p @ input c = concat (map frame todo)"
    and ok: "stream_ok ?rs" and fits: "\<forall>r \<in> set recs. length r + 4 \<le> buffer_end ?rs"
    using assms by (auto simp: client_ok_def)
  have small: "\<forall>r \<in> set todo. length r < 2 ^ 32" 
  proof
    fix r assume "r \<in> set todo"
    then have "length r + 4 \<le> buffer_end ?rs" using fits todo(1) by simp
    then show "length r < 2 ^ 32" using small_buffer [OF ok] by linarith
  qed
  note split = split_stream [OF todo(2) small]
  note spec = get_next_spec [OF ok read_from_fits [of k "input c"]]
  show ?thesis
  proof (cases "split_frame ?p")
    case (Some x)
    obtain r rest where x: "x = (r, rest)" by fastforce
    then obtain todo' where t: "todo = r # todo'" "rest @ input c = concat (map frame todo')" "length rest < length ?p"
      using split Some by auto
    obtain res rs' where "record_stream_get_next (read_from k (input c)) ?rs = Ret (res, rs')" "outcome_of res rs' = Got r"
      "stream_ok rs'" "pending rs' = rest" "buffer_end rs' = buffer_end ?rs"
      using spec Some x by (auto simp: spec_next_def)
    then show ?thesis
      using Some t todo fits by (simp add: client_call_def must_read_def client_ok_def effort_def)
  next
    case None
    show ?thesis
    proof (cases "todo = []")
      case True
      then have e: "?p = []" "input c = []" using todo(2) by simp_all
      have "buffer_end ?rs \<noteq> 0" using ok by (simp add: stream_ok_def HEADER_SIZE_def)
      then obtain res rs' where "record_stream_get_next (read_from k (input c)) ?rs = Ret (res, rs')" "outcome_of res rs' = At_end"
        "stream_ok rs'" "pending rs' = []" "buffer_end rs' = buffer_end ?rs"
        using spec None e by (auto simp: spec_next_def read_from_def)
      then show ?thesis
        using None True e todo fits by (simp add: client_call_def must_read_def client_ok_def effort_def)
    next
      case False
      then obtain r todo1 where t: "todo = r # todo1" "length ?p < length r + 4" "input c \<noteq> []"
        using split None by auto
      then have room: "length ?p < buffer_end ?rs" using fits todo(1) by auto
      let ?n = "chunk k (request ?rs)"
      have n: "0 < ?n" "request ?rs = buffer_end ?rs - length ?p" using room by (simp_all add: chunk_def request_def)
      let ?bs = "take ?n (input c)"
      have rd: "read_from k (input c) (buffer_end ?rs - length ?p) = Read ?bs"
        using t(3) n(2) by (simp add: read_from_def)
      have all: "(?p @ ?bs) @ drop ?n (input c) = concat (map frame todo)" using todo(2) by simp
      have shorter: "2 * length (drop ?n (input c)) + length (?p @ ?bs) < effort c"
        using n(1) t(3) by (cases "input c") (auto simp: effort_def min_def)
      show ?thesis
      proof (cases "split_frame (?p @ ?bs)")
        case none: None
        obtain res rs' where "record_stream_get_next (read_from k (input c)) ?rs = Ret (res, rs')" "outcome_of res rs' = Again"
          "stream_ok rs'" "pending rs' = ?p @ ?bs" "buffer_end rs' = buffer_end ?rs"
          using spec None none room rd by (auto simp: spec_next_def)
        then show ?thesis
          using None all todo(1) fits shorter by (simp add: client_call_def must_read_def client_ok_def effort_def)
      next
        case (Some x)
        obtain r' rest where x: "x = (r', rest)" by fastforce
        then obtain todo' where t': "todo = r' # todo'" "rest @ drop ?n (input c) = concat (map frame todo')" "length rest < length (?p @ ?bs)"
          using split_stream [OF all small] Some by auto
        obtain res rs' where "record_stream_get_next (read_from k (input c)) ?rs = Ret (res, rs')" "outcome_of res rs' = Got r'"
          "stream_ok rs'" "pending rs' = rest" "buffer_end rs' = buffer_end ?rs"
          using spec None Some x room rd by (auto simp: spec_next_def)
        then show ?thesis
          using None t' todo(1) fits shorter
          by (simp add: client_call_def must_read_def client_ok_def effort_def)
      qed
    qed
  qed
qed

lemma client_call_extends: "client_call k c = Ret c' \<Longrightarrow> \<exists>x. received c' = received c @ x"
  by (auto simp: client_call_def bindE_Ret_iff split: prod.splits)

lemma run_client_ok:
  assumes "client_ok recs c"
  shows "\<exists>c'. run_client ks c = Ret c' \<and> client_ok recs c' \<and>
    (received c = recs \<or> effort c \<le> length ks \<longrightarrow> received c' = recs)"
  using assms
proof (induction ks arbitrary: c)
  case Nil
  have "received c = recs" if "effort c = 0"
  proof -
    obtain todo where "recs = received c @ todo" "pending (stream c) @ input c = concat (map frame todo)"
      using Nil by (auto simp: client_ok_def)
    moreover have "pending (stream c) @ input c = []" using that by (simp add: effort_def)
    ultimately have "\<forall>r \<in> set todo. length (frame r) = 0" by simp
    then show ?thesis using \<open>recs = received c @ todo\<close> by (cases todo) auto
  qed
  then show ?case using Nil by auto
next
  case (Cons k ks)
  obtain c1 where c1: "client_call k c = Ret c1" "client_ok recs c1" "effort c1 < effort c \<or> received c1 = recs"
    using client_call_ok [OF Cons.prems, of k] by blast
  obtain c' where c': "run_client ks c1 = Ret c'" "client_ok recs c'"
    "received c1 = recs \<or> effort c1 \<le> length ks \<longrightarrow> received c' = recs"
    using Cons.IH [OF c1(2)] by blast
  have "received c1 = recs" if "received c = recs"
  proof -
    obtain x where x: "received c1 = received c @ x" using client_call_extends [OF c1(1)] by blast
    obtain todo where "recs = received c1 @ todo" using c1(2) unfolding client_ok_def by blast
    then have "length recs = length (received c1) + length todo" "length (received c1) = length recs + length x"
      using x that by simp_all
    then show ?thesis using x that by simp
  qed
  then show ?case using c1 c' by auto
qed

section \<open>Properties\<close>

text \<open>
  C27.  One call of \<open>record_stream_get_next\<close>: a whole record in the buffer is returned without
  reading; otherwise the call reads once, behind the pending bytes and never past the buffer,
  and returns the record that is then complete, or asks to be called again; the end of the
  stream and errors are passed on.  Only when the buffer is full of an incomplete record does
  the call abort.
\<close>

theorem record_stream_get_next_correct:
  assumes "stream_ok rs" "read_fits read"
  shows "(case spec_next read (buffer_end rs) (pending rs) of
      (Abort, p) \<Rightarrow> record_stream_get_next read rs = AssertFail
    | (out, p) \<Rightarrow> \<exists>res rs'. record_stream_get_next read rs = Ret (res, rs') \<and> outcome_of res rs' = out \<and>
        stream_ok rs' \<and> pending rs' = p \<and> buffer_end rs' = buffer_end rs)"
  by (rule get_next_spec [OF assms])

text \<open>A reader with one byte of the header and room for records of two bytes.\<close>

definition small_stream :: RecordStream where
  "small_stream = \<lparr>maxRecordLen = 2, buffer = [9, 0, 0, 0, 0, 0], unconsumed = 1, read_end = 2, buffer_end = 6\<rparr>"

theorem record_stream_get_next_correct_witness:
  "stream_ok small_stream \<and> read_fits (read_from 3 [0, 0, 1, 7, 5]) \<and>
   (\<exists>res rs'. record_stream_get_next (read_from 3 [0, 0, 1, 7, 5]) small_stream = Ret (res, rs') \<and>
      outcome_of res rs' = Got [7] \<and> stream_ok rs' \<and> pending rs' = [])"
proof -
  have ok: "stream_ok small_stream" by (simp add: stream_ok_def small_stream_def HEADER_SIZE_def)
  have "spec_next (read_from 3 [0, 0, 1, 7, 5]) (buffer_end small_stream) (pending small_stream) = (Got [7], [])"
    by code_simp
  then show ?thesis
    using record_stream_get_next_correct [OF ok read_from_fits [of 3 "[0, 0, 1, 7, 5]"]] ok
      read_from_fits [of 3 "[0, 0, 1, 7, 5]"] by auto
qed

text \<open>
  C26.  Delivery: a client that keeps calling the reader on a stream of records, none longer than
  announced, receives exactly these records in their order, however \<open>read\<close> cuts the bytes into
  pieces; no call fails, and two calls for every byte of the stream are enough.
\<close>

theorem record_stream_delivers:
  assumes "record_stream_new True malloc maxLen = Ret rs"
    and "\<And>n. \<exists>b. malloc n = Some b \<and> length b = unat n" "\<And>r. r \<in> set recs \<Longrightarrow> length r \<le> unat maxLen"
    and "2 * length (concat (map frame recs)) \<le> length ks"
  shows "\<exists>c. run_client ks \<lparr>stream = rs, input = concat (map frame recs), received = []\<rparr> = Ret c \<and> received c = recs"
proof -
  let ?c = "\<lparr>stream = rs, input = concat (map frame recs), received = []\<rparr>"
  have max: "maxLen \<le> 0xffff" using assms(1) by (auto simp: record_stream_new_def split: if_splits)
  obtain b where b: "malloc (maxLen + of_nat HEADER_SIZE) = Some b" "length b = unat (maxLen + of_nat HEADER_SIZE)"
    using assms(2) by blast
  have "unat (maxLen + of_nat HEADER_SIZE) = unat maxLen + HEADER_SIZE"
    using max by (simp add: HEADER_SIZE_def unat_word_ariths word_le_nat_alt)
  then have rs: "stream_ok rs" "pending rs = []" "buffer_end rs = unat maxLen + 4"
    using assms(1) b max by (auto simp: record_stream_new_def stream_ok_def pending_def HEADER_SIZE_def split: if_splits)
  have "client_ok recs ?c" using rs assms(3) by (simp add: client_ok_def)
  moreover have "effort ?c \<le> length ks" using rs assms(4) by (simp add: effort_def)
  ultimately show ?thesis using run_client_ok [of recs ?c ks] by blast
qed

theorem record_stream_delivers_witness:
  "\<exists>rs c. record_stream_new True (\<lambda>n. Some (replicate (unat n) 0)) 3 = Ret rs \<and>
     run_client (replicate 40 1) \<lparr>stream = rs, input = concat (map frame [[1, 2], [], [3, 4, 5]]), received = []\<rparr> = Ret c \<and>
     received c = [[1, 2], [], [3, 4, 5]]"
proof -
  obtain rs where rs: "record_stream_new True (\<lambda>n. Some (replicate (unat n) 0)) 3 = Ret rs"
    by (simp add: record_stream_new_def)
  show ?thesis
  proof (rule exI [of _ rs])
    have "\<exists>c. run_client (replicate 40 1) \<lparr>stream = rs, input = concat (map frame [[1, 2], [], [3, 4, 5]]), received = []\<rparr> = Ret c \<and>
        received c = [[1, 2], [], [3, 4, 5]]"
      by (rule record_stream_delivers [OF rs]) auto
    then show "\<exists>c. record_stream_new True (\<lambda>n. Some (replicate (unat n) 0)) 3 = Ret rs \<and>
        run_client (replicate 40 1) \<lparr>stream = rs, input = concat (map frame [[1, 2], [], [3, 4, 5]]), received = []\<rparr> = Ret c \<and>
        received c = [[1, 2], [], [3, 4, 5]]" using rs by blast
  qed
qed

end
