(* ===== verification/Config_Utils.thy ===== *)
theory Config_Utils
  imports C_Strings
begin

text \<open>
  The configuration files of \<open>cutils/config_utils.c\<close>: a lexer and a recursive-descent parser that
  build a tree of named nodes.  A node holds the list of its children, which the code chains
  through \<open>next\<close>; the parser works on one node of the tree at a time, and the model puts the
  changed node back.  The texts that the lexer terminates inside the file's buffer are
  modelled by their contents: it writes only behind the texts it has already returned.
  Allocating a node succeeds; the code uses it unchecked.
\<close>

section \<open>The tree\<close>

datatype cnode = Cnode (node_name: string) (node_value: string) (children: "cnode list")

definition config_node :: "string option \<Rightarrow> string option \<Rightarrow> cnode" where
  "config_node name v =
     Cnode (case name of None \<Rightarrow> '''' | Some n \<Rightarrow> n) (case v of None \<Rightarrow> '''' | Some v \<Rightarrow> v) []"

text \<open>The position of the last child with the name.\<close>

fun find_last :: "string \<Rightarrow> nat \<Rightarrow> cnode list \<Rightarrow> nat option \<Rightarrow> nat option" where
  "find_last name i [] match = match"
| "find_last name i (node # rest) match =
     find_last name (Suc i) rest (if node_name node = name then Some i else match)"

definition config_find :: "cnode \<Rightarrow> string \<Rightarrow> nat option" where
  "config_find root name = find_last name 0 (children root) None"

text \<open>The new node is the last child; the result is its position and the changed parent.\<close>

definition config_create :: "cnode \<Rightarrow> string \<Rightarrow> nat \<times> cnode" where
  "config_create root name =
     (length (children root),
      Cnode (node_name root) (node_value root) (children root @ [config_node (Some name) None]))"

definition config_bool :: "cnode \<Rightarrow> string \<Rightarrow> int \<Rightarrow> int" where
  "config_bool root name dflt =
     (case config_find root name of
        None \<Rightarrow> dflt
      | Some i \<Rightarrow>
          (case node_value (children root ! i) of
             [] \<Rightarrow> 0
           | c # _ \<Rightarrow> if c = CHR ''y'' \<or> c = CHR ''Y'' \<or> c = CHR ''1'' then 1 else 0))"

definition config_str :: "cnode \<Rightarrow> string \<Rightarrow> string option \<Rightarrow> string option" where
  "config_str root name dflt =
     (case config_find root name of
        None \<Rightarrow> dflt
      | Some i \<Rightarrow> Some (node_value (children root ! i)))"

definition set_value :: "cnode \<Rightarrow> string \<Rightarrow> cnode" where
  "set_value node v = Cnode (node_name node) v (children node)"

definition update_child :: "cnode \<Rightarrow> nat \<Rightarrow> cnode \<Rightarrow> cnode" where
  "update_child root i node = Cnode (node_name root) (node_value root) ((children root)[i := node])"

definition config_set :: "cnode \<Rightarrow> string \<Rightarrow> string \<Rightarrow> cnode" where
  "config_set root name v =
     (case config_find root name of
        Some i \<Rightarrow> update_child root i (set_value (children root ! i) v)
      | None \<Rightarrow>
          let (i, root) = config_create root name
          in update_child root i (set_value (children root ! i) v))"

section \<open>The lexer\<close>

datatype token = T_EOF | T_TEXT | T_DOT | T_OBRACE | T_CBRACE

text \<open>The unread rest of the file up to its terminator, the last text, and a character read ahead.\<close>

record cstate =
  cs_data :: string
  cs_text :: string
  cs_next :: "char option"

definition punctuation :: "char \<Rightarrow> bool" where
  "punctuation c \<longleftrightarrow> c = CHR ''.'' \<or> c = CHR ''{'' \<or> c = CHR ''}''"

definition punctuation_token :: "char \<Rightarrow> token" where
  "punctuation_token c = (if c = CHR ''.'' then T_DOT else if c = CHR ''{'' then T_OBRACE else T_CBRACE)"

definition newline :: char where
  "newline = CHR 0x0A"

text \<open>
  A value runs to the end of its line.  Trailing blanks are stripped when a newline ends it; at
  the end of the file the stripping loop stops at the terminator and strips nothing.  The first
  character of the value is never stripped.
\<close>

definition lex_value :: "cstate \<Rightarrow> char \<Rightarrow> string \<Rightarrow> cstate" where
  "lex_value cs c data =
     (let line = takeWhile (\<lambda>x. x \<noteq> newline) data;
          rest = dropWhile (\<lambda>x. x \<noteq> newline) data
      in if rest = [] then cs\<lparr>cs_data := [], cs_text := c # line\<rparr>
         else cs\<lparr>cs_data := tl rest, cs_text := c # rev (dropWhile isspace (rev line))\<rparr>)"

text \<open>A word runs to a blank or to punctuation, which becomes the next token.\<close>

definition lex_word :: "cstate \<Rightarrow> char \<Rightarrow> string \<Rightarrow> cstate" where
  "lex_word cs c data =
     (let word = takeWhile (\<lambda>x. \<not> isspace x \<and> \<not> punctuation x) data;
          rest = dropWhile (\<lambda>x. \<not> isspace x \<and> \<not> punctuation x) data
      in case rest of
           [] \<Rightarrow> cs\<lparr>cs_data := [], cs_text := c # word\<rparr>
         | x # rest \<Rightarrow>
             if isspace x then cs\<lparr>cs_data := rest, cs_text := c # word\<rparr>
             else cs\<lparr>cs_data := rest, cs_text := c # word, cs_next := Some x\<rparr>)"

text \<open>
  The scan from a position of the buffer: blanks and comments are skipped.  At the end of the
  file outside a comment \<open>cs_data\<close> is not advanced.
\<close>

function lex_scan :: "cstate \<Rightarrow> bool \<Rightarrow> string \<Rightarrow> token \<times> cstate" where
  "lex_scan cs in_value data =
     (case data of
        [] \<Rightarrow> (T_EOF, cs)
      | c # data \<Rightarrow>
          if isspace c then lex_scan cs in_value data
          else if c = CHR ''#'' then
            (case dropWhile (\<lambda>x. x \<noteq> newline) data of
               [] \<Rightarrow> (T_EOF, cs\<lparr>cs_data := []\<rparr>)
             | nl # rest \<Rightarrow> lex_scan (cs\<lparr>cs_data := rest\<rparr>) in_value (nl # rest))
          else if punctuation c then (punctuation_token c, cs\<lparr>cs_data := data\<rparr>)
          else if in_value then (T_TEXT, lex_value cs c data)
          else (T_TEXT, lex_word cs c data))"
  by pat_completeness auto
termination
proof (relation "measure (\<lambda>(cs, v, data). length data)", goal_cases)
  case (3 cs v data c cs' nl rest)
  have "length (dropWhile (\<lambda>x. x \<noteq> newline) cs') \<le> length cs'" by (rule length_dropWhile_le)
  with 3 show ?case by simp
qed simp_all

declare lex_scan.simps [simp del]

definition lex :: "cstate \<Rightarrow> bool \<Rightarrow> token \<times> cstate" where
  "lex cs in_value =
     (case cs_next cs of
        Some c \<Rightarrow> (punctuation_token c, cs\<lparr>cs_next := None\<rparr>)
      | None \<Rightarrow> lex_scan cs in_value (cs_data cs))"

section \<open>The parser\<close>

text \<open>
  The results are the returned number, the state of the lexer and the changed node; \<open>None\<close> means
  that the fuel of the model ran out.
\<close>

fun parse_block :: "nat \<Rightarrow> cstate \<Rightarrow> cnode \<Rightarrow> (int \<times> cstate \<times> cnode) option"
  and parse_expr :: "nat \<Rightarrow> cstate \<Rightarrow> cnode \<Rightarrow> (int \<times> cstate \<times> cnode) option"
  and parse_expr_loop :: "nat \<Rightarrow> cstate \<Rightarrow> cnode \<Rightarrow> (int \<times> cstate \<times> cnode) option" where
  "parse_block 0 cs node = None"
| "parse_block (Suc fuel) cs node =
     (case lex cs False of
        (T_TEXT, cs) \<Rightarrow>
          (case parse_expr fuel cs node of
             None \<Rightarrow> None
           | Some (r, cs, node) \<Rightarrow> if r \<noteq> 0 then Some (- 1, cs, node) else parse_block fuel cs node)
      | (T_CBRACE, cs) \<Rightarrow> Some (0, cs, node)
      | (_, cs) \<Rightarrow> Some (- 1, cs, node))"
| "parse_expr 0 cs root = None"
| "parse_expr (Suc fuel) cs root =
     (let (i, root) =
        (case config_find root (cs_text cs) of
           Some i \<Rightarrow> if node_value (children root ! i) \<noteq> [] then config_create root (cs_text cs) else (i, root)
         | None \<Rightarrow> config_create root (cs_text cs))
      in case parse_expr_loop fuel cs (children root ! i) of
           None \<Rightarrow> None
         | Some (r, cs, node) \<Rightarrow> Some (r, cs, update_child root i node))"
| "parse_expr_loop 0 cs node = None"
| "parse_expr_loop (Suc fuel) cs node =
     (case lex cs True of
        (T_DOT, cs) \<Rightarrow>
          (case lex cs False of
             (T_TEXT, cs) \<Rightarrow>
               (let (i, node) = config_create node (cs_text cs)
                in case parse_expr_loop fuel cs (children node ! i) of
                     None \<Rightarrow> None
                   | Some (r, cs, child) \<Rightarrow> Some (r, cs, update_child node i child))
           | (_, cs) \<Rightarrow> Some (- 1, cs, node))
      | (T_TEXT, cs) \<Rightarrow> Some (0, cs, set_value node (cs_text cs))
      | (T_OBRACE, cs) \<Rightarrow> parse_block fuel cs node
      | (_, cs) \<Rightarrow> Some (- 1, cs, node))"

fun config_load_loop :: "nat \<Rightarrow> cstate \<Rightarrow> cnode \<Rightarrow> cnode option" where
  "config_load_loop 0 cs root = None"
| "config_load_loop (Suc fuel) cs root =
     (case lex cs False of
        (T_TEXT, cs) \<Rightarrow>
          (case parse_expr fuel cs root of
             None \<Rightarrow> None
           | Some (r, cs, root) \<Rightarrow> if r \<noteq> 0 then Some root else config_load_loop fuel cs root)
      | (_, cs) \<Rightarrow> Some root)"

text \<open>The fuel is three units for each character, as many as the parser makes calls.\<close>

definition config_load :: "cnode \<Rightarrow> string option \<Rightarrow> cnode option" where
  "config_load root data =
     (case data of
        None \<Rightarrow> Some root
      | Some d \<Rightarrow> config_load_loop (3 * length d + 3) \<lparr>cs_data = d, cs_text = [], cs_next = None\<rparr> root)"

text \<open>\<open>load_file\<close> gives the contents of the file, or \<open>None\<close> when it cannot be read.\<close>

definition config_load_file :: "(string \<Rightarrow> string option) \<Rightarrow> cnode \<Rightarrow> string \<Rightarrow> cnode option" where
  "config_load_file load_file root fn = config_load root (load_file fn)"

end
