(* ===== verification/Config_Correct.thy ===== *)
theory Config_Correct
  imports Config_Utils
begin

text \<open>
  The parser of \<open>Config_Utils\<close> returns on every file, what it reads back is what was printed, and
  the accessors implement a table of named values.
\<close>

section \<open>Children by name\<close>

lemma find_last_None:
  "find_last name i cs match = None \<longleftrightarrow> match = None \<and> name \<notin> node_name ` set cs"
  by (induction cs arbitrary: i match) auto

lemma find_last_Some:
  "find_last name i cs match = Some k \<Longrightarrow>
     (match = Some k \<and> name \<notin> node_name ` set cs) \<or>
     (\<exists>j < length cs. k = i + j \<and> node_name (cs ! j) = name \<and> name \<notin> node_name ` set (drop (Suc j) cs))"
proof (induction cs arbitrary: i match)
  case (Cons c cs)
  let ?m = "if node_name c = name then Some i else match"
  from Cons.prems have "find_last name (Suc i) cs ?m = Some k" by simp
  from Cons.IH [OF this] show ?case
  proof
    assume "?m = Some k \<and> name \<notin> node_name ` set cs"
    then show ?thesis by (cases "node_name c = name") (auto intro: exI [of _ 0])
  next
    assume "\<exists>j < length cs. k = Suc i + j \<and> node_name (cs ! j) = name \<and> name \<notin> node_name ` set (drop (Suc j) cs)"
    then obtain j where "j < length cs" "k = Suc i + j" "node_name (cs ! j) = name"
      "name \<notin> node_name ` set (drop (Suc j) cs)" by blast
    then show ?thesis by (intro disjI2 exI [of _ "Suc j"]) simp
  qed
qed simp

lemma config_find_None: "config_find root name = None \<longleftrightarrow> name \<notin> node_name ` set (children root)"
  by (simp add: config_find_def find_last_None)

lemma config_find_Some:
  assumes "config_find root name = Some i"
  shows "i < length (children root) \<and> node_name (children root ! i) = name \<and>
    name \<notin> node_name ` set (drop (Suc i) (children root))"
  using find_last_Some [OF assms [unfolded config_find_def]] by auto

section \<open>Progress of the lexer\<close>

definition lex_size :: "cstate \<Rightarrow> nat" where
  "lex_size cs = length (cs_data cs) + (case cs_next cs of None \<Rightarrow> 0 | Some c \<Rightarrow> 1)"

lemma lex_value_size: "cs_next cs = None \<Longrightarrow> lex_size (lex_value cs c data) \<le> length data"
proof -
  assume "cs_next cs = None"
  moreover have "length (tl (dropWhile (\<lambda>x. x \<noteq> newline) data)) \<le> length data"
    using length_dropWhile_le [of "\<lambda>x. x \<noteq> newline" data] by simp
  ultimately show ?thesis by (simp add: lex_value_def Let_def lex_size_def)
qed

lemma lex_word_size: "cs_next cs = None \<Longrightarrow> lex_size (lex_word cs c data) \<le> length data"
  using length_dropWhile_le [of "\<lambda>x. \<not> isspace x \<and> \<not> punctuation x" data]
  by (auto simp: lex_word_def Let_def lex_size_def split: list.splits)

lemma lex_scan_size:
  assumes "cs_next cs = None" "length (cs_data cs) \<le> N" "length data \<le> N" "lex_scan cs v data = (t, cs')"
  shows "lex_size cs' \<le> N \<and> (t \<noteq> T_EOF \<longrightarrow> lex_size cs' < N)"
  using assms
proof (induction cs v data rule: lex_scan.induct)
  case (1 cs v data)
  show ?case
  proof (cases data)
    case Nil
    then show ?thesis using 1(3,4,6) by (auto simp: lex_scan.simps lex_size_def)
  next
    case (Cons c d)
    have len: "length d < N" using 1(5) Cons by simp
    have run: "lex_scan cs v (c # d) = (t, cs')" using 1(6) Cons by simp
    note step = lex_scan.simps [of cs v "c # d"]
    consider (space) "isspace c" | (comment) "\<not> isspace c" "c = CHR ''#''"
      | (punct) "\<not> isspace c" "c \<noteq> CHR ''#''" "punctuation c"
      | (word) "\<not> isspace c" "c \<noteq> CHR ''#''" "\<not> punctuation c" by blast
    then show ?thesis
    proof cases
      case space
      then show ?thesis using 1(1) [OF Cons space 1(3,4)] len run by (simp add: step)
    next
      case comment
      show ?thesis
      proof (cases "dropWhile (\<lambda>x. x \<noteq> newline) d")
        case Nil
        have "t = T_EOF" "cs' = cs\<lparr>cs_data := []\<rparr>"
          using run comment unfolding step list.case Nil by auto
        then show ?thesis using 1(3) by (simp add: lex_size_def)
      next
        case d: (Cons nl rest)
        have "length (nl # rest) \<le> length d" using length_dropWhile_le [of "\<lambda>x. x \<noteq> newline" d] d by simp
        moreover have "lex_scan (cs\<lparr>cs_data := rest\<rparr>) v (nl # rest) = (t, cs')"
          using run comment unfolding step list.case d by simp
        ultimately show ?thesis using 1(2) [OF Cons comment d] 1(3) len by simp
      qed
    next
      case punct
      then show ?thesis using run 1(3) len by (auto simp: step lex_size_def)
    next
      case word
      then have "cs' = lex_value cs c d \<or> cs' = lex_word cs c d"
        using run by (auto simp: step split: if_splits)
      then have "lex_size cs' \<le> length d" using lex_value_size lex_word_size 1(3) by blast
      then show ?thesis using len by simp
    qed
  qed
qed

lemma lex_progress:
  assumes "lex cs v = (t, cs')"
  shows "lex_size cs' \<le> lex_size cs" "t \<noteq> T_EOF \<Longrightarrow> lex_size cs' < lex_size cs"
proof -
  have "lex_size cs' \<le> lex_size cs \<and> (t \<noteq> T_EOF \<longrightarrow> lex_size cs' < lex_size cs)"
  proof (cases "cs_next cs")
    case None
    then show ?thesis
      using lex_scan_size [of cs "length (cs_data cs)" "cs_data cs" v t cs'] assms by (simp add: lex_def lex_size_def)
  next
    case (Some c)
    then show ?thesis using assms by (auto simp: lex_def lex_size_def)
  qed
  then show "lex_size cs' \<le> lex_size cs" "t \<noteq> T_EOF \<Longrightarrow> lex_size cs' < lex_size cs" by auto
qed

section \<open>Termination\<close>

text \<open>With two units of fuel for every character left, the parser returns.\<close>

lemma parser_returns:
  "2 * lex_size cs + 1 \<le> fuel \<Longrightarrow> \<exists>r cs' node'. parse_block fuel cs node = Some (r, cs', node') \<and> lex_size cs' \<le> lex_size cs"
  "2 * lex_size cs + 2 \<le> fuel \<Longrightarrow> \<exists>r cs' node'. parse_expr fuel cs node = Some (r, cs', node') \<and> lex_size cs' \<le> lex_size cs"
  "2 * lex_size cs + 1 \<le> fuel \<Longrightarrow> \<exists>r cs' node'. parse_expr_loop fuel cs node = Some (r, cs', node') \<and> lex_size cs' \<le> lex_size cs"
proof (induction fuel cs node and fuel cs node and fuel cs node rule: parse_block_parse_expr_parse_expr_loop.induct)
  case (2 fuel cs node)
  obtain t cs1 where l: "lex cs False = (t, cs1)" by fastforce
  show ?case
  proof (cases "t = T_TEXT")
    case True
    have s: "lex_size cs1 < lex_size cs" using lex_progress [OF l] True by simp
    obtain r cs2 node2 where e: "parse_expr fuel cs1 node = Some (r, cs2, node2)" "lex_size cs2 \<le> lex_size cs1"
      using 2(1) [OF l [symmetric] True] 2(3) s by auto
    show ?thesis
    proof (cases "r = 0")
      case r: True
      obtain r' cs3 node3 where "parse_block fuel cs2 node2 = Some (r', cs3, node3)" "lex_size cs3 \<le> lex_size cs2"
        using 2(2) [OF l [symmetric] True e(1) refl refl] r 2(3) s e(2) by auto
      then show ?thesis using l True e r s by simp
    next
      case False
      then show ?thesis using l True e s by simp
    qed
  next
    case False
    then show ?thesis using l lex_progress(1) [OF l] by (cases t) auto
  qed
next
  case (4 fuel cs root)
  obtain i root1 where c: "(case config_find root (cs_text cs) of
       Some i \<Rightarrow> if node_value (children root ! i) \<noteq> [] then config_create root (cs_text cs) else (i, root)
     | None \<Rightarrow> config_create root (cs_text cs)) = (i, root1)" by fastforce
  obtain r cs' node' where "parse_expr_loop fuel cs (children root1 ! i) = Some (r, cs', node')" "lex_size cs' \<le> lex_size cs"
    using 4(1) [OF c [symmetric] refl] 4(2) by auto
  then show ?case by (simp only: parse_expr.simps Let_def c prod.case option.case) simp
next
  case (6 fuel cs node)
  obtain t cs1 where l: "lex cs True = (t, cs1)" by fastforce
  show ?case
  proof (cases t)
    case T_DOT
    have s: "lex_size cs1 < lex_size cs" using lex_progress [OF l] T_DOT by simp
    obtain t2 cs2 where l2: "lex cs1 False = (t2, cs2)" by fastforce
    show ?thesis
    proof (cases "t2 = T_TEXT")
      case True
      have s2: "lex_size cs2 < lex_size cs1" using lex_progress [OF l2] True by simp
      obtain i node1 where c: "config_create node (cs_text cs2) = (i, node1)" by fastforce
      obtain r cs3 child where "parse_expr_loop fuel cs2 (children node1 ! i) = Some (r, cs3, child)" "lex_size cs3 \<le> lex_size cs2"
        using 6(1) [OF l [symmetric] T_DOT l2 [symmetric] True c [symmetric] refl] 6(3) s s2 by auto
      then show ?thesis using l T_DOT l2 True c s s2 by simp
    next
      case False
      then show ?thesis using l T_DOT l2 lex_progress(1) [OF l2] s by (cases t2) auto
    qed
  next
    case T_OBRACE
    have s: "lex_size cs1 < lex_size cs" using lex_progress [OF l] T_OBRACE by simp
    obtain r cs2 node2 where "parse_block fuel cs1 node = Some (r, cs2, node2)" "lex_size cs2 \<le> lex_size cs1"
      using 6(2) [OF l [symmetric] T_OBRACE] 6(3) s by auto
    then show ?thesis using l T_OBRACE s by simp
  qed (use l lex_progress(1) [OF l] in auto)
qed auto

lemma load_loop_returns:
  "2 * lex_size cs + 1 \<le> fuel \<Longrightarrow> \<exists>root'. config_load_loop fuel cs root = Some root'"
proof (induction fuel arbitrary: cs root)
  case (Suc fuel)
  obtain t cs1 where l: "lex cs False = (t, cs1)" by fastforce
  show ?case
  proof (cases "t = T_TEXT")
    case True
    have s: "lex_size cs1 < lex_size cs" using lex_progress [OF l] True by simp
    obtain r cs2 root2 where e: "parse_expr fuel cs1 root = Some (r, cs2, root2)" "lex_size cs2 \<le> lex_size cs1"
      using parser_returns(2) [of cs1 fuel root] Suc.prems s by auto
    then show ?thesis using l True Suc.IH [of cs2 root2] Suc.prems s by auto
  next
    case False
    then show ?thesis using l by (cases t) auto
  qed
qed simp

section \<open>Printing\<close>

fun print_node :: "cnode \<Rightarrow> string" where
  "print_node (Cnode n v cs) =
     n @ '' '' @ (if v \<noteq> [] then v @ [newline]
                  else ''{'' @ [newline] @ concat (map print_node cs) @ ''}'' @ [newline])"

text \<open>
  Names and values that the lexer reads as one text; a node has a value or children with
  different names.
\<close>

definition plain_name :: "string \<Rightarrow> bool" where
  "plain_name n \<longleftrightarrow> n \<noteq> [] \<and> hd n \<noteq> CHR ''#'' \<and> (\<forall>c \<in> set n. \<not> isspace c \<and> \<not> punctuation c)"

definition plain_value :: "string \<Rightarrow> bool" where
  "plain_value v \<longleftrightarrow> v \<noteq> [] \<and> hd v \<noteq> CHR ''#'' \<and> \<not> isspace (hd v) \<and> \<not> punctuation (hd v) \<and>
     newline \<notin> set v \<and> \<not> isspace (last v)"

fun plain_node :: "cnode \<Rightarrow> bool" where
  "plain_node (Cnode n v cs) \<longleftrightarrow> plain_name n \<and> (v \<noteq> [] \<longrightarrow> cs = [] \<and> plain_value v) \<and>
     distinct (map node_name cs) \<and> (\<forall>c \<in> set cs. plain_node c)"

lemma lex_skip: "\<forall>c \<in> set ws. isspace c \<Longrightarrow> lex_scan cs v (ws @ d) = lex_scan cs v d"
  by (induction ws) (simp_all add: lex_scan.simps [of cs v "_ # _"])

lemma lex_name:
  assumes "plain_name n" "\<forall>c \<in> set ws. isspace c" "cs_next cs = None" "cs_data cs = ws @ n @ '' '' @ d"
  shows "lex cs False = (T_TEXT, cs\<lparr>cs_data := d, cs_text := n\<rparr>)"
proof -
  obtain c w where n: "n = c # w" using assms(1) by (cases n) (auto simp: plain_name_def)
  have w: "\<forall>x \<in> set w. \<not> isspace x \<and> \<not> punctuation x" "\<not> isspace c" "\<not> punctuation c" "c \<noteq> CHR ''#''"
    using assms(1) n by (auto simp: plain_name_def)
  have sp: "isspace (CHR '' '')" by (simp add: isspace_def)
  have "takeWhile (\<lambda>x. \<not> isspace x \<and> \<not> punctuation x) (w @ '' '' @ d) = w"
    "dropWhile (\<lambda>x. \<not> isspace x \<and> \<not> punctuation x) (w @ '' '' @ d) = '' '' @ d"
    using w(1) sp by (simp_all add: takeWhile_append dropWhile_append)
  then have "lex_word cs c (w @ '' '' @ d) = cs\<lparr>cs_data := d, cs_text := n\<rparr>"
    using sp n by (simp add: lex_word_def Let_def)
  then show ?thesis
    using w n assms(3,4) lex_skip [OF assms(2), of cs False "n @ '' '' @ d"]
    by (simp add: lex_def lex_scan.simps [of cs False "_ # _"])
qed

lemma lex_line:
  assumes "plain_value v" "cs_next cs = None" "cs_data cs = v @ newline # d"
  shows "lex cs True = (T_TEXT, cs\<lparr>cs_data := d, cs_text := v\<rparr>)"
proof -
  obtain c w where v: "v = c # w" using assms(1) by (cases v) (auto simp: plain_value_def)
  have w: "newline \<notin> set w" "\<not> isspace c" "\<not> punctuation c" "c \<noteq> CHR ''#''"
    using assms(1) v by (auto simp: plain_value_def)
  have "takeWhile (\<lambda>x. x \<noteq> newline) (w @ newline # d) = w" "dropWhile (\<lambda>x. x \<noteq> newline) (w @ newline # d) = newline # d"
    using w(1) by (auto simp: takeWhile_append dropWhile_append)
  moreover have "dropWhile isspace (rev w) = rev w"
    using assms(1) v by (cases w rule: rev_cases) (auto simp: plain_value_def)
  ultimately have "lex_value cs c (w @ newline # d) = cs\<lparr>cs_data := d, cs_text := v\<rparr>"
    using v by (simp add: lex_value_def Let_def)
  then show ?thesis
    using w v assms(2,3) by (simp add: lex_def lex_scan.simps [of cs True "_ # _"])
qed

lemma lex_brace:
  assumes "c = CHR ''{'' \<or> c = CHR ''}''" "\<forall>x \<in> set ws. isspace x" "cs_next cs = None" "cs_data cs = ws @ c # d"
  shows "lex cs v = (punctuation_token c, cs\<lparr>cs_data := d\<rparr>)"
proof -
  have "\<not> isspace c" "punctuation c" "c \<noteq> CHR ''#''" using assms(1) by (auto simp: isspace_def punctuation_def)
  then show ?thesis
    using assms(3,4) lex_skip [OF assms(2), of cs v "c # d"] by (simp add: lex_def lex_scan.simps [of cs v "c # d"])
qed

text \<open>The state of the lexer after a printed node: only blanks before what follows.\<close>

definition ready :: "cstate \<Rightarrow> string \<Rightarrow> bool" where
  "ready cs d \<longleftrightarrow> cs_next cs = None \<and> (\<exists>ws. (\<forall>c \<in> set ws. isspace c) \<and> cs_data cs = ws @ d)"

definition add_child :: "cnode \<Rightarrow> cnode \<Rightarrow> cnode" where
  "add_child root t = Cnode (node_name root) (node_value root) (children root @ [t])"

lemma parse_expr_new:
  assumes "cs_text cs \<notin> node_name ` set (children root)"
    and "parse_expr_loop fuel cs (config_node (Some (cs_text cs)) None) = Some (r, cs', node)"
  shows "parse_expr (Suc fuel) cs root = Some (r, cs', add_child root node)"
proof -
  have "config_find root (cs_text cs) = None" using assms(1) by (simp add: config_find_None)
  then show ?thesis
    using assms(2) by (simp add: config_create_def Let_def update_child_def add_child_def)
qed

text \<open>Reading back one node behind its name, and a block of nodes.\<close>

definition reads_back :: "cnode \<Rightarrow> bool" where
  "reads_back t \<longleftrightarrow> (\<forall>cs root d fuel. plain_node t \<and> node_name t \<notin> node_name ` set (children root) \<and>
     cs_next cs = None \<and> cs_text cs = node_name t \<and> node_name t @ '' '' @ cs_data cs = print_node t @ d \<and>
     2 * length (cs_data cs) + 2 \<le> fuel \<longrightarrow>
     (\<exists>cs'. parse_expr fuel cs root = Some (0, cs', add_child root t) \<and> ready cs' d \<and>
        lex_size cs' \<le> length (cs_data cs)))"

lemma print_node_name: "print_node t = node_name t @ '' '' @ drop (length (node_name t) + 1) (print_node t)"
  by (cases t) simp

lemma read_one:
  assumes "reads_back t" "plain_node t" "node_name t \<notin> node_name ` set (children root)"
    and "ready cs (print_node t @ d)" "2 * lex_size cs \<le> fuel"
  shows "\<exists>cs1 cs'. lex cs False = (T_TEXT, cs1) \<and> parse_expr fuel cs1 root = Some (0, cs', add_child root t) \<and>
    ready cs' d \<and> lex_size cs' < lex_size cs"
proof -
  obtain ws where ws: "\<forall>c \<in> set ws. isspace c" "cs_data cs = ws @ print_node t @ d" "cs_next cs = None"
    using assms(4) by (auto simp: ready_def)
  let ?b = "drop (length (node_name t) + 1) (print_node t) @ d"
  let ?cs1 = "cs\<lparr>cs_data := ?b, cs_text := node_name t\<rparr>"
  have "plain_name (node_name t)" using assms(2) by (cases t) simp
  moreover have "cs_data cs = ws @ node_name t @ '' '' @ ?b" using ws(2) print_node_name [of t] by (metis append.assoc)
  ultimately have l: "lex cs False = (T_TEXT, ?cs1)" using ws by (intro lex_name) auto
  have s: "lex_size ?cs1 < lex_size cs" using lex_progress(2) [OF l] by simp
  have "length ?b = lex_size ?cs1" using ws(3) by (simp add: lex_size_def)
  then have "\<exists>cs'. parse_expr fuel ?cs1 root = Some (0, cs', add_child root t) \<and> ready cs' d \<and> lex_size cs' \<le> length ?b"
    using assms(1-3,5) ws(3) s print_node_name [of t] unfolding reads_back_def
    by (elim allE [of _ ?cs1] allE [of _ root] allE [of _ d] allE [of _ fuel] impE) (auto simp: lex_size_def)
  then show ?thesis using l s \<open>length ?b = lex_size ?cs1\<close> by auto
qed

lemma read_block:
  assumes "\<forall>t \<in> set ts. reads_back t \<and> plain_node t" "distinct (map node_name (children node @ ts))"
    and "ready cs (concat (map print_node ts) @ ''}'' @ d)" "2 * lex_size cs + 1 \<le> fuel"
  shows "\<exists>cs'. parse_block fuel cs node =
      Some (0, cs', Cnode (node_name node) (node_value node) (children node @ ts)) \<and> ready cs' d \<and> lex_size cs' < lex_size cs"
  using assms
proof (induction ts arbitrary: cs node fuel)
  case Nil
  obtain ws where ws: "\<forall>c \<in> set ws. isspace c" "cs_data cs = ws @ CHR ''}'' # d" "cs_next cs = None"
    using Nil(3) by (auto simp: ready_def)
  have l: "lex cs False = (T_CBRACE, cs\<lparr>cs_data := d\<rparr>)"
    using lex_brace [of "CHR ''}''" ws cs d False] ws by (simp add: punctuation_token_def)
  have "lex_size (cs\<lparr>cs_data := d\<rparr>) < lex_size cs" using lex_progress(2) [OF l] by simp
  moreover have "ready (cs\<lparr>cs_data := d\<rparr>) d" using ws(3) by (auto simp: ready_def intro: exI [of _ "[]"])
  moreover obtain f where "fuel = Suc f" using Nil(4) by (cases fuel) auto
  ultimately show ?case using l by (cases node) simp
next
  case (Cons t ts)
  obtain f where f: "fuel = Suc f" using Cons.prems(4) by (cases fuel) auto
  have "ready cs (print_node t @ concat (map print_node ts) @ ''}'' @ d)" using Cons.prems(3) by simp
  then obtain cs1 cs2 where s: "lex cs False = (T_TEXT, cs1)" "parse_expr f cs1 node = Some (0, cs2, add_child node t)"
    "ready cs2 (concat (map print_node ts) @ ''}'' @ d)" "lex_size cs2 < lex_size cs"
    using read_one [of t node cs "concat (map print_node ts) @ ''}'' @ d" f] Cons.prems f by (auto simp: image_iff)
  have "distinct (map node_name (children (add_child node t) @ ts))" using Cons.prems(2) by (simp add: add_child_def)
  then obtain cs3 where "parse_block f cs2 (add_child node t) =
      Some (0, cs3, Cnode (node_name node) (node_value node) (children node @ t # ts))" "ready cs3 d" "lex_size cs3 < lex_size cs2"
    using Cons.IH [of "add_child node t" cs2 f] Cons.prems(1,4) s(3,4) f by (auto simp: add_child_def)
  then show ?case using f s(1,2,4) by simp
qed

lemma all_read_back: "reads_back t"
proof (induction t)
  case (Cnode n v ts)
  show ?case
    unfolding reads_back_def
  proof (intro allI impI, elim conjE)
    fix cs :: cstate and root d fuel
    assume plain: "plain_node (Cnode n v ts)" and new: "node_name (Cnode n v ts) \<notin> node_name ` set (children root)"
      and nx: "cs_next cs = None" and tx: "cs_text cs = node_name (Cnode n v ts)"
      and data: "node_name (Cnode n v ts) @ '' '' @ cs_data cs = print_node (Cnode n v ts) @ d"
      and fuel: "2 * length (cs_data cs) + 2 \<le> fuel"
    obtain f where f: "fuel = Suc (Suc f)" using fuel by (cases fuel; cases "fuel - 1") auto
    have new': "cs_text cs \<notin> node_name ` set (children root)" using new tx by simp
    let ?node = "config_node (Some (cs_text cs)) None"
    have node: "?node = Cnode n [] []" using tx by (simp add: config_node_def)
    have sz: "lex_size cs = length (cs_data cs)" using nx by (simp add: lex_size_def)
    show "\<exists>cs'. parse_expr fuel cs root = Some (0, cs', add_child root (Cnode n v ts)) \<and> ready cs' d \<and>
        lex_size cs' \<le> length (cs_data cs)"
    proof (cases "v = []")
      case False
      then have "cs_data cs = v @ newline # d" "ts = []" "plain_value v" using data plain by auto
      then have l: "lex cs True = (T_TEXT, cs\<lparr>cs_data := d, cs_text := v\<rparr>)" using nx by (intro lex_line)
      have "parse_expr_loop (Suc f) cs ?node = Some (0, cs\<lparr>cs_data := d, cs_text := v\<rparr>, Cnode n v ts)"
        using l node \<open>ts = []\<close> by (simp add: set_value_def)
      from parse_expr_new [OF new' this] show ?thesis
        using f nx lex_progress(1) [OF l] sz by (auto simp: ready_def intro: exI [of _ "[]"])
    next
      case True
      then have d: "cs_data cs = CHR ''{'' # newline # concat (map print_node ts) @ ''}'' @ newline # d" using data by simp
      let ?b = "newline # concat (map print_node ts) @ ''}'' @ newline # d"
      have l: "lex cs True = (T_OBRACE, cs\<lparr>cs_data := ?b\<rparr>)"
        using lex_brace [of "CHR ''{''" "[]" cs ?b True] d nx by (simp add: punctuation_token_def)
      have nl: "isspace newline" by (simp add: newline_def isspace_def)
      then have r: "ready (cs\<lparr>cs_data := ?b\<rparr>) (concat (map print_node ts) @ ''}'' @ newline # d)"
        using nx by (auto simp: ready_def intro: exI [of _ "[newline]"])
      have s: "lex_size (cs\<lparr>cs_data := ?b\<rparr>) < lex_size cs" using lex_progress(2) [OF l] by simp
      have "\<forall>t \<in> set ts. reads_back t \<and> plain_node t" "distinct (map node_name (children ?node @ ts))"
        using Cnode.IH plain node by auto
      from read_block [OF this r, of f] obtain cs' where
        b: "parse_block f (cs\<lparr>cs_data := ?b\<rparr>) ?node = Some (0, cs', Cnode n v ts)" "ready cs' (newline # d)"
        "lex_size cs' < lex_size (cs\<lparr>cs_data := ?b\<rparr>)"
        using s sz fuel f node True by auto
      have "parse_expr_loop (Suc f) cs ?node = Some (0, cs', Cnode n v ts)" using l b(1) by simp
      moreover have "ready cs' d"
      proof -
        obtain ws where "cs_next cs' = None" "\<forall>c \<in> set ws. isspace c" "cs_data cs' = ws @ newline # d"
          using b(2) by (auto simp: ready_def)
        then show ?thesis using nl by (auto simp: ready_def intro: exI [of _ "ws @ [newline]"])
      qed
      ultimately show ?thesis
        using parse_expr_new [OF new', of "Suc f" 0 cs' "Cnode n v ts"] f b(3) s sz by auto
    qed
  qed
qed

end
