(* ===== verification/Config_Props.thy ===== *)
theory Config_Props
  imports Config_Correct
begin

text \<open>What the configuration trees guarantee.\<close>

section \<open>Looking up after setting\<close>

lemma find_last_names:
  "map node_name cs = map node_name cs' \<Longrightarrow> find_last name i cs m = find_last name i cs' m"
proof (induction cs arbitrary: cs' i m)
  case (Cons c cs)
  from Cons.prems obtain c' ds where c: "cs' = c' # ds" "node_name c = node_name c'" "map node_name cs = map node_name ds"
    by (cases cs') simp_all
  show ?case unfolding c(1) find_last.simps c(2) by (rule Cons.IH [OF c(3)])
qed simp

lemma find_last_append:
  "find_last name i (cs @ [c]) m = (if node_name c = name then Some (i + length cs) else find_last name i cs m)"
  by (induction cs arbitrary: i m) simp_all

lemma find_update:
  assumes "i < length (children root)" "node_name node = node_name (children root ! i)"
  shows "config_find (update_child root i node) k = config_find root k"
proof -
  have "map node_name ((children root)[i := node]) = map node_name (children root)"
    using assms by (simp add: map_update list_update_same_conv)
  then show ?thesis unfolding config_find_def update_child_def cnode.sel by (rule find_last_names)
qed

lemma find_created:
  "config_find (snd (config_create root name)) k =
     (if k = name then Some (length (children root)) else config_find root k)"
  by (auto simp: config_find_def config_create_def find_last_append config_node_def)

text \<open>
  The children of a node are a table: after \<open>config_set\<close> a lookup of the name gives the new
  value, and every other name, present or not, what it gave before; \<open>config_find\<close> names the last
  child with the name, and \<open>config_bool\<close> reads its first character.
\<close>

theorem config_set_get:
  "config_str (config_set root name v) k dflt = (if k = name then Some v else config_str root k dflt) \<and>
   config_bool (config_set root name v) name b = (if v \<noteq> [] \<and> hd v \<in> set ''yY1'' then 1 else 0) \<and>
   (case config_find root k of
      None \<Rightarrow> k \<notin> node_name ` set (children root)
    | Some i \<Rightarrow> i < length (children root) \<and> node_name (children root ! i) = k \<and>
        k \<notin> node_name ` set (drop (Suc i) (children root)))"
proof (intro conjI)
  show "case config_find root k of
      None \<Rightarrow> k \<notin> node_name ` set (children root)
    | Some i \<Rightarrow> i < length (children root) \<and> node_name (children root ! i) = k \<and>
        k \<notin> node_name ` set (drop (Suc i) (children root))"
    using config_find_None [of root k] config_find_Some [of root k] by (auto split: option.splits)
  have "\<exists>r i. config_set root name v = update_child r i (set_value (children r ! i) v) \<and> i < length (children r) \<and>
      config_find r name = Some i \<and>
      (\<forall>k. k \<noteq> name \<longrightarrow> config_str r k dflt = config_str root k dflt) \<and>
      (\<forall>k. k \<noteq> name \<longrightarrow> config_find r k \<noteq> Some i)"
  proof (cases "config_find root name")
    case None
    let ?r = "snd (config_create root name)" and ?i = "length (children root)"
    have "config_str ?r k dflt = config_str root k dflt" if "k \<noteq> name" for k
    proof (cases "config_find root k")
      case (Some j)
      then have "j < length (children root)" using config_find_Some by blast
      then show ?thesis using Some that
        by (simp add: config_str_def find_created) (simp add: config_create_def nth_append)
    qed (use that in \<open>simp add: config_str_def find_created\<close>)
    moreover have "config_find ?r k \<noteq> Some ?i" if "k \<noteq> name" for k
      using that config_find_Some [of root k ?i] by (auto simp: find_created)
    moreover have "config_set root name v = update_child ?r ?i (set_value (children ?r ! ?i) v)" "?i < length (children ?r)"
      using None by (simp_all add: config_set_def config_create_def)
    ultimately show ?thesis using find_created [of root name name] by auto
  next
    case (Some i)
    then have "i < length (children root)" "node_name (children root ! i) = name" using config_find_Some by blast+
    moreover have "config_find root k \<noteq> Some i" if "k \<noteq> name" for k
      using that config_find_Some [of root k i] calculation by auto
    ultimately show ?thesis using Some by (auto simp: config_set_def)
  qed
  then obtain r i where r: "config_set root name v = update_child r i (set_value (children r ! i) v)" "i < length (children r)"
    "config_find r name = Some i" "\<And>k. k \<noteq> name \<Longrightarrow> config_str r k dflt = config_str root k dflt"
    "\<And>k. k \<noteq> name \<Longrightarrow> config_find r k \<noteq> Some i" by blast
  have f: "config_find (config_set root name v) k = config_find r k" for k
    unfolding r(1) by (rule find_update [OF r(2)]) (simp add: set_value_def)
  have at: "children (config_set root name v) ! i = set_value (children r ! i) v"
    using r(1,2) by (simp add: update_child_def)
  show "config_str (config_set root name v) k dflt = (if k = name then Some v else config_str root k dflt)"
  proof (cases "k = name")
    case True
    then show ?thesis using f [of name] r(3) at by (simp add: config_str_def set_value_def)
  next
    case False
    then have "config_str (config_set root name v) k dflt = config_str r k dflt"
      using f [of k] r(1) r(5) [of k] by (auto simp: config_str_def update_child_def split: option.splits)
    then show ?thesis using False r(4) by simp
  qed
  show "config_bool (config_set root name v) name b = (if v \<noteq> [] \<and> hd v \<in> set ''yY1'' then 1 else 0)"
    using f [of name] r(3) at by (auto simp: config_bool_def set_value_def split: list.splits)
qed

section \<open>Loading\<close>

text \<open>
  C29.  \<open>config_load\<close> returns on every file, well formed or not: the lexer moves forward with every
  token it delivers.
\<close>

theorem config_load_returns: "\<exists>root'. config_load root data = Some root'"
proof (cases data)
  case (Some d)
  then show ?thesis
    using load_loop_returns [of "\<lparr>cs_data = d, cs_text = [], cs_next = None\<rparr>" "3 * length d + 3" root]
    by (simp add: config_load_def lex_size_def)
qed (simp add: config_load_def)

lemma lex_at_end:
  assumes "ready cs []"
  shows "fst (lex cs False) = T_EOF"
proof -
  obtain ws where "cs_next cs = None" "\<forall>c \<in> set ws. isspace c" "cs_data cs = ws" using assms by (auto simp: ready_def)
  then show ?thesis using lex_skip [of ws cs False "[]"] by (simp add: lex_def lex_scan.simps [of cs False "[]"])
qed

lemma load_printed:
  assumes "\<forall>t \<in> set ts. plain_node t" "distinct (map node_name (children root @ ts))"
    and "ready cs (concat (map print_node ts))" "2 * lex_size cs + 1 \<le> fuel"
  shows "config_load_loop fuel cs root = Some (Cnode (node_name root) (node_value root) (children root @ ts))"
  using assms
proof (induction ts arbitrary: cs root fuel)
  case Nil
  obtain f where "fuel = Suc f" using Nil(4) by (cases fuel) auto
  then show ?case using lex_at_end [of cs] Nil(3) by (cases root; cases "lex cs False") auto
next
  case (Cons t ts)
  obtain f where f: "fuel = Suc f" using Cons.prems(4) by (cases fuel) auto
  have "ready cs (print_node t @ concat (map print_node ts))" using Cons.prems(3) by simp
  then obtain cs1 cs2 where s: "lex cs False = (T_TEXT, cs1)" "parse_expr f cs1 root = Some (0, cs2, add_child root t)"
    "ready cs2 (concat (map print_node ts))" "lex_size cs2 < lex_size cs"
    using read_one [OF all_read_back, of t root cs "concat (map print_node ts)" f] Cons.prems f by (auto simp: image_iff)
  have "distinct (map node_name (children (add_child root t) @ ts))" using Cons.prems(2) by (simp add: add_child_def)
  then show ?case
    using Cons.IH [of "add_child root t" cs2 f] Cons.prems(1,4) s f by (simp add: add_child_def)
qed

text \<open>
  C28.  Round trip: loading the printed form of a list of trees, nested to any depth, adds exactly
  these trees as children of the root, when their names and values can be written and no two
  siblings have the same name.
\<close>

theorem config_roundtrip:
  assumes "\<And>t. t \<in> set ts \<Longrightarrow> plain_node t" "distinct (map node_name (children root @ ts))"
  shows "config_load root (Some (concat (map print_node ts))) =
    Some (Cnode (node_name root) (node_value root) (children root @ ts))"
proof -
  let ?d = "concat (map print_node ts)"
  let ?cs = "\<lparr>cs_data = ?d, cs_text = [], cs_next = None\<rparr> :: cstate"
  have "ready ?cs ?d" by (auto simp: ready_def intro: exI [of _ "[]"])
  then show ?thesis
    using load_printed [of ts root ?cs "3 * length ?d + 3"] assms by (simp add: config_load_def lex_size_def)
qed

theorem config_roundtrip_witness:
  "config_load (Cnode '''' '''' []) (Some (concat (map print_node
     [Cnode ''a'' ''x y'' [], Cnode ''b'' '''' [Cnode ''a'' ''1'' [], Cnode ''c'' '''' []]]))) =
   Some (Cnode '''' '''' [Cnode ''a'' ''x y'' [], Cnode ''b'' '''' [Cnode ''a'' ''1'' [], Cnode ''c'' '''' []]])"
proof -
  have "list_all plain_node [Cnode ''a'' ''x y'' [], Cnode ''b'' '''' [Cnode ''a'' ''1'' [], Cnode ''c'' '''' []]]" by code_simp
  then have p: "\<And>t. t \<in> set [Cnode ''a'' ''x y'' [], Cnode ''b'' '''' [Cnode ''a'' ''1'' [], Cnode ''c'' '''' []]] \<Longrightarrow> plain_node t"
    by (simp only: list_all_iff)
  show ?thesis
    using config_roundtrip [of "[Cnode ''a'' ''x y'' [], Cnode ''b'' '''' [Cnode ''a'' ''1'' [], Cnode ''c'' '''' []]]" "Cnode '''' '''' []", OF p]
    by simp
qed

text \<open>The value of a last line without newline keeps the blanks that other lines lose.\<close>

lemma value_at_end_keeps_blanks:
  "config_load (Cnode '''' '''' []) (Some ''k v '') = Some (Cnode '''' '''' [Cnode ''k'' ''v '' []])"
  "config_load (Cnode '''' '''' []) (Some (''k v '' @ [newline])) = Some (Cnode '''' '''' [Cnode ''k'' ''v'' []])"
  by code_simp+

end
