(* ===== verification/Tag_Props.thy ===== *)
theory Tag_Props
  imports Tag_Tables
begin

text \<open>The lookups of tag names and types, over all 32-bit tags.\<close>




end
