(* ===== verification/Process_Utils.thy ===== *)
theory Process_Utils
  imports C_Strings
begin

text \<open>
  Three small services of \<open>cutils\<close>: the numbering of users and applications (\<open>multiuser.c\<close>), native
  handles (\<open>native_handle.c\<close>) and the name of the process (\<open>process_name.c\<close>, as built without
  \<open>HAVE_ANDROID_OS\<close>).
\<close>

section \<open>Users\<close>

definition MULTIUSER_APP_PER_USER_RANGE :: u32 where
  "MULTIUSER_APP_PER_USER_RANGE = 100000"

definition multiuser_get_user_id :: "u32 \<Rightarrow> u32" where
  "multiuser_get_user_id uid = uid div MULTIUSER_APP_PER_USER_RANGE"

definition multiuser_get_app_id :: "u32 \<Rightarrow> u32" where
  "multiuser_get_app_id uid = uid mod MULTIUSER_APP_PER_USER_RANGE"

definition multiuser_get_uid :: "u32 \<Rightarrow> u32 \<Rightarrow> u32" where
  "multiuser_get_uid userId appId =
     userId * MULTIUSER_APP_PER_USER_RANGE + appId mod MULTIUSER_APP_PER_USER_RANGE"

section \<open>Native handles\<close>

text \<open>The header and the integers behind it; an \<open>int\<close> has four bytes and the header three of them.\<close>

record native_handle =
  nh_version :: u32
  nh_numFds :: u32
  nh_numInts :: u32
  nh_data :: "u32 list"

definition sizeof_native_handle_t :: u64 where
  "sizeof_native_handle_t = 12"

definition kMaxNativeFds :: u32 where
  "kMaxNativeFds = 1024"

definition kMaxNativeInts :: u32 where
  "kMaxNativeInts = 1024"

text \<open>
  \<open>malloc\<close> gives the integers that the block holds behind the header, or \<open>None\<close>.
\<close>

definition native_handle_create ::
    "(u64 \<Rightarrow> u32 list option) \<Rightarrow> u32 \<Rightarrow> u32 \<Rightarrow> native_handle option" where
  "native_handle_create malloc numFds numInts =
     (if sint numFds < 0 \<or> sint numInts < 0 \<or> sint numFds > sint kMaxNativeFds \<or> sint numInts > sint kMaxNativeInts
      then None
      else
        let mallocSize = sizeof_native_handle_t + 4 * scast (numFds + numInts) in
        case malloc mallocSize of
          None \<Rightarrow> None
        | Some d \<Rightarrow> Some \<lparr>nh_version = ucast sizeof_native_handle_t, nh_numFds = numFds, nh_numInts = numInts, nh_data = d\<rparr>)"

text \<open>The result, and whether the handle has been freed.\<close>

definition native_handle_delete :: "native_handle option \<Rightarrow> int \<times> bool" where
  "native_handle_delete h =
     (case h of
        None \<Rightarrow> (0, False)
      | Some h \<Rightarrow> if ucast (nh_version h) \<noteq> sizeof_native_handle_t then (- 22, False) else (0, True))"

text \<open>The descriptors that are closed, in this order; reading behind the integers is a \<open>Fault\<close>.\<close>

fun close_fds :: "nat \<Rightarrow> nat \<Rightarrow> u32 list \<Rightarrow> u32 list exec" where
  "close_fds 0 i d = Ret []"
| "close_fds (Suc n) i d = (if i < length d then bindE (close_fds n (Suc i) d) (\<lambda>fds. Ret (d ! i # fds)) else Fault)"

definition native_handle_close :: "native_handle \<Rightarrow> (int \<times> u32 list) exec" where
  "native_handle_close h =
     (if ucast (nh_version h) \<noteq> sizeof_native_handle_t then Ret (- 22, [])
      else bindE (close_fds (nat (sint (nh_numFds h))) 0 (nh_data h)) (\<lambda>fds. Ret (0, fds)))"

section \<open>The name of the process\<close>

text \<open>The variable of the library and the name that the kernel keeps.\<close>

record process =
  process_name :: string
  kernel_name :: string

text \<open>\<open>prctl (PR_SET_NAME, s)\<close> keeps at most 15 characters of the string.\<close>

definition prctl_set_name :: "string \<Rightarrow> process \<Rightarrow> process" where
  "prctl_set_name s p = p\<lparr>kernel_name := take 15 s\<rparr>"

definition set_process_name :: "string option \<Rightarrow> process \<Rightarrow> process" where
  "set_process_name new_name p =
     (case new_name of
        None \<Rightarrow> p
      | Some s \<Rightarrow>
          let len = length s;
              p = p\<lparr>process_name := s\<rparr>
          in if len < 16 then prctl_set_name s p else prctl_set_name (drop (len - 15) s) p)"

definition get_process_name :: "process \<Rightarrow> string" where
  "get_process_name p = process_name p"

section \<open>Properties\<close>

text \<open>
  User and application identify a uid: every uid is composed again from its two parts, and
  the parts of a composed uid are the user and the application, as long as the product does
  not wrap around.
\<close>

theorem multiuser_roundtrip:
  "multiuser_get_uid (multiuser_get_user_id uid) (multiuser_get_app_id uid) = uid \<and>
   (unat user < 42949 \<longrightarrow>
      multiuser_get_user_id (multiuser_get_uid user app) = user \<and>
      multiuser_get_app_id (multiuser_get_uid user app) = app mod MULTIUSER_APP_PER_USER_RANGE)"
proof (intro conjI impI)
  have "uid mod MULTIUSER_APP_PER_USER_RANGE mod MULTIUSER_APP_PER_USER_RANGE = uid mod MULTIUSER_APP_PER_USER_RANGE"
    by (simp add: word_unat_eq_iff unat_mod)
  then show "multiuser_get_uid (multiuser_get_user_id uid) (multiuser_get_app_id uid) = uid"
    by (simp add: multiuser_get_uid_def multiuser_get_user_id_def multiuser_get_app_id_def word_mod_div_equality)
  assume u: "unat user < 42949"
  have r: "unat MULTIUSER_APP_PER_USER_RANGE = 100000" by (simp add: MULTIUSER_APP_PER_USER_RANGE_def)
  have "unat (app mod MULTIUSER_APP_PER_USER_RANGE) = unat app mod 100000" by (simp add: unat_mod r)
  moreover have "unat app mod 100000 < 100000" by simp
  ultimately have c: "unat (multiuser_get_uid user app) = unat user * 100000 + unat app mod 100000"
    unfolding multiuser_get_uid_def using u by (simp add: unat_word_ariths r)
  show "multiuser_get_user_id (multiuser_get_uid user app) = user"
    unfolding word_unat_eq_iff multiuser_get_user_id_def unat_div r c by simp
  show "multiuser_get_app_id (multiuser_get_uid user app) = app mod MULTIUSER_APP_PER_USER_RANGE"
    unfolding word_unat_eq_iff multiuser_get_app_id_def unat_mod r c by simp
qed

theorem multiuser_roundtrip_witness:
  "multiuser_get_user_id (multiuser_get_uid 10 10007) = 10 \<and> multiuser_get_app_id (multiuser_get_uid 10 10007) = 10007"
  using multiuser_roundtrip [of 0 10 10007] by (simp add: MULTIUSER_APP_PER_USER_RANGE_def)

lemma close_fds_take: "i + n \<le> length d \<Longrightarrow> close_fds n i d = Ret (take n (drop i d))"
proof (induction n arbitrary: i)
  case (Suc n)
  then have "drop i d = d ! i # drop (Suc i) d" by (intro Cons_nth_drop_Suc [symmetric]) simp
  then show ?case using Suc by simp
qed simp

lemma handle_size:
  assumes "sint a \<in> {0..1024}" "sint b \<in> {0..1024}"
  shows "sizeof_native_handle_t + 4 * scast (a + b :: u32) = of_int (12 + 4 * (sint a + sint b))"
    and "unat (of_int (12 + 4 * (sint a + sint b)) :: u64) = nat (12 + 4 * (sint a + sint b))"
proof -
  have "sint (a + b) = sint a + sint b"
    using assms by (simp add: sint_word_ariths signed_take_bit_int_eq_self)
  then have "(scast (a + b) :: u64) = of_int (sint a + sint b)" unfolding scast_eq [where w = "a + b"] by simp
  then show "sizeof_native_handle_t + 4 * scast (a + b :: u32) = of_int (12 + 4 * (sint a + sint b))"
    by (simp add: sizeof_native_handle_t_def)
  show "unat (of_int (12 + 4 * (sint a + sint b)) :: u64) = nat (12 + 4 * (sint a + sint b))"
    unfolding unsigned_of_int using assms by (simp add: take_bit_int_eq_self)
qed

text \<open>
  C31.  Native handles: counts outside 0 to 1024 and a lack of memory give no handle; otherwise the
  block has room for exactly the integers of the handle, closing it closes exactly its
  descriptors and deleting it succeeds.  A handle of another version is refused by both.
\<close>

theorem native_handle_correct:
  assumes "\<And>n. malloc n = None \<or> (\<exists>d. malloc n = Some d \<and> 12 + 4 * length d = unat n)"
  shows "(case native_handle_create malloc numFds numInts of
      None \<Rightarrow> sint numFds \<notin> {0..1024} \<or> sint numInts \<notin> {0..1024} \<or>
        malloc (of_int (12 + 4 * (sint numFds + sint numInts))) = None
    | Some h \<Rightarrow> sint numFds \<in> {0..1024} \<and> sint numInts \<in> {0..1024} \<and>
        int (length (nh_data h)) = sint numFds + sint numInts \<and>
        native_handle_close h = Ret (0, take (nat (sint numFds)) (nh_data h)) \<and>
        native_handle_delete (Some h) = (0, True) \<and>
        (\<forall>v. v \<noteq> 12 \<longrightarrow> native_handle_close (h\<lparr>nh_version := v\<rparr>) = Ret (- 22, []) \<and>
                        native_handle_delete (Some (h\<lparr>nh_version := v\<rparr>)) = (- 22, False)))"
proof (cases "sint numFds \<in> {0..1024} \<and> sint numInts \<in> {0..1024}")
  case False
  then show ?thesis by (auto simp: native_handle_create_def kMaxNativeFds_def kMaxNativeInts_def)
next
  case True
  let ?n = "sint numFds + sint numInts"
  note size = handle_size [of numFds numInts] True
  show ?thesis
  proof (cases "malloc (of_int (12 + 4 * ?n))")
    case None
    then show ?thesis
      using size by (auto simp: native_handle_create_def kMaxNativeFds_def kMaxNativeInts_def Let_def)
  next
    case (Some d)
    let ?h = "\<lparr>nh_version = 12, nh_numFds = numFds, nh_numInts = numInts, nh_data = d\<rparr>"
    have h: "native_handle_create malloc numFds numInts = Some ?h"
      using size Some
      by (auto simp: native_handle_create_def kMaxNativeFds_def kMaxNativeInts_def Let_def sizeof_native_handle_t_def)
    have "12 + 4 * length d = nat (12 + 4 * ?n)" using assms [of "of_int (12 + 4 * ?n)"] Some size by auto
    then have len: "int (length d) = ?n" using True by auto
    then have "nat (sint numFds) \<le> length d" using True by auto
    then have "native_handle_close ?h = Ret (0, take (nat (sint numFds)) d)"
      using close_fds_take [of 0 "nat (sint numFds)" d] by (simp add: native_handle_close_def sizeof_native_handle_t_def)
    moreover have "(ucast v :: u64) \<noteq> 12" if "v \<noteq> 12" for v :: u32
    proof
      assume "(ucast v :: u64) = 12"
      then have "unat (ucast v :: u64) = 12" by simp
      moreover have "unat v < 2 ^ 32" using unsigned_less [of v] by simp
      ultimately have "unat v = 12" by (simp add: unsigned_ucast_eq take_bit_nat_eq_self)
      then show False using that by (simp add: word_unat_eq_iff)
    qed
    ultimately show ?thesis
      using h True len
      by (simp add: native_handle_close_def native_handle_delete_def sizeof_native_handle_t_def)
  qed
qed

text \<open>A \<open>malloc\<close> for handles, with recognisable contents.\<close>

definition handle_malloc :: "u64 \<Rightarrow> u32 list option" where
  "handle_malloc n =
     (if unat n mod 4 = 0 \<and> 12 \<le> unat n then Some (replicate ((unat n - 12) div 4) 7) else None)"

theorem native_handle_correct_witness:
  "\<exists>h. native_handle_create handle_malloc 2 1 = Some h \<and> length (nh_data h) = 3 \<and>
     native_handle_close h = Ret (0, take 2 (nh_data h)) \<and> native_handle_delete (Some h) = (0, True)"
proof -
  have "handle_malloc n = None \<or> (\<exists>d. handle_malloc n = Some d \<and> 12 + 4 * length d = unat n)" for n
    by (auto simp: handle_malloc_def)
  note r = native_handle_correct [of handle_malloc 2 1, OF this]
  have "map_option nh_data (native_handle_create handle_malloc 2 1) = Some [7, 7, 7]" by code_simp
  then obtain h where "native_handle_create handle_malloc 2 1 = Some h" by auto
  then show ?thesis using r by simp
qed

end
