(* ===== verification/Camera_Object.thy ===== *)
theory Camera_Object
  imports Metadata_Props
begin

text \<open>
  The class of \<open>android_support/CameraMetadata.cpp\<close>, a client of the packet operations: an object
  owns at most one packet, grows it when an update needs room, and refuses changes while a
  client holds the raw pointer (\<open>mLocked\<close>).  A \<open>const\<close> reference to another object is the value of
  that object; where the code could receive a pointer to its own packet, the operation compares
  addresses and touching a packet that was freed before is a \<open>Fault\<close>.  Log output is left out.
\<close>

section \<open>State\<close>

record CameraMetadata =
  mBuffer :: "camera_metadata option"
  mLocked :: bool

text \<open>A packet pointer as a number; \<open>NULL\<close> is 0.\<close>

definition buffer_addr :: "camera_metadata option \<Rightarrow> u64" where
  "buffer_addr buffer = (case buffer of None \<Rightarrow> 0 | Some m \<Rightarrow> md_addr m)"

section \<open>Owning a packet\<close>

definition CameraMetadata_empty :: CameraMetadata where
  "CameraMetadata_empty = \<lparr>mBuffer = None, mLocked = False\<rparr>"

definition CameraMetadata_sized ::
    "vendor_tag_ops option \<Rightarrow> allocator \<Rightarrow> u64 \<Rightarrow> u64 \<Rightarrow> CameraMetadata exec" where
  "CameraMetadata_sized vo malloc entryCapacity dataCapacity =
     bindE (allocate_camera_metadata vo malloc entryCapacity dataCapacity) (\<lambda>b.
     Ret \<lparr>mBuffer = b, mLocked = False\<rparr>)"

definition CameraMetadata_copy ::
    "vendor_tag_ops option \<Rightarrow> allocator \<Rightarrow> CameraMetadata \<Rightarrow> CameraMetadata exec" where
  "CameraMetadata_copy vo malloc other =
     bindE (clone_camera_metadata vo malloc (mBuffer other)) (\<lambda>b. Ret \<lparr>mBuffer = b, mLocked = False\<rparr>)"

definition clear :: "CameraMetadata \<Rightarrow> CameraMetadata" where
  "clear obj = (if mLocked obj then obj else obj\<lparr>mBuffer := None\<rparr>)"

text \<open>\<open>acquire (buffer)\<close> reads the new packet after it freed the old one.\<close>

definition acquire :: "vendor_tag_ops option \<Rightarrow> CameraMetadata \<Rightarrow> camera_metadata option \<Rightarrow> CameraMetadata exec" where
  "acquire vo obj buffer =
     (if mLocked obj then Ret obj
      else if mBuffer obj \<noteq> None \<and> buffer \<noteq> None \<and> buffer_addr buffer = buffer_addr (mBuffer obj) then Fault
      else bindE (validate_camera_metadata_structure vo buffer None) (\<lambda>_.
        Ret ((clear obj)\<lparr>mBuffer := buffer\<rparr>)))"

definition CameraMetadata_of_buffer ::
    "vendor_tag_ops option \<Rightarrow> camera_metadata option \<Rightarrow> CameraMetadata exec" where
  "CameraMetadata_of_buffer vo buffer = acquire vo CameraMetadata_empty buffer"

definition assign ::
    "vendor_tag_ops option \<Rightarrow> allocator \<Rightarrow> CameraMetadata \<Rightarrow> camera_metadata option \<Rightarrow> CameraMetadata exec" where
  "assign vo malloc obj buffer =
     (if mLocked obj then Ret obj
      else if buffer_addr buffer \<noteq> buffer_addr (mBuffer obj) then
        bindE (clone_camera_metadata vo malloc buffer) (\<lambda>newBuffer.
        Ret ((clear obj)\<lparr>mBuffer := newBuffer\<rparr>))
      else Ret obj)"

definition assign_object ::
    "vendor_tag_ops option \<Rightarrow> allocator \<Rightarrow> CameraMetadata \<Rightarrow> CameraMetadata \<Rightarrow> CameraMetadata exec" where
  "assign_object vo malloc obj other = assign vo malloc obj (mBuffer other)"

definition destroy :: "CameraMetadata \<Rightarrow> CameraMetadata" where
  "destroy obj = clear (obj\<lparr>mLocked := False\<rparr>)"

definition getAndLock :: "CameraMetadata \<Rightarrow> camera_metadata option \<times> CameraMetadata" where
  "getAndLock obj = (mBuffer obj, obj\<lparr>mLocked := True\<rparr>)"

definition unlock :: "CameraMetadata \<Rightarrow> u64 \<Rightarrow> int \<times> CameraMetadata" where
  "unlock obj buffer =
     (if \<not> mLocked obj then (INVALID_OPERATION, obj)
      else if buffer \<noteq> buffer_addr (mBuffer obj) then (BAD_VALUE, obj)
      else (OK, obj\<lparr>mLocked := False\<rparr>))"

definition release :: "CameraMetadata \<Rightarrow> camera_metadata option \<times> CameraMetadata" where
  "release obj = (if mLocked obj then (None, obj) else (mBuffer obj, obj\<lparr>mBuffer := None\<rparr>))"

text \<open>\<open>acquire (other)\<close> for two different objects; the result is this object and the other one.\<close>

definition acquire_from ::
    "vendor_tag_ops option \<Rightarrow> CameraMetadata \<Rightarrow> CameraMetadata \<Rightarrow> (CameraMetadata \<times> CameraMetadata) exec" where
  "acquire_from vo obj other =
     (if mLocked obj then Ret (obj, other)
      else case release other of (released, other) \<Rightarrow>
        bindE (acquire vo obj released) (\<lambda>obj. Ret (obj, other)))"

definition swap :: "CameraMetadata \<Rightarrow> CameraMetadata \<Rightarrow> CameraMetadata \<times> CameraMetadata" where
  "swap obj other =
     (if mLocked obj then (obj, other)
      else if mLocked other then (obj, other)
      else (obj\<lparr>mBuffer := mBuffer other\<rparr>, other\<lparr>mBuffer := mBuffer obj\<rparr>))"

section \<open>Growing\<close>

text \<open>
  When the larger packet cannot be allocated, the object has already given up its old one: the
  result holds no packet.  The status of \<open>append_camera_metadata\<close> is not looked at.
\<close>

definition resizeIfNeeded ::
    "vendor_tag_ops option \<Rightarrow> allocator \<Rightarrow> CameraMetadata \<Rightarrow> u64 \<Rightarrow> u64 \<Rightarrow> (int \<times> CameraMetadata) exec" where
  "resizeIfNeeded vo malloc obj extraEntries extraData =
     (if mBuffer obj = None then
        bindE (allocate_camera_metadata vo malloc (extraEntries * 2) (extraData * 2)) (\<lambda>b.
        Ret (if b = None then NO_MEMORY else OK, obj\<lparr>mBuffer := b\<rparr>))
      else
        bindE (get_camera_metadata_entry_count (mBuffer obj)) (\<lambda>currentEntryCount.
        bindE (get_camera_metadata_entry_capacity (mBuffer obj)) (\<lambda>currentEntryCap.
        let newEntryCount = currentEntryCount + extraEntries;
            newEntryCount = (if newEntryCount > currentEntryCap then newEntryCount * 2 else currentEntryCap) in
        bindE (get_camera_metadata_data_count (mBuffer obj)) (\<lambda>currentDataCount.
        bindE (get_camera_metadata_data_capacity (mBuffer obj)) (\<lambda>currentDataCap.
        let newDataCount = currentDataCount + extraData;
            newDataCount = (if newDataCount > currentDataCap then newDataCount * 2 else currentDataCap) in
        if newEntryCount > currentEntryCap \<or> newDataCount > currentDataCap then
          bindE (allocate_camera_metadata vo malloc newEntryCount newDataCount) (\<lambda>b.
          if b = None then Ret (NO_MEMORY, obj\<lparr>mBuffer := None\<rparr>)
          else bindE (append_camera_metadata vo b (mBuffer obj)) (\<lambda>(_, b).
            Ret (OK, obj\<lparr>mBuffer := b\<rparr>)))
        else Ret (OK, obj))))))"

text \<open>
  Appending a packet: the counts are read before the object grows.  When \<open>other\<close> is the object's own
  packet and the object was moved, the source was freed.
\<close>

definition append_buffer ::
    "vendor_tag_ops option \<Rightarrow> allocator \<Rightarrow> CameraMetadata \<Rightarrow> camera_metadata option \<Rightarrow> (int \<times> CameraMetadata) exec" where
  "append_buffer vo malloc obj other =
     (if mLocked obj then Ret (INVALID_OPERATION, obj)
      else
        bindE (get_camera_metadata_entry_count other) (\<lambda>extraEntries.
        bindE (get_camera_metadata_data_count other) (\<lambda>extraData.
        bindE (resizeIfNeeded vo malloc obj extraEntries extraData) (\<lambda>(_, obj').
        if mBuffer obj \<noteq> None \<and> buffer_addr other = buffer_addr (mBuffer obj) \<and>
           buffer_addr (mBuffer obj') \<noteq> buffer_addr (mBuffer obj) then Fault
        else bindE (append_camera_metadata vo (mBuffer obj') other) (\<lambda>(r, b).
          Ret (r, obj'\<lparr>mBuffer := b\<rparr>))))))"

definition append_object ::
    "vendor_tag_ops option \<Rightarrow> allocator \<Rightarrow> CameraMetadata \<Rightarrow> CameraMetadata \<Rightarrow> (int \<times> CameraMetadata) exec" where
  "append_object vo malloc obj other = append_buffer vo malloc obj (mBuffer other)"

definition entryCount :: "CameraMetadata \<Rightarrow> u64 exec" where
  "entryCount obj = (if mBuffer obj = None then Ret 0 else get_camera_metadata_entry_count (mBuffer obj))"

definition isEmpty :: "CameraMetadata \<Rightarrow> bool exec" where
  "isEmpty obj = bindE (entryCount obj) (\<lambda>n. Ret (n = 0))"

definition sort_object :: "vendor_tag_ops option \<Rightarrow> CameraMetadata \<Rightarrow> (int \<times> CameraMetadata) exec" where
  "sort_object vo obj =
     (if mLocked obj then Ret (INVALID_OPERATION, obj)
      else bindE (sort_camera_metadata vo (mBuffer obj)) (\<lambda>(r, b). Ret (r, obj\<lparr>mBuffer := b\<rparr>)))"

section \<open>Updating and finding\<close>

definition checkType :: "vendor_tag_ops option \<Rightarrow> u32 \<Rightarrow> u8 \<Rightarrow> int exec" where
  "checkType vo tag expectedType =
     bindE (get_camera_metadata_tag_type vo tag) (\<lambda>tagType.
     if tagType = -1 then Ret INVALID_OPERATION
     else if tagType \<noteq> uint expectedType then Ret INVALID_OPERATION
     else Ret OK)"

text \<open>
  The values of the caller are a block: the address they have and the bytes there.  The check for
  values inside the object's own packet lets its first address pass; after a move these bytes are freed.
\<close>

definition updateImpl ::
    "vendor_tag_ops option \<Rightarrow> allocator \<Rightarrow> CameraMetadata \<Rightarrow> u32 \<Rightarrow> block option \<Rightarrow> u64 \<Rightarrow>
     (int \<times> CameraMetadata) exec" where
  "updateImpl vo malloc obj tag data data_count =
     (if mLocked obj then Ret (INVALID_OPERATION, obj)
      else
        bindE (get_camera_metadata_tag_type vo tag) (\<lambda>type.
        if type = -1 then Ret (BAD_VALUE, obj)
        else
          let bufferSize = get_camera_metadata_size (mBuffer obj);
              bufAddr = buffer_addr (mBuffer obj);
              dataAddr = (case data of None \<Rightarrow> 0 | Some (a, _) \<Rightarrow> a) in
          if dataAddr > bufAddr \<and> dataAddr < bufAddr + bufferSize then Ret (INVALID_OPERATION, obj)
          else
            let data_size = calculate_camera_metadata_entry_data_size (word_of_int type) data_count in
            bindE (resizeIfNeeded vo malloc obj 1 data_size) (\<lambda>(res, obj).
            if res \<noteq> OK then Ret (res, obj)
            else if bufAddr \<noteq> 0 \<and> dataAddr = bufAddr \<and> buffer_addr (mBuffer obj) \<noteq> bufAddr then Fault
            else
              bindE (find_camera_metadata_entry (mBuffer obj) tag True) (\<lambda>(res, entry).
              if res = NAME_NOT_FOUND then
                bindE (add_camera_metadata_entry vo (mBuffer obj) tag (map_option snd data) data_count) (\<lambda>(res, b).
                Ret (res, obj\<lparr>mBuffer := b\<rparr>))
              else if res = OK then
                bindE (deref entry) (\<lambda>entry.
                bindE (update_camera_metadata_entry vo (mBuffer obj) (en_index entry) (map_option snd data)
                         data_count False) (\<lambda>(res, b, _).
                Ret (res, obj\<lparr>mBuffer := b\<rparr>)))
              else Ret (res, obj)))))"

text \<open>The overloads of \<open>update\<close> differ in the type they expect.\<close>

definition update_typed ::
    "u8 \<Rightarrow> vendor_tag_ops option \<Rightarrow> allocator \<Rightarrow> CameraMetadata \<Rightarrow> u32 \<Rightarrow> block option \<Rightarrow> u64 \<Rightarrow>
     (int \<times> CameraMetadata) exec" where
  "update_typed expectedType vo malloc obj tag data data_count =
     (if mLocked obj then Ret (INVALID_OPERATION, obj)
      else bindE (checkType vo tag expectedType) (\<lambda>res.
        if res \<noteq> OK then Ret (res, obj) else updateImpl vo malloc obj tag data data_count))"

definition update_int32 where
  "update_int32 = update_typed TYPE_INT32"

definition update_uint8 where
  "update_uint8 = update_typed TYPE_BYTE"

definition update_float where
  "update_float = update_typed TYPE_FLOAT"

definition update_int64 where
  "update_int64 = update_typed TYPE_INT64"

definition update_double where
  "update_double = update_typed TYPE_DOUBLE"

definition update_rational where
  "update_rational = update_typed TYPE_RATIONAL"

text \<open>A string is stored with its terminator; \<open>addr\<close> is where its characters are.\<close>

definition update_String8 ::
    "vendor_tag_ops option \<Rightarrow> allocator \<Rightarrow> CameraMetadata \<Rightarrow> u32 \<Rightarrow> u64 \<Rightarrow> u8 list \<Rightarrow> (int \<times> CameraMetadata) exec" where
  "update_String8 vo malloc obj tag addr str =
     update_typed TYPE_BYTE vo malloc obj tag (Some (addr, str @ [0])) (of_nat (length str) + 1)"

definition exists_tag :: "CameraMetadata \<Rightarrow> u32 \<Rightarrow> bool exec" where
  "exists_tag obj tag = bindE (find_camera_metadata_ro_entry (mBuffer obj) tag True) (\<lambda>(r, _). Ret (r = 0))"

text \<open>
  The entry that \<open>find\<close> returns by value.  An unsuccessful search returns an entry with count 0 and
  data pointer \<open>NULL\<close>; a locked object one with count 0 whose data pointer is not set.
\<close>

datatype found = Entry_found camera_metadata_entry | No_entry | Entry_unset

definition find_ro :: "CameraMetadata \<Rightarrow> u32 \<Rightarrow> found exec" where
  "find_ro obj tag =
     bindE (find_camera_metadata_ro_entry (mBuffer obj) tag True) (\<lambda>(res, entry).
     if res \<noteq> OK then Ret No_entry else bindE (deref entry) (\<lambda>e. Ret (Entry_found e)))"

definition find_entry :: "CameraMetadata \<Rightarrow> u32 \<Rightarrow> found exec" where
  "find_entry obj tag =
     (if mLocked obj then Ret Entry_unset
      else bindE (find_camera_metadata_entry (mBuffer obj) tag True) (\<lambda>(res, entry).
        if res \<noteq> OK then Ret No_entry else bindE (deref entry) (\<lambda>e. Ret (Entry_found e))))"

definition erase :: "vendor_tag_ops option \<Rightarrow> CameraMetadata \<Rightarrow> u32 \<Rightarrow> (int \<times> CameraMetadata) exec" where
  "erase vo obj tag =
     (if mLocked obj then Ret (INVALID_OPERATION, obj)
      else
        bindE (find_camera_metadata_entry (mBuffer obj) tag True) (\<lambda>(res, entry).
        if res = NAME_NOT_FOUND then Ret (OK, obj)
        else if res \<noteq> OK then Ret (res, obj)
        else
          bindE (deref entry) (\<lambda>entry.
          bindE (delete_camera_metadata_entry vo (mBuffer obj) (en_index entry)) (\<lambda>(res, b).
          Ret (res, obj\<lparr>mBuffer := b\<rparr>)))))"

end
