(* ===== verification/Camera_Object_Props.thy ===== *)
theory Camera_Object_Props
  imports Camera_Object
begin

text \<open>
  An object of \<open>CameraMetadata\<close> is a finite map from tags to typed values: updating, erasing and
  finding act on the map however often the packet is moved to a larger one, and a locked object
  does not change.
\<close>

section \<open>What an object holds\<close>

definition obj_items :: "CameraMetadata \<Rightarrow> item list" where
  "obj_items obj = (case mBuffer obj of None \<Rightarrow> [] | Some m \<Rightarrow> items m)"

definition obj_map :: "CameraMetadata \<Rightarrow> u32 \<rightharpoonup> u8 \<times> u8 list" where
  "obj_map obj = map_of (obj_items obj)"

text \<open>The packet is good and has at most one entry for each tag.\<close>

definition obj_ok :: "vendor_tag_ops option \<Rightarrow> CameraMetadata \<Rightarrow> bool" where
  "obj_ok vo obj \<longleftrightarrow> (\<forall>m. mBuffer obj = Some m \<longrightarrow> good_packet vo m) \<and> distinct (tags_of (obj_items obj))"

text \<open>\<open>malloc\<close> provides blocks below 4 GB.\<close>

definition ample :: "allocator \<Rightarrow> bool" where
  "ample malloc \<longleftrightarrow> (\<forall>sz. unat sz < 2 ^ 32 \<longrightarrow> (\<exists>b. malloc sz = Some b \<and> block_ok sz b))"

text \<open>The size of the packet that room for \<open>x\<close> more entries and \<open>y\<close> more bytes may ask for.\<close>

definition grown_bytes :: "CameraMetadata \<Rightarrow> nat \<Rightarrow> nat \<Rightarrow> nat" where
  "grown_bytes obj x y =
     (case mBuffer obj of None \<Rightarrow> packet_bytes (2 * x) (2 * y)
      | Some m \<Rightarrow> packet_bytes
          (max (unat (md_entry_capacity m)) (2 * (length (items m) + x)))
          (max (unat (md_data_capacity m)) (2 * (unat (md_data_count m) + y))))"

lemma packet_bytes_mono: "a \<le> a' \<Longrightarrow> b \<le> b' \<Longrightarrow> packet_bytes a b \<le> packet_bytes a' b'"
  by (auto simp: packet_bytes_def round8_def intro!: add_mono div_le_mono mult_le_mono)

lemma packet_bytes_bounds: "n < packet_bytes n d" "d < packet_bytes n d"
  using round8_ge [of "36 + 16 * n"] by (auto simp: packet_bytes_def)

lemma grow_word:
  fixes c cap x :: u64
  assumes "2 * (unat c + unat x) < 2 ^ 32"
  shows "c + x > cap \<longleftrightarrow> unat c + unat x > unat cap" "unat ((c + x) * 2) = 2 * (unat c + unat x)"
proof -
  have s: "unat (c + x) = unat c + unat x" using assms by (intro unat_add_lem [THEN iffD1]) simp
  then show "c + x > cap \<longleftrightarrow> unat c + unat x > unat cap" by (simp add: word_less_nat_alt)
  show "unat ((c + x) * 2) = 2 * (unat c + unat x)"
    using assms s by (simp add: unat_word_ariths)
qed

section \<open>Growing\<close>

lemma allocate_ample:
  assumes "ample malloc" "packet_bytes (unat n) (unat d) < 2 ^ 32"
  shows "\<exists>m. allocate_camera_metadata vo malloc n d = Ret (Some m) \<and> good_packet vo m \<and>
    abs_packet m = empty_store (unat n) (unat d)"
proof -
  have "unat (calculate_camera_metadata_size n d) < 2 ^ 32"
    using assms(2) calculate_size_eq [of n d] by simp
  with assms(1) obtain b where "malloc (calculate_camera_metadata_size n d) = Some b"
    "block_ok (calculate_camera_metadata_size n d) b" unfolding ample_def by blast
  from allocate_correct [where malloc = malloc, OF this assms(2), of vo] show ?thesis
    using empty_consistent [of "unat n" "unat d"] by (auto simp: good_packet_def)
qed

text \<open>Moving the items of a packet to an empty one with enough room.\<close>

lemma append_to_empty:
  assumes good: "good_packet vo b" "good_packet vo m" and e: "abs_packet b = empty_store n d"
    and room: "length (items m) \<le> n" "unat (md_data_count m) \<le> d"
  shows "\<exists>m'. append_camera_metadata vo (Some b) (Some m) = Ret (OK, Some m') \<and> good_packet vo m' \<and>
    abs_packet m' = (abs_packet m)\<lparr>st_entry_cap := n, st_data_cap := d\<rparr>"
proof -
  have cm: "st_items (abs_packet m) = items m" "st_used (abs_packet m) = unat (md_data_count m)"
    using good(2) by (auto simp: good_packet_def dest: abs_counts)
  have "st_used (abs_packet b) + st_used (abs_packet m) < 2 ^ 32"
    using unsigned_less [of "md_data_count m"] by (simp add: e empty_store_def cm)
  moreover have "\<not> sorted_mark_lost (abs_packet m) (abs_packet b)"
    by (simp add: sorted_mark_lost_def e empty_store_def)
  ultimately have "refines vo b (append_camera_metadata vo (Some b) (Some m))
      (spec_append (abs_packet m) (abs_packet b))"
    by (intro append_refines good)
  moreover have "spec_append (abs_packet m) (abs_packet b) =
      (OK, (abs_packet m)\<lparr>st_entry_cap := n, st_data_cap := d\<rparr>)"
    using room cm by (simp add: spec_append_def e empty_store_def append_sorted_def)
  ultimately show ?thesis by (auto simp: refines_def)
qed

lemma resize_correct:
  assumes good: "\<And>m. mBuffer obj = Some m \<Longrightarrow> good_packet vo m" and mem: "ample malloc"
    and small: "grown_bytes obj (unat x) (unat y) < 2 ^ 32"
  shows "\<exists>m'. resizeIfNeeded vo malloc obj x y = Ret (OK, obj\<lparr>mBuffer := Some m'\<rparr>) \<and> good_packet vo m' \<and>
    items m' = obj_items obj \<and>
    length (items m') + unat x \<le> unat (md_entry_capacity m') \<and>
    unat (md_data_count m') + unat y \<le> unat (md_data_capacity m')"
proof (cases "mBuffer obj")
  case None
  with small have s: "packet_bytes (2 * unat x) (2 * unat y) < 2 ^ 32" by (simp add: grown_bytes_def)
  have "2 * unat x < 2 ^ 32" "2 * unat y < 2 ^ 32" using s packet_bytes_bounds le_less_trans less_imp_le by metis+
  then have w: "unat (x * 2) = 2 * unat x" "unat (y * 2) = 2 * unat y"
    using grow_word(2) [of 0 x] grow_word(2) [of 0 y] by simp_all
  with allocate_ample [OF mem, of "x * 2" "y * 2" vo] s obtain m' where
    m': "allocate_camera_metadata vo malloc (x * 2) (y * 2) = Ret (Some m')" "good_packet vo m'"
    "abs_packet m' = empty_store (2 * unat x) (2 * unat y)" by auto
  then have "items m' = []" "md_data_count m' = 0" "unat (md_entry_capacity m') = 2 * unat x"
    "unat (md_data_capacity m') = 2 * unat y"
    by (auto simp: abs_packet_def empty_store_def word_unat_eq_iff)
  with None m' show ?thesis by (auto simp: resizeIfNeeded_def obj_items_def)
next
  case (Some m)
  have gm: "good_packet vo m" using good Some .
  then have ok: "packet_ok vo m" by blast
  note cm = abs_counts [OF ok]
  let ?E = "max (unat (md_entry_capacity m)) (2 * (length (items m) + unat x))"
    and ?D = "max (unat (md_data_capacity m)) (2 * (unat (md_data_count m) + unat y))"
  from small Some have s: "packet_bytes ?E ?D < 2 ^ 32" by (simp add: grown_bytes_def)
  have "?E < 2 ^ 32" "?D < 2 ^ 32" using s packet_bytes_bounds [where n = ?E and d = ?D] by linarith+
  then have we: "2 * (unat (ucast (md_entry_count m) :: u64) + unat x) < 2 ^ 32"
    and wd: "2 * (unat (ucast (md_data_count m) :: u64) + unat y) < 2 ^ 32"
    using cm(2) by simp_all
  define E where "E = (if ucast (md_entry_count m) + x > (ucast (md_entry_capacity m) :: u64)
    then (ucast (md_entry_count m) + x) * 2 else ucast (md_entry_capacity m))"
  define D where "D = (if ucast (md_data_count m) + y > (ucast (md_data_capacity m) :: u64)
    then (ucast (md_data_count m) + y) * 2 else ucast (md_data_capacity m))"
  have E: "unat E = (if length (items m) + unat x > unat (md_entry_capacity m)
      then 2 * (length (items m) + unat x) else unat (md_entry_capacity m))"
    using grow_word [OF we] cm(2) by (simp add: E_def)
  have D: "unat D = (if unat (md_data_count m) + unat y > unat (md_data_capacity m)
      then 2 * (unat (md_data_count m) + unat y) else unat (md_data_capacity m))"
    using grow_word [OF wd] by (simp add: D_def)
  have run: "resizeIfNeeded vo malloc obj x y =
      (if E > ucast (md_entry_capacity m) \<or> D > ucast (md_data_capacity m) then
         bindE (allocate_camera_metadata vo malloc E D) (\<lambda>b.
           if b = None then Ret (NO_MEMORY, obj\<lparr>mBuffer := None\<rparr>)
           else bindE (append_camera_metadata vo b (mBuffer obj)) (\<lambda>(_, b). Ret (OK, obj\<lparr>mBuffer := b\<rparr>)))
       else Ret (OK, obj))"
    using Some by (simp add: resizeIfNeeded_def E_def D_def get_camera_metadata_entry_count_def
        get_camera_metadata_entry_capacity_def get_camera_metadata_data_count_def
        get_camera_metadata_data_capacity_def Let_def)
  have items: "obj_items obj = items m" using Some by (simp add: obj_items_def)
  show ?thesis
  proof (cases "E > ucast (md_entry_capacity m) \<or> D > ucast (md_data_capacity m)")
    case False
    then have "length (items m) + unat x \<le> unat (md_entry_capacity m)"
      "unat (md_data_count m) + unat y \<le> unat (md_data_capacity m)"
      using E D by (auto simp: word_less_nat_alt split: if_splits)
    moreover have "obj\<lparr>mBuffer := Some m\<rparr> = obj" using Some by simp
    ultimately show ?thesis using False run gm items by (intro exI [of _ m]) simp
  next
    case True
    have "packet_bytes (unat E) (unat D) \<le> packet_bytes ?E ?D" by (rule packet_bytes_mono) (simp_all add: E D)
    with s have "packet_bytes (unat E) (unat D) < 2 ^ 32" by linarith
    from allocate_ample [OF mem this, of vo] obtain b where b:
      "allocate_camera_metadata vo malloc E D = Ret (Some b)" "good_packet vo b"
      "abs_packet b = empty_store (unat E) (unat D)" by blast
    have room: "length (items m) + unat x \<le> unat E" "unat (md_data_count m) + unat y \<le> unat D"
      by (simp_all add: E D)
    with append_to_empty [OF b(2) gm b(3)] obtain m' where m':
      "append_camera_metadata vo (Some b) (Some m) = Ret (OK, Some m')" "good_packet vo m'"
      "abs_packet m' = (abs_packet m)\<lparr>st_entry_cap := unat E, st_data_cap := unat D\<rparr>" by auto
    then have "items m' = items m" "unat (md_entry_capacity m') = unat E" "unat (md_data_capacity m') = unat D"
      "unat (md_data_count m') = unat (md_data_count m)"
      by (simp_all add: abs_packet_def)
    with True run b m' Some room items show ?thesis by (intro exI [of _ m']) simp
  qed
qed

text \<open>Words with the same number are equal.\<close>

lemma word_uint_eqI: "uint a = uint b \<Longrightarrow> b = a"
  by (simp add: word_uint_eq_iff)

section \<open>Finding\<close>

lemma find_in_packet:
  assumes good: "good_packet vo m" and d: "distinct (tags_of (items m))"
  shows "case map_of (items m) tag of
      None \<Rightarrow> find_camera_metadata_entry (Some m) tag True = Ret (NOT_FOUND, None)
    | Some (t, v) \<Rightarrow> \<exists>i < length (items m). items m ! i = (tag, t, v) \<and>
        find_camera_metadata_entry (Some m) tag True = Ret (OK, Some (view_entry m i))"
proof -
  have ok: "packet_ok vo m" and c: "consistent (abs_packet m)" using good by (simp_all add: good_packet_def)
  have "st_sorted (abs_packet m) \<Longrightarrow> sorted (tags_of (items m))"
    using c abs_counts(3) [OF ok] by (simp add: consistent_def)
  note f = find_correct [OF ok this, of tag True]
  show ?thesis
  proof (cases "tag \<in> set (tags_of (items m))")
    case False
    with f show ?thesis by (simp add: map_of_eq_None_iff [THEN iffD2])
  next
    case True
    then obtain i where i: "i < length (items m)" "tags_of (items m) ! i = tag"
      "find_camera_metadata_entry (Some m) tag True = Ret (OK, Some (view_entry m i))"
      using f by (metis (no_types, lifting))
    obtain t v where it: "items m ! i = (tag, t, v)" using i(1,2) by (cases "items m ! i") auto
    then have "map_of (items m) tag = Some (t, v)"
      using d i(1) nth_mem by (force intro: map_of_is_SomeI)
    with i it show ?thesis by auto
  qed
qed

lemma view_entry_index: "en_index (view_entry m i) = of_nat i"
  by (simp add: view_entry_def Let_def)

lemma unat_item_index:
  assumes "packet_ok vo m" "i < length (items m)"
  shows "unat (of_nat i :: u64) = i"
proof -
  have "unat (md_entry_count m) < 2 ^ 32" using unsigned_less [of "md_entry_count m"] by simp
  with assms abs_counts(2) [of vo m] show ?thesis by (simp add: unsigned_of_nat take_bit_nat_eq_self)
qed

text \<open>Finding a tag returns what the object maps it to.\<close>

definition find_agrees :: "CameraMetadata \<Rightarrow> u32 \<Rightarrow> bool" where
  "find_agrees obj tag \<longleftrightarrow>
     (case obj_map obj tag of
        None \<Rightarrow> find_entry obj tag = Ret No_entry \<and> exists_tag obj tag = Ret False
      | Some (t, v) \<Rightarrow> exists_tag obj tag = Ret True \<and>
          (\<exists>m e. mBuffer obj = Some m \<and> find_entry obj tag = Ret (Entry_found e) \<and>
             en_tag e = tag \<and> en_type e = t \<and> entry_bytes m e = Ret v))"

lemma find_entry_correct:
  assumes ok: "obj_ok vo obj" and unlocked: "\<not> mLocked obj"
  shows "find_agrees obj tag"
proof (cases "mBuffer obj")
  case None
  then show ?thesis using unlocked
    by (simp add: find_agrees_def obj_map_def obj_items_def find_entry_def exists_tag_def
        find_camera_metadata_ro_entry_def find_camera_metadata_entry_def)
next
  case (Some m)
  with ok have good: "good_packet vo m" and d: "distinct (tags_of (items m))"
    by (simp_all add: obj_ok_def obj_items_def)
  have "entry_bytes m (view_entry m i) = Ret v \<and> en_tag (view_entry m i) = tag \<and> en_type (view_entry m i) = t"
    if "i < length (items m)" "items m ! i = (tag, t, v)" for i t v
    using found_entry [OF good_packet_ok [OF good] that(1)] that(2) by simp
  with find_in_packet [OF good d, of tag] Some unlocked show ?thesis
    by (auto simp: find_agrees_def obj_map_def obj_items_def find_entry_def exists_tag_def
        find_camera_metadata_ro_entry_def split: option.splits)
qed

section \<open>Updating\<close>

lemma map_of_update_nth:
  assumes "distinct (map fst xs)" "i < length xs" "fst (xs ! i) = k"
  shows "map_of (xs[i := (k, v)]) = (map_of xs)(k \<mapsto> v)"
  using assms
proof (induction xs arbitrary: i)
  case (Cons x xs)
  show ?case
  proof (cases i)
    case 0
    with Cons.prems show ?thesis by (cases x) (auto simp: fun_eq_iff)
  next
    case (Suc j)
    with Cons have "fst x \<noteq> k" by auto
    with Suc Cons show ?thesis by (cases x) (auto simp: fun_upd_twist)
  qed
qed simp

lemma map_of_remove_nth:
  assumes "distinct (map fst xs)" "i < length xs" "fst (xs ! i) = k"
  shows "map_of (take i xs @ drop (Suc i) xs) = (map_of xs)(k := None)"
  using assms
proof (induction xs arbitrary: i)
  case (Cons x xs)
  show ?case
  proof (cases i)
    case 0
    with Cons.prems have "map_of xs k = None" by (auto simp: map_of_eq_None_iff)
    with 0 Cons.prems show ?thesis by (cases x) (auto simp: fun_eq_iff)
  next
    case (Suc j)
    with Cons have "fst x \<noteq> k" by auto
    with Suc Cons show ?thesis by (cases x) (auto simp: fun_upd_twist)
  qed
qed simp

lemma distinct_remove: "distinct xs \<Longrightarrow> distinct (take i xs @ drop (Suc i) xs)"
  by (auto dest: set_take_disj_set_drop_if_distinct [of xs i "Suc i"])

lemma map_of_snoc: "k \<notin> set (map fst xs) \<Longrightarrow> map_of (xs @ [(k, v)]) = (map_of xs)(k \<mapsto> v)"
  by (induction xs) (auto simp: fun_upd_twist)

text \<open>The type stored for a tag of the framework is the type of the tag.\<close>

lemma stored_type:
  assumes ok: "packet_ok vo m" and i: "i < length (items m)" "items m ! i = (tag, t', v)"
    and type: "get_camera_metadata_tag_type vo tag = Ret (uint t)" and fw: "drop_bit 16 tag < VENDOR_SECTION"
  shows "t' = t"
proof -
  have "live m ! i \<in> set (live m)" using i(1) by (simp add: length_items)
  then have "type_ok vo (live m ! i)" by (rule packet_okD(3) [OF ok])
  moreover have "items m ! i = (be_tag (live m ! i), be_type (live m ! i), payload (md_data m) (live m ! i))"
    using i(1) by (simp add: items_def item_of_def length_items)
  ultimately show ?thesis using i(2) type fw by (auto simp: type_ok_def intro: word_uint_eqI)
qed

text \<open>The two ways in which an update writes a value into a packet with room for it.\<close>

lemma add_with_room:
  assumes good: "good_packet vo m" and type: "get_camera_metadata_tag_type vo tag = Ret (uint t)" "t < NUM_TYPES"
    and arr: "readable t n bytes"
    and room: "length (items m) < unat (md_entry_capacity m)"
      "unat (md_data_count m) + new_size t n \<le> unat (md_data_capacity m)"
  shows "\<exists>m'. add_camera_metadata_entry vo (Some m) tag (Some bytes) n = Ret (OK, Some m') \<and> good_packet vo m' \<and>
    items m' = items m @ [(tag, t, value_of t n bytes)]"
proof -
  have ok: "packet_ok vo m" using good by blast
  have "fst (spec_add (tag, t, value_of t n bytes) (abs_packet m)) = OK"
    "st_items (snd (spec_add (tag, t, value_of t n bytes) (abs_packet m))) = items m @ [(tag, t, value_of t n bytes)]"
    using room abs_counts [OF ok] item_size_new [OF arr type(2), of tag] by (simp_all add: spec_add_def)
  with add_refines [OF good type arr] show ?thesis
    unfolding refines_def by (metis abs_counts(3) fst_conv good_packet_ok snd_conv)
qed

lemma update_with_room:
  assumes good: "good_packet vo m" and i: "unat index < length (items m)" "items m ! unat index = (tag, t, old)"
    and arr: "readable t n bytes" "n \<noteq> 0" and t: "t < NUM_TYPES"
    and room: "unat (md_data_count m) + new_size t n \<le> unat (md_data_capacity m)"
  shows "\<exists>m'. update_camera_metadata_entry vo (Some m) index (Some bytes) n False = Ret (OK, Some m', None) \<and>
    good_packet vo m' \<and> items m' = (items m)[unat index := (tag, t, value_of t n bytes)]"
proof -
  have ok: "packet_ok vo m" using good by blast
  let ?spec = "spec_update (unat index) (value_of t n bytes) (abs_packet m)"
  have "\<not> unat (md_data_capacity m) < unat (md_data_count m) - k + new_size t n" for k using room by linarith
  then have spec: "fst ?spec = OK" "st_items (snd ?spec) = (items m)[unat index := (tag, t, value_of t n bytes)]"
    using i abs_counts [OF ok] item_size_new [OF arr(1) t, of tag] by (simp_all add: spec_update_def Let_def)
  from update_refines [OF good i arr, of False] obtain r m' where
    run: "update_camera_metadata_entry vo (Some m) index (Some bytes) n False = Ret (r, Some m', None)"
    and ref: "refines vo m (Ret (r, Some m')) ?spec" by auto
  from ref have "good_packet vo m'" "?spec = (r, abs_packet m')" by (auto simp: refines_def)
  with run spec abs_counts(3) show ?thesis by (auto dest: good_packet_ok)
qed

text \<open>The values do not lie in the packet of the object.\<close>

definition outside :: "CameraMetadata \<Rightarrow> u64 \<Rightarrow> bool" where
  "outside obj addr \<longleftrightarrow> (\<forall>m. mBuffer obj = Some m \<longrightarrow>
     addr < md_addr m \<or> md_addr m + ucast (md_size m) \<le> addr \<and> md_addr m \<noteq> addr)"

lemma outside_passes:
  assumes "outside obj addr"
  shows "\<not> (addr > buffer_addr (mBuffer obj) \<and> addr < buffer_addr (mBuffer obj) + get_camera_metadata_size (mBuffer obj))"
    and "\<not> (buffer_addr (mBuffer obj) \<noteq> 0 \<and> addr = buffer_addr (mBuffer obj))"
proof -
  have "addr < 1 \<longleftrightarrow> addr = 0" by (simp add: word_less_nat_alt word_unat_eq_iff)
  then show "\<not> (addr > buffer_addr (mBuffer obj) \<and> addr < buffer_addr (mBuffer obj) + get_camera_metadata_size (mBuffer obj))"
    "\<not> (buffer_addr (mBuffer obj) \<noteq> 0 \<and> addr = buffer_addr (mBuffer obj))"
    using assms by (auto simp: outside_def buffer_addr_def get_camera_metadata_size_def split: option.splits)
qed

lemma word_of_uint: "word_of_int (uint t) = t"
  by simp

lemma uint_not_minus: "uint t \<noteq> - 1"
  using unsigned_greater_eq [of t] by (metis neg_0_le_iff_le not_one_le_zero)

lemma updateImpl_correct:
  assumes ok: "obj_ok vo obj" and unlocked: "\<not> mLocked obj"
    and type: "get_camera_metadata_tag_type vo tag = Ret (uint t)" "t < NUM_TYPES" "drop_bit 16 tag < VENDOR_SECTION"
    and arr: "readable t n bytes" "n \<noteq> 0" and out: "outside obj addr"
    and mem: "ample malloc" "grown_bytes obj 1 (new_size t n) < 2 ^ 32"
  shows "\<exists>obj'. updateImpl vo malloc obj tag (Some (addr, bytes)) n = Ret (OK, obj') \<and> obj_ok vo obj' \<and>
    \<not> mLocked obj' \<and> obj_map obj' = (obj_map obj)(tag \<mapsto> (t, value_of t n bytes))"
proof -
  let ?y = "calculate_camera_metadata_entry_data_size t n" and ?v = "value_of t n bytes"
  have "grown_bytes obj (unat (1 :: u64)) (unat ?y) < 2 ^ 32" using mem(2) by (simp add: new_size_def)
  from resize_correct [OF _ mem(1) this, of vo] ok obtain m where m:
    "resizeIfNeeded vo malloc obj 1 ?y = Ret (OK, obj\<lparr>mBuffer := Some m\<rparr>)" "good_packet vo m"
    "items m = obj_items obj" "length (items m) < unat (md_entry_capacity m)"
    "unat (md_data_count m) + new_size t n \<le> unat (md_data_capacity m)"
    by (auto simp: obj_ok_def new_size_def)
  have d: "distinct (tags_of (items m))" using ok m(3) by (simp add: obj_ok_def)
  note run = updateImpl_def unlocked type(1) uint_not_minus word_of_uint outside_passes(1) [OF out] m(1) Let_def
  show ?thesis
  proof (cases "map_of (items m) tag")
    case None
    with find_in_packet [OF m(2) d, of tag]
    have f: "find_camera_metadata_entry (Some m) tag True = Ret (NOT_FOUND, None)" by simp
    from add_with_room [OF m(2) type(1,2) arr(1) m(4,5)] obtain m' where m':
      "add_camera_metadata_entry vo (Some m) tag (Some bytes) n = Ret (OK, Some m')" "good_packet vo m'"
      "items m' = items m @ [(tag, t, ?v)]" by blast
    have fresh: "tag \<notin> set (tags_of (items m))" using None by (simp add: map_of_eq_None_iff)
    have "updateImpl vo malloc obj tag (Some (addr, bytes)) n = Ret (OK, obj\<lparr>mBuffer := Some m'\<rparr>)"
      using f m'(1) outside_passes(2) [OF out] by (auto simp: run)
    with m' fresh d unlocked m(3) map_of_snoc [OF fresh] show ?thesis
      by (intro exI [of _ "obj\<lparr>mBuffer := Some m'\<rparr>"]) (simp add: obj_ok_def obj_items_def obj_map_def)
  next
    case (Some x)
    with find_in_packet [OF m(2) d, of tag] obtain i t' old where i: "i < length (items m)"
      "items m ! i = (tag, t', old)" "find_camera_metadata_entry (Some m) tag True = Ret (OK, Some (view_entry m i))"
      by (cases x) auto
    have pk: "packet_ok vo m" using m(2) by blast
    have t': "t' = t" by (rule stored_type [OF pk i(1,2) type(1,3)])
    have ix: "unat (of_nat i :: u64) = i" by (rule unat_item_index [OF pk i(1)])
    from update_with_room [OF m(2) _ _ arr type(2) m(5), of "of_nat i" tag old] i(1,2) obtain m' where m':
      "update_camera_metadata_entry vo (Some m) (of_nat i) (Some bytes) n False = Ret (OK, Some m', None)"
      "good_packet vo m'" "items m' = (items m)[i := (tag, t, ?v)]" by (auto simp: ix t')
    have "updateImpl vo malloc obj tag (Some (addr, bytes)) n = Ret (OK, obj\<lparr>mBuffer := Some m'\<rparr>)"
      using i(3) m'(1) outside_passes(2) [OF out] by (auto simp: run view_entry_index)
    moreover have "tags_of ((items m)[i := (tag, t, ?v)]) = tags_of (items m)"
      using tags_update [OF i(1), of "(t, ?v)"] i(2) by simp
    ultimately show ?thesis
      using m'(2,3) d unlocked m(3) map_of_update_nth [OF d i(1), of tag "(t, ?v)"] i(2)
      by (intro exI [of _ "obj\<lparr>mBuffer := Some m'\<rparr>"]) (simp add: obj_ok_def obj_items_def obj_map_def)
  qed
qed

lemma checkType_same: "get_camera_metadata_tag_type vo tag = Ret (uint t) \<Longrightarrow> checkType vo tag t = Ret OK"
  by (simp add: checkType_def uint_not_minus)

lemma erase_correct:
  assumes ok: "obj_ok vo obj" and unlocked: "\<not> mLocked obj" and buf: "mBuffer obj = Some m"
  shows "\<exists>m'. erase vo obj tag = Ret (OK, obj\<lparr>mBuffer := Some m'\<rparr>) \<and> obj_ok vo (obj\<lparr>mBuffer := Some m'\<rparr>) \<and>
    obj_map (obj\<lparr>mBuffer := Some m'\<rparr>) = (obj_map obj)(tag := None)"
proof -
  have good: "good_packet vo m" and d: "distinct (tags_of (items m))"
    using ok buf by (simp_all add: obj_ok_def obj_items_def)
  have pk: "packet_ok vo m" using good by blast
  have same: "obj\<lparr>mBuffer := Some m\<rparr> = obj" using buf by simp
  show ?thesis
  proof (cases "map_of (items m) tag")
    case None
    with find_in_packet [OF good d, of tag] have "erase vo obj tag = Ret (OK, obj)"
      using unlocked buf by (simp add: erase_def)
    moreover have "(obj_map obj)(tag := None) = obj_map obj"
      using None buf by (auto simp: obj_map_def obj_items_def)
    ultimately show ?thesis using ok same by (intro exI [of _ m]) simp
  next
    case (Some x)
    with find_in_packet [OF good d, of tag] obtain i t v where i: "i < length (items m)"
      "items m ! i = (tag, t, v)" "find_camera_metadata_entry (Some m) tag True = Ret (OK, Some (view_entry m i))"
      by (cases x) auto
    have ix: "unat (of_nat i :: u64) = i" by (rule unat_item_index [OF pk i(1)])
    from delete_refines [OF good, of "of_nat i"] obtain m' where m':
      "delete_camera_metadata_entry vo (Some m) (of_nat i) = Ret (OK, Some m')" "good_packet vo m'"
      "items m' = take i (items m) @ drop (Suc i) (items m)"
      using i(1) abs_counts(3) [OF pk] by (auto simp: refines_def spec_delete_def ix abs_packet_def)
    have "erase vo obj tag = Ret (OK, obj\<lparr>mBuffer := Some m'\<rparr>)"
      using unlocked buf i(3) m'(1) by (simp add: erase_def view_entry_index)
    moreover have "distinct (tags_of (take i (items m) @ drop (Suc i) (items m)))"
      using distinct_remove [OF d, of i] by (simp add: take_map drop_map)
    ultimately show ?thesis
      using m'(2,3) map_of_remove_nth [OF d i(1), of tag] i(2) buf
      by (intro exI [of _ m']) (simp add: obj_ok_def obj_items_def obj_map_def)
  qed
qed

section \<open>Claims\<close>

text \<open>
  C32.  An object is a map from tags to typed values.  \<open>update\<close> with values of the type of a framework
  tag succeeds whatever the capacity of the packet, binds the tag to exactly these values and keeps
  every other binding; afterwards \<open>find\<close> and \<open>exists\<close> report what the map says of every tag.
\<close>

theorem object_update_correct:
  assumes "obj_ok vo obj" "\<not> mLocked obj"
    and "get_camera_metadata_tag_type vo tag = Ret (uint t)" "t < NUM_TYPES" "drop_bit 16 tag < VENDOR_SECTION"
    and "readable t n bytes" "n \<noteq> 0" "outside obj addr"
    and "ample malloc" "grown_bytes obj 1 (new_size t n) < 2 ^ 32"
  shows "\<exists>obj'. update_typed t vo malloc obj tag (Some (addr, bytes)) n = Ret (OK, obj') \<and> obj_ok vo obj' \<and>
    \<not> mLocked obj' \<and> obj_map obj' = (obj_map obj)(tag \<mapsto> (t, value_of t n bytes)) \<and>
    (\<forall>tag'. find_agrees obj' tag')"
proof -
  from updateImpl_correct [OF assms] obtain obj' where obj':
    "updateImpl vo malloc obj tag (Some (addr, bytes)) n = Ret (OK, obj')" "obj_ok vo obj'" "\<not> mLocked obj'"
    "obj_map obj' = (obj_map obj)(tag \<mapsto> (t, value_of t n bytes))" by blast
  then have "update_typed t vo malloc obj tag (Some (addr, bytes)) n = Ret (OK, obj')"
    using assms(2) by (simp add: update_typed_def checkType_same [OF assms(3)])
  with obj' find_entry_correct [OF obj'(2,3)] show ?thesis by blast
qed

definition demo_object :: CameraMetadata where
  "demo_object = \<lparr>mBuffer = Some demo_packet, mLocked = False\<rparr>"

lemma demo_object_ok: "obj_ok None demo_object" "\<not> mLocked demo_object" "mBuffer demo_object \<noteq> None"
  using demo_good by (simp_all add: obj_ok_def obj_items_def demo_object_def demo_items)

text \<open>Three rationals do not fit the example packet: it is moved to a larger one.\<close>

theorem object_update_correct_witness:
  "\<exists>obj'. update_typed 5 None (\<lambda>sz. Some (0x2000, replicate (unat sz) 0)) demo_object 1
       (Some (0x9000, replicate 24 7)) 3 = Ret (OK, obj') \<and>
     obj_map obj' = (obj_map demo_object)(1 \<mapsto> (5, value_of 5 3 (replicate 24 7)))"
proof -
  have type: "get_camera_metadata_tag_type None 1 = Ret (uint (5 :: u8))" "(5 :: u8) < NUM_TYPES"
    "drop_bit 16 (1 :: u32) < VENDOR_SECTION"
    by (simp_all add: demo_tag_types NUM_TYPES_def VENDOR_SECTION_def)
  have arr: "readable 5 3 (replicate 24 7)" by (simp add: readable_def tsize_def type_size_eq)
  have out: "outside demo_object 0x9000" by (simp add: outside_def demo_object_def demo_packet_def)
  have mem: "ample (\<lambda>sz. Some (0x2000, replicate (unat sz) 0))" by (simp add: ample_def block_ok_def)
  have "new_size 5 3 = 24" using readable_sizes(2) [OF arr type(2)] by (simp add: tsize_def type_size_eq round8_def)
  then have small: "grown_bytes demo_object 1 (new_size 5 3) < 2 ^ 32"
    using demo_items by (simp add: grown_bytes_def demo_object_def)
      (simp add: demo_packet_def packet_bytes_def round8_def)
  from object_update_correct [OF demo_object_ok(1,2) type arr _ out mem small] show ?thesis by auto
qed

text \<open>
  \<open>erase\<close> removes the binding of the tag and no other, reports success also when there was none,
  and the tag is not found afterwards.
\<close>

theorem object_erase_correct:
  assumes "obj_ok vo obj" "\<not> mLocked obj" "mBuffer obj \<noteq> None"
  shows "\<exists>obj'. erase vo obj tag = Ret (OK, obj') \<and> obj_ok vo obj' \<and> \<not> mLocked obj' \<and>
    obj_map obj' = (obj_map obj)(tag := None) \<and> find_entry obj' tag = Ret No_entry \<and>
    (\<forall>tag'. find_agrees obj' tag')"
proof -
  from assms(3) obtain m where "mBuffer obj = Some m" by blast
  from erase_correct [OF assms(1,2) this, of tag] obtain m' where m':
    "erase vo obj tag = Ret (OK, obj\<lparr>mBuffer := Some m'\<rparr>)" "obj_ok vo (obj\<lparr>mBuffer := Some m'\<rparr>)"
    "obj_map (obj\<lparr>mBuffer := Some m'\<rparr>) = (obj_map obj)(tag := None)" by blast
  then have f: "find_agrees (obj\<lparr>mBuffer := Some m'\<rparr>) tag'" for tag'
    using assms(2) by (intro find_entry_correct) simp_all
  from f [of tag] m'(3) have "find_entry (obj\<lparr>mBuffer := Some m'\<rparr>) tag = Ret No_entry"
    by (simp add: find_agrees_def)
  with m' f assms(2) show ?thesis by auto
qed

theorem object_erase_correct_witness:
  "\<exists>obj'. erase None demo_object 1 = Ret (OK, obj') \<and> obj_map obj' = (obj_map demo_object)(1 := None) \<and>
     find_entry obj' 1 = Ret No_entry"
  using object_erase_correct [OF demo_object_ok, of 1] by blast

text \<open>
  C33.  Locking: after \<open>getAndLock\<close> the pointer stays valid.  Every operation that could move, free or
  change the packet refuses and leaves the object as it is, until \<open>unlock\<close> gets the same pointer.
\<close>

theorem locked_object_unchanged:
  assumes "snd (getAndLock obj) = locked"
  shows "mBuffer locked = fst (getAndLock obj) \<and>
    clear locked = locked \<and> release locked = (None, locked) \<and>
    acquire vo locked b = Ret locked \<and> acquire_from vo locked other = Ret (locked, other) \<and>
    assign vo malloc locked b = Ret locked \<and> swap locked other = (locked, other) \<and>
    swap other locked = (other, locked) \<and>
    append_buffer vo malloc locked b = Ret (INVALID_OPERATION, locked) \<and>
    sort_object vo locked = Ret (INVALID_OPERATION, locked) \<and>
    update_typed t vo malloc locked tag data n = Ret (INVALID_OPERATION, locked) \<and>
    erase vo locked tag = Ret (INVALID_OPERATION, locked) \<and>
    unlock locked p = (if p = buffer_addr (mBuffer obj) then (OK, obj\<lparr>mLocked := False\<rparr>) else (BAD_VALUE, locked))"
proof -
  have "locked = obj\<lparr>mLocked := True\<rparr>" using assms by (simp add: getAndLock_def)
  then have "mLocked locked" "mBuffer locked = mBuffer obj" "locked\<lparr>mLocked := False\<rparr> = obj\<lparr>mLocked := False\<rparr>"
    by simp_all
  then show ?thesis
    by (simp add: getAndLock_def clear_def release_def acquire_def acquire_from_def assign_def swap_def
        append_buffer_def sort_object_def update_typed_def erase_def unlock_def)
qed

theorem locked_object_unchanged_witness:
  "snd (getAndLock demo_object) = demo_object\<lparr>mLocked := True\<rparr> \<and>
   erase None (demo_object\<lparr>mLocked := True\<rparr>) 1 = Ret (INVALID_OPERATION, demo_object\<lparr>mLocked := True\<rparr>) \<and>
   unlock (demo_object\<lparr>mLocked := True\<rparr>) 0x1000 = (OK, demo_object)"
proof -
  have l: "snd (getAndLock demo_object) = demo_object\<lparr>mLocked := True\<rparr>" by (simp add: getAndLock_def)
  have p: "buffer_addr (mBuffer demo_object) = 0x1000" "demo_object\<lparr>mLocked := False\<rparr> = demo_object"
    by (simp_all add: demo_object_def buffer_addr_def demo_packet_def)
  from locked_object_unchanged [OF l, where p = "0x1000" and tag = 1 and vo = None] l p show ?thesis by auto
qed

section \<open>Where the class does not keep its promises\<close>

text \<open>
  When the larger packet cannot be allocated, the update fails and the object has lost every entry
  it held: the old packet is neither kept nor freed.
\<close>

lemma update_without_memory_loses_entries:
  "\<exists>obj'. update_typed 5 None (\<lambda>sz. None) demo_object 1 (Some (0x9000, replicate 24 7)) 3 = Ret (NO_MEMORY, obj') \<and>
     obj_items demo_object \<noteq> [] \<and> mBuffer obj' = None"
proof -
  have type: "get_camera_metadata_tag_type None 1 = Ret (uint (5 :: u8))" "(5 :: u8) < NUM_TYPES"
    by (simp_all add: demo_tag_types NUM_TYPES_def)
  have "readable 5 3 (replicate 24 7)" by (simp add: readable_def tsize_def type_size_eq)
  from readable_sizes(2) [OF this type(2)] have "calculate_camera_metadata_entry_data_size 5 3 = 24"
    by (simp add: new_size_def tsize_def type_size_eq round8_def word_unat_eq_iff)
  then have "update_typed 5 None (\<lambda>sz. None) demo_object 1 (Some (0x9000, replicate 24 7)) 3 =
      Ret (NO_MEMORY, demo_object\<lparr>mBuffer := None\<rparr>)"
    using type(1) checkType_same [OF type(1)]
    by (simp add: update_typed_def updateImpl_def demo_object_def buffer_addr_def get_camera_metadata_size_def
        resizeIfNeeded_def get_camera_metadata_entry_count_def get_camera_metadata_entry_capacity_def
        get_camera_metadata_data_count_def get_camera_metadata_data_capacity_def Let_def
        allocate_camera_metadata_def place_camera_metadata_def demo_packet_def)
  then show ?thesis by (simp add: obj_items_def demo_object_def demo_items)
qed

text \<open>\<open>erase\<close> of a tag that is not there fails when the object has no packet at all.\<close>

lemma erase_empty_object_fails:
  "erase vo CameraMetadata_empty tag = Ret (ERROR, CameraMetadata_empty)"
  by (simp add: erase_def CameraMetadata_empty_def find_camera_metadata_entry_def)

end
