(* ===== verification/Ref_Base.thy ===== *)
theory Ref_Base
  imports C_Prelude
begin

text \<open>
  The reference counts of \<open>RefBase.cpp\<close>.  Threads share one object and its \<open>weakref_impl\<close>; every
  method is a sequence of atomic accesses to the counts, and the accesses of different threads
  interleave in any order.  The counts are integers: the invariant of \<open>Ref_Base_Props\<close> keeps them
  within \<open>int32_t\<close>.  The build does not define \<open>DEBUG_REFS\<close>, so the tracking of references by name is
  empty.  The virtual callbacks are recorded, and otherwise do what the base class does.
\<close>

section \<open>Shared state\<close>

definition INITIAL_STRONG_VALUE :: int where
  "INITIAL_STRONG_VALUE = 2 ^ 28"

definition OBJECT_LIFETIME_STRONG :: u32 where
  "OBJECT_LIFETIME_STRONG = 0"

definition OBJECT_LIFETIME_WEAK :: u32 where
  "OBJECT_LIFETIME_WEAK = 1"

definition OBJECT_LIFETIME_MASK :: u32 where
  "OBJECT_LIFETIME_MASK = 1"

definition FIRST_INC_STRONG :: u32 where
  "FIRST_INC_STRONG = 1"

datatype callback = OnFirstRef | OnLastStrongRef | OnLastWeakRef | Destructor

text \<open>
  \<open>base_alive\<close> and \<open>impl_alive\<close> say whether the object and its \<open>weakref_impl\<close> are still allocated.
  \<open>fault\<close> is set by an access to freed memory, a second \<open>delete\<close> and a failed \<open>ALOG_ASSERT\<close>.
\<close>

record weakref_impl =
  mStrong :: int
  mWeak :: int
  mFlags :: u32
  base_alive :: bool
  impl_alive :: bool
  fault :: bool
  calls :: "callback list"

definition RefBase_new :: weakref_impl where
  "RefBase_new = \<lparr>mStrong = INITIAL_STRONG_VALUE, mWeak = 0, mFlags = 0, base_alive = True, impl_alive = True,
     fault = False, calls = []\<rparr>"

definition extendObjectLifetime :: "u32 \<Rightarrow> weakref_impl \<Rightarrow> weakref_impl" where
  "extendObjectLifetime mode r = r\<lparr>mFlags := mFlags r OR mode\<rparr>"

definition failed :: "weakref_impl \<Rightarrow> weakref_impl" where
  "failed r = r\<lparr>fault := True\<rparr>"

definition log_assert :: "bool \<Rightarrow> weakref_impl \<Rightarrow> weakref_impl" where
  "log_assert c r = (if c then r else failed r)"

definition call_base :: "callback \<Rightarrow> weakref_impl \<Rightarrow> weakref_impl" where
  "call_base cb r = (if base_alive r then r\<lparr>calls := calls r @ [cb]\<rparr> else failed r)"

definition delete_impl :: "weakref_impl \<Rightarrow> weakref_impl" where
  "delete_impl r = (if impl_alive r then r\<lparr>impl_alive := False\<rparr> else failed r)"

text \<open>The destructor of the object.\<close>

definition delete_base :: "weakref_impl \<Rightarrow> weakref_impl" where
  "delete_base r =
     (if base_alive r then
        let r = (call_base Destructor r)\<lparr>base_alive := False\<rparr> in
        if mStrong r = INITIAL_STRONG_VALUE then delete_impl r
        else if mFlags r AND OBJECT_LIFETIME_MASK \<noteq> OBJECT_LIFETIME_STRONG then
          (if mWeak r = 0 then delete_impl r else r)
        else r
      else failed r)"

definition onIncStrongAttempted :: "u32 \<Rightarrow> bool" where
  "onIncStrongAttempted flags = (flags AND FIRST_INC_STRONG \<noteq> 0)"

definition getStrongCount :: "weakref_impl \<Rightarrow> int" where
  "getStrongCount r = mStrong r"

definition getWeakCount :: "weakref_impl \<Rightarrow> int" where
  "getWeakCount r = mWeak r"

section \<open>Methods as atomic steps\<close>

text \<open>What a finished call gives its caller.\<close>

datatype gained = No_ref | Strong_ref | Weak_ref

text \<open>Where a thread is: the next atomic access of the method it runs, with its local \<open>curCount\<close>.\<close>

datatype pc =
    Idle
  | IncWeak
  | DecWeak_count | DecWeak_last | DecWeak_delete_base | DecWeak_delete_impl
  | IncStrong_weak | IncStrong_count | IncStrong_fixup | IncStrong_first
  | DecStrong_count | DecStrong_last | DecStrong_delete
  | ForceIncStrong_weak | ForceIncStrong_count | ForceIncStrong_fixup | ForceIncStrong_first
  | Attempt_weak | Attempt_read | Attempt_try int | Attempt_again | Attempt_retry int | Attempt_reread
  | Attempt_extend | Attempt_inc | Attempt_surplus int | Attempt_check | Attempt_fixup int
  | AttemptWeak_read | AttemptWeak_try int | AttemptWeak_again
  | Return gained

definition incWeak :: "weakref_impl \<Rightarrow> weakref_impl" where
  "incWeak r = log_assert (mWeak r \<ge> 0) (r\<lparr>mWeak := mWeak r + 1\<rparr>)"

fun decWeak :: "pc \<Rightarrow> weakref_impl \<Rightarrow> weakref_impl \<times> pc" where
  "decWeak DecWeak_count r =
     (let c = mWeak r; r = log_assert (c \<ge> 1) (r\<lparr>mWeak := mWeak r - 1\<rparr>) in
      (r, if c \<noteq> 1 then Return No_ref else DecWeak_last))"
| "decWeak DecWeak_last r =
     (if mFlags r AND OBJECT_LIFETIME_WEAK = OBJECT_LIFETIME_STRONG then
        (r, if mStrong r = INITIAL_STRONG_VALUE then DecWeak_delete_base else DecWeak_delete_impl)
      else
        (call_base OnLastWeakRef r,
         if mFlags r AND OBJECT_LIFETIME_MASK = OBJECT_LIFETIME_WEAK then DecWeak_delete_base else Return No_ref))"
| "decWeak DecWeak_delete_base r = (delete_base r, Return No_ref)"
| "decWeak DecWeak_delete_impl r = (delete_impl r, Return No_ref)"
| "decWeak p r = (r, p)"

text \<open>The methods of the object read \<open>mRefs\<close>, a field of the object.\<close>

definition read_mRefs :: "weakref_impl \<Rightarrow> weakref_impl" where
  "read_mRefs r = (if base_alive r then r else failed r)"

fun incStrong :: "pc \<Rightarrow> weakref_impl \<Rightarrow> weakref_impl \<times> pc" where
  "incStrong IncStrong_weak r = (incWeak (read_mRefs r), IncStrong_count)"
| "incStrong IncStrong_count r =
     (let c = mStrong r; r = log_assert (c > 0) (r\<lparr>mStrong := mStrong r + 1\<rparr>) in
      (r, if c \<noteq> INITIAL_STRONG_VALUE then Return Strong_ref else IncStrong_fixup))"
| "incStrong IncStrong_fixup r =
     (r\<lparr>mStrong := mStrong r - INITIAL_STRONG_VALUE\<rparr>, IncStrong_first)"
| "incStrong IncStrong_first r = (call_base OnFirstRef r, Return Strong_ref)"
| "incStrong p r = (r, p)"

fun decStrong :: "pc \<Rightarrow> weakref_impl \<Rightarrow> weakref_impl \<times> pc" where
  "decStrong DecStrong_count r =
     (let r = read_mRefs r; c = mStrong r; r = log_assert (c \<ge> 1) (r\<lparr>mStrong := mStrong r - 1\<rparr>) in
      (r, if c = 1 then DecStrong_last else DecWeak_count))"
| "decStrong DecStrong_last r =
     (call_base OnLastStrongRef r,
      if mFlags r AND OBJECT_LIFETIME_MASK = OBJECT_LIFETIME_STRONG then DecStrong_delete else DecWeak_count)"
| "decStrong DecStrong_delete r = (delete_base r, DecWeak_count)"
| "decStrong p r = (r, p)"

fun forceIncStrong :: "pc \<Rightarrow> weakref_impl \<Rightarrow> weakref_impl \<times> pc" where
  "forceIncStrong ForceIncStrong_weak r = (incWeak (read_mRefs r), ForceIncStrong_count)"
| "forceIncStrong ForceIncStrong_count r =
     (let c = mStrong r; r = log_assert (c \<ge> 0) (r\<lparr>mStrong := mStrong r + 1\<rparr>) in
      (r, if c = INITIAL_STRONG_VALUE then ForceIncStrong_fixup
          else if c = 0 then ForceIncStrong_first else Return Strong_ref))"
| "forceIncStrong ForceIncStrong_fixup r =
     (r\<lparr>mStrong := mStrong r - INITIAL_STRONG_VALUE\<rparr>, ForceIncStrong_first)"
| "forceIncStrong ForceIncStrong_first r = (call_base OnFirstRef r, Return Strong_ref)"
| "forceIncStrong p r = (r, p)"

text \<open>The harder case of \<open>attemptIncStrong\<close>, entered with \<open>curCount \<le> 0\<close> or the initial value.\<close>

definition attempt_hard :: "weakref_impl \<Rightarrow> int \<Rightarrow> pc" where
  "attempt_hard r curCount =
     (if mFlags r AND OBJECT_LIFETIME_WEAK = OBJECT_LIFETIME_STRONG then
        (if curCount \<le> 0 then DecWeak_count else Attempt_retry curCount)
      else Attempt_extend)"

fun attemptIncStrong :: "pc \<Rightarrow> weakref_impl \<Rightarrow> weakref_impl \<times> pc" where
  "attemptIncStrong Attempt_weak r = (incWeak r, Attempt_read)"
| "attemptIncStrong Attempt_read r = (log_assert (mStrong r \<ge> 0) r, Attempt_try (mStrong r))"
| "attemptIncStrong (Attempt_try curCount) r =
     (if curCount > 0 \<and> curCount \<noteq> INITIAL_STRONG_VALUE then
        (if mStrong r = curCount then (r\<lparr>mStrong := curCount + 1\<rparr>, Attempt_check)
         else (r, Attempt_again))
      else (r, attempt_hard r curCount))"
| "attemptIncStrong Attempt_again r = (r, Attempt_try (mStrong r))"
| "attemptIncStrong (Attempt_retry curCount) r =
     (if mStrong r = curCount then (r\<lparr>mStrong := curCount + 1\<rparr>, Attempt_surplus curCount)
      else (r, Attempt_reread))"
| "attemptIncStrong Attempt_reread r =
     (r, if mStrong r > 0 then Attempt_retry (mStrong r) else DecWeak_count)"
| "attemptIncStrong Attempt_extend r =
     (if base_alive r then r else failed r,
      if onIncStrongAttempted FIRST_INC_STRONG then Attempt_inc else DecWeak_count)"
| "attemptIncStrong Attempt_inc r = (r\<lparr>mStrong := mStrong r + 1\<rparr>, Attempt_surplus (mStrong r))"
| "attemptIncStrong (Attempt_surplus curCount) r =
     (if curCount > 0 \<and> curCount < INITIAL_STRONG_VALUE then call_base OnLastStrongRef r else r, Attempt_check)"
| "attemptIncStrong Attempt_check r =
     (r, if mStrong r \<ge> INITIAL_STRONG_VALUE then Attempt_fixup (mStrong r) else Return Strong_ref)"
| "attemptIncStrong (Attempt_fixup curCount) r =
     (let r = log_assert (curCount > INITIAL_STRONG_VALUE) r in
      if mStrong r = curCount then (r\<lparr>mStrong := curCount - INITIAL_STRONG_VALUE\<rparr>, Return Strong_ref)
      else (r, Attempt_check))"
| "attemptIncStrong p r = (r, p)"

fun attemptIncWeak :: "pc \<Rightarrow> weakref_impl \<Rightarrow> weakref_impl \<times> pc" where
  "attemptIncWeak AttemptWeak_read r = (log_assert (mWeak r \<ge> 0) r, AttemptWeak_try (mWeak r))"
| "attemptIncWeak (AttemptWeak_try curCount) r =
     (if curCount > 0 then
        (if mWeak r = curCount then (r\<lparr>mWeak := curCount + 1\<rparr>, Return Weak_ref)
         else (r, AttemptWeak_again))
      else (r, Return No_ref))"
| "attemptIncWeak AttemptWeak_again r = (r, AttemptWeak_try (mWeak r))"
| "attemptIncWeak p r = (r, p)"

text \<open>One atomic step of the method a thread runs; after the \<open>weakref_impl\<close> is freed every step faults.\<close>

definition exec_pc :: "pc \<Rightarrow> weakref_impl \<Rightarrow> weakref_impl \<times> pc" where
  "exec_pc p r =
     (if \<not> impl_alive r then (failed r, Return No_ref)
      else if p = IncWeak then (incWeak r, Return Weak_ref)
      else if p \<in> {DecWeak_count, DecWeak_last, DecWeak_delete_base, DecWeak_delete_impl} then decWeak p r
      else if p \<in> {IncStrong_weak, IncStrong_count, IncStrong_fixup, IncStrong_first} then incStrong p r
      else if p \<in> {DecStrong_count, DecStrong_last, DecStrong_delete} then decStrong p r
      else if p \<in> {ForceIncStrong_weak, ForceIncStrong_count, ForceIncStrong_fixup, ForceIncStrong_first}
        then forceIncStrong p r
      else case p of
        AttemptWeak_read \<Rightarrow> attemptIncWeak p r
      | AttemptWeak_try c \<Rightarrow> attemptIncWeak p r
      | AttemptWeak_again \<Rightarrow> attemptIncWeak p r
      | _ \<Rightarrow> attemptIncStrong p r)"

section \<open>Threads\<close>

text \<open>A thread with the strong and weak references it holds.\<close>

record thread =
  th_pc :: pc
  th_strong :: nat
  th_weak :: nat

text \<open>A finished call leaves the thread idle with the reference it gained.\<close>

definition settle :: "thread \<Rightarrow> pc \<Rightarrow> thread" where
  "settle th p =
     (case p of
        Return No_ref \<Rightarrow> th\<lparr>th_pc := Idle\<rparr>
      | Return Strong_ref \<Rightarrow> th\<lparr>th_pc := Idle, th_strong := th_strong th + 1\<rparr>
      | Return Weak_ref \<Rightarrow> th\<lparr>th_pc := Idle, th_weak := th_weak th + 1\<rparr>
      | _ \<Rightarrow> th\<lparr>th_pc := p\<rparr>)"

datatype ref_method = M_incStrong | M_decStrong | M_incWeak | M_decWeak | M_attemptIncStrong | M_attemptIncWeak

text \<open>
  What clients may call: a method is called by the holder of a reference that keeps its target
  alive, and the two \<open>dec\<close> methods give up the reference they release.
\<close>

definition start :: "ref_method \<Rightarrow> thread \<Rightarrow> thread option" where
  "start m th =
     (if th_pc th \<noteq> Idle then None
      else case m of
        M_incStrong \<Rightarrow> if th_strong th > 0 then Some (th\<lparr>th_pc := IncStrong_weak\<rparr>) else None
      | M_decStrong \<Rightarrow> if th_strong th > 0
          then Some (th\<lparr>th_pc := DecStrong_count, th_strong := th_strong th - 1\<rparr>) else None
      | M_incWeak \<Rightarrow> if th_strong th + th_weak th > 0 then Some (th\<lparr>th_pc := IncWeak\<rparr>) else None
      | M_decWeak \<Rightarrow> if th_weak th > 0
          then Some (th\<lparr>th_pc := DecWeak_count, th_weak := th_weak th - 1\<rparr>) else None
      | M_attemptIncStrong \<Rightarrow> if th_strong th + th_weak th > 0 then Some (th\<lparr>th_pc := Attempt_weak\<rparr>) else None
      | M_attemptIncWeak \<Rightarrow> if th_strong th + th_weak th > 0 then Some (th\<lparr>th_pc := AttemptWeak_read\<rparr>) else None)"

type_synonym refsys = "weakref_impl \<times> thread list"

text \<open>References held and calls in progress.\<close>

definition load :: "thread \<Rightarrow> nat" where
  "load th = th_strong th + th_weak th + (if th_pc th = Idle then 0 else 1)"

text \<open>
  The steps of the system: a thread takes the next step of its method, calls a method (as long as
  fewer than \<open>2 ^ 28 - 1\<close> references and calls exist), or hands a reference to another idle thread.
\<close>

inductive ref_step :: "refsys \<Rightarrow> refsys \<Rightarrow> bool" where
  run: "i < length ths \<Longrightarrow> th_pc (ths ! i) \<noteq> Idle \<Longrightarrow> exec_pc (th_pc (ths ! i)) r = (r', p) \<Longrightarrow>
    ref_step (r, ths) (r', ths[i := settle (ths ! i) p])"
| call: "i < length ths \<Longrightarrow> start m (ths ! i) = Some th \<Longrightarrow> sum_list (map load ths) < 2 ^ 28 - 1 \<Longrightarrow>
    ref_step (r, ths) (r, ths[i := th])"
| pass_strong: "i < length ths \<Longrightarrow> j < length ths \<Longrightarrow> i \<noteq> j \<Longrightarrow> th_pc (ths ! i) = Idle \<Longrightarrow> th_pc (ths ! j) = Idle \<Longrightarrow>
    th_strong (ths ! i) > 0 \<Longrightarrow>
    ref_step (r, ths) (r, ths[i := (ths ! i)\<lparr>th_strong := th_strong (ths ! i) - 1\<rparr>,
                              j := (ths ! j)\<lparr>th_strong := th_strong (ths ! j) + 1\<rparr>])"
| pass_weak: "i < length ths \<Longrightarrow> j < length ths \<Longrightarrow> i \<noteq> j \<Longrightarrow> th_pc (ths ! i) = Idle \<Longrightarrow> th_pc (ths ! j) = Idle \<Longrightarrow>
    th_weak (ths ! i) > 0 \<Longrightarrow>
    ref_step (r, ths) (r, ths[i := (ths ! i)\<lparr>th_weak := th_weak (ths ! i) - 1\<rparr>,
                              j := (ths ! j)\<lparr>th_weak := th_weak (ths ! j) + 1\<rparr>])"

inductive_cases ref_stepE: "ref_step s s'"

text \<open>
  The object when its creator shares it: the creator (the first thread) has made the first strong
  reference, or a weak one while there is no strong reference yet.
\<close>

definition idle_thread :: thread where
  "idle_thread = \<lparr>th_pc = Idle, th_strong = 0, th_weak = 0\<rparr>"

fun run_alone :: "nat \<Rightarrow> pc \<Rightarrow> weakref_impl \<Rightarrow> weakref_impl \<times> pc" where
  "run_alone 0 p r = (r, p)"
| "run_alone (Suc n) p r =
     (case p of Return g \<Rightarrow> (r, p) | _ \<Rightarrow> (case exec_pc p r of (r', p') \<Rightarrow> run_alone n p' r'))"

definition shared_strong :: "u32 \<Rightarrow> nat \<Rightarrow> refsys" where
  "shared_strong mode n =
     (fst (run_alone 4 IncStrong_weak (extendObjectLifetime mode RefBase_new)),
      idle_thread\<lparr>th_strong := 1\<rparr> # replicate n idle_thread)"

definition shared_weak :: "u32 \<Rightarrow> nat \<Rightarrow> refsys" where
  "shared_weak mode n =
     (fst (run_alone 1 IncWeak (extendObjectLifetime mode RefBase_new)),
      idle_thread\<lparr>th_weak := 1\<rparr> # replicate n idle_thread)"

inductive ref_reach :: "u32 \<Rightarrow> refsys \<Rightarrow> bool" for mode where
  strong: "ref_reach mode (shared_strong mode n)"
| weak: "ref_reach mode (shared_weak mode n)"
| step: "ref_reach mode s \<Longrightarrow> ref_step s s' \<Longrightarrow> ref_reach mode s'"

end
