(* ===== verification/Vector_Impl.thy ===== *)
theory Vector_Impl
  imports C_Prelude
begin

text \<open>
  The copy-on-write arrays of \<open>SharedBuffer.cpp\<close> and \<open>VectorImpl.cpp\<close>.  A vector points to a shared buffer
  on an explicit heap; a copy of a vector shares the buffer and counts a reference, and every
  editing operation makes its own copy first.

  A buffer holds slots for items of one type; a slot that was never constructed is \<open>None\<close>.  The
  virtual functions that \<open>Vector<T>\<close> supplies copy values and construct the default value; destructors
  have no effect on the model.  Sizes are natural numbers below \<open>2 ^ 64\<close>: the overflow checks of the code are
  written out, and \<open>LOG_ALWAYS_FATAL_IF\<close> is \<open>AssertFail\<close>.  \<open>ALOG_ASSERT\<close> is stripped from release builds;
  the checks behind it are modelled.  Whether \<open>malloc\<close> and \<open>realloc\<close> succeed is a parameter.
\<close>

section \<open>Shared buffers\<close>

definition size_max :: nat where
  "size_max = 2 ^ 64 - 1"

definition sizeof_SharedBuffer :: nat where
  "sizeof_SharedBuffer = 24"

record 'a shared_buffer =
  sb_refs :: int
  sb_size :: nat
  sb_slots :: "'a option list"

record 'a heap =
  bufs :: "nat \<rightharpoonup> 'a shared_buffer"
  next_buf :: nat

record vec_memory =
  can_malloc :: "nat \<Rightarrow> bool"
  can_realloc :: "nat \<Rightarrow> bool"

definition put_buf :: "'a heap \<Rightarrow> nat \<Rightarrow> 'a shared_buffer \<Rightarrow> 'a heap" where
  "put_buf h a b = h\<lparr>bufs := (bufs h)(a \<mapsto> b)\<rparr>"

definition free_buf :: "'a heap \<Rightarrow> nat \<Rightarrow> 'a heap" where
  "free_buf h a = h\<lparr>bufs := (bufs h)(a := None)\<rparr>"

text \<open>\<open>isz\<close> is the item size of the vectors on the heap.\<close>

definition sb_alloc :: "vec_memory \<Rightarrow> nat \<Rightarrow> 'a heap \<Rightarrow> nat \<Rightarrow> ('a heap \<times> nat option) exec" where
  "sb_alloc mem isz h sz =
     (if sz \<ge> size_max - sizeof_SharedBuffer then AssertFail
      else if can_malloc mem (sizeof_SharedBuffer + sz) then
        Ret ((put_buf h (next_buf h) \<lparr>sb_refs = 1, sb_size = sz, sb_slots = replicate (sz div isz) None\<rparr>)
               \<lparr>next_buf := Suc (next_buf h)\<rparr>, Some (next_buf h))
      else Ret (h, None))"

definition sb_dealloc :: "'a heap \<Rightarrow> nat \<Rightarrow> ('a heap \<times> int) exec" where
  "sb_dealloc h a =
     bindE (deref (bufs h a)) (\<lambda>b. if sb_refs b \<noteq> 0 then Ret (h, -1) else Ret (free_buf h a, 0))"

definition onlyOwner :: "'a shared_buffer \<Rightarrow> bool" where
  "onlyOwner b \<longleftrightarrow> sb_refs b = 1"

definition sb_acquire :: "'a heap \<Rightarrow> nat \<Rightarrow> 'a heap exec" where
  "sb_acquire h a = bindE (deref (bufs h a)) (\<lambda>b. Ret (put_buf h a (b\<lparr>sb_refs := sb_refs b + 1\<rparr>)))"

text \<open>\<open>keep\<close> is the flag \<open>eKeepStorage\<close>; the result is the previous count.\<close>

definition sb_release :: "bool \<Rightarrow> 'a heap \<Rightarrow> nat \<Rightarrow> ('a heap \<times> int) exec" where
  "sb_release keep h a =
     bindE (deref (bufs h a)) (\<lambda>b.
     if onlyOwner b then Ret (if keep then put_buf h a (b\<lparr>sb_refs := 0\<rparr>) else free_buf h a, 1)
     else Ret (put_buf h a (b\<lparr>sb_refs := sb_refs b - 1\<rparr>), sb_refs b))"

text \<open>Copying \<open>n\<close> slots between two buffers.\<close>

definition do_copy :: "'a heap \<Rightarrow> nat \<Rightarrow> nat \<Rightarrow> nat \<Rightarrow> nat \<Rightarrow> nat \<Rightarrow> 'a heap exec" where
  "do_copy h dst i src j n =
     bindE (deref (bufs h src)) (\<lambda>s. bindE (deref (bufs h dst)) (\<lambda>d.
     bindE (deref (mem_read j n (sb_slots s))) (\<lambda>xs.
     bindE (deref (mem_write i xs (sb_slots d))) (\<lambda>ys.
     Ret (put_buf h dst (d\<lparr>sb_slots := ys\<rparr>))))))"

definition sb_edit :: "vec_memory \<Rightarrow> nat \<Rightarrow> 'a heap \<Rightarrow> nat \<Rightarrow> ('a heap \<times> nat option) exec" where
  "sb_edit mem isz h a =
     bindE (deref (bufs h a)) (\<lambda>b.
     if onlyOwner b then Ret (h, Some a)
     else bindE (sb_alloc mem isz h (sb_size b)) (\<lambda>(h, sb).
       case sb of None \<Rightarrow> Ret (h, None)
       | Some n \<Rightarrow> bindE (do_copy h n 0 a 0 (length (sb_slots b))) (\<lambda>h.
           bindE (sb_release False h a) (\<lambda>(h, _). Ret (h, Some n)))))"

definition sb_editResize :: "vec_memory \<Rightarrow> nat \<Rightarrow> 'a heap \<Rightarrow> nat \<Rightarrow> nat \<Rightarrow> ('a heap \<times> nat option) exec" where
  "sb_editResize mem isz h a newSize =
     bindE (deref (bufs h a)) (\<lambda>b.
     if onlyOwner b \<and> sb_size b = newSize then Ret (h, Some a)
     else if onlyOwner b \<and> newSize \<ge> size_max - sizeof_SharedBuffer then AssertFail
     else if onlyOwner b \<and> can_realloc mem (sizeof_SharedBuffer + newSize) then
       Ret (put_buf h a (b\<lparr>sb_size := newSize,
         sb_slots := take (newSize div isz) (sb_slots b) @ replicate (newSize div isz - length (sb_slots b)) None\<rparr>), Some a)
     else bindE (sb_alloc mem isz h newSize) (\<lambda>(h, sb).
       case sb of None \<Rightarrow> Ret (h, None)
       | Some n \<Rightarrow> bindE (do_copy h n 0 a 0 (min newSize (sb_size b) div isz)) (\<lambda>h.
           bindE (sb_release False h a) (\<lambda>(h, _). Ret (h, Some n)))))"

definition sb_attemptEdit :: "'a heap \<Rightarrow> nat \<Rightarrow> nat option exec" where
  "sb_attemptEdit h a = bindE (deref (bufs h a)) (\<lambda>b. Ret (if onlyOwner b then Some a else None))"

definition sb_reset :: "vec_memory \<Rightarrow> nat \<Rightarrow> 'a heap \<Rightarrow> nat \<Rightarrow> nat \<Rightarrow> ('a heap \<times> nat option) exec" where
  "sb_reset mem isz h a new_size =
     bindE (sb_alloc mem isz h new_size) (\<lambda>(h, sb).
     case sb of None \<Rightarrow> Ret (h, None)
     | Some n \<Rightarrow> bindE (sb_release False h a) (\<lambda>(h, _). Ret (h, Some n)))"

section \<open>Vectors\<close>

abbreviation BAD_INDEX :: int where
  "BAD_INDEX \<equiv> - 75"

definition kMinVectorCapacity :: nat where
  "kMinVectorCapacity = 4"

definition HAS_TRIVIAL_DTOR :: u32 where
  "HAS_TRIVIAL_DTOR = 2"

definition HAS_TRIVIAL_COPY :: u32 where
  "HAS_TRIVIAL_COPY = 4"

record vec =
  mStorage :: "nat option"
  mCount :: nat
  vec_flags :: u32
  mItemSize :: nat

definition VectorImpl_new :: "nat \<Rightarrow> u32 \<Rightarrow> vec" where
  "VectorImpl_new itemSize flags = \<lparr>mStorage = None, mCount = 0, vec_flags = flags, mItemSize = itemSize\<rparr>"

definition VectorImpl_copy :: "'a heap \<Rightarrow> vec \<Rightarrow> ('a heap \<times> vec) exec" where
  "VectorImpl_copy h rhs =
     (case mStorage rhs of None \<Rightarrow> Ret (h, rhs)
      | Some a \<Rightarrow> bindE (sb_acquire h a) (\<lambda>h. Ret (h, rhs)))"

definition release_storage :: "'a heap \<Rightarrow> vec \<Rightarrow> 'a heap exec" where
  "release_storage h v =
     (case mStorage v of None \<Rightarrow> Ret h
      | Some a \<Rightarrow> bindE (sb_release True h a) (\<lambda>(h, prev).
          if prev = 1 then bindE (sb_dealloc h a) (\<lambda>(h, _). Ret h) else Ret h))"

text \<open>\<open>operator =\<close> for two different vectors.\<close>

definition vec_assign :: "'a heap \<Rightarrow> vec \<Rightarrow> vec \<Rightarrow> ('a heap \<times> vec) exec" where
  "vec_assign h v rhs =
     (if mItemSize v \<noteq> mItemSize rhs then AssertFail
      else bindE (release_storage h v) (\<lambda>h.
        if mCount rhs \<noteq> 0 then
          bindE (deref (mStorage rhs)) (\<lambda>a. bindE (sb_acquire h a) (\<lambda>h.
          Ret (h, v\<lparr>mStorage := mStorage rhs, mCount := mCount rhs\<rparr>)))
        else Ret (h, v\<lparr>mStorage := None, mCount := 0\<rparr>)))"

definition editArrayImpl :: "vec_memory \<Rightarrow> 'a heap \<Rightarrow> vec \<Rightarrow> ('a heap \<times> vec) exec" where
  "editArrayImpl mem h v =
     (case mStorage v of None \<Rightarrow> Ret (h, v)
      | Some a \<Rightarrow>
          bindE (deref (bufs h a)) (\<lambda>sb.
          bindE (sb_attemptEdit h a) (\<lambda>editable.
          if editable \<noteq> None then Ret (h, v)
          else bindE (sb_alloc mem (mItemSize v) h (sb_size sb)) (\<lambda>(h, editable).
            case editable of None \<Rightarrow> AssertFail
            | Some e \<Rightarrow>
                bindE (do_copy h e 0 a 0 (mCount v)) (\<lambda>h.
                bindE (release_storage h v) (\<lambda>h. Ret (h, v\<lparr>mStorage := Some e\<rparr>)))))))"

definition vec_capacity :: "'a heap \<Rightarrow> vec \<Rightarrow> nat exec" where
  "vec_capacity h v =
     (case mStorage v of None \<Rightarrow> Ret 0
      | Some a \<Rightarrow> bindE (deref (bufs h a)) (\<lambda>b. Ret (sb_size b div mItemSize v)))"

text \<open>The slot of an item, if it lies within the capacity.\<close>

definition itemLocation :: "'a heap \<Rightarrow> vec \<Rightarrow> nat \<Rightarrow> nat option exec" where
  "itemLocation h v index =
     bindE (vec_capacity h v) (\<lambda>cap. Ret (if index < cap \<and> mStorage v \<noteq> None then Some index else None))"

definition editItemLocation :: "vec_memory \<Rightarrow> 'a heap \<Rightarrow> vec \<Rightarrow> nat \<Rightarrow> ('a heap \<times> vec \<times> nat option) exec" where
  "editItemLocation mem h v index =
     bindE (vec_capacity h v) (\<lambda>cap.
     if index < cap then
       bindE (editArrayImpl mem h v) (\<lambda>(h, v). Ret (h, v, if mStorage v \<noteq> None then Some index else None))
     else Ret (h, v, None))"

text \<open>Moving \<open>n\<close> items inside the array of a vector.\<close>

definition do_move :: "'a heap \<Rightarrow> nat \<Rightarrow> nat \<Rightarrow> nat \<Rightarrow> nat \<Rightarrow> 'a heap exec" where
  "do_move h a to from n =
     bindE (deref (bufs h a)) (\<lambda>b.
     bindE (deref (memmove to from n (sb_slots b))) (\<lambda>ys. Ret (put_buf h a (b\<lparr>sb_slots := ys\<rparr>))))"

definition trivial :: "vec \<Rightarrow> bool" where
  "trivial v \<longleftrightarrow> vec_flags v AND HAS_TRIVIAL_COPY \<noteq> 0 \<and> vec_flags v AND HAS_TRIVIAL_DTOR \<noteq> 0"

text \<open>Filling a new array with the items before and behind the gap.\<close>

definition copy_around :: "'a heap \<Rightarrow> nat \<Rightarrow> nat option \<Rightarrow> nat \<Rightarrow> nat \<Rightarrow> nat \<Rightarrow> nat \<Rightarrow> 'a heap exec" where
  "copy_around h n old front dest from len =
     bindE (if front \<noteq> 0 then bindE (deref old) (\<lambda>a. do_copy h n 0 a 0 front) else Ret h) (\<lambda>h.
     if len \<noteq> 0 then bindE (deref old) (\<lambda>a. do_copy h n dest a from len) else Ret h)"

definition vec_grow :: "vec_memory \<Rightarrow> 'a heap \<Rightarrow> vec \<Rightarrow> nat \<Rightarrow> nat \<Rightarrow> ('a heap \<times> vec \<times> nat option) exec" where
  "vec_grow mem h v at amount =
     (let new_size = mCount v + amount in
      if new_size > size_max then AssertFail
      else bindE (vec_capacity h v) (\<lambda>cap.
        if cap < new_size then
          let new_capacity = new_size + new_size div 2 + 1;
              new_alloc_size = max kMinVectorCapacity new_capacity * mItemSize v in
          if new_capacity > size_max \<or> new_alloc_size > size_max then AssertFail
          else if mStorage v \<noteq> None \<and> mCount v = at \<and> trivial v then
            bindE (deref (mStorage v)) (\<lambda>a.
            bindE (sb_editResize mem (mItemSize v) h a new_alloc_size) (\<lambda>(h, sb).
            case sb of None \<Rightarrow> Ret (h, v, None)
            | Some n \<Rightarrow>
                let v = v\<lparr>mStorage := Some n, mCount := new_size\<rparr> in
                bindE (itemLocation h v at) (\<lambda>loc. Ret (h, v, loc))))
          else
            bindE (sb_alloc mem (mItemSize v) h new_alloc_size) (\<lambda>(h, sb).
            case sb of None \<Rightarrow> Ret (h, v, None)
            | Some n \<Rightarrow>
                bindE (copy_around h n (mStorage v) at (at + amount) at (mCount v - at)) (\<lambda>h.
                bindE (release_storage h v) (\<lambda>h.
                let v = v\<lparr>mStorage := Some n, mCount := new_size\<rparr> in
                bindE (itemLocation h v at) (\<lambda>loc. Ret (h, v, loc)))))
        else
          bindE (editArrayImpl mem h v) (\<lambda>(h, v).
          bindE (if at \<noteq> mCount v
                 then bindE (deref (mStorage v)) (\<lambda>a. do_move h a (at + amount) at (mCount v - at))
                 else Ret h) (\<lambda>h.
          let v = v\<lparr>mCount := new_size\<rparr> in
          bindE (itemLocation h v at) (\<lambda>loc. Ret (h, v, loc))))))"

text \<open>
  When the smaller array cannot be allocated, the vector keeps its items.  That \<open>at + amount\<close> is within the
  vector is an \<open>ALOG_ASSERT\<close> only; the arithmetic wraps around.
\<close>

definition add64 :: "nat \<Rightarrow> nat \<Rightarrow> nat" where
  "add64 a b = (a + b) mod 2 ^ 64"

definition sub64 :: "nat \<Rightarrow> nat \<Rightarrow> nat" where
  "sub64 a b = (a + 2 ^ 64 - b) mod 2 ^ 64"

definition vec_shrink :: "vec_memory \<Rightarrow> 'a heap \<Rightarrow> vec \<Rightarrow> nat \<Rightarrow> nat \<Rightarrow> ('a heap \<times> vec) exec" where
  "vec_shrink mem h v at amount =
     (case mStorage v of None \<Rightarrow> Ret (h, v)
      | Some a \<Rightarrow>
          if amount > mCount v then AssertFail
          else let new_size = mCount v - amount in
            bindE (vec_capacity h v) (\<lambda>cap.
            if new_size < cap div 2 then
              let new_capacity = max kMinVectorCapacity (new_size * 2) in
              if at = new_size \<and> trivial v then
                bindE (sb_editResize mem (mItemSize v) h a (new_capacity * mItemSize v)) (\<lambda>(h, sb).
                case sb of None \<Rightarrow> Ret (h, v) | Some n \<Rightarrow> Ret (h, v\<lparr>mStorage := Some n, mCount := new_size\<rparr>))
              else
                bindE (sb_alloc mem (mItemSize v) h (new_capacity * mItemSize v)) (\<lambda>(h, sb).
                case sb of None \<Rightarrow> Ret (h, v)
                | Some n \<Rightarrow>
                    bindE (copy_around h n (Some a) at at (add64 at amount) (sub64 new_size at)) (\<lambda>h.
                    bindE (release_storage h v) (\<lambda>h. Ret (h, v\<lparr>mStorage := Some n, mCount := new_size\<rparr>))))
            else
              bindE (editArrayImpl mem h v) (\<lambda>(h, v).
              bindE (if at \<noteq> new_size
                     then bindE (deref (mStorage v)) (\<lambda>a. do_move h a at (add64 at amount) (sub64 new_size at))
                     else Ret h) (\<lambda>h.
              Ret (h, v\<lparr>mCount := new_size\<rparr>)))))"

section \<open>Inserting and removing\<close>

text \<open>Writing values into the array of a vector (\<open>do_copy\<close> from the caller's array, \<open>do_splat\<close>, \<open>do_construct\<close>).\<close>

definition write_items :: "'a heap \<Rightarrow> vec \<Rightarrow> nat \<Rightarrow> 'a option list \<Rightarrow> 'a heap exec" where
  "write_items h v loc xs =
     bindE (deref (mStorage v)) (\<lambda>a. bindE (deref (bufs h a)) (\<lambda>b.
     bindE (deref (mem_write loc xs (sb_slots b))) (\<lambda>ys. Ret (put_buf h a (b\<lparr>sb_slots := ys\<rparr>)))))"

definition insertArrayAt :: "vec_memory \<Rightarrow> 'a heap \<Rightarrow> vec \<Rightarrow> 'a list \<Rightarrow> nat \<Rightarrow> ('a heap \<times> vec \<times> int) exec" where
  "insertArrayAt mem h v array index =
     (if index > mCount v then Ret (h, v, BAD_INDEX)
      else bindE (vec_grow mem h v index (length array)) (\<lambda>(h, v, loc).
        case loc of None \<Rightarrow> Ret (h, v, NO_MEMORY)
        | Some loc \<Rightarrow> bindE (write_items h v loc (map Some array)) (\<lambda>h. Ret (h, v, int index))))"

text \<open>
  The array of the other vector is read after this one has grown: when it is the vector itself,
  its array may have moved or been freed.
\<close>

definition insertVectorAt :: "vec_memory \<Rightarrow> 'a heap \<Rightarrow> vec \<Rightarrow> vec \<Rightarrow> nat \<Rightarrow> ('a heap \<times> vec \<times> int) exec" where
  "insertVectorAt mem h v vector index =
     (if index > mCount v then Ret (h, v, BAD_INDEX)
      else bindE (vec_grow mem h v index (mCount vector)) (\<lambda>(h, v, loc).
        case loc of None \<Rightarrow> Ret (h, v, NO_MEMORY)
        | Some loc \<Rightarrow>
            if mCount vector = 0 then Ret (h, v, int index)
            else bindE (deref (mStorage vector)) (\<lambda>a. bindE (deref (bufs h a)) (\<lambda>b.
              bindE (deref (mem_read 0 (mCount vector) (sb_slots b))) (\<lambda>xs.
              bindE (write_items h v loc xs) (\<lambda>h. Ret (h, v, int index)))))))"

definition appendVector :: "vec_memory \<Rightarrow> 'a heap \<Rightarrow> vec \<Rightarrow> vec \<Rightarrow> ('a heap \<times> vec \<times> int) exec" where
  "appendVector mem h v vector = insertVectorAt mem h v vector (mCount v)"

definition appendArray :: "vec_memory \<Rightarrow> 'a heap \<Rightarrow> vec \<Rightarrow> 'a list \<Rightarrow> ('a heap \<times> vec \<times> int) exec" where
  "appendArray mem h v array = insertArrayAt mem h v array (mCount v)"

text \<open>\<open>insertAt (item, index, numItems)\<close>; without an item the default value \<open>dflt\<close> is constructed.\<close>

definition insertAt :: "vec_memory \<Rightarrow> 'a \<Rightarrow> 'a heap \<Rightarrow> vec \<Rightarrow> 'a option \<Rightarrow> nat \<Rightarrow> nat \<Rightarrow> ('a heap \<times> vec \<times> int) exec" where
  "insertAt mem dflt h v item index numItems =
     (if index > mCount v then Ret (h, v, BAD_INDEX)
      else bindE (vec_grow mem h v index numItems) (\<lambda>(h, v, loc).
        case loc of None \<Rightarrow> Ret (h, v, NO_MEMORY)
        | Some loc \<Rightarrow>
            bindE (write_items h v loc (replicate numItems (Some (case item of None \<Rightarrow> dflt | Some x \<Rightarrow> x)))) (\<lambda>h.
            Ret (h, v, int index))))"

definition vec_push :: "vec_memory \<Rightarrow> 'a \<Rightarrow> 'a heap \<Rightarrow> vec \<Rightarrow> 'a option \<Rightarrow> ('a heap \<times> vec) exec" where
  "vec_push mem dflt h v item = bindE (insertAt mem dflt h v item (mCount v) 1) (\<lambda>(h, v, _). Ret (h, v))"

definition vec_add :: "vec_memory \<Rightarrow> 'a \<Rightarrow> 'a heap \<Rightarrow> vec \<Rightarrow> 'a option \<Rightarrow> ('a heap \<times> vec \<times> int) exec" where
  "vec_add mem dflt h v item = insertAt mem dflt h v item (mCount v) 1"

definition replaceAt :: "vec_memory \<Rightarrow> 'a \<Rightarrow> 'a heap \<Rightarrow> vec \<Rightarrow> 'a option \<Rightarrow> nat \<Rightarrow> ('a heap \<times> vec \<times> int) exec" where
  "replaceAt mem dflt h v item index =
     (if index \<ge> mCount v then Ret (h, v, BAD_INDEX)
      else bindE (editItemLocation mem h v index) (\<lambda>(h, v, loc).
        case loc of None \<Rightarrow> Ret (h, v, NO_MEMORY)
        | Some loc \<Rightarrow>
            bindE (write_items h v loc [Some (case item of None \<Rightarrow> dflt | Some x \<Rightarrow> x)]) (\<lambda>h. Ret (h, v, int index))))"

text \<open>The sum of index and count wraps around.\<close>

definition removeItemsAt :: "vec_memory \<Rightarrow> 'a heap \<Rightarrow> vec \<Rightarrow> nat \<Rightarrow> nat \<Rightarrow> ('a heap \<times> vec \<times> int) exec" where
  "removeItemsAt mem h v index n =
     (if add64 index n > mCount v then Ret (h, v, BAD_VALUE)
      else bindE (vec_shrink mem h v index n) (\<lambda>(h, v). Ret (h, v, int index)))"

definition vec_pop :: "vec_memory \<Rightarrow> 'a heap \<Rightarrow> vec \<Rightarrow> ('a heap \<times> vec) exec" where
  "vec_pop mem h v =
     (if mCount v \<noteq> 0 then bindE (removeItemsAt mem h v (mCount v - 1) 1) (\<lambda>(h, v, _). Ret (h, v)) else Ret (h, v))"

definition finish_vector :: "'a heap \<Rightarrow> vec \<Rightarrow> ('a heap \<times> vec) exec" where
  "finish_vector h v = bindE (release_storage h v) (\<lambda>h. Ret (h, v\<lparr>mStorage := None, mCount := 0\<rparr>))"

definition vec_clear :: "vec_memory \<Rightarrow> 'a heap \<Rightarrow> vec \<Rightarrow> ('a heap \<times> vec) exec" where
  "vec_clear mem h v = vec_shrink mem h v 0 (mCount v)"

definition setCapacity :: "vec_memory \<Rightarrow> 'a heap \<Rightarrow> vec \<Rightarrow> nat \<Rightarrow> ('a heap \<times> vec \<times> int) exec" where
  "setCapacity mem h v new_capacity =
     (if new_capacity \<le> mCount v then bindE (vec_capacity h v) (\<lambda>cap. Ret (h, v, int cap))
      else if new_capacity * mItemSize v > size_max then AssertFail
      else bindE (sb_alloc mem (mItemSize v) h (new_capacity * mItemSize v)) (\<lambda>(h, sb).
        case sb of None \<Rightarrow> Ret (h, v, NO_MEMORY)
        | Some n \<Rightarrow>
            bindE (copy_around h n (mStorage v) (mCount v) 0 0 0) (\<lambda>h.
            bindE (release_storage h v) (\<lambda>h. Ret (h, v\<lparr>mStorage := Some n\<rparr>, int new_capacity)))))"

definition vec_resize :: "vec_memory \<Rightarrow> 'a \<Rightarrow> 'a heap \<Rightarrow> vec \<Rightarrow> nat \<Rightarrow> ('a heap \<times> vec \<times> int) exec" where
  "vec_resize mem dflt h v n =
     bindE (if n > mCount v then insertAt mem dflt h v None (mCount v) (n - mCount v)
            else if n < mCount v then removeItemsAt mem h v n (mCount v - n)
            else Ret (h, v, 0)) (\<lambda>(h, v, result).
     Ret (h, v, if result < 0 then result else int n))"

section \<open>Sorting\<close>

text \<open>
  The inner loop of the insertion sort: the item \<open>temp\<close> moves down from position \<open>Suc j\<close>, the larger
  items move up.
\<close>

fun sort_shift :: "('a \<Rightarrow> 'a \<Rightarrow> int) \<Rightarrow> 'a list \<Rightarrow> nat \<Rightarrow> 'a \<Rightarrow> 'a list" where
  "sort_shift cmp array 0 temp = array[1 := array ! 0, 0 := temp]"
| "sort_shift cmp array (Suc j) temp =
     (let array = array[Suc (Suc j) := array ! Suc j] in
      if cmp (array ! j) temp > 0 then sort_shift cmp array j temp else array[Suc j := temp])"

text \<open>The outer loop, with \<open>n\<close> rounds left.\<close>

fun sort_loop :: "('a \<Rightarrow> 'a \<Rightarrow> int) \<Rightarrow> 'a list \<Rightarrow> nat \<Rightarrow> nat \<Rightarrow> 'a list" where
  "sort_loop cmp array i 0 = array"
| "sort_loop cmp array i (Suc n) =
     sort_loop cmp
       (if cmp (array ! (i - 1)) (array ! i) > 0 then sort_shift cmp array (i - 1) (array ! i) else array)
       (Suc i) n"

definition in_order :: "('a \<Rightarrow> 'a \<Rightarrow> int) \<Rightarrow> 'a list \<Rightarrow> bool" where
  "in_order cmp xs \<longleftrightarrow> (\<forall>i \<in> {1..<length xs}. cmp (xs ! (i - 1)) (xs ! i) \<le> 0)"

text \<open>The array is made editable, and a temporary item allocated, before the first change.\<close>

definition vec_sort :: "vec_memory \<Rightarrow> 'a heap \<Rightarrow> vec \<Rightarrow> ('a \<Rightarrow> 'a \<Rightarrow> int) \<Rightarrow> ('a heap \<times> vec \<times> int) exec" where
  "vec_sort mem h v cmp =
     (if mCount v > 1 then
        bindE (deref (mStorage v)) (\<lambda>a. bindE (deref (bufs h a)) (\<lambda>b.
        bindE (deref (mem_read 0 (mCount v) (sb_slots b))) (\<lambda>slots.
        if None \<in> set slots then Fault
        else let xs = map the slots in
          if in_order cmp xs then Ret (h, v, 0)
          else bindE (editArrayImpl mem h v) (\<lambda>(h, v).
            if \<not> can_malloc mem (mItemSize v) then Ret (h, v, NO_MEMORY)
            else bindE (write_items h v 0 (map Some (sort_loop cmp xs 1 (mCount v - 1)))) (\<lambda>h. Ret (h, v, 0))))))
      else Ret (h, v, 0))"

section \<open>Sorted vectors\<close>

text \<open>The binary search, over the positions \<open>l \<le> i < u\<close>: the index of the item, if any, and its order.\<close>

function index_search :: "('a \<Rightarrow> 'a \<Rightarrow> int) \<Rightarrow> 'a option list \<Rightarrow> 'a \<Rightarrow> nat \<Rightarrow> nat \<Rightarrow> (int \<times> nat) exec" where
  "index_search cmp slots item l u =
     (if l < u then
        let mid = l + (u - 1 - l) div 2 in
        if mid < length slots then
          bindE (deref (slots ! mid)) (\<lambda>curr.
          let c = cmp curr item in
          if c = 0 then Ret (int mid, mid)
          else if c < 0 then index_search cmp slots item (mid + 1) u
          else index_search cmp slots item l mid)
        else Fault
      else Ret (NAME_NOT_FOUND, l))"
  by pat_completeness auto
termination
  by (relation "measure (\<lambda>(cmp, slots, item, l, u). u - l)") auto

declare index_search.simps [simp del]

definition indexOrderOf :: "('a \<Rightarrow> 'a \<Rightarrow> int) \<Rightarrow> 'a heap \<Rightarrow> vec \<Rightarrow> 'a \<Rightarrow> (int \<times> nat) exec" where
  "indexOrderOf cmp h v item =
     (case mStorage v of
        None \<Rightarrow> index_search cmp [] item 0 (mCount v)
      | Some a \<Rightarrow> bindE (deref (bufs h a)) (\<lambda>b. index_search cmp (sb_slots b) item 0 (mCount v)))"

definition indexOf :: "('a \<Rightarrow> 'a \<Rightarrow> int) \<Rightarrow> 'a heap \<Rightarrow> vec \<Rightarrow> 'a \<Rightarrow> int exec" where
  "indexOf cmp h v item = bindE (indexOrderOf cmp h v item) (\<lambda>(i, _). Ret i)"

definition orderOf :: "('a \<Rightarrow> 'a \<Rightarrow> int) \<Rightarrow> 'a heap \<Rightarrow> vec \<Rightarrow> 'a \<Rightarrow> nat exec" where
  "orderOf cmp h v item = bindE (indexOrderOf cmp h v item) (\<lambda>(_, k). Ret k)"

definition sorted_add ::
    "vec_memory \<Rightarrow> 'a \<Rightarrow> ('a \<Rightarrow> 'a \<Rightarrow> int) \<Rightarrow> 'a heap \<Rightarrow> vec \<Rightarrow> 'a \<Rightarrow> ('a heap \<times> vec \<times> int) exec" where
  "sorted_add mem dflt cmp h v item =
     bindE (indexOrderOf cmp h v item) (\<lambda>(index, order).
     if index < 0 then insertAt mem dflt h v (Some item) order 1
     else replaceAt mem dflt h v (Some item) (nat index))"

fun sorted_merge_loop ::
    "vec_memory \<Rightarrow> 'a \<Rightarrow> ('a \<Rightarrow> 'a \<Rightarrow> int) \<Rightarrow> 'a heap \<Rightarrow> vec \<Rightarrow> 'a list \<Rightarrow> ('a heap \<times> vec \<times> int) exec" where
  "sorted_merge_loop mem dflt cmp h v [] = Ret (h, v, 0)"
| "sorted_merge_loop mem dflt cmp h v (x # xs) =
     bindE (sorted_add mem dflt cmp h v x) (\<lambda>(h, v, err).
     if err < 0 then Ret (h, v, err) else sorted_merge_loop mem dflt cmp h v xs)"

text \<open>\<open>merge\<close> with any vector adds its items one by one.\<close>

definition sorted_merge ::
    "vec_memory \<Rightarrow> 'a \<Rightarrow> ('a \<Rightarrow> 'a \<Rightarrow> int) \<Rightarrow> 'a heap \<Rightarrow> vec \<Rightarrow> vec \<Rightarrow> ('a heap \<times> vec \<times> int) exec" where
  "sorted_merge mem dflt cmp h v vector =
     (if mCount vector = 0 then Ret (h, v, 0)
      else bindE (deref (mStorage vector)) (\<lambda>a. bindE (deref (bufs h a)) (\<lambda>b.
        bindE (deref (mem_read 0 (mCount vector) (sb_slots b))) (\<lambda>slots.
        if None \<in> set slots then Fault else sorted_merge_loop mem dflt cmp h v (map the slots)))))"

text \<open>The item at a slot; comparing with an item that does not exist reads through \<open>NULL\<close>.\<close>

definition item_at :: "'a heap \<Rightarrow> vec \<Rightarrow> nat \<Rightarrow> 'a exec" where
  "item_at h v i =
     bindE (deref (mStorage v)) (\<lambda>a. bindE (deref (bufs h a)) (\<lambda>b.
     bindE (array_read (sb_slots b) i) (\<lambda>s. deref s)))"

text \<open>\<open>merge\<close> with a sorted vector first looks whether one lies completely before the other.\<close>

definition sorted_merge_sorted ::
    "vec_memory \<Rightarrow> 'a \<Rightarrow> ('a \<Rightarrow> 'a \<Rightarrow> int) \<Rightarrow> 'a heap \<Rightarrow> vec \<Rightarrow> vec \<Rightarrow> ('a heap \<times> vec \<times> int) exec" where
  "sorted_merge_sorted mem dflt cmp h v vector =
     (if mCount vector = 0 then Ret (h, v, 0)
      else
        bindE (item_at h vector (mCount vector - 1)) (\<lambda>last.
        bindE (item_at h v 0) (\<lambda>first.
        if cmp last first \<le> 0 then insertVectorAt mem h v vector 0
        else
          bindE (item_at h vector 0) (\<lambda>first.
          if mCount v = 0 then Fault
          else bindE (item_at h v (mCount v - 1)) (\<lambda>last.
          if cmp first last \<ge> 0 then appendVector mem h v vector
          else sorted_merge mem dflt cmp h v vector)))))"

definition sorted_remove ::
    "vec_memory \<Rightarrow> ('a \<Rightarrow> 'a \<Rightarrow> int) \<Rightarrow> 'a heap \<Rightarrow> vec \<Rightarrow> 'a \<Rightarrow> ('a heap \<times> vec \<times> int) exec" where
  "sorted_remove mem cmp h v item =
     bindE (indexOf cmp h v item) (\<lambda>i.
     if i \<ge> 0 then bindE (removeItemsAt mem h v (nat i) 1) (\<lambda>(h, v, _). Ret (h, v, i)) else Ret (h, v, i))"

end
