(* ===== verification/Vector_Correct.thy ===== *)
theory Vector_Correct
  imports Vector_Impl
begin

text \<open>
  Vectors are lists: every operation acts on the items of its vector as the operation of lists and
  leaves the items of all other vectors alone, although vectors share buffers.  The invariant ties
  the reference count of every buffer to the vectors that point to it, so that a buffer is freed
  exactly when the last of them lets go.
\<close>

section \<open>What a vector holds\<close>

definition slots_of :: "'a heap \<Rightarrow> vec \<Rightarrow> 'a option list" where
  "slots_of h v = (case mStorage v of None \<Rightarrow> []
     | Some a \<Rightarrow> (case bufs h a of None \<Rightarrow> [] | Some b \<Rightarrow> take (mCount v) (sb_slots b)))"

definition vec_items :: "'a heap \<Rightarrow> vec \<Rightarrow> 'a list" where
  "vec_items h v = map the (slots_of h v)"

definition buf_ok :: "nat \<Rightarrow> 'a shared_buffer \<Rightarrow> bool" where
  "buf_ok isz b \<longleftrightarrow> length (sb_slots b) = sb_size b div isz \<and> sb_size b < size_max - sizeof_SharedBuffer"

definition vec_ok :: "nat \<Rightarrow> 'a heap \<Rightarrow> vec \<Rightarrow> bool" where
  "vec_ok isz h v \<longleftrightarrow> mItemSize v = isz \<and>
     (case mStorage v of None \<Rightarrow> mCount v = 0
      | Some a \<Rightarrow> \<exists>b. bufs h a = Some b \<and> mCount v \<le> length (sb_slots b))"

definition users :: "vec list \<Rightarrow> nat \<Rightarrow> nat" where
  "users vs a = length (filter (\<lambda>v. mStorage v = Some a) vs)"

text \<open>A buffer is allocated while vectors point to it, and counts them.\<close>

definition counted :: "nat \<Rightarrow> 'a heap \<Rightarrow> vec list \<Rightarrow> nat \<Rightarrow> bool" where
  "counted isz h vs a \<longleftrightarrow>
     (case bufs h a of
        None \<Rightarrow> users vs a = 0
      | Some b \<Rightarrow> buf_ok isz b \<and> sb_refs b = int (users vs a) \<and> 0 < users vs a \<and> a < next_buf h)"

definition heap_ok :: "nat \<Rightarrow> 'a heap \<Rightarrow> vec list \<Rightarrow> bool" where
  "heap_ok isz h vs \<longleftrightarrow> 0 < isz \<and> (\<forall>v \<in> set vs. vec_ok isz h v) \<and>
     (\<forall>a. counted isz h vs a)"

lemma users_update:
  assumes "i < length vs"
  shows "int (users (vs[i := v]) a) = int (users vs a) - (if mStorage (vs ! i) = Some a then 1 else 0)
    + (if mStorage v = Some a then 1 else 0)"
  using assms
proof (induction vs arbitrary: i)
  case (Cons w vs)
  show ?case
  proof (cases i)
    case (Suc j)
    then show ?thesis using Cons.IH [of j] Cons.prems by (auto simp: users_def split: if_splits)
  qed (auto simp: users_def)
qed (simp add: users_def)

lemma users_pos: "v \<in> set vs \<Longrightarrow> mStorage v = Some a \<Longrightarrow> 0 < users vs a"
  by (auto simp: users_def filter_empty_conv)

lemma heap_okD:
  assumes "heap_ok isz h vs"
  shows "0 < isz" "v \<in> set vs \<Longrightarrow> vec_ok isz h v" "bufs h a = Some b \<Longrightarrow> buf_ok isz b"
    "bufs h a = Some b \<Longrightarrow> sb_refs b = int (users vs a)" "bufs h a = Some b \<Longrightarrow> a < next_buf h"
    "bufs h (next_buf h) = None" "users vs (next_buf h) = 0" "counted isz h vs a"
proof -
  have *: "counted isz h vs a" for a
    using assms by (simp add: heap_ok_def)
  show "0 < isz" "v \<in> set vs \<Longrightarrow> vec_ok isz h v" using assms by (auto simp: heap_ok_def)
  show "counted isz h vs a" by (rule *)
  show "bufs h a = Some b \<Longrightarrow> buf_ok isz b" "bufs h a = Some b \<Longrightarrow> sb_refs b = int (users vs a)"
    "bufs h a = Some b \<Longrightarrow> a < next_buf h" using * [of a] by (auto simp: counted_def)
  show n: "bufs h (next_buf h) = None" using * [of "next_buf h"] by (auto simp: counted_def split: option.splits)
  then show "users vs (next_buf h) = 0" using * [of "next_buf h"] by (simp add: counted_def)
qed

text \<open>The buffer of a vector.\<close>

lemma vec_buffer:
  assumes "heap_ok isz h vs" "v \<in> set vs" "mStorage v = Some a"
  obtains b where "bufs h a = Some b" "buf_ok isz b" "sb_refs b = int (users vs a)" "0 < sb_refs b"
    "mCount v \<le> length (sb_slots b)" "slots_of h v = take (mCount v) (sb_slots b)"
proof -
  from heap_okD(2) [OF assms(1,2)] assms(3) obtain b where b: "bufs h a = Some b"
    "mCount v \<le> length (sb_slots b)" by (auto simp: vec_ok_def)
  with that heap_okD(3,4) [OF assms(1)] users_pos [OF assms(2,3)] assms(3) show ?thesis
    by (simp add: slots_of_def)
qed

section \<open>Two ways to change a vector\<close>

text \<open>
  The vector at \<open>i\<close> is the only owner of its buffer: the buffer may be rewritten in place.
\<close>

definition unaffected :: "'a heap \<Rightarrow> 'a heap \<Rightarrow> vec list \<Rightarrow> nat \<Rightarrow> bool" where
  "unaffected h h' vs i \<longleftrightarrow> (\<forall>j < length vs. j \<noteq> i \<longrightarrow> slots_of h' (vs ! j) = slots_of h (vs ! j))"

lemma other_user:
  assumes "i < length vs" "j < length vs" "i \<noteq> j" "mStorage (vs ! i) = Some a" "mStorage (vs ! j) = Some a"
  shows "2 \<le> users vs a"
proof -
  have "int (users (vs[j := (vs ! j)\<lparr>mStorage := None\<rparr>]) a) = int (users vs a) - 1"
    using users_update [OF assms(2), of "(vs ! j)\<lparr>mStorage := None\<rparr>" a] assms(5) by simp
  moreover have "0 < users (vs[j := (vs ! j)\<lparr>mStorage := None\<rparr>]) a"
    using assms by (intro users_pos [of "vs ! i"]) (metis length_list_update nth_list_update_neq nth_mem, simp)
  ultimately show ?thesis by linarith
qed

lemma rewrite_own:
  assumes ok: "heap_ok isz h vs" and i: "i < length vs" and st: "mStorage (vs ! i) = Some a"
    and b: "bufs h a = Some b" "onlyOwner b"
    and b': "sb_refs b' = 1" "buf_ok isz b'" and v': "mStorage v' = Some a" "mItemSize v' = isz"
    and new: "mCount v' \<le> length (sb_slots b')"
  shows "heap_ok isz (put_buf h a b') (vs[i := v'])" "unaffected h (put_buf h a b') vs i"
    "slots_of (put_buf h a b') v' = take (mCount v') (sb_slots b')"
proof -
  have one: "users vs a = 1" using heap_okD(4) [OF ok b(1)] b(2) by (simp add: onlyOwner_def)
  have alone: "mStorage (vs ! j) \<noteq> Some a" if "j < length vs" "j \<noteq> i" for j
    using other_user [OF i that(1) _ st] that one by force
  have us: "users (vs[i := v']) c = users vs c" for c
    using users_update [OF i, of v' c] st v'(1) by simp
  have vok: "vec_ok isz (put_buf h a b') w" if "vec_ok isz h w" "mStorage w \<noteq> Some a" for w
    using that by (auto simp: vec_ok_def put_buf_def split: option.splits)
  have "vec_ok isz (put_buf h a b') w" if "w \<in> set (vs[i := v'])" for w
  proof -
    from that obtain j where j: "j < length vs" "w = vs[i := v'] ! j" by (auto simp: in_set_conv_nth)
    show ?thesis
    proof (cases "j = i")
      case True
      with j i v' new show ?thesis by (auto simp: vec_ok_def put_buf_def)
    next
      case False
      with j i alone vok heap_okD(2) [OF ok] show ?thesis by simp
    qed
  qed
  moreover have "counted isz (put_buf h a b') (vs[i := v']) c" for c
    using heap_okD(8) [OF ok, of c] one b' heap_okD(5) [OF ok b(1)]
    by (auto simp: us counted_def put_buf_def split: option.splits)
  ultimately show "heap_ok isz (put_buf h a b') (vs[i := v'])"
    using heap_okD(1) [OF ok] by (simp add: heap_ok_def)
  show "unaffected h (put_buf h a b') vs i"
    using alone by (auto simp: unaffected_def slots_of_def put_buf_def split: option.splits)
  show "slots_of (put_buf h a b') v' = take (mCount v') (sb_slots b')"
    using v' by (simp add: slots_of_def put_buf_def)
qed

text \<open>The vector at \<open>i\<close> moves to a new buffer \<open>b'\<close> and lets go of its old one.\<close>

definition with_new :: "'a heap \<Rightarrow> 'a shared_buffer \<Rightarrow> 'a heap" where
  "with_new h b' = (put_buf h (next_buf h) b')\<lparr>next_buf := Suc (next_buf h)\<rparr>"

lemma release_result:
  assumes ok: "heap_ok isz h vs" and v: "v \<in> set vs"
  shows "\<exists>h'. release_storage (with_new h b') v = Ret h' \<and> next_buf h' = Suc (next_buf h) \<and>
    (\<forall>c. bufs h' c = (if c = next_buf h then Some b'
       else if mStorage v = Some c then
         (if users vs c = 1 then None else map_option (\<lambda>b. b\<lparr>sb_refs := sb_refs b - 1\<rparr>) (bufs h c))
       else bufs h c))"
proof (cases "mStorage v")
  case None
  then show ?thesis by (auto simp: release_storage_def with_new_def put_buf_def)
next
  case (Some a)
  obtain b where b: "bufs h a = Some b" "sb_refs b = int (users vs a)" "0 < sb_refs b"
    by (rule vec_buffer [OF ok v Some])
  have n: "a \<noteq> next_buf h" using b(1) heap_okD(6) [OF ok] by auto
  show ?thesis
  proof (cases "users vs a = 1")
    case True
    then have "release_storage (with_new h b') v = Ret (free_buf (put_buf (with_new h b') a (b\<lparr>sb_refs := 0\<rparr>)) a)"
      using Some b n by (simp add: release_storage_def sb_release_def sb_dealloc_def with_new_def put_buf_def onlyOwner_def)
    then show ?thesis using True Some n by (auto simp: free_buf_def put_buf_def with_new_def)
  next
    case False
    then have "release_storage (with_new h b') v = Ret (put_buf (with_new h b') a (b\<lparr>sb_refs := sb_refs b - 1\<rparr>))"
      using Some b n by (simp add: release_storage_def sb_release_def with_new_def put_buf_def onlyOwner_def)
    then show ?thesis using False Some n b(1) by (auto simp: put_buf_def with_new_def)
  qed
qed

lemma install_new:
  assumes ok: "heap_ok isz h vs" and i: "i < length vs"
    and b': "sb_refs b' = 1" "buf_ok isz b'"
    and v': "mStorage v' = Some (next_buf h)" "mItemSize v' = isz" "mCount v' \<le> length (sb_slots b')"
  shows "\<exists>h'. release_storage (with_new h b') (vs ! i) = Ret h' \<and> heap_ok isz h' (vs[i := v']) \<and>
    unaffected h h' vs i \<and> bufs h' (next_buf h) = Some b' \<and> slots_of h' v' = take (mCount v') (sb_slots b')"
proof -
  let ?n = "next_buf h" and ?v = "vs ! i"
  have vin: "?v \<in> set vs" using i by simp
  from release_result [OF ok vin, of b'] obtain h' where h': "release_storage (with_new h b') ?v = Ret h'"
    "next_buf h' = Suc ?n" and bf: "\<And>c. bufs h' c = (if c = ?n then Some b'
       else if mStorage ?v = Some c then
         (if users vs c = 1 then None else map_option (\<lambda>b. b\<lparr>sb_refs := sb_refs b - 1\<rparr>) (bufs h c))
       else bufs h c)" by blast
  have nn: "mStorage w \<noteq> Some ?n" if "w \<in> set vs" for w
    using users_pos [OF that] heap_okD(7) [OF ok] by auto
  have us: "int (users (vs[i := v']) c) = int (users vs c) - (if mStorage ?v = Some c then 1 else 0) + (if c = ?n then 1 else 0)" for c
    using users_update [OF i, of v' c] v'(1) by simp
  have keep: "\<exists>b'. bufs h' c = Some b' \<and> sb_slots b' = sb_slots b"
    if "j < length vs" "j \<noteq> i" "mStorage (vs ! j) = Some c" "bufs h c = Some b" for j c b
  proof -
    have "c \<noteq> ?n" using nn [of "vs ! j"] that by auto
    moreover have "users vs c \<noteq> 1" if "mStorage ?v = Some c"
      using other_user [OF i \<open>j < length vs\<close> _ that \<open>mStorage (vs ! j) = Some c\<close>] \<open>j \<noteq> i\<close> by force
    ultimately show ?thesis using that by (auto simp: bf)
  qed
  have vok: "vec_ok isz h' w" if "w \<in> set (vs[i := v'])" for w
  proof -
    from that obtain j where j: "j < length vs" "w = vs[i := v'] ! j" by (auto simp: in_set_conv_nth)
    show ?thesis
    proof (cases "j = i")
      case True
      with j i v' show ?thesis by (simp add: vec_ok_def bf)
    next
      case False
      with j have w: "w = vs ! j" by simp
      have "vec_ok isz h w" using heap_okD(2) [OF ok] j(1) w by simp
      then show ?thesis using keep [OF j(1) False] unfolding w by (fastforce simp: vec_ok_def split: option.splits)
    qed
  qed
  have "counted isz h' (vs[i := v']) c" for c
    using heap_okD(8) [OF ok, of c] us [of c] heap_okD(6,7) [OF ok] b' h'(2) nn [OF vin]
    by (auto simp: counted_def bf buf_ok_def split: option.splits if_splits)
  then have "heap_ok isz h' (vs[i := v'])" using vok heap_okD(1) [OF ok] by (simp add: heap_ok_def)
  moreover have "unaffected h h' vs i"
    unfolding unaffected_def
  proof (intro allI impI)
    fix j assume j: "j < length vs" "j \<noteq> i"
    have "vec_ok isz h (vs ! j)" using heap_okD(2) [OF ok] j(1) by simp
    then show "slots_of h' (vs ! j) = slots_of h (vs ! j)"
      using keep [OF j] by (fastforce simp: slots_of_def vec_ok_def split: option.splits)
  qed
  ultimately show ?thesis using h'(1) v'(1) by (simp add: bf slots_of_def)
qed

section \<open>Making a vector the only owner\<close>

text \<open>The vector at \<open>i\<close> became \<open>v'\<close>, the only owner of its buffer, and no other vector changed.\<close>

definition owns :: "nat \<Rightarrow> 'a heap \<Rightarrow> vec list \<Rightarrow> nat \<Rightarrow> 'a heap \<Rightarrow> vec \<Rightarrow> bool" where
  "owns isz h vs i h' v' \<longleftrightarrow> heap_ok isz h' (vs[i := v']) \<and> unaffected h h' vs i \<and>
     (\<forall>a. mStorage v' = Some a \<longrightarrow> (\<exists>b. bufs h' a = Some b \<and> onlyOwner b))"

lemma unaffected_refl: "unaffected h h vs i"
  by (simp add: unaffected_def)

lemma unaffected_trans: "unaffected h h' vs i \<Longrightarrow> unaffected h' h'' (vs[i := v]) i \<Longrightarrow> unaffected h h'' vs i"
  by (simp add: unaffected_def)

definition new_buffer :: "nat \<Rightarrow> nat \<Rightarrow> 'a shared_buffer" where
  "new_buffer isz sz = \<lparr>sb_refs = 1, sb_size = sz, sb_slots = replicate (sz div isz) None\<rparr>"

lemma sb_alloc_eq:
  "sb_alloc mem isz h sz =
     (if size_max - sizeof_SharedBuffer \<le> sz then AssertFail
      else if can_malloc mem (sizeof_SharedBuffer + sz) then Ret (with_new h (new_buffer isz sz), Some (next_buf h))
      else Ret (h, None))"
  by (simp add: sb_alloc_def with_new_def new_buffer_def)

lemma do_copy_Ret:
  assumes "bufs h src = Some s" "bufs h dst = Some d" "j + n \<le> length (sb_slots s)" "i + n \<le> length (sb_slots d)"
  shows "do_copy h dst i src j n =
    Ret (put_buf h dst (d\<lparr>sb_slots := take i (sb_slots d) @ take n (drop j (sb_slots s)) @ drop (i + n) (sb_slots d)\<rparr>))"
  using assms by (simp add: do_copy_def mem_read_def mem_write_def)

lemma put_with_new: "put_buf (with_new h b) (next_buf h) b' = with_new h b'"
  by (simp add: with_new_def put_buf_def)

lemma bufs_with_new: "bufs (with_new h b) (next_buf h) = Some b" "c \<noteq> next_buf h \<Longrightarrow> bufs (with_new h b) c = bufs h c"
  by (simp_all add: with_new_def put_buf_def)

lemma heap_ok_same: "heap_ok isz h vs \<Longrightarrow> i < length vs \<Longrightarrow> heap_ok isz h (vs[i := vs ! i])"
  by simp

lemma editArrayImpl_result:
  assumes ok: "heap_ok isz h vs" and i: "i < length vs"
  shows "editArrayImpl mem h (vs ! i) = AssertFail \<and> (\<exists>n. \<not> can_malloc mem n) \<or>
    (\<exists>h' v'. editArrayImpl mem h (vs ! i) = Ret (h', v') \<and> owns isz h vs i h' v' \<and> v' = (vs ! i)\<lparr>mStorage := mStorage v'\<rparr> \<and>
       slots_of h' v' = slots_of h (vs ! i) \<and> vec_capacity h' v' = vec_capacity h (vs ! i))"
proof (cases "mStorage (vs ! i)")
  case None
  then show ?thesis using heap_ok_same [OF ok i]
    by (auto simp: editArrayImpl_def owns_def unaffected_refl intro!: disjI2 exI [of _ h] exI [of _ "vs ! i"])
next
  case (Some a)
  let ?v = "vs ! i"
  have vin: "?v \<in> set vs" and isz: "mItemSize ?v = isz" using i heap_okD(2) [OF ok, of ?v] by (simp_all add: vec_ok_def)
  obtain b where b: "bufs h a = Some b" "buf_ok isz b" "mCount ?v \<le> length (sb_slots b)"
    "slots_of h ?v = take (mCount ?v) (sb_slots b)" by (rule vec_buffer [OF ok vin Some])
  show ?thesis
  proof (cases "onlyOwner b")
    case True
    then have "editArrayImpl mem h ?v = Ret (h, ?v)" using Some b(1)
      by (simp add: editArrayImpl_def sb_attemptEdit_def)
    moreover have "owns isz h vs i h ?v" using True Some b(1) heap_ok_same [OF ok i]
      by (simp add: owns_def unaffected_refl)
    ultimately show ?thesis by (intro disjI2 exI [of _ h] exI [of _ ?v]) simp
  next
    case False
    let ?n = "next_buf h" and ?k = "sb_size b div isz"
    have k: "length (sb_slots b) = ?k" "sb_size b < size_max - sizeof_SharedBuffer" using b(2) by (simp_all add: buf_ok_def)
    have an: "a \<noteq> ?n" using b(1) heap_okD(6) [OF ok] by auto
    define e where "e = \<lparr>sb_refs = 1, sb_size = sb_size b,
      sb_slots = take (mCount ?v) (sb_slots b) @ replicate (?k - mCount ?v) None\<rparr>"
    have run: "editArrayImpl mem h ?v = (if can_malloc mem (sizeof_SharedBuffer + sb_size b)
        then bindE (release_storage (with_new h e) ?v) (\<lambda>h. Ret (h, ?v\<lparr>mStorage := Some ?n\<rparr>)) else AssertFail)"
      using False Some b k an isz
      by (simp add: editArrayImpl_def sb_attemptEdit_def sb_alloc_eq
          do_copy_Ret [where s = b and d = "new_buffer isz (sb_size b)"] bufs_with_new put_with_new new_buffer_def e_def)
    have "buf_ok isz e" "mCount ?v \<le> length (sb_slots e)" using b(2,3) k by (simp_all add: buf_ok_def e_def)
    then obtain h' where h': "release_storage (with_new h e) ?v = Ret h'" "heap_ok isz h' (vs[i := ?v\<lparr>mStorage := Some ?n\<rparr>])"
      "unaffected h h' vs i" "bufs h' ?n = Some e" "slots_of h' (?v\<lparr>mStorage := Some ?n\<rparr>) = take (mCount ?v) (sb_slots e)"
      using install_new [OF ok i, of e "?v\<lparr>mStorage := Some ?n\<rparr>"] isz by (auto simp: e_def)
    have "owns isz h vs i h' (?v\<lparr>mStorage := Some ?n\<rparr>)"
      using h' by (simp add: owns_def e_def onlyOwner_def)
    moreover have "take (mCount ?v) (sb_slots e) = slots_of h ?v" using b(3,4) by (simp add: e_def)
    moreover have "vec_capacity h' (?v\<lparr>mStorage := Some ?n\<rparr>) = vec_capacity h ?v"
      using h'(4) Some b(1) by (simp add: vec_capacity_def e_def)
    ultimately show ?thesis using run h'(1,5)
      by (cases "can_malloc mem (sizeof_SharedBuffer + sb_size b)") (auto intro!: exI [of _ h'])
  qed
qed

section \<open>Resizing\<close>

lemma put_same: "bufs h a = Some b \<Longrightarrow> put_buf h a b = h"
  by (simp add: put_buf_def fun_upd_idem)

text \<open>Dropping a reference frees the buffer with the last one, with and without \<open>eKeepStorage\<close>.\<close>

lemma release_same:
  assumes "mStorage v = Some a" "release_storage h v = Ret h'"
  shows "\<exists>p. sb_release False h a = Ret (h', p)"
proof (cases "bufs h a")
  case (Some b)
  then show ?thesis using assms
    by (cases "sb_refs b = 1")
      (auto simp: release_storage_def sb_release_def sb_dealloc_def onlyOwner_def put_buf_def free_buf_def)
qed (use assms in \<open>simp add: release_storage_def sb_release_def\<close>)

lemma min_div: "min x y div z = min (x div z) (y div (z :: nat))"
  by (metis div_le_mono linorder_le_cases min_absorb1 min_absorb2)

definition resized :: "nat \<Rightarrow> 'a heap \<Rightarrow> vec list \<Rightarrow> nat \<Rightarrow> 'a shared_buffer \<Rightarrow> nat \<Rightarrow> 'a heap \<Rightarrow> nat \<Rightarrow> bool" where
  "resized isz h vs i b k h' m \<longleftrightarrow>
     (\<exists>b'. bufs h' m = Some b' \<and> length (sb_slots b') = k \<and> sb_size b' div isz = k \<and>
       take (min k (length (sb_slots b))) (sb_slots b') = take (min k (length (sb_slots b))) (sb_slots b) \<and>
       (\<forall>cnt \<le> k. owns isz h vs i h' ((vs ! i)\<lparr>mStorage := Some m, mCount := cnt\<rparr>)))"

lemma editResize_result:
  assumes ok: "heap_ok isz h vs" and i: "i < length vs" and st: "mStorage (vs ! i) = Some a" and b: "bufs h a = Some b"
  shows "sb_editResize mem isz h a newSize = AssertFail \<and> size_max - sizeof_SharedBuffer \<le> newSize \<or>
    sb_editResize mem isz h a newSize = Ret (h, None) \<and> (\<exists>n. \<not> can_malloc mem n) \<or>
    (\<exists>h' m. sb_editResize mem isz h a newSize = Ret (h', Some m) \<and> resized isz h vs i b (newSize div isz) h' m)"
proof -
  let ?v = "vs ! i" and ?k = "newSize div isz" and ?c = "min (newSize div isz) (length (sb_slots b))"
  have vin: "?v \<in> set vs" and isz: "mItemSize ?v = isz" "0 < isz"
    using i heap_okD(1,2) [OF ok] by (simp_all add: vec_ok_def)
  have bo: "length (sb_slots b) = sb_size b div isz" "buf_ok isz b" using heap_okD(3) [OF ok b] by (simp_all add: buf_ok_def)
  have an: "a \<noteq> next_buf h" using b heap_okD(6) [OF ok] by auto
  have own: "owns isz h vs i (put_buf h a b') (?v\<lparr>mStorage := Some a, mCount := cnt\<rparr>)"
    if "onlyOwner b" "sb_refs b' = 1" "buf_ok isz b'" "cnt \<le> length (sb_slots b')" for b' cnt
    using rewrite_own [OF ok i st b that(1,2,3), of "?v\<lparr>mStorage := Some a, mCount := cnt\<rparr>"] that isz
    by (simp add: owns_def put_buf_def onlyOwner_def)
  define e where "e = \<lparr>sb_refs = 1, sb_size = newSize, sb_slots = take ?c (sb_slots b) @ replicate (?k - ?c) None\<rparr>"
  define r where "r = b\<lparr>sb_size := newSize, sb_slots := take ?k (sb_slots b) @ replicate (?k - length (sb_slots b)) None\<rparr>"
  consider (same) "onlyOwner b" "sb_size b = newSize" | (big) "\<not> (onlyOwner b \<and> sb_size b = newSize)" "size_max - sizeof_SharedBuffer \<le> newSize"
    | (realloc) "onlyOwner b" "sb_size b \<noteq> newSize" "newSize < size_max - sizeof_SharedBuffer"
        "can_realloc mem (sizeof_SharedBuffer + newSize)"
    | (none) "\<not> (onlyOwner b \<and> sb_size b = newSize)" "newSize < size_max - sizeof_SharedBuffer"
        "\<not> (onlyOwner b \<and> can_realloc mem (sizeof_SharedBuffer + newSize))" "\<not> can_malloc mem (sizeof_SharedBuffer + newSize)"
    | (move) "\<not> (onlyOwner b \<and> sb_size b = newSize)" "newSize < size_max - sizeof_SharedBuffer"
        "\<not> (onlyOwner b \<and> can_realloc mem (sizeof_SharedBuffer + newSize))" "can_malloc mem (sizeof_SharedBuffer + newSize)"
    by linarith
  then show ?thesis
  proof cases
    case same
    then have "sb_editResize mem isz h a newSize = Ret (h, Some a)" using b by (simp add: sb_editResize_def)
    moreover have "resized isz h vs i b ?k h a"
      using b bo same own [OF same(1), of b] put_same [OF b] by (simp add: resized_def onlyOwner_def)
    ultimately show ?thesis by blast
  next
    case big
    then have "sb_editResize mem isz h a newSize = AssertFail" using b by (auto simp: sb_editResize_def sb_alloc_eq)
    with big show ?thesis by blast
  next
    case realloc
    then have "sb_editResize mem isz h a newSize = Ret (put_buf h a r, Some a)" using b
      by (simp add: sb_editResize_def r_def)
    moreover have "resized isz h vs i b ?k (put_buf h a r) a"
      using realloc own [OF realloc(1), of r] by (simp add: resized_def put_buf_def r_def onlyOwner_def buf_ok_def)
    ultimately show ?thesis by blast
  next
    case none
    then show ?thesis using b by (auto simp: sb_editResize_def sb_alloc_eq)
  next
    case move
    have "buf_ok isz e" using move(2) by (simp add: buf_ok_def e_def)
    then have inst: "\<exists>h'. release_storage (with_new h e) ?v = Ret h' \<and> owns isz h vs i h' (?v\<lparr>mStorage := Some (next_buf h), mCount := cnt\<rparr>) \<and>
        bufs h' (next_buf h) = Some e" if "cnt \<le> ?k" for cnt
      using install_new [OF ok i, of e "?v\<lparr>mStorage := Some (next_buf h), mCount := cnt\<rparr>"] isz that
      by (auto simp: owns_def e_def onlyOwner_def)
    then obtain h' where h': "release_storage (with_new h e) ?v = Ret h'" "bufs h' (next_buf h) = Some e" by blast
    obtain p where p: "sb_release False (with_new h e) a = Ret (h', p)" using release_same [OF st h'(1)] by blast
    have "sb_editResize mem isz h a newSize = Ret (h', Some (next_buf h))"
      using move b an p bo by (auto simp: sb_editResize_def sb_alloc_eq min_div
          do_copy_Ret [where s = b and d = "new_buffer isz newSize"] bufs_with_new put_with_new new_buffer_def e_def)
    moreover have "resized isz h vs i b ?k h' (next_buf h)"
      using h' inst by (auto simp: resized_def e_def)
    ultimately show ?thesis by blast
  qed
qed

text \<open>Copying the items around a gap into a new buffer.\<close>

lemma copy_around_new:
  assumes st: "(old = None \<and> s = [] \<or> (\<exists>a b. old = Some a \<and> a \<noteq> next_buf h \<and> bufs h a = Some b \<and> s = sb_slots b))"
    and len: "front \<le> length s" "from + len \<le> length s" "front \<le> dest" "dest + len \<le> k"
  shows "\<exists>tl. length tl = k - dest - len \<and> copy_around (with_new h \<lparr>sb_refs = 1, sb_size = sz, sb_slots = replicate k None\<rparr>)
      (next_buf h) old front dest from len =
    Ret (with_new h \<lparr>sb_refs = 1, sb_size = sz, sb_slots =
      take front s @ replicate (dest - front) None @ take len (drop from s) @ tl\<rparr>)"
proof (cases old)
  case None
  with st len have "s = []" "front = 0" "len = 0" by auto
  with None len show ?thesis
    by (intro exI [of _ "replicate (k - dest) None"]) (simp add: copy_around_def flip: replicate_add)
next
  case (Some a)
  with st obtain b where b: "a \<noteq> next_buf h" "bufs h a = Some b" "s = sb_slots b" by auto
  let ?d = "\<lambda>xs. \<lparr>sb_refs = 1, sb_size = sz, sb_slots = xs\<rparr>"
  have one: "bindE (if front \<noteq> 0 then bindE (deref old) (\<lambda>a. do_copy (with_new h (?d (replicate k None))) (next_buf h) 0 a 0 front)
      else Ret (with_new h (?d (replicate k None)))) f = f (with_new h (?d (take front s @ replicate (k - front) None)))" for f
    using Some b len by (simp add: do_copy_Ret [where s = b and d = "?d (replicate k None)"] bufs_with_new put_with_new)
  have "do_copy (with_new h (?d (take front s @ replicate (k - front) None))) (next_buf h) dest a from len =
      Ret (with_new h (?d (take front s @ replicate (dest - front) None @ take len (drop from s) @ replicate (k - dest - len) None)))"
    using b len by (simp add: do_copy_Ret [where s = b and d = "?d (take front s @ replicate (k - front) None)"]
        bufs_with_new put_with_new min_absorb1)
  then show ?thesis unfolding copy_around_def one using Some len
    by (intro exI [of _ "replicate (k - dest - len) None"]) (auto simp flip: replicate_add)
qed

section \<open>Growing\<close>

definition grown_size :: "nat \<Rightarrow> nat \<Rightarrow> nat" where
  "grown_size isz n = max kMinVectorCapacity (n + n div 2 + 1) * isz"

text \<open>Where growing at \<open>at\<close> by \<open>amount\<close> succeeds, the items before and behind the gap are kept.\<close>

definition gap_made :: "nat \<Rightarrow> 'a heap \<Rightarrow> vec list \<Rightarrow> nat \<Rightarrow> nat \<Rightarrow> nat \<Rightarrow> 'a heap \<Rightarrow> vec \<Rightarrow> bool" where
  "gap_made isz h vs i at amount h' v' \<longleftrightarrow>
     owns isz h vs i h' v' \<and> mCount v' = mCount (vs ! i) + amount \<and> mStorage v' \<noteq> None \<and>
     vec_flags v' = vec_flags (vs ! i) \<and>
     (\<exists>gap. length gap = amount \<and>
        slots_of h' v' = take at (slots_of h (vs ! i)) @ gap @ drop at (slots_of h (vs ! i)))"

lemma length_slots_of:
  assumes "heap_ok isz h vs" "v \<in> set vs"
  shows "length (slots_of h v) = mCount v"
proof (cases "mStorage v")
  case None
  then show ?thesis using heap_okD(2) [OF assms] by (simp add: slots_of_def vec_ok_def)
next
  case (Some a)
  show ?thesis by (rule vec_buffer [OF assms Some]) simp
qed

text \<open>The slots of the old buffer, when items move to a new one.\<close>

lemma old_slots:
  assumes ok: "heap_ok isz h vs" and vin: "v \<in> set vs"
  obtains s where "(mStorage v = None \<and> s = [] \<or> (\<exists>a b. mStorage v = Some a \<and> a \<noteq> next_buf h \<and> bufs h a = Some b \<and> s = sb_slots b))"
    "mCount v \<le> length s" "slots_of h v = take (mCount v) s"
proof (cases "mStorage v")
  case None
  then show ?thesis using that [of "[]"] length_slots_of [OF assms] by (simp add: slots_of_def)
next
  case (Some a)
  obtain b where b: "bufs h a = Some b" "mCount v \<le> length (sb_slots b)" "slots_of h v = take (mCount v) (sb_slots b)"
    by (rule vec_buffer [OF ok vin Some])
  moreover have "a \<noteq> next_buf h" using b(1) heap_okD(6) [OF ok] by auto
  ultimately show ?thesis using that [of "sb_slots b"] Some by blast
qed

lemma grow_resizing:
  assumes ok: "heap_ok isz h vs" and i: "i < length vs" and b: "mStorage (vs ! i) = Some a" "bufs h a = Some b"
    and k: "mCount (vs ! i) + amount \<le> k" and res: "resized isz h vs i b k h' m"
  shows "gap_made isz h vs i (mCount (vs ! i)) amount h' ((vs ! i)\<lparr>mStorage := Some m, mCount := mCount (vs ! i) + amount\<rparr>)"
proof -
  let ?v = "vs ! i" and ?v' = "(vs ! i)\<lparr>mStorage := Some m, mCount := mCount (vs ! i) + amount\<rparr>"
  have vin: "?v \<in> set vs" using i by simp
  have c: "mCount ?v \<le> length (sb_slots b)" "slots_of h ?v = take (mCount ?v) (sb_slots b)"
    using vec_buffer [OF ok vin b(1)] b(2) by auto
  from res obtain b' where b': "bufs h' m = Some b'" "length (sb_slots b') = k"
    "take (min k (length (sb_slots b))) (sb_slots b') = take (min k (length (sb_slots b))) (sb_slots b)"
    "owns isz h vs i h' ?v'" using k by (auto simp: resized_def)
  have "take (mCount ?v) (sb_slots b') = take (mCount ?v) (sb_slots b)"
    using arg_cong [OF b'(3), of "take (mCount ?v)"] c(1) k by (simp add: min_absorb1)
  then have "slots_of h' ?v' = slots_of h ?v @ take amount (drop (mCount ?v) (sb_slots b'))"
    using b'(1) c(2) by (simp add: slots_of_def take_add)
  moreover have "length (slots_of h ?v) = mCount ?v" using length_slots_of [OF ok vin] .
  ultimately show ?thesis using b'(2,4) k by (auto simp: gap_made_def)
qed

lemma grow_moving:
  assumes ok: "heap_ok isz h vs" and i: "i < length vs" and at: "at \<le> mCount (vs ! i)"
    and k: "mCount (vs ! i) + amount \<le> sz div isz" "sz < size_max - sizeof_SharedBuffer"
  shows "\<exists>h' h''. copy_around (with_new h (new_buffer isz sz)) (next_buf h) (mStorage (vs ! i)) at (at + amount) at (mCount (vs ! i) - at) = Ret h' \<and>
    release_storage h' (vs ! i) = Ret h'' \<and> (\<exists>b'. bufs h'' (next_buf h) = Some b' \<and> sb_size b' = sz) \<and>
    gap_made isz h vs i at amount h'' ((vs ! i)\<lparr>mStorage := Some (next_buf h), mCount := mCount (vs ! i) + amount\<rparr>)"
proof -
  let ?v = "vs ! i" and ?n = "next_buf h" and ?S = "slots_of h (vs ! i)"
  let ?v' = "?v\<lparr>mStorage := Some ?n, mCount := mCount ?v + amount\<rparr>"
  have vin: "?v \<in> set vs" and isz: "mItemSize ?v = isz" using i heap_okD(2) [OF ok, of ?v] by (simp_all add: vec_ok_def)
  have len: "length ?S = mCount ?v" using length_slots_of [OF ok vin] .
  obtain s where s: "(mStorage ?v = None \<and> s = [] \<or> (\<exists>a b. mStorage ?v = Some a \<and> a \<noteq> ?n \<and> bufs h a = Some b \<and> s = sb_slots b))"
    "mCount ?v \<le> length s" "?S = take (mCount ?v) s" by (rule old_slots [OF ok vin])
  obtain tl where tl: "length tl = sz div isz - (at + amount) - (mCount ?v - at)"
    "copy_around (with_new h (new_buffer isz sz)) ?n (mStorage ?v) at (at + amount) at (mCount ?v - at) =
      Ret (with_new h \<lparr>sb_refs = 1, sb_size = sz, sb_slots =
        take at s @ replicate amount None @ take (mCount ?v - at) (drop at s) @ tl\<rparr>)"
    using copy_around_new [OF s(1), of at at "mCount ?v - at" "at + amount" "sz div isz" sz] s(2) at k(1)
    by (auto simp: new_buffer_def)
  define e where "e = \<lparr>sb_refs = 1, sb_size = sz, sb_slots =
        take at s @ replicate amount None @ take (mCount ?v - at) (drop at s) @ tl\<rparr>"
  have "buf_ok isz e" "mCount ?v' \<le> length (sb_slots e)"
    using k tl(1) s(2) at by (simp_all add: buf_ok_def e_def min_absorb1)
  then obtain h'' where h'': "release_storage (with_new h e) ?v = Ret h''" "heap_ok isz h'' (vs[i := ?v'])" "unaffected h h'' vs i"
    "bufs h'' ?n = Some e" "slots_of h'' ?v' = take (mCount ?v') (sb_slots e)"
    using install_new [OF ok i, of e ?v'] isz by (auto simp: e_def)
  have "take (mCount ?v') (sb_slots e) = take at ?S @ replicate amount None @ drop at ?S"
    using s(2,3) at by (simp add: e_def min_absorb1 min_absorb2 drop_take)
  with h'' tl(2) show ?thesis
    by (intro exI [of _ "with_new h e"] exI [of _ h'']) (auto simp: gap_made_def owns_def e_def onlyOwner_def)
qed

lemma vec_capacity_eq:
  assumes "heap_ok isz h vs" "v \<in> set vs" "mStorage v = Some a" "bufs h a = Some b"
  shows "vec_capacity h v = Ret (length (sb_slots b))"
  using heap_okD(2,3) [OF assms(1)] assms by (simp add: vec_capacity_def vec_ok_def buf_ok_def)

lemma memmove_up:
  assumes "at \<le> c" "c + amount \<le> length xs"
  shows "memmove (at + amount) at (c - at) xs = Some (take (at + amount) xs @ take (c - at) (drop at xs) @ drop (c + amount) xs)"
  using assms by (simp add: memmove_def mem_read_def mem_write_def add.commute)

text \<open>The vector already owns its buffer and the gap fits.\<close>

lemma grow_in_place:
  assumes own: "owns isz h vs i h1 v1" and i: "i < length vs" and v1: "v1 = (vs ! i)\<lparr>mStorage := Some a\<rparr>"
    and sl: "slots_of h1 v1 = slots_of h (vs ! i)" and b: "bufs h1 a = Some b"
    and at: "at \<le> mCount v1" and room: "mCount v1 + amount \<le> length (sb_slots b)"
  shows "\<exists>h'. (if at \<noteq> mCount v1 then do_move h1 a (at + amount) at (mCount v1 - at) else Ret h1) = Ret h' \<and>
    gap_made isz h vs i at amount h' (v1\<lparr>mCount := mCount v1 + amount\<rparr>) \<and>
    (\<exists>b'. bufs h' a = Some b' \<and> length (sb_slots b') = length (sb_slots b))"
proof -
  let ?c = "mCount v1" and ?v' = "v1\<lparr>mCount := mCount v1 + amount\<rparr>"
  define ys where "ys = (if at \<noteq> ?c then take (at + amount) (sb_slots b) @ take (?c - at) (drop at (sb_slots b)) @ drop (?c + amount) (sb_slots b)
    else sb_slots b)"
  define b' where "b' = b\<lparr>sb_slots := ys\<rparr>"
  have ok1: "heap_ok isz h1 (vs[i := v1])" and un: "unaffected h h1 vs i" and bo: "onlyOwner b"
    using own v1 b by (auto simp: owns_def)
  have i1: "i < length (vs[i := v1])" "(vs[i := v1]) ! i = v1" using i by simp_all
  have len: "length ys = length (sb_slots b)" using at room by (simp add: ys_def min_absorb1 min_absorb2)
  have run: "(if at \<noteq> ?c then do_move h1 a (at + amount) at (?c - at) else Ret h1) = Ret (put_buf h1 a b')"
    using memmove_up [OF at room] b put_same [OF b]
    by (simp add: do_move_def b'_def ys_def)
  have isz: "mItemSize v1 = isz" using heap_okD(2) [OF ok1, of v1] i by (simp add: vec_ok_def set_update_memI)
  have "buf_ok isz b'" using heap_okD(3) [OF ok1 b] len by (simp add: buf_ok_def b'_def)
  moreover have "sb_refs b' = 1" using bo by (simp add: b'_def onlyOwner_def)
  moreover have "mStorage v1 = Some a" using v1 by simp
  ultimately have rw: "heap_ok isz (put_buf h1 a b') (vs[i := ?v'])" "unaffected h1 (put_buf h1 a b') (vs[i := v1]) i"
      "slots_of (put_buf h1 a b') ?v' = take (?c + amount) ys"
    using rewrite_own [OF ok1 i1(1) _ b bo, of b' ?v'] i1(2) isz len room by (simp_all add: b'_def)
  have S: "slots_of h (vs ! i) = take ?c (sb_slots b)" using sl v1 b by (simp add: slots_of_def)
  have "take (?c + amount) ys = take at (take ?c (sb_slots b)) @ take amount (drop at ys) @ drop at (take ?c (sb_slots b))"
    using at room
    by (cases "at = ?c") (auto simp: ys_def min_absorb1 min_absorb2 take_add drop_take)
  moreover have "length (take amount (drop at ys)) = amount" using len room at by simp
  ultimately have "gap_made isz h vs i at amount (put_buf h1 a b') ?v'"
    using rw unaffected_trans [OF un rw(2)] v1 S bo
    by (auto simp: gap_made_def owns_def put_buf_def b'_def onlyOwner_def)
  moreover have "\<exists>b''. bufs (put_buf h1 a b') a = Some b'' \<and> length (sb_slots b'') = length (sb_slots b)"
    using len by (simp add: put_buf_def b'_def)
  ultimately show ?thesis using run by blast
qed

definition too_big :: "nat \<Rightarrow> nat \<Rightarrow> bool" where
  "too_big isz n \<longleftrightarrow> size_max - sizeof_SharedBuffer \<le> grown_size isz n"

definition grow_failed :: "nat \<Rightarrow> 'a heap \<Rightarrow> vec list \<Rightarrow> nat \<Rightarrow> 'a heap \<Rightarrow> vec \<Rightarrow> bool" where
  "grow_failed isz h vs i h' v' \<longleftrightarrow> heap_ok isz h' (vs[i := v']) \<and> unaffected h h' vs i \<and>
     slots_of h' v' = slots_of h (vs ! i) \<and> mCount v' = mCount (vs ! i)"

lemma not_too_big:
  assumes "\<not> too_big isz n" "0 < isz"
  shows "n < size_max" "n + n div 2 + 1 < size_max" "grown_size isz n < size_max" "grown_size isz n < size_max - sizeof_SharedBuffer"
    "n < grown_size isz n div isz" "n \<le> grown_size isz n div isz"
proof -
  let ?k = "max kMinVectorCapacity (n + n div 2 + 1)"
  show g: "grown_size isz n < size_max - sizeof_SharedBuffer" "grown_size isz n < size_max"
    using assms by (simp_all add: too_big_def not_le)
  have "?k * 1 \<le> ?k * isz" using assms(2) by (intro mult_le_mono2) simp
  then have "?k \<le> grown_size isz n" by (simp add: grown_size_def)
  then show "n + n div 2 + 1 < size_max" "n < size_max" using g(2) by linarith+
  have "grown_size isz n div isz = ?k" using assms(2) by (simp add: grown_size_def)
  then show "n < grown_size isz n div isz" "n \<le> grown_size isz n div isz" by simp_all
qed

text \<open>\<open>_grow\<close> with its capacity known.\<close>

lemma vec_grow_eq:
  assumes "vec_capacity h v = Ret cap" "mItemSize v = isz"
  shows "vec_grow mem h v at amount =
     (if mCount v + amount > size_max then AssertFail
      else if cap < mCount v + amount then
        if mCount v + amount + (mCount v + amount) div 2 + 1 > size_max \<or> grown_size isz (mCount v + amount) > size_max then AssertFail
        else if mStorage v \<noteq> None \<and> mCount v = at \<and> trivial v then
          bindE (deref (mStorage v)) (\<lambda>a. bindE (sb_editResize mem isz h a (grown_size isz (mCount v + amount))) (\<lambda>(h, sb).
            case sb of None \<Rightarrow> Ret (h, v, None)
            | Some n \<Rightarrow> bindE (itemLocation h (v\<lparr>mStorage := Some n, mCount := mCount v + amount\<rparr>) at) (\<lambda>loc.
                Ret (h, v\<lparr>mStorage := Some n, mCount := mCount v + amount\<rparr>, loc))))
        else
          bindE (sb_alloc mem isz h (grown_size isz (mCount v + amount))) (\<lambda>(h, sb).
            case sb of None \<Rightarrow> Ret (h, v, None)
            | Some n \<Rightarrow> bindE (copy_around h n (mStorage v) at (at + amount) at (mCount v - at)) (\<lambda>h.
                bindE (release_storage h v) (\<lambda>h.
                bindE (itemLocation h (v\<lparr>mStorage := Some n, mCount := mCount v + amount\<rparr>) at) (\<lambda>loc.
                Ret (h, v\<lparr>mStorage := Some n, mCount := mCount v + amount\<rparr>, loc)))))
      else bindE (editArrayImpl mem h v) (\<lambda>(h, v').
          bindE (if at \<noteq> mCount v'
                 then bindE (deref (mStorage v')) (\<lambda>a. do_move h a (at + amount) at (mCount v' - at))
                 else Ret h) (\<lambda>h.
          bindE (itemLocation h (v'\<lparr>mCount := mCount v + amount\<rparr>) at) (\<lambda>loc. Ret (h, v'\<lparr>mCount := mCount v + amount\<rparr>, loc)))))"
  using assms by (cases "mStorage v") (simp_all add: vec_grow_def Let_def grown_size_def)

text \<open>The three outcomes of growing: no room in memory at all, no change, or a gap.\<close>

definition grow_outcome :: "vec_memory \<Rightarrow> nat \<Rightarrow> 'a heap \<Rightarrow> vec list \<Rightarrow> nat \<Rightarrow> nat \<Rightarrow> nat \<Rightarrow> bool" where
  "grow_outcome mem isz h vs i at amount \<longleftrightarrow>
    vec_grow mem h (vs ! i) at amount = AssertFail \<and> (too_big isz (mCount (vs ! i) + amount) \<or> (\<exists>n. \<not> can_malloc mem n)) \<or>
    (\<exists>h' v'. vec_grow mem h (vs ! i) at amount = Ret (h', v', None) \<and> grow_failed isz h vs i h' v' \<and>
       (amount = 0 \<or> (\<exists>n. \<not> can_malloc mem n))) \<or>
    (\<exists>h' v'. vec_grow mem h (vs ! i) at amount = Ret (h', v', Some at) \<and> gap_made isz h vs i at amount h' v')"

lemma capacity_cases:
  assumes ok: "heap_ok isz h vs" and vin: "v \<in> set vs"
  obtains cap where "vec_capacity h v = Ret cap"
    "\<And>a b. mStorage v = Some a \<Longrightarrow> bufs h a = Some b \<Longrightarrow> cap = length (sb_slots b)" "mStorage v = None \<Longrightarrow> cap = 0"
    "cap < size_max"
proof (cases "mStorage v")
  case None
  then show ?thesis using that [of 0] by (simp add: vec_capacity_def size_max_def)
next
  case (Some a)
  obtain b where b: "bufs h a = Some b" "buf_ok isz b" by (rule vec_buffer [OF ok vin Some])
  have "length (sb_slots b) = sb_size b div isz" "sb_size b < size_max - sizeof_SharedBuffer"
    using b(2) unfolding buf_ok_def by blast+
  moreover have "sb_size b div isz \<le> sb_size b" "size_max - sizeof_SharedBuffer \<le> size_max" by (rule div_le_dividend diff_le_self)+
  ultimately have "length (sb_slots b) < size_max" by linarith
  note len = this
  show ?thesis by (rule that [OF vec_capacity_eq [OF ok vin Some b(1)] _ _ len]) (use Some b(1) in simp_all)
qed

lemma grow_result_fast:
  assumes ok: "heap_ok isz h vs" and i: "i < length vs" and at: "at \<le> mCount (vs ! i)"
    and cap: "vec_capacity h (vs ! i) = Ret cap" "cap < mCount (vs ! i) + amount"
    and nb: "\<not> too_big isz (mCount (vs ! i) + amount)"
    and fast: "mStorage (vs ! i) \<noteq> None \<and> mCount (vs ! i) = at \<and> trivial (vs ! i)"
  shows "grow_outcome mem isz h vs i at amount"
proof -
  let ?v = "vs ! i" and ?N = "mCount (vs ! i) + amount"
  have vin: "?v \<in> set vs" and isz: "mItemSize ?v = isz" "0 < isz"
    using i heap_okD(1,2) [OF ok] by (simp_all add: vec_ok_def)
  note nb = not_too_big [OF nb isz(2)]
  from fast obtain a where st: "mStorage ?v = Some a" by auto
  obtain b where b: "bufs h a = Some b" by (rule vec_buffer [OF ok vin st])
  have run: "vec_grow mem h ?v at amount = bindE (sb_editResize mem isz h a (grown_size isz ?N)) (\<lambda>(h, sb).
      case sb of None \<Rightarrow> Ret (h, ?v, None)
      | Some n \<Rightarrow> bindE (itemLocation h (?v\<lparr>mStorage := Some n, mCount := ?N\<rparr>) at) (\<lambda>loc.
          Ret (h, ?v\<lparr>mStorage := Some n, mCount := ?N\<rparr>, loc)))"
    using nb(1,2,3) fast st cap(2) by (simp add: vec_grow_eq [OF cap(1) isz(1)])
  from editResize_result [OF ok i st b, of mem "grown_size isz ?N"] nb(4)
  consider "sb_editResize mem isz h a (grown_size isz ?N) = Ret (h, None)" "\<exists>n. \<not> can_malloc mem n"
    | h' m where "sb_editResize mem isz h a (grown_size isz ?N) = Ret (h', Some m)"
        "resized isz h vs i b (grown_size isz ?N div isz) h' m" by fastforce
  then show ?thesis
  proof cases
    case 1
    have "grow_failed isz h vs i h ?v" using heap_ok_same [OF ok i] by (simp add: grow_failed_def unaffected_refl)
    then show ?thesis using run 1 by (auto simp: grow_outcome_def)
  next
    case (2 h' m)
    then have "gap_made isz h vs i at amount h' (?v\<lparr>mStorage := Some m, mCount := ?N\<rparr>)"
      using grow_resizing [OF ok i st b nb(6)] fast by simp
    moreover have "vec_grow mem h ?v at amount = Ret (h', ?v\<lparr>mStorage := Some m, mCount := ?N\<rparr>, Some at)"
      using run 2 nb(5) at isz by (auto simp: resized_def itemLocation_def vec_capacity_def)
    ultimately show ?thesis unfolding grow_outcome_def by blast
  qed
qed

lemma grow_result_slow:
  assumes ok: "heap_ok isz h vs" and i: "i < length vs" and at: "at \<le> mCount (vs ! i)"
    and cap: "vec_capacity h (vs ! i) = Ret cap" "cap < mCount (vs ! i) + amount"
    and nb: "\<not> too_big isz (mCount (vs ! i) + amount)"
    and slow: "\<not> (mStorage (vs ! i) \<noteq> None \<and> mCount (vs ! i) = at \<and> trivial (vs ! i))"
  shows "grow_outcome mem isz h vs i at amount"
proof -
  let ?v = "vs ! i" and ?N = "mCount (vs ! i) + amount"
  have isz: "mItemSize ?v = isz" "0 < isz" using i heap_okD(1,2) [OF ok] by (simp_all add: vec_ok_def)
  note nb = not_too_big [OF nb isz(2)]
  have run: "vec_grow mem h ?v at amount = bindE (sb_alloc mem isz h (grown_size isz ?N)) (\<lambda>(h, sb).
      case sb of None \<Rightarrow> Ret (h, ?v, None)
      | Some n \<Rightarrow> bindE (copy_around h n (mStorage ?v) at (at + amount) at (mCount ?v - at)) (\<lambda>h.
          bindE (release_storage h ?v) (\<lambda>h.
          bindE (itemLocation h (?v\<lparr>mStorage := Some n, mCount := ?N\<rparr>) at) (\<lambda>loc.
          Ret (h, ?v\<lparr>mStorage := Some n, mCount := ?N\<rparr>, loc)))))"
    unfolding vec_grow_eq [OF cap(1) isz(1)] using nb(1,2,3) slow cap(2) by (simp only: if_False if_True not_less [symmetric] simp_thms) auto
  show ?thesis
  proof (cases "can_malloc mem (sizeof_SharedBuffer + grown_size isz ?N)")
    case False
    have "grow_failed isz h vs i h ?v" using heap_ok_same [OF ok i] by (simp add: grow_failed_def unaffected_refl)
    then show ?thesis using run nb(4) False by (auto simp: sb_alloc_eq grow_outcome_def)
  next
    case True
    from grow_moving [OF ok i at nb(6,4)] obtain h' h'' b' where m:
      "copy_around (with_new h (new_buffer isz (grown_size isz ?N))) (next_buf h) (mStorage ?v) at (at + amount) at (mCount ?v - at) = Ret h'"
      "release_storage h' ?v = Ret h''" "bufs h'' (next_buf h) = Some b'" "sb_size b' = grown_size isz ?N"
      "gap_made isz h vs i at amount h'' (?v\<lparr>mStorage := Some (next_buf h), mCount := ?N\<rparr>)" by blast
    then have "vec_grow mem h ?v at amount = Ret (h'', ?v\<lparr>mStorage := Some (next_buf h), mCount := ?N\<rparr>, Some at)"
      using run True nb(4,5) at isz by (simp add: sb_alloc_eq itemLocation_def vec_capacity_def)
    with m(5) show ?thesis unfolding grow_outcome_def by blast
  qed
qed

lemma grow_result_room:
  assumes ok: "heap_ok isz h vs" and i: "i < length vs" and at: "at \<le> mCount (vs ! i)"
    and cap: "vec_capacity h (vs ! i) = Ret cap" "cap < size_max" and room: "mCount (vs ! i) + amount \<le> cap"
  shows "grow_outcome mem isz h vs i at amount"
proof -
  let ?v = "vs ! i" and ?N = "mCount (vs ! i) + amount"
  have vin: "?v \<in> set vs" and isz: "mItemSize ?v = isz" using i heap_okD(2) [OF ok] by (simp_all add: vec_ok_def)
  have run: "vec_grow mem h ?v at amount = bindE (editArrayImpl mem h ?v) (\<lambda>(h, v).
        bindE (if at \<noteq> mCount v
               then bindE (deref (mStorage v)) (\<lambda>a. do_move h a (at + amount) at (mCount v - at))
               else Ret h) (\<lambda>h.
        bindE (itemLocation h (v\<lparr>mCount := ?N\<rparr>) at) (\<lambda>loc. Ret (h, v\<lparr>mCount := ?N\<rparr>, loc))))"
    using cap(2) room by (simp add: vec_grow_eq [OF cap(1) isz])
  from editArrayImpl_result [OF ok i, of mem] consider
      "editArrayImpl mem h ?v = AssertFail" "\<exists>n. \<not> can_malloc mem n"
    | h1 v1 where "editArrayImpl mem h ?v = Ret (h1, v1)" "owns isz h vs i h1 v1" "v1 = ?v\<lparr>mStorage := mStorage v1\<rparr>"
        "slots_of h1 v1 = slots_of h ?v" "vec_capacity h1 v1 = vec_capacity h ?v" by blast
  then show ?thesis
  proof cases
    case 1
    then show ?thesis using run by (auto simp: grow_outcome_def)
  next
    case (2 h1 v1)
    have c1: "mCount v1 = mCount ?v"
      using arg_cong [OF 2(3), of mCount] by simp
    have ok1: "heap_ok isz h1 (vs[i := v1])" using 2(2) by (simp add: owns_def)
    have v1in: "v1 \<in> set (vs[i := v1])" using i by (simp add: set_update_memI)
    show ?thesis
    proof (cases "mStorage v1")
      case None
      then have "mCount v1 = 0" "cap = 0" using heap_okD(2) [OF ok1 v1in] 2(5) cap(1) by (simp_all add: vec_ok_def vec_capacity_def)
      then have z: "?N = 0" "at = 0" "amount = 0" using room at c1 by auto
      have "v1\<lparr>mCount := 0\<rparr> = v1" using z c1 by simp
      then have "vec_grow mem h ?v at amount = Ret (h1, v1, None)"
        using run 2(1) None z c1 by (simp add: itemLocation_def vec_capacity_def)
      then show ?thesis using 2(2,4) z c1 by (auto simp: grow_outcome_def grow_failed_def owns_def)
    next
      case (Some a)
      obtain b where b: "bufs h1 a = Some b" by (rule vec_buffer [OF ok1 v1in Some])
      have capb: "cap = length (sb_slots b)" using vec_capacity_eq [OF ok1 v1in Some b] 2(5) cap(1) by simp
      have "v1 = ?v\<lparr>mStorage := Some a\<rparr>" using 2(3) Some by simp
      from grow_in_place [OF 2(2) i this 2(4) b, of at amount] at c1 room capb obtain h' b' where
        h': "(if at \<noteq> mCount v1 then do_move h1 a (at + amount) at (mCount v1 - at) else Ret h1) = Ret h'"
        "gap_made isz h vs i at amount h' (v1\<lparr>mCount := mCount v1 + amount\<rparr>)"
        "bufs h' a = Some b'" "length (sb_slots b') = cap" by auto
      have okg: "heap_ok isz h' (vs[i := v1\<lparr>mCount := ?N\<rparr>])" using h'(2) c1 by (simp add: gap_made_def owns_def)
      have "vec_capacity h' (v1\<lparr>mCount := ?N\<rparr>) = Ret cap"
        using vec_capacity_eq [OF okg _ _ h'(3)] h'(4) Some i by (simp add: set_update_memI)
      then have r: "vec_grow mem h ?v at amount = Ret (h', v1\<lparr>mCount := ?N\<rparr>, if at < cap then Some at else None)"
        using run 2(1) h'(1) Some c1 by (cases "at = mCount ?v") (simp_all add: itemLocation_def)
      have "grow_failed isz h vs i h' (v1\<lparr>mCount := ?N\<rparr>) \<and> amount = 0" if "\<not> at < cap"
      proof -
        from that at room have "amount = 0" "at = mCount ?v" by auto
        then show ?thesis using h'(2) c1 length_slots_of [OF ok vin] by (auto simp: grow_failed_def gap_made_def owns_def)
      qed
      with r h'(2) c1 show ?thesis by (cases "at < cap") (auto simp: grow_outcome_def)
    qed
  qed
qed

lemma grow_result_huge:
  assumes ok: "heap_ok isz h vs" and i: "i < length vs"
    and cap: "vec_capacity h (vs ! i) = Ret cap" "cap < mCount (vs ! i) + amount"
    and big: "too_big isz (mCount (vs ! i) + amount)"
  shows "vec_grow mem h (vs ! i) at amount = AssertFail"
proof -
  let ?v = "vs ! i" and ?sz = "grown_size isz (mCount (vs ! i) + amount)"
  have vin: "?v \<in> set vs" and isz: "mItemSize ?v = isz" using i heap_okD(2) [OF ok] by (simp_all add: vec_ok_def)
  have al: "sb_alloc mem isz h ?sz = AssertFail" using big by (simp add: sb_alloc_eq too_big_def)
  have ed: "sb_editResize mem isz h a ?sz = AssertFail" if st: "mStorage ?v = Some a" for a
  proof -
    obtain b where b: "bufs h a = Some b" "buf_ok isz b" by (rule vec_buffer [OF ok vin st])
    then have "sb_size b < ?sz" using big unfolding buf_ok_def too_big_def by linarith
    then show ?thesis using b(1) al big by (simp add: sb_editResize_def too_big_def)
  qed
  show ?thesis
    unfolding vec_grow_eq [OF cap(1) isz] using cap(2) al ed by (cases "mStorage ?v") auto
qed

theorem grow_result:
  assumes ok: "heap_ok isz h vs" and i: "i < length vs" and at: "at \<le> mCount (vs ! i)"
  shows "grow_outcome mem isz h vs i at amount"
proof -
  have "vs ! i \<in> set vs" using i by simp
  then obtain cap where cap: "vec_capacity h (vs ! i) = Ret cap" "cap < size_max"
    using capacity_cases [OF ok] by metis
  show ?thesis
  proof (cases "cap < mCount (vs ! i) + amount")
    case True
    show ?thesis
    proof (cases "too_big isz (mCount (vs ! i) + amount)")
      case big: True
      then show ?thesis using grow_result_huge [OF ok i cap(1) True big] by (simp add: grow_outcome_def)
    next
      case False
      show ?thesis using grow_result_fast [OF ok i at cap(1) True False] grow_result_slow [OF ok i at cap(1) True False] by blast
    qed
  next
    case False
    then show ?thesis using grow_result_room [OF ok i at cap] by simp
  qed
qed

end
