(* ===== verification/Vector_Ops.thy ===== *)
theory Vector_Ops
  imports Vector_Correct
begin

text \<open>
  The remaining steps of the vector operations: \<open>_shrink\<close>, writing items into an owned buffer, copying, assigning
  and releasing vectors.
\<close>

section \<open>Shrinking\<close>

text \<open>The vector at \<open>i\<close> now holds the slots \<open>S\<close>, in a buffer of its own.\<close>

definition edited :: "nat \<Rightarrow> 'a heap \<Rightarrow> vec list \<Rightarrow> nat \<Rightarrow> 'a option list \<Rightarrow> 'a heap \<Rightarrow> vec \<Rightarrow> bool" where
  "edited isz h vs i S h' v' \<longleftrightarrow>
     owns isz h vs i h' v' \<and> vec_flags v' = vec_flags (vs ! i) \<and> slots_of h' v' = S \<and> mCount v' = length S"

definition without :: "nat \<Rightarrow> nat \<Rightarrow> 'a list \<Rightarrow> 'a list" where
  "without at amount S = take at S @ drop (at + amount) S"

lemma shrink_resizing:
  assumes ok: "heap_ok isz h vs" and i: "i < length vs" and b: "mStorage (vs ! i) = Some a" "bufs h a = Some b"
    and n: "n \<le> mCount (vs ! i)" "n \<le> k" and res: "resized isz h vs i b k h' m"
  shows "edited isz h vs i (take n (slots_of h (vs ! i))) h' ((vs ! i)\<lparr>mStorage := Some m, mCount := n\<rparr>)"
proof -
  let ?v = "vs ! i" and ?v' = "(vs ! i)\<lparr>mStorage := Some m, mCount := n\<rparr>"
  have vin: "?v \<in> set vs" using i by simp
  have c: "mCount ?v \<le> length (sb_slots b)" "slots_of h ?v = take (mCount ?v) (sb_slots b)"
    using vec_buffer [OF ok vin b(1)] b(2) by auto
  from res obtain b' where b': "bufs h' m = Some b'" "length (sb_slots b') = k"
    "take (min k (length (sb_slots b))) (sb_slots b') = take (min k (length (sb_slots b))) (sb_slots b)"
    "owns isz h vs i h' ?v'" using n by (auto simp: resized_def)
  have "take n (sb_slots b') = take n (sb_slots b)"
    using arg_cong [OF b'(3), of "take n"] c(1) n by (simp add: min_absorb1)
  then have "slots_of h' ?v' = take n (slots_of h ?v)" using b'(1) c(2) n by (simp add: slots_of_def min_absorb1)
  then show ?thesis using b'(4) n length_slots_of [OF ok vin] by (simp add: edited_def min_absorb2)
qed

lemma shrink_moving:
  assumes ok: "heap_ok isz h vs" and i: "i < length vs" and at: "at + amount \<le> mCount (vs ! i)"
    and k: "mCount (vs ! i) - amount \<le> sz div isz" "sz < size_max - sizeof_SharedBuffer"
  shows "\<exists>h' h''. copy_around (with_new h (new_buffer isz sz)) (next_buf h) (mStorage (vs ! i)) at at (at + amount)
      (mCount (vs ! i) - amount - at) = Ret h' \<and> release_storage h' (vs ! i) = Ret h'' \<and>
    (\<exists>b'. bufs h'' (next_buf h) = Some b' \<and> sb_size b' = sz) \<and>
    edited isz h vs i (without at amount (slots_of h (vs ! i))) h''
      ((vs ! i)\<lparr>mStorage := Some (next_buf h), mCount := mCount (vs ! i) - amount\<rparr>)"
proof -
  let ?v = "vs ! i" and ?n = "next_buf h" and ?S = "slots_of h (vs ! i)" and ?l = "mCount (vs ! i) - amount - at"
  let ?v' = "?v\<lparr>mStorage := Some ?n, mCount := mCount ?v - amount\<rparr>"
  have vin: "?v \<in> set vs" and isz: "mItemSize ?v = isz" using i heap_okD(2) [OF ok, of ?v] by (simp_all add: vec_ok_def)
  obtain s where s: "(mStorage ?v = None \<and> s = [] \<or> (\<exists>a b. mStorage ?v = Some a \<and> a \<noteq> ?n \<and> bufs h a = Some b \<and> s = sb_slots b))"
    "mCount ?v \<le> length s" "?S = take (mCount ?v) s" by (rule old_slots [OF ok vin])
  obtain tl where tl: "length tl = sz div isz - at - ?l"
    "copy_around (with_new h (new_buffer isz sz)) ?n (mStorage ?v) at at (at + amount) ?l =
      Ret (with_new h \<lparr>sb_refs = 1, sb_size = sz, sb_slots = take at s @ take ?l (drop (at + amount) s) @ tl\<rparr>)"
    using copy_around_new [OF s(1), of at "at + amount" ?l at "sz div isz" sz] s(2) at k(1)
    by (auto simp: new_buffer_def)
  define e where "e = \<lparr>sb_refs = 1, sb_size = sz, sb_slots = take at s @ take ?l (drop (at + amount) s) @ tl\<rparr>"
  have "buf_ok isz e" "mCount ?v' \<le> length (sb_slots e)"
    using k tl(1) s(2) at by (simp_all add: buf_ok_def e_def min_absorb1)
  then obtain h'' where h'': "release_storage (with_new h e) ?v = Ret h''" "heap_ok isz h'' (vs[i := ?v'])" "unaffected h h'' vs i"
    "bufs h'' ?n = Some e" "slots_of h'' ?v' = take (mCount ?v') (sb_slots e)"
    using install_new [OF ok i, of e ?v'] isz by (auto simp: e_def)
  have "take (mCount ?v') (sb_slots e) = without at amount ?S"
    using s(2,3) at by (simp add: e_def without_def min_absorb1 min_absorb2 drop_take add.commute)
  moreover have "length (without at amount ?S) = mCount ?v'"
    using at length_slots_of [OF ok vin] by (simp add: without_def)
  ultimately show ?thesis using h'' tl(2)
    by (intro exI [of _ "with_new h e"] exI [of _ h'']) (auto simp: edited_def owns_def e_def onlyOwner_def)
qed

text \<open>Rewriting the slots of an owned buffer.\<close>

lemma rewrite_owned:
  assumes own: "owns isz h vs i h1 v1" and i: "i < length vs" and a: "mStorage v1 = Some a" and b: "bufs h1 a = Some b"
    and len: "length ys = length (sb_slots b)" "n \<le> length ys"
  shows "owns isz h vs i (put_buf h1 a (b\<lparr>sb_slots := ys\<rparr>)) (v1\<lparr>mCount := n\<rparr>)"
    "slots_of (put_buf h1 a (b\<lparr>sb_slots := ys\<rparr>)) (v1\<lparr>mCount := n\<rparr>) = take n ys"
proof -
  have ok1: "heap_ok isz h1 (vs[i := v1])" and un: "unaffected h h1 vs i" and bo: "onlyOwner b"
    using own a b by (auto simp: owns_def)
  have i1: "i < length (vs[i := v1])" "(vs[i := v1]) ! i = v1" using i by simp_all
  have isz: "mItemSize v1 = isz" using heap_okD(2) [OF ok1, of v1] i by (simp add: vec_ok_def set_update_memI)
  have "buf_ok isz (b\<lparr>sb_slots := ys\<rparr>)" using heap_okD(3) [OF ok1 b] len by (simp add: buf_ok_def)
  then have rw: "heap_ok isz (put_buf h1 a (b\<lparr>sb_slots := ys\<rparr>)) (vs[i := v1\<lparr>mCount := n\<rparr>])"
      "unaffected h1 (put_buf h1 a (b\<lparr>sb_slots := ys\<rparr>)) (vs[i := v1]) i"
      "slots_of (put_buf h1 a (b\<lparr>sb_slots := ys\<rparr>)) (v1\<lparr>mCount := n\<rparr>) = take n ys"
    using rewrite_own [OF ok1 i1(1) _ b bo, of "b\<lparr>sb_slots := ys\<rparr>" "v1\<lparr>mCount := n\<rparr>"] i1(2) isz len a bo
    by (simp_all add: onlyOwner_def)
  then show "owns isz h vs i (put_buf h1 a (b\<lparr>sb_slots := ys\<rparr>)) (v1\<lparr>mCount := n\<rparr>)"
    using unaffected_trans [OF un rw(2)] a bo by (auto simp: owns_def put_buf_def onlyOwner_def)
  show "slots_of (put_buf h1 a (b\<lparr>sb_slots := ys\<rparr>)) (v1\<lparr>mCount := n\<rparr>) = take n ys" by (rule rw(3))
qed

lemma shrink_in_place:
  assumes own: "owns isz h vs i h1 v1" and i: "i < length vs" and v1: "v1 = (vs ! i)\<lparr>mStorage := Some a\<rparr>"
    and sl: "slots_of h1 v1 = slots_of h (vs ! i)" and b: "bufs h1 a = Some b"
    and at: "at + amount \<le> mCount v1" "mCount v1 \<le> length (sb_slots b)"
  shows "\<exists>h'. (if at \<noteq> mCount v1 - amount then do_move h1 a at (at + amount) (mCount v1 - amount - at) else Ret h1) = Ret h' \<and>
    edited isz h vs i (without at amount (slots_of h (vs ! i))) h' (v1\<lparr>mCount := mCount v1 - amount\<rparr>)"
proof -
  let ?c = "mCount v1" and ?b = "sb_slots b" and ?l = "mCount v1 - amount - at"
  define ys where "ys = (if at \<noteq> ?c - amount then take at ?b @ take ?l (drop (at + amount) ?b) @ drop (at + ?l) ?b else ?b)"
  have len: "length ys = length ?b" using at by (simp add: ys_def min_absorb1 min_absorb2)
  have run: "(if at \<noteq> ?c - amount then do_move h1 a at (at + amount) ?l else Ret h1) = Ret (put_buf h1 a (b\<lparr>sb_slots := ys\<rparr>))"
    using at b put_same [OF b] by (auto simp: do_move_def ys_def memmove_def mem_read_def mem_write_def)
  have S: "slots_of h (vs ! i) = take ?c ?b" using sl v1 b by (simp add: slots_of_def)
  have "take (?c - amount) ys = without at amount (take ?c ?b)"
    using at by (auto simp: ys_def without_def min_absorb1 min_absorb2 drop_take add.commute)
  moreover have "length (without at amount (take ?c ?b)) = ?c - amount" using at by (simp add: without_def)
  ultimately have "edited isz h vs i (without at amount (slots_of h (vs ! i))) (put_buf h1 a (b\<lparr>sb_slots := ys\<rparr>)) (v1\<lparr>mCount := ?c - amount\<rparr>)"
    using rewrite_owned [OF own i _ b len, of "?c - amount"] v1 S len at by (simp add: edited_def)
  with run show ?thesis by blast
qed

text \<open>Within the vector the arithmetic does not wrap around.\<close>

lemma add64_eq: "a + b < 2 ^ 64 \<Longrightarrow> add64 a b = a + b"
  by (simp add: add64_def)

lemma sub64_eq:
  assumes "b \<le> a" "a < 2 ^ 64"
  shows "sub64 a b = a - b"
proof -
  have "a + 2 ^ 64 - b = (a - b) + 2 ^ 64" using assms(1) by linarith
  then have "sub64 a b = (a - b) mod 2 ^ 64" by (simp only: sub64_def mod_add_self2)
  then show ?thesis using assms(2) by simp
qed

lemma count_less:
  assumes "heap_ok isz h vs" "v \<in> set vs"
  shows "mCount v < size_max" "mCount v < 2 ^ 64"
proof -
  show "mCount v < size_max"
  proof (cases "mStorage v")
    case None
    then show ?thesis using heap_okD(2) [OF assms] by (simp add: vec_ok_def size_max_def)
  next
    case (Some a)
    obtain b where b: "bufs h a = Some b" "mCount v \<le> length (sb_slots b)" by (rule vec_buffer [OF assms Some])
    with capacity_cases [OF assms] Some show ?thesis by (metis le_less_trans)
  qed
  then show "mCount v < 2 ^ 64" by (simp add: size_max_def)
qed

lemma shrink_ends:
  assumes "heap_ok isz h vs" "v \<in> set vs" "at + amount \<le> mCount v"
  shows "add64 at amount = at + amount" "sub64 (mCount v - amount) at = mCount v - amount - at" "\<not> mCount v < amount"
  using count_less(2) [OF assms(1,2)] assms(3) by (simp_all add: add64_eq sub64_eq)

text \<open>The outcomes of shrinking: no memory for a private copy, no change, or the items removed.\<close>

definition shrink_outcome :: "vec_memory \<Rightarrow> nat \<Rightarrow> 'a heap \<Rightarrow> vec list \<Rightarrow> nat \<Rightarrow> nat \<Rightarrow> nat \<Rightarrow> bool" where
  "shrink_outcome mem isz h vs i at amount \<longleftrightarrow>
    (vec_shrink mem h (vs ! i) at amount = AssertFail \<or> vec_shrink mem h (vs ! i) at amount = Ret (h, vs ! i)) \<and>
      (\<exists>n. \<not> can_malloc mem n) \<or>
    (\<exists>h' v'. vec_shrink mem h (vs ! i) at amount = Ret (h', v') \<and>
       edited isz h vs i (without at amount (slots_of h (vs ! i))) h' v')"

definition small_items :: "nat \<Rightarrow> bool" where
  "small_items isz \<longleftrightarrow> kMinVectorCapacity * isz < size_max - sizeof_SharedBuffer"

lemma shrunk_size:
  assumes "small_items isz" "n < cap div 2" "cap * isz < size_max - sizeof_SharedBuffer"
  shows "max kMinVectorCapacity (n * 2) * isz < size_max - sizeof_SharedBuffer"
proof -
  have "n * 2 * isz \<le> cap * isz" using assms(2) by (intro mult_le_mono1) linarith
  then have "n * 2 * isz < size_max - sizeof_SharedBuffer" using assms(3) by (rule le_less_trans)
  then show ?thesis using assms(1) unfolding small_items_def by (cases "kMinVectorCapacity \<le> n * 2") (simp_all add: max_def)
qed

lemma shrink_result_less:
  assumes ok: "heap_ok isz h vs" and i: "i < length vs" and at: "at + amount \<le> mCount (vs ! i)"
    and small: "small_items isz" and st: "mStorage (vs ! i) = Some a" and b: "bufs h a = Some b"
    and less: "mCount (vs ! i) - amount < length (sb_slots b) div 2"
  shows "shrink_outcome mem isz h vs i at amount"
proof -
  let ?v = "vs ! i" and ?n = "mCount (vs ! i) - amount"
  let ?k = "max kMinVectorCapacity (?n * 2)"
  have vin: "?v \<in> set vs" and isz: "mItemSize ?v = isz" "0 < isz"
    using i heap_okD(1,2) [OF ok] by (simp_all add: vec_ok_def)
  have len: "length (slots_of h ?v) = mCount ?v" using length_slots_of [OF ok vin] .
  have bo: "length (sb_slots b) = sb_size b div isz" "sb_size b < size_max - sizeof_SharedBuffer"
    using heap_okD(3) [OF ok b] by (simp_all add: buf_ok_def)
  then have "length (sb_slots b) * isz < size_max - sizeof_SharedBuffer"
    using div_times_less_eq_dividend [of "sb_size b" isz] by (metis le_less_trans)
  note sz = shrunk_size [OF small less this]
  have k: "?k * isz div isz = ?k" "?n \<le> ?k" using isz(2) by simp_all
  have cap: "vec_capacity h ?v = Ret (length (sb_slots b))" by (rule vec_capacity_eq [OF ok vin st b])
  note ends = shrink_ends [OF ok vin at]
  show ?thesis
  proof (cases "at = ?n \<and> trivial ?v")
    case True
    then have run: "vec_shrink mem h ?v at amount = bindE (sb_editResize mem isz h a (?k * isz)) (\<lambda>(h, sb).
        case sb of None \<Rightarrow> Ret (h, ?v) | Some n \<Rightarrow> Ret (h, ?v\<lparr>mStorage := Some n, mCount := ?n\<rparr>))"
      using st cap less isz(1) ends by (simp add: vec_shrink_def Let_def)
    have wo: "without at amount (slots_of h ?v) = take ?n (slots_of h ?v)"
      using True at len by (simp add: without_def)
    from editResize_result [OF ok i st b, of mem "?k * isz"] sz
    consider "sb_editResize mem isz h a (?k * isz) = Ret (h, None)" "\<exists>n. \<not> can_malloc mem n"
      | h' m where "sb_editResize mem isz h a (?k * isz) = Ret (h', Some m)" "resized isz h vs i b ?k h' m"
      using k by fastforce
    then show ?thesis
    proof cases
      case 1
      then show ?thesis using run by (auto simp: shrink_outcome_def)
    next
      case (2 h' m)
      then show ?thesis using run wo shrink_resizing [OF ok i st b _ k(2) 2(2)] by (auto simp: shrink_outcome_def)
    qed
  next
    case False
    then have run: "vec_shrink mem h ?v at amount = bindE (sb_alloc mem isz h (?k * isz)) (\<lambda>(h, sb).
        case sb of None \<Rightarrow> Ret (h, ?v)
        | Some n \<Rightarrow> bindE (copy_around h n (Some a) at at (at + amount) (?n - at)) (\<lambda>h.
            bindE (release_storage h ?v) (\<lambda>h. Ret (h, ?v\<lparr>mStorage := Some n, mCount := ?n\<rparr>))))"
      using st cap less isz(1) ends by (auto simp: vec_shrink_def Let_def)
    have "?n \<le> ?k * isz div isz" using k by simp
    from shrink_moving [OF ok i at this sz] obtain h' h'' where m:
      "copy_around (with_new h (new_buffer isz (?k * isz))) (next_buf h) (Some a) at at (at + amount) (?n - at) = Ret h'"
      "release_storage h' ?v = Ret h''"
      "edited isz h vs i (without at amount (slots_of h ?v)) h'' (?v\<lparr>mStorage := Some (next_buf h), mCount := ?n\<rparr>)"
      unfolding st by blast
    show ?thesis
    proof (cases "can_malloc mem (sizeof_SharedBuffer + ?k * isz)")
      case True
      then show ?thesis using run m sz by (auto simp: shrink_outcome_def sb_alloc_eq)
    next
      case False
      then show ?thesis using run sz by (auto simp: shrink_outcome_def sb_alloc_eq)
    qed
  qed
qed

lemma shrink_result_room:
  assumes ok: "heap_ok isz h vs" and i: "i < length vs" and at: "at + amount \<le> mCount (vs ! i)"
    and st: "mStorage (vs ! i) = Some a" and b: "bufs h a = Some b"
    and enough: "\<not> mCount (vs ! i) - amount < length (sb_slots b) div 2"
  shows "shrink_outcome mem isz h vs i at amount"
proof -
  let ?v = "vs ! i" and ?n = "mCount (vs ! i) - amount"
  have vin: "?v \<in> set vs" using i by simp
  have cap: "vec_capacity h ?v = Ret (length (sb_slots b))" by (rule vec_capacity_eq [OF ok vin st b])
  note ends = shrink_ends [OF ok vin at]
  have run: "vec_shrink mem h ?v at amount = bindE (editArrayImpl mem h ?v) (\<lambda>(h, v).
      bindE (if at \<noteq> ?n then bindE (deref (mStorage v)) (\<lambda>a. do_move h a at (at + amount) (?n - at)) else Ret h) (\<lambda>h.
      Ret (h, v\<lparr>mCount := ?n\<rparr>)))"
    using st cap enough ends(3) by (simp add: vec_shrink_def Let_def ends cong: if_cong)
  from editArrayImpl_result [OF ok i, of mem] consider
      "editArrayImpl mem h ?v = AssertFail" "\<exists>n. \<not> can_malloc mem n"
    | h1 v1 where "editArrayImpl mem h ?v = Ret (h1, v1)" "owns isz h vs i h1 v1" "v1 = ?v\<lparr>mStorage := mStorage v1\<rparr>"
        "slots_of h1 v1 = slots_of h ?v" "vec_capacity h1 v1 = vec_capacity h ?v" by blast
  then show ?thesis
  proof cases
    case 1
    then show ?thesis using run by (auto simp: shrink_outcome_def)
  next
    case (2 h1 v1)
    have c1: "mCount v1 = mCount ?v" using arg_cong [OF 2(3), of mCount] by simp
    have ok1: "heap_ok isz h1 (vs[i := v1])" using 2(2) by (simp add: owns_def)
    have v1in: "v1 \<in> set (vs[i := v1])" using i by (simp add: set_update_memI)
    show ?thesis
    proof (cases "mStorage v1")
      case None
      then have "mCount v1 = 0" using heap_okD(2) [OF ok1 v1in] by (simp add: vec_ok_def)
      then have z: "v1\<lparr>mCount := 0\<rparr> = v1" "mCount ?v = 0" "at = 0" "amount = 0" "slots_of h ?v = []"
        using c1 at length_slots_of [OF ok vin] by simp_all
      then have "vec_shrink mem h ?v at amount = Ret (h1, v1)" using run 2(1) by simp
      moreover have "edited isz h vs i (without at amount (slots_of h ?v)) h1 v1"
        using 2(2,4) z c1 arg_cong [OF 2(3), of vec_flags] by (simp add: edited_def without_def)
      ultimately show ?thesis unfolding shrink_outcome_def by blast
    next
      case a1: (Some a1)
      obtain b1 where b1: "bufs h1 a1 = Some b1" "mCount v1 \<le> length (sb_slots b1)" by (rule vec_buffer [OF ok1 v1in a1])
      have "v1 = ?v\<lparr>mStorage := Some a1\<rparr>" using 2(3) a1 by simp
      from shrink_in_place [OF 2(2) i this 2(4) b1(1), of at amount, unfolded c1] at b1(2) [unfolded c1] obtain h' where
        "(if at \<noteq> ?n then do_move h1 a1 at (at + amount) (?n - at) else Ret h1) = Ret h'"
        "edited isz h vs i (without at amount (slots_of h ?v)) h' (v1\<lparr>mCount := ?n\<rparr>)" by blast
      moreover from this(1) have "vec_shrink mem h ?v at amount = Ret (h', v1\<lparr>mCount := ?n\<rparr>)"
        using run 2(1) a1 by (cases "at = ?n") simp_all
      ultimately show ?thesis by (auto simp: shrink_outcome_def)
    qed
  qed
qed

theorem shrink_result:
  assumes ok: "heap_ok isz h vs" and i: "i < length vs" and at: "at + amount \<le> mCount (vs ! i)"
    and small: "small_items isz"
  shows "shrink_outcome mem isz h vs i at amount"
proof (cases "mStorage (vs ! i)")
  case None
  then have "mCount (vs ! i) = 0" using heap_okD(2) [OF ok, of "vs ! i"] i by (simp add: vec_ok_def)
  then have "vec_shrink mem h (vs ! i) at amount = Ret (h, vs ! i)" "without at amount (slots_of h (vs ! i)) = []"
    using None at by (simp_all add: vec_shrink_def without_def slots_of_def)
  moreover have "edited isz h vs i [] h (vs ! i)"
    using None \<open>mCount (vs ! i) = 0\<close> ok i by (simp add: edited_def owns_def unaffected_refl slots_of_def)
  ultimately show ?thesis unfolding shrink_outcome_def by metis
next
  case (Some a)
  have "vs ! i \<in> set vs" using i by simp
  then obtain b where "bufs h a = Some b" using vec_buffer [OF ok _ Some] by metis
  then show ?thesis using shrink_result_less [OF ok i at small Some] shrink_result_room [OF ok i at Some] by blast
qed

end
