(* ===== verification/Vector_Items.thy ===== *)
theory Vector_Items
  imports Vector_Ops
begin

text \<open>
  Every operation on the list of items: a pool of vectors, some of them sharing buffers, is a list of lists, and an
  operation on one vector changes one of these lists.
\<close>

section \<open>The pool of vectors as lists\<close>

definition vec_state :: "nat \<Rightarrow> 'a heap \<Rightarrow> vec list \<Rightarrow> bool" where
  "vec_state isz h vs \<longleftrightarrow> heap_ok isz h vs \<and> small_items isz \<and> (\<forall>v \<in> set vs. None \<notin> set (slots_of h v))"

definition items_of :: "'a heap \<Rightarrow> vec list \<Rightarrow> 'a list list" where
  "items_of h vs = map (vec_items h) vs"

definition becomes :: "nat \<Rightarrow> 'a heap \<Rightarrow> vec list \<Rightarrow> nat \<Rightarrow> 'a list \<Rightarrow> 'a heap \<Rightarrow> vec \<Rightarrow> bool" where
  "becomes isz h vs i xs h' v' \<longleftrightarrow>
     vec_state isz h' (vs[i := v']) \<and> items_of h' (vs[i := v']) = (items_of h vs)[i := xs]"

abbreviation all_memory :: "vec_memory \<Rightarrow> bool" where
  "all_memory mem \<equiv> \<forall>n. can_malloc mem n"

lemma slots_items:
  assumes "vec_state isz h vs" "v \<in> set vs"
  shows "slots_of h v = map Some (vec_items h v)" "length (vec_items h v) = mCount v"
proof -
  have "None \<notin> set (slots_of h v)" "heap_ok isz h vs" using assms by (auto simp: vec_state_def)
  then have "map (\<lambda>x. Some (the x)) (slots_of h v) = map (\<lambda>x. x) (slots_of h v)"
    by (intro map_cong refl) (metis option.collapse)
  then show "slots_of h v = map Some (vec_items h v)" by (simp add: vec_items_def comp_def)
  show "length (vec_items h v) = mCount v"
    using length_slots_of [OF \<open>heap_ok isz h vs\<close> assms(2)] by (simp add: vec_items_def)
qed

lemma vec_stateD: "vec_state isz h vs \<Longrightarrow> heap_ok isz h vs" "vec_state isz h vs \<Longrightarrow> small_items isz"
  by (simp_all add: vec_state_def)

lemma becomes_intro:
  assumes st: "vec_state isz h vs" and i: "i < length vs"
    and ok: "heap_ok isz h' (vs[i := v'])" and un: "unaffected h h' vs i" and sl: "slots_of h' v' = map Some xs"
  shows "becomes isz h vs i xs h' v'"
proof -
  have j: "slots_of h' (vs[i := v'] ! j) = (if j = i then map Some xs else slots_of h (vs ! j))" if "j < length vs" for j
    using that i un sl by (simp add: unaffected_def)
  have "None \<notin> set (slots_of h' w)" if w: "w \<in> set (vs[i := v'])" for w
  proof -
    from w obtain j where "j < length vs" "w = vs[i := v'] ! j" by (auto simp: in_set_conv_nth)
    then show ?thesis using j [of j] st by (auto simp: vec_state_def split: if_splits)
  qed
  moreover have "items_of h' (vs[i := v']) = (items_of h vs)[i := xs]"
  proof (rule nth_equalityI)
    fix k assume "k < length (items_of h' (vs[i := v']))"
    then have k: "k < length vs" by (simp add: items_of_def)
    then show "items_of h' (vs[i := v']) ! k = (items_of h vs)[i := xs] ! k"
      using j [OF k] i by (simp add: items_of_def vec_items_def comp_def)
  qed (simp add: items_of_def)
  ultimately show ?thesis using ok vec_stateD [OF st] by (simp add: becomes_def vec_state_def)
qed

lemma becomes_same:
  assumes "vec_state isz h vs" "i < length vs" "heap_ok isz h' (vs[i := v'])" "unaffected h h' vs i"
    "slots_of h' v' = slots_of h (vs ! i)"
  shows "becomes isz h vs i (vec_items h (vs ! i)) h' v'"
  using becomes_intro [OF assms(1-4)] slots_items(1) [OF assms(1), of "vs ! i"] assms(2,5) by simp

lemma becomes_refl: "vec_state isz h vs \<Longrightarrow> i < length vs \<Longrightarrow> becomes isz h vs i (vec_items h (vs ! i)) h (vs ! i)"
  by (rule becomes_same) (simp_all add: vec_stateD unaffected_refl)

section \<open>Writing items\<close>

lemma write_owned:
  assumes own: "owns isz h vs i h1 v1" and i: "i < length vs" and a: "mStorage v1 = Some a"
    and fits: "at + length ys \<le> mCount v1"
  shows "\<exists>h2. write_items h1 v1 at ys = Ret h2 \<and> owns isz h vs i h2 v1 \<and>
    slots_of h2 v1 = take at (slots_of h1 v1) @ ys @ drop (at + length ys) (slots_of h1 v1)"
proof -
  have ok1: "heap_ok isz h1 (vs[i := v1])" using own by (simp add: owns_def)
  have vin: "v1 \<in> set (vs[i := v1])" using i by (simp add: set_update_memI)
  obtain b where b: "bufs h1 a = Some b" "mCount v1 \<le> length (sb_slots b)" "slots_of h1 v1 = take (mCount v1) (sb_slots b)"
    by (rule vec_buffer [OF ok1 vin a])
  define zs where "zs = take at (sb_slots b) @ ys @ drop (at + length ys) (sb_slots b)"
  have len: "length zs = length (sb_slots b)" "mCount v1 \<le> length zs" using fits b(2) by (simp_all add: zs_def)
  have "write_items h1 v1 at ys = Ret (put_buf h1 a (b\<lparr>sb_slots := zs\<rparr>))"
    using a b fits by (simp add: write_items_def mem_write_def zs_def)
  moreover have "take (mCount v1) zs = take at (slots_of h1 v1) @ ys @ drop (at + length ys) (slots_of h1 v1)"
    using fits b(2,3) by (simp add: zs_def min_absorb1 drop_take)
  ultimately show ?thesis using rewrite_owned [OF own i a b(1) len] by simp
qed

section \<open>Inserting\<close>

definition insert_list :: "nat \<Rightarrow> 'a list \<Rightarrow> 'a list \<Rightarrow> 'a list" where
  "insert_list at ys xs = take at xs @ ys @ drop at xs"

text \<open>
  The outcomes of an insertion: the process aborts, the call reports that there is no memory and nothing changes,
  or the items are inserted.
\<close>

definition inserted :: "vec_memory \<Rightarrow> nat \<Rightarrow> 'a heap \<Rightarrow> vec list \<Rightarrow> nat \<Rightarrow> nat \<Rightarrow> 'a list \<Rightarrow> ('a heap \<times> vec \<times> int) exec \<Rightarrow> bool" where
  "inserted mem isz h vs i at ys r \<longleftrightarrow>
     r = AssertFail \<and> (too_big isz (mCount (vs ! i) + length ys) \<or> \<not> all_memory mem) \<or>
     (\<exists>h' v'. r = Ret (h', v', NO_MEMORY) \<and> becomes isz h vs i (vec_items h (vs ! i)) h' v' \<and>
        (ys = [] \<or> \<not> all_memory mem)) \<or>
     (\<exists>h' v'. r = Ret (h', v', int at) \<and> becomes isz h vs i (insert_list at ys (vec_items h (vs ! i))) h' v')"

text \<open>Growing and then filling the gap, the common part of all insertions.\<close>

lemma grow_fill:
  assumes st: "vec_state isz h vs" and i: "i < length vs" and at: "at \<le> mCount (vs ! i)"
    and fill: "\<And>h' v'. gap_made isz h vs i at (length ys) h' v' \<Longrightarrow> fill h' v' at = write_items h' v' at (map Some ys)"
  shows "inserted mem isz h vs i at ys
    (bindE (vec_grow mem h (vs ! i) at (length ys)) (\<lambda>(h, v, loc).
      case loc of None \<Rightarrow> Ret (h, v, NO_MEMORY) | Some loc \<Rightarrow> bindE (fill h v loc) (\<lambda>h. Ret (h, v, int at))))"
proof -
  let ?v = "vs ! i"
  have vin: "?v \<in> set vs" using i by simp
  have ok: "heap_ok isz h vs" using vec_stateD [OF st] by simp
  from grow_result [OF ok i at, of mem "length ys"] consider
      "vec_grow mem h ?v at (length ys) = AssertFail" "too_big isz (mCount ?v + length ys) \<or> (\<exists>n. \<not> can_malloc mem n)"
    | h' v' where "vec_grow mem h ?v at (length ys) = Ret (h', v', None)" "grow_failed isz h vs i h' v'"
        "length ys = 0 \<or> (\<exists>n. \<not> can_malloc mem n)"
    | h' v' where "vec_grow mem h ?v at (length ys) = Ret (h', v', Some at)" "gap_made isz h vs i at (length ys) h' v'"
    by (auto simp: grow_outcome_def)
  then show ?thesis
  proof cases
    case 1
    then show ?thesis by (auto simp: inserted_def)
  next
    case (2 h' v')
    then have "becomes isz h vs i (vec_items h ?v) h' v'" using becomes_same [OF st i] by (simp add: grow_failed_def)
    then show ?thesis using 2 by (auto simp: inserted_def)
  next
    case (3 h' v')
    then obtain a gap where g: "owns isz h vs i h' v'" "mCount v' = mCount ?v + length ys" "mStorage v' = Some a"
      "length gap = length ys" "slots_of h' v' = take at (slots_of h ?v) @ gap @ drop at (slots_of h ?v)"
      by (auto simp: gap_made_def)
    have "length (slots_of h ?v) = mCount ?v" by (rule length_slots_of [OF ok vin])
    then have "take at (slots_of h' v') = take at (slots_of h ?v)" "drop (at + length ys) (slots_of h' v') = drop at (slots_of h ?v)"
      using g(4,5) at by simp_all
    with write_owned [OF g(1) i g(3), of at "map Some ys"] g(2) at obtain h2 where
      "write_items h' v' at (map Some ys) = Ret h2" "owns isz h vs i h2 v'"
      "slots_of h2 v' = take at (slots_of h ?v) @ map Some ys @ drop at (slots_of h ?v)" by auto
    moreover from this have "becomes isz h vs i (insert_list at ys (vec_items h ?v)) h2 v'"
      using slots_items(1) [OF st vin] by (intro becomes_intro [OF st i]) (simp_all add: owns_def insert_list_def take_map drop_map)
    ultimately show ?thesis using 3 fill [OF 3(2)] by (auto simp: inserted_def)
  qed
qed

theorem insertArrayAt_result:
  assumes "vec_state isz h vs" "i < length vs" "at \<le> mCount (vs ! i)"
  shows "inserted mem isz h vs i at ys (insertArrayAt mem h (vs ! i) ys at)"
  using grow_fill [OF assms, of ys "\<lambda>h v loc. write_items h v loc (map Some ys)" mem] assms(3)
  by (simp add: insertArrayAt_def cong: option.case_cong)

theorem insertAt_result:
  assumes "vec_state isz h vs" "i < length vs" "at \<le> mCount (vs ! i)"
  shows "inserted mem isz h vs i at (replicate n (case item of None \<Rightarrow> dflt | Some x \<Rightarrow> x))
    (insertAt mem dflt h (vs ! i) item at n)"
  using grow_fill [OF assms, of "replicate n (case item of None \<Rightarrow> dflt | Some x \<Rightarrow> x)"
      "\<lambda>h v loc. write_items h v loc (replicate n (Some (case item of None \<Rightarrow> dflt | Some x \<Rightarrow> x)))" mem] assms(3)
  by (simp add: insertAt_def map_replicate cong: option.case_cong)

text \<open>The other vector still holds its items when they are copied.\<close>

theorem insertVectorAt_result:
  fixes h :: "'a heap"
  assumes st: "vec_state isz h vs" and ij: "i < length vs" "j < length vs" "i \<noteq> j" and at: "at \<le> mCount (vs ! i)"
  shows "inserted mem isz h vs i at (vec_items h (vs ! j)) (insertVectorAt mem h (vs ! i) (vs ! j) at)"
proof -
  let ?w = "vs ! j" and ?ys = "vec_items h (vs ! j)"
  have win: "?w \<in> set vs" using ij by simp
  have ys: "slots_of h ?w = map Some ?ys" "length ?ys = mCount ?w" using slots_items [OF st win] .
  define fill where "fill h' v' loc = (if mCount ?w = 0 then Ret h'
    else bindE (deref (mStorage ?w)) (\<lambda>a. bindE (deref (bufs h' a)) (\<lambda>b.
         bindE (deref (mem_read 0 (mCount ?w) (sb_slots b))) (\<lambda>xs. write_items h' v' loc xs))))" for h' :: "'a heap" and v' loc
  have "fill h' v' at = write_items h' v' at (map Some ?ys)" if gap: "gap_made isz h vs i at (length ?ys) h' v'" for h' v'
  proof (cases "mCount ?w = 0")
    case True
    from gap obtain a where "mStorage v' = Some a" "heap_ok isz h' (vs[i := v'])" "mCount v' = mCount (vs ! i)"
      using ys(2) True by (auto simp: gap_made_def owns_def)
    moreover have "v' \<in> set (vs[i := v'])" using ij by (simp add: set_update_memI)
    ultimately obtain b where "bufs h' a = Some b" "mCount (vs ! i) \<le> length (sb_slots b)" by (metis vec_buffer)
    then show ?thesis using True ys(2) at \<open>mStorage v' = Some a\<close>
      by (simp add: fill_def write_items_def mem_write_def put_same)
  next
    case False
    have ok: "heap_ok isz h' (vs[i := v'])" and un: "unaffected h h' vs i" using gap by (auto simp: gap_made_def owns_def)
    have w': "?w \<in> set (vs[i := v'])" using ij by (metis length_list_update nth_list_update_neq nth_mem)
    obtain a where a: "mStorage ?w = Some a" using False heap_okD(2) [OF ok w'] by (auto simp: vec_ok_def split: option.splits)
    obtain b where b: "bufs h' a = Some b" "mCount ?w \<le> length (sb_slots b)" "slots_of h' ?w = take (mCount ?w) (sb_slots b)"
      by (rule vec_buffer [OF ok w' a])
    have "slots_of h' ?w = map Some ?ys" using un ij ys(1) by (simp add: unaffected_def)
    then show ?thesis using a b False by (simp add: fill_def mem_read_def)
  qed
  note filled = this
  have "inserted mem isz h vs i at ?ys (bindE (vec_grow mem h (vs ! i) at (length ?ys)) (\<lambda>(h, v, loc).
      case loc of None \<Rightarrow> Ret (h, v, NO_MEMORY) | Some loc \<Rightarrow> bindE (fill h v loc) (\<lambda>h. Ret (h, v, int at))))"
    by (rule grow_fill [OF st ij(1) at]) (rule filled)
  then show ?thesis
    using at ys(2) by (simp add: insertVectorAt_def fill_def bindE_assoc if_distrib [of "\<lambda>m. bindE m f" for f] cong: option.case_cong if_cong)
qed

section \<open>Removing, replacing, copying\<close>

text \<open>
  Removing reports success even when the smaller array could not be allocated and nothing was removed.
\<close>

theorem removeItemsAt_result:
  assumes st: "vec_state isz h vs" and i: "i < length vs" and at: "at + n \<le> mCount (vs ! i)"
  shows "removeItemsAt mem h (vs ! i) at n = AssertFail \<and> \<not> all_memory mem \<or>
    (\<exists>h' v' ys. removeItemsAt mem h (vs ! i) at n = Ret (h', v', int at) \<and> becomes isz h vs i ys h' v' \<and>
      (ys = without at n (vec_items h (vs ! i)) \<or> \<not> all_memory mem \<and> ys = vec_items h (vs ! i)))"
proof -
  let ?v = "vs ! i"
  have vin: "?v \<in> set vs" using i by simp
  have ok: "heap_ok isz h vs" and small: "small_items isz" using vec_stateD [OF st] by simp_all
  have run: "removeItemsAt mem h ?v at n = bindE (vec_shrink mem h ?v at n) (\<lambda>(h, v). Ret (h, v, int at))"
    using shrink_ends(1) [OF ok vin at] at by (simp add: removeItemsAt_def)
  from shrink_result [OF ok i at small, of mem] consider
      "vec_shrink mem h ?v at n = AssertFail" "\<not> all_memory mem"
    | "vec_shrink mem h ?v at n = Ret (h, ?v)" "\<not> all_memory mem"
    | h' v' where "vec_shrink mem h ?v at n = Ret (h', v')" "edited isz h vs i (without at n (slots_of h ?v)) h' v'"
    by (auto simp: shrink_outcome_def)
  then show ?thesis
  proof cases
    case 2
    then show ?thesis using run becomes_refl [OF st i] by auto
  next
    case (3 h' v')
    then have "becomes isz h vs i (without at n (vec_items h ?v)) h' v'"
      using slots_items(1) [OF st vin]
      by (intro becomes_intro [OF st i]) (simp_all add: edited_def owns_def without_def take_map drop_map)
    then show ?thesis using run 3(1) by auto
  qed (use run in auto)
qed

lemma edit_cases:
  assumes ok: "heap_ok isz h vs" and i: "i < length vs"
  obtains "editArrayImpl mem h (vs ! i) = AssertFail" "\<not> all_memory mem"
  | h1 v1 where "editArrayImpl mem h (vs ! i) = Ret (h1, v1)" "owns isz h vs i h1 v1"
      "slots_of h1 v1 = slots_of h (vs ! i)" "mCount v1 = mCount (vs ! i)" "mItemSize v1 = isz"
      "mCount (vs ! i) \<noteq> 0 \<Longrightarrow> mStorage v1 \<noteq> None"
proof -
  from editArrayImpl_result [OF assms, of mem] consider "editArrayImpl mem h (vs ! i) = AssertFail" "\<not> all_memory mem"
    | h1 v1 where "editArrayImpl mem h (vs ! i) = Ret (h1, v1)" "owns isz h vs i h1 v1" "v1 = (vs ! i)\<lparr>mStorage := mStorage v1\<rparr>"
        "slots_of h1 v1 = slots_of h (vs ! i)" by blast
  then show thesis
  proof cases
    case (2 h1 v1)
    then have c: "mCount v1 = mCount (vs ! i)" by (metis vec.ext_inject vec.surjective vec.update_convs(1))
    have ok1: "vec_ok isz h1 v1" using heap_okD(2) [of isz h1 "vs[i := v1]" v1] 2(2) i by (simp add: owns_def set_update_memI)
    then have "mCount (vs ! i) \<noteq> 0 \<Longrightarrow> mStorage v1 \<noteq> None" "mItemSize v1 = isz" using c by (auto simp: vec_ok_def split: option.splits)
    with that(2) 2(1,2,4) c show thesis by blast
  qed (use that in blast)
qed

theorem replaceAt_result:
  assumes st: "vec_state isz h vs" and i: "i < length vs" and at: "at < mCount (vs ! i)"
  shows "replaceAt mem dflt h (vs ! i) item at = AssertFail \<and> \<not> all_memory mem \<or>
    (\<exists>h' v'. replaceAt mem dflt h (vs ! i) item at = Ret (h', v', int at) \<and>
       becomes isz h vs i ((vec_items h (vs ! i))[at := case item of None \<Rightarrow> dflt | Some x \<Rightarrow> x]) h' v')"
proof -
  let ?v = "vs ! i" and ?x = "case item of None \<Rightarrow> dflt | Some x \<Rightarrow> x"
  have vin: "?v \<in> set vs" using i by simp
  have ok: "heap_ok isz h vs" using vec_stateD [OF st] by simp
  obtain a where a: "mStorage ?v = Some a" using heap_okD(2) [OF ok vin] at by (auto simp: vec_ok_def split: option.splits)
  obtain b where b: "bufs h a = Some b" "mCount ?v \<le> length (sb_slots b)" by (rule vec_buffer [OF ok vin a])
  have cap: "vec_capacity h ?v = Ret (length (sb_slots b))" by (rule vec_capacity_eq [OF ok vin a b(1)])
  show ?thesis
  proof (rule edit_cases [OF ok i, of mem])
    assume "editArrayImpl mem h ?v = AssertFail" "\<not> all_memory mem"
    then show ?thesis using at cap b by (simp add: replaceAt_def editItemLocation_def)
  next
    fix h1 v1 assume e: "editArrayImpl mem h ?v = Ret (h1, v1)" "owns isz h vs i h1 v1"
      "slots_of h1 v1 = slots_of h ?v" "mCount v1 = mCount ?v" "mCount ?v \<noteq> 0 \<Longrightarrow> mStorage v1 \<noteq> None"
    then obtain a1 where a1: "mStorage v1 = Some a1" using at by auto
    have at1: "at + length [Some ?x] \<le> mCount v1" using at e(4) by simp
    from write_owned [OF e(2) i a1 at1] obtain h2 where w: "write_items h1 v1 at [Some ?x] = Ret h2"
      "owns isz h vs i h2 v1" "slots_of h2 v1 = take at (slots_of h1 v1) @ [Some ?x] @ drop (at + length [Some ?x]) (slots_of h1 v1)"
      by blast
    have "slots_of h2 v1 = map Some ((vec_items h ?v)[at := ?x])"
      using w(3) e(3) slots_items [OF st vin] at by (simp add: upd_conv_take_nth_drop take_map drop_map)
    then have "becomes isz h vs i ((vec_items h ?v)[at := ?x]) h2 v1"
      using w(2) by (intro becomes_intro [OF st i]) (simp_all add: owns_def)
    then show ?thesis using at cap b(2) e(1) a1 w(1) by (simp add: replaceAt_def editItemLocation_def)
  qed
qed

section \<open>Sharing and letting go\<close>

abbreviation emptied :: "vec \<Rightarrow> vec" where
  "emptied v \<equiv> v\<lparr>mStorage := None, mCount := 0\<rparr>"

lemma let_go:
  assumes ok: "heap_ok isz h vs" and i: "i < length vs"
  shows "\<exists>h'. release_storage h (vs ! i) = Ret h' \<and> heap_ok isz h' (vs[i := emptied (vs ! i)]) \<and> unaffected h h' vs i"
proof (cases "mStorage (vs ! i)")
  case None
  then have "emptied (vs ! i) = vs ! i" using heap_okD(2) [OF ok, of "vs ! i"] i by (simp add: vec_ok_def)
  then show ?thesis using None ok by (simp add: release_storage_def unaffected_refl)
next
  case (Some a)
  let ?v = "vs ! i"
  have vin: "?v \<in> set vs" using i by simp
  obtain b where b: "bufs h a = Some b" "sb_refs b = int (users vs a)" "0 < sb_refs b" "buf_ok isz b"
    by (rule vec_buffer [OF ok vin Some])
  define h' where "h' = (if sb_refs b = 1 then free_buf h a else put_buf h a (b\<lparr>sb_refs := sb_refs b - 1\<rparr>))"
  have run: "release_storage h ?v = Ret h'"
    using Some b by (auto simp: release_storage_def sb_release_def sb_dealloc_def onlyOwner_def put_buf_def free_buf_def h'_def)
  have us: "int (users (vs[i := emptied ?v]) c) = int (users vs c) - (if a = c then 1 else 0)" for c
    using users_update [OF i, of "emptied ?v" c] Some by simp
  have keep: "\<exists>b'. bufs h' c = Some b' \<and> sb_slots b' = sb_slots bc"
    if j: "j < length vs" "j \<noteq> i" "mStorage (vs ! j) = Some c" "bufs h c = Some bc" for j c bc
  proof -
    have "sb_refs b \<noteq> 1" if "a = c" using other_user [OF i j(1) _ Some] j b(2) that by force
    then show ?thesis using j(4) b(1) by (auto simp: h'_def free_buf_def put_buf_def)
  qed
  have vok: "vec_ok isz h' w" if "w \<in> set (vs[i := emptied ?v])" for w
  proof -
    from that obtain j where j: "j < length vs" "w = vs[i := emptied ?v] ! j" by (auto simp: in_set_conv_nth)
    have old: "vec_ok isz h (vs ! j)" using heap_okD(2) [OF ok] j(1) by simp
    show ?thesis
    proof (cases "j = i")
      case False
      then show ?thesis using keep [OF j(1) False] old j(2) by (fastforce simp: vec_ok_def split: option.splits)
    qed (use j old i in \<open>simp add: vec_ok_def\<close>)
  qed
  have "counted isz h' (vs[i := emptied ?v]) c" for c
    using heap_okD(8) [OF ok, of c] us [of c] b heap_okD(5) [OF ok b(1)]
    by (auto simp: counted_def h'_def free_buf_def put_buf_def buf_ok_def split: option.splits if_splits)
  then have "heap_ok isz h' (vs[i := emptied ?v])" using vok heap_okD(1) [OF ok] by (simp add: heap_ok_def)
  moreover have "slots_of h' (vs ! j) = slots_of h (vs ! j)" if j: "j < length vs" "j \<noteq> i" for j
  proof -
    have "vec_ok isz h (vs ! j)" using heap_okD(2) [OF ok] j(1) by simp
    then show ?thesis using keep [OF j] by (fastforce simp: slots_of_def vec_ok_def split: option.splits)
  qed
  ultimately show ?thesis using run by (simp add: unaffected_def)
qed

lemma share:
  assumes ok: "heap_ok isz h vs" and k: "k < length vs" "mStorage (vs ! k) = None"
    and w: "w \<in> set vs" "mStorage w = Some a"
    and v': "mStorage v' = Some a" "mCount v' = mCount w" "mItemSize v' = isz"
  shows "\<exists>h'. sb_acquire h a = Ret h' \<and> heap_ok isz h' (vs[k := v']) \<and> (\<forall>u. slots_of h' u = slots_of h u)"
proof -
  obtain b where b: "bufs h a = Some b" "sb_refs b = int (users vs a)" "buf_ok isz b" "mCount w \<le> length (sb_slots b)"
    by (rule vec_buffer [OF ok w])
  define h' where "h' = put_buf h a (b\<lparr>sb_refs := sb_refs b + 1\<rparr>)"
  have us: "int (users (vs[k := v']) c) = int (users vs c) + (if a = c then 1 else 0)" for c
    using users_update [OF k(1), of v' c] k(2) v'(1) by simp
  have sl: "map_option sb_slots (bufs h' c) = map_option sb_slots (bufs h c)" for c
    using b(1) by (simp add: h'_def put_buf_def)
  have vok: "vec_ok isz h' u" if "vec_ok isz h u" for u
    using that b(1) by (auto simp: vec_ok_def h'_def put_buf_def split: option.splits if_splits)
  have "vec_ok isz h' v'" using b v' by (simp add: vec_ok_def h'_def put_buf_def)
  then have "vec_ok isz h' u" if "u \<in> set (vs[k := v'])" for u
    using that vok heap_okD(2) [OF ok] set_update_subset_insert [of vs k v'] by blast
  moreover have "counted isz h' (vs[k := v']) c" for c
    using heap_okD(8) [OF ok, of c] us [of c] b heap_okD(5) [OF ok b(1)] users_pos [OF w]
    by (auto simp: counted_def h'_def put_buf_def buf_ok_def split: option.splits if_splits)
  ultimately have "heap_ok isz h' (vs[k := v'])" using heap_okD(1) [OF ok] by (simp add: heap_ok_def)
  moreover have "slots_of h' u = slots_of h u" for u
    using b(1) by (auto simp: slots_of_def h'_def put_buf_def split: option.splits)
  ultimately show ?thesis using b(1) by (simp add: sb_acquire_def h'_def)
qed

theorem finish_vector_result:
  assumes st: "vec_state isz h vs" and i: "i < length vs"
  shows "\<exists>h' v'. finish_vector h (vs ! i) = Ret (h', v') \<and> becomes isz h vs i [] h' v' \<and> mStorage v' = None"
proof -
  from let_go [OF vec_stateD(1) [OF st] i] obtain h' where "release_storage h (vs ! i) = Ret h'"
    "heap_ok isz h' (vs[i := emptied (vs ! i)])" "unaffected h h' vs i" by blast
  moreover from this have "becomes isz h vs i [] h' (emptied (vs ! i))"
    by (intro becomes_intro [OF st i]) (simp_all add: slots_of_def)
  ultimately show ?thesis by (simp add: finish_vector_def)
qed

theorem vec_assign_result:
  assumes st: "vec_state isz h vs" and ij: "i < length vs" "j < length vs" "i \<noteq> j"
  shows "\<exists>h' v'. vec_assign h (vs ! i) (vs ! j) = Ret (h', v') \<and> becomes isz h vs i (vec_items h (vs ! j)) h' v'"
proof -
  let ?v = "vs ! i" and ?w = "vs ! j" and ?vs = "vs[i := emptied (vs ! i)]"
  have ok: "heap_ok isz h vs" using vec_stateD [OF st] by simp
  have win: "?w \<in> set vs" and sz: "mItemSize ?v = isz" "mItemSize ?w = isz"
    using ij heap_okD(2) [OF ok] by (simp_all add: vec_ok_def)
  from let_go [OF ok ij(1)] obtain h1 where h1: "release_storage h ?v = Ret h1" "heap_ok isz h1 ?vs" "unaffected h h1 vs i"
    by blast
  have w1: "?w \<in> set ?vs" using ij by (metis length_list_update nth_list_update_neq nth_mem)
  have sl: "slots_of h1 ?w = map Some (vec_items h ?w)"
    using h1(3) ij slots_items(1) [OF st win] by (simp add: unaffected_def)
  show ?thesis
  proof (cases "mCount ?w = 0")
    case True
    then have "becomes isz h vs i (vec_items h ?w) h1 (emptied ?v)"
      using h1(2,3) slots_items(2) [OF st win] by (intro becomes_intro [OF st ij(1)]) (simp_all add: slots_of_def)
    then show ?thesis using True h1(1) sz by (simp add: vec_assign_def)
  next
    case False
    obtain a where a: "mStorage ?w = Some a" using False heap_okD(2) [OF ok win] by (auto simp: vec_ok_def split: option.splits)
    let ?v' = "?v\<lparr>mStorage := Some a, mCount := mCount ?w\<rparr>"
    from share [OF h1(2) _ _ w1 a, of i ?v'] ij(1) sz obtain h2 where
      h2: "sb_acquire h1 a = Ret h2" "heap_ok isz h2 (vs[i := ?v'])" "\<And>u. slots_of h2 u = slots_of h1 u" by auto
    have "slots_of h2 ?v' = slots_of h2 ?w" using a by (simp add: slots_of_def cong: option.case_cong)
    then have "slots_of h2 ?v' = map Some (vec_items h ?w)" using h2(3) sl by simp
    moreover have "unaffected h h2 vs i" using h1(3) h2(3) by (simp add: unaffected_def)
    ultimately have "becomes isz h vs i (vec_items h ?w) h2 ?v'" using h2(2) by (intro becomes_intro [OF st ij(1)])
    then show ?thesis using False h1(1) h2(1) a sz by (simp add: vec_assign_def)
  qed
qed

text \<open>The copy constructor adds a vector to the pool.\<close>

theorem VectorImpl_copy_result:
  assumes st: "vec_state isz h vs" and j: "j < length vs"
  shows "\<exists>h' v'. VectorImpl_copy h (vs ! j) = Ret (h', v') \<and> vec_state isz h' (vs @ [v']) \<and>
    items_of h' (vs @ [v']) = items_of h vs @ [vec_items h (vs ! j)]"
proof (cases "mStorage (vs ! j)")
  case None
  have win: "vs ! j \<in> set vs" using j by simp
  have "users (vs @ [vs ! j]) = users vs" using None by (simp add: users_def fun_eq_iff)
  then have "vec_state isz h (vs @ [vs ! j])" using st j by (auto simp: vec_state_def heap_ok_def counted_def cong: option.case_cong)
  then show ?thesis using None by (simp add: VectorImpl_copy_def items_of_def)
next
  case (Some a)
  let ?w = "vs ! j" and ?vs = "vs @ [emptied (vs ! j)]"
  have win: "?w \<in> set vs" using j by simp
  have ok: "heap_ok isz h vs" using vec_stateD [OF st] by simp
  have "users ?vs = users vs" by (simp add: users_def fun_eq_iff)
  then have ok1: "heap_ok isz h ?vs" using ok win by (auto simp: heap_ok_def counted_def vec_ok_def cong: option.case_cong)
  have "mItemSize ?w = isz" using heap_okD(2) [OF ok win] by (simp add: vec_ok_def)
  with share [OF ok1, of "length vs" ?w a ?w] win Some obtain h1 where
    h1: "sb_acquire h a = Ret h1" "heap_ok isz h1 (vs @ [?w])" "\<And>u. slots_of h1 u = slots_of h u" by auto
  then have "vec_state isz h1 (vs @ [?w])" using st win by (auto simp: vec_state_def)
  then show ?thesis using h1 Some by (simp add: VectorImpl_copy_def items_of_def vec_items_def)
qed

end
