(* ===== verification/Vector_Order.thy ===== *)
theory Vector_Order
  imports Vector_Items "HOL-Library.Multiset"
begin

text \<open>
  Sorting and searching on the items of a vector.  What the insertion sort and the binary search rely on is the
  contract of a comparison function; the comparison that the templates build from \<open>operator <\<close> meets it.
\<close>

section \<open>Comparing\<close>

text \<open>\<open>strictly_order_type\<close> and \<open>compare_type\<close>, with \<open>lt\<close> the \<open>operator <\<close> of the type.\<close>

definition strictly_order_type :: "('a \<Rightarrow> 'a \<Rightarrow> bool) \<Rightarrow> 'a \<Rightarrow> 'a \<Rightarrow> int" where
  "strictly_order_type lt lhs rhs = (if lt lhs rhs then 1 else 0)"

definition compare_type :: "('a \<Rightarrow> 'a \<Rightarrow> bool) \<Rightarrow> 'a \<Rightarrow> 'a \<Rightarrow> int" where
  "compare_type lt lhs rhs = strictly_order_type lt rhs lhs - strictly_order_type lt lhs rhs"

text \<open>\<open>key_value_pair_t\<close>: pairs are ordered by their keys.\<close>

definition key_less :: "('k :: linorder \<times> 'v) \<Rightarrow> ('k \<times> 'v) \<Rightarrow> bool" where
  "key_less p q = (strictly_order_type (<) (fst p) (fst q) \<noteq> 0)"

locale vec_order =
  fixes cmp :: "'a \<Rightarrow> 'a \<Rightarrow> int"
  assumes cmp_flip: "0 < cmp a b \<longleftrightarrow> cmp b a < 0"
    and cmp_trans: "cmp a b \<le> 0 \<Longrightarrow> cmp b c \<le> 0 \<Longrightarrow> cmp a c \<le> 0"

section \<open>The insertion sort\<close>

text \<open>Inserting an item behind all items that are not greater.\<close>

definition insert_right :: "('a \<Rightarrow> 'a \<Rightarrow> int) \<Rightarrow> 'a \<Rightarrow> 'a list \<Rightarrow> 'a list" where
  "insert_right cmp t xs =
     rev (dropWhile (\<lambda>x. 0 < cmp x t) (rev xs)) @ t # rev (takeWhile (\<lambda>x. 0 < cmp x t) (rev xs))"

definition stable_sort :: "('a \<Rightarrow> 'a \<Rightarrow> int) \<Rightarrow> 'a list \<Rightarrow> 'a list" where
  "stable_sort cmp xs = fold (insert_right cmp) xs []"

lemma insert_right_Nil [simp]: "insert_right cmp t [] = [t]"
  by (simp add: insert_right_def)

lemma insert_right_snoc:
  "insert_right cmp t (xs @ [x]) = (if 0 < cmp x t then insert_right cmp t xs @ [x] else xs @ [x, t])"
  by (simp add: insert_right_def)

lemma mset_insert_right: "mset (insert_right cmp t xs) = add_mset t (mset xs)"
  by (induction xs rule: rev_induct) (simp_all add: insert_right_snoc)

lemma sort_shift_eq:
  "sort_shift cmp (p @ x # y # rest) (length p) t = insert_right cmp t p @ x # rest"
proof (induction p arbitrary: x y rest rule: rev_induct)
  case (snoc z q)
  have "(q @ z # x # y # rest)[Suc (Suc (length q)) := x] = q @ z # x # x # rest"
    by (simp add: list_update_append)
  moreover have "(q @ z # x # y # rest) ! Suc (length q) = x" by (simp add: nth_append)
  moreover have "(q @ z # x # x # rest)[Suc (length q) := t] = q @ z # t # x # rest"
    by (simp add: list_update_append)
  ultimately show ?case
    using snoc.IH [of z x "x # rest"] by (simp add: Let_def insert_right_snoc)
qed simp

lemma sort_loop_eq:
  "p \<noteq> [] \<Longrightarrow> sort_loop cmp (p @ r) (length p) (length r) = fold (insert_right cmp) r p"
proof (induction r arbitrary: p)
  case (Cons x r)
  obtain q l where p: "p = q @ [l]" using Cons.prems by (metis rev_exhaust)
  have "(if 0 < cmp ((p @ x # r) ! (length p - 1)) ((p @ x # r) ! length p) then sort_shift cmp (p @ x # r) (length p - 1) ((p @ x # r) ! length p)
      else p @ x # r) = insert_right cmp x p @ r"
    using sort_shift_eq [of cmp q l x r x] by (simp add: p nth_append insert_right_snoc)
  moreover have "length (insert_right cmp x p) = Suc (length p)"
    by (metis mset_insert_right size_add_mset size_mset)
  moreover have "insert_right cmp x p \<noteq> []" by (simp add: insert_right_def)
  ultimately show ?case using Cons.IH [of "insert_right cmp x p"] by simp
qed simp

lemma sort_loop_stable_sort: "1 < length xs \<Longrightarrow> sort_loop cmp xs 1 (length xs - 1) = stable_sort cmp xs"
  using sort_loop_eq [of "[hd xs]" cmp "tl xs"] by (cases xs) (simp_all add: stable_sort_def)

lemma sort_loop_in_order:
  assumes "\<And>k. i \<le> k \<Longrightarrow> k < i + n \<Longrightarrow> cmp (xs ! (k - 1)) (xs ! k) \<le> 0"
  shows "sort_loop cmp xs i n = xs"
  using assms
proof (induction n arbitrary: i)
  case (Suc n)
  have "\<not> 0 < cmp (xs ! (i - 1)) (xs ! i)" using Suc.prems [of i] by simp
  then show ?case using Suc.IH [of "Suc i"] Suc.prems by simp
qed simp


lemma mset_stable_sort: "mset (stable_sort cmp xs) = mset xs"
proof -
  have "mset (fold (insert_right cmp) xs p) = mset xs + mset p" for p
    by (induction xs arbitrary: p) (simp_all add: mset_insert_right)
  then show ?thesis by (simp add: stable_sort_def)
qed

section \<open>The binary search\<close>

text \<open>What a search for \<open>x\<close> finds in the items \<open>xs\<close>.\<close>

definition search_found :: "('a \<Rightarrow> 'a \<Rightarrow> int) \<Rightarrow> 'a \<Rightarrow> 'a list \<Rightarrow> int \<times> nat \<Rightarrow> bool" where
  "search_found cmp x xs r \<longleftrightarrow>
     (\<exists>k < length xs. r = (int k, k) \<and> cmp (xs ! k) x = 0) \<or>
     (\<exists>k \<le> length xs. r = (NAME_NOT_FOUND, k) \<and> (\<forall>j < k. cmp (xs ! j) x < 0) \<and> (\<forall>j < length xs. k \<le> j \<longrightarrow> 0 < cmp (xs ! j) x))"

definition set_add :: "('a \<Rightarrow> 'a \<Rightarrow> int) \<Rightarrow> 'a \<Rightarrow> 'a list \<Rightarrow> 'a list" where
  "set_add cmp x xs = filter (\<lambda>y. cmp y x < 0) xs @ x # filter (\<lambda>y. 0 < cmp y x) xs"

definition ascending :: "('a \<Rightarrow> 'a \<Rightarrow> int) \<Rightarrow> 'a list \<Rightarrow> bool" where
  "ascending cmp xs \<longleftrightarrow> sorted_wrt (\<lambda>a b. cmp a b < 0) xs"

lemma filter_parts:
  assumes "\<forall>j < k. P (xs ! j)" "\<forall>j < length xs. k \<le> j \<longrightarrow> \<not> P (xs ! j)" "k \<le> length xs"
  shows "filter P xs = take k xs"
proof -
  have "filter P (take k xs) = take k xs" using assms(1,3) by (auto simp: filter_id_conv in_set_conv_nth)
  moreover have "filter P (drop k xs) = []" using assms(2,3) by (auto simp: filter_empty_conv in_set_conv_nth)
  ultimately show ?thesis by (metis append.right_neutral append_take_drop_id filter_append)
qed

context vec_order
begin

lemma cmp_refl: "cmp a a = 0"
  using cmp_flip [of a a] by linarith

lemma cmp_less_trans: "cmp a b < 0 \<Longrightarrow> cmp b c \<le> 0 \<Longrightarrow> cmp a c < 0" "cmp a b \<le> 0 \<Longrightarrow> cmp b c < 0 \<Longrightarrow> cmp a c < 0"
proof -
  show "cmp a b < 0 \<Longrightarrow> cmp b c \<le> 0 \<Longrightarrow> cmp a c < 0"
    using cmp_trans [of a b c] cmp_trans [of b c a] cmp_flip [of c a] cmp_flip [of b a] cmp_flip [of a c] cmp_flip [of a b] by linarith
  show "cmp a b \<le> 0 \<Longrightarrow> cmp b c < 0 \<Longrightarrow> cmp a c < 0"
    using cmp_trans [of a b c] cmp_trans [of c a b] cmp_flip [of c a] cmp_flip [of b c] cmp_flip [of a c] cmp_flip [of c b] by linarith
qed

lemma cmp_equal: "cmp a b = 0 \<Longrightarrow> cmp b c = cmp a c \<or> sgn (cmp b c) = sgn (cmp a c)"
proof -
  assume eq: "cmp a b = 0"
  then have "cmp b a = 0" using cmp_flip [of a b] cmp_flip [of b a] by linarith
  with eq have "cmp b c < 0 \<longleftrightarrow> cmp a c < 0" "cmp b c \<le> 0 \<longleftrightarrow> cmp a c \<le> 0"
    using cmp_less_trans(2) [of a b c] cmp_less_trans(2) [of b a c] cmp_trans [of a b c] cmp_trans [of b a c] by auto
  then show ?thesis by (auto simp: sgn_if)
qed

lemma insert_right_sorted:
  assumes "sorted_wrt (\<lambda>a b. cmp a b \<le> 0) xs"
  shows "sorted_wrt (\<lambda>a b. cmp a b \<le> 0) (insert_right cmp t xs)"
  using assms
proof (induction xs rule: rev_induct)
  case (snoc x xs)
  have IH: "sorted_wrt (\<lambda>a b. cmp a b \<le> 0) (insert_right cmp t xs)" using snoc by (simp add: sorted_wrt_append)
  have set: "set (insert_right cmp t xs) = insert t (set xs)"
    using arg_cong [OF mset_insert_right [of cmp t xs], of set_mset] by simp
  have "cmp a x \<le> 0" if "a \<in> set xs" for a using snoc.prems that by (simp add: sorted_wrt_append)
  moreover from this have "cmp a t \<le> 0" if "a \<in> set xs" "cmp x t \<le> 0" for a using that cmp_trans by blast
  ultimately show ?case using IH snoc.prems cmp_flip [of x t]
    by (auto simp: insert_right_snoc sorted_wrt_append set)
qed simp

lemma stable_sort_sorted: "sorted_wrt (\<lambda>a b. cmp a b \<le> 0) (stable_sort cmp xs)"
proof -
  have "sorted_wrt (\<lambda>a b. cmp a b \<le> 0) (fold (insert_right cmp) xs p)" if "sorted_wrt (\<lambda>a b. cmp a b \<le> 0) p" for p
    using that by (induction xs arbitrary: p) (simp_all add: insert_right_sorted)
  then show ?thesis by (simp add: stable_sort_def)
qed

lemma insert_right_stable:
  "filter (\<lambda>y. cmp y z = 0) (insert_right cmp t xs) = filter (\<lambda>y. cmp y z = 0) (xs @ [t])"
proof (induction xs rule: rev_induct)
  case (snoc x xs)
  have "cmp t z \<noteq> 0 \<or> cmp x z \<noteq> 0" if "0 < cmp x t"
    using that cmp_trans [of x z t] cmp_flip [of t z] cmp_flip [of z t] by auto
  then show ?case using snoc by (auto simp: insert_right_snoc)
qed simp

lemma stable_sort_stable: "filter (\<lambda>y. cmp y z = 0) (stable_sort cmp xs) = filter (\<lambda>y. cmp y z = 0) xs"
proof -
  have "filter (\<lambda>y. cmp y z = 0) (fold (insert_right cmp) xs p) = filter (\<lambda>y. cmp y z = 0) (p @ xs)" for p
    by (induction xs arbitrary: p) (simp_all add: insert_right_stable)
  then show ?thesis by (simp add: stable_sort_def)
qed

lemma index_search_found:
  assumes "ascending cmp xs" "l \<le> u" "u \<le> length xs"
    "\<forall>j < l. cmp (xs ! j) x < 0" "\<forall>j < length xs. u \<le> j \<longrightarrow> 0 < cmp (xs ! j) x"
  shows "\<exists>r. index_search cmp (map Some xs @ rest) x l u = Ret r \<and> search_found cmp x xs r"
  using assms(2-)
proof (induction "u - l" arbitrary: l u rule: less_induct)
  case less
  show ?case
  proof (cases "l < u")
    case False
    then have "u = l" using less.prems by simp
    moreover have "index_search cmp (map Some xs @ rest) x l l = Ret (NAME_NOT_FOUND, l)" by (subst index_search.simps) simp
    ultimately show ?thesis using less.prems by (auto simp: search_found_def)
  next
    case True
    define mid where "mid = l + (u - 1 - l) div 2"
    have "(u - 1 - l) div 2 \<le> u - 1 - l" by simp
    then have mid: "l \<le> mid" "mid < u" "mid < length xs" using True less.prems(2) unfolding mid_def by linarith+
    have asc: "cmp (xs ! i) (xs ! j) < 0" if "i < j" "j < length xs" for i j
      using assms(1) that by (simp add: ascending_def sorted_wrt_iff_nth_less)
    have run: "index_search cmp (map Some xs @ rest) x l u =
       (if cmp (xs ! mid) x = 0 then Ret (int mid, mid)
        else if cmp (xs ! mid) x < 0 then index_search cmp (map Some xs @ rest) x (mid + 1) u
        else index_search cmp (map Some xs @ rest) x l mid)"
      using True mid unfolding index_search.simps [of cmp _ x l u] mid_def [symmetric] Let_def by (simp add: nth_append)
    consider "cmp (xs ! mid) x = 0" | "cmp (xs ! mid) x < 0" | "0 < cmp (xs ! mid) x" by linarith
    then show ?thesis
    proof cases
      case 1
      then show ?thesis using run mid by (auto simp: search_found_def)
    next
      case 2
      have "cmp (xs ! j) x < 0" if "j < mid + 1" for j
      proof (cases "j = mid")
        case False
        then have "cmp (xs ! j) (xs ! mid) < 0" using asc that mid(3) by simp
        then show ?thesis using cmp_less_trans(1) 2 by (metis order_less_imp_le)
      qed (use 2 in simp)
      then show ?thesis using less.hyps [of u "mid + 1"] less.prems mid run 2 by simp
    next
      case 3
      have "0 < cmp (xs ! j) x" if "j < length xs" "mid \<le> j" for j
      proof (cases "j = mid")
        case False
        then have "cmp (xs ! mid) (xs ! j) < 0" using asc that by simp
        moreover have "cmp x (xs ! mid) < 0" using 3 cmp_flip by simp
        ultimately have "cmp x (xs ! j) < 0" using cmp_less_trans(2) by (metis order_less_imp_le)
        then show ?thesis using cmp_flip by simp
      qed (use 3 in simp)
      then show ?thesis using less.hyps [of mid l] less.prems mid run 3 by simp
    qed
  qed
qed

lemma found_below_above:
  assumes "ascending cmp xs" "k < length xs" "cmp (xs ! k) x = 0"
  shows "\<forall>j < k. cmp (xs ! j) x < 0" "\<forall>j < length xs. Suc k \<le> j \<longrightarrow> 0 < cmp (xs ! j) x"
proof -
  have asc: "cmp (xs ! i) (xs ! j) < 0" if "i < j" "j < length xs" for i j
    using assms(1) that by (simp add: ascending_def sorted_wrt_iff_nth_less)
  show "\<forall>j < k. cmp (xs ! j) x < 0" using asc [of _ k] assms cmp_less_trans(1) by (metis order_refl)
  have "cmp x (xs ! k) \<le> 0" using assms(3) cmp_flip [of x "xs ! k"] by linarith
  then show "\<forall>j < length xs. Suc k \<le> j \<longrightarrow> 0 < cmp (xs ! j) x"
    using asc [of k] cmp_less_trans(2) cmp_flip by (metis Suc_le_lessD)
qed

lemma filter_above:
  assumes "\<forall>j < k. \<not> 0 < cmp (xs ! j) x" "\<forall>j < length xs. k \<le> j \<longrightarrow> 0 < cmp (xs ! j) x" "k \<le> length xs"
  shows "filter (\<lambda>y. 0 < cmp y x) xs = drop k xs"
proof -
  have "filter (\<lambda>y. 0 < cmp y x) (take k xs) = []" using assms(1,3) by (auto simp: filter_empty_conv in_set_conv_nth)
  moreover have "filter (\<lambda>y. 0 < cmp y x) (drop k xs) = drop k xs" using assms(2,3) by (auto simp: filter_id_conv in_set_conv_nth)
  ultimately show ?thesis by (metis append_Nil append_take_drop_id filter_append)
qed

lemma set_add_found:
  assumes asc: "ascending cmp xs" and k: "k < length xs" "cmp (xs ! k) x = 0"
  shows "set_add cmp x xs = xs[k := x]" "filter (\<lambda>y. cmp y x \<noteq> 0) xs = without k 1 xs"
    "length (filter (\<lambda>y. cmp y x < 0) xs) = k"
proof -
  note ba = found_below_above [OF assms]
  have low: "filter (\<lambda>y. cmp y x < 0) xs = take k xs"
    using ba k by (intro filter_parts) (auto simp: Suc_le_eq order_le_less dest: less_imp_not_less)
  have high: "filter (\<lambda>y. 0 < cmp y x) xs = drop (Suc k) xs"
    using ba k by (intro filter_above) (auto simp: less_Suc_eq dest: less_imp_not_less)
  show "length (filter (\<lambda>y. cmp y x < 0) xs) = k" using k low by simp
  show "set_add cmp x xs = xs[k := x]" using k by (simp add: set_add_def low high upd_conv_take_nth_drop)
  have "xs = take k xs @ xs ! k # drop (Suc k) xs" using k(1) by (rule id_take_nth_drop)
  then have "filter (\<lambda>y. cmp y x \<noteq> 0) xs = filter (\<lambda>y. cmp y x \<noteq> 0) (take k xs) @ filter (\<lambda>y. cmp y x \<noteq> 0) (drop (Suc k) xs)"
    using k(2) by (metis (mono_tags, lifting) filter.simps(2) filter_append)
  also have "filter (\<lambda>y. cmp y x \<noteq> 0) (take k xs) = take k xs"
    using ba(1) k(1) by (fastforce simp: filter_id_conv in_set_conv_nth)
  also have "filter (\<lambda>y. cmp y x \<noteq> 0) (drop (Suc k) xs) = drop (Suc k) xs"
  proof (rule filter_True, rule ballI)
    fix y assume "y \<in> set (drop (Suc k) xs)"
    then obtain i where "i < length xs - Suc k" "y = xs ! (Suc k + i)" by (auto simp: in_set_conv_nth)
    then have "Suc k + i < length xs" "y = xs ! (Suc k + i)" by simp_all
    then show "cmp y x \<noteq> 0" using ba(2) by (metis le_add1 less_irrefl)
  qed
  also have "take k xs @ drop (Suc k) xs = without k 1 xs" by (simp add: without_def)
  finally show "filter (\<lambda>y. cmp y x \<noteq> 0) xs = without k 1 xs" .
qed

lemma set_add_order:
  assumes "k \<le> length xs" "\<forall>j < k. cmp (xs ! j) x < 0" "\<forall>j < length xs. k \<le> j \<longrightarrow> 0 < cmp (xs ! j) x"
  shows "set_add cmp x xs = insert_list k [x] xs" "filter (\<lambda>y. cmp y x \<noteq> 0) xs = xs"
    "length (filter (\<lambda>y. cmp y x < 0) xs) = k"
proof -
  have low: "filter (\<lambda>y. cmp y x < 0) xs = take k xs" using assms by (intro filter_parts) (auto dest: less_imp_not_less)
  have high: "filter (\<lambda>y. 0 < cmp y x) xs = drop k xs" using assms by (intro filter_above) (auto dest: less_imp_not_less)
  show "length (filter (\<lambda>y. cmp y x < 0) xs) = k" using assms(1) low by simp
  show "set_add cmp x xs = insert_list k [x] xs" by (simp add: set_add_def insert_list_def low high)
  have "cmp y x \<noteq> 0" if "y \<in> set xs" for y
    using that assms(2,3) by (metis in_set_conv_nth less_irrefl linorder_le_less_linear)
  then show "filter (\<lambda>y. cmp y x \<noteq> 0) xs = xs" by (simp add: filter_id_conv)
qed

lemma ascending_set_add: "ascending cmp xs \<Longrightarrow> ascending cmp (set_add cmp x xs)"
proof -
  have "cmp a b < 0" if "cmp a x < 0" "0 < cmp b x" for a b
    using that cmp_flip [of b x] cmp_less_trans(1) by force
  then show "ascending cmp xs \<Longrightarrow> ascending cmp (set_add cmp x xs)"
    using cmp_flip by (auto simp: ascending_def set_add_def sorted_wrt_append sorted_wrt_filter)
qed

lemma ascending_filter: "ascending cmp xs \<Longrightarrow> ascending cmp (filter P xs)"
  by (simp add: ascending_def sorted_wrt_filter)

end

text \<open>The comparison of the templates meets the contract for every strict linear order, and for keyed pairs.\<close>

lemma compare_type_order:
  assumes "\<And>a b. lt a b \<Longrightarrow> \<not> lt b a" "\<And>a b c. \<not> lt b a \<Longrightarrow> \<not> lt c b \<Longrightarrow> \<not> lt c a"
  shows "vec_order (compare_type lt)"
proof unfold_locales
  show "0 < compare_type lt a b \<longleftrightarrow> compare_type lt b a < 0" for a b
    by (auto simp: compare_type_def strictly_order_type_def)
  have le: "compare_type lt a b \<le> 0 \<longleftrightarrow> \<not> lt b a" for a b
    using assms(1) [of a b] by (auto simp: compare_type_def strictly_order_type_def)
  show "compare_type lt a b \<le> 0 \<Longrightarrow> compare_type lt b c \<le> 0 \<Longrightarrow> compare_type lt a c \<le> 0" for a b c
    using assms(2) [of b a c] by (simp add: le)
qed

abbreviation key_cmp :: "('k :: linorder \<times> 'v) \<Rightarrow> ('k \<times> 'v) \<Rightarrow> int" where
  "key_cmp \<equiv> compare_type key_less"

lemma key_less_eq: "key_less p q \<longleftrightarrow> fst p < fst q"
  by (simp add: key_less_def strictly_order_type_def)

interpretation less_order: vec_order "compare_type ((<) :: 'a :: linorder \<Rightarrow> 'a \<Rightarrow> bool)"
  by (rule compare_type_order) auto

interpretation key_order: vec_order "key_cmp :: ('k :: linorder \<times> 'v) \<Rightarrow> ('k \<times> 'v) \<Rightarrow> int"
  by (rule compare_type_order) (auto simp: key_less_eq)

end
