(* ===== verification/Vector_Pool.thy ===== *)
theory Vector_Pool
  imports Vector_Order
begin

text \<open>
  Programs over a pool of vectors.  Every public operation of \<open>VectorImpl\<close> is one step of such a program; the same program
  over lists of lists is its specification.
\<close>

section \<open>The remaining operations\<close>

theorem vec_clear_result:
  assumes st: "vec_state isz h vs" and i: "i < length vs"
  shows "vec_clear mem h (vs ! i) = AssertFail \<and> \<not> all_memory mem \<or>
    (\<exists>h' v' ys. vec_clear mem h (vs ! i) = Ret (h', v') \<and> becomes isz h vs i ys h' v' \<and>
      (ys = [] \<or> \<not> all_memory mem \<and> ys = vec_items h (vs ! i)))"
proof -
  have vin: "vs ! i \<in> set vs" using i by simp
  have ok: "heap_ok isz h vs" using vec_stateD [OF st] by simp
  have "without 0 (mCount (vs ! i)) (vec_items h (vs ! i)) = []" using slots_items(2) [OF st vin] by (simp add: without_def)
  with removeItemsAt_result [OF st i, of 0 "mCount (vs ! i)" mem] show ?thesis
    using shrink_ends(1) [OF ok vin, of 0 "mCount (vs ! i)"]
    by (cases "vec_shrink mem h (vs ! i) 0 (mCount (vs ! i))") (auto simp: removeItemsAt_def vec_clear_def)
qed

theorem setCapacity_result:
  assumes st: "vec_state isz h vs" and i: "i < length vs"
  shows "setCapacity mem h (vs ! i) n = AssertFail \<and> size_max - sizeof_SharedBuffer \<le> n * isz \<or>
    (\<exists>h' v' r. setCapacity mem h (vs ! i) n = Ret (h', v', r) \<and> becomes isz h vs i (vec_items h (vs ! i)) h' v' \<and>
      (r = NO_MEMORY \<and> \<not> all_memory mem \<or> (mCount (vs ! i) < n \<longrightarrow> r = int n \<and> vec_capacity h' v' = Ret n)))"
proof -
  let ?v = "vs ! i"
  have vin: "?v \<in> set vs" using i by simp
  have ok: "heap_ok isz h vs" using vec_stateD [OF st] by simp
  have isz: "mItemSize ?v = isz" "0 < isz" using heap_okD(1,2) [OF ok] vin by (simp_all add: vec_ok_def)
  obtain cap where cap: "vec_capacity h ?v = Ret cap" using capacity_cases [OF ok vin] by metis
  show ?thesis
  proof (cases "mCount ?v < n \<and> n * isz < size_max - sizeof_SharedBuffer")
    case False
    then show ?thesis using becomes_refl [OF st i] cap isz
      by (cases "n \<le> mCount ?v") (auto simp: setCapacity_def sb_alloc_eq not_less)
  next
    case True
    then have lt: "n * isz < size_max" by linarith
    show ?thesis
    proof (cases "can_malloc mem (sizeof_SharedBuffer + n * isz)")
      case False
      then show ?thesis using True lt becomes_refl [OF st i] isz by (auto simp: setCapacity_def sb_alloc_eq)
    next
      case mem: True
      from shrink_moving [OF ok i, of "mCount ?v" 0 "n * isz"] True isz obtain h' h'' where
        m: "copy_around (with_new h (new_buffer isz (n * isz))) (next_buf h) (mStorage ?v) (mCount ?v) (mCount ?v) (mCount ?v) 0 = Ret h'"
        "release_storage h' ?v = Ret h''" "\<exists>b'. bufs h'' (next_buf h) = Some b' \<and> sb_size b' = n * isz"
        "edited isz h vs i (without (mCount ?v) 0 (slots_of h ?v)) h'' (?v\<lparr>mStorage := Some (next_buf h), mCount := mCount ?v\<rparr>)"
        by auto
      have "?v\<lparr>mStorage := Some (next_buf h), mCount := mCount ?v\<rparr> = ?v\<lparr>mStorage := Some (next_buf h)\<rparr>" by simp
      moreover have "without (mCount ?v) 0 (slots_of h ?v) = slots_of h ?v" by (simp add: without_def)
      ultimately have "becomes isz h vs i (vec_items h ?v) h'' (?v\<lparr>mStorage := Some (next_buf h)\<rparr>)"
        using m(4) becomes_same [OF st i] by (simp add: edited_def owns_def)
      moreover have "copy_around (with_new h (new_buffer isz (n * isz))) (next_buf h) (mStorage ?v) (mCount ?v) 0 0 0 = Ret h'"
        using m(1) by (simp add: copy_around_def)
      moreover have "vec_capacity h'' (?v\<lparr>mStorage := Some (next_buf h)\<rparr>) = Ret n"
        using m(3) isz by (auto simp: vec_capacity_def)
      ultimately show ?thesis using True lt mem isz m(2) by (auto simp: setCapacity_def sb_alloc_eq)
    qed
  qed
qed

lemma stable_sort_short: "length xs \<le> 1 \<Longrightarrow> stable_sort cmp xs = xs"
  by (cases xs) (simp_all add: stable_sort_def)

theorem vec_sort_result:
  assumes st: "vec_state isz h vs" and i: "i < length vs"
  shows "vec_sort mem h (vs ! i) cmp = AssertFail \<and> \<not> all_memory mem \<or>
    (\<exists>h' v'. vec_sort mem h (vs ! i) cmp = Ret (h', v', NO_MEMORY) \<and> \<not> all_memory mem \<and>
       becomes isz h vs i (vec_items h (vs ! i)) h' v') \<or>
    (\<exists>h' v'. vec_sort mem h (vs ! i) cmp = Ret (h', v', 0) \<and> becomes isz h vs i (stable_sort cmp (vec_items h (vs ! i))) h' v')"
proof (cases "mCount (vs ! i) > 1")
  case False
  then have "stable_sort cmp (vec_items h (vs ! i)) = vec_items h (vs ! i)"
    using slots_items(2) [OF st, of "vs ! i"] i by (intro stable_sort_short) simp
  then show ?thesis using False becomes_refl [OF st i] by (simp add: vec_sort_def)
next
  case True
  let ?v = "vs ! i" and ?xs = "vec_items h (vs ! i)"
  have vin: "?v \<in> set vs" using i by simp
  have ok: "heap_ok isz h vs" using vec_stateD [OF st] by simp
  note xs = slots_items [OF st vin]
  obtain a where a: "mStorage ?v = Some a" using heap_okD(2) [OF ok vin] True by (auto simp: vec_ok_def split: option.splits)
  obtain b where b: "bufs h a = Some b" "mCount ?v \<le> length (sb_slots b)" "slots_of h ?v = take (mCount ?v) (sb_slots b)"
    by (rule vec_buffer [OF ok vin a])
  have sorted: "sort_loop cmp ?xs 1 (mCount ?v - 1) = stable_sort cmp ?xs"
    using sort_loop_stable_sort [of ?xs cmp] xs(2) True by simp
  have run: "vec_sort mem h ?v cmp = (if in_order cmp ?xs then Ret (h, ?v, 0)
      else bindE (editArrayImpl mem h ?v) (\<lambda>(h, v).
        if \<not> can_malloc mem (mItemSize v) then Ret (h, v, NO_MEMORY)
        else bindE (write_items h v 0 (map Some (sort_loop cmp ?xs 1 (mCount v - 1)))) (\<lambda>h. Ret (h, v, 0))))"
  proof -
    have "mem_read 0 (mCount ?v) (sb_slots b) = Some (slots_of h ?v)" using b(2,3) by (simp add: mem_read_def)
    moreover have "None \<notin> set (slots_of h ?v)" "map the (slots_of h ?v) = ?xs" using st vin by (auto simp: vec_items_def vec_state_def)
    ultimately show ?thesis using True a b(1) by (simp add: vec_sort_def Let_def)
  qed
  show ?thesis
  proof (cases "in_order cmp ?xs")
    case True
    have "sort_loop cmp ?xs 1 (mCount ?v - 1) = ?xs"
      using True xs(2) by (intro sort_loop_in_order) (auto simp: in_order_def)
    then show ?thesis using True run sorted becomes_refl [OF st i] by auto
  next
    case False
    show ?thesis
    proof (rule edit_cases [OF ok i, of mem])
      assume "editArrayImpl mem h ?v = AssertFail" "\<not> all_memory mem"
      then show ?thesis using run False by simp
    next
      fix h1 v1 assume e: "editArrayImpl mem h ?v = Ret (h1, v1)" "owns isz h vs i h1 v1"
        "slots_of h1 v1 = slots_of h ?v" "mCount v1 = mCount ?v" "mCount ?v \<noteq> 0 \<Longrightarrow> mStorage v1 \<noteq> None"
      then obtain a1 where a1: "mStorage v1 = Some a1" using True by auto
      have len: "length (stable_sort cmp ?xs) = mCount ?v" using mset_stable_sort xs(2) by (metis size_mset)
      have keep: "becomes isz h vs i ?xs h1 v1" using e(2,3) becomes_same [OF st i] by (simp add: owns_def)
      from write_owned [OF e(2) i a1, of 0 "map Some (stable_sort cmp ?xs)"] e(4) len obtain h2 where
        w: "write_items h1 v1 0 (map Some (stable_sort cmp ?xs)) = Ret h2" "owns isz h vs i h2 v1"
        "slots_of h2 v1 = map Some (stable_sort cmp ?xs) @ drop (mCount ?v) (slots_of h1 v1)" by auto
      have "drop (mCount ?v) (slots_of h1 v1) = []" using e(3) xs by simp
      then have "becomes isz h vs i (stable_sort cmp ?xs) h2 v1"
        using w(2,3) by (intro becomes_intro [OF st i]) (simp_all add: owns_def)
      then show ?thesis using run False e(1,4) w(1) keep sorted by auto
    qed
  qed
qed

section \<open>Programs over a pool of vectors\<close>

datatype 'a vec_op =
    Op_new u32
  | Op_copy nat
  | Op_assign nat nat
  | Op_finish nat
  | Op_insert nat "'a option" nat nat
  | Op_array nat "'a list" nat
  | Op_vector nat nat nat
  | Op_push nat "'a option"
  | Op_pop nat
  | Op_replace nat "'a option" nat
  | Op_remove nat nat nat
  | Op_clear nat
  | Op_capacity nat nat
  | Op_resize nat nat
  | Op_sort nat

text \<open>Running a method on the vector at \<open>i\<close>.\<close>

definition on_vec :: "vec list \<Rightarrow> nat \<Rightarrow> ('a heap \<times> vec \<times> int) exec \<Rightarrow> ('a heap \<times> vec list \<times> int) exec" where
  "on_vec vs i m = bindE m (\<lambda>(h, v, r). Ret (h, vs[i := v], r))"

definition no_result :: "('a heap \<times> vec) exec \<Rightarrow> ('a heap \<times> vec \<times> int) exec" where
  "no_result m = bindE m (\<lambda>(h, v). Ret (h, v, 0))"

primrec run_op ::
    "vec_memory \<Rightarrow> nat \<Rightarrow> 'a \<Rightarrow> ('a \<Rightarrow> 'a \<Rightarrow> int) \<Rightarrow> 'a vec_op \<Rightarrow> 'a heap \<Rightarrow> vec list \<Rightarrow> ('a heap \<times> vec list \<times> int) exec" where
  "run_op mem isz dflt cmp (Op_new flags) h vs = Ret (h, vs @ [VectorImpl_new isz flags], 0)"
| "run_op mem isz dflt cmp (Op_copy j) h vs = bindE (VectorImpl_copy h (vs ! j)) (\<lambda>(h, v). Ret (h, vs @ [v], 0))"
| "run_op mem isz dflt cmp (Op_assign i j) h vs = on_vec vs i (no_result (vec_assign h (vs ! i) (vs ! j)))"
| "run_op mem isz dflt cmp (Op_finish i) h vs = on_vec vs i (no_result (finish_vector h (vs ! i)))"
| "run_op mem isz dflt cmp (Op_insert i item at n) h vs = on_vec vs i (insertAt mem dflt h (vs ! i) item at n)"
| "run_op mem isz dflt cmp (Op_array i ys at) h vs = on_vec vs i (insertArrayAt mem h (vs ! i) ys at)"
| "run_op mem isz dflt cmp (Op_vector i j at) h vs = on_vec vs i (insertVectorAt mem h (vs ! i) (vs ! j) at)"
| "run_op mem isz dflt cmp (Op_push i item) h vs = on_vec vs i (no_result (vec_push mem dflt h (vs ! i) item))"
| "run_op mem isz dflt cmp (Op_pop i) h vs = on_vec vs i (no_result (vec_pop mem h (vs ! i)))"
| "run_op mem isz dflt cmp (Op_replace i item at) h vs = on_vec vs i (replaceAt mem dflt h (vs ! i) item at)"
| "run_op mem isz dflt cmp (Op_remove i at n) h vs = on_vec vs i (removeItemsAt mem h (vs ! i) at n)"
| "run_op mem isz dflt cmp (Op_clear i) h vs = on_vec vs i (no_result (vec_clear mem h (vs ! i)))"
| "run_op mem isz dflt cmp (Op_capacity i n) h vs = on_vec vs i (setCapacity mem h (vs ! i) n)"
| "run_op mem isz dflt cmp (Op_resize i n) h vs = on_vec vs i (vec_resize mem dflt h (vs ! i) n)"
| "run_op mem isz dflt cmp (Op_sort i) h vs = on_vec vs i (vec_sort mem h (vs ! i) cmp)"

text \<open>The operations on lists, with the code that is returned where the lists determine it.\<close>

primrec list_op :: "'a \<Rightarrow> ('a \<Rightarrow> 'a \<Rightarrow> int) \<Rightarrow> 'a vec_op \<Rightarrow> 'a list list \<Rightarrow> 'a list list \<times> int option" where
  "list_op dflt cmp (Op_new flags) xss = (xss @ [[]], Some 0)"
| "list_op dflt cmp (Op_copy j) xss = (xss @ [xss ! j], Some 0)"
| "list_op dflt cmp (Op_assign i j) xss = (xss[i := xss ! j], Some 0)"
| "list_op dflt cmp (Op_finish i) xss = (xss[i := []], Some 0)"
| "list_op dflt cmp (Op_insert i item at n) xss =
     (if at > length (xss ! i) then (xss, Some BAD_INDEX)
      else (xss[i := insert_list at (replicate n (case item of None \<Rightarrow> dflt | Some x \<Rightarrow> x)) (xss ! i)],
        if n = 0 then None else Some (int at)))"
| "list_op dflt cmp (Op_array i ys at) xss =
     (if at > length (xss ! i) then (xss, Some BAD_INDEX)
      else (xss[i := insert_list at ys (xss ! i)], if ys = [] then None else Some (int at)))"
| "list_op dflt cmp (Op_vector i j at) xss =
     (if at > length (xss ! i) then (xss, Some BAD_INDEX)
      else (xss[i := insert_list at (xss ! j) (xss ! i)], if xss ! j = [] then None else Some (int at)))"
| "list_op dflt cmp (Op_push i item) xss = (xss[i := xss ! i @ [case item of None \<Rightarrow> dflt | Some x \<Rightarrow> x]], Some 0)"
| "list_op dflt cmp (Op_pop i) xss = (xss[i := butlast (xss ! i)], Some 0)"
| "list_op dflt cmp (Op_replace i item at) xss =
     (if at \<ge> length (xss ! i) then (xss, Some BAD_INDEX)
      else (xss[i := (xss ! i)[at := case item of None \<Rightarrow> dflt | Some x \<Rightarrow> x]], Some (int at)))"
| "list_op dflt cmp (Op_remove i at n) xss =
     (if at + n > length (xss ! i) then (xss, Some BAD_VALUE) else (xss[i := without at n (xss ! i)], Some (int at)))"
| "list_op dflt cmp (Op_clear i) xss = (xss[i := []], Some 0)"
| "list_op dflt cmp (Op_capacity i n) xss = (xss, if length (xss ! i) < n then Some (int n) else None)"
| "list_op dflt cmp (Op_resize i n) xss =
     (xss[i := take n (xss ! i) @ replicate (n - length (xss ! i)) dflt], Some (int n))"
| "list_op dflt cmp (Op_sort i) xss = (xss[i := stable_sort cmp (xss ! i)], Some 0)"

text \<open>
  The vectors that a call names exist, and are different where there are two.  The sum that \<open>removeItemsAt\<close>
  computes does not wrap around.
\<close>

primrec op_valid :: "'a vec_op \<Rightarrow> nat \<Rightarrow> bool" where
  "op_valid (Op_new flags) k = True"
| "op_valid (Op_copy j) k = (j < k)"
| "op_valid (Op_assign i j) k = (i < k \<and> j < k \<and> i \<noteq> j)"
| "op_valid (Op_finish i) k = (i < k)"
| "op_valid (Op_insert i item at n) k = (i < k)"
| "op_valid (Op_array i ys at) k = (i < k)"
| "op_valid (Op_vector i j at) k = (i < k \<and> j < k \<and> i \<noteq> j)"
| "op_valid (Op_push i item) k = (i < k)"
| "op_valid (Op_pop i) k = (i < k)"
| "op_valid (Op_replace i item at) k = (i < k)"
| "op_valid (Op_remove i at n) k = (i < k \<and> at + n < 2 ^ 64)"
| "op_valid (Op_clear i) k = (i < k)"
| "op_valid (Op_capacity i n) k = (i < k)"
| "op_valid (Op_resize i n) k = (i < k)"
| "op_valid (Op_sort i) k = (i < k)"

text \<open>The sizes that a call computes do not overflow.\<close>

primrec op_fits :: "nat \<Rightarrow> 'a vec_op \<Rightarrow> 'a list list \<Rightarrow> bool" where
  "op_fits isz (Op_new flags) xss = True"
| "op_fits isz (Op_copy j) xss = True"
| "op_fits isz (Op_assign i j) xss = True"
| "op_fits isz (Op_finish i) xss = True"
| "op_fits isz (Op_insert i item at n) xss = (\<not> too_big isz (length (xss ! i) + n))"
| "op_fits isz (Op_array i ys at) xss = (\<not> too_big isz (length (xss ! i) + length ys))"
| "op_fits isz (Op_vector i j at) xss = (\<not> too_big isz (length (xss ! i) + length (xss ! j)))"
| "op_fits isz (Op_push i item) xss = (\<not> too_big isz (length (xss ! i) + 1))"
| "op_fits isz (Op_pop i) xss = True"
| "op_fits isz (Op_replace i item at) xss = True"
| "op_fits isz (Op_remove i at n) xss = True"
| "op_fits isz (Op_clear i) xss = True"
| "op_fits isz (Op_capacity i n) xss = (n * isz < size_max - sizeof_SharedBuffer)"
| "op_fits isz (Op_resize i n) xss = (length (xss ! i) < n \<longrightarrow> \<not> too_big isz n)"
| "op_fits isz (Op_sort i) xss = True"

definition agrees :: "'a list list \<times> int option \<Rightarrow> 'a list list \<Rightarrow> int \<Rightarrow> bool" where
  "agrees spec xss r \<longleftrightarrow> xss = fst spec \<and> (\<forall>c. snd spec = Some c \<longrightarrow> r = c)"

definition step_result ::
    "vec_memory \<Rightarrow> nat \<Rightarrow> bool \<Rightarrow> 'a list list \<times> int option \<Rightarrow> 'a list list \<Rightarrow> ('a heap \<times> vec list \<times> int) exec \<Rightarrow> bool" where
  "step_result mem isz fits spec old res \<longleftrightarrow>
     res = AssertFail \<and> (\<not> fits \<or> \<not> all_memory mem) \<or>
     (\<exists>h' vs' r. res = Ret (h', vs', r) \<and> vec_state isz h' vs' \<and>
       (agrees spec (items_of h' vs') r \<or> \<not> all_memory mem \<and> items_of h' vs' = old))"

lemma step_AssertFail: "\<not> fits \<or> \<not> all_memory mem \<Longrightarrow> step_result mem isz fits spec old (on_vec vs i AssertFail)"
  by (simp add: step_result_def on_vec_def)

lemma items_of_nth: "i < length vs \<Longrightarrow> items_of h vs ! i = vec_items h (vs ! i)"
  by (simp add: items_of_def)

lemma step_done:
  assumes "becomes isz h vs i ys h' v'" "agrees spec ((items_of h vs)[i := ys]) r"
  shows "step_result mem isz fits spec old (on_vec vs i (Ret (h', v', r)))"
  using assms by (auto simp: step_result_def on_vec_def becomes_def)

lemma step_same:
  assumes "becomes isz h vs i (vec_items h (vs ! i)) h' v'" "i < length vs" "\<not> all_memory mem"
  shows "step_result mem isz fits spec (items_of h vs) (on_vec vs i (Ret (h', v', r)))"
  using assms items_of_nth [OF assms(2), of h] list_update_id [of "items_of h vs" i]
  by (auto simp: step_result_def on_vec_def becomes_def)

lemma step_unchanged:
  assumes "vec_state isz h vs" "i < length vs" "agrees spec (items_of h vs) r"
  shows "step_result mem isz fits spec old (on_vec vs i (Ret (h, vs ! i, r)))"
  using assms by (auto simp: step_result_def on_vec_def)

lemma step_inserted:
  assumes ins: "inserted mem isz h vs i at ys res" and i: "i < length vs"
    and spec: "spec = ((items_of h vs)[i := insert_list at ys (items_of h vs ! i)], if ys = [] then None else Some (int at))"
    and fits: "fits \<longleftrightarrow> \<not> too_big isz (mCount (vs ! i) + length ys)"
  shows "step_result mem isz fits spec (items_of h vs) (on_vec vs i res)"
proof -
  from ins consider "res = AssertFail" "too_big isz (mCount (vs ! i) + length ys) \<or> \<not> all_memory mem"
    | h' v' where "res = Ret (h', v', NO_MEMORY)" "becomes isz h vs i (vec_items h (vs ! i)) h' v'" "ys = [] \<or> \<not> all_memory mem"
    | h' v' where "res = Ret (h', v', int at)" "becomes isz h vs i (insert_list at ys (vec_items h (vs ! i))) h' v'"
    by (auto simp: inserted_def)
  then show ?thesis
  proof cases
    case 1
    then show ?thesis using step_AssertFail [of fits mem] fits by simp
  next
    case (2 h' v')
    show ?thesis
    proof (cases "ys = []")
      case True
      then have "agrees spec ((items_of h vs)[i := vec_items h (vs ! i)]) NO_MEMORY"
        using spec items_of_nth [OF i, of h] by (simp add: agrees_def insert_list_def)
      then show ?thesis using step_done [OF 2(2)] 2(1) by simp
    next
      case False
      then show ?thesis using step_same [OF 2(2) i] 2(1,3) by simp
    qed
  next
    case (3 h' v')
    then have "agrees spec ((items_of h vs)[i := insert_list at ys (vec_items h (vs ! i))]) (int at)"
      using spec items_of_nth [OF i, of h] by (simp add: agrees_def)
    then show ?thesis using step_done [OF 3(2)] 3(1) by simp
  qed
qed

lemma step_inserts:
  assumes st: "vec_state isz h vs" and i: "i < length vs"
  shows "step_result mem isz (op_fits isz (Op_insert i item at n) (items_of h vs))
      (list_op dflt cmp (Op_insert i item at n) (items_of h vs)) (items_of h vs) (run_op mem isz dflt cmp (Op_insert i item at n) h vs)"
    "step_result mem isz (op_fits isz (Op_array i ys at) (items_of h vs))
      (list_op dflt cmp (Op_array i ys at) (items_of h vs)) (items_of h vs) (run_op mem isz dflt cmp (Op_array i ys at) h vs)"
    "j < length vs \<Longrightarrow> i \<noteq> j \<Longrightarrow> step_result mem isz (op_fits isz (Op_vector i j at) (items_of h vs))
      (list_op dflt cmp (Op_vector i j at) (items_of h vs)) (items_of h vs) (run_op mem isz dflt cmp (Op_vector i j at) h vs)"
proof -
  have len: "length (items_of h vs ! k) = mCount (vs ! k)" if "k < length vs" for k
    using slots_items(2) [OF st, of "vs ! k"] that by (simp add: items_of_nth)
  have bad: "step_result mem isz fits (items_of h vs, Some BAD_INDEX) (items_of h vs) (on_vec vs i (Ret (h, vs ! i, BAD_INDEX)))" for fits
    by (rule step_unchanged [OF st i]) (simp add: agrees_def)
  show "step_result mem isz (op_fits isz (Op_insert i item at n) (items_of h vs))
      (list_op dflt cmp (Op_insert i item at n) (items_of h vs)) (items_of h vs) (run_op mem isz dflt cmp (Op_insert i item at n) h vs)"
  proof (cases "at \<le> mCount (vs ! i)")
    case True
    from step_inserted [OF insertAt_result [OF st i True] i] show ?thesis using True len [OF i] by simp
  next
    case False
    then show ?thesis using bad len [OF i] by (simp add: insertAt_def)
  qed
  show "step_result mem isz (op_fits isz (Op_array i ys at) (items_of h vs))
      (list_op dflt cmp (Op_array i ys at) (items_of h vs)) (items_of h vs) (run_op mem isz dflt cmp (Op_array i ys at) h vs)"
  proof (cases "at \<le> mCount (vs ! i)")
    case True
    from step_inserted [OF insertArrayAt_result [OF st i True] i] show ?thesis using True len [OF i] by simp
  next
    case False
    then show ?thesis using bad len [OF i] by (simp add: insertArrayAt_def)
  qed
  assume j: "j < length vs" "i \<noteq> j"
  show "step_result mem isz (op_fits isz (Op_vector i j at) (items_of h vs))
      (list_op dflt cmp (Op_vector i j at) (items_of h vs)) (items_of h vs) (run_op mem isz dflt cmp (Op_vector i j at) h vs)"
  proof (cases "at \<le> mCount (vs ! i)")
    case True
    from step_inserted [OF insertVectorAt_result [OF st i j True] i] show ?thesis using True len [OF i] j by (simp add: items_of_nth)
  next
    case False
    then show ?thesis using bad len [OF i] by (simp add: insertVectorAt_def)
  qed
qed

lemma step_remove:
  assumes st: "vec_state isz h vs" and i: "i < length vs" and at: "at + n < 2 ^ 64"
  shows "step_result mem isz True (list_op dflt cmp (Op_remove i at n) (items_of h vs)) (items_of h vs)
    (on_vec vs i (removeItemsAt mem h (vs ! i) at n))"
proof -
  have len: "length (items_of h vs ! i) = mCount (vs ! i)"
    using slots_items(2) [OF st, of "vs ! i"] i by (simp add: items_of_nth)
  show ?thesis
  proof (cases "at + n \<le> mCount (vs ! i)")
    case False
    then have "removeItemsAt mem h (vs ! i) at n = Ret (h, vs ! i, BAD_VALUE)" using at by (simp add: removeItemsAt_def add64_eq)
    then show ?thesis using False len step_unchanged [OF st i] by (simp add: agrees_def)
  next
    case True
    have spec: "list_op dflt cmp (Op_remove i at n) (items_of h vs) = ((items_of h vs)[i := without at n (vec_items h (vs ! i))], Some (int at))"
      using True len i by (simp add: items_of_nth)
    from removeItemsAt_result [OF st i True, of mem] consider
        "removeItemsAt mem h (vs ! i) at n = AssertFail" "\<not> all_memory mem"
      | h' v' where "removeItemsAt mem h (vs ! i) at n = Ret (h', v', int at)"
          "becomes isz h vs i (without at n (vec_items h (vs ! i))) h' v'"
      | h' v' where "removeItemsAt mem h (vs ! i) at n = Ret (h', v', int at)"
          "becomes isz h vs i (vec_items h (vs ! i)) h' v'" "\<not> all_memory mem" by blast
    then show ?thesis
    proof cases
      case 1
      then show ?thesis by (simp add: step_AssertFail)
    next
      case (2 h' v')
      then show ?thesis using step_done [OF 2(2)] by (simp add: spec agrees_def del: list_op.simps)
    next
      case (3 h' v')
      then show ?thesis using step_same [OF 3(2) i 3(3)] by simp
    qed
  qed
qed

lemma step_replace:
  assumes st: "vec_state isz h vs" and i: "i < length vs"
  shows "step_result mem isz True (list_op dflt cmp (Op_replace i item at) (items_of h vs)) (items_of h vs)
    (on_vec vs i (replaceAt mem dflt h (vs ! i) item at))"
proof -
  have len: "length (items_of h vs ! i) = mCount (vs ! i)"
    using slots_items(2) [OF st, of "vs ! i"] i by (simp add: items_of_nth)
  show ?thesis
  proof (cases "at < mCount (vs ! i)")
    case False
    then show ?thesis using len step_unchanged [OF st i] by (simp add: replaceAt_def agrees_def)
  next
    case True
    from replaceAt_result [OF st i True, of mem dflt item] consider
        "replaceAt mem dflt h (vs ! i) item at = AssertFail" "\<not> all_memory mem"
      | h' v' where "replaceAt mem dflt h (vs ! i) item at = Ret (h', v', int at)"
          "becomes isz h vs i ((vec_items h (vs ! i))[at := case item of None \<Rightarrow> dflt | Some x \<Rightarrow> x]) h' v'" by blast
    then show ?thesis
    proof cases
      case 1
      then show ?thesis by (simp add: step_AssertFail)
    next
      case (2 h' v')
      then show ?thesis using step_done [OF 2(2)] True len i by (simp add: agrees_def items_of_nth)
    qed
  qed
qed

lemma step_clear:
  assumes st: "vec_state isz h vs" and i: "i < length vs"
  shows "step_result mem isz True (list_op dflt cmp (Op_clear i) (items_of h vs)) (items_of h vs)
    (on_vec vs i (no_result (vec_clear mem h (vs ! i))))"
proof -
  from vec_clear_result [OF st i, of mem] consider "vec_clear mem h (vs ! i) = AssertFail" "\<not> all_memory mem"
    | h' v' where "vec_clear mem h (vs ! i) = Ret (h', v')" "becomes isz h vs i [] h' v'"
    | h' v' where "vec_clear mem h (vs ! i) = Ret (h', v')" "becomes isz h vs i (vec_items h (vs ! i)) h' v'" "\<not> all_memory mem"
    by blast
  then show ?thesis
  proof cases
    case 1
    then show ?thesis by (simp add: step_AssertFail no_result_def)
  next
    case (2 h' v')
    then show ?thesis using step_done [OF 2(2)] by (simp add: agrees_def no_result_def)
  next
    case (3 h' v')
    then show ?thesis using step_same [OF 3(2) i 3(3)] by (simp add: no_result_def)
  qed
qed

lemma step_capacity:
  assumes st: "vec_state isz h vs" and i: "i < length vs"
  shows "step_result mem isz (op_fits isz (Op_capacity i n) (items_of h vs)) (list_op dflt cmp (Op_capacity i n) (items_of h vs))
    (items_of h vs) (on_vec vs i (setCapacity mem h (vs ! i) n))"
proof -
  have len: "length (items_of h vs ! i) = mCount (vs ! i)" and same: "(items_of h vs)[i := vec_items h (vs ! i)] = items_of h vs"
    using slots_items(2) [OF st, of "vs ! i"] i list_update_id [of "items_of h vs" i] by (simp_all add: items_of_nth)
  from setCapacity_result [OF st i, of mem n] consider
      "setCapacity mem h (vs ! i) n = AssertFail" "size_max - sizeof_SharedBuffer \<le> n * isz"
    | h' v' where "setCapacity mem h (vs ! i) n = Ret (h', v', NO_MEMORY)" "becomes isz h vs i (vec_items h (vs ! i)) h' v'" "\<not> all_memory mem"
    | h' v' r where "setCapacity mem h (vs ! i) n = Ret (h', v', r)" "becomes isz h vs i (vec_items h (vs ! i)) h' v'"
        "mCount (vs ! i) < n \<longrightarrow> r = int n" by blast
  then show ?thesis
  proof cases
    case 1
    then show ?thesis by (simp add: step_AssertFail not_less)
  next
    case (2 h' v')
    then show ?thesis using step_same [OF 2(2) i 2(3)] by simp
  next
    case (3 h' v' r)
    then show ?thesis using step_done [OF 3(2)] len same by (simp add: agrees_def)
  qed
qed

lemma step_sort:
  assumes st: "vec_state isz h vs" and i: "i < length vs"
  shows "step_result mem isz True (list_op dflt cmp (Op_sort i) (items_of h vs)) (items_of h vs)
    (on_vec vs i (vec_sort mem h (vs ! i) cmp))"
proof -
  from vec_sort_result [OF st i, of mem cmp] consider "vec_sort mem h (vs ! i) cmp = AssertFail" "\<not> all_memory mem"
    | h' v' where "vec_sort mem h (vs ! i) cmp = Ret (h', v', NO_MEMORY)" "\<not> all_memory mem" "becomes isz h vs i (vec_items h (vs ! i)) h' v'"
    | h' v' where "vec_sort mem h (vs ! i) cmp = Ret (h', v', 0)" "becomes isz h vs i (stable_sort cmp (vec_items h (vs ! i))) h' v'"
    by blast
  then show ?thesis
  proof cases
    case 1
    then show ?thesis by (simp add: step_AssertFail)
  next
    case (2 h' v')
    then show ?thesis using step_same [OF 2(3) i 2(2)] by simp
  next
    case (3 h' v')
    then show ?thesis using step_done [OF 3(2)] i by (simp add: agrees_def items_of_nth)
  qed
qed

lemma step_sharing:
  assumes st: "vec_state isz h vs" and i: "i < length vs"
  shows "step_result mem isz True (list_op dflt cmp (Op_copy i) (items_of h vs)) (items_of h vs) (run_op mem isz dflt cmp (Op_copy i) h vs)"
    "step_result mem isz True (list_op dflt cmp (Op_finish i) (items_of h vs)) (items_of h vs) (run_op mem isz dflt cmp (Op_finish i) h vs)"
    "j < length vs \<Longrightarrow> i \<noteq> j \<Longrightarrow>
      step_result mem isz True (list_op dflt cmp (Op_assign i j) (items_of h vs)) (items_of h vs) (run_op mem isz dflt cmp (Op_assign i j) h vs)"
proof -
  show "step_result mem isz True (list_op dflt cmp (Op_copy i) (items_of h vs)) (items_of h vs) (run_op mem isz dflt cmp (Op_copy i) h vs)"
    using VectorImpl_copy_result [OF st i] i by (auto simp: step_result_def agrees_def items_of_nth)
  from finish_vector_result [OF st i] obtain h' v' where f: "finish_vector h (vs ! i) = Ret (h', v')" "becomes isz h vs i [] h' v'" by blast
  then show "step_result mem isz True (list_op dflt cmp (Op_finish i) (items_of h vs)) (items_of h vs) (run_op mem isz dflt cmp (Op_finish i) h vs)"
    using step_done [OF f(2)] by (simp add: agrees_def no_result_def)
  assume j: "j < length vs" "i \<noteq> j"
  from vec_assign_result [OF st i j] obtain h' v' where
    f: "vec_assign h (vs ! i) (vs ! j) = Ret (h', v')" "becomes isz h vs i (vec_items h (vs ! j)) h' v'" by blast
  then show "step_result mem isz True (list_op dflt cmp (Op_assign i j) (items_of h vs)) (items_of h vs) (run_op mem isz dflt cmp (Op_assign i j) h vs)"
    using step_done [OF f(2)] j by (simp add: agrees_def no_result_def items_of_nth)
qed

text \<open>Only the code returned differs between a call and the call it delegates to.\<close>

lemma step_recode:
  assumes "step_result mem isz fits spec old (on_vec vs i m)"
    and "spec' = (fst spec, new_code)" "\<And>r c. agrees spec (fst spec) r \<Longrightarrow> new_code = Some c \<Longrightarrow> f r = c"
  shows "step_result mem isz fits spec' old (on_vec vs i (bindE m (\<lambda>(h, v, r). Ret (h, v, f r))))"
  using assms by (cases m) (auto simp: step_result_def on_vec_def agrees_def)

lemma step_push:
  assumes st: "vec_state isz h vs" and i: "i < length vs"
  shows "step_result mem isz (op_fits isz (Op_push i item) (items_of h vs)) (list_op dflt cmp (Op_push i item) (items_of h vs))
    (items_of h vs) (run_op mem isz dflt cmp (Op_push i item) h vs)"
proof -
  let ?c = "mCount (vs ! i)"
  have len: "length (items_of h vs ! i) = ?c" using slots_items(2) [OF st, of "vs ! i"] i by (simp add: items_of_nth)
  have "no_result (vec_push mem dflt h (vs ! i) item) = bindE (insertAt mem dflt h (vs ! i) item ?c 1) (\<lambda>(h, v, r). Ret (h, v, 0))"
    by (simp add: no_result_def vec_push_def bindE_assoc split_def)
  then show ?thesis
    using step_recode [OF step_inserts(1) [OF st i, where item = item and at = ?c and n = 1, unfolded run_op.simps],
        where new_code = "Some 0" and f = "\<lambda>r. 0" and spec' = "list_op dflt cmp (Op_push i item) (items_of h vs)"] len
    by (simp add: insert_list_def)
qed

lemma step_pop:
  assumes st: "vec_state isz h vs" and i: "i < length vs"
  shows "step_result mem isz True (list_op dflt cmp (Op_pop i) (items_of h vs)) (items_of h vs) (run_op mem isz dflt cmp (Op_pop i) h vs)"
proof -
  let ?c = "mCount (vs ! i)" and ?xs = "items_of h vs ! i"
  have len: "length ?xs = ?c" using slots_items(2) [OF st, of "vs ! i"] i by (simp add: items_of_nth)
  show ?thesis
  proof (cases "?c = 0")
    case True
    then have "(items_of h vs)[i := butlast ?xs] = items_of h vs" using len list_update_id [of "items_of h vs" i] by simp
    then show ?thesis using True step_unchanged [OF st i] by (simp add: vec_pop_def no_result_def agrees_def)
  next
    case False
    have lt: "?c - 1 + 1 < 2 ^ 64" using False count_less(2) [OF vec_stateD(1) [OF st], of "vs ! i"] i by simp
    have "no_result (vec_pop mem h (vs ! i)) = bindE (removeItemsAt mem h (vs ! i) (?c - 1) 1) (\<lambda>(h, v, r). Ret (h, v, 0))"
      using False by (simp add: no_result_def vec_pop_def bindE_assoc split_def)
    moreover have "without (?c - 1) 1 ?xs = butlast ?xs" using False len by (simp add: without_def butlast_conv_take)
    ultimately show ?thesis
      using step_recode [OF step_remove [OF st i lt], where new_code = "Some 0" and f = "\<lambda>r. 0"
          and spec' = "list_op dflt cmp (Op_pop i) (items_of h vs)"] len False
      by simp
  qed
qed

lemma step_resize:
  assumes st: "vec_state isz h vs" and i: "i < length vs"
  shows "step_result mem isz (op_fits isz (Op_resize i n) (items_of h vs)) (list_op dflt cmp (Op_resize i n) (items_of h vs))
    (items_of h vs) (run_op mem isz dflt cmp (Op_resize i n) h vs)"
proof -
  let ?c = "mCount (vs ! i)" and ?xs = "items_of h vs ! i" and ?f = "\<lambda>r. if r < 0 then r else int n"
  let ?spec = "list_op dflt cmp (Op_resize i n) (items_of h vs)"
  have len: "length ?xs = ?c" using slots_items(2) [OF st, of "vs ! i"] i by (simp add: items_of_nth)
  consider "?c < n" | "n < ?c" | "n = ?c" by linarith
  then show ?thesis
  proof cases
    case 1
    then have run: "vec_resize mem dflt h (vs ! i) n = bindE (insertAt mem dflt h (vs ! i) None ?c (n - ?c)) (\<lambda>(h, v, r). Ret (h, v, ?f r))"
      by (simp add: vec_resize_def)
    have spec: "?spec = ((items_of h vs)[i := insert_list ?c (replicate (n - ?c) dflt) ?xs], Some (int n))"
      using 1 len by (simp add: insert_list_def)
    from step_recode [OF step_inserts(1) [OF st i, where item = None and at = ?c and n = "n - ?c", unfolded run_op.simps],
        where new_code = "Some (int n)" and f = ?f and spec' = ?spec]
    show ?thesis using 1 len spec by (simp add: run agrees_def)
  next
    case 2
    then have run: "vec_resize mem dflt h (vs ! i) n = bindE (removeItemsAt mem h (vs ! i) n (?c - n)) (\<lambda>(h, v, r). Ret (h, v, ?f r))"
      by (simp add: vec_resize_def)
    have lt: "n + (?c - n) < 2 ^ 64" using 2 count_less(2) [OF vec_stateD(1) [OF st], of "vs ! i"] i by simp
    have spec: "?spec = ((items_of h vs)[i := without n (?c - n) ?xs], Some (int n))"
      using 2 len by (simp add: without_def)
    from step_recode [OF step_remove [OF st i lt], where new_code = "Some (int n)" and f = ?f and spec' = ?spec]
    show ?thesis using 2 len spec by (simp add: run agrees_def)
  next
    case 3
    then have "?spec = (items_of h vs, Some (int n))" using len list_update_id [of "items_of h vs" i] by simp
    then show ?thesis using 3 step_unchanged [OF st i] by (simp add: vec_resize_def agrees_def)
  qed
qed

lemma step_new:
  assumes "vec_state isz h vs"
  shows "step_result mem isz True (list_op dflt cmp (Op_new flags) (items_of h vs)) (items_of h vs) (run_op mem isz dflt cmp (Op_new flags) h vs)"
proof -
  let ?v = "VectorImpl_new isz flags"
  have "users (vs @ [?v]) = users vs" by (simp add: users_def VectorImpl_new_def fun_eq_iff)
  then have "vec_state isz h (vs @ [?v])" using assms
    by (auto simp: vec_state_def heap_ok_def counted_def vec_ok_def VectorImpl_new_def slots_of_def cong: option.case_cong)
  then show ?thesis by (simp add: step_result_def agrees_def items_of_def vec_items_def VectorImpl_new_def slots_of_def)
qed

text \<open>One step of a program.\<close>

theorem pool_step:
  assumes st: "vec_state isz h vs" and valid: "op_valid op (length vs)"
  shows "step_result mem isz (op_fits isz op (items_of h vs)) (list_op dflt cmp op (items_of h vs)) (items_of h vs)
    (run_op mem isz dflt cmp op h vs)"
proof (cases op)
  case (Op_new flags)
  then show ?thesis using step_new [OF st] by simp
next
  case (Op_copy j)
  then show ?thesis using step_sharing(1) [OF st] valid by simp
next
  case (Op_assign i j)
  then show ?thesis using step_sharing(3) [OF st] valid by simp
next
  case (Op_finish i)
  then show ?thesis using step_sharing(2) [OF st] valid by simp
next
  case (Op_insert i item at n)
  then show ?thesis using step_inserts(1) [OF st] valid by simp
next
  case (Op_array i ys at)
  then show ?thesis using step_inserts(2) [OF st] valid by simp
next
  case (Op_vector i j at)
  then show ?thesis using step_inserts(3) [OF st] valid by simp
next
  case (Op_push i item)
  then show ?thesis using step_push [OF st] valid by simp
next
  case (Op_pop i)
  then show ?thesis using step_pop [OF st] valid by simp
next
  case (Op_replace i item at)
  then show ?thesis using step_replace [OF st] valid by simp
next
  case (Op_remove i at n)
  then show ?thesis using step_remove [OF st] valid by simp
next
  case (Op_clear i)
  then show ?thesis using step_clear [OF st] valid by simp
next
  case (Op_capacity i n)
  then show ?thesis using step_capacity [OF st] valid by simp
next
  case (Op_resize i n)
  then show ?thesis using step_resize [OF st] valid by simp
next
  case (Op_sort i)
  then show ?thesis using step_sort [OF st] valid by simp
qed

end
