(* ===== verification/Keyed_Vector.thy ===== *)
theory Keyed_Vector
  imports Vector_Pool
begin

text \<open>
  Sorted vectors and the templates on top of them: \<open>SortedVector.h\<close> and \<open>KeyedVector.h\<close>.  A sorted vector is a
  strictly ascending list; a keyed vector holds pairs in the order of their keys and is a finite map.
\<close>

section \<open>Keyed vectors\<close>

text \<open>
  \<open>dv\<close> is the value that the constructor of a pair from a key alone leaves in the pair; it is never compared.
\<close>

definition indexOfKey :: "'v \<Rightarrow> ('k :: linorder \<times> 'v) heap \<Rightarrow> vec \<Rightarrow> 'k \<Rightarrow> int exec" where
  "indexOfKey dv h v key = indexOf key_cmp h v (key, dv)"

definition valueAt :: "('k \<times> 'v) heap \<Rightarrow> vec \<Rightarrow> nat \<Rightarrow> 'v exec" where
  "valueAt h v index = bindE (item_at h v index) (\<lambda>p. Ret (snd p))"

definition keyAt :: "('k \<times> 'v) heap \<Rightarrow> vec \<Rightarrow> nat \<Rightarrow> 'k exec" where
  "keyAt h v index = bindE (item_at h v index) (\<lambda>p. Ret (fst p))"

definition valueFor :: "'v \<Rightarrow> ('k :: linorder \<times> 'v) heap \<Rightarrow> vec \<Rightarrow> 'k \<Rightarrow> 'v exec" where
  "valueFor dv h v key =
     bindE (indexOfKey dv h v key) (\<lambda>i. if i < 0 then AssertFail else valueAt h v (nat i))"

text \<open>\<open>valueFor\<close> of \<open>DefaultKeyedVector\<close>.\<close>

definition default_valueFor :: "'v \<Rightarrow> 'v \<Rightarrow> ('k :: linorder \<times> 'v) heap \<Rightarrow> vec \<Rightarrow> 'k \<Rightarrow> 'v exec" where
  "default_valueFor dv mDefault h v key =
     bindE (indexOfKey dv h v key) (\<lambda>i. if i \<ge> 0 then valueAt h v (nat i) else Ret mDefault)"

text \<open>Assigning through the reference that \<open>editItemAt\<close> returns.\<close>

definition assign_value ::
    "vec_memory \<Rightarrow> ('k \<times> 'v) heap \<Rightarrow> vec \<Rightarrow> nat \<Rightarrow> 'v \<Rightarrow> (('k \<times> 'v) heap \<times> vec) exec" where
  "assign_value mem h v index value =
     bindE (editItemLocation mem h v index) (\<lambda>(h, v, loc).
     bindE (deref loc) (\<lambda>loc.
     bindE (item_at h v loc) (\<lambda>p.
     bindE (write_items h v loc [Some (fst p, value)]) (\<lambda>h. Ret (h, v)))))"

definition editValueFor ::
    "'v \<Rightarrow> vec_memory \<Rightarrow> ('k :: linorder \<times> 'v) heap \<Rightarrow> vec \<Rightarrow> 'k \<Rightarrow> 'v \<Rightarrow> (('k \<times> 'v) heap \<times> vec) exec" where
  "editValueFor dv mem h v key value =
     bindE (indexOfKey dv h v key) (\<lambda>i. if i < 0 then AssertFail else assign_value mem h v (nat i) value)"

definition keyed_add ::
    "'k \<times> 'v \<Rightarrow> vec_memory \<Rightarrow> ('k :: linorder \<times> 'v) heap \<Rightarrow> vec \<Rightarrow> 'k \<Rightarrow> 'v \<Rightarrow> (('k \<times> 'v) heap \<times> vec \<times> int) exec" where
  "keyed_add dflt mem h v key value = sorted_add mem dflt key_cmp h v (key, value)"

definition replaceValueFor ::
    "'k \<times> 'v \<Rightarrow> vec_memory \<Rightarrow> ('k :: linorder \<times> 'v) heap \<Rightarrow> vec \<Rightarrow> 'k \<Rightarrow> 'v \<Rightarrow> (('k \<times> 'v) heap \<times> vec \<times> int) exec" where
  "replaceValueFor dflt mem h v key value =
     bindE (sorted_remove mem key_cmp h v (key, value)) (\<lambda>(h, v, _). sorted_add mem dflt key_cmp h v (key, value))"

definition replaceValueAt ::
    "vec_memory \<Rightarrow> ('k \<times> 'v) heap \<Rightarrow> vec \<Rightarrow> nat \<Rightarrow> 'v \<Rightarrow> (('k \<times> 'v) heap \<times> vec \<times> int) exec" where
  "replaceValueAt mem h v index value =
     (if index < mCount v then bindE (assign_value mem h v index value) (\<lambda>(h, v). Ret (h, v, int index))
      else Ret (h, v, BAD_INDEX))"

definition removeItem ::
    "'v \<Rightarrow> vec_memory \<Rightarrow> ('k :: linorder \<times> 'v) heap \<Rightarrow> vec \<Rightarrow> 'k \<Rightarrow> (('k \<times> 'v) heap \<times> vec \<times> int) exec" where
  "removeItem dv mem h v key = sorted_remove mem key_cmp h v (key, dv)"

section \<open>Sorted vectors\<close>

lemma item_at_items:
  assumes st: "vec_state isz h vs" and v: "v \<in> set vs" and k: "k < mCount v"
  shows "item_at h v k = Ret (vec_items h v ! k)"
proof -
  have ok: "heap_ok isz h vs" using vec_stateD [OF st] by simp
  obtain a where a: "mStorage v = Some a" using heap_okD(2) [OF ok v] k by (auto simp: vec_ok_def split: option.splits)
  obtain b where b: "bufs h a = Some b" "mCount v \<le> length (sb_slots b)" "slots_of h v = take (mCount v) (sb_slots b)"
    by (rule vec_buffer [OF ok v a])
  have "sb_slots b ! k = Some (vec_items h v ! k)"
    using slots_items [OF st v] b k by (metis nth_map nth_take)
  then show ?thesis using a b k by (simp add: item_at_def array_read_def)
qed

lemma item_at_first:
  assumes "mStorage v = None"
  shows "item_at h v k = Fault"
  using assms by (simp add: item_at_def)

context vec_order
begin

theorem indexOrderOf_found:
  assumes st: "vec_state isz h vs" and v: "v \<in> set vs" and asc: "ascending cmp (vec_items h v)"
  shows "\<exists>r. indexOrderOf cmp h v x = Ret r \<and> search_found cmp x (vec_items h v) r"
proof -
  have ok: "heap_ok isz h vs" using vec_stateD [OF st] by simp
  have len: "length (vec_items h v) = mCount v" using slots_items [OF st v] by simp
  from index_search_found [OF asc, of 0 "mCount v" x] len have
    s: "\<exists>r. index_search cmp (map Some (vec_items h v) @ rest) x 0 (mCount v) = Ret r \<and> search_found cmp x (vec_items h v) r" for rest by simp
  show ?thesis
  proof (cases "mStorage v")
    case None
    then have "vec_items h v = []" by (simp add: vec_items_def slots_of_def)
    then show ?thesis using s [of "[]"] None by (simp add: indexOrderOf_def)
  next
    case (Some a)
    obtain b where b: "bufs h a = Some b" "slots_of h v = take (mCount v) (sb_slots b)" by (rule vec_buffer [OF ok v Some])
    then have "sb_slots b = map Some (vec_items h v) @ drop (mCount v) (sb_slots b)"
      using slots_items(1) [OF st v] by (metis append_take_drop_id)
    then show ?thesis using s [of "drop (mCount v) (sb_slots b)"] Some b(1) by (simp add: indexOrderOf_def)
  qed
qed

text \<open>Adding an item: it replaces the equal one, or goes to its place.\<close>

theorem sorted_add_step:
  assumes st: "vec_state isz h vs" and i: "i < length vs" and asc: "ascending cmp (vec_items h (vs ! i))"
  shows "step_result mem isz (\<not> too_big isz (mCount (vs ! i) + 1)) ((items_of h vs)[i := set_add cmp x (vec_items h (vs ! i))],
      Some (int (length (filter (\<lambda>y. cmp y x < 0) (vec_items h (vs ! i)))))) (items_of h vs) (on_vec vs i (sorted_add mem dflt cmp h (vs ! i) x))"
proof -
  let ?v = "vs ! i" and ?xs = "vec_items h (vs ! i)"
  have vin: "?v \<in> set vs" using i by simp
  have len: "length ?xs = mCount ?v" using slots_items [OF st vin] by simp
  from indexOrderOf_found [OF st vin asc, of x] obtain r where r: "indexOrderOf cmp h ?v x = Ret r" "search_found cmp x ?xs r" by blast
  from r(2) consider k where "k < length ?xs" "r = (int k, k)" "cmp (?xs ! k) x = 0"
    | k where "k \<le> length ?xs" "r = (NAME_NOT_FOUND, k)" "\<forall>j < k. cmp (?xs ! j) x < 0" "\<forall>j < length ?xs. k \<le> j \<longrightarrow> 0 < cmp (?xs ! j) x"
    by (auto simp: search_found_def)
  then show ?thesis
  proof cases
    case (1 k)
    have "sorted_add mem dflt cmp h ?v x = replaceAt mem dflt h ?v (Some x) k" using r(1) 1(2) by (simp add: sorted_add_def)
    then show ?thesis
      using step_replace [OF st i, of mem dflt cmp "Some x" k] set_add_found(1,3) [OF asc 1(1,3)] 1(1) i
      by (auto simp: step_result_def agrees_def items_of_nth)
  next
    case (2 k)
    have "sorted_add mem dflt cmp h ?v x = insertAt mem dflt h ?v (Some x) k 1" using r(1) 2(2) by (simp add: sorted_add_def)
    then show ?thesis
      using step_inserts(1) [OF st i, of mem "Some x" k 1 dflt cmp] set_add_order(1,3) [OF 2(1,3,4)] 2(1) i len
      by (auto simp: step_result_def agrees_def items_of_nth)
  qed
qed

text \<open>Removing an item: the result is where it was.\<close>

theorem sorted_remove_step:
  assumes st: "vec_state isz h vs" and i: "i < length vs" and asc: "ascending cmp (vec_items h (vs ! i))"
  shows "step_result mem isz True ((items_of h vs)[i := filter (\<lambda>y. cmp y x \<noteq> 0) (vec_items h (vs ! i))], None)
    (items_of h vs) (on_vec vs i (sorted_remove mem cmp h (vs ! i) x))"
proof -
  let ?v = "vs ! i" and ?xs = "vec_items h (vs ! i)"
  have vin: "?v \<in> set vs" using i by simp
  have len: "length ?xs = mCount ?v" using slots_items [OF st vin] by simp
  from indexOrderOf_found [OF st vin asc, of x] obtain r where r: "indexOrderOf cmp h ?v x = Ret r" "search_found cmp x ?xs r" by blast
  from r(2) consider k where "k < length ?xs" "r = (int k, k)" "cmp (?xs ! k) x = 0"
    | k where "k \<le> length ?xs" "r = (NAME_NOT_FOUND, k)" "\<forall>j < k. cmp (?xs ! j) x < 0" "\<forall>j < length ?xs. k \<le> j \<longrightarrow> 0 < cmp (?xs ! j) x"
    by (auto simp: search_found_def)
  then show ?thesis
  proof cases
    case (1 k)
    have run: "sorted_remove mem cmp h ?v x = bindE (removeItemsAt mem h ?v k 1) (\<lambda>(h, v, r). Ret (h, v, int k))"
      using r(1) 1(2) by (simp add: sorted_remove_def indexOf_def split_def)
    have lt: "k + 1 < 2 ^ 64" using 1(1) len count_less(2) [OF vec_stateD(1) [OF st] vin] by simp
    have spec: "list_op dflt cmp (Op_remove i k 1) (items_of h vs) = ((items_of h vs)[i := filter (\<lambda>y. cmp y x \<noteq> 0) ?xs], Some (int k))" for dflt
      using set_add_found(2) [OF asc 1(1,3)] 1(1) i by (simp add: items_of_nth)
    show ?thesis unfolding run
      by (rule step_recode [OF step_remove [OF st i lt, where cmp = cmp and dflt = x, unfolded spec], where new_code = None]) simp_all
  next
    case (2 k)
    have "sorted_remove mem cmp h ?v x = Ret (h, ?v, NAME_NOT_FOUND)" using r(1) 2(2) by (simp add: sorted_remove_def indexOf_def)
    moreover have "(items_of h vs)[i := filter (\<lambda>y. cmp y x \<noteq> 0) ?xs] = items_of h vs"
      using set_add_order(2) [OF 2(1,3,4)] list_update_id [of "items_of h vs" i] i by (simp add: items_of_nth)
    ultimately show ?thesis using step_unchanged [OF st i] by (simp add: agrees_def)
  qed
qed

end

section \<open>The contract of a sorted vector\<close>

text \<open>
  What the steps say once memory suffices: the call returns, the vector holds the new items, and every other
  vector its old ones.
\<close>

lemma step_returns:
  assumes "step_result mem isz fits spec old (on_vec vs i m)" "fits" "all_memory mem"
  obtains h' v' r where "m = Ret (h', v', r)" "vec_state isz h' (vs[i := v'])" "agrees spec (items_of h' (vs[i := v'])) r"
  using assms by (cases m) (auto simp: step_result_def on_vec_def)

lemma not_too_big_less: "\<not> too_big isz n \<Longrightarrow> m \<le> n \<Longrightarrow> \<not> too_big isz m"
proof -
  assume "\<not> too_big isz n" "m \<le> n"
  moreover have "grown_size isz m \<le> grown_size isz n" if "m \<le> n"
    unfolding grown_size_def using that by (intro mult_le_mono1 max.mono order_refl add_le_mono div_le_mono)
  ultimately show ?thesis unfolding too_big_def by linarith
qed

section \<open>Keyed vectors as maps\<close>

abbreviation keyed :: "('k :: linorder \<times> 'v) list \<Rightarrow> bool" where
  "keyed xs \<equiv> ascending key_cmp xs"

lemma key_cmp_simps:
  "key_cmp p q < 0 \<longleftrightarrow> fst p < fst q" "0 < key_cmp p q \<longleftrightarrow> fst q < fst p" "key_cmp p q = 0 \<longleftrightarrow> fst p = fst q"
  by (auto simp: compare_type_def strictly_order_type_def key_less_eq)

lemma keyed_distinct: "keyed xs \<Longrightarrow> distinct (map fst xs)"
  by (induction xs) (auto simp: ascending_def key_cmp_simps)

lemma map_of_set_add:
  "map_of (set_add key_cmp (k, x) xs) = (map_of xs)(k \<mapsto> x)"
proof (rule ext)
  fix j
  have *: "map_of (filter (\<lambda>p. P (fst p)) xs) j = (if P j then map_of xs j else None)" for P :: "'a \<Rightarrow> bool"
    by (induction xs) auto
  show "map_of (set_add key_cmp (k, x) xs) j = ((map_of xs)(k \<mapsto> x)) j"
    using * [of "\<lambda>j. j < k"] * [of "\<lambda>j. k < j"]
    by (auto simp: set_add_def key_cmp_simps map_add_def split: option.splits)
qed

lemma map_of_remove: "map_of (filter (\<lambda>p. key_cmp p (k, x) \<noteq> 0) xs) = (map_of xs)(k := None)"
  by (induction xs) (auto simp: key_cmp_simps)

lemma map_of_found:
  assumes "keyed xs" "search_found key_cmp (k, x) xs r"
  shows "map_of xs k = (if fst r < 0 then None else Some (snd (xs ! nat (fst r))))" "0 \<le> fst r \<Longrightarrow> nat (fst r) < length xs"
proof -
  from assms(2) consider i where "i < length xs" "r = (int i, i)" "fst (xs ! i) = k"
    | i where "i \<le> length xs" "r = (NAME_NOT_FOUND, i)" "\<forall>j < i. fst (xs ! j) < k" "\<forall>j < length xs. i \<le> j \<longrightarrow> k < fst (xs ! j)"
    by (auto simp: search_found_def key_cmp_simps)
  then have "map_of xs k = (if fst r < 0 then None else Some (snd (xs ! nat (fst r)))) \<and> (0 \<le> fst r \<longrightarrow> nat (fst r) < length xs)"
  proof cases
    case (1 i)
    then have "map_of xs k = Some (snd (xs ! i))"
      using keyed_distinct [OF assms(1)] by (metis map_of_eq_Some_iff nth_mem prod.collapse)
    then show ?thesis using 1 by simp
  next
    case (2 i)
    have "fst p \<noteq> k" if "p \<in> set xs" for p
      using that 2(3,4) by (metis in_set_conv_nth linorder_le_less_linear order_less_irrefl)
    then have "map_of xs k = None" by (auto simp: map_of_eq_None_iff)
    then show ?thesis using 2 by simp
  qed
  then show "map_of xs k = (if fst r < 0 then None else Some (snd (xs ! nat (fst r))))" "0 \<le> fst r \<Longrightarrow> nat (fst r) < length xs"
    by simp_all
qed

theorem keyed_lookup:
  assumes st: "vec_state isz h vs" and v: "v \<in> set vs" and k: "keyed (vec_items h v)"
  shows "valueFor dv h v key = (case map_of (vec_items h v) key of None \<Rightarrow> AssertFail | Some x \<Rightarrow> Ret x)"
    "default_valueFor dv d h v key = Ret (case map_of (vec_items h v) key of None \<Rightarrow> d | Some x \<Rightarrow> x)"
proof -
  from key_order.indexOrderOf_found [OF st v k, of "(key, dv)"] obtain r where
    r: "indexOrderOf key_cmp h v (key, dv) = Ret r" "search_found key_cmp (key, dv) (vec_items h v) r" by blast
  have i: "indexOfKey dv h v key = Ret (fst r)" using r(1) by (simp add: indexOfKey_def indexOf_def split_def)
  note m = map_of_found [OF k r(2)]
  have at: "valueAt h v (nat (fst r)) = Ret (snd (vec_items h v ! nat (fst r)))" if "0 \<le> fst r"
    using item_at_items [OF st v, of "nat (fst r)"] m(2) [OF that] slots_items(2) [OF st v] by (simp add: valueAt_def)
  show "valueFor dv h v key = (case map_of (vec_items h v) key of None \<Rightarrow> AssertFail | Some x \<Rightarrow> Ret x)"
    using at by (cases "fst r < 0") (simp_all add: valueFor_def i m(1))
  show "default_valueFor dv d h v key = Ret (case map_of (vec_items h v) key of None \<Rightarrow> d | Some x \<Rightarrow> x)"
    using at by (cases "fst r < 0") (simp_all add: default_valueFor_def i m(1))
qed

end
