(* ===== verification/Vector_Props.thy ===== *)
theory Vector_Props
  imports Keyed_Vector
begin

text \<open>
  The contracts of the vectors, the sorted vectors and the keyed vectors, and the calls in which the code does not keep them.
\<close>

section \<open>Programs\<close>





section \<open>Buffers\<close>


section \<open>The effect of a call on one vector\<close>

definition effect :: "nat \<Rightarrow> 'a heap \<Rightarrow> vec list \<Rightarrow> nat \<Rightarrow> ('a list \<Rightarrow> int \<Rightarrow> bool) \<Rightarrow> ('a heap \<times> vec \<times> int) exec \<Rightarrow> bool" where
  "effect isz h vs i P res \<longleftrightarrow>
     (\<exists>h' v' r. res = Ret (h', v', r) \<and> vec_state isz h' (vs[i := v']) \<and> P (vec_items h' v') r \<and>
       (\<forall>j < length vs. j \<noteq> i \<longrightarrow> vec_items h' (vs ! j) = vec_items h (vs ! j)))"

lemma step_effect:
  assumes "step_result mem isz fits ((items_of h vs)[i := ys], c) old (on_vec vs i m)" "fits" "all_memory mem" "i < length vs"
    and "\<And>r. (\<forall>k. c = Some k \<longrightarrow> r = k) \<Longrightarrow> P ys r"
  shows "effect isz h vs i P m"
proof -
  obtain h' v' r where r: "m = Ret (h', v', r)" "vec_state isz h' (vs[i := v'])"
    "items_of h' (vs[i := v']) = (items_of h vs)[i := ys]" "\<forall>k. c = Some k \<longrightarrow> r = k"
    by (rule step_returns [OF assms(1-3)]) (simp add: agrees_def)
  have "vec_items h' v' = ys" "j < length vs \<Longrightarrow> j \<noteq> i \<Longrightarrow> vec_items h' (vs ! j) = vec_items h (vs ! j)" for j
    using arg_cong [OF r(3), of "\<lambda>l. l ! i"] arg_cong [OF r(3), of "\<lambda>l. l ! j"] assms(4) by (simp_all add: items_of_def)
  then show ?thesis using r(1,2,4) assms(5) by (auto simp: effect_def)
qed

lemma effect_bind:
  assumes "effect isz h vs i P m" "i < length vs"
    and "\<And>h' v' r. vec_state isz h' (vs[i := v']) \<Longrightarrow> P (vec_items h' v') r \<Longrightarrow> effect isz h' (vs[i := v']) i Q (k (h', v', r))"
  shows "effect isz h vs i Q (bindE m k)"
proof -
  from assms(1) obtain h' v' r where r: "m = Ret (h', v', r)" "vec_state isz h' (vs[i := v'])" "P (vec_items h' v') r"
    "\<forall>j < length vs. j \<noteq> i \<longrightarrow> vec_items h' (vs ! j) = vec_items h (vs ! j)" by (auto simp: effect_def)
  from assms(3) [OF r(2,3)] obtain h2 v2 r2 where r2: "k (h', v', r) = Ret (h2, v2, r2)" "vec_state isz h2 (vs[i := v2])" "Q (vec_items h2 v2) r2"
    "\<forall>j < length vs. j \<noteq> i \<longrightarrow> vec_items h2 (vs ! j) = vec_items h' (vs ! j)" by (auto simp: effect_def)
  then show ?thesis using r by (auto simp: effect_def)
qed

lemma effect_Ret: "vec_state isz h vs \<Longrightarrow> i < length vs \<Longrightarrow> P (vec_items h (vs ! i)) r \<Longrightarrow> effect isz h vs i P (Ret (h, vs ! i, r))"
  by (simp add: effect_def)

context vec_order
begin

lemma sort_effect:
  assumes st: "vec_state isz h vs" "i < length vs" "all_memory mem"
  shows "effect isz h vs i (\<lambda>ys r. r = 0 \<and> mset ys = mset (vec_items h (vs ! i)) \<and> sorted_wrt (\<lambda>a b. cmp a b \<le> 0) ys \<and>
      (\<forall>z. filter (\<lambda>y. cmp y z = 0) ys = filter (\<lambda>y. cmp y z = 0) (vec_items h (vs ! i)))) (vec_sort mem h (vs ! i) cmp)"
  by (rule step_effect [OF step_sort [OF st(1,2), unfolded list_op.simps] _ st(3,2)])
    (simp_all add: items_of_nth st mset_stable_sort stable_sort_sorted stable_sort_stable)

lemma add_effect:
  assumes st: "vec_state isz h vs" "i < length vs" "all_memory mem" and asc: "ascending cmp (vec_items h (vs ! i))"
    and fits: "\<not> too_big isz (mCount (vs ! i) + 1)"
  shows "effect isz h vs i (\<lambda>ys r. 0 \<le> r \<and> ys = set_add cmp x (vec_items h (vs ! i)) \<and> ascending cmp ys)
    (sorted_add mem dflt cmp h (vs ! i) x)"
  by (rule step_effect [OF sorted_add_step [OF st(1,2) asc] fits st(3,2)]) (simp add: ascending_set_add asc)

lemma remove_effect:
  assumes st: "vec_state isz h vs" "i < length vs" "all_memory mem" and asc: "ascending cmp (vec_items h (vs ! i))"
  shows "effect isz h vs i (\<lambda>ys r. ys = filter (\<lambda>y. cmp y x \<noteq> 0) (vec_items h (vs ! i)) \<and> ascending cmp ys)
    (sorted_remove mem cmp h (vs ! i) x)"
  by (rule step_effect [OF sorted_remove_step [OF st(1,2) asc] _ st(3,2)]) (simp_all add: ascending_filter asc)

lemma length_set_add: "length (set_add cmp x xs) \<le> length xs + 1"
proof -
  have "length (filter (\<lambda>y. cmp y x < 0) xs) + length (filter (\<lambda>y. 0 < cmp y x) xs) \<le> length xs"
    by (induction xs) auto
  then show ?thesis by (simp add: set_add_def)
qed

lemma merge_loop_effect:
  assumes "vec_state isz h vs" "i < length vs" "all_memory mem" "ascending cmp (vec_items h (vs ! i))"
    and "\<not> too_big isz (mCount (vs ! i) + length xs)"
  shows "effect isz h vs i (\<lambda>ys r. r = 0 \<and> ys = fold (set_add cmp) xs (vec_items h (vs ! i)) \<and> ascending cmp ys)
    (sorted_merge_loop mem dflt cmp h (vs ! i) xs)"
  using assms
proof (induction xs arbitrary: h vs)
  case Nil
  then show ?case by (simp add: effect_Ret)
next
  case (Cons x xs)
  have len: "length (vec_items h (vs ! i)) = mCount (vs ! i)" using slots_items(2) [OF Cons.prems(1), of "vs ! i"] Cons.prems(2) by simp
  have fits: "\<not> too_big isz (mCount (vs ! i) + 1)" by (rule not_too_big_less [OF Cons.prems(5)]) simp
  show ?case unfolding sorted_merge_loop.simps
  proof (rule effect_bind [OF add_effect [OF Cons.prems(1-4) fits] Cons.prems(2)])
    fix h' v' and r :: int
    assume s: "vec_state isz h' (vs[i := v'])" "0 \<le> r \<and> vec_items h' v' = set_add cmp x (vec_items h (vs ! i)) \<and> ascending cmp (vec_items h' v')"
    have "mCount v' \<le> mCount (vs ! i) + 1"
      using slots_items(2) [OF s(1), of v'] s(2) Cons.prems(2) length_set_add [of x "vec_items h (vs ! i)"] len by (simp add: set_update_memI)
    then have "\<not> too_big isz (mCount v' + length xs)" by (intro not_too_big_less [OF Cons.prems(5)]) simp
    then show "effect isz h' (vs[i := v']) i (\<lambda>ys r. r = 0 \<and> ys = fold (set_add cmp) (x # xs) (vec_items h (vs ! i)) \<and> ascending cmp ys)
        (case (h', v', r) of (h, v, err) \<Rightarrow> if err < 0 then Ret (h, v, err) else sorted_merge_loop mem dflt cmp h v xs)"
      using Cons.IH [OF s(1)] s(2) Cons.prems(2,3) ascending_set_add [OF Cons.prems(4), of x] by simp
  qed
qed

lemma merge_effect:
  assumes st: "vec_state isz h vs" "i < length vs" "all_memory mem" and asc: "ascending cmp (vec_items h (vs ! i))" and j: "j < length vs"
    and fits: "\<not> too_big isz (mCount (vs ! i) + mCount (vs ! j))"
  shows "effect isz h vs i (\<lambda>ys r. r = 0 \<and> ys = fold (set_add cmp) (vec_items h (vs ! j)) (vec_items h (vs ! i)) \<and> ascending cmp ys)
    (sorted_merge mem dflt cmp h (vs ! i) (vs ! j))"
proof (cases "mCount (vs ! j) = 0")
  case True
  then have "vec_items h (vs ! j) = []" using slots_items(2) [OF st(1), of "vs ! j"] j by simp
  then show ?thesis using True st asc by (simp add: sorted_merge_def effect_Ret)
next
  case False
  let ?w = "vs ! j"
  have win: "?w \<in> set vs" using j by simp
  have ok: "heap_ok isz h vs" using vec_stateD [OF st(1)] by simp
  obtain a where a: "mStorage ?w = Some a" using heap_okD(2) [OF ok win] False by (auto simp: vec_ok_def split: option.splits)
  obtain b where b: "bufs h a = Some b" "mCount ?w \<le> length (sb_slots b)" "slots_of h ?w = take (mCount ?w) (sb_slots b)"
    by (rule vec_buffer [OF ok win a])
  have "None \<notin> set (slots_of h ?w)" "map the (slots_of h ?w) = vec_items h ?w" using st(1) win by (auto simp: vec_items_def vec_state_def)
  then have "sorted_merge mem dflt cmp h (vs ! i) ?w = sorted_merge_loop mem dflt cmp h (vs ! i) (vec_items h ?w)"
    using False a b by (simp add: sorted_merge_def mem_read_def)
  then show ?thesis using merge_loop_effect [OF st asc] fits slots_items(2) [OF st(1) win] by simp
qed

end

section \<open>Keyed vectors\<close>

lemma effect_mono: "effect isz h vs i P m \<Longrightarrow> (\<And>ys r. P ys r \<Longrightarrow> Q ys r) \<Longrightarrow> effect isz h vs i Q m"
  unfolding effect_def by blast

text \<open>Assigning a value keeps the key.\<close>

lemma assign_value_eq:
  assumes st: "vec_state isz h vs" and i: "i < length vs" and k: "k < mCount (vs ! i)"
  shows "assign_value mem h (vs ! i) k x =
    bindE (replaceAt mem dflt h (vs ! i) (Some (fst (vec_items h (vs ! i) ! k), x)) k) (\<lambda>(h, v, _). Ret (h, v))"
proof -
  let ?v = "vs ! i"
  have vin: "?v \<in> set vs" using i by simp
  have ok: "heap_ok isz h vs" using vec_stateD [OF st] by simp
  obtain a where a: "mStorage ?v = Some a" using heap_okD(2) [OF ok vin] k by (auto simp: vec_ok_def split: option.splits)
  obtain b where b: "bufs h a = Some b" "mCount ?v \<le> length (sb_slots b)" by (rule vec_buffer [OF ok vin a])
  have cap: "vec_capacity h ?v = Ret (length (sb_slots b))" by (rule vec_capacity_eq [OF ok vin a b(1)])
  show ?thesis
  proof (rule edit_cases [OF ok i, of mem])
    assume "editArrayImpl mem h ?v = AssertFail"
    then show ?thesis using k cap b by (simp add: assign_value_def replaceAt_def editItemLocation_def)
  next
    fix h1 v1 assume e: "editArrayImpl mem h ?v = Ret (h1, v1)" "owns isz h vs i h1 v1"
      "slots_of h1 v1 = slots_of h ?v" "mCount v1 = mCount ?v" "mCount ?v \<noteq> 0 \<Longrightarrow> mStorage v1 \<noteq> None"
    then have st1: "vec_state isz h1 (vs[i := v1])" using becomes_same [OF st i] by (simp add: owns_def becomes_def)
    have "vec_items h1 v1 = vec_items h ?v" using e(3) by (simp add: vec_items_def)
    then have "item_at h1 v1 k = Ret (vec_items h ?v ! k)" using item_at_items [OF st1, of v1 k] i k e(4) by (simp add: set_update_memI)
    then show ?thesis using e(1,5) k cap b(2) by (auto simp: assign_value_def replaceAt_def editItemLocation_def bindE_assoc)
  qed
qed

lemma keyed_effects:
  assumes st: "vec_state isz h vs" "i < length vs" "\<forall>n. can_malloc mem n" and keyed: "keyed (vec_items h (vs ! i))"
    and fits: "\<not> too_big isz (mCount (vs ! i) + 1)"
  shows "effect isz h vs i (\<lambda>ys r. 0 \<le> r \<and> keyed ys \<and> map_of ys = (map_of (vec_items h (vs ! i)))(k \<mapsto> x)) (keyed_add dflt mem h (vs ! i) k x)"
    "effect isz h vs i (\<lambda>ys r. keyed ys \<and> map_of ys = (map_of (vec_items h (vs ! i)))(k := None)) (removeItem dv mem h (vs ! i) k)"
    "effect isz h vs i (\<lambda>ys r. 0 \<le> r \<and> keyed ys \<and> map_of ys = (map_of (vec_items h (vs ! i)))(k \<mapsto> x)) (replaceValueFor dflt mem h (vs ! i) k x)"
proof -
  let ?xs = "vec_items h (vs ! i)"
  show "effect isz h vs i (\<lambda>ys r. 0 \<le> r \<and> keyed ys \<and> map_of ys = (map_of ?xs)(k \<mapsto> x)) (keyed_add dflt mem h (vs ! i) k x)"
    unfolding keyed_add_def by (rule effect_mono [OF key_order.add_effect [OF st keyed fits]]) (simp add: map_of_set_add)
  show "effect isz h vs i (\<lambda>ys r. keyed ys \<and> map_of ys = (map_of ?xs)(k := None)) (removeItem dv mem h (vs ! i) k)"
    unfolding removeItem_def by (rule effect_mono [OF key_order.remove_effect [OF st keyed]]) (simp add: map_of_remove)
  show "effect isz h vs i (\<lambda>ys r. 0 \<le> r \<and> keyed ys \<and> map_of ys = (map_of ?xs)(k \<mapsto> x)) (replaceValueFor dflt mem h (vs ! i) k x)"
    unfolding replaceValueFor_def
  proof (rule effect_bind [OF key_order.remove_effect [OF st keyed] st(2)])
    fix h' v' and r :: int
    assume s: "vec_state isz h' (vs[i := v'])" "vec_items h' v' = filter (\<lambda>y. key_cmp y (k, x) \<noteq> 0) ?xs \<and> keyed (vec_items h' v')"
    have "mCount v' \<le> mCount (vs ! i)"
      using slots_items(2) [OF s(1), of v'] slots_items(2) [OF st(1), of "vs ! i"] s(2) st(2) length_filter_le [of _ ?xs]
      by (metis nth_mem set_update_memI)
    then have "\<not> too_big isz (mCount v' + 1)" by (intro not_too_big_less [OF fits]) simp
    then have "effect isz h' (vs[i := v']) i (\<lambda>ys r. 0 \<le> r \<and> ys = set_add key_cmp (k, x) (vec_items h' v') \<and> keyed ys)
        (sorted_add mem dflt key_cmp h' v' (k, x))"
      using key_order.add_effect [OF s(1), of i mem "(k, x)" dflt] conjunct2 [OF s(2)] st(2,3) by simp
    then show "effect isz h' (vs[i := v']) i (\<lambda>ys r. 0 \<le> r \<and> keyed ys \<and> map_of ys = (map_of ?xs)(k \<mapsto> x))
        (case (h', v', r) of (h, v, _) \<Rightarrow> sorted_add mem dflt key_cmp h v (k, x))"
      using s(2) by (auto simp: map_of_set_add map_of_remove elim!: effect_mono)
  qed
qed

lemma edit_effect:
  assumes st: "vec_state isz h vs" "i < length vs" "\<forall>n. can_malloc mem n" and keyed: "keyed (vec_items h (vs ! i))"
  shows "if k \<in> dom (map_of (vec_items h (vs ! i)))
    then effect isz h vs i (\<lambda>ys r. keyed ys \<and> map_of ys = (map_of (vec_items h (vs ! i)))(k \<mapsto> x)) (no_result (editValueFor dv mem h (vs ! i) k x))
    else editValueFor dv mem h (vs ! i) k x = AssertFail"
proof -
  let ?v = "vs ! i" and ?xs = "vec_items h (vs ! i)"
  have vin: "?v \<in> set vs" using st(2) by simp
  from key_order.indexOrderOf_found [OF st(1) vin keyed, of "(k, dv)"] obtain r where
    r: "indexOrderOf key_cmp h ?v (k, dv) = Ret r" "search_found key_cmp (k, dv) ?xs r" by blast
  have ix: "indexOfKey dv h ?v k = Ret (fst r)" using r(1) by (simp add: indexOfKey_def indexOf_def split_def)
  note m = map_of_found [OF keyed r(2)]
  show ?thesis
  proof (cases "fst r < 0")
    case True
    then show ?thesis using m(1) ix by (auto simp: editValueFor_def)
  next
    case False
    define j where "j = nat (fst r)"
    have j: "j < length ?xs" "j < mCount ?v" using False m(2) slots_items(2) [OF st(1) vin] by (simp_all add: j_def)
    have "map_of ?xs k = Some (snd (?xs ! j))" using m(1) False by (simp add: j_def)
    then have dom: "k \<in> dom (map_of ?xs)" by auto
    have fk: "fst (?xs ! j) = k" using r(2) False j by (auto simp: search_found_def key_cmp_simps j_def)
    have run: "no_result (editValueFor dv mem h ?v k x) = bindE (replaceAt mem (k, dv) h ?v (Some (k, x)) j) (\<lambda>(h, v, r). Ret (h, v, 0))"
      using False ix assign_value_eq [OF st(1,2) j(2), of mem x "(k, dv)"] fk
      by (simp add: editValueFor_def no_result_def bindE_assoc split_def j_def)
    have sa: "?xs[j := (k, x)] = set_add key_cmp (k, x) ?xs"
      using key_order.set_add_found(1) [OF keyed j(1), of "(k, x)"] fk by (simp add: key_cmp_simps)
    have "step_result mem isz True ((items_of h vs)[i := ?xs[j := (k, x)]], None) (items_of h vs)
        (on_vec vs i (bindE (replaceAt mem (k, dv) h ?v (Some (k, x)) j) (\<lambda>(h, v, r). Ret (h, v, 0))))"
      using j st(2) by (intro step_recode [OF step_replace [OF st(1,2), where cmp = key_cmp], where new_code = None]) (simp_all add: items_of_nth)
    then have "effect isz h vs i (\<lambda>ys r. keyed ys \<and> map_of ys = (map_of ?xs)(k \<mapsto> x)) (no_result (editValueFor dv mem h ?v k x))"
      unfolding run by (rule step_effect) (simp_all add: st sa map_of_set_add key_order.ascending_set_add [OF keyed])
    then show ?thesis using dom by simp
  qed
qed

section \<open>Contracts\<close>





text \<open>
  \<open>sort\<close> orders the items of a vector, keeps equal items in their order and loses none, and does not
  change the vectors that shared its buffer.
\<close>

theorem vector_sort_correct:
  assumes "vec_state isz h vs" "i < length vs" "\<forall>n. can_malloc mem n"
    and "\<forall>a b. 0 < cmp a b \<longleftrightarrow> cmp b a < 0" "\<forall>a b c. cmp a b \<le> 0 \<longrightarrow> cmp b c \<le> 0 \<longrightarrow> cmp a c \<le> 0"
  shows "\<exists>h' v'. vec_sort mem h (vs ! i) cmp = Ret (h', v', 0) \<and> mset (vec_items h' v') = mset (vec_items h (vs ! i)) \<and>
    sorted_wrt (\<lambda>a b. cmp a b \<le> 0) (vec_items h' v') \<and>
    (\<forall>z. filter (\<lambda>y. cmp y z = 0) (vec_items h' v') = filter (\<lambda>y. cmp y z = 0) (vec_items h (vs ! i))) \<and>
    (\<forall>j < length vs. j \<noteq> i \<longrightarrow> vec_items h' (vs ! j) = vec_items h (vs ! j))"
proof -
  have "vec_order cmp" using assms(4,5) by unfold_locales blast+
  from vec_order.sort_effect [OF this assms(1-3)] show ?thesis by (auto simp: effect_def)
qed

text \<open>
  A sorted vector is an ascending list without equal items.  Adding an item puts it in its place or replaces the
  item equal to it, removing takes the equal item out, and merging adds the items of the other
  vector one by one; each call keeps the order.
\<close>

theorem sorted_vector_correct:
  assumes "vec_state isz h vs" "i < length vs" "j < length vs" "\<forall>n. can_malloc mem n"
    and "\<forall>a b. 0 < cmp a b \<longleftrightarrow> cmp b a < 0" "\<forall>a b c. cmp a b \<le> 0 \<longrightarrow> cmp b c \<le> 0 \<longrightarrow> cmp a c \<le> 0"
    and "ascending cmp (vec_items h (vs ! i))" "\<not> too_big isz (mCount (vs ! i) + max 1 (mCount (vs ! j)))"
  shows "effect isz h vs i (\<lambda>ys r. 0 \<le> r \<and> ascending cmp ys \<and> ys = set_add cmp x (vec_items h (vs ! i)))
      (sorted_add mem dflt cmp h (vs ! i) x) \<and>
    effect isz h vs i (\<lambda>ys r. ascending cmp ys \<and> ys = filter (\<lambda>y. cmp y x \<noteq> 0) (vec_items h (vs ! i)))
      (sorted_remove mem cmp h (vs ! i) x) \<and>
    effect isz h vs i (\<lambda>ys r. r = 0 \<and> ascending cmp ys \<and> ys = fold (set_add cmp) (vec_items h (vs ! j)) (vec_items h (vs ! i)))
      (sorted_merge mem dflt cmp h (vs ! i) (vs ! j))"
proof (intro conjI)
  have ord: "vec_order cmp" using assms(5,6) by unfold_locales blast+
  have fits: "\<not> too_big isz (mCount (vs ! i) + 1)" "\<not> too_big isz (mCount (vs ! i) + mCount (vs ! j))"
    by (rule not_too_big_less [OF assms(8)], simp)+
  have swap: "effect isz h vs i (\<lambda>ys r. A r \<and> B ys \<and> C ys) res \<Longrightarrow> effect isz h vs i (\<lambda>ys r. A r \<and> C ys \<and> B ys) res"
    "effect isz h vs i (\<lambda>ys r. B ys \<and> C ys) res \<Longrightarrow> effect isz h vs i (\<lambda>ys r. C ys \<and> B ys) res" for A B C res
    by (auto simp: effect_def)
  show "effect isz h vs i (\<lambda>ys r. 0 \<le> r \<and> ascending cmp ys \<and> ys = set_add cmp x (vec_items h (vs ! i)))
      (sorted_add mem dflt cmp h (vs ! i) x)"
    by (rule swap(1)) (rule vec_order.add_effect [OF ord assms(1,2,4,7) fits(1)])
  show "effect isz h vs i (\<lambda>ys r. ascending cmp ys \<and> ys = filter (\<lambda>y. cmp y x \<noteq> 0) (vec_items h (vs ! i)))
      (sorted_remove mem cmp h (vs ! i) x)"
    by (rule swap(2)) (rule vec_order.remove_effect [OF ord assms(1,2,4,7)])
  show "effect isz h vs i (\<lambda>ys r. r = 0 \<and> ascending cmp ys \<and> ys = fold (set_add cmp) (vec_items h (vs ! j)) (vec_items h (vs ! i)))
      (sorted_merge mem dflt cmp h (vs ! i) (vs ! j))"
    by (rule swap(1)) (rule vec_order.merge_effect [OF ord assms(1,2,4,7,3) fits(2)])
qed

text \<open>
  C38.  A keyed vector is a finite map.  Looking a key up gives its value, or aborts (without a default) when there is none;
  \<open>add\<close>, \<open>replaceValueFor\<close>, \<open>removeItem\<close> and assigning through \<open>editValueFor\<close> change the map at the key, and
  no other vector.
\<close>

theorem keyed_vector_is_map:
  assumes "vec_state isz h vs" "i < length vs" "\<forall>n. can_malloc mem n" "keyed (vec_items h (vs ! i))"
    and "\<not> too_big isz (mCount (vs ! i) + 1)" and m: "m = map_of (vec_items h (vs ! i))"
  shows "valueFor dv h (vs ! i) k = (case m k of None \<Rightarrow> AssertFail | Some x \<Rightarrow> Ret x) \<and>
    default_valueFor dv d h (vs ! i) k = Ret (case m k of None \<Rightarrow> d | Some x \<Rightarrow> x) \<and>
    effect isz h vs i (\<lambda>ys r. 0 \<le> r \<and> keyed ys \<and> map_of ys = m(k \<mapsto> x)) (keyed_add dflt mem h (vs ! i) k x) \<and>
    effect isz h vs i (\<lambda>ys r. 0 \<le> r \<and> keyed ys \<and> map_of ys = m(k \<mapsto> x)) (replaceValueFor dflt mem h (vs ! i) k x) \<and>
    effect isz h vs i (\<lambda>ys r. keyed ys \<and> map_of ys = m(k := None)) (removeItem dv mem h (vs ! i) k) \<and>
    (if k \<in> dom m
     then effect isz h vs i (\<lambda>ys r. keyed ys \<and> map_of ys = m(k \<mapsto> x)) (no_result (editValueFor dv mem h (vs ! i) k x))
     else editValueFor dv mem h (vs ! i) k x = AssertFail)"
  unfolding m
  by (intro conjI keyed_lookup [OF assms(1) _ assms(4)] keyed_effects [OF assms(1-5)] edit_effect [OF assms(1-4)] nth_mem assms(2))

section \<open>Where the code does not keep the contract\<close>

text \<open>The check of \<open>removeItemsAt\<close> wraps around: an index far outside passes it, and the array is written there.\<close>

lemma remove_wraps_around:
  assumes "mStorage v = Some a" "bufs h a = Some b" "onlyOwner b" "mCount v = 1" "length (sb_slots b) < 2 ^ 64 - 1"
    "vec_capacity h v = Ret 1"
  shows "removeItemsAt mem h v (2 ^ 64 - 1) 1 = Fault"
proof -
  have "add64 (2 ^ 64 - 1) 1 = 0" "sub64 0 (2 ^ 64 - 1) = 1" by (simp_all add: add64_def sub64_def)
  then show ?thesis using assms
    by (simp add: removeItemsAt_def vec_shrink_def Let_def editArrayImpl_def sb_attemptEdit_def do_move_def memmove_def mem_read_def mem_write_def)
qed

text \<open>Merging a sorted vector into a vector that was never filled compares with an item that does not exist.\<close>

lemma merge_into_empty_faults:
  assumes "vec_state isz h vs" "w \<in> set vs" "mCount w \<noteq> 0" "mStorage v = None"
  shows "sorted_merge_sorted mem dflt cmp h v w = Fault"
  using item_at_items [OF assms(1,2), of "mCount w - 1"] assms(3,4) by (simp add: sorted_merge_sorted_def item_at_def)

text \<open>Merging a sorted vector whose last item equals the first one keeps both: the result is not ascending.\<close>

lemma merge_keeps_equal_items:
  assumes st: "vec_state isz h vs" and ij: "i < length vs" "j < length vs" "i \<noteq> j" and mem: "all_memory mem"
    and ne: "vec_items h (vs ! i) = x # xs" "vec_items h (vs ! j) = ys @ [y]" and eq: "cmp y x = 0"
    and fits: "\<not> too_big isz (mCount (vs ! i) + mCount (vs ! j))"
  shows "effect isz h vs i (\<lambda>zs r. zs = ys @ y # x # xs \<and> \<not> ascending cmp zs) (sorted_merge_sorted mem dflt cmp h (vs ! i) (vs ! j))"
proof -
  have vin: "vs ! i \<in> set vs" "vs ! j \<in> set vs" using ij by simp_all
  have len: "mCount (vs ! i) = Suc (length xs)" "mCount (vs ! j) = Suc (length ys)"
    using slots_items(2) [OF st vin(1)] slots_items(2) [OF st vin(2)] ne by simp_all
  have "item_at h (vs ! j) (mCount (vs ! j) - 1) = Ret y" "item_at h (vs ! i) 0 = Ret x"
    using item_at_items [OF st vin(2), of "mCount (vs ! j) - 1"] item_at_items [OF st vin(1), of 0] ne len by (simp_all add: nth_append)
  then have run: "sorted_merge_sorted mem dflt cmp h (vs ! i) (vs ! j) = insertVectorAt mem h (vs ! i) (vs ! j) 0"
    using eq len by (simp add: sorted_merge_sorted_def)
  have "step_result mem isz True ((items_of h vs)[i := ys @ y # x # xs], Some 0) (items_of h vs) (on_vec vs i (insertVectorAt mem h (vs ! i) (vs ! j) 0))"
    using step_inserts(3) [OF st ij(1,2,3), of mem 0 dflt cmp] fits ne len ij by (simp add: items_of_nth insert_list_def)
  moreover have "\<not> ascending cmp (ys @ y # x # xs)" using eq by (simp add: ascending_def sorted_wrt_append)
  ultimately show ?thesis unfolding run by (intro step_effect [OF _ _ mem ij(1)]) simp_all
qed

section \<open>Instances\<close>

definition plenty :: vec_memory where
  "plenty = \<lparr>can_malloc = (\<lambda>n. True), can_realloc = (\<lambda>n. True)\<rparr>"


text \<open>Two vectors with one buffer that holds 3, 1 and 2, and an unused slot.\<close>

definition shared_heap :: "'a \<Rightarrow> 'a \<Rightarrow> 'a \<Rightarrow> 'a heap" where
  "shared_heap x y z =
     \<lparr>bufs = [0 \<mapsto> \<lparr>sb_refs = 2, sb_size = 16, sb_slots = [Some x, Some y, Some z, None]\<rparr>], next_buf = 1\<rparr>"

definition shared_vec :: vec where
  "shared_vec = \<lparr>mStorage = Some 0, mCount = 3, vec_flags = 7, mItemSize = 4\<rparr>"

lemma shared_count [simp]: "mCount shared_vec = 3"
  by (simp add: shared_vec_def)

lemma small_4: "small_items 4"
  by (simp add: small_items_def kMinVectorCapacity_def size_max_def sizeof_SharedBuffer_def)

lemma shared_vec_state: "vec_state 4 (shared_heap x y z) [shared_vec, shared_vec]"
  by (auto simp: vec_state_def heap_ok_def counted_def users_def buf_ok_def vec_ok_def small_4 shared_heap_def shared_vec_def
      slots_of_def size_max_def sizeof_SharedBuffer_def)

lemma shared_items: "vec_items (shared_heap x y z) shared_vec = [x, y, z]"
  by (simp add: vec_items_def slots_of_def shared_heap_def shared_vec_def)

lemma shared_fits: "n \<le> 100 \<Longrightarrow> \<not> too_big 4 n"
proof -
  have "\<not> too_big 4 100" by (simp add: too_big_def grown_size_def size_max_def sizeof_SharedBuffer_def kMinVectorCapacity_def)
  then show "n \<le> 100 \<Longrightarrow> \<not> too_big 4 n" by (rule not_too_big_less)
qed



theorem vector_sort_correct_witness:
  "\<exists>h' v'. vec_sort plenty (shared_heap 3 1 2) shared_vec (compare_type ((<) :: int \<Rightarrow> int \<Rightarrow> bool)) = Ret (h', v', 0) \<and>
    mset (vec_items h' v') = {#1, 2, 3#} \<and> vec_items h' shared_vec = [3, 1, 2]"
proof -
  have "\<forall>a b. 0 < compare_type ((<) :: int \<Rightarrow> int \<Rightarrow> bool) a b \<longleftrightarrow> compare_type (<) b a < 0"
    "\<forall>a b c. compare_type ((<) :: int \<Rightarrow> int \<Rightarrow> bool) a b \<le> 0 \<longrightarrow> compare_type (<) b c \<le> 0 \<longrightarrow> compare_type (<) a c \<le> 0"
    using less_order.cmp_flip less_order.cmp_trans by blast+
  from vector_sort_correct [OF shared_vec_state [of 3 1 2] _ _ this, where i = 0 and mem = plenty] show ?thesis
    by (auto simp: plenty_def shared_items dest!: spec [of _ "Suc 0"])
qed

theorem sorted_vector_correct_witness:
  "effect 4 (shared_heap 1 2 4) [shared_vec, shared_vec] 0 (\<lambda>ys r. ys = [1, 2, 3, 4])
    (sorted_add plenty 0 (compare_type (<)) (shared_heap 1 2 4) shared_vec (3 :: int))"
proof -
  have ord: "\<forall>a b. 0 < compare_type ((<) :: int \<Rightarrow> int \<Rightarrow> bool) a b \<longleftrightarrow> compare_type (<) b a < 0"
    "\<forall>a b c. compare_type ((<) :: int \<Rightarrow> int \<Rightarrow> bool) a b \<le> 0 \<longrightarrow> compare_type (<) b c \<le> 0 \<longrightarrow> compare_type (<) a c \<le> 0"
    using less_order.cmp_flip less_order.cmp_trans by blast+
  have "ascending (compare_type (<)) [1, 2, 4 :: int]" "set_add (compare_type (<)) 3 [1, 2, 4 :: int] = [1, 2, 3, 4]"
    by (simp_all add: ascending_def set_add_def compare_type_def strictly_order_type_def)
  with sorted_vector_correct [OF shared_vec_state [of 1 2 4] _ _ _ ord, where i = 0 and j = 1 and mem = plenty and x = 3 and dflt = 0] show ?thesis
    by (auto simp: plenty_def shared_items shared_fits elim!: effect_mono)
qed

theorem keyed_vector_is_map_witness:
  "valueFor 0 (shared_heap (1 :: int, 10 :: int) (2, 20) (4, 40)) shared_vec 2 = Ret 20 \<and>
   valueFor 0 (shared_heap (1 :: int, 10 :: int) (2, 20) (4, 40)) shared_vec 3 = AssertFail \<and>
   effect 4 (shared_heap (1 :: int, 10 :: int) (2, 20) (4, 40)) [shared_vec, shared_vec] 0 (\<lambda>ys r. map_of ys 3 = Some 30)
     (keyed_add (0, 0) plenty (shared_heap (1, 10) (2, 20) (4, 40)) shared_vec 3 30)"
proof -
  let ?h = "shared_heap (1 :: int, 10 :: int) (2, 20) (4, 40)"
  have "keyed [(1 :: int, 10 :: int), (2, 20), (4, 40)]" by (simp add: ascending_def key_cmp_simps)
  then have pre: "0 < length [shared_vec, shared_vec]" "\<forall>n. can_malloc plenty n" "keyed (vec_items ?h ([shared_vec, shared_vec] ! 0))"
    "\<not> too_big 4 (mCount ([shared_vec, shared_vec] ! 0) + 1)"
    by (simp_all add: plenty_def shared_items shared_fits)
  note two = keyed_vector_is_map [OF shared_vec_state pre refl, where dv = 0 and k = 2]
    and three = keyed_vector_is_map [OF shared_vec_state pre refl, where dv = 0 and k = 3 and x = 30 and dflt = "(0, 0)"]
  have "effect 4 ?h [shared_vec, shared_vec] 0 (\<lambda>ys r. map_of ys 3 = Some 30) (keyed_add (0, 0) plenty ?h shared_vec 3 30)"
    by (rule effect_mono [OF conjunct1 [OF conjunct2 [OF conjunct2 [OF three, simplified]]]]) simp
  then show ?thesis using conjunct1 [OF two] conjunct1 [OF three] by (simp add: shared_items)
qed

end
