(* ===== verification/Parameter_Adapter.thy ===== *)
theory Parameter_Adapter
  imports Camera_Object_Props Enum_Names "HOL-Library.Signed_Division"
begin

text \<open>
  The parameters of an application and their translation into metadata:
  \<open>icamera_adapter/Parameters.cpp\<close> and \<open>icamera_adapter/ParameterAdapter.cpp\<close>.  Both are clients of the
  packet and object operations.  The local variables whose addresses the code passes to \<open>update\<close>
  are at the addresses \<open>loc\<close>; signed arithmetic that leaves its type is undefined in C++ and a \<open>Fault\<close>.
  The setters and getters of \<open>Parameters\<close> that only return \<open>OK\<close> are left out: they change nothing.
\<close>

section \<open>Reading the values of an entry\<close>

abbreviation UNKNOWN_ERROR :: int where
  "UNKNOWN_ERROR \<equiv> - 2147483648"

text \<open>\<open>n\<close> bytes at an offset from the data pointer of an entry.\<close>

definition data_read :: "camera_metadata \<Rightarrow> camera_metadata_entry \<Rightarrow> nat \<Rightarrow> nat \<Rightarrow> u8 list exec" where
  "data_read m e off n =
     (case en_data e of
        In_data base \<Rightarrow> deref (mem_read (base + off) n (md_data m))
      | In_slot i \<Rightarrow> bindE (array_read (md_entries m) i) (\<lambda>b. deref (mem_read off n (le_bytes32 (be_data b)))))"

definition le_word64 :: "u8 list \<Rightarrow> u64" where
  "le_word64 bs = ucast (le_word32 (take 4 bs)) OR push_bit 32 (ucast (le_word32 (drop 4 bs)))"

definition le_bytes64 :: "u64 \<Rightarrow> u8 list" where
  "le_bytes64 w = le_bytes32 (ucast w) @ le_bytes32 (ucast (drop_bit 32 w))"

definition data_u8 :: "camera_metadata \<Rightarrow> camera_metadata_entry \<Rightarrow> nat \<Rightarrow> u8 exec" where
  "data_u8 m e i = bindE (data_read m e i 1) (\<lambda>bs. Ret (hd bs))"

definition data_i32 :: "camera_metadata \<Rightarrow> camera_metadata_entry \<Rightarrow> nat \<Rightarrow> int exec" where
  "data_i32 m e i = bindE (data_read m e (4 * i) 4) (\<lambda>bs. Ret (sint (le_word32 bs)))"

definition data_i64 :: "camera_metadata \<Rightarrow> camera_metadata_entry \<Rightarrow> nat \<Rightarrow> int exec" where
  "data_i64 m e i = bindE (data_read m e (8 * i) 8) (\<lambda>bs. Ret (sint (le_word64 bs)))"

text \<open>The bytes of a local variable.\<close>

abbreviation i32_bytes :: "int \<Rightarrow> u8 list" where
  "i32_bytes x \<equiv> le_bytes32 (word_of_int x)"

abbreviation i64_bytes :: "int \<Rightarrow> u8 list" where
  "i64_bytes x \<equiv> le_bytes64 (word_of_int x)"

section \<open>Conversion of the parameters\<close>

datatype camera_ae_mode_t = AE_MODE_AUTO | AE_MODE_MANUAL

datatype camera_antibanding_mode_t =
  ANTIBANDING_MODE_AUTO | ANTIBANDING_MODE_50HZ | ANTIBANDING_MODE_60HZ | ANTIBANDING_MODE_OFF

datatype camera_video_stabilization_mode_t = VIDEO_STABILIZATION_MODE_OFF | VIDEO_STABILIZATION_MODE_ON

text \<open>The step size as numerator and denominator; \<open>None\<close> when the first check of \<open>convertAeComp\<close> fails.\<close>

definition step_size :: "camera_metadata \<Rightarrow> (int \<times> int) option exec" where
  "step_size staticMetadata =
     bindE (find_camera_metadata_ro_entry (Some staticMetadata) ANDROID_CONTROL_AE_COMPENSATION_STEP True)
       (\<lambda>(ret, stepSizeEntry).
     if ret \<noteq> OK then Ret None
     else bindE (deref stepSizeEntry) (\<lambda>e.
       if en_count e \<noteq> 1 then Ret None
       else bindE (data_i32 staticMetadata e 1) (\<lambda>denominator.
         if denominator = 0 then Ret None
         else bindE (data_i32 staticMetadata e 0) (\<lambda>numerator.
           if numerator = 0 then Ret None else Ret (Some (numerator, denominator))))))"

definition convertAeComp ::
    "vendor_tag_ops option \<Rightarrow> allocator \<Rightarrow> u64 \<Rightarrow> int \<Rightarrow> CameraMetadata \<Rightarrow> camera_metadata \<Rightarrow>
     (int \<times> CameraMetadata) exec" where
  "convertAeComp vo malloc loc ev outputMetadata staticMetadata =
     bindE (step_size staticMetadata) (\<lambda>step.
     case step of
       None \<Rightarrow> Ret (UNKNOWN_ERROR, outputMetadata)
     | Some (numerator, denominator) \<Rightarrow>
         bindE (find_camera_metadata_ro_entry (Some staticMetadata) ANDROID_CONTROL_AE_COMPENSATION_RANGE True)
           (\<lambda>(ret, evRangeEntry).
         if ret \<noteq> OK then Ret (UNKNOWN_ERROR, outputMetadata)
         else bindE (deref evRangeEntry) (\<lambda>e.
           if en_count e \<noteq> 2 then Ret (UNKNOWN_ERROR, outputMetadata)
           else
             bindE (int32E (ev * denominator)) (\<lambda>product.
             bindE (int32E (product sdiv numerator)) (\<lambda>stepCount.
             bindE (data_i32 staticMetadata e 1) (\<lambda>upper.
             let stepCount = (if stepCount > upper then upper else stepCount) in
             bindE (data_i32 staticMetadata e 0) (\<lambda>lower.
             let stepCount = (if stepCount < lower then lower else stepCount) in
             update_int32 vo malloc outputMetadata ANDROID_CONTROL_AE_EXPOSURE_COMPENSATION
               (Some (loc, i32_bytes stepCount)) 1)))))))"

text \<open>The search over the pairs (min, max), from pair \<open>i\<close> on, with \<open>n\<close> left.\<close>

fun fps_loop :: "camera_metadata \<Rightarrow> camera_metadata_entry \<Rightarrow> int \<Rightarrow> nat \<Rightarrow> nat \<Rightarrow> int \<Rightarrow> int exec" where
  "fps_loop m e fps i 0 index = Ret index"
| "fps_loop m e fps i (Suc n) index =
     bindE (data_i32 m e (2 * i)) (\<lambda>lowFps.
     bindE (data_i32 m e (2 * i + 1)) (\<lambda>highFps.
     if fps = lowFps \<and> fps = highFps then Ret (2 * int i)
     else fps_loop m e fps (Suc i) n (if fps \<ge> lowFps \<and> fps \<le> highFps then 2 * int i else index)))"

definition convertFps ::
    "vendor_tag_ops option \<Rightarrow> allocator \<Rightarrow> u64 \<Rightarrow> int \<Rightarrow> CameraMetadata \<Rightarrow> camera_metadata \<Rightarrow>
     (int \<times> CameraMetadata) exec" where
  "convertFps vo malloc loc fps outputMetadata staticMetadata =
     bindE (find_camera_metadata_ro_entry (Some staticMetadata) ANDROID_CONTROL_AE_AVAILABLE_TARGET_FPS_RANGES True)
       (\<lambda>(ret, fpsRangesEntry).
     if ret \<noteq> OK then Ret (UNKNOWN_ERROR, outputMetadata)
     else bindE (deref fpsRangesEntry) (\<lambda>e.
       if en_count e mod 2 \<noteq> 0 \<or> en_count e < 2 then Ret (UNKNOWN_ERROR, outputMetadata)
       else
         bindE (fps_loop staticMetadata e fps 0 (unat (en_count e div 2)) (- 1)) (\<lambda>index.
         let index = nat (if index = - 1 then 0 else index) in
         bindE (data_i32 staticMetadata e index) (\<lambda>low.
         bindE (data_i32 staticMetadata e (index + 1)) (\<lambda>high.
         update_int32 vo malloc outputMetadata ANDROID_CONTROL_AE_TARGET_FPS_RANGE
           (Some (loc, i32_bytes low @ i32_bytes high)) 2)))))"

text \<open>The loop that looks for a supported mode.\<close>

fun mode_loop :: "camera_metadata \<Rightarrow> camera_metadata_entry \<Rightarrow> u8 \<Rightarrow> nat \<Rightarrow> nat \<Rightarrow> bool exec" where
  "mode_loop m e x i 0 = Ret False"
| "mode_loop m e x i (Suc n) = bindE (data_u8 m e i) (\<lambda>v. if v = x then Ret True else mode_loop m e x (Suc i) n)"

definition convertDvs ::
    "vendor_tag_ops option \<Rightarrow> allocator \<Rightarrow> u64 \<Rightarrow> camera_video_stabilization_mode_t \<Rightarrow> CameraMetadata \<Rightarrow>
     camera_metadata \<Rightarrow> (int \<times> CameraMetadata) exec" where
  "convertDvs vo malloc loc mode outputMetadata staticMetadata =
     bindE (find_camera_metadata_ro_entry (Some staticMetadata)
              ANDROID_CONTROL_AVAILABLE_VIDEO_STABILIZATION_MODES True) (\<lambda>(ret, dvsModes).
     if ret \<noteq> OK then Ret (UNKNOWN_ERROR, outputMetadata)
     else bindE (deref dvsModes) (\<lambda>e.
       bindE (mode_loop staticMetadata e (ucast ANDROID_CONTROL_VIDEO_STABILIZATION_MODE_ON) 0 (unat (en_count e)))
         (\<lambda>dvsSupported.
       let dvsMode = (if dvsSupported \<and> mode = VIDEO_STABILIZATION_MODE_ON
                      then ucast ANDROID_CONTROL_VIDEO_STABILIZATION_MODE_ON else 0 :: u8) in
       update_uint8 vo malloc outputMetadata ANDROID_CONTROL_VIDEO_STABILIZATION_MODE (Some (loc, [dvsMode])) 1)))"

definition convertAeMode ::
    "vendor_tag_ops option \<Rightarrow> allocator \<Rightarrow> u64 \<Rightarrow> camera_ae_mode_t \<Rightarrow> CameraMetadata \<Rightarrow> camera_metadata \<Rightarrow>
     (int \<times> CameraMetadata) exec" where
  "convertAeMode vo malloc loc mode outputMetadata staticMetadata =
     (let aeMode = (if mode = AE_MODE_MANUAL then ucast ANDROID_CONTROL_AE_MODE_OFF
                    else ucast ANDROID_CONTROL_AE_MODE_ON :: u8) in
      update_uint8 vo malloc outputMetadata ANDROID_CONTROL_AE_MODE (Some (loc, [aeMode])) 1)"

definition convertExposureTime ::
    "vendor_tag_ops option \<Rightarrow> allocator \<Rightarrow> u64 \<Rightarrow> int \<Rightarrow> CameraMetadata \<Rightarrow> camera_metadata \<Rightarrow>
     (int \<times> CameraMetadata) exec" where
  "convertExposureTime vo malloc loc exposureTime outputMetadata staticMetadata =
     bindE (find_camera_metadata_ro_entry (Some staticMetadata) ANDROID_SENSOR_INFO_EXPOSURE_TIME_RANGE True)
       (\<lambda>(ret, etRange).
     if ret \<noteq> OK then Ret (UNKNOWN_ERROR, outputMetadata)
     else bindE (deref etRange) (\<lambda>e.
       if en_count e \<noteq> 2 then Ret (NAME_NOT_FOUND, outputMetadata)
       else
         bindE (data_i64 staticMetadata e 0) (\<lambda>etMin.
         bindE (data_i64 staticMetadata e 1) (\<lambda>etMax.
         bindE (int64E (exposureTime * 1000)) (\<lambda>exposureTimeNs.
         let exposureTimeNs = (if exposureTimeNs < etMin then etMin
                               else if exposureTimeNs > etMax then etMax else exposureTimeNs) in
         update_int64 vo malloc outputMetadata ANDROID_SENSOR_EXPOSURE_TIME
           (Some (loc, i64_bytes exposureTimeNs)) 1)))))"

fun banding_mode :: "camera_antibanding_mode_t \<Rightarrow> u8" where
  "banding_mode ANTIBANDING_MODE_AUTO = ucast ANDROID_CONTROL_AE_ANTIBANDING_MODE_AUTO"
| "banding_mode ANTIBANDING_MODE_50HZ = ucast ANDROID_CONTROL_AE_ANTIBANDING_MODE_50HZ"
| "banding_mode ANTIBANDING_MODE_60HZ = ucast ANDROID_CONTROL_AE_ANTIBANDING_MODE_60HZ"
| "banding_mode ANTIBANDING_MODE_OFF = ucast ANDROID_CONTROL_AE_ANTIBANDING_MODE_OFF"

definition convertBandingMode ::
    "vendor_tag_ops option \<Rightarrow> allocator \<Rightarrow> u64 \<Rightarrow> camera_antibanding_mode_t \<Rightarrow> CameraMetadata \<Rightarrow>
     camera_metadata \<Rightarrow> (int \<times> CameraMetadata) exec" where
  "convertBandingMode vo malloc loc bandingMode outputMetadata staticMetadata =
     bindE (find_camera_metadata_ro_entry (Some staticMetadata) ANDROID_CONTROL_AE_AVAILABLE_ANTIBANDING_MODES True)
       (\<lambda>(ret, modes).
     if ret \<noteq> OK then Ret (UNKNOWN_ERROR, outputMetadata)
     else bindE (deref modes) (\<lambda>e.
       let androidMode = banding_mode bandingMode in
       bindE (mode_loop staticMetadata e androidMode 0 (unat (en_count e))) (\<lambda>modeSupported.
       let androidMode = (if \<not> modeSupported then ucast ANDROID_CONTROL_AE_ANTIBANDING_MODE_AUTO else androidMode) in
       update_uint8 vo malloc outputMetadata ANDROID_CONTROL_AE_ANTIBANDING_MODE (Some (loc, [androidMode])) 1)))"

section \<open>The class Parameters\<close>

text \<open>
  \<open>mMetadata\<close> points to an object of its own for the lifetime of the parameters.  A reference to other
  parameters is their value: the two objects are different.
\<close>

record Parameters =
  mMetadata :: CameraMetadata
  mEv :: int
  mFps :: int
  mDvsMode :: camera_video_stabilization_mode_t
  mAeMode :: camera_ae_mode_t
  mExposureTime :: int
  mBandingMode :: camera_antibanding_mode_t

definition Parameters_new :: Parameters where
  "Parameters_new = \<lparr>mMetadata = CameraMetadata_empty, mEv = 0, mFps = 30,
     mDvsMode = VIDEO_STABILIZATION_MODE_OFF, mAeMode = AE_MODE_AUTO, mExposureTime = 0,
     mBandingMode = ANTIBANDING_MODE_AUTO\<rparr>"

definition Parameters_copy :: "vendor_tag_ops option \<Rightarrow> allocator \<Rightarrow> Parameters \<Rightarrow> Parameters exec" where
  "Parameters_copy vo malloc other =
     bindE (CameraMetadata_copy vo malloc (mMetadata other)) (\<lambda>obj.
     Ret \<lparr>mMetadata = obj, mEv = mEv other, mFps = mFps other, mDvsMode = mDvsMode other,
          mAeMode = mAeMode other, mExposureTime = mExposureTime other, mBandingMode = mBandingMode other\<rparr>)"

definition Parameters_assign ::
    "vendor_tag_ops option \<Rightarrow> allocator \<Rightarrow> Parameters \<Rightarrow> Parameters \<Rightarrow> Parameters exec" where
  "Parameters_assign vo malloc p other =
     bindE (assign_object vo malloc (mMetadata p) (mMetadata other)) (\<lambda>obj.
     Ret \<lparr>mMetadata = obj, mEv = mEv other, mFps = mFps other, mDvsMode = mDvsMode other,
          mAeMode = mAeMode other, mExposureTime = mExposureTime other, mBandingMode = mBandingMode other\<rparr>)"

definition setAeMode :: "Parameters \<Rightarrow> camera_ae_mode_t \<Rightarrow> int \<times> Parameters" where
  "setAeMode p aeMode = (OK, p\<lparr>mAeMode := aeMode\<rparr>)"

definition getAeMode :: "Parameters \<Rightarrow> int \<times> camera_ae_mode_t" where
  "getAeMode p = (OK, mAeMode p)"

definition setExposureTime :: "Parameters \<Rightarrow> int \<Rightarrow> int \<times> Parameters" where
  "setExposureTime p exposureTime = (OK, p\<lparr>mExposureTime := exposureTime\<rparr>)"

definition getExposureTime :: "Parameters \<Rightarrow> int \<times> int" where
  "getExposureTime p = (OK, mExposureTime p)"

definition setAeCompensation :: "Parameters \<Rightarrow> int \<Rightarrow> int \<times> Parameters" where
  "setAeCompensation p ev = (OK, p\<lparr>mEv := ev\<rparr>)"

definition getAeCompensation :: "Parameters \<Rightarrow> int \<times> int" where
  "getAeCompensation p = (OK, mEv p)"

definition setFrameRate :: "Parameters \<Rightarrow> int \<Rightarrow> int \<times> Parameters" where
  "setFrameRate p fps = (OK, p\<lparr>mFps := fps\<rparr>)"

definition getFrameRate :: "Parameters \<Rightarrow> int \<times> int" where
  "getFrameRate p = (OK, mFps p)"

definition setAntiBandingMode :: "Parameters \<Rightarrow> camera_antibanding_mode_t \<Rightarrow> int \<times> Parameters" where
  "setAntiBandingMode p bandingMode = (OK, p\<lparr>mBandingMode := bandingMode\<rparr>)"

definition getAntiBandingMode :: "Parameters \<Rightarrow> int \<times> camera_antibanding_mode_t" where
  "getAntiBandingMode p = (OK, mBandingMode p)"

definition setVideoStabilizationMode ::
    "Parameters \<Rightarrow> camera_video_stabilization_mode_t \<Rightarrow> int \<times> Parameters" where
  "setVideoStabilizationMode p mode = (OK, p\<lparr>mDvsMode := mode\<rparr>)"

definition getVideoStabilizationMode :: "Parameters \<Rightarrow> int \<times> camera_video_stabilization_mode_t" where
  "getVideoStabilizationMode p = (OK, mDvsMode p)"

text \<open>
  The streams a camera offers.  The fields of \<open>stream_t\<close> that no operation reads stay zero and are left out.
\<close>

record stream_t =
  s_format :: int
  s_width :: int
  s_height :: int
  s_field :: int
  s_stride :: int
  s_size :: int
  s_memType :: int

definition STREAM_MEMBER_NUM :: nat where
  "STREAM_MEMBER_NUM = 4"

fun stream_loop :: "camera_metadata \<Rightarrow> camera_metadata_entry \<Rightarrow> nat \<Rightarrow> nat \<Rightarrow> stream_t list exec" where
  "stream_loop m e i 0 = Ret []"
| "stream_loop m e i (Suc n) =
     bindE (data_i32 m e i) (\<lambda>format.
     bindE (data_i32 m e (i + 1)) (\<lambda>width.
     bindE (data_i32 m e (i + 2)) (\<lambda>height.
     bindE (data_i32 m e (i + 3)) (\<lambda>field.
     bindE (int32E (width * height)) (\<lambda>pixels.
     bindE (int32E (pixels * 3)) (\<lambda>triple.
     bindE (stream_loop m e (i + STREAM_MEMBER_NUM) n) (\<lambda>config.
     Ret (\<lparr>s_format = format, s_width = width, s_height = height, s_field = field, s_stride = width,
           s_size = triple sdiv 2, s_memType = 0\<rparr> # config))))))))"

definition getSupportedStreamConfig :: "Parameters \<Rightarrow> (int \<times> stream_t list) exec" where
  "getSupportedStreamConfig p =
     bindE (find_ro (mMetadata p) ANDROID_SCALER_AVAILABLE_STREAM_CONFIGURATIONS) (\<lambda>found.
     case found of
       Entry_found e \<Rightarrow>
         if en_count e = 0 \<or> unat (en_count e) mod STREAM_MEMBER_NUM \<noteq> 0 then Ret (NAME_NOT_FOUND, [])
         else bindE (deref (mBuffer (mMetadata p))) (\<lambda>m.
           bindE (stream_loop m e 0 (unat (en_count e) div STREAM_MEMBER_NUM)) (\<lambda>config. Ret (OK, config)))
     | _ \<Rightarrow> Ret (NAME_NOT_FOUND, []))"

text \<open>Where the values of an entry are: in the data of the packet, or in the union at offset 8 of the slot.\<close>

definition data_addr :: "camera_metadata \<Rightarrow> camera_metadata_entry \<Rightarrow> u64" where
  "data_addr m e =
     (case en_data e of
        In_data base \<Rightarrow> get_data m + of_nat base
      | In_slot i \<Rightarrow> get_entries m + sizeof_buffer_entry * of_nat i + 8)"

definition merge_entry ::
    "vendor_tag_ops option \<Rightarrow> allocator \<Rightarrow> camera_metadata \<Rightarrow> camera_metadata_entry \<Rightarrow> CameraMetadata \<Rightarrow>
     CameraMetadata exec" where
  "merge_entry vo malloc src entry obj =
     bindE (entry_bytes src entry) (\<lambda>bytes.
     let data = Some (data_addr src entry, bytes);
         call = (\<lambda>update. bindE (update vo malloc obj (en_tag entry) data (en_count entry)) (\<lambda>(_, obj). Ret obj)) in
     if en_type entry = TYPE_BYTE then call update_uint8
     else if en_type entry = TYPE_INT32 then call update_int32
     else if en_type entry = TYPE_FLOAT then call update_float
     else if en_type entry = TYPE_INT64 then call update_int64
     else if en_type entry = TYPE_DOUBLE then call update_double
     else if en_type entry = TYPE_RATIONAL then call update_rational
     else Ret obj)"

fun merge_entries ::
    "vendor_tag_ops option \<Rightarrow> allocator \<Rightarrow> camera_metadata option \<Rightarrow> nat \<Rightarrow> nat \<Rightarrow> CameraMetadata \<Rightarrow>
     CameraMetadata exec" where
  "merge_entries vo malloc src i 0 obj = Ret obj"
| "merge_entries vo malloc src i (Suc n) obj =
     bindE (get_camera_metadata_ro_entry src (of_nat i) True) (\<lambda>(r, entry).
     if r \<noteq> OK then merge_entries vo malloc src (Suc i) n obj
     else bindE (deref entry) (\<lambda>entry. bindE (deref src) (\<lambda>s.
       bindE (merge_entry vo malloc s entry obj) (\<lambda>obj. merge_entries vo malloc src (Suc i) n obj))))"

text \<open>The result holds the parameters and the object they were merged from, which the call locks and unlocks.\<close>

definition Parameters_merge ::
    "vendor_tag_ops option \<Rightarrow> allocator \<Rightarrow> Parameters \<Rightarrow> CameraMetadata option \<Rightarrow>
     (Parameters \<times> CameraMetadata option) exec" where
  "Parameters_merge vo malloc p metadata =
     (case metadata of
        None \<Rightarrow> Ret (p, metadata)
      | Some other \<Rightarrow>
          bindE (isEmpty other) (\<lambda>empty.
          if empty then Ret (p, metadata)
          else case getAndLock other of (src, other) \<Rightarrow>
            bindE (entryCount other) (\<lambda>count.
            bindE (merge_entries vo malloc src 0 (unat count) (mMetadata p)) (\<lambda>obj.
            Ret (p\<lparr>mMetadata := obj\<rparr>, Some (snd (unlock other (buffer_addr src))))))))"

definition Parameters_merge_other ::
    "vendor_tag_ops option \<Rightarrow> allocator \<Rightarrow> Parameters \<Rightarrow> Parameters \<Rightarrow> (Parameters \<times> CameraMetadata option) exec" where
  "Parameters_merge_other vo malloc p other = Parameters_merge vo malloc p (Some (mMetadata other))"

end
