(* ===== verification/Parameter_Props.thy ===== *)
theory Parameter_Props
  imports Parameter_Adapter
begin

text \<open>
  What the conversion of the parameters writes.  A sequence of updates needs that the values of the
  caller stay outside the packet of the object and that the packet stays small, although every update
  may move the object to a larger packet: \<open>settings_ok\<close> says so, and every update keeps it.  The static
  metadata is seen as the map from tags to values; the converters then write clamped or selected values.
\<close>

section \<open>The block of a packet\<close>

definition same_block :: "camera_metadata \<Rightarrow> camera_metadata \<Rightarrow> bool" where
  "same_block m m' \<longleftrightarrow> md_addr m' = md_addr m \<and> md_size m' = md_size m \<and>
     md_entry_capacity m' = md_entry_capacity m \<and> md_data_capacity m' = md_data_capacity m"

named_theorems block_simps \<open>what keeps the block of a packet\<close>

lemma same_block_refl [block_simps]: "same_block m m"
  by (simp add: same_block_def)

lemma assert_valid_Ret: "assert_valid vo m x = Ret y \<Longrightarrow> y = x"
  by (simp add: assert_valid_def assertE_def bindE_Ret_iff split: if_splits)

lemma remove_data_block: "remove_data d off n = Ret d' \<Longrightarrow> same_block d d'"
  by (auto simp: remove_data_def bindE_Ret_iff same_block_def Let_def split: if_splits)

lemma same_block_trans: "same_block a b \<Longrightarrow> same_block b c \<Longrightarrow> same_block a c"
  by (simp add: same_block_def)

lemma add_block:
  assumes "add_camera_metadata_entry vo (Some m) tag data n = Ret (r, b)"
  shows "\<exists>m'. b = Some m' \<and> same_block m m'"
  using assms
  by (auto simp: add_camera_metadata_entry_def add_camera_metadata_entry_raw_def bindE_Ret_iff Let_def
      same_block_def split: if_splits option.splits dest!: assert_valid_Ret)

lemma update_entry_data_block: "update_entry_data d i bytes n a b = Ret d' \<Longrightarrow> same_block d d'"
  by (auto simp: update_entry_data_def bindE_Ret_iff Let_def same_block_def split: if_splits
      dest!: remove_data_block)

lemma update_entry_slot_block: "update_entry_slot d i bytes n a b = Ret d' \<Longrightarrow> same_block d d'"
  by (auto simp: update_entry_slot_def bindE_Ret_iff Let_def same_block_def split: if_splits)

lemma update_block:
  assumes "update_camera_metadata_entry vo (Some m) i data n w = Ret (r, b, e)"
  shows "\<exists>m'. b = Some m' \<and> same_block m m'"
  using assms
  by (auto simp: update_camera_metadata_entry_def bindE_Ret_iff Let_def block_simps split: if_splits
      dest!: assert_valid_Ret update_entry_data_block update_entry_slot_block intro: same_block_trans)

lemma append_block:
  assumes "append_camera_metadata vo (Some m) (Some src) = Ret (r, b)"
  shows "\<exists>m'. b = Some m' \<and> same_block m m'"
  using assms
  by (auto simp: append_camera_metadata_def bindE_Ret_iff Let_def same_block_def split: if_splits option.splits
      dest!: assert_valid_Ret)

text \<open>A fresh packet lies in the block of the allocator and has the requested capacities.\<close>

lemma allocate_block:
  assumes "allocate_camera_metadata vo malloc n d = Ret (Some m)"
  shows "\<exists>bs. malloc (calculate_camera_metadata_size n d) = Some (md_addr m, bs) \<and>
    md_size m = ucast (calculate_camera_metadata_size n d) \<and>
    md_entry_capacity m = ucast n \<and> md_data_capacity m = ucast d"
  using assms
  by (auto simp: allocate_camera_metadata_def place_camera_metadata_def bindE_Ret_iff Let_def
      split: if_splits option.splits dest!: assert_valid_Ret)

section \<open>A sequence of updates\<close>

text \<open>Blocks of the allocator do not hold the variable at \<open>loc\<close>.\<close>

definition clear_of :: "allocator \<Rightarrow> u64 \<Rightarrow> bool" where
  "clear_of malloc loc \<longleftrightarrow> (\<forall>sz a bs. malloc sz = Some (a, bs) \<longrightarrow> loc < a \<or> a + sz \<le> loc \<and> a \<noteq> loc)"

definition fits :: "nat \<Rightarrow> CameraMetadata \<Rightarrow> bool" where
  "fits k obj \<longleftrightarrow>
     (case mBuffer obj of
        None \<Rightarrow> 5 \<le> k
      | Some m \<Rightarrow> unat (md_entry_capacity m) + 2 \<le> 2 ^ k \<and> unat (md_data_capacity m) + 32 \<le> 2 ^ k)"

definition settings_ok :: "vendor_tag_ops option \<Rightarrow> (nat \<Rightarrow> u64) \<Rightarrow> nat \<Rightarrow> CameraMetadata \<Rightarrow> bool" where
  "settings_ok vo loc k obj \<longleftrightarrow> obj_ok vo obj \<and> \<not> mLocked obj \<and> (\<forall>i. outside obj (loc i)) \<and> fits k obj"

lemma unat_twice_le: "unat ((c + x) * 2 :: u64) \<le> 2 * (unat c + unat x)"
proof -
  have "unat ((c + x) * 2) = unat (c + x) * 2 mod 2 ^ 64" using unat_word_ariths(2) [of "c + x" 2] by simp
  then have "unat ((c + x) * 2) \<le> unat (c + x) * 2" by simp
  also have "\<dots> \<le> (unat c + unat x) * 2" by (intro mult_le_mono1) (simp add: unat_word_ariths)
  finally show ?thesis by (simp only: mult.commute)
qed

lemma unat_ucast_u32: "unat (ucast (w :: u32) :: u64) = unat w"
  by simp

lemma unat_ucast_le: "unat (ucast (w :: u64) :: u32) \<le> unat w"
  by (simp add: unsigned_ucast_eq take_bit_nat_less_eq_self)

lemma ucast_u32_inverse: "unat (w :: u64) < 2 ^ 32 \<Longrightarrow> ucast (ucast w :: u32) = w"
  by (simp add: word_unat_eq_iff unsigned_ucast_eq take_bit_nat_eq_self unsigned_take_bit_eq)

lemma packet_bytes_small: "n \<le> 2 ^ 27 \<Longrightarrow> d \<le> 2 ^ 27 \<Longrightarrow> packet_bytes n d < 2 ^ 32"
  by (simp add: packet_bytes_def round8_def)

lemma fits_small: "fits k obj \<Longrightarrow> k \<le> 26 \<Longrightarrow> fits 26 obj"
  using power_increasing [of k 26 "2 :: nat"] by (simp add: fits_def split: option.splits)

lemma grown_fits:
  assumes "fits 26 obj" "obj_ok vo obj" "y \<le> 16"
  shows "grown_bytes obj 1 y < 2 ^ 32"
proof (cases "mBuffer obj")
  case (Some m)
  with assms(2) have "packet_ok vo m" by (auto simp: obj_ok_def)
  from abs_counts(6,7) [OF this] Some assms(1,3)
  have "max (unat (md_entry_capacity m)) (2 * (length (items m) + 1)) \<le> 2 ^ 27"
    "max (unat (md_data_capacity m)) (2 * (unat (md_data_count m) + y)) \<le> 2 ^ 27"
    by (auto simp: fits_def)
  from packet_bytes_small [OF this] Some show ?thesis by (simp add: grown_bytes_def)
next
  case None
  moreover have "packet_bytes 2 (2 * y) < 2 ^ 32" using assms(3) by (intro packet_bytes_small) simp_all
  ultimately show ?thesis by (simp add: grown_bytes_def)
qed

text \<open>Growing leaves the packet where it was, or moves it to a block of the allocator.\<close>

lemma allocate_outside:
  assumes run: "allocate_camera_metadata vo malloc n d = Ret (Some m)"
    and le: "unat n \<le> 2 ^ 27" "unat d \<le> 2 ^ 27" and clear: "clear_of malloc a"
    and b: "mBuffer obj' = Some m'" "same_block m m'"
  shows "outside obj' a" "unat (md_entry_capacity m') \<le> unat n" "unat (md_data_capacity m') \<le> unat d"
proof -
  let ?sz = "calculate_camera_metadata_size n d"
  have "packet_bytes (unat n) (unat d) < 2 ^ 32" using le by (rule packet_bytes_small)
  then have "unat ?sz < 2 ^ 32" using calculate_size_eq [of n d] by simp
  then have "ucast (ucast ?sz :: u32) = ?sz"
    by (rule ucast_u32_inverse)
  moreover from allocate_block [OF run] obtain bs where "malloc ?sz = Some (md_addr m, bs)" "md_size m = ucast ?sz"
    "md_entry_capacity m = ucast n" "md_data_capacity m = ucast d" by auto
  ultimately show "outside obj' a" "unat (md_entry_capacity m') \<le> unat n" "unat (md_data_capacity m') \<le> unat d"
    using clear b by (auto simp: outside_def clear_of_def same_block_def unat_ucast_le)
qed

lemma resize_frame:
  assumes run: "resizeIfNeeded vo malloc obj 1 y = Ret (OK, obj')" and ok: "obj_ok vo obj"
    and f: "fits k obj" "k \<le> 26" and y: "unat y \<le> 16" and clear: "clear_of malloc a" and out: "outside obj a"
  shows "outside obj' a \<and> (\<exists>m. mBuffer obj' = Some m) \<and> fits (Suc k) obj'"
proof (cases "mBuffer obj")
  case None
  then obtain m where m: "allocate_camera_metadata vo malloc (1 * 2) (y * 2) = Ret (Some m)" "mBuffer obj' = Some m"
    using run by (auto simp: resizeIfNeeded_def bindE_Ret_iff split: if_splits)
  have "unat (y * 2) = unat y * 2" using y by (simp add: unat_word_ariths)
  then have le: "unat (1 * 2 :: u64) \<le> 2 ^ 27" "unat (y * 2) \<le> 2 ^ 27" "unat (y * 2) \<le> 32" using y by auto
  have "(2 :: nat) ^ 6 \<le> 2 ^ Suc k" using f(1) None by (intro power_increasing) (auto simp: fits_def)
  with allocate_outside [OF m(1) le(1,2) clear m(2) same_block_refl] le(3) m(2) show ?thesis
    by (auto simp: fits_def)
next
  case (Some m)
  with ok have pk: "packet_ok vo m" by (auto simp: obj_ok_def)
  note cm = abs_counts [OF pk]
  have k: "(2 :: nat) ^ k \<le> 2 ^ 26" using f(2) by (intro power_increasing) auto
  from f(1) Some have fm: "unat (md_entry_capacity m) + 2 \<le> 2 ^ k" "unat (md_data_capacity m) + 32 \<le> 2 ^ k"
    by (auto simp: fits_def)
  define E :: u64 where "E = (if ucast (md_entry_count m) + 1 > (ucast (md_entry_capacity m) :: u64)
    then (ucast (md_entry_count m) + 1) * 2 else ucast (md_entry_capacity m))"
  define D :: u64 where "D = (if ucast (md_data_count m) + y > (ucast (md_data_capacity m) :: u64)
    then (ucast (md_data_count m) + y) * 2 else ucast (md_data_capacity m))"
  have "unat E \<le> 2 * (unat (md_entry_count m) + 1) \<or> unat E = unat (md_entry_capacity m)"
    using unat_twice_le [of "ucast (md_entry_count m)" 1] unfolding unat_ucast_u32 unat_1
    by (cases "ucast (md_entry_count m) + 1 > (ucast (md_entry_capacity m) :: u64)")
      (simp_all only: E_def if_True if_False unat_ucast_u32 simp_thms)
  then have E: "unat E + 2 \<le> 2 ^ Suc k" using cm(2,6) fm(1) by auto
  have "unat D \<le> 2 * (unat (md_data_count m) + unat y) \<or> unat D = unat (md_data_capacity m)"
    using unat_twice_le [of "ucast (md_data_count m)" y] unfolding unat_ucast_u32
    by (cases "ucast (md_data_count m) + y > (ucast (md_data_capacity m) :: u64)")
      (simp_all only: D_def if_True if_False unat_ucast_u32 simp_thms)
  then have D: "unat D + 32 \<le> 2 ^ Suc k" using cm(7) fm(2) y by auto
  consider "obj' = obj" | b where "allocate_camera_metadata vo malloc E D = Ret (Some b)"
    "\<exists>r. append_camera_metadata vo (Some b) (Some m) = Ret (r, mBuffer obj')"
    using run Some by (auto simp: resizeIfNeeded_def E_def D_def get_camera_metadata_entry_count_def
        get_camera_metadata_entry_capacity_def get_camera_metadata_data_count_def
        get_camera_metadata_data_capacity_def Let_def bindE_Ret_iff split: if_splits)
  then show ?thesis
  proof cases
    case 1
    then show ?thesis using out Some fm by (auto simp: fits_def)
  next
    case 2
    from append_block 2(2) obtain m' where m': "mBuffer obj' = Some m'" "same_block b m'" by blast
    have "unat E \<le> 2 ^ 27" "unat D \<le> 2 ^ 27" using E D k by auto
    from allocate_outside [OF 2(1) this clear m'] E D m'(1) show ?thesis by (auto simp: fits_def)
  qed
qed

lemma updateImpl_frame:
  assumes run: "updateImpl vo malloc obj tag data n = Ret (OK, obj')" and unlocked: "\<not> mLocked obj"
    and type: "get_camera_metadata_tag_type vo tag = Ret (uint t)"
  shows "\<exists>obj1. resizeIfNeeded vo malloc obj 1 (calculate_camera_metadata_entry_data_size t n) = Ret (OK, obj1) \<and>
    (\<forall>m1. mBuffer obj1 = Some m1 \<longrightarrow> (\<exists>m'. mBuffer obj' = Some m' \<and> same_block m1 m'))"
  using run unlocked type
  by (fastforce simp: updateImpl_def bindE_Ret_iff Let_def uint_not_minus word_of_uint block_simps split: if_splits
      dest!: add_block update_block)

lemma outside_block: "outside obj a \<Longrightarrow> mBuffer obj = Some m \<Longrightarrow> mBuffer obj' = Some m' \<Longrightarrow> same_block m m' \<Longrightarrow> outside obj' a"
  by (simp add: outside_def same_block_def)

lemma fits_block: "fits k obj \<Longrightarrow> mBuffer obj = Some m \<Longrightarrow> mBuffer obj' = Some m' \<Longrightarrow> same_block m m' \<Longrightarrow> fits k obj'"
  by (simp add: fits_def same_block_def)

text \<open>One update of a small value, which the next one may follow.\<close>

lemma update_step:
  assumes ok: "settings_ok vo loc k obj" "k \<le> 26"
    and type: "get_camera_metadata_tag_type vo tag = Ret (uint t)" "t < NUM_TYPES" "drop_bit 16 tag < VENDOR_SECTION"
    and arr: "readable t n bytes" "n \<noteq> 0" "new_size t n \<le> 16"
    and mem: "ample malloc" "\<And>i. clear_of malloc (loc i)"
  shows "\<exists>obj'. update_typed t vo malloc obj tag (Some (loc i, bytes)) n = Ret (OK, obj') \<and>
    settings_ok vo loc (Suc k) obj' \<and> obj_map obj' = (obj_map obj)(tag \<mapsto> (t, value_of t n bytes))"
proof -
  have o: "obj_ok vo obj" "\<not> mLocked obj" "\<And>i. outside obj (loc i)" "fits k obj"
    using ok(1) by (simp_all add: settings_ok_def)
  have small: "grown_bytes obj 1 (new_size t n) < 2 ^ 32"
    by (rule grown_fits [OF fits_small [OF o(4) ok(2)] o(1) arr(3)])
  from updateImpl_correct [OF o(1,2) type arr(1,2) o(3) mem(1) small] obtain obj' where
    run: "updateImpl vo malloc obj tag (Some (loc i, bytes)) n = Ret (OK, obj')" and obj': "obj_ok vo obj'"
    "\<not> mLocked obj'" "obj_map obj' = (obj_map obj)(tag \<mapsto> (t, value_of t n bytes))" by blast
  from updateImpl_frame [OF run o(2) type(1)] obtain obj1 where
    r: "resizeIfNeeded vo malloc obj 1 (calculate_camera_metadata_entry_data_size t n) = Ret (OK, obj1)"
    and f: "\<And>m1. mBuffer obj1 = Some m1 \<Longrightarrow> \<exists>m'. mBuffer obj' = Some m' \<and> same_block m1 m'" by blast
  have y: "unat (calculate_camera_metadata_entry_data_size t n) \<le> 16" using arr(3) by (simp add: new_size_def)
  note fr = resize_frame [OF r o(1,4) ok(2) y mem(2) o(3)]
  from fr obtain m1 m' where "mBuffer obj1 = Some m1" "mBuffer obj' = Some m'" "same_block m1 m'" using f by blast
  then have "settings_ok vo loc (Suc k) obj'"
    using fr obj' outside_block fits_block unfolding settings_ok_def by metis
  moreover have "update_typed t vo malloc obj tag (Some (loc i, bytes)) n = Ret (OK, obj')"
    using run o(2) checkType_same [OF type(1)] by (simp add: update_typed_def)
  ultimately show ?thesis using obj'(3) by blast
qed

section \<open>Reading the static metadata\<close>

text \<open>The map from tags to values that a packet of the HAL holds.\<close>

definition static_ok :: "vendor_tag_ops option \<Rightarrow> camera_metadata \<Rightarrow> bool" where
  "static_ok vo st \<longleftrightarrow> good_packet vo st \<and> distinct (tags_of (items st))"

abbreviation chars :: "camera_metadata \<Rightarrow> u32 \<rightharpoonup> u8 \<times> u8 list" where
  "chars st \<equiv> map_of (items st)"

definition i32_at :: "u8 list \<Rightarrow> nat \<Rightarrow> int" where
  "i32_at v i = sint (le_word32 (take 4 (drop (4 * i) v)))"

definition i64_at :: "u8 list \<Rightarrow> nat \<Rightarrow> int" where
  "i64_at v i = sint (le_word64 (take 8 (drop (8 * i) v)))"

lemma mem_read_slice:
  assumes "mem_read base k mem = Some v" "off + n \<le> length v"
  shows "mem_read (base + off) n mem = Some (take n (drop off v))"
proof -
  have v: "v = take k (drop base mem)" and k: "base + k \<le> length mem" using assms(1) by (auto simp: mem_read_def split: if_splits)
  then have "length v = k" by simp
  with assms(2) have n: "n \<le> k - off" by simp
  have "drop off v = take (k - off) (drop (base + off) mem)" by (simp add: v drop_take add.commute)
  with n have "take n (drop off v) = take n (drop (base + off) mem)" by (simp add: min_absorb1)
  with k n \<open>length v = k\<close> assms(2) show ?thesis by (simp add: mem_read_def)
qed

lemma data_read_slice:
  assumes "entry_bytes m e = Ret v" "off + n \<le> length v"
  shows "data_read m e off n = Ret (take n (drop off v))"
proof (cases "en_data e")
  case (In_data base)
  then obtain k where "mem_read base k (md_data m) = Some v"
    using assms(1) by (auto simp: entry_bytes_def bindE_Ret_iff Let_def deref_def split: option.splits)
  from mem_read_slice [OF this assms(2)] In_data show ?thesis by (simp add: data_read_def)
next
  case (In_slot i)
  then obtain k b where b: "array_read (md_entries m) i = Ret b" "mem_read 0 k (le_bytes32 (be_data b)) = Some v"
    using assms(1) by (auto simp: entry_bytes_def bindE_Ret_iff Let_def deref_def split: option.splits)
  from mem_read_slice [OF b(2) assms(2)] b(1) In_slot show ?thesis by (simp add: data_read_def)
qed

text \<open>An entry that shows the value \<open>v\<close> of type \<open>t\<close>.\<close>

definition shows_value :: "camera_metadata \<Rightarrow> camera_metadata_entry \<Rightarrow> u8 \<Rightarrow> u8 list \<Rightarrow> bool" where
  "shows_value m e t v \<longleftrightarrow> entry_bytes m e = Ret v \<and> en_type e = t \<and> unat (en_count e) * tsize t = length v"

lemma view_count:
  assumes ok: "packet_ok vo m" and i: "i < length (items m)" "items m ! i = (tag, t, v)"
  shows "shows_value m (view_entry m i) t v"
proof -
  note okm = packet_okD [OF ok]
  have l: "live m ! i = md_entries m ! i" and il: "i < length (live m)"
    using in_live_nth [OF okm(1,2)] i by (simp_all add: length_items length_live [OF okm(1,2)])
  have e: "live m ! i \<in> set (live m)" using il by (rule nth_mem)
  have "unat (md_data_count m) \<le> length (md_data m)" using okm(1,2) by (simp add: layout_ok_def counts_ok_def)
  from length_payload [OF okm(4) [OF e] okm(5) [OF e] this]
  have "length (payload (md_data m) (live m ! i)) = unat (be_count (md_entries m ! i)) * tsize (be_type (md_entries m ! i))"
    by (simp add: eplen_def l)
  with found_entry [OF ok i(1)] i(2) show ?thesis by (simp add: shows_value_def view_entry_def Let_def)
qed

lemma found_value:
  assumes st: "static_ok vo st" and v: "chars st tag = Some (t, v)"
  shows "\<exists>e. find_camera_metadata_ro_entry (Some st) tag True = Ret (OK, Some e) \<and> shows_value st e t v"
proof -
  have good: "good_packet vo st" and d: "distinct (tags_of (items st))" using st by (simp_all add: static_ok_def)
  with find_in_packet [OF good d, of tag] v view_count [OF good_packet_ok [OF good]] show ?thesis
    by (auto simp: find_camera_metadata_ro_entry_def)
qed

lemma missing_value:
  assumes st: "static_ok vo st" and v: "chars st tag = None"
  shows "find_camera_metadata_ro_entry (Some st) tag True = Ret (NAME_NOT_FOUND, None)"
  using find_in_packet [of vo st tag] st v by (simp add: static_ok_def find_camera_metadata_ro_entry_def)

lemma data_i32_value: "shows_value st e t v \<Longrightarrow> 4 * i + 4 \<le> length v \<Longrightarrow> data_i32 st e i = Ret (i32_at v i)"
  using data_read_slice [of st e v "4 * i" 4] by (simp add: data_i32_def shows_value_def i32_at_def)

lemma data_i64_value: "shows_value st e t v \<Longrightarrow> 8 * i + 8 \<le> length v \<Longrightarrow> data_i64 st e i = Ret (i64_at v i)"
  using data_read_slice [of st e v "8 * i" 8] by (simp add: data_i64_def shows_value_def i64_at_def)

lemma data_u8_value: "shows_value st e t v \<Longrightarrow> i < length v \<Longrightarrow> data_u8 st e i = Ret (v ! i)"
  using data_read_slice [of st e v i 1] by (simp add: data_u8_def shows_value_def hd_drop_conv_nth)

lemma tsize_values [simp]:
  "tsize TYPE_BYTE = 1" "tsize TYPE_INT32 = 4" "tsize TYPE_INT64 = 8" "tsize TYPE_RATIONAL = 8"
  by (simp_all add: tsize_def type_size_eq entry_type_consts)

section \<open>What each conversion writes\<close>

text \<open>The types of the tags that the adapter uses, all of them tags of the framework.\<close>

lemma control_section:
  "snd (camera_metadata_section_bounds ! 1) = ANDROID_CONTROL_END"
  "tag_type (tag_info ! 1 ! 0) = TYPE_BYTE" "tag_type (tag_info ! 1 ! 1) = TYPE_INT32"
  "tag_type (tag_info ! 1 ! 3) = TYPE_BYTE" "tag_type (tag_info ! 1 ! 5) = TYPE_INT32"
  "tag_type (tag_info ! 1 ! 17) = TYPE_BYTE" "tag_type (tag_info ! 1 ! 18) = TYPE_BYTE"
  "tag_type (tag_info ! 1 ! 20) = TYPE_INT32" "tag_type (tag_info ! 1 ! 21) = TYPE_INT32"
  "tag_type (tag_info ! 1 ! 22) = TYPE_RATIONAL" "tag_type (tag_info ! 1 ! 26) = TYPE_BYTE"
  by (simp_all add: camera_metadata_section_bounds_def designated_in_order upt_26 tag_info_def tag_consts
      android_control_def upt_rec)

lemma other_sections:
  "snd (camera_metadata_section_bounds ! 12) = ANDROID_REQUEST_END"
  "snd (camera_metadata_section_bounds ! 13) = ANDROID_SCALER_END"
  "snd (camera_metadata_section_bounds ! 14) = ANDROID_SENSOR_END"
  "tag_type (tag_info ! 12 ! 1) = TYPE_INT32" "tag_type (tag_info ! 13 ! 10) = TYPE_INT32"
  "tag_type (tag_info ! 14 ! 0) = TYPE_INT64" "tag_type (tag_info ! 14 ! 16) = TYPE_INT64"
  "snd (camera_metadata_section_bounds ! 15) = ANDROID_SENSOR_INFO_END"
  "tag_type (tag_info ! 15 ! 3) = TYPE_INT64"
  by (simp_all add: camera_metadata_section_bounds_def designated_in_order upt_26 tag_info_def tag_consts
      android_request_def android_scaler_def android_sensor_def android_sensor_info_def upt_rec)

lemma framework_type:
  assumes "drop_bit 16 tag < VENDOR_SECTION" "declared tag"
  shows "get_camera_metadata_tag_type vo tag = Ret (uint (tag_type (tag_row tag)))"
  using assms by (simp add: get_camera_metadata_tag_type_eq not_le [symmetric] del: not_le split: bool.splits option.splits)

lemma written_sections:
  "drop_bit 16 ANDROID_CONTROL_AE_EXPOSURE_COMPENSATION < VENDOR_SECTION"
  "drop_bit 16 ANDROID_CONTROL_AE_TARGET_FPS_RANGE < VENDOR_SECTION"
  "drop_bit 16 ANDROID_CONTROL_VIDEO_STABILIZATION_MODE < VENDOR_SECTION"
  "drop_bit 16 ANDROID_CONTROL_AE_MODE < VENDOR_SECTION"
  "drop_bit 16 ANDROID_SENSOR_EXPOSURE_TIME < VENDOR_SECTION"
  "drop_bit 16 ANDROID_CONTROL_AE_ANTIBANDING_MODE < VENDOR_SECTION"
  "drop_bit 16 ANDROID_SCALER_AVAILABLE_STREAM_CONFIGURATIONS < VENDOR_SECTION"
  "drop_bit 16 ANDROID_REQUEST_ID < VENDOR_SECTION"
  by (simp_all add: tag_consts VENDOR_SECTION_def)

lemma written_types:
  "get_camera_metadata_tag_type vo ANDROID_CONTROL_AE_EXPOSURE_COMPENSATION = Ret (uint TYPE_INT32)"
  "get_camera_metadata_tag_type vo ANDROID_CONTROL_AE_TARGET_FPS_RANGE = Ret (uint TYPE_INT32)"
  "get_camera_metadata_tag_type vo ANDROID_CONTROL_VIDEO_STABILIZATION_MODE = Ret (uint TYPE_BYTE)"
  "get_camera_metadata_tag_type vo ANDROID_CONTROL_AE_MODE = Ret (uint TYPE_BYTE)"
  "get_camera_metadata_tag_type vo ANDROID_SENSOR_EXPOSURE_TIME = Ret (uint TYPE_INT64)"
  "get_camera_metadata_tag_type vo ANDROID_CONTROL_AE_ANTIBANDING_MODE = Ret (uint TYPE_BYTE)"
  "get_camera_metadata_tag_type vo ANDROID_SCALER_AVAILABLE_STREAM_CONFIGURATIONS = Ret (uint TYPE_INT32)"
  "get_camera_metadata_tag_type vo ANDROID_REQUEST_ID = Ret (uint TYPE_INT32)"
  by (subst framework_type; simp add: written_sections declared_def tag_row_def tag_consts
      control_section [unfolded One_nat_def] other_sections [unfolded One_nat_def] ANDROID_SECTION_COUNT_def word_le_nat_alt)+

lemma write_step:
  assumes ok: "settings_ok vo loc k obj" "k \<le> 26"
    and type: "get_camera_metadata_tag_type vo tag = Ret (uint t)" "t < NUM_TYPES" "drop_bit 16 tag < VENDOR_SECTION"
    and len: "length bytes = unat n * tsize t" "length bytes \<le> 16" "n \<noteq> 0"
    and mem: "ample malloc" "\<And>i. clear_of malloc (loc i)"
  shows "\<exists>obj'. update_typed t vo malloc obj tag (Some (loc i, bytes)) n = Ret (OK, obj') \<and>
    settings_ok vo loc (Suc k) obj' \<and> obj_map obj' = (obj_map obj)(tag \<mapsto> (t, bytes))"
proof -
  have r: "readable t n bytes" using len(1,2) by (simp add: readable_def)
  have "round8 x \<le> 16" if "x \<le> 16" for x using that div_le_mono [of "x + 7" 23 8] by (simp add: round8_def)
  then have "new_size t n \<le> 16" using readable_sizes(2) [OF r type(2)] len(1,2) by simp
  moreover have "value_of t n bytes = bytes" using len(1) by (simp add: value_of_def)
  ultimately show ?thesis using update_step [OF ok type r len(3) _ mem, where i = i] by simp
qed

lemma settings_ok_mono: "settings_ok vo loc k obj \<Longrightarrow> settings_ok vo loc (Suc k) obj"
  unfolding settings_ok_def fits_def by (auto split: option.splits)

text \<open>
  A conversion either fails with a code and leaves the object, or binds its tag to some bytes.
  \<open>converts\<close> states that a call did what \<open>spec\<close> says.
\<close>

definition status_of :: "int + u8 list \<Rightarrow> int" where
  "status_of spec = (case spec of Inl err \<Rightarrow> err | Inr _ \<Rightarrow> OK)"

definition bind_setting :: "u32 \<Rightarrow> u8 \<Rightarrow> int + u8 list \<Rightarrow> (u32 \<rightharpoonup> u8 \<times> u8 list) \<Rightarrow> (u32 \<rightharpoonup> u8 \<times> u8 list)" where
  "bind_setting tag t spec M = (case spec of Inl _ \<Rightarrow> M | Inr bytes \<Rightarrow> M(tag \<mapsto> (t, bytes)))"

definition converts ::
    "vendor_tag_ops option \<Rightarrow> (nat \<Rightarrow> u64) \<Rightarrow> nat \<Rightarrow> CameraMetadata \<Rightarrow> (int \<times> CameraMetadata) exec \<Rightarrow> u32 \<Rightarrow> u8 \<Rightarrow>
     int + u8 list \<Rightarrow> bool" where
  "converts vo loc k obj res tag t spec \<longleftrightarrow>
     (\<exists>obj'. res = Ret (status_of spec, obj') \<and> settings_ok vo loc (Suc k) obj' \<and>
        obj_map obj' = bind_setting tag t spec (obj_map obj))"

lemma converts_error: "settings_ok vo loc k obj \<Longrightarrow> converts vo loc k obj (Ret (err, obj)) tag t (Inl err)"
  by (simp add: converts_def status_of_def bind_setting_def settings_ok_mono)

lemma converts_update:
  assumes "settings_ok vo loc k obj" "k \<le> 26"
    and "get_camera_metadata_tag_type vo tag = Ret (uint t)" "t < NUM_TYPES" "drop_bit 16 tag < VENDOR_SECTION"
    and "length bytes = unat n * tsize t" "length bytes \<le> 16" "n \<noteq> 0"
    and "ample malloc" "\<And>i. clear_of malloc (loc i)"
  shows "converts vo loc k obj (update_typed t vo malloc obj tag (Some (loc i, bytes)) n) tag t (Inr bytes)"
  using write_step [OF assms, of i] by (simp add: converts_def status_of_def bind_setting_def)

text \<open>The specification of each conversion, over the map of the static metadata.\<close>

definition ae_comp_spec :: "(u32 \<rightharpoonup> u8 \<times> u8 list) \<Rightarrow> int \<Rightarrow> int + u8 list" where
  "ae_comp_spec c ev =
     (case (c ANDROID_CONTROL_AE_COMPENSATION_STEP, c ANDROID_CONTROL_AE_COMPENSATION_RANGE) of
        (Some (_, step), Some (_, rng)) \<Rightarrow>
          if length step = 8 \<and> i32_at step 1 \<noteq> 0 \<and> i32_at step 0 \<noteq> 0 \<and> length rng = 8
          then Inr (i32_bytes (max (i32_at rng 0)
                 (min (i32_at rng 1) ((ev * i32_at step 1) sdiv i32_at step 0))))
          else Inl UNKNOWN_ERROR
      | _ \<Rightarrow> Inl UNKNOWN_ERROR)"

definition fps_pairs :: "u8 list \<Rightarrow> (int \<times> int) list" where
  "fps_pairs v = map (\<lambda>i. (i32_at v (2 * i), i32_at v (2 * i + 1))) [0..<length v div 8]"

definition fps_pick :: "(int \<times> int) list \<Rightarrow> int \<Rightarrow> int \<times> int" where
  "fps_pick ranges fps =
     (let fitting = filter (\<lambda>(low, high). low \<le> fps \<and> fps \<le> high) ranges in
      if (fps, fps) \<in> set ranges then (fps, fps)
      else if fitting = [] then hd ranges else last fitting)"

definition fps_spec :: "(u32 \<rightharpoonup> u8 \<times> u8 list) \<Rightarrow> int \<Rightarrow> int + u8 list" where
  "fps_spec c fps =
     (case c ANDROID_CONTROL_AE_AVAILABLE_TARGET_FPS_RANGES of
        Some (_, v) \<Rightarrow>
          if 8 dvd length v \<and> v \<noteq> [] then case fps_pick (fps_pairs v) fps of (low, high) \<Rightarrow> Inr (i32_bytes low @ i32_bytes high)
          else Inl UNKNOWN_ERROR
      | None \<Rightarrow> Inl UNKNOWN_ERROR)"

definition dvs_spec :: "(u32 \<rightharpoonup> u8 \<times> u8 list) \<Rightarrow> camera_video_stabilization_mode_t \<Rightarrow> int + u8 list" where
  "dvs_spec c mode =
     (case c ANDROID_CONTROL_AVAILABLE_VIDEO_STABILIZATION_MODES of
        Some (_, v) \<Rightarrow> Inr [if 1 \<in> set v \<and> mode = VIDEO_STABILIZATION_MODE_ON then 1 else 0]
      | None \<Rightarrow> Inl UNKNOWN_ERROR)"

definition ae_mode_spec :: "camera_ae_mode_t \<Rightarrow> int + u8 list" where
  "ae_mode_spec mode = Inr [if mode = AE_MODE_MANUAL then 0 else 1]"

definition et_spec :: "(u32 \<rightharpoonup> u8 \<times> u8 list) \<Rightarrow> int \<Rightarrow> int + u8 list" where
  "et_spec c exposureTime =
     (case c ANDROID_SENSOR_INFO_EXPOSURE_TIME_RANGE of
        Some (_, v) \<Rightarrow>
          if length v = 16
          then Inr (i64_bytes (if exposureTime * 1000 < i64_at v 0 then i64_at v 0
                               else min (i64_at v 1) (exposureTime * 1000)))
          else Inl NAME_NOT_FOUND
      | None \<Rightarrow> Inl UNKNOWN_ERROR)"

definition banding_spec :: "(u32 \<rightharpoonup> u8 \<times> u8 list) \<Rightarrow> camera_antibanding_mode_t \<Rightarrow> int + u8 list" where
  "banding_spec c mode =
     (case c ANDROID_CONTROL_AE_AVAILABLE_ANTIBANDING_MODES of
        Some (_, v) \<Rightarrow> Inr [if banding_mode mode \<in> set v then banding_mode mode else 3]
      | None \<Rightarrow> Inl UNKNOWN_ERROR)"

lemma read_sections:
  "drop_bit 16 ANDROID_CONTROL_AE_COMPENSATION_STEP < VENDOR_SECTION"
  "drop_bit 16 ANDROID_CONTROL_AE_COMPENSATION_RANGE < VENDOR_SECTION"
  "drop_bit 16 ANDROID_CONTROL_AE_AVAILABLE_TARGET_FPS_RANGES < VENDOR_SECTION"
  "drop_bit 16 ANDROID_CONTROL_AVAILABLE_VIDEO_STABILIZATION_MODES < VENDOR_SECTION"
  "drop_bit 16 ANDROID_SENSOR_INFO_EXPOSURE_TIME_RANGE < VENDOR_SECTION"
  "drop_bit 16 ANDROID_CONTROL_AE_AVAILABLE_ANTIBANDING_MODES < VENDOR_SECTION"
  "drop_bit 16 ANDROID_SENSOR_TIMESTAMP < VENDOR_SECTION"
  by (simp_all add: tag_consts VENDOR_SECTION_def)

lemma read_types:
  "get_camera_metadata_tag_type vo ANDROID_CONTROL_AE_COMPENSATION_STEP = Ret (uint TYPE_RATIONAL)"
  "get_camera_metadata_tag_type vo ANDROID_CONTROL_AE_COMPENSATION_RANGE = Ret (uint TYPE_INT32)"
  "get_camera_metadata_tag_type vo ANDROID_CONTROL_AE_AVAILABLE_TARGET_FPS_RANGES = Ret (uint TYPE_INT32)"
  "get_camera_metadata_tag_type vo ANDROID_CONTROL_AVAILABLE_VIDEO_STABILIZATION_MODES = Ret (uint TYPE_BYTE)"
  "get_camera_metadata_tag_type vo ANDROID_SENSOR_INFO_EXPOSURE_TIME_RANGE = Ret (uint TYPE_INT64)"
  "get_camera_metadata_tag_type vo ANDROID_CONTROL_AE_AVAILABLE_ANTIBANDING_MODES = Ret (uint TYPE_BYTE)"
  "get_camera_metadata_tag_type vo ANDROID_SENSOR_TIMESTAMP = Ret (uint TYPE_INT64)"
  by (subst framework_type; simp add: read_sections declared_def tag_row_def tag_consts
      control_section [unfolded One_nat_def] other_sections [unfolded One_nat_def] ANDROID_SECTION_COUNT_def word_le_nat_alt)+

text \<open>A tag of the static metadata that has a type: what looking for it gives.\<close>

lemma static_lookup:
  assumes st: "static_ok vo st" and type: "get_camera_metadata_tag_type vo tag = Ret (uint T)" "drop_bit 16 tag < VENDOR_SECTION"
  obtains "chars st tag = None" "find_camera_metadata_ro_entry (Some st) tag True = Ret (NAME_NOT_FOUND, None)"
  | e v where "chars st tag = Some (T, v)" "find_camera_metadata_ro_entry (Some st) tag True = Ret (OK, Some e)"
      "shows_value st e T v"
proof (cases "chars st tag")
  case None
  with missing_value [OF st] that(1) show ?thesis by blast
next
  case (Some x)
  obtain t v where x: "x = (t, v)" by fastforce
  have good: "good_packet vo st" and d: "distinct (tags_of (items st))" using st by (simp_all add: static_ok_def)
  from find_in_packet [OF good d, of tag] Some x obtain i where i: "i < length (items st)" "items st ! i = (tag, t, v)"
    by auto
  have "t = T" by (rule stored_type [OF good_packet_ok [OF good] i type])
  with found_value [OF st, of tag t v] Some x that(2) show ?thesis by auto
qed

lemma entry_count_eq: "shows_value st e t v \<Longrightarrow> t < NUM_TYPES \<Longrightarrow> 0 < tsize t \<Longrightarrow> unat (en_count e) = length v div tsize t"
  unfolding shows_value_def by (metis less_not_refl nonzero_mult_div_cancel_right)

text \<open>The checks of the code on the number of values, as checks on the number of bytes.\<close>

lemma count_checks:
  "shows_value st e TYPE_RATIONAL v \<Longrightarrow> en_count e = 1 \<longleftrightarrow> length v = 8"
  "shows_value st e TYPE_INT32 v \<Longrightarrow> en_count e = 2 \<longleftrightarrow> length v = 8"
  "shows_value st e TYPE_INT64 v \<Longrightarrow> en_count e = 2 \<longleftrightarrow> length v = 16"
  by (auto simp: shows_value_def word_unat_eq_iff)

lemma types_below: "TYPE_BYTE < NUM_TYPES" "TYPE_INT32 < NUM_TYPES" "TYPE_INT64 < NUM_TYPES" "TYPE_RATIONAL < NUM_TYPES"
  by (simp_all add: entry_type_consts NUM_TYPES_def)

lemma clamp_eq:
  "(if (if h < x then h else x) < l then l else if h < x then h else x) = max l (min h (x :: int))"
  by (auto simp: max_def min_def)

lemma convertAeComp_correct:
  assumes st: "static_ok vo st" and ok: "settings_ok vo loc k obj" "k \<le> 26"
    and mem: "ample malloc" "\<And>i. clear_of malloc (loc i)"
    and no_overflow: "\<And>t step. chars st ANDROID_CONTROL_AE_COMPENSATION_STEP = Some (t, step) \<Longrightarrow>
      int32E (ev * i32_at step 1) = Ret (ev * i32_at step 1) \<and>
      int32E ((ev * i32_at step 1) sdiv i32_at step 0) = Ret ((ev * i32_at step 1) sdiv i32_at step 0)"
  shows "converts vo loc k obj (convertAeComp vo malloc (loc i) ev obj st)
    ANDROID_CONTROL_AE_EXPOSURE_COMPENSATION TYPE_INT32 (ae_comp_spec (chars st) ev)"
proof (cases rule: static_lookup [OF st read_types(1) read_sections(1)])
  case 1
  then show ?thesis
    by (simp add: convertAeComp_def step_size_def ae_comp_spec_def converts_error [OF ok(1)])
next
  case (2 e step)
  note step = this
  show ?thesis
  proof (cases rule: static_lookup [OF st read_types(2) read_sections(2)])
    case 1
    with step show ?thesis
      by (auto simp: convertAeComp_def step_size_def ae_comp_spec_def count_checks data_i32_value
          intro: converts_error [OF ok(1)])
  next
    case (2 e' rng)
    note set = converts_update [OF ok written_types(1) types_below(2) written_sections(1) _ _ _ mem, of _ 1 i]
    show ?thesis
    proof (cases "length step = 8 \<and> i32_at step 1 \<noteq> 0 \<and> i32_at step 0 \<noteq> 0 \<and> length rng = 8")
      case False
      with step 2 show ?thesis
        by (auto simp: convertAeComp_def step_size_def ae_comp_spec_def count_checks data_i32_value
            intro: converts_error [OF ok(1)])
    next
      case True
      define x where "x = (ev * i32_at step 1) sdiv i32_at step 0"
      have "convertAeComp vo malloc (loc i) ev obj st = update_typed TYPE_INT32 vo malloc obj
          ANDROID_CONTROL_AE_EXPOSURE_COMPENSATION (Some (loc i, i32_bytes (max (i32_at rng 0) (min (i32_at rng 1) x)))) 1"
        using step 2 True no_overflow [OF step(1)]
        by (simp add: convertAeComp_def step_size_def count_checks data_i32_value update_int32_def Let_def
            x_def clamp_eq)
      with set [of "i32_bytes (max (i32_at rng 0) (min (i32_at rng 1) x))"] step(1) 2(1) True show ?thesis
        by (simp add: ae_comp_spec_def x_def)
    qed
  qed
qed

abbreviation fps_in :: "int \<Rightarrow> int \<times> int \<Rightarrow> bool" where
  "fps_in fps \<equiv> \<lambda>(low, high). low \<le> fps \<and> fps \<le> high"

lemma fps_pairs_nth: "i < length v div 8 \<Longrightarrow> fps_pairs v ! i = (i32_at v (2 * i), i32_at v (2 * i + 1))"
  by (simp add: fps_pairs_def)

lemma length_fps_pairs [simp]: "length (fps_pairs v) = length v div 8"
  by (simp add: fps_pairs_def)

lemma fps_loop_result:
  assumes "shows_value st e t v" "i + n = length v div 8"
  shows "\<exists>r. fps_loop st e fps i n index = Ret r \<and>
    (let rest = drop i (fps_pairs v); fitting = filter (fps_in fps) rest in
     if (fps, fps) \<in> set rest then \<exists>j < length v div 8. r = 2 * int j \<and> fps_pairs v ! j = (fps, fps)
     else if fitting = [] then r = index
     else \<exists>j < length v div 8. r = 2 * int j \<and> fps_pairs v ! j = last fitting)"
  using assms(2)
proof (induction n arbitrary: i index)
  case (Suc n)
  then have i: "i < length v div 8" by simp
  then have "8 * i + 8 \<le> length v" by linarith
  then have d: "data_i32 st e (2 * i) = Ret (i32_at v (2 * i))" "data_i32 st e (2 * i + 1) = Ret (i32_at v (2 * i + 1))"
    using data_i32_value [OF assms(1)] by simp_all
  let ?low = "i32_at v (2 * i)" and ?high = "i32_at v (2 * i + 1)"
  have rest: "drop i (fps_pairs v) = (?low, ?high) # drop (Suc i) (fps_pairs v)"
    using Cons_nth_drop_Suc [of i "fps_pairs v"] i by (simp add: fps_pairs_nth)
  show ?case
  proof (cases "fps = ?low \<and> fps = ?high")
    case True
    then show ?thesis using d i rest by (auto simp: Let_def fps_pairs_nth)
  next
    case False
    define index' where "index' = (if fps \<ge> ?low \<and> fps \<le> ?high then 2 * int i else index)"
    from False have run: "fps_loop st e fps i (Suc n) index = fps_loop st e fps (Suc i) n index'"
      using d by (auto simp: index'_def)
    from Suc.IH [of "Suc i" index'] Suc.prems obtain r where r: "fps_loop st e fps (Suc i) n index' = Ret r"
      "let rest = drop (Suc i) (fps_pairs v); fitting = filter (fps_in fps) rest in
       if (fps, fps) \<in> set rest then \<exists>j < length v div 8. r = 2 * int j \<and> fps_pairs v ! j = (fps, fps)
       else if fitting = [] then r = index'
       else \<exists>j < length v div 8. r = 2 * int j \<and> fps_pairs v ! j = last fitting" by auto
    then show ?thesis using run False i unfolding rest
      by (auto simp: Let_def index'_def fps_pairs_nth split: if_splits)
  qed
qed (simp add: Let_def)

text \<open>The range that is chosen is offered, contains the rate when a range does, and is fixed when a fixed one fits.\<close>

lemma fps_pick_sound:
  assumes "ranges \<noteq> []"
  shows "fps_pick ranges fps \<in> set ranges \<and>
    ((fps, fps) \<in> set ranges \<longrightarrow> fps_pick ranges fps = (fps, fps)) \<and>
    ((\<exists>r \<in> set ranges. fps_in fps r) \<longrightarrow> fps_in fps (fps_pick ranges fps))"
proof -
  have "last (filter (fps_in fps) ranges) \<in> set (filter (fps_in fps) ranges)" if "filter (fps_in fps) ranges \<noteq> []"
    using that by (rule last_in_set)
  then show ?thesis using assms by (auto simp: fps_pick_def Let_def filter_empty_conv)
qed

lemma fps_loop_pick:
  assumes v: "shows_value st e TYPE_INT32 v" and len: "8 dvd length v" "v \<noteq> []"
  shows "\<exists>r. fps_loop st e fps 0 (unat (en_count e div 2)) (- 1) = Ret r \<and>
    (let i = nat (if r = - 1 then 0 else r) in
     4 * (i + 1) + 4 \<le> length v \<and> (i32_at v i, i32_at v (i + 1)) = fps_pick (fps_pairs v) fps)"
proof -
  have "unat (en_count e) * 4 = length v" using v by (simp add: shows_value_def)
  then have n: "0 + unat (en_count e div 2) = length v div 8" by (simp add: unat_div)
  have pos: "0 < length v div 8" using len by (metis dvd_div_eq_0_iff gr0I length_0_conv)
  from fps_loop_result [OF v n, of fps "- 1"] obtain r where r: "fps_loop st e fps 0 (unat (en_count e div 2)) (- 1) = Ret r"
    "let rest = fps_pairs v; fitting = filter (fps_in fps) rest in
     if (fps, fps) \<in> set rest then \<exists>j < length v div 8. r = 2 * int j \<and> fps_pairs v ! j = (fps, fps)
     else if fitting = [] then r = - 1
     else \<exists>j < length v div 8. r = 2 * int j \<and> fps_pairs v ! j = last fitting" by auto
  have at: "4 * (2 * j + 1) + 4 \<le> length v \<and> (i32_at v (2 * j), i32_at v (2 * j + 1)) = fps_pairs v ! j"
    if "j < length v div 8" for j using that by (simp add: fps_pairs_nth)
  have "hd (fps_pairs v) = fps_pairs v ! 0" using pos by (intro hd_conv_nth) (metis length_fps_pairs less_not_refl list.size(3))
  then have "\<exists>j < length v div 8. nat (if r = - 1 then 0 else r) = 2 * j \<and> fps_pairs v ! j = fps_pick (fps_pairs v) fps"
    using r(2) pos by (auto simp: fps_pick_def Let_def split: if_splits)
  then obtain j where "j < length v div 8" "nat (if r = - 1 then 0 else r) = 2 * j"
    "fps_pairs v ! j = fps_pick (fps_pairs v) fps" by blast
  with at [of j] r(1) show ?thesis unfolding Let_def by metis
qed

lemma convertFps_correct:
  assumes st: "static_ok vo st" and ok: "settings_ok vo loc k obj" "k \<le> 26"
    and mem: "ample malloc" "\<And>i. clear_of malloc (loc i)"
  shows "converts vo loc k obj (convertFps vo malloc (loc i) fps obj st)
    ANDROID_CONTROL_AE_TARGET_FPS_RANGE TYPE_INT32 (fps_spec (chars st) fps)"
proof (cases rule: static_lookup [OF st read_types(3) read_sections(3)])
  case 1
  then show ?thesis by (simp add: convertFps_def fps_spec_def converts_error [OF ok(1)])
next
  case (2 e v)
  then have c: "unat (en_count e) * 4 = length v" by (simp add: shows_value_def)
  then have "8 dvd length v \<longleftrightarrow> unat (en_count e) mod 2 = 0" by presburger
  moreover from c have "v \<noteq> [] \<longleftrightarrow> unat (en_count e) \<noteq> 0" by (cases v) auto
  ultimately have checks: "en_count e mod 2 \<noteq> 0 \<or> en_count e < 2 \<longleftrightarrow> \<not> (8 dvd length v \<and> v \<noteq> [])"
    by (auto simp: word_unat_eq_iff unat_mod word_less_nat_alt)
  show ?thesis
  proof (cases "8 dvd length v \<and> v \<noteq> []")
    case False
    with 2 checks show ?thesis by (auto simp: convertFps_def fps_spec_def intro: converts_error [OF ok(1)])
  next
    case True
    with fps_loop_pick [OF 2(3), of fps] obtain r where
      r: "fps_loop st e fps 0 (unat (en_count e div 2)) (- 1) = Ret r" and
      p: "4 * (nat (if r = - 1 then 0 else r) + 1) + 4 \<le> length v"
      "(i32_at v (nat (if r = - 1 then 0 else r)), i32_at v (nat (if r = - 1 then 0 else r) + 1)) =
        fps_pick (fps_pairs v) fps" by (auto simp: Let_def)
    define j where "j = nat (if r = - 1 then 0 else r)"
    have "convertFps vo malloc (loc i) fps obj st = update_typed TYPE_INT32 vo malloc obj
        ANDROID_CONTROL_AE_TARGET_FPS_RANGE (Some (loc i, i32_bytes (i32_at v j) @ i32_bytes (i32_at v (j + 1)))) 2"
      using 2 True checks r p(1) data_i32_value [OF 2(3), of j] data_i32_value [OF 2(3), of "j + 1"]
      by (simp add: convertFps_def update_int32_def Let_def j_def [symmetric])
    moreover have "fps_spec (chars st) fps = Inr (i32_bytes (i32_at v j) @ i32_bytes (i32_at v (j + 1)))"
      using 2(1) True p(2) [folded j_def, symmetric] by (simp add: fps_spec_def)
    ultimately show ?thesis
      using converts_update [OF ok written_types(2) types_below(2) written_sections(2) _ _ _ mem,
          of "i32_bytes (i32_at v j) @ i32_bytes (i32_at v (j + 1))" 2 i] by simp
  qed
qed

lemma mode_loop_result:
  assumes "shows_value st e t v" "i + n = length v"
  shows "mode_loop st e x i n = Ret (x \<in> set (drop i v))"
  using assms(2)
proof (induction n arbitrary: i)
  case (Suc n)
  then have i: "i < length v" by simp
  then have "drop i v = v ! i # drop (Suc i) v" by (simp add: Cons_nth_drop_Suc)
  with Suc i data_u8_value [OF assms(1) i] show ?case by auto
qed simp

lemma byte_modes: "shows_value st e TYPE_BYTE v \<Longrightarrow> mode_loop st e x 0 (unat (en_count e)) = Ret (x \<in> set v)"
  using mode_loop_result [of st e TYPE_BYTE v 0 "unat (en_count e)" x] by (simp add: shows_value_def)

lemma convertDvs_correct:
  assumes st: "static_ok vo st" and ok: "settings_ok vo loc k obj" "k \<le> 26"
    and mem: "ample malloc" "\<And>i. clear_of malloc (loc i)"
  shows "converts vo loc k obj (convertDvs vo malloc (loc i) mode obj st)
    ANDROID_CONTROL_VIDEO_STABILIZATION_MODE TYPE_BYTE (dvs_spec (chars st) mode)"
  using converts_update [OF ok written_types(3) types_below(1) written_sections(3) _ _ _ mem, of "[b]" 1 i for b]
  by (cases rule: static_lookup [OF st read_types(4) read_sections(4)])
    (simp_all add: convertDvs_def dvs_spec_def converts_error [OF ok(1)] byte_modes update_uint8_def
      ANDROID_CONTROL_VIDEO_STABILIZATION_MODE_ON_def)

lemma convertAeMode_correct:
  assumes ok: "settings_ok vo loc k obj" "k \<le> 26" and mem: "ample malloc" "\<And>i. clear_of malloc (loc i)"
  shows "converts vo loc k obj (convertAeMode vo malloc (loc i) mode obj st)
    ANDROID_CONTROL_AE_MODE TYPE_BYTE (ae_mode_spec mode)"
  using converts_update [OF ok written_types(4) types_below(1) written_sections(4) _ _ _ mem, of "[b]" 1 i for b]
  by (simp add: convertAeMode_def ae_mode_spec_def update_uint8_def ANDROID_CONTROL_AE_MODE_ON_def
      ANDROID_CONTROL_AE_MODE_OFF_def)

lemma length_le_bytes64 [simp]: "length (le_bytes64 w) = 8"
  by (simp add: le_bytes64_def)

lemma convertExposureTime_correct:
  assumes st: "static_ok vo st" and ok: "settings_ok vo loc k obj" "k \<le> 26"
    and mem: "ample malloc" "\<And>i. clear_of malloc (loc i)" and no_overflow: "int64E (et * 1000) = Ret (et * 1000)"
  shows "converts vo loc k obj (convertExposureTime vo malloc (loc i) et obj st)
    ANDROID_SENSOR_EXPOSURE_TIME TYPE_INT64 (et_spec (chars st) et)"
proof (cases rule: static_lookup [OF st read_types(5) read_sections(5)])
  case 1
  then show ?thesis by (simp add: convertExposureTime_def et_spec_def converts_error [OF ok(1)])
next
  case (2 e v)
  show ?thesis
  proof (cases "length v = 16")
    case False
    with 2 show ?thesis by (auto simp: convertExposureTime_def et_spec_def count_checks intro: converts_error [OF ok(1)])
  next
    case True
    have m: "(if etns < lo then lo else if hi < etns then hi else etns) = (if etns < lo then lo else min hi etns)"
      for etns lo hi :: int by (simp add: min_def)
    show ?thesis
      using 2 True no_overflow data_i64_value [OF 2(3), of 0] data_i64_value [OF 2(3), of 1]
        converts_update [OF ok written_types(5) types_below(3) written_sections(5) _ _ _ mem, of "i64_bytes x" 1 i for x]
      by (simp add: convertExposureTime_def et_spec_def count_checks update_int64_def Let_def m del: if_split)
  qed
qed

lemma convertBandingMode_correct:
  assumes st: "static_ok vo st" and ok: "settings_ok vo loc k obj" "k \<le> 26"
    and mem: "ample malloc" "\<And>i. clear_of malloc (loc i)"
  shows "converts vo loc k obj (convertBandingMode vo malloc (loc i) mode obj st)
    ANDROID_CONTROL_AE_ANTIBANDING_MODE TYPE_BYTE (banding_spec (chars st) mode)"
  using converts_update [OF ok written_types(6) types_below(1) written_sections(6) _ _ _ mem, of "[b]" 1 i for b]
  by (cases rule: static_lookup [OF st read_types(6) read_sections(6)])
    (simp_all add: convertBandingMode_def banding_spec_def converts_error [OF ok(1)] byte_modes update_uint8_def Let_def
      ANDROID_CONTROL_AE_ANTIBANDING_MODE_AUTO_def)

end
