(* ===== verification/Gralloc.thy ===== *)
theory Gralloc
  imports Parameter_Adapter Process_Utils
begin

text \<open>
  The graphics memory allocator: \<open>gralloc/gralloc.cpp\<close>, \<open>gralloc/mapper.cpp\<close> and the handle of
  \<open>gralloc/gralloc_priv.h\<close>, with the classes of \<open>ui/GraphicBufferMapper.cpp\<close> and
  \<open>ui/GraphicBufferAllocator.cpp\<close> that call them.  A handle is an object on the heap; the state also has
  the memory mappings of the process and the file descriptors the allocator opened.  The kernel and
  \<open>operator new\<close> are the parameter \<open>env\<close>.  The framebuffer device (\<open>framebuffer.cpp\<close>) is seen through
  the fields that \<open>mapFrameBufferLocked\<close> leaves in the module.
\<close>

section \<open>Handles and the state of the allocator\<close>

record private_handle_t =
  version :: int
  numFds :: int
  numInts :: int
  ph_fd :: int
  magic :: int
  ph_flags :: u32
  ph_size :: int
  ph_offset :: int
  ph_width :: int
  ph_height :: int
  ph_stride :: int
  ph_halFormat :: int
  ph_usage :: u32
  ph_base :: u64

abbreviation PRIV_FLAGS_FRAMEBUFFER :: u32 where
  "PRIV_FLAGS_FRAMEBUFFER \<equiv> 1"

abbreviation PRIV_FLAGS_MAP_READ_ONLY :: u32 where
  "PRIV_FLAGS_MAP_READ_ONLY \<equiv> 2"

text \<open>
  \<open>native_handle\<close> has three integers before its data; a \<open>private_handle_t\<close> takes 72 bytes with the
  alignment of \<open>base\<close>.
\<close>

definition sizeof_native_handle :: int where
  "sizeof_native_handle = 12"

definition sNumFds :: int where
  "sNumFds = 1"

definition sNumInts :: int where
  "sNumInts = (72 - sizeof_native_handle) div 4 - sNumFds"

definition sMagic :: int where
  "sMagic = 0x3141592"

definition private_handle :: "int \<Rightarrow> int \<Rightarrow> u32 \<Rightarrow> private_handle_t" where
  "private_handle fd sz flags =
     \<lparr>version = sizeof_native_handle, numFds = sNumFds, numInts = sNumInts, ph_fd = fd, magic = sMagic,
      ph_flags = flags, ph_size = sz, ph_offset = 0, ph_width = 0, ph_height = 0, ph_stride = 0,
      ph_halFormat = 0, ph_usage = 0, ph_base = 0\<rparr>"

record private_module_t =
  framebuffer :: u64
  numBuffers :: u32
  bufferMask :: u32
  line_length :: u32
  yres :: u32

record gralloc_state =
  gs_handles :: "u64 \<rightharpoonup> private_handle_t"
  gs_maps :: "(u64 \<times> u64) list"
  gs_fds :: "int list"
  gs_module :: private_module_t

record gralloc_env =
  env_new :: "gralloc_state \<Rightarrow> u64 option"
  env_mmap :: "gralloc_state \<Rightarrow> u64 \<Rightarrow> bool \<Rightarrow> int \<Rightarrow> int + u64"
  env_ashmem :: "gralloc_state \<Rightarrow> u64 \<Rightarrow> int"
  env_errno :: int
  env_dup :: "gralloc_state \<Rightarrow> int \<Rightarrow> int"
  env_map_fb :: "gralloc_state \<Rightarrow> int \<times> gralloc_state"

text \<open>\<open>operator new\<close> throws when there is no memory, and nobody catches it.\<close>

definition new_object :: "gralloc_env \<Rightarrow> gralloc_state \<Rightarrow> u64 exec" where
  "new_object env s = (case env_new env s of None \<Rightarrow> AssertFail | Some p \<Rightarrow> Ret p)"

text \<open>A handle that was freed cannot be read; the null handle is refused.\<close>

definition validate :: "gralloc_state \<Rightarrow> u64 \<Rightarrow> int exec" where
  "validate s h =
     (if h = 0 then Ret (- 22)
      else bindE (deref (gs_handles s h)) (\<lambda>hnd.
        Ret (if version hnd \<noteq> sizeof_native_handle \<or> numInts hnd \<noteq> sNumInts \<or> numFds hnd \<noteq> sNumFds \<or>
                magic hnd \<noteq> sMagic then - 22 else 0)))"

definition set_handle :: "u64 \<Rightarrow> private_handle_t \<Rightarrow> gralloc_state \<Rightarrow> gralloc_state" where
  "set_handle h hnd s = s\<lparr>gs_handles := (gs_handles s)(h \<mapsto> hnd)\<rparr>"

section \<open>Mapping\<close>

text \<open>The result is the status, the address written through \<open>vaddr\<close> and the state.\<close>

definition gralloc_map :: "gralloc_env \<Rightarrow> gralloc_state \<Rightarrow> u64 \<Rightarrow> (int \<times> u64 option \<times> gralloc_state) exec" where
  "gralloc_map env s handle =
     bindE (deref (gs_handles s handle)) (\<lambda>hnd.
     if ph_flags hnd AND PRIV_FLAGS_FRAMEBUFFER = 0 then
       let sz = word_of_int (ph_size hnd);
           writable = (ph_flags hnd AND PRIV_FLAGS_MAP_READ_ONLY = 0) in
       case env_mmap env s sz writable (ph_fd hnd) of
         Inl errno \<Rightarrow> Ret (- errno, None, s)
       | Inr mappedAddress \<Rightarrow>
           let base = mappedAddress + word_of_int (ph_offset hnd) in
           Ret (0, Some base,
             set_handle handle (hnd\<lparr>ph_base := base\<rparr>) (s\<lparr>gs_maps := (mappedAddress, sz) # gs_maps s\<rparr>))
     else Ret (0, Some (ph_base hnd), s))"

text \<open>\<open>munmap\<close> of a region that is not mapped is an error that is only logged.\<close>

definition gralloc_unmap :: "gralloc_state \<Rightarrow> u64 \<Rightarrow> gralloc_state exec" where
  "gralloc_unmap s handle =
     bindE (deref (gs_handles s handle)) (\<lambda>hnd.
     let s = (if ph_flags hnd AND PRIV_FLAGS_FRAMEBUFFER = 0
              then s\<lparr>gs_maps := remove1 (ph_base hnd, word_of_int (ph_size hnd)) (gs_maps s)\<rparr> else s) in
     Ret (set_handle handle (hnd\<lparr>ph_base := 0\<rparr>) s))"

definition gralloc_register_buffer :: "gralloc_env \<Rightarrow> gralloc_state \<Rightarrow> u64 \<Rightarrow> (int \<times> gralloc_state) exec" where
  "gralloc_register_buffer env s handle =
     bindE (validate s handle) (\<lambda>r.
     if r < 0 then Ret (- 22, s)
     else bindE (gralloc_map env s handle) (\<lambda>(err, _, s). Ret (err, s)))"

definition terminateBuffer :: "gralloc_state \<Rightarrow> u64 \<Rightarrow> gralloc_state exec" where
  "terminateBuffer s handle =
     bindE (deref (gs_handles s handle)) (\<lambda>hnd.
     if ph_base hnd \<noteq> 0 then gralloc_unmap s handle else Ret s)"

definition gralloc_unregister_buffer :: "gralloc_state \<Rightarrow> u64 \<Rightarrow> (int \<times> gralloc_state) exec" where
  "gralloc_unregister_buffer s handle =
     bindE (validate s handle) (\<lambda>r.
     if r < 0 then Ret (- 22, s)
     else bindE (deref (gs_handles s handle)) (\<lambda>hnd.
       if ph_base hnd \<noteq> 0 then bindE (gralloc_unmap s handle) (\<lambda>s. Ret (0, s)) else Ret (0, s)))"

definition mapBuffer :: "gralloc_env \<Rightarrow> gralloc_state \<Rightarrow> u64 \<Rightarrow> (int \<times> gralloc_state) exec" where
  "mapBuffer env s handle = bindE (gralloc_map env s handle) (\<lambda>(err, _, s). Ret (err, s))"

definition gralloc_lock :: "gralloc_state \<Rightarrow> u64 \<Rightarrow> (int \<times> u64 option) exec" where
  "gralloc_lock s handle =
     bindE (validate s handle) (\<lambda>r.
     if r < 0 then Ret (- 22, None)
     else bindE (deref (gs_handles s handle)) (\<lambda>hnd. Ret (0, Some (ph_base hnd))))"

definition gralloc_unlock :: "gralloc_state \<Rightarrow> u64 \<Rightarrow> int exec" where
  "gralloc_unlock s handle = bindE (validate s handle) (\<lambda>r. Ret (if r < 0 then - 22 else 0))"

section \<open>Allocating and freeing\<close>

definition roundUpToPageSize :: "u64 \<Rightarrow> u64" where
  "roundUpToPageSize x = (x + 4095) AND NOT 4095"

text \<open>\<open>size_t\<close> to \<open>int\<close>, as the constructor of the handle converts its argument.\<close>

definition int_of_size :: "u64 \<Rightarrow> int" where
  "int_of_size sz = sint (ucast sz :: u32)"

definition gralloc_alloc_buffer ::
    "gralloc_env \<Rightarrow> gralloc_state \<Rightarrow> u64 \<Rightarrow> (int \<times> u64 option \<times> gralloc_state) exec" where
  "gralloc_alloc_buffer env s sz =
     (let sz = roundUpToPageSize sz; fd = env_ashmem env s sz in
      if fd < 0 then Ret (- env_errno env, None, s)
      else
        let s = s\<lparr>gs_fds := fd # gs_fds s\<rparr> in
        bindE (new_object env s) (\<lambda>hnd.
        let s = set_handle hnd (private_handle fd (int_of_size sz) 0) s in
        bindE (mapBuffer env s hnd) (\<lambda>(err, s).
        Ret (err, if err = 0 then Some hnd else None, s))))"

text \<open>The first free slot of the framebuffer: the new mask and the address of the slot.\<close>

fun find_slot :: "u32 \<Rightarrow> u64 \<Rightarrow> nat \<Rightarrow> nat \<Rightarrow> u64 \<Rightarrow> u32 \<times> u64" where
  "find_slot msk bufferSize i 0 vaddr = (msk, vaddr)"
| "find_slot msk bufferSize i (Suc n) vaddr =
     (if (ucast msk :: u64) AND push_bit i 1 = 0 then (ucast (ucast msk OR push_bit i 1 :: u64), vaddr)
      else find_slot msk bufferSize (Suc i) n (vaddr + bufferSize))"

definition gralloc_alloc_framebuffer ::
    "gralloc_env \<Rightarrow> gralloc_state \<Rightarrow> u64 \<Rightarrow> (int \<times> u64 option \<times> gralloc_state) exec" where
  "gralloc_alloc_framebuffer env s sz =
     (let (err, s) = (if framebuffer (gs_module s) = 0 then env_map_fb env s else (0, s)) in
      if err < 0 then Ret (err, None, s)
      else
        let m = gs_module s; bufferSize = ucast (line_length m * yres m) in
        if numBuffers m = 1 then gralloc_alloc_buffer env s bufferSize
        else if ucast (bufferMask m) \<ge> (push_bit (unat (numBuffers m)) 1 - 1 :: u64) then Ret (- 12, None, s)
        else
          bindE (deref (gs_handles s (framebuffer m))) (\<lambda>fb.
          let fd = env_dup env s (ph_fd fb); s = s\<lparr>gs_fds := fd # gs_fds s\<rparr>;
              (msk, vaddr) = find_slot (bufferMask m) bufferSize 0 (unat (numBuffers m)) (ph_base fb);
              h = (private_handle fd (int_of_size sz) PRIV_FLAGS_FRAMEBUFFER)
                    \<lparr>ph_base := vaddr, ph_offset := int_of_size (vaddr - ph_base fb)\<rparr> in
          bindE (new_object env s) (\<lambda>hnd.
          Ret (0, Some hnd, set_handle hnd h (s\<lparr>gs_module := m\<lparr>bufferMask := msk\<rparr>\<rparr>)))))"

definition GRALLOC_USAGE_HW_FB :: u32 where
  "GRALLOC_USAGE_HW_FB = 0x1000"

text \<open>Bits per pixel of a format; \<open>None\<close> for a format that is not supported.\<close>

definition gralloc_bits :: "int \<Rightarrow> int option" where
  "gralloc_bits format =
     (if format \<in> {1, 2, 5} then Some 32
      else if format = 3 then Some 24
      else if format \<in> {4, 0x20} then Some 16
      else if format \<in> {0x11, 0x22, 0x23} then Some 12
      else if format = 0x21 then Some 8
      else None)"

text \<open>
  \<open>pHandle\<close> and \<open>pStride\<close> are not null in any call of this library.  The result is the status, the handle
  and the stride, and the state.
\<close>

definition gralloc_alloc ::
    "gralloc_env \<Rightarrow> gralloc_state \<Rightarrow> int \<Rightarrow> int \<Rightarrow> int \<Rightarrow> u32 \<Rightarrow> (int \<times> (u64 \<times> int) option \<times> gralloc_state) exec" where
  "gralloc_alloc env s w h format usage =
     (case gralloc_bits format of
        None \<Rightarrow> Ret (- 22, None, s)
      | Some bitsPerPixel \<Rightarrow>
          bindE (int32E (w * bitsPerPixel)) (\<lambda>bits.
          bindE (int32E (bits + 3)) (\<lambda>padded.
          let bitsPerRow = word_of_int (sint ((word_of_int padded :: u32) AND NOT 3)) :: u64;
              sz = bitsPerRow * word_of_int h div 8;
              stride = (if format \<in> {0x11, 0x22, 0x23} then word_of_int w else bitsPerRow div word_of_int bitsPerPixel) in
          bindE (if usage AND GRALLOC_USAGE_HW_FB \<noteq> 0 then gralloc_alloc_framebuffer env s sz
                 else gralloc_alloc_buffer env s sz) (\<lambda>(err, handle, s).
          if err < 0 then Ret (err, None, s)
          else
            bindE (deref handle) (\<lambda>p. bindE (deref (gs_handles s p)) (\<lambda>privHandle.
            Ret (0, Some (p, int_of_size stride),
              set_handle p (privHandle\<lparr>ph_width := w, ph_height := h, ph_stride := int_of_size stride,
                ph_halFormat := format, ph_usage := usage\<rparr>) s)))))))"

definition delete_handle :: "u64 \<Rightarrow> gralloc_state \<Rightarrow> gralloc_state" where
  "delete_handle h s = s\<lparr>gs_handles := (gs_handles s)(h := None)\<rparr>"

definition gralloc_free :: "gralloc_state \<Rightarrow> u64 \<Rightarrow> (int \<times> gralloc_state) exec" where
  "gralloc_free s handle =
     bindE (validate s handle) (\<lambda>r.
     if r < 0 then Ret (- 22, s)
     else
       bindE (deref (gs_handles s handle)) (\<lambda>hnd.
       bindE (if ph_flags hnd AND PRIV_FLAGS_FRAMEBUFFER \<noteq> 0 then
                bindE (deref (gs_handles s (framebuffer (gs_module s)))) (\<lambda>fb.
                let m = gs_module s; bufferSize = ucast (line_length m * yres m) :: u64 in
                if bufferSize = 0 then Fault
                else let index = unat ((ph_base hnd - ph_base fb) div bufferSize) in
                  Ret (s\<lparr>gs_module := m\<lparr>bufferMask := bufferMask m AND NOT (push_bit index 1)\<rparr>\<rparr>))
              else terminateBuffer s handle) (\<lambda>s.
       Ret (0, delete_handle handle (s\<lparr>gs_fds := remove1 (ph_fd hnd) (gs_fds s)\<rparr>)))))"

text \<open>
  \<open>gralloc_perform\<close>: mapping a descriptor of the caller.  The handle and the address are written only
  when the mapping succeeds.
\<close>

definition gralloc_map_fd ::
    "gralloc_env \<Rightarrow> gralloc_state \<Rightarrow> int \<Rightarrow> u64 \<Rightarrow> int \<Rightarrow> int \<Rightarrow> int \<Rightarrow> int \<Rightarrow> u32 \<Rightarrow>
     (int \<times> (u64 \<times> u64) option \<times> gralloc_state) exec" where
  "gralloc_map_fd env s fd sz width height stride halFormat usage =
     bindE (new_object env s) (\<lambda>h.
      let s = set_handle h ((private_handle fd (int_of_size sz) PRIV_FLAGS_MAP_READ_ONLY)
                \<lparr>ph_width := width, ph_height := height, ph_stride := stride, ph_halFormat := halFormat,
                 ph_usage := usage\<rparr>) s in
      bindE (mapBuffer env s h) (\<lambda>(status, s).
      if status = 0 then bindE (deref (gs_handles s h)) (\<lambda>hnd. Ret (0, Some (h, ph_base hnd), s))
      else Ret (- 22, None, delete_handle h s)))"

definition gralloc_unmap_fd :: "gralloc_state \<Rightarrow> u64 \<Rightarrow> (int \<times> gralloc_state) exec" where
  "gralloc_unmap_fd s handle = bindE (terminateBuffer s handle) (\<lambda>s. Ret (0, delete_handle handle s))"

section \<open>The allocator of the user interface library\<close>

text \<open>
  \<open>sAllocList\<close> is a keyed vector; by its contract it is a finite map from handles to records.
\<close>

record alloc_rec_t =
  rec_width :: u32
  rec_height :: u32
  rec_stride :: u32
  rec_format :: int
  rec_usage :: u32
  rec_size :: u64

definition bytesPerPixel :: "int \<Rightarrow> u32" where
  "bytesPerPixel format =
     (if format \<in> {1, 2, 5} then 4 else if format = 3 then 3 else if format \<in> {4, 6, 7} then 2 else 0)"

definition GRALLOC_USAGE_ALLOC_MASK :: u32 where
  "GRALLOC_USAGE_ALLOC_MASK = NOT 0x200000"

type_synonym alloc_list = "u64 \<rightharpoonup> alloc_rec_t"

definition GraphicBufferAllocator_alloc ::
    "gralloc_env \<Rightarrow> gralloc_state \<Rightarrow> alloc_list \<Rightarrow> u32 \<Rightarrow> u32 \<Rightarrow> int \<Rightarrow> u32 \<Rightarrow>
     (int \<times> (u64 \<times> u32) option \<times> gralloc_state \<times> alloc_list) exec" where
  "GraphicBufferAllocator_alloc env s sAllocList width height format usage =
     (let (width, height) = (if width = 0 \<or> height = 0 then (1, 1) else (width, height));
          usage = usage AND GRALLOC_USAGE_ALLOC_MASK in
      bindE (gralloc_alloc env s (sint width) (sint height) format usage) (\<lambda>(err, out, s).
      if err = 0 then
        bindE (deref out) (\<lambda>(handle, outStride).
        let stride = word_of_int outStride in
        Ret (err, Some (handle, stride), s,
          sAllocList(handle \<mapsto> \<lparr>rec_width = width, rec_height = height, rec_stride = stride, rec_format = format,
            rec_usage = usage, rec_size = ucast (height * stride * bytesPerPixel format)\<rparr>)))
      else Ret (err, None, s, sAllocList)))"

definition GraphicBufferAllocator_free ::
    "gralloc_state \<Rightarrow> alloc_list \<Rightarrow> u64 \<Rightarrow> (int \<times> gralloc_state \<times> alloc_list) exec" where
  "GraphicBufferAllocator_free s sAllocList handle =
     bindE (gralloc_free s handle) (\<lambda>(err, s).
     Ret (err, s, if err = 0 then sAllocList(handle := None) else sAllocList))"

end
