(* ===== verification/Gralloc_Props.thy ===== *)
theory Gralloc_Props
  imports Gralloc
begin

text \<open>
  What the graphics memory allocator guarantees: the memory mappings of the process are exactly those of
  the live handles, so nothing stays mapped when all handles are gone, and no operation touches a freed handle.
\<close>

section \<open>The regions of the handles\<close>

definition kernel_ok :: "gralloc_env \<Rightarrow> bool" where
  "kernel_ok env \<longleftrightarrow>
     (\<forall>s p. env_new env s = Some p \<longrightarrow> p \<notin> dom (gs_handles s) \<and> p \<noteq> 0) \<and>
     (\<forall>s n w fd a. env_mmap env s n w fd = Inr a \<longrightarrow> a \<noteq> 0) \<and>
     (\<forall>s n w fd e. env_mmap env s n w fd = Inl e \<longrightarrow> 0 < e) \<and> 0 < env_errno env"

definition region_of :: "private_handle_t \<Rightarrow> (u64 \<times> u64) multiset" where
  "region_of hnd =
     (if ph_base hnd \<noteq> 0 \<and> ph_flags hnd AND PRIV_FLAGS_FRAMEBUFFER = 0
      then {#(ph_base hnd, word_of_int (ph_size hnd))#} else {#})"

definition regions :: "(u64 \<rightharpoonup> private_handle_t) \<Rightarrow> (u64 \<times> u64) multiset" where
  "regions H = (\<Sum>h \<in> dom H. region_of (the (H h)))"

lemma regions_upd: "finite (dom H) \<Longrightarrow> h \<notin> dom H \<Longrightarrow> regions (H(h \<mapsto> hnd)) = region_of hnd + regions H"
  unfolding regions_def by (auto intro!: sum.cong simp: domIff)

lemma regions_remove: "finite (dom H) \<Longrightarrow> H h = Some hnd \<Longrightarrow> regions H = region_of hnd + regions (H(h := None))"
  unfolding regions_def by (subst sum.remove [of _ h]) (auto intro!: sum.cong)

lemma regions_change:
  assumes "finite (dom H)" "H h = Some hnd"
  shows "regions (H(h \<mapsto> hnd')) + region_of hnd = region_of hnd' + regions H"
  using regions_remove [OF assms] regions_remove [of "H(h \<mapsto> hnd')" h hnd'] assms(1) by (simp add: ac_simps)

definition handle_ok :: "private_handle_t \<Rightarrow> bool" where
  "handle_ok hnd \<longleftrightarrow> version hnd = sizeof_native_handle \<and> numInts hnd = sNumInts \<and> numFds hnd = sNumFds \<and>
     magic hnd = sMagic \<and> ph_flags hnd AND PRIV_FLAGS_FRAMEBUFFER = 0 \<and> ph_offset hnd = 0"

definition gralloc_ok :: "gralloc_state \<Rightarrow> bool" where
  "gralloc_ok s \<longleftrightarrow> finite (dom (gs_handles s)) \<and> 0 \<notin> dom (gs_handles s) \<and>
     mset (gs_maps s) = regions (gs_handles s) \<and> (\<forall>h hnd. gs_handles s h = Some hnd \<longrightarrow> handle_ok hnd)"

lemma gralloc_okD:
  assumes "gralloc_ok s"
  shows "finite (dom (gs_handles s))" "0 \<notin> dom (gs_handles s)" "mset (gs_maps s) = regions (gs_handles s)"
    "\<And>h hnd. gs_handles s h = Some hnd \<Longrightarrow> handle_ok hnd"
  using assms by (auto simp: gralloc_ok_def)

lemma validate_live: "gralloc_ok s \<Longrightarrow> gs_handles s h = Some hnd \<Longrightarrow> validate s h = Ret 0"
  using gralloc_okD(2) [of s] gralloc_okD(4) [of s h hnd] by (cases "h = 0") (auto simp: validate_def handle_ok_def)

section \<open>The operations\<close>

text \<open>A new handle that is not mapped yet.\<close>

lemma new_handle_ok:
  assumes ok: "gralloc_ok s" and k: "kernel_ok env" and h: "handle_ok hnd" "ph_base hnd = 0" and p: "env_new env s = Some p"
  shows "gralloc_ok (set_handle p hnd s)"
  using gralloc_okD [OF ok] k h p
  by (auto simp: gralloc_ok_def set_handle_def kernel_ok_def regions_upd region_of_def)

lemma mapBuffer_ok:
  assumes ok: "gralloc_ok s" and k: "kernel_ok env" and h: "gs_handles s h = Some hnd" "ph_base hnd = 0"
  obtains a where "mapBuffer env s h = Ret (0, set_handle h (hnd\<lparr>ph_base := a\<rparr>) (s\<lparr>gs_maps := (a, word_of_int (ph_size hnd)) # gs_maps s\<rparr>))"
    "a \<noteq> 0" "gralloc_ok (set_handle h (hnd\<lparr>ph_base := a\<rparr>) (s\<lparr>gs_maps := (a, word_of_int (ph_size hnd)) # gs_maps s\<rparr>))"
  | err where "mapBuffer env s h = Ret (err, s)" "err < 0"
proof (cases "env_mmap env s (word_of_int (ph_size hnd)) (ph_flags hnd AND PRIV_FLAGS_MAP_READ_ONLY = 0) (ph_fd hnd)")
  case (Inl err)
  moreover from Inl k have "0 < err" by (auto simp: kernel_ok_def)
  ultimately show ?thesis using gralloc_okD(4) [OF ok h(1)] h that(2) [of "- err"]
    by (simp add: mapBuffer_def gralloc_map_def Let_def handle_ok_def)
next
  case (Inr a)
  let ?s = "set_handle h (hnd\<lparr>ph_base := a\<rparr>) (s\<lparr>gs_maps := (a, word_of_int (ph_size hnd)) # gs_maps s\<rparr>)"
  have ho: "handle_ok hnd" by (rule gralloc_okD(4) [OF ok h(1)])
  have a: "a \<noteq> 0" using k Inr by (auto simp: kernel_ok_def)
  have "regions ((gs_handles s)(h \<mapsto> hnd\<lparr>ph_base := a\<rparr>)) = {#(a, word_of_int (ph_size hnd))#} + regions (gs_handles s)"
    using regions_change [OF gralloc_okD(1) [OF ok] h(1), of "hnd\<lparr>ph_base := a\<rparr>"] h(2) a ho
    by (simp add: region_of_def handle_ok_def)
  then have "gralloc_ok ?s"
    using gralloc_okD [OF ok] h ho by (auto simp: gralloc_ok_def set_handle_def handle_ok_def)
  with Inr a ho h that(1) show ?thesis by (simp add: mapBuffer_def gralloc_map_def Let_def handle_ok_def)
qed

text \<open>Describing a handle again changes neither its region nor its validity.\<close>

lemma describe_ok:
  assumes ok: "gralloc_ok s" and h: "gs_handles s h = Some hnd"
    and same: "handle_ok hnd'" "ph_base hnd' = ph_base hnd" "ph_size hnd' = ph_size hnd"
  shows "gralloc_ok (set_handle h hnd' s)"
proof -
  have "region_of hnd' = region_of hnd"
    using same gralloc_okD(4) [OF ok h] by (simp add: region_of_def handle_ok_def)
  then have "regions ((gs_handles s)(h \<mapsto> hnd')) = regions (gs_handles s)"
    using regions_change [OF gralloc_okD(1) [OF ok] h, of hnd'] by simp
  then show ?thesis using gralloc_okD [OF ok] h same(1) by (auto simp: gralloc_ok_def set_handle_def)
qed

lemma gralloc_ok_fds [simp]: "gralloc_ok (s\<lparr>gs_fds := fds\<rparr>) = gralloc_ok s"
  by (simp add: gralloc_ok_def)

lemma private_handle_ok: "flags AND PRIV_FLAGS_FRAMEBUFFER = 0 \<Longrightarrow> handle_ok (private_handle fd n flags)"
  by (simp add: private_handle_def handle_ok_def)

lemma read_only_flag: "(2 :: u32) AND 1 = 0"
  by simp

text \<open>A call that returns a status, perhaps a handle, and a state in which the invariant holds.\<close>

definition allocates :: "(int \<times> u64 option \<times> gralloc_state) exec \<Rightarrow> int \<Rightarrow> bool" where
  "allocates res n \<longleftrightarrow> res = AssertFail \<or>
     (\<exists>err out s'. res = Ret (err, out, s') \<and> gralloc_ok s' \<and>
        (if err = 0 then \<exists>h hnd. out = Some h \<and> gs_handles s' h = Some hnd \<and> ph_base hnd \<noteq> 0 \<and> ph_size hnd = n
         else err < 0 \<and> out = None))"

lemma alloc_buffer_ok:
  assumes ok: "gralloc_ok s" and k: "kernel_ok env"
  shows "allocates (gralloc_alloc_buffer env s sz) (int_of_size (roundUpToPageSize sz))"
proof (cases "env_ashmem env s (roundUpToPageSize sz) < 0")
  case True
  then show ?thesis using ok k by (simp add: gralloc_alloc_buffer_def Let_def allocates_def kernel_ok_def)
next
  case False
  define fd where "fd = env_ashmem env s (roundUpToPageSize sz)"
  define s1 where "s1 = s\<lparr>gs_fds := fd # gs_fds s\<rparr>"
  define hnd where "hnd = private_handle fd (int_of_size (roundUpToPageSize sz)) 0"
  have s1: "gralloc_ok s1" using ok by (simp add: s1_def)
  have h1: "handle_ok hnd" "ph_base hnd = 0" "ph_size hnd = int_of_size (roundUpToPageSize sz)"
    using private_handle_ok [of 0] by (simp_all add: hnd_def) (simp_all add: private_handle_def)
  have run: "gralloc_alloc_buffer env s sz = bindE (new_object env s1) (\<lambda>h.
      bindE (mapBuffer env (set_handle h hnd s1) h) (\<lambda>(err, s). Ret (err, if err = 0 then Some h else None, s)))"
    using False unfolding gralloc_alloc_buffer_def Let_def fd_def s1_def hnd_def by simp
  show ?thesis
  proof (cases "env_new env s1")
    case None
    then show ?thesis by (simp add: run new_object_def allocates_def)
  next
    case (Some h)
    let ?s2 = "set_handle h hnd s1"
    have s2: "gralloc_ok ?s2" by (rule new_handle_ok [OF s1 k h1(1,2) Some])
    have at: "gs_handles ?s2 h = Some hnd" by (simp add: set_handle_def)
    show ?thesis
    proof (cases rule: mapBuffer_ok [OF s2 k at h1(2)])
      case (1 a)
      then show ?thesis using run h1(3) Some by (auto simp: set_handle_def allocates_def new_object_def)
    next
      case (2 err)
      then show ?thesis using run s2 Some by (simp add: allocates_def new_object_def)
    qed
  qed
qed

lemma gralloc_alloc_ok:
  assumes ok: "gralloc_ok s" and k: "kernel_ok env" and fb: "usage AND GRALLOC_USAGE_HW_FB = 0"
    and ret: "gralloc_alloc env s w h format usage = Ret (err, out, s')"
  shows "gralloc_ok s' \<and>
    (err = 0 \<longrightarrow> (\<exists>p stride hnd. out = Some (p, stride) \<and> gs_handles s' p = Some hnd \<and> ph_base hnd \<noteq> 0))"
proof (cases "gralloc_bits format")
  case None
  then show ?thesis using ok ret by (simp add: gralloc_alloc_def)
next
  case (Some bits)
  with ret have r: "int32E (w * bits) = Ret (w * bits)" "int32E (w * bits + 3) = Ret (w * bits + 3)"
    by (auto simp: gralloc_alloc_def bindE_Ret_iff int32E_def split: if_splits)
  define sz where "sz = word_of_int (sint ((word_of_int (w * bits + 3) :: u32) AND NOT 3)) * word_of_int h div (8 :: u64)"
  define stride :: u64 where "stride = (if format \<in> {0x11, 0x22, 0x23} then word_of_int w
    else word_of_int (sint ((word_of_int (w * bits + 3) :: u32) AND NOT 3)) div word_of_int bits)"
  let ?new = "\<lambda>hnd. hnd\<lparr>ph_width := w, ph_height := h, ph_stride := int_of_size stride, ph_halFormat := format,
    ph_usage := usage\<rparr>"
  have run: "gralloc_alloc env s w h format usage = bindE (gralloc_alloc_buffer env s sz) (\<lambda>(err, handle, s).
      if err < 0 then Ret (err, None, s)
      else bindE (deref handle) (\<lambda>p. bindE (deref (gs_handles s p)) (\<lambda>hnd.
        Ret (0, Some (p, int_of_size stride), set_handle p (?new hnd) s))))"
    by (simp only: gralloc_alloc_def Some option.case r bindE.simps Let_def fb sz_def stride_def simp_thms if_False)
  from ret run obtain r0 out0 s0 where b: "gralloc_alloc_buffer env s sz = Ret (r0, out0, s0)"
    by (auto simp: bindE_Ret_iff)
  with alloc_buffer_ok [OF ok k, of sz] have s0: "gralloc_ok s0"
    "if r0 = 0 then \<exists>h hnd. out0 = Some h \<and> gs_handles s0 h = Some hnd \<and> ph_base hnd \<noteq> 0 else r0 < 0"
    by (auto simp: allocates_def split: if_splits)
  show ?thesis
  proof (cases "r0 = 0")
    case False
    with s0 b ret show ?thesis by (simp add: run)
  next
    case True
    with s0(2) obtain p hnd where p: "out0 = Some p" "gs_handles s0 p = Some hnd" "ph_base hnd \<noteq> 0" by auto
    have "gralloc_ok (set_handle p (?new hnd) s0)"
      using gralloc_okD(4) [OF s0(1) p(2)] by (intro describe_ok [OF s0(1) p(2)]) (simp_all add: handle_ok_def)
    with b p True ret show ?thesis by (auto simp: run set_handle_def)
  qed
qed

lemma terminate_ok:
  assumes ok: "gralloc_ok s" and h: "gs_handles s h = Some hnd"
  shows "\<exists>s' hnd'. terminateBuffer s h = Ret s' \<and> gralloc_ok s' \<and> gs_handles s' = (gs_handles s)(h \<mapsto> hnd') \<and>
    ph_base hnd' = 0 \<and> gs_fds s' = gs_fds s"
proof (cases "ph_base hnd = 0")
  case True
  moreover have "(gs_handles s)(h \<mapsto> hnd) = gs_handles s" using h by (rule fun_upd_idem)
  ultimately show ?thesis using ok h by (intro exI [of _ s] exI [of _ hnd]) (simp add: terminateBuffer_def)
next
  case False
  have ho: "handle_ok hnd" by (rule gralloc_okD(4) [OF ok h])
  let ?r = "(ph_base hnd, word_of_int (ph_size hnd) :: u64)" and ?hnd = "hnd\<lparr>ph_base := 0\<rparr>"
  have "regions ((gs_handles s)(h \<mapsto> ?hnd)) + {#?r#} = regions (gs_handles s)"
    using regions_change [OF gralloc_okD(1) [OF ok] h, of ?hnd] False ho by (simp add: region_of_def handle_ok_def)
  then have "regions ((gs_handles s)(h \<mapsto> ?hnd)) = mset (remove1 ?r (gs_maps s))"
    using gralloc_okD(3) [OF ok] by (metis add_mset_remove_trivial mset_remove1 union_mset_add_mset_right add_0_right)
  then have "gralloc_ok (set_handle h ?hnd (s\<lparr>gs_maps := remove1 ?r (gs_maps s)\<rparr>))"
    using gralloc_okD [OF ok] h ho by (auto simp: gralloc_ok_def set_handle_def handle_ok_def)
  then show ?thesis using False ho h
    by (auto simp: terminateBuffer_def gralloc_unmap_def Let_def handle_ok_def set_handle_def)
qed

lemma delete_ok:
  assumes ok: "gralloc_ok s" and h: "gs_handles s h = Some hnd" "ph_base hnd = 0"
  shows "gralloc_ok (delete_handle h s)"
  using gralloc_okD [OF ok] regions_remove [OF gralloc_okD(1) [OF ok] h(1)] h(2)
  by (auto simp: gralloc_ok_def delete_handle_def region_of_def)

lemma gralloc_free_ok:
  assumes ok: "gralloc_ok s" and h: "gs_handles s h = Some hnd"
  shows "\<exists>s'. gralloc_free s h = Ret (0, s') \<and> gralloc_ok s' \<and> gs_handles s' = (gs_handles s)(h := None)"
proof -
  from terminate_ok [OF ok h] obtain s1 hnd' where s1: "terminateBuffer s h = Ret s1" "gralloc_ok s1"
    "gs_handles s1 = (gs_handles s)(h \<mapsto> hnd')" "ph_base hnd' = 0" by blast
  have "gralloc_ok (delete_handle h (s1\<lparr>gs_fds := fds\<rparr>))" for fds
    using s1 by (intro delete_ok) auto
  with s1 validate_live [OF ok h] h gralloc_okD(4) [OF ok h] show ?thesis
    by (simp add: gralloc_free_def handle_ok_def) (simp add: delete_handle_def)
qed

lemma map_fd_ok:
  assumes ok: "gralloc_ok s" and k: "kernel_ok env"
    and ret: "gralloc_map_fd env s fd sz width height stride fmt usage = Ret (err, out, s')"
  shows "gralloc_ok s' \<and>
    (if err = 0 then \<exists>h hnd. out = Some (h, ph_base hnd) \<and> gs_handles s' h = Some hnd \<and> ph_base hnd \<noteq> 0
     else err < 0 \<and> out = None \<and> gs_handles s' = gs_handles s)"
proof -
  define hnd where "hnd = (private_handle fd (int_of_size sz) PRIV_FLAGS_MAP_READ_ONLY)
    \<lparr>ph_width := width, ph_height := height, ph_stride := stride, ph_halFormat := fmt, ph_usage := usage\<rparr>"
  have run: "gralloc_map_fd env s fd sz width height stride fmt usage = bindE (new_object env s) (\<lambda>h.
      bindE (mapBuffer env (set_handle h hnd s) h) (\<lambda>(status, s).
      if status = 0 then bindE (deref (gs_handles s h)) (\<lambda>hnd. Ret (0, Some (h, ph_base hnd), s))
      else Ret (- 22, None, delete_handle h s)))"
    unfolding gralloc_map_fd_def Let_def hnd_def by simp
  with ret obtain h where h: "env_new env s = Some h"
    by (auto simp: new_object_def bindE_Ret_iff split: option.splits)
  have h1: "handle_ok hnd" "ph_base hnd = 0"
    by (simp_all add: hnd_def private_handle_def handle_ok_def)
  let ?s1 = "set_handle h hnd s"
  have s1: "gralloc_ok ?s1" by (rule new_handle_ok [OF ok k h1 h])
  have at: "gs_handles ?s1 h = Some hnd" by (simp add: set_handle_def)
  have fresh: "h \<notin> dom (gs_handles s)" using k h by (simp add: kernel_ok_def)
  show ?thesis
  proof (cases rule: mapBuffer_ok [OF s1 k at h1(2)])
    case (1 a)
    then show ?thesis using run ret h by (auto simp: set_handle_def new_object_def)
  next
    case (2 r)
    have "gs_handles (delete_handle h ?s1) = gs_handles s"
      using fresh by (auto simp: delete_handle_def set_handle_def domIff)
    with 2 run ret h delete_ok [OF s1 at h1(2)] show ?thesis by (auto simp: new_object_def)
  qed
qed

lemma unmap_fd_ok:
  assumes ok: "gralloc_ok s" and h: "gs_handles s h = Some hnd"
  shows "\<exists>s'. gralloc_unmap_fd s h = Ret (0, s') \<and> gralloc_ok s' \<and> gs_handles s' = (gs_handles s)(h := None)"
proof -
  from terminate_ok [OF ok h] obtain s1 hnd' where s1: "terminateBuffer s h = Ret s1" "gralloc_ok s1"
    "gs_handles s1 = (gs_handles s)(h \<mapsto> hnd')" "ph_base hnd' = 0" by blast
  with delete_ok [OF s1(2), of h hnd'] show ?thesis by (simp add: gralloc_unmap_fd_def) (simp add: delete_handle_def)
qed

section \<open>All states a process can reach\<close>

inductive gralloc_reach :: "gralloc_env \<Rightarrow> gralloc_state \<Rightarrow> bool" for env where
  start: "gs_handles s = Map.empty \<Longrightarrow> gs_maps s = [] \<Longrightarrow> gralloc_reach env s"
| alloc: "gralloc_reach env s \<Longrightarrow> usage AND GRALLOC_USAGE_HW_FB = 0 \<Longrightarrow>
    gralloc_alloc env s w h format usage = Ret (err, out, s') \<Longrightarrow> gralloc_reach env s'"
| free: "gralloc_reach env s \<Longrightarrow> p \<in> dom (gs_handles s) \<Longrightarrow> gralloc_free s p = Ret (err, s') \<Longrightarrow> gralloc_reach env s'"
| map_fd: "gralloc_reach env s \<Longrightarrow>
    gralloc_map_fd env s fd sz width height stride fmt usage' = Ret (err, mapped, s') \<Longrightarrow> gralloc_reach env s'"
| unmap_fd: "gralloc_reach env s \<Longrightarrow> p \<in> dom (gs_handles s) \<Longrightarrow> gralloc_unmap_fd s p = Ret (err, s') \<Longrightarrow> gralloc_reach env s'"

lemma gralloc_reach_ok: "gralloc_reach env s \<Longrightarrow> kernel_ok env \<Longrightarrow> gralloc_ok s"
proof (induction rule: gralloc_reach.induct)
  case (start s)
  then show ?case by (simp add: gralloc_ok_def regions_def)
next
  case (alloc s usage w h format err out s')
  then show ?case using gralloc_alloc_ok by blast
next
  case (free s p err s')
  then show ?case using gralloc_free_ok by fastforce
next
  case (map_fd s fd sz width height stride fmt usage' err mapped s')
  then show ?case using map_fd_ok by blast
next
  case (unmap_fd s p err s')
  then show ?case using unmap_fd_ok by fastforce
qed

text \<open>
  C39.  The memory mappings of the process are exactly those of the live handles of the allocator, through any
  sequence of allocations and releases in which calls may fail: when no handle is left, nothing is mapped.  Locking
  a live handle returns its mapping, and freeing it always succeeds and removes that mapping and no other.
\<close>

theorem gralloc_mappings_exact:
  assumes "kernel_ok env" "gralloc_reach env s"
  shows "mset (gs_maps s) = regions (gs_handles s) \<and> (gs_handles s = Map.empty \<longrightarrow> gs_maps s = []) \<and>
    (\<forall>h hnd. gs_handles s h = Some hnd \<longrightarrow>
       gralloc_lock s h = Ret (0, Some (ph_base hnd)) \<and>
       (\<exists>s'. gralloc_free s h = Ret (0, s') \<and> gs_handles s' = (gs_handles s)(h := None) \<and>
          mset (gs_maps s) = region_of hnd + mset (gs_maps s')))"
proof -
  have ok: "gralloc_ok s" by (rule gralloc_reach_ok [OF assms(2,1)])
  have "mset (gs_maps s) = region_of hnd + mset (gs_maps s')"
    if "gs_handles s h = Some hnd" "gralloc_ok s'" "gs_handles s' = (gs_handles s)(h := None)" for h hnd s'
    using gralloc_okD(3) [OF ok] gralloc_okD(3) [OF that(2)] that(3)
      regions_remove [OF gralloc_okD(1) [OF ok] that(1)] by simp
  moreover have "gralloc_lock s h = Ret (0, Some (ph_base hnd))" if "gs_handles s h = Some hnd" for h hnd
    using that validate_live [OF ok that] by (simp add: gralloc_lock_def)
  moreover have "gs_maps s = []" if "gs_handles s = Map.empty"
    using gralloc_okD(3) [OF ok] that by (simp add: regions_def)
  ultimately show ?thesis using gralloc_okD(3) [OF ok] gralloc_free_ok [OF ok] by meson
qed

definition demo_kernel :: gralloc_env where
  "demo_kernel = \<lparr>env_new = (\<lambda>s. if gs_handles s 0x100 = None then Some 0x100 else None),
     env_mmap = (\<lambda>s n w fd. Inr 0x7000), env_ashmem = (\<lambda>s n. 5), env_errno = 12,
     env_dup = (\<lambda>s fd. fd), env_map_fb = (\<lambda>s. (- 1, s))\<rparr>"

definition demo_gralloc :: gralloc_state where
  "demo_gralloc = \<lparr>gs_handles = Map.empty, gs_maps = [], gs_fds = [],
     gs_module = \<lparr>framebuffer = 0, numBuffers = 0, bufferMask = 0, line_length = 0, yres = 0\<rparr>\<rparr>"

definition demo_allocated :: gralloc_state where
  "demo_allocated = (case gralloc_alloc demo_kernel demo_gralloc 64 32 0x23 0 of Ret (_, _, s) \<Rightarrow> s | _ \<Rightarrow> demo_gralloc)"

lemma demo_alloc_run:
  "gralloc_alloc demo_kernel demo_gralloc 64 32 0x23 0 = Ret (0, Some (0x100, 64), demo_allocated)"
  "gs_maps demo_allocated = [(0x7000, 4096)]"
  "\<exists>hnd. gs_handles demo_allocated 0x100 = Some hnd \<and> region_of hnd = {#(0x7000, 4096)#}"
  by (simp_all add: demo_allocated_def gralloc_alloc_def demo_kernel_def demo_gralloc_def gralloc_bits_def int32E_def
      Let_def gralloc_alloc_buffer_def roundUpToPageSize_def new_object_def mapBuffer_def gralloc_map_def
      set_handle_def private_handle_def int_of_size_def region_of_def)

theorem gralloc_mappings_exact_witness:
  "gs_maps demo_allocated = [(0x7000, 4096)] \<and>
   (\<exists>s'. gralloc_free demo_allocated 0x100 = Ret (0, s') \<and> gs_maps s' = [])"
proof -
  have k: "kernel_ok demo_kernel" by (auto simp: kernel_ok_def demo_kernel_def split: if_splits)
  have "gralloc_reach demo_kernel demo_gralloc" by (rule gralloc_reach.start) (simp_all add: demo_gralloc_def)
  then have r: "gralloc_reach demo_kernel demo_allocated"
    by (rule gralloc_reach.alloc [OF _ _ demo_alloc_run(1)]) simp
  from demo_alloc_run(3) obtain hnd where h: "gs_handles demo_allocated 0x100 = Some hnd"
    "region_of hnd = {#(0x7000, 4096)#}" by blast
  from gralloc_mappings_exact [OF k r] h(1) obtain s' where "gralloc_free demo_allocated 0x100 = Ret (0, s')"
    "mset (gs_maps demo_allocated) = region_of hnd + mset (gs_maps s')" by blast
  with h(2) demo_alloc_run(2) show ?thesis by auto
qed

end
