(* ===== verification/Graphic_Buffer.thy ===== *)
theory Graphic_Buffer
  imports Gralloc_Props
begin

text \<open>
  The class of \<open>ui/GraphicBuffer.cpp\<close>, a client of the allocator and of the mapper: it owns a handle that it
  allocated (\<open>ownData\<close>) or received (\<open>ownHandle\<close>), or none.  The state is that of the allocator with its list of
  allocations.  Fences and the \<open>YCbCr\<close> calls, which the allocator of this library does not support, are left out.
\<close>

section \<open>State\<close>

datatype owner = ownNone | ownHandle | ownData

record GraphicBuffer =
  gb_width :: int
  gb_height :: int
  gb_stride :: int
  gb_format :: int
  gb_usage :: u32
  gb_handle :: u64
  mOwner :: owner
  mInitCheck :: int
  mId :: u64
  mGenerationNumber :: u32

type_synonym graphics = "gralloc_state \<times> alloc_list"

definition GraphicBuffer_empty :: "u64 \<Rightarrow> GraphicBuffer" where
  "GraphicBuffer_empty uid =
     \<lparr>gb_width = 0, gb_height = 0, gb_stride = 0, gb_format = 0, gb_usage = 0, gb_handle = 0, mOwner = ownData,
      mInitCheck = OK, mId = uid, mGenerationNumber = 0\<rparr>"

text \<open>\<open>getUniqueId\<close>: the process and a counter that wraps around.\<close>

definition getUniqueId :: "u32 \<Rightarrow> u32 \<Rightarrow> u64 \<times> u32" where
  "getUniqueId pid nextId = (push_bit 32 (ucast pid) OR ucast nextId, nextId + 1)"

section \<open>Operations\<close>

definition initSize ::
    "gralloc_env \<Rightarrow> graphics \<Rightarrow> GraphicBuffer \<Rightarrow> u32 \<Rightarrow> u32 \<Rightarrow> int \<Rightarrow> u32 \<Rightarrow> (int \<times> GraphicBuffer \<times> graphics) exec" where
  "initSize env g gb inWidth inHeight inFormat inUsage =
     bindE (GraphicBufferAllocator_alloc env (fst g) (snd g) inWidth inHeight inFormat inUsage) (\<lambda>(err, out, s, al).
     if err = OK then
       bindE (deref out) (\<lambda>(handle, outStride).
       Ret (err, gb\<lparr>gb_handle := handle, gb_width := sint inWidth, gb_height := sint inHeight, gb_format := inFormat,
         gb_usage := inUsage, gb_stride := sint outStride\<rparr>, (s, al)))
     else Ret (err, gb, (s, al)))"

definition GraphicBuffer_new ::
    "gralloc_env \<Rightarrow> graphics \<Rightarrow> u64 \<Rightarrow> u32 \<Rightarrow> u32 \<Rightarrow> int \<Rightarrow> u32 \<Rightarrow> (GraphicBuffer \<times> graphics) exec" where
  "GraphicBuffer_new env g uid inWidth inHeight inFormat inUsage =
     bindE (initSize env g (GraphicBuffer_empty uid) inWidth inHeight inFormat inUsage) (\<lambda>(err, gb, g).
     Ret (gb\<lparr>mInitCheck := err\<rparr>, g))"

definition GraphicBuffer_wrap ::
    "u64 \<Rightarrow> u32 \<Rightarrow> u32 \<Rightarrow> int \<Rightarrow> u32 \<Rightarrow> u32 \<Rightarrow> u64 \<Rightarrow> bool \<Rightarrow> GraphicBuffer" where
  "GraphicBuffer_wrap uid inWidth inHeight inFormat inUsage inStride inHandle keepOwnership =
     (GraphicBuffer_empty uid)\<lparr>gb_width := sint inWidth, gb_height := sint inHeight, gb_stride := sint inStride,
       gb_format := inFormat, gb_usage := inUsage, gb_handle := inHandle,
       mOwner := (if keepOwnership then ownHandle else ownNone)\<rparr>"

text \<open>
  Releasing a handle that was received: it is unmapped, its descriptor is closed and its memory given back
  (\<open>native_handle_close\<close>, \<open>native_handle_delete\<close>).
\<close>

definition free_handle :: "graphics \<Rightarrow> GraphicBuffer \<Rightarrow> graphics exec" where
  "free_handle g gb =
     (case mOwner gb of
        ownHandle \<Rightarrow>
          bindE (gralloc_unregister_buffer (fst g) (gb_handle gb)) (\<lambda>(_, s).
          bindE (deref (gs_handles s (gb_handle gb))) (\<lambda>hnd.
          Ret (delete_handle (gb_handle gb) (s\<lparr>gs_fds := remove1 (ph_fd hnd) (gs_fds s)\<rparr>), snd g)))
      | ownData \<Rightarrow> bindE (GraphicBufferAllocator_free (fst g) (snd g) (gb_handle gb)) (\<lambda>(_, s, al). Ret (s, al))
      | ownNone \<Rightarrow> Ret g)"

definition GraphicBuffer_delete :: "graphics \<Rightarrow> GraphicBuffer \<Rightarrow> graphics exec" where
  "GraphicBuffer_delete g gb = (if gb_handle gb \<noteq> 0 then free_handle g gb else Ret g)"

definition initCheck :: "GraphicBuffer \<Rightarrow> int" where
  "initCheck gb = mInitCheck gb"

definition reallocate ::
    "gralloc_env \<Rightarrow> graphics \<Rightarrow> GraphicBuffer \<Rightarrow> u32 \<Rightarrow> u32 \<Rightarrow> int \<Rightarrow> u32 \<Rightarrow> (int \<times> GraphicBuffer \<times> graphics) exec" where
  "reallocate env g gb inWidth inHeight inFormat inUsage =
     (if mOwner gb \<noteq> ownData then Ret (INVALID_OPERATION, gb, g)
      else if gb_handle gb \<noteq> 0 \<and> sint inWidth = gb_width gb \<and> sint inHeight = gb_height gb \<and>
              inFormat = gb_format gb \<and> inUsage = gb_usage gb then Ret (OK, gb, g)
      else
        bindE (if gb_handle gb \<noteq> 0
               then bindE (GraphicBufferAllocator_free (fst g) (snd g) (gb_handle gb)) (\<lambda>(_, s, al). Ret (s, al))
               else Ret g) (\<lambda>g.
        initSize env g (gb\<lparr>gb_handle := 0\<rparr>) inWidth inHeight inFormat inUsage))"

definition needsReallocation :: "GraphicBuffer \<Rightarrow> u32 \<Rightarrow> u32 \<Rightarrow> int \<Rightarrow> u32 \<Rightarrow> bool" where
  "needsReallocation gb inWidth inHeight inFormat inUsage \<longleftrightarrow>
     sint inWidth \<noteq> gb_width gb \<or> sint inHeight \<noteq> gb_height gb \<or> inFormat \<noteq> gb_format gb \<or>
     gb_usage gb AND inUsage \<noteq> inUsage"

text \<open>Locking a rectangle, given by its four borders.\<close>

definition GraphicBuffer_lock_rect ::
    "graphics \<Rightarrow> GraphicBuffer \<Rightarrow> int \<Rightarrow> int \<Rightarrow> int \<Rightarrow> int \<Rightarrow> (int \<times> u64 option) exec" where
  "GraphicBuffer_lock_rect g gb l t r b =
     (if l < 0 \<or> r > gb_width gb \<or> t < 0 \<or> b > gb_height gb then Ret (BAD_VALUE, None)
      else gralloc_lock (fst g) (gb_handle gb))"

definition GraphicBuffer_lock :: "graphics \<Rightarrow> GraphicBuffer \<Rightarrow> (int \<times> u64 option) exec" where
  "GraphicBuffer_lock g gb = GraphicBuffer_lock_rect g gb 0 0 (gb_width gb) (gb_height gb)"

definition GraphicBuffer_unlock :: "graphics \<Rightarrow> GraphicBuffer \<Rightarrow> int exec" where
  "GraphicBuffer_unlock g gb = gralloc_unlock (fst g) (gb_handle gb)"

section \<open>What a buffer of its own guarantees\<close>

text \<open>
  A live buffer: its handle is allocated and mapped.  An allocation that succeeds makes one, and a lock then
  returns the address of the mapping; deleting the buffer gives back exactly its handle and its record.
\<close>

definition buffer_live :: "graphics \<Rightarrow> GraphicBuffer \<Rightarrow> bool" where
  "buffer_live g gb \<longleftrightarrow> mOwner gb = ownData \<and>
     (\<exists>hnd. gs_handles (fst g) (gb_handle gb) = Some hnd \<and> ph_base hnd \<noteq> 0)"

lemma alloc_mask_clears_fb:
  assumes "usage AND GRALLOC_USAGE_HW_FB = 0"
  shows "(usage AND GRALLOC_USAGE_ALLOC_MASK) AND GRALLOC_USAGE_HW_FB = 0"
proof -
  have "(usage AND GRALLOC_USAGE_ALLOC_MASK) AND GRALLOC_USAGE_HW_FB =
      (usage AND GRALLOC_USAGE_HW_FB) AND GRALLOC_USAGE_ALLOC_MASK" by (simp add: ac_simps)
  with assms show ?thesis by simp
qed

lemma allocator_alloc_split:
  assumes "GraphicBufferAllocator_alloc env s al w h fmt usage = Ret (err, out, s', al')"
  obtains w' h' out' where "gralloc_alloc env s w' h' fmt (usage AND GRALLOC_USAGE_ALLOC_MASK) = Ret (err, out', s')"
    "err = OK \<longrightarrow> (\<exists>p x st. out' = Some (p, x) \<and> out = Some (p, st))"
proof -
  define w' h' where "w' = (if w = 0 \<or> h = 0 then 1 else sint w)" "h' = (if w = 0 \<or> h = 0 then 1 else sint h)"
  from assms obtain out' where "gralloc_alloc env s w' h' fmt (usage AND GRALLOC_USAGE_ALLOC_MASK) = Ret (err, out', s')"
    "err = OK \<longrightarrow> (\<exists>p x st. out' = Some (p, x) \<and> out = Some (p, st))"
    by (cases "w = 0 \<or> h = 0")
      (auto simp: GraphicBufferAllocator_alloc_def bindE_Ret_iff Let_def deref_def w'_h'_def split: if_splits option.splits)
  then show ?thesis by (rule that)
qed

lemma allocator_alloc_ok:
  assumes ok: "gralloc_ok s" and k: "kernel_ok env" and u: "usage AND GRALLOC_USAGE_HW_FB = 0"
    and run: "GraphicBufferAllocator_alloc env s al w h fmt usage = Ret (err, out, s', al')"
  shows "gralloc_ok s' \<and> (err = OK \<longrightarrow> (\<exists>p x hnd. out = Some (p, x) \<and> gs_handles s' p = Some hnd \<and> ph_base hnd \<noteq> 0))"
  by (rule allocator_alloc_split [OF run]) (use gralloc_alloc_ok [OF ok k alloc_mask_clears_fb [OF u]] in fastforce)

lemma initSize_ok:
  assumes ok: "gralloc_ok (fst g)" and k: "kernel_ok env" and u: "usage AND GRALLOC_USAGE_HW_FB = 0"
    and run: "initSize env g gb w h fmt usage = Ret (err, gb', g')" and own: "mOwner gb = ownData"
  shows "gralloc_ok (fst g') \<and> (err = OK \<longrightarrow> buffer_live g' gb')"
proof -
  from run obtain out s' al' where a: "GraphicBufferAllocator_alloc env (fst g) (snd g) w h fmt usage = Ret (err, out, s', al')"
    by (auto simp: initSize_def bindE_Ret_iff split: if_splits)
  with run have r: "(if err = OK then bindE (deref out) (\<lambda>(handle, outStride).
       Ret (err, gb\<lparr>gb_handle := handle, gb_width := sint w, gb_height := sint h, gb_format := fmt,
         gb_usage := usage, gb_stride := sint outStride\<rparr>, (s', al')))
     else Ret (err, gb, (s', al'))) = Ret (err, gb', g')" by (simp add: initSize_def)
  from allocator_alloc_ok [OF ok k u a] r own show ?thesis
    by (cases "err = OK") (auto simp: buffer_live_def)
qed

lemma lock_live:
  assumes "gralloc_ok (fst g)" "buffer_live g gb"
  shows "\<exists>a. gralloc_lock (fst g) (gb_handle gb) = Ret (0, Some a) \<and> a \<noteq> 0"
  using assms validate_live [OF assms(1)] by (auto simp: buffer_live_def gralloc_lock_def)

end
