(* ===== verification/Camera_Adapter.thy ===== *)
theory Camera_Adapter
  imports Parameter_Props Graphic_Buffer
begin

text \<open>
  The camera adapter, \<open>icamera_adapter/ICameraAdapter.cpp\<close>: it offers the queue of buffers that an application
  expects (\<open>qBuf\<close>, \<open>dqBuf\<close>) on top of a camera HAL that takes capture requests and answers each of them with
  metadata and a filled buffer.  The members of the class are the record \<open>ICameraAdapter\<close>; the buffers of the
  application, the graphics memory and the static \<open>frame_number\<close> belong to the process and extend it.

  All methods hold \<open>mLock\<close>, except while \<open>capture\<close> is inside the HAL and while \<open>dqBuf\<close> waits.  A method is
  therefore a sequence of sections that no other thread interrupts: \<open>capture_begin\<close> is the section before the
  call of the HAL.  The HAL itself is not part of the sources; what it returns is a parameter.
\<close>

section \<open>State\<close>

record camera_buffer_t =
  cb_s :: stream_t
  cb_addr :: u64
  cb_sequence :: int
  cb_dmafd :: int
  cb_timestamp :: u64

text \<open>
  A stream buffer of the HAL interface.  \<open>c3_buffer\<close> is the handle its pointer leads to, \<open>None\<close> when nothing
  was written there.  There is one stream, \<open>mStream\<close>.
\<close>

record camera3_stream_buffer =
  c3_buffer :: "u64 option"
  c3_acquire_fence :: int
  c3_release_fence :: int
  c3_status :: int

record camera3_stream_t =
  c3_format :: int
  c3_width :: u32
  c3_height :: u32
  c3_stream_type :: int
  c3_usage :: u32
  c3_max_buffers :: nat

record Result =
  metadataDone :: bool
  buffersDone :: bool
  r_timestamp :: u64

record BufferWrapper =
  stream_id :: int
  bw_buffer :: u64

record ICameraAdapter =
  mCameraId :: int
  mStarted :: bool
  mPendingBuffers :: "BufferWrapper list"
  mAllocatedBuffers :: "GraphicBuffer list"
  mQueuedBuffers :: "BufferWrapper list"
  mCapturedBuffers :: "BufferWrapper list"
  mMappedBuffers :: "u64 option list"
  mResults :: "u32 \<rightharpoonup> Result"
  mBufferMapping :: "u64 \<rightharpoonup> camera3_stream_buffer"
  mStream :: camera3_stream_t
  mRequestSettings :: "camera_metadata option"
  mOperationMode :: int

record camera_state = ICameraAdapter +
  bufs :: "u64 \<rightharpoonup> camera_buffer_t"
  graphics_of :: graphics
  frame_number :: int

record camera3_capture_request_t =
  rq_frame_number :: u32
  rq_settings :: "camera_metadata option"
  rq_output :: camera3_stream_buffer

record camera3_capture_result_t =
  res_frame_number :: u32
  res_result :: "camera_metadata option"
  res_num_output_buffers :: nat
  res_output_buffers :: "camera3_stream_buffer list"

definition empty_stream :: camera3_stream_t where
  "empty_stream = \<lparr>c3_format = 0, c3_width = 0, c3_height = 0, c3_stream_type = 0, c3_usage = 0, c3_max_buffers = 0\<rparr>"

definition ICameraAdapter_new :: "int \<Rightarrow> ICameraAdapter" where
  "ICameraAdapter_new cameraId =
     \<lparr>mCameraId = cameraId, mStarted = False, mPendingBuffers = [], mAllocatedBuffers = [], mQueuedBuffers = [],
      mCapturedBuffers = [], mMappedBuffers = [], mResults = Map.empty, mBufferMapping = Map.empty,
      mStream = empty_stream, mRequestSettings = None, mOperationMode = 0\<rparr>"

definition V4L2_PIX_FMT_NV12 :: int where
  "V4L2_PIX_FMT_NV12 = 0x3231564E"

definition set_buf :: "u64 \<Rightarrow> camera_buffer_t \<Rightarrow> camera_state \<Rightarrow> camera_state" where
  "set_buf p b s = s\<lparr>bufs := (bufs s)(p \<mapsto> b)\<rparr>"

definition stream_buffer :: "u64 option \<Rightarrow> camera3_stream_buffer" where
  "stream_buffer h = \<lparr>c3_buffer = h, c3_acquire_fence = 0, c3_release_fence = 0, c3_status = 0\<rparr>"

section \<open>Memory of the buffers\<close>

text \<open>
  \<open>mapMemory\<close> does not look at the status of \<open>perform\<close>: when the mapping fails, the handle that it stores was
  never written and the address of the buffer is unchanged.
\<close>

definition mapMemory :: "gralloc_env \<Rightarrow> camera_state \<Rightarrow> u64 \<Rightarrow> (int \<times> camera_state) exec" where
  "mapMemory env s p =
     (if p = 0 then Ret (BAD_VALUE, s)
      else
        bindE (deref (bufs s p)) (\<lambda>b.
        if s_format (cb_s b) \<noteq> V4L2_PIX_FMT_NV12 then Ret (BAD_VALUE, s)
        else
          let width = s_width (cb_s b); height = s_height (cb_s b); stride = width in
          bindE (int32E (width * height)) (\<lambda>pixels.
          bindE (int32E (pixels * 3)) (\<lambda>triple.
          bindE (gralloc_map_fd env (fst (graphics_of s)) (cb_dmafd b) (word_of_int (triple sdiv 2)) width height stride
                   0x11 0x10000) (\<lambda>(_, out, gr).
          let s = s\<lparr>graphics_of := (gr, snd (graphics_of s))\<rparr>;
              s = (case out of None \<Rightarrow> s | Some (_, base) \<Rightarrow> set_buf p (b\<lparr>cb_addr := base\<rparr>) s);
              pHandle = map_option fst out in
          Ret (OK, s\<lparr>mBufferMapping := (mBufferMapping s)(word_of_int (cb_dmafd b) \<mapsto> stream_buffer pHandle),
                     mMappedBuffers := mMappedBuffers s @ [pHandle]\<rparr>))))))"

definition allocateMemory :: "gralloc_env \<Rightarrow> camera_state \<Rightarrow> u64 \<Rightarrow> u64 \<Rightarrow> (int \<times> camera_state) exec" where
  "allocateMemory env s uid p =
     (if p = 0 then Ret (BAD_VALUE, s)
      else
        bindE (deref (bufs s p)) (\<lambda>b.
        if s_format (cb_s b) \<noteq> V4L2_PIX_FMT_NV12 then Ret (BAD_VALUE, s)
        else
          bindE (GraphicBuffer_new env (graphics_of s) uid (word_of_int (s_width (cb_s b)))
                   (word_of_int (s_height (cb_s b))) 0x23 0x800) (\<lambda>(gb, g).
          let status = initCheck gb in
          if status \<noteq> OK then bindE (GraphicBuffer_delete g gb) (\<lambda>g. Ret (status, s\<lparr>graphics_of := g\<rparr>))
          else
            bindE (gralloc_lock (fst g) (gb_handle gb)) (\<lambda>(status, address).
            if status \<noteq> OK then bindE (GraphicBuffer_delete g gb) (\<lambda>g. Ret (status, s\<lparr>graphics_of := g\<rparr>))
            else
              bindE (deref address) (\<lambda>address.
              bindE (GraphicBuffer_unlock g gb) (\<lambda>_.
              let s = set_buf p (b\<lparr>cb_addr := address\<rparr>) (s\<lparr>graphics_of := g\<rparr>) in
              Ret (OK, s\<lparr>mBufferMapping := (mBufferMapping s)(address \<mapsto> stream_buffer (Some (gb_handle gb))),
                         mAllocatedBuffers := mAllocatedBuffers s @ [gb]\<rparr>)))))))"

section \<open>Queueing buffers\<close>

definition fd_key :: "camera_buffer_t \<Rightarrow> u64" where
  "fd_key b = word_of_int (cb_dmafd b)"

text \<open>
  \<open>capture\<close> up to the call of the HAL.  The left result is a failure without a call; the right one is the request
  that is handed to \<open>process_capture_request\<close> while the lock is free.  The status that the HAL returns is
  the result of \<open>capture\<close> and changes nothing else.
\<close>

definition capture_request ::
    "camera_state \<Rightarrow> int \<Rightarrow> int \<Rightarrow> u64 \<Rightarrow> ((int + camera3_capture_request_t) \<times> camera_state) exec" where
  "capture_request s status sid p =
     bindE (deref (bufs s p)) (\<lambda>b.
     let mapping = mBufferMapping s (if cb_dmafd b > 0 then fd_key b else cb_addr b) in
     if status = OK \<and> mapping \<noteq> None then
       bindE (int32E (frame_number s + 1)) (\<lambda>next.
       bindE (deref mapping) (\<lambda>streamBuffer.
       let request = \<lparr>rq_frame_number = word_of_int (frame_number s), rq_settings = mRequestSettings s,
                      rq_output = streamBuffer\<rparr> in
       Ret (Inr request, s\<lparr>frame_number := next,
         mQueuedBuffers := mQueuedBuffers s @ [\<lparr>stream_id = sid, bw_buffer = p\<rparr>]\<rparr>)))
     else Ret (Inl UNKNOWN_ERROR, s))"

definition capture_begin ::
    "gralloc_env \<Rightarrow> camera_state \<Rightarrow> int \<Rightarrow> u64 \<Rightarrow> ((int + camera3_capture_request_t) \<times> camera_state) exec" where
  "capture_begin env s sid p =
     bindE (deref (bufs s p)) (\<lambda>b.
     bindE (if cb_dmafd b > 0 \<and> mBufferMapping s (fd_key b) = None then mapMemory env s p else Ret (OK, s)) (\<lambda>(status, s).
     capture_request s status sid p))"

text \<open>
  The methods that may be inside the HAL return the left result when they are done, and the right one when they
  call the HAL; then \<open>start_resume\<close> is what follows the call.
\<close>

definition qBuf ::
    "gralloc_env \<Rightarrow> camera_state \<Rightarrow> int \<Rightarrow> u64 \<Rightarrow> ((int + camera3_capture_request_t) \<times> camera_state) exec" where
  "qBuf env s sid p =
     (if p = 0 then Ret (Inl BAD_VALUE, s)
      else if mStarted s then capture_begin env s sid p
      else Ret (Inl OK, s\<lparr>mPendingBuffers := mPendingBuffers s @ [\<lparr>stream_id = sid, bw_buffer = p\<rparr>]\<rparr>))"

text \<open>The loop of \<open>start\<close>; a capture that fails before the HAL is called loses its buffer.\<close>

fun start_loop ::
    "gralloc_env \<Rightarrow> camera_state \<Rightarrow> BufferWrapper list \<Rightarrow> ((int + camera3_capture_request_t) \<times> camera_state) exec" where
  "start_loop env s [] = Ret (Inl OK, s)"
| "start_loop env s (pendingBuffer # rest) =
     bindE (capture_begin env (s\<lparr>mPendingBuffers := rest\<rparr>) (stream_id pendingBuffer) (bw_buffer pendingBuffer))
       (\<lambda>(r, s).
     case r of Inl _ \<Rightarrow> start_loop env s rest | Inr request \<Rightarrow> Ret (Inr request, s))"

definition start_resume ::
    "gralloc_env \<Rightarrow> camera_state \<Rightarrow> ((int + camera3_capture_request_t) \<times> camera_state) exec" where
  "start_resume env s = start_loop env s (mPendingBuffers s)"

definition adapter_start ::
    "gralloc_env \<Rightarrow> camera_state \<Rightarrow> ((int + camera3_capture_request_t) \<times> camera_state) exec" where
  "adapter_start env s = start_resume env (s\<lparr>mStarted := True\<rparr>)"

definition adapter_stop :: "camera_state \<Rightarrow> int \<times> camera_state" where
  "adapter_stop s = (OK, s\<lparr>mStarted := False\<rparr>)"

text \<open>\<open>dqBuf\<close>: \<open>wait\<close> is what other threads do while it waits for at most a second.\<close>

definition dqBuf :: "(camera_state \<Rightarrow> camera_state) \<Rightarrow> camera_state \<Rightarrow> (int \<times> u64 option) \<times> camera_state" where
  "dqBuf wait s =
     (let s = (if mCapturedBuffers s = [] then wait s else s) in
      case mCapturedBuffers s of
        [] \<Rightarrow> ((UNKNOWN_ERROR, None), s)
      | buf # rest \<Rightarrow> ((OK, Some (bw_buffer buf)), s\<lparr>mCapturedBuffers := rest\<rparr>))"

section \<open>Results of the HAL\<close>

text \<open>
  The timestamp of a metadata result.  When the tag is missing, \<open>entry\<close> was not written and reading
  its count is undefined.
\<close>

definition result_timestamp :: "camera3_capture_result_t \<Rightarrow> u64 \<Rightarrow> u64 exec" where
  "result_timestamp res ts =
     bindE (find_camera_metadata_ro_entry (res_result res) ANDROID_SENSOR_TIMESTAMP True) (\<lambda>(ret, entry).
     if ret \<noteq> OK then Fault
     else bindE (deref entry) (\<lambda>e. bindE (deref (res_result res)) (\<lambda>m.
       if en_count e = 1 then bindE (data_i64 m e 0) (\<lambda>t. Ret (word_of_int t)) else Ret ts)))"

text \<open>
  The buffer result: the address of the returned handle and the frame number go to the oldest queued buffer.  When
  the handle cannot be locked, \<open>address\<close> was not written; when no buffer is queued, \<open>at(0)\<close> throws.
\<close>

definition result_buffer :: "camera_state \<Rightarrow> camera3_capture_result_t \<Rightarrow> camera_state exec" where
  "result_buffer s res =
     (case res_output_buffers res of
        [] \<Rightarrow> Fault
      | c3Buf # _ \<Rightarrow>
          bindE (deref (c3_buffer c3Buf)) (\<lambda>handle.
          bindE (gralloc_lock (fst (graphics_of s)) handle) (\<lambda>(_, address).
          case mQueuedBuffers s of
            [] \<Rightarrow> AssertFail
          | queuedBuffer # _ \<Rightarrow>
              bindE (deref address) (\<lambda>address.
              bindE (deref (bufs s (bw_buffer queuedBuffer))) (\<lambda>b.
              Ret (set_buf (bw_buffer queuedBuffer)
                (b\<lparr>cb_addr := address, cb_sequence := sint (res_frame_number res)\<rparr>) s))))))"

definition result_done :: "camera_state \<Rightarrow> u32 \<Rightarrow> Result \<Rightarrow> camera_state exec" where
  "result_done s n captureResult =
     (case mQueuedBuffers s of
        [] \<Rightarrow> AssertFail
      | queuedBuffer # rest \<Rightarrow>
          bindE (deref (bufs s (bw_buffer queuedBuffer))) (\<lambda>b.
          Ret (set_buf (bw_buffer queuedBuffer) (b\<lparr>cb_timestamp := r_timestamp captureResult\<rparr>)
            (s\<lparr>mQueuedBuffers := rest, mCapturedBuffers := mCapturedBuffers s @ [queuedBuffer],
               mResults := (mResults s)(n := None)\<rparr>))))"

definition processCaptureResult :: "camera_state \<Rightarrow> camera3_capture_result_t \<Rightarrow> camera_state exec" where
  "processCaptureResult s res =
     (let n = res_frame_number res;
          r = (case mResults s n of
                 Some r \<Rightarrow> r
               | None \<Rightarrow> \<lparr>metadataDone = False, buffersDone = False, r_timestamp = 0\<rparr>) in
      bindE (if res_num_output_buffers res = 0
             then bindE (result_timestamp res (r_timestamp r)) (\<lambda>ts. Ret (r\<lparr>r_timestamp := ts, metadataDone := True\<rparr>))
             else Ret r) (\<lambda>r.
      bindE (if res_num_output_buffers res = 1
             then bindE (result_buffer s res) (\<lambda>s. Ret (s, r\<lparr>buffersDone := True\<rparr>))
             else Ret (s, r)) (\<lambda>(s, r).
      if buffersDone r \<and> metadataDone r then result_done s n r
      else Ret (s\<lparr>mResults := (mResults s)(n \<mapsto> r)\<rparr>))))"

section \<open>Opening, configuring and closing\<close>

text \<open>\<open>hal\<close> is the default request of the HAL for a preview; \<open>loc\<close> the address of \<open>requestId\<close>.\<close>

definition constructDefaultRequest ::
    "vendor_tag_ops option \<Rightarrow> allocator \<Rightarrow> u64 \<Rightarrow> camera_metadata option \<Rightarrow> camera_state \<Rightarrow> (int \<times> camera_state) exec" where
  "constructDefaultRequest vo malloc loc hal s =
     (if mRequestSettings s = None then
        if hal = None then Ret (UNKNOWN_ERROR, s)
        else
          bindE (assign vo malloc CameraMetadata_empty hal) (\<lambda>cameraMetadata.
          bindE (update_int32 vo malloc cameraMetadata ANDROID_REQUEST_ID (Some (loc, i32_bytes 1)) 1)
            (\<lambda>(_, cameraMetadata).
          Ret (OK, s\<lparr>mRequestSettings := fst (release cameraMetadata)\<rparr>)))
      else Ret (OK, s))"

definition adapter_open ::
    "vendor_tag_ops option \<Rightarrow> allocator \<Rightarrow> u64 \<Rightarrow> int \<Rightarrow> camera_metadata option \<Rightarrow> camera_state \<Rightarrow> (int \<times> camera_state) exec" where
  "adapter_open vo malloc loc initialize hal s =
     (if initialize \<noteq> OK then Ret (initialize, s) else constructDefaultRequest vo malloc loc hal s)"

definition OP_MODE_DEFAULT :: int where "OP_MODE_DEFAULT = 0"
definition OP_MODE_30_FPS :: int where "OP_MODE_30_FPS = 1"
definition OP_MODE_60_FPS :: int where "OP_MODE_60_FPS = 2"
definition OP_MODE_90_FPS :: int where "OP_MODE_90_FPS = 4"
definition OP_MODE_120_FPS :: int where "OP_MODE_120_FPS = 8"
definition OP_MODE_DVS :: int where "OP_MODE_DVS = 256"

definition fps_mode :: "int \<Rightarrow> int \<Rightarrow> int" where
  "fps_mode status fps =
     (if status \<noteq> OK then OP_MODE_DEFAULT
      else if fps = 30 then OP_MODE_30_FPS
      else if fps > 30 \<and> fps \<le> 60 then OP_MODE_60_FPS
      else if fps > 60 \<and> fps \<le> 90 then OP_MODE_90_FPS
      else if fps > 90 \<and> fps \<le> 120 then OP_MODE_120_FPS
      else OP_MODE_DEFAULT)"

text \<open>\<open>hal\<close> is the static metadata of the camera; \<open>loc\<close> the addresses of the local variables of the conversions.\<close>

definition setParameters ::
    "vendor_tag_ops option \<Rightarrow> allocator \<Rightarrow> (nat \<Rightarrow> u64) \<Rightarrow> camera_metadata option \<Rightarrow> Parameters \<Rightarrow> camera_state \<Rightarrow>
     (int \<times> camera_state) exec" where
  "setParameters vo malloc loc hal param s =
     (if mRequestSettings s = None then Ret (UNKNOWN_ERROR, s)
      else case hal of
        None \<Rightarrow> Ret (UNKNOWN_ERROR, s)
      | Some staticMeta \<Rightarrow>
          bindE (CameraMetadata_of_buffer vo (mRequestSettings s)) (\<lambda>meta.
          bindE (convertAeComp vo malloc (loc 0) (snd (getAeCompensation param)) meta staticMeta) (\<lambda>(_, meta).
          let fps = snd (getFrameRate param) in
          bindE (convertFps vo malloc (loc 1) fps meta staticMeta) (\<lambda>(status, meta).
          let mode = fps_mode status fps; dvsMode = snd (getVideoStabilizationMode param) in
          bindE (convertDvs vo malloc (loc 2) dvsMode meta staticMeta) (\<lambda>(_, meta).
          let mode = (if dvsMode = VIDEO_STABILIZATION_MODE_ON then mode + OP_MODE_DVS else mode) in
          bindE (convertAeMode vo malloc (loc 3) (snd (getAeMode param)) meta staticMeta) (\<lambda>(_, meta).
          bindE (convertExposureTime vo malloc (loc 4) (snd (getExposureTime param)) meta staticMeta) (\<lambda>(_, meta).
          bindE (convertBandingMode vo malloc (loc 5) (snd (getAntiBandingMode param)) meta staticMeta) (\<lambda>(status, meta).
          Ret (status, s\<lparr>mOperationMode := mode, mRequestSettings := fst (release meta)\<rparr>)))))))))"

definition ALIGN16 :: "u32 \<Rightarrow> u32" where
  "ALIGN16 x = (x + 15) AND NOT 15"

text \<open>
  The configuration of one stream; \<open>configure_streams\<close> of the HAL gets the operation mode and the stream
  and its status is the result.
\<close>

definition configStreams ::
    "(int \<Rightarrow> camera3_stream_t \<Rightarrow> int) \<Rightarrow> camera_state \<Rightarrow> (int \<times> stream_t list) option \<Rightarrow> (int \<times> camera_state) exec" where
  "configStreams configure_streams s stream_list =
     (case stream_list of
        None \<Rightarrow> Ret (UNKNOWN_ERROR, s)
      | Some (num_streams, streams) \<Rightarrow>
          if num_streams \<noteq> 1 then Ret (UNKNOWN_ERROR, s)
          else case streams of
            [] \<Rightarrow> Fault
          | st # _ \<Rightarrow>
              let height = word_of_int (s_height st) :: u32;
                  dma = (s_memType st = 4);
                  stream = \<lparr>c3_format = 0x22, c3_width = word_of_int (s_width st),
                    c3_height = (if dma \<and> height mod 16 \<noteq> 0 then ALIGN16 height else height),
                    c3_stream_type = 0, c3_usage = (if dma then 0x10000 else 0x800),
                    c3_max_buffers = (if mAllocatedBuffers s \<noteq> [] then length (mAllocatedBuffers s) else 2)\<rparr> in
              Ret (configure_streams (mOperationMode s) stream, s\<lparr>mStream := stream\<rparr>))"

fun delete_buffers :: "graphics \<Rightarrow> GraphicBuffer list \<Rightarrow> graphics exec" where
  "delete_buffers g [] = Ret g"
| "delete_buffers g (gb # gbs) = bindE (GraphicBuffer_delete g gb) (\<lambda>g. delete_buffers g gbs)"

text \<open>A handle that \<open>mapMemory\<close> stored although the mapping failed is read here.\<close>

fun unmap_buffers :: "graphics \<Rightarrow> u64 option list \<Rightarrow> graphics exec" where
  "unmap_buffers g [] = Ret g"
| "unmap_buffers g (h # hs) =
     bindE (deref h) (\<lambda>handle.
     bindE (gralloc_unmap_fd (fst g) handle) (\<lambda>(_, gr). unmap_buffers (gr, snd g) hs))"

text \<open>\<open>flush\<close> is what the HAL and other threads do during the flush.\<close>

definition adapter_close :: "(camera_state \<Rightarrow> camera_state) \<Rightarrow> camera_state \<Rightarrow> (int \<times> camera_state) exec" where
  "adapter_close flush s =
     (let s = flush s in
      bindE (delete_buffers (graphics_of s) (mAllocatedBuffers s)) (\<lambda>g.
      bindE (unmap_buffers g (mMappedBuffers s)) (\<lambda>g.
      Ret (OK, s\<lparr>mAllocatedBuffers := [], mBufferMapping := Map.empty, mMappedBuffers := [], mRequestSettings := None,
                 graphics_of := g\<rparr>))))"

end
