(* ===== verification/Camera_Queue.thy ===== *)
theory Camera_Queue
  imports Camera_Adapter
begin

text \<open>
  The adapter at work.  A client thread queues buffers, starts and stops the stream and takes captured
  buffers; the HAL accepts the requests and answers each of them with metadata and with a buffer, in any
  interleaving with the client.  \<open>cam_step\<close> is one uninterrupted section of one of them.  The state also keeps what an
  observer sees: the frames that were requested, how many the HAL accepted and answered, and what \<open>dqBuf\<close> returned.
\<close>

section \<open>The system\<close>

record frame =
  fr_ptr :: u64
  fr_sid :: int
  fr_num :: int
  fr_handle :: "u64 option"

text \<open>The client is outside of any method, or inside the HAL from \<open>qBuf\<close> or from \<open>start\<close>.\<close>

datatype client_pc = Idle | In_hal bool

record camera_system =
  cam :: camera_state
  pc :: client_pc
  log :: "frame list"
  accepted :: nat
  metas :: nat
  buffers :: nat
  delivered :: "(u64 \<times> camera_buffer_t) list"

definition wr :: "frame \<Rightarrow> BufferWrapper" where
  "wr f = \<lparr>stream_id = fr_sid f, bw_buffer = fr_ptr f\<rparr>"

definition key :: "frame \<Rightarrow> u32" where
  "key f = word_of_int (fr_num f)"

definition held :: "camera_state \<Rightarrow> u64 list" where
  "held s = map bw_buffer (mPendingBuffers s @ mQueuedBuffers s @ mCapturedBuffers s)"

text \<open>After a section of the client: finished, or inside the HAL with one more requested frame.\<close>

definition enter :: "bool \<Rightarrow> camera_system \<Rightarrow> (int + camera3_capture_request_t) \<Rightarrow> camera_state \<Rightarrow> camera_system" where
  "enter starting S r s' =
     (case r of
        Inl _ \<Rightarrow> S\<lparr>cam := s', pc := Idle\<rparr>
      | Inr req \<Rightarrow> S\<lparr>cam := s', pc := In_hal starting,
          log := log S @ [\<lparr>fr_ptr = bw_buffer (last (mQueuedBuffers s')), fr_sid = stream_id (last (mQueuedBuffers s')),
            fr_num = frame_number s' - 1, fr_handle = c3_buffer (rq_output req)\<rparr>]\<rparr>)"

definition live_handle :: "camera_state \<Rightarrow> u64 option \<Rightarrow> bool" where
  "live_handle s h \<longleftrightarrow> (\<exists>p hnd. h = Some p \<and> gs_handles (fst (graphics_of s)) p = Some hnd)"

definition timestamped :: "camera_metadata \<Rightarrow> u64 \<Rightarrow> bool" where
  "timestamped m t \<longleftrightarrow> static_ok None m \<and> chars m ANDROID_SENSOR_TIMESTAMP = Some (TYPE_INT64, le_bytes64 t)"

definition meta_result :: "frame \<Rightarrow> camera_metadata \<Rightarrow> camera3_capture_result_t" where
  "meta_result f m = \<lparr>res_frame_number = key f, res_result = Some m, res_num_output_buffers = 0, res_output_buffers = []\<rparr>"

definition buffer_result :: "frame \<Rightarrow> camera3_capture_result_t" where
  "buffer_result f = \<lparr>res_frame_number = key f, res_result = None, res_num_output_buffers = 1,
     res_output_buffers = [stream_buffer (fr_handle f)]\<rparr>"

text \<open>
  \<open>ts\<close> gives the timestamp of a frame.  The HAL answers requests in order, metadata and buffers each on their own
  (\<open>camera3.h\<close>); when \<open>ordered\<close>, it also sends a buffer only after the metadata of all earlier frames.  Other cameras
  of the process take frame numbers too.
\<close>

inductive cam_step :: "gralloc_env \<Rightarrow> (int \<Rightarrow> u64) \<Rightarrow> bool \<Rightarrow> camera_system \<Rightarrow> camera_system \<Rightarrow> bool"
  for env ts ordered where
  queue: "pc S = Idle \<Longrightarrow> p \<notin> set (held (cam S)) \<Longrightarrow> bufs (cam S) p \<noteq> None \<Longrightarrow>
    qBuf env (cam S) sid p = Ret (r, s') \<Longrightarrow> cam_step env ts ordered S (enter False S r s')"
| start: "pc S = Idle \<Longrightarrow> adapter_start env (cam S) = Ret (r, s') \<Longrightarrow> cam_step env ts ordered S (enter True S r s')"
| hal_accept: "pc S = In_hal b \<Longrightarrow> accepted S < length (log S) \<Longrightarrow> live_handle (cam S) (fr_handle (last (log S))) \<Longrightarrow>
    cam_step env ts ordered S (S\<lparr>accepted := length (log S)\<rparr>)"
| return_queue: "pc S = In_hal False \<Longrightarrow> accepted S = length (log S) \<Longrightarrow> cam_step env ts ordered S (S\<lparr>pc := Idle\<rparr>)"
| return_start: "pc S = In_hal True \<Longrightarrow> accepted S = length (log S) \<Longrightarrow> start_resume env (cam S) = Ret (r, s') \<Longrightarrow>
    cam_step env ts ordered S (enter True S r s')"
| stop: "pc S = Idle \<Longrightarrow> cam_step env ts ordered S (S\<lparr>cam := snd (adapter_stop (cam S))\<rparr>)"
| dequeue: "dqBuf id (cam S) = ((OK, Some p), s') \<Longrightarrow>
    cam_step env ts ordered S (S\<lparr>cam := s', delivered := delivered S @ [(p, the (bufs (cam S) p))]\<rparr>)"
| client_write: "p \<notin> set (held (cam S)) \<Longrightarrow> cam_step env ts ordered S (S\<lparr>cam := set_buf p b (cam S)\<rparr>)"
| allocate: "pc S = Idle \<Longrightarrow> p \<notin> set (held (cam S)) \<Longrightarrow> allocateMemory env (cam S) uid p = Ret (r, s') \<Longrightarrow>
    cam_step env ts ordered S (S\<lparr>cam := s'\<rparr>)"
| open_device: "pc S = Idle \<Longrightarrow> adapter_open vo malloc loc0 initialize hal (cam S) = Ret (r, s') \<Longrightarrow>
    cam_step env ts ordered S (S\<lparr>cam := s'\<rparr>)"
| set_parameters: "setParameters vo malloc loc hal param (cam S) = Ret (r, s') \<Longrightarrow> cam_step env ts ordered S (S\<lparr>cam := s'\<rparr>)"
| config_streams: "configStreams configure_streams (cam S) streams = Ret (r, s') \<Longrightarrow> cam_step env ts ordered S (S\<lparr>cam := s'\<rparr>)"
| other_camera: "frame_number (cam S) \<le> n \<Longrightarrow> n < 2 ^ 31 \<Longrightarrow>
    cam_step env ts ordered S (S\<lparr>cam := (cam S)\<lparr>frame_number := n\<rparr>\<rparr>)"
| hal_metadata: "metas S < accepted S \<Longrightarrow> timestamped m (ts (fr_num (log S ! metas S))) \<Longrightarrow>
    processCaptureResult (cam S) (meta_result (log S ! metas S) m) = Ret s' \<Longrightarrow>
    cam_step env ts ordered S (S\<lparr>cam := s', metas := Suc (metas S)\<rparr>)"
| hal_buffer: "buffers S < accepted S \<Longrightarrow> (ordered \<longrightarrow> buffers S \<le> metas S) \<Longrightarrow>
    processCaptureResult (cam S) (buffer_result (log S ! buffers S)) = Ret s' \<Longrightarrow>
    cam_step env ts ordered S (S\<lparr>cam := s', buffers := Suc (buffers S)\<rparr>)"

text \<open>A new adapter in a process that may have used other cameras.\<close>

definition cam_start :: "camera_system \<Rightarrow> bool" where
  "cam_start S \<longleftrightarrow> ICameraAdapter.truncate (cam S) = ICameraAdapter_new (mCameraId (cam S)) \<and>
     gralloc_ok (fst (graphics_of (cam S))) \<and> 0 \<le> frame_number (cam S) \<and> frame_number (cam S) < 2 ^ 31 \<and>
     pc S = Idle \<and> log S = [] \<and> accepted S = 0 \<and> metas S = 0 \<and> buffers S = 0 \<and> delivered S = []"

inductive cam_reach :: "gralloc_env \<Rightarrow> (int \<Rightarrow> u64) \<Rightarrow> bool \<Rightarrow> camera_system \<Rightarrow> bool" for env ts ordered where
  init: "cam_start S \<Longrightarrow> cam_reach env ts ordered S"
| step: "cam_reach env ts ordered S \<Longrightarrow> cam_step env ts ordered S S' \<Longrightarrow> cam_reach env ts ordered S'"

section \<open>Effects of the sections\<close>

text \<open>Handles stay what they are until the adapter is closed.\<close>

definition grows :: "camera_state \<Rightarrow> camera_state \<Rightarrow> bool" where
  "grows s s' \<longleftrightarrow> gralloc_ok (fst (graphics_of s')) \<and>
     (\<forall>h hnd. gs_handles (fst (graphics_of s)) h = Some hnd \<longrightarrow> gs_handles (fst (graphics_of s')) h = Some hnd)"

text \<open>A section that works on one buffer and leaves the queues, the results and all other buffers alone.\<close>

definition touches :: "u64 set \<Rightarrow> camera_state \<Rightarrow> camera_state \<Rightarrow> bool" where
  "touches P s s' \<longleftrightarrow> grows s s' \<and> mResults s' = mResults s \<and> mCapturedBuffers s' = mCapturedBuffers s \<and>
     (\<forall>q. q \<notin> P \<longrightarrow> bufs s' q = bufs s q) \<and> (\<forall>q. bufs s q \<noteq> None \<longrightarrow> bufs s' q \<noteq> None)"

lemma touches_refl: "gralloc_ok (fst (graphics_of s)) \<Longrightarrow> touches P s s"
  by (simp add: touches_def grows_def)

lemma touches_trans: "touches P s s' \<Longrightarrow> touches Q s' s'' \<Longrightarrow> touches (P \<union> Q) s s''"
  by (auto simp: touches_def grows_def)

lemma map_fd_keeps:
  assumes "kernel_ok env" "gralloc_ok s"
    and "gralloc_map_fd env s fd sz w h st fmt u = Ret (err, out, s')"
  shows "gs_handles s p = Some hnd \<longrightarrow> gs_handles s' p = Some hnd"
proof
  assume p: "gs_handles s p = Some hnd"
  from assms(3) obtain q where q: "env_new env s = Some q"
    by (auto simp: gralloc_map_fd_def new_object_def bindE_Ret_iff split: option.splits)
  then have "q \<noteq> p" using assms(1) p by (auto simp: kernel_ok_def)
  with assms(3) q p show "gs_handles s' p = Some hnd"
    by (auto simp: gralloc_map_fd_def new_object_def bindE_Ret_iff Let_def mapBuffer_def gralloc_map_def set_handle_def
        delete_handle_def split: if_splits sum.splits)
qed

lemma mapMemory_effect:
  assumes k: "kernel_ok env" and ok: "gralloc_ok (fst (graphics_of s))" and run: "mapMemory env s p = Ret (r, s')"
  shows "touches {p} s s' \<and> mQueuedBuffers s' = mQueuedBuffers s \<and> mPendingBuffers s' = mPendingBuffers s \<and>
    frame_number s' = frame_number s \<and> mRequestSettings s' = mRequestSettings s"
proof (cases "s' = s")
  case True
  then show ?thesis using touches_refl [OF ok] by simp
next
  case False
  with run obtain b fd sz w h st out gr err where
    g: "gralloc_map_fd env (fst (graphics_of s)) fd sz w h st 0x11 0x10000 = Ret (err, out, gr)"
    and s': "fst (graphics_of s') = gr" "mResults s' = mResults s" "mCapturedBuffers s' = mCapturedBuffers s"
      "mQueuedBuffers s' = mQueuedBuffers s" "mPendingBuffers s' = mPendingBuffers s"
      "frame_number s' = frame_number s" "mRequestSettings s' = mRequestSettings s"
    and b: "\<forall>q. q \<noteq> p \<longrightarrow> bufs s' q = bufs s q" "\<forall>q. bufs s q \<noteq> None \<longrightarrow> bufs s' q \<noteq> None"
    by (auto simp: mapMemory_def bindE_Ret_iff Let_def set_buf_def split: if_splits option.splits)
  from map_fd_keeps [OF k ok g] map_fd_ok [OF ok k g] s' b show ?thesis by (auto simp: touches_def grows_def)
qed

text \<open>The effect of a section that may end inside the HAL: whether a buffer was queued, and which.\<close>

definition queues :: "u64 set \<Rightarrow> BufferWrapper list \<Rightarrow> camera_state \<Rightarrow> (int + camera3_capture_request_t) \<Rightarrow> camera_state \<Rightarrow> bool" where
  "queues P ws s r s' \<longleftrightarrow> touches P s s' \<and>
     (case r of
        Inl _ \<Rightarrow> mQueuedBuffers s' = mQueuedBuffers s \<and> frame_number s' = frame_number s
      | Inr req \<Rightarrow> (\<exists>w \<in> set ws. bw_buffer w \<in> P \<and> mQueuedBuffers s' = mQueuedBuffers s @ [w]) \<and>
          frame_number s' = frame_number s + 1 \<and> frame_number s' < 2 ^ 31)"

lemma capture_request_effect:
  assumes run: "capture_request s st sid p = Ret (r, s')" and ok: "gralloc_ok (fst (graphics_of s))"
  shows "queues {p} [\<lparr>stream_id = sid, bw_buffer = p\<rparr>] s r s' \<and> mPendingBuffers s' = mPendingBuffers s"
  using run ok
  by (auto simp: capture_request_def bindE_Ret_iff Let_def int32E_def queues_def touches_def grows_def split: if_splits)

lemma queues_trans:
  "touches P s s1 \<Longrightarrow> mQueuedBuffers s1 = mQueuedBuffers s \<Longrightarrow> frame_number s1 = frame_number s \<Longrightarrow>
   queues Q ws s1 r s' \<Longrightarrow> queues (P \<union> Q) ws s r s'"
  using touches_trans [of P s s1 Q s'] by (auto simp: queues_def split: sum.splits)

lemma capture_begin_effect:
  assumes k: "kernel_ok env" and ok: "gralloc_ok (fst (graphics_of s))" and run: "capture_begin env s sid p = Ret (r, s')"
  shows "queues {p} [\<lparr>stream_id = sid, bw_buffer = p\<rparr>] s r s' \<and> mPendingBuffers s' = mPendingBuffers s"
proof -
  from run obtain b st s1 where
    s1: "(if cb_dmafd b > 0 \<and> mBufferMapping s (fd_key b) = None then mapMemory env s p else Ret (OK, s)) = Ret (st, s1)"
    and rest: "capture_request s1 st sid p = Ret (r, s')"
    unfolding capture_begin_def bindE_Ret_iff by fastforce
  have t: "touches {p} s s1 \<and> mQueuedBuffers s1 = mQueuedBuffers s \<and> mPendingBuffers s1 = mPendingBuffers s \<and>
      frame_number s1 = frame_number s"
    using s1 mapMemory_effect [OF k ok] touches_refl [OF ok] by (auto split: if_splits)
  then have "gralloc_ok (fst (graphics_of s1))" by (simp add: touches_def grows_def)
  with capture_request_effect [OF rest] t queues_trans [of "{p}" s s1 "{p}"] show ?thesis by simp
qed

lemma start_loop_effect:
  assumes k: "kernel_ok env"
  shows "start_loop env s ws = Ret (r, s') \<Longrightarrow> gralloc_ok (fst (graphics_of s)) \<Longrightarrow> mPendingBuffers s = ws \<Longrightarrow>
    queues (bw_buffer ` set ws) ws s r s' \<and>
    (case r of Inl _ \<Rightarrow> mPendingBuffers s' = [] | Inr req \<Rightarrow> (\<exists>lost. ws = lost @ last (mQueuedBuffers s') # mPendingBuffers s'))"
proof (induction ws arbitrary: s)
  case Nil
  then show ?case using touches_refl by (auto simp: queues_def)
next
  case (Cons w ws)
  let ?s = "s\<lparr>mPendingBuffers := ws\<rparr>"
  from Cons.prems(1) obtain r1 s1 where
    c: "capture_begin env ?s (stream_id w) (bw_buffer w) = Ret (r1, s1)"
    and rest: "(case r1 of Inl _ \<Rightarrow> start_loop env s1 ws | Inr request \<Rightarrow> Ret (Inr request, s1)) = Ret (r, s')"
    by (auto simp: bindE_Ret_iff)
  have q: "queues {bw_buffer w} [w] s r1 s1" "mPendingBuffers s1 = ws"
    using capture_begin_effect [OF k _ c] Cons.prems(2) by (auto simp: queues_def touches_def grows_def split: sum.splits)
  show ?case
  proof (cases r1)
    case (Inr req)
    with rest q show ?thesis by (auto simp: queues_def touches_def)
  next
    case (Inl x)
    with rest have run: "start_loop env s1 ws = Ret (r, s')" by simp
    have t: "touches {bw_buffer w} s s1" "mQueuedBuffers s1 = mQueuedBuffers s" "frame_number s1 = frame_number s"
      using q(1) Inl by (simp_all add: queues_def)
    have "gralloc_ok (fst (graphics_of s1))" using t(1) by (simp add: touches_def grows_def)
    from Cons.IH [OF run this q(2)] have ih: "queues (bw_buffer ` set ws) ws s1 r s'"
      "case r of Inl _ \<Rightarrow> mPendingBuffers s' = [] | Inr req \<Rightarrow> \<exists>lost. ws = lost @ last (mQueuedBuffers s') # mPendingBuffers s'"
      by blast+
    have "touches (bw_buffer ` set (w # ws)) s s'"
      using touches_trans [OF t(1), of "bw_buffer ` set ws" s'] ih(1) by (simp add: queues_def)
    moreover have "case r of Inl _ \<Rightarrow> True | Inr req \<Rightarrow> \<exists>lost. w # ws = lost @ last (mQueuedBuffers s') # mPendingBuffers s'"
      using ih(2) by (auto split: sum.splits intro: exI [of _ "w # _"])
    ultimately show ?thesis using ih t(2,3) by (auto simp: queues_def split: sum.splits)
  qed
qed

lemma alloc_buffer_keeps:
  assumes k: "kernel_ok env" and run: "gralloc_alloc_buffer env s sz = Ret (err, out, s')" and p: "gs_handles s p = Some hnd"
  shows "gs_handles s' p = Some hnd \<and> out \<noteq> Some p"
proof -
  define s1 where "s1 = s\<lparr>gs_fds := env_ashmem env s (roundUpToPageSize sz) # gs_fds s\<rparr>"
  have "gs_handles s1 = gs_handles s" by (simp add: s1_def)
  then have "env_new env s1 = Some q \<Longrightarrow> q \<noteq> p" for q using k p unfolding kernel_ok_def by (metis domI)
  with run p show ?thesis
    by (auto simp: gralloc_alloc_buffer_def Let_def s1_def [symmetric] new_object_def bindE_Ret_iff mapBuffer_def
        gralloc_map_def set_handle_def split: if_splits option.splits sum.splits)
      (simp_all add: s1_def)
qed

lemma gralloc_alloc_split:
  assumes run: "gralloc_alloc env s w h fmt usage = Ret (err, out, s')" and fb: "usage AND GRALLOC_USAGE_HW_FB = 0"
  shows "s' = s \<or> (\<exists>sz r0 out0 s0. gralloc_alloc_buffer env s sz = Ret (r0, out0, s0) \<and>
    (s' = s0 \<or> (\<exists>q f. out0 = Some q \<and> gs_handles s' = (gs_handles s0)(q \<mapsto> f))))"
proof (cases "gralloc_bits fmt")
  case None
  with run show ?thesis by (simp add: gralloc_alloc_def)
next
  case (Some bits)
  with run fb obtain sz r0 out0 s0 stride where b: "gralloc_alloc_buffer env s sz = Ret (r0, out0, s0)"
    and rest: "(if r0 < 0 then Ret (r0, None, s0) else bindE (deref out0) (\<lambda>p. bindE (deref (gs_handles s0 p)) (\<lambda>hnd.
      Ret (0, Some (p, int_of_size stride), set_handle p (hnd\<lparr>ph_width := w, ph_height := h,
        ph_stride := int_of_size stride, ph_halFormat := fmt, ph_usage := usage\<rparr>) s0)))) = Ret (err, out, s')"
    unfolding gralloc_alloc_def Some option.case bindE_Ret_iff Let_def fb by fastforce
  from rest have "s' = s0 \<or> (\<exists>q f. out0 = Some q \<and> gs_handles s' = (gs_handles s0)(q \<mapsto> f))"
    by (auto simp: bindE_Ret_iff set_handle_def deref_def split: if_splits option.splits)
  with b show ?thesis by blast
qed

lemma gralloc_alloc_keeps:
  assumes k: "kernel_ok env" and fb: "usage AND GRALLOC_USAGE_HW_FB = 0" and p: "gs_handles s p = Some hnd"
    and run: "gralloc_alloc env s w h fmt usage = Ret (err, out, s')"
  shows "gs_handles s' p = Some hnd"
  using gralloc_alloc_split [OF run fb] alloc_buffer_keeps [OF k _ p] p by (metis fun_upd_other)

lemma GraphicBuffer_new_keeps:
  assumes k: "kernel_ok env" and fb: "usage AND GRALLOC_USAGE_HW_FB = 0" and p: "gs_handles (fst g) p = Some hnd"
    and run: "GraphicBuffer_new env g uid w h fmt usage = Ret (gb, g')"
  shows "gs_handles (fst g') p = Some hnd"
proof -
  from run obtain err gb1 where "initSize env g (GraphicBuffer_empty uid) w h fmt usage = Ret (err, gb1, g')"
    by (auto simp: GraphicBuffer_new_def bindE_Ret_iff)
  then obtain out s' al' where "GraphicBufferAllocator_alloc env (fst g) (snd g) w h fmt usage = Ret (err, out, s', al')" "fst g' = s'"
    by (auto simp: initSize_def bindE_Ret_iff split: if_splits)
  with gralloc_alloc_keeps [OF k alloc_mask_clears_fb [OF fb] p] show ?thesis
    by (auto elim!: allocator_alloc_split)
qed

lemma GraphicBuffer_new_ok:
  assumes ok: "gralloc_ok (fst g)" and k: "kernel_ok env" and fb: "usage AND GRALLOC_USAGE_HW_FB = 0"
    and run: "GraphicBuffer_new env g uid w h fmt usage = Ret (gb, g')"
  shows "gralloc_ok (fst g') \<and> (if initCheck gb = OK then buffer_live g' gb else gb_handle gb = 0)"
proof -
  from run obtain err gb1 where i: "initSize env g (GraphicBuffer_empty uid) w h fmt usage = Ret (err, gb1, g')"
    and gb: "gb = gb1\<lparr>mInitCheck := err\<rparr>"
    by (auto simp: GraphicBuffer_new_def bindE_Ret_iff)
  have "err \<noteq> OK \<Longrightarrow> gb1 = GraphicBuffer_empty uid"
    using i by (auto simp: initSize_def bindE_Ret_iff split: if_splits)
  with initSize_ok [OF ok k fb i] show ?thesis
    by (auto simp: gb initCheck_def buffer_live_def GraphicBuffer_empty_def)
qed

lemma allocateMemory_effect:
  assumes k: "kernel_ok env" and ok: "gralloc_ok (fst (graphics_of s))" and run: "allocateMemory env s uid p = Ret (r, s')"
  shows "touches {p} s s' \<and> mQueuedBuffers s' = mQueuedBuffers s \<and> mPendingBuffers s' = mPendingBuffers s \<and>
    frame_number s' = frame_number s"
proof (cases "s' = s")
  case True
  then show ?thesis using touches_refl [OF ok] by simp
next
  case False
  with run have p0: "p \<noteq> 0" by (auto simp: mapMemory_def allocateMemory_def)
  with run obtain b where b: "bufs s p = Some b"
    by (cases "bufs s p") (simp_all add: allocateMemory_def)
  from p0 run b False have f: "s_format (cb_s b) = V4L2_PIX_FMT_NV12"
    by (auto simp: allocateMemory_def split: if_splits)
  let ?w = "word_of_int (s_width (cb_s b))" and ?h = "word_of_int (s_height (cb_s b))"
  from run p0 b f obtain gb g where new: "GraphicBuffer_new env (graphics_of s) uid ?w ?h 0x23 0x800 = Ret (gb, g)"
    by (auto simp: allocateMemory_def bindE_Ret_iff)
  have rest: "(if initCheck gb \<noteq> OK then bindE (GraphicBuffer_delete g gb) (\<lambda>g. Ret (initCheck gb, s\<lparr>graphics_of := g\<rparr>))
      else bindE (gralloc_lock (fst g) (gb_handle gb)) (\<lambda>(status, address).
        if status \<noteq> OK then bindE (GraphicBuffer_delete g gb) (\<lambda>g. Ret (status, s\<lparr>graphics_of := g\<rparr>))
        else bindE (deref address) (\<lambda>address. bindE (GraphicBuffer_unlock g gb) (\<lambda>_.
          let s = set_buf p (b\<lparr>cb_addr := address\<rparr>) (s\<lparr>graphics_of := g\<rparr>) in
          Ret (OK, s\<lparr>mBufferMapping := (mBufferMapping s)(address \<mapsto> stream_buffer (Some (gb_handle gb))),
                     mAllocatedBuffers := mAllocatedBuffers s @ [gb]\<rparr>))))) = Ret (r, s')"
    using run p0 b f new by (simp add: allocateMemory_def Let_def)
  have fb: "(0x800 :: u32) AND GRALLOC_USAGE_HW_FB = 0" by (simp add: GRALLOC_USAGE_HW_FB_def)
  note g = GraphicBuffer_new_ok [OF ok k fb new] GraphicBuffer_new_keeps [OF k fb _ new]
  show ?thesis
  proof (cases "initCheck gb = OK")
    case True
    with g(1) lock_live obtain a where "gralloc_lock (fst g) (gb_handle gb) = Ret (0, Some a)" by metis
    with True rest b g show ?thesis
      by (auto simp: bindE_Ret_iff Let_def set_buf_def touches_def grows_def)
  next
    case False
    with rest g(1) have "s' = s\<lparr>graphics_of := g\<rparr>" by (simp add: GraphicBuffer_delete_def)
    with g show ?thesis by (auto simp: touches_def grows_def)
  qed
qed

text \<open>Settings and configuration leave the buffers alone.\<close>

definition settles :: "camera_state \<Rightarrow> camera_state \<Rightarrow> bool" where
  "settles s s' \<longleftrightarrow> mResults s' = mResults s \<and> mCapturedBuffers s' = mCapturedBuffers s \<and> mQueuedBuffers s' = mQueuedBuffers s \<and>
     mPendingBuffers s' = mPendingBuffers s \<and> bufs s' = bufs s \<and> graphics_of s' = graphics_of s \<and> frame_number s' = frame_number s"

lemma settles_cases:
  "adapter_open vo malloc loc0 initialize hal s = Ret (r, s') \<Longrightarrow> settles s s'"
  "setParameters vo malloc loc hal param s = Ret (r, s') \<Longrightarrow> settles s s'"
  "configStreams configure_streams s streams = Ret (r, s') \<Longrightarrow> settles s s'"
  by (auto simp: adapter_open_def constructDefaultRequest_def setParameters_def configStreams_def bindE_Ret_iff Let_def
      settles_def split: if_splits option.splits list.splits)

lemma settles_effect:
  assumes "settles s s'" "gralloc_ok (fst (graphics_of s))"
  shows "touches {} s s' \<and> mQueuedBuffers s' = mQueuedBuffers s \<and> mPendingBuffers s' = mPendingBuffers s \<and>
    frame_number s' = frame_number s"
  using assms by (auto simp: settles_def touches_def grows_def)

end
