(* ===== verification/Camera_Props.thy ===== *)
theory Camera_Props
  imports Camera_Queue
begin

text \<open>
  What the adapter guarantees.  While the HAL sends a buffer only after the metadata of all earlier frames,
  an invariant over all reachable states shows that the frames are delivered in the order of their
  requests, each once, with the number, the timestamp and the address of its own result.
  Without that order, which \<open>camera3.h\<close> does not promise, the code mixes up frames.
\<close>

section \<open>What a result does\<close>

lemma le_word64_bytes [simp]: "le_word64 (le_bytes64 w) = w"
proof (rule bit_word_eqI)
  fix n assume "n < LENGTH(64)"
  then show "bit (le_word64 (le_bytes64 w)) n = bit w n"
    by (cases "n < 32") (auto simp: le_word64_def le_bytes64_def bit_or_iff bit_push_bit_iff bit_ucast_iff bit_drop_bit_eq)
qed

lemma timestamp_value:
  assumes "timestamped m t"
  shows "result_timestamp (meta_result f m) x = Ret t"
proof -
  from assms have st: "static_ok None m" by (simp add: timestamped_def)
  show ?thesis
  proof (cases rule: static_lookup [OF st read_types(7) read_sections(7)])
    case 1
    then show ?thesis using assms by (simp add: timestamped_def)
  next
    case (2 e v)
    then have v: "v = le_bytes64 t" using assms by (simp add: timestamped_def)
    have "unat (en_count e) * 8 = 8" using 2(3) by (simp add: shows_value_def v)
    then have "en_count e = 1" by (simp add: word_unat_eq_iff)
    moreover have "data_i64 m e 0 = Ret (sint t)"
      using data_i64_value [OF 2(3), of 0] by (simp add: v i64_at_def)
    ultimately show ?thesis using 2(2) by (simp add: result_timestamp_def meta_result_def)
  qed
qed

text \<open>A metadata result or a buffer result, with the entry of the frame in \<open>mResults\<close> looked up.\<close>

lemma metadata_run:
  assumes "timestamped m t"
    and r: "r = (case mResults s (key f) of Some r \<Rightarrow> r | None \<Rightarrow> \<lparr>metadataDone = False, buffersDone = False, r_timestamp = 0\<rparr>)"
  shows "processCaptureResult s (meta_result f m) =
    (let r = r\<lparr>r_timestamp := t, metadataDone := True\<rparr> in
     if buffersDone r then result_done s (key f) r else Ret (s\<lparr>mResults := (mResults s)(key f \<mapsto> r)\<rparr>))"
proof -
  have n: "res_frame_number (meta_result f m) = key f" "res_num_output_buffers (meta_result f m) = 0"
    by (simp_all add: meta_result_def)
  show ?thesis
    unfolding processCaptureResult_def n r [symmetric] Let_def timestamp_value [OF assms(1)] by simp
qed

lemma buffer_run:
  assumes run: "result_buffer s (buffer_result f) = Ret s1"
    and r: "r = (case mResults s (key f) of Some r \<Rightarrow> r | None \<Rightarrow> \<lparr>metadataDone = False, buffersDone = False, r_timestamp = 0\<rparr>)"
  shows "processCaptureResult s (buffer_result f) =
    (let r = r\<lparr>buffersDone := True\<rparr> in
     if metadataDone r then result_done s1 (key f) r else Ret (s1\<lparr>mResults := (mResults s1)(key f \<mapsto> r)\<rparr>))"
proof -
  have n: "res_frame_number (buffer_result f) = key f" "res_num_output_buffers (buffer_result f) = 1"
    by (simp_all add: buffer_result_def)
  show ?thesis unfolding processCaptureResult_def n r [symmetric] Let_def run by simp
qed

lemma done_run:
  assumes "mQueuedBuffers s = wr f # rest" "bufs s (fr_ptr f) = Some b"
  shows "result_done s n r = Ret (set_buf (fr_ptr f) (b\<lparr>cb_timestamp := r_timestamp r\<rparr>) (s\<lparr>mQueuedBuffers := rest,
      mCapturedBuffers := mCapturedBuffers s @ [wr f], mResults := (mResults s)(n := None)\<rparr>))"
proof -
  have "bw_buffer (wr f) = fr_ptr f" by (simp add: wr_def)
  then show ?thesis by (simp add: result_done_def assms)
qed

text \<open>A buffer result whose handle is live goes to the oldest queued buffer.\<close>

lemma result_buffer_oldest:
  assumes ok: "gralloc_ok (fst (graphics_of s))" and h: "fr_handle g = Some h" "gs_handles (fst (graphics_of s)) h = Some hnd"
    and q: "mQueuedBuffers s = wr f # rest" "bufs s (fr_ptr f) = Some b" and n: "0 \<le> fr_num g" "fr_num g < 2 ^ 31"
  shows "result_buffer s (buffer_result g) = Ret (set_buf (fr_ptr f) (b\<lparr>cb_addr := ph_base hnd, cb_sequence := fr_num g\<rparr>) s)"
proof -
  have "sint (key g) = fr_num g"
    using n by (simp add: key_def signed_of_int signed_take_bit_int_eq_self)
  moreover have "gralloc_lock (fst (graphics_of s)) h = Ret (0, Some (ph_base hnd))"
    using validate_live [OF ok h(2)] h(2) by (simp add: gralloc_lock_def)
  ultimately show ?thesis using h q by (simp add: result_buffer_def buffer_result_def stream_buffer_def wr_def)
qed

section \<open>The invariant\<close>

lemma sorted_wrt_neq_distinct: "sorted_wrt (\<noteq>) xs = distinct xs"
  by (induction xs) auto


definition completed :: "camera_system \<Rightarrow> nat" where
  "completed S = min (metas S) (buffers S)"

definition counts_inv :: "camera_system \<Rightarrow> bool" where
  "counts_inv S \<longleftrightarrow> metas S \<le> accepted S \<and> buffers S \<le> accepted S \<and> buffers S \<le> Suc (metas S) \<and>
     accepted S \<le> length (log S) \<and> length (log S) \<le> Suc (accepted S) \<and> (pc S = Idle \<longrightarrow> accepted S = length (log S)) \<and>
     length (delivered S) \<le> completed S"

definition lists_inv :: "camera_system \<Rightarrow> bool" where
  "lists_inv S \<longleftrightarrow> mQueuedBuffers (cam S) = map wr (drop (completed S) (log S)) \<and>
     mCapturedBuffers (cam S) = map wr (drop (length (delivered S)) (take (completed S) (log S))) \<and>
     map fst (delivered S) = map fr_ptr (take (length (delivered S)) (log S))"

text \<open>The results that wait for their other half.\<close>

definition open_results :: "(int \<Rightarrow> u64) \<Rightarrow> nat \<Rightarrow> nat \<Rightarrow> frame list \<Rightarrow> u32 \<rightharpoonup> Result" where
  "open_results ts m b fs = map_of
     (map (\<lambda>f. (key f, \<lparr>metadataDone = True, buffersDone = False, r_timestamp = ts (fr_num f)\<rparr>)) (drop b (take m fs)) @
      map (\<lambda>f. (key f, \<lparr>metadataDone = False, buffersDone = True, r_timestamp = 0\<rparr>)) (drop m (take b fs)))"

definition nums_inv :: "camera_system \<Rightarrow> bool" where
  "nums_inv S \<longleftrightarrow> sorted_wrt (<) (map fr_num (log S)) \<and>
     (\<forall>f \<in> set (log S). 0 \<le> fr_num f \<and> fr_num f < frame_number (cam S)) \<and>
     0 \<le> frame_number (cam S) \<and> frame_number (cam S) < 2 ^ 31"

text \<open>What the results of a frame write into its buffer.\<close>

definition filled :: "(int \<Rightarrow> u64) \<Rightarrow> camera_state \<Rightarrow> frame \<Rightarrow> camera_buffer_t \<Rightarrow> bool \<Rightarrow> bool" where
  "filled ts s f b stamped \<longleftrightarrow> cb_sequence b = fr_num f \<and> (stamped \<longrightarrow> cb_timestamp b = ts (fr_num f)) \<and>
     (\<exists>h hnd. fr_handle f = Some h \<and> gs_handles (fst (graphics_of s)) h = Some hnd \<and> cb_addr b = ph_base hnd)"

definition mem_inv :: "(int \<Rightarrow> u64) \<Rightarrow> camera_system \<Rightarrow> bool" where
  "mem_inv ts S \<longleftrightarrow>
     (\<forall>i < buffers S. length (delivered S) \<le> i \<longrightarrow>
        (\<exists>b. bufs (cam S) (fr_ptr (log S ! i)) = Some b \<and> filled ts (cam S) (log S ! i) b (i < metas S))) \<and>
     (\<forall>i < length (delivered S). filled ts (cam S) (log S ! i) (snd (delivered S ! i)) True) \<and>
     (\<forall>i < accepted S. live_handle (cam S) (fr_handle (log S ! i)))"

definition own_inv :: "camera_state \<Rightarrow> bool" where
  "own_inv s \<longleftrightarrow> distinct (held s) \<and> (\<forall>p \<in> set (held s). bufs s p \<noteq> None) \<and> gralloc_ok (fst (graphics_of s))"

definition cam_inv :: "(int \<Rightarrow> u64) \<Rightarrow> camera_system \<Rightarrow> bool" where
  "cam_inv ts S \<longleftrightarrow> counts_inv S \<and> lists_inv S \<and> nums_inv S \<and> mem_inv ts S \<and> own_inv (cam S) \<and>
     mResults (cam S) = open_results ts (metas S) (buffers S) (log S)"

lemmas inv_defs = counts_inv_def lists_inv_def nums_inv_def mem_inv_def own_inv_def completed_def

lemma drop_take_Cons: "i < n \<Longrightarrow> n \<le> length xs \<Longrightarrow> drop i (take n xs) = xs ! i # drop (Suc i) (take n xs)"
  using Cons_nth_drop_Suc [of i "take n xs"] by simp

lemma filled_grows: "grows s s' \<Longrightarrow> filled ts s f b t \<Longrightarrow> filled ts s' f b t"
  by (auto simp: grows_def filled_def)

lemma live_grows: "grows s s' \<Longrightarrow> live_handle s h \<Longrightarrow> live_handle s' h"
  by (auto simp: grows_def live_handle_def)

lemma key_inject:
  assumes "0 \<le> fr_num f" "fr_num f < 2 ^ 31" "0 \<le> fr_num g" "fr_num g < 2 ^ 31" and "key f = key g"
  shows "fr_num f = fr_num g"
proof -
  have "take_bit 32 (fr_num f) = take_bit 32 (fr_num g)"
    using assms(5) by (simp add: key_def word_of_int_eq_iff)
  then show ?thesis using assms(1-4) by (simp add: take_bit_int_eq_self)
qed

lemma keys_distinct:
  assumes "nums_inv S"
  shows "distinct (map key (log S))"
proof -
  have "sorted_wrt (\<lambda>f g. key f \<noteq> key g) (log S)"
  proof (rule sorted_wrt_mono_rel)
    show "sorted_wrt (\<lambda>f g. fr_num f < fr_num g) (log S)" using assms by (simp add: nums_inv_def sorted_wrt_map)
  next
    fix f g assume "f \<in> set (log S)" "g \<in> set (log S)" "fr_num f < fr_num g"
    moreover have "h \<in> set (log S) \<Longrightarrow> 0 \<le> fr_num h \<and> fr_num h < 2 ^ 31" for h
      using assms by (force simp: nums_inv_def)
    ultimately show "key f \<noteq> key g" using key_inject [of f g] by fastforce
  qed
  then have "sorted_wrt (\<noteq>) (map key (log S))" by (simp add: sorted_wrt_map)
  then show ?thesis by (simp add: sorted_wrt_neq_distinct)
qed

section \<open>Sections of the client\<close>

text \<open>The buffers with the HAL and the captured ones are those of the frames not yet delivered, in order.\<close>

lemma in_flight:
  assumes "counts_inv S" "lists_inv S"
  shows "map bw_buffer (mCapturedBuffers (cam S) @ mQueuedBuffers (cam S)) = map fr_ptr (drop (length (delivered S)) (log S))"
proof -
  let ?d = "length (delivered S)" and ?c = "completed S"
  have "?d \<le> ?c" "?c \<le> length (log S)" using assms(1) by (auto simp: counts_inv_def completed_def)
  then have "drop ?d (log S) = drop ?d (take ?c (log S)) @ drop ?c (log S)"
    by (metis append_take_drop_id drop_append diff_is_0_eq drop_0 length_take min.absorb2)
  then show ?thesis using assms(2) by (simp add: lists_inv_def wr_def comp_def)
qed

lemma frame_held:
  assumes "counts_inv S" "lists_inv S" "length (delivered S) \<le> i" "i < length (log S)"
  shows "fr_ptr (log S ! i) \<in> bw_buffer ` set (mQueuedBuffers (cam S) @ mCapturedBuffers (cam S))"
proof -
  have "log S ! i \<in> set (drop (length (delivered S)) (log S))"
    using assms(3,4) nth_mem [of "i - length (delivered S)" "drop (length (delivered S)) (log S)"] by simp
  then have "fr_ptr (log S ! i) \<in> set (map fr_ptr (drop (length (delivered S)) (log S)))" by simp
  then show ?thesis unfolding in_flight [OF assms(1,2), symmetric] by auto
qed

text \<open>A section that does not touch the frames in flight.\<close>

lemma inv_quiet:
  assumes inv: "cam_inv ts S" and t: "touches P (cam S) s'"
    and P: "P \<inter> bw_buffer ` set (mQueuedBuffers (cam S) @ mCapturedBuffers (cam S)) = {}"
    and q: "mQueuedBuffers s' = mQueuedBuffers (cam S)"
    and n: "frame_number (cam S) \<le> frame_number s'" "frame_number s' < 2 ^ 31" and own: "own_inv s'"
    and pc: "pc' = Idle \<longrightarrow> accepted S = length (log S)"
  shows "cam_inv ts (S\<lparr>cam := s', pc := pc'\<rparr>)"
proof -
  have g: "grows (cam S) s'" using t by (simp add: touches_def)
  have c: "counts_inv S" "lists_inv S" using inv by (simp_all add: cam_inv_def)
  have keep: "length (delivered S) \<le> i \<Longrightarrow> i < buffers S \<Longrightarrow> bufs s' (fr_ptr (log S ! i)) = bufs (cam S) (fr_ptr (log S ! i))" for i
    using frame_held [OF c, of i] P t c(1) by (auto simp: touches_def counts_inv_def)
  have "mem_inv ts (S\<lparr>cam := s', pc := pc'\<rparr>)"
    using inv keep filled_grows [OF g] live_grows [OF g] by (simp add: cam_inv_def mem_inv_def) metis
  moreover have "nums_inv (S\<lparr>cam := s', pc := pc'\<rparr>)"
    using inv n by (force simp: cam_inv_def nums_inv_def)
  moreover have "lists_inv (S\<lparr>cam := s', pc := pc'\<rparr>)" "counts_inv (S\<lparr>cam := s', pc := pc'\<rparr>)"
    using c t q pc by (simp_all add: lists_inv_def counts_inv_def completed_def touches_def)
  ultimately show ?thesis using inv t own by (simp add: cam_inv_def touches_def)
qed

text \<open>A section that ends inside the HAL with one more frame.\<close>

lemma inv_enter:
  assumes inv: "cam_inv ts S" and acc: "accepted S = length (log S)" and run: "queues P ws (cam S) (Inr req) s'"
    and P: "P \<inter> bw_buffer ` set (mQueuedBuffers (cam S) @ mCapturedBuffers (cam S)) = {}" and own: "own_inv s'"
  shows "cam_inv ts (enter b S (Inr req) s')"
proof -
  let ?S = "enter b S (Inr req) s'"
  from run obtain w where t: "touches P (cam S) s'" and q: "mQueuedBuffers s' = mQueuedBuffers (cam S) @ [w]"
    and n: "frame_number s' = frame_number (cam S) + 1" "frame_number s' < 2 ^ 31"
    by (auto simp: queues_def)
  define f where "f = \<lparr>fr_ptr = bw_buffer w, fr_sid = stream_id w, fr_num = frame_number (cam S), fr_handle = c3_buffer (rq_output req)\<rparr>"
  have S': "?S = S\<lparr>cam := s', pc := In_hal b, log := log S @ [f]\<rparr>" using q n by (simp add: enter_def f_def)
  have g: "grows (cam S) s'" using t by (simp add: touches_def)
  have c: "counts_inv S" "lists_inv S" using inv by (simp_all add: cam_inv_def)
  have le: "completed S \<le> length (log S)" "length (delivered S) \<le> length (log S)" "buffers S \<le> length (log S)" "metas S \<le> length (log S)"
    using c(1) by (auto simp: counts_inv_def completed_def)
  have w: "wr f = w" by (simp add: wr_def f_def)
  have keep: "length (delivered S) \<le> i \<Longrightarrow> i < buffers S \<Longrightarrow> bufs s' (fr_ptr (log S ! i)) = bufs (cam S) (fr_ptr (log S ! i))" for i
    using frame_held [OF c, of i] P t le(3) by (auto simp: touches_def)
  have "mem_inv ts ?S"
    using inv keep filled_grows [OF g] live_grows [OF g] le acc
    by (simp add: S' cam_inv_def mem_inv_def nth_append) (metis less_le_trans)
  moreover have "nums_inv ?S"
    using inv n by (force simp: S' cam_inv_def nums_inv_def sorted_wrt_append f_def)
  moreover have "counts_inv ?S" using c(1) acc by (simp add: S' counts_inv_def completed_def)
  moreover have "lists_inv ?S" using c(2) t le w q by (simp add: S' lists_inv_def completed_def touches_def)
  ultimately show ?thesis using inv t own le
    by (simp add: S' cam_inv_def touches_def open_results_def)
qed

lemma inv_section:
  assumes inv: "cam_inv ts S" and acc: "accepted S = length (log S)" and run: "queues P ws (cam S) r s'"
    and P: "P \<inter> bw_buffer ` set (mQueuedBuffers (cam S) @ mCapturedBuffers (cam S)) = {}" and own: "own_inv s'"
  shows "cam_inv ts (enter b S r s')"
proof (cases r)
  case (Inl x)
  have "frame_number (cam S) < 2 ^ 31" using inv by (simp add: cam_inv_def nums_inv_def)
  with inv_quiet [OF inv _ P _ _ _ own, of Idle] run Inl acc show ?thesis by (simp add: queues_def enter_def)
next
  case (Inr req)
  with inv_enter [OF inv acc _ P own] run show ?thesis by simp
qed

text \<open>The section keeps the buffers apart when it only moves pending ones into the queue.\<close>

definition moves :: "camera_state \<Rightarrow> (int + camera3_capture_request_t) \<Rightarrow> camera_state \<Rightarrow> bool" where
  "moves s r s' \<longleftrightarrow> (case r of
     Inl _ \<Rightarrow> set (mPendingBuffers s') \<subseteq> set (mPendingBuffers s) \<and> distinct (map bw_buffer (mPendingBuffers s'))
   | Inr _ \<Rightarrow> (\<exists>lost w. mPendingBuffers s = lost @ w # mPendingBuffers s' \<and> last (mQueuedBuffers s') = w) \<or>
       mPendingBuffers s' = mPendingBuffers s \<and> bw_buffer (last (mQueuedBuffers s')) \<notin> set (held s) \<and>
         bufs s (bw_buffer (last (mQueuedBuffers s'))) \<noteq> None)"

lemma own_section:
  assumes own: "own_inv s" and run: "queues P ws s r s'"
    and pend: "moves s r s'"
  shows "own_inv s'"
proof -
  have t: "mCapturedBuffers s' = mCapturedBuffers s" "gralloc_ok (fst (graphics_of s'))"
    "\<And>q. bufs s q \<noteq> None \<Longrightarrow> bufs s' q \<noteq> None" using run by (simp_all add: queues_def touches_def grows_def)
  show ?thesis
  proof (cases r)
    case (Inl x)
    let ?h = "map bw_buffer (mPendingBuffers s') @ map bw_buffer (mQueuedBuffers s) @ map bw_buffer (mCapturedBuffers s)"
    have h: "held s' = ?h" using run Inl by (simp add: held_def t queues_def)
    have sub: "set (map bw_buffer (mPendingBuffers s')) \<subseteq> set (map bw_buffer (mPendingBuffers s))"
      "distinct (map bw_buffer (mPendingBuffers s'))" using pend Inl by (auto simp: moves_def)
    then have "distinct ?h \<and> (\<forall>p \<in> set ?h. bufs s p \<noteq> None)"
      using own unfolding own_inv_def held_def map_append distinct_append set_append by blast
    with t h show ?thesis by (simp add: own_inv_def)
  next
    case (Inr req)
    then obtain w where q: "mQueuedBuffers s' = mQueuedBuffers s @ [w]" using run by (auto simp: queues_def)
    let ?h = "map bw_buffer (mPendingBuffers s') @ map bw_buffer (mQueuedBuffers s) @ bw_buffer w # map bw_buffer (mCapturedBuffers s)"
    have h: "held s' = ?h" by (simp add: held_def q t)
    have "distinct ?h \<and> (\<forall>p \<in> set ?h. bufs s p \<noteq> None)"
      using pend own unfolding moves_def Inr sum.case q last_snoc by (elim disjE exE conjE) (auto simp: own_inv_def held_def)
    with t h show ?thesis by (simp add: own_inv_def)
  qed
qed

lemma inv_queue:
  assumes k: "kernel_ok env" and inv: "cam_inv ts S" and pc: "pc S = Idle"
    and p: "p \<notin> set (held (cam S))" "bufs (cam S) p \<noteq> None" and run: "qBuf env (cam S) sid p = Ret (r, s')"
  shows "cam_inv ts (enter b S r s')"
proof -
  have own: "own_inv (cam S)" "gralloc_ok (fst (graphics_of (cam S)))" and acc: "accepted S = length (log S)"
    using inv pc by (simp_all add: cam_inv_def own_inv_def counts_inv_def)
  have P: "{p} \<inter> bw_buffer ` set (mQueuedBuffers (cam S) @ mCapturedBuffers (cam S)) = {}"
    using p(1) by (auto simp: held_def)
  consider (capt) "capture_begin env (cam S) sid p = Ret (r, s')"
    | (quiet) x where "r = Inl x" "s' = cam S \<or> s' = (cam S)\<lparr>mPendingBuffers := mPendingBuffers (cam S) @ [\<lparr>stream_id = sid, bw_buffer = p\<rparr>]\<rparr>"
    using run by (auto simp: qBuf_def split: if_splits)
  then show ?thesis
  proof cases
    case capt
    note e = capture_begin_effect [OF k own(2) capt]
    have "own_inv s'"
    proof (rule own_section [OF own(1) conjunct1 [OF e]], cases r)
      case (Inl x)
      then show "moves (cam S) r s'"
        using e own(1) by (simp add: own_inv_def held_def moves_def)
    next
      case (Inr req)
      then have "last (mQueuedBuffers s') = \<lparr>stream_id = sid, bw_buffer = p\<rparr>" using e by (auto simp: queues_def)
      with Inr e p show "moves (cam S) r s'" by (simp add: moves_def)
    qed
    with inv_section [OF inv acc _ P] e show ?thesis by blast
  next
    case quiet
    then have "queues {p} [] (cam S) r s'" using own(2) by (auto simp: queues_def touches_def grows_def)
    moreover have "own_inv s'"
      using quiet(2)
    proof
      assume "s' = (cam S)\<lparr>mPendingBuffers := mPendingBuffers (cam S) @ [\<lparr>stream_id = sid, bw_buffer = p\<rparr>]\<rparr>"
      with own(1) p show ?thesis by (simp add: own_inv_def held_def)
    qed (use own in simp)
    ultimately show ?thesis using inv_section [OF inv acc _ P] by blast
  qed
qed

lemma inv_start:
  assumes k: "kernel_ok env" and inv: "cam_inv ts S" and acc: "accepted S = length (log S)"
    and run: "start_resume env s = Ret (r, s')" and s: "s = cam S \<or> s = (cam S)\<lparr>mStarted := True\<rparr>"
  shows "cam_inv ts (enter b S r s')"
proof -
  let ?ws = "mPendingBuffers (cam S)" and ?P = "bw_buffer ` set (mPendingBuffers (cam S))"
  have own: "own_inv (cam S)" "gralloc_ok (fst (graphics_of (cam S)))"
    using inv by (simp_all add: cam_inv_def own_inv_def)
  then have P: "?P \<inter> bw_buffer ` set (mQueuedBuffers (cam S) @ mCapturedBuffers (cam S)) = {}"
    by (auto simp: own_inv_def held_def)
  have same: "mPendingBuffers s = ?ws" "graphics_of s = graphics_of (cam S)" using s by auto
  from start_loop_effect [OF k, of s ?ws r s'] run own(2) same
  have e: "queues ?P ?ws s r s'"
      "case r of Inl _ \<Rightarrow> mPendingBuffers s' = [] | Inr req \<Rightarrow> \<exists>lost. ?ws = lost @ last (mQueuedBuffers s') # mPendingBuffers s'"
    by (simp_all add: start_resume_def)
  have q: "queues ?P ?ws (cam S) r s'" using e(1) s by (auto simp: queues_def touches_def grows_def split: sum.splits)
  have "own_inv s'" using own_section [OF own(1) q] e(2) by (auto simp: moves_def split: sum.splits)
  with inv_section [OF inv acc q P] show ?thesis by blast
qed

section \<open>Sections of the HAL\<close>

text \<open>
  The frame whose halves arrive next is the first one that is not complete; its buffer is the oldest queued one.
  A result only writes there.
\<close>

lemma first_open:
  assumes inv: "cam_inv ts S" and c: "c = completed S" "c < accepted S"
  obtains b where "mQueuedBuffers (cam S) = wr (log S ! c) # map wr (drop (Suc c) (log S))"
    "bufs (cam S) (fr_ptr (log S ! c)) = Some b"
proof -
  have len: "c < length (log S)" "length (delivered S) \<le> c"
    using inv c by (auto simp: cam_inv_def counts_inv_def completed_def)
  have q: "mQueuedBuffers (cam S) = wr (log S ! c) # map wr (drop (Suc c) (log S))"
    using inv c len(1) by (simp add: cam_inv_def lists_inv_def Cons_nth_drop_Suc [symmetric])
  then have "fr_ptr (log S ! c) \<in> set (held (cam S))" by (simp add: held_def wr_def)
  then have "bufs (cam S) (fr_ptr (log S ! c)) \<noteq> None" using inv by (simp add: cam_inv_def own_inv_def)
  with q that show thesis by blast
qed

lemma frames_apart:
  assumes inv: "cam_inv ts S" and i: "length (delivered S) \<le> i" "i < length (log S)"
    and j: "length (delivered S) \<le> j" "j < length (log S)" and "i \<noteq> j"
  shows "fr_ptr (log S ! i) \<noteq> fr_ptr (log S ! j)"
proof -
  let ?d = "length (delivered S)"
  have "distinct (map bw_buffer (mCapturedBuffers (cam S) @ mQueuedBuffers (cam S)))"
    using inv by (auto simp: cam_inv_def own_inv_def held_def)
  then have "distinct (map fr_ptr (drop ?d (log S)))"
    using in_flight inv by (metis cam_inv_def)
  then have "map fr_ptr (drop ?d (log S)) ! (i - ?d) \<noteq> map fr_ptr (drop ?d (log S)) ! (j - ?d)"
    using i j \<open>i \<noteq> j\<close> by (subst nth_eq_iff_index_eq) auto
  then show ?thesis using i j by simp
qed

lemma inv_result:
  assumes inv: "cam_inv ts S" and c: "c = completed S" "c < accepted S"
    and s': "graphics_of s' = graphics_of (cam S)" "frame_number s' = frame_number (cam S)"
      "mPendingBuffers s' = mPendingBuffers (cam S)" "bufs s' = (bufs (cam S))(fr_ptr (log S ! c) \<mapsto> b)"
    and m: "metas S \<le> m'" "m' \<le> accepted S" and b: "buffers S \<le> b'" "b' \<le> accepted S" "b' \<le> Suc m'"
    and here: "c < b' \<Longrightarrow> filled ts (cam S) (log S ! c) b (c < m')"
    and others: "\<And>i. i < b' \<Longrightarrow> i \<noteq> c \<Longrightarrow> i < buffers S \<and> (i < m' \<longrightarrow> i < metas S)"
    and lists: "min m' b' = c \<and> mQueuedBuffers s' = mQueuedBuffers (cam S) \<and> mCapturedBuffers s' = mCapturedBuffers (cam S) \<or>
      min m' b' = Suc c \<and> mQueuedBuffers s' = tl (mQueuedBuffers (cam S)) \<and>
        mCapturedBuffers s' = mCapturedBuffers (cam S) @ [wr (log S ! c)]"
    and res: "mResults s' = open_results ts m' b' (log S)"
  shows "cam_inv ts (S\<lparr>cam := s', metas := m', buffers := b'\<rparr>)"
proof -
  let ?S = "S\<lparr>cam := s', metas := m', buffers := b'\<rparr>" and ?d = "length (delivered S)"
  obtain b0 where q: "mQueuedBuffers (cam S) = wr (log S ! c) # map wr (drop (Suc c) (log S))"
    using first_open [OF inv c] by metis
  have cnt: "counts_inv S" and lst: "lists_inv S" using inv by (simp_all add: cam_inv_def)
  have len: "c < length (log S)" "?d \<le> c" using cnt c by (auto simp: counts_inv_def completed_def)
  have fil: "filled ts s' f b x = filled ts (cam S) f b x" for f b x by (simp add: filled_def s')
  have "counts_inv ?S" using cnt m b lists c by (auto simp: counts_inv_def completed_def)
  moreover have "lists_inv ?S"
    using lists lst q c len by (auto simp: lists_inv_def completed_def take_Suc_conv_app_nth)
  moreover have "nums_inv ?S" using inv by (simp add: cam_inv_def nums_inv_def s')
  moreover have "own_inv s'"
  proof -
    have "mset (held s') = mset (held (cam S))" using lists q by (auto simp: held_def s' multiset.map_comp)
    then have "set (held s') = set (held (cam S))" "distinct (held s') = distinct (held (cam S))"
      using mset_eq_setD mset_eq_imp_distinct_iff by blast+
    then show ?thesis using inv by (simp add: cam_inv_def own_inv_def s')
  qed
  moreover have "mem_inv ts ?S"
  proof -
    have "\<exists>b. bufs s' (fr_ptr (log S ! i)) = Some b \<and> filled ts s' (log S ! i) b (i < m')"
      if i: "i < b'" "?d \<le> i" for i
    proof (cases "i = c")
      case True
      then show ?thesis using here i by (simp add: s' fil)
    next
      case False
      then have o: "i < buffers S" "i < m' \<longrightarrow> i < metas S" using others i by blast+
      then have "fr_ptr (log S ! i) \<noteq> fr_ptr (log S ! c)"
        using frames_apart [OF inv i(2) _ len(2,1) False] cnt by (simp add: counts_inv_def)
      moreover obtain b where "bufs (cam S) (fr_ptr (log S ! i)) = Some b" "filled ts (cam S) (log S ! i) b (i < metas S)"
        using inv o(1) i(2) by (auto simp: cam_inv_def mem_inv_def)
      ultimately show ?thesis using o(2) by (auto simp: s' fil filled_def)
    qed
    moreover have "live_handle s' h = live_handle (cam S) h" for h by (simp add: live_handle_def s')
    ultimately show ?thesis using inv by (simp add: cam_inv_def mem_inv_def fil)
  qed
  ultimately show ?thesis using res by (simp add: cam_inv_def)
qed

text \<open>How the waiting results change.\<close>

lemma open_same [simp]: "open_results ts n n fs = Map.empty"
  by (simp add: open_results_def)

lemma open_buffer_only:
  "b < length fs \<Longrightarrow> open_results ts b (Suc b) fs =
     [key (fs ! b) \<mapsto> \<lparr>metadataDone = False, buffersDone = True, r_timestamp = 0\<rparr>]"
  by (simp add: open_results_def drop_take_Cons)

lemma open_metadata:
  assumes "distinct (map key fs)" "m < length fs" "b \<le> m"
  shows "open_results ts m b fs (key (fs ! m)) = None"
    and "open_results ts (Suc m) b fs =
      (open_results ts m b fs)(key (fs ! m) \<mapsto> \<lparr>metadataDone = True, buffersDone = False, r_timestamp = ts (fr_num (fs ! m))\<rparr>)"
proof -
  have "distinct (map key (take (Suc m) fs))" using assms(1) by (metis distinct_take take_map)
  then have "key (fs ! m) \<notin> key ` set (take m fs)" using assms(2) by (simp add: take_Suc_conv_app_nth)
  then have fresh: "key (fs ! m) \<notin> key ` set (drop b (take m fs))" by (meson image_mono in_mono set_drop_subset)
  then show none: "open_results ts m b fs (key (fs ! m)) = None"
    using assms(3) by (force simp: open_results_def map_of_eq_None_iff)
  have "drop b (take (Suc m) fs) = drop b (take m fs) @ [fs ! m]" using assms(2,3) by (simp add: take_Suc_conv_app_nth)
  with none assms(3) show "open_results ts (Suc m) b fs =
      (open_results ts m b fs)(key (fs ! m) \<mapsto> \<lparr>metadataDone = True, buffersDone = False, r_timestamp = ts (fr_num (fs ! m))\<rparr>)"
    by (auto simp: open_results_def map_add_def fun_eq_iff split: option.splits)
qed

lemma open_buffer:
  assumes "distinct (map key fs)" "m \<le> length fs" "b < m"
  shows "open_results ts m b fs (key (fs ! b)) =
      Some \<lparr>metadataDone = True, buffersDone = False, r_timestamp = ts (fr_num (fs ! b))\<rparr>"
    and "open_results ts m (Suc b) fs = (open_results ts m b fs)(key (fs ! b) := None)"
proof -
  have d: "drop b (take m fs) = fs ! b # drop (Suc b) (take m fs)" using assms(2,3) by (rule drop_take_Cons [rotated])
  then show "open_results ts m b fs (key (fs ! b)) =
      Some \<lparr>metadataDone = True, buffersDone = False, r_timestamp = ts (fr_num (fs ! b))\<rparr>"
    using assms(3) by (simp add: open_results_def)
  have "distinct (map key (drop b (take m fs)))" using assms(1) by (metis distinct_drop distinct_take drop_map take_map)
  then have "key (fs ! b) \<notin> key ` set (drop (Suc b) (take m fs))" by (simp add: d)
  then have "map_of (map (\<lambda>f. (key f, \<lparr>metadataDone = True, buffersDone = False, r_timestamp = ts (fr_num f)\<rparr>))
      (drop (Suc b) (take m fs))) (key (fs ! b)) = None"
    by (force simp: map_of_eq_None_iff)
  then show "open_results ts m (Suc b) fs = (open_results ts m b fs)(key (fs ! b) := None)"
    using assms(3) by (simp add: open_results_def d fun_upd_idem)
qed

text \<open>In a state of the invariant a metadata result, or a buffer result in its turn, is taken without a fault.\<close>

lemma metadata_step:
  assumes inv: "cam_inv ts S" and i: "i = metas S" "i < accepted S" and m: "timestamped m (ts (fr_num (log S ! i)))"
  shows "\<exists>s'. processCaptureResult (cam S) (meta_result (log S ! i) m) = Ret s' \<and>
    cam_inv ts (S\<lparr>cam := s', metas := Suc i\<rparr>)"
proof -
  let ?s = "cam S" and ?f = "log S ! i"
  have cnt: "counts_inv S" and keys: "distinct (map key (log S))" and res: "mResults ?s = open_results ts i (buffers S) (log S)"
    using inv keys_distinct i by (auto simp: cam_inv_def)
  have len: "i < length (log S)" "buffers S \<le> Suc i" using cnt i by (auto simp: counts_inv_def)
  have c: "completed S < accepted S" using i by (simp add: completed_def)
  obtain b where q: "mQueuedBuffers ?s = wr (log S ! completed S) # map wr (drop (Suc (completed S)) (log S))"
    and b: "bufs ?s (fr_ptr (log S ! completed S)) = Some b" using first_open [OF inv refl c] by metis
  show ?thesis
  proof (cases "buffers S = Suc i")
    case True
    then have ci: "completed S = i" using i by (simp add: completed_def)
    let ?s' = "set_buf (fr_ptr ?f) (b\<lparr>cb_timestamp := ts (fr_num ?f)\<rparr>) (?s\<lparr>mQueuedBuffers := map wr (drop (Suc i) (log S)),
      mCapturedBuffers := mCapturedBuffers ?s @ [wr ?f], mResults := (mResults ?s)(key ?f := None)\<rparr>)"
    have "processCaptureResult ?s (meta_result ?f m) = Ret ?s'"
      using res len(1) q b
      by (subst metadata_run [OF m refl]) (simp add: ci True open_buffer_only done_run)
    moreover have "cam_inv ts (S\<lparr>cam := ?s', metas := Suc i, buffers := buffers S\<rparr>)"
    proof (rule inv_result [OF inv refl c])
      have "length (delivered S) \<le> i" using cnt ci by (simp add: counts_inv_def)
      then obtain b0 where "bufs ?s (fr_ptr ?f) = Some b0" "filled ts ?s ?f b0 (i < metas S)"
        using inv True by (auto simp: cam_inv_def mem_inv_def)
      with b show "filled ts ?s (log S ! completed S) (b\<lparr>cb_timestamp := ts (fr_num ?f)\<rparr>) (completed S < Suc i)"
        by (simp add: ci filled_def)
      show "mResults ?s' = open_results ts (Suc i) (buffers S) (log S)"
        using res len(1) by (simp add: set_buf_def True open_buffer_only)
    qed (use ci q i True in \<open>auto simp: set_buf_def\<close>)
    ultimately show ?thesis by auto
  next
    case False
    then have le: "buffers S \<le> i" using len(2) by simp
    let ?s' = "?s\<lparr>mResults := (mResults ?s)(key ?f \<mapsto> \<lparr>metadataDone = True, buffersDone = False, r_timestamp = ts (fr_num ?f)\<rparr>)\<rparr>"
    note o = open_metadata [OF keys len(1) le]
    have "processCaptureResult ?s (meta_result ?f m) = Ret ?s'"
      by (subst metadata_run [OF m refl]) (simp add: res o(1))
    moreover have "cam_inv ts (S\<lparr>cam := ?s', metas := Suc i, buffers := buffers S\<rparr>)"
      by (rule inv_result [OF inv refl c, of _ b])
        (use b i le o(2) in \<open>auto simp: completed_def res fun_upd_idem\<close>)
    ultimately show ?thesis by auto
  qed
qed

lemma buffer_step:
  assumes inv: "cam_inv ts S" and j: "j = buffers S" "j < accepted S" "j \<le> metas S"
  shows "\<exists>s'. processCaptureResult (cam S) (buffer_result (log S ! j)) = Ret s' \<and>
    cam_inv ts (S\<lparr>cam := s', buffers := Suc j\<rparr>)"
proof -
  let ?s = "cam S" and ?f = "log S ! j"
  have cnt: "counts_inv S" and keys: "distinct (map key (log S))" and res: "mResults ?s = open_results ts (metas S) j (log S)"
    using inv keys_distinct j by (auto simp: cam_inv_def)
  have len: "j < length (log S)" "metas S \<le> length (log S)" using cnt j by (auto simp: counts_inv_def)
  have c: "j = completed S" using j by (simp add: completed_def)
  obtain b where q: "mQueuedBuffers ?s = wr ?f # map wr (drop (Suc j) (log S))" and b: "bufs ?s (fr_ptr ?f) = Some b"
    using first_open [OF inv c j(2)] by metis
  from inv j(2) obtain h hnd where h: "fr_handle ?f = Some h" "gs_handles (fst (graphics_of ?s)) h = Some hnd"
    by (auto simp: cam_inv_def mem_inv_def live_handle_def)
  define b1 where "b1 = b\<lparr>cb_addr := ph_base hnd, cb_sequence := fr_num ?f\<rparr>"
  let ?s1 = "set_buf (fr_ptr ?f) b1 ?s"
  have num: "0 \<le> fr_num ?f" "fr_num ?f < 2 ^ 31" using inv nth_mem [OF len(1)] by (force simp: cam_inv_def nums_inv_def)+
  have ok: "gralloc_ok (fst (graphics_of ?s))" using inv by (simp add: cam_inv_def own_inv_def)
  have run: "result_buffer ?s (buffer_result ?f) = Ret ?s1"
    using result_buffer_oldest [OF ok h q b num] by (simp add: b1_def)
  have s1: "mQueuedBuffers ?s1 = wr ?f # map wr (drop (Suc j) (log S))" "bufs ?s1 (fr_ptr ?f) = Some b1" "mResults ?s1 = mResults ?s"
    using q by (simp_all add: set_buf_def)
  show ?thesis
  proof (cases "j = metas S")
    case True
    let ?s' = "?s1\<lparr>mResults := (mResults ?s1)(key ?f \<mapsto> \<lparr>metadataDone = False, buffersDone = True, r_timestamp = 0\<rparr>)\<rparr>"
    have "processCaptureResult ?s (buffer_result ?f) = Ret ?s'"
      by (subst buffer_run [OF run refl]) (simp add: res True)
    moreover have "cam_inv ts (S\<lparr>cam := ?s', metas := metas S, buffers := Suc j\<rparr>)"
      by (rule inv_result [OF inv c j(2)])
        (use j h len True q in \<open>auto simp: set_buf_def res open_buffer_only b1_def filled_def\<close>)
    ultimately show ?thesis by auto
  next
    case False
    then have lt: "j < metas S" using j by simp
    note o = open_buffer [OF keys len(2) lt]
    let ?s' = "set_buf (fr_ptr ?f) (b1\<lparr>cb_timestamp := ts (fr_num ?f)\<rparr>) (?s1\<lparr>mQueuedBuffers := map wr (drop (Suc j) (log S)),
      mCapturedBuffers := mCapturedBuffers ?s1 @ [wr ?f], mResults := (mResults ?s1)(key ?f := None)\<rparr>)"
    have "processCaptureResult ?s (buffer_result ?f) = Ret ?s'"
      by (subst buffer_run [OF run refl]) (simp add: res o(1) done_run [OF s1(1,2)])
    moreover have "cam_inv ts (S\<lparr>cam := ?s', metas := metas S, buffers := Suc j\<rparr>)"
      by (rule inv_result [OF inv c j(2)])
        (use j h lt q cnt o(2) in \<open>auto simp: set_buf_def res b1_def filled_def counts_inv_def\<close>)
    ultimately show ?thesis by auto
  qed
qed

section \<open>Reachable states\<close>

inductive_cases cam_stepE: "cam_step env ts ordered S S'"

lemma inv_init: "cam_start S \<Longrightarrow> cam_inv ts S"
proof -
  assume start: "cam_start S"
  from start have e: "ICameraAdapter.truncate (cam S) = ICameraAdapter_new (mCameraId (cam S))" by (simp add: cam_start_def)
  have "mPendingBuffers (cam S) = []" "mQueuedBuffers (cam S) = []" "mCapturedBuffers (cam S) = []" "mResults (cam S) = Map.empty"
    using arg_cong [OF e, of mPendingBuffers] arg_cong [OF e, of mQueuedBuffers] arg_cong [OF e, of mCapturedBuffers]
      arg_cong [OF e, of mResults] by (simp_all add: ICameraAdapter.truncate_def ICameraAdapter_new_def)
  with start show ?thesis
    by (simp add: cam_inv_def counts_inv_def lists_inv_def nums_inv_def mem_inv_def own_inv_def completed_def held_def cam_start_def)
qed

lemma inv_other:
  assumes inv: "cam_inv ts S" and t: "touches P (cam S) s'" "P \<inter> set (held (cam S)) = {}"
    and q: "mQueuedBuffers s' = mQueuedBuffers (cam S)" "mPendingBuffers s' = mPendingBuffers (cam S)"
    and n: "frame_number (cam S) \<le> frame_number s'" "frame_number s' < 2 ^ 31"
  shows "cam_inv ts (S\<lparr>cam := s'\<rparr>)"
proof -
  have h: "held s' = held (cam S)" using q t by (simp add: held_def touches_def)
  then have "own_inv s'" using inv t by (auto simp: cam_inv_def own_inv_def touches_def grows_def)
  moreover have "P \<inter> bw_buffer ` set (mQueuedBuffers (cam S) @ mCapturedBuffers (cam S)) = {}"
    using t(2) by (auto simp: held_def)
  moreover have "pc S = Idle \<longrightarrow> accepted S = length (log S)" using inv by (simp add: cam_inv_def counts_inv_def)
  ultimately show ?thesis using inv_quiet [OF inv t(1) _ q(1) n, of "pc S"] by simp
qed

lemma inv_settles:
  assumes inv: "cam_inv ts S" and s: "settles (cam S) s'"
  shows "cam_inv ts (S\<lparr>cam := s'\<rparr>)"
proof -
  have ok: "gralloc_ok (fst (graphics_of (cam S)))" "frame_number (cam S) < 2 ^ 31"
    using inv by (simp_all add: cam_inv_def own_inv_def nums_inv_def)
  with settles_effect [OF s ok(1)] show ?thesis using inv_other [OF inv, of "{}" s'] by simp
qed

lemma inv_dequeue:
  assumes inv: "cam_inv ts S" and run: "dqBuf id (cam S) = ((OK, Some p), s')"
  shows "cam_inv ts (S\<lparr>cam := s', delivered := delivered S @ [(p, the (bufs (cam S) p))]\<rparr>)"
proof -
  let ?d = "length (delivered S)"
  from run obtain w rest where w: "mCapturedBuffers (cam S) = w # rest" "p = bw_buffer w" "s' = (cam S)\<lparr>mCapturedBuffers := rest\<rparr>"
    by (auto simp: dqBuf_def Let_def split: list.splits if_splits)
  have cnt: "counts_inv S" and lst: "lists_inv S" using inv by (simp_all add: cam_inv_def)
  have cap: "map wr (drop ?d (take (completed S) (log S))) = w # rest" using lst w by (simp add: lists_inv_def)
  then have lt: "?d < completed S" by (cases "?d < completed S") simp_all
  have len: "completed S \<le> length (log S)" "completed S \<le> buffers S" "completed S \<le> metas S" using cnt by (auto simp: counts_inv_def completed_def)
  with cap lt have f: "w = wr (log S ! ?d)" "rest = map wr (drop (Suc ?d) (take (completed S) (log S)))"
    by (simp_all add: drop_take_Cons)
  have p: "p = fr_ptr (log S ! ?d)" using w(2) f(1) by (simp add: wr_def)
  have "?d < length (log S)" using lt len by linarith
  then have snoc: "take (Suc ?d) (log S) = take ?d (log S) @ [log S ! ?d]" by (rule take_Suc_conv_app_nth)
  let ?S = "S\<lparr>cam := s', delivered := delivered S @ [(p, the (bufs (cam S) p))]\<rparr>"
  have "?d < buffers S" "?d < metas S" using lt len by linarith+
  then have "filled ts (cam S) (log S ! ?d) (the (bufs (cam S) p)) True"
    using inv by (auto simp: cam_inv_def mem_inv_def p)
  then have "mem_inv ts ?S"
    using inv by (auto simp: cam_inv_def mem_inv_def nth_append less_Suc_eq w(3) filled_def live_handle_def)
  moreover have "lists_inv ?S"
    using lst f len lt by (simp add: lists_inv_def completed_def w(3) p snoc)
  moreover have "counts_inv ?S" using cnt lt by (simp add: counts_inv_def completed_def)
  moreover have "nums_inv ?S" using inv by (simp add: cam_inv_def nums_inv_def w(3))
  moreover have "own_inv s'" using inv w by (auto simp: cam_inv_def own_inv_def held_def)
  ultimately show ?thesis using inv by (simp add: cam_inv_def w(3))
qed

lemma cam_inv_step:
  assumes k: "kernel_ok env" and inv: "cam_inv ts S" and "cam_step env ts True S S'"
  shows "cam_inv ts S'"
  using assms(3)
proof (cases rule: cam_step.cases)
  case (queue p sid r s')
  with inv_queue [OF k inv] show ?thesis by simp
next
  case (start r s')
  with inv_start [OF k inv, of "(cam S)\<lparr>mStarted := True\<rparr>" r s'] inv show ?thesis
    by (simp add: adapter_start_def cam_inv_def counts_inv_def)
next
  case (hal_accept b)
  then have "accepted S < length (log S)" "live_handle (cam S) (fr_handle (last (log S)))" by simp_all
  moreover from calculation inv have n: "length (log S) = Suc (accepted S)" by (simp add: cam_inv_def counts_inv_def)
  then have "log S \<noteq> []" by auto
  ultimately have "live_handle (cam S) (fr_handle (log S ! accepted S))" using n by (simp add: last_conv_nth)
  with n inv hal_accept show ?thesis
    by (auto simp: cam_inv_def counts_inv_def lists_inv_def completed_def nums_inv_def mem_inv_def less_Suc_eq)
next
  case return_queue
  with inv show ?thesis
    by (simp add: cam_inv_def counts_inv_def lists_inv_def completed_def nums_inv_def mem_inv_def)
next
  case (return_start r s')
  with inv_start [OF k inv _ return_start(4)] show ?thesis by simp
next
  case stop
  have "gralloc_ok (fst (graphics_of (cam S)))" "frame_number (cam S) < 2 ^ 31"
    using inv by (simp_all add: cam_inv_def own_inv_def nums_inv_def)
  then show ?thesis
    using inv_other [OF inv, of "{}" "snd (adapter_stop (cam S))"] stop
    by (simp add: adapter_stop_def touches_def grows_def)
next
  case (dequeue p s')
  with inv_dequeue [OF inv] show ?thesis by simp
next
  case (client_write p b)
  have "gralloc_ok (fst (graphics_of (cam S)))" "frame_number (cam S) < 2 ^ 31"
    using inv by (simp_all add: cam_inv_def own_inv_def nums_inv_def)
  with inv_other [OF inv, of "{p}" "set_buf p b (cam S)"] client_write show ?thesis
    by (simp add: set_buf_def touches_def grows_def)
next
  case (allocate p uid r s')
  have ok: "gralloc_ok (fst (graphics_of (cam S)))" "frame_number (cam S) < 2 ^ 31"
    using inv by (simp_all add: cam_inv_def own_inv_def nums_inv_def)
  from inv_other [OF inv, of "{p}" s'] allocateMemory_effect [OF k ok(1) allocate(4)] allocate ok show ?thesis by simp
next
  case (open_device vo malloc loc0 initialize hal r s')
  with inv_settles [OF inv settles_cases(1)] show ?thesis by simp
next
  case (set_parameters vo malloc loc hal param r s')
  with inv_settles [OF inv settles_cases(2)] show ?thesis by simp
next
  case (config_streams configure_streams streams r s')
  with inv_settles [OF inv settles_cases(3)] show ?thesis by simp
next
  case (other_camera n)
  have "gralloc_ok (fst (graphics_of (cam S)))" using inv by (simp add: cam_inv_def own_inv_def)
  with inv_other [OF inv, of "{}" "(cam S)\<lparr>frame_number := n\<rparr>"] other_camera show ?thesis
    by (simp add: touches_def grows_def)
next
  case (hal_metadata m s')
  with metadata_step [OF inv refl] show ?thesis by fastforce
next
  case (hal_buffer s')
  with buffer_step [OF inv refl] show ?thesis by fastforce
qed

lemma cam_inv_reach:
  assumes "kernel_ok env" "cam_reach env ts True S"
  shows "cam_inv ts S"
  using assms(2)
proof (induction rule: cam_reach.induct)
  case (init S)
  then show ?case by (rule inv_init)
next
  case (step S S')
  then show ?case using cam_inv_step [OF assms(1)] by blast
qed

end
