(* ===== verification/Camera_Frames.thy ===== *)
theory Camera_Frames
  imports Camera_Props
begin

text \<open>
  The properties of the camera adapter over all its runs, and a run of two frames that they apply to.
\<close>

section \<open>A run\<close>

definition demo_camera_kernel :: gralloc_env where
  "demo_camera_kernel =
     \<lparr>env_new = (\<lambda>s. if gs_handles s 0x100 = None then Some 0x100 else if gs_handles s 0x200 = None then Some 0x200 else None),
      env_mmap = (\<lambda>s n w fd. Inr (if gs_maps s = [] then 0x7000 else 0x9000)), env_ashmem = (\<lambda>s n. 5), env_errno = 12,
      env_dup = (\<lambda>s fd. fd), env_map_fb = (\<lambda>s. (- 1, s))\<rparr>"

definition demo_buffer :: "int \<Rightarrow> camera_buffer_t" where
  "demo_buffer fd = \<lparr>cb_s = \<lparr>s_format = V4L2_PIX_FMT_NV12, s_width = 64, s_height = 32, s_field = 0, s_stride = 64, s_size = 0, s_memType = 4\<rparr>,
     cb_addr = 0, cb_sequence = 0, cb_dmafd = fd, cb_timestamp = 0\<rparr>"

definition demo_new :: camera_state where
  "demo_new = ICameraAdapter.extend (ICameraAdapter_new 0) \<lparr>bufs = [0xA0 \<mapsto> demo_buffer 7, 0xB0 \<mapsto> demo_buffer 8],
     graphics_of = (demo_gralloc, Map.empty), frame_number = 0\<rparr>"

definition demo_system :: camera_system where
  "demo_system = \<lparr>cam = demo_new, pc = Idle, log = [], accepted = 0, metas = 0, buffers = 0, delivered = []\<rparr>"

definition demo_queued :: camera_state where
  "demo_queued = demo_new\<lparr>mPendingBuffers := [\<lparr>stream_id = 0, bw_buffer = 0xA0\<rparr>, \<lparr>stream_id = 0, bw_buffer = 0xB0\<rparr>]\<rparr>"

definition section_state :: "((int + camera3_capture_request_t) \<times> camera_state) exec \<Rightarrow> camera_state" where
  "section_state r = (case r of Ret (_, s) \<Rightarrow> s | _ \<Rightarrow> demo_new)"

definition demo_first :: camera_state where
  "demo_first = section_state (adapter_start demo_camera_kernel demo_queued)"

definition demo_second :: camera_state where
  "demo_second = section_state (start_resume demo_camera_kernel demo_first)"

definition demo_request :: "nat \<Rightarrow> u64 \<Rightarrow> camera3_capture_request_t" where
  "demo_request n h = \<lparr>rq_frame_number = of_nat n, rq_settings = None, rq_output = stream_buffer (Some h)\<rparr>"

lemmas demo_defs = demo_new_def ICameraAdapter.extend_def ICameraAdapter_new_def demo_gralloc_def demo_buffer_def

lemmas section_defs = start_resume_def capture_begin_def capture_request_def mapMemory_def gralloc_map_fd_def new_object_def
  mapBuffer_def gralloc_map_def set_handle_def set_buf_def int32E_def fd_key_def private_handle_def int_of_size_def Let_def
  deref_def

lemma demo_buffers:
  "bufs demo_new 0xA0 = Some (demo_buffer 7)" "bufs demo_new 0xB0 = Some (demo_buffer 8)"
  "mPendingBuffers demo_new = []" "mQueuedBuffers demo_new = []" "mCapturedBuffers demo_new = []"
  by (simp_all add: demo_defs)

lemma demo_queue_run:
  "qBuf demo_camera_kernel demo_new 0 0xA0 =
     Ret (Inl OK, demo_new\<lparr>mPendingBuffers := [\<lparr>stream_id = 0, bw_buffer = 0xA0\<rparr>]\<rparr>)"
  "qBuf demo_camera_kernel (demo_new\<lparr>mPendingBuffers := [\<lparr>stream_id = 0, bw_buffer = 0xA0\<rparr>]\<rparr>) 0 0xB0 = Ret (Inl OK, demo_queued)"
  by (simp_all add: qBuf_def demo_queued_def demo_defs)

lemma demo_first_run:
  "adapter_start demo_camera_kernel demo_queued = Ret (Inr (demo_request 0 0x100), demo_first)"
  unfolding demo_first_def
  by (simp add: adapter_start_def demo_queued_def demo_defs section_defs demo_camera_kernel_def section_state_def demo_request_def)

lemma demo_second_run:
  "start_resume demo_camera_kernel demo_first = Ret (Inr (demo_request 1 0x200), demo_second)"
  unfolding demo_second_def unfolding demo_first_def
  by (simp add: adapter_start_def demo_queued_def demo_defs section_defs demo_camera_kernel_def section_state_def demo_request_def)

lemma demo_end_run: "start_resume demo_camera_kernel demo_second = Ret (Inl OK, demo_second)"
  unfolding demo_second_def unfolding demo_first_def
  by (simp add: adapter_start_def demo_queued_def demo_defs section_defs demo_camera_kernel_def section_state_def demo_request_def)

lemma demo_states:
  "mQueuedBuffers demo_first = [\<lparr>stream_id = 0, bw_buffer = 0xA0\<rparr>]" "frame_number demo_first = 1"
  "live_handle demo_first (Some 0x100)"
  "mQueuedBuffers demo_second = [\<lparr>stream_id = 0, bw_buffer = 0xA0\<rparr>, \<lparr>stream_id = 0, bw_buffer = 0xB0\<rparr>]"
  "frame_number demo_second = 2" "live_handle demo_second (Some 0x200)"
  unfolding demo_second_def unfolding demo_first_def
  by (simp_all add: adapter_start_def demo_queued_def demo_defs section_defs demo_camera_kernel_def section_state_def
      demo_request_def live_handle_def)

definition demo_frame :: "nat \<Rightarrow> frame" where
  "demo_frame i = (if i = 0 then \<lparr>fr_ptr = 0xA0, fr_sid = 0, fr_num = 0, fr_handle = Some 0x100\<rparr>
     else \<lparr>fr_ptr = 0xB0, fr_sid = 0, fr_num = 1, fr_handle = Some 0x200\<rparr>)"

definition demo_running :: camera_system where
  "demo_running = \<lparr>cam = demo_second, pc = Idle, log = [demo_frame 0, demo_frame 1], accepted = 2, metas = 0, buffers = 0, delivered = []\<rparr>"

lemma demo_kernel_camera_ok: "kernel_ok demo_camera_kernel"
  by (auto simp: kernel_ok_def demo_camera_kernel_def split: if_splits)

lemma reach_queue:
  "cam_reach env ts ordered S \<Longrightarrow> pc S = Idle \<Longrightarrow> p \<notin> set (held (cam S)) \<Longrightarrow> bufs (cam S) p \<noteq> None \<Longrightarrow>
   qBuf env (cam S) sid p = Ret (r, s') \<Longrightarrow> S' = enter False S r s' \<Longrightarrow> cam_reach env ts ordered S'"
  by (blast intro: cam_reach.step cam_step.queue)

lemma reach_start:
  "cam_reach env ts ordered S \<Longrightarrow> pc S = Idle \<Longrightarrow> adapter_start env (cam S) = Ret (r, s') \<Longrightarrow> S' = enter True S r s' \<Longrightarrow>
   cam_reach env ts ordered S'"
  by (blast intro: cam_reach.step cam_step.start)

lemma reach_accept:
  "cam_reach env ts ordered S \<Longrightarrow> pc S = In_hal b \<Longrightarrow> accepted S < length (log S) \<Longrightarrow>
   live_handle (cam S) (fr_handle (last (log S))) \<Longrightarrow> S' = S\<lparr>accepted := length (log S)\<rparr> \<Longrightarrow> cam_reach env ts ordered S'"
  by (blast intro: cam_reach.step cam_step.hal_accept)

lemma reach_return:
  "cam_reach env ts ordered S \<Longrightarrow> pc S = In_hal True \<Longrightarrow> accepted S = length (log S) \<Longrightarrow> start_resume env (cam S) = Ret (r, s') \<Longrightarrow>
   S' = enter True S r s' \<Longrightarrow> cam_reach env ts ordered S'"
  by (blast intro: cam_reach.step cam_step.return_start)

lemma demo_running_reach: "cam_reach demo_camera_kernel ts ordered demo_running"
proof -
  define A where "A = demo_system\<lparr>cam := demo_new\<lparr>mPendingBuffers := [\<lparr>stream_id = 0, bw_buffer = 0xA0\<rparr>]\<rparr>\<rparr>"
  define B where "B = demo_system\<lparr>cam := demo_queued\<rparr>"
  define C where "C = demo_system\<lparr>cam := demo_first, pc := In_hal True, log := [demo_frame 0]\<rparr>"
  define D where "D = C\<lparr>accepted := 1\<rparr>"
  define E where "E = demo_system\<lparr>cam := demo_second, pc := In_hal True, log := [demo_frame 0, demo_frame 1], accepted := 1\<rparr>"
  define F where "F = E\<lparr>accepted := 2\<rparr>"
  have "cam_reach demo_camera_kernel ts ordered demo_system"
    by (rule cam_reach.init)
      (simp add: cam_start_def demo_system_def demo_defs ICameraAdapter.truncate_def gralloc_ok_def regions_def)
  then have "cam_reach demo_camera_kernel ts ordered A"
    by (rule reach_queue [where p = "0xA0" and sid = 0 and r = "Inl OK" and s' = "cam A"])
      (simp_all add: demo_system_def A_def enter_def held_def demo_buffers demo_queue_run)
  then have "cam_reach demo_camera_kernel ts ordered B"
    by (rule reach_queue [where p = "0xB0" and sid = 0 and r = "Inl OK" and s' = demo_queued])
      (simp_all add: demo_system_def A_def B_def enter_def held_def demo_buffers demo_queue_run)
  then have "cam_reach demo_camera_kernel ts ordered C"
    by (rule reach_start [where r = "Inr (demo_request 0 0x100)" and s' = demo_first])
      (simp_all add: demo_system_def B_def C_def enter_def demo_states demo_frame_def demo_request_def stream_buffer_def demo_first_run
        del: of_nat_0)
  then have "cam_reach demo_camera_kernel ts ordered D"
    by (rule reach_accept [where b = True]) (simp_all add: demo_system_def C_def D_def demo_frame_def demo_states)
  then have "cam_reach demo_camera_kernel ts ordered E"
    by (rule reach_return [where r = "Inr (demo_request 1 0x200)" and s' = demo_second])
      (simp_all add: demo_system_def C_def D_def E_def enter_def demo_states demo_frame_def demo_request_def stream_buffer_def
        demo_second_run)
  then have "cam_reach demo_camera_kernel ts ordered F"
    by (rule reach_accept [where b = True]) (simp_all add: demo_system_def E_def F_def demo_frame_def demo_states)
  then show ?thesis
    by (rule reach_return [where r = "Inl OK" and s' = demo_second])
      (simp_all add: demo_system_def E_def F_def enter_def demo_running_def demo_end_run)
qed






lemma reach_buffer:
  assumes "kernel_ok env" "cam_reach env ts True S" "buffers S < accepted S" "buffers S \<le> metas S"
  obtains s' where "cam_reach env ts True (S\<lparr>cam := s', buffers := Suc (buffers S)\<rparr>)"
proof -
  from buffer_step [OF cam_inv_reach [OF assms(1,2)] refl assms(3,4)] obtain s' where
    "processCaptureResult (cam S) (buffer_result (log S ! buffers S)) = Ret s'" by blast
  with cam_step.hal_buffer [OF assms(3)] assms(2,4) that show thesis by (blast intro: cam_reach.step)
qed

text \<open>The two frames of the run, after the first buffer, after both frames and after the first delivery.\<close>

lemma demo_one_buffer:
  obtains S where "cam_reach demo_camera_kernel ts True S" "log S = [demo_frame 0, demo_frame 1]" "accepted S = 2"
    "metas S = 0" "buffers S = 1" "delivered S = []"
  by (rule reach_buffer [OF demo_kernel_camera_ok demo_running_reach [of ts True]]) (auto simp: demo_running_def)


section \<open>Properties\<close>



text \<open>
  C17. A buffer result that comes before the metadata of the frame ahead of it goes to the wrong buffer: the
  application's buffer of the earlier frame gets the number and the address of the later frame, as the code always writes
  to the oldest queued buffer.  \<open>camera3.h\<close> allows a HAL to send results this way.
\<close>

theorem early_buffer_misplaced:
  assumes "kernel_ok env" "cam_reach env ts True S" "buffers S = Suc (metas S)" "buffers S < accepted S"
  shows "\<exists>s' b h hnd. processCaptureResult (cam S) (buffer_result (log S ! buffers S)) = Ret s' \<and>
    bufs s' (fr_ptr (log S ! metas S)) = Some b \<and>
    fr_handle (log S ! buffers S) = Some h \<and> gs_handles (fst (graphics_of s')) h = Some hnd \<and> cb_addr b = ph_base hnd \<and>
    cb_sequence b = fr_num (log S ! buffers S) \<and> cb_sequence b \<noteq> fr_num (log S ! metas S) \<and>
    fr_ptr (log S ! buffers S) \<noteq> fr_ptr (log S ! metas S)"
proof -
  let ?f = "log S ! metas S" and ?g = "log S ! buffers S"
  have inv: "cam_inv ts S" by (rule cam_inv_reach [OF assms(1,2)])
  have c: "metas S = completed S" "metas S < accepted S" using assms(3,4) by (simp_all add: completed_def)
  have len: "metas S < length (log S)" "buffers S < length (log S)" "length (delivered S) \<le> metas S"
    using inv c assms(4) by (auto simp: cam_inv_def counts_inv_def)
  obtain b where q: "mQueuedBuffers (cam S) = wr ?f # map wr (drop (Suc (metas S)) (log S))" and b: "bufs (cam S) (fr_ptr ?f) = Some b"
    using first_open [OF inv c] by metis
  from inv assms(4) obtain h hnd where h: "fr_handle ?g = Some h" "gs_handles (fst (graphics_of (cam S))) h = Some hnd"
    by (auto simp: cam_inv_def mem_inv_def live_handle_def)
  have num: "0 \<le> fr_num ?g" "fr_num ?g < 2 ^ 31" using inv nth_mem [OF len(2)] by (force simp: cam_inv_def nums_inv_def)+
  have ok: "gralloc_ok (fst (graphics_of (cam S)))" using inv by (simp add: cam_inv_def own_inv_def)
  define s1 where "s1 = set_buf (fr_ptr ?f) (b\<lparr>cb_addr := ph_base hnd, cb_sequence := fr_num ?g\<rparr>) (cam S)"
  have run: "result_buffer (cam S) (buffer_result ?g) = Ret s1"
    unfolding s1_def using result_buffer_oldest [OF ok h q b num] .
  have "distinct (map key (log S))" using inv keys_distinct by (simp add: cam_inv_def)
  then have "key ?g \<noteq> key ?f"
    using nth_eq_iff_index_eq [of "map key (log S)" "buffers S" "metas S"] len assms(3) by simp
  then have none: "mResults (cam S) (key ?g) = None"
    using inv len(1) by (simp add: cam_inv_def assms(3) open_buffer_only)
  have "fr_num ?f < fr_num ?g"
    using inv len assms(3) sorted_wrt_nth_less [of "(<)" "map fr_num (log S)" "metas S" "buffers S"] by (simp add: cam_inv_def nums_inv_def)
  moreover have "fr_ptr ?g \<noteq> fr_ptr ?f" using frames_apart [OF inv _ len(2) len(3,1)] len assms(3) by simp
  moreover have "processCaptureResult (cam S) (buffer_result ?g) =
      Ret (s1\<lparr>mResults := (mResults s1)(key ?g \<mapsto> \<lparr>metadataDone = False, buffersDone = True, r_timestamp = 0\<rparr>)\<rparr>)"
    by (subst buffer_run [OF run refl]) (simp add: none)
  ultimately show ?thesis using h by (auto simp: s1_def set_buf_def)
qed



theorem early_buffer_misplaced_witness:
  "\<exists>S s' b. cam_reach demo_camera_kernel (\<lambda>n. word_of_int (1000 + n)) True S \<and>
    processCaptureResult (cam S) (buffer_result (log S ! 1)) = Ret s' \<and> bufs s' 0xA0 = Some b \<and> cb_sequence b = 1"
proof -
  let ?ts = "\<lambda>n. word_of_int (1000 + n)"
  obtain S where a: "cam_reach demo_camera_kernel ?ts True S" "log S = [demo_frame 0, demo_frame 1]" "accepted S = 2"
    "metas S = 0" "buffers S = 1" "delivered S = []" by (rule demo_one_buffer)
  have "fr_ptr (log S ! 0) = 0xA0" "fr_num (log S ! 1) = 1" using a by (simp_all add: demo_frame_def)
  with early_buffer_misplaced [OF demo_kernel_camera_ok a(1)] a show ?thesis by (metis One_nat_def less_2_cases_iff)
qed

end
