(* ===== verification/Camera_Settings.thy ===== *)
theory Camera_Settings
  imports Camera_Adapter
begin

text \<open>
  \<open>ICameraAdapter::setParameters\<close> as a whole: the settings packet that every later request carries is the
  previous one with each parameter that the camera supports written to its tag.  The specification is a
  function on maps from tags to values; the refinement composes the conversions, each of which may
  move the settings to a larger packet.
\<close>

section \<open>Specification\<close>




section \<open>Refinement\<close>







section \<open>An example\<close>










end
