(* ===== verification/Camera_Api.thy ===== *)
theory Camera_Api
  imports Camera_Adapter
begin

text \<open>
  The C interface of the camera library, the first part of \<open>icamera_adapter/ICameraAdapter.cpp\<close>: the
  adapters of the process, the calls that an application makes with the number of a camera, and
  \<open>camera_hal_init\<close>, which fills the parameters that \<open>get_camera_info\<close> hands out.  The camera module of
  the HAL is the record \<open>camera_module\<close>; what its devices do is a parameter of each call.
\<close>

section \<open>State\<close>

record camera_module =
  hal_cameras :: int
  hal_facing :: "int \<Rightarrow> int"
  hal_orientation :: "int \<Rightarrow> int"
  hal_static :: "int \<Rightarrow> camera_metadata option"
  hal_vendor_ops :: "vendor_tag_ops option"

definition MAX_CAMERAS :: int where
  "MAX_CAMERAS = 2"

text \<open>
  The static variables of the library, and what all adapters share: the application's buffers, the graphics
  memory and the frame counter.
\<close>

record api_state =
  sParameters :: "Parameters list"
  sCamAdapters :: "ICameraAdapter option list"
  initDone :: bool
  vendor_ops :: "vendor_tag_ops option"
  api_bufs :: "u64 \<rightharpoonup> camera_buffer_t"
  api_graphics :: graphics
  api_frame_number :: int

record camera_info_t =
  ci_facing :: int
  ci_orientation :: int
  ci_device_version :: int
  ci_name :: string
  ci_description :: string
  ci_capability :: Parameters

definition sCameraNames :: "string list" where
  "sCameraNames = [''camera0'', ''camera1'']"

text \<open>An array of \<open>MAX_CAMERAS\<close> elements; the number of a camera that the HAL knows may lie outside of it.\<close>

definition camera_slot :: "'a list \<Rightarrow> int \<Rightarrow> 'a exec" where
  "camera_slot xs camera_id = (if 0 \<le> camera_id \<and> nat camera_id < length xs then Ret (xs ! nat camera_id) else Fault)"

definition CAMERA_ID_CHECK :: "camera_module \<Rightarrow> int \<Rightarrow> bool" where
  "CAMERA_ID_CHECK hal camera_id \<longleftrightarrow> 0 \<le> camera_id \<and> camera_id < hal_cameras hal"

definition load_adapter :: "api_state \<Rightarrow> ICameraAdapter \<Rightarrow> camera_state" where
  "load_adapter S a = ICameraAdapter.extend a
     \<lparr>bufs = api_bufs S, graphics_of = api_graphics S, frame_number = api_frame_number S\<rparr>"

definition store_adapter :: "api_state \<Rightarrow> int \<Rightarrow> camera_state \<Rightarrow> api_state" where
  "store_adapter S camera_id s =
     S\<lparr>sCamAdapters := (sCamAdapters S)[nat camera_id := Some (ICameraAdapter.truncate s)],
       api_bufs := bufs s, api_graphics := graphics_of s, api_frame_number := frame_number s\<rparr>"

definition CALL_ADAPTOR_AND_RETURN ::
    "api_state \<Rightarrow> int \<Rightarrow> 'r \<Rightarrow> (camera_state \<Rightarrow> ('r \<times> camera_state) exec) \<Rightarrow> ('r \<times> api_state) exec" where
  "CALL_ADAPTOR_AND_RETURN S camera_id unknown_error function =
     bindE (camera_slot (sCamAdapters S) camera_id) (\<lambda>adapter.
     case adapter of
       None \<Rightarrow> Ret (unknown_error, S)
     | Some a \<Rightarrow> bindE (function (load_adapter S a)) (\<lambda>(r, s). Ret (r, store_adapter S camera_id s)))"

section \<open>The calls\<close>

definition get_number_of_cameras :: "camera_module \<Rightarrow> int" where
  "get_number_of_cameras hal = hal_cameras hal"

definition get_camera_info :: "camera_module \<Rightarrow> api_state \<Rightarrow> int \<Rightarrow> (int \<times> camera_info_t option) exec" where
  "get_camera_info hal S camera_id =
     (if \<not> CAMERA_ID_CHECK hal camera_id then Ret (BAD_VALUE, None)
      else
        bindE (camera_slot sCameraNames camera_id) (\<lambda>name.
        bindE (camera_slot (sParameters S) camera_id) (\<lambda>capability.
        Ret (OK, Some \<lparr>ci_facing = hal_facing hal camera_id, ci_orientation = hal_orientation hal camera_id,
          ci_device_version = 1, ci_name = name, ci_description = name, ci_capability = capability\<rparr>))))"

text \<open>Opening replaces an adapter that is still there; nothing closes or deletes the old one.\<close>

definition camera_device_open ::
    "camera_module \<Rightarrow> allocator \<Rightarrow> u64 \<Rightarrow> int \<Rightarrow> camera_metadata option \<Rightarrow> api_state \<Rightarrow> int \<Rightarrow> (int \<times> api_state) exec" where
  "camera_device_open hal malloc loc initialize settings S camera_id =
     (if \<not> CAMERA_ID_CHECK hal camera_id then Ret (BAD_VALUE, S)
      else
        bindE (camera_slot (sCamAdapters S) camera_id) (\<lambda>_.
        CALL_ADAPTOR_AND_RETURN (S\<lparr>sCamAdapters := (sCamAdapters S)[nat camera_id := Some (ICameraAdapter_new camera_id)]\<rparr>)
          camera_id UNKNOWN_ERROR (adapter_open (vendor_ops S) malloc loc initialize settings)))"

definition camera_device_close ::
    "camera_module \<Rightarrow> (camera_state \<Rightarrow> camera_state) \<Rightarrow> api_state \<Rightarrow> int \<Rightarrow> api_state exec" where
  "camera_device_close hal flush S camera_id =
     (if camera_id < 0 \<or> camera_id \<ge> hal_cameras hal then Ret S
      else
        bindE (CALL_ADAPTOR_AND_RETURN S camera_id UNKNOWN_ERROR (adapter_close flush)) (\<lambda>(_, S).
        Ret (S\<lparr>sCamAdapters := (sCamAdapters S)[nat camera_id := None]\<rparr>)))"

text \<open>The bits of a pixel and the size of a frame; the format does not matter.\<close>

definition get_frame_size :: "int \<Rightarrow> int \<Rightarrow> int \<Rightarrow> int \<Rightarrow> (int \<times> int) exec" where
  "get_frame_size format width height field =
     bindE (int32E (width * height)) (\<lambda>pixels. bindE (int32E (pixels * 3)) (\<lambda>triple. Ret (triple sdiv 2, 12)))"

definition camera_device_start ::
    "camera_module \<Rightarrow> gralloc_env \<Rightarrow> api_state \<Rightarrow> int \<Rightarrow> ((int + camera3_capture_request_t) \<times> api_state) exec" where
  "camera_device_start hal env S camera_id =
     (if \<not> CAMERA_ID_CHECK hal camera_id then Ret (Inl BAD_VALUE, S)
      else CALL_ADAPTOR_AND_RETURN S camera_id (Inl UNKNOWN_ERROR) (adapter_start env))"

definition camera_device_stop :: "camera_module \<Rightarrow> api_state \<Rightarrow> int \<Rightarrow> (int \<times> api_state) exec" where
  "camera_device_stop hal S camera_id =
     (if \<not> CAMERA_ID_CHECK hal camera_id then Ret (BAD_VALUE, S)
      else CALL_ADAPTOR_AND_RETURN S camera_id UNKNOWN_ERROR (\<lambda>s. Ret (adapter_stop s)))"

definition camera_set_parameters ::
    "camera_module \<Rightarrow> allocator \<Rightarrow> (nat \<Rightarrow> u64) \<Rightarrow> Parameters \<Rightarrow> api_state \<Rightarrow> int \<Rightarrow> (int \<times> api_state) exec" where
  "camera_set_parameters hal malloc loc param S camera_id =
     (if \<not> CAMERA_ID_CHECK hal camera_id then Ret (BAD_VALUE, S)
      else CALL_ADAPTOR_AND_RETURN S camera_id UNKNOWN_ERROR
        (\<lambda>s. setParameters (vendor_ops S) malloc loc (hal_static hal (mCameraId s)) param s))"

definition getParameters :: "Parameters \<Rightarrow> camera_state \<Rightarrow> ((int \<times> Parameters) \<times> camera_state) exec" where
  "getParameters param s = Ret ((OK, param), s)"

definition camera_get_parameters ::
    "camera_module \<Rightarrow> Parameters \<Rightarrow> api_state \<Rightarrow> int \<Rightarrow> ((int \<times> Parameters) \<times> api_state) exec" where
  "camera_get_parameters hal param S camera_id =
     (if \<not> CAMERA_ID_CHECK hal camera_id then Ret ((BAD_VALUE, param), S)
      else CALL_ADAPTOR_AND_RETURN S camera_id (UNKNOWN_ERROR, param) (getParameters param))"

definition camera_device_config_streams ::
    "camera_module \<Rightarrow> (int \<Rightarrow> camera3_stream_t \<Rightarrow> int) \<Rightarrow> (int \<times> stream_t list) option \<Rightarrow> api_state \<Rightarrow> int \<Rightarrow>
     (int \<times> api_state) exec" where
  "camera_device_config_streams hal configure_streams stream_list S camera_id =
     (if \<not> CAMERA_ID_CHECK hal camera_id then Ret (BAD_VALUE, S)
      else CALL_ADAPTOR_AND_RETURN S camera_id UNKNOWN_ERROR (\<lambda>s. configStreams configure_streams s stream_list))"

definition camera_device_allocate_memory ::
    "camera_module \<Rightarrow> gralloc_env \<Rightarrow> u64 \<Rightarrow> u64 \<Rightarrow> api_state \<Rightarrow> int \<Rightarrow> (int \<times> api_state) exec" where
  "camera_device_allocate_memory hal env uid buffer S camera_id =
     (if \<not> CAMERA_ID_CHECK hal camera_id then Ret (BAD_VALUE, S)
      else CALL_ADAPTOR_AND_RETURN S camera_id UNKNOWN_ERROR (\<lambda>s. allocateMemory env s uid buffer))"

text \<open>The calls on streams do not check the number of the camera.\<close>

definition camera_stream_dqbuf ::
    "(camera_state \<Rightarrow> camera_state) \<Rightarrow> api_state \<Rightarrow> int \<Rightarrow> ((int \<times> u64 option) \<times> api_state) exec" where
  "camera_stream_dqbuf wait S camera_id =
     CALL_ADAPTOR_AND_RETURN S camera_id (UNKNOWN_ERROR, None) (\<lambda>s. Ret (dqBuf wait s))"

definition camera_stream_qbuf ::
    "gralloc_env \<Rightarrow> int \<Rightarrow> u64 \<Rightarrow> api_state \<Rightarrow> int \<Rightarrow> ((int + camera3_capture_request_t) \<times> api_state) exec" where
  "camera_stream_qbuf env sid buffer S camera_id =
     CALL_ADAPTOR_AND_RETURN S camera_id (Inl UNKNOWN_ERROR) (\<lambda>s. qBuf env s sid buffer)"

section \<open>Initialisation\<close>

definition HAL_PIXEL_FORMAT_YCbCr_420_888 :: int where
  "HAL_PIXEL_FORMAT_YCbCr_420_888 = 0x23"

definition CAMERA3_STREAM_OUTPUT :: int where
  "CAMERA3_STREAM_OUTPUT = 0"

text \<open>The loop over the configurations of a camera, four numbers each; what it pushes to \<open>streamConfigVec\<close>.\<close>

fun config_vector :: "camera_metadata \<Rightarrow> camera_metadata_entry \<Rightarrow> nat \<Rightarrow> nat \<Rightarrow> int list exec" where
  "config_vector m e j 0 = Ret []"
| "config_vector m e j (Suc n) =
     bindE (data_i32 m e j) (\<lambda>format.
     bindE (if format = HAL_PIXEL_FORMAT_YCbCr_420_888
            then bindE (data_i32 m e (j + 3)) (\<lambda>direction. Ret (direction = CAMERA3_STREAM_OUTPUT))
            else Ret False) (\<lambda>nv12_output.
     bindE (if nv12_output
            then bindE (data_i32 m e (j + 1)) (\<lambda>width. bindE (data_i32 m e (j + 2)) (\<lambda>height.
              Ret [V4L2_PIX_FMT_NV12, width, height, 0, 0, 0, 0, 0]))
            else Ret []) (\<lambda>pushed.
     bindE (config_vector m e (j + 4) n) (\<lambda>rest. Ret (pushed @ rest)))))"

text \<open>
  One camera: its parameters get the configurations.  \<open>malloc\<close> gives an allocator for each of the three places that
  allocate: the new packet, its clone and the packet of the parameters; \<open>None\<close> is the early return with \<open>UNKNOWN_ERROR\<close>.  The
  data pointer of an entry that was found is not \<open>NULL\<close>.
\<close>

definition init_camera ::
    "vendor_tag_ops option \<Rightarrow> (nat \<Rightarrow> allocator) \<Rightarrow> camera_metadata option \<Rightarrow> Parameters \<Rightarrow> Parameters option exec" where
  "init_camera vo malloc static p =
     (case static of
        None \<Rightarrow> Ret None
      | Some meta \<Rightarrow>
          bindE (find_camera_metadata_ro_entry static ANDROID_SCALER_AVAILABLE_STREAM_CONFIGURATIONS True) (\<lambda>(ret, entry).
          if ret \<noteq> OK then Ret None
          else bindE (deref entry) (\<lambda>entry.
            let count = sint (ucast (en_count entry) :: u32) in
            if count < 4 then Ret None
            else bindE (config_vector meta entry 0 ((nat count + 3) div 4)) (\<lambda>streamConfigVec.
              if streamConfigVec = [] then Ret None
              else
                bindE (allocate_camera_metadata vo (malloc 0) 20 32768) (\<lambda>streamConfigs.
                bindE (add_camera_metadata_entry vo streamConfigs ANDROID_SCALER_AVAILABLE_STREAM_CONFIGURATIONS
                         (Some (concat (map i32_bytes streamConfigVec))) (of_nat (length streamConfigVec))) (\<lambda>(_, streamConfigs).
                bindE (assign vo (malloc 1) CameraMetadata_empty streamConfigs) (\<lambda>cameraMetadata.
                bindE (Parameters_merge vo (malloc 2) p (Some cameraMetadata)) (\<lambda>(p, _).
                Ret (Some p)))))))))"

fun init_cameras ::
    "camera_module \<Rightarrow> (nat \<Rightarrow> nat \<Rightarrow> allocator) \<Rightarrow> nat \<Rightarrow> nat \<Rightarrow> api_state \<Rightarrow> (int \<times> api_state) exec" where
  "init_cameras hal malloc cameraId 0 S = Ret (OK, S\<lparr>initDone := True\<rparr>)"
| "init_cameras hal malloc cameraId (Suc n) S =
     bindE (camera_slot (sParameters S) (int cameraId)) (\<lambda>p.
     bindE (init_camera (vendor_ops S) (malloc cameraId) (hal_static hal (int cameraId)) p) (\<lambda>r.
     case r of
       None \<Rightarrow> Ret (UNKNOWN_ERROR, S)
     | Some p \<Rightarrow> init_cameras hal malloc (Suc cameraId) n (S\<lparr>sParameters := (sParameters S)[cameraId := p]\<rparr>)))"

definition camera_hal_init :: "camera_module \<Rightarrow> (nat \<Rightarrow> nat \<Rightarrow> allocator) \<Rightarrow> api_state \<Rightarrow> (int \<times> api_state) exec" where
  "camera_hal_init hal malloc S =
     (if initDone S then Ret (OK, S)
      else
        let S = (if hal_vendor_ops hal \<noteq> None then S\<lparr>vendor_ops := hal_vendor_ops hal\<rparr> else S) in
        init_cameras hal malloc 0 (nat MAX_CAMERAS) S)"

definition camera_hal_deinit :: "api_state \<Rightarrow> int \<times> api_state" where
  "camera_hal_deinit S = (OK, S)"

text \<open>The library when it is loaded, before its constructor calls \<open>camera_hal_init\<close>.\<close>

definition api_loaded :: "gralloc_state \<Rightarrow> api_state" where
  "api_loaded g = \<lparr>sParameters = [Parameters_new, Parameters_new], sCamAdapters = [None, None], initDone = False,
     vendor_ops = None, api_bufs = Map.empty, api_graphics = (g, Map.empty), api_frame_number = 0\<rparr>"

end
