(* ===== verification/Camera_Api_Props.thy ===== *)
theory Camera_Api_Props
  imports Camera_Api
begin

text \<open>
  What an application learns from \<open>get_camera_info\<close> after \<open>camera_hal_init\<close>: the streams that
  \<open>getSupportedStreamConfig\<close> returns, from the static metadata of the HAL through a new packet, its clone, the
  merge into the parameters and the search in them.
\<close>

section \<open>The configurations of a camera\<close>

definition nv12_outputs :: "u8 list \<Rightarrow> (int \<times> int) list" where
  "nv12_outputs v = map (\<lambda>i. (i32_at v (4 * i + 1), i32_at v (4 * i + 2)))
     (filter (\<lambda>i. i32_at v (4 * i) = HAL_PIXEL_FORMAT_YCbCr_420_888 \<and> i32_at v (4 * i + 3) = CAMERA3_STREAM_OUTPUT)
        [0..<length v div 16])"

definition config_ints :: "(int \<times> int) list \<Rightarrow> int list" where
  "config_ints outs = concat (map (\<lambda>(w, h). [V4L2_PIX_FMT_NV12, w, h, 0, 0, 0, 0, 0]) outs)"

lemma config_vector_value:
  assumes v: "shows_value m e TYPE_INT32 v"
  shows "i + n \<le> length v div 16 \<Longrightarrow> config_vector m e (4 * i) n =
    Ret (config_ints (map (\<lambda>i. (i32_at v (4 * i + 1), i32_at v (4 * i + 2)))
      (filter (\<lambda>i. i32_at v (4 * i) = HAL_PIXEL_FORMAT_YCbCr_420_888 \<and> i32_at v (4 * i + 3) = CAMERA3_STREAM_OUTPUT) [i..<i + n])))"
proof (induction n arbitrary: i)
  case 0
  then show ?case by (simp add: config_ints_def)
next
  case (Suc n)
  have "16 * i + 16 \<le> length v" using Suc.prems by (simp add: less_eq_div_iff_mult_less_eq)
  then have d: "data_i32 m e (4 * i + k) = Ret (i32_at v (4 * i + k))" if "k < 4" for k
    using that by (intro data_i32_value [OF v]) auto
  have ih: "config_vector m e (4 * i + 4) n = Ret (config_ints (map (\<lambda>i. (i32_at v (4 * i + 1), i32_at v (4 * i + 2)))
      (filter (\<lambda>i. i32_at v (4 * i) = HAL_PIXEL_FORMAT_YCbCr_420_888 \<and> i32_at v (4 * i + 3) = CAMERA3_STREAM_OUTPUT) [Suc i..<i + Suc n])))"
    using Suc.IH [of "Suc i"] Suc.prems by (simp add: algebra_simps)
  have u: "[i..<i + Suc n] = i # [Suc i..<i + Suc n]" by (simp add: upt_conv_Cons)
  show ?case
    unfolding u config_vector.simps ih using d [of 0] d [of 1] d [of 2] d [of 3] by (simp add: config_ints_def)
qed

lemma length_config_ints: "length (config_ints outs) = 8 * length outs"
  by (induction outs) (auto simp: config_ints_def)

section \<open>Lists of numbers in memory\<close>

definition ints_bytes :: "int list \<Rightarrow> u8 list" where
  "ints_bytes xs = concat (map i32_bytes xs)"

lemma length_ints_bytes: "length (ints_bytes xs) = 4 * length xs"
  by (induction xs) (simp_all add: ints_bytes_def)

lemma i32_at_ints:
  assumes "i < length xs" "- (2 ^ 31) \<le> xs ! i" "xs ! i < 2 ^ 31"
  shows "i32_at (ints_bytes xs) i = xs ! i"
proof -
  have "take 4 (drop (4 * i) (ints_bytes xs)) = i32_bytes (xs ! i)"
    using assms(1)
  proof (induction xs arbitrary: i)
    case (Cons x xs)
    then show ?case by (cases i) (simp_all add: ints_bytes_def)
  qed simp
  then show ?thesis using assms(2,3) by (simp add: i32_at_def signed_of_int signed_take_bit_int_eq_self)
qed

lemma i32_at_range: "- (2 ^ 31) \<le> i32_at v i" "i32_at v i < 2 ^ 31"
  using sint_ge [of "le_word32 (take 4 (drop (4 * i) v))"] sint_lt [of "le_word32 (take 4 (drop (4 * i) v))"] by (simp_all add: i32_at_def)

lemma config_ints_nth:
  "k < length outs \<Longrightarrow> r < 8 \<Longrightarrow> config_ints outs ! (8 * k + r) = [V4L2_PIX_FMT_NV12, fst (outs ! k), snd (outs ! k), 0, 0, 0, 0, 0] ! r"
proof (induction outs arbitrary: k)
  case (Cons x outs)
  have c: "config_ints (x # outs) = [V4L2_PIX_FMT_NV12, fst x, snd x, 0, 0, 0, 0, 0] @ config_ints outs"
    by (simp add: config_ints_def split_beta)
  show ?case
  proof (cases k)
    case 0
    then show ?thesis using Cons.prems unfolding c nth_append by simp
  next
    case (Suc k')
    then show ?thesis using Cons unfolding c nth_append by simp
  qed
qed simp

lemma config_ints_range:
  assumes "x \<in> set (config_ints (nv12_outputs v))"
  shows "- (2 ^ 31) \<le> x" "x < 2 ^ 31"
  using assms i32_at_range by (auto simp: config_ints_def nv12_outputs_def V4L2_PIX_FMT_NV12_def split: if_splits)

lemma small_count:
  fixes c :: u64
  assumes "unat c < 2 ^ 30"
  shows "sint (ucast c :: u32) = int (unat c)"
proof -
  have u: "unat (ucast c :: u32) = unat c"
    using assms by (simp add: unsigned_ucast_eq take_bit_nat_eq_self_iff)
  have k: "signed_take_bit 31 (int k) = int k" if "k < 2 ^ 30" for k
    using that by (intro signed_take_bit_int_eq_self) simp_all
  have "sint (ucast c :: u32) = signed_take_bit 31 (uint (ucast c :: u32))"
    by (simp add: sint_uint)
  also have "uint (ucast c :: u32) = int (unat c)" using u by (metis uint_nat)
  also have "signed_take_bit 31 (int (unat c)) = int (unat c)" using assms by (rule k)
  finally show ?thesis .
qed

section \<open>Merging one entry into new parameters\<close>

lemma value_length:
  assumes "good_packet vo m" "(tag, t, v) \<in> set (items m)"
  shows "length v < 2 ^ 32"
proof -
  have "item_size (tag, t, v) \<le> (\<Sum>it\<leftarrow>items m. item_size it)"
    using assms(2) by (intro member_le_sum_list) (auto intro: rev_image_eqI)
  also have "\<dots> = unat (md_data_count m)"
    using assms(1) abs_counts(1,3) [of vo m] by (auto simp: good_packet_def consistent_def)
  also have "\<dots> < 2 ^ 32" using unsigned_less [of "md_data_count m"] by simp
  finally have "item_size (tag, t, v) < 2 ^ 32" .
  then show ?thesis by (cases "length v \<le> 4") (simp_all add: item_size_def round8_def)
qed

lemma merge_single:
  assumes good: "good_packet vo c" and it: "items c = [(tag, TYPE_INT32, bytes)]"
    and type: "get_camera_metadata_tag_type vo tag = Ret (uint TYPE_INT32)" "drop_bit 16 tag < VENDOR_SECTION"
    and len: "bytes \<noteq> []" "length bytes \<le> 32768" and mem: "ample malloc"
    and p: "mMetadata p = CameraMetadata_empty"
  shows "\<exists>obj other. Parameters_merge vo malloc p (Some \<lparr>mBuffer = Some c, mLocked = False\<rparr>) = Ret (p\<lparr>mMetadata := obj\<rparr>, other) \<and>
    obj_ok vo obj \<and> obj_map obj = [tag \<mapsto> (TYPE_INT32, bytes)]"
proof -
  have ok: "packet_ok vo c" using good by blast
  have cnt: "unat (md_entry_count c) = 1" using abs_counts(2) [OF ok] it by simp
  let ?e = "view_entry c 0"
  have i: "0 < length (items c)" "items c ! 0 = (tag, TYPE_INT32, bytes)" using it by simp_all
  note sv = view_count [OF ok i]
  have e: "en_tag ?e = tag" "en_type ?e = TYPE_INT32" "entry_bytes c ?e = Ret bytes"
    using found_entry [OF ok i(1)] i(2) sv by (auto simp: shows_value_def)
  have n: "unat (en_count ?e) * tsize TYPE_INT32 = length bytes" using sv by (simp add: shows_value_def)
  have r: "readable TYPE_INT32 (en_count ?e) bytes" using n len(2) by (simp add: readable_def)
  have "new_size TYPE_INT32 (en_count ?e) \<le> round8 32768"
    using readable_sizes(2) [OF r types_below(2)] n len(2) round8_mono [of "length bytes" 32768] by simp
  then have small: "grown_bytes CameraMetadata_empty 1 (new_size TYPE_INT32 (en_count ?e)) < 2 ^ 32"
    by (simp add: grown_bytes_def CameraMetadata_empty_def packet_bytes_def round8_def)
  have empty: "obj_ok vo CameraMetadata_empty" "\<not> mLocked CameraMetadata_empty" "outside CameraMetadata_empty a" for a
    by (simp_all add: obj_ok_def CameraMetadata_empty_def obj_items_def outside_def)
  have "en_count ?e \<noteq> 0" using n len(1) by auto
  from updateImpl_correct [OF empty(1,2) type(1) types_below(2) type(2) r this empty(3) mem small, of "data_addr c ?e"] obtain obj where
    u: "updateImpl vo malloc CameraMetadata_empty tag (Some (data_addr c ?e, bytes)) (en_count ?e) = Ret (OK, obj)" "obj_ok vo obj"
      "obj_map obj = (obj_map CameraMetadata_empty)(tag \<mapsto> (TYPE_INT32, value_of TYPE_INT32 (en_count ?e) bytes))" by blast
  have m: "merge_entry vo malloc c ?e CameraMetadata_empty = Ret obj"
    using u(1) checkType_same [OF type(1)] empty(2)
    by (simp add: merge_entry_def e update_int32_def update_typed_def Let_def entry_type_consts)
  have g: "get_camera_metadata_ro_entry (Some c) 0 True = Ret (OK, Some ?e)"
    using get_entry_eq [OF ok, of 0] cnt length_live [OF packet_okD(1,2) [OF ok]] by (simp add: get_camera_metadata_ro_entry_def)
  have "(ucast (md_entry_count c) :: u64) = 1" using cnt by (simp add: word_unat_eq_iff)
  then have "Parameters_merge vo malloc p (Some \<lparr>mBuffer = Some c, mLocked = False\<rparr>) =
      Ret (p\<lparr>mMetadata := obj\<rparr>, Some (snd (unlock \<lparr>mBuffer = Some c, mLocked = True\<rparr> (buffer_addr (Some c)))))"
    using m g p by (simp add: Parameters_merge_def isEmpty_def entryCount_def get_camera_metadata_entry_count_def getAndLock_def)
  moreover have "obj_map obj = [tag \<mapsto> (TYPE_INT32, bytes)]"
    using u(3) n by (simp add: obj_map_def CameraMetadata_empty_def obj_items_def value_of_def)
  ultimately show ?thesis using u(2) by blast
qed

section \<open>Initialising one camera\<close>

text \<open>What a camera may offer: a list of configurations that yields some output, not more than fit into the new packet.\<close>

definition offers :: "vendor_tag_ops option \<Rightarrow> camera_metadata \<Rightarrow> (int \<times> int) list \<Rightarrow> bool" where
  "offers vo st outs \<longleftrightarrow> static_ok vo st \<and>
     (\<exists>t v. chars st ANDROID_SCALER_AVAILABLE_STREAM_CONFIGURATIONS = Some (t, v) \<and> 16 dvd length v \<and> outs = nv12_outputs v) \<and>
     outs \<noteq> [] \<and> length outs \<le> 1024"

definition stream_parameters :: "vendor_tag_ops option \<Rightarrow> (int \<times> int) list \<Rightarrow> Parameters \<Rightarrow> bool" where
  "stream_parameters vo outs p \<longleftrightarrow> obj_ok vo (mMetadata p) \<and>
     obj_map (mMetadata p) = [ANDROID_SCALER_AVAILABLE_STREAM_CONFIGURATIONS \<mapsto> (TYPE_INT32, ints_bytes (config_ints outs))]"

definition nonnull :: "allocator \<Rightarrow> bool" where
  "nonnull malloc \<longleftrightarrow> (\<forall>sz a bs. malloc sz = Some (a, bs) \<longrightarrow> a \<noteq> 0)"

lemma new_packet:
  assumes mem: "ample ma" "ample mb" "nonnull ma" and outs: "outs \<noteq> []" "length outs \<le> 1024"
    and type: "get_camera_metadata_tag_type vo tag = Ret (uint TYPE_INT32)"
  shows "\<exists>a b c. allocate_camera_metadata vo ma 20 32768 = Ret (Some a) \<and>
    add_camera_metadata_entry vo (Some a) tag (Some (ints_bytes (config_ints outs))) (of_nat (length (config_ints outs))) = Ret (OK, Some b) \<and>
    assign vo mb CameraMetadata_empty (Some b) = Ret \<lparr>mBuffer = Some c, mLocked = False\<rparr> \<and>
    good_packet vo c \<and> items c = [(tag, TYPE_INT32, ints_bytes (config_ints outs))]"
proof -
  let ?v = "ints_bytes (config_ints outs)" and ?n = "of_nat (length (config_ints outs)) :: u64"
  have n8: "length (config_ints outs) \<le> 8192" using outs(2) by (simp add: length_config_ints)
  have "unat (of_nat N :: u64) = N" if "N \<le> 8192" for N using that by (simp add: unat_of_nat)
  with n8 have n: "unat ?n = length (config_ints outs)" "length ?v = 4 * length (config_ints outs)" "length (config_ints outs) \<le> 8192"
    by (simp_all add: length_ints_bytes)
  have t4: "tsize TYPE_INT32 = 4" by (simp add: tsize_def type_size_eq TYPE_INT32_def)
  have r: "readable TYPE_INT32 ?n ?v" using n by (simp add: readable_def t4)
  from allocate_ample [OF mem(1), of 20 32768 vo] obtain a where
    a: "allocate_camera_metadata vo ma 20 32768 = Ret (Some a)" "good_packet vo a" "abs_packet a = empty_store 20 32768"
    by (auto simp: packet_bytes_def round8_def)
  then have e: "items a = []" "unat (md_entry_capacity a) = 20" "unat (md_data_capacity a) = 32768" "unat (md_data_count a) = 0"
    by (auto simp: abs_packet_def empty_store_def)
  have "new_size TYPE_INT32 ?n \<le> 32768"
    using readable_sizes(2) [OF r types_below(2)] n round8_mono [of "4 * length (config_ints outs)" 32768] by (simp add: t4 round8_def mult.commute)
  with add_with_room [OF a(2) type types_below(2) r] e obtain b where
    b: "add_camera_metadata_entry vo (Some a) tag (Some ?v) ?n = Ret (OK, Some b)" "good_packet vo b"
      "items b = [(tag, TYPE_INT32, ?v)]" using n by (auto simp: value_of_def t4)
  have okb: "packet_ok vo b" using b(2) by blast
  have "unat (calculate_camera_metadata_size (ucast (md_entry_count b)) (ucast (md_data_count b))) < 2 ^ 32"
    using compact_bytes [OF okb] calculate_size_eq [of "ucast (md_entry_count b)" "ucast (md_data_count b)"] by simp
  with mem(2) have "\<exists>blk. mb (calculate_camera_metadata_size (ucast (md_entry_count b)) (ucast (md_data_count b))) = Some blk \<and>
      block_ok (calculate_camera_metadata_size (ucast (md_entry_count b)) (ucast (md_data_count b))) blk"
    unfolding ample_def by blast
  from clone_correct [where malloc = mb, OF okb this] obtain c where
    c: "clone_camera_metadata vo mb (Some b) = Ret (Some c)" "packet_ok vo c"
      "abs_packet c = (abs_packet b)\<lparr>st_entry_cap := length (items b), st_data_cap := st_used (abs_packet b)\<rparr>" by blast
  have "consistent (abs_packet c)"
    unfolding c(3) using compact_consistent [of "abs_packet b"] b(2) abs_counts(3) [OF okb] by (simp add: good_packet_def)
  moreover have "items c = items b" using c(3) abs_counts(3) [OF okb] abs_counts(3) [OF c(2)] by simp
  moreover have "md_addr b \<noteq> 0"
    using mem(3) allocate_block [OF a(1)] add_block [OF b(1)] by (auto simp: nonnull_def same_block_def)
  ultimately show ?thesis using a(1) b c
    by (auto simp: assign_def CameraMetadata_empty_def buffer_addr_def clear_def good_packet_def)
qed

lemma init_camera_correct:
  assumes st: "offers vo st outs" and mem: "\<And>i. ample (malloc i)" "\<And>i. nonnull (malloc i)" and p: "mMetadata p = CameraMetadata_empty"
  shows "\<exists>p'. init_camera vo malloc (Some st) p = Ret (Some p') \<and> stream_parameters vo outs p'"
proof -
  let ?tag = ANDROID_SCALER_AVAILABLE_STREAM_CONFIGURATIONS and ?c = "config_ints outs"
  note type = written_types(7) written_sections(7)
  from st obtain t v where s: "static_ok vo st" and v: "chars st ?tag = Some (t, v)" "16 dvd length v" "outs = nv12_outputs v"
    and outs: "outs \<noteq> []" "length outs \<le> 1024" by (auto simp: offers_def)
  from static_lookup [OF s type] v(1) obtain e where
    find: "find_camera_metadata_ro_entry (Some st) ?tag True = Ret (OK, Some e)" and sv: "shows_value st e TYPE_INT32 v"
    by (metis Pair_inject not_None_eq option.inject)
  have "length v < 2 ^ 32"
    using value_length [of vo st ?tag t v] s v(1) by (auto simp: static_ok_def dest: map_of_SomeD)
  moreover have cnt: "unat (en_count e) * 4 = length v" using sv by (simp add: shows_value_def tsize_def type_size_eq TYPE_INT32_def)
  ultimately have "unat (en_count e) < 2 ^ 30" by simp
  then have sint: "sint (ucast (en_count e) :: u32) = int (unat (en_count e))"
    by (rule small_count)
  have "nv12_outputs v = []" if "length v div 16 = 0" using that by (simp add: nv12_outputs_def)
  then have "length v div 16 \<noteq> 0" using outs(1) v(3) by blast
  then have four: "4 \<le> unat (en_count e)" "(unat (en_count e) + 3) div 4 = length v div 16" using cnt v(2) by auto
  have guard: "\<not> sint (ucast (en_count e) :: u32) < 4" "nat (sint (ucast (en_count e) :: u32)) = unat (en_count e)"
    unfolding sint using four(1) by linarith+
  have cv: "config_vector st e 0 (length v div 16) = Ret ?c"
    using config_vector_value [OF sv, of 0 "length v div 16"] by (simp add: v(3) nv12_outputs_def)
  have ne: "?c \<noteq> []" using outs(1) length_config_ints [of outs] by auto
  from new_packet [where ma = "malloc 0" and mb = "malloc 1", OF mem(1) mem(1) mem(2) outs type(1)] obtain a b c where
    a: "allocate_camera_metadata vo (malloc 0) 20 32768 = Ret (Some a)"
    and b: "add_camera_metadata_entry vo (Some a) ?tag (Some (ints_bytes ?c)) (of_nat (length ?c)) = Ret (OK, Some b)"
    and c: "assign vo (malloc 1) CameraMetadata_empty (Some b) = Ret \<lparr>mBuffer = Some c, mLocked = False\<rparr>"
      "good_packet vo c" "items c = [(?tag, TYPE_INT32, ints_bytes ?c)]" by blast
  have len: "ints_bytes ?c \<noteq> []" "length (ints_bytes ?c) \<le> 32768"
    using ne outs(2) length_ints_bytes [of ?c] length_config_ints [of outs] by auto
  from merge_single [where malloc = "malloc 2", OF c(2,3) type len mem(1) p] obtain obj other where
    m: "Parameters_merge vo (malloc 2) p (Some \<lparr>mBuffer = Some c, mLocked = False\<rparr>) = Ret (p\<lparr>mMetadata := obj\<rparr>, other)"
      "obj_ok vo obj" "obj_map obj = [?tag \<mapsto> (TYPE_INT32, ints_bytes ?c)]" by blast
  have "init_camera vo malloc (Some st) p = Ret (Some (p\<lparr>mMetadata := obj\<rparr>))"
    using find guard four(2) cv ne a b [unfolded ints_bytes_def] c(1) m(1) by (simp add: init_camera_def Let_def)
  moreover have "stream_parameters vo outs (p\<lparr>mMetadata := obj\<rparr>)" using m(2,3) by (simp add: stream_parameters_def)
  ultimately show ?thesis by blast
qed

section \<open>Reading the streams back\<close>

text \<open>For each output the stream, and then one of zeros, as a record has eight numbers and the reader takes four.\<close>

definition supported_streams :: "(int \<times> int) list \<Rightarrow> stream_t list" where
  "supported_streams outs = concat (map (\<lambda>(w, h).
     [\<lparr>s_format = V4L2_PIX_FMT_NV12, s_width = w, s_height = h, s_field = 0, s_stride = w, s_size = (w * h * 3) sdiv 2, s_memType = 0\<rparr>,
      \<lparr>s_format = 0, s_width = 0, s_height = 0, s_field = 0, s_stride = 0, s_size = 0, s_memType = 0\<rparr>]) outs)"

definition sizes_fit :: "(int \<times> int) list \<Rightarrow> bool" where
  "sizes_fit outs \<longleftrightarrow> list_all (\<lambda>(w, h). - (2 ^ 31) \<le> w * h \<and> w * h < 2 ^ 31 \<and> - (2 ^ 31) \<le> w * h * 3 \<and> w * h * 3 < 2 ^ 31) outs"

lemma stream_loop_value:
  assumes d: "\<And>i. i < 8 * length outs \<Longrightarrow> data_i32 m e i = Ret (config_ints outs ! i)" and fit: "sizes_fit outs"
  shows "k + n = length outs \<Longrightarrow> stream_loop m e (8 * k) (2 * n) = Ret (supported_streams (drop k outs))"
proof (induction n arbitrary: k)
  case 0
  then show ?case by (simp add: supported_streams_def)
next
  case (Suc n)
  then have k: "k < length outs" by simp
  obtain w h where o: "outs ! k = (w, h)" by fastforce
  have r: "data_i32 m e (8 * k + r) = Ret ([V4L2_PIX_FMT_NV12, w, h, 0, 0, 0, 0, 0] ! r)" if "r < 8" for r
    using d [of "8 * k + r"] config_ints_nth [OF k that] that k o by simp
  have f: "int32E (w * h) = Ret (w * h)" "int32E (w * h * 3) = Ret (w * h * 3)"
    using fit k o by (auto simp: sizes_fit_def list_all_length int32E_def)
  have n: "2 * Suc n = Suc (Suc (2 * n))" by simp
  have ih: "stream_loop m e (8 * k + 4 + 4) (2 * n) = Ret (supported_streams (drop (Suc k) outs))"
    using Suc.IH [of "Suc k"] Suc.prems by (simp add: algebra_simps)
  have i: "8 * k + 4 + 1 = 8 * k + 5" "8 * k + 4 + 2 = 8 * k + 6" "8 * k + 4 + 3 = 8 * k + 7" by simp_all
  show ?case
    unfolding n stream_loop.simps STREAM_MEMBER_NUM_def i ih
    using r [of 0] r [of 1] r [of 2] r [of 3] r [of 4] r [of 5] r [of 6] r [of 7] f k o
    by (simp add: supported_streams_def Cons_nth_drop_Suc [symmetric] int32E_def)
qed

lemma supported_streams_read:
  assumes p: "stream_parameters vo outs p" and outs: "outs = nv12_outputs v" "outs \<noteq> []" and fit: "sizes_fit outs"
  shows "getSupportedStreamConfig p = Ret (OK, supported_streams outs)"
proof -
  let ?tag = ANDROID_SCALER_AVAILABLE_STREAM_CONFIGURATIONS and ?v = "ints_bytes (config_ints outs)"
  from p obtain m where m: "mBuffer (mMetadata p) = Some m"
    by (cases "mBuffer (mMetadata p)") (auto simp: stream_parameters_def obj_map_def obj_items_def fun_eq_iff split: if_splits)
  have st: "static_ok vo m" "chars m ?tag = Some (TYPE_INT32, ?v)"
    using p m by (simp_all add: stream_parameters_def static_ok_def obj_ok_def obj_map_def obj_items_def)
  from static_lookup [OF st(1) written_types(7) written_sections(7)] st(2) obtain e where
    find: "find_camera_metadata_ro_entry (Some m) ?tag True = Ret (OK, Some e)" and sv: "shows_value m e TYPE_INT32 ?v"
    by (metis Pair_inject not_None_eq option.inject)
  have cnt: "unat (en_count e) = 8 * length outs"
    using sv length_ints_bytes [of "config_ints outs"] length_config_ints [of outs]
    by (simp add: shows_value_def tsize_def type_size_eq TYPE_INT32_def)
  have d: "data_i32 m e i = Ret (config_ints outs ! i)" if "i < 8 * length outs" for i
  proof -
    have i: "i < length (config_ints outs)" using that by (simp add: length_config_ints)
    then show ?thesis
      using data_i32_value [OF sv, of i] length_ints_bytes [of "config_ints outs"] i32_at_ints [OF i]
        config_ints_range [of "config_ints outs ! i" v] outs(1) nth_mem [OF i] by simp
  qed
  have "en_count e \<noteq> 0" "unat (en_count e) mod 4 = 0" "unat (en_count e) div 4 = 2 * length outs"
    using cnt outs(2) by auto
  then show ?thesis
    using find m stream_loop_value [OF d fit, of 0 "length outs"]
    by (simp add: getSupportedStreamConfig_def find_ro_def STREAM_MEMBER_NUM_def)
qed

section \<open>The whole initialisation\<close>

lemma two_cameras:
  assumes p: "sParameters S = [Parameters_new, Parameters_new]" and mem: "\<And>c i. ample (malloc c i)" "\<And>c i. nonnull (malloc c i)"
    and st: "hal_static hal 0 = Some st0" "hal_static hal 1 = Some st1" "offers (vendor_ops S) st0 outs0" "offers (vendor_ops S) st1 outs1"
  shows "\<exists>p0 p1. init_cameras hal malloc 0 2 S = Ret (OK, S\<lparr>sParameters := [p0, p1], initDone := True\<rparr>) \<and>
    stream_parameters (vendor_ops S) outs0 p0 \<and> stream_parameters (vendor_ops S) outs1 p1"
proof -
  have new: "mMetadata Parameters_new = CameraMetadata_empty" by (simp add: Parameters_new_def)
  from init_camera_correct [where malloc = "malloc 0", OF st(3) mem new] obtain p0 where
    0: "init_camera (vendor_ops S) (malloc 0) (Some st0) Parameters_new = Ret (Some p0)" "stream_parameters (vendor_ops S) outs0 p0" by blast
  from init_camera_correct [where malloc = "malloc 1", OF st(4) mem new] obtain p1 where
    1: "init_camera (vendor_ops S) (malloc 1) (Some st1) Parameters_new = Ret (Some p1)" "stream_parameters (vendor_ops S) outs1 p1" by blast
  have "init_cameras hal malloc 0 2 S = Ret (OK, S\<lparr>sParameters := [p0, p1], initDone := True\<rparr>)"
    using 0(1) 1(1) st(1,2) p by (simp add: numeral_2_eq_2 camera_slot_def)
  with 0(2) 1(2) show ?thesis by blast
qed

text \<open>
  C10. What an application sees of the cameras.  When the library is loaded and the HAL describes the stream configurations of
  both cameras, \<open>camera_hal_init\<close> succeeds, and the capability that \<open>get_camera_info\<close> then returns for either camera lists,
  in the order of the HAL, each NV12 output with its width, height, stride and size, each followed by a stream of
  zeros, and nothing else.  Calling it again changes nothing.
\<close>

theorem supported_streams_correct:
  assumes mem: "\<And>c i. ample (malloc c i)" "\<And>c i. nonnull (malloc c i)"
    and st: "hal_static hal 0 = Some st0" "hal_static hal 1 = Some st1"
      "offers (hal_vendor_ops hal) st0 outs0" "offers (hal_vendor_ops hal) st1 outs1"
    and fit: "sizes_fit outs0" "sizes_fit outs1" and two: "hal_cameras hal = 2"
  shows "\<exists>S info0 info1. camera_hal_init hal malloc (api_loaded g) = Ret (OK, S) \<and> camera_hal_init hal malloc S = Ret (OK, S) \<and>
    get_camera_info hal S 0 = Ret (OK, Some info0) \<and> getSupportedStreamConfig (ci_capability info0) = Ret (OK, supported_streams outs0) \<and>
    get_camera_info hal S 1 = Ret (OK, Some info1) \<and> getSupportedStreamConfig (ci_capability info1) = Ret (OK, supported_streams outs1)"
proof -
  define S0 where "S0 = (if hal_vendor_ops hal \<noteq> None then (api_loaded g)\<lparr>vendor_ops := hal_vendor_ops hal\<rparr> else api_loaded g)"
  have S0: "sParameters S0 = [Parameters_new, Parameters_new]" "vendor_ops S0 = hal_vendor_ops hal" "\<not> initDone (api_loaded g)"
    by (simp_all add: S0_def api_loaded_def)
  from two_cameras [where malloc = malloc, OF S0(1) mem st(1,2), of outs0 outs1] st(3,4) S0(2) obtain p0 p1 where
    i: "init_cameras hal malloc 0 2 S0 = Ret (OK, S0\<lparr>sParameters := [p0, p1], initDone := True\<rparr>)"
    and p: "stream_parameters (hal_vendor_ops hal) outs0 p0" "stream_parameters (hal_vendor_ops hal) outs1 p1" by auto
  let ?S = "S0\<lparr>sParameters := [p0, p1], initDone := True\<rparr>"
  have run: "camera_hal_init hal malloc (api_loaded g) = Ret (OK, ?S)"
    using i S0(3) by (simp add: camera_hal_init_def S0_def MAX_CAMERAS_def)
  moreover have "camera_hal_init hal malloc ?S = Ret (OK, ?S)" by (simp add: camera_hal_init_def)
  moreover have "\<exists>info. get_camera_info hal ?S 0 = Ret (OK, Some info) \<and> ci_capability info = p0"
    "\<exists>info. get_camera_info hal ?S 1 = Ret (OK, Some info) \<and> ci_capability info = p1"
    by (simp_all add: get_camera_info_def CAMERA_ID_CHECK_def two camera_slot_def sCameraNames_def)
  moreover from st(3,4) obtain v0 v1 where "outs0 = nv12_outputs v0" "outs0 \<noteq> []" "outs1 = nv12_outputs v1" "outs1 \<noteq> []"
    by (auto simp: offers_def)
  then have "getSupportedStreamConfig p0 = Ret (OK, supported_streams outs0)" "getSupportedStreamConfig p1 = Ret (OK, supported_streams outs1)"
    using supported_streams_read [OF p(1)] supported_streams_read [OF p(2)] fit by blast+
  ultimately show ?thesis by metis
qed

section \<open>An example\<close>

text \<open>A camera with two outputs of 64 by 32 and 32 by 16 pixels and a raw output between them.\<close>

definition demo_config :: "int list" where
  "demo_config = [0x23, 64, 32, 0, 0x20, 128, 64, 0, 0x23, 32, 16, 0]"

definition demo_camera :: camera_metadata where
  "demo_camera = \<lparr>md_addr = 0x3000, md_size = 104, md_version = 1, md_flags = 0, md_entry_count = 1,
     md_entry_capacity = 1, md_entries_start = 36, md_data_count = 48, md_data_capacity = 48, md_data_start = 56,
     md_entries = [\<lparr>be_tag = ANDROID_SCALER_AVAILABLE_STREAM_CONFIGURATIONS, be_count = 12, be_data = 0, be_type = 1, be_reserved = [0, 0, 0]\<rparr>],
     md_data = ints_bytes demo_config\<rparr>"

lemma demo_config_length: "length (ints_bytes demo_config) = 48"
  by (simp add: length_ints_bytes demo_config_def)

lemma demo_camera_esize: "esize \<lparr>be_tag = tag, be_count = 12, be_data = w, be_type = 1, be_reserved = r\<rparr> = 48"
  by (simp add: esize_eq eplen_def tsize_def type_size_eq NUM_TYPES_def round8_def)

lemma demo_camera_items: "items demo_camera = [(ANDROID_SCALER_AVAILABLE_STREAM_CONFIGURATIONS, 1, ints_bytes demo_config)]"
  using demo_config_length
  by (simp add: items_def live_def item_of_def payload_def demo_camera_esize demo_camera_def eplen_def tsize_def type_size_eq eoff_def)

lemma demo_outputs: "nv12_outputs (ints_bytes demo_config) = [(64, 32), (32, 16)]"
proof -
  have i: "i32_at (ints_bytes demo_config) i = demo_config ! i" if "i < 12" for i
    using that by (intro i32_at_ints) (auto simp: demo_config_def nth_Cons split: nat.splits)
  have "[0..<3] = [0, 1, 2 :: nat]" by (simp add: upt_rec)
  then show ?thesis
    unfolding nv12_outputs_def demo_config_length
    using i [of "Suc (Suc 0)"] i [of 0] i [of 1] i [of 2] i [of 3] i [of 4] i [of 5] i [of 6] i [of 7] i [of 8] i [of 9] i [of 10] i [of 11]
    by (simp add: demo_config_def HAL_PIXEL_FORMAT_YCbCr_420_888_def CAMERA3_STREAM_OUTPUT_def)
qed

lemma demo_camera_offers: "offers None demo_camera [(64, 32), (32, 16)]"
proof -
  have "packet_ok None demo_camera"
    using demo_config_length
    by (simp add: packet_ok_def live_def demo_camera_def layout_ok_def counts_ok_def round8_def type_ok_def written_types(7) TYPE_INT32_def
       place_ok_def demo_camera_esize eoff_def apart_def NUM_TYPES_def)
  moreover have "consistent (abs_packet demo_camera)"
    unfolding consistent_def using demo_config_length
    by (simp add: abs_packet_def demo_camera_items) (simp add: demo_camera_def item_size_def round8_def)
  ultimately show ?thesis
    by (simp add: offers_def static_ok_def good_packet_def demo_camera_items demo_outputs demo_config_length)
qed

definition demo_module :: camera_module where
  "demo_module = \<lparr>hal_cameras = 2, hal_facing = (\<lambda>i. i), hal_orientation = (\<lambda>i. 0), hal_static = (\<lambda>i. Some demo_camera),
     hal_vendor_ops = None\<rparr>"

definition demo_heap :: "nat \<Rightarrow> nat \<Rightarrow> allocator" where
  "demo_heap c i sz = Some (0x2000, replicate (unat sz) 0)"

theorem supported_streams_correct_witness:
  "\<exists>S info. camera_hal_init demo_module demo_heap (api_loaded demo_gralloc) = Ret (OK, S) \<and>
    get_camera_info demo_module S 1 = Ret (OK, Some info) \<and>
    getSupportedStreamConfig (ci_capability info) = Ret (OK, supported_streams [(64, 32), (32, 16)])"
proof -
  have mem: "ample (demo_heap c i)" "nonnull (demo_heap c i)" for c i
    by (simp_all add: ample_def nonnull_def demo_heap_def block_ok_def)
  have hal: "hal_static demo_module 0 = Some demo_camera" "hal_static demo_module 1 = Some demo_camera"
    "offers (hal_vendor_ops demo_module) demo_camera [(64, 32), (32, 16)]" "hal_cameras demo_module = 2"
    using demo_camera_offers by (simp_all add: demo_module_def)
  have fit: "sizes_fit [(64, 32), (32, 16)]" by (simp add: sizes_fit_def)
  from supported_streams_correct [where malloc = demo_heap, OF mem hal(1,2,3,3) fit fit hal(4), of demo_gralloc] show ?thesis by blast
qed

end
