(* ===== verification/Graphic_Flatten.thy ===== *)
theory Graphic_Flatten
  imports Graphic_Buffer
begin

text \<open>
  Passing a graphics buffer to another process: \<open>flatten\<close> and \<open>unflatten\<close> of \<open>ui/GraphicBuffer.cpp\<close>.  The flattened form is an
  array of 32-bit integers, here a list of \<open>int\<close>, and an array of descriptors.  The integers of a handle
  are the words of a \<open>private_handle_t\<close> behind its descriptor; those that the allocator does not use (\<open>pid\<close> and the padding) are
  the parameter \<open>rest\<close>.
\<close>

section \<open>Handles as integers\<close>

definition GBFR :: int where
  "GBFR = 0x47424652"

abbreviation BAD_TYPE :: int where
  "BAD_TYPE \<equiv> - 2147483647"

fun handle_ints :: "int \<times> int \<times> int \<Rightarrow> private_handle_t \<Rightarrow> int list" where
  "handle_ints (pad, pid, pad') hnd =
     [magic hnd, sint (ph_flags hnd), ph_size hnd, ph_offset hnd, ph_width hnd, ph_height hnd, ph_stride hnd,
      ph_halFormat hnd, sint (ph_usage hnd), pad, sint (ucast (ph_base hnd) :: u32),
      sint (ucast (drop_bit 32 (ph_base hnd)) :: u32), pid, pad']"

definition word64_of_ints :: "int \<Rightarrow> int \<Rightarrow> u64" where
  "word64_of_ints hi lo = push_bit 32 (word_of_int hi) OR ucast (word_of_int lo :: u32)"

definition handle_of_ints :: "int \<Rightarrow> int list \<Rightarrow> private_handle_t" where
  "handle_of_ints fd ints =
     \<lparr>version = sizeof_native_handle, numFds = sNumFds, numInts = sNumInts, ph_fd = fd, magic = ints ! 0,
      ph_flags = word_of_int (ints ! 1), ph_size = ints ! 2, ph_offset = ints ! 3, ph_width = ints ! 4,
      ph_height = ints ! 5, ph_stride = ints ! 6, ph_halFormat = ints ! 7, ph_usage = word_of_int (ints ! 8),
      ph_base = word64_of_ints (ints ! 11) (ints ! 10)\<rparr>"

text \<open>
  The handle that \<open>native_handle_create\<close> and the copies make.  With other counts it is no handle of this allocator; then only its
  header is read.
\<close>

definition received_handle :: "nat \<Rightarrow> nat \<Rightarrow> int list \<Rightarrow> int list \<Rightarrow> private_handle_t" where
  "received_handle nFds nInts fds ints =
     (if int nFds = sNumFds \<and> int nInts = sNumInts then handle_of_ints (fds ! 0) ints
      else (handle_of_ints 0 (replicate 14 0))\<lparr>numFds := int nFds, numInts := int nInts\<rparr>)"

definition create_handle :: "gralloc_env \<Rightarrow> gralloc_state \<Rightarrow> nat \<Rightarrow> nat \<Rightarrow> u64 option" where
  "create_handle env s nFds nInts = (if nFds > 1024 \<or> nInts > 1024 then None else env_new env s)"

section \<open>Flattening\<close>

definition handle_counts :: "gralloc_state \<Rightarrow> GraphicBuffer \<Rightarrow> (nat \<times> nat) exec" where
  "handle_counts s gb =
     (if gb_handle gb = 0 then Ret (0, 0)
      else bindE (deref (gs_handles s (gb_handle gb))) (\<lambda>hnd. Ret (nat (numFds hnd), nat (numInts hnd))))"

definition getFlattenedSize :: "gralloc_state \<Rightarrow> GraphicBuffer \<Rightarrow> nat exec" where
  "getFlattenedSize s gb = bindE (handle_counts s gb) (\<lambda>(_, nInts). Ret ((11 + nInts) * 4))"

definition getFdCount :: "gralloc_state \<Rightarrow> GraphicBuffer \<Rightarrow> nat exec" where
  "getFdCount s gb = bindE (handle_counts s gb) (\<lambda>(nFds, _). Ret nFds)"

text \<open>The status, the integers and the descriptors written.\<close>

definition flatten ::
    "gralloc_state \<Rightarrow> GraphicBuffer \<Rightarrow> int \<times> int \<times> int \<Rightarrow> nat \<Rightarrow> nat \<Rightarrow> (int \<times> int list \<times> int list) exec" where
  "flatten s gb rest bytes maxFds =
     bindE (getFlattenedSize s gb) (\<lambda>sizeNeeded.
     if bytes < sizeNeeded then Ret (NO_MEMORY, [], [])
     else bindE (getFdCount s gb) (\<lambda>fdCountNeeded.
       if maxFds < fdCountNeeded then Ret (NO_MEMORY, [], [])
       else
         let buf = [GBFR, gb_width gb, gb_height gb, gb_stride gb, gb_format gb, sint (gb_usage gb),
                    sint (ucast (drop_bit 32 (mId gb)) :: u32), sint (ucast (mId gb) :: u32), sint (mGenerationNumber gb)] in
         if gb_handle gb = 0 then Ret (OK, buf @ [0, 0], [])
         else bindE (deref (gs_handles s (gb_handle gb))) (\<lambda>hnd.
           Ret (OK, buf @ [numFds hnd, numInts hnd] @ handle_ints rest hnd, [ph_fd hnd]))))"

text \<open>A count of the array as \<open>size_t\<close>: a negative one becomes huge.\<close>

definition count_of :: "int \<Rightarrow> nat" where
  "count_of x = unat (word_of_int x :: u64)"

definition clear_buffer :: "GraphicBuffer \<Rightarrow> GraphicBuffer" where
  "clear_buffer gb = gb\<lparr>gb_width := 0, gb_height := 0, gb_stride := 0, gb_format := 0, gb_usage := 0, gb_handle := 0\<rparr>"

text \<open>
  The status, the buffer and the state, and what is left of both arrays.  When registering fails, the new handle and its
  descriptors stay behind.
\<close>

definition unflatten ::
    "gralloc_env \<Rightarrow> graphics \<Rightarrow> GraphicBuffer \<Rightarrow> int list \<Rightarrow> int list \<Rightarrow>
     (int \<times> GraphicBuffer \<times> graphics \<times> int list \<times> int list) exec" where
  "unflatten env g gb buf fds =
     (if length buf < 11 then Ret (NO_MEMORY, gb, g, buf, fds)
      else if buf ! 0 \<noteq> GBFR then Ret (BAD_TYPE, gb, g, buf, fds)
      else
        let nFds = count_of (buf ! 9); nInts = count_of (buf ! 10); maxNumber = 4096 in
        if nFds \<ge> maxNumber \<or> nInts \<ge> maxNumber - 11 then Ret (BAD_VALUE, clear_buffer gb, g, buf, fds)
        else if length buf < 11 + nInts then Ret (NO_MEMORY, gb, g, buf, fds)
        else if length fds < nFds then Ret (NO_MEMORY, gb, g, buf, fds)
        else
          bindE (if gb_handle gb \<noteq> 0 then free_handle g gb else Ret g) (\<lambda>g.
          let identity = (\<lambda>gb. gb\<lparr>mId := word64_of_ints (buf ! 6) (buf ! 7), mGenerationNumber := word_of_int (buf ! 8),
                mOwner := ownHandle\<rparr>) in
          if nFds \<noteq> 0 \<or> nInts \<noteq> 0 then
            case create_handle env (fst g) nFds nInts of
              None \<Rightarrow> Ret (NO_MEMORY, clear_buffer gb, g, buf, fds)
            | Some h \<Rightarrow>
                let s = set_handle h (received_handle nFds nInts (take nFds fds) (take nInts (drop 11 buf))) (fst g);
                    gb = identity (gb\<lparr>gb_width := buf ! 1, gb_height := buf ! 2, gb_stride := buf ! 3, gb_format := buf ! 4,
                      gb_usage := word_of_int (buf ! 5), gb_handle := h\<rparr>) in
                bindE (gralloc_register_buffer env s h) (\<lambda>(err, s).
                if err \<noteq> OK then Ret (err, clear_buffer gb, (s, snd g), buf, fds)
                else Ret (OK, gb, (s, snd g), drop (11 + nInts) buf, drop nFds fds))
          else Ret (OK, identity (clear_buffer gb), g, drop 11 buf, fds)))"

section \<open>The round trip\<close>

lemma word64_ints: "word64_of_ints (sint (ucast (drop_bit 32 w) :: u32)) (sint (ucast w :: u32)) = w"
proof (rule bit_word_eqI)
  fix n assume "n < LENGTH(64)"
  then show "bit (word64_of_ints (sint (ucast (drop_bit 32 w) :: u32)) (sint (ucast w :: u32))) n = bit w n"
    by (cases "n = 63") (auto simp: word64_of_ints_def bit_or_iff bit_push_bit_iff bit_ucast_iff bit_word_of_int_iff bit_signed_iff min_def bit_drop_bit_eq)
qed

lemma count_of_nat: "n < 2 ^ 32 \<Longrightarrow> count_of (int n) = n"
  by (simp add: count_of_def unat_of_nat)

lemma handle_ints_inverse:
  assumes "handle_ok hnd"
  shows "handle_of_ints fd (handle_ints rest hnd) = hnd\<lparr>ph_fd := fd\<rparr>"
proof -
  obtain pad pid pad' where r: "rest = (pad, pid, pad')" by (cases rest)
  show ?thesis using assms by (simp add: r handle_of_ints_def handle_ok_def word64_ints)
qed

lemma register_received:
  assumes ok: "gralloc_ok s" and k: "kernel_ok env" and h: "handle_ok hnd" and p: "env_new env s = Some p"
    and map: "env_mmap env (set_handle p hnd s) (word_of_int (ph_size hnd)) (ph_flags hnd AND PRIV_FLAGS_MAP_READ_ONLY = 0) (ph_fd hnd) = Inr a"
  shows "\<exists>s'. gralloc_register_buffer env (set_handle p hnd s) p = Ret (0, s') \<and> gralloc_ok s' \<and>
    gs_handles s' = (gs_handles s)(p \<mapsto> hnd\<lparr>ph_base := a\<rparr>) \<and> gs_maps s' = (a, word_of_int (ph_size hnd)) # gs_maps s"
proof -
  have fresh: "p \<notin> dom (gs_handles s)" "p \<noteq> 0" "a \<noteq> 0" using k p map by (auto simp: kernel_ok_def)
  let ?s = "set_handle p (hnd\<lparr>ph_base := a\<rparr>) ((set_handle p hnd s)\<lparr>gs_maps := (a, word_of_int (ph_size hnd)) # gs_maps s\<rparr>)"
  have "validate (set_handle p hnd s) p = Ret 0" using h fresh by (simp add: validate_def set_handle_def handle_ok_def)
  moreover have "gralloc_map env (set_handle p hnd s) p = Ret (0, Some a, ?s)"
    using map h by (simp add: gralloc_map_def set_handle_def handle_ok_def Let_def)
  ultimately have "gralloc_register_buffer env (set_handle p hnd s) p = Ret (0, ?s)" by (simp add: gralloc_register_buffer_def)
  moreover have "gralloc_ok ?s"
    using ok h fresh regions_upd [OF gralloc_okD(1) [OF ok] fresh(1), of "hnd\<lparr>ph_base := a\<rparr>"]
    by (auto simp: gralloc_ok_def set_handle_def region_of_def handle_ok_def)
  ultimately show ?thesis by (simp add: set_handle_def)
qed

text \<open>
  C11. A buffer that one process flattens and another unflattens is the same buffer: same size, stride, format, usage, identity and
  generation, and a handle with the same contents for the descriptor that the other process received, mapped at an address of its own.
  Exactly the flattened integers and descriptors are consumed, whatever follows them, and the mappings of the receiver stay those of its handles.
\<close>

theorem flatten_unflatten:
  assumes sender: "gralloc_ok s" "gs_handles s (gb_handle gb) = Some hnd" and room: "100 \<le> bytes" "1 \<le> maxFds"
    and receiver: "kernel_ok env" "gralloc_ok (fst g)" "gb_handle gb' = 0" "env_new env (fst g) = Some p"
    and map: "env_mmap env (set_handle p (hnd\<lparr>ph_fd := fd\<rparr>) (fst g)) (word_of_int (ph_size hnd))
      (ph_flags hnd AND PRIV_FLAGS_MAP_READ_ONLY = 0) fd = Inr a"
  shows "\<exists>ints s'. flatten s gb rest bytes maxFds = Ret (OK, ints, [ph_fd hnd]) \<and> length ints = 25 \<and>
    unflatten env g gb' (ints @ tail) (fd # fds) =
      Ret (OK, gb'\<lparr>gb_width := gb_width gb, gb_height := gb_height gb, gb_stride := gb_stride gb, gb_format := gb_format gb,
        gb_usage := gb_usage gb, gb_handle := p, mId := mId gb, mGenerationNumber := mGenerationNumber gb, mOwner := ownHandle\<rparr>,
        (s', snd g), tail, fds) \<and>
    gralloc_ok s' \<and> gs_handles s' = (gs_handles (fst g))(p \<mapsto> hnd\<lparr>ph_fd := fd, ph_base := a\<rparr>) \<and>
    gs_maps s' = (a, word_of_int (ph_size hnd)) # gs_maps (fst g)"
proof -
  have h: "handle_ok hnd" "gb_handle gb \<noteq> 0" using sender gralloc_okD(2,4) by (blast, metis domI)
  have n: "numFds hnd = 1" "numInts hnd = 14" using h(1) by (simp_all add: handle_ok_def sNumFds_def sNumInts_def sizeof_native_handle_def)
  define head where "head = [GBFR, gb_width gb, gb_height gb, gb_stride gb, gb_format gb, sint (gb_usage gb),
    sint (ucast (drop_bit 32 (mId gb)) :: u32), sint (ucast (mId gb) :: u32), sint (mGenerationNumber gb), 1, 14]"
  let ?hi = "handle_ints rest hnd"
  have len: "length head = 11" "length ?hi = 14" by (simp add: head_def) (cases rest, simp)
  have fl: "flatten s gb rest bytes maxFds = Ret (OK, head @ ?hi, [ph_fd hnd])"
    using room h(2) sender(2) n by (simp add: flatten_def getFlattenedSize_def getFdCount_def handle_counts_def head_def)
  let ?hnd = "hnd\<lparr>ph_fd := fd\<rparr>"
  have ok: "handle_ok ?hnd" using h(1) by (simp add: handle_ok_def)
  from register_received [OF receiver(2,1) ok receiver(4)] map obtain s' where
    reg: "gralloc_register_buffer env (set_handle p ?hnd (fst g)) p = Ret (0, s')" and s': "gralloc_ok s'"
      "gs_handles s' = (gs_handles (fst g))(p \<mapsto> ?hnd\<lparr>ph_base := a\<rparr>)" "gs_maps s' = (a, word_of_int (ph_size hnd)) # gs_maps (fst g)"
    by auto
  let ?buf = "(head @ ?hi) @ tail"
  have nth: "?buf ! i = head ! i" if "i < 11" for i using that len(1) by (simp add: nth_append)
  have c: "count_of (?buf ! 9) = 1" "count_of (?buf ! 10) = 14" using nth [of 9] nth [of 10] by (simp_all add: head_def count_of_def)
  have rec: "received_handle 1 14 (take 1 (fd # fds)) (take 14 (drop 11 ?buf)) = ?hnd"
    using len handle_ints_inverse [OF h(1), of fd rest]
    by (simp add: received_handle_def sNumFds_def sNumInts_def sizeof_native_handle_def)
  have dr: "drop (11 + 14) ?buf = tail" "\<not> length ?buf < 11" "\<not> length ?buf < 11 + 14" using len by simp_all
  have id: "word64_of_ints (?buf ! 6) (?buf ! 7) = mId gb" "word_of_int (?buf ! 8) = mGenerationNumber gb" "word_of_int (?buf ! 5) = gb_usage gb"
    "?buf ! 0 = GBFR" "?buf ! 1 = gb_width gb" "?buf ! 2 = gb_height gb" "?buf ! 3 = gb_stride gb" "?buf ! 4 = gb_format gb"
    using nth [of 0] nth [of 1] nth [of 2] nth [of 3] nth [of 4] nth [of 5] nth [of 6] nth [of 7] nth [of 8] word64_ints [of "mId gb"]
    by (simp_all add: head_def)
  have "unflatten env g gb' ?buf (fd # fds) = Ret (OK, gb'\<lparr>gb_width := gb_width gb, gb_height := gb_height gb, gb_stride := gb_stride gb,
      gb_format := gb_format gb, gb_usage := gb_usage gb, gb_handle := p, mId := mId gb, mGenerationNumber := mGenerationNumber gb,
      mOwner := ownHandle\<rparr>, (s', snd g), tail, fds)"
    unfolding unflatten_def c id Let_def using dr rec reg receiver(3,4) by (simp add: create_handle_def)
  with fl s' len show ?thesis by (intro exI [of _ "head @ ?hi"] exI [of _ s']) simp
qed

definition demo_graphic_buffer :: GraphicBuffer where
  "demo_graphic_buffer = (GraphicBuffer_empty 0x700000003)\<lparr>gb_width := 64, gb_height := 32, gb_stride := 64, gb_format := 0x23,
     gb_usage := 0x933, gb_handle := 0x100\<rparr>"

theorem flatten_unflatten_witness:
  "\<exists>ints gb g'. flatten demo_allocated demo_graphic_buffer (0, 7, 0) 100 1 = Ret (OK, ints, [5]) \<and>
    unflatten demo_kernel (demo_gralloc, Map.empty) (GraphicBuffer_empty 9) (ints @ [42]) [8, 6] = Ret (OK, gb, g', [42], [6]) \<and>
    gb_width gb = 64 \<and> gb_height gb = 32 \<and> gb_usage gb = 0x933 \<and> mId gb = 0x700000003 \<and> gs_maps (fst g') = [(0x7000, 4096)]"
proof -
  have k: "kernel_ok demo_kernel" by (auto simp: kernel_ok_def demo_kernel_def split: if_splits)
  have ok: "gralloc_ok demo_gralloc" by (simp add: gralloc_ok_def demo_gralloc_def regions_def)
  have s: "gralloc_ok demo_allocated"
    using gralloc_alloc_ok [OF ok k _ demo_alloc_run(1)] by simp
  from demo_alloc_run(3) obtain hnd where h: "gs_handles demo_allocated (gb_handle demo_graphic_buffer) = Some hnd"
    "region_of hnd = {#(0x7000, 4096)#}" by (auto simp: demo_graphic_buffer_def)
  have f: "ph_fd hnd = 5"
    using h(1) by (auto simp: demo_graphic_buffer_def demo_allocated_def gralloc_alloc_def demo_kernel_def demo_gralloc_def gralloc_bits_def
        int32E_def Let_def gralloc_alloc_buffer_def roundUpToPageSize_def new_object_def mapBuffer_def gralloc_map_def
        set_handle_def private_handle_def int_of_size_def)
  have sz: "(word_of_int (ph_size hnd) :: u64) = 4096" using h(2) by (auto simp: region_of_def split: if_splits)
  have e: "gb_handle (GraphicBuffer_empty 9) = 0" "env_new demo_kernel (fst (demo_gralloc, Map.empty)) = Some 0x100"
    by (simp_all add: GraphicBuffer_empty_def demo_kernel_def demo_gralloc_def)
  have m: "env_mmap demo_kernel (set_handle 0x100 (hnd\<lparr>ph_fd := 8\<rparr>) (fst (demo_gralloc, Map.empty))) (word_of_int (ph_size hnd))
      (ph_flags hnd AND PRIV_FLAGS_MAP_READ_ONLY = 0) 8 = Inr 0x7000" by (simp add: demo_kernel_def)
  from flatten_unflatten [OF s h(1) _ _ k _ e m, of 100 1 "(0, 7, 0)" "[42]" "[6]"] ok obtain ints s' where
    "flatten demo_allocated demo_graphic_buffer (0, 7, 0) 100 1 = Ret (OK, ints, [5])"
    "unflatten demo_kernel (demo_gralloc, Map.empty) (GraphicBuffer_empty 9) (ints @ [42]) [8, 6] =
      Ret (OK, (GraphicBuffer_empty 9)\<lparr>gb_width := 64, gb_height := 32, gb_stride := 64, gb_format := 0x23,
        gb_usage := 0x933, gb_handle := 0x100, mId := 0x700000003, mGenerationNumber := 0, mOwner := ownHandle\<rparr>,
        (s', Map.empty), [42], [6])"
    "gs_maps s' = [(0x7000, 4096)]"
    by (auto simp: f sz demo_gralloc_def demo_graphic_buffer_def GraphicBuffer_empty_def)
  then show ?thesis by auto
qed

end
