(* ===== verification/Ui_Rect.thy ===== *)
theory Ui_Rect
  imports C_Prelude
begin

text \<open>
  Points and rectangles: \<open>ui/Point.h\<close>, \<open>ui/Rect.h\<close> and \<open>ui/Rect.cpp\<close>.  The coordinates are 32-bit signed integers; an
  operation whose arithmetic leaves their range is a \<open>Fault\<close>, since the overflow is undefined.  The last part relates the
  operations to the set of points a rectangle covers, its left and top edges included and the other two not.
\<close>

section \<open>Points\<close>

record Point =
  p_x :: int
  p_y :: int

definition Point_of :: "int \<Rightarrow> int \<Rightarrow> Point" where
  "Point_of x y = \<lparr>p_x = x, p_y = y\<rparr>"

definition Point_eq :: "Point \<Rightarrow> Point \<Rightarrow> bool" where
  "Point_eq p rhs \<longleftrightarrow> p_x p = p_x rhs \<and> p_y p = p_y rhs"

definition isOrigin :: "Point \<Rightarrow> bool" where
  "isOrigin p \<longleftrightarrow> p_x p OR p_y p = 0"

definition Point_less :: "Point \<Rightarrow> Point \<Rightarrow> bool" where
  "Point_less p rhs \<longleftrightarrow> p_y p < p_y rhs \<or> p_y p = p_y rhs \<and> p_x p < p_x rhs"

definition Point_negate :: "Point \<Rightarrow> Point exec" where
  "Point_negate p = bindE (int32E (- p_x p)) (\<lambda>x. bindE (int32E (- p_y p)) (\<lambda>y. Ret \<lparr>p_x = x, p_y = y\<rparr>))"

definition Point_add :: "Point \<Rightarrow> Point \<Rightarrow> Point exec" where
  "Point_add p rhs =
     bindE (int32E (p_x p + p_x rhs)) (\<lambda>x. bindE (int32E (p_y p + p_y rhs)) (\<lambda>y. Ret \<lparr>p_x = x, p_y = y\<rparr>))"

definition Point_sub :: "Point \<Rightarrow> Point \<Rightarrow> Point exec" where
  "Point_sub p rhs =
     bindE (int32E (p_x p - p_x rhs)) (\<lambda>x. bindE (int32E (p_y p - p_y rhs)) (\<lambda>y. Ret \<lparr>p_x = x, p_y = y\<rparr>))"

section \<open>Rectangles\<close>

record Rect =
  left :: int
  top :: int
  right :: int
  bottom :: int

abbreviation rect4 :: "int \<Rightarrow> int \<Rightarrow> int \<Rightarrow> int \<Rightarrow> Rect" where
  "rect4 l t r b \<equiv> \<lparr>left = l, top = t, right = r, bottom = b\<rparr>"

definition Rect_empty :: Rect where
  "Rect_empty = rect4 0 0 0 0"

definition Rect_size :: "int \<Rightarrow> int \<Rightarrow> Rect" where
  "Rect_size w h = rect4 0 0 w h"

text \<open>The constructor from unsigned sizes limits both to the largest signed value.\<close>

definition Rect_unsigned :: "u32 \<Rightarrow> u32 \<Rightarrow> Rect" where
  "Rect_unsigned w h =
     (let w = (if w > 0x7FFFFFFF then 0x7FFFFFFF else w); h = (if h > 0x7FFFFFFF then 0x7FFFFFFF else h)
      in rect4 0 0 (sint w) (sint h))"

definition Rect_points :: "Point \<Rightarrow> Point \<Rightarrow> Rect" where
  "Rect_points lt rb = rect4 (p_x lt) (p_y lt) (p_x rb) (p_y rb)"

definition INVALID_RECT :: Rect where
  "INVALID_RECT = rect4 0 0 (- 1) (- 1)"

definition makeInvalid :: "Rect \<Rightarrow> Rect" where
  "makeInvalid r = r\<lparr>left := 0, top := 0, right := - 1, bottom := - 1\<rparr>"

definition Rect_clear :: "Rect \<Rightarrow> Rect" where
  "Rect_clear r = r\<lparr>left := 0, top := 0, right := 0, bottom := 0\<rparr>"

definition getWidth :: "Rect \<Rightarrow> int exec" where
  "getWidth r = int32E (right r - left r)"

definition getHeight :: "Rect \<Rightarrow> int exec" where
  "getHeight r = int32E (bottom r - top r)"

definition Rect_isValid :: "Rect \<Rightarrow> bool exec" where
  "Rect_isValid r = bindE (getWidth r) (\<lambda>w. if w \<ge> 0 then bindE (getHeight r) (\<lambda>h. Ret (h \<ge> 0)) else Ret False)"

definition Rect_isEmpty :: "Rect \<Rightarrow> bool exec" where
  "Rect_isEmpty r = bindE (getWidth r) (\<lambda>w. if w \<le> 0 then Ret True else bindE (getHeight r) (\<lambda>h. Ret (h \<le> 0)))"

definition Rect_getBounds :: "Rect \<Rightarrow> Rect exec" where
  "Rect_getBounds r = bindE (int32E (right r - left r)) (\<lambda>w. bindE (int32E (bottom r - top r)) (\<lambda>h. Ret (Rect_size w h)))"

definition setLeftTop :: "Rect \<Rightarrow> Point \<Rightarrow> Rect" where
  "setLeftTop r lt = r\<lparr>left := p_x lt, top := p_y lt\<rparr>"

definition setRightBottom :: "Rect \<Rightarrow> Point \<Rightarrow> Rect" where
  "setRightBottom r rb = r\<lparr>right := p_x rb, bottom := p_y rb\<rparr>"

definition leftTop :: "Rect \<Rightarrow> Point" where
  "leftTop r = Point_of (left r) (top r)"

definition rightBottom :: "Rect \<Rightarrow> Point" where
  "rightBottom r = Point_of (right r) (bottom r)"

definition rightTop :: "Rect \<Rightarrow> Point" where
  "rightTop r = Point_of (right r) (top r)"

definition leftBottom :: "Rect \<Rightarrow> Point" where
  "leftBottom r = Point_of (left r) (bottom r)"

definition Rect_eq :: "Rect \<Rightarrow> Rect \<Rightarrow> bool" where
  "Rect_eq r rhs \<longleftrightarrow> left r = left rhs \<and> top r = top rhs \<and> right r = right rhs \<and> bottom r = bottom rhs"

definition Rect_less :: "Rect \<Rightarrow> Rect \<Rightarrow> bool" where
  "Rect_less r rhs =
     (if top r < top rhs then True
      else if top r = top rhs then
        if left r < left rhs then True
        else if left r = left rhs then
          if bottom r < bottom rhs then True
          else if bottom r = bottom rhs then right r < right rhs
          else False
        else False
      else False)"

section \<open>Moving a rectangle\<close>

definition offsetTo :: "Rect \<Rightarrow> int \<Rightarrow> int \<Rightarrow> Rect exec" where
  "offsetTo r x y =
     bindE (int32E (left r - x)) (\<lambda>dx. bindE (int32E (right r - dx)) (\<lambda>right'.
     bindE (int32E (top r - y)) (\<lambda>dy. bindE (int32E (bottom r - dy)) (\<lambda>bottom'.
     Ret (rect4 x y right' bottom')))))"

definition offsetBy :: "Rect \<Rightarrow> int \<Rightarrow> int \<Rightarrow> Rect exec" where
  "offsetBy r x y =
     bindE (int32E (left r + x)) (\<lambda>left'. bindE (int32E (top r + y)) (\<lambda>top'.
     bindE (int32E (right r + x)) (\<lambda>right'. bindE (int32E (bottom r + y)) (\<lambda>bottom'.
     Ret (rect4 left' top' right' bottom')))))"

definition Rect_plus :: "Rect \<Rightarrow> Point \<Rightarrow> Rect exec" where
  "Rect_plus r rhs =
     bindE (int32E (left r + p_x rhs)) (\<lambda>left'. bindE (int32E (top r + p_y rhs)) (\<lambda>top'.
     bindE (int32E (right r + p_x rhs)) (\<lambda>right'. bindE (int32E (bottom r + p_y rhs)) (\<lambda>bottom'.
     Ret (rect4 left' top' right' bottom')))))"

definition Rect_minus :: "Rect \<Rightarrow> Point \<Rightarrow> Rect exec" where
  "Rect_minus r rhs =
     bindE (int32E (left r - p_x rhs)) (\<lambda>left'. bindE (int32E (top r - p_y rhs)) (\<lambda>top'.
     bindE (int32E (right r - p_x rhs)) (\<lambda>right'. bindE (int32E (bottom r - p_y rhs)) (\<lambda>bottom'.
     Ret (rect4 left' top' right' bottom')))))"

definition Rect_add_assign :: "Rect \<Rightarrow> Point \<Rightarrow> Rect exec" where
  "Rect_add_assign r rhs = offsetBy r (p_x rhs) (p_y rhs)"

definition Rect_sub_assign :: "Rect \<Rightarrow> Point \<Rightarrow> Rect exec" where
  "Rect_sub_assign r rhs = bindE (int32E (- p_x rhs)) (\<lambda>x. bindE (int32E (- p_y rhs)) (\<lambda>y. offsetBy r x y))"

definition offsetToOrigin :: "Rect \<Rightarrow> Rect exec" where
  "offsetToOrigin r =
     bindE (int32E (right r - left r)) (\<lambda>right'. bindE (int32E (bottom r - top r)) (\<lambda>bottom'.
     Ret (rect4 0 0 right' bottom')))"

definition offsetTo_point :: "Rect \<Rightarrow> Point \<Rightarrow> Rect exec" where
  "offsetTo_point r p = offsetTo r (p_x p) (p_y p)"

definition offsetBy_point :: "Rect \<Rightarrow> Point \<Rightarrow> Rect exec" where
  "offsetBy_point r dp = offsetBy r (p_x dp) (p_y dp)"

section \<open>Intersecting, transforming and reducing\<close>

definition rect_min :: "int \<Rightarrow> int \<Rightarrow> int" where
  "rect_min a b = (if a < b then a else b)"

definition rect_max :: "int \<Rightarrow> int \<Rightarrow> int" where
  "rect_max a b = (if a > b then a else b)"

definition Rect_intersect :: "Rect \<Rightarrow> Rect \<Rightarrow> (bool \<times> Rect) exec" where
  "Rect_intersect r with' =
     (let result = rect4 (rect_max (left r) (left with')) (rect_max (top r) (top with'))
            (rect_min (right r) (right with')) (rect_min (bottom r) (bottom with'))
      in bindE (Rect_isEmpty result) (\<lambda>e. Ret (\<not> e, result)))"

definition HAL_TRANSFORM_FLIP_H :: u32 where
  "HAL_TRANSFORM_FLIP_H = 1"

definition HAL_TRANSFORM_FLIP_V :: u32 where
  "HAL_TRANSFORM_FLIP_V = 2"

definition HAL_TRANSFORM_ROT_90 :: u32 where
  "HAL_TRANSFORM_ROT_90 = 4"

definition transform_flip_h :: "int \<Rightarrow> Rect \<Rightarrow> Rect exec" where
  "transform_flip_h width r =
     bindE (int32E (width - right r)) (\<lambda>l. bindE (int32E (width - left r)) (\<lambda>r'. Ret (rect4 l (top r) r' (bottom r))))"

definition transform_flip_v :: "int \<Rightarrow> Rect \<Rightarrow> Rect exec" where
  "transform_flip_v height r =
     bindE (int32E (height - bottom r)) (\<lambda>t. bindE (int32E (height - top r)) (\<lambda>b. Ret (rect4 (left r) t (right r) b)))"

definition transform_rot_90 :: "int \<Rightarrow> Rect \<Rightarrow> Rect exec" where
  "transform_rot_90 height r =
     bindE (int32E (height - bottom r)) (\<lambda>l. bindE (int32E (height - top r)) (\<lambda>r'. Ret (rect4 l (left r) r' (right r))))"

definition Rect_transform :: "Rect \<Rightarrow> u32 \<Rightarrow> int \<Rightarrow> int \<Rightarrow> Rect exec" where
  "Rect_transform r xform width height =
     bindE (if xform AND HAL_TRANSFORM_FLIP_H \<noteq> 0 then transform_flip_h width r else Ret r) (\<lambda>result.
     bindE (if xform AND HAL_TRANSFORM_FLIP_V \<noteq> 0 then transform_flip_v height result else Ret result) (\<lambda>result.
     if xform AND HAL_TRANSFORM_ROT_90 \<noteq> 0 then transform_rot_90 height result else Ret result))"

definition reduce :: "Rect \<Rightarrow> Rect \<Rightarrow> Rect" where
  "reduce r exclude =
     (let sides = (0 :: u32);
          sides = sides OR (if left exclude > left r then 1 else 0);
          sides = sides OR (if top exclude > top r then 2 else 0);
          sides = sides OR (if right exclude < right r then 4 else 0);
          sides = sides OR (if bottom exclude < bottom r then 8 else 0)
      in if sides = 0 then Rect_clear Rect_empty
         else if sides AND (sides - 1) = 0 then
           if sides AND 1 \<noteq> 0 then r\<lparr>right := left exclude\<rparr>
           else if sides AND 2 \<noteq> 0 then r\<lparr>bottom := top exclude\<rparr>
           else if sides AND 4 \<noteq> 0 then r\<lparr>left := right exclude\<rparr>
           else if sides AND 8 \<noteq> 0 then r\<lparr>top := bottom exclude\<rparr>
           else r
         else r)"

section \<open>The points of a rectangle\<close>

definition covers :: "Rect \<Rightarrow> int \<Rightarrow> int \<Rightarrow> bool" where
  "covers r x y \<longleftrightarrow> left r \<le> x \<and> x < right r \<and> top r \<le> y \<and> y < bottom r"

definition nonempty :: "Rect \<Rightarrow> bool" where
  "nonempty r \<longleftrightarrow> left r < right r \<and> top r < bottom r"

lemma covers_corner: "nonempty r \<Longrightarrow> covers r (left r) (top r)"
  by (simp add: nonempty_def covers_def)

lemma nonempty_iff_covers: "nonempty r \<longleftrightarrow> (\<exists>x y. covers r x y)"
  by (auto simp: nonempty_def covers_def intro: exI [of _ "left r"] exI [of _ "top r"])

lemma covers_rect4 [simp]: "covers (rect4 l t r b) x y \<longleftrightarrow> l \<le> x \<and> x < r \<and> t \<le> y \<and> y < b"
  by (simp add: covers_def)

lemma or_zero_iff: "x OR y = 0 \<longleftrightarrow> x = 0 \<and> y = (0 :: int)"
  by (simp add: bit_eq_iff bit_simps) blast

lemma isOrigin_iff: "isOrigin p \<longleftrightarrow> p_x p = 0 \<and> p_y p = 0"
  by (simp add: isOrigin_def or_zero_iff)

lemma Rect_eq_iff [simp]: "Rect_eq r r' \<longleftrightarrow> r = r'"
  by (auto simp: Rect_eq_def)

lemma Rect_unsigned_bounds:
  "left (Rect_unsigned w h) = 0" "top (Rect_unsigned w h) = 0"
  "right (Rect_unsigned w h) = min (uint w) (2 ^ 31 - 1)" "bottom (Rect_unsigned w h) = min (uint h) (2 ^ 31 - 1)"
proof -
  have u: "sint v = uint v" if "\<not> 0x7FFFFFFF < v" for v :: u32
  proof -
    have "uint v < 2 ^ 31" using that by (simp add: word_less_def)
    then show ?thesis by (simp add: sint_uint signed_take_bit_int_eq_self order_trans [OF _ uint_ge_0])
  qed
  have m: "uint v < 2147483648" if "\<not> 0x7FFFFFFF < v" for v :: u32 using that by (simp add: word_less_def)
  show "left (Rect_unsigned w h) = 0" "top (Rect_unsigned w h) = 0" by (simp_all add: Rect_unsigned_def Let_def)
  show "right (Rect_unsigned w h) = min (uint w) (2 ^ 31 - 1)" "bottom (Rect_unsigned w h) = min (uint h) (2 ^ 31 - 1)"
    using u [of w] m [of w] u [of h] m [of h] by (auto simp: Rect_unsigned_def Let_def min_def word_less_def)
qed

text \<open>\<open>operator <\<close> is the lexicographic order of top, left, bottom and right: a strict total order.\<close>

lemma Rect_less_strict:
  "\<not> Rect_less a a"
  "Rect_less a b \<Longrightarrow> Rect_less b c \<Longrightarrow> Rect_less a c"
  "Rect_less a b \<or> Rect_less b a \<or> a = (b :: Rect)"
  by (auto simp: Rect_less_def intro: Rect.equality split: if_splits)

lemma rect_min_max [simp]: "rect_min a b = min a b" "rect_max a b = max a b"
  by (simp_all add: rect_min_def rect_max_def)

lemma intersect_result:
  assumes "Rect_intersect a b = Ret (ok, r)"
  shows "r = rect4 (max (left a) (left b)) (max (top a) (top b)) (min (right a) (right b)) (min (bottom a) (bottom b))"
    and "Rect_isEmpty r = Ret (\<not> ok)"
proof -
  from assms show r: "r = rect4 (max (left a) (left b)) (max (top a) (top b)) (min (right a) (right b)) (min (bottom a) (bottom b))"
    by (simp only: Rect_intersect_def Let_def bindE_Ret_iff rect_min_max) blast
  from assms show "Rect_isEmpty r = Ret (\<not> ok)"
    unfolding r by (simp only: Rect_intersect_def Let_def bindE_Ret_iff rect_min_max) auto
qed

lemma Rect_isEmpty_nonempty: "Rect_isEmpty r = Ret e \<Longrightarrow> e \<longleftrightarrow> \<not> nonempty r"
  by (auto simp: Rect_isEmpty_def getWidth_def getHeight_def int32E_def nonempty_def split: if_splits)

lemma intersect_points:
  "Rect_intersect a b = Ret (ok, r) \<Longrightarrow> covers r x y \<longleftrightarrow> covers a x y \<and> covers b x y"
  using intersect_result(1) [of a b ok r] by (simp add: covers_def conj_ac)

lemma intersect_nonempty:
  "Rect_intersect a b = Ret (ok, r) \<Longrightarrow> ok \<longleftrightarrow> (\<exists>x y. covers a x y \<and> covers b x y)"
  using Rect_isEmpty_nonempty [OF intersect_result(2) [of a b ok r]] intersect_points [of a b ok r] by (auto simp: nonempty_iff_covers)

lemma offsetBy_points:
  "offsetBy r dx dy = Ret r' \<Longrightarrow> covers r' (x + dx) (y + dy) \<longleftrightarrow> covers r x y"
  by (auto simp: offsetBy_def bindE_Ret_iff int32E_def split: if_splits) (simp_all add: covers_def)

text \<open>Where a transform takes a point of an image of the given size.\<close>

definition transform_point :: "u32 \<Rightarrow> int \<Rightarrow> int \<Rightarrow> int \<times> int \<Rightarrow> int \<times> int" where
  "transform_point xform width height = (\<lambda>(x, y).
     let x = (if xform AND HAL_TRANSFORM_FLIP_H \<noteq> 0 then width - 1 - x else x);
         y = (if xform AND HAL_TRANSFORM_FLIP_V \<noteq> 0 then height - 1 - y else y)
     in if xform AND HAL_TRANSFORM_ROT_90 \<noteq> 0 then (height - 1 - y, x) else (x, y))"

lemma transform_points:
  "Rect_transform r xform width height = Ret r' \<Longrightarrow> transform_point xform width height (x, y) = (x', y') \<Longrightarrow>
   covers r' x' y' \<longleftrightarrow> covers r x y"
  by (auto simp: Rect_transform_def transform_flip_h_def transform_flip_v_def transform_rot_90_def transform_point_def
      bindE_Ret_iff int32E_def Let_def covers_def split: if_splits)

section \<open>Reducing a rectangle\<close>

lemma reduce_cases:
  "reduce r e =
     (let a = left e > left r; b = top e > top r; c = right e < right r; d = bottom e < bottom r in
      if \<not> a \<and> \<not> b \<and> \<not> c \<and> \<not> d then rect4 0 0 0 0
      else if a \<and> \<not> b \<and> \<not> c \<and> \<not> d then r\<lparr>right := left e\<rparr>
      else if b \<and> \<not> a \<and> \<not> c \<and> \<not> d then r\<lparr>bottom := top e\<rparr>
      else if c \<and> \<not> a \<and> \<not> b \<and> \<not> d then r\<lparr>left := right e\<rparr>
      else if d \<and> \<not> a \<and> \<not> b \<and> \<not> c then r\<lparr>top := bottom e\<rparr>
      else r)"
  by (simp add: reduce_def Rect_clear_def Rect_empty_def)

lemma reduce_contains:
  assumes "covers r x0 y0" "covers e x0 y0" "covers r x y" "\<not> covers e x y"
  shows "covers (reduce r e) x y"
  using assms by (auto simp: reduce_cases Let_def covers_def)

lemma reduce_within:
  assumes "covers r x0 y0" "covers e x0 y0" "covers (reduce r e) x y"
  shows "covers r x y"
  using assms by (auto simp: reduce_cases Let_def covers_def split: if_splits)



text \<open>Each edge of the result has a point of the difference.\<close>

definition remains :: "Rect \<Rightarrow> Rect \<Rightarrow> int \<Rightarrow> int \<Rightarrow> bool" where
  "remains r e x y \<longleftrightarrow> covers r x y \<and> \<not> covers e x y"

lemma reduce_edges:
  assumes "covers r x0 y0" "covers e x0 y0" "covers (reduce r e) x y"
  shows "remains r e (left (reduce r e)) (top r) \<or> remains r e (left (reduce r e)) (bottom r - 1)"
    and "remains r e (right (reduce r e) - 1) (top r) \<or> remains r e (right (reduce r e) - 1) (bottom r - 1)"
    and "remains r e (left r) (top (reduce r e)) \<or> remains r e (right r - 1) (top (reduce r e))"
    and "remains r e (left r) (bottom (reduce r e) - 1) \<or> remains r e (right r - 1) (bottom (reduce r e) - 1)"
  using assms unfolding reduce_cases Let_def remains_def covers_def by (simp_all split: if_splits) linarith+

lemma reduce_least:
  assumes m: "covers r x0 y0" "covers e x0 y0" and b: "\<And>x y. remains r e x y \<Longrightarrow> covers b x y"
    and c: "covers (reduce r e) x y"
  shows "covers b x y"
proof -
  note e = reduce_edges [OF m c]
  have "left b \<le> left (reduce r e)" using e(1) b by (auto simp: covers_def)
  moreover have "right (reduce r e) \<le> right b" using e(2) b by (force simp: covers_def)
  moreover have "top b \<le> top (reduce r e)" using e(3) b by (auto simp: covers_def)
  moreover have "bottom (reduce r e) \<le> bottom b" using e(4) b by (force simp: covers_def)
  ultimately show ?thesis using c by (simp add: covers_def)
qed

text \<open>
  C16. When two rectangles meet, \<open>Rect::reduce\<close> computes the bounds of their difference: it covers every point of the first that is not in
  the second, no point outside the first, and lies inside every rectangle that covers the difference.
\<close>

theorem reduce_exact:
  assumes "covers r x0 y0" "covers e x0 y0"
  shows "(\<forall>x y. covers r x y \<and> \<not> covers e x y \<longrightarrow> covers (reduce r e) x y) \<and>
    (\<forall>x y. covers (reduce r e) x y \<longrightarrow> covers r x y) \<and>
    (\<forall>b. (\<forall>x y. covers r x y \<and> \<not> covers e x y \<longrightarrow> covers b x y) \<longrightarrow> (\<forall>x y. covers (reduce r e) x y \<longrightarrow> covers b x y))"
  using reduce_contains [OF assms] reduce_within [OF assms] reduce_least [OF assms] unfolding remains_def by blast

theorem reduce_exact_witness:
  "reduce (rect4 0 0 10 10) (rect4 4 0 20 10) = rect4 0 0 4 10 \<and>
   covers (reduce (rect4 0 0 10 10) (rect4 4 0 20 10)) 3 7 \<and> \<not> covers (reduce (rect4 0 0 10 10) (rect4 4 0 20 10)) 12 7"
proof -
  let ?r = "rect4 0 0 10 10" and ?e = "rect4 4 0 20 10"
  have c: "covers ?r 5 5" "covers ?e 5 5" by simp_all
  have "covers ?r 3 7" "\<not> covers ?e 3 7" "\<not> covers ?r 12 7" by simp_all
  then have "covers (reduce ?r ?e) 3 7" "\<not> covers (reduce ?r ?e) 12 7" using reduce_exact [OF c] by blast+
  then show ?thesis by (simp add: reduce_cases)
qed

text \<open>Below the first rectangle, the second one makes the result larger than the first.\<close>

lemma reduce_apart:
  assumes "left e \<le> left r" "right r \<le> right e" "bottom r < top e" "top e \<le> bottom e" "top r \<le> bottom r"
  shows "reduce r e = r\<lparr>bottom := top e\<rparr>"
  using assms by (simp add: reduce_cases Let_def)

end
