(* ===== verification/Ui_Region.thy ===== *)
theory Ui_Region
  imports Ui_Rect
begin

text \<open>
  Regions: the class of \<open>ui/Region.cpp\<close>.  A region is the vector \<open>mStorage\<close> of rectangles, here a list: the rectangles row by
  row and then their bounds, or a single rectangle that is both.  The inline functions of \<open>ui/Region.h\<close> and the class
  template of \<open>private/ui/RegionHelper.h\<close>, which are not part of the sources, are the parameter \<open>h\<close>: the template's
  \<open>operator()\<close> as the list of the rectangles it hands to the rasterizer, in order.  Locking, logging and \<open>dump\<close> are left out.
  The checks under \<open>VALIDATE_REGIONS\<close> and \<open>VALIDATE_WITH_CORECG\<close> are off.
\<close>

type_synonym Region = "Rect list"

record region_header =
  h_isRect :: "Region \<Rightarrow> bool"
  h_isEmpty :: "Region \<Rightarrow> bool"
  h_getBounds :: "Region \<Rightarrow> Rect"
  h_max_value :: int
  op_nand :: int
  op_and :: int
  op_or :: int
  op_xor :: int
  h_operator :: "int \<Rightarrow> Rect list \<Rightarrow> Rect list \<Rightarrow> int \<Rightarrow> int \<Rightarrow> Rect list"

abbreviation INT32_MAX :: int where
  "INT32_MAX \<equiv> 0x7FFFFFFF"

abbreviation INT32_MIN :: int where
  "INT32_MIN \<equiv> - 0x80000000"

section \<open>Constructors and simple operations\<close>

definition Region_default :: Region where
  "Region_default = [Rect_size 0 0]"

definition Region_of_rect :: "Rect \<Rightarrow> Region" where
  "Region_of_rect rhs = [rhs]"

definition INVALID_REGION :: Region where
  "INVALID_REGION = Region_of_rect INVALID_RECT"

definition Region_assign :: "Region \<Rightarrow> Region \<Rightarrow> Region" where
  "Region_assign reg rhs = rhs"

text \<open>The number of rectangles between \<open>begin ()\<close> and \<open>end ()\<close>, and these rectangles.\<close>

definition rect_count :: "region_header \<Rightarrow> Region \<Rightarrow> nat" where
  "rect_count h reg = (if h_isRect h reg then 1 else length reg - 1)"

definition getArray :: "region_header \<Rightarrow> Region \<Rightarrow> Rect list" where
  "getArray h reg = take (rect_count h reg) reg"

definition makeBoundsSelf :: "region_header \<Rightarrow> Region \<Rightarrow> Region" where
  "makeBoundsSelf h reg = (if length reg \<ge> 2 then [h_getBounds h reg] else reg)"

fun contains_loop :: "int \<Rightarrow> int \<Rightarrow> Rect list \<Rightarrow> bool" where
  "contains_loop x y [] = False"
| "contains_loop x y (cur # rest) =
     (if y \<ge> top cur \<and> y < bottom cur \<and> x \<ge> left cur \<and> x < right cur then True else contains_loop x y rest)"

definition Region_contains :: "region_header \<Rightarrow> Region \<Rightarrow> int \<Rightarrow> int \<Rightarrow> bool" where
  "Region_contains h reg x y = contains_loop x y (getArray h reg)"

definition Region_contains_point :: "region_header \<Rightarrow> Region \<Rightarrow> Point \<Rightarrow> bool" where
  "Region_contains_point h reg point = Region_contains h reg (p_x point) (p_y point)"

definition Region_clear :: "Region \<Rightarrow> Region" where
  "Region_clear reg = [Rect_size 0 0]"

definition Region_set :: "Region \<Rightarrow> Rect \<Rightarrow> Region" where
  "Region_set reg r = [r]"

definition Region_set_size :: "Region \<Rightarrow> int \<Rightarrow> int \<Rightarrow> Region" where
  "Region_set_size reg w h = [Rect_size w h]"

definition Region_set_unsigned :: "Region \<Rightarrow> u32 \<Rightarrow> u32 \<Rightarrow> Region" where
  "Region_set_unsigned reg w h = [Rect_unsigned w h]"

definition addRectUnchecked :: "Region \<Rightarrow> int \<Rightarrow> int \<Rightarrow> int \<Rightarrow> int \<Rightarrow> Region" where
  "addRectUnchecked reg l t r b =
     (let where' = length reg - 1 in take where' reg @ [rect4 l t r b] @ drop where' reg)"

section \<open>The rasterizer\<close>

text \<open>
  \<open>head\<close> and \<open>tail\<close> are positions in \<open>storage\<close> and \<open>cur\<close> is a position in \<open>span\<close>; null pointers are the position 0, as
  only the difference of \<open>head\<close> and \<open>tail\<close> is looked at before they are set.
\<close>

record rasterizer =
  rz_bounds :: Rect
  rz_storage :: "Rect list"
  rz_head :: nat
  rz_tail :: nat
  rz_span :: "Rect list"
  rz_cur :: nat

definition rasterizer_new :: rasterizer where
  "rasterizer_new =
     \<lparr>rz_bounds = rect4 INT32_MAX 0 INT32_MIN 0, rz_storage = [], rz_head = 0, rz_tail = 0, rz_span = [], rz_cur = 0\<rparr>"

fun columns_match :: "Rect list \<Rightarrow> nat \<Rightarrow> Rect list \<Rightarrow> nat \<Rightarrow> nat \<Rightarrow> bool exec" where
  "columns_match ps p qs q 0 = Ret True"
| "columns_match ps p qs q (Suc n) =
     bindE (array_read ps p) (\<lambda>pr. bindE (array_read qs q) (\<lambda>qr.
     if left pr \<noteq> left qr \<or> right pr \<noteq> right qr then Ret False else columns_match ps (Suc p) qs (Suc q) n))"

fun set_bottoms :: "int \<Rightarrow> Rect list \<Rightarrow> nat \<Rightarrow> nat \<Rightarrow> Rect list exec" where
  "set_bottoms b st r 0 = Ret st"
| "set_bottoms b st r (Suc n) =
     bindE (array_read st r) (\<lambda>rect. set_bottoms b (st[r := rect\<lparr>bottom := b\<rparr>]) (Suc r) n)"

definition flush_merges :: "rasterizer \<Rightarrow> bool exec" where
  "flush_merges z =
     (if int (rz_tail z) - int (rz_head z) = int (length (rz_span z)) then
        bindE (array_read (rz_span z) 0) (\<lambda>p. bindE (array_read (rz_storage z) (rz_head z)) (\<lambda>q.
        if top p = bottom q then columns_match (rz_span z) 0 (rz_storage z) (rz_head z) (rz_tail z - rz_head z)
        else Ret False))
      else Ret False)"

definition flushSpan :: "rasterizer \<Rightarrow> rasterizer exec" where
  "flushSpan z =
     bindE (flush_merges z) (\<lambda>merge.
     bindE (array_read (rz_span z) 0) (\<lambda>first.
     if merge then
       bindE (set_bottoms (bottom first) (rz_storage z) (rz_head z) (rz_tail z - rz_head z)) (\<lambda>st.
       Ret (z\<lparr>rz_storage := st, rz_span := []\<rparr>))
     else
       bindE (array_read (rz_span z) (length (rz_span z) - 1)) (\<lambda>last.
       let bounds = (rz_bounds z)\<lparr>left := min (left first) (left (rz_bounds z)),
             right := max (right last) (right (rz_bounds z))\<rparr>;
           st = rz_storage z @ rz_span z
       in Ret (z\<lparr>rz_bounds := bounds, rz_storage := st, rz_tail := length st,
             rz_head := length st - length (rz_span z), rz_span := []\<rparr>))))"

definition span_add :: "Rect \<Rightarrow> rasterizer \<Rightarrow> rasterizer" where
  "span_add rect z = z\<lparr>rz_span := rz_span z @ [rect], rz_cur := length (rz_span z)\<rparr>"

definition rasterizer_call :: "rasterizer \<Rightarrow> Rect \<Rightarrow> rasterizer exec" where
  "rasterizer_call z rect =
     (if length (rz_span z) \<noteq> 0 then
        bindE (array_read (rz_span z) (rz_cur z)) (\<lambda>cur.
        if top cur \<noteq> top rect then bindE (flushSpan z) (\<lambda>z. Ret (span_add rect z))
        else if right cur = left rect then
          Ret (z\<lparr>rz_span := (rz_span z)[rz_cur z := cur\<lparr>right := right rect\<rparr>]\<rparr>)
        else Ret (span_add rect z))
      else Ret (span_add rect z))"

text \<open>The destructor leaves the finished region in \<open>storage\<close>.\<close>

definition rasterizer_delete :: "rasterizer \<Rightarrow> Region exec" where
  "rasterizer_delete z =
     bindE (if length (rz_span z) \<noteq> 0 then flushSpan z else Ret z) (\<lambda>z.
     if length (rz_storage z) \<noteq> 0 then
       bindE (array_read (rz_storage z) 0) (\<lambda>first. bindE (array_read (rz_storage z) (length (rz_storage z) - 1)) (\<lambda>last.
       let bounds = (rz_bounds z)\<lparr>top := top first, bottom := bottom last\<rparr>
       in Ret ((if length (rz_storage z) = 1 then [] else rz_storage z) @ [bounds])))
     else Ret (rz_storage z @ [(rz_bounds z)\<lparr>left := 0, right := 0\<rparr>]))"

fun rasterizer_feed :: "rasterizer \<Rightarrow> Rect list \<Rightarrow> rasterizer exec" where
  "rasterizer_feed z [] = Ret z"
| "rasterizer_feed z (rect # rects) = bindE (rasterizer_call z rect) (\<lambda>z. rasterizer_feed z rects)"

definition rasterize :: "Rect list \<Rightarrow> Region exec" where
  "rasterize rects = bindE (rasterizer_feed rasterizer_new rects) rasterizer_delete"

section \<open>Boolean operations\<close>

text \<open>The new value of \<open>dst\<close>.\<close>

definition boolean_operation :: "region_header \<Rightarrow> int \<Rightarrow> Region \<Rightarrow> Region \<Rightarrow> int \<Rightarrow> int \<Rightarrow> Region exec" where
  "boolean_operation h op lhs rhs dx dy = rasterize (h_operator h op (getArray h lhs) (getArray h rhs) dx dy)"

text \<open>With an invalid rectangle nothing happens, except for the one that stands for an invalid region.\<close>

definition boolean_operation_rect ::
    "region_header \<Rightarrow> int \<Rightarrow> Region \<Rightarrow> Region \<Rightarrow> Rect \<Rightarrow> int \<Rightarrow> int \<Rightarrow> Region exec" where
  "boolean_operation_rect h op dst lhs rhs dx dy =
     bindE (Rect_isValid rhs) (\<lambda>valid.
     if \<not> valid \<and> \<not> Rect_eq rhs INVALID_RECT then Ret dst
     else rasterize (h_operator h op (getArray h lhs) [rhs] dx dy))"

definition operationSelf_rect :: "region_header \<Rightarrow> Region \<Rightarrow> Rect \<Rightarrow> int \<Rightarrow> Region exec" where
  "operationSelf_rect h reg r op = (let lhs = reg in boolean_operation_rect h op reg lhs r 0 0)"

definition orSelf_rect :: "region_header \<Rightarrow> Region \<Rightarrow> Rect \<Rightarrow> Region exec" where
  "orSelf_rect h reg r = operationSelf_rect h reg r (op_or h)"

definition xorSelf_rect :: "region_header \<Rightarrow> Region \<Rightarrow> Rect \<Rightarrow> Region exec" where
  "xorSelf_rect h reg r = operationSelf_rect h reg r (op_xor h)"

definition andSelf_rect :: "region_header \<Rightarrow> Region \<Rightarrow> Rect \<Rightarrow> Region exec" where
  "andSelf_rect h reg r = operationSelf_rect h reg r (op_and h)"

definition subtractSelf_rect :: "region_header \<Rightarrow> Region \<Rightarrow> Rect \<Rightarrow> Region exec" where
  "subtractSelf_rect h reg r = operationSelf_rect h reg r (op_nand h)"

definition operationSelf :: "region_header \<Rightarrow> Region \<Rightarrow> Region \<Rightarrow> int \<Rightarrow> Region exec" where
  "operationSelf h reg rhs op = (let lhs = reg in boolean_operation h op lhs rhs 0 0)"

definition orSelf :: "region_header \<Rightarrow> Region \<Rightarrow> Region \<Rightarrow> Region exec" where
  "orSelf h reg rhs = operationSelf h reg rhs (op_or h)"

definition xorSelf :: "region_header \<Rightarrow> Region \<Rightarrow> Region \<Rightarrow> Region exec" where
  "xorSelf h reg rhs = operationSelf h reg rhs (op_xor h)"

definition andSelf :: "region_header \<Rightarrow> Region \<Rightarrow> Region \<Rightarrow> Region exec" where
  "andSelf h reg rhs = operationSelf h reg rhs (op_and h)"

definition subtractSelf :: "region_header \<Rightarrow> Region \<Rightarrow> Region \<Rightarrow> Region exec" where
  "subtractSelf h reg rhs = operationSelf h reg rhs (op_nand h)"

definition operation_rect :: "region_header \<Rightarrow> Region \<Rightarrow> Rect \<Rightarrow> int \<Rightarrow> Region exec" where
  "operation_rect h reg rhs op = (let result = Region_default in boolean_operation_rect h op result reg rhs 0 0)"

definition merge_rect :: "region_header \<Rightarrow> Region \<Rightarrow> Rect \<Rightarrow> Region exec" where
  "merge_rect h reg rhs = operation_rect h reg rhs (op_or h)"

definition mergeExclusive_rect :: "region_header \<Rightarrow> Region \<Rightarrow> Rect \<Rightarrow> Region exec" where
  "mergeExclusive_rect h reg rhs = operation_rect h reg rhs (op_xor h)"

definition intersect_rect :: "region_header \<Rightarrow> Region \<Rightarrow> Rect \<Rightarrow> Region exec" where
  "intersect_rect h reg rhs = operation_rect h reg rhs (op_and h)"

definition subtract_rect :: "region_header \<Rightarrow> Region \<Rightarrow> Rect \<Rightarrow> Region exec" where
  "subtract_rect h reg rhs = operation_rect h reg rhs (op_nand h)"

definition operation :: "region_header \<Rightarrow> Region \<Rightarrow> Region \<Rightarrow> int \<Rightarrow> Region exec" where
  "operation h reg rhs op = boolean_operation h op reg rhs 0 0"

definition Region_merge :: "region_header \<Rightarrow> Region \<Rightarrow> Region \<Rightarrow> Region exec" where
  "Region_merge h reg rhs = operation h reg rhs (op_or h)"

definition mergeExclusive :: "region_header \<Rightarrow> Region \<Rightarrow> Region \<Rightarrow> Region exec" where
  "mergeExclusive h reg rhs = operation h reg rhs (op_xor h)"

definition Region_intersect :: "region_header \<Rightarrow> Region \<Rightarrow> Region \<Rightarrow> Region exec" where
  "Region_intersect h reg rhs = operation h reg rhs (op_and h)"

definition Region_subtract :: "region_header \<Rightarrow> Region \<Rightarrow> Region \<Rightarrow> Region exec" where
  "Region_subtract h reg rhs = operation h reg rhs (op_nand h)"

definition operationSelf_at :: "region_header \<Rightarrow> Region \<Rightarrow> Region \<Rightarrow> int \<Rightarrow> int \<Rightarrow> int \<Rightarrow> Region exec" where
  "operationSelf_at h reg rhs dx dy op = (let lhs = reg in boolean_operation h op lhs rhs dx dy)"

definition orSelf_at :: "region_header \<Rightarrow> Region \<Rightarrow> Region \<Rightarrow> int \<Rightarrow> int \<Rightarrow> Region exec" where
  "orSelf_at h reg rhs dx dy = operationSelf_at h reg rhs dx dy (op_or h)"

definition xorSelf_at :: "region_header \<Rightarrow> Region \<Rightarrow> Region \<Rightarrow> int \<Rightarrow> int \<Rightarrow> Region exec" where
  "xorSelf_at h reg rhs dx dy = operationSelf_at h reg rhs dx dy (op_xor h)"

definition andSelf_at :: "region_header \<Rightarrow> Region \<Rightarrow> Region \<Rightarrow> int \<Rightarrow> int \<Rightarrow> Region exec" where
  "andSelf_at h reg rhs dx dy = operationSelf_at h reg rhs dx dy (op_and h)"

definition subtractSelf_at :: "region_header \<Rightarrow> Region \<Rightarrow> Region \<Rightarrow> int \<Rightarrow> int \<Rightarrow> Region exec" where
  "subtractSelf_at h reg rhs dx dy = operationSelf_at h reg rhs dx dy (op_nand h)"

definition operation_at :: "region_header \<Rightarrow> Region \<Rightarrow> Region \<Rightarrow> int \<Rightarrow> int \<Rightarrow> int \<Rightarrow> Region exec" where
  "operation_at h reg rhs dx dy op = boolean_operation h op reg rhs dx dy"

definition merge_at :: "region_header \<Rightarrow> Region \<Rightarrow> Region \<Rightarrow> int \<Rightarrow> int \<Rightarrow> Region exec" where
  "merge_at h reg rhs dx dy = operation_at h reg rhs dx dy (op_or h)"

definition mergeExclusive_at :: "region_header \<Rightarrow> Region \<Rightarrow> Region \<Rightarrow> int \<Rightarrow> int \<Rightarrow> Region exec" where
  "mergeExclusive_at h reg rhs dx dy = operation_at h reg rhs dx dy (op_xor h)"

definition intersect_at :: "region_header \<Rightarrow> Region \<Rightarrow> Region \<Rightarrow> int \<Rightarrow> int \<Rightarrow> Region exec" where
  "intersect_at h reg rhs dx dy = operation_at h reg rhs dx dy (op_and h)"

definition subtract_at :: "region_header \<Rightarrow> Region \<Rightarrow> Region \<Rightarrow> int \<Rightarrow> int \<Rightarrow> Region exec" where
  "subtract_at h reg rhs dx dy = operation_at h reg rhs dx dy (op_nand h)"

section \<open>Translation\<close>

fun offset_rects :: "int \<Rightarrow> int \<Rightarrow> Rect list \<Rightarrow> Rect list exec" where
  "offset_rects dx dy [] = Ret []"
| "offset_rects dx dy (r # rs) = bindE (offsetBy r dx dy) (\<lambda>r. bindE (offset_rects dx dy rs) (\<lambda>rs. Ret (r # rs)))"

definition translate_in_place :: "region_header \<Rightarrow> Region \<Rightarrow> int \<Rightarrow> int \<Rightarrow> Region exec" where
  "translate_in_place h reg dx dy =
     (if (dx \<noteq> 0 \<or> dy \<noteq> 0) \<and> \<not> h_isEmpty h reg then offset_rects dx dy reg else Ret reg)"

definition translate_to :: "region_header \<Rightarrow> Region \<Rightarrow> Region \<Rightarrow> int \<Rightarrow> int \<Rightarrow> Region exec" where
  "translate_to h dst reg dx dy = (let dst = Region_assign dst reg in translate_in_place h dst dx dy)"

definition translateSelf :: "region_header \<Rightarrow> Region \<Rightarrow> int \<Rightarrow> int \<Rightarrow> Region exec" where
  "translateSelf h reg x y = (if x OR y \<noteq> 0 then translate_in_place h reg x y else Ret reg)"

definition Region_translate :: "region_header \<Rightarrow> Region \<Rightarrow> int \<Rightarrow> int \<Rightarrow> Region exec" where
  "Region_translate h reg x y = (let result = Region_default in translate_to h result reg x y)"

section \<open>Validation\<close>

definition validate_pair :: "Rect \<Rightarrow> Rect \<Rightarrow> bool" where
  "validate_pair prev cur \<longleftrightarrow>
     Rect_less prev cur \<and>
     (if top cur = top prev then
        if bottom cur \<noteq> bottom prev then False
        else if left cur < right prev then False
        else True
      else if top cur < bottom prev then False
      else True)"

definition validate_rect :: "region_header \<Rightarrow> Rect \<Rightarrow> bool exec" where
  "validate_rect h cur =
     bindE (Rect_isValid cur) (\<lambda>valid.
     Ret ((valid \<or> Rect_eq cur INVALID_RECT) \<and> \<not> right cur > h_max_value h \<and> \<not> bottom cur > h_max_value h))"

definition widen :: "Rect \<Rightarrow> Rect \<Rightarrow> Rect" where
  "widen b cur =
     rect4 (if left b < left cur then left b else left cur) (if top b < top cur then top b else top cur)
       (if right b > right cur then right b else right cur) (if bottom b > bottom cur then bottom b else bottom cur)"

fun validate_loop :: "region_header \<Rightarrow> Rect list \<Rightarrow> nat \<Rightarrow> nat \<Rightarrow> nat \<Rightarrow> Rect \<Rightarrow> bool \<Rightarrow> (Rect \<times> bool) exec" where
  "validate_loop h rects prev cur 0 b result = Ret (b, result)"
| "validate_loop h rects prev cur (Suc n) b result =
     bindE (array_read rects cur) (\<lambda>c.
     bindE (validate_rect h c) (\<lambda>ok.
     if prev \<noteq> cur then
       bindE (array_read rects prev) (\<lambda>p.
       validate_loop h rects cur (Suc cur) n (widen b c) (result \<and> ok \<and> validate_pair p c))
     else validate_loop h rects prev (Suc cur) n b (result \<and> ok)))"

definition Region_validate :: "region_header \<Rightarrow> Region \<Rightarrow> bool exec" where
  "Region_validate h reg =
     bindE (array_read reg 0) (\<lambda>b.
     bindE (validate_loop h reg 0 0 (rect_count h reg) b True) (\<lambda>(b, result).
     Ret (result \<and> Rect_eq b (h_getBounds h reg) \<and> length reg \<noteq> 2)))"

section \<open>Flattening\<close>

definition rect_bytes :: "Rect \<Rightarrow> u8 list" where
  "rect_bytes r =
     le_bytes32 (word_of_int (left r)) @ le_bytes32 (word_of_int (top r)) @
     le_bytes32 (word_of_int (right r)) @ le_bytes32 (word_of_int (bottom r))"

definition rect_of_bytes :: "u8 list \<Rightarrow> Rect" where
  "rect_of_bytes bs =
     rect4 (sint (le_word32 (take 4 bs))) (sint (le_word32 (take 4 (drop 4 bs))))
       (sint (le_word32 (take 4 (drop 8 bs)))) (sint (le_word32 (take 4 (drop 12 bs))))"

text \<open>A buffer with the position that is written or read next; what is left of it is the \<open>size\<close> of the code.\<close>

definition Rect_flatten :: "Rect \<Rightarrow> u8 list \<Rightarrow> nat \<Rightarrow> (int \<times> u8 list) exec" where
  "Rect_flatten r buffer pos =
     (if length buffer - pos < 16 then Ret (NO_MEMORY, buffer)
      else bindE (deref (mem_write pos (rect_bytes r) buffer)) (\<lambda>buffer. Ret (0, buffer)))"

definition Rect_unflatten :: "u8 list \<Rightarrow> nat \<Rightarrow> (int \<times> Rect) exec" where
  "Rect_unflatten buffer pos = bindE (deref (mem_read pos 16 buffer)) (\<lambda>bs. Ret (0, rect_of_bytes bs))"

definition Region_getFlattenedSize :: "Region \<Rightarrow> nat" where
  "Region_getFlattenedSize reg = 4 + length reg * 16"

fun flatten_rects :: "Rect list \<Rightarrow> u8 list \<Rightarrow> nat \<Rightarrow> (int \<times> u8 list) exec" where
  "flatten_rects [] buffer pos = Ret (0, buffer)"
| "flatten_rects (rect # rects) buffer pos =
     bindE (Rect_flatten rect buffer pos) (\<lambda>(result, buffer).
     if result \<noteq> 0 then Ret (result, buffer) else flatten_rects rects buffer (pos + 16))"

definition Region_flatten :: "Region \<Rightarrow> u8 list \<Rightarrow> (int \<times> u8 list) exec" where
  "Region_flatten reg buffer =
     (if length buffer < Region_getFlattenedSize reg then Ret (NO_MEMORY, buffer)
      else bindE (deref (mem_write 0 (le_bytes32 (of_nat (length reg))) buffer)) (\<lambda>buffer. flatten_rects reg buffer 4))"

fun unflatten_rects :: "u8 list \<Rightarrow> nat \<Rightarrow> nat \<Rightarrow> Rect list \<Rightarrow> (int \<times> Rect list) exec" where
  "unflatten_rects buffer pos 0 rects = Ret (0, rects)"
| "unflatten_rects buffer pos (Suc n) rects =
     bindE (Rect_unflatten buffer pos) (\<lambda>(status, rect).
     if status \<noteq> 0 then Ret (status, rects) else unflatten_rects buffer (pos + 16) n (rects @ [rect]))"

text \<open>The status and the region, which keeps its value on an error.\<close>

definition Region_unflatten :: "region_header \<Rightarrow> Region \<Rightarrow> u8 list \<Rightarrow> (int \<times> Region) exec" where
  "Region_unflatten h reg buffer =
     (if length buffer < 4 then Ret (NO_MEMORY, reg)
      else bindE (deref (mem_read 0 4 buffer)) (\<lambda>bs.
        let numRects = le_word32 bs in
        if length buffer - 4 < unat numRects * 16 then Ret (NO_MEMORY, reg)
        else bindE (unflatten_rects buffer 4 (unat numRects) []) (\<lambda>(status, result).
          if status \<noteq> 0 then Ret (status, reg)
          else bindE (Region_validate h result) (\<lambda>valid.
            if \<not> valid then Ret (BAD_VALUE, reg) else Ret (0, result)))))"

section \<open>T-junctions\<close>

datatype span_direction = direction_LTR | direction_RTL

text \<open>
  The loops run from the end of the source array; \<open>k\<close> is the number of rectangles from its start to \<open>current\<close>.  The first loop
  looks at \<open>current->top\<close> before it checks that \<open>current\<close> is still in the array.
\<close>

fun first_span :: "Rect list \<Rightarrow> int \<Rightarrow> nat \<Rightarrow> Rect list \<Rightarrow> (nat \<times> Rect list) exec" where
  "first_span src lastTop 0 dst = Fault"
| "first_span src lastTop (Suc k) dst =
     bindE (array_read src k) (\<lambda>current.
     let dst = dst @ [current] in
     if k = 0 then Fault
     else bindE (array_read src (k - 1)) (\<lambda>current.
       if top current = lastTop then first_span src lastTop k dst else Ret (k, dst)))"

definition split_rtl :: "int \<Rightarrow> int \<Rightarrow> int \<Rightarrow> int \<Rightarrow> int \<times> Rect list \<Rightarrow> int \<times> Rect list" where
  "split_rtl t b l edge = (\<lambda>(r, dst). if edge > l \<and> edge < r then (edge, dst @ [rect4 edge t r b]) else (r, dst))"

definition split_ltr :: "int \<Rightarrow> int \<Rightarrow> int \<Rightarrow> int \<Rightarrow> int \<times> Rect list \<Rightarrow> int \<times> Rect list" where
  "split_ltr t b r edge = (\<lambda>(l, dst). if edge > l \<and> edge < r then (edge, dst @ [rect4 l t edge b]) else (l, dst))"

text \<open>The loop over the previous span, of which \<open>n\<close> rectangles are left.\<close>

fun divide_span ::
    "span_direction \<Rightarrow> int \<Rightarrow> int \<Rightarrow> int \<Rightarrow> nat \<Rightarrow> int \<Rightarrow> int \<Rightarrow> int \<Rightarrow> Rect list \<Rightarrow> (int \<times> int \<times> int \<times> Rect list) exec" where
  "divide_span dir t b prevIndex 0 l r beginLastSpan dst = Ret (l, r, beginLastSpan, dst)"
| "divide_span dir t b prevIndex (Suc n) l r beginLastSpan dst =
     bindE (if prevIndex < 0 then Fault else array_read dst (nat prevIndex)) (\<lambda>prev.
     case dir of
       direction_RTL \<Rightarrow>
         if right prev \<le> l then Ret (l, r, beginLastSpan, dst)
         else
           let (r, dst) = split_rtl t b l (left prev) (split_rtl t b l (right prev) (r, dst));
               beginLastSpan = (if left prev \<ge> r then prevIndex else beginLastSpan)
           in divide_span dir t b (prevIndex + 1) n l r beginLastSpan dst
     | direction_LTR \<Rightarrow>
         if left prev \<ge> r then Ret (l, r, beginLastSpan, dst)
         else
           let (l, dst) = split_ltr t b r (right prev) (split_ltr t b r (left prev) (l, dst));
               beginLastSpan = (if right prev \<le> l then prevIndex else beginLastSpan)
           in divide_span dir t b (prevIndex + 1) n l r beginLastSpan dst)"

text \<open>Where a new span begins: its edges, and the part of \<open>dst\<close> with the span before it.\<close>

definition new_span ::
    "span_direction \<Rightarrow> Rect \<Rightarrow> Rect \<Rightarrow> Rect list \<Rightarrow> int \<times> int \<times> int \<times> int \<Rightarrow> int \<times> int \<times> int \<times> int" where
  "new_span dir current next dst = (\<lambda>(beginLastSpan, endLastSpan, t, b).
     if top current \<noteq> top next then
       (if dir = direction_RTL \<and> bottom current \<noteq> top next \<or> dir = direction_LTR \<and> top current \<noteq> bottom next
        then INT32_MAX else endLastSpan + 1, int (length dst) - 1, top current, bottom current)
     else (beginLastSpan, endLastSpan, t, b))"

fun resolve_spans ::
    "span_direction \<Rightarrow> Rect list \<Rightarrow> nat \<Rightarrow> int \<times> int \<times> int \<times> int \<Rightarrow> Rect list \<Rightarrow> Rect list exec" where
  "resolve_spans dir src 0 vars dst = Ret dst"
| "resolve_spans dir src (Suc k) vars dst =
     bindE (array_read src k) (\<lambda>current. bindE (array_read src (Suc k)) (\<lambda>next.
     let (beginLastSpan, endLastSpan, t, b) = new_span dir current next dst vars in
     bindE (divide_span dir t b beginLastSpan (nat (endLastSpan - beginLastSpan + 1)) (left current) (right current) beginLastSpan dst)
       (\<lambda>(l, r, beginLastSpan, dst).
     resolve_spans dir src k (beginLastSpan, endLastSpan, t, b) (if l < r then dst @ [rect4 l t r b] else dst))))"

definition reverseRectsResolvingJunctions :: "span_direction \<Rightarrow> Rect list \<Rightarrow> Rect list exec" where
  "reverseRectsResolvingJunctions dir src =
     (if src = [] then Fault
      else bindE (array_read src (length src - 1)) (\<lambda>current.
        bindE (first_span src (top current) (length src) []) (\<lambda>(k, dst).
        resolve_spans dir src k (- 1, - 1, - 1, - 1) dst)))"

definition createTJunctionFreeRegion :: "region_header \<Rightarrow> Region \<Rightarrow> Region exec" where
  "createTJunctionFreeRegion h r =
     (if h_isEmpty h r then Ret r
      else if h_isRect h r then Ret r
      else bindE (reverseRectsResolvingJunctions direction_RTL (getArray h r)) (\<lambda>reversed.
        bindE (reverseRectsResolvingJunctions direction_LTR reversed) (\<lambda>st.
        Ret (st @ [h_getBounds h r]))))"

end
