(* ===== verification/Region_Canonical.thy ===== *)
theory Region_Canonical
  imports Ui_Region
begin

text \<open>
  The points of a list of rectangles, the order in which a region keeps its rectangles, and the canonical list of rectangles
  of a set of points: rows of maximal rectangles, no two of which touch at their sides, with no two adjacent rows that cover the
  same columns.  A set of points has at most one canonical list.
\<close>

section \<open>Points and rows\<close>

definition cover :: "Rect list \<Rightarrow> int \<Rightarrow> int \<Rightarrow> bool" where
  "cover rs x y \<longleftrightarrow> list_ex (\<lambda>r. covers r x y) rs"

lemma cover_iff: "cover rs x y \<longleftrightarrow> (\<exists>r \<in> set rs. covers r x y)"
  by (simp add: cover_def list_ex_iff)

lemma cover_simps [simp]:
  "\<not> cover [] x y"
  "cover (r # rs) x y \<longleftrightarrow> covers r x y \<or> cover rs x y"
  "cover (rs @ rs') x y \<longleftrightarrow> cover rs x y \<or> cover rs' x y"
  by (auto simp: cover_def)

lemma contains_loop_cover: "contains_loop x y rs \<longleftrightarrow> cover rs x y"
  by (induction rs) (auto simp: covers_def)

definition row :: "Rect list \<Rightarrow> int \<Rightarrow> int set" where
  "row rs y = {x. cover rs x y}"

lemma row_append [simp]: "row (rs @ rs') y = row rs y \<union> row rs' y"
  by (auto simp: row_def)

lemma row_empty_outside: "(\<And>r. r \<in> set rs \<Longrightarrow> y < top r \<or> bottom r \<le> y) \<Longrightarrow> row rs y = {}"
  by (force simp: row_def cover_iff covers_def)

text \<open>\<open>b\<close> comes later than \<open>a\<close>: further right in the same row of rectangles, or in a lower one.\<close>

definition follows :: "Rect \<Rightarrow> Rect \<Rightarrow> bool" where
  "follows a b \<longleftrightarrow> top a = top b \<and> bottom a = bottom b \<and> right a \<le> left b \<or> bottom a \<le> top b"

definition span_ordered :: "Rect list \<Rightarrow> bool" where
  "span_ordered rs \<longleftrightarrow> sorted_wrt follows rs \<and> list_all nonempty rs"

lemma follows_trans: "follows a b \<Longrightarrow> follows b c \<Longrightarrow> nonempty b \<Longrightarrow> follows a c"
  by (auto simp: follows_def nonempty_def)

lemma follows_asym: "follows a b \<Longrightarrow> nonempty a \<Longrightarrow> nonempty b \<Longrightarrow> \<not> follows b a"
  unfolding follows_def nonempty_def by arith

lemma span_ordered_append:
  "span_ordered (xs @ ys) \<longleftrightarrow> span_ordered xs \<and> span_ordered ys \<and> (\<forall>a \<in> set xs. \<forall>b \<in> set ys. follows a b)"
  by (auto simp: span_ordered_def sorted_wrt_append)

lemma span_ordered_Cons:
  "span_ordered (x # ys) \<longleftrightarrow> nonempty x \<and> span_ordered ys \<and> (\<forall>b \<in> set ys. follows x b)"
  by (auto simp: span_ordered_def)

lemma span_ordered_Nil [simp]: "span_ordered []"
  by (simp add: span_ordered_def)

lemma span_ordered_nonempty: "span_ordered rs \<Longrightarrow> r \<in> set rs \<Longrightarrow> nonempty r"
  by (simp add: span_ordered_def list_all_iff)

lemma span_ordered_comparable:
  "span_ordered rs \<Longrightarrow> a \<in> set rs \<Longrightarrow> b \<in> set rs \<Longrightarrow> a = b \<or> follows a b \<or> follows b a"
  by (induction rs) (auto simp: span_ordered_Cons)

lemma span_ordered_snoc:
  assumes "span_ordered (xs @ [e])" "follows e r" "nonempty r"
  shows "span_ordered (xs @ [e, r])"
  using assms follows_trans by (fastforce simp: span_ordered_append span_ordered_Cons)

section \<open>Maximal runs\<close>

definition run :: "(int \<Rightarrow> bool) \<Rightarrow> int \<Rightarrow> int \<Rightarrow> bool" where
  "run P a b \<longleftrightarrow> a < b \<and> (\<forall>x. a \<le> x \<and> x < b \<longrightarrow> P x) \<and> \<not> P (a - 1) \<and> \<not> P b"

lemma run_unique:
  assumes "run P a b" "run P c d" "a \<le> x" "x < b" "c \<le> x" "x < d"
  shows "a = c" "b = d"
proof -
  have "\<not> (a \<le> c - 1 \<and> c - 1 < b)" "\<not> (c \<le> a - 1 \<and> a - 1 < d)" "\<not> (a \<le> d \<and> d < b)" "\<not> (c \<le> b \<and> b < d)"
    using assms(1,2) unfolding run_def by blast+
  then show "a = c" "b = d" using assms(3-6) by linarith+
qed

lemma sorted_wrt_unique:
  assumes "sorted_wrt R xs" "sorted_wrt R ys" "set xs = set ys"
    and "\<And>a b. a \<in> set xs \<Longrightarrow> b \<in> set xs \<Longrightarrow> R a b \<Longrightarrow> \<not> R b a"
  shows "xs = ys"
  using assms
proof (induction xs arbitrary: ys)
  case (Cons x xs)
  have "ys \<noteq> []" using Cons.prems(3) by auto
  then obtain y ys' where ys: "ys = y # ys'" by (cases ys) auto
  have "x = y"
  proof (rule ccontr)
    assume "x \<noteq> y"
    then have "R x y" "R y x" using Cons.prems(1,2,3) by (auto simp: ys)
    then show False using Cons.prems(4) [of x y] Cons.prems(3) by (auto simp: ys)
  qed
  have "x \<notin> set xs" using Cons.prems(1) Cons.prems(4) [of x x] by auto
  moreover have "y \<notin> set ys'" using Cons.prems(2) Cons.prems(4) [of x x] \<open>x = y\<close> by (auto simp: ys)
  ultimately have "set xs = set ys'" using Cons.prems(3) \<open>x = y\<close> by (auto simp: ys)
  then have "xs = ys'" using Cons.prems(1,2) by (intro Cons.IH) (simp_all add: ys Cons.prems(4))
  with \<open>x = y\<close> show ?case by (simp add: ys)
qed simp

section \<open>Canonical lists\<close>

definition canonical :: "Rect list \<Rightarrow> bool" where
  "canonical rs \<longleftrightarrow> span_ordered rs \<and> (\<forall>a \<in> set rs. \<forall>b \<in> set rs. top a = top b \<longrightarrow> right a \<noteq> left b) \<and>
     (\<forall>a \<in> set rs. row rs (bottom a) \<noteq> row rs (top a))"

definition maximal :: "Rect list \<Rightarrow> Rect \<Rightarrow> bool" where
  "maximal rs r \<longleftrightarrow> run (\<lambda>x. x \<in> row rs (top r)) (left r) (right r) \<and> run (\<lambda>y. row rs y = row rs (top r)) (top r) (bottom r)"

lemma same_band:
  assumes "span_ordered rs" "a \<in> set rs" "b \<in> set rs" "top a \<le> y" "y < bottom a" "top b \<le> y" "y < bottom b"
  shows "top a = top b" "bottom a = bottom b"
  using span_ordered_comparable [OF assms(1-3)] assms(4-) by (auto simp: follows_def)

lemma row_in_band:
  assumes "span_ordered rs" "a \<in> set rs" "top a \<le> y" "y < bottom a"
  shows "row rs y = row rs (top a)"
proof -
  have n: "nonempty a" using assms(1,2) by (rule span_ordered_nonempty)
  have "covers r x y \<longleftrightarrow> covers r x (top a)" if "r \<in> set rs" for r x
    using same_band [OF assms(1,2) that, of y] same_band [OF assms(1,2) that, of "top a"] assms(3,4) n
    by (auto simp: covers_def nonempty_def)
  then show ?thesis by (auto simp: row_def cover_iff)
qed

lemma canonical_sides:
  assumes c: "canonical rs" and a: "a \<in> set rs"
  shows "left a - 1 \<notin> row rs (top a)" "right a \<notin> row rs (top a)"
proof -
  have so: "span_ordered rs" and gap: "\<And>a b. a \<in> set rs \<Longrightarrow> b \<in> set rs \<Longrightarrow> top a = top b \<Longrightarrow> right a \<noteq> left b"
    using c by (auto simp: canonical_def)
  have n: "nonempty a" using so a by (rule span_ordered_nonempty)
  have *: "top b = top a \<and> (b = a \<or> right b < left a \<or> right a < left b)" if b: "b \<in> set rs" "covers b x (top a)" for b x
  proof -
    have "top a = top b" using same_band [OF so a b(1), of "top a"] b n by (auto simp: covers_def nonempty_def)
    moreover have "nonempty b" using so b(1) by (rule span_ordered_nonempty)
    ultimately show ?thesis
      using span_ordered_comparable [OF so a b(1)] gap [OF a b(1)] gap [OF b(1) a] n
      by (auto simp: follows_def nonempty_def)
  qed
  show "left a - 1 \<notin> row rs (top a)" "right a \<notin> row rs (top a)"
    using * n unfolding row_def cover_iff by (fastforce simp: covers_def nonempty_def)+
qed

lemma canonical_above:
  assumes c: "canonical rs" and a: "a \<in> set rs"
  shows "row rs (top a - 1) \<noteq> row rs (top a)"
proof
  assume eq: "row rs (top a - 1) = row rs (top a)"
  have so: "span_ordered rs" using c by (simp add: canonical_def)
  have n: "nonempty a" using so a by (rule span_ordered_nonempty)
  then have "left a \<in> row rs (top a)" using a covers_corner by (auto simp: row_def cover_iff)
  then obtain b where b: "b \<in> set rs" "covers b (left a) (top a - 1)" using eq by (auto simp: row_def cover_iff)
  have "bottom b = top a"
    using span_ordered_comparable [OF so a b(1)] b(2) n by (auto simp: follows_def covers_def nonempty_def)
  moreover have "row rs (top a - 1) = row rs (top b)" using so b by (intro row_in_band) (auto simp: covers_def)
  moreover have "row rs (bottom b) \<noteq> row rs (top b)" using c b(1) by (simp add: canonical_def)
  ultimately show False using eq by simp
qed

lemma canonical_maximal:
  assumes c: "canonical rs" and a: "a \<in> set rs"
  shows "maximal rs a"
proof -
  have so: "span_ordered rs" using c by (simp add: canonical_def)
  have n: "nonempty a" using so a by (rule span_ordered_nonempty)
  have "run (\<lambda>x. x \<in> row rs (top a)) (left a) (right a)"
    using n canonical_sides [OF c a] a by (auto simp: run_def row_def cover_iff covers_def nonempty_def)
  moreover have "run (\<lambda>y. row rs y = row rs (top a)) (top a) (bottom a)"
    unfolding run_def
  proof (intro conjI allI impI)
    show "top a < bottom a" using n by (simp add: nonempty_def)
    show "row rs (top a - 1) \<noteq> row rs (top a)" using c a by (rule canonical_above)
    show "row rs (bottom a) \<noteq> row rs (top a)" using c a by (simp only: canonical_def) blast
    show "row rs y = row rs (top a)" if "top a \<le> y \<and> y < bottom a" for y using row_in_band [OF so a] that by blast
  qed
  ultimately show ?thesis by (simp add: maximal_def)
qed

lemma maximal_unique:
  assumes a: "maximal rs a" and b: "maximal rs b" and x: "covers a x y" "covers b x y"
  shows "a = b"
proof -
  have ra: "row rs y = row rs (top a)" and rb: "row rs y = row rs (top b)"
    using a b x unfolding maximal_def run_def covers_def by blast+
  then have "row rs (top a) = row rs (top b)" by simp
  then have "run (\<lambda>y. row rs y = row rs (top a)) (top b) (bottom b)" "run (\<lambda>x. x \<in> row rs (top a)) (left b) (right b)"
    using b by (simp_all add: maximal_def)
  then show ?thesis
    using run_unique [of _ "left a" "right a" "left b" "right b" x] run_unique [of _ "top a" "bottom a" "top b" "bottom b" y] a x
    by (intro Rect.equality) (auto simp: maximal_def covers_def)
qed

lemma canonical_subset:
  assumes "canonical A" "canonical B" "cover A = cover B"
  shows "set A \<subseteq> set B"
proof
  fix a assume a: "a \<in> set A"
  have rows: "row A = row B" using assms(3) by (simp add: row_def fun_eq_iff)
  have ca: "covers a (left a) (top a)"
    using a assms(1) by (auto simp: canonical_def intro: covers_corner span_ordered_nonempty)
  then have "cover B (left a) (top a)" using a assms(3) by (metis cover_iff)
  then obtain b where b: "b \<in> set B" "covers b (left a) (top a)" by (auto simp: cover_iff)
  have "maximal B a" using canonical_maximal [OF assms(1) a] rows by (simp add: maximal_def)
  then have "a = b" using canonical_maximal [OF assms(2) b(1)] ca b(2) by (rule maximal_unique)
  with b(1) show "a \<in> set B" by simp
qed

theorem canonical_unique:
  assumes "canonical A" "canonical B" "cover A = cover B"
  shows "A = B"
proof (rule sorted_wrt_unique)
  show "sorted_wrt follows A" "sorted_wrt follows B" using assms by (auto simp: canonical_def span_ordered_def)
  show "set A = set B" using canonical_subset assms by (metis subset_antisym)
  show "follows a b \<Longrightarrow> \<not> follows b a" if "a \<in> set A" "b \<in> set A" for a b
    using that assms(1) by (intro follows_asym) (auto simp: canonical_def intro: span_ordered_nonempty)
qed

end
