(* ===== verification/Region_Raster.thy ===== *)
theory Region_Raster
  imports Region_Canonical
begin

text \<open>
  What the rasterizer of a region makes of the rectangles it is given: the canonical list of their points, followed by its
  bounds.  The invariant says that \<open>storage\<close> is canonical at every moment, that \<open>head\<close> and \<open>tail\<close> delimit its last row and
  that \<open>span\<close> is the row below, under construction.
\<close>

section \<open>The loops of a flush\<close>

abbreviation columns :: "Rect list \<Rightarrow> (int \<times> int) list" where
  "columns rs \<equiv> map (\<lambda>r. (left r, right r)) rs"

abbreviation lower :: "int \<Rightarrow> Rect list \<Rightarrow> Rect list" where
  "lower b rs \<equiv> map (\<lambda>r. r\<lparr>bottom := b\<rparr>) rs"

lemma columns_match_Ret:
  "p + n \<le> length ps \<Longrightarrow> q + n \<le> length qs \<Longrightarrow>
   columns_match ps p qs q n = Ret (columns (take n (drop p ps)) = columns (take n (drop q qs)))"
proof (induction n arbitrary: p q)
  case (Suc n)
  then have "take (Suc n) (drop p ps) = ps ! p # take n (drop (Suc p) ps)"
    "take (Suc n) (drop q qs) = qs ! q # take n (drop (Suc q) qs)"
    by (simp_all add: Cons_nth_drop_Suc [symmetric])
  then show ?case using Suc by (auto simp: array_read_def)
qed simp

lemma set_bottoms_Ret:
  "r + n \<le> length st \<Longrightarrow> set_bottoms b st r n = Ret (take r st @ lower b (take n (drop r st)) @ drop (r + n) st)"
proof (induction n arbitrary: r st)
  case (Suc n)
  then have "take (Suc n) (drop r st) = st ! r # take n (drop (Suc r) st)" by (simp add: Cons_nth_drop_Suc [symmetric])
  then show ?case using Suc by (simp add: array_read_def take_Suc_conv_app_nth)
qed simp

section \<open>One row\<close>

definition one_row :: "int \<Rightarrow> int \<Rightarrow> Rect list \<Rightarrow> bool" where
  "one_row t b rs \<longleftrightarrow> span_ordered rs \<and> (\<forall>r \<in> set rs. top r = t \<and> bottom r = b) \<and>
     (\<forall>p \<in> set rs. \<forall>q \<in> set rs. right p \<noteq> left q)"

lemma one_row_edges: "one_row t b rs \<Longrightarrow> r \<in> set rs \<Longrightarrow> top r = t \<and> bottom r = b \<and> t < b \<and> left r < right r"
  using span_ordered_nonempty [of rs r] by (auto simp: one_row_def nonempty_def)

lemma one_row_covers:
  assumes "one_row t b rs"
  shows "cover rs x y \<longleftrightarrow> t \<le> y \<and> y < b \<and> (\<exists>(l, r) \<in> set (columns rs). l \<le> x \<and> x < r)"
  using assms by (auto simp: one_row_def cover_iff covers_def)

lemma one_row_canonical:
  assumes o: "one_row t b rs"
  shows "canonical rs"
proof -
  have "row rs (bottom a) \<noteq> row rs (top a)" if a: "a \<in> set rs" for a
  proof -
    have "row rs (bottom a) = {}" using one_row_covers [OF o] one_row_edges [OF o a] by (simp add: row_def)
    moreover have "left a \<in> row rs (top a)"
      using one_row_covers [OF o] one_row_edges [OF o a] a by (auto simp: row_def intro!: bexI [of _ a])
    ultimately show ?thesis by auto
  qed
  then show ?thesis using o by (simp add: canonical_def one_row_def)
qed

lemma one_row_moved:
  assumes o: "one_row t b rs" and "t' < b'"
  shows "one_row t' b' (map (\<lambda>r. r\<lparr>top := t', bottom := b'\<rparr>) rs)"
proof -
  let ?f = "\<lambda>r. r\<lparr>top := t', bottom := b'\<rparr> :: Rect"
  have f: "follows (?f x) (?f y)" if "x \<in> set rs" "y \<in> set rs" "follows x y" for x y
    using that one_row_edges [OF o, of x] one_row_edges [OF o, of y] by (simp add: follows_def)
  have "sorted_wrt (\<lambda>x y. follows (?f x) (?f y)) rs"
    by (rule sorted_wrt_mono_rel [OF f]) (use o in \<open>auto simp: one_row_def span_ordered_def\<close>)
  then have "sorted_wrt follows (map ?f rs)" by (simp add: sorted_wrt_map)
  moreover have "list_all nonempty (map ?f rs)" using one_row_edges [OF o] assms(2) by (auto simp: list_all_iff nonempty_def)
  ultimately show ?thesis using o by (simp add: one_row_def span_ordered_def)
qed

lemma one_row_columns:
  assumes A: "one_row t b A" and B: "one_row t' b' B" and lt: "t < b" "t' < b'" and r: "row A t = row B t'"
  shows "columns A = columns B"
proof -
  let ?B = "map (\<lambda>r. r\<lparr>top := t, bottom := b\<rparr>) B"
  have B': "one_row t b ?B" using B lt(1) by (rule one_row_moved)
  have "cover A x t \<longleftrightarrow> cover B x t'" for x using r by (auto simp: row_def)
  then have "cover A x y = cover ?B x y" for x y
    using one_row_covers [OF A] one_row_covers [OF B] one_row_covers [OF B'] lt by (simp add: comp_def)
  then have "cover A = cover ?B" by blast
  then have "A = ?B" by (rule canonical_unique [OF one_row_canonical [OF A] one_row_canonical [OF B']])
  then have "columns A = columns ?B" by (rule arg_cong)
  then show ?thesis by (simp add: comp_def)
qed

section \<open>Adding a row and extending the last one\<close>

abbreviation rows_above :: "Rect list \<Rightarrow> int \<Rightarrow> bool" where
  "rows_above rs t \<equiv> \<forall>a \<in> set rs. bottom a \<le> t"

lemma rows_above_row: "rows_above rs t \<Longrightarrow> t \<le> y \<Longrightarrow> row rs y = {}"
  by (rule row_empty_outside) force

lemma one_row_row: "one_row t b rs \<Longrightarrow> y < t \<or> b \<le> y \<Longrightarrow> row rs y = {}"
  using one_row_covers [of t b rs] by (auto simp: row_def)

lemma own_row: "span_ordered rs \<Longrightarrow> a \<in> set rs \<Longrightarrow> left a \<in> row rs (top a)"
  using span_ordered_nonempty covers_corner by (auto simp: row_def cover_iff)

lemma span_ordered_rows:
  assumes "span_ordered rs" "one_row t b R" "rows_above rs t"
  shows "span_ordered (rs @ R)"
  using assms by (auto simp: span_ordered_append one_row_def follows_def)

lemma canonical_append:
  assumes c: "canonical rs" and R: "one_row t b R" and above: "rows_above rs t"
    and d: "\<And>a. a \<in> set rs \<Longrightarrow> bottom a = t \<Longrightarrow> row rs (top a) \<noteq> row R t"
  shows "canonical (rs @ R)"
proof -
  have so: "span_ordered rs" using c by (simp add: canonical_def)
  have n: "top a < bottom a \<and> bottom a \<le> t" if "a \<in> set rs" for a
    using that so above span_ordered_nonempty by (auto simp: nonempty_def)
  have "right p \<noteq> left q" if pq: "p \<in> set (rs @ R)" "q \<in> set (rs @ R)" "top p = top q" for p q
  proof -
    have "p \<in> set rs \<longleftrightarrow> q \<in> set rs"
      using pq n [of p] n [of q] one_row_edges [OF R, of p] one_row_edges [OF R, of q] by auto
    then consider "p \<in> set rs" "q \<in> set rs" | "p \<in> set R" "q \<in> set R" using pq by auto
    then show ?thesis using c R pq(3) by cases (auto simp: canonical_def one_row_def)
  qed
  moreover have "row (rs @ R) (bottom a) \<noteq> row (rs @ R) (top a)" if a: "a \<in> set (rs @ R)" for a
  proof (cases "a \<in> set R")
    case True
    then have e: "top a = t" "bottom a = b" "t < b" using one_row_edges [OF R] by auto
    have "row (rs @ R) (bottom a) = {}" using e one_row_row [OF R] rows_above_row [OF above] by simp
    moreover have "left a \<in> row R (top a)" using True R by (intro own_row) (auto simp: one_row_def)
    ultimately show ?thesis by auto
  next
    case False
    then have a: "a \<in> set rs" using a by simp
    have u: "row (rs @ R) (top a) = row rs (top a)" using one_row_row [OF R] n [OF a] by simp
    show ?thesis
    proof (cases "bottom a = t")
      case True
      then have "row (rs @ R) (bottom a) = row R t" using rows_above_row [OF above] by simp
      then show ?thesis using d [OF a True] u by auto
    next
      case False
      then have "row (rs @ R) (bottom a) = row rs (bottom a)" using one_row_row [OF R] n [OF a] by simp
      then show ?thesis using c a u by (simp add: canonical_def)
    qed
  qed
  ultimately show ?thesis using span_ordered_rows [OF so R above] unfolding canonical_def by blast
qed

lemma canonical_prefix:
  assumes c: "canonical (rs @ R)" and R: "one_row t b R" and above: "rows_above rs t"
  shows "canonical rs" and "a \<in> set rs \<Longrightarrow> bottom a = t \<Longrightarrow> row rs (top a) \<noteq> row R t"
proof -
  have so: "span_ordered rs" using c by (simp add: canonical_def span_ordered_append)
  have n: "top a < bottom a \<and> bottom a \<le> t" if "a \<in> set rs" for a
    using that so above span_ordered_nonempty by (auto simp: nonempty_def)
  have d: "row (rs @ R) (bottom a) \<noteq> row rs (top a)" if a: "a \<in> set rs" for a
    using c a one_row_row [OF R] n [OF a] by (auto simp: canonical_def)
  have "row rs (bottom a) \<noteq> row rs (top a)" if a: "a \<in> set rs" for a
  proof (cases "bottom a = t")
    case True
    then have "row rs (bottom a) = {}" using rows_above_row [OF above] by simp
    then show ?thesis using own_row [OF so a] by auto
  next
    case False
    then show ?thesis using d [OF a] one_row_row [OF R] n [OF a] by simp
  qed
  then show "canonical rs" using c so by (simp add: canonical_def)
  show "a \<in> set rs \<Longrightarrow> bottom a = t \<Longrightarrow> row rs (top a) \<noteq> row R t"
    using d [of a] rows_above_row [OF above] by auto
qed

lemma rows_above_last:
  "one_row t b R \<Longrightarrow> rows_above rs t \<Longrightarrow> t < b \<Longrightarrow> b \<le> t' \<Longrightarrow> rows_above (rs @ R) t'"
  by (auto dest: one_row_edges)

lemma canonical_add_row:
  assumes c: "canonical (rs @ R)" and R: "one_row t b R" "t < b" and above: "rows_above rs t" and S: "one_row t' b' S" "t' < b'"
    and le: "b \<le> t'" and d: "\<not> (t' = b \<and> columns R = columns S)"
  shows "canonical ((rs @ R) @ S)"
proof (rule canonical_append [OF c S(1)])
  show "rows_above (rs @ R) t'" using R above le by (intro rows_above_last)
  fix a assume a: "a \<in> set (rs @ R)" "bottom a = t'"
  then have aR: "a \<in> set R" using above le R(2) by auto
  then have e: "top a = t" "bottom a = b" using one_row_edges [OF R(1)] by auto
  show "row (rs @ R) (top a) \<noteq> row S t'"
  proof
    assume eq: "row (rs @ R) (top a) = row S t'"
    have "row rs t = {}" using above by (rule rows_above_row) simp
    with eq have "row R t = row S t'" by (simp add: e(1))
    then have "columns R = columns S" by (rule one_row_columns [OF R(1) S(1) R(2) S(2)])
    then show False using d a(2) e(2) by simp
  qed
qed

lemma one_row_lower:
  assumes R: "one_row t b R" and "t < b'"
  shows "one_row t b' (lower b' R)"
proof -
  have "lower b' R = map (\<lambda>r. r\<lparr>top := t, bottom := b'\<rparr>) R"
    using one_row_edges [OF R] by (intro map_cong refl) (auto intro: Rect.equality)
  then show ?thesis using one_row_moved [OF R assms(2)] by (simp only:)
qed

lemma canonical_extend_row:
  assumes c: "canonical (rs @ R)" and R: "one_row t b R" and above: "rows_above rs t" and lt: "t < b" "t < b'"
  shows "canonical (rs @ lower b' R)"
proof (rule canonical_append)
  show R': "one_row t b' (lower b' R)" using R lt(2) by (rule one_row_lower)
  show "canonical rs" using c R above by (rule canonical_prefix)
  show "rows_above rs t" by (fact above)
  have "row (lower b' R) t = row R t"
    using one_row_covers [OF R] one_row_covers [OF R'] lt by (simp add: row_def comp_def)
  then show "row rs (top a) \<noteq> row (lower b' R) t" if "a \<in> set rs" "bottom a = t" for a
    using canonical_prefix(2) [OF c R above that] by simp
qed

lemma extended_row_covers:
  assumes R: "one_row t b R" "t < b" and S: "one_row b b' S" "b < b'" and eq: "columns R = columns S"
  shows "cover (lower b' R) x y \<longleftrightarrow> cover (R @ S) x y"
proof -
  have "one_row t b' (lower b' R)" using R S(2) by (intro one_row_lower) auto
  moreover have "columns (lower b' R) = columns S" using eq by (simp add: comp_def)
  ultimately have "cover (lower b' R) x y \<longleftrightarrow> t \<le> y \<and> y < b' \<and> (\<exists>(l, r) \<in> set (columns S). l \<le> x \<and> x < r)"
    using one_row_covers by (metis (no_types, lifting))
  moreover have "cover R x y \<longleftrightarrow> t \<le> y \<and> y < b \<and> (\<exists>(l, r) \<in> set (columns S). l \<le> x \<and> x < r)"
    using one_row_covers [OF R(1)] by (simp add: eq)
  ultimately show ?thesis using one_row_covers [OF S(1), of x y] R(2) S(2) by auto
qed

section \<open>Flushing a span\<close>

definition storage_ok :: "rasterizer \<Rightarrow> bool" where
  "storage_ok z \<longleftrightarrow> canonical (rz_storage z) \<and> rz_tail z = length (rz_storage z) \<and>
     (rz_storage z = [] \<and> rz_head z = 0 \<or>
      rz_head z < rz_tail z \<and> (\<exists>t b. one_row t b (drop (rz_head z) (rz_storage z)) \<and> rows_above (take (rz_head z) (rz_storage z)) t))"

definition least_left :: "Rect list \<Rightarrow> int" where
  "least_left rs = Min (insert INT32_MAX (left ` set rs))"

definition greatest_right :: "Rect list \<Rightarrow> int" where
  "greatest_right rs = Max (insert INT32_MIN (right ` set rs))"

definition bounds_ok :: "rasterizer \<Rightarrow> bool" where
  "bounds_ok z \<longleftrightarrow> rz_bounds z = rect4 (least_left (rz_storage z)) 0 (greatest_right (rz_storage z)) 0"

lemma columns_length: "columns R = columns S \<Longrightarrow> length R = length S"
  using map_eq_imp_length_eq by blast

lemma one_row_ends:
  assumes R: "one_row t b R" "R \<noteq> []"
  shows "least_left (rs @ R) = min (left (R ! 0)) (least_left rs)"
    and "greatest_right (rs @ R) = max (right (R ! (length R - 1))) (greatest_right rs)"
proof -
  have s: "sorted_wrt follows R" using R(1) by (simp add: one_row_def span_ordered_def)
  have f: "right p \<le> left q" if "p \<in> set R" "q \<in> set R" "follows p q" for p q
    using that one_row_edges [OF R(1)] by (fastforce simp: follows_def)
  have l: "left (R ! 0) \<le> left q" if q: "q \<in> set R" for q
  proof -
    from q obtain i where i: "i < length R" "q = R ! i" by (auto simp: in_set_conv_nth)
    show ?thesis
    proof (cases "i = 0")
      case False
      then have "follows (R ! 0) q" using s i by (auto simp: sorted_wrt_iff_nth_less)
      then show ?thesis using f [of "R ! 0" q] q R one_row_edges [OF R(1), of "R ! 0"] by fastforce
    qed (simp add: i)
  qed
  have r: "right q \<le> right (R ! (length R - 1))" if q: "q \<in> set R" for q
  proof -
    from q obtain i where i: "i < length R" "q = R ! i" by (auto simp: in_set_conv_nth)
    show ?thesis
    proof (cases "i = length R - 1")
      case False
      then have "follows q (R ! (length R - 1))" using s i by (auto simp: sorted_wrt_iff_nth_less)
      then show ?thesis
        using f [of q "R ! (length R - 1)"] q R one_row_edges [OF R(1), of "R ! (length R - 1)"] by fastforce
    qed (simp add: i)
  qed
  have u: "insert x (g ` set (rs @ R)) = g ` set R \<union> insert x (g ` set rs)" for x and g :: "Rect \<Rightarrow> int" by auto
  have "Min (left ` set R) = left (R ! 0)" using R(2) l by (intro Min_eqI) auto
  then show "least_left (rs @ R) = min (left (R ! 0)) (least_left rs)"
    using R(2) unfolding least_left_def u by (subst Min_Un) simp_all
  have "Max (right ` set R) = right (R ! (length R - 1))" using R(2) r by (intro Max_eqI) auto
  then show "greatest_right (rs @ R) = max (right (R ! (length R - 1))) (greatest_right rs)"
    using R(2) unfolding greatest_right_def u by (subst Max_Un) simp_all
qed

text \<open>The decision to extend the last row.\<close>

lemma flush_merges_row:
  assumes z: "rz_tail z = length (rz_storage z)" "rz_head z < rz_tail z" and sp: "rz_span z \<noteq> []" "one_row t b (rz_span z)"
    and R: "one_row t' b' (drop (rz_head z) (rz_storage z))"
  shows "flush_merges z = Ret (t = b' \<and> columns (drop (rz_head z) (rz_storage z)) = columns (rz_span z))"
proof (cases "length (rz_span z) = length (rz_storage z) - rz_head z")
  case False
  then have "columns (drop (rz_head z) (rz_storage z)) \<noteq> columns (rz_span z)" by (metis columns_length length_drop)
  then show ?thesis using False z by (auto simp: flush_merges_def)
next
  case True
  have "rz_storage z ! rz_head z \<in> set (drop (rz_head z) (rz_storage z))"
    using z by (metis Cons_nth_drop_Suc list.set_intros(1))
  then have "bottom (rz_storage z ! rz_head z) = b'" using one_row_edges [OF R] by auto
  moreover have "top (rz_span z ! 0) = t" using sp one_row_edges [OF sp(2)] by simp
  ultimately show ?thesis
    using z sp True columns_match_Ret [of 0 "length (rz_span z)" "rz_span z" "rz_head z" "rz_storage z"]
    by (auto simp: flush_merges_def array_read_def)
qed

definition flushed :: "rasterizer \<Rightarrow> int \<Rightarrow> rasterizer \<Rightarrow> bool" where
  "flushed z b z' \<longleftrightarrow> storage_ok z' \<and> bounds_ok z' \<and> rz_span z' = [] \<and> rz_storage z' \<noteq> [] \<and> rows_above (rz_storage z') b \<and>
     cover (rz_storage z') = cover (rz_storage z @ rz_span z)"

text \<open>A flush that appends the span as a new row.\<close>

lemma flush_appends:
  assumes m: "flush_merges z = Ret False" and sp: "rz_span z \<noteq> []" "one_row t b (rz_span z)" "rows_above (rz_storage z) t"
    and bo: "bounds_ok z" and c: "canonical (rz_storage z @ rz_span z)"
  shows "\<exists>z'. flushSpan z = Ret z' \<and> flushed z b z'"
proof -
  let ?st = "rz_storage z @ rz_span z"
  let ?z = "z\<lparr>rz_bounds := rect4 (least_left ?st) 0 (greatest_right ?st) 0, rz_storage := ?st, rz_tail := length ?st,
    rz_head := length ?st - length (rz_span z), rz_span := []\<rparr>"
  have "flushSpan z = Ret ?z"
    using m sp(1) bo one_row_ends [OF sp(2,1), of "rz_storage z"]
    by (simp add: flushSpan_def array_read_def Let_def bounds_ok_def)
  moreover have "t < b" using sp(1) one_row_edges [OF sp(2), of "hd (rz_span z)"] by simp
  then have "flushed z b ?z"
    using sp c rows_above_last [OF sp(2,3)] by (auto simp: flushed_def storage_ok_def bounds_ok_def)
  ultimately show ?thesis by blast
qed

text \<open>A flush that extends the last row.\<close>

lemma flush_extends:
  assumes m: "flush_merges z = Ret True" and so: "storage_ok z" and bo: "bounds_ok z"
    and sp: "rz_span z \<noteq> []" "one_row t b (rz_span z)"
    and h: "rz_head z < rz_tail z" and R: "one_row t' t (drop (rz_head z) (rz_storage z))" "rows_above (take (rz_head z) (rz_storage z)) t'"
    and eq: "columns (drop (rz_head z) (rz_storage z)) = columns (rz_span z)"
  shows "\<exists>z'. flushSpan z = Ret z' \<and> flushed z b z'"
proof -
  let ?A = "take (rz_head z) (rz_storage z)" and ?R = "drop (rz_head z) (rz_storage z)"
  let ?st = "?A @ lower b ?R"
  let ?z = "z\<lparr>rz_storage := ?st, rz_span := []\<rparr>"
  have tl: "rz_tail z = length (rz_storage z)" and st: "rz_storage z = ?A @ ?R" using so by (simp_all add: storage_ok_def)
  have lt: "t < b" using sp(1) one_row_edges [OF sp(2), of "hd (rz_span z)"] by simp
  have lt': "t' < t" using h tl one_row_edges [OF R(1), of "hd ?R"] by simp
  have "bottom (rz_span z ! 0) = b" using sp one_row_edges [OF sp(2), of "rz_span z ! 0"] by simp
  then have "flushSpan z = Ret ?z"
    using m sp(1) h tl set_bottoms_Ret [of "rz_head z" "rz_tail z - rz_head z" "rz_storage z" b]
    by (simp add: flushSpan_def array_read_def)
  moreover have c: "canonical ?st"
    using so R lt lt' by (intro canonical_extend_row [of ?A ?R t' t]) (simp_all add: storage_ok_def)
  moreover have row: "one_row t' b (lower b ?R)" using lt lt' by (intro one_row_lower [OF R(1)]) simp
  moreover have "set ?A \<union> set ?R = set (rz_storage z)" by (metis set_append st)
  then have "left ` set ?st = left ` set (rz_storage z)" "right ` set ?st = right ` set (rz_storage z)"
    by (simp_all add: image_Un image_image flip: \<open>set ?A \<union> set ?R = set (rz_storage z)\<close>)
  then have "bounds_ok ?z" using bo by (simp add: bounds_ok_def least_left_def greatest_right_def)
  moreover have "rows_above ?st b" using rows_above_last [OF row R(2)] lt lt' by simp
  moreover have "cover (rz_storage z) x y \<longleftrightarrow> cover ?A x y \<or> cover ?R x y" for x y by (metis st cover_simps(3))
  then have "cover ?st x y = cover (rz_storage z @ rz_span z) x y" for x y
    using extended_row_covers [OF R(1) lt' sp(2) lt eq, of x y] by simp
  then have "cover ?st = cover (rz_storage z @ rz_span z)" by blast
  ultimately have "flushed z b ?z" using h tl R(2) by (auto simp: flushed_def storage_ok_def)
  then show ?thesis using \<open>flushSpan z = Ret ?z\<close> by blast
qed

lemma flushSpan_correct:
  assumes so: "storage_ok z" and bo: "bounds_ok z" and sp: "rz_span z \<noteq> []" "one_row t b (rz_span z)" "rows_above (rz_storage z) t"
  shows "\<exists>z'. flushSpan z = Ret z' \<and> flushed z b z'"
proof (cases "rz_storage z = []")
  case True
  then have "flush_merges z = Ret False" using so sp(1) by (auto simp: flush_merges_def storage_ok_def)
  then show ?thesis using True sp bo one_row_canonical [OF sp(2)] by (intro flush_appends) simp_all
next
  case False
  let ?A = "take (rz_head z) (rz_storage z)" and ?R = "drop (rz_head z) (rz_storage z)"
  obtain t' b' where h: "rz_head z < rz_tail z" "rz_tail z = length (rz_storage z)"
    and R: "one_row t' b' ?R" "rows_above ?A t'" using so False by (auto simp: storage_ok_def)
  have lt: "t < b" using sp(1) one_row_edges [OF sp(2), of "hd (rz_span z)"] by simp
  have hR: "hd ?R \<in> set ?R" using h by simp
  then have lt': "t' < b'" "bottom (hd ?R) = b'" using one_row_edges [OF R(1), of "hd ?R"] by auto
  then have le: "b' \<le> t" using sp(3) hR by (metis in_set_dropD)
  note m = flush_merges_row [OF h(2,1) sp(1,2) R(1)]
  show ?thesis
  proof (cases "t = b' \<and> columns ?R = columns (rz_span z)")
    case True
    then show ?thesis using m R by (intro flush_extends [OF _ so bo sp(1,2) h(1)]) simp_all
  next
    case d: False
    have c: "canonical (?A @ ?R)" using so by (simp add: storage_ok_def)
    have "canonical ((?A @ ?R) @ rz_span z)"
      using d by (intro canonical_add_row [OF c R(1) lt'(1) R(2) sp(2) lt le]) auto
    then show ?thesis using m d by (intro flush_appends [OF _ sp bo]) simp_all
  qed
qed

section \<open>The invariant of the rasterizer\<close>

text \<open>\<open>rects\<close> are the rectangles handed over so far; the span ends where the last of them does.\<close>

definition raster_inv :: "rasterizer \<Rightarrow> Rect list \<Rightarrow> bool" where
  "raster_inv z rects \<longleftrightarrow> storage_ok z \<and> bounds_ok z \<and> cover (rz_storage z @ rz_span z) = cover rects \<and>
     (if rects = [] then rz_storage z = [] \<and> rz_span z = []
      else rz_span z \<noteq> [] \<and> rz_cur z = length (rz_span z) - 1 \<and>
        right (last (rz_span z)) = right (last rects) \<and>
        (let t = top (last rects); b = bottom (last rects) in one_row t b (rz_span z) \<and> rows_above (rz_storage z) t))"

lemma raster_inv_new: "raster_inv rasterizer_new []"
  by (simp add: raster_inv_def rasterizer_new_def storage_ok_def bounds_ok_def canonical_def least_left_def greatest_right_def)

lemma one_row_single: "nonempty r \<Longrightarrow> one_row (top r) (bottom r) [r]"
  by (auto simp: one_row_def span_ordered_Cons nonempty_def)

lemma one_row_snoc:
  assumes o: "one_row t b (xs @ [e])" and r: "nonempty r" "top r = t" "bottom r = b" "right e < left r"
  shows "one_row t b (xs @ [e, r])"
proof -
  have "follows e r" using o r by (auto simp: one_row_def follows_def)
  then have so: "span_ordered (xs @ [e, r])" using o r(1) by (intro span_ordered_snoc) (auto simp: one_row_def)
  then have f: "follows p r" if "p \<in> set (xs @ [e])" for p using that by (auto simp: span_ordered_append span_ordered_Cons)
  have "right p < left r" if "p \<in> set (xs @ [e])" for p
  proof (cases "p = e")
    case False
    then have "p \<in> set xs" using that by simp
    then have "follows p e" using o by (auto simp: one_row_def span_ordered_append)
    then show ?thesis using o r(4) that one_row_edges [OF o, of p] one_row_edges [OF o, of e] by (auto simp: follows_def)
  qed (use r in simp)
  moreover have "left p < right p" if "p \<in> set (xs @ [e])" for p using one_row_edges [OF o that] by simp
  ultimately have "right r \<noteq> left p \<and> right p \<noteq> left r" if "p \<in> set (xs @ [e])" for p
    using that r(1) by (fastforce simp: nonempty_def)
  then show ?thesis using o so r by (auto simp: one_row_def nonempty_def)
qed

lemma one_row_widen:
  assumes o: "one_row t b (xs @ [e])" and r: "nonempty r" "right e = left r"
  shows "one_row t b (xs @ [e\<lparr>right := right r\<rparr>])"
proof -
  have e: "left e < right e" "top e = t" "bottom e = b" "t < b" using one_row_edges [OF o, of e] by auto
  have "right p < left e" if "p \<in> set xs" for p
  proof -
    have "follows p e" using o that by (auto simp: one_row_def span_ordered_append)
    then show ?thesis using o that one_row_edges [OF o, of p] e by (fastforce simp: follows_def one_row_def)
  qed
  then have before: "right p < left e \<and> left p < right p" if "p \<in> set xs" for p using that one_row_edges [OF o, of p] by auto
  have wide: "right e < right r" using r by (simp add: nonempty_def)
  have "span_ordered (xs @ [e\<lparr>right := right r\<rparr>])"
    using o e(1) wide by (auto simp: one_row_def span_ordered_append span_ordered_Cons follows_def nonempty_def)
  moreover have "right p \<noteq> left q" if "p \<in> set (xs @ [e\<lparr>right := right r\<rparr>])" "q \<in> set (xs @ [e\<lparr>right := right r\<rparr>])" for p q
    using that before [of p] before [of q] e(1) wide o by (auto simp: one_row_def)
  ultimately show ?thesis using o by (auto simp: one_row_def)
qed

lemma span_add_row:
  assumes "storage_ok z" "bounds_ok z" "rz_span z = []" "nonempty r" "rows_above (rz_storage z) (top r)"
    and "cover (rz_storage z) = cover rects"
  shows "raster_inv (span_add r z) (rects @ [r])"
  using assms one_row_single [OF assms(4)]
  by (auto simp: raster_inv_def span_add_def storage_ok_def bounds_ok_def Let_def fun_eq_iff)

lemma rasterizer_call_inv:
  assumes i: "raster_inv z rects" and so: "span_ordered (rects @ [r])"
  shows "\<exists>z'. rasterizer_call z r = Ret z' \<and> raster_inv z' (rects @ [r])"
proof (cases "rects = []")
  case True
  then have "rasterizer_call z r = Ret (span_add r z)" using i by (simp add: raster_inv_def rasterizer_call_def)
  moreover have "raster_inv (span_add r z) (rects @ [r])"
    using i so True by (intro span_add_row) (auto simp: raster_inv_def span_ordered_Cons)
  ultimately show ?thesis by blast
next
  case False
  define t b where "t = top (last rects)" and "b = bottom (last rects)"
  have n: "nonempty r" and f: "follows (last rects) r" using so False by (auto simp: span_ordered_append span_ordered_Cons)
  have st: "storage_ok z" "bounds_ok z" and cov: "cover (rz_storage z @ rz_span z) = cover rects"
    and sp: "rz_span z \<noteq> []" "one_row t b (rz_span z)" "rows_above (rz_storage z) t"
    and cur: "rz_cur z = length (rz_span z) - 1" and rt: "right (last (rz_span z)) = right (last rects)"
    using i False by (simp_all add: raster_inv_def Let_def t_def b_def)
  obtain xs e where xs: "rz_span z = xs @ [e]" using sp(1) by (metis rev_exhaust)
  have e: "top e = t" "bottom e = b" "t < b" "right e = right (last rects)" using one_row_edges [OF sp(2), of e] rt by (auto simp: xs)
  have rd: "array_read (rz_span z) (rz_cur z) = Ret e" by (simp add: array_read_def cur xs)
  show ?thesis
  proof (cases "top r = t")
    case False
    then have le: "b \<le> top r" using f by (auto simp: follows_def t_def b_def)
    obtain z' where z': "flushSpan z = Ret z'" "flushed z b z'" using flushSpan_correct [OF st sp] by blast
    then have "rasterizer_call z r = Ret (span_add r z')" using rd False sp(1) e by (simp add: rasterizer_call_def)
    moreover have "raster_inv (span_add r z') (rects @ [r])"
      using z'(2) le n cov by (intro span_add_row) (auto simp: flushed_def)
    ultimately show ?thesis by blast
  next
    case True
    then have eq: "bottom r = b" and le: "right e \<le> left r" using f e by (auto simp: follows_def t_def b_def)
    show ?thesis
    proof (cases "right e = left r")
      case touch: True
      let ?z = "z\<lparr>rz_span := xs @ [e\<lparr>right := right r\<rparr>]\<rparr>"
      have "rasterizer_call z r = Ret ?z" using rd True touch sp(1) e by (simp add: rasterizer_call_def cur xs)
      moreover have "covers (e\<lparr>right := right r\<rparr>) x y \<longleftrightarrow> covers e x y \<or> covers r x y" for x y
        using touch e True eq n one_row_edges [OF sp(2), of e] by (auto simp: covers_def xs nonempty_def)
      then have "cover (rz_storage ?z @ rz_span ?z) = cover (rects @ [r])" using cov by (auto simp: fun_eq_iff xs)
      then have "raster_inv ?z (rects @ [r])"
        using st sp True eq n touch one_row_widen [of t b xs e r] cur
        by (auto simp: raster_inv_def storage_ok_def bounds_ok_def xs Let_def)
      ultimately show ?thesis by blast
    next
      case gap: False
      have "rasterizer_call z r = Ret (span_add r z)" using rd True gap sp(1) e by (simp add: rasterizer_call_def)
      moreover have "raster_inv (span_add r z) (rects @ [r])"
        using st sp True eq n gap le cov one_row_snoc [of t b xs e r]
        by (auto simp: raster_inv_def storage_ok_def bounds_ok_def span_add_def xs Let_def fun_eq_iff)
      ultimately show ?thesis by blast
    qed
  qed
qed

lemma rasterizer_feed_inv:
  "raster_inv z done \<Longrightarrow> span_ordered (done @ rects) \<Longrightarrow>
   \<exists>z'. rasterizer_feed z rects = Ret z' \<and> raster_inv z' (done @ rects)"
proof (induction rects arbitrary: z "done")
  case (Cons r rects)
  have "span_ordered (done @ [r])" using Cons.prems(2) by (auto simp: span_ordered_append span_ordered_Cons)
  then obtain z' where "rasterizer_call z r = Ret z'" "raster_inv z' (done @ [r])"
    using rasterizer_call_inv Cons.prems(1) by blast
  then show ?case using Cons.IH [of z' "done @ [r]"] Cons.prems(2) by simp
qed simp

section \<open>The finished region\<close>

definition bounds_of :: "Rect list \<Rightarrow> Rect" where
  "bounds_of rs = (if rs = [] then rect4 0 0 0 0 else rect4 (least_left rs) (top (hd rs)) (greatest_right rs) (bottom (last rs)))"

definition region_form :: "Rect list \<Rightarrow> Region" where
  "region_form rs = (if length rs = 1 then [] else rs) @ [bounds_of rs]"

lemma rasterizer_delete_region:
  assumes i: "raster_inv z rects"
  shows "\<exists>rs. rasterizer_delete z = Ret (region_form rs) \<and> canonical rs \<and> cover rs = cover rects"
proof -
  have *: "\<exists>rs. rasterizer_delete z = Ret (region_form rs) \<and> canonical rs \<and> cover rs = cover rects"
    if z': "(if length (rz_span z) \<noteq> 0 then flushSpan z else Ret z) = Ret z'" "storage_ok z'" "bounds_ok z'" "cover (rz_storage z') = cover rects" for z'
    using that
    by (intro exI [of _ "rz_storage z'"])
      (auto simp: rasterizer_delete_def array_read_def region_form_def bounds_of_def bounds_ok_def storage_ok_def hd_conv_nth last_conv_nth
        Let_def least_left_def greatest_right_def)
  show ?thesis
  proof (cases "rects = []")
    case True
    then show ?thesis using i by (intro * [of z]) (auto simp: raster_inv_def)
  next
    case False
    then obtain z' where "flushSpan z = Ret z'" "flushed z (bottom (last rects)) z'"
      using i flushSpan_correct [of z "top (last rects)" "bottom (last rects)"] by (auto simp: raster_inv_def Let_def)
    then show ?thesis using i False by (intro * [of z']) (auto simp: raster_inv_def flushed_def)
  qed
qed

lemma rasterize_region:
  assumes "span_ordered rects"
  shows "\<exists>rs. rasterize rects = Ret (region_form rs) \<and> canonical rs \<and> cover rs = cover rects"
proof -
  obtain z where "rasterizer_feed rasterizer_new rects = Ret z" "raster_inv z rects"
    using rasterizer_feed_inv [OF raster_inv_new, of rects] assms by auto
  then show ?thesis using rasterizer_delete_region by (simp add: rasterize_def)
qed

end
