(* ===== verification/Region_Props.thy ===== *)
theory Region_Props
  imports Region_Raster
begin

text \<open>
  The properties of rectangles and regions: the rasterizer's result is a valid region of exactly the points it was given and
  depends on these points only; the boolean operations, translation, flattening; and what \<open>Rect::reduce\<close> computes.
\<close>

section \<open>The functions of the missing headers\<close>

definition header_ok :: "region_header \<Rightarrow> bool" where
  "header_ok h \<longleftrightarrow> (\<forall>reg. h_isRect h reg = (length reg = 1)) \<and> (\<forall>reg. reg \<noteq> [] \<longrightarrow> h_getBounds h reg = last reg) \<and>
     (\<forall>reg. reg \<noteq> [] \<longrightarrow> h_isEmpty h reg = (\<not> nonempty (last reg))) \<and> h_max_value h = INT32_MAX"

text \<open>Coordinates whose differences cannot overflow.\<close>

definition small_rect :: "Rect \<Rightarrow> bool" where
  "small_rect r \<longleftrightarrow> - (2 ^ 30) \<le> left r \<and> right r < 2 ^ 30 \<and> - (2 ^ 30) \<le> top r \<and> bottom r < 2 ^ 30"

lemma canonical_small:
  assumes "span_ordered rs" "cover rs = cover rects" "list_all small_rect rects" "r \<in> set rs"
  shows "small_rect r"
proof -
  have n: "nonempty r" using assms(1,4) by (rule span_ordered_nonempty)
  have "cover rs (left r) (top r)" "cover rs (right r - 1) (bottom r - 1)"
    using n assms(4) by (auto simp: cover_iff covers_def nonempty_def intro!: bexI [of _ r])
  then obtain a b where "a \<in> set rects" "covers a (left r) (top r)" "b \<in> set rects" "covers b (right r - 1) (bottom r - 1)"
    unfolding assms(2) by (auto simp: cover_iff)
  then show ?thesis using assms(3) by (force simp: small_rect_def covers_def list_all_iff)
qed

section \<open>Bounds\<close>

lemma bounds_of_single: "small_rect r \<Longrightarrow> nonempty r \<Longrightarrow> bounds_of [r] = r"
  by (auto simp: bounds_of_def least_left_def greatest_right_def small_rect_def nonempty_def)

lemma least_left_snoc: "least_left (xs @ [c]) = min (least_left xs) (left c)"
  by (simp add: least_left_def min.commute insert_commute)

lemma greatest_right_snoc: "greatest_right (xs @ [c]) = max (greatest_right xs) (right c)"
  by (simp add: greatest_right_def max.commute insert_commute)

lemma widen_bounds:
  assumes "span_ordered (xs @ [c])" "xs \<noteq> []"
  shows "widen (bounds_of xs) c = bounds_of (xs @ [c])"
proof -
  have "follows (hd xs) c" "nonempty (hd xs)" "follows (last xs) c" "nonempty (last xs)" "nonempty c"
    using assms by (auto simp: span_ordered_append span_ordered_Cons intro: span_ordered_nonempty)
  then have "top (hd xs) \<le> top c" "bottom (last xs) \<le> bottom c" by (auto simp: follows_def nonempty_def)
  then show ?thesis using assms(2) by (auto simp: widen_def bounds_of_def least_left_snoc greatest_right_snoc)
qed

lemma region_array:
  assumes h: "header_ok h" and rs: "span_ordered rs" "list_all small_rect rs"
  shows "cover (getArray h (region_form rs)) = cover rs" and "rs \<noteq> [] \<Longrightarrow> getArray h (region_form rs) = rs"
proof -
  consider "rs = []" | r where "rs = [r]" | "length rs \<ge> 2" by (metis One_nat_def Suc_1 Suc_leI length_0_conv length_Suc_conv linorder_not_le less_2_cases)
  then show "rs \<noteq> [] \<Longrightarrow> getArray h (region_form rs) = rs"
    using h rs by cases (auto simp: getArray_def rect_count_def region_form_def header_ok_def bounds_of_single span_ordered_Cons)
  then show "cover (getArray h (region_form rs)) = cover rs"
    using h by (cases "rs = []") (auto simp: getArray_def rect_count_def region_form_def header_ok_def bounds_of_def fun_eq_iff)
qed

section \<open>Validation accepts what the rasterizer makes\<close>

lemma validate_rect_small: "header_ok h \<Longrightarrow> small_rect r \<Longrightarrow> nonempty r \<Longrightarrow> validate_rect h r = Ret True"
  by (simp add: validate_rect_def Rect_isValid_def getWidth_def getHeight_def int32E_def small_rect_def nonempty_def header_ok_def)

lemma validate_pair_follows: "follows p c \<Longrightarrow> nonempty p \<Longrightarrow> nonempty c \<Longrightarrow> validate_pair p c"
  unfolding validate_pair_def follows_def nonempty_def Rect_less_def by (simp split: if_split) arith

lemma validate_loop_ok:
  assumes h: "header_ok h" and rs: "span_ordered rs" "list_all small_rect rs" and reg: "take (length rs) reg = rs"
  shows "0 < k \<Longrightarrow> k + n = length rs \<Longrightarrow>
    validate_loop h reg (k - 1) k n (bounds_of (take k rs)) True = Ret (bounds_of rs, True)"
proof (induction n arbitrary: k)
  case (Suc n)
  then have k: "k < length rs" "k - 1 < length rs" by auto
  have len: "length rs \<le> length reg" using reg by (metis length_take min.cobounded1 min_def)
  have rd: "array_read reg i = Ret (rs ! i)" if "i < length rs" for i
    using that len reg by (metis array_read_def less_le_trans nth_take)
  have n: "nonempty (rs ! i) \<and> small_rect (rs ! i)" if "i < length rs" for i
    using that rs by (auto simp: list_all_length span_ordered_def)
  have "follows (rs ! (k - 1)) (rs ! k)"
    using rs(1) Suc.prems k by (auto simp: span_ordered_def sorted_wrt_iff_nth_less)
  then have p: "validate_pair (rs ! (k - 1)) (rs ! k)" using n k by (intro validate_pair_follows) auto
  have "span_ordered (take k rs @ [rs ! k])"
    using rs(1) k by (metis append_take_drop_id span_ordered_append take_Suc_conv_app_nth)
  then have "widen (bounds_of (take k rs)) (rs ! k) = bounds_of (take (Suc k) rs)"
    using Suc.prems k by (subst widen_bounds) (auto simp: take_Suc_conv_app_nth)
  then show ?case
    using Suc.IH [of "Suc k"] Suc.prems rd [OF k(1)] rd [OF k(2)] p n [OF k(1)] validate_rect_small [OF h] by auto
qed (simp add: take_all)

lemma validate_region:
  assumes h: "header_ok h" and rs: "span_ordered rs" "list_all small_rect rs"
  shows "Region_validate h (region_form rs) = Ret True"
proof (cases "rs = []")
  case True
  then show ?thesis using h
    by (simp add: Region_validate_def region_form_def bounds_of_def array_read_def rect_count_def header_ok_def validate_rect_def
        Rect_isValid_def getWidth_def getHeight_def int32E_def)
next
  case False
  let ?reg = "region_form rs"
  have c: "rect_count h ?reg = length rs" and t: "take (length rs) ?reg = rs"
    using region_array(2) [OF h rs False] False h by (auto simp: getArray_def rect_count_def header_ok_def region_form_def split: if_splits)
  have l: "length ?reg \<noteq> 2" "last ?reg = bounds_of rs" "?reg \<noteq> []" using False by (cases rs; auto simp: region_form_def)+
  obtain n where n: "length rs = Suc n" using False by (cases rs) auto
  have f: "array_read ?reg 0 = Ret (rs ! 0)" using t False l(3) by (metis array_read_def length_greater_0_conv nth_take)
  have v: "validate_rect h (rs ! 0) = Ret True" using rs n by (intro validate_rect_small [OF h]) (auto simp: list_all_length span_ordered_def)
  have b: "rs ! 0 = bounds_of (take 1 rs)"
    using rs n by (cases rs) (auto simp: bounds_of_single span_ordered_Cons)
  have "validate_loop h ?reg 0 0 (Suc n) (rs ! 0) True = Ret (bounds_of rs, True)"
    using validate_loop_ok [OF h rs t, of 1 n] n f v b by simp
  then show ?thesis using f c n l h by (simp add: Region_validate_def header_ok_def)
qed

section \<open>The rasterizer\<close>

lemma rasterize_small:
  assumes "span_ordered rects" "list_all small_rect rects"
  obtains rs where "rasterize rects = Ret (region_form rs)" "canonical rs" "span_ordered rs" "list_all small_rect rs" "cover rs = cover rects"
proof -
  obtain rs where rs: "rasterize rects = Ret (region_form rs)" "canonical rs" "cover rs = cover rects"
    using rasterize_region [OF assms(1)] by blast
  then have "span_ordered rs" by (simp add: canonical_def)
  moreover from this have "list_all small_rect rs" using canonical_small rs(3) assms(2) by (auto simp: list_all_iff)
  ultimately show ?thesis using rs that by blast
qed

lemma region_form_eq:
  assumes "span_ordered A" "span_ordered B" "list_all small_rect A" "list_all small_rect B" "region_form A = region_form B"
  shows "A = B"
proof -
  have e: "A = []" if "span_ordered A" "list_all small_rect A" "region_form A = region_form []" for A
    using that bounds_of_single by (auto simp: region_form_def bounds_of_def span_ordered_Cons nonempty_def small_rect_def length_Suc_conv split: if_splits)
  have s: "A = [r]" if "list_all small_rect A" "span_ordered A" "small_rect r" "nonempty r" "region_form A = region_form [r]" for A r
    using that by (auto simp: region_form_def bounds_of_single span_ordered_Cons length_Suc_conv nonempty_def bounds_of_def [of "[]"] split: if_splits)
  consider "A = []" | "B = []" | r where "A = [r]" | r where "B = [r]" | "length A \<noteq> 1" "length B \<noteq> 1"
    by (metis One_nat_def length_0_conv length_Suc_conv)
  then show ?thesis
  proof cases
    case 1 then show ?thesis using e [of B] assms by simp
  next
    case 2 then show ?thesis using e [of A] assms by simp
  next
    case (3 r) then show ?thesis using s [of B r] assms by (simp add: span_ordered_Cons)
  next
    case (4 r) then show ?thesis using s [of A r] assms by (simp add: span_ordered_Cons)
  next
    case 5 then show ?thesis using assms by (simp add: region_form_def)
  qed
qed

text \<open>
  C12. For rectangles in the order in which the region operator produces them, the rasterizer of \<open>ui/Region.cpp\<close> returns a region
  that \<open>Region::validate\<close> accepts and that contains exactly the points of these rectangles.
\<close>

theorem rasterize_exact:
  assumes h: "header_ok h" and rects: "span_ordered rects" "list_all small_rect rects"
  shows "\<exists>reg. rasterize rects = Ret reg \<and> Region_validate h reg = Ret True \<and>
    (\<forall>x y. Region_contains h reg x y = list_ex (\<lambda>r. covers r x y) rects)"
proof -
  obtain rs where rs: "rasterize rects = Ret (region_form rs)" "span_ordered rs" "list_all small_rect rs" "cover rs = cover rects"
    using rasterize_small [OF rects] by metis
  then show ?thesis
    using validate_region [OF h rs(2,3)] region_array(1) [OF h rs(2,3)]
    by (simp add: Region_contains_def contains_loop_cover flip: cover_def)
qed

text \<open>A header for concrete runs.\<close>

definition demo_header :: region_header where
  "demo_header = \<lparr>h_isRect = \<lambda>reg. length reg = 1, h_isEmpty = \<lambda>reg. \<not> nonempty (last reg), h_getBounds = last, h_max_value = INT32_MAX,
     op_nand = 0, op_and = 1, op_or = 2, op_xor = 3, h_operator = \<lambda>op lhs rhs dx dy. lhs\<rparr>"

lemma demo_header_ok: "header_ok demo_header"
  by (simp add: header_ok_def demo_header_def)

lemmas demo_simps = span_ordered_def follows_def nonempty_def small_rect_def

theorem rasterize_exact_witness:
  "\<exists>reg. rasterize [rect4 0 0 10 5, rect4 10 0 20 5, rect4 0 5 20 9] = Ret reg \<and> Region_validate demo_header reg = Ret True \<and>
     Region_contains demo_header reg 15 7 \<and> \<not> Region_contains demo_header reg 20 7"
  using rasterize_exact [OF demo_header_ok, of "[rect4 0 0 10 5, rect4 10 0 20 5, rect4 0 5 20 9]"] by (auto simp: demo_simps)

text \<open>
  C13. The region is optimal, as the source says: it depends on the covered points alone.  Two lists of rectangles are
  rasterized to the same region if and only if they cover the same points.
\<close>

theorem rasterize_canonical:
  assumes A: "span_ordered A" "list_all small_rect A" and B: "span_ordered B" "list_all small_rect B"
  shows "rasterize A = rasterize B \<longleftrightarrow> (\<forall>x y. cover A x y = cover B x y)"
proof -
  obtain rs where rs: "rasterize A = Ret (region_form rs)" "canonical rs" "span_ordered rs" "list_all small_rect rs" "cover rs = cover A"
    using rasterize_small [OF A] by metis
  obtain rs' where rs': "rasterize B = Ret (region_form rs')" "canonical rs'" "span_ordered rs'" "list_all small_rect rs'" "cover rs' = cover B"
    using rasterize_small [OF B] by metis
  have "rasterize A = rasterize B \<longleftrightarrow> rs = rs'"
    using region_form_eq [OF rs(3) rs'(3) rs(4) rs'(4)] by (auto simp: rs(1) rs'(1))
  also have "\<dots> \<longleftrightarrow> cover A = cover B" using canonical_unique [OF rs(2) rs'(2)] rs(5) rs'(5) by auto
  finally show ?thesis by (simp add: fun_eq_iff)
qed

theorem rasterize_canonical_witness:
  "rasterize [rect4 0 0 10 5, rect4 10 0 20 5, rect4 0 5 20 9] = rasterize [rect4 0 0 20 9] \<and>
   rasterize [rect4 0 0 10 5] \<noteq> rasterize [rect4 0 0 20 9]"
proof -
  have "covers (rect4 0 0 10 5) x y \<or> covers (rect4 10 0 20 5) x y \<or> covers (rect4 0 5 20 9) x y \<longleftrightarrow> covers (rect4 0 0 20 9) x y" for x y
    by auto
  moreover have "\<not> covers (rect4 0 0 10 5) 15 7" "covers (rect4 0 0 20 9) 15 7" by simp_all
  ultimately show ?thesis
    using rasterize_canonical [of "[rect4 0 0 10 5, rect4 10 0 20 5, rect4 0 5 20 9]" "[rect4 0 0 20 9]"]
      rasterize_canonical [of "[rect4 0 0 10 5]" "[rect4 0 0 20 9]"] by (fastforce simp: demo_simps)
qed

section \<open>Flattening\<close>

lemma sint_word_of_int32: "- (2 ^ 31) \<le> x \<Longrightarrow> x < 2 ^ 31 \<Longrightarrow> sint (word_of_int x :: u32) = x"
  by (simp add: signed_of_int signed_take_bit_int_eq_self)

definition int32_rect :: "Rect \<Rightarrow> bool" where
  "int32_rect r \<longleftrightarrow> list_all (\<lambda>x. INT32_MIN \<le> x \<and> x \<le> INT32_MAX) [left r, top r, right r, bottom r]"

lemma length_rect_bytes [simp]: "length (rect_bytes r) = 16"
  by (simp add: rect_bytes_def)

lemma rect_bytes_inverse: "int32_rect r \<Longrightarrow> rect_of_bytes (rect_bytes r) = r"
  by (simp add: rect_of_bytes_def rect_bytes_def int32_rect_def sint_word_of_int32)

lemma length_rects_bytes: "length (concat (map rect_bytes rs)) = 16 * length rs"
  by (induction rs) auto

lemma flatten_rects_Ret:
  "pos + 16 * length rs \<le> length buf \<Longrightarrow>
   flatten_rects rs buf pos = Ret (0, take pos buf @ concat (map rect_bytes rs) @ drop (pos + 16 * length rs) buf)"
proof (induction rs arbitrary: buf pos)
  case (Cons r rs)
  let ?buf = "take pos buf @ rect_bytes r @ drop (pos + 16) buf"
  have "Rect_flatten r buf pos = Ret (0, ?buf)" using Cons.prems by (simp add: Rect_flatten_def mem_write_def)
  moreover have "flatten_rects rs ?buf (pos + 16) =
      Ret (0, take (pos + 16) ?buf @ concat (map rect_bytes rs) @ drop (pos + 16 + 16 * length rs) ?buf)"
    using Cons.prems by (intro Cons.IH) simp
  ultimately show ?case using Cons.prems by (simp add: min_def add.commute add.left_commute)
qed simp

lemma unflatten_rects_Ret:
  "take (16 * length rs) (drop pos buf) = concat (map rect_bytes rs) \<Longrightarrow> list_all int32_rect rs \<Longrightarrow>
   unflatten_rects buf pos (length rs) acc = Ret (0, acc @ rs)"
proof (induction rs arbitrary: pos acc)
  case (Cons r rs)
  have l: "16 * Suc (length rs) \<le> length (drop pos buf)"
    using arg_cong [OF Cons.prems(1), of length] length_rects_bytes [of "r # rs"] by (simp add: min_def split: if_splits)
  have "take 16 (take (16 * length (r # rs)) (drop pos buf)) = rect_bytes r"
    unfolding Cons.prems(1) by simp
  then have t: "take 16 (drop pos buf) = rect_bytes r" by (simp add: min_def split: if_splits)
  have "drop 16 (take (16 * length (r # rs)) (drop pos buf)) = concat (map rect_bytes rs)"
    unfolding Cons.prems(1) by simp
  then have d: "take (16 * length rs) (drop (pos + 16) buf) = concat (map rect_bytes rs)"
    by (simp add: drop_take add.commute)
  have "Rect_unflatten buf pos = Ret (0, r)"
    using l t Cons.prems(2) by (simp add: Rect_unflatten_def mem_read_def rect_bytes_inverse)
  then show ?case using Cons.IH [OF d] Cons.prems(2) by simp
qed simp

text \<open>
  C15. A region survives the trip through \<open>Region::flatten\<close> and \<open>Region::unflatten\<close>: in a buffer of at least the flattened size the
  first succeeds and keeps the buffer's length, and the second gives back the same region if \<open>validate\<close> accepts it, whatever was
  there before; a smaller buffer is refused.
\<close>

theorem region_flatten_roundtrip:
  assumes "list_all int32_rect reg" "length reg < 2 ^ 32"
  shows "if length buf < Region_getFlattenedSize reg then Region_flatten reg buf = Ret (NO_MEMORY, buf)
    else \<exists>buf'. Region_flatten reg buf = Ret (0, buf') \<and> length buf' = length buf \<and>
      (Region_validate h reg = Ret True \<longrightarrow> Region_unflatten h old buf' = Ret (0, reg))"
proof (cases "length buf < Region_getFlattenedSize reg")
  case False
  then have len: "4 + 16 * length reg \<le> length buf" by (simp add: Region_getFlattenedSize_def)
  define bs where "bs = le_bytes32 (of_nat (length reg)) @ concat (map rect_bytes reg)"
  define buf' where "buf' = bs @ drop (4 + 16 * length reg) buf"
  have lb: "length bs = 4 + 16 * length reg" by (simp add: bs_def length_rects_bytes del: length_concat)
  have "flatten_rects reg (le_bytes32 (of_nat (length reg)) @ drop 4 buf) 4 = Ret (0, buf')"
    using len by (subst flatten_rects_Ret) (auto simp: buf'_def bs_def add.commute)
  then have "Region_flatten reg buf = Ret (0, buf')" using False len by (simp add: Region_flatten_def mem_write_def)
  moreover have "length buf' = length buf" using len lb by (simp add: buf'_def)
  moreover have "Region_unflatten h old buf' = Ret (0, reg)" if v: "Region_validate h reg = Ret True"
  proof -
    have "take (16 * length reg) (drop 4 buf') = concat (map rect_bytes reg)"
      using length_rects_bytes [of reg] by (simp add: buf'_def bs_def del: length_concat)
    then have u: "unflatten_rects buf' 4 (length reg) [] = Ret (0, reg)" using unflatten_rects_Ret assms(1) by simp
    have "mem_read 0 4 buf' = Some (le_bytes32 (of_nat (length reg)))" by (simp add: mem_read_def buf'_def bs_def)
    moreover have "unat (of_nat (length reg) :: u32) = length reg" using assms(2) by (simp add: unat_of_nat)
    moreover have "length buf' = length buf" using len lb by (simp add: buf'_def)
    ultimately show ?thesis using u v len by (simp add: Region_unflatten_def)
  qed
  ultimately show ?thesis using False by auto
qed (simp add: Region_flatten_def)

theorem region_flatten_roundtrip_witness:
  "\<exists>buf. Region_flatten [rect4 0 0 20 9] (replicate 20 7) = Ret (0, buf) \<and>
     Region_unflatten demo_header Region_default buf = Ret (0, [rect4 0 0 20 9])"
proof -
  have "Region_validate demo_header [rect4 0 0 20 9] = Ret True"
    by (simp add: Region_validate_def demo_header_def array_read_def rect_count_def validate_rect_def Rect_isValid_def getWidth_def
        getHeight_def int32E_def)
  then show ?thesis
    using region_flatten_roundtrip [of "[rect4 0 0 20 9]" "replicate 20 7" demo_header Region_default]
    by (auto simp: int32_rect_def Region_getFlattenedSize_def)
qed

text \<open>A flattened region without rectangles makes the receiver read the first element of an empty vector.\<close>

lemma unflatten_no_rects: "Region_unflatten h old ([0, 0, 0, 0] @ rest) = Fault"
  by (simp add: Region_unflatten_def mem_read_def Region_validate_def array_read_def)

section \<open>Translation\<close>

lemma offset_rects_cover:
  "offset_rects dx dy rs = Ret rs' \<Longrightarrow> cover rs' (x + dx) (y + dy) \<longleftrightarrow> cover rs x y"
  by (induction rs arbitrary: rs') (auto simp: bindE_Ret_iff offsetBy_points)

lemma offset_rects_take:
  "offset_rects dx dy rs = Ret rs' \<Longrightarrow> offset_rects dx dy (take n rs) = Ret (take n rs') \<and> length rs' = length rs"
proof (induction rs arbitrary: rs' n)
  case (Cons r rs)
  then show ?case by (cases n) (auto simp: bindE_Ret_iff)
qed simp

text \<open>
  Moving a region moves its points: when no coordinate overflows, \<open>Region::translate\<close> of a region that holds a rectangle
  contains a point exactly when the region contained the point before the move.
\<close>

theorem translate_moves:
  assumes h: "header_ok h" and reg: "reg \<noteq> []" "nonempty (last reg)" and t: "Region_translate h reg dx dy = Ret reg'"
  shows "Region_contains h reg' (x + dx) (y + dy) = Region_contains h reg x y"
proof (cases "dx = 0 \<and> dy = 0")
  case True
  then show ?thesis using t by (simp add: Region_translate_def translate_to_def translate_in_place_def Region_assign_def Let_def)
next
  case False
  then have o: "offset_rects dx dy reg = Ret reg'"
    using t h reg by (auto simp: Region_translate_def translate_to_def translate_in_place_def Region_assign_def Let_def header_ok_def)
  have "rect_count h reg' = rect_count h reg" using offset_rects_take [OF o] h by (simp add: rect_count_def header_ok_def)
  then have "offset_rects dx dy (getArray h reg) = Ret (getArray h reg')" using offset_rects_take [OF o] by (simp add: getArray_def)
  then show ?thesis using offset_rects_cover by (simp add: Region_contains_def contains_loop_cover)
qed

end
