(* ===== verification/Region_Junctions.thy ===== *)
theory Region_Junctions
  imports Region_Props
begin

text \<open>
  \<open>Region::createTJunctionFreeRegion\<close>: its two passes keep the points and leave no rectangle with a corner of a neighbouring row
  inside one of its horizontal sides.  The pass from left to right is the other one seen from behind, so one proof serves both.
\<close>

section \<open>Cutting one rectangle\<close>

definition inside :: "int \<Rightarrow> Rect \<Rightarrow> bool" where
  "inside e q \<longleftrightarrow> left q < e \<and> e < right q"

abbreviation edges :: "Rect \<Rightarrow> int set" where
  "edges r \<equiv> {left r, right r}"

text \<open>\<open>ps\<close> are the pieces between \<open>r\<close> and \<open>r'\<close>, from right to left.\<close>

fun chain :: "int \<Rightarrow> int \<Rightarrow> int \<Rightarrow> Rect list \<Rightarrow> int \<Rightarrow> bool" where
  "chain t b r [] r' = (r' = r)"
| "chain t b r (p # ps) r' = (p = rect4 (left p) t r b \<and> left p < r \<and> chain t b (left p) ps r')"

lemma chain_append: "chain t b r (ps @ qs) r'' \<longleftrightarrow> (\<exists>r'. chain t b r ps r' \<and> chain t b r' qs r'')"
  by (induction ps arbitrary: r) auto

lemma chain_le: "chain t b r ps r' \<Longrightarrow> r' \<le> r"
  by (induction ps arbitrary: r) fastforce+

lemma chain_piece:
  "chain t b r ps r' \<Longrightarrow> q \<in> set ps \<Longrightarrow> top q = t \<and> bottom q = b \<and> left q < right q \<and> r' \<le> left q \<and> right q \<le> r"
proof (induction ps arbitrary: r)
  case (Cons p ps)
  have "r' \<le> left p" using chain_le [of t b "left p" ps r'] Cons.prems(1) by simp
  moreover have "right p = r" "top p = t" "bottom p = b" using Cons.prems(1) by (metis Rect.select_convs chain.simps(2))+
  ultimately show ?case using Cons by fastforce
qed simp

lemma chain_covers:
  "chain t b r ps r' \<Longrightarrow> cover ps x y \<longleftrightarrow> r' \<le> x \<and> x < r \<and> t \<le> y \<and> y < b"
proof (induction ps arbitrary: r)
  case (Cons p ps)
  have le: "r' \<le> left p" using chain_le [of t b "left p" ps r'] Cons.prems(1) by simp
  have "covers p x y \<longleftrightarrow> left p \<le> x \<and> x < r \<and> t \<le> y \<and> y < b" using Cons.prems(1) by (metis chain.simps(2) covers_rect4)
  moreover have "cover ps x y \<longleftrightarrow> r' \<le> x \<and> x < left p \<and> t \<le> y \<and> y < b" using Cons.prems(1) by (intro Cons.IH) simp
  moreover have "left p < r" using Cons.prems(1) by simp
  ultimately show ?case using le by auto
qed auto

lemma chain_ordered: "chain t b r ps r' \<Longrightarrow> t < b \<Longrightarrow> span_ordered (rev ps)"
proof (induction ps arbitrary: r)
  case (Cons p ps)
  have p: "right p = r" "top p = t" "bottom p = b" "left p < r" using Cons.prems(1) by (metis Rect.select_convs chain.simps(2))+
  have "follows q p" if "q \<in> set ps" for q
    using chain_piece [of t b "left p" ps r' q] Cons.prems(1) that p by (simp add: follows_def)
  then show ?case using Cons p by (auto simp: span_ordered_append span_ordered_Cons nonempty_def)
qed simp

lemma split_rtl_chain:
  assumes "split_rtl t b l e (r, dst) = (r', dst')" "l < r"
  shows "\<exists>ps. dst' = dst @ ps \<and> chain t b r ps r' \<and> l < r' \<and> (e \<le> l \<or> r' \<le> e) \<and> (\<forall>q \<in> set ps. left q = e)"
  using assms by (auto simp: split_rtl_def split: if_splits)

text \<open>The cuts are at edges of the rectangles \<open>P\<close>, and afterwards none of their edges is inside a piece.\<close>

definition cut_at :: "Rect list \<Rightarrow> Rect list \<Rightarrow> Rect \<Rightarrow> bool" where
  "cut_at P ps rest \<longleftrightarrow> (\<forall>q \<in> set ps. \<exists>p \<in> set P. left q \<in> edges p) \<and>
     (\<forall>p \<in> set P. \<forall>e \<in> edges p. \<forall>q \<in> set (rest # ps). \<not> inside e q)"

lemma cut_step:
  assumes p: "left p < right p" "l < right p" "l < r" and P: "\<forall>p' \<in> set P. left p' < right p' \<and> right p' \<le> left p"
    and s: "split_rtl t b l (left p) (split_rtl t b l (right p) (r, dst)) = (r1, dst1)"
  shows "\<exists>ps. dst1 = dst @ ps \<and> chain t b r ps r1 \<and> l < r1 \<and>
    (\<forall>r' qs. chain t b r1 qs r' \<longrightarrow> l < r' \<longrightarrow> cut_at P qs (rect4 l t r' b) \<longrightarrow> cut_at (p # P) (ps @ qs) (rect4 l t r' b))"
proof -
  obtain r2 dst2 where 2: "split_rtl t b l (right p) (r, dst) = (r2, dst2)" by fastforce
  obtain ps1 where a: "dst2 = dst @ ps1" "chain t b r ps1 r2" "l < r2" "right p \<le> l \<or> r2 \<le> right p" "\<forall>q \<in> set ps1. left q = right p"
    using split_rtl_chain [OF 2 p(3)] by blast
  obtain ps2 where b: "dst1 = dst2 @ ps2" "chain t b r2 ps2 r1" "l < r1" "left p \<le> l \<or> r1 \<le> left p" "\<forall>q \<in> set ps2. left q = left p"
    using split_rtl_chain [OF s [unfolded 2] a(3)] by blast
  have c: "chain t b r (ps1 @ ps2) r1" using a(2) b(2) by (auto simp: chain_append)
  have le: "r1 \<le> r2" using b(2) by (rule chain_le)
  have "cut_at (p # P) ((ps1 @ ps2) @ qs) (rect4 l t r' b)"
    if q: "chain t b r1 qs r'" "l < r'" "cut_at P qs (rect4 l t r' b)" for r' qs
  proof -
    have le': "r' \<le> r1" using q(1) by (rule chain_le)
    have low: "right u \<le> r1 \<and> l \<le> left u" if "u \<in> set (rect4 l t r' b # qs)" for u
      using that chain_piece [OF q(1)] le' q(2) by fastforce
    have old: "\<not> inside e u" if "u \<in> set (ps1 @ ps2)" "p' \<in> set (p # P)" "e \<in> edges p'" for u p' e
    proof -
      have u: "left p \<le> left u" "u \<in> set ps1 \<Longrightarrow> left u = right p" "u \<in> set ps2 \<Longrightarrow> left u = left p \<and> right u \<le> r2"
        using that(1) a(5) b(5) p(1) chain_piece [OF b(2)] by auto
      show ?thesis using that u P a(4) p(1,2) by (auto simp: inside_def)
    qed
    have new: "\<not> inside e u" if "u \<in> set (rect4 l t r' b # qs)" "e \<in> edges p" for u e
      using low [OF that(1)] that(2) a(4) b(4) le p(2) by (auto simp: inside_def)
    have "\<not> inside e u" if "u \<in> set (rect4 l t r' b # (ps1 @ ps2) @ qs)" "p' \<in> set (p # P)" "e \<in> edges p'" for u p' e
      using that old [of u p' e] new [of u e] q(3) unfolding cut_at_def by fastforce
    moreover have "\<exists>p' \<in> set (p # P). left u \<in> edges p'" if "u \<in> set ((ps1 @ ps2) @ qs)" for u
      using that a(5) b(5) q(3) by (fastforce simp: cut_at_def)
    ultimately show ?thesis unfolding cut_at_def by blast
  qed
  then show ?thesis using a(1) b(1,3) c by (intro exI [of _ "ps1 @ ps2"]) simp
qed

lemma divide_span_rtl:
  assumes "0 \<le> i" "nat i + n \<le> length dst" "l < r" "bl \<le> i"
    and "sorted_wrt (\<lambda>p p'. right p' \<le> left p) (take n (drop (nat i) dst))" "\<forall>p \<in> set (take n (drop (nat i) dst)). left p < right p"
  shows "\<exists>r' bl' ps. divide_span direction_RTL t b i n l r bl dst = Ret (l, r', bl', dst @ ps) \<and> l < r' \<and> chain t b r ps r' \<and>
    cut_at (take n (drop (nat i) dst)) ps (rect4 l t r' b) \<and> (bl' = bl \<or> i \<le> bl' \<and> bl' < i + int n \<and> (\<forall>j. i \<le> int j \<and> int j \<le> bl' \<longrightarrow> l \<le> left (dst ! j)))"
  using assms
proof (induction n arbitrary: i r bl dst)
  case 0
  then show ?case by (simp add: cut_at_def)
next
  case (Suc n)
  let ?p = "dst ! nat i" and ?P = "take n (drop (nat (i + 1)) dst)"
  have i: "nat i < length dst" "nat (i + 1) = Suc (nat i)" using Suc.prems by auto
  then have P: "take (Suc n) (drop (nat i) dst) = ?p # ?P" by (simp add: Cons_nth_drop_Suc [symmetric])
  have w: "left ?p < right ?p" and P': "\<forall>p' \<in> set ?P. left p' < right p' \<and> right p' \<le> left ?p"
    and sP: "sorted_wrt (\<lambda>p p'. right p' \<le> left p) ?P" using Suc.prems(5,6) unfolding P by auto
  show ?case
  proof (cases "right ?p \<le> l")
    case True
    then have "divide_span direction_RTL t b i (Suc n) l r bl dst = Ret (l, r, bl, dst)" using i Suc.prems by (simp add: array_read_def)
    moreover have "cut_at (?p # ?P) [] (rect4 l t r b)" using True w P' by (auto simp: cut_at_def inside_def)
    ultimately show ?thesis using Suc.prems unfolding P by auto
  next
    case False
    obtain r1 dst1 where s: "split_rtl t b l (left ?p) (split_rtl t b l (right ?p) (r, dst)) = (r1, dst1)" by fastforce
    obtain ps where ps: "dst1 = dst @ ps" "chain t b r ps r1" "l < r1"
      "\<And>r' qs. chain t b r1 qs r' \<Longrightarrow> l < r' \<Longrightarrow> cut_at ?P qs (rect4 l t r' b) \<Longrightarrow> cut_at (?p # ?P) (ps @ qs) (rect4 l t r' b)"
      using cut_step [OF w _ Suc.prems(3) P' s] False by auto
    define bl1 where "bl1 = (if left ?p \<ge> r1 then i else bl)"
    have bl: "bl1 \<le> i + 1" using Suc.prems(4) by (simp add: bl1_def)
    have d: "take n (drop (nat (i + 1)) dst1) = ?P" using ps(1) Suc.prems(2) i by simp
    obtain r' bl' qs where q: "divide_span direction_RTL t b (i + 1) n l r1 bl1 dst1 = Ret (l, r', bl', dst1 @ qs)" "l < r'"
      "chain t b r1 qs r'" "cut_at ?P qs (rect4 l t r' b)"
      "bl' = bl1 \<or> i + 1 \<le> bl' \<and> bl' < i + 1 + int n \<and> (\<forall>j. i + 1 \<le> int j \<and> int j \<le> bl' \<longrightarrow> l \<le> left (dst1 ! j))"
      using Suc.IH [of "i + 1" dst1 r1 bl1] bl Suc.prems(1,2) ps(1,3) i P' sP unfolding d by auto
    have "divide_span direction_RTL t b i (Suc n) l r bl dst = Ret (l, r', bl', dst @ ps @ qs)"
      using q(1) False s i Suc.prems(1) ps(1) by (simp add: array_read_def bl1_def)
    moreover have "chain t b r (ps @ qs) r'" using ps(2) q(3) by (auto simp: chain_append)
    moreover have "cut_at (?p # ?P) (ps @ qs) (rect4 l t r' b)" using q by (intro ps(4))
    moreover have "bl' = bl \<or> i \<le> bl' \<and> bl' < i + int (Suc n) \<and> (\<forall>j. i \<le> int j \<and> int j \<le> bl' \<longrightarrow> l \<le> left (dst ! j))"
    proof (cases "bl' = bl1")
      case True
      then show ?thesis using ps(3) Suc.prems(1) by (auto simp: bl1_def split: if_splits)
    next
      case False
      then have b: "i + 1 \<le> bl'" "bl' < i + 1 + int n"
        and j1: "\<And>j. i + 1 \<le> int j \<Longrightarrow> int j \<le> bl' \<Longrightarrow> l \<le> left (dst1 ! j)" using q(5) by auto
      have j: "l \<le> left (dst ! j)" if "i + 1 \<le> int j" "int j \<le> bl'" for j
      proof -
        have "j < length dst" using that(2) b(2) Suc.prems(1,2) by linarith
        then show ?thesis using j1 [OF that] ps(1) by (simp add: nth_append)
      qed
      have "dst ! Suc (nat i) \<in> set ?P" using b i Suc.prems(1,2) by (auto simp: in_set_conv_nth intro!: exI [of _ 0])
      then have "left (dst ! Suc (nat i)) < left ?p" using P' by fastforce
      moreover have "l \<le> left (dst ! Suc (nat i))" using b Suc.prems(1) by (intro j) simp_all
      ultimately have "l \<le> left ?p" by simp
      then have "l \<le> left (dst ! k)" if "i \<le> int k" "int k \<le> bl'" for k
        using that j [of k] Suc.prems(1) by (cases "k = nat i") auto
      then show ?thesis using b by auto
    qed
    ultimately show ?thesis using q(2) unfolding P by blast
  qed
qed

lemma chain_right:
  "chain t b r (ps @ [e]) l \<Longrightarrow> q \<in> set (ps @ [e]) \<Longrightarrow> right q = r \<or> (\<exists>q' \<in> set ps. right q = left q')"
proof (induction ps arbitrary: r)
  case (Cons p ps)
  have "right p = r" using Cons.prems(1) by (metis Rect.select_convs(3) append_Cons chain.simps(2))
  then show ?case using Cons by fastforce
next
  case Nil
  then have "e = rect4 (left e) t r b" by simp
  then have "right e = r" by (metis Rect.select_convs(3))
  then show ?case using Nil(2) by simp
qed

text \<open>All of a rectangle of the source, cut along the part of \<open>dst\<close> that was found to matter for it.\<close>

lemma divide_current:
  assumes seg: "0 \<le> bl" "el < int (length dst)" "el < bl \<or> bl < int (length dst)"
    and P: "sorted_wrt (\<lambda>p p'. right p' \<le> left p) (map (\<lambda>j. dst ! j) [nat bl..<nat (el + 1)])"
      "\<And>j. j \<in> set [nat bl..<nat (el + 1)] \<Longrightarrow> left (dst ! j) < right (dst ! j)" and lt: "l < r"
  shows "\<exists>r' bl' ps. divide_span direction_RTL t b bl (nat (el - bl + 1)) l r bl dst = Ret (l, r', bl', dst @ ps) \<and> l < r' \<and>
    chain t b r (ps @ [rect4 l t r' b]) l \<and> cut_at (map (\<lambda>j. dst ! j) [nat bl..<nat (el + 1)]) ps (rect4 l t r' b) \<and>
    bl \<le> bl' \<and> (\<forall>j. bl \<le> int j \<and> int j < bl' \<longrightarrow> l \<le> left (dst ! j))"
proof (cases "el < bl")
  case True
  then have "nat (el - bl + 1) = 0" "nat (el + 1) \<le> nat bl" using seg(1) by auto
  then show ?thesis using lt by (simp add: cut_at_def)
next
  case False
  define n where "n = nat (el - bl + 1)"
  have n: "nat bl + n \<le> length dst" "nat (el + 1) = nat bl + n" using seg False by (auto simp: n_def)
  have e: "map (\<lambda>j. dst ! j) [nat bl..<nat (el + 1)] = take n (drop (nat bl) dst)"
    using n by (intro nth_equalityI) auto
  have w: "\<forall>p \<in> set (take n (drop (nat bl) dst)). left p < right p" using P(2) unfolding e [symmetric] by simp
  obtain r' bl' ps where d: "divide_span direction_RTL t b bl n l r bl dst = Ret (l, r', bl', dst @ ps)" "l < r'" "chain t b r ps r'"
    "cut_at (take n (drop (nat bl) dst)) ps (rect4 l t r' b)"
    "bl' = bl \<or> bl \<le> bl' \<and> (\<forall>j. bl \<le> int j \<and> int j \<le> bl' \<longrightarrow> l \<le> left (dst ! j))"
    using divide_span_rtl [OF seg(1) n(1) lt order_refl P(1) [unfolded e] w] by blast
  moreover have "chain t b r (ps @ [rect4 l t r' b]) l" using d(2,3) by (auto simp: chain_append)
  ultimately show ?thesis unfolding e n_def by (metis less_imp_le linorder_not_less order_refl)
qed

section \<open>A pass from right to left\<close>

text \<open>
  What holds of the rectangles \<open>dst\<close> made from the part \<open>part\<close> of the source: the order, the points, the rows, the absence of
  T-junctions with the row below, and where the edges come from.
\<close>

definition resolved :: "Rect list \<Rightarrow> Rect list \<Rightarrow> bool" where
  "resolved part dst \<longleftrightarrow> span_ordered (rev dst) \<and> cover dst = cover part \<and>
     (\<forall>q \<in> set dst. \<exists>s \<in> set part. top q = top s \<and> bottom q = bottom s \<and> left s \<le> left q \<and> right q \<le> right s) \<and>
     (\<forall>p \<in> set dst. \<forall>q \<in> set dst. bottom q = top p \<longrightarrow> (\<forall>e \<in> edges p. \<not> inside e q)) \<and>
     (\<forall>q \<in> set dst. \<forall>e \<in> edges q. (\<exists>s \<in> set part. top s = top q \<and> e \<in> edges s) \<or> (\<exists>p \<in> set dst. top p = bottom q \<and> e \<in> edges p))"

lemma resolved_row: "resolved part dst \<Longrightarrow> q \<in> set dst \<Longrightarrow>
   \<exists>s \<in> set part. top q = top s \<and> bottom q = bottom s \<and> left s \<le> left q \<and> right q \<le> right s"
  by (auto simp: resolved_def)

lemma resolved_nonempty: "resolved part dst \<Longrightarrow> q \<in> set dst \<Longrightarrow> nonempty q"
  by (rule span_ordered_nonempty [of "rev dst"]) (auto simp: resolved_def)

lemma resolved_below:
  "resolved part dst \<Longrightarrow> p \<in> set dst \<Longrightarrow> q \<in> set dst \<Longrightarrow> bottom q = top p \<Longrightarrow> e \<in> edges p \<Longrightarrow> \<not> inside e q"
  unfolding resolved_def by blast

lemma resolved_add:
  assumes res: "resolved part dst" and cur: "nonempty c" "\<forall>s \<in> set part. follows c s"
    and ch: "chain (top c) (bottom c) (right c) (ps @ [e]) (left c)"
    and e: "left e = left c"
    and below: "\<And>p. p \<in> set dst \<Longrightarrow> top p = bottom c \<Longrightarrow> p \<in> set P \<or> right c \<le> left p"
    and P: "set P \<subseteq> set dst" "\<forall>p \<in> set P. top p = bottom c" "cut_at P ps e"
  shows "resolved (c # part) (dst @ ps @ [e])"
proof -
  let ?new = "ps @ [e]"
  have new: "top q = top c \<and> bottom q = bottom c \<and> left q < right q \<and> left c \<le> left q \<and> right q \<le> right c" if "q \<in> set ?new" for q
    using chain_piece [OF ch that] by simp
  have c: "top c < bottom c" using cur(1) by (simp add: nonempty_def)
  have old: "follows c p" "nonempty p" if p: "p \<in> set dst" for p
  proof -
    obtain s where "s \<in> set part" "top p = top s" "bottom p = bottom s" "left s \<le> left p" using resolved_row [OF res p] by auto
    then show "follows c p" using cur(2) by (fastforce simp: follows_def)
    show "nonempty p" using res p by (rule resolved_nonempty)
  qed
  have lower: "top c < top p \<or> top p = top c" "top c < bottom p" if "p \<in> set dst" for p
    using old [OF that] c by (auto simp: follows_def nonempty_def)
  have "span_ordered (rev (dst @ ?new))"
  proof -
    have "follows q p" if "q \<in> set ?new" "p \<in> set dst" for q p
      using new [OF that(1)] old(1) [OF that(2)] by (auto simp: follows_def)
    then show ?thesis using res chain_ordered [OF ch c] by (auto simp: resolved_def span_ordered_append span_ordered_Cons)
  qed
  moreover have "cover (dst @ ?new) = cover (c # part)"
    using res chain_covers [OF ch] by (auto simp: resolved_def fun_eq_iff covers_def)
  moreover have "\<exists>s \<in> set (c # part). top q = top s \<and> bottom q = bottom s \<and> left s \<le> left q \<and> right q \<le> right s" if "q \<in> set (dst @ ?new)" for q
    using that new [of q] resolved_row [OF res, of q] by fastforce
  moreover have "\<not> inside x q" if pq: "p \<in> set (dst @ ?new)" "q \<in> set (dst @ ?new)" "bottom q = top p" "x \<in> edges p" for p q x
  proof (cases "q \<in> set dst")
    case True
    then have "p \<in> set dst" using pq new [of p] lower(2) [of q] by fastforce
    then show ?thesis using True res pq(3,4) by (intro resolved_below)
  next
    case False
    then have q: "q \<in> set ?new" using pq(2) by auto
    then have "p \<in> set dst" using pq(1,3) new [of p] new [of q] c by fastforce
    then have "p \<in> set P \<or> right c \<le> left p" "left p < right p" using below [of p] pq(3) new [OF q] old(2) [of p] by (auto simp: nonempty_def)
    then show ?thesis using P(3) pq(4) q new [OF q] by (fastforce simp: cut_at_def inside_def)
  qed
  moreover have "(\<exists>s \<in> set (c # part). top s = top q \<and> x \<in> edges s) \<or> (\<exists>p \<in> set (dst @ ?new). top p = bottom q \<and> x \<in> edges p)"
    if q: "q \<in> set (dst @ ?new)" "x \<in> edges q" for q x
  proof (cases "q \<in> set dst")
    case True
    then show ?thesis using res q(2) by (fastforce simp: resolved_def)
  next
    case False
    then have n: "q \<in> set ?new" using q(1) by auto
    have cut: "\<exists>p \<in> set dst. top p = bottom c \<and> left q' \<in> edges p" if "q' \<in> set ps" for q'
      using that P by (fastforce simp: cut_at_def)
    consider "x = left c" | "x = right c" | q' where "q' \<in> set ps" "x = left q'"
      using q(2) n chain_right [OF ch n] e by auto
    then show ?thesis using new [OF n] cut by cases fastforce+
  qed
  ultimately show ?thesis unfolding resolved_def by simp
qed

text \<open>The edges and rows of the pieces are those of the source, which bounds their number.\<close>

definition grid :: "int set \<Rightarrow> int set \<Rightarrow> Rect list \<Rightarrow> bool" where
  "grid X T rs \<longleftrightarrow> (\<forall>r \<in> set rs. edges r \<subseteq> X \<and> top r \<in> T)"

lemma grid_length:
  assumes so: "span_ordered rs" and g: "grid X T rs" and f: "finite X" "finite T"
  shows "length rs \<le> card X * card T"
proof -
  have s: "sorted_wrt follows rs" using so by (simp add: span_ordered_def)
  have ne: "\<not> follows r r" if "nonempty r" for r using that unfolding follows_def nonempty_def by arith
  have d: "distinct rs"
    unfolding distinct_conv_nth
  proof (intro allI impI)
    fix i j assume "i < length rs" "j < length rs" "i \<noteq> j"
    then have "follows (rs ! i) (rs ! j) \<or> follows (rs ! j) (rs ! i)" using s by (cases i j rule: linorder_cases) (auto simp: sorted_wrt_iff_nth_less)
    moreover have "nonempty (rs ! i)" using so \<open>i < length rs\<close> by (simp add: span_ordered_def list_all_length)
    ultimately show "rs ! i \<noteq> rs ! j" using ne [of "rs ! i"] by auto
  qed
  have "inj_on (\<lambda>r. (left r, top r)) (set rs)"
  proof (rule inj_onI)
    fix a b assume ab: "a \<in> set rs" "b \<in> set rs" "(left a, top a) = (left b, top b)"
    show "a = b"
    proof (rule ccontr)
      assume "a \<noteq> b"
      then have "follows a b \<or> follows b a" using span_ordered_comparable [OF so ab(1,2)] by simp
      moreover have "left a = left b" "top a = top b" using ab(3) by simp_all
      ultimately show False
        using span_ordered_nonempty [OF so ab(1)] span_ordered_nonempty [OF so ab(2)] unfolding follows_def nonempty_def by arith
    qed
  qed
  moreover have "(\<lambda>r. (left r, top r)) ` set rs \<subseteq> X \<times> T" using g by (auto simp: grid_def)
  ultimately have "card (set rs) \<le> card (X \<times> T)" using f by (metis card_inj_on_le finite_cartesian_product)
  then show ?thesis using d by (simp add: distinct_card card_cartesian_product)
qed

lemma grid_add:
  assumes g: "grid X T dst" and c: "edges c \<subseteq> X" "top c \<in> T"
    and ch: "chain (top c) (bottom c) (right c) (ps @ [e]) (left c)" "left e = left c" and P: "set P \<subseteq> set dst" "cut_at P ps e"
  shows "grid X T (dst @ ps @ [e])"
proof -
  have l: "left q \<in> X" if "q \<in> set (ps @ [e])" for q
    using that P g c(1) ch(2) by (fastforce simp: cut_at_def grid_def)
  moreover have "right q \<in> X" if q: "q \<in> set (ps @ [e])" for q using chain_right [OF ch(1) q] l c(1) by auto
  moreover have "top q = top c" if "q \<in> set (ps @ [e])" for q using chain_piece [OF ch(1) that] by simp
  ultimately show ?thesis using g c(2) unfolding grid_def by (metis Un_iff empty_subsetI insert_subset set_append)
qed

text \<open>The variables of the loop when the rectangles from \<open>k\<close> on have been done.\<close>

definition span_vars :: "Rect list \<Rightarrow> nat \<Rightarrow> Rect list \<Rightarrow> int \<times> int \<times> int \<times> int \<Rightarrow> bool" where
  "span_vars src k dst = (\<lambda>(bl, el, t, b).
     - 1 \<le> el \<and> (\<forall>j < length dst. el < int j \<longleftrightarrow> top (dst ! j) = top (src ! k)) \<and>
     (0 < k \<and> top (src ! (k - 1)) = top (src ! k) \<longrightarrow>
        t = top (src ! k) \<and> b = bottom (src ! k) \<and> 0 \<le> bl \<and> el < int (length dst) \<and>
        (\<forall>j < length dst. bl \<le> int j \<and> int j \<le> el \<longrightarrow> top (dst ! j) = b) \<and>
        (\<forall>j < length dst. int j < bl \<and> top (dst ! j) = b \<longrightarrow> left (src ! k) \<le> left (dst ! j))))"

text \<open>The variables as \<open>new_span\<close> leaves them for the rectangle \<open>c\<close>.\<close>

definition current_vars :: "Rect \<Rightarrow> Rect list \<Rightarrow> int \<times> int \<times> int \<times> int \<Rightarrow> bool" where
  "current_vars c dst = (\<lambda>(bl, el, t, b).
     - 1 \<le> el \<and> el < int (length dst) \<and> t = top c \<and> b = bottom c \<and> 0 \<le> bl \<and> (el < bl \<or> bl < int (length dst)) \<and>
     (\<forall>j < length dst. el < int j \<longleftrightarrow> top (dst ! j) = top c) \<and>
     (\<forall>j < length dst. bl \<le> int j \<and> int j \<le> el \<longrightarrow> top (dst ! j) = b) \<and>
     (\<forall>j < length dst. int j < bl \<and> top (dst ! j) = b \<longrightarrow> right c \<le> left (dst ! j)))"

lemma new_span_vars:
  assumes so: "span_ordered src" and k: "Suc k < length src" and res: "resolved (drop (Suc k) src) dst"
    and v: "span_vars src (Suc k) dst vars" and len: "int (length dst) \<le> INT32_MAX"
  shows "current_vars (src ! k) dst (new_span direction_RTL (src ! k) (src ! Suc k) dst vars)"
proof -
  obtain bl el t b where vars: "vars = (bl, el, t, b)" by (cases vars) auto
  let ?c = "src ! k" and ?n = "src ! Suc k"
  have f: "follows ?c ?n" and n: "nonempty ?c" "nonempty ?n"
    using so k by (auto simp: span_ordered_def sorted_wrt_iff_nth_less list_all_length)
  have rows: "top ?n \<le> top p \<and> (top p = top ?n \<or> bottom ?n \<le> top p)" if "p \<in> set dst" for p
  proof -
    obtain s where s: "s \<in> set (drop (Suc k) src)" "top p = top s" using resolved_row [OF res \<open>p \<in> set dst\<close>] by auto
    then obtain i where "i < length src - Suc k" "s = src ! (Suc k + i)" by (auto simp: in_set_conv_nth)
    then have "s = ?n \<or> follows ?n s" using so k by (cases "i = 0") (auto simp: span_ordered_def sorted_wrt_iff_nth_less)
    then show ?thesis using s(2) n(2) by (auto simp: follows_def nonempty_def)
  qed
  show ?thesis
  proof (cases "top ?c = top ?n")
    case True
    then have lr: "right ?c \<le> left ?n" "bottom ?c = bottom ?n" using f n by (auto simp: follows_def nonempty_def)
    have v': "t = top ?n" "b = bottom ?n" "0 \<le> bl" "- 1 \<le> el" "el < int (length dst)"
      "\<forall>j < length dst. el < int j \<longleftrightarrow> top (dst ! j) = top ?n"
      "\<forall>j < length dst. bl \<le> int j \<and> int j \<le> el \<longrightarrow> top (dst ! j) = b"
      "\<forall>j < length dst. int j < bl \<and> top (dst ! j) = b \<longrightarrow> left ?n \<le> left (dst ! j)"
      using v True by (auto simp: span_vars_def vars)
    then show ?thesis using True lr by (fastforce simp: new_span_def vars current_vars_def)
  next
    case False
    then have le: "bottom ?c \<le> top ?n" using f by (auto simp: follows_def)
    have el: "- 1 \<le> el" "\<forall>j < length dst. el < int j \<longleftrightarrow> top (dst ! j) = top ?n" using v by (auto simp: span_vars_def vars)
    have up: "top ?c < top p" if "p \<in> set dst" for p using rows [OF that] le n(1) by (auto simp: nonempty_def)
    have far: "bottom ?c \<noteq> top p" if "p \<in> set dst" "bottom ?c \<noteq> top ?n" for p using rows [OF that(1)] that(2) le by auto
    show ?thesis
      using False el up far len nth_mem [of _ dst] unfolding new_span_def vars current_vars_def
      by (auto simp: nonempty_def) (metis less_irrefl nth_mem)+
  qed
qed

lemma current_segment:
  assumes res: "resolved part dst" and v: "current_vars c dst (bl, el, t, b)"
  shows "sorted_wrt (\<lambda>p p'. right p' \<le> left p) (map (\<lambda>j. dst ! j) [nat bl..<nat (el + 1)])"
    and "\<And>j. j \<in> set [nat bl..<nat (el + 1)] \<Longrightarrow> left (dst ! j) < right (dst ! j)"
proof -
  have el: "el < int (length dst)" "- 1 \<le> el" "0 \<le> bl" and row: "\<And>j. j < length dst \<Longrightarrow> bl \<le> int j \<Longrightarrow> int j \<le> el \<Longrightarrow> top (dst ! j) = b"
    using v by (auto simp: current_vars_def)
  have n: "nonempty (dst ! j)" if "j < length dst" for j using resolved_nonempty [OF res] that by simp
  have "sorted_wrt (\<lambda>p p'. follows p' p) dst" using res by (simp add: resolved_def span_ordered_def sorted_wrt_rev)
  then have s: "follows (dst ! j) (dst ! i)" if "i < j" "j < length dst" for i j
    using that by (simp add: sorted_wrt_iff_nth_less)
  have "right (dst ! j) \<le> left (dst ! i)" if "i < j" "nat bl \<le> i" "j < nat (el + 1)" for i j
  proof -
    have j: "j < length dst" "i < length dst" using that el by auto
    have "top (dst ! i) = b" "top (dst ! j) = b" using that el j by (auto intro!: row)
    then show ?thesis using s [OF that(1) j(1)] n [OF j(1)] by (auto simp: follows_def nonempty_def)
  qed
  then show "sorted_wrt (\<lambda>p p'. right p' \<le> left p) (map (\<lambda>j. dst ! j) [nat bl..<nat (el + 1)])"
    by (auto simp: sorted_wrt_iff_nth_less)
  show "left (dst ! j) < right (dst ! j)" if "j \<in> set [nat bl..<nat (el + 1)]" for j
    using that el n [of j] by (auto simp: nonempty_def)
qed

lemma resolve_step:
  assumes so: "span_ordered src" and k: "Suc k < length src" and res: "resolved (drop (Suc k) src) dst"
    and v: "span_vars src (Suc k) dst vars" and len: "int (length dst) \<le> INT32_MAX" and g: "grid X T src" "grid X T dst"
  shows "\<exists>vars' dst'. resolve_spans direction_RTL src (Suc k) vars dst = resolve_spans direction_RTL src k vars' dst' \<and>
    resolved (drop k src) dst' \<and> span_vars src k dst' vars' \<and> grid X T dst'"
proof -
  let ?c = "src ! k"
  obtain bl el t b where w: "new_span direction_RTL ?c (src ! Suc k) dst vars = (bl, el, t, b)" by (metis prod_cases4)
  have cv: "current_vars ?c dst (bl, el, t, b)" using new_span_vars [OF so k res v len] w by simp
  then have tb: "t = top ?c" "b = bottom ?c" and el: "0 \<le> bl" "el < int (length dst)" "el < bl \<or> bl < int (length dst)" "- 1 \<le> el"
    and vr: "\<And>j. j < length dst \<Longrightarrow> el < int j \<longleftrightarrow> top (dst ! j) = top ?c"
      "\<And>j. j < length dst \<Longrightarrow> bl \<le> int j \<Longrightarrow> int j \<le> el \<Longrightarrow> top (dst ! j) = bottom ?c"
      "\<And>j. j < length dst \<Longrightarrow> int j < bl \<Longrightarrow> top (dst ! j) = bottom ?c \<Longrightarrow> right ?c \<le> left (dst ! j)"
    by (auto simp: current_vars_def)
  have c: "nonempty ?c" "?c \<in> set src" using so k by (auto simp: span_ordered_def list_all_length)
  let ?P = "map (\<lambda>j. dst ! j) [nat bl..<nat (el + 1)]"
  obtain r' bl' ps where d: "divide_span direction_RTL t b bl (nat (el - bl + 1)) (left ?c) (right ?c) bl dst = Ret (left ?c, r', bl', dst @ ps)"
    "left ?c < r'" "chain t b (right ?c) (ps @ [rect4 (left ?c) t r' b]) (left ?c)" "cut_at ?P ps (rect4 (left ?c) t r' b)" "bl \<le> bl'"
    "\<And>j. bl \<le> int j \<Longrightarrow> int j < bl' \<Longrightarrow> left ?c \<le> left (dst ! j)"
    using divide_current [OF el(1-3) current_segment [OF res cv]] c(1) by (metis nonempty_def)
  define dst' where "dst' = dst @ ps @ [rect4 (left ?c) t r' b]"
  have "resolve_spans direction_RTL src (Suc k) vars dst = resolve_spans direction_RTL src k (bl', el, t, b) dst'"
    using k w d(1,2) by (simp add: array_read_def dst'_def)
  moreover have part: "drop k src = ?c # drop (Suc k) src" using k by (simp add: Cons_nth_drop_Suc)
  have inP: "j \<in> set [nat bl..<nat (el + 1)] \<longleftrightarrow> bl \<le> int j \<and> int j \<le> el" for j using el by auto
  have "resolved (?c # drop (Suc k) src) dst'"
    unfolding dst'_def
  proof (rule resolved_add [OF res c(1)])
    show "\<forall>s \<in> set (drop (Suc k) src). follows ?c s"
      using so k by (auto simp: span_ordered_def sorted_wrt_iff_nth_less in_set_conv_nth)
    show "chain (top ?c) (bottom ?c) (right ?c) (ps @ [rect4 (left ?c) t r' b]) (left ?c)" using d(3) tb by simp
    show "set ?P \<subseteq> set dst" using el by auto
    show "\<forall>p \<in> set ?P. top p = bottom ?c" using vr(2) el inP by auto
    show "cut_at ?P ps (rect4 (left ?c) t r' b)" by (fact d(4))
    show "p \<in> set ?P \<or> right ?c \<le> left p" if p: "p \<in> set dst" "top p = bottom ?c" for p
    proof -
      obtain j where j: "j < length dst" "p = dst ! j" using p(1) by (auto simp: in_set_conv_nth)
      have "top p \<noteq> top ?c" using p(2) c(1) by (simp add: nonempty_def)
      then have "int j \<le> el" using vr(1) j by force
      then show ?thesis using vr(3) j p(2) inP by (cases "int j < bl") auto
    qed
  qed simp
  then have "resolved (drop k src) dst'" using part by simp
  moreover have "span_vars src k dst' (bl', el, t, b)"
  proof -
    have new: "top q = top ?c" if "q \<in> set (ps @ [rect4 (left ?c) t r' b])" for q using chain_piece [OF d(3) that] tb by simp
    have old: "dst' ! j = dst ! j" if "int j \<le> el" for j using that el by (simp add: dst'_def nth_append)
    have old': "dst' ! j = dst ! j" if "j < length dst" for j using that by (simp add: dst'_def nth_append)
    have later: "top (dst' ! j) = top ?c" if "j < length dst'" "\<not> j < length dst" for j
      using that nth_mem [of "j - length dst" "ps @ [rect4 (left ?c) t r' b]"] by (intro new) (auto simp: dst'_def nth_append)
    have tops: "el < int j \<longleftrightarrow> top (dst' ! j) = top ?c" if "j < length dst'" for j
      using that vr(1) [of j] el later [of j] old' [of j] by (cases "j < length dst") auto
    have skip: "left ?c \<le> left (dst' ! j)" if j: "j < length dst'" "int j < bl'" "top (dst' ! j) = bottom ?c" for j
    proof -
      have "\<not> el < int j" using tops [OF j(1)] j(3) c(1) by (simp add: nonempty_def)
      then have "j < length dst" "dst' ! j = dst ! j" using el old by auto
      then show ?thesis using vr(3) [of j] d(6) [of j] j c(1) by (cases "int j < bl") (auto simp: nonempty_def)
    qed
    have "top (dst' ! j) = bottom ?c" if "bl' \<le> int j" "int j \<le> el" for j
      using that vr(2) [of j] d(5) el old by simp
    moreover have "el < int (length dst')" using el(2) by (simp add: dst'_def)
    ultimately show ?thesis using tops skip tb el(1,4) d(5) by (auto simp: span_vars_def)
  qed
  moreover have "grid X T dst'"
    unfolding dst'_def using d(3,4) tb g c(2) el by (intro grid_add [where c = ?c and P = ?P]) (auto simp: grid_def)
  ultimately show ?thesis by blast
qed

lemma resolve_spans_rtl:
  assumes so: "span_ordered src" and g: "grid X T src" and X: "finite X" "finite T" "int (card X * card T) \<le> INT32_MAX"
  shows "k < length src \<Longrightarrow> resolved (drop k src) dst \<Longrightarrow> span_vars src k dst vars \<Longrightarrow> grid X T dst \<Longrightarrow>
    \<exists>dst'. resolve_spans direction_RTL src k vars dst = Ret dst' \<and> resolved src dst' \<and> grid X T dst'"
proof (induction k arbitrary: dst vars)
  case (Suc k)
  have "length dst \<le> card X * card T"
    using grid_length [of "rev dst" X T] Suc.prems(2,4) X by (auto simp: resolved_def grid_def)
  then have "int (length dst) \<le> INT32_MAX" using X(3) by linarith
  then obtain vars' dst' where "resolve_spans direction_RTL src (Suc k) vars dst = resolve_spans direction_RTL src k vars' dst'"
    "resolved (drop k src) dst'" "span_vars src k dst' vars'" "grid X T dst'"
    using resolve_step [OF so Suc.prems(1-3) _ g Suc.prems(4)] by blast
  then show ?case using Suc.IH [of dst' vars'] Suc.prems(1) by simp
qed simp

lemma first_span_rtl:
  assumes k: "k \<le> length src" "\<exists>i < k. top (src ! i) \<noteq> t"
  shows "0 < k \<Longrightarrow> top (src ! (k - 1)) = t \<Longrightarrow> \<exists>m. first_span src t k dst = Ret (m, dst @ rev (take (k - m) (drop m src))) \<and>
    0 < m \<and> m < k \<and> top (src ! (m - 1)) \<noteq> t \<and> (\<forall>i. m \<le> i \<and> i < k \<longrightarrow> top (src ! i) = t)"
  using k
proof (induction k arbitrary: dst)
  case (Suc k)
  have k: "0 < k" using Suc.prems by (metis One_nat_def diff_Suc_1 gr0I less_Suc0)
  show ?case
  proof (cases "top (src ! (k - 1)) = t")
    case True
    have "\<exists>i < k. top (src ! i) \<noteq> t" using Suc.prems by (metis One_nat_def diff_Suc_1 less_SucE)
    then obtain m where m: "first_span src t k (dst @ [src ! k]) = Ret (m, (dst @ [src ! k]) @ rev (take (k - m) (drop m src)))"
      "0 < m" "m < k" "top (src ! (m - 1)) \<noteq> t" "\<forall>i. m \<le> i \<and> i < k \<longrightarrow> top (src ! i) = t"
      using Suc.IH [OF k True, of "dst @ [src ! k]"] Suc.prems by auto
    have "take (Suc k - m) (drop m src) = take (k - m) (drop m src) @ [src ! k]"
      using m(3) Suc.prems(3) by (simp add: Suc_diff_le take_Suc_conv_app_nth)
    then show ?thesis using m k True Suc.prems by (intro exI [of _ m]) (auto simp: array_read_def less_Suc_eq)
  next
    case False
    then show ?thesis using k Suc.prems by (intro exI [of _ k]) (auto simp: array_read_def less_Suc_eq take_Suc_conv_app_nth hd_drop_conv_nth)
  qed
qed simp

lemma resolved_start:
  assumes so: "span_ordered part" and row: "\<forall>s \<in> set part. top s = t"
  shows "resolved part (rev part)"
proof -
  have n: "bottom q \<noteq> top p" if "p \<in> set part" "q \<in> set part" for p q
    using that row span_ordered_nonempty [OF so, of q] by (auto simp: nonempty_def)
  have "cover (rev part) = cover part" by (simp add: fun_eq_iff cover_iff)
  then show ?thesis unfolding resolved_def using so n by (intro conjI ballI impI) (auto intro: bexI)
qed

text \<open>One pass over rectangles of more than one row.\<close>

lemma pass_rtl:
  assumes so: "span_ordered src" and g: "grid X T src" and X: "finite X" "finite T" "int (card X * card T) \<le> INT32_MAX"
    and rows: "\<exists>s \<in> set src. top s \<noteq> top (last src)"
  shows "\<exists>dst. reverseRectsResolvingJunctions direction_RTL src = Ret dst \<and> resolved src dst \<and> grid X T dst"
proof -
  let ?t = "top (last src)"
  have ne: "src \<noteq> []" using rows by auto
  obtain m where m: "first_span src ?t (length src) [] = Ret (m, rev (drop m src))" "0 < m" "m < length src" "top (src ! (m - 1)) \<noteq> ?t"
    "\<forall>i. m \<le> i \<and> i < length src \<longrightarrow> top (src ! i) = ?t"
  proof -
    have "\<exists>i < length src. top (src ! i) \<noteq> ?t" using rows by (metis in_set_conv_nth)
    moreover have "top (src ! (length src - 1)) = ?t" using ne by (simp add: last_conv_nth)
    ultimately obtain m where "first_span src ?t (length src) [] = Ret (m, [] @ rev (take (length src - m) (drop m src)))" "0 < m"
      "m < length src" "top (src ! (m - 1)) \<noteq> ?t" "\<forall>i. m \<le> i \<and> i < length src \<longrightarrow> top (src ! i) = ?t"
      using first_span_rtl [OF order_refl, of src ?t "[]"] ne by blast
    then show ?thesis by (intro that [of m]) simp_all
  qed
  have so': "span_ordered (drop m src)" using so by (metis append_take_drop_id span_ordered_append)
  have t: "\<forall>s \<in> set (drop m src). top s = ?t" using m(5) by (auto simp: in_set_conv_nth)
  have res: "resolved (drop m src) (rev (drop m src))" using so' t by (rule resolved_start)
  have v: "span_vars src m (rev (drop m src)) (- 1, - 1, - 1, - 1)"
  proof -
    have "top (rev (drop m src) ! j) = top (src ! m)" if "j < length (rev (drop m src))" for j
      using t m(3,5) nth_mem [OF that] by simp
    then show ?thesis using m(3,4,5) by (simp add: span_vars_def)
  qed
  have "grid X T (rev (drop m src))" using g by (auto simp: grid_def dest: in_set_dropD)
  then show ?thesis
    using resolve_spans_rtl [OF so g X m(3) res v] ne m(1) by (simp add: reverseRectsResolvingJunctions_def array_read_def last_conv_nth)
qed

section \<open>The pass from left to right\<close>

text \<open>The picture turned by 180 degrees.\<close>

definition turn :: "Rect \<Rightarrow> Rect" where
  "turn r = rect4 (- right r) (- bottom r) (- left r) (- top r)"

lemma turn_simps [simp]:
  "left (turn r) = - right r" "top (turn r) = - bottom r" "right (turn r) = - left r" "bottom (turn r) = - top r"
  "turn (rect4 l t r' b) = rect4 (- r') (- b) (- l) (- t)"
  by (simp_all add: turn_def)

lemma turn_turn [simp]: "turn (turn r) = r" "turn \<circ> turn = id"
  by (auto simp: turn_def)

lemma follows_turn: "follows (turn a) (turn b) \<longleftrightarrow> follows b a"
  by (auto simp: follows_def)

lemma span_ordered_turn: "span_ordered (map turn rs) \<longleftrightarrow> span_ordered (rev rs)"
  by (auto simp: span_ordered_def sorted_wrt_map sorted_wrt_rev follows_turn list_all_iff nonempty_def)

definition mapE :: "('a \<Rightarrow> 'b) \<Rightarrow> 'a exec \<Rightarrow> 'b exec" where
  "mapE f x = bindE x (\<lambda>v. Ret (f v))"

lemma mapE_simps [simp]: "mapE f (Ret v) = Ret (f v)" "mapE f Fault = Fault" "mapE f AssertFail = AssertFail"
  "mapE f (bindE x k) = bindE x (\<lambda>v. mapE f (k v))"
  by (simp_all add: mapE_def bindE_assoc)

lemma array_read_turn: "array_read (map turn xs) i = bindE (array_read xs i) (\<lambda>r. Ret (turn r))"
  by (simp add: array_read_def)

lemma split_turn:
  "split_ltr (- b) (- t) (- l) (- e) (- r, map turn dst) = (\<lambda>(r, dst). (- r, map turn dst)) (split_rtl t b l e (r, dst))"
  by (simp add: split_ltr_def split_rtl_def)

lemma divide_span_turn:
  "divide_span direction_LTR (- b) (- t) i n (- r) (- l) bl (map turn dst) =
   mapE (\<lambda>(l, r, bl, dst). (- r, - l, bl, map turn dst)) (divide_span direction_RTL t b i n l r bl dst)"
proof (induction n arbitrary: i r bl dst)
  case (Suc n)
  show ?case
  proof (cases "0 \<le> i \<and> nat i < length dst")
    case True
    let ?p = "dst ! nat i"
    obtain r1 dst1 where 1: "split_rtl t b l (right ?p) (r, dst) = (r1, dst1)" by fastforce
    obtain r2 dst2 where 2: "split_rtl t b l (left ?p) (r1, dst1) = (r2, dst2)" by fastforce
    show ?thesis
      using True split_turn [of b t l "right ?p" r dst] split_turn [of b t l "left ?p" r1 dst1]
        Suc.IH [of "i + 1" r2 _ dst2] by (simp add: array_read_def 1 2)
  qed (auto simp: array_read_def)
qed simp

text \<open>Rows are told apart by their upper edges as well as by their lower ones.\<close>

lemma same_row_iff:
  assumes "span_ordered rs" "a \<in> set rs" "b \<in> set rs"
  shows "bottom a = bottom b \<longleftrightarrow> top a = top b"
proof (cases "a = b")
  case False
  then have "follows a b \<or> follows b a" using span_ordered_comparable [OF assms] by simp
  then show ?thesis
    using span_ordered_nonempty [OF assms(1,2)] span_ordered_nonempty [OF assms(1,3)] unfolding follows_def nonempty_def by arith
qed simp

lemma first_span_turn:
  assumes so: "span_ordered src" and a: "a \<in> set src"
  shows "k \<le> length src \<Longrightarrow>
    first_span (map turn src) (- bottom a) k (map turn dst) = mapE (\<lambda>(k, dst). (k, map turn dst)) (first_span src (top a) k dst)"
proof (induction k arbitrary: dst)
  case (Suc k)
  have "bottom (src ! (k - 1)) = bottom a \<longleftrightarrow> top (src ! (k - 1)) = top a" using Suc.prems by (intro same_row_iff [OF so _ a]) simp
  then show ?case using Suc.IH [of "dst @ [src ! k]"] Suc.prems by (auto simp: array_read_def Let_def)
qed simp

lemma new_span_turn:
  assumes "bottom c = bottom n \<longleftrightarrow> top c = top n"
  shows "new_span direction_LTR (turn c) (turn n) (map turn dst) (bl, el, - b, - t) =
    (\<lambda>(bl, el, t, b). (bl, el, - b, - t)) (new_span direction_RTL c n dst (bl, el, t, b))"
  using assms by (simp add: new_span_def)

lemma resolve_spans_turn:
  assumes so: "span_ordered src"
  shows "k < length src \<Longrightarrow> resolve_spans direction_LTR (map turn src) k (bl, el, - b, - t) (map turn dst) =
    mapE (map turn) (resolve_spans direction_RTL src k (bl, el, t, b) dst)"
proof (induction k arbitrary: bl el t b dst)
  case (Suc k)
  obtain bl' el' t' b' where n: "new_span direction_RTL (src ! k) (src ! Suc k) dst (bl, el, t, b) = (bl', el', t', b')" by (metis prod_cases4)
  have "bottom (src ! k) = bottom (src ! Suc k) \<longleftrightarrow> top (src ! k) = top (src ! Suc k)" using Suc.prems by (intro same_row_iff [OF so]) simp_all
  note nt = new_span_turn [OF this, of dst bl el b t, unfolded n]
  note dt = divide_span_turn [of b' t' bl' "nat (el' - bl' + 1)" "right (src ! k)" "left (src ! k)" bl' dst]
  show ?case
  proof (cases "divide_span direction_RTL t' b' bl' (nat (el' - bl' + 1)) (left (src ! k)) (right (src ! k)) bl' dst")
    case (Ret v)
    obtain l r bl2 d where v: "v = (l, r, bl2, d)" by (metis prod_cases4)
    have ih: "resolve_spans direction_LTR (map turn src) k (bl2, el', - b', - t') (map turn d') =
      mapE (map turn) (resolve_spans direction_RTL src k (bl2, el', t', b') d')" for d' using Suc by simp
    show ?thesis
      using Suc.prems nt dt ih [of d] ih [of "d @ [rect4 l t' r b']"] by (simp add: array_read_def n Ret v)
  qed (use Suc.prems nt dt in \<open>simp_all add: array_read_def n\<close>)
qed simp

lemma fresh_vars:
  assumes "0 < k" "k < length src" "top (src ! (k - 1)) \<noteq> top (src ! k)"
  shows "resolve_spans dir src k (bl, el, t, b) dst = resolve_spans dir src k (bl, el, t', b') dst"
proof -
  obtain m where m: "k = Suc m" using assms(1) by (cases k) auto
  then have "new_span dir (src ! m) (src ! Suc m) dst (bl, el, t, b) = new_span dir (src ! m) (src ! Suc m) dst (bl, el, t', b')"
    using assms(3) by (simp add: new_span_def)
  then show ?thesis using assms(2) by (simp add: m array_read_def)
qed

lemma reverse_turn:
  assumes so: "span_ordered src" and rows: "\<exists>s \<in> set src. top s \<noteq> top (last src)"
  shows "reverseRectsResolvingJunctions direction_LTR (map turn src) = mapE (map turn) (reverseRectsResolvingJunctions direction_RTL src)"
proof -
  have ne: "src \<noteq> []" using rows by auto
  have "\<exists>i < length src. top (src ! i) \<noteq> top (last src)" using rows by (metis in_set_conv_nth)
  moreover have l: "src ! (length src - 1) = last src" using ne by (simp add: last_conv_nth)
  ultimately obtain m where f: "first_span src (top (last src)) (length src) [] = Ret (m, [] @ rev (take (length src - m) (drop m src)))"
    and m: "0 < m" "m < length src" "top (src ! (m - 1)) \<noteq> top (last src)" "\<forall>i. m \<le> i \<and> i < length src \<longrightarrow> top (src ! i) = top (last src)"
    using first_span_rtl [OF order_refl, of src "top (last src)" "[]"] ne by auto
  have d: "top (src ! (m - 1)) \<noteq> top (src ! m)" using m by simp
  then have "bottom (src ! (m - 1)) \<noteq> bottom (src ! m)" using same_row_iff [OF so] m(1,2) by simp
  then have "resolve_spans direction_LTR (map turn src) m (- 1, - 1, - 1, - 1) (map turn (rev (drop m src))) =
      resolve_spans direction_LTR (map turn src) m (- 1, - 1, - (- 1), - (- 1)) (map turn (rev (drop m src)))"
    using m(1,2) by (intro fresh_vars) auto
  then show ?thesis
    using ne l f first_span_turn [OF so last_in_set [OF ne] order_refl, of "[]"] resolve_spans_turn [OF so m(2), of "- 1" "- 1" "- 1" "- 1" "rev (drop m src)"]
    by (simp add: reverseRectsResolvingJunctions_def array_read_def)
qed

lemma pass_ltr:
  assumes so: "span_ordered (rev src)" and rows: "\<exists>s \<in> set src. top s \<noteq> top (last src)"
    and g: "grid X T (map turn src)" and X: "finite X" "finite T" "int (card X * card T) \<le> INT32_MAX"
  shows "\<exists>dst. reverseRectsResolvingJunctions direction_LTR src = Ret (map turn dst) \<and> resolved (map turn src) dst"
proof -
  have so': "span_ordered (map turn src)" using so by (simp add: span_ordered_turn)
  have ne: "src \<noteq> []" using rows by auto
  obtain s where s: "s \<in> set src" "top s \<noteq> top (last src)" using rows by blast
  then have "bottom s \<noteq> bottom (last src)" using same_row_iff [OF so, of s "last src"] ne by simp
  then have r: "\<exists>s \<in> set (map turn src). top s \<noteq> top (last (map turn src))" using s(1) ne by (auto simp: last_map)
  obtain dst where "reverseRectsResolvingJunctions direction_RTL (map turn src) = Ret dst" "resolved (map turn src) dst"
    using pass_rtl [OF so' g X r] by blast
  then show ?thesis using reverse_turn [OF so' r] by auto
qed

section \<open>Regions without T-junctions\<close>

definition junction_free :: "Rect list \<Rightarrow> bool" where
  "junction_free rs \<longleftrightarrow> (\<forall>q \<in> set rs. \<forall>p \<in> set rs. bottom q = top p \<longrightarrow>
     (\<forall>e \<in> edges p. \<not> inside e q) \<and> (\<forall>e \<in> edges q. \<not> inside e p))"

lemma edges_turn: "e \<in> edges (turn r) \<longleftrightarrow> - e \<in> edges r"
  by auto

lemma inside_turn: "inside e (turn r) \<longleftrightarrow> inside (- e) r"
  by (auto simp: inside_def)

lemma two_passes:
  assumes 1: "resolved rs reversed" and 2: "resolved (map turn reversed) dst"
  shows "span_ordered (map turn dst)" "cover (map turn dst) = cover rs" "junction_free (map turn dst)"
proof -
  let ?out = "map turn dst"
  show so: "span_ordered ?out" using 2 by (simp add: resolved_def span_ordered_turn)
  have so1: "span_ordered (rev reversed)" using 1 by (simp add: resolved_def)
  have ct: "covers (turn r) x y \<longleftrightarrow> covers r (- x - 1) (- y - 1)" for r x y by (auto simp: covers_def)
  then have ct: "cover (map turn rs) x y \<longleftrightarrow> cover rs (- x - 1) (- y - 1)" for rs x y by (induction rs) auto
  have "cover dst = cover (map turn reversed)" using 2 by (simp add: resolved_def)
  then have "cover ?out x y = cover reversed x y" for x y by (simp add: ct)
  then show "cover ?out = cover rs" using 1 by (simp add: resolved_def fun_eq_iff)
  have piece: "\<exists>s \<in> set reversed. top q = top s \<and> bottom q = bottom s \<and> left s \<le> left q \<and> right q \<le> right s" if "q \<in> set ?out" for q
    using that resolved_row [OF 2] by fastforce
  have upper: "\<not> inside e p" if "q \<in> set ?out" "p \<in> set ?out" "bottom q = top p" "e \<in> edges q" for p q e
  proof -
    have "turn q \<in> set dst" "turn p \<in> set dst" using that(1,2) by auto
    moreover have "bottom (turn p) = top (turn q)" "- e \<in> edges (turn q)" using that(3,4) by auto
    ultimately have "\<not> inside (- e) (turn p)" using 2 by (intro resolved_below)
    then show ?thesis by (simp add: inside_turn)
  qed
  have lower: "\<not> inside e q" if pq: "q \<in> set ?out" "p \<in> set ?out" "bottom q = top p" "e \<in> edges p" for p q e
  proof -
    obtain p0 where p0: "p0 \<in> set reversed" "top p = top p0" "bottom p = bottom p0" using piece [OF pq(2)] by auto
    obtain q0 where q0: "q0 \<in> set reversed" "bottom q = bottom q0" "left q0 \<le> left q" "right q \<le> right q0" using piece [OF pq(1)] by auto
    have "turn p \<in> set dst" "- e \<in> edges (turn p)" using pq(2,4) by auto
    then have "(\<exists>s \<in> set (map turn reversed). top s = top (turn p) \<and> - e \<in> edges s) \<or> (\<exists>u \<in> set dst. top u = bottom (turn p) \<and> - e \<in> edges u)"
      using 2 unfolding resolved_def by blast
    then consider s where "s \<in> set reversed" "bottom s = bottom p" "e \<in> edges s" | u where "u \<in> set ?out" "bottom u = top p" "e \<in> edges u"
      by (auto simp: minus_equation_iff) force+
    then show ?thesis
    proof cases
      case 1
      then have "top s = top p" using same_row_iff [OF so1, of s p0] p0 by simp
      then have "\<not> inside e q0" using resolved_below [OF \<open>resolved rs reversed\<close> 1(1) q0(1) _ 1(3)] q0(2) pq(3) by simp
      then show ?thesis using q0(3,4) by (auto simp: inside_def)
    next
      case 2
      then have "top u = top q" using same_row_iff [OF so, of u q] pq(1,3) by simp
      then show ?thesis
        using span_ordered_comparable [OF so 2(1) pq(1)] 2(2,3) pq(3) span_ordered_nonempty [OF so 2(1)] span_ordered_nonempty [OF so pq(1)]
        by (auto simp: follows_def nonempty_def inside_def)
    qed
  qed
  show "junction_free ?out" using upper lower unfolding junction_free_def by blast
qed


lemma covers_row:
  assumes so: "span_ordered rs" and a: "a \<in> set rs" and q: "\<exists>s \<in> set rs. top q = top s \<and> bottom q = bottom s" and c: "covers q (left a) (top a)"
  shows "top q = top a"
proof -
  obtain s where s: "s \<in> set rs" "top q = top s" "bottom q = bottom s" using q by blast
  have "nonempty a" using so a by (rule span_ordered_nonempty)
  then show ?thesis using same_band(1) [OF so s(1) a, of "top a"] c s(2,3) by (simp add: covers_def nonempty_def)
qed

text \<open>The pieces have as many rows as the region had.\<close>

lemma resolved_rows:
  assumes so: "span_ordered rs" and res: "resolved rs dst" and rows: "a \<in> set rs" "b \<in> set rs" "top a \<noteq> top b"
  shows "\<exists>s \<in> set dst. top s \<noteq> top (last dst)"
proof -
  have piece: "\<exists>q \<in> set dst. top q = top a" if a: "a \<in> set rs" for a
  proof -
    have "cover rs (left a) (top a)" using a so by (auto simp: cover_iff intro: covers_corner span_ordered_nonempty)
    then have "cover dst (left a) (top a)" using res by (simp add: resolved_def)
    then obtain q where q: "q \<in> set dst" "covers q (left a) (top a)" by (auto simp: cover_iff)
    then show ?thesis using covers_row [OF so a _ q(2)] resolved_row [OF res q(1)] by blast
  qed
  then show ?thesis using rows by metis
qed

lemma grid_of:
  fixes g :: "Rect \<Rightarrow> int"
  assumes "length rs \<le> 32767"
  shows "grid (left ` set rs \<union> right ` set rs) (top ` set rs) rs"
    and "int (card (left ` set rs \<union> right ` set rs) * card (g ` set rs)) \<le> INT32_MAX"
proof -
  have c: "card (f ` set rs) \<le> length rs" for f :: "Rect \<Rightarrow> int" by (metis card_image_le card_length finite_set le_trans)
  have "card (left ` set rs \<union> right ` set rs) \<le> 2 * length rs"
    using card_Un_le [of "left ` set rs" "right ` set rs"] c [of left] c [of right] by linarith
  then have "card (left ` set rs \<union> right ` set rs) * card (g ` set rs) \<le> (2 * 32767) * 32767"
    using c [of g] assms by (intro mult_le_mono) linarith+
  then show "int (card (left ` set rs \<union> right ` set rs) * card (g ` set rs)) \<le> INT32_MAX" by linarith
qed (auto simp: grid_def)

text \<open>
  C14. \<open>Region::createTJunctionFreeRegion\<close> of a region with at least two rows of rectangles returns a region with the same points and
  bounds, its rectangles in order, in which no corner of a rectangle lies inside the horizontal side of a rectangle of a
  neighbouring row.
\<close>

theorem tjunction_free_correct:
  assumes h: "header_ok h" and rs: "span_ordered rs" "length rs \<le> 32767" and bounds: "nonempty bounds"
    and rows: "a \<in> set rs" "b \<in> set rs" "top a \<noteq> top b"
  shows "\<exists>out. createTJunctionFreeRegion h (rs @ [bounds]) = Ret (out @ [bounds]) \<and> span_ordered out \<and> junction_free out \<and>
    (\<forall>x y. Region_contains h (out @ [bounds]) x y = Region_contains h (rs @ [bounds]) x y)"
proof -
  let ?X = "left ` set rs \<union> right ` set rs"
  have "length rs \<noteq> 1" using rows by (auto simp: length_Suc_conv)
  then have l: "\<not> h_isRect h (rs @ [bounds])" "\<not> h_isEmpty h (rs @ [bounds])" "h_getBounds h (rs @ [bounds]) = bounds"
    "getArray h (rs @ [bounds]) = rs"
    using h bounds rows by (auto simp: header_ok_def getArray_def rect_count_def)
  have "\<exists>s \<in> set rs. top s \<noteq> top (last rs)" using rows by metis
  then obtain reversed where r: "reverseRectsResolvingJunctions direction_RTL rs = Ret reversed" "resolved rs reversed" "grid ?X (top ` set rs) reversed"
    using pass_rtl [OF rs(1) grid_of(1) [OF rs(2)] _ _ grid_of(2) [OF rs(2)]] by auto
  have two: "\<exists>s \<in> set reversed. top s \<noteq> top (last reversed)" using resolved_rows [OF rs(1) r(2) rows] .
  let ?Y = "uminus ` ?X" and ?U = "uminus ` bottom ` set rs"
  have g: "grid ?Y ?U (map turn reversed)"
    using r(3) resolved_row [OF r(2)] by (fastforce simp: grid_def)
  have "int (card ?Y * card ?U) \<le> INT32_MAX" using grid_of(2) [OF rs(2), of bottom] by (simp add: card_image)
  then obtain dst where d: "reverseRectsResolvingJunctions direction_LTR reversed = Ret (map turn dst)" "resolved (map turn reversed) dst"
    using pass_ltr [OF _ two g] r(2) by (auto simp: resolved_def)
  note out = two_passes [OF r(2) d(2)]
  have "map turn dst \<noteq> []" using out(2) rows(1) span_ordered_nonempty [OF rs(1) rows(1)] covers_corner by (metis cover_iff cover_simps(1))
  then have "getArray h (map turn dst @ [bounds]) = map turn dst" using h by (simp add: header_ok_def getArray_def rect_count_def)
  then have "Region_contains h (map turn dst @ [bounds]) x y = Region_contains h (rs @ [bounds]) x y" for x y
    using l(4) out(2) by (simp add: Region_contains_def contains_loop_cover)
  moreover have "createTJunctionFreeRegion h (rs @ [bounds]) = Ret (map turn dst @ [bounds])"
    using l r(1) d(1) by (simp add: createTJunctionFreeRegion_def)
  ultimately show ?thesis using out(1,3) by blast
qed

theorem tjunction_free_correct_witness:
  "\<exists>out. createTJunctionFreeRegion demo_header [rect4 0 0 10 5, rect4 0 5 5 9, rect4 0 0 10 9] = Ret (out @ [rect4 0 0 10 9]) \<and>
     span_ordered out \<and> junction_free out \<and> Region_contains demo_header (out @ [rect4 0 0 10 9]) 7 3 \<and>
     \<not> Region_contains demo_header (out @ [rect4 0 0 10 9]) 7 7"
proof -
  let ?rs = "[rect4 0 0 10 5, rect4 0 5 5 9]" and ?b = "rect4 0 0 10 9"
  have "span_ordered ?rs" "nonempty ?b" by (simp_all add: demo_simps)
  then have "\<exists>out. createTJunctionFreeRegion demo_header (?rs @ [?b]) = Ret (out @ [?b]) \<and> span_ordered out \<and> junction_free out \<and>
      (\<forall>x y. Region_contains demo_header (out @ [?b]) x y = Region_contains demo_header (?rs @ [?b]) x y)"
    by (intro tjunction_free_correct [OF demo_header_ok, where a = "rect4 0 0 10 5" and b = "rect4 0 5 5 9"]) simp_all
  moreover have "Region_contains demo_header (?rs @ [?b]) 7 3" "\<not> Region_contains demo_header (?rs @ [?b]) 7 7"
    by (simp_all add: Region_contains_def getArray_def rect_count_def demo_header_def)
  ultimately show ?thesis by auto
qed

text \<open>With a single row, the first loop runs off the start of the array.\<close>

lemma one_row_faults:
  assumes "rs \<noteq> []" "\<forall>r \<in> set rs. top r = t"
  shows "reverseRectsResolvingJunctions dir rs = Fault"
proof -
  have "first_span rs t k dst = Fault" if "k \<le> length rs" for k dst
    using that
  proof (induction k arbitrary: dst)
    case (Suc k)
    then have "0 < k \<longrightarrow> top (rs ! (k - 1)) = t" using assms(2) by simp
    then show ?case using Suc by (simp add: array_read_def Let_def)
  qed simp
  moreover have "top (rs ! (length rs - 1)) = t" using assms by simp
  ultimately show ?thesis using assms(1) by (simp add: reverseRectsResolvingJunctions_def array_read_def)
qed

end
