(* ===== verification/Spec2Isabelle.thy ===== *)
theory Spec2Isabelle
  imports Enum_Names Metadata_Props Hashmap_Props Str_Parms_Props Utf_Props Record_Stream_Props Config_Props Tag_Props Process_Utils Camera_Object_Props
    Ref_Base_Props Vector_Props Camera_Frames Camera_Settings Camera_Api_Props Graphic_Flatten
    Region_Junctions
begin

text \<open>
  \<^bold>\<open>Verification of the camera support library.\<close>

  The repository carries the part of the Android support libraries that a camera application on Linux
  needs.  The camera HAL and its clients exchange \<^emph>\<open>metadata packets\<close>, blocks of memory with tagged values; the
  tags, their types and names come from tables.  The C++ class \<open>CameraMetadata\<close> owns such a packet.  Below it lies
  \<open>cutils\<close> (hash maps, parameter strings, character conversion, record streams, configuration files) and the
  containers and reference counts of the C++ classes (\<open>VectorImpl\<close>, \<open>KeyedVector\<close>, \<open>RefBase\<close>).  Beside it lie the graphics
  memory allocator (\<open>gralloc\<close>) and its clients under \<open>ui\<close>.  On top of both stands the \<^emph>\<open>camera adapter\<close> of \<open>src/icamera_adapter\<close>: it
  gives an application a queue of buffers (\<open>qBuf\<close>, \<open>dqBuf\<close>), parameters and stream configurations on top of a camera HAL that works with
  requests, results and metadata packets.  Other source paths here are below \<open>src/android_support\<close>.

  \<^bold>\<open>How the code is modelled.\<close>
  A function becomes a function of the same name.  Its result is in \<open>'a exec\<close> (theory \<open>C_Prelude\<close>): \<open>Ret\<close>, \<open>AssertFail\<close>
  where an \<open>assert\<close> or \<open>LOG_ALWAYS_FATAL_IF\<close> aborts, \<open>Fault\<close> where memory outside an object is touched.  State that a function
  changes is an argument and a result.  Integers have the width of the code where wrapping matters (packets, tags, hashes, UTF
  arithmetic); elsewhere they are natural numbers or integers with the bounds proved.  Code outside the sources is a parameter: whether
  \<open>malloc\<close>, \<open>calloc\<close> and \<open>realloc\<close> succeed, what \<open>read\<close> returns, the vendor tag callbacks, the text of floating-point numbers, the
  comparison, hash and equality functions of a container.

  \<^bold>\<open>Theories.\<close>
  \<^item> \<open>C_Prelude\<close>, \<open>C_Strings\<close>: outcomes, memory regions with \<open>memcpy\<close> and \<open>memmove\<close>, words and alignment, C strings and
    \<open>strlcpy\<close> (\<open>cutils/strlcpy.c\<close>).
  \<^item> \<open>Tag_Constants\<close>, \<open>Tag_Tables\<close>, \<open>Enum_Names\<close>, \<open>Tag_Props\<close>: the tags of \<open>camera_metadata_tags.h\<close>, the tables of
    \<open>camera_metadata_tag_info.c\<close> entry by entry, the lookups of \<open>camera_metadata.c\<close> with vendor callbacks, and
    \<open>camera_metadata_enum_snprint\<close>.  The lookups stay inside the tables and agree on every 32-bit tag; enumerator names are printed whole
    and are unambiguous.
  \<^item> \<open>Metadata_Packet\<close>, \<open>Metadata_Ops\<close>: \<open>camera_metadata.c\<close>.  A packet is the record \<open>camera_metadata\<close>: header fields, entry slots and
    data bytes, at the address of the block.  All operations are modelled with the closing assertion each of them makes.
    \<open>Metadata_Inv\<close>, \<open>Metadata_Correct\<close>, \<open>Metadata_Edit\<close>, \<open>Metadata_Build\<close>, \<open>Metadata_Find\<close>: the invariant \<open>packet_ok\<close> and
    that every operation keeps it.  \<open>Metadata_Store\<close>: the abstract specification \<open>md_store\<close> (capacities, items, sorted mark) and the
    refinement of each operation.  \<open>Metadata_Props\<close>: the contracts, packets from untrusted bytes, and the defects.  Packets are
    below \<open>2 ^ 32\<close> bytes, as in the code.
  \<^item> \<open>Camera_Object\<close>, \<open>Camera_Object_Props\<close>: the class of \<open>CameraMetadata.cpp\<close>, a client of the packet operations.  An object is a finite map
    from tags to values, although it moves to larger packets; a locked object does not change.
  \<^item> \<open>Hashmap\<close>, \<open>Hashmap_Correct\<close>, \<open>Hashmap_Props\<close>: \<open>cutils/hashmap.c\<close>.  Under the contract of the key functions (a locale) the table is
    a finite map, also when it grows or cannot grow.  A table has fewer than \<open>2 ^ 61\<close> buckets, the largest that \<open>calloc\<close> can provide.
  \<^item> \<open>Str_Parms\<close>, \<open>Str_Parms_Correct\<close>, \<open>Str_Parms_Props\<close>: \<open>cutils/str_parms.c\<close>, a client of the hash map through an interpretation of its
    locale for strings: parsing, printing, adding and deleting parameters.
  \<^item> \<open>Utf_Convert\<close>, \<open>Utf_Correct\<close>, \<open>Utf_Props\<close>: \<open>cutils/strdup16to8.c\<close> and \<open>cutils/strdup8to16.c\<close>: the round trip, the exact sizes, and
    safety on arbitrary bytes.  Strings are shorter than \<open>2 ^ 62\<close>.
  \<^item> \<open>Record_Stream\<close>, \<open>Record_Stream_Props\<close>: \<open>cutils/record_stream.c\<close>: one call refines an abstract step, and a client receives all
    records in order.  The effort of the client loop, two calls per byte, is enough by \<open>record_stream_delivers\<close>.
  \<^item> \<open>Config_Utils\<close>, \<open>Config_Correct\<close>, \<open>Config_Props\<close>: \<open>cutils/config_utils.c\<close>: lexer, recursive-descent parser and accessors.  The parser
    runs with fuel \<open>3 * length + 3\<close>: each round consumes a token or returns, so this is enough on every file.
  \<^item> \<open>Process_Utils\<close>: \<open>cutils/multiuser.c\<close>, \<open>cutils/native_handle.c\<close>, \<open>cutils/process_name.c\<close>.
  \<^item> \<open>Ref_Base\<close>, \<open>Ref_Base_Props\<close>: \<open>RefBase.cpp\<close>.  Every method is a sequence of atomic accesses to the two counts; \<open>ref_step\<close> interleaves
    the accesses of any number of threads that keep the rules of ownership, with fewer than \<open>2 ^ 28 - 1\<close> references at a time.
    An invariant by rule induction shows that nothing is used after it is freed and that the counts are exact; a race for the
    first strong reference breaks it when a client publishes a weak reference before it holds a strong one.
  \<^item> \<open>Vector_Impl\<close>: \<open>SharedBuffer.cpp\<close> and \<open>VectorImpl.cpp\<close>.  Vectors point to counted buffers on an explicit heap and copy before
    they edit.  \<open>Vector_Correct\<close>, \<open>Vector_Ops\<close>, \<open>Vector_Items\<close>: the invariant \<open>heap_ok\<close> (every buffer counts its vectors) and the effect
    of each operation on the items of its vector and of no other.  \<open>Vector_Order\<close>: the insertion sort and the binary search, under
    the contract of a comparison function (locale \<open>vec_order\<close>), which \<open>compare_type\<close> of \<open>TypeHelpers.h\<close> meets.  \<open>Vector_Pool\<close>: every operation
    as a step of a program over lists.  \<open>Keyed_Vector\<close>: \<open>KeyedVector.h\<close> on sorted vectors.  \<open>Vector_Props\<close>: vectors are lists, sorted
    vectors ascending lists, keyed vectors finite maps; and the calls in which the code breaks this.

  \<^item> \<open>Parameter_Adapter\<close>, \<open>Parameter_Props\<close>: \<open>ParameterAdapter.cpp\<close> and \<open>Parameters.cpp\<close>, clients of the metadata objects.  Each conversion writes
    the clamped or selected value and nothing else.  The values lie outside the packet and packets stay small: \<open>settings_ok\<close> with the bound
    \<open>2 ^ k\<close>, which an update at most doubles.
  \<^item> \<open>Gralloc\<close>, \<open>Gralloc_Props\<close>, \<open>Graphic_Buffer\<close>, \<open>Graphic_Flatten\<close>: \<open>gralloc/gralloc.cpp\<close>, \<open>gralloc/mapper.cpp\<close>, \<open>ui/GraphicBufferAllocator.cpp\<close>,
    \<open>ui/GraphicBuffer.cpp\<close>.  The kernel (\<open>mmap\<close>, \<open>ashmem\<close>, \<open>new\<close>) is the parameter \<open>gralloc_env\<close>; \<open>kernel_ok\<close> is what is relied on.  The mappings of
    the process are those of the live handles; a buffer survives being passed to another process.
  \<^item> \<open>Camera_Adapter\<close>: the class of \<open>ICameraAdapter.cpp\<close>, every method split where it releases the lock.  \<open>Camera_Queue\<close>: the inductive relation
    \<open>cam_step\<close>, one uninterrupted section of the application or of the HAL, and the reachable states.  \<open>Camera_Props\<close>: the invariant
    \<open>cam_inv\<close> by rule induction.  \<open>Camera_Frames\<close>: frames are delivered in order, complete and with their own data, when the HAL sends a buffer after
    the metadata of all earlier frames, and are mixed up otherwise.  Frame numbers stay below \<open>2 ^ 31\<close>, where the counter of the code overflows.
  \<^item> \<open>Camera_Settings\<close>: \<open>setParameters\<close> refines a function on maps from tags to values.
  \<^item> \<open>Camera_Api\<close>, \<open>Camera_Api_Props\<close>: the C interface of \<open>ICameraAdapter.cpp\<close> and \<open>camera_hal_init\<close>: which streams an application
    is told of, for at most 1024 outputs, as many as the packet of the code holds.

  \<^item> \<open>Ui_Rect\<close>: \<open>ui/Point.h\<close>, \<open>ui/Rect.h\<close>, \<open>ui/Rect.cpp\<close>, with the points each operation covers.  \<open>Ui_Region\<close>: \<open>ui/Region.cpp\<close>.  The headers of regions
    are not part of the sources; their inline functions and the region operator are the parameter \<open>region_header\<close>, and \<open>header_ok\<close> is what is relied on.
    \<open>Region_Canonical\<close>: a set of points has at most one canonical list of rectangles.  \<open>Region_Raster\<close>: the invariant of the
    rasterizer, which makes this list.  \<open>Region_Props\<close>: validation accepts it, and regions survive flattening and translation; coordinates are below
    \<open>2 ^ 30\<close> where their differences must not overflow.  \<open>Region_Junctions\<close>: the removal of T-junctions, for at most 32767 rectangles, so
    that the pieces, at most one for each edge and row, can be counted in an \<open>int\<close>.

  \<^bold>\<open>Not modelled.\<close>
  The dump functions of the metadata packets and regions, and logging: they only print.  The strings (\<open>String8\<close>, \<open>String16\<close>, \<open>Unicode.cpp\<close>) serve
  messages here.  Mutexes inside \<open>hashmap.c\<close>: the table is used by one thread.
  \<open>fs_config.c\<close> needs a private header that the sources do not have.  Sockets, properties, tracing, scheduling policies and files are
  sequences of system calls, as are \<open>Threads.cpp\<close>, the frame buffer driver and the fences.  \<open>s_notify\<close> only logs; the many accessors of
  \<open>Parameters.cpp\<close> that only return \<open>OK\<close> have no effect.  The camera HAL is not part of the sources: what it does is the environment of \<open>cam_step\<close>
  or a parameter.  The computer vision elements under \<open>pvl\<close> call GTK, GStreamer and a closed library; the programs under \<open>unittests\<close> test a HAL on
  hardware.
\<close>

end
